(* ===== verification/Prelude.thy ===== *)
theory Prelude
  imports Main "HOL-Library.List_Lexorder" "HOL-Library.Char_ord"
begin

text \<open>
  Shared vocabulary of the development. It holds the fragment of Python's standard library
  that the modelled code uses on strings and lists, the ``append when absent'' loop that the
  authorisation, listing and key-history code all contain, table operations (first matching
  row, update of the matching rows) for the database queries, and the collections of facts
  that the component theories add to.

  Conventions. A Python string is a \<^typ>\<open>string\<close>, one \<^typ>\<open>char\<close> per code point; case
  mapping and white space are those of ASCII. A Python \<open>int\<close> is an \<^typ>\<open>int\<close>. A \<open>datetime\<close>
  is an \<^typ>\<open>int\<close>, the number of microseconds since a fixed epoch in UTC. A column that may be
  NULL is an \<open>option\<close>. A query that returns rows is a list in the order the query gives.
\<close>

named_theorems ucm_eval \<open>equations that compute the model on a concrete input\<close>
named_theorems ucm_tables \<open>definitions of the constant tables of the program\<close>

type_synonym datetime = int

abbreviation seconds :: "int \<Rightarrow> int" where "seconds n \<equiv> n * 1000000"
abbreviation minutes :: "int \<Rightarrow> int" where "minutes n \<equiv> seconds (n * 60)"
abbreviation hours :: "int \<Rightarrow> int" where "hours n \<equiv> minutes (n * 60)"
abbreviation days :: "int \<Rightarrow> int" where "days n \<equiv> hours (n * 24)"

section \<open>Decoded JSON\<close>

text \<open>
  A text column that holds JSON is modelled by the value \<open>json.loads\<close> gives. Numbers other than
  integers are told apart (\<open>JFloat\<close>, taken to be other than zero) and carry no value: no modelled
  code computes with one.
\<close>

datatype json =
    JNull
  | JBool bool
  | JInt int
  | JFloat
  | JStr string
  | JList "json list"
  | JDict "(string \<times> json) list"

datatype py_error = TypeError | ValueError | KeyError | AttributeError

fun json_hashable :: "json \<Rightarrow> bool" where
  "json_hashable (JList xs) = False"
| "json_hashable (JDict kvs) = False"
| "json_hashable _ = True"

text \<open>\<open>[p for p in xs if isinstance(p, str)]\<close>.\<close>

fun json_strings :: "json list \<Rightarrow> string list" where
  "json_strings [] = []"
| "json_strings (JStr s # xs) = s # json_strings xs"
| "json_strings (_ # xs) = json_strings xs"

lemma in_json_strings: "s \<in> set (json_strings xs) \<longleftrightarrow> JStr s \<in> set xs"
  by (induction xs rule: json_strings.induct) auto

text \<open>The truth value of a decoded value, and \<open>value.get(key, default)\<close>, which only a dict has.\<close>

fun json_truthy :: "json \<Rightarrow> bool" where
  "json_truthy JNull = False"
| "json_truthy (JBool b) = b"
| "json_truthy (JInt n) = (n \<noteq> 0)"
| "json_truthy JFloat = True"
| "json_truthy (JStr s) = (s \<noteq> [])"
| "json_truthy (JList xs) = (xs \<noteq> [])"
| "json_truthy (JDict kvs) = (kvs \<noteq> [])"

fun json_get :: "json \<Rightarrow> string \<Rightarrow> json \<Rightarrow> py_error + json" where
  "json_get (JDict kvs) key dflt = Inr (case map_of kvs key of None \<Rightarrow> dflt | Some v \<Rightarrow> v)"
| "json_get _ key dflt = Inl AttributeError"

text \<open>A text column that holds JSON: NULL, a text that does not decode, or a value.\<close>

datatype json_text = No_Text | Bad_Text | Json_Text json

text \<open>Sequencing of a computation that may raise.\<close>

definition sum_bind :: "'e + 'a \<Rightarrow> ('a \<Rightarrow> 'e + 'b) \<Rightarrow> 'e + 'b" where
  "sum_bind m f = (case m of Inl e \<Rightarrow> Inl e | Inr x \<Rightarrow> f x)"

lemma sum_bind_simps [simp]: "sum_bind (Inl e) f = Inl e" "sum_bind (Inr x) f = f x"
  by (simp_all add: sum_bind_def)

lemma sum_bind_InrD: "sum_bind m f = Inr y \<Longrightarrow> \<exists>x. m = Inr x \<and> f x = Inr y"
  by (cases m) auto

section \<open>Strings\<close>

definition starts_with :: "string \<Rightarrow> string \<Rightarrow> bool" where
  "starts_with s p \<longleftrightarrow> take (length p) s = p"

definition ends_with :: "string \<Rightarrow> string \<Rightarrow> bool" where
  "ends_with s p \<longleftrightarrow> starts_with (rev s) (rev p)"

fun substring :: "string \<Rightarrow> string \<Rightarrow> bool" where
  "substring p [] = (p = [])"
| "substring p (c # cs) = (starts_with (c # cs) p \<or> substring p cs)"

text \<open>\<open>str.lower\<close>, \<open>str.upper\<close> and \<open>str.strip\<close> on ASCII.\<close>

definition ascii_code :: "char \<Rightarrow> nat" where
  "ascii_code c = of_char c"

definition is_upper :: "char \<Rightarrow> bool" where
  "is_upper c \<longleftrightarrow> 65 \<le> ascii_code c \<and> ascii_code c \<le> 90"

definition is_lower :: "char \<Rightarrow> bool" where
  "is_lower c \<longleftrightarrow> 97 \<le> ascii_code c \<and> ascii_code c \<le> 122"

definition is_digit :: "char \<Rightarrow> bool" where
  "is_digit c \<longleftrightarrow> 48 \<le> ascii_code c \<and> ascii_code c \<le> 57"

definition is_space :: "char \<Rightarrow> bool" where
  "is_space c \<longleftrightarrow> ascii_code c = 32 \<or> (9 \<le> ascii_code c \<and> ascii_code c \<le> 13)
     \<or> (28 \<le> ascii_code c \<and> ascii_code c \<le> 31)"

definition lower_char :: "char \<Rightarrow> char" where
  "lower_char c = (if is_upper c then char_of (ascii_code c + 32) else c)"

definition upper_char :: "char \<Rightarrow> char" where
  "upper_char c = (if is_lower c then char_of (ascii_code c - 32) else c)"

definition py_lower :: "string \<Rightarrow> string" where
  "py_lower s = map lower_char s"

definition py_upper :: "string \<Rightarrow> string" where
  "py_upper s = map upper_char s"

definition py_strip :: "string \<Rightarrow> string" where
  "py_strip s = rev (dropWhile is_space (rev (dropWhile is_space s)))"

text \<open>\<open>s.split(c)\<close> with a one-character separator: never empty, the separators left out.\<close>

fun py_split :: "char \<Rightarrow> string \<Rightarrow> string list" where
  "py_split c [] = [[]]"
| "py_split c (x # xs) =
     (if x = c then [] # py_split c xs
      else (case py_split c xs of [] \<Rightarrow> [[x]] | w # ws \<Rightarrow> (x # w) # ws))"

text \<open>\<open>s.split(c, 1)[0]\<close>, \<open>s.split(c, 1)[1]\<close> (the latter after a separator was found), and
  \<open>sep.join(parts)\<close>.\<close>

definition before_sep :: "char \<Rightarrow> string \<Rightarrow> string" where
  "before_sep c s = takeWhile (\<lambda>x. x \<noteq> c) s"

definition after_sep :: "char \<Rightarrow> string \<Rightarrow> string" where
  "after_sep c s = tl (dropWhile (\<lambda>x. x \<noteq> c) s)"

fun py_join :: "string \<Rightarrow> string list \<Rightarrow> string" where
  "py_join sep [] = []"
| "py_join sep [w] = w"
| "py_join sep (w # ws) = w @ sep @ py_join sep ws"

definition py_remove :: "char \<Rightarrow> string \<Rightarrow> string" where
  "py_remove c s = filter (\<lambda>x. x \<noteq> c) s"

text \<open>
  \<open>int(text)\<close> and \<open>int(text, 16)\<close>: surrounding white space, one sign, then digits of the base with
  single underscores between them; base 16 also takes a \<open>0x\<close> prefix. \<open>None\<close> is \<open>ValueError\<close>.
\<close>

definition digit_value :: "char \<Rightarrow> nat option" where
  "digit_value c =
     (if is_digit c then Some (ascii_code c - 48)
      else if is_lower c then Some (ascii_code c - 87)
      else if is_upper c then Some (ascii_code c - 55) else None)"

fun scan_digits :: "nat \<Rightarrow> bool \<Rightarrow> nat \<Rightarrow> string \<Rightarrow> nat option" where
  "scan_digits b prev acc [] = (if prev then Some acc else None)"
| "scan_digits b prev acc (c # cs) =
     (if c = CHR ''_'' then (if prev then scan_digits b False acc cs else None)
      else (case digit_value c of
              None \<Rightarrow> None
            | Some d \<Rightarrow> if d < b then scan_digits b True (acc * b + d) cs else None))"

definition scan_number :: "nat \<Rightarrow> string \<Rightarrow> nat option" where
  "scan_number b t =
     (if b = 16 \<and> starts_with (py_lower t) ''0x''
      then (case drop 2 t of
              [] \<Rightarrow> None
            | c # cs \<Rightarrow> scan_digits b False 0 (if c = CHR ''_'' then cs else c # cs))
      else scan_digits b False 0 t)"

definition py_int :: "nat \<Rightarrow> string \<Rightarrow> int option" where
  "py_int b s =
     (case py_strip s of
        [] \<Rightarrow> None
      | c # cs \<Rightarrow>
          if c = CHR ''-'' then map_option (\<lambda>n. - int n) (scan_number b cs)
          else if c = CHR ''+'' then map_option int (scan_number b cs)
          else map_option int (scan_number b (c # cs)))"

text \<open>\<open>str\<close> of an integer.\<close>

fun show_digits :: "nat \<Rightarrow> string" where
  "show_digits n = (if n < 10 then [char_of (48 + n)]
                    else show_digits (n div 10) @ [char_of (48 + n mod 10)])"

declare show_digits.simps [simp del]

definition show_int :: "int \<Rightarrow> string" where
  "show_int i = (if i < 0 then CHR ''-'' # show_digits (nat (- i)) else show_digits (nat i))"

lemmas string_defs [ucm_eval] =
  digit_value_def scan_number_def py_int_def char_of_def bit_0
  starts_with_def ends_with_def ascii_code_def is_upper_def is_lower_def is_digit_def
  is_space_def lower_char_def upper_char_def py_lower_def py_upper_def py_strip_def
  before_sep_def after_sep_def py_remove_def

lemma starts_with_Nil [simp]: "starts_with s []"
  by (simp add: starts_with_def)

lemma starts_with_append [simp]: "starts_with (p @ s) p"
  by (simp add: starts_with_def)

lemma starts_with_iff: "starts_with s p \<longleftrightarrow> (\<exists>t. s = p @ t)"
  unfolding starts_with_def by (metis append_eq_conv_conj append_take_drop_id)

lemma starts_with_length: "starts_with s p \<Longrightarrow> length p \<le> length s"
  by (auto simp: starts_with_iff)

lemma ends_with_iff: "ends_with s p \<longleftrightarrow> (\<exists>t. s = t @ p)"
proof
  assume "ends_with s p"
  then obtain t where "rev s = rev p @ t"
    by (auto simp: ends_with_def starts_with_iff)
  then have "s = rev t @ p"
    by (metis rev_append rev_rev_ident)
  then show "\<exists>t. s = t @ p" by blast
qed (auto simp: ends_with_def)

lemma substring_iff: "substring p s \<longleftrightarrow> (\<exists>u v. s = u @ p @ v)"
proof (induction s)
  case Nil
  then show ?case by simp
next
  case (Cons c s)
  show ?case
  proof
    assume "substring p (c # s)"
    then consider t where "c # s = p @ t" | "substring p s"
      by (auto simp: starts_with_iff)
    then show "\<exists>u v. c # s = u @ p @ v"
    proof cases
      case 1
      then have "c # s = [] @ p @ t" by simp
      then show ?thesis by blast
    next
      case 2
      then obtain u v where "s = u @ p @ v" using Cons.IH by blast
      then have "c # s = (c # u) @ p @ v" by simp
      then show ?thesis by blast
    qed
  next
    assume "\<exists>u v. c # s = u @ p @ v"
    then obtain u v where eq: "c # s = u @ p @ v" by blast
    show "substring p (c # s)"
    proof (cases u)
      case Nil
      with eq have "starts_with (c # s) p" unfolding starts_with_iff by auto
      then show ?thesis by simp
    next
      case (Cons a u')
      with eq have "s = u' @ p @ v" by simp
      then show ?thesis using Cons.IH by auto
    qed
  qed
qed

lemma py_split_not_Nil [simp]: "py_split c s \<noteq> []"
  by (induction s) (auto split: list.splits)

lemma hd_py_split: "hd (py_split c s) = before_sep c s"
proof (induction s)
  case Nil
  then show ?case by (simp add: before_sep_def)
next
  case (Cons x xs)
  then show ?case
    by (cases "py_split c xs") (auto simp: before_sep_def)
qed

lemma py_split_no_sep: "w \<in> set (py_split c s) \<Longrightarrow> c \<notin> set w"
proof (induction s arbitrary: w)
  case Nil
  then show ?case by simp
next
  case (Cons x xs)
  then show ?case
    by (cases "py_split c xs") (auto split: if_splits)
qed

lemma join_py_split: "py_join [c] (py_split c s) = s"
proof (induction s)
  case Nil
  then show ?case by simp
next
  case (Cons x xs)
  obtain w ws where "py_split c xs = w # ws"
    by (cases "py_split c xs") auto
  with Cons.IH show ?case by (cases ws) auto
qed

lemma before_after_sep: "c \<in> set s \<Longrightarrow> s = before_sep c s @ c # after_sep c s"
  by (induction s) (auto simp: before_sep_def after_sep_def)

lemma before_sep_append: "c \<notin> set u \<Longrightarrow> before_sep c (u @ c # v) = u"
  by (induction u) (auto simp: before_sep_def)

lemma after_sep_append: "c \<notin> set u \<Longrightarrow> after_sep c (u @ c # v) = v"
  by (induction u) (auto simp: after_sep_def)

lemma sep_notin_before_sep: "c \<notin> set (before_sep c s)"
  by (induction s) (auto simp: before_sep_def)

lemma py_strip_no_space: "\<forall>c \<in> set s. \<not> is_space c \<Longrightarrow> py_strip s = s"
  by (simp add: py_strip_def dropWhile_eq_self_iff) (metis dropWhile_eq_self_iff hd_in_set rev_is_Nil_conv rev_rev_ident set_rev)

lemma lower_char_idem [simp]: "lower_char (lower_char c) = lower_char c"
proof -
  have "of_char (char_of (of_char c + 32 :: nat) :: char) = (of_char c + 32 :: nat)"
    if "of_char c \<le> (90 :: nat)"
    using that by simp
  then show ?thesis
    by (auto simp: lower_char_def is_upper_def ascii_code_def)
qed

lemma py_lower_idem [simp]: "py_lower (py_lower s) = py_lower s"
  by (simp add: py_lower_def)

lemma length_py_lower [simp]: "length (py_lower s) = length s"
  by (simp add: py_lower_def)

lemma py_lower_append [simp]: "py_lower (s @ t) = py_lower s @ py_lower t"
  by (simp add: py_lower_def)

text \<open>Printing an integer and reading it back.\<close>

lemma ascii_code_char_of [simp]: "n < 256 \<Longrightarrow> ascii_code (char_of n) = n"
  by (simp add: ascii_code_def)

definition plain_digits :: "string \<Rightarrow> bool" where
  "plain_digits s \<longleftrightarrow> s \<noteq> [] \<and> (\<forall>c \<in> set s. is_digit c)"

fun digits_value :: "nat \<Rightarrow> string \<Rightarrow> nat" where
  "digits_value acc [] = acc"
| "digits_value acc (c # cs) = digits_value (acc * 10 + (ascii_code c - 48)) cs"

lemma scan_plain_digits:
  "\<forall>c \<in> set s. is_digit c \<Longrightarrow> prev \<or> s \<noteq> [] \<Longrightarrow> scan_digits 10 prev acc s = Some (digits_value acc s)"
proof (induction s arbitrary: prev acc)
  case (Cons c s)
  have "c \<noteq> CHR ''_''" using Cons.prems(1) by (auto simp: is_digit_def ascii_code_def)
  then show ?case
    using Cons by (auto simp: digit_value_def is_digit_def)
qed simp

lemma digits_value_append: "digits_value acc (xs @ [c]) = digits_value acc xs * 10 + (ascii_code c - 48)"
  by (induction xs arbitrary: acc) auto

lemma show_digits_plain: "plain_digits (show_digits n)"
  by (induction n rule: show_digits.induct) (subst show_digits.simps, auto simp: plain_digits_def is_digit_def)

lemma digits_value_show: "digits_value 0 (show_digits n) = n"
  by (induction n rule: show_digits.induct) (subst show_digits.simps, auto simp: digits_value_append)

lemma py_strip_plain: "plain_digits s \<Longrightarrow> py_strip s = s"
proof -
  have *: "dropWhile is_space xs = xs" if "\<forall>c \<in> set xs. is_digit c" for xs
    using that by (cases xs) (auto simp: is_digit_def is_space_def)
  show "py_strip s = s" if "plain_digits s"
    using that *[of s] *[of "rev s"] by (simp add: py_strip_def plain_digits_def)
qed

lemma py_int_plain: "plain_digits s \<Longrightarrow> py_int 10 s = Some (int (digits_value 0 s))"
proof -
  assume s: "plain_digits s"
  then obtain c cs where c: "s = c # cs" "is_digit c" by (cases s) (auto simp: plain_digits_def)
  have "c \<noteq> CHR ''-''" "c \<noteq> CHR ''+''" using c(2) by (auto simp: is_digit_def ascii_code_def)
  then show ?thesis
    using s c scan_plain_digits[of s False 0] py_strip_plain[OF s]
    by (simp add: py_int_def scan_number_def plain_digits_def)
qed

lemma py_int_show_nonneg: "0 \<le> n \<Longrightarrow> py_int 10 (show_int n) = Some n"
  using py_int_plain[OF show_digits_plain, of "nat n"] by (simp add: show_int_def digits_value_show)

lemma show_digits_inj: "show_digits m = show_digits n \<Longrightarrow> m = n"
  by (metis digits_value_show)

lemma hd_show_digits: "hd (show_digits n) \<noteq> CHR ''-''"
  using show_digits_plain[of n]
  by (cases "show_digits n") (auto simp: plain_digits_def is_digit_def ascii_code_def)

lemma show_int_inj [simp]: "show_int m = show_int n \<longleftrightarrow> m = n"
  using hd_show_digits[of "nat m"] hd_show_digits[of "nat n"] show_digits_inj
  by (auto simp: show_int_def split: if_splits dest!: show_digits_inj)
    (metis list.sel(1))+

lemma show_int_no_sep: "\<not> is_digit c \<Longrightarrow> c \<noteq> CHR ''-'' \<Longrightarrow> c \<notin> set (show_int n)"
  using show_digits_plain[of "nat n"] show_digits_plain[of "nat (- n)"]
  by (auto simp: show_int_def plain_digits_def)

section \<open>Lists\<close>

text \<open>The loop \<open>for x in xs: if x not in acc: acc.append(x)\<close>.\<close>

definition append_new :: "'a list \<Rightarrow> 'a \<Rightarrow> 'a list" where
  "append_new acc x = (if x \<in> set acc then acc else acc @ [x])"

definition extend_new :: "'a list \<Rightarrow> 'a list \<Rightarrow> 'a list" where
  "extend_new acc xs = foldl append_new acc xs"

lemmas append_new_defs [ucm_eval] = append_new_def extend_new_def

lemma set_append_new [simp]: "set (append_new acc x) = insert x (set acc)"
  by (auto simp: append_new_def)

lemma distinct_append_new [simp]: "distinct acc \<Longrightarrow> distinct (append_new acc x)"
  by (auto simp: append_new_def)

lemma extend_new_Nil [simp]: "extend_new acc [] = acc"
  by (simp add: extend_new_def)

lemma extend_new_Cons [simp]: "extend_new acc (x # xs) = extend_new (append_new acc x) xs"
  by (simp add: extend_new_def)

lemma set_extend_new [simp]: "set (extend_new acc xs) = set acc \<union> set xs"
  by (induction xs arbitrary: acc) auto

lemma distinct_extend_new: "distinct acc \<Longrightarrow> distinct (extend_new acc xs)"
  by (induction xs arbitrary: acc) auto

lemma extend_new_prefix: "\<exists>ys. extend_new acc xs = acc @ ys"
proof (induction xs arbitrary: acc)
  case Nil
  then show ?case by simp
next
  case (Cons x xs)
  then show ?case
    by (metis append_assoc append_new_def extend_new_Cons)
qed

lemma extend_new_distinct_id:
  "distinct xs \<Longrightarrow> set acc \<inter> set xs = {} \<Longrightarrow> extend_new acc xs = acc @ xs"
  by (induction xs arbitrary: acc) (auto simp: append_new_def)

text \<open>\<open>sorted\<close> of a set of strings given by the list of its elements: code point order.\<close>

definition sorted_set :: "string list \<Rightarrow> string list" where
  "sorted_set xs = sort (remdups xs)"

lemma set_sorted_set [simp]: "set (sorted_set xs) = set xs"
  by (simp add: sorted_set_def)

lemma distinct_sorted_set [simp]: "distinct (sorted_set xs)"
  by (simp add: sorted_set_def)

lemma sorted_sorted_set [simp]: "sorted (sorted_set xs)"
  by (simp add: sorted_set_def)

text \<open>\<open>query.first()\<close> over the rows in query order, and a bulk \<open>update\<close> of the rows that match,
  with the number of rows it touched.\<close>

definition first_row :: "('r \<Rightarrow> bool) \<Rightarrow> 'r list \<Rightarrow> 'r option" where
  "first_row p rows = List.find p rows"

definition update_rows :: "('r \<Rightarrow> bool) \<Rightarrow> ('r \<Rightarrow> 'r) \<Rightarrow> 'r list \<Rightarrow> 'r list" where
  "update_rows p f rows = map (\<lambda>r. if p r then f r else r) rows"

definition count_rows :: "('r \<Rightarrow> bool) \<Rightarrow> 'r list \<Rightarrow> nat" where
  "count_rows p rows = length (filter p rows)"

lemmas row_defs [ucm_eval] = first_row_def update_rows_def count_rows_def

lemma first_row_SomeD: "first_row p rows = Some r \<Longrightarrow> r \<in> set rows \<and> p r"
  by (auto simp: first_row_def find_Some_iff)

lemma first_row_None_iff: "first_row p rows = None \<longleftrightarrow> (\<forall>r \<in> set rows. \<not> p r)"
  by (auto simp: first_row_def find_None_iff)

lemma first_row_append:
  "first_row p (xs @ ys) = (case first_row p xs of None \<Rightarrow> first_row p ys | Some r \<Rightarrow> Some r)"
  by (induction xs) (auto simp: first_row_def)

lemma count_rows_pos: "0 < count_rows p rows \<longleftrightarrow> (\<exists>r \<in> set rows. p r)"
  by (induction rows) (auto simp: count_rows_def)

lemma length_update_rows [simp]: "length (update_rows p f rows) = length rows"
  by (simp add: update_rows_def)

lemma set_update_rows: "set (update_rows p f rows) = (\<lambda>r. if p r then f r else r) ` set rows"
  by (simp add: update_rows_def)

lemma update_rows_none: "\<forall>r \<in> set rows. \<not> p r \<Longrightarrow> update_rows p f rows = rows"
  by (induction rows) (auto simp: update_rows_def)

end
