(* ===== verification/Permissions.thy ===== *)
theory Permissions
  imports Prelude
begin

text \<open>
  Role-based permissions: \<^verbatim>\<open>auth/permissions.py\<close>, with the two tables it reads
  (\<^verbatim>\<open>models/rbac.py\<close>, \<^verbatim>\<open>models/group.py\<close>). A user holds a built-in role, may hold a custom
  role (which inherits from a chain of others) and may belong to groups; the effective
  permissions are the union. The theory shows that no stored custom role or group, however it
  reached the database, gives a non-administrator a permission reserved for administrators,
  and that the inheritance walk stops whatever the stored links are.
\<close>

section \<open>The permission tables\<close>

definition operator_permissions :: "string list" where
  "operator_permissions =
    [''read:certificates'', ''write:certificates'', ''read:user_certificates'',
     ''write:user_certificates'', ''delete:user_certificates'', ''read:cas'', ''write:cas'',
     ''read:csrs'', ''write:csrs'', ''delete:csrs'', ''read:templates'', ''read:truststore'',
     ''write:truststore'', ''read:crl'', ''write:crl'', ''read:acme'', ''write:acme'',
     ''delete:acme'', ''read:scep'', ''read:est'', ''read:xcep'', ''read:wstep'',
     ''read:kerberos'', ''read:ad_connector'', ''read:hsm'', ''read:ssh'', ''write:ssh'',
     ''delete:ssh'', ''read:ssh_cas'', ''write:ssh_cas'', ''delete:ssh_cas'', ''read:policies'',
     ''read:approvals'', ''write:approvals'', ''read:key_recovery'', ''write:key_recovery'',
     ''read:audit'', ''read:settings'', ''write:settings'', ''read:groups'', ''write:groups'']"

definition auditor_permissions :: "string list" where
  "auditor_permissions =
    [''read:certificates'', ''read:user_certificates'', ''read:cas'', ''read:csrs'',
     ''read:templates'', ''read:truststore'', ''read:crl'', ''read:acme'', ''read:scep'',
     ''read:est'', ''read:xcep'', ''read:wstep'', ''read:kerberos'', ''read:ad_connector'',
     ''read:hsm'', ''read:ssh'', ''read:ssh_cas'', ''read:policies'', ''read:approvals'',
     ''read:audit'', ''read:groups'']"

definition viewer_permissions :: "string list" where
  "viewer_permissions =
    [''read:certificates'', ''read:user_certificates'', ''read:cas'', ''read:csrs'',
     ''read:templates'', ''read:truststore'', ''read:ssh'', ''read:ssh_cas'']"

definition ROLE_PERMISSIONS :: "(string \<times> string list) list" where
  "ROLE_PERMISSIONS =
    [(''admin'', [''*'']), (''operator'', operator_permissions),
     (''auditor'', auditor_permissions), (''viewer'', viewer_permissions)]"

definition BUILTIN_ROLES :: "string list" where
  "BUILTIN_ROLES = map fst ROLE_PERMISSIONS"

definition ADMIN_ONLY_RESOURCES :: "string list" where
  "ADMIN_ONLY_RESOURCES = [''users'', ''system'', ''sso'', ''private_keys'', ''deploy'']"

definition VALID_RESOURCES :: "string list" where
  "VALID_RESOURCES =
     sorted_set (map (after_sep CHR '':'')
        (filter (\<lambda>perm. CHR '':'' \<in> set perm) (concat (map snd ROLE_PERMISSIONS)))
      @ ADMIN_ONLY_RESOURCES)"

definition GROUP_GRANTABLE_PERMISSIONS :: "string list" where
  "GROUP_GRANTABLE_PERMISSIONS =
     sorted_set (filter (\<lambda>perm. CHR '':'' \<in> set perm \<and> \<not> starts_with perm ''admin:'')
       (concat (map snd ROLE_PERMISSIONS)))"

definition RESERVED_PERMISSIONS :: "string list" where
  "RESERVED_PERMISSIONS =
    [''write:users'', ''delete:users'', ''read:sso'', ''write:sso'', ''delete:sso'',
     ''read:deploy'', ''write:deploy'', ''delete:deploy'', ''read:system'', ''delete:audit'',
     ''write:ad_connector'', ''write:hsm'']"

definition is_reserved_permission :: "json \<Rightarrow> bool" where
  "is_reserved_permission perm =
     (case perm of
        JStr s \<Rightarrow> CHR ''*'' \<in> set s \<or> before_sep CHR '':'' s = ''admin''
                  \<or> s \<in> set RESERVED_PERMISSIONS
      | _ \<Rightarrow> True)"

definition custom_role_grantable_set :: "string list" where
  "custom_role_grantable_set =
    [''read:acme'', ''write:acme'', ''delete:acme'', ''read:ad_connector'', ''read:approvals'',
     ''write:approvals'', ''read:audit'', ''export:audit'', ''read:cas'', ''write:cas'',
     ''delete:cas'', ''read:certificates'', ''write:certificates'', ''delete:certificates'',
     ''read:crl'', ''write:crl'', ''read:csrs'', ''write:csrs'', ''delete:csrs'', ''read:est'',
     ''write:est'', ''read:groups'', ''write:groups'', ''delete:groups'', ''read:hsm'',
     ''delete:hsm'', ''read:kerberos'', ''write:kerberos'', ''read:key_recovery'',
     ''write:key_recovery'', ''read:policies'', ''write:policies'', ''delete:policies'',
     ''read:private_keys'', ''read:scep'', ''write:scep'', ''read:settings'', ''write:settings'',
     ''delete:settings'', ''read:ssh'', ''write:ssh'', ''delete:ssh'', ''read:ssh_cas'',
     ''write:ssh_cas'', ''delete:ssh_cas'', ''read:templates'', ''write:templates'',
     ''delete:templates'', ''read:truststore'', ''write:truststore'', ''delete:truststore'',
     ''read:user_certificates'', ''write:user_certificates'', ''delete:user_certificates'',
     ''read:users'', ''read:wstep'', ''write:wstep'', ''read:xcep'', ''write:xcep'']"

definition CUSTOM_ROLE_GRANTABLE_PERMISSIONS :: "string list" where
  "CUSTOM_ROLE_GRANTABLE_PERMISSIONS = sorted_set custom_role_grantable_set"

lemmas permission_tables [ucm_tables] =
  operator_permissions_def auditor_permissions_def viewer_permissions_def ROLE_PERMISSIONS_def
  RESERVED_PERMISSIONS_def custom_role_grantable_set_def ADMIN_ONLY_RESOURCES_def

section \<open>Normalisation and the restore of old backups\<close>

text \<open>\<open>_SSH_CA_SCOPES\<close> maps \<open>X:ssh\<close> to \<open>X:ssh_cas\<close> for the three actions.\<close>

definition SSH_CA_SCOPES :: "string \<Rightarrow> string option" where
  "SSH_CA_SCOPES = map_of (map (\<lambda>action. (action @ '':ssh'', action @ '':ssh_cas''))
     [''read'', ''write'', ''delete''])"

definition ssh_scope_added :: "json \<Rightarrow> json option" where
  "ssh_scope_added perm =
     (case perm of JStr s \<Rightarrow> map_option JStr (SSH_CA_SCOPES s) | _ \<Rightarrow> None)"

definition ssh_scope_step :: "json list \<Rightarrow> json list \<Rightarrow> json \<Rightarrow> json list" where
  "ssh_scope_step perms out perm =
     (let out = append_new out perm
      in case ssh_scope_added perm of
           None \<Rightarrow> out
         | Some added \<Rightarrow>
             if added \<notin> set perms \<and> added \<notin> set out then out @ [added] else out)"

definition with_ssh_ca_scopes :: "json list \<Rightarrow> json list" where
  "with_ssh_ca_scopes perms = foldl (ssh_scope_step perms) [] perms"

definition LEGACY_RESOURCE_ALIASES :: "(string \<times> string) list" where
  "LEGACY_RESOURCE_ALIASES = [(''certs'', ''certificates'')]"

definition normalize_permission :: "json \<Rightarrow> json" where
  "normalize_permission perm =
     (case perm of
        JStr s \<Rightarrow>
          if CHR '':'' \<notin> set s then perm
          else let action = before_sep CHR '':'' s; resource = after_sep CHR '':'' s
               in JStr (action @ '':'' @
                    (case map_of LEGACY_RESOURCE_ALIASES resource of
                       None \<Rightarrow> resource | Some r \<Rightarrow> r))
      | _ \<Rightarrow> perm)"

section \<open>Custom roles\<close>

record custom_role =
  cr_id :: int
  cr_permissions :: "json list option"
  cr_inherits_from :: "int option"

definition get_role :: "custom_role list \<Rightarrow> int \<Rightarrow> custom_role option" where
  "get_role roles i = first_row (\<lambda>r. cr_id r = i) roles"

definition role_parent :: "custom_role list \<Rightarrow> custom_role \<Rightarrow> custom_role option" where
  "role_parent roles r =
     (case cr_inherits_from r of None \<Rightarrow> None | Some i \<Rightarrow> get_role roles i)"

definition MAX_ROLE_DEPTH :: nat where
  "MAX_ROLE_DEPTH = 64"

text \<open>The \<open>while\<close> loop of \<open>custom_role_chain\<close>; \<open>seen\<close> is the set of ids met so far.\<close>

function chain_loop ::
  "custom_role list \<Rightarrow> custom_role option \<Rightarrow> int list \<Rightarrow> custom_role list \<Rightarrow> custom_role list"
where
  "chain_loop roles role seen chain =
     (case role of
        None \<Rightarrow> chain
      | Some r \<Rightarrow>
          if cr_id r \<notin> set seen \<and> length chain < MAX_ROLE_DEPTH
          then chain_loop roles (role_parent roles r) (cr_id r # seen) (chain @ [r])
          else chain)"
  by pat_completeness auto
termination
  by (relation "measure (\<lambda>(roles, role, seen, chain). MAX_ROLE_DEPTH - length chain)") auto

declare chain_loop.simps [simp del]

definition custom_role_chain ::
  "custom_role list \<Rightarrow> custom_role option \<Rightarrow> custom_role list" where
  "custom_role_chain roles role = chain_loop roles role [] []"

text \<open>
  \<open>perm in grantable\<close> hashes the stored value: a list or an object inside a stored permission
  list raises \<open>TypeError\<close>.
\<close>

fun collect_grantable :: "string list \<Rightarrow> json list \<Rightarrow> py_error + string list" where
  "collect_grantable granted [] = Inr granted"
| "collect_grantable granted (p # ps) =
     (case normalize_permission p of
        JStr s \<Rightarrow>
          if s \<in> set CUSTOM_ROLE_GRANTABLE_PERMISSIONS \<and> s \<notin> set granted
          then collect_grantable (granted @ [s]) ps
          else collect_grantable granted ps
      | other \<Rightarrow>
          if json_hashable other then collect_grantable granted ps else Inl TypeError)"

definition custom_role_permissions ::
  "custom_role list \<Rightarrow> custom_role option \<Rightarrow> py_error + string list" where
  "custom_role_permissions roles role =
     collect_grantable []
       (concat (map (\<lambda>link. case cr_permissions link of None \<Rightarrow> [] | Some ps \<Rightarrow> ps)
          (custom_role_chain roles role)))"

section \<open>Groups\<close>

text \<open>
  The JSON column of a group: a list, a text (from an old backup) that decodes to something or
  to nothing, or any other value.
\<close>

datatype stored_permissions =
    Stored_List "json list"
  | Stored_Text "stored_permissions option"
  | Stored_Other

fun permission_list :: "stored_permissions \<Rightarrow> string list" where
  "permission_list (Stored_Text None) = []"
| "permission_list (Stored_Text (Some v)) = permission_list v"
| "permission_list (Stored_List xs) = json_strings xs"
| "permission_list Stored_Other = []"

record group =
  g_id :: int
  g_permissions :: stored_permissions

record sso_provider =
  sp_enforce_2fa :: bool

record user =
  u_id :: int
  u_role :: string
  u_custom_role_id :: "int option"
  u_active :: bool
  u_totp_confirmed :: bool
  u_totp_exempt :: bool
  u_webauthn_2fa :: bool
  u_force_password_change :: bool
  u_auth_source :: string
  u_sso_provider :: "sso_provider option"

record rbac_db =
  db_roles :: "custom_role list"
  db_groups :: "group list"
  db_members :: "(int \<times> int) list"

text \<open>
  Every reader takes \<open>rbac_db option\<close>: \<open>None\<close> is a database whose query raises. A falsy
  \<open>custom_role_id\<close> (NULL or 0) means no custom role.
\<close>

definition get_custom_role_permissions :: "rbac_db option \<Rightarrow> user \<Rightarrow> string list" where
  "get_custom_role_permissions db u =
     (case u_custom_role_id u of
        None \<Rightarrow> []
      | Some i \<Rightarrow>
          if i = 0 then []
          else (case db of
                  None \<Rightarrow> []
                | Some d \<Rightarrow>
                    (case custom_role_permissions (db_roles d) (get_role (db_roles d) i) of
                       Inl e \<Rightarrow> [] | Inr ps \<Rightarrow> ps)))"

definition get_role_permissions :: "string \<Rightarrow> string list" where
  "get_role_permissions role =
     (case map_of ROLE_PERMISSIONS role of None \<Rightarrow> [] | Some ps \<Rightarrow> ps)"

definition member_rows :: "rbac_db \<Rightarrow> user \<Rightarrow> stored_permissions list" where
  "member_rows d u =
     concat (map (\<lambda>g. map (\<lambda>_. g_permissions g)
        (filter (\<lambda>(gid, uid). gid = g_id g \<and> uid = u_id u) (db_members d))) (db_groups d))"

definition collect_group :: "string list \<Rightarrow> string list \<Rightarrow> string list" where
  "collect_group granted perms =
     foldl (\<lambda>acc p. if p \<in> set GROUP_GRANTABLE_PERMISSIONS \<and> p \<notin> set acc then acc @ [p] else acc)
       granted perms"

definition get_group_permissions :: "rbac_db option \<Rightarrow> user \<Rightarrow> string list" where
  "get_group_permissions db u =
     (case db of
        None \<Rightarrow> []
      | Some d \<Rightarrow> foldl collect_group [] (map permission_list (member_rows d u)))"

section \<open>Effective permissions\<close>

definition get_effective_permissions :: "rbac_db option \<Rightarrow> user \<Rightarrow> string list" where
  "get_effective_permissions db u =
     (let perms = get_role_permissions (u_role u)
      in if ''*'' \<in> set perms then perms
         else let perms = perms @ filter (\<lambda>p. p \<notin> set perms) (get_custom_role_permissions db u)
              in perms @ filter (\<lambda>p. p \<notin> set perms) (get_group_permissions db u))"

definition has_role_permission :: "string \<Rightarrow> string \<Rightarrow> bool" where
  "has_role_permission role required =
     (let permissions = get_role_permissions role
      in if ''*'' \<in> set permissions then True
         else if required \<in> set permissions then True
         else let parts = (if CHR '':'' \<in> set required then py_split CHR '':'' required
                           else [required, ''*'']);
                  action = parts ! 0;
                  resource = (if length parts > 1 then parts ! 1 else ''*'')
              in list_ex (\<lambda>perm. perm = action @ '':*'' \<or> perm = ''*:'' @ resource) permissions)"

datatype access = Unauthorized | Forbidden | Granted

text \<open>The decorator \<open>require_permission\<close>: what a request of the current user (if any) gets.\<close>

definition require_permission :: "string \<Rightarrow> user option \<Rightarrow> access" where
  "require_permission permission current =
     (case current of
        None \<Rightarrow> Unauthorized
      | Some u \<Rightarrow> if has_role_permission (u_role u) permission then Granted else Forbidden)"

section \<open>Facts about the tables\<close>

lemma role_lookup:
  "get_role_permissions role =
     (if role = ''admin'' then [''*'']
      else if role = ''operator'' then operator_permissions
      else if role = ''auditor'' then auditor_permissions
      else if role = ''viewer'' then viewer_permissions else [])"
  by (simp add: get_role_permissions_def ROLE_PERMISSIONS_def)

text \<open>No permission of a named role, and none a custom role can grant, is reserved.\<close>

lemma named_roles_unreserved:
  "list_all (\<lambda>p. \<not> is_reserved_permission (JStr p))
     (operator_permissions @ auditor_permissions @ viewer_permissions)"
  by (simp add: is_reserved_permission_def before_sep_def permission_tables)

lemma custom_grantable_unreserved:
  "list_all (\<lambda>p. \<not> is_reserved_permission (JStr p)) custom_role_grantable_set"
  by (simp add: is_reserved_permission_def before_sep_def permission_tables)

lemma group_grantable_sub:
  "set GROUP_GRANTABLE_PERMISSIONS \<subseteq>
     set (operator_permissions @ auditor_permissions @ viewer_permissions)"
  by (auto simp: GROUP_GRANTABLE_PERMISSIONS_def ROLE_PERMISSIONS_def)

lemma reserved_star: "is_reserved_permission (JStr ''*'')"
  by (simp add: is_reserved_permission_def)

lemma role_unreserved:
  "role \<noteq> ''admin'' \<Longrightarrow> p \<in> set (get_role_permissions role) \<Longrightarrow>
     \<not> is_reserved_permission (JStr p)"
  using named_roles_unreserved by (auto simp: role_lookup list_all_iff split: if_splits)

lemma role_no_star: "''*'' \<in> set (get_role_permissions role) \<longleftrightarrow> role = ''admin''"
proof (cases "role = ''admin''")
  case True
  then show ?thesis by (simp add: role_lookup)
next
  case False
  with role_unreserved [of role "''*''"] reserved_star show ?thesis by blast
qed

section \<open>Sources of extra grants\<close>

text \<open>
  What the union in \<open>get_effective_permissions\<close> relies on: a source hands out each permission
  once, and only those on its own list.
\<close>

locale grant_source =
  fixes grants :: "rbac_db option \<Rightarrow> user \<Rightarrow> string list"
    and grantable :: "string list"
  assumes grants_within: "set (grants db u) \<subseteq> set grantable"
    and grants_distinct: "distinct (grants db u)"
begin

lemma not_granted: "p \<notin> set grantable \<Longrightarrow> p \<notin> set (grants db u)"
  using grants_within by blast

lemma grants_bounded: "length (grants db u) \<le> length grantable"
proof -
  have "length (grants db u) = card (set (grants db u))"
    by (simp add: distinct_card grants_distinct)
  also have "\<dots> \<le> card (set grantable)"
    by (rule card_mono) (simp_all add: grants_within)
  also have "\<dots> \<le> length grantable"
    by (rule card_length)
  finally show ?thesis .
qed

end

locale unprivileged_source = grant_source +
  assumes grantable_unreserved: "p \<in> set grantable \<Longrightarrow> \<not> is_reserved_permission (JStr p)"
begin

lemma grants_unreserved: "p \<in> set (grants db u) \<Longrightarrow> \<not> is_reserved_permission (JStr p)"
  using grants_within grantable_unreserved by blast

end

lemma collect_grantable_sound:
  "collect_grantable granted ps = Inr out \<Longrightarrow> distinct granted \<Longrightarrow>
   set granted \<subseteq> set CUSTOM_ROLE_GRANTABLE_PERMISSIONS \<Longrightarrow>
   distinct out \<and> set out \<subseteq> set CUSTOM_ROLE_GRANTABLE_PERMISSIONS"
proof (induction ps arbitrary: granted)
  case Nil
  then show ?case by simp
next
  case (Cons p ps)
  then show ?case
    by (cases "normalize_permission p") (fastforce split: if_splits)+
qed

lemma custom_role_permissions_sound:
  "custom_role_permissions roles r = Inr out \<Longrightarrow>
   distinct out \<and> set out \<subseteq> set CUSTOM_ROLE_GRANTABLE_PERMISSIONS"
  using collect_grantable_sound [of "[]"] by (simp add: custom_role_permissions_def)

lemma collect_group_sound:
  "distinct granted \<Longrightarrow> set granted \<subseteq> set GROUP_GRANTABLE_PERMISSIONS \<Longrightarrow>
   distinct (collect_group granted ps) \<and>
   set (collect_group granted ps) \<subseteq> set GROUP_GRANTABLE_PERMISSIONS"
  by (induction ps arbitrary: granted) (auto simp: collect_group_def)

lemma collect_groups_sound:
  "distinct granted \<Longrightarrow> set granted \<subseteq> set GROUP_GRANTABLE_PERMISSIONS \<Longrightarrow>
   distinct (foldl collect_group granted pss) \<and>
   set (foldl collect_group granted pss) \<subseteq> set GROUP_GRANTABLE_PERMISSIONS"
  by (induction pss arbitrary: granted) (auto simp: collect_group_sound)

lemma get_custom_role_permissions_cases:
  "get_custom_role_permissions db u = [] \<or>
   (\<exists>roles r. custom_role_permissions roles r = Inr (get_custom_role_permissions db u))"
proof (cases "get_custom_role_permissions db u = []")
  case False
  then obtain d :: rbac_db and i ps where "custom_role_permissions (db_roles d) (get_role (db_roles d) i) = Inr ps"
    and "get_custom_role_permissions db u = ps"
    by (auto simp: get_custom_role_permissions_def split: option.splits if_splits sum.splits)
  then show ?thesis by blast
qed simp

interpretation custom_source:
  unprivileged_source get_custom_role_permissions CUSTOM_ROLE_GRANTABLE_PERMISSIONS
proof unfold_locales
  fix db u p
  have "distinct (get_custom_role_permissions db u) \<and>
    set (get_custom_role_permissions db u) \<subseteq> set CUSTOM_ROLE_GRANTABLE_PERMISSIONS"
    using get_custom_role_permissions_cases [of db u] custom_role_permissions_sound by fastforce
  then show "set (get_custom_role_permissions db u) \<subseteq> set CUSTOM_ROLE_GRANTABLE_PERMISSIONS"
    and "distinct (get_custom_role_permissions db u)" by blast+
  show "p \<in> set CUSTOM_ROLE_GRANTABLE_PERMISSIONS \<Longrightarrow> \<not> is_reserved_permission (JStr p)"
    using custom_grantable_unreserved
    by (auto simp: CUSTOM_ROLE_GRANTABLE_PERMISSIONS_def list_all_iff)
qed

interpretation group_source:
  unprivileged_source get_group_permissions GROUP_GRANTABLE_PERMISSIONS
proof unfold_locales
  fix db u p
  show "set (get_group_permissions db u) \<subseteq> set GROUP_GRANTABLE_PERMISSIONS"
    and "distinct (get_group_permissions db u)"
    using collect_groups_sound [of "[]"]
    by (auto simp: get_group_permissions_def split: option.splits)
  show "p \<in> set GROUP_GRANTABLE_PERMISSIONS \<Longrightarrow> \<not> is_reserved_permission (JStr p)"
    using group_grantable_sub named_roles_unreserved by (auto simp: list_all_iff)
qed

lemma effective_set:
  "set (get_effective_permissions db u) =
     (if u_role u = ''admin'' then {''*''}
      else set (get_role_permissions (u_role u)) \<union> set (get_custom_role_permissions db u)
           \<union> set (get_group_permissions db u))"
proof (cases "u_role u = ''admin''")
  case True
  then show ?thesis by (simp add: get_effective_permissions_def role_lookup)
next
  case False
  then have "''*'' \<notin> set (get_role_permissions (u_role u))" by (simp add: role_no_star)
  with False show ?thesis by (auto simp: get_effective_permissions_def Let_def)
qed

lemma effective_star: "''*'' \<in> set (get_effective_permissions db u) \<longleftrightarrow> u_role u = ''admin''"
  using custom_source.grants_unreserved group_source.grants_unreserved role_no_star reserved_star
  by (auto simp: effective_set)

section \<open>Properties\<close>

text \<open>
  C25: a user whose built-in role is not \<open>admin\<close> never holds a permission reserved for
  administrators, whatever the stored custom roles, groups and memberships are and whether or
  not the database can be read: no wildcard, no \<open>admin:\<close> action and none of the reserved scopes.
\<close>

theorem effective_permissions_unprivileged:
  assumes "u_role u \<noteq> ''admin''" and "p \<in> set (get_effective_permissions db u)"
  shows "\<not> is_reserved_permission (JStr p)"
  using assms role_unreserved custom_source.grants_unreserved group_source.grants_unreserved
  by (auto simp: effective_set)

definition sample_viewer :: user where
  "sample_viewer = \<lparr>u_id = 7, u_role = ''viewer'', u_custom_role_id = Some 1, u_active = True,
     u_totp_confirmed = False, u_totp_exempt = False, u_webauthn_2fa = False,
     u_force_password_change = False, u_auth_source = ''local'', u_sso_provider = None\<rparr>"

definition sample_rbac :: rbac_db where
  "sample_rbac = \<lparr>db_roles = [\<lparr>cr_id = 1, cr_permissions = Some [JStr ''*'', JStr ''read:audit''],
     cr_inherits_from = Some 1\<rparr>], db_groups = [], db_members = []\<rparr>"

lemma sample_custom_permissions:
  "get_custom_role_permissions (Some sample_rbac) sample_viewer = [''read:audit'']"
  by (simp add: sample_viewer_def sample_rbac_def get_custom_role_permissions_def
      custom_role_permissions_def custom_role_chain_def chain_loop.simps role_parent_def
      get_role_def first_row_def MAX_ROLE_DEPTH_def normalize_permission_def
      LEGACY_RESOURCE_ALIASES_def before_sep_def after_sep_def
      CUSTOM_ROLE_GRANTABLE_PERMISSIONS_def custom_role_grantable_set_def)

lemma effective_permissions_unprivileged_witness:
  "u_role sample_viewer \<noteq> ''admin'' \<and>
   ''read:audit'' \<in> set (get_effective_permissions (Some sample_rbac) sample_viewer) \<and>
   \<not> is_reserved_permission (JStr ''read:audit'')"
proof -
  have role: "u_role sample_viewer \<noteq> ''admin''" by (simp add: sample_viewer_def)
  then have held: "''read:audit'' \<in> set (get_effective_permissions (Some sample_rbac) sample_viewer)"
    by (simp add: effective_set sample_custom_permissions)
  show ?thesis using role held effective_permissions_unprivileged [OF role held] by simp
qed

subsection \<open>The inheritance walk\<close>

abbreviation linked :: "custom_role list \<Rightarrow> custom_role list \<Rightarrow> bool" where
  "linked roles \<equiv> successively (\<lambda>a b. role_parent roles a = Some b)"

lemma chain_loop_spec:
  assumes "set seen = cr_id ` set chain" and "distinct (map cr_id chain)"
    and "length chain \<le> MAX_ROLE_DEPTH" and "linked roles chain"
    and "chain \<noteq> [] \<Longrightarrow> role = role_parent roles (last chain)"
  shows "distinct (map cr_id (chain_loop roles role seen chain)) \<and>
    length (chain_loop roles role seen chain) \<le> MAX_ROLE_DEPTH \<and>
    linked roles (chain_loop roles role seen chain) \<and>
    take (length chain) (chain_loop roles role seen chain) = chain"
  using assms
proof (induction roles role seen chain rule: chain_loop.induct)
  case (1 roles role seen chain)
  show ?case
  proof (cases "\<exists>r. role = Some r \<and> cr_id r \<notin> set seen \<and> length chain < MAX_ROLE_DEPTH")
    case False
    then have "chain_loop roles role seen chain = chain"
      by (subst chain_loop.simps) (auto split: option.split)
    with "1.prems" show ?thesis by simp
  next
    case True
    then obtain r where r: "role = Some r" "cr_id r \<notin> set seen" "length chain < MAX_ROLE_DEPTH"
      by blast
    then have step: "chain_loop roles role seen chain =
        chain_loop roles (role_parent roles r) (cr_id r # seen) (chain @ [r])"
      by (subst chain_loop.simps) simp
    have "chain \<noteq> [] \<longrightarrow> role_parent roles (last chain) = Some r"
      using "1.prems"(5) r(1) by simp
    then have "linked roles (chain @ [r])"
      using "1.prems"(4) by (auto simp: successively_append_iff)
    then have IH: "distinct (map cr_id (chain_loop roles role seen chain)) \<and>
      length (chain_loop roles role seen chain) \<le> MAX_ROLE_DEPTH \<and>
      linked roles (chain_loop roles role seen chain) \<and>
      take (length (chain @ [r])) (chain_loop roles role seen chain) = chain @ [r]"
      unfolding step using "1.prems"(1,2) r by (intro "1.IH") auto
    have "take (length chain) (take (length (chain @ [r])) (chain_loop roles role seen chain)) =
        take (length chain) (chain_loop roles role seen chain)" by (simp add: take_take)
    with IH show ?thesis by simp
  qed
qed

lemma chain_loop_stops:
  assumes "chain \<noteq> [] \<Longrightarrow> role = role_parent roles (last chain)"
    and "set seen = cr_id ` set chain" and "chain \<noteq> [] \<or> role \<noteq> None"
    and "length chain \<le> MAX_ROLE_DEPTH"
  shows "let out = chain_loop roles role seen chain in
    length out = MAX_ROLE_DEPTH \<or>
    (case role_parent roles (last out) of None \<Rightarrow> True | Some p \<Rightarrow> cr_id p \<in> cr_id ` set out)"
  using assms
proof (induction roles role seen chain rule: chain_loop.induct)
  case (1 roles role seen chain)
  show ?case
  proof (cases "\<exists>r. role = Some r \<and> cr_id r \<notin> set seen \<and> length chain < MAX_ROLE_DEPTH")
    case False
    then have stop: "chain_loop roles role seen chain = chain"
      by (subst chain_loop.simps) (auto split: option.split)
    have "chain = [] \<Longrightarrow> length chain < MAX_ROLE_DEPTH" by (simp add: MAX_ROLE_DEPTH_def)
    with False "1.prems" have "chain \<noteq> []" by auto
    with False "1.prems" show ?thesis unfolding stop Let_def by (auto split: option.split)
  next
    case True
    then obtain r where r: "role = Some r" "cr_id r \<notin> set seen" "length chain < MAX_ROLE_DEPTH"
      by blast
    then have step: "chain_loop roles role seen chain =
        chain_loop roles (role_parent roles r) (cr_id r # seen) (chain @ [r])"
      by (subst chain_loop.simps) simp
    show ?thesis unfolding step using "1.prems" r by (intro "1.IH") auto
  qed
qed

text \<open>
  the walk over inherited roles stops on any stored links, cycles included: it starts at the
  role, visits every id at most once and at most 64 roles, follows the parent link at each step,
  and ends only at a role with no stored parent, at one whose parent was visited, or at the cap.
\<close>

theorem custom_role_chain_walk:
  fixes roles r
  defines "out \<equiv> custom_role_chain roles (Some r)"
  shows "out \<noteq> [] \<and> hd out = r \<and> distinct (map cr_id out) \<and> length out \<le> 64 \<and>
    successively (\<lambda>a b. role_parent roles a = Some b) out \<and>
    (length out = 64 \<or> role_parent roles (last out) = None \<or>
     (\<exists>p. role_parent roles (last out) = Some p \<and> cr_id p \<in> cr_id ` set out))"
proof -
  have first: "out = chain_loop roles (role_parent roles r) [cr_id r] [r]"
    unfolding out_def custom_role_chain_def
    by (subst chain_loop.simps) (simp add: MAX_ROLE_DEPTH_def)
  have "distinct (map cr_id out) \<and> length out \<le> MAX_ROLE_DEPTH \<and> linked roles out \<and>
      take (length [r]) out = [r]"
    unfolding first by (rule chain_loop_spec) (simp_all add: MAX_ROLE_DEPTH_def)
  moreover have "let out = out in length out = MAX_ROLE_DEPTH \<or>
      (case role_parent roles (last out) of None \<Rightarrow> True | Some p \<Rightarrow> cr_id p \<in> cr_id ` set out)"
    unfolding first by (rule chain_loop_stops) (simp_all add: MAX_ROLE_DEPTH_def)
  ultimately show ?thesis
    by (cases out) (auto simp: MAX_ROLE_DEPTH_def split: option.splits)
qed

subsection \<open>The role check\<close>

lemma named_role_no_star_char:
  assumes "role \<noteq> ''admin''" and "p \<in> set (get_role_permissions role)"
  shows "CHR ''*'' \<notin> set p"
  using role_unreserved [OF assms] by (simp add: is_reserved_permission_def)

text \<open>
  the wildcard branches of the role check grant nothing beyond the tables: a role passes for
  a permission exactly when it is \<open>admin\<close> or lists that very permission.
\<close>

theorem has_role_permission_exact:
  "has_role_permission role required \<longleftrightarrow>
     role = ''admin'' \<or> required \<in> set (get_role_permissions role)"
proof (cases "role = ''admin''")
  case True
  then show ?thesis by (simp add: has_role_permission_def role_no_star)
next
  case False
  then have "\<not> list_ex (\<lambda>perm. perm = a @ '':*'' \<or> perm = ''*:'' @ b) (get_role_permissions role)"
    for a b using named_role_no_star_char [OF False] by (fastforce simp: list_ex_iff)
  with False show ?thesis by (simp add: has_role_permission_def Let_def role_no_star)
qed

subsection \<open>Scopes added to a restored backup\<close>

lemma set_ssh_fold:
  "set ps \<subseteq> set perms \<Longrightarrow>
   set (foldl (ssh_scope_step perms) out ps) =
     set out \<union> set ps \<union> {a. \<exists>p \<in> set ps. ssh_scope_added p = Some a \<and> a \<notin> set perms}"
proof (induction ps arbitrary: out)
  case Nil
  then show ?case by simp
next
  case (Cons p ps)
  then show ?case by (auto simp: ssh_scope_step_def Let_def split: option.splits)
qed

lemma distinct_ssh_fold: "distinct out \<Longrightarrow> distinct (foldl (ssh_scope_step perms) out ps)"
proof (induction ps arbitrary: out)
  case Nil
  then show ?case by simp
next
  case (Cons p ps)
  have "distinct (ssh_scope_step perms out p)"
    using Cons.prems by (auto simp: ssh_scope_step_def Let_def append_new_def split: option.split)
  then show ?case using Cons.IH by simp
qed

lemma ssh_fold_closed:
  assumes "\<forall>p \<in> set ps. \<forall>a. ssh_scope_added p = Some a \<longrightarrow> a \<in> set perms"
    and "distinct ps" and "set out \<inter> set ps = {}"
  shows "foldl (ssh_scope_step perms) out ps = out @ ps"
  using assms
proof (induction ps arbitrary: out)
  case Nil
  then show ?case by simp
next
  case (Cons p ps)
  have "ssh_scope_step perms out p = out @ [p]"
    using Cons.prems by (auto simp: ssh_scope_step_def Let_def append_new_def split: option.split)
  then show ?case using Cons.IH [of "out @ [p]"] Cons.prems by simp
qed

lemma ssh_scope_added_step: "ssh_scope_added p = Some a \<Longrightarrow> ssh_scope_added a = None"
  by (auto simp: ssh_scope_added_def SSH_CA_SCOPES_def split: json.splits if_splits)

text \<open>
  restoring an old backup adds exactly the \<open>X:ssh_cas\<close> scope of each \<open>X:ssh\<close> held, keeps every
  permission, lists none twice, and a second pass changes nothing.
\<close>

theorem with_ssh_ca_scopes_spec:
  "set (with_ssh_ca_scopes perms) =
     set perms \<union> {a. \<exists>p \<in> set perms. ssh_scope_added p = Some a} \<and>
   distinct (with_ssh_ca_scopes perms) \<and>
   with_ssh_ca_scopes (with_ssh_ca_scopes perms) = with_ssh_ca_scopes perms"
proof -
  have set: "set (with_ssh_ca_scopes perms) =
      set perms \<union> {a. \<exists>p \<in> set perms. ssh_scope_added p = Some a}" for perms
    unfolding with_ssh_ca_scopes_def by (subst set_ssh_fold) auto
  have dist: "distinct (with_ssh_ca_scopes perms)"
    unfolding with_ssh_ca_scopes_def by (rule distinct_ssh_fold) simp
  have closed: "a \<in> set (with_ssh_ca_scopes perms)"
    if "p \<in> set (with_ssh_ca_scopes perms)" and "ssh_scope_added p = Some a" for p a
    using that ssh_scope_added_step unfolding set by fastforce
  have "with_ssh_ca_scopes (with_ssh_ca_scopes perms) = [] @ with_ssh_ca_scopes perms"
    unfolding with_ssh_ca_scopes_def [of "with_ssh_ca_scopes perms"]
    by (rule ssh_fold_closed) (use closed dist in auto)
  with set dist show ?thesis by simp
qed

end
