(* ===== verification/Auth.thy ===== *)
theory Auth
  imports Permissions
begin

text \<open>
  Authentication of requests: \<^verbatim>\<open>auth/unified.py\<close>, with the two session gates it calls,
  \<^verbatim>\<open>auth/twofa_enforcement.py\<close> and \<^verbatim>\<open>auth/password_change_gate.py\<close>. A request carries an API
  key or a session cookie; the decorator \<open>require_auth\<close> either answers a refusal or calls the
  route. The theory shows that a key never gives more than its owner holds now, that a
  presented key never falls back to the session, what a route that runs may rely on, and that
  the guard on removing a second factor keeps an enforced account enrolled.

  SHA-256 is the parameter \<open>sha\<close>. The permissions column of a key is the decoded JSON list
  (\<open>None\<close> when the text does not decode), and a session's ISO time stamp is absent, unreadable
  or a time.
\<close>

section \<open>State\<close>

record api_key =
  k_id :: int
  k_user_id :: int
  k_key_hash :: string
  k_permissions :: "string list option"
  k_expires_at :: "datetime option"
  k_last_used_at :: "datetime option"
  k_is_active :: bool

datatype stamp = No_Stamp | Malformed_Stamp | Stamp datetime

record flask_session =
  s_user_id :: "int option"
  s_login_time :: stamp
  s_last_activity :: stamp
  s_must_enroll_2fa :: bool

record webauthn_credential =
  w_id :: int
  w_user_id :: int
  w_enabled :: bool

record auth_db =
  a_rbac :: "rbac_db option"
  a_users :: "user list"
  a_keys :: "api_key list"
  a_webauthn :: "webauthn_credential list"
  a_config :: "string \<Rightarrow> string option"

record request =
  req_x_api_key :: "string option"
  req_authorization :: "string option"
  req_path :: string
  req_method :: string

datatype auth_method = By_Api_Key | By_Session

record auth_result =
  r_user_id :: int
  r_user :: user
  r_method :: auth_method
  r_permissions :: "string list"

definition get_user :: "auth_db \<Rightarrow> int \<Rightarrow> user option" where
  "get_user db i = first_row (\<lambda>u. u_id u = i) (a_users db)"

definition effective :: "auth_db \<Rightarrow> user \<Rightarrow> string list" where
  "effective db u = get_effective_permissions (a_rbac db) u"

section \<open>The permission check of the decorator\<close>

definition has_permission :: "string \<Rightarrow> string list \<Rightarrow> bool" where
  "has_permission required user_permissions =
     (if ''*'' \<in> set user_permissions then True
      else if required \<in> set user_permissions then True
      else if CHR '':'' \<in> set required
      then before_sep CHR '':'' required @ '':*'' \<in> set user_permissions
      else False)"

section \<open>API keys\<close>

definition API_KEY_PREFIX :: string where
  "API_KEY_PREFIX = ''ucm_ak_''"

text \<open>\<open>text.partition(' ')\<close>: what is before the first space and what is after it.\<close>

definition presented_api_key :: "request \<Rightarrow> string option" where
  "presented_api_key req =
     (let key = py_strip (case req_x_api_key req of None \<Rightarrow> [] | Some h \<Rightarrow> h)
      in if key \<noteq> [] then Some key
         else let auth = (case req_authorization req of None \<Rightarrow> [] | Some h \<Rightarrow> h);
                  scheme = before_sep CHR '' '' auth;
                  token = py_strip (after_sep CHR '' '' auth)
              in if py_lower scheme = ''bearer'' \<and> starts_with token API_KEY_PREFIX
                 then Some token else None)"

definition rebind_match :: "string list \<Rightarrow> string \<Rightarrow> string list" where
  "rebind_match owner perm =
     (if CHR '':'' \<in> set perm \<and> ends_with perm '':*''
      then filter (\<lambda>p. p = perm \<or> before_sep CHR '':'' p = before_sep CHR '':'' perm) owner
      else if has_permission perm owner then [perm] else [])"

definition rebind_permissions :: "string list \<Rightarrow> string list \<Rightarrow> string list" where
  "rebind_permissions owner stored =
     (if ''*'' \<in> set owner then stored
      else if ''*'' \<in> set stored then owner
      else foldl (\<lambda>rebound perm. extend_new rebound (rebind_match owner perm)) [] stored)"

text \<open>
  \<open>commit\<close> tells whether the write of \<open>last_used_at\<close> is committed; the authentication does not
  depend on it.
\<close>

definition touch_key :: "bool \<Rightarrow> datetime \<Rightarrow> int \<Rightarrow> auth_db \<Rightarrow> auth_db" where
  "touch_key commit now i db =
     (if commit
      then db\<lparr>a_keys := update_rows (\<lambda>k. k_id k = i) (\<lambda>k. k\<lparr>k_last_used_at := Some now\<rparr>) (a_keys db)\<rparr>
      else db)"

definition verify_api_key ::
  "(string \<Rightarrow> string) \<Rightarrow> bool \<Rightarrow> datetime \<Rightarrow> string \<Rightarrow> auth_db \<Rightarrow> auth_result option \<times> auth_db" where
  "verify_api_key sha commit now key db =
     (case first_row (\<lambda>k. k_key_hash k = sha key \<and> k_is_active k) (a_keys db) of
        None \<Rightarrow> (None, db)
      | Some k \<Rightarrow>
          if (case k_expires_at k of None \<Rightarrow> False | Some t \<Rightarrow> t < now) then (None, db)
          else (case get_user db (k_user_id k) of
                  None \<Rightarrow> (None, db)
                | Some u \<Rightarrow>
                    if \<not> u_active u then (None, db)
                    else let stored = (case k_permissions k of None \<Rightarrow> [] | Some ps \<Rightarrow> ps)
                         in (Some \<lparr>r_user_id = k_user_id k, r_user = u, r_method = By_Api_Key,
                               r_permissions = rebind_permissions (effective db u) stored\<rparr>,
                             touch_key commit now (k_id k) db)))"

text \<open>
  \<open>create_api_key\<close>: the random part of the key is the parameter \<open>token\<close>, the new row id is
  \<open>new_id\<close>; \<open>None\<close> is the \<open>RuntimeError\<close> of a failed commit.
\<close>

definition create_api_key ::
  "(string \<Rightarrow> string) \<Rightarrow> bool \<Rightarrow> datetime \<Rightarrow> string \<Rightarrow> int \<Rightarrow> int \<Rightarrow> string list \<Rightarrow> int option \<Rightarrow> auth_db
     \<Rightarrow> (string \<times> auth_db) option" where
  "create_api_key sha commit now token new_id user_id permissions expires_days db =
     (let key = API_KEY_PREFIX @ token;
          expires_at = (case expires_days of
                          None \<Rightarrow> None
                        | Some n \<Rightarrow> if n = 0 then None else Some (now + days n));
          row = \<lparr>k_id = new_id, k_user_id = user_id, k_key_hash = sha key,
                 k_permissions = Some permissions, k_expires_at = expires_at,
                 k_last_used_at = None, k_is_active = True\<rparr>
      in if commit then Some (key, db\<lparr>a_keys := a_keys db @ [row]\<rparr>) else None)"

section \<open>Sessions\<close>

definition config_seconds :: "auth_db \<Rightarrow> string \<Rightarrow> int \<Rightarrow> int" where
  "config_seconds db name dflt =
     (case a_config db name of
        None \<Rightarrow> dflt
      | Some v \<Rightarrow> if v = [] then dflt
                  else (case py_int 10 v of None \<Rightarrow> dflt | Some n \<Rightarrow> n))"

definition get_session_timeout :: "auth_db \<Rightarrow> int" where
  "get_session_timeout db = config_seconds db ''session_timeout'' 28800"

definition get_session_max_lifetime :: "auth_db \<Rightarrow> int" where
  "get_session_max_lifetime db = config_seconds db ''session_max_lifetime'' 86400"

definition empty_session :: flask_session where
  "empty_session = \<lparr>s_user_id = None, s_login_time = No_Stamp, s_last_activity = No_Stamp,
     s_must_enroll_2fa = False\<rparr>"

definition stamp_exceeds :: "stamp \<Rightarrow> datetime \<Rightarrow> int \<Rightarrow> bool" where
  "stamp_exceeds st now limit =
     (case st of Stamp t \<Rightarrow> now - t > seconds limit | _ \<Rightarrow> False)"

definition verify_session ::
  "datetime \<Rightarrow> auth_db \<Rightarrow> flask_session \<Rightarrow> auth_result option \<times> flask_session" where
  "verify_session now db ses =
     (case s_user_id ses of
        None \<Rightarrow> (None, ses)
      | Some i \<Rightarrow>
          if i = 0 then (None, ses)
          else (case get_user db i of
                  None \<Rightarrow> (None, ses)
                | Some u \<Rightarrow>
                    if \<not> u_active u then (None, ses)
                    else if stamp_exceeds (s_login_time ses) now (get_session_max_lifetime db)
                    then (None, empty_session)
                    else if stamp_exceeds (s_last_activity ses) now (get_session_timeout db)
                    then (None, empty_session)
                    else (Some \<lparr>r_user_id = u_id u, r_user = u, r_method = By_Session,
                            r_permissions = effective db u\<rparr>,
                          ses\<lparr>s_last_activity := Stamp now\<rparr>)))"

text \<open>
  The state a request acts on: the database and the caller's session. A presented key is
  final: \<open>authenticate_request\<close> never looks at the session after it.
\<close>

record auth_env =
  e_db :: auth_db
  e_session :: flask_session

definition authenticate_request ::
  "(string \<Rightarrow> string) \<Rightarrow> bool \<Rightarrow> datetime \<Rightarrow> request \<Rightarrow> auth_env \<Rightarrow> auth_result option \<times> auth_env" where
  "authenticate_request sha commit now req env =
     (case presented_api_key req of
        Some key \<Rightarrow>
          (case verify_api_key sha commit now key (e_db env) of
             (res, db) \<Rightarrow> (res, env\<lparr>e_db := db\<rparr>))
      | None \<Rightarrow>
          if s_user_id (e_session env) \<noteq> None
          then (case verify_session now (e_db env) (e_session env) of
                  (res, ses) \<Rightarrow> (res, env\<lparr>e_session := ses\<rparr>))
          else (None, env))"

section \<open>Second factor enforcement\<close>

definition PROMPT_READABLE_PATHS :: "string list" where
  "PROMPT_READABLE_PATHS = [''/api/v2/account/preferences'']"

definition ENROLL_ALLOWED_PATHS :: "string list" where
  "ENROLL_ALLOWED_PATHS =
    [''/api/v2/account/2fa/enable'', ''/api/v2/account/2fa/confirm'',
     ''/api/v2/webauthn/register/options'', ''/api/v2/webauthn/register/verify'',
     ''/api/v2/auth/logout'']"

definition EXEMPT_AUTH_METHODS :: "string list" where
  "EXEMPT_AUTH_METHODS = [''mtls'', ''webauthn'']"

definition global_enforce_2fa :: "auth_db \<Rightarrow> bool" where
  "global_enforce_2fa db \<longleftrightarrow> a_config db ''enforce_2fa'' = Some ''true''"

definition enforcement_active_for :: "auth_db \<Rightarrow> user \<Rightarrow> sso_provider option \<Rightarrow> bool" where
  "enforcement_active_for db u provider =
     (if u_totp_exempt u then False
      else if (if u_auth_source u = [] then ''local'' else u_auth_source u) = ''local''
      then global_enforce_2fa db
      else (case (if provider \<noteq> None then provider else u_sso_provider u) of
              None \<Rightarrow> False | Some prov \<Rightarrow> sp_enforce_2fa prov))"

definition has_security_key :: "auth_db \<Rightarrow> user \<Rightarrow> int option \<Rightarrow> bool" where
  "has_security_key db u excluding \<longleftrightarrow>
     first_row (\<lambda>w. w_user_id w = u_id u \<and> w_enabled w
        \<and> (case excluding of None \<Rightarrow> True | Some i \<Rightarrow> w_id w \<noteq> i)) (a_webauthn db) \<noteq> None"

definition key_is_second_factor :: "auth_db \<Rightarrow> user \<Rightarrow> bool" where
  "key_is_second_factor db u \<longleftrightarrow> enforcement_active_for db u None \<or> u_webauthn_2fa u"

definition second_factor_methods :: "auth_db \<Rightarrow> user \<Rightarrow> string list" where
  "second_factor_methods db u =
     (let methods = (if u_totp_confirmed u then [''totp''] else [])
      in if has_security_key db u None \<and> (methods \<noteq> [] \<or> key_is_second_factor db u)
         then methods @ [''webauthn''] else methods)"

definition would_leave_no_second_factor ::
  "auth_db \<Rightarrow> user \<Rightarrow> bool \<Rightarrow> int option \<Rightarrow> bool" where
  "would_leave_no_second_factor db u dropping_totp dropping_key =
     (let required = enforcement_active_for db u None
                     \<or> (u_webauthn_2fa u \<and> has_security_key db u None)
      in if \<not> required then False
         else let totp_left = u_totp_confirmed u \<and> \<not> dropping_totp
              in \<not> totp_left \<and> \<not> has_security_key db u dropping_key)"

definition lock_for_factor_change ::
  "auth_db \<Rightarrow> int \<Rightarrow> bool \<Rightarrow> int option \<Rightarrow> user option \<times> bool" where
  "lock_for_factor_change db i dropping_totp dropping_key =
     (case get_user db i of
        None \<Rightarrow> (None, False)
      | Some u \<Rightarrow> (Some u, would_leave_no_second_factor db u dropping_totp dropping_key))"

definition must_enroll_2fa ::
  "auth_db \<Rightarrow> user \<Rightarrow> string \<Rightarrow> sso_provider option \<Rightarrow> bool" where
  "must_enroll_2fa db u auth_method provider =
     (if u_totp_confirmed u \<or> has_security_key db u None then False
      else if auth_method \<in> set EXEMPT_AUTH_METHODS then False
      else enforcement_active_for db u provider)"

section \<open>Forced password change\<close>

definition PASSWORD_ALLOWED_PATHS :: "string list" where
  "PASSWORD_ALLOWED_PATHS = [''/api/v2/account/password'', ''/api/v2/auth/logout'']"

definition initial_password_needs_change :: "string \<Rightarrow> bool" where
  "initial_password_needs_change password \<longleftrightarrow> password = ''changeme123''"

definition password_change_allows :: "flask_session \<Rightarrow> string \<Rightarrow> string \<Rightarrow> bool" where
  "password_change_allows ses path method \<longleftrightarrow>
     path \<in> set PASSWORD_ALLOWED_PATHS
     \<or> (method = ''GET'' \<and> path \<in> set PROMPT_READABLE_PATHS)
     \<or> (s_must_enroll_2fa ses \<and> path \<in> set ENROLL_ALLOWED_PATHS)"

definition password_change_pending :: "auth_result \<Rightarrow> bool" where
  "password_change_pending res \<longleftrightarrow>
     (if r_method res \<noteq> By_Session then False else u_force_password_change (r_user res))"

section \<open>The decorator\<close>

datatype auth_answer =
    Authentication_Required
  | Interactive_Session_Required
  | Enrolment_Required
  | Password_Change_Required
  | Insufficient_Permissions
  | Call_Route auth_result

definition require_auth ::
  "string list \<Rightarrow> bool \<Rightarrow> (string \<Rightarrow> string) \<Rightarrow> bool \<Rightarrow> datetime \<Rightarrow> request \<Rightarrow> auth_env
     \<Rightarrow> auth_answer \<times> auth_env" where
  "require_auth permissions session_only sha commit now req env =
     (case authenticate_request sha commit now req env of
        (None, env') \<Rightarrow> (Authentication_Required, env')
      | (Some res, env') \<Rightarrow>
          let ses = e_session env' in
          (if session_only \<and> r_method res \<noteq> By_Session then Interactive_Session_Required
           else if s_must_enroll_2fa ses \<and> req_path req \<notin> set ENROLL_ALLOWED_PATHS
                \<and> \<not> (req_method req = ''GET'' \<and> req_path req \<in> set PROMPT_READABLE_PATHS)
           then Enrolment_Required
           else if password_change_pending res
                \<and> \<not> password_change_allows ses (req_path req) (req_method req)
           then Password_Change_Required
           else if permissions \<noteq> [] \<and> ''*'' \<notin> set (r_permissions res)
                \<and> \<not> list_all (\<lambda>perm. has_permission perm (r_permissions res)) permissions
           then Insufficient_Permissions
           else Call_Route res, env'))"

definition refuse_api_key_on_own_account :: "auth_result \<Rightarrow> int \<Rightarrow> bool" where
  "refuse_api_key_on_own_account res user_id \<longleftrightarrow>
     r_method res = By_Api_Key \<and> u_id (r_user res) = user_id"

section \<open>Lemmas\<close>

lemma has_permission_star: "''*'' \<in> set ps \<Longrightarrow> has_permission q ps"
  by (simp add: has_permission_def)

lemma has_permissionE:
  assumes "has_permission q ps"
  obtains "''*'' \<in> set ps" | "q \<in> set ps"
  | "CHR '':'' \<in> set q" and "before_sep CHR '':'' q @ '':*'' \<in> set ps"
  using assms by (auto simp: has_permission_def split: if_splits)

lemma set_foldl_extend_new:
  "set (foldl (\<lambda>acc x. extend_new acc (f x)) acc xs) = set acc \<union> (\<Union>x \<in> set xs. set (f x))"
  by (induction xs arbitrary: acc) auto

text \<open>Everything a rebound key lists, its owner may do; and a category wildcard is the owner's own.\<close>

lemma rebind_match_owner:
  "p \<in> set (rebind_match owner perm) \<Longrightarrow> has_permission p owner"
  by (auto simp: rebind_match_def has_permission_def split: if_splits)

lemma rebind_match_wildcard:
  "c @ '':*'' \<in> set (rebind_match owner perm) \<Longrightarrow> c @ '':*'' \<in> set owner"
  by (auto simp: rebind_match_def ends_with_iff split: if_splits)

lemma rebind_match_star:
  "''*'' \<in> set (rebind_match owner perm) \<Longrightarrow> ''*'' \<in> set owner \<or> perm = ''*''"
  by (auto simp: rebind_match_def split: if_splits)

lemma rebind_narrows:
  assumes "has_permission q (rebind_permissions owner stored)"
  shows "has_permission q owner"
proof (cases "''*'' \<in> set owner \<or> ''*'' \<in> set stored")
  case True
  with assms show ?thesis by (auto simp: rebind_permissions_def has_permission_star split: if_splits)
next
  case False
  then have mem: "set (rebind_permissions owner stored) = (\<Union>p \<in> set stored. set (rebind_match owner p))"
    by (simp add: rebind_permissions_def set_foldl_extend_new)
  from assms show ?thesis
  proof (cases rule: has_permissionE)
    case 1
    with mem False rebind_match_star show ?thesis by fastforce
  next
    case 2
    with mem show ?thesis by (auto intro: rebind_match_owner)
  next
    case 3
    with mem have "before_sep CHR '':'' q @ '':*'' \<in> set owner"
      by (auto intro: rebind_match_wildcard)
    with 3(1) show ?thesis by (simp add: has_permission_def)
  qed
qed

lemma verify_api_key_SomeE:
  assumes "verify_api_key sha commit now key db = (Some res, db')"
  obtains k where "k \<in> set (a_keys db)" and "k_key_hash k = sha key" and "k_is_active k"
    and "\<And>t. k_expires_at k = Some t \<Longrightarrow> now \<le> t"
    and "get_user db (k_user_id k) = Some (r_user res)" and "u_active (r_user res)"
    and "r_method res = By_Api_Key"
    and "r_permissions res = rebind_permissions (effective db (r_user res))
           (case k_permissions k of None \<Rightarrow> [] | Some ps \<Rightarrow> ps)"
    and "db' = touch_key commit now (k_id k) db"
  using assms
  by (fastforce simp: verify_api_key_def Let_def dest: first_row_SomeD
      split: option.splits if_splits)

lemma verify_session_SomeE:
  assumes "verify_session now db ses = (Some res, ses')"
  obtains i where "s_user_id ses = Some i" and "get_user db i = Some (r_user res)"
    and "u_active (r_user res)" and "r_method res = By_Session"
    and "r_permissions res = effective db (r_user res)"
    and "\<not> stamp_exceeds (s_login_time ses) now (get_session_max_lifetime db)"
    and "\<not> stamp_exceeds (s_last_activity ses) now (get_session_timeout db)"
    and "ses' = ses\<lparr>s_last_activity := Stamp now\<rparr>"
  using assms by (auto simp: verify_session_def split: option.splits if_splits)

lemma api_key_owner_bound:
  assumes "verify_api_key sha commit now key db = (Some res, db')"
    and "has_permission q (r_permissions res)"
  shows "has_permission q (get_effective_permissions (a_rbac db) (r_user res))"
  using assms(1)
proof (cases rule: verify_api_key_SomeE)
  case (1 k)
  with assms(2) show ?thesis using rebind_narrows by (simp add: effective_def)
qed

section \<open>Properties\<close>

text \<open>
  C26: an API key may narrow what its owner can do and never widens it: whatever scopes were
  stored when the key was minted, every permission the authenticated key passes for is one the
  owner's current role, custom role and groups pass for.
\<close>

theorem api_key_never_widens:
  assumes "verify_api_key sha commit now key db = (Some res, db')"
    and "has_permission q (r_permissions res)"
  shows "has_permission q (get_effective_permissions (a_rbac db) (r_user res))"
  using assms by (rule api_key_owner_bound)

definition sample_auth_db :: auth_db where
  "sample_auth_db = \<lparr>a_rbac = Some sample_rbac, a_users = [sample_viewer],
     a_keys = [\<lparr>k_id = 1, k_user_id = 7, k_key_hash = ''h:ucm_ak_1'', k_permissions = Some [''*''],
       k_expires_at = None, k_last_used_at = None, k_is_active = True\<rparr>],
     a_webauthn = [\<lparr>w_id = 3, w_user_id = 7, w_enabled = True\<rparr>],
     a_config = [''enforce_2fa'' \<mapsto> ''true'']\<rparr>"

definition sample_session :: flask_session where
  "sample_session = \<lparr>s_user_id = Some 7, s_login_time = Stamp 0, s_last_activity = Malformed_Stamp,
     s_must_enroll_2fa = False\<rparr>"

lemma sample_role: "u_role sample_viewer = ''viewer''"
  by (simp add: sample_viewer_def)

lemma sample_effective:
  "''read:audit'' \<in> set (get_effective_permissions (Some sample_rbac) sample_viewer)"
  by (simp add: effective_set sample_custom_permissions sample_role)

lemma sample_not_star: "''*'' \<notin> set (get_effective_permissions (Some sample_rbac) sample_viewer)"
  by (simp add: effective_star sample_role)

lemma sample_get_user: "get_user sample_auth_db 7 = Some sample_viewer" "u_active sample_viewer"
  by (simp_all add: get_user_def first_row_def sample_auth_db_def sample_viewer_def)

lemma api_key_never_widens_witness:
  "\<exists>res db'. verify_api_key (\<lambda>k. ''h:'' @ k) True 100 ''ucm_ak_1'' sample_auth_db = (Some res, db') \<and>
     has_permission ''read:audit'' (r_permissions res) \<and>
     has_permission ''read:audit'' (get_effective_permissions (a_rbac sample_auth_db) (r_user res))"
proof -
  define owner where "owner = get_effective_permissions (Some sample_rbac) sample_viewer"
  have "verify_api_key (\<lambda>k. ''h:'' @ k) True 100 ''ucm_ak_1'' sample_auth_db =
      (Some \<lparr>r_user_id = 7, r_user = sample_viewer, r_method = By_Api_Key, r_permissions = owner\<rparr>,
       touch_key True 100 1 sample_auth_db)" (is "_ = (Some ?res, ?db)")
    using sample_not_star
    by (simp add: verify_api_key_def first_row_def sample_auth_db_def sample_get_user [unfolded sample_auth_db_def]
        effective_def rebind_permissions_def owner_def)
  moreover have "has_permission ''read:audit'' (r_permissions ?res)"
    using sample_effective by (simp add: has_permission_def owner_def)
  ultimately show ?thesis using api_key_never_widens by blast
qed

text \<open>
  a request that presents an API key is decided by that key alone: the session cookie it also
  carries changes neither the outcome nor is changed by it, so a key whose header skipped the
  CSRF check cannot fall back to the session.
\<close>

theorem presented_key_is_final:
  assumes "presented_api_key req = Some key"
  shows "authenticate_request sha commit now req (env\<lparr>e_session := ses\<rparr>) =
      (let (res, env') = authenticate_request sha commit now req env in (res, env'\<lparr>e_session := ses\<rparr>))
    \<and> e_session (snd (authenticate_request sha commit now req env)) = e_session env
    \<and> (\<forall>res. fst (authenticate_request sha commit now req env) = Some res \<longrightarrow> r_method res = By_Api_Key)"
proof -
  obtain res db where v: "verify_api_key sha commit now key (e_db env) = (res, db)"
    by (cases "verify_api_key sha commit now key (e_db env)")
  have "r_method r = By_Api_Key" if "res = Some r" for r
    using v that by (auto elim: verify_api_key_SomeE)
  then show ?thesis using assms v by (simp add: authenticate_request_def)
qed

definition sample_key_request :: request where
  "sample_key_request = \<lparr>req_x_api_key = None, req_authorization = Some ''Bearer ucm_ak_0'',
     req_path = ''/api/v2/cas'', req_method = ''POST''\<rparr>"

lemma presented_key_is_final_witness:
  "presented_api_key sample_key_request = Some ''ucm_ak_0'' \<and>
   e_session (snd (authenticate_request (\<lambda>k. ''h:'' @ k) True 100 sample_key_request
     \<lparr>e_db = sample_auth_db, e_session = sample_session\<rparr>)) = sample_session"
proof -
  have key: "presented_api_key sample_key_request = Some ''ucm_ak_0''"
    by (simp add: presented_api_key_def sample_key_request_def API_KEY_PREFIX_def ucm_eval)
  let ?env = "\<lparr>e_db = sample_auth_db, e_session = sample_session\<rparr>"
  have "e_session (snd (authenticate_request (\<lambda>k. ''h:'' @ k) True 100 sample_key_request ?env)) =
      e_session ?env"
    by (rule presented_key_is_final [OF key, THEN conjunct2, THEN conjunct1])
  with key show ?thesis by simp
qed

text \<open>
  C27: what a route may rely on when it runs: the caller is a stored, active user; a key is stored,
  active and not expired, a session is within both its lifetimes; every permission the route
  asks for is one the user holds now; a session flagged for enrolment reaches only the enrolment
  paths (or reads the prompt's preferences), and one whose password must change reaches only the
  paths the password gate allows.
\<close>

theorem require_auth_sound:
  assumes run: "require_auth permissions session_only sha commit now req env = (Call_Route res, env')"
  shows "u_active (r_user res) \<and> (\<exists>i. get_user (e_db env) i = Some (r_user res))
    \<and> (session_only \<longrightarrow> r_method res = By_Session)
    \<and> (case presented_api_key req of
         Some key \<Rightarrow> \<exists>k \<in> set (a_keys (e_db env)). k_key_hash k = sha key \<and> k_is_active k
            \<and> (\<forall>t. k_expires_at k = Some t \<longrightarrow> now \<le> t)
       | None \<Rightarrow> \<not> stamp_exceeds (s_login_time (e_session env)) now (get_session_max_lifetime (e_db env))
            \<and> \<not> stamp_exceeds (s_last_activity (e_session env)) now (get_session_timeout (e_db env)))
    \<and> (\<forall>perm \<in> set permissions.
         has_permission perm (get_effective_permissions (a_rbac (e_db env)) (r_user res)))
    \<and> (s_must_enroll_2fa (e_session env) \<longrightarrow> req_path req \<in> set ENROLL_ALLOWED_PATHS
         \<or> (req_method req = ''GET'' \<and> req_path req \<in> set PROMPT_READABLE_PATHS))
    \<and> (r_method res = By_Session \<and> u_force_password_change (r_user res) \<longrightarrow>
         password_change_allows (e_session env) (req_path req) (req_method req))"
proof -
  from run have auth: "authenticate_request sha commit now req env = (Some res, env')"
    and mode: "session_only \<longrightarrow> r_method res = By_Session"
    and enrol: "s_must_enroll_2fa (e_session env') \<longrightarrow> req_path req \<in> set ENROLL_ALLOWED_PATHS
         \<or> (req_method req = ''GET'' \<and> req_path req \<in> set PROMPT_READABLE_PATHS)"
    and pwd: "password_change_pending res \<longrightarrow>
         password_change_allows (e_session env') (req_path req) (req_method req)"
    and perms: "\<forall>perm \<in> set permissions. has_permission perm (r_permissions res)"
    by (auto simp: require_auth_def Let_def has_permission_star list_all_iff
        split: prod.splits option.splits if_splits)
  show ?thesis
  proof (cases "presented_api_key req")
    case (Some key)
    then obtain db where v: "verify_api_key sha commit now key (e_db env) = (Some res, db)"
      and env': "e_session env' = e_session env"
      using auth by (auto simp: authenticate_request_def split: prod.splits)
    from v show ?thesis
    proof (cases rule: verify_api_key_SomeE)
      case (1 k)
      then show ?thesis
        using Some mode enrol pwd perms env' api_key_owner_bound [OF v]
        by (auto simp: password_change_pending_def)
    qed
  next
    case None
    then obtain ses where v: "verify_session now (e_db env) (e_session env) = (Some res, ses)"
      and env': "e_session env' = ses"
      using auth by (auto simp: authenticate_request_def split: prod.splits if_splits)
    from v show ?thesis
    proof (cases rule: verify_session_SomeE)
      case (1 i)
      then show ?thesis using None mode enrol pwd perms env'
        by (auto simp: password_change_pending_def password_change_allows_def effective_def)
    qed
  qed
qed

lemma require_auth_sound_witness:
  "\<exists>env'. require_auth [''read:audit''] True (\<lambda>k. k) True (hours 1)
       \<lparr>req_x_api_key = None, req_authorization = None, req_path = ''/api/v2/audit'', req_method = ''GET''\<rparr>
       \<lparr>e_db = sample_auth_db, e_session = sample_session\<rparr>
     = (Call_Route \<lparr>r_user_id = 7, r_user = sample_viewer, r_method = By_Session,
          r_permissions = effective sample_auth_db sample_viewer\<rparr>, env') \<and> u_active sample_viewer"
proof -
  let ?req = "\<lparr>req_x_api_key = None, req_authorization = None, req_path = ''/api/v2/audit'',
     req_method = ''GET''\<rparr>"
  let ?env = "\<lparr>e_db = sample_auth_db, e_session = sample_session\<rparr>"
  let ?res = "\<lparr>r_user_id = 7, r_user = sample_viewer, r_method = By_Session,
     r_permissions = effective sample_auth_db sample_viewer\<rparr>"
  have "presented_api_key ?req = None"
    by (simp add: presented_api_key_def ucm_eval)
  moreover have "has_permission ''read:audit'' (effective sample_auth_db sample_viewer)"
    using sample_effective by (simp add: effective_def sample_auth_db_def has_permission_def)
  moreover have "u_id sample_viewer = 7" "\<not> u_force_password_change sample_viewer"
    by (simp_all add: sample_viewer_def)
  moreover have "get_session_max_lifetime sample_auth_db = 86400"
    by (simp add: get_session_max_lifetime_def config_seconds_def sample_auth_db_def)
  ultimately have run: "require_auth [''read:audit''] True (\<lambda>k. k) True (hours 1) ?req ?env =
      (Call_Route ?res, ?env\<lparr>e_session := sample_session\<lparr>s_last_activity := Stamp (hours 1)\<rparr>\<rparr>)"
    by (simp add: require_auth_def authenticate_request_def verify_session_def sample_session_def
        sample_get_user stamp_exceeds_def password_change_pending_def)
  from require_auth_sound [OF run] run show ?thesis by auto
qed

subsection \<open>Removing a second factor\<close>

text \<open>The account once a factor is dropped: TOTP cleared, or one security key removed.\<close>

definition drop_factors :: "bool \<Rightarrow> int option \<Rightarrow> auth_db \<Rightarrow> auth_db" where
  "drop_factors dropping_totp dropping_key db =
     db\<lparr>a_webauthn := filter (\<lambda>w. dropping_key \<noteq> Some (w_id w)) (a_webauthn db)\<rparr>"

definition drop_totp :: "bool \<Rightarrow> user \<Rightarrow> user" where
  "drop_totp dropping u = u\<lparr>u_totp_confirmed := u_totp_confirmed u \<and> \<not> dropping\<rparr>"

lemma enforcement_frame:
  "enforcement_active_for (drop_factors t k db) (drop_totp t u) p = enforcement_active_for db u p"
  by (simp add: enforcement_active_for_def global_enforce_2fa_def drop_factors_def drop_totp_def)

lemma has_security_key_drop:
  "has_security_key (drop_factors t k db) (drop_totp t u) None = has_security_key db u k"
  by (auto simp: has_security_key_def first_row_None_iff drop_factors_def drop_totp_def
      split: option.splits)

lemma drop_totp_confirmed: "u_totp_confirmed (drop_totp t u) \<longleftrightarrow> u_totp_confirmed u \<and> \<not> t"
  by (simp add: drop_totp_def)

text \<open>
  the guard on removing a second factor is exactly right for an account whose second factor
  is mandatory: it refuses a removal if and only if the next password login would be sent back
  to enrolment.
\<close>

theorem factor_guard_exact:
  assumes "enforcement_active_for db u None"
  shows "would_leave_no_second_factor db u dropping_totp dropping_key \<longleftrightarrow>
    must_enroll_2fa (drop_factors dropping_totp dropping_key db) (drop_totp dropping_totp u)
      ''password'' None"
  using assms
  by (auto simp: would_leave_no_second_factor_def must_enroll_2fa_def enforcement_frame
      has_security_key_drop EXEMPT_AUTH_METHODS_def drop_totp_confirmed)

lemma factor_guard_exact_witness:
  "enforcement_active_for sample_auth_db sample_viewer None \<and>
   would_leave_no_second_factor sample_auth_db sample_viewer False (Some 3) \<and>
   must_enroll_2fa (drop_factors False (Some 3) sample_auth_db) (drop_totp False sample_viewer)
     ''password'' None"
proof -
  have enf: "enforcement_active_for sample_auth_db sample_viewer None"
    by (simp add: enforcement_active_for_def global_enforce_2fa_def sample_auth_db_def sample_viewer_def)
  moreover have "would_leave_no_second_factor sample_auth_db sample_viewer False (Some 3)"
    using enf by (simp add: would_leave_no_second_factor_def has_security_key_def first_row_def
        sample_auth_db_def sample_viewer_def)
  ultimately show ?thesis using factor_guard_exact [OF enf] by blast
qed

end
