(* ===== verification/Audit_Chain.thy ===== *)
theory Audit_Chain
  imports Prelude
begin

text \<open>
  The audit hash chain: \<^verbatim>\<open>services/audit/chain.py\<close>, the seal of \<^verbatim>\<open>models/audit_log.py\<close> and the
  verification entry point of \<^verbatim>\<open>services/audit/core.py\<close>. An entry is sealed over its content and
  the seal of the entry before it, with SHA-256 or, under a master key, with HMAC-SHA256;
  verification walks the table once.

  Parameters of the model: \<open>sha\<close> (SHA-256 of a text, as hex), \<open>mac\<close> (HMAC-SHA256 under a key of
  the JSON array of the sealed fields, as hex), \<open>show_ts\<close> (\<open>str\<close> of a time). The array is given to
  \<open>mac\<close> as the list of its JSON values, a time as its number of microseconds. An error of a
  walk is the pair of entry id and code; the message texts are left out. The pending key
  history is the one \<open>session.info\<close> holds between the seal and the commit.
\<close>

section \<open>Entries and their seal\<close>

record rotation =
  rot_attested :: bool
  rot_keys :: "(string \<times> int) list"

record audit_log =
  l_id :: int
  l_timestamp :: "datetime option"
  l_username :: "string option"
  l_action :: string
  l_resource_type :: "string option"
  l_resource_id :: "string option"
  l_resource_name :: "string option"
  l_details :: "string option"
  l_ip_address :: "string option"
  l_user_agent :: "string option"
  l_success :: "bool option"
  l_prev_hash :: "string option"
  l_entry_hash :: "string option"
  l_hash_version :: "int option"
  l_hash_key_id :: "string option"
  l_chain_start :: "int option"
  l_retired_keys :: "rotation option"

definition GENESIS :: string where
  "GENESIS = replicate 64 CHR ''0''"

definition SHA256_CHAIN :: int where "SHA256_CHAIN = 1"
definition KEYED_CHAIN :: int where "KEYED_CHAIN = 2"

text \<open>\<open>value or other\<close> on a nullable text: the empty text is false too.\<close>

definition str_or :: "string option \<Rightarrow> string \<Rightarrow> string" where
  "str_or v d = (case v of None \<Rightarrow> d | Some s \<Rightarrow> if s = [] then d else s)"

definition json_opt :: "('a \<Rightarrow> json) \<Rightarrow> 'a option \<Rightarrow> json" where
  "json_opt f v = (case v of None \<Rightarrow> JNull | Some x \<Rightarrow> f x)"

definition rotation_json :: "rotation \<Rightarrow> json" where
  "rotation_json r = JDict [(''attested'', JBool (rot_attested r)),
     (''keys'', JDict (map (\<lambda>(k, n). (k, JInt n)) (rot_keys r)))]"

definition seal_message :: "audit_log \<Rightarrow> string option \<Rightarrow> json list" where
  "seal_message e prev_hash =
     [JStr ''ucm-audit/2'', json_opt JStr (l_hash_key_id e), JInt (l_id e),
      json_opt JInt (l_chain_start e), json_opt rotation_json (l_retired_keys e),
      json_opt JInt (l_timestamp e), json_opt JStr (l_username e), JStr (l_action e),
      json_opt JStr (l_resource_type e), json_opt JStr (l_resource_id e),
      json_opt JStr (l_resource_name e), json_opt JStr (l_details e),
      json_opt JStr (l_ip_address e), json_opt JStr (l_user_agent e),
      json_opt JBool (l_success e), JStr (str_or prev_hash [])]"

definition show_opt :: "('a \<Rightarrow> string) \<Rightarrow> 'a option \<Rightarrow> string" where
  "show_opt f v = (case v of None \<Rightarrow> ''None'' | Some x \<Rightarrow> f x)"

definition sha_text :: "(datetime \<Rightarrow> string) \<Rightarrow> audit_log \<Rightarrow> string option \<Rightarrow> string" where
  "sha_text show_ts e prev_hash =
     py_join ''|''
       [show_int (l_id e), show_opt show_ts (l_timestamp e), show_opt id (l_username e), l_action e,
        show_opt id (l_resource_type e), show_opt id (l_resource_id e), show_opt id (l_details e),
        show_opt (\<lambda>b. if b then ''True'' else ''False'') (l_success e), str_or prev_hash []]"

record 'k hashing =
  h_sha :: "string \<Rightarrow> string"
  h_mac :: "'k \<Rightarrow> json list \<Rightarrow> string"
  h_show_ts :: "datetime \<Rightarrow> string"

definition compute_hash :: "'k hashing \<Rightarrow> audit_log \<Rightarrow> string option \<Rightarrow> 'k option \<Rightarrow> string" where
  "compute_hash H e prev_hash key =
     (case key of
        None \<Rightarrow> h_sha H (sha_text (h_show_ts H) e prev_hash)
      | Some k \<Rightarrow> h_mac H k (seal_message e prev_hash))"

section \<open>Appending an entry\<close>

record keyring =
  ring_current :: "string option"
  ring_history :: "string list"

record ledger =
  led_rows :: "audit_log list"
  led_keyring :: "keyring option"
  led_pending :: "keyring option"

definition keyring_after_commit :: "ledger \<Rightarrow> ledger" where
  "keyring_after_commit led =
     (case led_pending led of
        None \<Rightarrow> led
      | Some ring \<Rightarrow> led\<lparr>led_keyring := Some ring, led_pending := None\<rparr>)"

definition keyring_after_rollback :: "ledger \<Rightarrow> ledger" where
  "keyring_after_rollback led = led\<lparr>led_pending := None\<rparr>"

definition reconciled_keyring :: "keyring option \<Rightarrow> string \<Rightarrow> keyring" where
  "reconciled_keyring ring key_id =
     (let history = (case ring of None \<Rightarrow> [] | Some r \<Rightarrow> ring_history r);
          current = (case ring of None \<Rightarrow> None | Some r \<Rightarrow> ring_current r);
          history = (case current of
                       None \<Rightarrow> history
                     | Some c \<Rightarrow> if c \<noteq> [] \<and> c \<notin> set history then history @ [c] else history)
      in \<lparr>ring_current = Some key_id, ring_history = filter (\<lambda>k. k \<noteq> key_id) history @ [key_id]\<rparr>)"

definition reconcile_keyring :: "keyring option \<Rightarrow> string \<Rightarrow> ledger \<Rightarrow> ledger" where
  "reconcile_keyring ring key_id led =
     (if (case ring of None \<Rightarrow> False | Some r \<Rightarrow> ring_current r = Some key_id) then led
      else led\<lparr>led_pending := Some (reconciled_keyring ring key_id)\<rparr>)"

text \<open>The other keys in the ledger before an entry, each with the last id it sealed.\<close>

definition keys_in_ledger :: "audit_log list \<Rightarrow> int \<Rightarrow> string \<Rightarrow> (string \<times> int) list" where
  "keys_in_ledger rows entry_id key_id =
     (let hits = filter (\<lambda>r. l_hash_version r = Some KEYED_CHAIN \<and> l_hash_key_id r \<noteq> None
                    \<and> l_hash_key_id r \<noteq> Some key_id \<and> l_id r < entry_id) rows;
          kids = sorted_set (map (\<lambda>r. the (l_hash_key_id r)) hits)
      in map (\<lambda>k. (k, Max (l_id ` set (filter (\<lambda>r. l_hash_key_id r = Some k) hits)))) kids)"

definition rotation_of :: "audit_log list \<Rightarrow> int \<Rightarrow> string \<Rightarrow> keyring option \<Rightarrow> rotation option" where
  "rotation_of rows entry_id key_id ring =
     (let in_ledger = keys_in_ledger rows entry_id key_id
      in case ring of
           None \<Rightarrow> if in_ledger \<noteq> [] then Some \<lparr>rot_attested = False, rot_keys = in_ledger\<rparr> else None
         | Some r \<Rightarrow>
             if ring_current r \<noteq> Some key_id
             then let keys = filter (\<lambda>(k, n). k \<in> set (ring_history r)) in_ledger
                  in if keys \<noteq> [] then Some \<lparr>rot_attested = True, rot_keys = keys\<rparr> else None
             else None)"

text \<open>
  \<open>append_entry\<close>: the flushed entry \<open>e\<close> already has its id, so it is in the table the queries read.
  The previous entry is the one with the greatest id below it.
\<close>

definition previous_row :: "audit_log list \<Rightarrow> int \<Rightarrow> audit_log option" where
  "previous_row rows entry_id =
     (let before = filter (\<lambda>r. l_id r < entry_id) rows
      in if before = [] then None
         else first_row (\<lambda>r. l_id r = Max (l_id ` set before)) before)"

definition min_id :: "audit_log list \<Rightarrow> int option" where
  "min_id rows = (if rows = [] then None else Some (Min (l_id ` set rows)))"

definition append_entry ::
  "'k hashing \<Rightarrow> ('k \<times> string) option \<Rightarrow> int option \<Rightarrow> audit_log \<Rightarrow> ledger \<Rightarrow> ledger" where
  "append_entry H key purge_from e led =
     (let rows = led_rows led @ [e];
          previous = previous_row rows (l_id e);
          prev_hash = (case previous of None \<Rightarrow> GENESIS | Some p \<Rightarrow> str_or (l_entry_hash p) GENESIS);
          e = e\<lparr>l_prev_hash := Some prev_hash\<rparr>;
          e = (case purge_from of
                 None \<Rightarrow> e
               | Some i \<Rightarrow> e\<lparr>l_chain_start := min_id (filter (\<lambda>r. i \<le> l_id r) rows)\<rparr>)
      in case key of
           None \<Rightarrow>
             let e = e\<lparr>l_hash_version := Some SHA256_CHAIN, l_hash_key_id := None\<rparr>;
                 e = e\<lparr>l_entry_hash := Some (compute_hash H e (Some prev_hash) None)\<rparr>
             in led\<lparr>led_rows := led_rows led @ [e]\<rparr>
         | Some (kbytes, kid) \<Rightarrow>
             let e = e\<lparr>l_hash_version := Some KEYED_CHAIN, l_hash_key_id := Some kid\<rparr>;
                 ring = led_keyring led;
                 same = (case previous of
                           None \<Rightarrow> False
                         | Some p \<Rightarrow> l_hash_version p = Some KEYED_CHAIN \<and> l_hash_key_id p = Some kid);
                 e = (if same then e
                      else let e = (if l_chain_start e = None then e\<lparr>l_chain_start := min_id rows\<rparr> else e)
                           in e\<lparr>l_retired_keys := rotation_of rows (l_id e) kid ring\<rparr>);
                 led = reconcile_keyring ring kid led;
                 e = e\<lparr>l_entry_hash := Some (compute_hash H e (Some prev_hash) (Some kbytes))\<rparr>
             in led\<lparr>led_rows := led_rows led @ [e]\<rparr>)"

section \<open>The verification walk\<close>

datatype chain_code =
  Link | Tampered | Unknown_Version | Not_Sealed_By_Key | Unattested_Key | Truncated | Before_Start

record 'k walk =
  wk_key :: "('k \<times> string) option"
  wk_errors :: "(int \<times> chain_code) list"
  wk_error_count :: nat
  wk_first_error :: "(int \<times> chain_code) option"
  wk_unsealed :: "int list"
  wk_checked :: nat
  wk_first :: "(int \<times> int option \<times> string) option"
  wk_prev_hash :: string
  wk_first_keyed :: "int option"
  wk_rotation :: "(string \<times> int) list"
  wk_rotation_attested :: bool
  wk_errors_at_first_keyed :: nat
  wk_run_start :: "int option"
  wk_run_index :: nat
  wk_protected_from :: "int option"
  wk_not_attested :: nat
  wk_retired :: "(string option \<times> (int \<times> int)) list"
  wk_retired_count :: nat
  wk_keyed_start :: "int option"
  wk_keyed_min_start :: "int option"
  wk_any_start :: "int option"

definition new_walk :: "('k \<times> string) option \<Rightarrow> 'k walk" where
  "new_walk key =
     \<lparr>wk_key = key, wk_errors = [], wk_error_count = 0, wk_first_error = None, wk_unsealed = [],
      wk_checked = 0, wk_first = None, wk_prev_hash = [], wk_first_keyed = None, wk_rotation = [],
      wk_rotation_attested = False, wk_errors_at_first_keyed = 0, wk_run_start = None,
      wk_run_index = 0, wk_protected_from = None, wk_not_attested = 0, wk_retired = [],
      wk_retired_count = 0, wk_keyed_start = None, wk_keyed_min_start = None, wk_any_start = None\<rparr>"

definition ERROR_LIST_CAP :: nat where "ERROR_LIST_CAP = 1000"

definition wk_error :: "int \<Rightarrow> chain_code \<Rightarrow> 'k walk \<Rightarrow> 'k walk" where
  "wk_error i code w =
     w\<lparr>wk_error_count := Suc (wk_error_count w),
       wk_first_error := (case wk_first_error w of
                            None \<Rightarrow> Some (i, code)
                          | Some (j, c) \<Rightarrow> if i < j then Some (i, code) else Some (j, c)),
       wk_errors := (if length (wk_errors w) < ERROR_LIST_CAP then wk_errors w @ [(i, code)]
                     else wk_errors w)\<rparr>"

text \<open>\<open>max(a or v, v)\<close> and \<open>min(a or v, v)\<close>: 0 is false.\<close>

definition int_or :: "int option \<Rightarrow> int \<Rightarrow> int" where
  "int_or a v = (case a of None \<Rightarrow> v | Some x \<Rightarrow> if x = 0 then v else x)"

definition retire :: "string option \<Rightarrow> int \<Rightarrow> (string option \<times> (int \<times> int)) list
    \<Rightarrow> (string option \<times> (int \<times> int)) list" where
  "retire kid i retired =
     (if kid \<in> fst ` set retired
      then map (\<lambda>(k, (a, b)). if k = kid then (k, (a, i)) else (k, (a, b))) retired
      else retired @ [(kid, (i, i))])"

text \<open>The seal of one entry: the walk after its check, and whether it is keyed and recomputable.\<close>

definition feed_seal :: "'k hashing \<Rightarrow> audit_log \<Rightarrow> 'k walk \<Rightarrow> 'k walk \<times> bool \<times> bool" where
  "feed_seal H log w =
     (let version = (case l_hash_version log of
                       None \<Rightarrow> SHA256_CHAIN | Some v \<Rightarrow> if v = 0 then SHA256_CHAIN else v)
      in if version = SHA256_CHAIN
         then (if Some (compute_hash H log (l_prev_hash log) None) = l_entry_hash log
               then (w, False, True) else (wk_error (l_id log) Tampered w, False, False))
         else if version = KEYED_CHAIN
         then (case wk_key w of
                 Some (kbytes, kid) \<Rightarrow>
                   if l_hash_key_id log = Some kid
                   then (if Some (compute_hash H log (l_prev_hash log) (Some kbytes)) = l_entry_hash log
                         then (w, True, False) else (wk_error (l_id log) Tampered w, False, False))
                   else (w\<lparr>wk_retired_count := Suc (wk_retired_count w),
                           wk_retired := (if wk_first_keyed w = None
                                          then retire (l_hash_key_id log) (l_id log) (wk_retired w)
                                          else wk_retired w)\<rparr>, False, False)
               | None \<Rightarrow> (w\<lparr>wk_retired_count := Suc (wk_retired_count w)\<rparr>, False, False))
         else (wk_error (l_id log) Unknown_Version w, False, False))"

definition feed_start :: "audit_log \<Rightarrow> nat \<Rightarrow> bool \<Rightarrow> 'k walk \<Rightarrow> 'k walk" where
  "feed_start log errors_before keyed_ok w =
     (case l_chain_start log of
        None \<Rightarrow> w
      | Some cs \<Rightarrow>
          if wk_error_count w = errors_before
          then let w = w\<lparr>wk_any_start := Some (max (int_or (wk_any_start w) cs) cs)\<rparr>
               in if keyed_ok
                  then w\<lparr>wk_keyed_start := Some (max (int_or (wk_keyed_start w) cs) cs),
                         wk_keyed_min_start := Some (min (int_or (wk_keyed_min_start w) cs) cs)\<rparr>
                  else w
          else w)"

definition feed_protection ::
  "audit_log \<Rightarrow> nat \<Rightarrow> bool \<Rightarrow> bool \<Rightarrow> 'k walk \<Rightarrow> 'k walk" where
  "feed_protection log index keyed_ok recomputable w =
     (if keyed_ok
      then let w = w\<lparr>wk_first_keyed := Some (l_id log)\<rparr>;
               w = (if wk_run_start w = None
                    then w\<lparr>wk_run_start := Some (l_id log), wk_run_index := index\<rparr> else w);
               rot = l_retired_keys log
           in w\<lparr>wk_protected_from := wk_run_start w, wk_not_attested := wk_run_index w,
                wk_rotation := (case rot of None \<Rightarrow> [] | Some r \<Rightarrow> rot_keys r),
                wk_rotation_attested := (case rot of None \<Rightarrow> False | Some r \<Rightarrow> rot_attested r),
                wk_errors_at_first_keyed := wk_error_count w\<rparr>
      else if recomputable
      then (if wk_run_start w = None
            then w\<lparr>wk_run_start := Some (l_id log), wk_run_index := index\<rparr> else w)
      else w\<lparr>wk_run_start := None\<rparr>)"

definition feed_first :: "audit_log \<Rightarrow> 'k walk \<Rightarrow> 'k walk" where
  "feed_first log w =
     (let w = w\<lparr>wk_checked := Suc (wk_checked w)\<rparr>
      in if wk_first w = None
         then w\<lparr>wk_first := Some (l_id log, l_hash_version log, str_or (l_prev_hash log) GENESIS),
                wk_prev_hash := str_or (l_prev_hash log) GENESIS\<rparr>
         else w)"

definition feed_link :: "audit_log \<Rightarrow> 'k walk \<Rightarrow> 'k walk" where
  "feed_link log w =
     (case l_prev_hash log of
        None \<Rightarrow> w
      | Some p \<Rightarrow> if p \<noteq> [] \<and> p \<noteq> wk_prev_hash w then wk_error (l_id log) Link w else w)"

definition feed :: "'k hashing \<Rightarrow> 'k walk \<Rightarrow> audit_log \<Rightarrow> 'k walk" where
  "feed H w log =
     (let index = wk_checked w;
          w = feed_first log w;
          after_key = (wk_first_keyed w \<noteq> None)
      in if str_or (l_entry_hash log) [] = []
         then let w = w\<lparr>wk_unsealed := wk_unsealed w @ [l_id log], wk_prev_hash := GENESIS\<rparr>;
                  w = (if after_key then wk_error (l_id log) Not_Sealed_By_Key w else w)
              in w\<lparr>wk_run_start := None\<rparr>
         else let errors_before = wk_error_count w;
                  w = feed_link log w;
                  (w, keyed_ok, recomputable) = feed_seal H log w;
                  w = w\<lparr>wk_prev_hash := str_or (l_entry_hash log) []\<rparr>;
                  w = feed_start log errors_before keyed_ok w
              in if after_key
                 then (if \<not> keyed_ok \<and> wk_error_count w = errors_before
                       then wk_error (l_id log) Not_Sealed_By_Key w else w)
                 else feed_protection log index keyed_ok recomputable w)"

text \<open>
  The end of the walk. \<open>table\<close> is the whole table, which \<open>_check_retired\<close> queries for the first
  entry past the attested limit.
\<close>

definition check_retired_key ::
  "audit_log list \<Rightarrow> int \<Rightarrow> 'k walk \<Rightarrow> string option \<times> (int \<times> int) \<Rightarrow> 'k walk" where
  "check_retired_key table upper_id w span =
     (let (kid, (first_id, last_id)) = span
      in case map_of (map (\<lambda>(k, n). (Some k, n)) (wk_rotation w)) kid of
           None \<Rightarrow> wk_error first_id Unattested_Key w
         | Some limit \<Rightarrow>
             if last_id \<le> limit then w
             else (case min_id (filter (\<lambda>r. l_hash_key_id r = kid \<and> limit < l_id r \<and> l_id r \<le> upper_id)
                          table) of
                     None \<Rightarrow> w
                   | Some offender \<Rightarrow> wk_error offender Unattested_Key w))"

definition check_retired :: "audit_log list \<Rightarrow> int \<Rightarrow> 'k walk \<Rightarrow> 'k walk" where
  "check_retired table upper_id w = foldl (check_retired_key table upper_id) w (wk_retired w)"

definition check_chain_start :: "'k walk \<Rightarrow> 'k walk" where
  "check_chain_start w =
     (case wk_first w of
        None \<Rightarrow> w
      | Some (first_id, first_version, first_prev) \<Rightarrow>
          if wk_first_keyed w \<noteq> None
          then (case wk_keyed_start w of
                  None \<Rightarrow> if wk_error_count w = 0 then wk_error first_id Truncated w else w
                | Some ks \<Rightarrow>
                    if first_id > ks then wk_error first_id Truncated w
                    else if (case wk_keyed_min_start w of None \<Rightarrow> False | Some m \<Rightarrow> first_id < m)
                            \<and> Some first_id \<noteq> wk_first_keyed w
                    then wk_error first_id Before_Start w
                    else w)
          else (case wk_any_start w of
                  Some s \<Rightarrow> if first_id > s then wk_error first_id Truncated w else w
                | None \<Rightarrow> if first_version = Some KEYED_CHAIN \<and> first_prev \<noteq> GENESIS
                          then wk_error first_id Truncated w else w))"

datatype chain_status = Broken | Unprotected | Intact

record verification =
  v_valid :: bool
  v_status :: chain_status
  v_first_error :: "(int \<times> chain_code) option"
  v_checked :: nat
  v_attested :: int
  v_unsealed :: "int list"
  v_error_count :: nat
  v_errors :: "(int \<times> chain_code) list"
  v_key_available :: bool
  v_protected :: int
  v_protected_from :: "int option"
  v_not_attested :: nat
  v_retired_key :: nat
  v_key_rotation_id :: "int option"
  v_rotation_attested :: "bool option"

definition finish_walk :: "audit_log list \<Rightarrow> bool \<Rightarrow> int \<Rightarrow> 'k walk \<Rightarrow> verification" where
  "finish_walk table whole_table upper_id w =
     (let w = (if wk_key w \<noteq> None \<and> wk_first_keyed w \<noteq> None \<and> wk_errors_at_first_keyed w = 0
               then check_retired table upper_id w else w);
          w = (if whole_table \<and> wk_first w \<noteq> None then check_chain_start w else w);
          status = (if wk_error_count w \<noteq> 0 then Broken
                    else if wk_key w = None \<or> (wk_checked w \<noteq> 0 \<and> wk_first_keyed w = None)
                         \<or> (wk_retired w \<noteq> [] \<and> \<not> wk_rotation_attested w)
                    then Unprotected else Intact);
          intact_from = (if wk_first_keyed w \<noteq> None then wk_protected_from w else None);
          not_attested = (if intact_from \<noteq> None then wk_not_attested w else wk_checked w)
      in \<lparr>v_valid = (wk_error_count w = 0), v_status = status, v_first_error = wk_first_error w,
          v_checked = wk_checked w, v_attested = int (wk_checked w) - int (length (wk_unsealed w)),
          v_unsealed = wk_unsealed w, v_error_count = wk_error_count w,
          v_errors = sort_key fst (wk_errors w), v_key_available = (wk_key w \<noteq> None),
          v_protected = int (wk_checked w) - int not_attested, v_protected_from = intact_from,
          v_not_attested = not_attested, v_retired_key = wk_retired_count w,
          v_key_rotation_id = (if wk_rotation w \<noteq> [] then wk_first_keyed w else None),
          v_rotation_attested = (if wk_rotation w \<noteq> [] then Some (wk_rotation_attested w) else None)\<rparr>)"

definition verify_chain ::
  "'k hashing \<Rightarrow> ('k \<times> string) option \<Rightarrow> audit_log list \<Rightarrow> audit_log list \<Rightarrow> bool \<Rightarrow> verification" where
  "verify_chain H key table logs whole_table =
     finish_walk table whole_table (if logs = [] then 0 else l_id (last logs))
       (foldl (feed H) (new_walk key) logs)"

text \<open>\<open>verify_integrity\<close>: ids in ascending order, a bound of 0 or NULL is no bound.\<close>

definition verify_integrity ::
  "'k hashing \<Rightarrow> ('k \<times> string) option \<Rightarrow> audit_log list \<Rightarrow> int option \<Rightarrow> int option \<Rightarrow> verification" where
  "verify_integrity H key table start_id end_id =
     (let rows = sort_key l_id table;
          rows = (case start_id of None \<Rightarrow> rows | Some s \<Rightarrow> if s = 0 then rows else filter (\<lambda>r. s \<le> l_id r) rows);
          rows = (case end_id of None \<Rightarrow> rows | Some t \<Rightarrow> if t = 0 then rows else filter (\<lambda>r. l_id r \<le> t) rows)
      in verify_chain H key table rows (start_id = None \<and> end_id = None))"

section \<open>Walks without errors\<close>

abbreviation sealed_message :: "audit_log \<Rightarrow> json list" where
  "sealed_message e \<equiv> seal_message e (l_prev_hash e)"

definition sealed_by :: "'k hashing \<Rightarrow> 'k \<times> string \<Rightarrow> audit_log \<Rightarrow> bool" where
  "sealed_by H key e \<longleftrightarrow>
     l_hash_version e = Some KEYED_CHAIN \<and> l_hash_key_id e = Some (snd key) \<and>
     l_entry_hash e = Some (h_mac H (fst key) (sealed_message e)) \<and> str_or (l_entry_hash e) [] \<noteq> []"

definition linked_to :: "string \<Rightarrow> audit_log \<Rightarrow> bool" where
  "linked_to h e \<longleftrightarrow> str_or (l_prev_hash e) [] = [] \<or> l_prev_hash e = Some h"

lemma wk_error_fields [simp]:
  "wk_key (wk_error i c w) = wk_key w" "wk_error_count (wk_error i c w) = Suc (wk_error_count w)"
  "wk_first_keyed (wk_error i c w) = wk_first_keyed w" "wk_first (wk_error i c w) = wk_first w"
  "wk_keyed_start (wk_error i c w) = wk_keyed_start w" "wk_any_start (wk_error i c w) = wk_any_start w"
  "wk_keyed_min_start (wk_error i c w) = wk_keyed_min_start w"
  "wk_retired (wk_error i c w) = wk_retired w" "wk_checked (wk_error i c w) = wk_checked w"
  "wk_prev_hash (wk_error i c w) = wk_prev_hash w" "wk_rotation (wk_error i c w) = wk_rotation w"
  by (simp_all add: wk_error_def)

lemma feed_first_fields [simp]:
  "wk_key (feed_first e w) = wk_key w" "wk_error_count (feed_first e w) = wk_error_count w"
  "wk_first_keyed (feed_first e w) = wk_first_keyed w"
  "wk_keyed_start (feed_first e w) = wk_keyed_start w" "wk_any_start (feed_first e w) = wk_any_start w"
  "wk_keyed_min_start (feed_first e w) = wk_keyed_min_start w"
  "wk_retired (feed_first e w) = wk_retired w" "wk_checked (feed_first e w) = Suc (wk_checked w)"
  by (simp_all add: feed_first_def Let_def)

lemma feed_link_fields [simp]:
  "wk_key (feed_link e w) = wk_key w" "wk_first (feed_link e w) = wk_first w"
  "wk_first_keyed (feed_link e w) = wk_first_keyed w"
  "wk_keyed_start (feed_link e w) = wk_keyed_start w" "wk_any_start (feed_link e w) = wk_any_start w"
  "wk_keyed_min_start (feed_link e w) = wk_keyed_min_start w"
  "wk_retired (feed_link e w) = wk_retired w" "wk_checked (feed_link e w) = wk_checked w"
  by (simp_all add: feed_link_def split: option.splits)

lemma feed_link_error: 
  "wk_error_count (feed_link e w) = wk_error_count w + (if linked_to (wk_prev_hash w) e then 0 else 1)"
  by (auto simp: feed_link_def linked_to_def str_or_def split: option.splits)

lemma feed_start_fields [simp]:
  "wk_key (feed_start e n k w) = wk_key w" "wk_first (feed_start e n k w) = wk_first w"
  "wk_error_count (feed_start e n k w) = wk_error_count w"
  "wk_first_keyed (feed_start e n k w) = wk_first_keyed w"
  "wk_prev_hash (feed_start e n k w) = wk_prev_hash w"
  "wk_retired (feed_start e n k w) = wk_retired w" "wk_checked (feed_start e n k w) = wk_checked w"
  by (simp_all add: feed_start_def Let_def split: option.splits)

lemma feed_protection_fields [simp]:
  "wk_key (feed_protection e i k r w) = wk_key w" "wk_first (feed_protection e i k r w) = wk_first w"
  "wk_error_count (feed_protection e i k r w) = wk_error_count w"
  "wk_first_keyed (feed_protection e i k r w) = (if k then Some (l_id e) else wk_first_keyed w)"
  "wk_prev_hash (feed_protection e i k r w) = wk_prev_hash w"
  "wk_keyed_start (feed_protection e i k r w) = wk_keyed_start w" "wk_any_start (feed_protection e i k r w) = wk_any_start w"
  "wk_keyed_min_start (feed_protection e i k r w) = wk_keyed_min_start w"
  "wk_retired (feed_protection e i k r w) = wk_retired w" "wk_checked (feed_protection e i k r w) = wk_checked w"
  by (simp_all add: feed_protection_def Let_def)

lemma feed_seal_fields:
  assumes "feed_seal H e w = (w', k, r)"
  shows "wk_key w' = wk_key w" "wk_first w' = wk_first w" "wk_first_keyed w' = wk_first_keyed w"
    "wk_error_count w \<le> wk_error_count w'"
    "wk_keyed_start w' = wk_keyed_start w" "wk_any_start w' = wk_any_start w"
    "wk_keyed_min_start w' = wk_keyed_min_start w" "wk_checked w' = wk_checked w"
    "k \<longleftrightarrow> (\<exists>key. wk_key w = Some key \<and> l_hash_version e = Some KEYED_CHAIN
              \<and> l_hash_key_id e = Some (snd key)
              \<and> l_entry_hash e = Some (h_mac H (fst key) (sealed_message e)))"
  using assms
  by (auto simp: feed_seal_def Let_def SHA256_CHAIN_def KEYED_CHAIN_def compute_hash_def
      split: if_splits option.splits prod.splits)

lemma feed_error_mono: "wk_error_count w \<le> wk_error_count (feed H w e)"
proof -
  obtain w' k r where s: "feed_seal H e (feed_link e (feed_first e w)) = (w', k, r)"
    by (metis prod_cases3)
  have "wk_error_count w \<le> wk_error_count w'"
    using feed_seal_fields(4)[OF s] by (simp add: feed_link_error split: if_splits)
  then show ?thesis
    by (simp add: feed_def Let_def s)
qed

lemma feeds_error_mono: "wk_error_count w \<le> wk_error_count (foldl (feed H) w es)"
  by (induction es rule: rev_induct) (auto intro: le_trans feed_error_mono)

lemma feed_key [simp]: "wk_key (feed H w e) = wk_key w"
proof -
  obtain w' k r where s: "feed_seal H e (feed_link e (feed_first e w)) = (w', k, r)"
    by (metis prod_cases3)
  show ?thesis
    using feed_seal_fields(1)[OF s] by (simp add: feed_def Let_def s)
qed

lemma feeds_key [simp]: "wk_key (foldl (feed H) w es) = wk_key w"
  by (induction es rule: rev_induct) auto

lemma feed_wk_first: "wk_first (feed H w e) = wk_first (feed_first e w)"
proof -
  obtain w' k r where s: "feed_seal H e (feed_link e (feed_first e w)) = (w', k, r)"
    by (metis prod_cases3)
  show ?thesis
    using feed_seal_fields(2)[OF s] by (simp add: feed_def Let_def s)
qed

text \<open>One error-free step.\<close>

lemma feed_ok_after_key:
  assumes ok: "wk_error_count (feed H w e) = wk_error_count w"
    and key: "wk_key w = Some key" and keyed: "wk_first_keyed w = Some i"
  shows "sealed_by H key e" "linked_to (wk_prev_hash (feed_first e w)) e" 
    "wk_first_keyed (feed H w e) = Some i" "l_entry_hash e = Some (wk_prev_hash (feed H w e))"
    "wk_keyed_start (feed H w e) = (case l_chain_start e of None \<Rightarrow> wk_keyed_start w
       | Some cs \<Rightarrow> Some (max (int_or (wk_keyed_start w) cs) cs))"
    "wk_keyed_min_start (feed H w e) = (case l_chain_start e of None \<Rightarrow> wk_keyed_min_start w
       | Some cs \<Rightarrow> Some (min (int_or (wk_keyed_min_start w) cs) cs))"
proof -
  obtain w' k r where s: "feed_seal H e (feed_link e (feed_first e w)) = (w', k, r)"
    by (metis prod_cases3)
  note f = feed_seal_fields[OF s]
  have hash: "str_or (l_entry_hash e) [] \<noteq> []"
    using ok keyed by (auto simp: feed_def Let_def)
  have le: "wk_error_count w \<le> wk_error_count (feed_link e (feed_first e w))"
    by (simp add: feed_link_error)
  have k: "k" and cnt: "wk_error_count w' = wk_error_count w"
    using ok keyed hash f(3,4) le by (auto simp: feed_def Let_def s split: if_splits)
  then show "sealed_by H key e"
    using f(9) hash key by (auto simp: sealed_by_def)
  show "linked_to (wk_prev_hash (feed_first e w)) e"
    using cnt f(4) by (auto simp: feed_link_error split: if_splits)
  show "wk_first_keyed (feed H w e) = Some i"
    using hash k keyed f by (simp add: feed_def Let_def s)
  show "l_entry_hash e = Some (wk_prev_hash (feed H w e))"
    using hash k keyed by (auto simp: feed_def Let_def s str_or_def split: option.splits if_splits)
  show "wk_keyed_start (feed H w e) = (case l_chain_start e of None \<Rightarrow> wk_keyed_start w
       | Some cs \<Rightarrow> Some (max (int_or (wk_keyed_start w) cs) cs))"
    using hash k keyed f cnt by (simp add: feed_def Let_def s feed_start_def split: option.splits)
  show "wk_keyed_min_start (feed H w e) = (case l_chain_start e of None \<Rightarrow> wk_keyed_min_start w
       | Some cs \<Rightarrow> Some (min (int_or (wk_keyed_min_start w) cs) cs))"
    using hash k keyed f cnt by (simp add: feed_def Let_def s feed_start_def split: option.splits)
qed

lemma feed_ok_before_key:
  assumes ok: "wk_error_count (feed H w e) = wk_error_count w"
    and key: "wk_key w = Some key" and keyed: "wk_first_keyed w = None"
  shows "wk_first_keyed (feed H w e) = (if sealed_by H key e then Some (l_id e) else None)"
    "wk_keyed_start (feed H w e) = (case l_chain_start e of None \<Rightarrow> wk_keyed_start w
       | Some cs \<Rightarrow> if sealed_by H key e then Some (max (int_or (wk_keyed_start w) cs) cs) 
                    else wk_keyed_start w)"
    "wk_keyed_min_start (feed H w e) = (case l_chain_start e of None \<Rightarrow> wk_keyed_min_start w
       | Some cs \<Rightarrow> if sealed_by H key e then Some (min (int_or (wk_keyed_min_start w) cs) cs)
                    else wk_keyed_min_start w)"
    "sealed_by H key e \<longrightarrow> l_entry_hash e = Some (wk_prev_hash (feed H w e))"
proof -
  obtain w' k r where s: "feed_seal H e (feed_link e (feed_first e w)) = (w', k, r)"
    by (metis prod_cases3)
  note f = feed_seal_fields[OF s]
  let ?g = "wk_first_keyed (feed H w e) = (if sealed_by H key e then Some (l_id e) else None) \<and>
    wk_keyed_start (feed H w e) = (case l_chain_start e of None \<Rightarrow> wk_keyed_start w
       | Some cs \<Rightarrow> if sealed_by H key e then Some (max (int_or (wk_keyed_start w) cs) cs) 
                    else wk_keyed_start w) \<and>
    wk_keyed_min_start (feed H w e) = (case l_chain_start e of None \<Rightarrow> wk_keyed_min_start w
       | Some cs \<Rightarrow> if sealed_by H key e then Some (min (int_or (wk_keyed_min_start w) cs) cs)
                    else wk_keyed_min_start w) \<and>
    (sealed_by H key e \<longrightarrow> l_entry_hash e = Some (wk_prev_hash (feed H w e)))"
  have ?g
  proof (cases "str_or (l_entry_hash e) [] = []")
    case True
    then show ?thesis
      using keyed by (simp add: feed_def Let_def sealed_by_def split: option.splits)
  next
    case hash: False
    have cnt: "wk_error_count w' = wk_error_count w"
      using ok keyed hash f(3,4) by (simp add: feed_def Let_def s)
    have k: "k \<longleftrightarrow> sealed_by H key e"
      using f(9) hash key by (auto simp: sealed_by_def)
    show ?thesis
      using hash keyed f cnt
      by (auto simp: feed_def Let_def s feed_start_def k str_or_def split: option.splits if_splits)
  qed
  then show "wk_first_keyed (feed H w e) = (if sealed_by H key e then Some (l_id e) else None)"
    "wk_keyed_start (feed H w e) = (case l_chain_start e of None \<Rightarrow> wk_keyed_start w
       | Some cs \<Rightarrow> if sealed_by H key e then Some (max (int_or (wk_keyed_start w) cs) cs) 
                    else wk_keyed_start w)"
    "wk_keyed_min_start (feed H w e) = (case l_chain_start e of None \<Rightarrow> wk_keyed_min_start w
       | Some cs \<Rightarrow> if sealed_by H key e then Some (min (int_or (wk_keyed_min_start w) cs) cs)
                    else wk_keyed_min_start w)"
    "sealed_by H key e \<longrightarrow> l_entry_hash e = Some (wk_prev_hash (feed H w e))" by blast+
qed

fun chain_from :: "'k hashing \<Rightarrow> 'k \<times> string \<Rightarrow> string \<Rightarrow> audit_log list \<Rightarrow> bool" where
  "chain_from H key h [] = True"
| "chain_from H key h (e # es) \<longleftrightarrow>
     sealed_by H key e \<and> linked_to h e \<and> chain_from H key (the (l_entry_hash e)) es"

lemma chain_from_sealed: "chain_from H key h es \<Longrightarrow> e \<in> set es \<Longrightarrow> sealed_by H key e"
  by (induction es arbitrary: h) auto

lemma feed_first_seen [simp]: "wk_first w \<noteq> None \<Longrightarrow> wk_prev_hash (feed_first e w) = wk_prev_hash w"
  by (auto simp: feed_first_def Let_def)

lemma feed_first_seen2 [simp]: "wk_first w \<noteq> None \<Longrightarrow> wk_first (feed_first e w) = wk_first w"
  by (auto simp: feed_first_def Let_def)

lemma wk_first_feed: "wk_first (feed H w e) \<noteq> None"
  by (simp add: feed_wk_first feed_first_def Let_def)

text \<open>The starts the walk has kept are starts that entries sealed under the key record.\<close>

definition start_kept :: "'k hashing \<Rightarrow> 'k \<times> string \<Rightarrow> audit_log list \<Rightarrow> 'k walk \<Rightarrow> bool" where
  "start_kept H key seen w \<longleftrightarrow>
     (\<forall>s. wk_keyed_start w = Some s \<or> wk_keyed_min_start w = Some s \<longrightarrow>
        (\<exists>e \<in> set seen. sealed_by H key e \<and> l_chain_start e = Some s)) \<and>
     (wk_keyed_start w = None \<longleftrightarrow> wk_keyed_min_start w = None)"

lemma int_or_cases: "max (int_or a c) c = c \<or> a = Some (max (int_or a c) c)"
  "min (int_or a c) c = c \<or> a = Some (min (int_or a c) c)"
  by (auto simp: int_or_def max_def min_def split: option.splits)

lemma start_kept_step:
  assumes "start_kept H key seen w" 
    and "wk_keyed_start w' = (case l_chain_start e of None \<Rightarrow> wk_keyed_start w
       | Some cs \<Rightarrow> if sealed_by H key e then Some (max (int_or (wk_keyed_start w) cs) cs) 
                    else wk_keyed_start w)"
    "wk_keyed_min_start w' = (case l_chain_start e of None \<Rightarrow> wk_keyed_min_start w
       | Some cs \<Rightarrow> if sealed_by H key e then Some (min (int_or (wk_keyed_min_start w) cs) cs)
                    else wk_keyed_min_start w)"
  shows "start_kept H key (seen @ [e]) w'"
proof (cases "l_chain_start e")
  case None
  then show ?thesis using assms by (auto simp: start_kept_def)
next
  case (Some cs)
  then show ?thesis 
    using assms int_or_cases[of "wk_keyed_start w" cs] int_or_cases[of "wk_keyed_min_start w" cs] 
    by (cases "sealed_by H key e") (fastforce simp: start_kept_def)+
qed

text \<open>A walk without errors: what it has seen and where the key took over.\<close>

definition clean_walk :: "'k hashing \<Rightarrow> 'k \<times> string \<Rightarrow> audit_log list \<Rightarrow> 'k walk \<Rightarrow> bool" where
  "clean_walk H key seen w \<longleftrightarrow>
     start_kept H key seen w \<and>
     wk_first w = (case seen of [] \<Rightarrow> None
        | e # _ \<Rightarrow> Some (l_id e, l_hash_version e, str_or (l_prev_hash e) GENESIS)) \<and>
     (case wk_first_keyed w of
        None \<Rightarrow> \<forall>e \<in> set seen. \<not> sealed_by H key e
      | Some i \<Rightarrow> \<exists>pre e es. seen = pre @ e # es \<and> l_id e = i \<and> (\<forall>x \<in> set pre. \<not> sealed_by H key x)
           \<and> sealed_by H key e \<and> chain_from H key (the (l_entry_hash e)) es
           \<and> l_entry_hash (last (e # es)) = Some (wk_prev_hash w))"

lemma chain_from_snoc:
  "chain_from H key h (es @ [x]) \<longleftrightarrow> chain_from H key h es \<and> sealed_by H key x 
     \<and> linked_to (if es = [] then h else the (l_entry_hash (last es))) x"
  by (induction es arbitrary: h) auto

lemma clean_walk_step:
  assumes "clean_walk H key seen w" "wk_key w = Some key"
    "wk_error_count (feed H w x) = wk_error_count w"
  shows "clean_walk H key (seen @ [x]) (feed H w x)"
proof (cases "wk_first_keyed w")
  case None
  note f = feed_ok_before_key[OF assms(3,2) None]
  have "start_kept H key (seen @ [x]) (feed H w x)"
    by (rule start_kept_step[OF _ f(2,3)]) (use assms(1) in \<open>simp add: clean_walk_def\<close>)
  moreover have "wk_first (feed H w x) = (case seen @ [x] of [] \<Rightarrow> None
        | e # _ \<Rightarrow> Some (l_id e, l_hash_version e, str_or (l_prev_hash e) GENESIS))"
    using assms(1) by (auto simp: clean_walk_def feed_wk_first feed_first_def Let_def split: list.splits)
  moreover have "\<forall>e \<in> set seen. \<not> sealed_by H key e"
    using assms(1) None by (simp add: clean_walk_def)
  then have "case wk_first_keyed (feed H w x) of
        None \<Rightarrow> \<forall>e \<in> set (seen @ [x]). \<not> sealed_by H key e
      | Some i \<Rightarrow> \<exists>pre e es. seen @ [x] = pre @ e # es \<and> l_id e = i \<and> (\<forall>x \<in> set pre. \<not> sealed_by H key x)
           \<and> sealed_by H key e \<and> chain_from H key (the (l_entry_hash e)) es
           \<and> l_entry_hash (last (e # es)) = Some (wk_prev_hash (feed H w x))"
    using f(1,4) by (cases "sealed_by H key x") (auto intro!: exI[of _ seen])
  ultimately show ?thesis
    by (simp add: clean_walk_def)
next
  case (Some i)
  note f = feed_ok_after_key[OF assms(3,2) Some]
  obtain pre e es where seen: "seen = pre @ e # es" "l_id e = i" "\<forall>x \<in> set pre. \<not> sealed_by H key x"
    "sealed_by H key e" "chain_from H key (the (l_entry_hash e)) es"
    "l_entry_hash (last (e # es)) = Some (wk_prev_hash w)"
    using assms(1) Some by (auto simp: clean_walk_def)
  have first: "wk_first w \<noteq> None"
    using assms(1) seen(1) by (auto simp: clean_walk_def split: list.splits)
  have "start_kept H key (seen @ [x]) (feed H w x)"
    by (rule start_kept_step[where w = w]) (use assms(1) f in \<open>simp_all add: clean_walk_def split: option.splits\<close>)
  moreover have "wk_first (feed H w x) = (case seen @ [x] of [] \<Rightarrow> None
        | e # _ \<Rightarrow> Some (l_id e, l_hash_version e, str_or (l_prev_hash e) GENESIS))"
    using assms(1) first by (auto simp: clean_walk_def feed_wk_first split: list.splits)
  moreover have "chain_from H key (the (l_entry_hash e)) (es @ [x])"
    using seen(5,6) f(1,2) first by (auto simp: chain_from_snoc)
  moreover have "seen @ [x] = pre @ e # es @ [x]" "l_entry_hash (last (e # es @ [x])) = Some (wk_prev_hash (feed H w x))"
    using seen(1) f(4) by simp_all
  ultimately show ?thesis
    using seen(2,3,4) unfolding clean_walk_def f(3) option.case by blast
qed

lemma clean_walk_feeds:
  assumes "wk_error_count (foldl (feed H) (new_walk (Some key)) es) = 0"
  shows "clean_walk H key es (foldl (feed H) (new_walk (Some key)) es)"
  using assms
proof (induction es rule: rev_induct)
  case Nil
  then show ?case by (simp add: clean_walk_def start_kept_def new_walk_def)
next
  case (snoc x es)
  then have 0: "wk_error_count (foldl (feed H) (new_walk (Some key)) es) = 0"
    using feed_error_mono[of "foldl (feed H) (new_walk (Some key)) es" H x] by simp
  show ?case
    using clean_walk_step[OF snoc.IH[OF 0]] snoc.prems 0 by (simp add: new_walk_def)
qed

lemma check_retired_key_fields:
  "wk_first (check_retired_key t u w x) = wk_first w"
  "wk_first_keyed (check_retired_key t u w x) = wk_first_keyed w"
  "wk_keyed_start (check_retired_key t u w x) = wk_keyed_start w"
  "wk_keyed_min_start (check_retired_key t u w x) = wk_keyed_min_start w"
  "wk_error_count w \<le> wk_error_count (check_retired_key t u w x)"
  by (auto simp: check_retired_key_def split: option.split prod.split)

lemma check_retired_fields:
  "wk_first (check_retired t u w) = wk_first w"
  "wk_first_keyed (check_retired t u w) = wk_first_keyed w"
  "wk_keyed_start (check_retired t u w) = wk_keyed_start w"
  "wk_keyed_min_start (check_retired t u w) = wk_keyed_min_start w"
  "wk_error_count w \<le> wk_error_count (check_retired t u w)"
proof -
  have "wk_first (foldl (check_retired_key t u) w xs) = wk_first w
    \<and> wk_first_keyed (foldl (check_retired_key t u) w xs) = wk_first_keyed w
    \<and> wk_keyed_start (foldl (check_retired_key t u) w xs) = wk_keyed_start w
    \<and> wk_keyed_min_start (foldl (check_retired_key t u) w xs) = wk_keyed_min_start w
    \<and> wk_error_count w \<le> wk_error_count (foldl (check_retired_key t u) w xs)" for xs
  proof (induction xs rule: rev_induct)
    case (snoc x xs)
    then show ?case
      using check_retired_key_fields[where t = t and u = u and w = "foldl (check_retired_key t u) w xs" and x = x] by simp
  qed simp
  then show "wk_first (check_retired t u w) = wk_first w"
    "wk_first_keyed (check_retired t u w) = wk_first_keyed w"
    "wk_keyed_start (check_retired t u w) = wk_keyed_start w"
    "wk_keyed_min_start (check_retired t u w) = wk_keyed_min_start w"
    "wk_error_count w \<le> wk_error_count (check_retired t u w)"
    unfolding check_retired_def by blast+
qed

lemma check_chain_start_mono: "wk_error_count w \<le> wk_error_count (check_chain_start w)"
  by (auto simp: check_chain_start_def split: option.splits)

lemma valid_walk:
  assumes "v_valid (finish_walk table whole u w)" 
  shows "wk_error_count w = 0"
    "whole \<Longrightarrow> wk_first w = Some (f, v, p) \<Longrightarrow> wk_first_keyed w = Some i \<Longrightarrow>
       \<exists>s. wk_keyed_start w = Some s \<and> f \<le> s
          \<and> (\<forall>m. wk_keyed_min_start w = Some m \<longrightarrow> m \<le> f \<or> f = i)"
proof -
  define w1 where "w1 = (if wk_key w \<noteq> None \<and> wk_first_keyed w \<noteq> None \<and> wk_errors_at_first_keyed w = 0
               then check_retired table u w else w)"
  note r = check_retired_fields[where t = table and u = u and w = w]
  have le: "wk_error_count w \<le> wk_error_count w1" and 
    eq: "wk_first w1 = wk_first w" "wk_first_keyed w1 = wk_first_keyed w"
      "wk_keyed_start w1 = wk_keyed_start w" "wk_keyed_min_start w1 = wk_keyed_min_start w"
    using r by (auto simp: w1_def)
  have 0: "wk_error_count (if whole \<and> wk_first w1 \<noteq> None then check_chain_start w1 else w1) = 0"
    using assms[unfolded finish_walk_def Let_def] by (simp only: verification.simps w1_def)
  then show "wk_error_count w = 0"
    using le check_chain_start_mono[of w1] by (simp split: if_splits)
  show "\<exists>s. wk_keyed_start w = Some s \<and> f \<le> s
          \<and> (\<forall>m. wk_keyed_min_start w = Some m \<longrightarrow> m \<le> f \<or> f = i)"
    if "whole" "wk_first w = Some (f, v, p)" "wk_first_keyed w = Some i"
    using 0 that eq by (auto simp: check_chain_start_def split: option.splits if_splits)
qed

section \<open>What the writer leaves behind\<close>

definition append_all :: "'k hashing \<Rightarrow> 'k \<times> string \<Rightarrow> audit_log list \<Rightarrow> ledger \<Rightarrow> ledger" where
  "append_all H key es led =
     foldl (\<lambda>led e. keyring_after_commit (append_entry H (Some key) None e led)) led es"

definition empty_ledger :: "keyring option \<Rightarrow> ledger" where
  "empty_ledger ring = \<lparr>led_rows = [], led_keyring = ring, led_pending = None\<rparr>"

text \<open>A new entry carries neither a start nor a rotation of its own.\<close>

definition fresh_entry :: "audit_log \<Rightarrow> bool" where
  "fresh_entry e \<longleftrightarrow> l_chain_start e = None \<and> l_retired_keys e = None"

definition seal_keyed :: "'k hashing \<Rightarrow> 'k \<times> string \<Rightarrow> string \<Rightarrow> int option \<Rightarrow> audit_log \<Rightarrow> audit_log" where
  "seal_keyed H key h start e =
     (let e = e\<lparr>l_prev_hash := Some h, l_chain_start := start, l_hash_version := Some KEYED_CHAIN,
                l_hash_key_id := Some (snd key)\<rparr>
      in e\<lparr>l_entry_hash := Some (h_mac H (fst key) (seal_message e (Some h)))\<rparr>)"

fun written :: "'k hashing \<Rightarrow> 'k \<times> string \<Rightarrow> string \<Rightarrow> int option \<Rightarrow> audit_log list \<Rightarrow> audit_log list" where
  "written H key h start [] = []"
| "written H key h start (e # es) =
     (let r = seal_keyed H key h start e in r # written H key (the (l_entry_hash r)) None es)"

lemma seal_keyed_fields [simp]:
  "l_id (seal_keyed H key h s e) = l_id e" "l_prev_hash (seal_keyed H key h s e) = Some h"
  "l_chain_start (seal_keyed H key h s e) = s" "l_retired_keys (seal_keyed H key h s e) = l_retired_keys e"
  "l_hash_version (seal_keyed H key h s e) = Some KEYED_CHAIN"
  "l_hash_key_id (seal_keyed H key h s e) = Some (snd key)"
  "l_entry_hash (seal_keyed H key h s e) = Some (h_mac H (fst key) (sealed_message (seal_keyed H key h s e)))"
  by (simp_all add: seal_keyed_def Let_def seal_message_def)

lemma map_id_written [simp]: "map l_id (written H key h s es) = map l_id es"
  by (induction es arbitrary: h s) (auto simp: Let_def)

lemma previous_row_last:
  assumes "sorted_wrt (<) (map l_id (rows @ [e]))"
  shows "previous_row (rows @ [e]) (l_id e) = (if rows = [] then None else Some (last rows))"
proof (cases "rows = []")
  case True
  then show ?thesis by (simp add: previous_row_def)
next
  case False
  have lt: "\<forall>r \<in> set rows. l_id r < l_id e" and sorted: "sorted_wrt (<) (map l_id rows)"
    using assms by (auto simp: sorted_wrt_append)
  obtain rs r where rows: "rows = rs @ [r]"
    using False by (metis append_butlast_last_id)
  have below: "\<forall>x \<in> set rs. l_id x < l_id r"
    using sorted rows by (auto simp: sorted_wrt_append)
  have "filter (\<lambda>r. l_id r < l_id e) (rows @ [e]) = rows"
    using lt by simp
  moreover have "Max (l_id ` set rows) = l_id r"
    using below rows by (intro Max_eqI) auto
  moreover have "first_row (\<lambda>x. l_id x = l_id r) rows = Some r"
  proof -
    have "first_row (\<lambda>x. l_id x = l_id r) rs = None"
      using below by (auto simp: first_row_None_iff)
    then show ?thesis by (simp add: rows first_row_append) (simp add: first_row_def)
  qed
  ultimately show ?thesis
    using rows by (simp add: previous_row_def)
qed

lemma rows_after_commit [simp]: "led_rows (keyring_after_commit led) = led_rows led"
  by (simp add: keyring_after_commit_def split: option.split)

lemma rows_reconcile [simp]: "led_rows (reconcile_keyring ring kid led) = led_rows led"
  by (simp add: reconcile_keyring_def split: option.split)

lemma append_all_snoc:
  "append_all H key (es @ [e]) led =
     keyring_after_commit (append_entry H (Some key) None e (append_all H key es led))"
  by (simp add: append_all_def)

lemma append_all_nil: "led_rows (append_all H key [] (empty_ledger ring)) = []"
  by (simp add: append_all_def empty_ledger_def)

lemma append_keyed:
  assumes "sorted_wrt (<) (map l_id (led_rows led @ [e]))" "fresh_entry e"
    and "\<forall>r \<in> set (led_rows led). l_hash_version r = Some KEYED_CHAIN \<and> l_hash_key_id r = Some (snd key)"
  shows "led_rows (append_entry H (Some key) None e led) =
    led_rows led @ [seal_keyed H key
      (if led_rows led = [] then GENESIS else str_or (l_entry_hash (last (led_rows led))) GENESIS)
      (if led_rows led = [] then Some (l_id e) else None) e]"
proof (cases "led_rows led = []")
  case True
  have "rotation_of [e] (l_id e) (snd key) (led_keyring led) = None"
    by (simp add: rotation_of_def keys_in_ledger_def sorted_set_def split: option.split)
  then show ?thesis
    using previous_row_last[OF assms(1)] True assms(2)
    by (cases key) (simp add: append_entry_def Let_def fresh_entry_def min_id_def seal_keyed_def compute_hash_def
        seal_message_def)
next
  case False
  then have "last (led_rows led) \<in> set (led_rows led)" by simp
  then show ?thesis
    using previous_row_last[OF assms(1)] False assms(2,3)
    by (cases key) (simp add: append_entry_def Let_def fresh_entry_def seal_keyed_def compute_hash_def
        seal_message_def)
qed

lemma written_snoc:
  "written H key h s (es @ [e]) = written H key h s es @
     [seal_keyed H key (if es = [] then h else the (l_entry_hash (last (written H key h s es))))
        (if es = [] then s else None) e]"
proof (induction es arbitrary: h s)
  case (Cons a es)
  then show ?case by (cases es) (simp_all add: Let_def)
qed (simp add: Let_def)

lemma written_keyed:
  "r \<in> set (written H key h s es) \<Longrightarrow>
     l_hash_version r = Some KEYED_CHAIN \<and> l_hash_key_id r = Some (snd key)
     \<and> l_entry_hash r = Some (h_mac H (fst key) (sealed_message r))"
  by (induction es arbitrary: h s) (auto simp: Let_def)

lemma written_empty_iff [simp]: "written H key h s es = [] \<longleftrightarrow> es = []"
  by (cases es) (auto simp: Let_def)

text \<open>The rows the code writes for new entries under one key are the reference chain.\<close>

lemma append_all_rows:
  assumes "sorted_wrt (<) (map l_id es)" "\<forall>e \<in> set es. fresh_entry e"
    and nonempty: "\<And>m. h_mac H (fst key) m \<noteq> []"
  shows "led_rows (append_all H key es (empty_ledger ring)) =
    written H key GENESIS (if es = [] then None else Some (l_id (hd es))) es"
  using assms(1,2)
proof (induction es rule: rev_induct)
  case Nil
  then show ?case by (simp add: append_all_def empty_ledger_def)
next
  case (snoc e es)
  let ?led = "append_all H key es (empty_ledger ring)"
  let ?s = "if es = [] then None else Some (l_id (hd es))"
  have rows: "led_rows ?led = written H key GENESIS ?s es"
    using snoc by (simp add: sorted_wrt_append)
  have "led_rows (append_entry H (Some key) None e ?led) = led_rows ?led @ [seal_keyed H key
      (if led_rows ?led = [] then GENESIS else str_or (l_entry_hash (last (led_rows ?led))) GENESIS)
      (if led_rows ?led = [] then Some (l_id e) else None) e]"
  proof (rule append_keyed)
    show "sorted_wrt (<) (map l_id (led_rows ?led @ [e]))"
      using snoc.prems(1) by (simp add: rows)
    show "fresh_entry e" using snoc.prems(2) by simp
    show "\<forall>r\<in>set (led_rows ?led). l_hash_version r = Some KEYED_CHAIN \<and> l_hash_key_id r = Some (snd key)"
      using written_keyed unfolding rows by blast
  qed
  moreover have "str_or (l_entry_hash (last (led_rows ?led))) GENESIS = the (l_entry_hash (last (led_rows ?led)))"
    if "es \<noteq> []"
    using that written_keyed[of "last (led_rows ?led)" H key GENESIS ?s es] nonempty
    by (simp add: rows str_or_def)
  ultimately show ?case
    using append_all_snoc[of H key es e "empty_ledger ring"]
    by (cases "es = []") (simp_all add: written_snoc rows append_all_nil)
qed

lemma nth_written:
  "i < length es \<Longrightarrow> l_prev_hash (written H key h s es ! i) =
     Some (if i = 0 then h else h_mac H (fst key) (sealed_message (written H key h s es ! (i - 1))))
   \<and> l_chain_start (written H key h s es ! i) = (if i = 0 then s else None)
   \<and> l_id (written H key h s es ! i) = l_id (es ! i)"
proof (induction es arbitrary: h s i)
  case (Cons e es)
  show ?case
  proof (cases i)
    case 0
    then show ?thesis by (simp add: Let_def)
  next
    case (Suc j)
    then show ?thesis
      using Cons.IH[of j] Cons.prems by (cases j) (simp_all add: Let_def)
  qed
qed simp

lemmas prev_written = nth_written[THEN conjunct1]
lemmas start_written = nth_written[THEN conjunct2, THEN conjunct1]
lemmas id_written = nth_written[THEN conjunct2, THEN conjunct2]

lemma length_written [simp]: "length (written H key h s es) = length es"
  by (induction es arbitrary: h s) (auto simp: Let_def)

text \<open>Fields of an entry that its sealed message determines.\<close>

lemma json_opt_inj [simp]:
  "json_opt JInt a = json_opt JInt b \<longleftrightarrow> a = b"
  "json_opt JStr c = json_opt JStr d \<longleftrightarrow> c = d"
  "json_opt JBool x = json_opt JBool y \<longleftrightarrow> x = y"
  by (auto simp: json_opt_def split: option.splits)

lemma message_fields:
  assumes "sealed_message a = sealed_message b"
  shows "l_id a = l_id b" "l_chain_start a = l_chain_start b"
    "str_or (l_prev_hash a) [] = str_or (l_prev_hash b) []"
  using assms by (auto simp: seal_message_def)

lemma str_or_Some: "str_or v [] = q \<Longrightarrow> q \<noteq> [] \<Longrightarrow> v = Some q"
  by (auto simp: str_or_def split: option.splits if_splits)

text \<open>
  A chain whose messages were all written by the honest writer, and whose first message is the
  writer's first, follows the writer's chain.
\<close>

lemma chain_follows:
  assumes inj: "inj_on (h_mac H (fst key)) (sealed_message ` set rows)"
    and rows: "rows = written H key GENESIS s es" "distinct (map l_id es)"
    and nonempty: "\<And>m. h_mac H (fst key) m \<noteq> []"
    and "chain_from H key (the (l_entry_hash x)) xs" "sealed_by H key x"
    and "\<forall>e \<in> set xs. sealed_message e \<in> sealed_message ` set rows"
    and no_genesis: "\<And>m. h_mac H (fst key) m \<noteq> GENESIS"
    and "i < length rows" "sealed_message x = sealed_message (rows ! i)"
  shows "map sealed_message xs = take (length xs) (map sealed_message (drop (Suc i) rows))"
  using assms(5,6,7,9,10)
proof (induction xs arbitrary: x i)
  case (Cons y ys)
  let ?mac = "h_mac H (fst key)"
  obtain j where j: "j < length rows" "sealed_message y = sealed_message (rows ! j)"
    using Cons.prems(3) by (auto simp: in_set_conv_nth)
  have y: "sealed_by H key y" "linked_to (the (l_entry_hash x)) y"
    "chain_from H key (the (l_entry_hash y)) ys"
    using Cons.prems(1) by auto
  let ?q = "if j = 0 then GENESIS else ?mac (sealed_message (rows ! (j - 1)))"
  have "l_prev_hash (rows ! j) = Some ?q"
    using j(1) unfolding rows(1) length_written by (rule prev_written)
  moreover have q: "?q \<noteq> []"
    using nonempty by (simp add: GENESIS_def)
  ultimately have "str_or (l_prev_hash y) [] = ?q"
    using message_fields(3)[OF j(2)] by (simp add: str_or_def)
  then have "l_prev_hash y = Some ?q"
    using q by (rule str_or_Some)
  then have "?q = the (l_entry_hash x)"
    using y(2) q unfolding linked_to_def str_or_def by (simp only: option.case if_False option.inject) simp
  then have "?mac (sealed_message x) = ?q"
    using Cons.prems(2) unfolding sealed_by_def by (simp only: option.sel)
  then have j0: "j \<noteq> 0" and mac: "?mac (sealed_message (rows ! i)) = ?mac (sealed_message (rows ! (j - 1)))"
    using no_genesis[of "sealed_message x"] Cons.prems(5) by (simp_all split: if_splits)
  have "sealed_message (rows ! i) = sealed_message (rows ! (j - 1))"
    by (rule inj_onD[OF inj mac]) (use Cons.prems(4) j in auto)
  then have "l_id (es ! i) = l_id (es ! (j - 1))"
    using Cons.prems(4) j(1) message_fields(1)[of "rows ! i" "rows ! (j - 1)"]
    by (simp add: rows(1) id_written)
  then have "map l_id es ! i = map l_id es ! (j - 1)"
    using rows(1) Cons.prems(4) j by simp
  then have ij: "j = Suc i"
    using rows Cons.prems(4) j j0 by (simp add: nth_eq_iff_index_eq[OF rows(2)] del: nth_map)
  have "map sealed_message ys = take (length ys) (map sealed_message (drop (Suc j) rows))"
    using Cons.IH[OF y(3,1)] Cons.prems(3) j by simp
  moreover have "drop (Suc i) rows = rows ! j # drop (Suc j) rows"
    using ij j Cons_nth_drop_Suc[of j rows] by simp
  ultimately show ?case
    using j by simp
qed simp

lemma wk_checked_feed [simp]: "wk_checked (feed H w e) = Suc (wk_checked w)"
proof -
  obtain w' k r where s: "feed_seal H e (feed_link e (feed_first e w)) = (w', k, r)"
    by (metis prod_cases3)
  show ?thesis
    using feed_seal_fields(8)[OF s] by (simp add: feed_def Let_def s)
qed

lemma wk_checked_feeds [simp]: "wk_checked (foldl (feed H) w es) = wk_checked w + length es"
  by (induction es rule: rev_induct) auto

lemma wk_checked_retired: "wk_checked (check_retired t u w) = wk_checked w"
proof -
  have "wk_checked (foldl (check_retired_key t u) w xs) = wk_checked w" for xs
    by (induction xs rule: rev_induct)
      (auto simp: check_retired_key_def split: option.split prod.split)
  then show ?thesis by (simp add: check_retired_def)
qed

lemma check_chain_start_fields [simp]:
  "wk_checked (check_chain_start w) = wk_checked w"
  "wk_first_keyed (check_chain_start w) = wk_first_keyed w"
  by (auto simp: check_chain_start_def split: option.splits)

lemma intact_walk:
  assumes "v_status (finish_walk table whole u w) = Intact"
  shows "v_valid (finish_walk table whole u w)" "wk_checked w = 0 \<or> wk_first_keyed w \<noteq> None"
  using assms by (auto simp: finish_walk_def Let_def wk_checked_retired check_retired_fields split: if_splits)

lemma written_first_id:
  assumes "r \<in> set (written H key h s es)" "sorted_wrt (<) (map l_id es)"
  shows "l_id (hd es) \<le> l_id r" "l_id r = l_id (hd es) \<Longrightarrow> r = written H key h s es ! 0"
proof -
  obtain k where k: "k < length es" "r = written H key h s es ! k"
    using assms(1) by (auto simp: in_set_conv_nth)
  have lt: "0 < k \<Longrightarrow> l_id (es ! 0) < l_id (es ! k)"
    using assms(2) k(1) by (simp add: sorted_wrt_iff_nth_less)
  have "es \<noteq> []" using k by auto
  then show "l_id (hd es) \<le> l_id r" "l_id r = l_id (hd es) \<Longrightarrow> r = written H key h s es ! 0"
    using lt k by (cases "k = 0"; simp add: id_written hd_conv_nth)+
qed

lemma kept_start_is_first:
  assumes "start_kept H key logs w" "wk_keyed_start w = Some c \<or> wk_keyed_min_start w = Some c"
    and honest: "\<forall>e \<in> set logs. sealed_by H key e \<longrightarrow> sealed_message e \<in> sealed_message ` set rows"
    and rows: "rows = written H key GENESIS (Some (l_id (hd es))) es" and "es \<noteq> []"
  shows "c = l_id (hd es) \<and> (\<exists>x \<in> set logs. sealed_by H key x \<and> l_id x = l_id (hd es))"
proof -
  obtain x where x: "x \<in> set logs" "sealed_by H key x" "l_chain_start x = Some c"
    using assms(1,2) by (auto simp: start_kept_def)
  then obtain r where r: "r \<in> set rows" "sealed_message x = sealed_message r"
    using honest by blast
  then obtain k where k: "k < length es" "r = rows ! k"
    using rows by (auto simp: in_set_conv_nth)
  have "l_chain_start r = Some c" using message_fields(2)[OF r(2)] x(3) by simp
  then have "k = 0" "c = l_id (hd es)" using k by (auto simp: rows start_written split: if_splits)
  moreover have "l_id x = l_id (es ! k)"
    using message_fields(1)[OF r(2)] k by (simp add: rows id_written)
  ultimately show ?thesis using x \<open>es \<noteq> []\<close> by (auto simp: hd_conv_nth)
qed

lemma intact_starts_at_first:
  assumes intact: "v_status (verify_chain H (Some key) table logs True) = Intact" "logs \<noteq> []"
    and sorted: "sorted_wrt (<) (map l_id logs)" "sorted_wrt (<) (map l_id es)" and "es \<noteq> []"
    and rows: "rows = written H key GENESIS (Some (l_id (hd es))) es"
    and honest: "\<forall>e \<in> set logs. sealed_by H key e \<longrightarrow> sealed_message e \<in> sealed_message ` set rows"
  shows "\<exists>e xs. logs = e # xs \<and> sealed_by H key e \<and> chain_from H key (the (l_entry_hash e)) xs
           \<and> sealed_message e = sealed_message (rows ! 0)"
proof -
  let ?w = "foldl (feed H) (new_walk (Some key)) logs"
  let ?i0 = "l_id (hd es)"
  have fin: "v_status (finish_walk table True (l_id (last logs)) ?w) = Intact"
    using intact by (simp add: verify_chain_def)
  note valid = valid_walk[OF intact_walk(1)[OF fin]]
  have clean: "clean_walk H key logs ?w"
    by (rule clean_walk_feeds) (use valid(1) in simp)
  have "wk_first_keyed ?w \<noteq> None"
    using intact_walk(2)[OF fin] intact(2) by simp
  then obtain i where i: "wk_first_keyed ?w = Some i" by blast
  obtain pre e xs where logs: "logs = pre @ e # xs" "l_id e = i" "\<forall>x \<in> set pre. \<not> sealed_by H key x"
      "sealed_by H key e" "chain_from H key (the (l_entry_hash e)) xs"
    using clean i by (auto simp: clean_walk_def)
  obtain v p where "wk_first ?w = Some (l_id (hd logs), v, p)"
    using clean intact(2) by (auto simp: clean_walk_def split: list.splits)
  then obtain s where s: "wk_keyed_start ?w = Some s" "l_id (hd logs) \<le> s"
      and m: "\<forall>m. wk_keyed_min_start ?w = Some m \<longrightarrow> m \<le> l_id (hd logs) \<or> l_id (hd logs) = i"
    using valid(2) i by blast
  have start: "c = ?i0 \<and> (\<exists>x \<in> set logs. sealed_by H key x \<and> l_id x = ?i0)"
    if "wk_keyed_start ?w = Some c \<or> wk_keyed_min_start ?w = Some c" for c
    using kept_start_is_first[OF _ that honest rows \<open>es \<noteq> []\<close>] clean by (simp add: clean_walk_def)
  then obtain x where x: "x \<in> set logs" "sealed_by H key x" "l_id x = ?i0" and "s = ?i0"
    using s(1) by blast
  obtain mn where mn: "wk_keyed_min_start ?w = Some mn"
    using clean s(1) by (auto simp: clean_walk_def start_kept_def)
  have hd_le: "l_id (hd logs) \<le> l_id y" if "y \<in> set logs" for y
    using that sorted(1) by (cases logs) auto
  have hd_eq: "y = hd logs" if "y \<in> set logs" "l_id y = l_id (hd logs)" for y
    using that sorted(1) by (cases logs) auto
  have "pre = []"
  proof (rule ccontr)
    assume "pre \<noteq> []"
    then have "hd logs \<in> set pre" "hd logs \<noteq> e" using logs by auto
    then have "l_id (hd logs) \<noteq> i" using hd_eq[of e] logs by auto
    then have "l_id (hd logs) = ?i0" using m mn start[of mn] s(2) \<open>s = ?i0\<close> by auto
    then have "hd logs = x" using hd_eq[of x] x by simp
    then show False using x(2) logs(3) \<open>hd logs \<in> set pre\<close> by blast
  qed
  then have e: "logs = e # xs" using logs by simp
  obtain r where r: "r \<in> set rows" "sealed_message e = sealed_message r"
    using honest logs(4) e by auto
  have "l_id r = ?i0"
    using written_first_id(1)[of r H key GENESIS "Some ?i0" es] sorted(2) r s(2) \<open>s = ?i0\<close> e 
      message_fields(1)[OF r(2)] by (simp add: rows)
  then have "r = rows ! 0"
    using written_first_id(2) r(1) sorted(2) unfolding rows by blast
  then show ?thesis using e logs(4,5) r(2) by blast
qed

text \<open>The state of the walk over a chain written under one key.\<close>

definition walked :: "'k \<times> string \<Rightarrow> int \<Rightarrow> nat \<Rightarrow> string \<Rightarrow> 'k walk \<Rightarrow> bool" where
  "walked key i n h w \<longleftrightarrow>
     wk_key w = Some key \<and> wk_error_count w = 0 \<and> wk_errors w = [] \<and> wk_first_error w = None \<and> wk_unsealed w = [] \<and> wk_checked w = n
     \<and> (\<exists>v p. wk_first w = Some (i, v, p)) \<and> wk_prev_hash w = h \<and> wk_first_keyed w = Some i \<and> wk_protected_from w = Some i
     \<and> wk_not_attested w = 0 \<and> wk_retired w = [] \<and> wk_keyed_start w = Some i \<and> wk_keyed_min_start w = Some i"

lemma feed_seal_keyed:
  "wk_key w = Some key \<Longrightarrow> feed_seal H (seal_keyed H key h s e) w = (w, True, False)"
  by (cases key) (simp add: feed_seal_def SHA256_CHAIN_def KEYED_CHAIN_def compute_hash_def)

lemma walked_first:
  assumes "\<And>m. h_mac H (fst key) m \<noteq> []"
  shows "walked key (l_id e) 1 (the (l_entry_hash (seal_keyed H key GENESIS (Some (l_id e)) e)))
    (feed H (new_walk (Some key)) (seal_keyed H key GENESIS (Some (l_id e)) e))"
  using assms
  by (simp add: walked_def feed_def Let_def new_walk_def feed_first_def str_or_def GENESIS_def
      feed_link_def feed_seal_keyed feed_start_def feed_protection_def int_or_def)

lemma walked_next:
  assumes "walked key i n h w" "h \<noteq> []" "\<And>m. h_mac H (fst key) m \<noteq> []"
  shows "walked key i (Suc n) (the (l_entry_hash (seal_keyed H key h None e)))
    (feed H w (seal_keyed H key h None e))"
  using assms
  by (auto simp: walked_def feed_def Let_def feed_first_def str_or_def feed_link_def
      feed_seal_keyed feed_start_def)

lemma walked_written:
  assumes "walked key i n h w" "h \<noteq> []" "\<And>m. h_mac H (fst key) m \<noteq> []"
  shows "\<exists>h'. walked key i (n + length es) h' (foldl (feed H) w (written H key h None es))"
  using assms(1,2)
proof (induction es arbitrary: n h w)
  case (Cons e es)
  show ?case
    using Cons.IH[OF walked_next[OF Cons.prems assms(3)]] assms(3) by (simp add: Let_def)
qed auto

lemma walked_finish:
  assumes "walked key i n h w"
  shows "v_status (finish_walk table True u w) = Intact" "v_errors (finish_walk table True u w) = []"
    "v_protected (finish_walk table True u w) = int n"
proof -
  obtain v p where "wk_first w = Some (i, v, p)" using assms by (auto simp: walked_def)
  moreover have "check_retired table u w = w"
    using assms by (simp add: walked_def check_retired_def)
  ultimately have "check_chain_start w = w"
    using assms by (simp add: walked_def check_chain_start_def)
  then show "v_status (finish_walk table True u w) = Intact" "v_errors (finish_walk table True u w) = []"
    "v_protected (finish_walk table True u w) = int n"
    using assms \<open>check_retired table u w = w\<close> by (simp_all add: walked_def finish_walk_def)
qed

section \<open>Properties\<close>

text \<open>A concrete authenticator for the witnesses: it shows the id of the sealed entry.\<close>

definition sample_hashing :: "string hashing" where
  "sample_hashing = \<lparr>h_sha = id,
     h_mac = (\<lambda>k m. CHR ''m'' # (case m of _ # _ # JInt i # _ \<Rightarrow> show_int i | _ \<Rightarrow> [])), h_show_ts = show_int\<rparr>"

definition sample_entry :: "int \<Rightarrow> audit_log" where
  "sample_entry i =
     \<lparr>l_id = i, l_timestamp = Some (seconds i), l_username = Some ''admin'', l_action = ''login'',
      l_resource_type = None, l_resource_id = None, l_resource_name = None, l_details = None,
      l_ip_address = None, l_user_agent = None, l_success = Some True, l_prev_hash = None,
      l_entry_hash = None, l_hash_version = None, l_hash_key_id = None, l_chain_start = None,
      l_retired_keys = None\<rparr>"

abbreviation sample_rows :: "audit_log list" where
  "sample_rows \<equiv> led_rows (append_all sample_hashing (''key'', ''id'') [sample_entry 1, sample_entry 2]
                   (empty_ledger None))"

lemma sample_mac: "h_mac sample_hashing k m \<noteq> [] \<and> h_mac sample_hashing k m \<noteq> GENESIS"
  by (simp add: sample_hashing_def GENESIS_def numeral_eq_Suc)

lemma sample_entry_fields [simp]: "l_id (sample_entry i) = i" "fresh_entry (sample_entry i)"
  by (simp_all add: sample_entry_def fresh_entry_def)

lemma sample_mac_value: "h_mac sample_hashing k (sealed_message e) = CHR ''m'' # show_int (l_id e)"
  by (simp add: sample_hashing_def seal_message_def)

lemma sample_rows_written:
  "sample_rows = written sample_hashing (''key'', ''id'') GENESIS (Some 1) [sample_entry 1, sample_entry 2]"
  by (subst append_all_rows) (simp_all add: sample_mac)

lemma sample_no_collision:
  "inj_on (h_mac sample_hashing (fst (''key'', ''id''))) (sealed_message ` set sample_rows)"
proof -
  obtain a b where rows: "sample_rows = [a, b]" "l_id a = 1" "l_id b = 2"
    using map_id_written[of sample_hashing "(''key'', ''id'')" GENESIS "Some 1" "[sample_entry 1, sample_entry 2]"]
    unfolding sample_rows_written by (auto simp: Cons_eq_map_conv map_eq_Cons_conv)
  have "show_int 1 \<noteq> show_int 2"
    by (simp add: show_int_def show_digits.simps ucm_eval)
  then show ?thesis
    unfolding rows(1) using rows(2,3) by (auto simp: inj_on_def sample_mac_value)
qed

text \<open>
  C36: a table that verifies as intact under the key is a prefix of what the writer appended: for
  every list of new entries with ascending ids appended under one key to an empty table, and
  every table given to the verifier in id order, if the verdict is intact then the sealed content
  (all fields of the message, the link included) of the entries is that of the first entries the
  writer sealed, in the same order. Nothing was changed, inserted, reordered, or removed other
  than at the end. Assumed of HMAC: its hex text is neither empty nor 64 zeros, it does not
  collide on the messages of the ledger, and no entry carries a right seal on a message the
  writer did not seal.\<close>

theorem verified_ledger_prefix:
  assumes "sorted_wrt (<) (map l_id es)" "\<forall>e \<in> set es. fresh_entry e"
    and ledger: "rows = led_rows (append_all H key es (empty_ledger ring))"
    and mac_output: "\<And>m. h_mac H (fst key) m \<noteq> [] \<and> h_mac H (fst key) m \<noteq> GENESIS"
    and no_collision: "inj_on (h_mac H (fst key)) (sealed_message ` set rows)"
    and unforgeable: "\<forall>e \<in> set logs. sealed_by H key e \<longrightarrow> sealed_message e \<in> sealed_message ` set rows"
    and "sorted_wrt (<) (map l_id logs)"
    and intact: "v_status (verify_chain H (Some key) table logs True) = Intact"
  shows "map sealed_message logs = take (length logs) (map sealed_message rows)"
proof (cases "logs = []")
  case False
  have rows: "rows = written H key GENESIS (if es = [] then None else Some (l_id (hd es))) es"
    unfolding ledger by (rule append_all_rows) (use assms(1,2) mac_output in auto)
  show ?thesis
  proof (cases "es = []")
    case True
    then have none: "\<forall>e \<in> set logs. \<not> sealed_by H key e" using rows unforgeable by simp
    let ?w = "foldl (feed H) (new_walk (Some key)) logs"
    have fin: "v_status (finish_walk table True (l_id (last logs)) ?w) = Intact"
      using intact False by (simp add: verify_chain_def)
    have "wk_first_keyed ?w = None"
      using none clean_walk_feeds[OF valid_walk(1)[OF intact_walk(1)[OF fin]]]
      by (auto simp: clean_walk_def split: option.splits)
    then show ?thesis using intact_walk(2)[OF fin] False by simp
  next
    case es: False
    then obtain e xs where e: "logs = e # xs" "sealed_by H key e" "chain_from H key (the (l_entry_hash e)) xs"
        "sealed_message e = sealed_message (rows ! 0)"
      using intact_starts_at_first[OF intact False assms(7,1) es] rows unforgeable by auto
    have "map sealed_message xs = take (length xs) (map sealed_message (drop (Suc 0) rows))"
      by (rule chain_follows[OF no_collision rows _ _ e(3,2)])
        (use assms(1) mac_output unforgeable e es rows chain_from_sealed[OF e(3)] in
          \<open>auto simp: strict_sorted_iff\<close>)
    moreover have "rows \<noteq> []" using es rows by simp
    ultimately show ?thesis
      using e(1,4) by (cases rows) auto
  qed
qed simp

theorem verified_ledger_prefix_witness:
  "map sealed_message (take 1 sample_rows) = take 1 (map sealed_message sample_rows)"
proof -
  let ?e = "seal_keyed sample_hashing (''key'', ''id'') GENESIS (Some 1) (sample_entry 1)"
  have logs: "take 1 sample_rows = [?e]"
    by (simp add: sample_rows_written Let_def)
  have "walked (''key'', ''id'') 1 1 (the (l_entry_hash ?e)) (feed sample_hashing (new_walk (Some (''key'', ''id''))) ?e)"
    using walked_first[of sample_hashing "(''key'', ''id'')" "sample_entry 1"] sample_mac
    unfolding sample_entry_fields by blast
  then have intact: "v_status (verify_chain sample_hashing (Some (''key'', ''id'')) [] (take 1 sample_rows) True) = Intact"
    unfolding logs verify_chain_def foldl_Cons foldl_Nil by (rule walked_finish(1))
  have "map sealed_message (take 1 sample_rows) =
      take (length (take 1 sample_rows)) (map sealed_message sample_rows)"
  proof (rule verified_ledger_prefix[OF _ _ refl _ _ _ _ intact])
    show "inj_on (h_mac sample_hashing (fst (''key'', ''id''))) (sealed_message ` set sample_rows)"
      by (rule sample_no_collision)
    show "\<forall>e \<in> set (take 1 sample_rows). sealed_by sample_hashing (''key'', ''id'') e \<longrightarrow>
        sealed_message e \<in> sealed_message ` set sample_rows"
      by (blast dest: in_set_takeD)
    show "sorted_wrt (<) (map l_id (take 1 sample_rows))"
      unfolding logs by simp
  qed (simp_all add: sample_mac)
  moreover have "length (take 1 sample_rows) = 1" unfolding logs by simp
  ultimately show ?thesis by (simp only:)
qed

text \<open>
  what the writer appends verifies: for every list of new entries with ascending ids, appended
  one by one (each append followed by its commit) under one key to an empty table, whatever key
  history exists, the verification of the whole table says intact, lists no error and counts every
  entry as protected. Assumed of HMAC: its hex text is not empty.\<close>

theorem written_ledger_intact:
  assumes "sorted_wrt (<) (map l_id es)" "\<forall>e \<in> set es. fresh_entry e"
    and mac_output: "\<And>m. h_mac H (fst key) m \<noteq> []"
    and ledger: "rows = led_rows (append_all H key es (empty_ledger ring))"
  shows "v_status (verify_chain H (Some key) rows rows True) = Intact
    \<and> v_errors (verify_chain H (Some key) rows rows True) = []
    \<and> v_protected (verify_chain H (Some key) rows rows True) = int (length es)"
proof (cases es)
  case Nil
  then have "rows = []" by (simp add: ledger append_all_nil)
  then show ?thesis
    by (simp add: Nil verify_chain_def finish_walk_def new_walk_def Let_def)
next
  case (Cons e es')
  let ?r = "seal_keyed H key GENESIS (Some (l_id e)) e"
  have rows: "rows = ?r # written H key (the (l_entry_hash ?r)) None es'"
    using append_all_rows[OF assms(1,2) mac_output] by (simp add: ledger Cons Let_def)
  have "walked key (l_id e) 1 (the (l_entry_hash ?r)) (feed H (new_walk (Some key)) ?r)"
    by (rule walked_first) (use mac_output in auto)
  then obtain h where "walked key (l_id e) (length rows) h (foldl (feed H) (new_walk (Some key)) rows)"
    using walked_written[of key "l_id e" 1 "the (l_entry_hash ?r)" _ H es'] mac_output rows by auto
  from walked_finish[OF this] show ?thesis
    by (simp add: verify_chain_def rows Cons)
qed

theorem written_ledger_intact_witness:
  "v_status (verify_chain sample_hashing (Some (''key'', ''id'')) sample_rows sample_rows True) = Intact"
  using written_ledger_intact[where H = sample_hashing and key = "(''key'', ''id'')"
      and es = "[sample_entry 1, sample_entry 2]" and rows = sample_rows and ring = None] sample_mac
  by simp

end
