(* ===== verification/Endpoints.thy ===== *)
theory Endpoints
  imports Prelude
begin

text \<open>
  Which paths belong to a PKI protocol, to ACME or to the administration interface, and the host
  check of split deployments: the path classes and \<open>check_host_access\<close> of
  \<^verbatim>\<open>utils/public_endpoints.py\<close>. The configured hosts are arguments, as the settings and the
  network configuration give them; whether a host is an IP address is an argument too.
\<close>

definition HEALTH_PATHS :: "string list" where
  "HEALTH_PATHS =
     [''/api/v2/health'', ''/api/health'', ''/health'', ''/metrics'', ''/api/v2/metrics'',
      ''/api/auth/verify'', ''/api/v2/auth/verify'']"

definition PROTOCOL_PREFIXES :: "string list" where
  "PROTOCOL_PREFIXES =
     [''/cdp/'', ''/ca/'', ''/ocsp/'', ''/scep/'', ''/.well-known/'', ''/tsa/'', ''/ssh/setup/'',
      ''/ADPolicyProvider_CEP_'', ''/ADCertificateService_CES_'']"

definition PROTOCOL_EXACT_PATHS :: "string list" where
  "PROTOCOL_EXACT_PATHS = [''/ocsp'', ''/tsa'']"

definition ACME_PREFIXES :: "string list" where
  "ACME_PREFIXES = [''/acme/'']"

definition STATIC_PREFIXES :: "string list" where
  "STATIC_PREFIXES = [''/static/'', ''/assets/'']"

lemmas path_tables [ucm_tables] =
  HEALTH_PATHS_def PROTOCOL_PREFIXES_def PROTOCOL_EXACT_PATHS_def ACME_PREFIXES_def STATIC_PREFIXES_def

text \<open>\<open>path.startswith\<close> of a tuple.\<close>

definition starts_with_any :: "string \<Rightarrow> string list \<Rightarrow> bool" where
  "starts_with_any path ps \<longleftrightarrow> (\<exists>p \<in> set ps. starts_with path p)"

definition is_protocol_path :: "string \<Rightarrow> bool" where
  "is_protocol_path path \<longleftrightarrow> path \<in> set PROTOCOL_EXACT_PATHS \<or> starts_with_any path PROTOCOL_PREFIXES"

definition is_acme_path :: "string \<Rightarrow> bool" where
  "is_acme_path path \<longleftrightarrow> starts_with_any path ACME_PREFIXES"

definition is_public_protocol_path :: "string \<Rightarrow> bool" where
  "is_public_protocol_path path \<longleftrightarrow> is_protocol_path path \<or> is_acme_path path"

definition is_admin_ui_path :: "string \<Rightarrow> bool" where
  "is_admin_ui_path path =
     (if path \<in> set HEALTH_PATHS \<or> starts_with_any path STATIC_PREFIXES then False
      else if is_protocol_path path \<or> is_acme_path path then False
      else if starts_with path ''/socket.io/'' then True
      else if starts_with path ''/api/'' then True
      else \<not> starts_with path ''/api/'')"

definition skip_public_host_middleware :: "string \<Rightarrow> bool" where
  "skip_public_host_middleware path =
     (if path \<in> set HEALTH_PATHS then True else if starts_with_any path STATIC_PREFIXES then True else False)"

definition normalize_host :: "string option \<Rightarrow> string" where
  "normalize_host host = py_lower (before_sep CHR '':'' (case host of None \<Rightarrow> [] | Some h \<Rightarrow> h))"

definition is_split_acme_topology :: "string option \<Rightarrow> string option \<Rightarrow> bool" where
  "is_split_acme_topology acme admin =
     (case (acme, admin) of (Some a, Some b) \<Rightarrow> a \<noteq> [] \<and> b \<noteq> [] \<and> a \<noteq> b | _ \<Rightarrow> False)"

text \<open>\<open>acme_host\<close> and \<open>admin_host\<close> are the configured public hosts, or none.\<close>

definition check_host_access ::
  "string option \<Rightarrow> string option \<Rightarrow> (string \<Rightarrow> bool) \<Rightarrow> string \<Rightarrow> string option \<Rightarrow> (int \<times> string) option" where
  "check_host_access acme_host admin_host host_is_ip path host0 =
     (let host = normalize_host host0
      in if skip_public_host_middleware path then None
         else if is_protocol_path path then None
         else if is_split_acme_topology acme_host admin_host \<and> Some host = acme_host \<and> is_acme_path path
         then None
         else if is_split_acme_topology acme_host admin_host \<and> Some host = acme_host \<and> is_admin_ui_path path
         then Some (404, ''Admin interface is not available on the ACME public vhost'')
         else if admin_host \<noteq> None \<and> admin_host \<noteq> Some [] \<and> is_admin_ui_path path \<and> Some host \<noteq> admin_host
         then (if host_is_ip host \<or> (acme_host \<noteq> None \<and> acme_host \<noteq> Some [] \<and> Some host \<noteq> acme_host)
               then None
               else if Some host \<noteq> admin_host then None else None)
         else None)"

text \<open>
  in a deployment with its own ACME host, a request on that host is refused exactly when its
  path is not one a protocol client, an ACME client, a health check or a static asset uses:
  every other path, the whole administration interface and its API, answers 404, and on every
  other host nothing is refused.\<close>

theorem acme_host_serves_no_admin:
  "check_host_access (Some acme) (Some admin) host_is_ip path host \<noteq> None \<longleftrightarrow>
     acme \<noteq> [] \<and> admin \<noteq> [] \<and> acme \<noteq> admin \<and> normalize_host host = acme
     \<and> \<not> is_public_protocol_path path \<and> path \<notin> set HEALTH_PATHS \<and> \<not> starts_with_any path STATIC_PREFIXES"
  by (auto simp: check_host_access_def Let_def skip_public_host_middleware_def is_split_acme_topology_def
      is_admin_ui_path_def is_public_protocol_path_def)

end
