(* ===== verification/Rate_Limiter.thy ===== *)
theory Rate_Limiter
  imports Endpoints Complex_Main "HOL-Library.AList"
begin

text \<open>
  The request rate limiter, \<^verbatim>\<open>security/rate_limiter.py\<close>: configuration from the environment, the
  pattern a path answers to, and per address and pattern a token bucket combined with a sliding
  window of one minute. The theory bounds what one bucket lets through: at most \<open>rpm\<close> requests
  in any minute, and at most the burst plus the refill in any stretch of time.

  A clock reading and a token count are rational numbers (the code uses floats; rounding is not
  modelled). A dict is an association list in insertion order. \<open>environ\<close> gives the variables of
  the environment; \<open>ip_address\<close>, the parser of the \<open>ipaddress\<close> module, is an argument. The lock
  makes every operation atomic, so a run is a sequence of calls.
\<close>

section \<open>Configuration\<close>

type_synonym environ = "string \<Rightarrow> string option"

definition get_env_int :: "environ \<Rightarrow> string \<Rightarrow> int \<Rightarrow> int" where
  "get_env_int environ key dflt =
     (case environ key of
        None \<Rightarrow> dflt
      | Some v \<Rightarrow> (case py_int 10 v of None \<Rightarrow> dflt | Some n \<Rightarrow> n))"

definition get_env_bool :: "environ \<Rightarrow> string \<Rightarrow> bool \<Rightarrow> bool" where
  "get_env_bool environ key dflt =
     (let val = py_lower (case environ key of
                            None \<Rightarrow> if dflt then ''True'' else ''False'' | Some v \<Rightarrow> v)
      in val \<in> {''true'', ''1'', ''yes'', ''on''})"

record ip_flags =
  ip_private :: bool
  ip_loopback :: bool
  ip_link_local :: bool

definition is_lan_ip :: "(string \<Rightarrow> ip_flags option) \<Rightarrow> string \<Rightarrow> bool" where
  "is_lan_ip ip_address ip =
     (if ip = [] then False
      else case ip_address ip of
             None \<Rightarrow> False
           | Some addr \<Rightarrow> ip_private addr \<or> ip_loopback addr \<or> ip_link_local addr)"

record rate =
  rpm :: int
  burst :: int

type_synonym rates = "(string \<times> rate) list"

record rl_config =
  cf_limits_loaded :: bool
  cf_default_limits :: rates
  cf_enabled :: "bool option"
  cf_custom_limits :: rates
  cf_whitelist :: "string list"

definition auth_limits :: "environ \<Rightarrow> rates" where
  "auth_limits environ =
     (let auth_rpm = get_env_int environ ''RATE_LIMIT_AUTH_RPM'' 30;
          auth_burst = get_env_int environ ''RATE_LIMIT_AUTH_BURST'' 10;
          auth = \<lparr>rpm = auth_rpm, burst = auth_burst\<rparr>;
          recovery = \<lparr>rpm = auth_rpm div 2, burst = auth_burst - 1\<rparr>;
          public = \<lparr>rpm = 1000, burst = 100\<rparr>
      in [(''/api/v2/auth/login'', auth), (''/api/v2/auth/register'', recovery),
          (''/api/v2/auth/reset-password'', recovery), (''/api/v2/auth/forgot-password'', recovery),
          (''/api/v2/sso/callback'', auth), (''/api/v2/sso/ldap/login'', auth),
          (''/api/v2/auth/email-configured'', public), (''/api/v2/sso/available'', public)])"

definition heavy_limits :: "environ \<Rightarrow> rates" where
  "heavy_limits environ =
     (let heavy_rpm = get_env_int environ ''RATE_LIMIT_HEAVY_RPM'' 60;
          heavy_burst = get_env_int environ ''RATE_LIMIT_HEAVY_BURST'' 15
      in [(''/api/v2/certificates/issue'', \<lparr>rpm = heavy_rpm, burst = heavy_burst\<rparr>),
          (''/api/v2/cas'', \<lparr>rpm = heavy_rpm, burst = heavy_burst\<rparr>),
          (''/api/v2/csrs/sign'', \<lparr>rpm = heavy_rpm div 2, burst = heavy_burst\<rparr>),
          (''/api/v2/import'', \<lparr>rpm = heavy_rpm div 3, burst = 2\<rparr>),
          (''/api/v2/export'', \<lparr>rpm = heavy_rpm div 3, burst = 2\<rparr>),
          (''/api/v2/backup'', \<lparr>rpm = heavy_rpm div 6, burst = 2\<rparr>),
          (''/api/v2/ssh/cas/import'', \<lparr>rpm = 10, burst = 3\<rparr>),
          (''/api/v2/ssh/certificates/import'', \<lparr>rpm = 30, burst = 5\<rparr>)])"

definition standard_rate :: "environ \<Rightarrow> rate" where
  "standard_rate environ =
     \<lparr>rpm = get_env_int environ ''RATE_LIMIT_STANDARD_RPM'' 600,
      burst = get_env_int environ ''RATE_LIMIT_STANDARD_BURST'' 100\<rparr>"

definition protocol_rate :: "environ \<Rightarrow> rate" where
  "protocol_rate environ =
     \<lparr>rpm = get_env_int environ ''RATE_LIMIT_PROTOCOL_RPM'' 500,
      burst = get_env_int environ ''RATE_LIMIT_PROTOCOL_BURST'' 100\<rparr>"

definition halved :: "rate \<Rightarrow> rate" where
  "halved r = \<lparr>rpm = rpm r div 2, burst = burst r div 2\<rparr>"

definition default_limits :: "environ \<Rightarrow> rates" where
  "default_limits environ =
     (let standard = standard_rate environ; protocol = protocol_rate environ
      in auth_limits environ @ heavy_limits environ @
         [(''/api/v2/users'', halved standard), (''/api/v2/certificates'', standard),
          (''/api/v2/audit'', halved standard), (''/acme/'', halved protocol),
          (''/scep/'', halved protocol), (''/.well-known/est/'', halved protocol),
          (''/ocsp/'', protocol), (''/ocsp'', protocol), (''/cdp/'', protocol),
          (''/ca/'', standard), (''/tsa/'', standard), (''/tsa'', standard),
          (''/ssh/setup/'', standard), (''/.well-known/acme-challenge/'', standard),
          (''/ADPolicyProvider_CEP_'', standard), (''/ADCertificateService_CES_'', standard),
          (''_default'', standard)])"

definition env_whitelist :: "environ \<Rightarrow> string list" where
  "env_whitelist environ =
     (let text = (case environ ''RATE_LIMIT_WHITELIST'' of None \<Rightarrow> ''127.0.0.1,::1'' | Some v \<Rightarrow> v)
      in filter (\<lambda>ip. ip \<noteq> []) (map py_strip (py_split CHR '','' text)))"

definition load_limits :: "environ \<Rightarrow> rl_config \<Rightarrow> rl_config" where
  "load_limits environ cf =
     (if cf_limits_loaded cf then cf
      else cf\<lparr>cf_default_limits := default_limits environ,
              cf_whitelist := extend_new (cf_whitelist cf) (env_whitelist environ),
              cf_limits_loaded := True\<rparr>)"

definition get_default_limits :: "environ \<Rightarrow> rl_config \<Rightarrow> rates \<times> rl_config" where
  "get_default_limits environ cf =
     (let cf = load_limits environ cf in (cf_default_limits cf, cf))"

definition is_enabled :: "environ \<Rightarrow> rl_config \<Rightarrow> bool \<times> rl_config" where
  "is_enabled environ cf =
     (case cf_enabled cf of
        Some b \<Rightarrow> (b, cf)
      | None \<Rightarrow> let b = get_env_bool environ ''RATE_LIMIT_ENABLED'' True
                in (b, cf\<lparr>cf_enabled := Some b\<rparr>))"

definition set_enabled :: "bool \<Rightarrow> rl_config \<Rightarrow> rl_config" where
  "set_enabled b cf = cf\<lparr>cf_enabled := Some b\<rparr>"

text \<open>The loop over the patterns of one table: the first that the path starts with.\<close>

definition match_prefix :: "string \<Rightarrow> rates \<Rightarrow> string option" where
  "match_prefix path table =
     first_row (\<lambda>p. p \<notin> set PROTOCOL_EXACT_PATHS \<and> p \<noteq> ''_default'' \<and> starts_with path p)
       (map fst table)"

definition pattern_for :: "environ \<Rightarrow> string \<Rightarrow> rl_config \<Rightarrow> string" where
  "pattern_for environ path cf =
     (let cf = load_limits environ cf
      in if path \<in> set PROTOCOL_EXACT_PATHS
            \<and> (path \<in> fst ` set (cf_default_limits cf) \<or> path \<in> fst ` set (cf_custom_limits cf))
         then path
         else (case match_prefix path (cf_custom_limits cf) of
                 Some p \<Rightarrow> p
               | None \<Rightarrow> (case match_prefix path (cf_default_limits cf) of
                            Some p \<Rightarrow> p | None \<Rightarrow> ''_default'')))"

text \<open>\<open>None\<close> is the \<open>KeyError\<close> of a table without \<open>_default\<close>; the loaded table has one.\<close>

definition get_limit :: "environ \<Rightarrow> string \<Rightarrow> rl_config \<Rightarrow> rate option" where
  "get_limit environ path cf =
     (let cf = load_limits environ cf; pattern = pattern_for environ path cf
      in case map_of (cf_custom_limits cf) pattern of
           Some r \<Rightarrow> Some r
         | None \<Rightarrow> (case map_of (cf_default_limits cf) pattern of
                      Some r \<Rightarrow> Some r
                    | None \<Rightarrow> map_of (cf_default_limits cf) ''_default''))"

definition set_custom_limit :: "string \<Rightarrow> int \<Rightarrow> int \<Rightarrow> rl_config \<Rightarrow> rl_config" where
  "set_custom_limit path r b cf =
     cf\<lparr>cf_custom_limits := AList.update path \<lparr>rpm = r, burst = b\<rparr> (cf_custom_limits cf)\<rparr>"

definition remove_custom_limit :: "string \<Rightarrow> rl_config \<Rightarrow> rl_config" where
  "remove_custom_limit path cf = cf\<lparr>cf_custom_limits := AList.delete path (cf_custom_limits cf)\<rparr>"

definition add_whitelist :: "string \<Rightarrow> rl_config \<Rightarrow> rl_config" where
  "add_whitelist ip cf = cf\<lparr>cf_whitelist := append_new (cf_whitelist cf) ip\<rparr>"

definition remove_whitelist :: "string \<Rightarrow> rl_config \<Rightarrow> rl_config" where
  "remove_whitelist ip cf = cf\<lparr>cf_whitelist := removeAll ip (cf_whitelist cf)\<rparr>"

definition is_whitelisted :: "environ \<Rightarrow> (string \<Rightarrow> ip_flags option) \<Rightarrow> string \<Rightarrow> rl_config \<Rightarrow> bool" where
  "is_whitelisted environ ip_address ip cf =
     (let cf = load_limits environ cf
      in if ip \<in> set (cf_whitelist cf) then True
         else get_env_bool environ ''RATE_LIMIT_TRUST_LAN'' True \<and> is_lan_ip ip_address ip)"

definition reload :: "environ \<Rightarrow> rl_config \<Rightarrow> rl_config" where
  "reload environ cf =
     load_limits environ (cf\<lparr>cf_limits_loaded := False, cf_enabled := None, cf_whitelist := []\<rparr>)"

section \<open>The limiter\<close>

record bucket =
  tokens :: rat
  last_update :: rat
  requests :: "rat list"

record limiter =
  lm_buckets :: "(string \<times> bucket) list"
  lm_total_requests :: nat
  lm_rate_limited :: nat
  lm_by_endpoint :: "string \<Rightarrow> nat \<times> nat"

definition new_limiter :: limiter where
  "new_limiter = \<lparr>lm_buckets = [], lm_total_requests = 0, lm_rate_limited = 0,
                  lm_by_endpoint = (\<lambda>_. (0, 0))\<rparr>"

definition get_key :: "environ \<Rightarrow> rl_config \<Rightarrow> string \<Rightarrow> string \<Rightarrow> string" where
  "get_key environ cf ip path = ip @ '':'' @ pattern_for environ path cf"

text \<open>\<open>int\<close> of a float: the fraction is dropped.\<close>

definition py_trunc :: "rat \<Rightarrow> int" where
  "py_trunc x = (if 0 \<le> x then \<lfloor>x\<rfloor> else \<lceil>x\<rceil>)"

datatype rl_info =
    Limiter_Disabled
  | Whitelisted
  | Allowed (remaining: int) (limit: int) (reset: int)
  | Blocked (limit: int) (retry_after: int)

definition window :: rat where "window = 60"

text \<open>The bucket after cleaning and refill, before the request is decided.\<close>

definition refill :: "rate \<Rightarrow> rat \<Rightarrow> bucket \<Rightarrow> bucket" where
  "refill r now b =
     b\<lparr>requests := filter (\<lambda>t. now - t < window) (requests b),
       tokens := min (of_int (burst r)) (tokens b + (now - last_update b) / window * of_int (rpm r)),
       last_update := now\<rparr>"

definition new_bucket :: "rate \<Rightarrow> rat \<Rightarrow> bucket" where
  "new_bucket r now = \<lparr>tokens = of_int (burst r), last_update = now, requests = []\<rparr>"

definition admit :: "rate \<Rightarrow> rat \<Rightarrow> bucket \<Rightarrow> (bucket \<times> rl_info)" where
  "admit r now b =
     (let b = refill r now b
      in if 1 \<le> tokens b \<and> int (length (requests b)) < rpm r
         then let b = b\<lparr>tokens := tokens b - 1, requests := requests b @ [now]\<rparr>
              in (b, Allowed (py_trunc (tokens b)) (rpm r) (py_trunc (now + window - hd (requests b))))
         else (b, Blocked (rpm r)
                    (case requests b of
                       [] \<Rightarrow> py_trunc window
                     | oldest # _ \<Rightarrow> py_trunc (window - (now - oldest)) + 1)))"

fun is_allowed :: "rl_info \<Rightarrow> bool" where
  "is_allowed (Blocked _ _) = False"
| "is_allowed _ = True"

definition count_endpoint :: "string \<Rightarrow> bool \<Rightarrow> limiter \<Rightarrow> limiter" where
  "count_endpoint path ok lm =
     (let (a, b) = lm_by_endpoint lm path
      in lm\<lparr>lm_by_endpoint := (lm_by_endpoint lm)(path := if ok then (Suc a, b) else (a, Suc b)),
            lm_rate_limited := lm_rate_limited lm + (if ok then 0 else 1)\<rparr>)"

definition count_request :: "rate \<Rightarrow> string \<Rightarrow> string \<Rightarrow> rat \<Rightarrow> limiter \<Rightarrow> limiter \<times> rl_info" where
  "count_request r key path now lm =
     (let lm = lm\<lparr>lm_total_requests := Suc (lm_total_requests lm)\<rparr>;
          b = (case map_of (lm_buckets lm) key of None \<Rightarrow> new_bucket r now | Some b \<Rightarrow> b);
          (b, info) = admit r now b
      in (count_endpoint path (is_allowed info) (lm\<lparr>lm_buckets := AList.update key b (lm_buckets lm)\<rparr>), info))"

text \<open>\<open>None\<close> is the \<open>KeyError\<close> of \<open>get_limit\<close>.\<close>

definition check_rate_limit ::
  "environ \<Rightarrow> (string \<Rightarrow> ip_flags option) \<Rightarrow> rat \<Rightarrow> string \<Rightarrow> string \<Rightarrow> rl_config \<times> limiter
     \<Rightarrow> (rl_info \<times> rl_config \<times> limiter) option" where
  "check_rate_limit environ ip_address now ip path st =
     (let (cf, lm) = st; (enabled, cf) = is_enabled environ cf
      in if \<not> enabled then Some (Limiter_Disabled, cf, lm)
         else let cf = load_limits environ cf
              in if is_whitelisted environ ip_address ip cf then Some (Whitelisted, cf, lm)
                 else (case get_limit environ path cf of
                         None \<Rightarrow> None
                       | Some r \<Rightarrow>
                           let (lm, info) = count_request r (get_key environ cf ip path) path now lm
                           in Some (info, cf, lm)))"

definition reset_stats :: "limiter \<Rightarrow> limiter" where
  "reset_stats lm = lm\<lparr>lm_total_requests := 0, lm_rate_limited := 0, lm_by_endpoint := (\<lambda>_. (0, 0))\<rparr>"

definition clear_bucket :: "string option \<Rightarrow> limiter \<Rightarrow> limiter" where
  "clear_bucket ip lm =
     lm\<lparr>lm_buckets := (case ip of
           None \<Rightarrow> []
         | Some i \<Rightarrow> if i = [] then []
                     else filter (\<lambda>(k, b). \<not> starts_with k (i @ '':'')) (lm_buckets lm))\<rparr>"

section \<open>The two doors to the limiter\<close>

definition client_ip :: "string option \<Rightarrow> string option" where
  "client_ip remote_addr =
     (case remote_addr of
        None \<Rightarrow> None
      | Some ip \<Rightarrow> if CHR '','' \<in> set ip then Some (py_strip (before_sep CHR '','' ip)) else Some ip)"

text \<open>
  The middleware: \<open>Inl\<close> is the 429 answer with the seconds of its Retry-After header, \<open>Inr\<close> lets
  the request through with what \<open>g.rate_limit_info\<close> then holds. The address is the one the
  request carries. A refusal is also written to the audit log.
\<close>

definition rate_limit_middleware ::
  "environ \<Rightarrow> (string \<Rightarrow> ip_flags option) \<Rightarrow> rat \<Rightarrow> string \<Rightarrow> string \<Rightarrow> rl_config \<times> limiter
     \<Rightarrow> ((int + rl_info option) \<times> rl_config \<times> limiter) option" where
  "rate_limit_middleware environ ip_address now remote_addr path st =
     (if starts_with path ''/static'' \<or> path \<in> {''/health'', ''/api/health'', ''/api/v2/health''}
      then Some (Inr None, st)
      else case check_rate_limit environ ip_address now (the (client_ip (Some remote_addr))) path st of
             None \<Rightarrow> None
           | Some (info, st) \<Rightarrow>
               (case info of
                  Blocked _ after \<Rightarrow> Some (Inl after, st)
                | _ \<Rightarrow> Some (Inr (Some info), st)))"

text \<open>The decorator: \<open>Inr ()\<close> calls the route.\<close>

definition rate_limit ::
  "int option \<Rightarrow> int option \<Rightarrow> environ \<Rightarrow> (string \<Rightarrow> ip_flags option) \<Rightarrow> rat \<Rightarrow> string \<Rightarrow> string
     \<Rightarrow> rl_config \<times> limiter \<Rightarrow> ((int + unit) \<times> rl_config \<times> limiter) option" where
  "rate_limit r b environ ip_address now remote_addr path st =
     (let (cf, lm) = st;
          cf = (case r of
                  None \<Rightarrow> cf
                | Some n \<Rightarrow> set_custom_limit path n
                              (case b of None \<Rightarrow> n div 3 | Some m \<Rightarrow> if m = 0 then n div 3 else m) cf)
      in case check_rate_limit environ ip_address now (the (client_ip (Some remote_addr))) path (cf, lm) of
           None \<Rightarrow> None
         | Some (info, st) \<Rightarrow>
             (case info of Blocked _ after \<Rightarrow> Some (Inl after, st) | _ \<Rightarrow> Some (Inr (), st)))"

section \<open>What one bucket lets through\<close>

text \<open>
  The two bounds on the times \<open>hist\<close> at which a bucket admitted a request: the sliding window and
  the token bucket.
\<close>

definition window_bound :: "rate \<Rightarrow> rat list \<Rightarrow> bool" where
  "window_bound r hist \<longleftrightarrow>
     (\<forall>t. int (length (filter (\<lambda>x. t \<le> x \<and> x < t + window) hist)) \<le> rpm r)"

definition token_bound :: "rate \<Rightarrow> rat list \<Rightarrow> bool" where
  "token_bound r hist \<longleftrightarrow>
     (\<forall>s e. s \<le> e \<longrightarrow> of_nat (length (filter (\<lambda>x. s \<le> x \<and> x \<le> e) hist))
              \<le> of_int (burst r) + (e - s) / window * of_int (rpm r))"

definition bucket_inv :: "rate \<Rightarrow> rat list \<Rightarrow> bucket \<Rightarrow> bool" where
  "bucket_inv r hist b \<longleftrightarrow>
     (\<forall>x \<in> set hist. x \<le> last_update b)
     \<and> requests b = filter (\<lambda>t. last_update b - t < window) hist
     \<and> 0 \<le> tokens b \<and> tokens b \<le> of_int (burst r)
     \<and> (\<forall>s \<le> last_update b. of_nat (length (filter (\<lambda>x. s \<le> x) hist)) + tokens b
          \<le> of_int (burst r) + (last_update b - s) / window * of_int (rpm r))"

lemma bucket_inv_new: "0 \<le> burst r \<Longrightarrow> 0 \<le> rpm r \<Longrightarrow> bucket_inv r [] (new_bucket r now)"
  by (simp add: bucket_inv_def new_bucket_def window_def)

lemma filter_filter_weaker: "(\<And>x. P x \<Longrightarrow> Q x) \<Longrightarrow> filter P (filter Q xs) = filter P xs"
  by (induction xs) auto

lemma length_filter_mono: "(\<And>x. x \<in> set xs \<Longrightarrow> P x \<Longrightarrow> Q x) \<Longrightarrow> length (filter P xs) \<le> length (filter Q xs)"
  by (induction xs) auto

lemma bucket_inv_refill:
  assumes inv: "bucket_inv r hist b" and "last_update b \<le> now" and "0 \<le> rpm r"
  shows "bucket_inv r hist (refill r now b)"
proof -
  let ?m = "last_update b" and ?t = "tokens (refill r now b)"
  let ?add = "(now - ?m) / window * of_int (rpm r)"
  have add: "0 \<le> ?add" using assms(2,3) by (simp add: window_def)
  have t: "?t \<le> of_int (burst r)" "?t \<le> tokens b + ?add" "0 \<le> ?t"
    using inv add by (auto simp: refill_def bucket_inv_def)
  have "of_nat (length (filter (\<lambda>x. s \<le> x) hist)) + ?t
      \<le> of_int (burst r) + (now - s) / window * of_int (rpm r)" if "s \<le> now" for s
  proof (cases "s \<le> ?m")
    case True
    then have "of_nat (length (filter (\<lambda>x. s \<le> x) hist)) + tokens b
        \<le> of_int (burst r) + (?m - s) / window * of_int (rpm r)"
      using inv by (simp add: bucket_inv_def)
    moreover have "(now - s) / window * of_int (rpm r) = (?m - s) / window * of_int (rpm r) + ?add"
      by (simp add: field_simps window_def)
    ultimately show ?thesis using t(2) by linarith
  next
    case False
    then have "filter (\<lambda>x. s \<le> x) hist = []"
      using inv by (fastforce simp: bucket_inv_def filter_empty_conv)
    moreover have "0 \<le> (now - s) / window * of_int (rpm r)"
      using that assms(3) by (simp add: window_def)
    ultimately show ?thesis using t(1) by simp
  qed
  moreover have "requests (refill r now b) = filter (\<lambda>t. now - t < window) hist"
  proof -
    have "filter (\<lambda>t. now - t < window) (filter (\<lambda>t. ?m - t < window) hist) = filter (\<lambda>t. now - t < window) hist"
      by (rule filter_filter_weaker) (use assms(2) in linarith)
    then show ?thesis using inv by (simp add: refill_def bucket_inv_def)
  qed
  moreover have "\<forall>x \<in> set hist. x \<le> now"
    using inv assms(2) by (auto simp: bucket_inv_def)
  ultimately show ?thesis
    using t by (simp add: bucket_inv_def refill_def)
qed

lemma window_bound_snoc:
  assumes "window_bound r hist" "int (length (filter (\<lambda>x. now - x < window) hist)) < rpm r"
    and "\<forall>x \<in> set hist. x \<le> now"
  shows "window_bound r (hist @ [now])"
  unfolding window_bound_def
proof
  fix t
  show "int (length (filter (\<lambda>x. t \<le> x \<and> x < t + window) (hist @ [now]))) \<le> rpm r"
  proof (cases "t \<le> now \<and> now < t + window")
    case True
    have "length (filter (\<lambda>x. t \<le> x \<and> x < t + window) hist) \<le> length (filter (\<lambda>x. now - x < window) hist)"
      by (rule length_filter_mono) (use True in linarith)
    then show ?thesis using assms(2) True by simp
  next
    case False
    then show ?thesis using assms(1) by (auto simp: window_bound_def)
  qed
qed

lemma token_bound_snoc:
  assumes "token_bound r hist" "bucket_inv r (hist @ [now]) b" "last_update b = now"
    and "0 \<le> rpm r" "0 \<le> burst r"
  shows "token_bound r (hist @ [now])"
  unfolding token_bound_def
proof (intro allI impI)
  fix s e :: rat
  assume "s \<le> e"
  show "of_nat (length (filter (\<lambda>x. s \<le> x \<and> x \<le> e) (hist @ [now])))
      \<le> of_int (burst r) + (e - s) / window * of_int (rpm r)"
  proof (cases "s \<le> now \<and> now \<le> e")
    case True
    have "length (filter (\<lambda>x. s \<le> x \<and> x \<le> e) (hist @ [now])) \<le> length (filter (\<lambda>x. s \<le> x) (hist @ [now]))"
      by (rule length_filter_mono) simp
    then have "(of_nat (length (filter (\<lambda>x. s \<le> x \<and> x \<le> e) (hist @ [now]))) :: rat)
        \<le> of_nat (length (filter (\<lambda>x. s \<le> x) (hist @ [now])))"
      by (rule of_nat_mono)
    moreover have "of_nat (length (filter (\<lambda>x. s \<le> x) (hist @ [now]))) + tokens b
        \<le> of_int (burst r) + (now - s) / window * of_int (rpm r)" "0 \<le> tokens b"
      using assms(2,3) True unfolding bucket_inv_def by blast+
    moreover have "(now - s) / window * of_int (rpm r) \<le> (e - s) / window * of_int (rpm r)"
      using True assms(4) by (intro mult_right_mono) (auto simp: window_def)
    ultimately show ?thesis by linarith
  next
    case False
    then show ?thesis using assms(1) \<open>s \<le> e\<close> by (auto simp: token_bound_def)
  qed
qed

lemma admit_step:
  assumes inv: "bucket_inv r hist b" and "last_update b \<le> now" and pos: "0 \<le> rpm r" "0 \<le> burst r"
    and bounds: "window_bound r hist" "token_bound r hist"
    and step: "admit r now b = (b', info)" and hist': "hist' = hist @ (if is_allowed info then [now] else [])"
  shows "bucket_inv r hist' b' \<and> last_update b' = now \<and> window_bound r hist' \<and> token_bound r hist'"
proof -
  let ?b = "refill r now b"
  have ref: "bucket_inv r hist ?b" and m: "last_update ?b = now"
    using bucket_inv_refill[OF inv assms(2) pos(1)] by (simp_all add: refill_def)
  show ?thesis
  proof (cases "1 \<le> tokens ?b \<and> int (length (requests ?b)) < rpm r")
    case True
    then have b': "b' = ?b\<lparr>tokens := tokens ?b - 1, requests := requests ?b @ [now]\<rparr>" and ok: "is_allowed info"
      using step by (auto simp: admit_def Let_def)
    have le: "\<forall>x \<in> set hist. x \<le> now" using ref m by (auto simp: bucket_inv_def)
    have inv': "bucket_inv r (hist @ [now]) b'"
      using ref True m by (auto simp: bucket_inv_def b' window_def)
    have "window_bound r (hist @ [now])"
      by (rule window_bound_snoc[OF bounds(1) _ le]) (use True ref m in \<open>simp add: bucket_inv_def\<close>)
    moreover have "token_bound r (hist @ [now])"
      by (rule token_bound_snoc[OF bounds(2) inv' _ pos]) (simp add: b' m)
    ultimately show ?thesis using inv' ok by (simp add: hist' b' m)
  next
    case False
    then have "b' = ?b" "\<not> is_allowed info"
      using step by (auto simp: admit_def Let_def split: if_splits list.splits)
    then show ?thesis using ref m bounds by (simp add: hist')
  qed
qed

section \<open>Runs of the limiter\<close>

text \<open>A run: the calls in the order the lock serves them, each with its verdict.\<close>

fun rl_run :: "environ \<Rightarrow> (string \<Rightarrow> ip_flags option) \<Rightarrow> rl_config \<times> limiter \<Rightarrow> (rat \<times> string \<times> string) list
    \<Rightarrow> ((rat \<times> string \<times> string) \<times> rl_info) list" where
  "rl_run environ lan st [] = []"
| "rl_run environ lan st ((now, ip, path) # calls) =
     (case check_rate_limit environ lan now ip path st of
        None \<Rightarrow> []
      | Some (info, st) \<Rightarrow> ((now, ip, path), info) # rl_run environ lan st calls)"

text \<open>The times at which a bucket admitted a request.\<close>

definition admitted_at :: "environ \<Rightarrow> rl_config \<Rightarrow> string \<Rightarrow> ((rat \<times> string \<times> string) \<times> rl_info) list \<Rightarrow> rat list" where
  "admitted_at environ cf key outs =
     map (\<lambda>((now, ip, path), info). now)
       (filter (\<lambda>((now, ip, path), info). get_key environ cf ip path = key \<and>
                  (case info of Allowed _ _ _ \<Rightarrow> True | _ \<Rightarrow> False)) outs)"

definition key_state :: "rate \<Rightarrow> string \<Rightarrow> rat list \<Rightarrow> rat \<Rightarrow> limiter \<Rightarrow> bool" where
  "key_state r key hist now lm \<longleftrightarrow> window_bound r hist \<and> token_bound r hist \<and>
     (case map_of (lm_buckets lm) key of
        None \<Rightarrow> hist = []
      | Some b \<Rightarrow> bucket_inv r hist b \<and> last_update b \<le> now)"

lemma buckets_count_endpoint [simp]: "lm_buckets (count_endpoint path ok lm) = lm_buckets lm"
  by (simp add: count_endpoint_def split: prod.split)

lemma count_request_other:
  assumes "count_request r key path now lm = (lm', info)" "key \<noteq> k"
  shows "map_of (lm_buckets lm') k = map_of (lm_buckets lm) k"
  using assms by (auto simp: count_request_def Let_def update_conv' split: prod.splits)

lemma key_state_mono: "key_state r key hist t lm \<Longrightarrow> t \<le> now \<Longrightarrow> key_state r key hist now lm"
  by (auto simp: key_state_def split: option.splits)

lemma count_request_key:
  assumes st: "key_state r key hist t lm" and "t \<le> now" and pos: "0 \<le> rpm r" "0 \<le> burst r"
    and step: "count_request r key path now lm = (lm', info)"
  shows "key_state r key (hist @ (if is_allowed info then [now] else [])) now lm'"
proof -
  define b where "b = (case map_of (lm_buckets lm) key of None \<Rightarrow> new_bucket r now | Some b \<Rightarrow> b)"
  have inv: "bucket_inv r hist b" "last_update b \<le> now"
    using st \<open>t \<le> now\<close> bucket_inv_new[OF pos(2,1)]
    by (auto simp: key_state_def b_def new_bucket_def split: option.splits)
  obtain b' where a: "admit r now b = (b', info)"
    and lm': "map_of (lm_buckets lm') key = Some b'"
    using step by (auto simp: count_request_def Let_def b_def update_conv' split: prod.splits)
  show ?thesis
    using admit_step[OF inv pos _ _ a refl] st lm' by (simp add: key_state_def)
qed

lemma admit_verdict: "admit r now b = (b', info) \<Longrightarrow> 
   is_allowed info \<longleftrightarrow> (case info of Allowed _ _ _ \<Rightarrow> True | _ \<Rightarrow> False)"
  by (auto simp: admit_def Let_def split: if_splits)

lemma count_request_verdict: "count_request r key path now lm = (lm', info) \<Longrightarrow> 
   is_allowed info \<longleftrightarrow> (case info of Allowed _ _ _ \<Rightarrow> True | _ \<Rightarrow> False)"
  by (auto simp: count_request_def Let_def split: prod.splits dest: admit_verdict)

lemma check_running:
  assumes "cf_limits_loaded cf" "cf_enabled cf = Some True"
    and "check_rate_limit environ lan now ip path (cf, lm) = Some (info, st)"
  shows "fst st = cf \<and> (info = Whitelisted \<and> snd st = lm \<or>
      (\<exists>r. get_limit environ path cf = Some r \<and>
         count_request r (get_key environ cf ip path) path now lm = (snd st, info)))"
  using assms
  by (auto simp: check_rate_limit_def is_enabled_def load_limits_def Let_def
      split: option.splits prod.splits if_splits)

lemma rl_run_bounds:
  assumes cf: "cf_limits_loaded cf" "cf_enabled cf = Some True" and pos: "0 \<le> rpm r" "0 \<le> burst r"
    and "\<forall>(now, ip, path) \<in> set calls. get_key environ cf ip path = key \<longrightarrow> get_limit environ path cf = Some r"
    and "sorted (map fst calls)" "\<forall>c \<in> set calls. t \<le> fst c" "key_state r key hist t lm"
  shows "window_bound r (hist @ admitted_at environ cf key (rl_run environ lan (cf, lm) calls))
       \<and> token_bound r (hist @ admitted_at environ cf key (rl_run environ lan (cf, lm) calls))"
  using assms(5-)
proof (induction calls arbitrary: t hist lm)
  case Nil
  then show ?case by (simp add: admitted_at_def key_state_def)
next
  case (Cons c calls)
  obtain now ip path where c: "c = (now, ip, path)" by (cases c)
  show ?case
  proof (cases "check_rate_limit environ lan now ip path (cf, lm)")
    case None
    then show ?thesis using Cons.prems by (simp add: c admitted_at_def key_state_def)
  next
    case (Some res)
    then obtain info lm' where res: "check_rate_limit environ lan now ip path (cf, lm) = Some (info, cf, lm')"
      using check_running[OF cf] by (cases res) (metis prod.collapse)
    note step = check_running[OF cf res]
    let ?new = "if get_key environ cf ip path = key \<and> (case info of Allowed _ _ _ \<Rightarrow> True | _ \<Rightarrow> False)
                then [now] else []"
    have "key_state r key (hist @ ?new) now lm'"
    proof (cases "info = Whitelisted")
      case True
      then show ?thesis
        using step Cons.prems(3,4) key_state_mono[of r key hist t lm now]
        by (auto simp: c dest!: count_request_verdict)
    next
      case False
      then obtain r' where r': "get_limit environ path cf = Some r'"
        "count_request r' (get_key environ cf ip path) path now lm = (lm', info)"
        using step by auto
      show ?thesis
      proof (cases "get_key environ cf ip path = key")
        case True
        then have "r' = r" using Cons.prems(1) r'(1) by (simp add: c)
        then have "count_request r key path now lm = (lm', info)" using r'(2) True by simp
        from count_request_key[OF Cons.prems(4) _ pos this] count_request_verdict[OF r'(2)]
        show ?thesis using Cons.prems(3) True by (simp add: c split: if_splits)
      next
        case other: False
        then show ?thesis
          using count_request_other[OF r'(2) other] key_state_mono[OF Cons.prems(4), of now] Cons.prems(3)
          by (simp add: key_state_def c)
      qed
    qed
    moreover have "hist @ admitted_at environ cf key (rl_run environ lan (cf, lm) (c # calls)) =
        (hist @ ?new) @ admitted_at environ cf key (rl_run environ lan (cf, lm') calls)"
      by (simp add: c res admitted_at_def)
    ultimately show ?thesis
      using Cons.IH[of now "hist @ ?new" lm'] Cons.prems(1,2) by (simp add: c)
  qed
qed

section \<open>Properties\<close>

lemma key_state_new: "0 \<le> rpm r \<Longrightarrow> 0 \<le> burst r \<Longrightarrow> key_state r key [] t new_limiter"
  by (simp add: key_state_def new_limiter_def window_bound_def token_bound_def window_def)

lemma run_from_start:
  assumes "cf_limits_loaded cf" "cf_enabled cf = Some True" "0 \<le> rpm r" "0 \<le> burst r"
    and "\<forall>(now, ip, path) \<in> set calls. get_key environ cf ip path = key \<longrightarrow> get_limit environ path cf = Some r"
    and "sorted (map fst calls)"
  shows "window_bound r (admitted_at environ cf key (rl_run environ lan (cf, new_limiter) calls))"
    "token_bound r (admitted_at environ cf key (rl_run environ lan (cf, new_limiter) calls))"
proof -
  define t where "t = (if calls = [] then 0 else fst (hd calls))"
  have "\<forall>c \<in> set calls. t \<le> fst c"
    using assms(6) by (cases calls) (auto simp: t_def)
  then show "window_bound r (admitted_at environ cf key (rl_run environ lan (cf, new_limiter) calls))"
    "token_bound r (admitted_at environ cf key (rl_run environ lan (cf, new_limiter) calls))"
    using rl_run_bounds[OF assms _ key_state_new[OF assms(3,4)], of t lan] by simp_all
qed

definition sample_config :: rl_config where
  "sample_config = \<lparr>cf_limits_loaded = True, cf_default_limits = [(''_default'', \<lparr>rpm = 2, burst = 1\<rparr>)],
     cf_enabled = Some True, cf_custom_limits = [], cf_whitelist = []\<rparr>"

lemma sample_pattern: "pattern_for env path sample_config = ''_default''"
  by (auto simp: pattern_for_def sample_config_def load_limits_def match_prefix_def first_row_def
      PROTOCOL_EXACT_PATHS_def Let_def)

lemma sample_limit: "get_limit env path sample_config = Some \<lparr>rpm = 2, burst = 1\<rparr>"
  by (simp add: get_limit_def sample_pattern load_limits_def Let_def) (simp add: sample_config_def)

text \<open>
  C37: the sliding window holds. Take a running, enabled limiter with no buckets yet and any sequence
  of requests, from any addresses and for any paths, at times that never go back. If all requests
  that fall in one bucket are under the limit of \<open>rpm\<close> requests and a non-negative burst, then in
  every interval of 60 seconds at most \<open>rpm\<close> of them are admitted.\<close>

theorem admitted_per_window:
  assumes "cf_limits_loaded cf" "cf_enabled cf = Some True" "0 \<le> rpm r" "0 \<le> burst r"
    and "\<forall>(now, ip, path) \<in> set calls. get_key environ cf ip path = key \<longrightarrow> get_limit environ path cf = Some r"
    and "sorted (map fst calls)"
  shows "int (length (filter (\<lambda>x. t \<le> x \<and> x < t + 60)
           (admitted_at environ cf key (rl_run environ lan (cf, new_limiter) calls)))) \<le> rpm r"
  using run_from_start(1)[OF assms] by (simp add: window_bound_def window_def)

theorem admitted_per_window_witness:
  "int (length (filter (\<lambda>x. 0 \<le> x \<and> x < 0 + 60)
     (admitted_at Map.empty sample_config ''9.9.9.9:_default''
       (rl_run Map.empty Map.empty (sample_config, new_limiter)
          [(0, ''9.9.9.9'', ''/x''), (1, ''9.9.9.9'', ''/y''), (40, ''9.9.9.9'', ''/x'')])))) \<le> 2"
  using admitted_per_window[where cf = sample_config and r = "\<lparr>rpm = 2, burst = 1\<rparr>" and t = 0
      and environ = Map.empty and key = "''9.9.9.9:_default''" and lan = Map.empty
      and calls = "[(0, ''9.9.9.9'', ''/x''), (1, ''9.9.9.9'', ''/y''), (40, ''9.9.9.9'', ''/x'')]"]
  by (simp add: sample_limit) (simp add: sample_config_def)

text \<open>
  the token bucket holds. Under the same conditions, between any two moments \<open>s\<close> and \<open>e\<close> a
  bucket admits at most its burst plus \<open>rpm / 60\<close> requests per second of \<open>e - s\<close>.\<close>

theorem admitted_per_interval:
  assumes "cf_limits_loaded cf" "cf_enabled cf = Some True" "0 \<le> rpm r" "0 \<le> burst r"
    and "\<forall>(now, ip, path) \<in> set calls. get_key environ cf ip path = key \<longrightarrow> get_limit environ path cf = Some r"
    and "sorted (map fst calls)" and "s \<le> e"
  shows "of_nat (length (filter (\<lambda>x. s \<le> x \<and> x \<le> e)
           (admitted_at environ cf key (rl_run environ lan (cf, new_limiter) calls))))
         \<le> of_int (burst r) + (e - s) / 60 * of_int (rpm r)"
  using run_from_start(2)[OF assms(1-6)] assms(7) by (simp add: token_bound_def window_def)

theorem admitted_per_interval_witness:
  "of_nat (length (filter (\<lambda>x. 0 \<le> x \<and> x \<le> 1)
     (admitted_at Map.empty sample_config ''9.9.9.9:_default''
       (rl_run Map.empty Map.empty (sample_config, new_limiter)
          [(0, ''9.9.9.9'', ''/x''), (1, ''9.9.9.9'', ''/y'')])))) \<le> (1 + (1 - 0) / 60 * 2 :: rat)"
  using admitted_per_interval[where cf = sample_config and r = "\<lparr>rpm = 2, burst = 1\<rparr>" and s = 0 and e = 1
      and environ = Map.empty and key = "''9.9.9.9:_default''" and lan = Map.empty
      and calls = "[(0, ''9.9.9.9'', ''/x''), (1, ''9.9.9.9'', ''/y'')]"]
  by (simp add: sample_limit) (simp add: sample_config_def)

lemma py_trunc_bounds: "0 \<le> x \<Longrightarrow> of_int (py_trunc x) \<le> x \<and> x < of_int (py_trunc x) + 1"
  using floor_correct[of x] by (simp add: py_trunc_def)

text \<open>
  the delay a refusal announces is right. For a bucket whose recorded times are not in the
  future, a refused request is told to wait between 1 and 61 seconds, and after that delay the
  oldest request counted has left the window.\<close>

theorem retry_after_frees_slot:
  assumes "admit r now b = (b', Blocked l n)" "\<forall>t \<in> set (requests b). t \<le> now"
  shows "1 \<le> n \<and> n \<le> 61 \<and> (\<forall>oldest rest. requests b' = oldest # rest \<longrightarrow> window \<le> now + of_int n - oldest)"
proof -
  have b': "b' = refill r now b" and n: "n = (case requests b' of
      [] \<Rightarrow> py_trunc window | oldest # _ \<Rightarrow> py_trunc (window - (now - oldest)) + 1)"
    using assms(1) by (auto simp: admit_def Let_def split: if_splits)
  show ?thesis
  proof (cases "requests b'")
    case Nil
    then show ?thesis by (simp add: n py_trunc_def window_def)
  next
    case (Cons oldest rest)
    then have "oldest \<in> set (filter (\<lambda>t. now - t < window) (requests b))"
      by (simp add: b' refill_def)
    then have "oldest \<in> set (requests b)" "now - oldest < window" by simp_all
    then have "0 \<le> window - (now - oldest)" "window - (now - oldest) \<le> 60"
      using assms(2) by (auto simp: window_def)
    then have t: "0 \<le> py_trunc (window - (now - oldest))" "py_trunc (window - (now - oldest)) \<le> 60"
      by (simp_all add: py_trunc_def floor_le_iff)
    then show ?thesis
      using py_trunc_bounds[OF \<open>0 \<le> window - (now - oldest)\<close>] Cons by (simp add: n)
  qed
qed

theorem retry_after_frees_slot_witness:
  "1 \<le> (31 :: int) \<and> (31 :: int) \<le> 61 \<and> window \<le> 30 + of_int 31 - 0"
proof -
  have run: "admit \<lparr>rpm = 1, burst = 1\<rparr> 30 \<lparr>tokens = 1, last_update = 30, requests = [0]\<rparr> =
      (\<lparr>tokens = 1, last_update = 30, requests = [0]\<rparr>, Blocked 1 31)"
    by (simp add: admit_def refill_def window_def py_trunc_def)
  show ?thesis using retry_after_frees_slot[OF run] by simp
qed

text \<open>
  the reset value of an admitted request is never below a full window: for a bucket whose recorded
  times are not in the future it is at least 60, since it adds the age of the oldest request
  counted to 60 instead of taking it away.\<close>

theorem reset_never_below_window:
  assumes "admit r now b = (b', Allowed m l n)" "\<forall>t \<in> set (requests b). t \<le> now"
  shows "60 \<le> n"
proof -
  have n: "n = py_trunc (now + window - hd (filter (\<lambda>t. now - t < window) (requests b) @ [now]))"
    using assms(1) by (auto simp: admit_def refill_def Let_def split: if_splits)
  have "hd (xs @ [now]) \<le> now" if "\<forall>t \<in> set xs. t \<le> now" for xs :: "rat list"
    using that by (cases xs) auto
  then have "hd (filter (\<lambda>t. now - t < window) (requests b) @ [now]) \<le> now"
    using assms(2) by simp
  then have "60 \<le> now + window - hd (filter (\<lambda>t. now - t < window) (requests b) @ [now])"
    by (simp add: window_def)
  then show ?thesis by (simp add: n py_trunc_def le_floor_iff)
qed

theorem reset_never_below_window_witness: "60 \<le> (90 :: int)"
  by (rule reset_never_below_window[where r = "\<lparr>rpm = 5, burst = 5\<rparr>" and now = 30 and m = 4 and l = 5
        and b = "\<lparr>tokens = 5, last_update = 30, requests = [0]\<rparr>"
        and b' = "\<lparr>tokens = 4, last_update = 30, requests = [0, 30]\<rparr>"])
    (simp_all add: admit_def refill_def window_def py_trunc_def)

end
