(* ===== verification/Csrf.thy ===== *)
theory Csrf
  imports Auth Endpoints
begin

text \<open>
  Cross-site request forgery protection, \<^verbatim>\<open>security/csrf.py\<close>: tokens bound to a user and a time,
  exempt paths, and the hook that runs before each request. HMAC-SHA256 under the secret key of
  the application, as hex text, is the parameter \<open>mac\<close>; the clock gives whole seconds.
\<close>

definition CSRF_TOKEN_LIFETIME :: int where
  "CSRF_TOKEN_LIFETIME = 3600 * 24"

definition CSRF_PROTECTED_METHODS :: "string list" where
  "CSRF_PROTECTED_METHODS = [''POST'', ''PUT'', ''DELETE'', ''PATCH'']"

definition CSRF_EXEMPT_PATHS :: "string list" where
  "CSRF_EXEMPT_PATHS =
     [''/api/v2/auth/login'', ''/api/v2/auth/forgot'', ''/api/v2/auth/reset'', ''/api/v2/auth/methods'',
      ''/api/v2/sso/callback'', ''/api/v2/sso/login'', ''/api/v2/sso/ldap/login'',
      ''/api/v2/sso/saml/metadata'', ''/api/v2/sso/available'', ''/api/health'', ''/api/v2/health'']"

definition CSRF_EXEMPT_PROTOCOL_PATHS :: "string list" where
  "CSRF_EXEMPT_PROTOCOL_PATHS = PROTOCOL_PREFIXES @ ACME_PREFIXES"

text \<open>\<open>enabled\<close> is the class attribute \<open>_enabled\<close>.\<close>

definition csrf_is_enabled :: "(string \<Rightarrow> string option) \<Rightarrow> bool \<Rightarrow> bool" where
  "csrf_is_enabled environ enabled =
     (if py_lower (case environ ''CSRF_DISABLED'' of None \<Rightarrow> [] | Some v \<Rightarrow> v) = ''true''
         \<and> (environ ''FLASK_ENV'' = Some ''development'' \<or> environ ''UCM_DEV_MODE'' = Some ''true'')
      then False else enabled)"

definition csrf_message :: "string \<Rightarrow> string \<Rightarrow> int \<Rightarrow> string" where
  "csrf_message timestamp nonce user_id = timestamp @ '':'' @ nonce @ '':'' @ show_int user_id"

definition generate_token :: "(string \<Rightarrow> string) \<Rightarrow> int \<Rightarrow> string \<Rightarrow> int \<Rightarrow> string" where
  "generate_token mac now nonce user_id =
     (let timestamp = show_int now
      in timestamp @ '':'' @ nonce @ '':'' @ mac (csrf_message timestamp nonce user_id))"

datatype csrf_error =
  Missing_Token | Invalid_Format | Expired | Invalid_Timestamp | Invalid_Token | Validation_Failed

text \<open>
  \<open>Inl\<close> is \<open>(False, message)\<close>. A timestamp that \<open>int\<close> refuses, and a signature outside ASCII, which
  \<open>compare_digest\<close> refuses, end in the handler for exceptions.
\<close>

definition validate_token :: "(string \<Rightarrow> string) \<Rightarrow> int \<Rightarrow> string \<Rightarrow> int \<Rightarrow> csrf_error + unit" where
  "validate_token mac now token user_id =
     (if token = [] then Inl Missing_Token
      else case py_split CHR '':'' token of
             [timestamp, nonce, provided_sig] \<Rightarrow>
               (case py_int 10 timestamp of
                  None \<Rightarrow> Inl Validation_Failed
                | Some issued \<Rightarrow>
                    let token_age = now - issued
                    in if token_age > CSRF_TOKEN_LIFETIME then Inl Expired
                       else if token_age < 0 then Inl Invalid_Timestamp
                       else if \<exists>c \<in> set provided_sig. 128 \<le> ascii_code c then Inl Validation_Failed
                       else if provided_sig \<noteq> mac (csrf_message timestamp nonce user_id)
                       then Inl Invalid_Token
                       else Inr ())
           | _ \<Rightarrow> Inl Invalid_Format)"

text \<open>
  A token found in a JSON body may be any value: one that is false is missing, one that is no text
  has no \<open>split\<close>.
\<close>

fun validate_json_token :: "(string \<Rightarrow> string) \<Rightarrow> int \<Rightarrow> json \<Rightarrow> int \<Rightarrow> csrf_error + unit" where
  "validate_json_token mac now (JStr token) user_id = validate_token mac now token user_id"
| "validate_json_token mac now v user_id =
     (if v \<in> {JNull, JBool False, JInt 0, JList [], JDict []} then Inl Missing_Token else Inl Validation_Failed)"

definition is_exempt :: "string \<Rightarrow> bool" where
  "is_exempt path =
     (if path \<in> set PROTOCOL_EXACT_PATHS then True
      else if starts_with_any path CSRF_EXEMPT_PROTOCOL_PATHS then True
      else starts_with_any path CSRF_EXEMPT_PATHS)"

text \<open>
  The request as the hook sees it: \<open>c_body\<close> is the decoded JSON body when the request has one,
  \<open>c_g_user_id\<close> and \<open>c_session_user_id\<close> the user ids already known.
\<close>

record csrf_request =
  c_request :: request
  c_token_header :: "string option"
  c_body :: "json option"
  c_g_user_id :: "int option"
  c_session_user_id :: "int option"

definition id_or :: "int option \<Rightarrow> int option \<Rightarrow> int option" where
  "id_or a b = (case a of Some i \<Rightarrow> if i = 0 then b else a | None \<Rightarrow> b)"

definition presented_token :: "csrf_request \<Rightarrow> json" where
  "presented_token req =
     (case c_token_header req of
        Some t \<Rightarrow> if t \<noteq> [] then JStr t
                  else (case c_body req of
                          Some (JDict kvs) \<Rightarrow> (case map_of kvs ''_csrf_token'' of None \<Rightarrow> JNull | Some v \<Rightarrow> v)
                        | _ \<Rightarrow> JStr [])
      | None \<Rightarrow> (case c_body req of
                   Some (JDict kvs) \<Rightarrow> (case map_of kvs ''_csrf_token'' of None \<Rightarrow> JNull | Some v \<Rightarrow> v)
                 | _ \<Rightarrow> JNull))"

text \<open>\<open>Inl\<close> is the answer 403, \<open>Inr ()\<close> lets the request through.\<close>

definition check_csrf ::
  "(string \<Rightarrow> string) \<Rightarrow> (string \<Rightarrow> string option) \<Rightarrow> bool \<Rightarrow> int \<Rightarrow> csrf_request \<Rightarrow> csrf_error + unit" where
  "check_csrf mac environ enabled now req =
     (if \<not> csrf_is_enabled environ enabled then Inr ()
      else if req_method (c_request req) \<notin> set CSRF_PROTECTED_METHODS then Inr ()
      else if is_exempt (req_path (c_request req)) then Inr ()
      else if presented_api_key (c_request req) \<noteq> None then Inr ()
      else case id_or (c_g_user_id req) (c_session_user_id req) of
             None \<Rightarrow> Inr ()
           | Some user_id \<Rightarrow>
               if user_id = 0 then Inr () else validate_json_token mac now (presented_token req) user_id)"

section \<open>Properties\<close>

lemma py_split_Nil_sep: "c \<notin> set s \<Longrightarrow> py_split c s = [s]"
  by (induction s) auto

lemma py_split_append: "c \<notin> set u \<Longrightarrow> py_split c (u @ c # v) = u # py_split c v"
  by (induction u) auto

lemma split_token:
  "CHR '':'' \<notin> set a \<Longrightarrow> CHR '':'' \<notin> set b \<Longrightarrow> CHR '':'' \<notin> set d \<Longrightarrow>
   py_split CHR '':'' (a @ '':'' @ b @ '':'' @ d) = [a, b, d]"
  by (simp add: py_split_append py_split_Nil_sep)

lemma colon_not_in_show_int [simp]: "CHR '':'' \<notin> set (show_int n)"
  by (rule show_int_no_sep) (simp_all add: is_digit_def ascii_code_def)

lemma csrf_message_inj:
  assumes "CHR '':'' \<notin> set n" "csrf_message t n a = csrf_message t n b"
  shows "a = b"
  using assms by (simp add: csrf_message_def)

text \<open>A sample authenticator: the text itself, its colons replaced.\<close>

definition sample_mac :: "string \<Rightarrow> string" where
  "sample_mac s = map (\<lambda>c. if c = CHR '':'' then CHR ''-'' else c) s"

text \<open>
  a token is accepted exactly for its user and its lifetime. A token issued for one user at a
  time of the epoch is accepted for a user at another time if and only if the user is the same and
  the age is between zero and 24 hours. Assumed of the nonce and of HMAC: both are hex text (no
  colon, ASCII) and HMAC does not give the same text for the two messages compared.\<close>

theorem token_accepted_iff:
  assumes "0 \<le> issued" "CHR '':'' \<notin> set nonce"
    and "CHR '':'' \<notin> set (mac (csrf_message (show_int issued) nonce user_id))"
    and "\<forall>c \<in> set (mac (csrf_message (show_int issued) nonce user_id)). ascii_code c < 128"
    and "mac (csrf_message (show_int issued) nonce user_id) = mac (csrf_message (show_int issued) nonce other)
         \<longrightarrow> csrf_message (show_int issued) nonce user_id = csrf_message (show_int issued) nonce other"
  shows "validate_token mac now (generate_token mac issued nonce user_id) other = Inr () \<longleftrightarrow>
           other = user_id \<and> issued \<le> now \<and> now \<le> issued + CSRF_TOKEN_LIFETIME"
proof -
  have "py_split CHR '':'' (generate_token mac issued nonce user_id) =
      [show_int issued, nonce, mac (csrf_message (show_int issued) nonce user_id)]"
    using split_token[OF colon_not_in_show_int assms(2,3)] by (simp add: generate_token_def Let_def)
  moreover have "generate_token mac issued nonce user_id \<noteq> []"
    by (simp add: generate_token_def Let_def)
  ultimately show ?thesis
    using py_int_show_nonneg[OF assms(1)] assms(4,5) csrf_message_inj[OF assms(2)]
    by (auto simp: validate_token_def Let_def not_le)
qed

theorem token_accepted_iff_witness:
  "validate_token sample_mac 1000 (generate_token sample_mac 900 ''ab'' 7) 8 = Inr () \<longleftrightarrow>
     (8 :: int) = 7 \<and> (900 :: int) \<le> 1000 \<and> 1000 \<le> 900 + CSRF_TOKEN_LIFETIME"
  by (rule token_accepted_iff)
    (simp_all add: csrf_message_def sample_mac_def show_int_def show_digits.simps ucm_eval)

text \<open>
  what a request that passes the hook has shown. With the protection on, a request that is let
  through uses a method that changes no state, or an exempt path, or presents an API key, or has no
  user yet, or carries in its header or body a text token that is of the three-part form, was
  issued for this user under the application's key, and is between zero and 24 hours old.\<close>

theorem csrf_pass_needs_token:
  assumes "check_csrf mac environ enabled now req = Inr ()" "csrf_is_enabled environ enabled"
    and "req_method (c_request req) \<in> set CSRF_PROTECTED_METHODS" "\<not> is_exempt (req_path (c_request req))"
    and "presented_api_key (c_request req) = None"
    and "id_or (c_g_user_id req) (c_session_user_id req) = Some user_id" "user_id \<noteq> 0"
  shows "\<exists>timestamp nonce issued.
           presented_token req =
             JStr (timestamp @ '':'' @ nonce @ '':'' @ mac (csrf_message timestamp nonce user_id))
           \<and> py_int 10 timestamp = Some issued \<and> issued \<le> now \<and> now \<le> issued + CSRF_TOKEN_LIFETIME"
proof -
  have ok: "validate_json_token mac now (presented_token req) user_id = Inr ()"
    using assms by (simp add: check_csrf_def)
  then obtain token where t: "presented_token req = JStr token" "validate_token mac now token user_id = Inr ()"
    by (cases "presented_token req") (auto split: if_splits)
  then obtain timestamp nonce issued where
    p: "py_split CHR '':'' token = [timestamp, nonce, mac (csrf_message timestamp nonce user_id)]"
      "py_int 10 timestamp = Some issued" "issued \<le> now" "now \<le> issued + CSRF_TOKEN_LIFETIME"
    by (auto simp: validate_token_def Let_def split: if_splits list.splits option.splits)
  have "token = timestamp @ '':'' @ nonce @ '':'' @ mac (csrf_message timestamp nonce user_id)"
    using join_py_split[of "CHR '':''" token] by (simp add: p(1))
  then show ?thesis using t(1) p by blast
qed

definition sample_csrf_request :: csrf_request where
  "sample_csrf_request =
     \<lparr>c_request = \<lparr>req_x_api_key = None, req_authorization = None, req_path = ''/api/v2/cas'', req_method = ''POST''\<rparr>,
      c_token_header = Some (generate_token sample_mac 900 ''ab'' 7), c_body = None, c_g_user_id = None,
      c_session_user_id = Some 7\<rparr>"

theorem csrf_pass_needs_token_witness:
  "\<exists>timestamp nonce issued.
     presented_token sample_csrf_request =
       JStr (timestamp @ '':'' @ nonce @ '':'' @ sample_mac (csrf_message timestamp nonce 7))
     \<and> py_int 10 timestamp = Some issued \<and> issued \<le> 1000 \<and> 1000 \<le> issued + CSRF_TOKEN_LIFETIME"
  by (rule csrf_pass_needs_token[where environ = Map.empty and enabled = True])
    (simp_all add: sample_csrf_request_def check_csrf_def csrf_is_enabled_def presented_token_def id_or_def
      CSRF_PROTECTED_METHODS_def is_exempt_def starts_with_any_def CSRF_EXEMPT_PROTOCOL_PATHS_def
      CSRF_EXEMPT_PATHS_def presented_api_key_def validate_token_def generate_token_def csrf_message_def
      CSRF_TOKEN_LIFETIME_def sample_mac_def show_int_def show_digits.simps ucm_eval ucm_tables)

end
