(* ===== verification/Password_Policy.thy ===== *)
theory Password_Policy
  imports Prelude
begin

text \<open>
  The password policy, \<^verbatim>\<open>security/password_policy.py\<close>: the policy read from the settings, the
  validation of a password and the strength score. The regular expressions for character classes
  are their character sets, in ASCII.
\<close>

section \<open>The policy\<close>

record password_policy =
  min_length :: int
  max_length :: int
  require_uppercase :: bool
  require_lowercase :: bool
  require_digit :: bool
  require_special :: bool
  special_chars :: string
  blacklist :: "string list"

definition DEFAULT_BLACKLIST :: "string list" where
  "DEFAULT_BLACKLIST =
     [''password'', ''password1'', ''password123'', ''12345678'', ''123456789'', ''1234567890'',
      ''qwerty'', ''qwerty123'', ''letmein'', ''admin'', ''admin123'', ''administrator'',
      ''changeme'', ''changeme123'', ''welcome'', ''abc123'', ''monkey'', ''dragon'', ''master'',
      ''password!'', ''P@ssword1'', ''P@ssw0rd'']"

definition DEFAULT_POLICY :: password_policy where
  "DEFAULT_POLICY =
     \<lparr>min_length = 8, max_length = 128, require_uppercase = True, require_lowercase = True,
      require_digit = True, require_special = True, special_chars = ''!@#$%^&*()_+-=[]{}|;:,.<>?'',
      blacklist = DEFAULT_BLACKLIST\<rparr>"

text \<open>\<open>get_cfg\<close> with a boolean and with an integer default; \<open>cfg\<close> looks a setting up.\<close>

definition get_cfg_bool :: "(string \<Rightarrow> string option) \<Rightarrow> string \<Rightarrow> bool \<Rightarrow> bool" where
  "get_cfg_bool cfg key dflt =
     (case cfg key of None \<Rightarrow> dflt | Some v \<Rightarrow> py_lower v \<in> {''true'', ''1'', ''yes''})"

definition get_cfg_int :: "(string \<Rightarrow> string option) \<Rightarrow> string \<Rightarrow> int \<Rightarrow> int" where
  "get_cfg_int cfg key dflt =
     (case cfg key of None \<Rightarrow> dflt
      | Some v \<Rightarrow> (case py_int 10 (py_lower v) of None \<Rightarrow> dflt | Some n \<Rightarrow> n))"

text \<open>\<open>cfg = None\<close>: no application context, the default policy.\<close>

definition load_policy_from_config :: "(string \<Rightarrow> string option) option \<Rightarrow> password_policy" where
  "load_policy_from_config cfg =
     (case cfg of
        None \<Rightarrow> DEFAULT_POLICY
      | Some cfg \<Rightarrow>
          DEFAULT_POLICY\<lparr>
            min_length := get_cfg_int cfg ''min_password_length'' (min_length DEFAULT_POLICY),
            max_length := get_cfg_int cfg ''max_password_length'' (max_length DEFAULT_POLICY),
            require_uppercase := get_cfg_bool cfg ''password_require_uppercase'' (require_uppercase DEFAULT_POLICY),
            require_lowercase := get_cfg_bool cfg ''password_require_lowercase'' (require_lowercase DEFAULT_POLICY),
            require_digit := get_cfg_bool cfg ''password_require_numbers'' (require_digit DEFAULT_POLICY),
            require_special := get_cfg_bool cfg ''password_require_special'' (require_special DEFAULT_POLICY)\<rparr>)"

section \<open>Runs of characters\<close>

definition SEQUENCES :: "string list" where
  "SEQUENCES =
     [''abcdefghijklmnopqrstuvwxyz'', ''ABCDEFGHIJKLMNOPQRSTUVWXYZ'', ''0123456789'',
      ''qwertyuiop'', ''asdfghjkl'', ''zxcvbnm'']"

text \<open>\<open>[s[i:i + n] for i in range(len(s) - n + 1)]\<close>.\<close>

definition windows :: "nat \<Rightarrow> 'a list \<Rightarrow> 'a list list" where
  "windows n s = map (\<lambda>i. take n (drop i s)) [0..<length s + 1 - n]"

definition has_sequential_chars :: "string \<Rightarrow> nat \<Rightarrow> bool" where
  "has_sequential_chars password min_seq =
     list_ex (\<lambda>s. list_ex (\<lambda>w. substring w password \<or> substring (rev w) password) (windows min_seq s)) SEQUENCES"

definition has_repeated_chars :: "string \<Rightarrow> nat \<Rightarrow> bool" where
  "has_repeated_chars password min_repeat =
     list_ex (\<lambda>w. length (remdups w) = 1) (windows min_repeat password)"

section \<open>Validation\<close>

datatype policy_error =
  Required | Min_Length | Max_Length | Uppercase | Lowercase | Digit | Special | Common | Username
  | Similar | Sequential | Repeated

definition error_if :: "bool \<Rightarrow> policy_error \<Rightarrow> policy_error list" where
  "error_if b e = (if b then [e] else [])"

definition has_class :: "(char \<Rightarrow> bool) \<Rightarrow> string \<Rightarrow> bool" where
  "has_class p s \<longleftrightarrow> list_ex p s"

definition validate_password ::
  "string \<Rightarrow> password_policy \<Rightarrow> string option \<Rightarrow> bool \<times> policy_error list" where
  "validate_password password policy username =
     (if password = [] then (False, [Required])
      else let len = int (length password);
               name = (case username of None \<Rightarrow> [] | Some u \<Rightarrow> u);
               errors =
                 error_if (len < min_length policy) Min_Length @
                 error_if (len > max_length policy) Max_Length @
                 error_if (require_uppercase policy \<and> \<not> has_class is_upper password) Uppercase @
                 error_if (require_lowercase policy \<and> \<not> has_class is_lower password) Lowercase @
                 error_if (require_digit policy \<and> \<not> has_class is_digit password) Digit @
                 error_if (require_special policy \<and>
                           \<not> has_class (\<lambda>c. c \<in> set (special_chars policy)) password) Special @
                 error_if (py_lower password \<in> set (map py_lower (blacklist policy))) Common @
                 (if name \<noteq> []
                  then error_if (substring (py_lower name) (py_lower password)) Username @
                       error_if (substring (py_lower password) (py_lower name)
                                 \<and> length password < length name) Similar
                  else []) @
                 error_if (has_sequential_chars password 4) Sequential @
                 error_if (has_repeated_chars password 4) Repeated
           in (errors = [], errors))"

section \<open>Strength\<close>

datatype strength_level = Weak | Fair | Good | Strong

datatype feedback =
  Is_Empty | Use_8 | Add_Upper | Add_Lower | Add_Digits | Add_Special | More_Varied | Too_Common
  | Avoid_Sequential | Avoid_Repeated | Looks_Good

definition STRENGTH_SPECIAL :: string where
  "STRENGTH_SPECIAL = ''!@#$%^&*()_+-=[]{}|;:,.<>?''"

definition length_score :: "string \<Rightarrow> int" where
  "length_score p = (if 8 \<le> length p then 10 else 0) + (if 12 \<le> length p then 10 else 0)
                    + (if 16 \<le> length p then 10 else 0)"

definition class_score :: "bool \<Rightarrow> feedback \<Rightarrow> int \<times> feedback list \<Rightarrow> int \<times> feedback list" where
  "class_score b f st = (if b then (fst st + 10, snd st) else (fst st, snd st @ [f]))"

text \<open>The ratio of distinct characters is compared with 0.7 and 0.5.\<close>

definition uniqueness_score :: "string \<Rightarrow> int \<times> feedback list \<Rightarrow> int \<times> feedback list" where
  "uniqueness_score p st =
     (let unique = length (remdups p)
      in if 10 * unique > 7 * length p then (fst st + 20, snd st)
         else if 2 * unique > length p then (fst st + 10, snd st)
         else (fst st, snd st @ [More_Varied]))"

definition pattern_penalty :: "string \<Rightarrow> int \<times> feedback list \<Rightarrow> int \<times> feedback list" where
  "pattern_penalty p st =
     (let st = (if py_lower p \<in> set (blacklist DEFAULT_POLICY) then (min (fst st) 10, [Too_Common]) else st);
          st = (if has_sequential_chars p 4 then (fst st - 10, snd st @ [Avoid_Sequential]) else st);
          st = (if has_repeated_chars p 3 then (fst st - 10, snd st @ [Avoid_Repeated]) else st)
      in st)"

definition get_password_strength :: "string \<Rightarrow> int \<times> strength_level \<times> feedback list" where
  "get_password_strength password =
     (if password = [] then (0, Weak, [Is_Empty])
      else let st = (length_score password, if length password < 8 then [Use_8] else []);
               st = class_score (has_class is_upper password) Add_Upper st;
               st = class_score (has_class is_lower password) Add_Lower st;
               st = class_score (has_class is_digit password) Add_Digits st;
               st = class_score (has_class (\<lambda>c. c \<in> set STRENGTH_SPECIAL) password) Add_Special st;
               st = uniqueness_score password st;
               st = pattern_penalty password st;
               score = max 0 (min 100 (fst st));
               level = (if 80 \<le> score then Strong else if 60 \<le> score then Good
                        else if 40 \<le> score then Fair else Weak)
           in (score, level, if snd st = [] then [Looks_Good] else snd st))"

section \<open>What validation rules out\<close>

lemma set_windows: "w \<in> set (windows n s) \<longleftrightarrow> length w = n \<and> (\<exists>u v. s = u @ w @ v)"
proof
  assume "w \<in> set (windows n s)"
  then obtain i where i: "i < length s + 1 - n" "w = take n (drop i s)"
    by (auto simp: windows_def)
  then have "i + n \<le> length s" by arith
  then have "length w = n" by (simp add: i(2))
  moreover have "s = take i s @ w @ drop n (drop i s)"
    unfolding i(2) by (metis append_take_drop_id)
  ultimately show "length w = n \<and> (\<exists>u v. s = u @ w @ v)" by blast
next
  assume "length w = n \<and> (\<exists>u v. s = u @ w @ v)"
  then obtain u v where "s = u @ w @ v" "length w = n" by blast
  then have "w = take n (drop (length u) s)" "length u < length s + 1 - n" by auto
  then show "w \<in> set (windows n s)" unfolding windows_def by auto
qed

text \<open>The repeated-character check finds exactly the runs of one character.\<close>

lemma remdups_single: "length (remdups w) = 1 \<longleftrightarrow> (\<exists>c. w \<noteq> [] \<and> w = replicate (length w) c)"
proof
  assume "length (remdups w) = 1"
  then obtain c where "remdups w = [c]" by (auto simp: length_Suc_conv)
  then have c: "set w = {c}" by (metis list.set(1,2) set_remdups)
  then have "w = replicate (length w) c"
    by (metis replicate_eqI singletonD)
  then show "\<exists>c. w \<noteq> [] \<and> w = replicate (length w) c" using c by auto
next
  assume "\<exists>c. w \<noteq> [] \<and> w = replicate (length w) c"
  then obtain c where "w \<noteq> []" "w = replicate (length w) c" by blast
  then have "set w = {c}" by (metis length_0_conv set_replicate)
  then show "length (remdups w) = 1"
    by (metis One_nat_def card.empty card_insert_disjoint empty_iff finite.emptyI length_remdups_card_conv)
qed

lemma has_repeated_chars_iff:
  assumes "0 < n"
  shows "has_repeated_chars p n \<longleftrightarrow> (\<exists>c. substring (replicate n c) p)"
proof
  assume "has_repeated_chars p n"
  then obtain w where w: "w \<in> set (windows n p)" "length (remdups w) = 1"
    by (auto simp: has_repeated_chars_def list_ex_iff)
  then obtain c where "w = replicate n c"
    unfolding remdups_single set_windows by metis
  then show "\<exists>c. substring (replicate n c) p"
    using w(1) by (auto simp: set_windows substring_iff)
next
  assume "\<exists>c. substring (replicate n c) p"
  then obtain c where "replicate n c \<in> set (windows n p)"
    by (auto simp: set_windows substring_iff)
  moreover have "length (remdups (replicate n c)) = 1"
    unfolding remdups_single using assms by auto
  ultimately show "has_repeated_chars p n"
    unfolding has_repeated_chars_def list_ex_iff by blast
qed

lemma has_sequential_chars_iff:
  "has_sequential_chars p n \<longleftrightarrow>
     (\<exists>s \<in> set SEQUENCES. \<exists>w. length w = n \<and> substring w s \<and> (substring w p \<or> substring (rev w) p))"
  unfolding has_sequential_chars_def list_ex_iff Bex_def
  by (auto simp: set_windows substring_iff)


section \<open>Properties\<close>

text \<open>
  what an accepted password is. Validation accepts a password exactly when it is not empty, its
  length is within the policy, it has every character class the policy requires, it is none of the
  listed common passwords up to case, it does not contain the user name up to case nor is a shorter
  part of it, it contains no run of four equal characters, and no four characters that follow each
  other, forwards or backwards, in the alphabet, the digits or a keyboard row.\<close>

theorem validate_password_iff:
  "fst (validate_password p policy username) \<longleftrightarrow>
     p \<noteq> [] \<and> min_length policy \<le> int (length p) \<and> int (length p) \<le> max_length policy
     \<and> (require_uppercase policy \<longrightarrow> (\<exists>c \<in> set p. is_upper c))
     \<and> (require_lowercase policy \<longrightarrow> (\<exists>c \<in> set p. is_lower c))
     \<and> (require_digit policy \<longrightarrow> (\<exists>c \<in> set p. is_digit c))
     \<and> (require_special policy \<longrightarrow> set p \<inter> set (special_chars policy) \<noteq> {})
     \<and> (\<forall>b \<in> set (blacklist policy). py_lower p \<noteq> py_lower b)
     \<and> (\<forall>u. username = Some u \<and> u \<noteq> [] \<longrightarrow>
          \<not> (\<exists>x y. py_lower p = x @ py_lower u @ y)
          \<and> (length p < length u \<longrightarrow> \<not> (\<exists>x y. py_lower u = x @ py_lower p @ y)))
     \<and> \<not> (\<exists>x c y. p = x @ replicate 4 c @ y)
     \<and> \<not> (\<exists>s \<in> set SEQUENCES. \<exists>w. length w = 4 \<and> (\<exists>x y. s = x @ w @ y)
            \<and> (\<exists>x y. p = x @ w @ y \<or> p = x @ rev w @ y))"
proof -
  have rep: "has_repeated_chars p 4 \<longleftrightarrow> (\<exists>x c y. p = x @ replicate 4 c @ y)"
    by (auto simp: has_repeated_chars_iff substring_iff)
  have seq: "has_sequential_chars p 4 \<longleftrightarrow> (\<exists>s \<in> set SEQUENCES. \<exists>w. length w = 4 \<and> (\<exists>x y. s = x @ w @ y)
            \<and> (\<exists>x y. p = x @ w @ y \<or> p = x @ rev w @ y))"
    unfolding has_sequential_chars_iff substring_iff by blast
  have err: "error_if b e = [] \<longleftrightarrow> \<not> b" for b e by (simp add: error_if_def)
  show ?thesis
    unfolding rep[symmetric] seq[symmetric]
    by (cases username)
      (auto simp: validate_password_def Let_def err has_class_def list_ex_iff substring_iff not_less)
qed

theorem validate_password_iff_witness: "\<not> fst (validate_password ''aaaaB1!x'' DEFAULT_POLICY (Some ''bob''))"
proof -
  have "\<exists>x c y. ''aaaaB1!x'' = x @ replicate 4 c @ y"
    by (rule exI[of _ "[]"], rule exI[of _ "CHR ''a''"], rule exI[of _ "''B1!x''"]) (simp add: numeral_eq_Suc)
  then show ?thesis
    using validate_password_iff[of "''aaaaB1!x''" DEFAULT_POLICY "Some ''bob''"] by blast
qed

lemma fst_class_score: "fst (class_score b f st) = fst st + (if b then 10 else 0)"
  by (simp add: class_score_def)

lemma fst_uniqueness_score: "fst (uniqueness_score p st) \<le> fst st + 20"
  by (simp add: uniqueness_score_def Let_def)

lemma fst_pattern_penalty:
  "fst (pattern_penalty p st) \<le> fst st"
  "py_lower p \<in> set DEFAULT_BLACKLIST \<Longrightarrow> fst (pattern_penalty p st) \<le> 10"
  by (auto simp: pattern_penalty_def Let_def DEFAULT_POLICY_def)

lemma length_score_le: "length_score p \<le> 30"
  by (simp add: length_score_def)

text \<open>
  the strength score of any password is between 0 and 90 and its level is the one of its band;
  a password whose lower-case form is in the list of common passwords scores at most 10.\<close>

theorem password_strength_bounds:
  "case get_password_strength p of (score, level, _) \<Rightarrow>
     0 \<le> score \<and> score \<le> (if py_lower p \<in> set DEFAULT_BLACKLIST then 10 else 90)
     \<and> (level = Strong \<longleftrightarrow> 80 \<le> score) \<and> (level = Good \<longleftrightarrow> 60 \<le> score \<and> score < 80)
     \<and> (level = Fair \<longleftrightarrow> 40 \<le> score \<and> score < 60) \<and> (level = Weak \<longleftrightarrow> score < 40)"
proof (cases "p = []")
  case True
  then show ?thesis by (simp add: get_password_strength_def)
next
  case False
  define st where "st = class_score (has_class (\<lambda>c. c \<in> set STRENGTH_SPECIAL) p) Add_Special
    (class_score (has_class is_digit p) Add_Digits (class_score (has_class is_lower p) Add_Lower
     (class_score (has_class is_upper p) Add_Upper
       (length_score p, if length p < 8 then [Use_8] else []))))"
  define sc where "sc = fst (pattern_penalty p (uniqueness_score p st))"
  have "fst st \<le> 70"
    using length_score_le[of p] by (simp add: st_def fst_class_score)
  then have "sc \<le> 90"
    using fst_pattern_penalty(1)[of p "uniqueness_score p st"] fst_uniqueness_score[of p st]
    by (simp add: sc_def)
  moreover have "py_lower p \<in> set DEFAULT_BLACKLIST \<Longrightarrow> sc \<le> 10"
    using fst_pattern_penalty(2) by (simp add: sc_def)
  ultimately show ?thesis
    using False by (auto simp: get_password_strength_def Let_def st_def[symmetric] sc_def[symmetric])
qed

text \<open>
  The list holds two entries with capitals, which no lower-cased password equals: the score calls
  such a password good, the validation calls it common.
\<close>

lemma capital_blacklist_entries_unmatched:
  "fst (snd (get_password_strength ''P@ssw0rd'')) = Good
   \<and> Common \<in> set (snd (validate_password ''P@ssw0rd'' DEFAULT_POLICY None))"
  by (simp add: get_password_strength_def validate_password_def length_score_def class_score_def
      uniqueness_score_def pattern_penalty_def has_class_def DEFAULT_POLICY_def DEFAULT_BLACKLIST_def
      STRENGTH_SPECIAL_def has_sequential_chars_def has_repeated_chars_def SEQUENCES_def windows_def
      error_if_def upt_rec ucm_eval)

end
