(* ===== verification/Policies.thy ===== *)
theory Policies
  imports Prelude
begin

text \<open>
  Certificate policies: the policy row of \<^verbatim>\<open>models/policy.py\<close> and, of
  \<^verbatim>\<open>services/policy_service.py\<close>, which policies govern a request (\<open>_in_scope\<close>,
  \<open>check_approval_required\<close>), the digests they leave (\<open>allowed_digests\<close>, \<open>choose_digest\<close>) and the
  validity cap and name count of \<open>enforce_rules\<close>. The key type, signature scheme, date and HSM
  rules of \<open>_rule_messages\<close> are not modelled here.

  The rules column is decoded JSON, and a shape the code does not expect raises, as in the code.
\<close>

section \<open>The policy row\<close>

definition OPERATIONS :: "string list" where
  "OPERATIONS = [''issuance'', ''renewal'', ''revocation'']"

definition legacy_operations :: "string option \<Rightarrow> string list" where
  "legacy_operations policy_type =
     (if policy_type \<in> {None, Some [], Some ''issuance''} then [''issuance''] else [])"

record certificate_policy =
  p_id :: int
  p_name :: string
  p_policy_type :: "string option"
  p_operations :: json_text
  p_ca_id :: "int option"
  p_template_id :: "int option"
  p_rules :: json_text
  p_requires_approval :: bool
  p_approval_group_id :: "int option"
  p_min_approvers :: "int option"
  p_is_active :: bool
  p_priority :: int

definition get_rules :: "certificate_policy \<Rightarrow> json" where
  "get_rules p = (case p_rules p of Json_Text j \<Rightarrow> j | _ \<Rightarrow> JDict [])"

definition set_rules :: "json \<Rightarrow> certificate_policy \<Rightarrow> certificate_policy" where
  "set_rules rules p = p\<lparr>p_rules := Json_Text rules\<rparr>"

definition get_operations :: "certificate_policy \<Rightarrow> string list" where
  "get_operations p =
     (case p_operations p of
        No_Text \<Rightarrow> legacy_operations (p_policy_type p)
      | Json_Text (JList ops) \<Rightarrow> filter (\<lambda>op. JStr op \<in> set ops) OPERATIONS
      | _ \<Rightarrow> [])"

definition set_operations :: "string list \<Rightarrow> certificate_policy \<Rightarrow> certificate_policy" where
  "set_operations operations p =
     (let ops = filter (\<lambda>op. op \<in> set operations) OPERATIONS
      in p\<lparr>p_operations := Json_Text (JList (map JStr ops)),
           p_policy_type := (if ops \<noteq> [] then Some (hd ops) else p_policy_type p)\<rparr>)"

definition applies_to :: "certificate_policy \<Rightarrow> string \<Rightarrow> bool" where
  "applies_to p operation \<longleftrightarrow> operation \<in> set (get_operations p)"

section \<open>Scope\<close>

definition RENEWAL_OPERATIONS :: "string list" where
  "RENEWAL_OPERATIONS = [''issuance'', ''renewal'']"

definition request_names :: "string option \<Rightarrow> string list \<Rightarrow> string list" where
  "request_names cn san_list =
     (case cn of None \<Rightarrow> [] | Some c \<Rightarrow> if c \<noteq> [] then [c] else []) @ san_list"

definition name_matches :: "string \<Rightarrow> string \<Rightarrow> bool" where
  "name_matches dns_pattern name =
     (if dns_pattern = ''*.'' then starts_with name ''*.''
      else starts_with name dns_pattern \<or> ends_with name dns_pattern)"

text \<open>A pattern that is no text reaches \<open>name.startswith\<close>, which refuses it.\<close>

definition matches_rules ::
  "certificate_policy \<Rightarrow> string option \<Rightarrow> string list \<Rightarrow> py_error + bool" where
  "matches_rules policy cn san_list =
     sum_bind (json_get (get_rules policy) ''san_restrictions'' (JDict [])) (\<lambda>san_restrictions.
     sum_bind (json_get san_restrictions ''dns_pattern'' (JStr [])) (\<lambda>dns_pattern.
       if \<not> json_truthy dns_pattern then Inr True
       else if request_names cn san_list = [] then Inr False
       else (case dns_pattern of
               JStr pat \<Rightarrow> Inr (list_ex (name_matches pat) (request_names cn san_list))
             | _ \<Rightarrow> Inl TypeError)))"

record policy_query =
  q_operations :: "string list"
  q_ca_ids :: "int option list"
  q_template_id :: "int option"
  q_cn :: "string option"
  q_san_list :: "string list"

definition scope_covers :: "policy_query \<Rightarrow> certificate_policy \<Rightarrow> bool" where
  "scope_covers q policy \<longleftrightarrow>
     list_ex (applies_to policy) (q_operations q)
     \<and> (p_ca_id policy = None \<or> p_ca_id policy \<in> set (q_ca_ids q))
     \<and> (p_template_id policy = None \<or> p_template_id policy = q_template_id q)"

fun matching_loop :: "policy_query \<Rightarrow> certificate_policy list \<Rightarrow> py_error + certificate_policy list" where
  "matching_loop q [] = Inr []"
| "matching_loop q (policy # rest) =
     (if \<not> scope_covers q policy then matching_loop q rest
      else sum_bind (matches_rules policy (q_cn q) (q_san_list q)) (\<lambda>ok.
             if ok then sum_bind (matching_loop q rest) (\<lambda>ps. Inr (policy # ps))
             else matching_loop q rest))"

definition in_scope :: "certificate_policy list \<Rightarrow> policy_query \<Rightarrow> bool \<Rightarrow> py_error + certificate_policy list" where
  "in_scope table q approval =
     matching_loop q
       (sort_key p_priority
         (filter (\<lambda>p. p_is_active p \<and> (approval \<longrightarrow> p_requires_approval p)) table))"

definition check_approval_required ::
  "certificate_policy list \<Rightarrow> policy_query \<Rightarrow> py_error + certificate_policy option" where
  "check_approval_required table q =
     sum_bind (in_scope table q True) (\<lambda>matching. Inr (case matching of [] \<Rightarrow> None | p # _ \<Rightarrow> Some p))"

section \<open>Digests\<close>

definition POLICY_DIGESTS :: "string list" where
  "POLICY_DIGESTS = [''sha256'', ''sha384'', ''sha512'']"

definition normalize_digest :: "string \<Rightarrow> string option" where
  "normalize_digest value =
     (let name = py_remove CHR ''-'' (py_lower (py_strip value))
      in if name \<in> set POLICY_DIGESTS then Some name else None)"

text \<open>An entry of the list that is no text prints as something no digest is called.\<close>

fun normalize_json_digest :: "json \<Rightarrow> string option" where
  "normalize_json_digest (JStr s) = normalize_digest s"
| "normalize_json_digest _ = None"

definition rule_digests :: "json \<Rightarrow> py_error + string list" where
  "rule_digests rules =
     sum_bind (json_get rules ''allowed_digests'' JNull) (\<lambda>allowed.
       Inr (case allowed of
              JList ds \<Rightarrow> filter (\<lambda>d. Some d \<in> normalize_json_digest ` set ds) POLICY_DIGESTS
            | _ \<Rightarrow> []))"

text \<open>\<open>policy.get_rules() or {}\<close>.\<close>

definition rules_or_empty :: "certificate_policy \<Rightarrow> json" where
  "rules_or_empty p = (if json_truthy (get_rules p) then get_rules p else JDict [])"

fun allowed_digests :: "certificate_policy list \<Rightarrow> string list option \<Rightarrow> py_error + string list option" where
  "allowed_digests [] allowed = Inr allowed"
| "allowed_digests (policy # rest) allowed =
     sum_bind (rule_digests (rules_or_empty policy)) (\<lambda>names.
       allowed_digests rest
         (if names \<noteq> []
          then Some (case allowed of None \<Rightarrow> names | Some a \<Rightarrow> filter (\<lambda>d. d \<in> set names) a)
          else allowed))"

definition choose_digest :: "certificate_policy list \<Rightarrow> string \<Rightarrow> py_error + string" where
  "choose_digest policies dflt =
     (let dflt = (case normalize_digest dflt of None \<Rightarrow> ''sha256'' | Some d \<Rightarrow> d)
      in sum_bind (allowed_digests policies None) (\<lambda>allowed.
           Inr (case allowed of
                  None \<Rightarrow> dflt
                | Some a \<Rightarrow> if a = [] \<or> dflt \<in> set a then dflt else hd a)))"

section \<open>Validity cap and name count\<close>

text \<open>
  The loops of \<open>enforce_rules\<close> over \<open>max_validity_days\<close> and \<open>max_dns_names\<close>, on the rules of the
  policies checked. A JSON boolean is no number here; \<open>JInt\<close> is.
\<close>

fun cap_validity :: "(string \<times> json) list \<Rightarrow> int option \<Rightarrow> string option \<Rightarrow> py_error + int option \<times> string option" where
  "cap_validity [] effective capped_by = Inr (effective, capped_by)"
| "cap_validity ((name, rules) # rest) effective capped_by =
     sum_bind (json_get rules ''max_validity_days'' JNull) (\<lambda>max_validity.
       case (effective, max_validity) of
         (Some e, JInt m) \<Rightarrow>
           if 0 < m \<and> m < e then cap_validity rest (Some m) (Some name)
           else cap_validity rest effective capped_by
       | _ \<Rightarrow> cap_validity rest effective capped_by)"

definition too_many_names :: "json \<Rightarrow> int option \<Rightarrow> py_error + bool" where
  "too_many_names rules dns_name_count =
     sum_bind (json_get rules ''san_restrictions'' JNull) (\<lambda>san_rules.
       let max_dns = (case san_rules of
                        JDict kvs \<Rightarrow> (case map_of kvs ''max_dns_names'' of None \<Rightarrow> JNull | Some v \<Rightarrow> v)
                      | _ \<Rightarrow> JNull)
       in Inr (case (dns_name_count, max_dns) of (Some n, JInt m) \<Rightarrow> 0 < m \<and> m < n | _ \<Rightarrow> False))"

section \<open>Which policies bind\<close>

text \<open>A policy binds a request: active, in scope, and its name pattern accepts a name.\<close>

definition binds :: "policy_query \<Rightarrow> certificate_policy \<Rightarrow> bool" where
  "binds q p \<longleftrightarrow> p_is_active p \<and> scope_covers q p \<and> matches_rules p (q_cn q) (q_san_list q) = Inr True"

lemma matching_loop_filter:
  "matching_loop q ps = Inr ms \<Longrightarrow>
     ms = filter (\<lambda>p. scope_covers q p \<and> matches_rules p (q_cn q) (q_san_list q) = Inr True) ps
     \<and> (\<forall>p \<in> set ps. scope_covers q p \<longrightarrow> (\<exists>b. matches_rules p (q_cn q) (q_san_list q) = Inr b))"
proof (induction ps arbitrary: ms)
  case (Cons p ps)
  show ?case
  proof (cases "scope_covers q p")
    case False
    then show ?thesis using Cons by simp
  next
    case True
    then obtain ok where ok: "matches_rules p (q_cn q) (q_san_list q) = Inr ok"
      using Cons.prems by (auto dest: sum_bind_InrD)
    show ?thesis
    proof (cases ok)
      case False
      then show ?thesis using Cons True ok by auto
    next
      case True
      then obtain ms' where "matching_loop q ps = Inr ms'" "ms = p # ms'"
        using Cons.prems \<open>scope_covers q p\<close> ok by (auto dest: sum_bind_InrD)
      then show ?thesis using Cons.IH[of ms'] \<open>scope_covers q p\<close> ok True by auto
    qed
  qed
qed simp

lemma in_scope_binding:
  assumes "in_scope table q approval = Inr ms"
  shows "sorted (map p_priority ms)"
    "set ms = {p \<in> set table. binds q p \<and> (approval \<longrightarrow> p_requires_approval p)}"
proof -
  let ?ps = "sort_key p_priority (filter (\<lambda>p. p_is_active p \<and> (approval \<longrightarrow> p_requires_approval p)) table)"
  have ms: "ms = filter (\<lambda>p. scope_covers q p \<and> matches_rules p (q_cn q) (q_san_list q) = Inr True) ?ps"
    using matching_loop_filter[of q ?ps ms] assms by (simp add: in_scope_def)
  show "sorted (map p_priority ms)" unfolding ms by (intro sorted_filter) simp
  show "set ms = {p \<in> set table. binds q p \<and> (approval \<longrightarrow> p_requires_approval p)}"
    unfolding ms by (auto simp: binds_def)
qed

lemma name_matches_iff:
  "name_matches pat name \<longleftrightarrow>
     (if pat = ''*.'' then \<exists>t. name = ''*.'' @ t else \<exists>t. name = pat @ t \<or> name = t @ pat)"
  by (auto simp: name_matches_def starts_with_iff ends_with_iff)


lemma allowed_digests_spec:
  assumes "allowed_digests ps a = Inr r"
  shows "\<exists>names. (\<forall>p \<in> set ps. rule_digests (rules_or_empty p) = Inr (names p))
     \<and> (r = None \<longleftrightarrow> a = None \<and> (\<forall>p \<in> set ps. names p = []))
     \<and> (\<forall>ds. r = Some ds \<longrightarrow> set ds = {d. (\<forall>x. a = Some x \<longrightarrow> d \<in> set x) \<and> (a = None \<longrightarrow> d \<in> set POLICY_DIGESTS)
          \<and> (\<forall>p \<in> set ps. names p = [] \<or> d \<in> set (names p))})"
  using assms
proof (induction ps arbitrary: a)
  case Nil
  then show ?case by auto
next
  case (Cons p ps)
  obtain ns where ns: "rule_digests (rules_or_empty p) = Inr ns"
    using Cons.prems by (auto dest: sum_bind_InrD)
  have sub: "set ns \<subseteq> set POLICY_DIGESTS"
    using ns by (auto simp: rule_digests_def dest!: sum_bind_InrD split: json.splits)
  let ?a = "if ns \<noteq> [] then Some (case a of None \<Rightarrow> ns | Some x \<Rightarrow> filter (\<lambda>d. d \<in> set ns) x) else a"
  have "allowed_digests ps ?a = Inr r" using Cons.prems ns by simp
  then obtain names where n: "\<forall>p \<in> set ps. rule_digests (rules_or_empty p) = Inr (names p)"
    "r = None \<longleftrightarrow> ?a = None \<and> (\<forall>p \<in> set ps. names p = [])"
    "\<forall>ds. r = Some ds \<longrightarrow> set ds = {d. (\<forall>x. ?a = Some x \<longrightarrow> d \<in> set x) \<and> (?a = None \<longrightarrow> d \<in> set POLICY_DIGESTS)
          \<and> (\<forall>p \<in> set ps. names p = [] \<or> d \<in> set (names p))}"
    using Cons.IH by blast
  define names' where "names' = (\<lambda>x. case rule_digests (rules_or_empty x) of Inr y \<Rightarrow> y | Inl _ \<Rightarrow> [])"
  have n': "names' p = ns" "\<forall>x \<in> set ps. names' x = names x"
    using ns n(1) by (auto simp: names'_def)
  have "\<forall>x \<in> set (p # ps). rule_digests (rules_or_empty x) = Inr (names' x)"
    using ns n(1) n' by auto
  moreover have "r = None \<longleftrightarrow> a = None \<and> (\<forall>x \<in> set (p # ps). names' x = [])"
    using n(2) n' by auto
  moreover have "\<forall>ds. r = Some ds \<longrightarrow> set ds = {d. (\<forall>x. a = Some x \<longrightarrow> d \<in> set x) \<and> (a = None \<longrightarrow> d \<in> set POLICY_DIGESTS)
          \<and> (\<forall>x \<in> set (p # ps). names' x = [] \<or> d \<in> set (names' x))}"
    using n(3) n' sub by (cases a; cases "ns = []") auto
  ultimately show ?case by blast
qed

definition accepts_digest :: "certificate_policy \<Rightarrow> string \<Rightarrow> bool" where
  "accepts_digest p d \<longleftrightarrow>
     (case rule_digests (rules_or_empty p) of Inl _ \<Rightarrow> False | Inr names \<Rightarrow> names = [] \<or> d \<in> set names)"

section \<open>Properties\<close>

definition sample_policy :: "json \<Rightarrow> int \<Rightarrow> certificate_policy" where
  "sample_policy rules prio =
     \<lparr>p_id = prio, p_name = ''p'', p_policy_type = None, p_operations = No_Text, p_ca_id = None,
      p_template_id = None, p_rules = Json_Text rules, p_requires_approval = True,
      p_approval_group_id = None, p_min_approvers = Some 2, p_is_active = True, p_priority = prio\<rparr>"

abbreviation pattern_rules :: "string \<Rightarrow> json" where
  "pattern_rules pat \<equiv> JDict [(''san_restrictions'', JDict [(''dns_pattern'', JStr pat)])]"

definition sample_query :: "string \<Rightarrow> policy_query" where
  "sample_query name = \<lparr>q_operations = [''issuance''], q_ca_ids = [Some 1], q_template_id = None,
     q_cn = Some name, q_san_list = []\<rparr>"

lemmas sample_policy_defs = sample_policy_def sample_query_def scope_covers_def applies_to_def
  get_operations_def legacy_operations_def matches_rules_def get_rules_def request_names_def name_matches_def

text \<open>
  the approval gate is exact. When the evaluation raises no error, it answers a policy if and only
  if some active policy that requires approval binds the request (its operations, CA, template and
  name pattern cover it), and the policy it answers is one of those with the lowest priority number.\<close>

theorem approval_gate_exact:
  assumes "check_approval_required table q = Inr r"
  shows "(r = None \<longleftrightarrow> \<not> (\<exists>p \<in> set table. binds q p \<and> p_requires_approval p))
     \<and> (\<forall>p. r = Some p \<longrightarrow> p \<in> set table \<and> binds q p \<and> p_requires_approval p
          \<and> (\<forall>p' \<in> set table. binds q p' \<and> p_requires_approval p' \<longrightarrow> p_priority p \<le> p_priority p'))"
proof -
  obtain ms where ms: "in_scope table q True = Inr ms" "r = (case ms of [] \<Rightarrow> None | p # _ \<Rightarrow> Some p)"
    using assms by (auto simp: check_approval_required_def dest: sum_bind_InrD)
  note b = in_scope_binding[OF ms(1)]
  show ?thesis
  proof (cases ms)
    case Nil
    then show ?thesis using b(2) ms(2) by auto
  next
    case (Cons p rest)
    have "p_priority p \<le> p_priority p'" if "p' \<in> set ms" for p'
      using b(1) that Cons by auto
    moreover have "p \<in> set ms" using Cons by simp
    ultimately show ?thesis using b(2) ms(2) Cons by auto
  qed
qed

theorem approval_gate_exact_witness:
  "check_approval_required [sample_policy (pattern_rules ''.lan'') 5, sample_policy (JDict []) 3]
         (sample_query ''a.lan'') = Inr (Some (sample_policy (JDict []) 3))
     \<and> binds (sample_query ''a.lan'') (sample_policy (JDict []) 3)"
proof -
  let ?t = "[sample_policy (pattern_rules ''.lan'') 5, sample_policy (JDict []) 3]"
  have run: "check_approval_required ?t (sample_query ''a.lan'') = Inr (Some (sample_policy (JDict []) 3))"
    by (simp add: check_approval_required_def in_scope_def sample_policy_defs ucm_eval)
  then show ?thesis
    using approval_gate_exact[OF run] by blast
qed

text \<open>
  the digest chosen where nobody chose one. Without an error, the chosen digest is one of SHA-256,
  SHA-384 and SHA-512; if any of these is accepted by every policy, so is the chosen one; and the
  default is kept when every policy accepts it.\<close>

theorem choose_digest_accepted:
  assumes "choose_digest policies dflt = Inr d"
  shows "d \<in> set POLICY_DIGESTS
     \<and> ((\<exists>x \<in> set POLICY_DIGESTS. \<forall>p \<in> set policies. accepts_digest p x) \<longrightarrow>
          (\<forall>p \<in> set policies. accepts_digest p d))
     \<and> (\<forall>x. normalize_digest dflt = Some x \<and> (\<forall>p \<in> set policies. accepts_digest p x) \<longrightarrow> d = x)"
proof -
  let ?d = "case normalize_digest dflt of None \<Rightarrow> ''sha256'' | Some d \<Rightarrow> d"
  obtain r where r: "allowed_digests policies None = Inr r"
    and d: "d = (case r of None \<Rightarrow> ?d | Some a \<Rightarrow> if a = [] \<or> ?d \<in> set a then ?d else hd a)"
    using assms by (auto simp: choose_digest_def Let_def dest: sum_bind_InrD)
  have dflt: "?d \<in> set POLICY_DIGESTS"
    by (auto simp: normalize_digest_def POLICY_DIGESTS_def Let_def)
  obtain names where n: "\<forall>p \<in> set policies. rule_digests (rules_or_empty p) = Inr (names p)"
    "r = None \<longleftrightarrow> (\<forall>p \<in> set policies. names p = [])"
    "\<forall>ds. r = Some ds \<longrightarrow> set ds = {d. d \<in> set POLICY_DIGESTS \<and> (\<forall>p \<in> set policies. names p = [] \<or> d \<in> set (names p))}"
    using allowed_digests_spec[OF r] by auto
  have acc: "(\<forall>p \<in> set policies. accepts_digest p x) \<longleftrightarrow> (\<forall>p \<in> set policies. names p = [] \<or> x \<in> set (names p))" for x
    using n(1) by (auto simp: accepts_digest_def)
  show ?thesis
  proof (cases r)
    case None
    then show ?thesis using n(2) d dflt acc by auto
  next
    case (Some a)
    have "hd a \<in> set a" if "a \<noteq> []" using that by simp
    then show ?thesis
      unfolding acc using n(3) Some d dflt by (auto split: if_splits)
  qed
qed

theorem choose_digest_accepted_witness:
  "\<exists>d. choose_digest [sample_policy (JDict [(''allowed_digests'', JList [JStr ''SHA-384'', JStr ''sha512''])]) 1] ''sha256'' = Inr d
     \<and> d \<in> set POLICY_DIGESTS"
proof -
  have "choose_digest [sample_policy (JDict [(''allowed_digests'', JList [JStr ''SHA-384'', JStr ''sha512''])]) 1] ''sha256''
      = Inr ''sha384''"
    by (simp add: choose_digest_def rule_digests_def rules_or_empty_def sample_policy_def get_rules_def
        normalize_digest_def POLICY_DIGESTS_def ucm_eval)
  from choose_digest_accepted[OF this] this show ?thesis by blast
qed

text \<open>
  the validity cap. When the rules are read without error, the validity left is the smallest of the
  one asked and every positive limit of the policies, and when it was shortened the policy named is
  one that sets that limit.\<close>

theorem cap_validity_min:
  assumes "cap_validity rules_of (Some asked) capped = Inr (Some e, by)"
  shows "e \<le> asked
     \<and> (\<forall>(name, rules) \<in> set rules_of. \<forall>m. json_get rules ''max_validity_days'' JNull = Inr (JInt m) \<and> 0 < m \<longrightarrow> e \<le> m)
     \<and> (e = asked \<and> by = capped
        \<or> (\<exists>(name, rules) \<in> set rules_of. json_get rules ''max_validity_days'' JNull = Inr (JInt e)
             \<and> by = Some name \<and> e < asked))"
  using assms
proof (induction rules_of arbitrary: asked capped)
  case (Cons nr rest)
  obtain name rules where nr: "nr = (name, rules)" by (cases nr)
  obtain v where v: "json_get rules ''max_validity_days'' JNull = Inr v"
    using Cons.prems by (auto simp: nr dest: sum_bind_InrD)
  show ?case
  proof (cases "\<exists>m. v = JInt m \<and> 0 < m \<and> m < asked")
    case True
    then obtain m where m: "v = JInt m" "0 < m" "m < asked" by blast
    then show ?thesis using Cons.IH[of m "Some name"] Cons.prems v by (auto simp: nr)
  next
    case False
    then have "cap_validity rest (Some asked) capped = Inr (Some e, by)"
      using Cons.prems v by (cases v) (auto simp: nr)
    then show ?thesis using Cons.IH[of asked capped] False v by (auto simp: nr)
  qed
qed simp

theorem cap_validity_min_witness:
  "(90 :: int) \<le> 397 \<and> cap_validity [(''p'', JDict [(''max_validity_days'', JInt 90)]), (''q'', JDict [])] (Some 397) None
     = Inr (Some 90, Some ''p'')"
proof -
  have run: "cap_validity [(''p'', JDict [(''max_validity_days'', JInt 90)]), (''q'', JDict [])] (Some 397) None
      = Inr (Some 90, Some ''p'')"
    by simp
  show ?thesis using cap_validity_min[OF run] run by blast
qed

text \<open>
  a name pattern is compared as text. A policy whose pattern contains a star, such as the
  \<open>*.company.com\<close> of the model's example and of the form's placeholder, binds no request whose names
  contain no star: the hosts of that domain escape it.\<close>

theorem star_pattern_binds_no_host:
  assumes "get_rules p = JDict rules" "map_of rules ''san_restrictions'' = Some (JDict san)"
    and "map_of san ''dns_pattern'' = Some (JStr pat)" "CHR ''*'' \<in> set pat"
    and "\<forall>name \<in> set (request_names (q_cn q) (q_san_list q)). CHR ''*'' \<notin> set name"
  shows "\<not> binds q p"
proof -
  have "\<not> name_matches pat name" if "CHR ''*'' \<notin> set name" for name
    using that assms(4) by (auto simp: name_matches_iff split: if_splits)
  then have "\<not> list_ex (name_matches pat) (request_names (q_cn q) (q_san_list q))"
    using assms(5) by (auto simp: list_ex_iff)
  then show ?thesis
    using assms by (auto simp: binds_def matches_rules_def)
qed

theorem star_pattern_binds_no_host_witness:
  "\<not> binds (sample_query ''www.company.com'') (sample_policy (pattern_rules ''*.company.com'') 1)"
  by (rule star_pattern_binds_no_host) (auto simp: sample_policy_defs)

end
