(* ===== verification/Approvals.thy ===== *)
theory Approvals
  imports Policies
begin

text \<open>
  Approval requests: \<open>ApprovalRequest\<close> of \<^verbatim>\<open>models/policy.py\<close>, the gate of
  \<^verbatim>\<open>services/approval_gate.py\<close>, \<open>create_approval_request\<close> of \<^verbatim>\<open>services/policy_service.py\<close> and the
  routes of \<^verbatim>\<open>api/v2/policies.py\<close> that read, approve and reject a request.

  A route runs in one transaction on the row it locks; \<open>commit\<close> tells whether the commit
  succeeds, and a failed commit leaves the database as it was. What performing an approved
  request does outside these tables (signing, renewing, revoking) is an input of the route, the
  \<open>outcome\<close>; rows an approver holds locked at that moment are the input \<open>locked\<close>. After a failed
  issuance the row is read again as the rollback left it. Audit entries, webhooks and the text of
  the messages are left out.
\<close>

section \<open>Requests\<close>

datatype vote_action = Approve | Reject

record vote =
  vt_user_id :: "int option"
  vt_username :: string
  vt_action :: vote_action
  vt_comment :: "string option"
  vt_timestamp :: datetime

datatype ar_status = Pending | Approved | Rejected | Expired | Cancelled

record approval_request =
  ar_id :: int
  ar_request_type :: string
  ar_certificate_id :: "int option"
  ar_request_data :: json_text
  ar_policy_id :: "int option"
  ar_requester_id :: "int option"
  ar_requester_comment :: "string option"
  ar_status :: ar_status
  ar_approvals :: "vote list"
  ar_required_approvals :: int
  ar_created_at :: "datetime option"
  ar_expires_at :: "datetime option"
  ar_resolved_at :: "datetime option"

record approver =
  au_id :: int
  au_role :: string
  au_username :: string

type_synonym cancellation = "int \<times> string \<times> string \<times> string"

record approval_db =
  ap_requests :: "approval_request list"
  ap_policies :: "certificate_policy list"
  ap_members :: "(int \<times> int) list option"
  ap_usernames :: "(int \<times> string) list"
  ap_uncommitted :: "cancellation list"
  ap_cancelled :: "cancellation list"

definition count_votes :: "vote_action \<Rightarrow> vote list \<Rightarrow> int" where
  "count_votes a votes = int (length (filter (\<lambda>v. vt_action v = a) votes))"

definition add_approval ::
  "datetime \<Rightarrow> int option \<Rightarrow> string \<Rightarrow> vote_action \<Rightarrow> string option \<Rightarrow> approval_request \<Rightarrow> approval_request" where
  "add_approval now user_id username action comment r =
     (let approvals = ar_approvals r @
            [\<lparr>vt_user_id = user_id, vt_username = username, vt_action = action, vt_comment = comment,
              vt_timestamp = now\<rparr>];
          r = r\<lparr>ar_approvals := approvals\<rparr>
      in if count_votes Approve approvals \<ge> ar_required_approvals r
         then r\<lparr>ar_status := Approved, ar_resolved_at := Some now\<rparr>
         else if count_votes Reject approvals > 0
         then r\<lparr>ar_status := Rejected, ar_resolved_at := Some now\<rparr>
         else r)"

definition APPROVAL_REQUEST_LIFETIME :: int where
  "APPROVAL_REQUEST_LIFETIME = days 7"

definition request_deadline :: "approval_request \<Rightarrow> datetime option" where
  "request_deadline r =
     (case ar_expires_at r of
        Some t \<Rightarrow> Some t
      | None \<Rightarrow> map_option (\<lambda>t. t + APPROVAL_REQUEST_LIFETIME) (ar_created_at r))"

definition approval_is_expired :: "datetime \<Rightarrow> approval_request \<Rightarrow> bool" where
  "approval_is_expired now r \<longleftrightarrow> (case request_deadline r of None \<Rightarrow> False | Some d \<Rightarrow> d < now)"

definition expire_row :: "datetime \<Rightarrow> approval_request \<Rightarrow> approval_request" where
  "expire_row now r = r\<lparr>ar_status := Expired, ar_resolved_at := Some now\<rparr>"

definition modify_request :: "int \<Rightarrow> (approval_request \<Rightarrow> approval_request) \<Rightarrow> approval_db \<Rightarrow> approval_db" where
  "modify_request i f db = db\<lparr>ap_requests := update_rows (\<lambda>r. ar_id r = i) f (ap_requests db)\<rparr>"

definition get_request :: "approval_db \<Rightarrow> int \<Rightarrow> approval_request option" where
  "get_request db i = first_row (\<lambda>r. ar_id r = i) (ap_requests db)"

section \<open>Queueing\<close>

datatype gate_error = Evaluation py_error | Pair_Conflict | Commit_Failed

definition pair_policy ::
  "certificate_policy option \<Rightarrow> certificate_policy option \<Rightarrow> gate_error + certificate_policy option" where
  "pair_policy policy other =
     (case other of
        None \<Rightarrow> Inr policy
      | Some b \<Rightarrow> (case policy of
                     None \<Rightarrow> Inr (Some b)
                   | Some a \<Rightarrow> if p_id a = p_id b then Inr policy else Inl Pair_Conflict))"

text \<open>\<open>new_id\<close> is the id the database gives the row.\<close>

definition create_approval_request ::
  "bool \<Rightarrow> datetime \<Rightarrow> int \<Rightarrow> certificate_policy \<Rightarrow> json \<Rightarrow> int option \<Rightarrow> string option \<Rightarrow> string
     \<Rightarrow> approval_db \<Rightarrow> gate_error + approval_request \<times> approval_db" where
  "create_approval_request commit now new_id policy request_data requester_id comment request_type db =
     (let required = (case p_min_approvers policy of None \<Rightarrow> 1 | Some n \<Rightarrow> if n = 0 then 1 else n);
          r = \<lparr>ar_id = new_id, ar_request_type = request_type, ar_certificate_id = None,
               ar_request_data = Json_Text request_data, ar_policy_id = Some (p_id policy),
               ar_requester_id = requester_id, ar_requester_comment = comment, ar_status = Pending,
               ar_approvals = [], ar_required_approvals = required, ar_created_at = Some now,
               ar_expires_at = Some (now + APPROVAL_REQUEST_LIFETIME), ar_resolved_at = None\<rparr>
      in if commit then Inr (r, db\<lparr>ap_requests := ap_requests db @ [r]\<rparr>) else Inl Commit_Failed)"

text \<open>\<open>user = None\<close> is the renewal scheduler. \<open>partner\<close>: the policy of the other member of a pair.\<close>

definition queue_if_approval_required ::
  "bool \<Rightarrow> datetime \<Rightarrow> int \<Rightarrow> approver option \<Rightarrow> policy_query \<Rightarrow> string \<Rightarrow> json \<Rightarrow> string option
     \<Rightarrow> (py_error + certificate_policy option) option \<Rightarrow> approval_db
     \<Rightarrow> gate_error + (certificate_policy \<times> approval_request) option \<times> approval_db" where
  "queue_if_approval_required commit now new_id user q request_type request_data comment partner db =
     (if (case user of None \<Rightarrow> False | Some u \<Rightarrow> au_role u = ''admin'') then Inr (None, db)
      else case check_approval_required (ap_policies db) q of
             Inl e \<Rightarrow> Inl (Evaluation e)
           | Inr policy \<Rightarrow>
               sum_bind (case partner of
                           None \<Rightarrow> Inr policy
                         | Some (Inl e) \<Rightarrow> Inl (Evaluation e)
                         | Some (Inr other) \<Rightarrow> pair_policy policy other) (\<lambda>policy.
                 case policy of
                   None \<Rightarrow> Inr (None, db)
                 | Some p \<Rightarrow>
                     sum_bind (create_approval_request commit now new_id p request_data
                                 (map_option au_id user) comment request_type db) (\<lambda>(r, db).
                       Inr (Some (p, r), db))))"

section \<open>Expiry\<close>

definition stale :: "datetime \<Rightarrow> int list \<Rightarrow> approval_request \<Rightarrow> bool" where
  "stale now locked r \<longleftrightarrow>
     ar_status r = Pending
     \<and> (case ar_expires_at r of
          Some t \<Rightarrow> t < now
        | None \<Rightarrow> (case ar_created_at r of None \<Rightarrow> False | Some t \<Rightarrow> t < now - APPROVAL_REQUEST_LIFETIME))
     \<and> ar_id r \<notin> set locked"

definition expire_stale_requests :: "bool \<Rightarrow> datetime \<Rightarrow> int list \<Rightarrow> approval_db \<Rightarrow> nat \<times> approval_db" where
  "expire_stale_requests commit now locked db =
     (if commit
      then (count_rows (stale now locked) (ap_requests db),
            db\<lparr>ap_requests := update_rows (stale now locked) (expire_row now) (ap_requests db)\<rparr>)
      else (0, db))"

text \<open>Reading one request closes it when its deadline has passed.\<close>

definition get_approval :: "bool \<Rightarrow> datetime \<Rightarrow> int \<Rightarrow> approval_db \<Rightarrow> int \<times> approval_db" where
  "get_approval commit now i db =
     (case get_request db i of
        None \<Rightarrow> (404, db)
      | Some r \<Rightarrow>
          if ar_status r = Pending \<and> approval_is_expired now r \<and> commit
          then (200, modify_request i (expire_row now) db) else (200, db))"

section \<open>Requests a direct action makes moot\<close>

text \<open>\<open>str\<close> of a stored id; a list, dict or float prints as no id does.\<close>

fun json_str :: "json \<Rightarrow> string option" where
  "json_str JNull = Some ''None''"
| "json_str (JBool b) = Some (if b then ''True'' else ''False'')"
| "json_str (JInt n) = Some (show_int n)"
| "json_str (JStr s) = Some s"
| "json_str _ = None"

definition named_target :: "string \<Rightarrow> approval_request \<Rightarrow> string option" where
  "named_target key r =
     (case ar_request_data r of
        Json_Text (JDict kvs) \<Rightarrow> (case map_of kvs key of None \<Rightarrow> None | Some v \<Rightarrow> json_str v)
      | _ \<Rightarrow> None)"

definition names_target :: "string \<Rightarrow> string \<Rightarrow> int \<Rightarrow> int list \<Rightarrow> approval_request \<Rightarrow> bool" where
  "names_target request_type key target locked r \<longleftrightarrow>
     ar_status r = Pending \<and> ar_request_type r = request_type \<and> ar_id r \<notin> set locked
     \<and> named_target key r = Some (show_int target)"

definition pending_requests_naming ::
  "string \<Rightarrow> string \<Rightarrow> int \<Rightarrow> int list \<Rightarrow> approval_db \<Rightarrow> approval_request list" where
  "pending_requests_naming request_type key target locked db =
     filter (names_target request_type key target locked) (ap_requests db)"

text \<open>
  The targets of the pending requests still awaiting a decision, with their deadlines. Later rows
  overwrite earlier ones.
\<close>

definition pending_target_ids :: "datetime \<Rightarrow> string \<Rightarrow> string \<Rightarrow> approval_db \<Rightarrow> (string \<times> datetime option) list" where
  "pending_target_ids now request_type key db =
     rev (map (\<lambda>r. (the (named_target key r), request_deadline r))
       (filter (\<lambda>r. ar_status r = Pending \<and> ar_request_type r = request_type
                  \<and> \<not> approval_is_expired now r \<and> named_target key r \<noteq> None) (ap_requests db)))"

definition acted_by_requester :: "approval_db \<Rightarrow> int option \<Rightarrow> string \<Rightarrow> approval_request \<Rightarrow> bool" where
  "acted_by_requester db user_id username r =
     (case user_id of
        Some u \<Rightarrow> ar_requester_id r = Some u
      | None \<Rightarrow> username \<noteq> [] \<and> (case ar_requester_id r of
                                   None \<Rightarrow> False
                                 | Some i \<Rightarrow> map_of (ap_usernames db) i = Some username))"

datatype moot_outcome = Moot_Approved | Moot_Rejected

record moot_call =
  mt_now :: datetime
  mt_outcome :: moot_outcome
  mt_username :: string
  mt_user_id :: "int option"
  mt_certificate_id :: "int option"
  mt_reason :: string
  mt_type :: string
  mt_key :: string
  mt_target :: int
  mt_locked :: "int list"

definition resolve_row :: "approval_db \<Rightarrow> moot_call \<Rightarrow> approval_request \<Rightarrow> approval_request" where
  "resolve_row db c r =
     (if approval_is_expired (mt_now c) r then expire_row (mt_now c) r
      else if mt_outcome c = Moot_Approved \<and> acted_by_requester db (mt_user_id c) (mt_username c) r
      then r\<lparr>ar_status := Cancelled, ar_resolved_at := Some (mt_now c)\<rparr>
      else let approved = (mt_outcome c = Moot_Approved);
               r = add_approval (mt_now c) (mt_user_id c) (mt_username c)
                     (if approved then Approve else Reject) (Some (mt_reason c)) r;
               r = r\<lparr>ar_status := (if approved then Approved else Rejected),
                     ar_resolved_at := Some (mt_now c)\<rparr>
           in if approved \<and> mt_certificate_id c \<noteq> None
              then r\<lparr>ar_certificate_id := mt_certificate_id c\<rparr> else r)"

definition moot_target :: "moot_call \<Rightarrow> approval_request \<Rightarrow> bool" where
  "moot_target c = names_target (mt_type c) (mt_key c) (mt_target c) (mt_locked c)"

definition moot_cancellations :: "approval_db \<Rightarrow> moot_call \<Rightarrow> cancellation list" where
  "moot_cancellations db c =
     map (\<lambda>r. (ar_id r, ar_request_type r, mt_username c, mt_reason c))
       (filter (\<lambda>r. moot_target c r \<and> \<not> approval_is_expired (mt_now c) r \<and> mt_outcome c = Moot_Approved
                  \<and> acted_by_requester db (mt_user_id c) (mt_username c) r) (ap_requests db))"

text \<open>
  The resolution inside the caller's transaction, the ids of the requests approved or rejected, and
  the session events around the commit.
\<close>

definition resolve_in_session :: "moot_call \<Rightarrow> approval_db \<Rightarrow> int list \<times> approval_db" where
  "resolve_in_session c db =
     (map ar_id (filter (\<lambda>r. moot_target c r \<and> \<not> approval_is_expired (mt_now c) r
         \<and> \<not> (mt_outcome c = Moot_Approved \<and> acted_by_requester db (mt_user_id c) (mt_username c) r))
         (ap_requests db)),
      db\<lparr>ap_requests := update_rows (moot_target c) (resolve_row db c) (ap_requests db),
         ap_uncommitted := ap_uncommitted db @ moot_cancellations db c\<rparr>)"

definition cancellations_committed :: "approval_db \<Rightarrow> approval_db" where
  "cancellations_committed db =
     db\<lparr>ap_uncommitted := [], ap_cancelled := ap_cancelled db @ ap_uncommitted db\<rparr>"

definition record_cancellations :: "approval_db \<Rightarrow> cancellation list \<times> approval_db" where
  "record_cancellations db = (ap_cancelled db, db\<lparr>ap_cancelled := []\<rparr>)"

definition resolve_moot_requests :: "bool \<Rightarrow> moot_call \<Rightarrow> approval_db \<Rightarrow> int list \<times> approval_db" where
  "resolve_moot_requests commit c db =
     (let (resolved, db') = resolve_in_session c db
      in if \<not> list_ex (moot_target c) (ap_requests db) then (resolved, db')
         else if commit then (resolved, snd (record_cancellations (cancellations_committed db')))
         else (resolved, db\<lparr>ap_uncommitted := []\<rparr>))"

section \<open>Targets that are gone\<close>

record stored_certificate =
  sc_id :: int
  sc_has_csr :: bool
  sc_has_crt :: bool
  sc_serial :: "string option"

record stored_ca =
  ca_row_id :: int
  ca_refid :: string
  ca_held_serial :: "string option"

record cross_certificate =
  xc_id :: int
  xc_serial :: "string option"

record inventory =
  inv_certificates :: "stored_certificate list"
  inv_cas :: "stored_ca list"
  inv_cross :: "cross_certificate list"

text \<open>\<open>_row\<close>: the id a stored value names, when its text is a decimal number.\<close>

definition row_ref :: "json \<Rightarrow> int option" where
  "row_ref ref =
     (case ref of
        JInt n \<Rightarrow> if 0 \<le> n then Some n else None
      | JStr s \<Rightarrow> if s \<noteq> [] \<and> list_all is_digit s then py_int 10 s else None
      | _ \<Rightarrow> None)"

definition ca_for_request :: "inventory \<Rightarrow> json \<Rightarrow> stored_ca option" where
  "ca_for_request invt ref =
     (case ref of
        JInt n \<Rightarrow> first_row (\<lambda>c. ca_row_id c = n) (inv_cas invt)
      | JBool b \<Rightarrow> first_row (\<lambda>c. ca_row_id c = (if b then 1 else 0)) (inv_cas invt)
      | JStr s \<Rightarrow> (case row_ref ref of
                    Some n \<Rightarrow> first_row (\<lambda>c. ca_row_id c = n) (inv_cas invt)
                  | None \<Rightarrow> first_row (\<lambda>c. ca_refid c = s) (inv_cas invt))
      | _ \<Rightarrow> None)"

datatype gone_reason =
  Request_Gone | Signing_CA_Gone | Cross_Gone | Cross_Changed | CA_Gone | CA_Changed
  | Certificate_Gone | Certificate_Renewed

definition stored_data :: "approval_request \<Rightarrow> json" where
  "stored_data r =
     (case ar_request_data r of Json_Text j \<Rightarrow> if json_truthy j then j else JDict [] | _ \<Rightarrow> JDict [])"

definition json_serial :: "string option \<Rightarrow> json" where
  "json_serial s = (case s of None \<Rightarrow> JNull | Some x \<Rightarrow> JStr x)"

definition find_by :: "('a \<Rightarrow> int) \<Rightarrow> 'a list \<Rightarrow> json \<Rightarrow> 'a option" where
  "find_by i rows ref = (case row_ref ref of None \<Rightarrow> None | Some n \<Rightarrow> first_row (\<lambda>x. i x = n) rows)"

definition approval_target_gone :: "inventory \<Rightarrow> approval_request \<Rightarrow> py_error + gone_reason option" where
  "approval_target_gone invt r =
     (if ar_request_type r \<notin> {''csr'', ''renewal'', ''revocation'', ''ca_revocation'', ''cross_revocation''}
      then Inr None
      else if ar_request_type r = ''csr''
      then sum_bind (json_get (stored_data r) ''csr_id'' JNull) (\<lambda>csr_id.
             case find_by sc_id (inv_certificates invt) csr_id of
               None \<Rightarrow> Inr (Some Request_Gone)
             | Some cert \<Rightarrow>
                 if \<not> sc_has_csr cert then Inr (Some Request_Gone)
                 else sum_bind (json_get (stored_data r) ''ca_id'' JNull) (\<lambda>ca_ref.
                        Inr (if ca_for_request invt ca_ref = None then Some Signing_CA_Gone else None)))
      else if ar_request_type r = ''cross_revocation''
      then sum_bind (json_get (stored_data r) ''cross_certificate_id'' JNull) (\<lambda>ref.
             case find_by xc_id (inv_cross invt) ref of
               None \<Rightarrow> Inr (Some Cross_Gone)
             | Some row \<Rightarrow>
                 sum_bind (json_get (stored_data r) ''serial_number'' JNull) (\<lambda>serial.
                   Inr (if json_serial (xc_serial row) \<noteq> serial then Some Cross_Changed else None)))
      else if ar_request_type r = ''ca_revocation''
      then sum_bind (json_get (stored_data r) ''target_ca_id'' JNull) (\<lambda>ref.
             case find_by ca_row_id (inv_cas invt) ref of
               None \<Rightarrow> Inr (Some CA_Gone)
             | Some ca \<Rightarrow>
                 sum_bind (json_get (stored_data r) ''serial_number'' JNull) (\<lambda>serial.
                   Inr (if json_serial (ca_held_serial ca) \<noteq> serial then Some CA_Changed else None)))
      else sum_bind (json_get (stored_data r) ''certificate_id'' JNull) (\<lambda>ref.
             case find_by sc_id (inv_certificates invt) ref of
               None \<Rightarrow> Inr (Some Certificate_Gone)
             | Some cert \<Rightarrow>
                 if \<not> sc_has_crt cert then Inr (Some Certificate_Gone)
                 else if ar_request_type r = ''revocation''
                 then sum_bind (json_get (stored_data r) ''serial_number'' JNull) (\<lambda>serial.
                        Inr (if json_serial (sc_serial cert) \<noteq> serial then Some Certificate_Renewed else None))
                 else Inr None))"

section \<open>The decision routes\<close>

text \<open>\<open>None\<close>: the user may act; otherwise the refusal.\<close>

datatype act_refusal = Authentication_Required | Check_Failed | Not_A_Member

definition user_can_act_on_approval ::
  "approval_db \<Rightarrow> approver option \<Rightarrow> approval_request \<Rightarrow> act_refusal option" where
  "user_can_act_on_approval db user r =
     (case user of
        None \<Rightarrow> Some Authentication_Required
      | Some u \<Rightarrow>
          if au_role u = ''admin'' then None
          else (case ar_policy_id r of
                  None \<Rightarrow> None
                | Some pid \<Rightarrow>
                    (case first_row (\<lambda>p. p_id p = pid) (ap_policies db) of
                       None \<Rightarrow> None
                     | Some policy \<Rightarrow>
                         (case p_approval_group_id policy of
                            None \<Rightarrow> None
                          | Some g \<Rightarrow>
                              if g = 0 then None
                              else (case ap_members db of
                                      None \<Rightarrow> Some Check_Failed
                                    | Some members \<Rightarrow>
                                        if (g, au_id u) \<in> set members then None else Some Not_A_Member)))))"

text \<open>
  What performing an approved request did: the certificate it links, if any, and the key and target
  under which the other pending requests for the same thing are approved along; or an error, which
  may say that the target no longer exists.
\<close>

datatype issue_outcome = Performed "int option" "(string \<times> int) option" | Refused bool

record vote_call =
  vc_now :: datetime
  vc_commit :: bool
  vc_user :: "approver option"
  vc_request :: int
  vc_comment :: "string option"
  vc_inventory :: inventory
  vc_outcome :: issue_outcome
  vc_locked :: "int list"

definition caller_id :: "vote_call \<Rightarrow> int option" where
  "caller_id c = map_option au_id (vc_user c)"

definition caller_name :: "vote_call \<Rightarrow> string" where
  "caller_name c = (case vc_user c of None \<Rightarrow> ''system''
                    | Some u \<Rightarrow> if au_username u = [] then ''system'' else au_username u)"

definition close_row :: "vote_call \<Rightarrow> approval_request \<Rightarrow> approval_request" where
  "close_row c r =
     (add_approval (vc_now c) (caller_id c) (caller_name c) Reject (Some ''gone'') r)
       \<lparr>ar_status := Rejected, ar_resolved_at := Some (vc_now c)\<rparr>"

definition close_request_target_gone :: "vote_call \<Rightarrow> approval_db \<Rightarrow> int \<times> approval_db" where
  "close_request_target_gone c db =
     (if vc_commit c then (200, modify_request (vc_request c) (close_row c) db) else (500, db))"

definition already_voted :: "int option \<Rightarrow> approval_request \<Rightarrow> bool" where
  "already_voted user_id r \<longleftrightarrow> user_id \<noteq> None \<and> list_ex (\<lambda>v. vt_user_id v = user_id) (ar_approvals r)"

text \<open>\<open>_link_approval\<close> and \<open>_link_duplicates\<close>: only a row with no certificate yet takes one.\<close>

definition link_certificate :: "int list \<Rightarrow> int \<Rightarrow> approval_db \<Rightarrow> approval_db" where
  "link_certificate ids cert db =
     db\<lparr>ap_requests := update_rows (\<lambda>r. ar_id r \<in> set ids \<and> ar_certificate_id r = None)
          (\<lambda>r. r\<lparr>ar_certificate_id := Some cert\<rparr>) (ap_requests db)\<rparr>"

definition duplicate_call :: "vote_call \<Rightarrow> approval_request \<Rightarrow> string \<Rightarrow> int \<Rightarrow> moot_call" where
  "duplicate_call c r key target =
     \<lparr>mt_now = vc_now c, mt_outcome = Moot_Approved, mt_username = caller_name c, mt_user_id = caller_id c,
      mt_certificate_id = None, mt_reason = ''Approved with request #'' @ show_int (ar_id r),
      mt_type = ar_request_type r, mt_key = key, mt_target = target, mt_locked = vc_locked c\<rparr>"

definition perform :: "vote_call \<Rightarrow> approval_request \<Rightarrow> int option \<Rightarrow> (string \<times> int) option \<Rightarrow> approval_db \<Rightarrow> approval_db" where
  "perform c r cert close_key db =
     (let (dups, db) = (case close_key of
                          None \<Rightarrow> ([], db)
                        | Some (key, target) \<Rightarrow> resolve_in_session (duplicate_call c r key target) db);
          db = (case cert of None \<Rightarrow> db | Some i \<Rightarrow> link_certificate [ar_id r] i (link_certificate dups i db))
      in cancellations_committed db)"

definition cast_approve :: "vote_call \<Rightarrow> approval_request \<Rightarrow> approval_request" where
  "cast_approve c = add_approval (vc_now c) (caller_id c) (caller_name c) Approve (vc_comment c)"

definition approve_request :: "vote_call \<Rightarrow> approval_db \<Rightarrow> int \<times> approval_db" where
  "approve_request c db =
     (case get_request db (vc_request c) of
        None \<Rightarrow> (404, db)
      | Some r \<Rightarrow>
          if ar_status r \<noteq> Pending then (400, db)
          else if approval_is_expired (vc_now c) r
          then (410, if vc_commit c then modify_request (vc_request c) (expire_row (vc_now c)) db else db)
          else if user_can_act_on_approval db (vc_user c) r \<noteq> None then (403, db)
          else if caller_id c \<noteq> None \<and> caller_id c \<noteq> Some 0 \<and> ar_requester_id r = caller_id c then (403, db)
          else if already_voted (caller_id c) r then (409, db)
          else (case approval_target_gone (vc_inventory c) r of
                  Inl e \<Rightarrow> (500, db)
                | Inr (Some reason) \<Rightarrow> close_request_target_gone c db
                | Inr None \<Rightarrow>
                    let r' = cast_approve c r;
                        voted = modify_request (vc_request c) (cast_approve c) db
                    in if ar_status r' = Approved \<and> ar_request_data r' \<noteq> No_Text \<and> ar_certificate_id r' = None
                       then (case vc_outcome c of
                               Performed cert close_key \<Rightarrow>
                                 if vc_commit c then (200, perform c r' cert close_key voted)
                                 else (if cert = None then 500 else 200, db)
                             | Refused vanished \<Rightarrow>
                                 if vanished then close_request_target_gone c db else (200, db))
                       else if vc_commit c then (200, voted) else (500, db)))"

definition cast_reject :: "vote_call \<Rightarrow> approval_request \<Rightarrow> approval_request" where
  "cast_reject c = add_approval (vc_now c) (caller_id c) (caller_name c) Reject (vc_comment c)"

definition reject_request :: "vote_call \<Rightarrow> approval_db \<Rightarrow> int \<times> approval_db" where
  "reject_request c db =
     (if vc_comment c = None \<or> vc_comment c = Some [] then (400, db)
      else case get_request db (vc_request c) of
             None \<Rightarrow> (404, db)
           | Some r \<Rightarrow>
               if ar_status r \<noteq> Pending then (400, db)
               else if approval_is_expired (vc_now c) r
               then (410, if vc_commit c then modify_request (vc_request c) (expire_row (vc_now c)) db else db)
               else if user_can_act_on_approval db (vc_user c) r \<noteq> None then (403, db)
               else if already_voted (caller_id c) r then (409, db)
               else if vc_commit c then (200, modify_request (vc_request c) (cast_reject c) db) else (500, db))"

section \<open>The life of a request\<close>

text \<open>Every operation that changes the table of requests, as one step.\<close>

inductive approval_step :: "approval_db \<Rightarrow> approval_db \<Rightarrow> bool" where
  queued: "queue_if_approval_required commit now new_id user q rtype data comment partner db = Inr (res, db')
     \<Longrightarrow> new_id \<notin> ar_id ` set (ap_requests db) \<Longrightarrow> approval_step db db'"
| approve: "approve_request c db = (code, db') \<Longrightarrow> approval_step db db'"
| reject: "reject_request c db = (code, db') \<Longrightarrow> approval_step db db'"
| read: "get_approval commit now i db = (code, db') \<Longrightarrow> approval_step db db'"
| expire: "expire_stale_requests commit now locked db = (n, db') \<Longrightarrow> approval_step db db'"
| moot: "resolve_moot_requests commit m db = (ids, db') \<Longrightarrow> approval_step db db'"

inductive_cases approval_stepE: "approval_step db db'"

text \<open>
  What every pending request satisfies: its votes are approvals, cast by different known users, none
  of them the requester (a requester id of 0 is read as no user by the route).
\<close>

definition four_eyes :: "approval_request \<Rightarrow> bool" where
  "four_eyes r \<longleftrightarrow> ar_status r = Pending \<longrightarrow>
     distinct (map vt_user_id (ar_approvals r)) \<and>
     (\<forall>v \<in> set (ar_approvals r). vt_action v = Approve \<and> vt_user_id v \<noteq> None
        \<and> (vt_user_id v = ar_requester_id r \<longrightarrow> ar_requester_id r = Some 0))"

text \<open>What is decided about a request, once it is closed.\<close>

definition decision ::
  "approval_request \<Rightarrow> int \<times> int option \<times> int \<times> ar_status \<times> vote list \<times> datetime option" where
  "decision r = (ar_id r, ar_requester_id r, ar_required_approvals r, ar_status r, ar_approvals r, ar_resolved_at r)"

definition db_ok :: "approval_db \<Rightarrow> bool" where
  "db_ok db \<longleftrightarrow> distinct (map ar_id (ap_requests db)) \<and> (\<forall>r \<in> set (ap_requests db). four_eyes r)"

definition keeps :: "approval_db \<Rightarrow> approval_db \<Rightarrow> bool" where
  "keeps db db' \<longleftrightarrow> db_ok db' \<and>
     (\<forall>r \<in> set (ap_requests db). ar_status r \<noteq> Pending \<longrightarrow>
        (\<exists>r' \<in> set (ap_requests db'). decision r' = decision r))"

lemma keeps_refl: "db_ok db \<Longrightarrow> keeps db db"
  by (auto simp: keeps_def)

lemma keeps_trans: "keeps a b \<Longrightarrow> keeps b c \<Longrightarrow> keeps a c"
  unfolding keeps_def decision_def by (metis prod.inject)

lemma keeps_ok: "keeps a b \<Longrightarrow> db_ok b"
  by (simp add: keeps_def)

lemma keeps_same_rows: "keeps a b \<Longrightarrow> ap_requests c = ap_requests b \<Longrightarrow> keeps a c"
  by (simp add: keeps_def db_ok_def)

text \<open>
  The contract of a write to the table: it touches pending rows only, keeps their ids, and leaves
  each row it leaves pending as a pending row must be.
\<close>

locale pending_update =
  fixes p :: "approval_request \<Rightarrow> bool" and f :: "approval_request \<Rightarrow> approval_request"
  assumes only_pending: "p r \<Longrightarrow> ar_status r = Pending"
    and keeps_id: "p r \<Longrightarrow> ar_id (f r) = ar_id r"
    and keeps_four_eyes: "p r \<Longrightarrow> four_eyes r \<Longrightarrow> four_eyes (f r)"
begin

lemma update_ids: "map ar_id (update_rows p f rows) = map ar_id rows"
  by (induction rows) (auto simp: update_rows_def keeps_id)

lemma update_keeps:
  assumes "db_ok db" "ap_requests db' = update_rows p f (ap_requests db)"
  shows "keeps db db'"
proof -
  have "four_eyes r'" if "r' \<in> set (ap_requests db')" for r'
    using that assms keeps_four_eyes by (auto simp: update_rows_def db_ok_def)
  moreover have "r \<in> set (ap_requests db')" if "r \<in> set (ap_requests db)" "ar_status r \<noteq> Pending" for r
    using that assms(2) only_pending by (force simp: update_rows_def)
  ultimately show ?thesis
    using assms update_ids by (auto simp: keeps_def db_ok_def)
qed

end

lemma closed_four_eyes: "ar_status r \<noteq> Pending \<Longrightarrow> four_eyes r"
  by (simp add: four_eyes_def)

lemma add_approval_fields [simp]:
  "ar_id (add_approval now u n a c r) = ar_id r" "ar_requester_id (add_approval now u n a c r) = ar_requester_id r"
  "ar_request_data (add_approval now u n a c r) = ar_request_data r"
  "ar_certificate_id (add_approval now u n a c r) = ar_certificate_id r"
  "ar_required_approvals (add_approval now u n a c r) = ar_required_approvals r"
  "ar_approvals (add_approval now u n a c r) = ar_approvals r @
     [\<lparr>vt_user_id = u, vt_username = n, vt_action = a, vt_comment = c, vt_timestamp = now\<rparr>]"
  by (simp_all add: add_approval_def Let_def)

lemma reject_closes: "ar_status (add_approval now u n Reject c r) \<noteq> Pending"
  by (simp add: add_approval_def Let_def count_votes_def)

definition may_vote :: "vote_call \<Rightarrow> approval_request \<Rightarrow> bool" where
  "may_vote c r \<longleftrightarrow> ar_status r = Pending \<and> caller_id c \<noteq> None
     \<and> (caller_id c = Some 0 \<or> ar_requester_id r \<noteq> caller_id c) \<and> \<not> already_voted (caller_id c) r"

interpretation expiring: pending_update "stale now locked" "expire_row now" for now locked
  by unfold_locales (auto simp: stale_def expire_row_def four_eyes_def)

interpretation expiring_one: pending_update "\<lambda>x. x = r \<and> ar_status x = Pending" "expire_row now" for r now
  by unfold_locales (auto simp: expire_row_def four_eyes_def)

interpretation closing_gone: pending_update "\<lambda>x. x = r \<and> ar_status x = Pending" "close_row c" for r c
  by unfold_locales (auto simp: close_row_def four_eyes_def)

interpretation rejecting: pending_update "\<lambda>x. x = r \<and> ar_status x = Pending" "cast_reject c" for r c
  by unfold_locales (auto simp: cast_reject_def reject_closes closed_four_eyes)

interpretation resolving: pending_update "moot_target m" "resolve_row db m" for m db
  by unfold_locales
    (auto simp: moot_target_def names_target_def resolve_row_def expire_row_def Let_def four_eyes_def)

interpretation approving: pending_update "\<lambda>x. x = r \<and> may_vote c x" "cast_approve c" for r c
proof unfold_locales
  fix x assume p: "x = r \<and> may_vote c x" and "four_eyes x"
  then show "four_eyes (cast_approve c x)"
    by (auto simp: four_eyes_def may_vote_def cast_approve_def already_voted_def list_ex_iff)
qed (auto simp: may_vote_def cast_approve_def)

lemma modify_found:
  assumes "distinct (map ar_id (ap_requests db))" "get_request db i = Some r" "q r"
  shows "ap_requests (modify_request i f db) = update_rows (\<lambda>x. x = r \<and> q x) f (ap_requests db)"
proof -
  have r: "r \<in> set (ap_requests db)" "ar_id r = i"
    using assms(2) by (auto simp: get_request_def dest: first_row_SomeD)
  have "ar_id x = i \<longleftrightarrow> x = r" if "x \<in> set (ap_requests db)" for x
    using that r assms(1) by (auto simp: distinct_map dest: inj_onD)
  then show ?thesis
    using assms(3) by (auto simp: modify_request_def update_rows_def)
qed

lemma keeps_map:
  assumes "db_ok db" "ap_requests db' = map f (ap_requests db)"
    and "\<And>r. decision (f r) = decision r" "\<And>r. four_eyes (f r) = four_eyes r"
  shows "keeps db db'"
proof -
  have "ar_id (f r) = ar_id r" for r
    using assms(3)[of r] by (simp add: decision_def)
  then have "map ar_id (ap_requests db') = map ar_id (ap_requests db)"
    by (simp add: assms(2))
  then show ?thesis
    using assms by (auto simp: keeps_def db_ok_def simp del: map_map)
qed

lemma link_keeps:
  assumes "db_ok db"
  shows "keeps db (link_certificate ids cert db)"
proof (rule keeps_map[OF assms])
  show "ap_requests (link_certificate ids cert db) = map (\<lambda>r. if ar_id r \<in> set ids \<and> ar_certificate_id r = None
      then r\<lparr>ar_certificate_id := Some cert\<rparr> else r) (ap_requests db)"
    by (simp add: link_certificate_def update_rows_def)
qed (simp_all add: decision_def four_eyes_def)

lemma perform_keeps:
  assumes "db_ok db"
  shows "keeps db (perform c r cert close_key db)"
proof -
  obtain dups db1 where d: "(case close_key of None \<Rightarrow> ([], db)
      | Some (key, target) \<Rightarrow> resolve_in_session (duplicate_call c r key target) db) = (dups, db1)"
    by (metis surj_pair)
  have k1: "keeps db db1"
  proof (cases close_key)
    case None
    then show ?thesis using d keeps_refl[OF assms] by simp
  next
    case (Some kt)
    then have "ap_requests db1 = update_rows (moot_target (duplicate_call c r (fst kt) (snd kt)))
        (resolve_row db (duplicate_call c r (fst kt) (snd kt))) (ap_requests db)"
      using d by (auto simp: resolve_in_session_def split: prod.splits)
    then show ?thesis by (rule resolving.update_keeps[OF assms])
  qed
  define db2 where "db2 = (case cert of None \<Rightarrow> db1 | Some i \<Rightarrow> link_certificate [ar_id r] i (link_certificate dups i db1))"
  have "keeps db1 db2"
  proof (cases cert)
    case None
    then show ?thesis using keeps_refl[OF keeps_ok[OF k1]] by (simp add: db2_def)
  next
    case (Some i)
    have l: "keeps db1 (link_certificate dups i db1)" by (rule link_keeps[OF keeps_ok[OF k1]])
    show ?thesis
      unfolding db2_def Some option.case by (rule keeps_trans[OF l link_keeps[OF keeps_ok[OF l]]])
  qed
  then have "keeps db db2" by (rule keeps_trans[OF k1])
  moreover have "perform c r cert close_key db = cancellations_committed db2"
    by (simp add: perform_def d db2_def)
  ultimately show ?thesis
    by (auto intro: keeps_same_rows simp: cancellations_committed_def)
qed


lemma expire_one_keeps:
  assumes "db_ok db" "get_request db i = Some r" "ar_status r = Pending"
  shows "keeps db (modify_request i (expire_row now) db)"
  using modify_found[where q = "\<lambda>x. ar_status x = Pending"] assms
  by (intro expiring_one.update_keeps[of db _ r]) (auto simp: db_ok_def)

lemma close_gone_keeps:
  assumes "db_ok db" "get_request db (vc_request c) = Some r" "ar_status r = Pending"
  shows "keeps db (snd (close_request_target_gone c db))"
proof (cases "vc_commit c")
  case True
  have "keeps db (modify_request (vc_request c) (close_row c) db)"
    using modify_found[where q = "\<lambda>x. ar_status x = Pending"] assms
    by (intro closing_gone.update_keeps[of db _ r]) (auto simp: db_ok_def)
  then show ?thesis using True by (simp add: close_request_target_gone_def)
qed (simp add: close_request_target_gone_def keeps_refl[OF assms(1)])

lemma vote_keeps:
  assumes "db_ok db" "get_request db (vc_request c) = Some r" "may_vote c r"
  shows "keeps db (modify_request (vc_request c) (cast_approve c) db)"
  using modify_found[where q = "may_vote c"] assms
  by (intro approving.update_keeps[of db _ r]) (auto simp: db_ok_def)

lemma reject_vote_keeps:
  assumes "db_ok db" "get_request db (vc_request c) = Some r" "ar_status r = Pending"
  shows "keeps db (modify_request (vc_request c) (cast_reject c) db)"
  using modify_found[where q = "\<lambda>x. ar_status x = Pending"] assms
  by (intro rejecting.update_keeps[of db _ r]) (auto simp: db_ok_def)

lemma can_act_known: "user_can_act_on_approval db user r = None \<Longrightarrow> user \<noteq> None"
  by (cases user) (auto simp: user_can_act_on_approval_def)

lemma approve_may_vote:
  assumes "ar_status r = Pending" "user_can_act_on_approval db (vc_user c) r = None"
    and "\<not> (caller_id c \<noteq> None \<and> caller_id c \<noteq> Some 0 \<and> ar_requester_id r = caller_id c)"
    and "\<not> already_voted (caller_id c) r"
  shows "may_vote c r"
  using assms can_act_known[OF assms(2)] by (auto simp: may_vote_def caller_id_def)

lemma approve_keeps:
  assumes "db_ok db" "approve_request c db = (code, db')"
  shows "keeps db db'"
proof (cases "get_request db (vc_request c)")
  case None
  then show ?thesis using assms keeps_refl by (auto simp: approve_request_def)
next
  case (Some r)
  show ?thesis
  proof (cases "ar_status r = Pending \<and> \<not> approval_is_expired (vc_now c) r
      \<and> user_can_act_on_approval db (vc_user c) r = None
      \<and> \<not> (caller_id c \<noteq> None \<and> caller_id c \<noteq> Some 0 \<and> ar_requester_id r = caller_id c)
      \<and> \<not> already_voted (caller_id c) r")
    case False
    then have "db' = db \<or> ar_status r = Pending \<and> db' = modify_request (vc_request c) (expire_row (vc_now c)) db"
      using assms(2) Some by (auto simp: approve_request_def split: if_splits)
    then show ?thesis using keeps_refl[OF assms(1)] expire_one_keeps[OF assms(1) Some] by blast
  next
    case True
    let ?voted = "modify_request (vc_request c) (cast_approve c) db"
    have voted: "keeps db ?voted"
      by (rule vote_keeps[OF assms(1) Some approve_may_vote]) (use True in auto)
    have "db' \<in> {db, snd (close_request_target_gone c db), ?voted}
        \<or> (\<exists>cert key. db' = perform c (cast_approve c r) cert key ?voted)"
      using assms(2) Some True
      by (auto simp: approve_request_def Let_def split: sum.splits option.splits if_splits issue_outcome.splits)
    then show ?thesis
      using keeps_refl[OF assms(1)] close_gone_keeps[OF assms(1) Some] voted True
        keeps_trans[OF voted perform_keeps[OF keeps_ok[OF voted]]] by auto
  qed
qed

lemma reject_keeps:
  assumes "db_ok db" "reject_request c db = (code, db')"
  shows "keeps db db'"
proof (cases "get_request db (vc_request c)")
  case None
  then show ?thesis using assms keeps_refl by (auto simp: reject_request_def split: if_splits)
next
  case (Some r)
  then have "db' = db \<or> ar_status r = Pending \<and> (db' = modify_request (vc_request c) (expire_row (vc_now c)) db
      \<or> db' = modify_request (vc_request c) (cast_reject c) db)"
    using assms(2) by (auto simp: reject_request_def split: if_splits)
  then show ?thesis
    using keeps_refl[OF assms(1)] expire_one_keeps[OF assms(1) Some] reject_vote_keeps[OF assms(1) Some] by blast
qed

lemma create_keeps:
  assumes "db_ok db" "new_id \<notin> ar_id ` set (ap_requests db)"
    and "create_approval_request commit now new_id p data req comment rtype db = Inr (r, db')"
  shows "keeps db db'"
proof -
  have "ap_requests db' = ap_requests db @ [r]" "ar_id r = new_id" "ar_approvals r = []"
    using assms(3) by (auto simp: create_approval_request_def Let_def split: if_splits)
  then show ?thesis
    using assms(1,2) by (auto simp: keeps_def db_ok_def four_eyes_def)
qed

lemma queue_keeps:
  assumes "db_ok db" "new_id \<notin> ar_id ` set (ap_requests db)"
    and "queue_if_approval_required commit now new_id user q rtype data comment partner db = Inr (res, db')"
  shows "keeps db db'"
proof -
  have "db' = db \<or> (\<exists>p req com r. create_approval_request commit now new_id p data req com rtype db = Inr (r, db'))"
    using assms(3) unfolding queue_if_approval_required_def
    by (auto split: if_splits sum.splits option.splits dest!: sum_bind_InrD)
  then show ?thesis
    using keeps_refl[OF assms(1)] create_keeps[OF assms(1,2)] by blast
qed

lemma moot_keeps:
  assumes "db_ok db" "resolve_moot_requests commit m db = (ids, db')"
  shows "keeps db db'"
proof -
  have "ap_requests db' = update_rows (moot_target m) (resolve_row db m) (ap_requests db)
      \<or> ap_requests db' = ap_requests db"
    using assms(2)
    by (auto simp: resolve_moot_requests_def resolve_in_session_def record_cancellations_def
        cancellations_committed_def split: if_splits)
  then show ?thesis
    using resolving.update_keeps[OF assms(1)] keeps_same_rows[OF keeps_refl[OF assms(1)]] by blast
qed

lemma step_keeps: "approval_step db db' \<Longrightarrow> db_ok db \<Longrightarrow> keeps db db'"
proof (induction rule: approval_step.induct)
  case (queued commit now new_id user q rtype data comment partner db res db')
  then show ?case using queue_keeps by blast
next
  case (read commit now i db code db')
  then show ?case
    using expire_one_keeps[of db i] keeps_refl[of db]
    by (auto simp: get_approval_def split: option.splits if_splits)
next
  case (expire commit now locked db n db')
  then show ?case
    using expiring.update_keeps[of db _ now locked] keeps_refl[of db]
    by (auto simp: expire_stale_requests_def split: if_splits)
qed (auto intro: approve_keeps reject_keeps moot_keeps)

lemma steps_keep: "approval_step\<^sup>*\<^sup>* db db' \<Longrightarrow> db_ok db \<Longrightarrow> keeps db db'"
proof (induction rule: rtranclp_induct)
  case base
  then show ?case by (rule keeps_refl)
next
  case (step y z)
  then show ?case using keeps_trans step_keeps keeps_ok by blast
qed


lemma empty_ok: "ap_requests db = [] \<Longrightarrow> db_ok db"
  by (simp add: db_ok_def)

lemma get_request_unique:
  assumes "db_ok db" "r \<in> set (ap_requests db)"
  shows "get_request db (ar_id r) = Some r"
proof (cases "get_request db (ar_id r)")
  case None
  then show ?thesis using assms(2) by (auto simp: get_request_def first_row_None_iff)
next
  case (Some x)
  then show ?thesis
    using assms by (auto simp: get_request_def db_ok_def distinct_map dest!: first_row_SomeD dest: inj_onD)
qed

lemma modify_get:
  assumes "db_ok db" "get_request db i = Some r" "\<And>x. ar_id (f x) = ar_id x"
  shows "get_request (modify_request i f db) i = Some (f r)"
proof -
  have "first_row (\<lambda>x. ar_id x = i) (update_rows (\<lambda>x. ar_id x = i) f rows) =
      map_option f (first_row (\<lambda>x. ar_id x = i) rows)" for rows
    by (induction rows) (auto simp: first_row_def update_rows_def assms(3))
  then show ?thesis using assms(2) by (simp add: get_request_def modify_request_def)
qed

text \<open>How one call of the approve route leaves the requests. Only a row written by the call changes,
  and a duplicate of the decided request, another one of its type for the same target, is closed with
  it unless it is past its deadline or the caller is its requester.\<close>

definition closed_with :: "vote_call \<Rightarrow> approval_request \<Rightarrow> approval_request \<Rightarrow> bool" where
  "closed_with c r q \<longleftrightarrow>
     (\<exists>cert key target. vc_outcome c = Performed cert (Some (key, target)) \<and> ar_request_type q = ar_request_type r \<and>
        named_target key q = Some (show_int target)) \<and>
     \<not> approval_is_expired (vc_now c) q \<and> ar_requester_id q \<noteq> caller_id c"

lemma update_row_of:
  assumes "distinct (map ar_id rows)" "\<And>x. ar_id (f x) = ar_id x" "q \<in> set rows"
    and "q' \<in> set (update_rows p f rows)" "ar_id q' = ar_id q"
  shows "q' = (if p q then f q else q)"
proof -
  obtain x where x: "x \<in> set rows" "q' = (if p x then f x else x)" using assms(4) by (auto simp: update_rows_def)
  then have "ar_id x = ar_id q" using assms(2,5) by (simp split: if_splits)
  then have "x = q" using x(1) assms(1,3) by (auto simp: distinct_map dest: inj_onD)
  then show ?thesis using x(2) by simp
qed

lemma linked_from:
  assumes "q' \<in> set (ap_requests (link_certificate ids cert db))"
  obtains q where "q \<in> set (ap_requests db)" "ar_id q' = ar_id q" "ar_status q' = ar_status q"
  using assms by (auto simp: link_certificate_def update_rows_def split: if_splits)

lemma linked_row:
  assumes "q' \<in> set (ap_requests (case cert of None \<Rightarrow> db | Some i \<Rightarrow> link_certificate js i (link_certificate ks i db)))"
  obtains q where "q \<in> set (ap_requests db)" "ar_id q' = ar_id q" "ar_status q' = ar_status q"
proof (cases cert)
  case None
  then show ?thesis using assms that by simp
next
  case (Some i)
  then show ?thesis using assms that by (auto elim!: linked_from)
qed

lemma resolved_status:
  "moot_target m q \<Longrightarrow> ar_status (resolve_row db m q) = Approved \<Longrightarrow>
     \<not> approval_is_expired (mt_now m) q \<and> \<not> acted_by_requester db (mt_user_id m) (mt_username m) q"
  by (auto simp: resolve_row_def expire_row_def moot_target_def names_target_def Let_def split: if_splits)

lemma resolve_row_id: "ar_id (resolve_row db m q) = ar_id q"
  by (simp add: resolve_row_def expire_row_def Let_def)

lemma perform_approves:
  assumes "db_ok db" "q \<in> set (ap_requests db)" "ar_status q = Pending" "caller_id c \<noteq> None"
    and "q' \<in> set (ap_requests (perform c r cert close_key db))" "ar_id q' = ar_id q" "ar_status q' = Approved"
  shows "\<exists>key target. close_key = Some (key, target) \<and> ar_request_type q = ar_request_type r \<and>
     named_target key q = Some (show_int target) \<and> \<not> approval_is_expired (vc_now c) q \<and> ar_requester_id q \<noteq> caller_id c"
proof (cases close_key)
  case None
  then have "q' \<in> set (ap_requests (case cert of None \<Rightarrow> db | Some i \<Rightarrow> link_certificate [ar_id r] i (link_certificate [] i db)))"
    using assms(5) by (simp add: perform_def cancellations_committed_def Let_def)
  then obtain x where "x \<in> set (ap_requests db)" "ar_id q' = ar_id x" "ar_status q' = ar_status x" by (rule linked_row)
  then have "ar_status q' = ar_status q"
    using assms(1,2,6) get_request_unique by (metis option.inject)
  then show ?thesis using assms(3,7) by simp
next
  case (Some kt)
  obtain key target where kt: "kt = (key, target)" by fastforce
  let ?m = "duplicate_call c r key target"
  obtain dups db1 where d: "resolve_in_session ?m db = (dups, db1)" by fastforce
  have rows: "ap_requests db1 = update_rows (moot_target ?m) (resolve_row db ?m) (ap_requests db)"
    using d by (auto simp: resolve_in_session_def)
  have "q' \<in> set (ap_requests (case cert of None \<Rightarrow> db1 | Some i \<Rightarrow> link_certificate [ar_id r] i (link_certificate dups i db1)))"
    using assms(5) by (simp add: perform_def cancellations_committed_def Let_def Some kt d)
  then obtain x where x: "x \<in> set (ap_requests db1)" "ar_id q' = ar_id x" "ar_status q' = ar_status x" by (rule linked_row)
  have "x = (if moot_target ?m q then resolve_row db ?m q else q)"
    using update_row_of[of "ap_requests db" "resolve_row db ?m" q x "moot_target ?m"] assms(1,2,6) x rows
    by (simp add: db_ok_def resolve_row_id)
  then have m: "moot_target ?m q" and "ar_status (resolve_row db ?m q) = Approved"
    using x(3) assms(3,7) by (auto split: if_splits)
  then have "\<not> approval_is_expired (vc_now c) q \<and> ar_requester_id q \<noteq> caller_id c"
    using resolved_status[of ?m q db] assms(4)
    by (auto simp: duplicate_call_def acted_by_requester_def split: option.splits)
  then show ?thesis using m by (simp add: Some kt moot_target_def names_target_def duplicate_call_def)
qed

text \<open>The four ways a call of the route can leave the table.\<close>

lemma approve_outcomes:
  assumes ok: "db_ok db" and found: "get_request db (vc_request c) = Some r"
    and step: "approve_request c db = (code, db')"
  shows "db' = db \<or> db' = modify_request (vc_request c) (expire_row (vc_now c)) db
     \<or> db' = modify_request (vc_request c) (close_row c) db
     \<or> may_vote c r \<and> user_can_act_on_approval db (vc_user c) r = None \<and>
       (db' = modify_request (vc_request c) (cast_approve c) db
        \<or> ar_status (cast_approve c r) = Approved \<and>
          (\<exists>cert key. vc_outcome c = Performed cert key \<and>
             db' = perform c (cast_approve c r) cert key (modify_request (vc_request c) (cast_approve c) db)))"
  using step found approve_may_vote[of r db c]
  by (auto simp: approve_request_def close_request_target_gone_def Let_def
      split: sum.splits option.splits if_splits issue_outcome.splits)

lemma approve_decides:
  assumes ok: "db_ok db" and q: "q \<in> set (ap_requests db)" "ar_status q = Pending"
    and step: "approve_request c db = (code, db')"
    and q': "q' \<in> set (ap_requests db')" "ar_id q' = ar_id q" "ar_status q' = Approved"
  shows "\<exists>r \<in> set (ap_requests db). get_request db (vc_request c) = Some r \<and> may_vote c r \<and>
     user_can_act_on_approval db (vc_user c) r = None \<and> ar_status (cast_approve c r) = Approved \<and>
     (\<exists>r' \<in> set (ap_requests db'). decision r' = decision (cast_approve c r)) \<and> (q = r \<or> closed_with c r q)"
proof (cases "get_request db (vc_request c)")
  case None
  then have "db' = db" using step by (simp add: approve_request_def)
  then have "q' = q" using get_request_unique[OF ok] q(1) q'(1,2) by (metis option.inject)
  then show ?thesis using q(2) q'(3) by simp
next
  case (Some r)
  then have r: "r \<in> set (ap_requests db)" "ar_id r = vc_request c" by (auto simp: get_request_def dest: first_row_SomeD)
  have same: "q = r" if "ar_id q = vc_request c"
    using that get_request_unique[OF ok q(1)] Some by simp
  have modified: "q' = (if ar_id q = vc_request c then f q else q)"
    if "q' \<in> set (ap_requests (modify_request (vc_request c) f db))" "\<And>x. ar_id (f x) = ar_id x" for f
    using update_row_of[of "ap_requests db" f q q' "\<lambda>x. ar_id x = vc_request c"] that ok q(1) q'(2)
    by (simp add: modify_request_def db_ok_def)
  let ?voted = "modify_request (vc_request c) (cast_approve c) db"
  have cast: "ar_id (cast_approve c x) = ar_id x" for x by (simp add: cast_approve_def)
  have vote: "cast_approve c r \<in> set (ap_requests ?voted)"
    using r by (auto simp: modify_request_def update_rows_def)
  consider "q' = q" | "q' = expire_row (vc_now c) q" | "q' = close_row c q"
    | "may_vote c r" "user_can_act_on_approval db (vc_user c) r = None" "db' = ?voted"
    | cert key where "may_vote c r" "user_can_act_on_approval db (vc_user c) r = None"
        "ar_status (cast_approve c r) = Approved" "vc_outcome c = Performed cert key"
        "db' = perform c (cast_approve c r) cert key ?voted"
    using approve_outcomes[OF ok Some step]
  proof (elim disjE conjE exE)
    assume "db' = db"
    then have "q' = q" using get_request_unique[OF ok] q(1) q'(1,2) by (metis option.inject)
    then show thesis by (rule that(1))
  next
    assume "db' = modify_request (vc_request c) (expire_row (vc_now c)) db"
    then show thesis using modified[of "expire_row (vc_now c)"] q'(1) that(1,2) by (auto simp: expire_row_def split: if_splits)
  next
    assume "db' = modify_request (vc_request c) (close_row c) db"
    then show thesis using modified[of "close_row c"] q'(1) that(1,3) by (auto simp: close_row_def split: if_splits)
  qed (use that in auto)
  then show ?thesis
  proof cases
    case 4
    then have "q = r" "q' = cast_approve c q"
      using modified[of "cast_approve c"] cast q'(1,3) q(2) same by (auto split: if_splits)
    then show ?thesis using 4 q' Some r vote by auto
  next
    case 5
    note kv = vote_keeps[OF ok Some 5(1)]
    then have "keeps ?voted db'" using perform_keeps[OF keeps_ok] 5(5) by simp
    then have closed: "\<exists>r' \<in> set (ap_requests db'). decision r' = decision (cast_approve c r)"
      using vote 5(3) unfolding keeps_def by force
    have "q = r \<or> closed_with c r q"
    proof (cases "ar_id q = vc_request c")
      case False
      then have "q \<in> set (ap_requests ?voted)" using q(1) by (force simp: modify_request_def update_rows_def)
      then show ?thesis
        using perform_approves[OF keeps_ok[OF kv] _ q(2) _ q'(1)[unfolded 5(5)] q'(2,3)] 5(1,4)
        by (auto simp: closed_with_def may_vote_def cast_approve_def add_approval_def Let_def)
    qed (simp add: same)
    then show ?thesis using 5 closed Some r by blast
  qed (use q(2) q'(3) in \<open>auto simp: expire_row_def close_row_def\<close>)
qed

text \<open>The vote a call of the approve route casts, and what it adds to the votes of a pending request.\<close>

definition cast_vote :: "vote_call \<Rightarrow> vote" where
  "cast_vote c = \<lparr>vt_user_id = caller_id c, vt_username = caller_name c, vt_action = Approve,
                  vt_comment = vc_comment c, vt_timestamp = vc_now c\<rparr>"

lemma approvals_cast_approve [simp]: "ar_approvals (cast_approve c r) = ar_approvals r @ [cast_vote c]"
  by (simp add: cast_approve_def cast_vote_def)

lemma approved_count:
  assumes "ar_status (cast_approve c r) = Approved" "ar_status r = Pending"
  shows "ar_required_approvals r \<le> count_votes Approve (ar_approvals (cast_approve c r))"
  using assms by (auto simp: cast_approve_def add_approval_def Let_def split: if_splits)

lemma four_eyes_vote:
  assumes "four_eyes r" "may_vote c r"
  shows "distinct (map vt_user_id (ar_approvals r @ [cast_vote c]))"
    "ar_requester_id r \<noteq> Some 0 \<Longrightarrow> \<forall>v \<in> set (ar_approvals r @ [cast_vote c]). vt_action v = Approve
       \<and> vt_user_id v \<noteq> None \<and> vt_user_id v \<noteq> ar_requester_id r"
  using assms by (auto simp: four_eyes_def may_vote_def already_voted_def list_ex_iff cast_vote_def)

section \<open>Properties\<close>

definition sample_gate_policy :: certificate_policy where
  "sample_gate_policy = (sample_policy (JDict []) 1)\<lparr>p_min_approvers := Some 1\<rparr>"

definition sample_db :: "approval_request list \<Rightarrow> approval_db" where
  "sample_db rs = \<lparr>ap_requests = rs, ap_policies = [sample_gate_policy], ap_members = Some [], ap_usernames = [],
     ap_uncommitted = [], ap_cancelled = []\<rparr>"

definition sample_request :: approval_request where
  "sample_request = \<lparr>ar_id = 1, ar_request_type = ''certificate'', ar_certificate_id = None,
     ar_request_data = Json_Text (JDict [(''cn'', JStr ''a'')]), ar_policy_id = Some 1, ar_requester_id = Some 5,
     ar_requester_comment = None, ar_status = Pending, ar_approvals = [], ar_required_approvals = 1,
     ar_created_at = Some 0, ar_expires_at = Some (days 7), ar_resolved_at = None\<rparr>"

definition sample_vote :: vote_call where
  "sample_vote = \<lparr>vc_now = 10, vc_commit = True, vc_user = Some \<lparr>au_id = 6, au_role = ''operator'', au_username = ''bob''\<rparr>,
     vc_request = 1, vc_comment = None,
     vc_inventory = \<lparr>inv_certificates = [], inv_cas = [], inv_cross = []\<rparr>, vc_outcome = Performed (Some 9) None,
     vc_locked = []\<rparr>"

lemma sample_queued: "approval_step (sample_db []) (sample_db [sample_request])"
proof (rule approval_step.queued)
  show "queue_if_approval_required True 0 1 (Some \<lparr>au_id = 5, au_role = ''operator'', au_username = ''al''\<rparr>)
      (sample_query ''a'') ''certificate'' (JDict [(''cn'', JStr ''a'')]) None None (sample_db [])
      = Inr (Some (sample_gate_policy, sample_request), sample_db [sample_request])"
    by (simp add: queue_if_approval_required_def check_approval_required_def in_scope_def sample_db_def
        sample_gate_policy_def sample_policy_defs create_approval_request_def sample_request_def
        APPROVAL_REQUEST_LIFETIME_def Let_def ucm_eval)
qed (simp add: sample_db_def)

lemma sample_vote_run:
  "approve_request sample_vote (sample_db [sample_request]) =
     (200, sample_db [(cast_approve sample_vote sample_request)\<lparr>ar_certificate_id := Some 9\<rparr>])"
  by (simp add: approve_request_def get_request_def sample_db_def sample_request_def sample_vote_def
      approval_is_expired_def request_deadline_def user_can_act_on_approval_def sample_gate_policy_def sample_policy_def
      caller_id_def already_voted_def approval_target_gone_def cast_approve_def add_approval_def count_votes_def
      modify_request_def perform_def link_certificate_def cancellations_committed_def caller_name_def ucm_eval)

text \<open>
  C28: an approval needs its quorum of other people. Take any database reached from an empty table of
  requests by queueing, votes, reads, expiry and direct actions (user ids are not 0). When a call of the
  approve route turns a pending request into an approved one, the request named in the call is approved
  by it, its caller is an administrator or passes the group check of its policy, and it then holds at
  least the required number of votes, all of them approvals by different users, none of them its
  requester. The request that turned approved is that one, or a duplicate closed with it: one of the
  same type for the target just signed, renewed or revoked, not past its deadline, whose requester is
  not the caller. The own quorum and group of a duplicate are not asked for.\<close>

theorem approval_needs_quorum:
  assumes "ap_requests db0 = []" "approval_step\<^sup>*\<^sup>* db0 db"
    and "q \<in> set (ap_requests db)" "ar_status q = Pending"
    and "approve_request c db = (code, db')"
    and "q' \<in> set (ap_requests db')" "ar_id q' = ar_id q" "ar_status q' = Approved"
    and "list_all (\<lambda>r. ar_requester_id r \<noteq> Some 0) (ap_requests db)"
  shows "\<exists>r r'. get_request db (vc_request c) = Some r \<and> ar_status r = Pending
     \<and> get_request db' (vc_request c) = Some r' \<and> ar_status r' = Approved
     \<and> user_can_act_on_approval db (vc_user c) r = None
     \<and> ar_required_approvals r' \<le> int (length (ar_approvals r'))
     \<and> distinct (map vt_user_id (ar_approvals r'))
     \<and> list_all (\<lambda>v. vt_action v = Approve \<and> vt_user_id v \<noteq> None \<and> vt_user_id v \<noteq> ar_requester_id r') (ar_approvals r')
     \<and> (q = r \<or> closed_with c r q)"
proof -
  have ok: "db_ok db" using steps_keep[OF assms(2) empty_ok[OF assms(1)]] by (rule keeps_ok)
  obtain r r' where r: "r \<in> set (ap_requests db)" "get_request db (vc_request c) = Some r" "may_vote c r"
      "user_can_act_on_approval db (vc_user c) r = None" "ar_status (cast_approve c r) = Approved"
      "q = r \<or> closed_with c r q"
    and r': "r' \<in> set (ap_requests db')" "decision r' = decision (cast_approve c r)"
    using approve_decides[OF ok assms(3-8)] by blast
  have eyes: "four_eyes r" and pending: "ar_status r = Pending" and zero: "ar_requester_id r \<noteq> Some 0"
    using ok r(1,3) assms(9) by (auto simp: db_ok_def may_vote_def list_all_iff)
  have eq: "ar_id r' = ar_id r" "ar_status r' = Approved" "ar_approvals r' = ar_approvals r @ [cast_vote c]"
    "ar_requester_id r' = ar_requester_id r" "ar_required_approvals r' = ar_required_approvals r"
    using r'(2) r(5) approvals_cast_approve[of c r] by (auto simp: decision_def cast_approve_def cast_vote_def)
  have "ar_id r = vc_request c" using r(2) by (auto simp: get_request_def dest: first_row_SomeD)
  then have found: "get_request db' (vc_request c) = Some r'"
    using get_request_unique[OF keeps_ok[OF approve_keeps[OF ok assms(5)]] r'(1)] eq(1) by simp
  have all: "\<forall>v \<in> set (ar_approvals r'). vt_action v = Approve \<and> vt_user_id v \<noteq> None \<and> vt_user_id v \<noteq> ar_requester_id r'"
    unfolding eq(3,4) by (rule four_eyes_vote(2)[OF eyes r(3) zero])
  moreover have "distinct (map vt_user_id (ar_approvals r'))"
    unfolding eq(3) by (rule four_eyes_vote(1)[OF eyes r(3)])
  moreover have "ar_required_approvals r' \<le> int (length (ar_approvals r'))"
    using approved_count[OF r(5) pending] all by (simp add: eq(3,5) count_votes_def)
  ultimately show ?thesis using r pending eq(2) found by (auto simp: list_all_iff)
qed

theorem approval_needs_quorum_witness:
  "\<exists>r'. get_request (snd (approve_request sample_vote (sample_db [sample_request]))) 1 = Some r'
     \<and> ar_required_approvals r' \<le> int (length (ar_approvals r')) \<and> ar_status r' = Approved"
proof -
  let ?q' = "(cast_approve sample_vote sample_request)\<lparr>ar_certificate_id := Some 9\<rparr>"
  have st: "ar_status ?q' = Approved" "ar_id ?q' = ar_id sample_request" "ar_status sample_request = Pending"
    "ar_requester_id sample_request = Some 5" "vc_request sample_vote = 1"
    by (simp_all add: cast_approve_def add_approval_def sample_request_def count_votes_def sample_vote_def)
  have rows: "ap_requests (sample_db []) = []" "sample_request \<in> set (ap_requests (sample_db [sample_request]))"
    "?q' \<in> set (ap_requests (sample_db [?q']))"
    "list_all (\<lambda>r. ar_requester_id r \<noteq> Some 0) (ap_requests (sample_db [sample_request]))"
    by (simp_all add: sample_db_def st)
  obtain r' where "get_request (sample_db [?q']) (vc_request sample_vote) = Some r'" "ar_status r' = Approved"
      "ar_required_approvals r' \<le> int (length (ar_approvals r'))"
    using approval_needs_quorum[OF rows(1) r_into_rtranclp[of approval_step, OF sample_queued] rows(2) st(3)
        sample_vote_run rows(3) st(2,1) rows(4)] by blast
  then show ?thesis by (simp add: sample_vote_run st(5))
qed



text \<open>
  the database filter that expires stale requests selects, among the rows nobody holds locked,
  exactly the pending ones that the deadline test of the routes calls expired.\<close>

theorem stale_filter_agrees:
  "stale now [] r \<longleftrightarrow> ar_status r = Pending \<and> approval_is_expired now r"
  by (auto simp: stale_def approval_is_expired_def request_deadline_def split: option.splits)

text \<open>
  the gate fails closed. When queueing answers that no approval is needed for an operation on one
  certificate, the user is an administrator, or the evaluation raised nothing and no active policy
  that requires approval binds the request.\<close>

theorem gate_fails_closed:
  assumes "queue_if_approval_required commit now new_id user q rtype data comment None db = Inr (None, db')"
  shows "(\<exists>u. user = Some u \<and> au_role u = ''admin'') \<or>
     \<not> (\<exists>p \<in> set (ap_policies db). binds q p \<and> p_requires_approval p)"
proof (cases "\<exists>u. user = Some u \<and> au_role u = ''admin''")
  case False
  then have na: "\<not> (case user of None \<Rightarrow> False | Some u \<Rightarrow> au_role u = ''admin'')"
    by (auto split: option.splits)
  then have "check_approval_required (ap_policies db) q = Inr None"
    using assms
    by (auto simp: queue_if_approval_required_def create_approval_request_def Let_def split: sum.splits option.splits if_splits)
  then have "in_scope (ap_policies db) q True = Inr []"
    by (auto simp: check_approval_required_def dest!: sum_bind_InrD split: list.splits)
  then show ?thesis using in_scope_binding(2)[of "ap_policies db" q True "[]"] by auto
qed blast

theorem gate_fails_closed_witness:
  "\<not> (\<exists>p \<in> set (ap_policies (sample_db [])). binds ((sample_query ''a'')\<lparr>q_operations := [''revocation'']\<rparr>) p
          \<and> p_requires_approval p)"
proof -
  let ?q = "(sample_query ''a'')\<lparr>q_operations := [''revocation'']\<rparr>"
  have run: "queue_if_approval_required True 0 1 None ?q ''revocation'' (JDict []) None None (sample_db []) =
      Inr (None, sample_db [])"
    by (simp add: queue_if_approval_required_def check_approval_required_def in_scope_def sample_db_def
      sample_gate_policy_def sample_policy_defs)
  show ?thesis using gate_fails_closed[OF run] by blast
qed

end
