(* ===== verification/Approval_Progress.thy ===== *)
theory Approval_Progress
  imports Approvals
begin

text \<open>
  Progress of approval requests: what the four-eyes rules allow does happen. The safety side, that
  nothing else does, is in \<open>Approvals\<close>.
\<close>

text \<open>A call of the approve route that meets every condition of the route on request \<open>r\<close>: in time,
  by someone the policy lets act, not the requester, with the target still there, and performed
  and committed if it is the deciding one.\<close>

definition vote_counts :: "approval_db \<Rightarrow> approval_request \<Rightarrow> vote_call \<Rightarrow> bool" where
  "vote_counts db r c \<longleftrightarrow>
     vc_request c = ar_id r \<and> vc_commit c \<and> \<not> approval_is_expired (vc_now c) r
     \<and> user_can_act_on_approval db (vc_user c) r = None \<and> caller_id c \<noteq> ar_requester_id r
     \<and> approval_target_gone (vc_inventory c) r = Inr None
     \<and> (case vc_outcome c of Performed _ _ \<Rightarrow> True | Refused _ \<Rightarrow> False)"

fun vote_run :: "vote_call list \<Rightarrow> approval_db \<Rightarrow> int list \<times> approval_db" where
  "vote_run [] db = ([], db)"
| "vote_run (c # cs) db =
     (let (code, db1) = approve_request c db; (codes, db2) = vote_run cs db1 in (code # codes, db2))"

lemma cast_approve_fields [simp]:
  "ar_id (cast_approve c r) = ar_id r" "ar_requester_id (cast_approve c r) = ar_requester_id r"
  "ar_request_type (cast_approve c r) = ar_request_type r" "ar_policy_id (cast_approve c r) = ar_policy_id r"
  "ar_request_data (cast_approve c r) = ar_request_data r" "ar_expires_at (cast_approve c r) = ar_expires_at r"
  "ar_created_at (cast_approve c r) = ar_created_at r"
  "ar_required_approvals (cast_approve c r) = ar_required_approvals r"
  by (simp_all add: cast_approve_def add_approval_def Let_def)

lemma count_all_approve:
  assumes "four_eyes r" "ar_status r = Pending"
  shows "count_votes Approve (ar_approvals r @ [cast_vote c]) = int (length (ar_approvals r)) + 1"
    and "count_votes Reject (ar_approvals r @ [cast_vote c]) = 0"
proof -
  have all: "\<forall>v \<in> set (ar_approvals r). vt_action v = Approve"
    using assms by (simp add: four_eyes_def)
  then have "filter (\<lambda>v. vt_action v = Approve) (ar_approvals r) = ar_approvals r"
    "filter (\<lambda>v. vt_action v = Reject) (ar_approvals r) = []"
    by (auto simp: filter_empty_conv)
  then show "count_votes Approve (ar_approvals r @ [cast_vote c]) = int (length (ar_approvals r)) + 1"
    "count_votes Reject (ar_approvals r @ [cast_vote c]) = 0"
    by (simp_all add: count_votes_def cast_vote_def)
qed

lemma cast_approve_status:
  assumes "four_eyes r" "ar_status r = Pending"
  shows "ar_status (cast_approve c r) =
     (if ar_required_approvals r \<le> int (length (ar_approvals r)) + 1 then Approved else Pending)"
  using count_all_approve[OF assms, of c] assms(2)
  by (simp add: cast_approve_def add_approval_def Let_def cast_vote_def)

text \<open>The conditions of later calls are those of the earlier ones: a vote changes nothing they read.\<close>

lemma vote_counts_cast:
  assumes "ap_policies db' = ap_policies db" "ap_members db' = ap_members db"
  shows "vote_counts db' (cast_approve c r) d = vote_counts db r d"
proof -
  have "approval_is_expired t (cast_approve c r) = approval_is_expired t r" for t
    by (cases "ar_expires_at r") (simp_all add: approval_is_expired_def request_deadline_def)
  moreover have "user_can_act_on_approval db' u (cast_approve c r) = user_can_act_on_approval db u r" for u
    unfolding user_can_act_on_approval_def cast_approve_fields assms ..
  moreover have "approval_target_gone v (cast_approve c r) = approval_target_gone v r" for v
    unfolding approval_target_gone_def stored_data_def cast_approve_fields ..
  ultimately show ?thesis by (simp add: vote_counts_def)
qed

lemma counted_vote:
  assumes ok: "db_ok db" and r: "get_request db i = Some r" "ar_status r = Pending"
    and c: "vote_counts db r c" "\<not> already_voted (caller_id c) r"
  shows "\<exists>db'. approve_request c db = (200, db') \<and> db_ok db' \<and>
     (if ar_required_approvals r \<le> int (length (ar_approvals r)) + 1
      then \<exists>r'. get_request db' i = Some r' \<and> ar_status r' = Approved
      else get_request db' i = Some (cast_approve c r) \<and> ap_policies db' = ap_policies db
        \<and> ap_members db' = ap_members db)"
proof -
  have i: "ar_id r = i" "r \<in> set (ap_requests db)" using r(1) by (auto simp: get_request_def dest: first_row_SomeD)
  then have eyes: "four_eyes r" using ok by (simp add: db_ok_def)
  have call: "vc_request c = i" "vc_commit c" "\<not> approval_is_expired (vc_now c) r"
    "user_can_act_on_approval db (vc_user c) r = None" "caller_id c \<noteq> ar_requester_id r"
    "approval_target_gone (vc_inventory c) r = Inr None"
    using c(1) i by (simp_all add: vote_counts_def)
  obtain cert key where out: "vc_outcome c = Performed cert key"
    using c(1) by (cases "vc_outcome c") (auto simp: vote_counts_def)
  let ?voted = "modify_request i (cast_approve c) db"
  have vote: "may_vote c r" by (rule approve_may_vote) (use r call c in auto)
  have kv: "keeps db ?voted" using vote_keeps[OF ok _ vote] r(1) call(1) by simp
  have voted: "get_request ?voted i = Some (cast_approve c r)"
    by (rule modify_get[OF ok r(1)]) simp
  note status = cast_approve_status[OF eyes r(2), of c]
  have step: "approve_request c db = (200, if ar_status (cast_approve c r) = Approved
       \<and> ar_request_data r \<noteq> No_Text \<and> ar_certificate_id r = None
     then perform c (cast_approve c r) cert key ?voted else ?voted)"
    using r call c(2) out by (simp add: approve_request_def Let_def cast_approve_def)
  show ?thesis
  proof (cases "ar_status (cast_approve c r) = Approved \<and> ar_request_data r \<noteq> No_Text \<and> ar_certificate_id r = None")
    case True
    let ?done = "perform c (cast_approve c r) cert key ?voted"
    have kp: "keeps ?voted ?done" by (rule perform_keeps[OF keeps_ok[OF kv]])
    have "cast_approve c r \<in> set (ap_requests ?voted)"
      using voted by (auto simp: get_request_def dest: first_row_SomeD)
    then obtain x where x: "x \<in> set (ap_requests ?done)" "decision x = decision (cast_approve c r)"
      using kp True unfolding keeps_def by force
    then have "ar_id x = i" "ar_status x = Approved" using i True by (simp_all add: decision_def)
    then have "get_request ?done i = Some x" using get_request_unique[OF keeps_ok[OF kp] x(1)] by simp
    then show ?thesis
      using step True status \<open>ar_status x = Approved\<close> keeps_ok[OF kp] by (auto split: if_splits)
  next
    case False
    have "ap_policies ?voted = ap_policies db" "ap_members ?voted = ap_members db"
      by (simp_all add: modify_request_def)
    then show ?thesis using step False status voted keeps_ok[OF kv] by (auto split: if_splits)
  qed
qed

lemma already_voted_cast:
  "already_voted u (cast_approve c r) \<longleftrightarrow> already_voted u r \<or> u \<noteq> None \<and> u = caller_id c"
  by (auto simp: already_voted_def cast_vote_def)

lemma quorum_run:
  assumes "db_ok db" "get_request db i = Some r" "ar_status r = Pending"
    and "list_all (\<lambda>c. vote_counts db r c \<and> \<not> already_voted (caller_id c) r) cs"
    and "distinct (map caller_id cs)" "cs \<noteq> []"
    and "int (length (ar_approvals r)) + int (length cs) = ar_required_approvals r"
  shows "\<exists>db' r'. vote_run cs db = (replicate (length cs) 200, db')
     \<and> get_request db' i = Some r' \<and> ar_status r' = Approved"
  using assms
proof (induction cs arbitrary: db r)
  case (Cons c cs)
  obtain db1 where one: "approve_request c db = (200, db1)" "db_ok db1"
    "if ar_required_approvals r \<le> int (length (ar_approvals r)) + 1
      then \<exists>r'. get_request db1 i = Some r' \<and> ar_status r' = Approved
      else get_request db1 i = Some (cast_approve c r) \<and> ap_policies db1 = ap_policies db
        \<and> ap_members db1 = ap_members db"
    using counted_vote[OF Cons.prems(1,2,3)] Cons.prems(4) by auto
  have i: "ar_id r = i" "r \<in> set (ap_requests db)"
    using Cons.prems(2) by (auto simp: get_request_def dest: first_row_SomeD)
  then have eyes: "four_eyes r" using Cons.prems(1) by (simp add: db_ok_def)
  show ?case
  proof (cases "cs = []")
    case True
    then show ?thesis using one Cons.prems(7) by auto
  next
    case False
    then have more: "\<not> ar_required_approvals r \<le> int (length (ar_approvals r)) + 1"
      using Cons.prems(7) by (cases cs) auto
    then have g: "get_request db1 i = Some (cast_approve c r)"
      and same: "ap_policies db1 = ap_policies db" "ap_members db1 = ap_members db"
      using one(3) by simp_all
    have pend: "ar_status (cast_approve c r) = Pending"
      using cast_approve_status[OF eyes Cons.prems(3), of c] more by simp
    have la: "list_all (\<lambda>d. vote_counts db1 (cast_approve c r) d \<and> \<not> already_voted (caller_id d) (cast_approve c r)) cs"
      using Cons.prems(4,5) unfolding list_all_iff vote_counts_cast[OF same] already_voted_cast by (auto simp: image_iff)
    have len: "int (length (ar_approvals (cast_approve c r))) + int (length cs) = ar_required_approvals (cast_approve c r)"
      using Cons.prems(7) by simp
    obtain db2 r2 where "vote_run cs db1 = (replicate (length cs) 200, db2)"
      "get_request db2 i = Some r2" "ar_status r2 = Approved"
      using Cons.IH[OF one(2) g pend la _ False len] Cons.prems(5) by auto
    then show ?thesis using one(1) by auto
  qed
qed simp

text \<open>C30: A quorum is enough. From any database reached from an empty table of requests, let a
  request be pending and let as many different users as it still needs vote for it, none of them its
  requester or an earlier voter, each allowed to act, before the deadline, while the target is there,
  the database commits each vote, and the issuance the deciding vote triggers succeeds (one that fails
  rolls the vote back and leaves the request pending). Then every call of the approve route answers 200 and the request
  ends approved: no state of the table blocks a request its voters agree on.\<close>

theorem quorum_approves:
  assumes "ap_requests db0 = []" "approval_step\<^sup>*\<^sup>* db0 db"
    and "get_request db i = Some r" "ar_status r = Pending"
    and "list_all (\<lambda>c. vote_counts db r c \<and> \<not> already_voted (caller_id c) r) cs"
    and "distinct (map caller_id cs)" "cs \<noteq> []"
    and "int (length (ar_approvals r)) + int (length cs) = ar_required_approvals r"
  shows "fst (vote_run cs db) = replicate (length cs) 200 \<and>
     map_option ar_status (get_request (snd (vote_run cs db)) i) = Some Approved"
proof -
  have "db_ok db" using steps_keep[OF assms(2) empty_ok[OF assms(1)]] by (rule keeps_ok)
  from quorum_run[OF this assms(3-8)] show ?thesis by auto
qed

theorem quorum_approves_witness:
  "map_option ar_status (get_request (snd (vote_run [sample_vote] (sample_db [sample_request]))) 1) = Some Approved"
proof -
  let ?db = "sample_db [sample_request]"
  have g: "get_request ?db 1 = Some sample_request"
    by (simp add: get_request_def sample_db_def sample_request_def first_row_def)
  have r: "ar_status sample_request = Pending" "ar_approvals sample_request = []" "ar_required_approvals sample_request = 1"
    by (simp_all add: sample_request_def)
  have c: "vote_counts ?db sample_request sample_vote" "\<not> already_voted (caller_id sample_vote) sample_request"
    by (simp_all add: vote_counts_def sample_vote_def sample_request_def sample_db_def approval_is_expired_def
        request_deadline_def user_can_act_on_approval_def caller_id_def approval_target_gone_def
        already_voted_def sample_gate_policy_def sample_policy_def ucm_eval)
  show ?thesis
    using quorum_approves[OF _ r_into_rtranclp[of approval_step, OF sample_queued] g r(1), of "[sample_vote]"] r c
    by (simp add: sample_db_def)
qed

end
