(* ===== verification/Acme_Names.thy ===== *)
theory Acme_Names
  imports Prelude
begin

text \<open>
  Names in the ACME server: which registered entry covers a domain
  (\<^verbatim>\<open>services/acme/domain_match.py\<close>), which identifiers an order may name
  (\<^verbatim>\<open>services/acme/identifiers.py\<close>) and the domain scope of an external account binding
  credential (\<open>AcmeEabCredential.allowed_domains\<close>, \<open>clean_allowed_domains\<close> and
  \<open>allows_identifier\<close> of \<^verbatim>\<open>models/acme_models.py\<close>).

  \<open>ipaddress.ip_address\<close> is a parameter: from a value to the canonical text of the address, or
  nothing when it raises.
\<close>

section \<open>Registered entries (domain\_match.py)\<close>

abbreviation WILDCARD :: string where "WILDCARD \<equiv> ''*.''"

definition is_alpha :: "char \<Rightarrow> bool" where
  "is_alpha c \<longleftrightarrow> is_upper c \<or> is_lower c"

definition is_label :: "string \<Rightarrow> bool" where
  "is_label label \<longleftrightarrow> 0 < length label \<and> length label \<le> 63
     \<and> (\<forall>c \<in> set label. is_alpha c \<or> is_digit c \<or> c = CHR ''-'')
     \<and> hd label \<noteq> CHR ''-'' \<and> last label \<noteq> CHR ''-''"

definition is_valid_entry :: "string \<Rightarrow> bool \<Rightarrow> bool" where
  "is_valid_entry domain allow_single_label =
     (if domain = [] then False
      else let body = (if starts_with domain WILDCARD then drop 2 domain else domain);
               labels = py_split (CHR ''.'') body
           in if length labels < (if allow_single_label then 1 else 2) then False
              else if \<not> list_all is_label labels then False
              else 2 \<le> length (last labels) \<and> list_all is_alpha (last labels))"

text \<open>\<open>s.rstrip(c)\<close> for one character.\<close>

definition rstrip_char :: "char \<Rightarrow> string \<Rightarrow> string" where
  "rstrip_char c s = rev (dropWhile (\<lambda>x. x = c) (rev s))"

definition normalize_name :: "string \<Rightarrow> string" where
  "normalize_name domain =
     (let bare = py_lower (py_strip domain);
          bare = (if starts_with bare WILDCARD then drop 2 bare else bare);
          bare = rstrip_char (CHR ''.'') bare
      in if CHR ''*'' \<in> set bare then [] else bare)"

fun level_names :: "string list \<Rightarrow> string list" where
  "level_names [] = []"
| "level_names (p # ps) =
     (let level = py_join ''.'' (p # ps) in level # (WILDCARD @ level) # level_names ps)"

definition candidates :: "string \<Rightarrow> string list" where
  "candidates domain =
     (let bare = normalize_name domain
      in if bare = [] then [] else level_names (py_split (CHR ''.'') bare))"

text \<open>\<open>rank.get(name, len(wanted))\<close> for the enumeration of \<open>wanted\<close> (a later duplicate wins, as
  in the dictionary comprehension), and \<open>min(rows, key=...)\<close>, the first of the smallest.\<close>

fun rank_from :: "nat \<Rightarrow> string list \<Rightarrow> string \<Rightarrow> nat option" where
  "rank_from n [] name = None"
| "rank_from n (w # ws) name =
     (case rank_from (Suc n) ws name of
        Some m \<Rightarrow> Some m
      | None \<Rightarrow> if w = name then Some n else None)"

definition rank :: "string list \<Rightarrow> string \<Rightarrow> nat" where
  "rank wanted name = (case rank_from 0 wanted name of Some n \<Rightarrow> n | None \<Rightarrow> length wanted)"

fun min_row :: "('r \<Rightarrow> nat) \<Rightarrow> 'r \<Rightarrow> 'r list \<Rightarrow> 'r" where
  "min_row key best [] = best"
| "min_row key best (r # rs) = min_row key (if key r < key best then r else best) rs"

definition find_entry :: "('r \<Rightarrow> string) \<Rightarrow> 'r list \<Rightarrow> string \<Rightarrow> 'r option" where
  "find_entry name rows domain =
     (let wanted = candidates domain
      in if wanted = [] then None
         else (case filter (\<lambda>r. name r \<in> set wanted) rows of
                 [] \<Rightarrow> None
               | r # rs \<Rightarrow> Some (min_row (\<lambda>r. rank wanted (py_lower (name r))) r rs)))"

record acme_domain =
  ad_domain :: string
  ad_issuing_ca_id :: "int option"
  ad_is_wildcard_allowed :: "bool option"
  ad_auto_approve :: "bool option"

record acme_local_domain =
  ld_domain :: string
  ld_issuing_ca_id :: int
  ld_auto_approve :: "bool option"

definition json_field :: "string \<Rightarrow> json \<Rightarrow> json" where
  "json_field k j = (case j of JDict kvs \<Rightarrow> (case map_of kvs k of Some v \<Rightarrow> v | None \<Rightarrow> JNull)
                     | _ \<Rightarrow> JNull)"

fun wildcard_refused :: "acme_domain list \<Rightarrow> json list \<Rightarrow> string list" where
  "wildcard_refused rows [] = []"
| "wildcard_refused rows (identifier # rest) =
     (case json_field ''value'' identifier of
        JStr value \<Rightarrow>
          if \<not> starts_with value WILDCARD then wildcard_refused rows rest
          else (case find_entry ad_domain rows value of
                  Some entry \<Rightarrow>
                    if ad_is_wildcard_allowed entry = Some False
                    then value # wildcard_refused rows rest
                    else wildcard_refused rows rest
                | None \<Rightarrow> wildcard_refused rows rest)
      | _ \<Rightarrow> wildcard_refused rows rest)"

definition find_local_domain_ca :: "acme_local_domain list \<Rightarrow> string \<Rightarrow> int option" where
  "find_local_domain_ca rows domain = map_option ld_issuing_ca_id (find_entry ld_domain rows domain)"

definition is_domain_auto_approved ::
  "acme_local_domain list \<Rightarrow> acme_domain list \<Rightarrow> string \<Rightarrow> bool" where
  "is_domain_auto_approved locals domains domain =
     (if domain = [] then False
      else (case find_entry ld_domain locals domain of
              Some e \<Rightarrow> ld_auto_approve e = Some True | None \<Rightarrow> False)
        \<or> (case find_entry ad_domain domains domain of
              Some e \<Rightarrow> ad_auto_approve e = Some True | None \<Rightarrow> False))"

section \<open>Identifiers of an order (identifiers.py)\<close>

text \<open>
  The label pattern ends in a dollar sign and is applied with \<open>match\<close>, so it also accepts one
  newline after the label. The three label patterns of the code differ in their character class
  only.
\<close>

definition NEWLINE :: char where "NEWLINE = char_of (10 :: nat)"

definition label_match :: "(char \<Rightarrow> bool) \<Rightarrow> string \<Rightarrow> bool" where
  "label_match cls s =
     (let body = (if s \<noteq> [] \<and> last s = NEWLINE then butlast s else s)
      in 1 \<le> length body \<and> length body \<le> 63 \<and> list_all cls body
         \<and> hd body \<noteq> CHR ''-'' \<and> last body \<noteq> CHR ''-'')"

definition dns_char :: "char \<Rightarrow> bool" where
  "dns_char c \<longleftrightarrow> is_alpha c \<or> is_digit c \<or> c = CHR ''_'' \<or> c = CHR ''-''"

definition DNS_LABEL_RE :: "string \<Rightarrow> bool" where
  "DNS_LABEL_RE = label_match dns_char"

definition is_valid_dns_identifier :: "json \<Rightarrow> bool" where
  "is_valid_dns_identifier j =
     (case j of
        JStr value \<Rightarrow>
          if value = [] \<or> 253 < length value then False
          else let value = (if starts_with value ''*.'' then drop 2 value else value);
                   value = (if ends_with value ''.'' then butlast value else value)
               in if value = [] then False
                  else list_all DNS_LABEL_RE (py_split (CHR ''.'') value)
      | _ \<Rightarrow> False)"

datatype identifier_problem =
    Identifier_Required | Unsupported_Type | Malformed_Dns | Malformed_Ip

text \<open>The identifier with its value rewritten, or the problem.\<close>

definition set_field :: "string \<Rightarrow> json \<Rightarrow> (string \<times> json) list \<Rightarrow> (string \<times> json) list" where
  "set_field k v kvs = map (\<lambda>(k', v'). if k' = k then (k', v) else (k', v')) kvs"

definition validate_acme_identifier ::
  "(json \<Rightarrow> string option) \<Rightarrow> json \<Rightarrow> identifier_problem + json" where
  "validate_acme_identifier ip_address identifier =
     (case identifier of
        JDict kvs \<Rightarrow>
          (case (map_of kvs ''type'', map_of kvs ''value'') of
             (Some t, Some v) \<Rightarrow>
               if t \<noteq> JStr ''dns'' \<and> t \<noteq> JStr ''ip'' then Inl Unsupported_Type
               else if t = JStr ''dns'' then
                 if is_valid_dns_identifier v then Inr identifier else Inl Malformed_Dns
               else (case ip_address v of
                       None \<Rightarrow> Inl Malformed_Ip
                     | Some s \<Rightarrow> Inr (JDict (set_field ''value'' (JStr s) kvs)))
           | _ \<Rightarrow> Inl Identifier_Required)
      | _ \<Rightarrow> Inl Identifier_Required)"

definition CLIENT_MAX_DOMAIN_LENGTH :: nat where "CLIENT_MAX_DOMAIN_LENGTH = 253"

definition client_char :: "char \<Rightarrow> bool" where
  "client_char c \<longleftrightarrow> is_alpha c \<or> is_digit c \<or> c = CHR ''-''"

text \<open>The client's pattern: an optional wildcard label, then two or more labels, the newline of
  the final dollar sign tolerated after the last.\<close>

definition plain_label :: "string \<Rightarrow> bool" where
  "plain_label s \<longleftrightarrow> 1 \<le> length s \<and> length s \<le> 63 \<and> list_all client_char s
     \<and> hd s \<noteq> CHR ''-'' \<and> last s \<noteq> CHR ''-''"

definition CLIENT_FQDN_RE :: "string \<Rightarrow> bool" where
  "CLIENT_FQDN_RE s =
     (let body = (if starts_with s ''*.'' then drop 2 s else s);
          labels = py_split (CHR ''.'') body
      in 2 \<le> length labels \<and> list_all plain_label (butlast labels)
         \<and> label_match client_char (last labels))"

datatype client_name =
    Client_Ip string | Client_Dns string
  | Client_Empty | Client_Too_Long | Client_Bad_Syntax

definition normalize_client_identifier :: "(json \<Rightarrow> string option) \<Rightarrow> json \<Rightarrow> client_name" where
  "normalize_client_identifier ip_address j =
     (case j of
        JStr value \<Rightarrow>
          if value = [] then Client_Empty
          else (case ip_address j of
                  Some ip \<Rightarrow> Client_Ip ip
                | None \<Rightarrow>
                    if CLIENT_MAX_DOMAIN_LENGTH < length value then Client_Too_Long
                    else if \<not> CLIENT_FQDN_RE value then Client_Bad_Syntax
                    else Client_Dns value)
      | _ \<Rightarrow> Client_Empty)"

section \<open>The domain scope of an external account binding (AcmeEabCredential)\<close>

definition eab_normalize :: "string \<Rightarrow> string" where
  "eab_normalize value =
     (let value = py_lower (py_strip value)
      in if ends_with value ''.'' then butlast value else value)"

fun read_patterns :: "string list \<Rightarrow> json list \<Rightarrow> string list" where
  "read_patterns acc [] = acc"
| "read_patterns acc (JStr entry # rest) =
     (let norm = eab_normalize entry
      in if norm = ''*'' \<and> py_strip entry \<noteq> ''*'' then read_patterns acc rest
         else if norm \<noteq> [] \<and> norm \<notin> set acc then read_patterns (acc @ [norm]) rest
         else read_patterns acc rest)"
| "read_patterns acc (_ # rest) = read_patterns acc rest"

text \<open>The column: NULL, text that is not JSON, or the decoded value.\<close>

definition allowed_domains :: "json_text \<Rightarrow> string list option" where
  "allowed_domains raw =
     (case raw of
        No_Text \<Rightarrow> None
      | Bad_Text \<Rightarrow> Some []
      | Json_Text (JList parsed) \<Rightarrow> Some (read_patterns [] parsed)
      | Json_Text _ \<Rightarrow> Some [])"

definition store_allowed_domains :: "string list option \<Rightarrow> json_text" where
  "store_allowed_domains v = (case v of None \<Rightarrow> No_Text | Some ps \<Rightarrow> Json_Text (JList (map JStr ps)))"

definition eab_label_char :: "char \<Rightarrow> bool" where
  "eab_label_char c \<longleftrightarrow> is_lower c \<or> is_digit c \<or> c = CHR ''_'' \<or> c = CHR ''-''"

definition eab_last_char :: "char \<Rightarrow> bool" where
  "eab_last_char c \<longleftrightarrow> is_lower c \<or> is_digit c \<or> c = CHR ''-''"

definition check_domain_pattern :: "(json \<Rightarrow> string option) \<Rightarrow> string \<Rightarrow> bool" where
  "check_domain_pattern ip_address pattern =
     (let wildcard = starts_with pattern ''*.'';
          host = (if wildcard then drop 2 pattern else pattern)
      in if ip_address (JStr host) \<noteq> None then \<not> wildcard
         else let labels = py_split (CHR ''.'') host
              in length pattern \<le> 255 \<and> length host \<le> 253
                 \<and> list_all (label_match eab_label_char) (butlast labels)
                 \<and> label_match eab_last_char (last labels))"

definition MAX_ALLOWED_DOMAINS :: nat where "MAX_ALLOWED_DOMAINS = 100"

fun clean_patterns ::
  "(json \<Rightarrow> string option) \<Rightarrow> string list \<Rightarrow> json list \<Rightarrow> py_error + string list" where
  "clean_patterns ip acc [] = Inr acc"
| "clean_patterns ip acc (JStr entry # rest) =
     (let stripped = py_lower (py_strip entry); pattern = eab_normalize entry
      in if pattern = [] then clean_patterns ip acc rest
         else if ends_with pattern ''.'' \<or> (pattern = ''*'' \<and> stripped \<noteq> ''*'') then Inl ValueError
         else if pattern \<noteq> ''*'' \<and> \<not> check_domain_pattern ip pattern then Inl ValueError
         else clean_patterns ip (append_new acc pattern) rest)"
| "clean_patterns ip acc (_ # rest) = Inl ValueError"

definition clean_allowed_domains ::
  "(json \<Rightarrow> string option) \<Rightarrow> json \<Rightarrow> py_error + string list" where
  "clean_allowed_domains ip raw =
     (case raw of
        JList entries \<Rightarrow>
          if MAX_ALLOWED_DOMAINS < length entries then Inl ValueError
          else clean_patterns ip [] entries
      | _ \<Rightarrow> Inl ValueError)"

definition wildcard_covers :: "string \<Rightarrow> string \<Rightarrow> bool" where
  "wildcard_covers suffix val = (suffix \<noteq> [] \<and> ends_with val (''.'' @ suffix))"

definition pattern_allows :: "string \<Rightarrow> string \<Rightarrow> bool" where
  "pattern_allows val pattern =
     (if starts_with pattern ''*.'' then wildcard_covers (drop 2 pattern) val else pattern = val)"

definition allows_identifier :: "json_text \<Rightarrow> json \<Rightarrow> bool" where
  "allows_identifier raw identifier =
     (case allowed_domains raw of
        None \<Rightarrow> True
      | Some patterns \<Rightarrow>
          if ''*'' \<in> set patterns then True
          else (case json_field ''value'' identifier of
                  JStr v \<Rightarrow>
                    let val = eab_normalize v
                    in if val = [] then False
                       else if json_field ''type'' identifier = JStr ''ip''
                       then list_ex (\<lambda>p. \<not> starts_with p ''*.'' \<and> p = val) patterns
                       else list_ex (pattern_allows val) patterns
                | _ \<Rightarrow> False))"

section \<open>Which entry covers a domain\<close>

text \<open>The zone an entry names, either spelling, and the names it covers: itself and what lies below.\<close>

definition zone_of :: "string \<Rightarrow> string" where
  "zone_of entry = (if starts_with entry WILDCARD then drop 2 entry else entry)"

definition entry_covers :: "string \<Rightarrow> string \<Rightarrow> bool" where
  "entry_covers entry domain \<longleftrightarrow>
     normalize_name domain \<noteq> []
     \<and> (zone_of entry = normalize_name domain
        \<or> ends_with (normalize_name domain) (''.'' @ zone_of entry))"

definition below :: "string \<Rightarrow> string set" where
  "below b = {z. \<exists>u. b = u @ CHR ''.'' # z}"

definition both_spellings :: "string set \<Rightarrow> string set" where
  "both_spellings Z = Z \<union> (\<lambda>z. WILDCARD @ z) ` Z"

lemma both_spellings_insert: "both_spellings (insert z Z) = insert z (insert (WILDCARD @ z) (both_spellings Z))"
  by (auto simp: both_spellings_def)

lemma below_Nil [simp]: "below [] = {}"
  by (simp add: below_def)

lemma below_Cons: "below (x # xs) = (if x = CHR ''.'' then insert xs (below xs) else below xs)"
  by (auto simp: below_def Cons_eq_append_conv)

lemma level_names_split:
  assumes "set (level_names (tl (py_split (CHR ''.'') b))) = both_spellings (below b)"
  shows "set (level_names (py_split (CHR ''.'') b)) = both_spellings (insert b (below b))"
proof (cases "py_split (CHR ''.'') b")
  case Nil
  then show ?thesis by simp
next
  case (Cons w ws)
  moreover have "py_join ''.'' (w # ws) = b" using join_py_split[of "CHR ''.''" b] Cons by simp
  ultimately show ?thesis using assms by (simp add: both_spellings_insert Let_def)
qed

lemma level_names_tl: "set (level_names (tl (py_split (CHR ''.'') b))) = both_spellings (below b)"
proof (induction b)
  case Nil
  then show ?case by (simp add: both_spellings_def)
next
  case (Cons x xs)
  show ?case
  proof (cases "x = CHR ''.''")
    case True
    then show ?thesis using level_names_split[OF Cons.IH] by (simp add: below_Cons)
  next
    case False
    then show ?thesis
      using Cons.IH by (cases "py_split (CHR ''.'') xs") (simp_all add: below_Cons)
  qed
qed

lemma set_level_names: "set (level_names (py_split (CHR ''.'') b)) = both_spellings (insert b (below b))"
  by (rule level_names_split[OF level_names_tl])

lemma no_star_below: "z \<in> insert b (below b) \<Longrightarrow> set z \<subseteq> set b"
  by (auto simp: below_def)

lemma zone_of_no_star: "CHR ''*'' \<notin> set z \<Longrightarrow> zone_of z = z"
  by (auto simp: zone_of_def starts_with_iff)

lemma zone_of_wildcard [simp]: "zone_of (CHR ''*'' # CHR ''.'' # z) = z"
  by (simp add: zone_of_def starts_with_def)

lemma zone_cases: "c = zone_of c \<or> c = WILDCARD @ zone_of c"
  by (auto simp: zone_of_def starts_with_iff)

lemma normalize_name_no_star: "CHR ''*'' \<notin> set (normalize_name d)"
  by (simp add: normalize_name_def Let_def)

lemma entry_covers_alt: "entry_covers c d \<longleftrightarrow>
    normalize_name d \<noteq> [] \<and> zone_of c \<in> insert (normalize_name d) (below (normalize_name d))"
  by (auto simp: entry_covers_def below_def ends_with_iff)

lemma in_candidates_iff: "c \<in> set (candidates d) \<longleftrightarrow> entry_covers c d"
proof (cases "normalize_name d = []")
  case True
  then show ?thesis by (simp add: candidates_def entry_covers_def)
next
  case False
  let ?b = "normalize_name d"
  have "c \<in> both_spellings (insert ?b (below ?b)) \<longleftrightarrow> zone_of c \<in> insert ?b (below ?b)"
  proof
    assume "c \<in> both_spellings (insert ?b (below ?b))"
    then consider "c \<in> insert ?b (below ?b)" | z where "z \<in> insert ?b (below ?b)" "c = WILDCARD @ z"
      unfolding both_spellings_def by blast
    then show "zone_of c \<in> insert ?b (below ?b)"
    proof cases
      case 1
      then have "CHR ''*'' \<notin> set c" using no_star_below normalize_name_no_star by blast
      then show ?thesis using 1 by (simp add: zone_of_no_star)
    next
      case 2
      then show ?thesis by simp
    qed
  next
    assume "zone_of c \<in> insert ?b (below ?b)"
    then show "c \<in> both_spellings (insert ?b (below ?b))"
      using zone_cases[of c] unfolding both_spellings_def by (metis UnI1 UnI2 image_eqI)
  qed
  then show ?thesis using False by (simp add: candidates_def entry_covers_alt set_level_names)
qed

text \<open>The candidates come with the longest zone first.\<close>

lemma join_tl_shorter: "length (py_join ''.'' ps) \<le> length (py_join ''.'' (p # ps))"
  by (cases ps) auto

definition longest_first :: "string list \<Rightarrow> bool" where
  "longest_first = sorted_wrt (\<lambda>a b. length (zone_of b) \<le> length (zone_of a))"

lemma level_names_lengths:
  assumes "CHR ''*'' \<notin> set (py_join ''.'' ps)" "c \<in> set (level_names ps)"
  shows "length (zone_of c) \<le> length (py_join ''.'' ps)"
  using assms
proof (induction ps)
  case (Cons p ps)
  have sub: "set (py_join ''.'' ps) \<subseteq> set (py_join ''.'' (p # ps))" by (cases ps) auto
  then have rest: "CHR ''*'' \<notin> set (py_join ''.'' ps)" using Cons.prems(1) by blast
  from Cons.prems(2) consider "c = py_join ''.'' (p # ps)" | "c = WILDCARD @ py_join ''.'' (p # ps)"
    | "c \<in> set (level_names ps)" by (auto simp: Let_def)
  then show ?case
  proof cases
    case 1
    then show ?thesis using Cons.prems(1) by (simp add: zone_of_no_star)
  next
    case 2
    then show ?thesis by simp
  next
    case 3
    then show ?thesis using Cons.IH[OF rest] join_tl_shorter[of ps p] by simp
  qed
qed simp

lemma level_names_longest_first:
  "CHR ''*'' \<notin> set (py_join ''.'' ps) \<Longrightarrow> longest_first (level_names ps)"
proof (induction ps)
  case (Cons p ps)
  let ?l = "py_join ''.'' (p # ps)"
  have "set (py_join ''.'' ps) \<subseteq> set ?l" by (cases ps) auto
  then have rest: "CHR ''*'' \<notin> set (py_join ''.'' ps)" using Cons.prems by blast
  have "length (zone_of c) \<le> length ?l" if "c \<in> set (level_names ps)" for c
    using level_names_lengths[OF rest that] join_tl_shorter[of ps p] by simp
  moreover have "zone_of ?l = ?l" by (rule zone_of_no_star[OF Cons.prems])
  moreover have "zone_of (WILDCARD @ ?l) = ?l" by simp
  ultimately show ?case
    using Cons.IH[OF rest] unfolding longest_first_def level_names.simps Let_def sorted_wrt.simps
    by (metis le_refl set_ConsD)
qed (simp add: longest_first_def)

lemma candidates_longest_first: "longest_first (candidates d)"
proof (cases "normalize_name d = []")
  case True
  then show ?thesis by (simp add: candidates_def longest_first_def)
next
  case False
  then show ?thesis
    using level_names_longest_first[of "py_split (CHR ''.'') (normalize_name d)"]
    by (simp add: candidates_def join_py_split normalize_name_no_star)
qed

lemma rank_from_nth:
  "w \<in> set ws \<Longrightarrow> \<exists>m. rank_from n ws w = Some m \<and> n \<le> m \<and> m < n + length ws \<and> ws ! (m - n) = w"
proof (induction ws arbitrary: n)
  case (Cons x xs)
  show ?case
  proof (cases "w \<in> set xs")
    case True
    from Cons.IH[OF this, of "Suc n"] obtain m where
      "rank_from (Suc n) xs w = Some m" "Suc n \<le> m" "m < Suc n + length xs" "xs ! (m - Suc n) = w"
      by blast
    moreover from this have "(x # xs) ! (m - n) = w" by (simp add: nth_Cons')
    ultimately show ?thesis by auto
  next
    case False
    have "rank_from k xs w = None" for k using False by (induction xs arbitrary: k) auto
    then show ?thesis using Cons.prems False by auto
  qed
qed simp

lemma rank_nth: "w \<in> set ws \<Longrightarrow> rank ws w < length ws \<and> ws ! rank ws w = w"
  using rank_from_nth[of w ws 0] by (auto simp: rank_def)

lemma min_row_in: "min_row key r rs \<in> set (r # rs)"
proof (induction rs arbitrary: r)
  case (Cons y ys)
  have "min_row key r (y # ys) \<in> set ((if key y < key r then y else r) # ys)"
    using Cons.IH by simp
  then show ?case by (auto split: if_splits)
qed simp

lemma min_row_min: "x \<in> set (r # rs) \<Longrightarrow> key (min_row key r rs) \<le> key x"
proof (induction rs arbitrary: r x)
  case (Cons y ys)
  let ?b = "if key y < key r then y else r"
  have "key (min_row key ?b ys) \<le> key ?b" by (rule Cons.IH) simp
  moreover have "key ?b \<le> key r" "key ?b \<le> key y" by auto
  moreover have "x \<in> set ys \<Longrightarrow> key (min_row key ?b ys) \<le> key x" by (rule Cons.IH) simp
  ultimately show ?case using Cons.prems by auto
qed simp

lemma lower_char_not_upper: "py_lower s = s \<Longrightarrow> set t \<subseteq> set s \<Longrightarrow> py_lower t = t"
proof -
  assume "py_lower s = s" "set t \<subseteq> set s"
  then have "\<forall>c \<in> set t. lower_char c = c"
    unfolding py_lower_def by (metis map_eq_conv map_ident subsetD)
  then show "py_lower t = t" by (simp add: py_lower_def map_idI)
qed

lemma set_rstrip_char: "set (rstrip_char c s) \<subseteq> set s"
  by (auto simp: rstrip_char_def dest: set_dropWhileD)

lemma normalize_name_lower: "py_lower (normalize_name d) = normalize_name d"
proof -
  let ?s = "py_lower (py_strip d)"
  let ?t = "if starts_with ?s WILDCARD then drop 2 ?s else ?s"
  have "set ?t \<subseteq> set ?s" by (simp add: set_drop_subset)
  then have "set (rstrip_char (CHR ''.'') ?t) \<subseteq> set ?s"
    using set_rstrip_char by (meson order_trans)
  then have "py_lower (rstrip_char (CHR ''.'') ?t) = rstrip_char (CHR ''.'') ?t"
    by (rule lower_char_not_upper[OF py_lower_idem])
  moreover have "py_lower [] = []" by (simp add: py_lower_def)
  ultimately show ?thesis unfolding normalize_name_def Let_def by (simp split: if_splits)
qed

lemma candidate_lower:
  assumes "c \<in> set (candidates d)"
  shows "py_lower c = c"
proof -
  have "zone_of c \<in> insert (normalize_name d) (below (normalize_name d))"
    using assms by (simp add: in_candidates_iff entry_covers_alt)
  then have "set (zone_of c) \<subseteq> set (normalize_name d)" by (rule no_star_below)
  then have low: "py_lower (zone_of c) = zone_of c"
    by (rule lower_char_not_upper[OF normalize_name_lower])
  have "py_lower WILDCARD = WILDCARD" by code_simp
  then have "py_lower (WILDCARD @ zone_of c) = WILDCARD @ zone_of c"
    by (simp only: py_lower_append low)
  then show ?thesis using low zone_cases[of c] by (elim disjE) (simp only:)+
qed

lemma rank_order:
  assumes "a \<in> set (candidates d)" "b \<in> set (candidates d)"
    "rank (candidates d) a \<le> rank (candidates d) b"
  shows "length (zone_of b) \<le> length (zone_of a)"
proof -
  let ?w = "candidates d"
  note a = rank_nth[OF assms(1)] and b = rank_nth[OF assms(2)]
  show ?thesis
  proof (cases "rank ?w a = rank ?w b")
    case True
    then have "a = b" using a b by metis
    then show ?thesis by simp
  next
    case False
    then have "rank ?w a < rank ?w b" using assms(3) by simp
    then have "length (zone_of (?w ! rank ?w b)) \<le> length (zone_of (?w ! rank ?w a))"
      using candidates_longest_first[of d] b
      unfolding longest_first_def sorted_wrt_iff_nth_less by blast
    then show ?thesis by (simp only: a b)
  qed
qed

text \<open>
  The lookup of a domain in a table of registered entries answers none exactly when no entry
  covers the domain; otherwise it answers an entry that covers it, and one of the longest zone
  among those that do. An entry covers its zone and every name below it, in either spelling.
\<close>

theorem find_most_specific:
  "case find_entry name rows d of
     None \<Rightarrow> \<forall>r \<in> set rows. \<not> entry_covers (name r) d
   | Some r \<Rightarrow> r \<in> set rows \<and> entry_covers (name r) d
       \<and> (\<forall>r' \<in> set rows. entry_covers (name r') d
            \<longrightarrow> length (zone_of (name r')) \<le> length (zone_of (name r)))"
proof (cases "filter (\<lambda>r. name r \<in> set (candidates d)) rows")
  case Nil
  then show ?thesis by (auto simp: find_entry_def Let_def filter_empty_conv in_candidates_iff)
next
  case (Cons r rs)
  let ?w = "candidates d"
  let ?key = "\<lambda>r. rank ?w (py_lower (name r))"
  let ?m = "min_row ?key r rs"
  have rows: "set (r # rs) = {x \<in> set rows. name x \<in> set ?w}" using Cons by (metis set_filter)
  have "r \<in> {x \<in> set rows. name x \<in> set ?w}" using rows by auto
  then have some: "find_entry name rows d = Some ?m" using Cons by (auto simp: find_entry_def Let_def)
  have m: "?m \<in> set rows" "name ?m \<in> set ?w" using min_row_in[of ?key r rs] rows by auto
  have "length (zone_of (name x)) \<le> length (zone_of (name ?m))"
    if x: "x \<in> set rows" "name x \<in> set ?w" for x
  proof -
    have "?key ?m \<le> ?key x" using min_row_min[of x r rs ?key] rows x by auto
    then show ?thesis using rank_order[OF m(2) x(2)] candidate_lower m(2) x(2) by simp
  qed
  then show ?thesis using some m by (simp add: in_candidates_iff)
qed

theorem find_most_specific_witness:
  "find_entry ld_domain
     [\<lparr>ld_domain = ''lan'', ld_issuing_ca_id = 1, ld_auto_approve = None\<rparr>,
      \<lparr>ld_domain = ''*.dev.lan'', ld_issuing_ca_id = 2, ld_auto_approve = None\<rparr>] ''Api.dev.lan.''
   = Some \<lparr>ld_domain = ''*.dev.lan'', ld_issuing_ca_id = 2, ld_auto_approve = None\<rparr>
   \<and> entry_covers ''*.dev.lan'' ''Api.dev.lan.''"
proof -
  let ?rows = "[\<lparr>ld_domain = ''lan'', ld_issuing_ca_id = 1, ld_auto_approve = None\<rparr>,
      \<lparr>ld_domain = ''*.dev.lan'', ld_issuing_ca_id = 2, ld_auto_approve = None\<rparr>]"
  have "find_entry ld_domain ?rows ''Api.dev.lan.'' = Some (?rows ! 1)" by code_simp
  then show ?thesis using find_most_specific[where name = ld_domain and rows = ?rows and d = "''Api.dev.lan.''"] by simp
qed

section \<open>What an order may name\<close>

lemma label_match_chars:
  assumes "label_match cls s" "c \<in> set s"
  shows "cls c \<or> c = NEWLINE"
proof (cases "s \<noteq> [] \<and> last s = NEWLINE")
  case True
  then have "s = butlast s @ [NEWLINE]" by (metis append_butlast_last_id)
  then have "c \<in> set (butlast s) \<or> c = NEWLINE" using assms(2) by (metis rotate1.simps(2) set_ConsD set_rotate1)
  then show ?thesis using assms(1) True by (auto simp: label_match_def Let_def list_all_iff)
next
  case False
  then show ?thesis using assms by (auto simp: label_match_def Let_def list_all_iff)
qed

lemma set_join_subset: "set (py_join sep ws) \<subseteq> set sep \<union> (\<Union>w \<in> set ws. set w)"
  by (induction sep ws rule: py_join.induct) auto

lemma split_chars: "c \<in> set s \<Longrightarrow> c = sep \<or> (\<exists>w \<in> set (py_split sep s). c \<in> set w)"
  using set_join_subset[of "[sep]" "py_split sep s"] by (auto simp: join_py_split)

lemma label_match_append_newline:
  assumes "label_match cls w" "last w \<noteq> NEWLINE"
  shows "label_match cls (w @ [NEWLINE])"
  using assms by (auto simp: label_match_def Let_def split: if_splits)

lemma py_split_append_char:
  "c \<noteq> x \<Longrightarrow> py_split c (s @ [x]) = butlast (py_split c s) @ [last (py_split c s) @ [x]]"
proof (induction s)
  case (Cons y ys)
  then show ?case by (cases "py_split c ys") auto
qed simp

lemma py_split_append_sep: "py_split c (s @ [c]) = py_split c s @ [[]]"
proof (induction s)
  case (Cons y ys)
  then show ?case by (cases "py_split c ys") auto
qed simp

lemma last_py_split:
  assumes "s \<noteq> []" "last (py_split c s) \<noteq> []"
  shows "last (last (py_split c s)) = last s"
proof -
  obtain u x where s: "s = u @ [x]" using assms(1) by (meson rev_exhaust)
  then have "x \<noteq> c" using assms(2) by (auto simp: py_split_append_sep)
  then show ?thesis using s by (simp add: py_split_append_char)
qed

definition wildcard_stripped :: "string \<Rightarrow> string" where
  "wildcard_stripped s = (if starts_with s ''*.'' then drop 2 s else s)"

lemma valid_identifier_unfold:
  "is_valid_dns_identifier (JStr s) \<longleftrightarrow> s \<noteq> [] \<and> length s \<le> 253
     \<and> (let v = wildcard_stripped s; v = (if ends_with v ''.'' then butlast v else v)
        in v \<noteq> [] \<and> list_all DNS_LABEL_RE (py_split (CHR ''.'') v))"
  by (auto simp: is_valid_dns_identifier_def wildcard_stripped_def Let_def)

lemma labels_chars:
  assumes "list_all (label_match cls) (py_split sep v)" "c \<in> set v"
  shows "c = sep \<or> cls c \<or> c = NEWLINE"
  using split_chars[OF assms(2), of sep] assms(1) label_match_chars by (fastforce simp: list_all_iff)

lemma ends_with_dot: "ends_with v ''.'' \<longleftrightarrow> v \<noteq> [] \<and> last v = CHR ''.''"
  by (cases v rule: rev_cases) (auto simp: ends_with_iff)

text \<open>
  Every character of an accepted DNS identifier is a letter, a digit, a hyphen, an underscore,
  a dot or a newline, the star of one leading wildcard label apart: an accepted name carries no
  port, user, path, query, bracket, percent sign or space, and at most 253 characters.
\<close>

theorem dns_identifier_characters:
  assumes "is_valid_dns_identifier (JStr s)"
  shows "length s \<le> 253 \<and> (\<forall>c \<in> set (wildcard_stripped s). dns_char c \<or> c = CHR ''.'' \<or> c = NEWLINE)"
proof -
  let ?v = "wildcard_stripped s"
  let ?b = "if ends_with ?v ''.'' then butlast ?v else ?v"
  have len: "length s \<le> 253" and labels: "list_all (label_match dns_char) (py_split (CHR ''.'') ?b)"
    using assms by (auto simp: valid_identifier_unfold Let_def DNS_LABEL_RE_def)
  have "c \<in> set ?b \<or> c = CHR ''.''" if "c \<in> set ?v" for c
    using that by (cases ?v rule: rev_cases) (auto simp: ends_with_dot)
  then show ?thesis using len labels_chars[OF labels] by blast
qed

theorem dns_identifier_characters_witness:
  "is_valid_dns_identifier (JStr ''*.host-1.lan'')
   \<and> length ''*.host-1.lan'' \<le> 253 \<and> CHR '':'' \<notin> set (wildcard_stripped ''*.host-1.lan'')"
proof -
  have ok: "is_valid_dns_identifier (JStr ''*.host-1.lan'')" by code_simp
  have "\<not> dns_char (CHR '':'')" "CHR '':'' \<noteq> CHR ''.''" "CHR '':'' \<noteq> NEWLINE" by code_simp+
  then show ?thesis using ok dns_identifier_characters[OF ok] by blast
qed

text \<open>
  An accepted name that does not end in a dot stays accepted with a newline added at its end.
  The comment on the label pattern says that white space is excluded.
\<close>

theorem newline_identifier_accepted:
  assumes "is_valid_dns_identifier (JStr s)" "length s < 253"
    and "last s \<noteq> CHR ''.''" "last s \<noteq> NEWLINE"
  shows "is_valid_dns_identifier (JStr (s @ [NEWLINE]))"
proof -
  let ?v = "wildcard_stripped s"
  let ?ls = "py_split (CHR ''.'') ?v"
  have nl: "NEWLINE \<noteq> CHR ''.''" "NEWLINE \<noteq> CHR ''*''" by code_simp+
  have sne: "s \<noteq> []" using assms(1) by (simp add: valid_identifier_unfold)
  have "s \<noteq> WILDCARD" using assms(3) by auto
  then have vne: "?v \<noteq> []"
    using sne by (auto simp: wildcard_stripped_def starts_with_iff)
  then have lastv: "last ?v = last s"
    by (auto simp: wildcard_stripped_def starts_with_iff)
  then have labels: "list_all DNS_LABEL_RE ?ls"
    using assms(1,3) by (auto simp: valid_identifier_unfold Let_def ends_with_dot)
  have "starts_with (s @ [NEWLINE]) ''*.'' \<longleftrightarrow> starts_with s ''*.''"
    using sne nl \<open>s \<noteq> WILDCARD\<close> by (cases s; cases "tl s") (auto simp: starts_with_def)
  then have w: "wildcard_stripped (s @ [NEWLINE]) = ?v @ [NEWLINE]"
    using vne by (auto simp: wildcard_stripped_def)
  have "last ?ls \<in> set ?ls" by simp
  then have "DNS_LABEL_RE (last ?ls)" using labels by (simp add: list_all_iff)
  moreover from this have "last ?ls \<noteq> []" by (auto simp: DNS_LABEL_RE_def label_match_def Let_def)
  then have "last (last ?ls) \<noteq> NEWLINE" using last_py_split[OF vne] lastv assms(4) by simp
  ultimately have "DNS_LABEL_RE (last ?ls @ [NEWLINE])"
    by (simp add: DNS_LABEL_RE_def label_match_append_newline)
  then have "list_all DNS_LABEL_RE (py_split (CHR ''.'') (?v @ [NEWLINE]))"
    using labels nl by (auto simp: py_split_append_char list_all_iff dest: in_set_butlastD)
  then show ?thesis using w nl assms(2) by (simp add: valid_identifier_unfold Let_def ends_with_dot)
qed

theorem newline_identifier_accepted_witness:
  "is_valid_dns_identifier (JStr (''example.com'' @ [NEWLINE]))"
  by (rule newline_identifier_accepted) code_simp+

section \<open>The scope of an external account binding\<close>

lemma eab_normalize_lower: "py_lower (eab_normalize e) = eab_normalize e"
proof -
  let ?s = "py_lower (py_strip e)"
  have "set (if ends_with ?s ''.'' then butlast ?s else ?s) \<subseteq> set ?s"
    by (auto dest: in_set_butlastD)
  then show ?thesis unfolding eab_normalize_def Let_def by (rule lower_char_not_upper[OF py_lower_idem])
qed

definition clean_pattern :: "string \<Rightarrow> bool" where
  "clean_pattern p \<longleftrightarrow> p \<noteq> [] \<and> py_lower p = p \<and> \<not> ends_with p ''.''"

lemma clean_patterns_step:
  assumes "clean_patterns ip acc (e # rest) = Inr ps"
  shows "clean_patterns ip acc rest = Inr ps
    \<or> (\<exists>p. clean_pattern p \<and> clean_patterns ip (append_new acc p) rest = Inr ps)"
proof (cases e)
  case (JStr entry)
  let ?p = "eab_normalize entry"
  have eq: "clean_patterns ip acc (JStr entry # rest) =
     (if ?p = [] then clean_patterns ip acc rest
      else if ends_with ?p ''.'' \<or> (?p = ''*'' \<and> py_lower (py_strip entry) \<noteq> ''*'') then Inl ValueError
      else if ?p \<noteq> ''*'' \<and> \<not> check_domain_pattern ip ?p then Inl ValueError
      else clean_patterns ip (append_new acc ?p) rest)"
    by (simp only: clean_patterns.simps Let_def)
  have "clean_pattern ?p" if "?p \<noteq> []" "\<not> ends_with ?p ''.''"
    using that by (simp add: clean_pattern_def eab_normalize_lower)
  then show ?thesis
    using assms unfolding JStr eq by (meson Inl_Inr_False)
qed (use assms in simp_all)

lemma clean_patterns_clean:
  "clean_patterns ip acc entries = Inr ps \<Longrightarrow> distinct acc \<Longrightarrow> \<forall>p \<in> set acc. clean_pattern p
   \<Longrightarrow> distinct ps \<and> (\<forall>p \<in> set ps. clean_pattern p)"
proof (induction entries arbitrary: acc)
  case (Cons e rest)
  from clean_patterns_step[OF Cons.prems(1)] show ?case
  proof
    assume "clean_patterns ip acc rest = Inr ps"
    then show ?thesis by (rule Cons.IH[OF _ Cons.prems(2,3)])
  next
    assume "\<exists>p. clean_pattern p \<and> clean_patterns ip (append_new acc p) rest = Inr ps"
    then obtain p where p: "clean_pattern p" "clean_patterns ip (append_new acc p) rest = Inr ps" by blast
    show ?thesis by (rule Cons.IH[OF p(2)]) (use Cons.prems(2,3) p(1) in auto)
  qed
qed simp

lemma eab_normalize_clean: "clean_pattern p \<Longrightarrow> py_strip p = p \<Longrightarrow> eab_normalize p = p"
  by (simp add: clean_pattern_def eab_normalize_def)

lemma read_cleaned:
  "distinct (acc @ ps) \<Longrightarrow> \<forall>p \<in> set ps. clean_pattern p \<and> py_strip p = p
   \<Longrightarrow> read_patterns acc (map JStr ps) = acc @ ps"
proof (induction ps arbitrary: acc)
  case (Cons p ps)
  then have "read_patterns (acc @ [p]) (map JStr ps) = (acc @ [p]) @ ps" by simp
  moreover have "eab_normalize p = p" "p \<noteq> []" "p \<notin> set acc" "py_strip p = p"
    using Cons.prems by (auto simp: eab_normalize_clean clean_pattern_def)
  ultimately show ?case by simp
qed simp

text \<open>
  The patterns an administrator enters for a credential, once cleaned and stored, are read
  back unchanged, and the credential then allows a DNS name exactly when a pattern is the star,
  is the name, or is a wildcard of a domain the name lies strictly below. The hypothesis leaves
  out patterns with white space at an end, which the cleaning accepts before a final dot.
\<close>

theorem eab_scope_roundtrip:
  assumes clean: "clean_allowed_domains ip raw = Inr ps" and strip: "\<forall>p \<in> set ps. py_strip p = p"
  shows "allowed_domains (store_allowed_domains (Some ps)) = Some ps
    \<and> (allows_identifier (store_allowed_domains (Some ps))
         (JDict [(''type'', JStr ''dns''), (''value'', JStr v)])
       \<longleftrightarrow> ''*'' \<in> set ps
          \<or> eab_normalize v \<noteq> [] \<and> (\<exists>p \<in> set ps.
               (\<not> starts_with p ''*.'' \<and> p = eab_normalize v)
               \<or> (\<exists>b u. p = ''*.'' @ b \<and> b \<noteq> [] \<and> eab_normalize v = u @ ''.'' @ b)))"
proof -
  have "distinct ps \<and> (\<forall>p \<in> set ps. clean_pattern p)"
    using clean clean_patterns_clean[of ip "[]"]
    by (auto simp: clean_allowed_domains_def split: json.splits if_splits)
  then have read: "allowed_domains (store_allowed_domains (Some ps)) = Some ps"
    using read_cleaned[of "[]" ps] strip by (simp add: allowed_domains_def store_allowed_domains_def)
  have pat: "pattern_allows w p \<longleftrightarrow> (\<not> starts_with p ''*.'' \<and> p = w)
      \<or> (\<exists>b u. p = ''*.'' @ b \<and> b \<noteq> [] \<and> w = u @ ''.'' @ b)" for w p
    by (auto simp: pattern_allows_def wildcard_covers_def starts_with_iff ends_with_iff)
  show ?thesis
    by (auto simp: read allows_identifier_def json_field_def Let_def list_ex_iff pat)
qed

theorem eab_scope_roundtrip_witness:
  "allowed_domains (store_allowed_domains (Some [''*.lab.lan'', ''host.lan''])) = Some [''*.lab.lan'', ''host.lan'']"
proof -
  let ?raw = "JList [JStr '' *.Lab.lan.'', JStr ''host.lan'', JStr ''HOST.lan'']"
  have clean: "clean_allowed_domains (\<lambda>_. None) ?raw = Inr [''*.lab.lan'', ''host.lan'']" by code_simp
  have strip: "\<forall>p \<in> set [''*.lab.lan'', ''host.lan'']. py_strip p = p" by code_simp
  show ?thesis using eab_scope_roundtrip[OF clean strip, where v = "[]"] by (rule conjunct1)
qed

end
