(* ===== verification/Acme_Accounts.thy ===== *)
theory Acme_Accounts
  imports Acme_Names
begin

text \<open>
  Accounts of the ACME server and the two single-use tokens around them: replay nonces
  (\<^verbatim>\<open>services/acme/mixins/nonce.py\<close>), external account binding credentials
  (\<^verbatim>\<open>mixins/eab.py\<close>, \<open>AcmeEabCredential\<close> and the administration routes of
  \<^verbatim>\<open>api/v2/acme/eab.py\<close>), and account registration and update (\<^verbatim>\<open>mixins/account.py\<close>,
  \<^verbatim>\<open>services/acme/account_requests.py\<close>, \<open>new_account\<close> and \<open>account_info\<close> of
  \<^verbatim>\<open>api/acme/acme_api.py\<close>). The signature of the outer request has been checked.

  Parameters: the base64url and JSON decoding of a header or payload, the HMAC of the three
  algorithms, the digest of a canonical key, and the random tokens, which are arguments of the
  operations that draw them. The interface \<open>single_use\<close> states what makes a token single-use; it
  is interpreted on the nonces and on the credentials.
\<close>

section \<open>The interface of single-use tokens\<close>

text \<open>How often token \<open>k\<close> is won along a run.\<close>

fun wins :: "('op \<Rightarrow> 's \<Rightarrow> 's) \<Rightarrow> ('k \<Rightarrow> 'op \<Rightarrow> 's \<Rightarrow> bool) \<Rightarrow> 'k \<Rightarrow> 's \<Rightarrow> 'op list \<Rightarrow> nat" where
  "wins step won k s [] = 0"
| "wins step won k s (op # ops) =
     (if won k op s then 1 else 0) + wins step won k (step op s) ops"

fun all_allowed :: "('op \<Rightarrow> 's \<Rightarrow> 's) \<Rightarrow> ('op \<Rightarrow> 's \<Rightarrow> bool) \<Rightarrow> 's \<Rightarrow> 'op list \<Rightarrow> bool" where
  "all_allowed step allowed s [] = True"
| "all_allowed step allowed s (op # ops) = (allowed op s \<and> all_allowed step allowed (step op s) ops)"

locale single_use =
  fixes step :: "'op \<Rightarrow> 's \<Rightarrow> 's"
    and won :: "'k \<Rightarrow> 'op \<Rightarrow> 's \<Rightarrow> bool"
    and allowed :: "'op \<Rightarrow> 's \<Rightarrow> bool"
    and granted :: "'k \<Rightarrow> 'op \<Rightarrow> nat"
    and available :: "'k \<Rightarrow> 's \<Rightarrow> nat"
  assumes budget: "allowed op s \<Longrightarrow>
    available k (step op s) + (if won k op s then 1 else 0) \<le> available k s + granted k op"
begin

lemma wins_bounded:
  "all_allowed step allowed s ops
   \<Longrightarrow> wins step won k s ops \<le> available k s + sum_list (map (granted k) ops)"
proof (induction ops arbitrary: s)
  case (Cons op ops)
  then have "wins step won k (step op s) ops \<le> available k (step op s) + sum_list (map (granted k) ops)"
    by simp
  moreover have "available k (step op s) + (if won k op s then 1 else 0) \<le> available k s + granted k op"
    by (rule budget) (use Cons.prems in simp)
  ultimately show ?case by simp
qed simp

end

lemma count_update_rows:
  "(\<And>r. p r \<Longrightarrow> q r \<and> \<not> q (f r)) \<Longrightarrow> count_rows q (update_rows p f rows) + count_rows p rows = count_rows q rows"
  by (induction rows) (auto simp: count_rows_def update_rows_def)

lemma count_rows_filter_le: "count_rows q (filter p rows) \<le> count_rows q rows"
  by (induction rows) (auto simp: count_rows_def)

section \<open>Replay nonces\<close>

record acme_nonce =
  n_token :: string
  n_expires_at :: datetime
  n_used :: bool
  n_used_at :: "datetime option"

text \<open>The unique column makes the insertion of a token that is stored fail, and the call raise.\<close>

definition generate_nonce :: "datetime \<Rightarrow> string \<Rightarrow> acme_nonce list \<Rightarrow> acme_nonce list option" where
  "generate_nonce now token rows =
     (if \<exists>n \<in> set rows. n_token n = token then None
      else Some (rows @ [\<lparr>n_token = token, n_expires_at = now + hours 1, n_used = False, n_used_at = None\<rparr>]))"

definition nonce_open :: "datetime \<Rightarrow> string \<Rightarrow> acme_nonce \<Rightarrow> bool" where
  "nonce_open now token n \<longleftrightarrow> n_token n = token \<and> \<not> n_used n \<and> n_expires_at n > now"

definition validate_nonce :: "datetime \<Rightarrow> string \<Rightarrow> acme_nonce list \<Rightarrow> bool \<times> acme_nonce list" where
  "validate_nonce now token rows =
     (0 < count_rows (nonce_open now token) rows,
      update_rows (nonce_open now token) (\<lambda>n. n\<lparr>n_used := True, n_used_at := Some now\<rparr>) rows)"

definition cleanup_expired_nonces :: "datetime \<Rightarrow> acme_nonce list \<Rightarrow> nat \<times> acme_nonce list" where
  "cleanup_expired_nonces now rows =
     (count_rows (\<lambda>n. n_expires_at n < now) rows, filter (\<lambda>n. \<not> n_expires_at n < now) rows)"

datatype nonce_op =
    Generate_Nonce datetime string | Validate_Nonce datetime string | Cleanup_Nonces datetime

fun nonce_step :: "nonce_op \<Rightarrow> acme_nonce list \<Rightarrow> acme_nonce list" where
  "nonce_step (Generate_Nonce now t) rows = (case generate_nonce now t rows of Some r \<Rightarrow> r | None \<Rightarrow> rows)"
| "nonce_step (Validate_Nonce now t) rows = snd (validate_nonce now t rows)"
| "nonce_step (Cleanup_Nonces now) rows = snd (cleanup_expired_nonces now rows)"

fun nonce_won :: "string \<Rightarrow> nonce_op \<Rightarrow> acme_nonce list \<Rightarrow> bool" where
  "nonce_won t (Validate_Nonce now t') rows = (t' = t \<and> fst (validate_nonce now t' rows))"
| "nonce_won t _ rows = False"

fun nonce_granted :: "string \<Rightarrow> nonce_op \<Rightarrow> nat" where
  "nonce_granted t (Generate_Nonce now t') = (if t' = t then 1 else 0)"
| "nonce_granted t _ = 0"

definition nonce_unused :: "string \<Rightarrow> acme_nonce list \<Rightarrow> nat" where
  "nonce_unused t rows = count_rows (\<lambda>n. n_token n = t \<and> \<not> n_used n) rows"

lemma nonce_budget:
  "nonce_unused t (nonce_step op rows) + (if nonce_won t op rows then 1 else 0)
   \<le> nonce_unused t rows + nonce_granted t op"
proof (cases op)
  case (Generate_Nonce now t')
  then show ?thesis by (auto simp: generate_nonce_def nonce_unused_def count_rows_def)
next
  case (Validate_Nonce now t')
  show ?thesis
  proof (cases "t' = t")
    case True
    have "nonce_unused t (snd (validate_nonce now t rows)) + count_rows (nonce_open now t) rows
        = nonce_unused t rows"
      unfolding nonce_unused_def validate_nonce_def snd_conv
      by (rule count_update_rows) (auto simp: nonce_open_def)
    then show ?thesis using Validate_Nonce True by (auto simp: validate_nonce_def)
  next
    case False
    have "nonce_unused t (update_rows (nonce_open now t') f rows) = nonce_unused t rows"
      if "\<And>n. n_token (f n) = n_token n" for f
      using that False by (induction rows) (auto simp: nonce_unused_def count_rows_def update_rows_def nonce_open_def)
    then show ?thesis using Validate_Nonce False by (simp add: validate_nonce_def)
  qed
next
  case (Cleanup_Nonces now)
  then show ?thesis by (simp add: cleanup_expired_nonces_def nonce_unused_def count_rows_filter_le)
qed

interpretation nonces: single_use nonce_step nonce_won "\<lambda>_ _. True" nonce_granted nonce_unused
  by unfold_locales (rule nonce_budget)

fun nonce_tokens :: "nonce_op list \<Rightarrow> string list" where
  "nonce_tokens [] = []"
| "nonce_tokens (Generate_Nonce now t # ops) = t # nonce_tokens ops"
| "nonce_tokens (_ # ops) = nonce_tokens ops"

lemma sum_nonce_granted: "sum_list (map (nonce_granted t) ops) = count_list (nonce_tokens ops) t"
  by (induction ops rule: nonce_tokens.induct) auto

lemma all_allowed_True [simp]: "all_allowed step (\<lambda>_ _. True) s ops"
  by (induction ops arbitrary: s) auto

text \<open>A token accepted was issued before, less than an hour earlier.\<close>

definition nonce_issued :: "nonce_op list \<Rightarrow> acme_nonce list \<Rightarrow> bool" where
  "nonce_issued ops rows \<longleftrightarrow> (\<forall>n \<in> set rows. \<exists>g. Generate_Nonce g (n_token n) \<in> set ops \<and> n_expires_at n = g + hours 1)"

lemma nonce_issued_step:
  assumes "nonce_issued ops rows"
  shows "nonce_issued (ops @ [op]) (nonce_step op rows)"
proof (cases op)
  case (Generate_Nonce now t)
  then show ?thesis using assms by (auto simp: nonce_issued_def generate_nonce_def)
next
  case (Validate_Nonce now t)
  then show ?thesis
    using assms by (auto simp: nonce_issued_def validate_nonce_def set_update_rows)
next
  case (Cleanup_Nonces now)
  then show ?thesis using assms by (auto simp: nonce_issued_def cleanup_expired_nonces_def)
qed

lemma nonce_issued_run: "nonce_issued ops (fold nonce_step ops [])"
proof (induction ops rule: rev_induct)
  case (snoc op ops)
  then show ?case using nonce_issued_step by simp
qed (simp add: nonce_issued_def)

text \<open>
  In any sequence of issuing, checking and clearing of nonces that never issues a token twice,
  each token is accepted at most once, and a token accepted was issued earlier in the sequence,
  less than an hour before.
\<close>

theorem nonce_single_use:
  assumes "count_list (nonce_tokens ops) t \<le> 1"
  shows "wins nonce_step nonce_won t [] ops \<le> 1
    \<and> (\<forall>before now rest. ops = before @ Validate_Nonce now t # rest
         \<longrightarrow> fst (validate_nonce now t (fold nonce_step before []))
         \<longrightarrow> (\<exists>g. Generate_Nonce g t \<in> set before \<and> now < g + hours 1))"
proof (intro conjI allI impI)
  show "wins nonce_step nonce_won t [] ops \<le> 1"
    using nonces.wins_bounded[of "[]" ops t] assms
    by (simp add: nonce_unused_def count_rows_def sum_nonce_granted)
next
  fix before now rest
  assume "fst (validate_nonce now t (fold nonce_step before []))"
  then obtain n where "n \<in> set (fold nonce_step before [])" "nonce_open now t n"
    by (auto simp: validate_nonce_def count_rows_pos)
  then show "\<exists>g. Generate_Nonce g t \<in> set before \<and> now < g + hours 1"
    using nonce_issued_run[of before] unfolding nonce_issued_def nonce_open_def by fastforce
qed

theorem nonce_single_use_witness:
  "wins nonce_step nonce_won ''n1'' []
     [Generate_Nonce 0 ''n1'', Validate_Nonce 5 ''n1'', Cleanup_Nonces 6, Validate_Nonce 7 ''n1''] = 1"
proof -
  let ?ops = "[Generate_Nonce 0 ''n1'', Validate_Nonce 5 ''n1'', Cleanup_Nonces 6, Validate_Nonce 7 ''n1'']"
  have "count_list (nonce_tokens ?ops) ''n1'' \<le> 1" by simp
  from conjunct1[OF nonce_single_use[OF this]]
  have "wins nonce_step nonce_won ''n1'' [] ?ops \<le> 1" .
  moreover have "nonce_won ''n1'' (Validate_Nonce 5 ''n1'') (nonce_step (Generate_Nonce 0 ''n1'') [])"
    by code_simp
  ultimately show ?thesis by simp
qed

section \<open>Account requests (account\_requests.py)\<close>

datatype account_problem =
    Not_An_Object | Contact_Not_List | Contact_Not_String | Unsupported_Contact | Malformed_Contact
  | Not_Boolean

fun count_char :: "char \<Rightarrow> string \<Rightarrow> nat" where
  "count_char c s = length (filter (\<lambda>x. x = c) s)"

definition mailto_problem :: "string \<Rightarrow> account_problem option" where
  "mailto_problem contact_uri =
     (let scheme = before_sep (CHR '':'') contact_uri; target = after_sep (CHR '':'') contact_uri
      in if CHR '':'' \<notin> set contact_uri \<or> py_lower scheme \<noteq> ''mailto'' then Some Unsupported_Contact
         else let address = before_sep (CHR ''?'') target
              in if address = [] \<or> count_char (CHR ''@'') address \<noteq> 1 \<or> list_ex is_space address
                 then Some Malformed_Contact
                 else let local_part = before_sep (CHR ''@'') address; domain = after_sep (CHR ''@'') address
                      in if local_part = [] \<or> domain = [] \<or> starts_with domain ''.''
                            \<or> ends_with domain ''.'' \<or> substring ''..'' domain
                         then Some Malformed_Contact else None)"

fun contact_problem :: "json list \<Rightarrow> account_problem option" where
  "contact_problem [] = None"
| "contact_problem (JStr uri # rest) =
     (case mailto_problem uri of Some p \<Rightarrow> Some p | None \<Rightarrow> contact_problem rest)"
| "contact_problem (_ # rest) = Some Contact_Not_String"

definition validate_contact_uris :: "json \<Rightarrow> account_problem option" where
  "validate_contact_uris contact =
     (case contact of JList uris \<Rightarrow> contact_problem uris | _ \<Rightarrow> Some Contact_Not_List)"

definition contact_of :: "json \<Rightarrow> account_problem + json list" where
  "contact_of payload =
     (case json_field ''contact'' payload of
        JNull \<Rightarrow> Inr []
      | c \<Rightarrow> (case validate_contact_uris c of
                Some p \<Rightarrow> Inl p
              | None \<Rightarrow> (case c of JList uris \<Rightarrow> Inr uris | _ \<Rightarrow> Inl Contact_Not_List)))"

definition boolean_of :: "json \<Rightarrow> string \<Rightarrow> account_problem + bool" where
  "boolean_of payload field =
     (case json_field field payload of
        JNull \<Rightarrow> Inr False | JBool b \<Rightarrow> Inr b | _ \<Rightarrow> Inl Not_Boolean)"

record account_fields =
  f_contact :: "json list"
  f_terms_of_service_agreed :: bool
  f_only_return_existing :: bool
  f_external_account_binding :: json

definition parse_new_account :: "json \<Rightarrow> account_problem + account_fields" where
  "parse_new_account payload =
     (case payload of
        JDict kvs \<Rightarrow>
          sum_bind (contact_of payload) (\<lambda>contact.
          sum_bind (boolean_of payload ''termsOfServiceAgreed'') (\<lambda>terms.
          sum_bind (boolean_of payload ''onlyReturnExisting'') (\<lambda>only.
            Inr \<lparr>f_contact = contact, f_terms_of_service_agreed = terms, f_only_return_existing = only,
                 f_external_account_binding = json_field ''externalAccountBinding'' payload\<rparr>)))
      | _ \<Rightarrow> Inl Not_An_Object)"

section \<open>Account rows\<close>

datatype account_status = Account_Valid | Account_Deactivated | Account_Revoked

record acme_account =
  aa_account_id :: string
  aa_jwk_thumbprint :: string
  aa_contact :: "json list"
  aa_status :: account_status
  aa_terms_of_service_agreed :: bool

text \<open>\<open>create_account\<close> answers the stored account of the key, or stores a new one; the unique columns
  make the commit raise on a drawn id that is taken.\<close>

definition account_of_key :: "string \<Rightarrow> acme_account list \<Rightarrow> acme_account option" where
  "account_of_key thumb accounts = first_row (\<lambda>a. aa_jwk_thumbprint a = thumb) accounts"

definition create_account ::
  "string \<Rightarrow> string \<Rightarrow> json list \<Rightarrow> bool \<Rightarrow> acme_account list
   \<Rightarrow> (acme_account \<times> bool \<times> acme_account list) option" where
  "create_account new_id thumb contact terms accounts =
     (case account_of_key thumb accounts of
        Some a \<Rightarrow> Some (a, False, accounts)
      | None \<Rightarrow>
          if \<exists>a \<in> set accounts. aa_account_id a = new_id then None
          else let a = \<lparr>aa_account_id = new_id, aa_jwk_thumbprint = thumb, aa_contact = contact,
                        aa_status = Account_Valid, aa_terms_of_service_agreed = terms\<rparr>
               in Some (a, True, accounts @ [a]))"

definition get_account_by_kid :: "string \<Rightarrow> acme_account list \<Rightarrow> acme_account option" where
  "get_account_by_kid account_id accounts = first_row (\<lambda>a. aa_account_id a = account_id) accounts"

definition deactivate_account :: "string \<Rightarrow> acme_account list \<Rightarrow> bool \<times> acme_account list" where
  "deactivate_account account_id accounts =
     (case get_account_by_kid account_id accounts of
        None \<Rightarrow> (False, accounts)
      | Some _ \<Rightarrow> (True, update_rows (\<lambda>a. aa_account_id a = account_id)
                          (\<lambda>a. a\<lparr>aa_status := Account_Deactivated\<rparr>) accounts))"

text \<open>An update of an account: an empty payload changes nothing; otherwise a contact and a
  deactivation are applied, and any other status is ignored.\<close>

definition apply_account_update ::
  "json \<Rightarrow> acme_account \<Rightarrow> account_problem + (bool \<times> acme_account)" where
  "apply_account_update payload a =
     (case payload of
        JNull \<Rightarrow> Inr (False, a)
      | JDict [] \<Rightarrow> Inr (False, a)
      | JDict kvs \<Rightarrow>
          let deactivate = (json_field ''status'' payload = JStr ''deactivated'');
              a' = (if deactivate then a\<lparr>aa_status := Account_Deactivated\<rparr> else a)
          in if map_of kvs ''contact'' = None then Inr (deactivate, a')
             else sum_bind (contact_of payload) (\<lambda>contact. Inr (True, a'\<lparr>aa_contact := contact\<rparr>))
      | _ \<Rightarrow> Inl Not_An_Object)"

section \<open>Keys and external account bindings\<close>

definition REQUIRED_MEMBERS :: "string \<Rightarrow> string list option" where
  "REQUIRED_MEMBERS kty =
     (if kty = ''RSA'' then Some [''e'', ''kty'', ''n'']
      else if kty = ''EC'' then Some [''crv'', ''kty'', ''x'', ''y'']
      else if kty = ''OKP'' then Some [''crv'', ''kty'', ''x''] else None)"

fun take_members :: "string list \<Rightarrow> (string \<times> json) list \<Rightarrow> (string \<times> json) list option" where
  "take_members [] kvs = Some []"
| "take_members (m # ms) kvs =
     (case (map_of kvs m, take_members ms kvs) of (Some v, Some r) \<Rightarrow> Some ((m, v) # r) | _ \<Rightarrow> None)"

text \<open>The digest stands for the canonical dump, SHA-256 and base64url; a key type that cannot be
  looked up (a list or an object) raises, which callers treat as any other failure.\<close>

definition jwk_thumbprint :: "((string \<times> json) list \<Rightarrow> string) \<Rightarrow> json \<Rightarrow> py_error + string" where
  "jwk_thumbprint digest jwk =
     (case jwk of
        JDict kvs \<Rightarrow>
          (case json_field ''kty'' jwk of
             JStr kty \<Rightarrow>
               (case REQUIRED_MEMBERS kty of
                  None \<Rightarrow> Inl ValueError
                | Some members \<Rightarrow>
                    (case take_members members kvs of
                       None \<Rightarrow> Inl ValueError
                     | Some required \<Rightarrow> Inr (digest required)))
           | j \<Rightarrow> if json_hashable j then Inl ValueError else Inl TypeError)
      | _ \<Rightarrow> Inl ValueError)"

datatype eab_status = Eab_Active | Eab_Used | Eab_Revoked

record eab_credential =
  ec_id :: int
  ec_kid :: string
  ec_hmac_key :: "string option"
  ec_expires_at :: "datetime option"
  ec_used_at :: "datetime option"
  ec_used_by_account_id :: "string option"
  ec_status :: eab_status
  ec_allowed_domains :: json_text

definition is_usable :: "datetime \<Rightarrow> eab_credential \<Rightarrow> bool" where
  "is_usable now c =
     (if ec_status c \<noteq> Eab_Active then False
      else (case ec_expires_at c of Some e \<Rightarrow> \<not> e < now | None \<Rightarrow> True))"

datatype eab_problem =
    Eab_Missing_Fields | Eab_Url_Mismatch | Eab_Bad_Algorithm | Eab_Missing_Kid | Eab_Unknown
  | Eab_Not_Usable | Eab_Payload_Not_Json | Eab_Key_Mismatch | Eab_Jwk_Invalid | Eab_Bad_Signature
  | Eab_Exception

record eab_crypto =
  b64_json :: "string \<Rightarrow> json option"
  key_digest :: "(string \<times> json) list \<Rightarrow> string"
  hmac_signature :: "string \<Rightarrow> string \<Rightarrow> string \<Rightarrow> string"

text \<open>The last checks: the payload is the account's key, and the signature is the HMAC of header
  and payload under the credential's key.\<close>

definition eab_signed ::
  "eab_crypto \<Rightarrow> string \<Rightarrow> string \<Rightarrow> string \<Rightarrow> string \<Rightarrow> json \<Rightarrow> json \<Rightarrow> eab_problem option" where
  "eab_signed cr alg hmac_key protected_b64 payload_b64 signature account_jwk =
     (case b64_json cr payload_b64 of
        None \<Rightarrow> Some Eab_Payload_Not_Json
      | Some payload_jwk \<Rightarrow>
          (case (jwk_thumbprint (key_digest cr) payload_jwk, jwk_thumbprint (key_digest cr) account_jwk) of
             (Inr t, Inr t') \<Rightarrow>
               if t \<noteq> t' then Some Eab_Key_Mismatch
               else (case signature of
                       JStr actual \<Rightarrow>
                         if actual = hmac_signature cr alg hmac_key (protected_b64 @ ''.'' @ payload_b64)
                         then None else Some Eab_Bad_Signature
                     | _ \<Rightarrow> Some Eab_Exception)
           | (Inl ValueError, _) \<Rightarrow> Some Eab_Jwk_Invalid
           | (Inr _, Inl ValueError) \<Rightarrow> Some Eab_Jwk_Invalid
           | _ \<Rightarrow> Some Eab_Exception))"

definition eab_credential_check ::
  "eab_crypto \<Rightarrow> datetime \<Rightarrow> eab_credential list \<Rightarrow> json \<Rightarrow> string \<Rightarrow> string \<Rightarrow> json \<Rightarrow> json
   \<Rightarrow> eab_problem + string" where
  "eab_credential_check cr now creds protected protected_b64 payload_b64 signature account_jwk =
     (case json_field ''alg'' protected of
        JStr alg \<Rightarrow>
          if alg \<notin> {''HS256'', ''HS384'', ''HS512''} then Inl Eab_Bad_Algorithm
          else (case json_field ''kid'' protected of
                  JStr kid \<Rightarrow>
                    if kid = [] then Inl Eab_Missing_Kid
                    else (case first_row (\<lambda>c. ec_kid c = kid) creds of
                            None \<Rightarrow> Inl Eab_Unknown
                          | Some c \<Rightarrow>
                              if \<not> is_usable now c then Inl Eab_Not_Usable
                              else (case ec_hmac_key c of
                                      None \<Rightarrow> Inl Eab_Unknown
                                    | Some k \<Rightarrow>
                                        if k = [] then Inl Eab_Unknown else
                                        (case eab_signed cr alg k protected_b64 payload_b64 signature account_jwk of
                                           Some p \<Rightarrow> Inl p | None \<Rightarrow> Inr kid)))
                | j \<Rightarrow> if json_truthy j then Inl Eab_Exception else Inl Eab_Missing_Kid)
      | _ \<Rightarrow> Inl Eab_Bad_Algorithm)"

definition validate_eab ::
  "eab_crypto \<Rightarrow> datetime \<Rightarrow> eab_credential list \<Rightarrow> json \<Rightarrow> json \<Rightarrow> json \<Rightarrow> eab_problem + string" where
  "validate_eab cr now creds eab_data account_jwk new_account_url =
     (case eab_data of
        JDict kvs \<Rightarrow>
          (case (map_of kvs ''protected'', map_of kvs ''payload'', map_of kvs ''signature'') of
             (Some (JStr protected_b64), Some (JStr payload_b64), Some signature) \<Rightarrow>
               (case b64_json cr protected_b64 of
                  Some (JDict hs) \<Rightarrow>
                    let protected = JDict hs
                    in if new_account_url \<noteq> JNull \<and> json_field ''url'' protected \<noteq> new_account_url
                       then Inl Eab_Url_Mismatch
                       else eab_credential_check cr now creds protected protected_b64 payload_b64
                              signature account_jwk
                | _ \<Rightarrow> Inl Eab_Exception)
           | (Some _, Some _, Some _) \<Rightarrow> Inl Eab_Exception
           | _ \<Rightarrow> Inl Eab_Missing_Fields)
      | _ \<Rightarrow> Inl Eab_Missing_Fields)"

text \<open>The atomic update that consumes a credential; the account that holds it already is told so.\<close>

definition eab_open :: "datetime \<Rightarrow> string \<Rightarrow> eab_credential \<Rightarrow> bool" where
  "eab_open now kid c \<longleftrightarrow> ec_kid c = kid \<and> ec_status c = Eab_Active \<and> ec_used_by_account_id c = None
     \<and> (case ec_expires_at c of None \<Rightarrow> True | Some e \<Rightarrow> e > now)"

definition mark_eab_used ::
  "datetime \<Rightarrow> string \<Rightarrow> string \<Rightarrow> eab_credential list \<Rightarrow> bool \<times> eab_credential list" where
  "mark_eab_used now kid account_id creds =
     (if count_rows (eab_open now kid) creds = 0
      then ((case first_row (\<lambda>c. ec_kid c = kid) creds of
               Some c \<Rightarrow> ec_status c = Eab_Used \<and> ec_used_by_account_id c = Some account_id
             | None \<Rightarrow> False), creds)
      else (True, update_rows (eab_open now kid)
                    (\<lambda>c. c\<lparr>ec_status := Eab_Used, ec_used_at := Some now,
                          ec_used_by_account_id := Some account_id\<rparr>) creds))"

text \<open>The most recently consumed credential of an account: latest time, none last, then the
  highest id.\<close>

definition used_later :: "eab_credential \<Rightarrow> eab_credential \<Rightarrow> bool" where
  "used_later c d =
     (case (ec_used_at c, ec_used_at d) of
        (Some u, Some v) \<Rightarrow> v < u \<or> (u = v \<and> ec_id d < ec_id c)
      | (Some _, None) \<Rightarrow> True
      | (None, Some _) \<Rightarrow> False
      | (None, None) \<Rightarrow> ec_id d < ec_id c)"

fun latest_used :: "eab_credential option \<Rightarrow> eab_credential list \<Rightarrow> eab_credential option" where
  "latest_used best [] = best"
| "latest_used None (c # cs) = latest_used (Some c) cs"
| "latest_used (Some b) (c # cs) = latest_used (Some (if used_later c b then c else b)) cs"

definition get_bound_eab_credential :: "string \<Rightarrow> eab_credential list \<Rightarrow> eab_credential option" where
  "get_bound_eab_credential account_id creds =
     (if account_id = [] then None
      else latest_used None (filter (\<lambda>c. ec_used_by_account_id c = Some account_id) creds))"

section \<open>Administration of credentials (api/v2/acme/eab.py)\<close>

definition create_eab_credential ::
  "(json \<Rightarrow> string option) \<Rightarrow> datetime \<Rightarrow> int \<Rightarrow> string \<Rightarrow> string \<Rightarrow> json \<Rightarrow> int option
   \<Rightarrow> eab_credential list \<Rightarrow> nat \<times> eab_credential list" where
  "create_eab_credential ip now new_id kid hmac raw_domains expires_in_days creds =
     (case (if raw_domains = JNull then Inr [''*''] else clean_allowed_domains ip raw_domains) of
        Inl _ \<Rightarrow> (400, creds)
      | Inr domains \<Rightarrow>
          if \<exists>c \<in> set creds. ec_kid c = kid \<or> ec_id c = new_id then (500, creds)
          else (201, creds @ [\<lparr>ec_id = new_id, ec_kid = kid, ec_hmac_key = Some hmac,
                  ec_expires_at = (case expires_in_days of
                                     Some d \<Rightarrow> if d > 0 then Some (now + days d) else None
                                   | None \<Rightarrow> None),
                  ec_used_at = None, ec_used_by_account_id = None, ec_status = Eab_Active,
                  ec_allowed_domains = store_allowed_domains (Some domains)\<rparr>]))"

definition patch_eab_credential ::
  "(json \<Rightarrow> string option) \<Rightarrow> int \<Rightarrow> json option \<Rightarrow> eab_credential list \<Rightarrow> nat \<times> eab_credential list" where
  "patch_eab_credential ip cred_id allowed creds =
     (if first_row (\<lambda>c. ec_id c = cred_id) creds = None then (404, creds)
      else (case allowed of
              None \<Rightarrow> (200, creds)
            | Some JNull \<Rightarrow> (400, creds)
            | Some raw \<Rightarrow>
                (case clean_allowed_domains ip raw of
                   Inl _ \<Rightarrow> (400, creds)
                 | Inr domains \<Rightarrow>
                     (200, update_rows (\<lambda>c. ec_id c = cred_id)
                             (\<lambda>c. c\<lparr>ec_allowed_domains := store_allowed_domains (Some domains)\<rparr>) creds))))"

definition revoke_eab_credential :: "int \<Rightarrow> eab_credential list \<Rightarrow> nat \<times> eab_credential list" where
  "revoke_eab_credential cred_id creds =
     (case first_row (\<lambda>c. ec_id c = cred_id) creds of
        None \<Rightarrow> (404, creds)
      | Some c \<Rightarrow>
          if ec_status c \<in> {Eab_Revoked, Eab_Used} then (204, filter (\<lambda>c. ec_id c \<noteq> cred_id) creds)
          else (200, update_rows (\<lambda>c. ec_id c = cred_id) (\<lambda>c. c\<lparr>ec_status := Eab_Revoked\<rparr>) creds))"

section \<open>Registration (new\_account)\<close>

record acme_registry =
  rg_accounts :: "acme_account list"
  rg_credentials :: "eab_credential list"

text \<open>\<open>consume_eab\<close>: the account just created keeps the credential, or is removed again.\<close>

definition consume_eab :: "datetime \<Rightarrow> string \<Rightarrow> acme_account \<Rightarrow> acme_registry \<Rightarrow> bool \<times> acme_registry" where
  "consume_eab now kid account rg =
     (case mark_eab_used now kid (aa_account_id account) (rg_credentials rg) of
        (True, creds) \<Rightarrow>
          if kid \<noteq> [] then (True, rg\<lparr>rg_credentials := creds\<rparr>)
          else (False, rg\<lparr>rg_accounts := filter (\<lambda>a. aa_account_id a \<noteq> aa_account_id account) (rg_accounts rg)\<rparr>)
      | (False, _) \<Rightarrow>
          (False, rg\<lparr>rg_accounts := filter (\<lambda>a. aa_account_id a \<noteq> aa_account_id account) (rg_accounts rg)\<rparr>))"

text \<open>The part of the route that changes the tables, after validation: the account is created and
  the credential, when one was presented, consumed.\<close>

definition register ::
  "datetime \<Rightarrow> string \<Rightarrow> string \<Rightarrow> json list \<Rightarrow> bool \<Rightarrow> string option \<Rightarrow> acme_registry \<Rightarrow> nat \<times> acme_registry" where
  "register now new_id thumb contact terms eab_kid rg =
     (case create_account new_id thumb contact terms (rg_accounts rg) of
        None \<Rightarrow> (500, rg)
      | Some (account, is_new, accounts) \<Rightarrow>
          let rg' = rg\<lparr>rg_accounts := accounts\<rparr>
          in if \<not> is_new then ((if aa_status account \<noteq> Account_Valid then 401 else 200), rg')
             else (case eab_kid of
                     None \<Rightarrow> (201, rg')
                   | Some kid \<Rightarrow>
                       (case consume_eab now kid account rg' of
                          (True, rg'') \<Rightarrow> (201, rg'') | (False, rg'') \<Rightarrow> (400, rg''))))"

definition new_account ::
  "eab_crypto \<Rightarrow> datetime \<Rightarrow> string option \<Rightarrow> string \<Rightarrow> json \<Rightarrow> json \<Rightarrow> json \<Rightarrow> acme_registry
   \<Rightarrow> nat \<times> acme_registry" where
  "new_account cr now eab_required_setting new_id jwk url payload rg =
     (if \<not> json_truthy jwk then (400, rg)
      else case parse_new_account payload of
        Inl _ \<Rightarrow> (400, rg)
      | Inr fs \<Rightarrow>
          (case jwk_thumbprint (key_digest cr) jwk of
             Inl _ \<Rightarrow> (500, rg)
           | Inr thumb \<Rightarrow>
               (case account_of_key thumb (rg_accounts rg) of
                  Some existing \<Rightarrow>
                    ((if aa_status existing \<noteq> Account_Valid then 401 else 200), rg)
                | None \<Rightarrow>
                    if f_only_return_existing fs then (400, rg)
                    else let eab_data = f_external_account_binding fs;
                             eab_required = (py_lower (case eab_required_setting of Some v \<Rightarrow> v | None \<Rightarrow> ''false'') = ''true'')
                         in if eab_required \<and> \<not> json_truthy eab_data then (400, rg)
                            else if json_truthy eab_data
                            then (case validate_eab cr now (rg_credentials rg) eab_data jwk url of
                                    Inl _ \<Rightarrow> (400, rg)
                                  | Inr kid \<Rightarrow> register now new_id thumb (f_contact fs)
                                                (f_terms_of_service_agreed fs) (Some kid) rg)
                            else register now new_id thumb (f_contact fs)
                                   (f_terms_of_service_agreed fs) None rg)))"

text \<open>The order route's check of the account's scope: the identifiers it refuses.\<close>

definition eab_refused :: "string \<Rightarrow> json list \<Rightarrow> eab_credential list \<Rightarrow> json list" where
  "eab_refused account_id identifiers creds =
     (case get_bound_eab_credential account_id creds of
        None \<Rightarrow> []
      | Some c \<Rightarrow> filter (\<lambda>i. \<not> allows_identifier (ec_allowed_domains c) i) identifiers)"

section \<open>A credential registers one account\<close>

datatype registry_op =
    Register datetime string string "json list" bool "string option"
  | Create_Eab datetime int string string json "int option"
  | Patch_Eab int "json option"
  | Revoke_Eab int
  | Deactivate string
  | Update_Account string json

fun registry_step :: "(json \<Rightarrow> string option) \<Rightarrow> registry_op \<Rightarrow> acme_registry \<Rightarrow> acme_registry" where
  "registry_step ip (Register now i t c b k) rg = snd (register now i t c b k rg)"
| "registry_step ip (Create_Eab now i kid h d e) rg =
     rg\<lparr>rg_credentials := snd (create_eab_credential ip now i kid h d e (rg_credentials rg))\<rparr>"
| "registry_step ip (Patch_Eab i d) rg =
     rg\<lparr>rg_credentials := snd (patch_eab_credential ip i d (rg_credentials rg))\<rparr>"
| "registry_step ip (Revoke_Eab i) rg =
     rg\<lparr>rg_credentials := snd (revoke_eab_credential i (rg_credentials rg))\<rparr>"
| "registry_step ip (Deactivate i) rg =
     rg\<lparr>rg_accounts := snd (deactivate_account i (rg_accounts rg))\<rparr>"
| "registry_step ip (Update_Account i payload) rg =
     rg\<lparr>rg_accounts := map (\<lambda>a. if aa_account_id a = i
                                then (case apply_account_update payload a of Inr (_, a') \<Rightarrow> a' | Inl _ \<Rightarrow> a)
                                else a) (rg_accounts rg)\<rparr>"

text \<open>A registration wins the credential when it creates an account with it. The id drawn for an
  account is one that no credential names.\<close>

fun eab_won :: "string \<Rightarrow> registry_op \<Rightarrow> acme_registry \<Rightarrow> bool" where
  "eab_won kid (Register now i t c b k) rg = (k = Some kid \<and> fst (register now i t c b k rg) = 201)"
| "eab_won kid _ rg = False"

fun fresh_account_id :: "registry_op \<Rightarrow> acme_registry \<Rightarrow> bool" where
  "fresh_account_id (Register now i t c b k) rg
     = (\<forall>c \<in> set (rg_credentials rg). ec_used_by_account_id c \<noteq> Some i)"
| "fresh_account_id _ rg = True"

fun eab_granted :: "string \<Rightarrow> registry_op \<Rightarrow> nat" where
  "eab_granted kid (Create_Eab now i kid' h d e) = (if kid' = kid then 1 else 0)"
| "eab_granted kid _ = 0"

definition eab_active :: "string \<Rightarrow> acme_registry \<Rightarrow> nat" where
  "eab_active kid rg = count_rows (\<lambda>c. ec_kid c = kid \<and> ec_status c = Eab_Active) (rg_credentials rg)"

lemma count_rows_map_le:
  "(\<And>r. q (f r) \<Longrightarrow> q r) \<Longrightarrow> count_rows q (map f rows) \<le> count_rows q rows"
  by (induction rows) (auto simp: count_rows_def)

lemma count_rows_update_le:
  "(\<And>r. q (f r) \<Longrightarrow> q r) \<Longrightarrow> count_rows q (update_rows p f rows) \<le> count_rows q rows"
  unfolding update_rows_def by (rule count_rows_map_le) (auto split: if_splits)

lemma mark_eab_used_cases:
  assumes "\<forall>c \<in> set creds. ec_used_by_account_id c \<noteq> Some i"
  shows "let (ok, creds') = mark_eab_used now kid i creds
         in count_rows (\<lambda>c. ec_kid c = k \<and> ec_status c = Eab_Active) creds'
              + (if ok \<and> k = kid then 1 else 0)
            \<le> count_rows (\<lambda>c. ec_kid c = k \<and> ec_status c = Eab_Active) creds"
proof (cases "count_rows (eab_open now kid) creds = 0")
  case True
  have "\<not> (ec_status c = Eab_Used \<and> ec_used_by_account_id c = Some i)"
    if "first_row (\<lambda>c. ec_kid c = kid) creds = Some c" for c
    using first_row_SomeD[OF that] assms by auto
  then show ?thesis using True by (auto simp: mark_eab_used_def split: option.splits)
next
  case False
  let ?f = "\<lambda>c. c\<lparr>ec_status := Eab_Used, ec_used_at := Some now, ec_used_by_account_id := Some i\<rparr>"
  let ?q = "\<lambda>c. ec_kid c = k \<and> ec_status c = Eab_Active"
  have le: "count_rows ?q (update_rows (eab_open now kid) ?f creds) \<le> count_rows ?q creds"
    by (rule count_rows_update_le) simp
  have "count_rows ?q (update_rows (eab_open now kid) ?f creds) + count_rows (eab_open now kid) creds
        = count_rows ?q creds" if "k = kid"
    by (rule count_update_rows) (auto simp: eab_open_def that)
  then show ?thesis using False le by (auto simp: mark_eab_used_def)
qed

lemma register_budget:
  assumes "\<forall>c \<in> set (rg_credentials rg). ec_used_by_account_id c \<noteq> Some i"
  shows "eab_active kid (snd (register now i t c b k rg))
           + (if k = Some kid \<and> fst (register now i t c b k rg) = 201 then 1 else 0)
         \<le> eab_active kid rg"
proof -
  have created: "aa_account_id a = i" if "create_account i t c b accs = Some (a, True, accs')" for a accs accs'
    using that by (auto simp: create_account_def Let_def split: option.splits if_splits)
  show ?thesis
  proof (cases "create_account i t c b (rg_accounts rg)")
    case (Some r)
    obtain a n accs where r: "r = (a, n, accs)" by (metis prod_cases3)
    show ?thesis
    proof (cases "n \<and> k \<noteq> None")
      case False
      then show ?thesis using Some r by (auto simp: register_def eab_active_def Let_def)
    next
      case True
      then obtain kd where k: "k = Some kd" and n: n by blast
      have "aa_account_id a = i" using created[of "rg_accounts rg" a accs] Some r n by simp
      then show ?thesis
        using mark_eab_used_cases[OF assms, where k = kid and now = now and kid = kd] Some r n k
        by (auto simp: register_def consume_eab_def eab_active_def Let_def split: prod.splits bool.splits)
    qed
  qed (simp add: register_def)
qed

lemma eab_budget:
  assumes "fresh_account_id op rg"
  shows "eab_active kid (registry_step ip op rg) + (if eab_won kid op rg then 1 else 0)
    \<le> eab_active kid rg + eab_granted kid op"
proof (cases op)
  case (Register now i t c b k)
  then show ?thesis using register_budget[where rg = rg and i = i and kid = kid and now = now and t = t and c = c and b = b and k = k] assms by simp
next
  case (Create_Eab now i kd h d e)
  then show ?thesis
    by (auto simp: eab_active_def create_eab_credential_def count_rows_def split: sum.splits)
next
  case (Patch_Eab i d)
  have "count_rows (\<lambda>c. ec_kid c = kid \<and> ec_status c = Eab_Active)
          (update_rows p (\<lambda>c. c\<lparr>ec_allowed_domains := x\<rparr>) creds)
        \<le> count_rows (\<lambda>c. ec_kid c = kid \<and> ec_status c = Eab_Active) creds" for p x creds
    by (rule count_rows_update_le) simp
  then show ?thesis
    using Patch_Eab by (auto simp: eab_active_def patch_eab_credential_def split: option.split json.split sum.split)
next
  case (Revoke_Eab i)
  have "count_rows (\<lambda>c. ec_kid c = kid \<and> ec_status c = Eab_Active)
          (update_rows p (\<lambda>c. c\<lparr>ec_status := Eab_Revoked\<rparr>) creds)
        \<le> count_rows (\<lambda>c. ec_kid c = kid \<and> ec_status c = Eab_Active) creds" for p creds
    by (rule count_rows_update_le) simp
  then show ?thesis
    using Revoke_Eab by (auto simp: eab_active_def revoke_eab_credential_def count_rows_filter_le split: option.split)
qed (simp_all add: eab_active_def)

interpretation credentials: single_use "registry_step ip" eab_won fresh_account_id eab_granted eab_active
  by unfold_locales (rule eab_budget)

text \<open>
  Whatever registrations, administration of credentials and account updates happen, and in
  whatever order, at most one account is ever created with a given external account binding
  credential. Registrations whose credential was validated before another one consumed it are
  included. The ids drawn for accounts are ones no credential names, and the credential is created
  once.
\<close>

theorem eab_registers_one_account:
  assumes "all_allowed (registry_step ip) fresh_account_id rg ops"
    and "rg_credentials rg = []" "sum_list (map (eab_granted kid) ops) \<le> 1"
  shows "wins (registry_step ip) eab_won kid rg ops \<le> 1"
  using credentials.wins_bounded[OF assms(1), of kid] assms(2,3)
  by (simp add: eab_active_def count_rows_def)

definition eab_race :: "registry_op list" where
  "eab_race = [Create_Eab 0 1 ''k1'' ''secret'' JNull None,
     Register 5 ''acct-a'' ''key-a'' [] True (Some ''k1''),
     Register 6 ''acct-b'' ''key-b'' [] True (Some ''k1'')]"

theorem eab_registers_one_account_witness:
  "wins (registry_step (\<lambda>_. None)) eab_won ''k1'' \<lparr>rg_accounts = [], rg_credentials = []\<rparr> eab_race = 1"
proof -
  let ?ip = "\<lambda>_. None" and ?rg = "\<lparr>rg_accounts = [], rg_credentials = []\<rparr>"
  have "all_allowed (registry_step ?ip) fresh_account_id ?rg eab_race" by code_simp
  moreover have "sum_list (map (eab_granted ''k1'') eab_race) \<le> 1" by code_simp
  ultimately have "wins (registry_step ?ip) eab_won ''k1'' ?rg eab_race \<le> 1"
    by (intro eab_registers_one_account) simp_all
  moreover have "eab_won ''k1'' (eab_race ! 1) (registry_step ?ip (eab_race ! 0) ?rg)" by code_simp
  ultimately show ?thesis by (simp add: eab_race_def)
qed

text \<open>
  Deleting a used credential lifts the domain scope of the account that registered with it:
  when no other credential is bound to the account, the order route refuses no identifier any more.
\<close>

theorem deleting_credential_lifts_scope:
  assumes "c \<in> set creds" "ec_status c = Eab_Used" "ec_used_by_account_id c = Some account"
    and "\<forall>d \<in> set creds. ec_used_by_account_id d = Some account \<longrightarrow> d = c"
    and "distinct (map ec_id creds)"
  shows "fst (revoke_eab_credential (ec_id c) creds) = 204
    \<and> eab_refused account identifiers (snd (revoke_eab_credential (ec_id c) creds)) = []"
proof -
  have "first_row (\<lambda>d. ec_id d = ec_id c) creds \<noteq> None" using assms(1) by (auto simp: first_row_None_iff)
  then obtain d where d: "first_row (\<lambda>d. ec_id d = ec_id c) creds = Some d" by blast
  then have "d = c" using first_row_SomeD[OF d] assms(1,5) by (metis distinct_map inj_onD)
  then have del: "revoke_eab_credential (ec_id c) creds = (204, filter (\<lambda>d. ec_id d \<noteq> ec_id c) creds)"
    using d assms(2) by (simp add: revoke_eab_credential_def)
  have "filter (\<lambda>d. ec_used_by_account_id d = Some account) (filter (\<lambda>d. ec_id d \<noteq> ec_id c) creds) = []"
    using assms(4) by (auto simp: filter_empty_conv)
  then have "get_bound_eab_credential account (filter (\<lambda>d. ec_id d \<noteq> ec_id c) creds) = None"
    unfolding get_bound_eab_credential_def by simp
  then show ?thesis by (simp add: del eab_refused_def)
qed

definition bound_credential :: eab_credential where
  "bound_credential = \<lparr>ec_id = 1, ec_kid = ''k1'', ec_hmac_key = Some ''secret'', ec_expires_at = None,
     ec_used_at = Some 5, ec_used_by_account_id = Some ''acct-a'', ec_status = Eab_Used,
     ec_allowed_domains = Json_Text (JList [JStr ''*.lab.lan''])\<rparr>"

theorem deleting_credential_lifts_scope_witness:
  "eab_refused ''acct-a'' [JDict [(''type'', JStr ''dns''), (''value'', JStr ''bank.example'')]] [bound_credential]
     = [JDict [(''type'', JStr ''dns''), (''value'', JStr ''bank.example'')]]
   \<and> eab_refused ''acct-a'' [JDict [(''type'', JStr ''dns''), (''value'', JStr ''bank.example'')]]
       (snd (revoke_eab_credential 1 [bound_credential])) = []"
proof
  show "eab_refused ''acct-a'' [JDict [(''type'', JStr ''dns''), (''value'', JStr ''bank.example'')]] [bound_credential]
     = [JDict [(''type'', JStr ''dns''), (''value'', JStr ''bank.example'')]]" by code_simp
  show "eab_refused ''acct-a'' [JDict [(''type'', JStr ''dns''), (''value'', JStr ''bank.example'')]]
       (snd (revoke_eab_credential 1 [bound_credential])) = []"
    using deleting_credential_lifts_scope[where c = bound_credential and creds = "[bound_credential]"
        and account = "''acct-a''"]
    by (simp add: bound_credential_def)
qed

end
