(* ===== verification/Acme_Orders.thy ===== *)
theory Acme_Orders
  imports Acme_Accounts
begin

text \<open>
  Orders, authorizations and challenges of the ACME server: \<^verbatim>\<open>services/acme/mixins/order.py\<close>,
  the state changes of \<^verbatim>\<open>mixins/challenge.py\<close> (\<open>_update_authorization_status\<close>,
  \<open>_invalidate_challenge\<close>), those of \<open>finalize_order\<close> in \<^verbatim>\<open>mixins/issuance.py\<close>, and the routes of
  \<^verbatim>\<open>api/acme/acme_api.py\<close> that call them.

  Order, authorization and challenge ids and the challenge tokens, random strings in the code, are
  numbers drawn from a counter of the state. Checking a challenge over the network, and signing a
  certificate, take time during which other requests are served: each is two steps, the start with
  the route's guards and the end with the outcome, and the state lists the ones in flight. Outcomes
  are inputs.
\<close>

section \<open>Rows\<close>

datatype order_status = O_Pending | O_Ready | O_Processing | O_Valid | O_Invalid
datatype authz_status = A_Pending | A_Valid | A_Invalid | A_Deactivated
datatype challenge_status = C_Pending | C_Processing | C_Valid | C_Invalid
datatype challenge_type = DNS_01 | DNS_PERSIST_01 | HTTP_01 | TLS_ALPN_01

type_synonym problem = "string \<times> string"

datatype order_error = Single_Problem problem | Compound_Problem "(problem \<times> json) list"

record acme_order =
  o_id :: nat
  o_account_id :: string
  o_status :: order_status
  o_identifiers :: "json list"
  o_profile :: "string option"
  o_expires :: datetime
  o_error :: "order_error option"
  o_certificate_id :: "int option"

record acme_authorization =
  z_id :: nat
  z_order_id :: "nat option"
  z_account_id :: string
  z_identifier :: json
  z_status :: authz_status
  z_expires :: datetime
  z_wildcard :: bool

record acme_challenge =
  c_id :: nat
  c_authorization_id :: nat
  c_type :: challenge_type
  c_status :: challenge_status
  c_token :: nat
  c_validated :: "datetime option"
  c_error :: "problem option"

record acme_state =
  st_orders :: "acme_order list"
  st_authorizations :: "acme_authorization list"
  st_challenges :: "acme_challenge list"
  st_next :: nat
  st_validating :: "nat list"
  st_finalizing :: "nat list"

text \<open>The tables and settings the handlers read.\<close>

record order_env =
  env_local_domains :: "acme_local_domain list"
  env_domains :: "acme_domain list"
  env_credentials :: "eab_credential list"
  env_accounts :: "acme_account list"
  env_dns_persist :: bool
  env_profiles :: "string list"
  env_default_profile :: "string option"
  env_ip_address :: "json \<Rightarrow> string option"

definition get_order :: "nat \<Rightarrow> acme_state \<Rightarrow> acme_order option" where
  "get_order oid st = first_row (\<lambda>o'. o_id o' = oid) (st_orders st)"

definition get_authz :: "nat \<Rightarrow> acme_state \<Rightarrow> acme_authorization option" where
  "get_authz zid st = first_row (\<lambda>z. z_id z = zid) (st_authorizations st)"

definition get_challenge :: "nat \<Rightarrow> acme_state \<Rightarrow> acme_challenge option" where
  "get_challenge cid st = first_row (\<lambda>c. c_id c = cid) (st_challenges st)"

definition order_authorizations :: "nat \<Rightarrow> acme_state \<Rightarrow> acme_authorization list" where
  "order_authorizations oid st = filter (\<lambda>z. z_order_id z = Some oid) (st_authorizations st)"

definition authz_challenges :: "nat \<Rightarrow> acme_state \<Rightarrow> acme_challenge list" where
  "authz_challenges zid st = filter (\<lambda>c. c_authorization_id c = zid) (st_challenges st)"

definition update_order :: "nat \<Rightarrow> (acme_order \<Rightarrow> acme_order) \<Rightarrow> acme_state \<Rightarrow> acme_state" where
  "update_order oid f st = st\<lparr>st_orders := update_rows (\<lambda>o'. o_id o' = oid) f (st_orders st)\<rparr>"

definition update_authz :: "nat \<Rightarrow> (acme_authorization \<Rightarrow> acme_authorization) \<Rightarrow> acme_state \<Rightarrow> acme_state" where
  "update_authz zid f st = st\<lparr>st_authorizations := update_rows (\<lambda>z. z_id z = zid) f (st_authorizations st)\<rparr>"

section \<open>Creating authorizations\<close>

definition put_field :: "string \<Rightarrow> json \<Rightarrow> (string \<times> json) list \<Rightarrow> (string \<times> json) list" where
  "put_field k v kvs = (if map_of kvs k = None then kvs @ [(k, v)] else set_field k v kvs)"

definition is_wildcard_identifier :: "json \<Rightarrow> bool" where
  "is_wildcard_identifier identifier =
     (json_field ''type'' identifier = JStr ''dns''
      \<and> (case json_field ''value'' identifier of JStr v \<Rightarrow> starts_with v ''*.'' | _ \<Rightarrow> False))"

definition normalize_authorization_identifier :: "json \<Rightarrow> json \<times> bool" where
  "normalize_authorization_identifier identifier =
     (case identifier of
        JDict kvs \<Rightarrow>
          let v = (case map_of kvs ''value'' of Some v \<Rightarrow> v | None \<Rightarrow> JStr []);
              is_wildcard = is_wildcard_identifier identifier
          in (JDict (put_field ''value''
                       (if is_wildcard then (case v of JStr s \<Rightarrow> JStr (drop 2 s) | _ \<Rightarrow> v) else v) kvs),
              is_wildcard)
      | _ \<Rightarrow> (identifier, False))"

text \<open>The challenge types offered: never one by HTTP or TLS for a wildcard, never one by DNS for an
  address.\<close>

definition offered_types :: "bool \<Rightarrow> challenge_status \<Rightarrow> acme_authorization \<Rightarrow> challenge_type list" where
  "offered_types persist status z =
     (let is_wildcard = (z_wildcard z \<or> (case json_field ''value'' (z_identifier z) of
                                           JStr v \<Rightarrow> starts_with v ''*.'' | _ \<Rightarrow> False));
          is_ip = (json_field ''type'' (z_identifier z) = JStr ''ip'')
      in (if is_ip then []
          else [DNS_01] @ (if status \<noteq> C_Valid \<and> persist then [DNS_PERSIST_01] else []))
         @ (if is_wildcard then [] else [HTTP_01, TLS_ALPN_01]))"

fun challenge_rows ::
  "nat \<Rightarrow> nat \<Rightarrow> challenge_status \<Rightarrow> datetime option \<Rightarrow> challenge_type list \<Rightarrow> acme_challenge list" where
  "challenge_rows n zid status validated [] = []"
| "challenge_rows n zid status validated (t # ts) =
     \<lparr>c_id = n, c_authorization_id = zid, c_type = t, c_status = status, c_token = n,
      c_validated = validated, c_error = None\<rparr> # challenge_rows (Suc n) zid status validated ts"

definition add_challenges :: "acme_challenge list \<Rightarrow> acme_state \<Rightarrow> acme_state" where
  "add_challenges cs st = st\<lparr>st_challenges := st_challenges st @ cs, st_next := st_next st + length cs\<rparr>"

definition create_challenges ::
  "order_env \<Rightarrow> acme_authorization \<Rightarrow> challenge_status \<Rightarrow> datetime option \<Rightarrow> acme_state \<Rightarrow> acme_state" where
  "create_challenges env z status validated st =
     add_challenges (challenge_rows (st_next st) (z_id z) status validated
                       (offered_types (env_dns_persist env) status z)) st"

fun copy_rows :: "nat \<Rightarrow> nat \<Rightarrow> acme_challenge list \<Rightarrow> acme_challenge list" where
  "copy_rows n zid [] = []"
| "copy_rows n zid (c # cs) =
     c\<lparr>c_id := n, c_authorization_id := zid, c_status := C_Valid, c_error := None\<rparr> # copy_rows (Suc n) zid cs"

definition copy_validated_challenges :: "nat \<Rightarrow> nat \<Rightarrow> acme_state \<Rightarrow> acme_state" where
  "copy_validated_challenges zid source st =
     add_challenges (copy_rows (st_next st) zid
                       (filter (\<lambda>c. c_status c = C_Valid) (authz_challenges source st))) st"

definition add_authz ::
  "nat option \<Rightarrow> string \<Rightarrow> authz_status \<Rightarrow> json \<Rightarrow> bool \<Rightarrow> datetime \<Rightarrow> acme_state \<Rightarrow> acme_authorization \<times> acme_state" where
  "add_authz oid account status ident wild expires st =
     (let z = \<lparr>z_id = st_next st, z_order_id = oid, z_account_id = account, z_identifier = ident,
               z_status = status, z_expires = expires, z_wildcard = wild\<rparr>
      in (z, st\<lparr>st_authorizations := st_authorizations st @ [z], st_next := Suc (st_next st)\<rparr>))"

text \<open>The valid, unexpired authorizations of the account for the identifier, with the same wildcard
  flag; the one that expires last is reused.\<close>

definition reusable :: "datetime \<Rightarrow> string \<Rightarrow> json \<Rightarrow> bool \<Rightarrow> acme_authorization \<Rightarrow> bool" where
  "reusable now account ident wild z \<longleftrightarrow>
     z_account_id z = account \<and> z_identifier z = ident \<and> z_wildcard z = wild
     \<and> z_status z = A_Valid \<and> z_expires z > now"

fun latest_expiry :: "acme_authorization option \<Rightarrow> acme_authorization list \<Rightarrow> acme_authorization option" where
  "latest_expiry best [] = best"
| "latest_expiry None (z # zs) = latest_expiry (Some z) zs"
| "latest_expiry (Some b) (z # zs) = latest_expiry (Some (if z_expires b < z_expires z then z else b)) zs"

definition find_valid_auth :: "datetime \<Rightarrow> string \<Rightarrow> json \<Rightarrow> bool \<Rightarrow> acme_state \<Rightarrow> acme_authorization option" where
  "find_valid_auth now account ident wild st =
     latest_expiry None (filter (reusable now account ident wild) (st_authorizations st))"

definition auto_approved :: "order_env \<Rightarrow> json \<Rightarrow> bool" where
  "auto_approved env identifier =
     (json_field ''type'' identifier = JStr ''dns''
      \<and> (case json_field ''value'' identifier of
           JStr v \<Rightarrow> is_domain_auto_approved (env_local_domains env) (env_domains env) v | _ \<Rightarrow> False))"

text \<open>The state after the authorization, and whether the session was committed on the way (a reused
  authorization is only flushed).\<close>

definition create_authorization ::
  "order_env \<Rightarrow> datetime \<Rightarrow> nat \<Rightarrow> json \<Rightarrow> string \<Rightarrow> acme_state \<Rightarrow> acme_state \<times> bool" where
  "create_authorization env now oid identifier account st =
     (let (ident, wild) = normalize_authorization_identifier identifier
      in case (if account = [] then None else find_valid_auth now account ident wild st) of
           Some source \<Rightarrow>
             (case add_authz (Some oid) account A_Valid ident wild (z_expires source) st of
                (z, st') \<Rightarrow> (copy_validated_challenges (z_id z) (z_id source) st', False))
         | None \<Rightarrow>
             if auto_approved env identifier
             then (case add_authz (Some oid) account A_Valid ident wild (now + days 7) st of
                     (z, st') \<Rightarrow> (create_challenges env z C_Valid (Some now) st', True))
             else (case add_authz (Some oid) account A_Pending ident wild (now + days 7) st of
                     (z, st') \<Rightarrow> (create_challenges env z C_Pending None st', True)))"

text \<open>The loop of \<open>create_order\<close>: the session and what was committed last.\<close>

fun create_authorizations ::
  "order_env \<Rightarrow> datetime \<Rightarrow> nat \<Rightarrow> string \<Rightarrow> json list \<Rightarrow> acme_state \<Rightarrow> acme_state \<Rightarrow> acme_state \<times> acme_state" where
  "create_authorizations env now oid account [] st committed = (st, committed)"
| "create_authorizations env now oid account (i # is) st committed =
     (case create_authorization env now oid i account st of
        (st', commits) \<Rightarrow>
          create_authorizations env now oid account is st' (if commits then st' else committed))"

definition add_order ::
  "datetime \<Rightarrow> string \<Rightarrow> json list \<Rightarrow> string option \<Rightarrow> acme_state \<Rightarrow> nat \<times> acme_state" where
  "add_order now account identifiers profile st =
     (st_next st,
      st\<lparr>st_orders := st_orders st @ [\<lparr>o_id = st_next st, o_account_id = account, o_status = O_Pending,
           o_identifiers = identifiers, o_profile = profile, o_expires = now + days 7,
           o_error = None, o_certificate_id = None\<rparr>],
         st_next := Suc (st_next st)\<rparr>)"

definition all_authz_valid :: "nat \<Rightarrow> acme_state \<Rightarrow> bool" where
  "all_authz_valid oid st = list_all (\<lambda>z. z_status z = A_Valid) (order_authorizations oid st)"

definition create_order ::
  "order_env \<Rightarrow> datetime \<Rightarrow> string \<Rightarrow> json list \<Rightarrow> string option \<Rightarrow> acme_state \<Rightarrow> acme_state" where
  "create_order env now account identifiers profile st =
     (case add_order now account identifiers profile st of
        (oid, st1) \<Rightarrow>
          (case create_authorizations env now oid account identifiers st1 st of
             (st2, _) \<Rightarrow>
               if all_authz_valid oid st2 then update_order oid (\<lambda>o'. o'\<lparr>o_status := O_Ready\<rparr>) st2 else st2))"

text \<open>The same call when the database fails while the authorization at index \<open>k\<close> is created: the
  session is rolled back to its last commit and the call raises.\<close>

definition create_order_interrupted ::
  "order_env \<Rightarrow> datetime \<Rightarrow> string \<Rightarrow> json list \<Rightarrow> string option \<Rightarrow> nat \<Rightarrow> acme_state \<Rightarrow> acme_state" where
  "create_order_interrupted env now account identifiers profile k st =
     (case add_order now account identifiers profile st of
        (oid, st1) \<Rightarrow> snd (create_authorizations env now oid account (take k identifiers) st1 st))"

definition create_pre_authorization ::
  "order_env \<Rightarrow> datetime \<Rightarrow> string \<Rightarrow> json \<Rightarrow> acme_state \<Rightarrow> acme_state" where
  "create_pre_authorization env now account identifier st =
     (let (ident, wild) = normalize_authorization_identifier identifier
      in case first_row (reusable now account ident wild) (st_authorizations st) of
           Some _ \<Rightarrow> st
         | None \<Rightarrow>
             if auto_approved env identifier
             then (case add_authz None account A_Valid ident wild (now + days 7) st of
                     (z, st') \<Rightarrow> create_challenges env z C_Valid (Some now) st')
             else (case add_authz None account A_Pending ident wild (now + days 7) st of
                     (z, st') \<Rightarrow> create_challenges env z C_Pending None st'))"

section \<open>Expiry, failure and deactivation\<close>

definition challenge_problem :: "acme_challenge option \<Rightarrow> problem" where
  "challenge_problem c =
     (case c of
        None \<Rightarrow> (''malformed'', ''Authorization failed'')
      | Some c \<Rightarrow> (case c_error c of Some p \<Rightarrow> p | None \<Rightarrow> (''malformed'', ''Authorization failed'')))"

definition subproblems :: "nat \<Rightarrow> acme_state \<Rightarrow> (problem \<times> json) list" where
  "subproblems oid st =
     map (\<lambda>z. (challenge_problem (first_row (\<lambda>c. c_status c = C_Invalid) (authz_challenges (z_id z) st)),
              z_identifier z))
       (filter (\<lambda>z. z_status z = A_Invalid) (order_authorizations oid st))"

definition set_order_authorization_error :: "nat \<Rightarrow> problem \<Rightarrow> acme_state \<Rightarrow> acme_state" where
  "set_order_authorization_error oid fallback st =
     (let subs = subproblems oid st;
          err = (if 1 < length subs then Compound_Problem subs else Single_Problem fallback)
      in update_order oid (\<lambda>o'. o'\<lparr>o_error := Some err\<rparr>) st)"

text \<open>An order that is pending or ready turns invalid; then an invalid order gets the error.\<close>

definition fail_order :: "nat \<Rightarrow> problem \<Rightarrow> acme_state \<Rightarrow> acme_state" where
  "fail_order oid problem st =
     (case get_order oid st of
        None \<Rightarrow> st
      | Some o' \<Rightarrow>
          let st' = (if o_status o' \<in> {O_Pending, O_Ready}
                     then update_order oid (\<lambda>o'. o'\<lparr>o_status := O_Invalid\<rparr>) st else st)
          in if o_status o' \<in> {O_Pending, O_Ready, O_Invalid}
             then set_order_authorization_error oid problem st' else st')"

definition EXPIRED_AUTHORIZATION_DETAIL :: string where
  "EXPIRED_AUTHORIZATION_DETAIL = ''Authorization has expired''"

definition expire_authorization :: "acme_authorization \<Rightarrow> bool \<Rightarrow> acme_state \<Rightarrow> acme_state" where
  "expire_authorization z update_parent st =
     (let problem = (''malformed'', EXPIRED_AUTHORIZATION_DETAIL);
          st1 = update_authz (z_id z) (\<lambda>z. z\<lparr>z_status := A_Invalid\<rparr>) st;
          st2 = st1\<lparr>st_challenges :=
                  update_rows (\<lambda>c. c_authorization_id c = z_id z \<and> c_status c \<in> {C_Pending, C_Processing})
                    (\<lambda>c. c\<lparr>c_status := C_Invalid, c_error := Some problem\<rparr>) (st_challenges st1)\<rparr>
      in case (update_parent, z_order_id z) of
           (True, Some oid) \<Rightarrow> fail_order oid problem st2
         | _ \<Rightarrow> st2)"

definition expire_authorization_if_needed :: "datetime \<Rightarrow> acme_authorization \<Rightarrow> acme_state \<Rightarrow> acme_state" where
  "expire_authorization_if_needed now z st =
     (if z_status z \<noteq> A_Pending \<or> z_expires z \<ge> now then st else expire_authorization z True st)"

definition expire_order_if_needed :: "datetime \<Rightarrow> acme_order \<Rightarrow> acme_state \<Rightarrow> acme_state" where
  "expire_order_if_needed now o' st =
     (if o_status o' \<notin> {O_Pending, O_Ready} \<or> o_expires o' \<ge> now then st
      else let problem = (''malformed'', ''Order has expired'');
               st1 = update_order (o_id o') (\<lambda>o'. o'\<lparr>o_status := O_Invalid\<rparr>) st;
               st2 = fold (\<lambda>z st. if z_status z = A_Pending then expire_authorization z False st else st)
                       (order_authorizations (o_id o') st1) st1
           in set_order_authorization_error (o_id o') problem st2)"

definition identifier_value :: "acme_authorization \<Rightarrow> string" where
  "identifier_value z = (case json_field ''value'' (z_identifier z) of JStr v \<Rightarrow> v | _ \<Rightarrow> [])"

definition deactivate_row :: "acme_authorization \<Rightarrow> acme_state \<Rightarrow> acme_state" where
  "deactivate_row z st =
     (let st1 = update_authz (z_id z) (\<lambda>z. z\<lparr>z_status := A_Deactivated\<rparr>) st
      in case z_order_id z of
           None \<Rightarrow> st1
         | Some oid \<Rightarrow>
             (case get_order oid st1 of
                Some o' \<Rightarrow>
                  if o_status o' \<in> {O_Pending, O_Ready}
                  then update_order oid (\<lambda>o'. o'\<lparr>o_status := O_Invalid,
                         o_error := Some (Single_Problem (''unauthorized'',
                           ''Authorization for '' @ identifier_value z @ '' was deactivated''))\<rparr>) st1
                  else st1
              | None \<Rightarrow> st1))"

definition same_proof :: "acme_authorization \<Rightarrow> acme_authorization \<Rightarrow> bool" where
  "same_proof z y \<longleftrightarrow> z_id y \<noteq> z_id z \<and> z_account_id y = z_account_id z
     \<and> z_identifier y = z_identifier z \<and> z_wildcard y = z_wildcard z
     \<and> z_status y = A_Valid \<and> z_expires y = z_expires z"

definition deactivate_authorization :: "acme_authorization \<Rightarrow> acme_state \<Rightarrow> acme_state" where
  "deactivate_authorization z st =
     (if z_status z = A_Deactivated then st
      else fold deactivate_row
             (z # (if z_status z = A_Valid \<and> z_account_id z \<noteq> []
                   then filter (same_proof z) (st_authorizations st) else [])) st)"

section \<open>Outcome of a validation\<close>

definition update_authorization_status :: "nat \<Rightarrow> acme_state \<Rightarrow> acme_state" where
  "update_authorization_status zid st =
     (case get_authz zid st of
        None \<Rightarrow> st
      | Some z \<Rightarrow>
          if z_status z = A_Deactivated then st
          else if \<not> list_ex (\<lambda>c. c_status c = C_Valid) (authz_challenges zid st) then st
          else let st1 = update_authz zid (\<lambda>z. z\<lparr>z_status := A_Valid\<rparr>) st;
                   st2 = st1\<lparr>st_challenges :=
                           filter (\<lambda>c. \<not> (c_authorization_id c = zid \<and> c_status c \<in> {C_Pending, C_Processing}))
                             (st_challenges st1)\<rparr>
               in case z_order_id z of
                    None \<Rightarrow> st2
                  | Some oid \<Rightarrow>
                      if all_authz_valid oid st2
                      then update_order oid (\<lambda>o'. o'\<lparr>o_status := O_Ready\<rparr>) st2 else st2)"

text \<open>A validation that succeeds. A row that was removed in the meantime makes the flush fail, and
  nothing is changed.\<close>

definition validation_succeeds :: "datetime \<Rightarrow> nat \<Rightarrow> acme_state \<Rightarrow> acme_state" where
  "validation_succeeds now cid st =
     (case get_challenge cid st of
        None \<Rightarrow> st
      | Some c \<Rightarrow>
          update_authorization_status (c_authorization_id c)
            (st\<lparr>st_challenges := update_rows (\<lambda>c. c_id c = cid)
                 (\<lambda>c. c\<lparr>c_status := C_Valid, c_validated := Some now\<rparr>) (st_challenges st)\<rparr>))"

definition invalidate_challenge :: "nat \<Rightarrow> problem \<Rightarrow> acme_state \<Rightarrow> acme_state" where
  "invalidate_challenge cid problem st =
     (case get_challenge cid st of
        None \<Rightarrow> st
      | Some c \<Rightarrow>
          let st1 = st\<lparr>st_challenges := update_rows (\<lambda>c. c_id c = cid)
                 (\<lambda>c. c\<lparr>c_status := C_Invalid, c_error := Some problem\<rparr>) (st_challenges st)\<rparr>
          in case get_authz (c_authorization_id c) st1 of
               None \<Rightarrow> st1
             | Some z \<Rightarrow>
                 if z_status z = A_Deactivated then st1
                 else let st2 = update_authz (z_id z) (\<lambda>z. z\<lparr>z_status := A_Invalid\<rparr>) st1
                      in case z_order_id z of None \<Rightarrow> st2 | Some oid \<Rightarrow> fail_order oid problem st2)"

section \<open>Finalization\<close>

definition begin_order_processing :: "nat \<Rightarrow> acme_state \<Rightarrow> bool \<times> acme_state" where
  "begin_order_processing oid st =
     (if count_rows (\<lambda>o'. o_id o' = oid \<and> o_status o' = O_Ready) (st_orders st) \<noteq> 1 then (False, st)
      else (True, update_order oid (\<lambda>o'. o'\<lparr>o_status := O_Processing\<rparr>) st))"

definition restore_processing_order :: "nat \<Rightarrow> acme_state \<Rightarrow> acme_state" where
  "restore_processing_order oid st =
     (case get_order oid st of
        Some o' \<Rightarrow> if o_status o' = O_Processing
                    then update_order oid (\<lambda>o'. o'\<lparr>o_status := O_Ready\<rparr>) st else st
      | None \<Rightarrow> st)"

definition invalidate_processing_order :: "nat \<Rightarrow> problem \<Rightarrow> acme_state \<Rightarrow> acme_state" where
  "invalidate_processing_order oid problem st =
     (case get_order oid st of
        Some o' \<Rightarrow> if o_status o' = O_Processing
                    then update_order oid (\<lambda>o'. o'\<lparr>o_status := O_Invalid,
                           o_error := Some (Single_Problem problem)\<rparr>) st else st
      | None \<Rightarrow> st)"

text \<open>How \<open>finalize_order\<close> ends: a certificate, a refusal that is the request's fault and was met while
  signing, a CAA refusal, or any other failure, after which the client may retry.\<close>

datatype finalize_outcome =
    Issued int | Bad_Request string | Caa_Refused string | Not_Issued

definition finish_finalize :: "nat \<Rightarrow> finalize_outcome \<Rightarrow> acme_state \<Rightarrow> acme_state" where
  "finish_finalize oid outcome st =
     (case outcome of
        Issued cert_id \<Rightarrow>
          update_order oid (\<lambda>o'. o'\<lparr>o_status := O_Valid, o_certificate_id := Some cert_id\<rparr>) st
      | Bad_Request detail \<Rightarrow>
          restore_processing_order oid
            (update_order oid (\<lambda>o'. o'\<lparr>o_status := O_Invalid,
               o_error := Some (Single_Problem (''badCSR'', detail))\<rparr>) st)
      | Caa_Refused detail \<Rightarrow> invalidate_processing_order oid (''caa'', detail) st
      | Not_Issued \<Rightarrow> restore_processing_order oid st)"

section \<open>The routes\<close>

text \<open>The identifiers of the request with their addresses rewritten, or nothing when one is refused.\<close>

fun validate_identifiers :: "(json \<Rightarrow> string option) \<Rightarrow> json list \<Rightarrow> json list option" where
  "validate_identifiers ip [] = Some []"
| "validate_identifiers ip (i # is) =
     (case (validate_acme_identifier ip i, validate_identifiers ip is) of
        (Inr i', Some is') \<Rightarrow> Some (i' # is') | _ \<Rightarrow> None)"

definition chosen_profile :: "order_env \<Rightarrow> json \<Rightarrow> string option option" where
  "chosen_profile env profile =
     (case profile of
        JNull \<Rightarrow> Some (case env_default_profile env of Some p \<Rightarrow> if p = [] then None else Some p | None \<Rightarrow> None)
      | JStr p \<Rightarrow> if p \<in> set (env_profiles env) then Some (Some p) else None
      | _ \<Rightarrow> None)"

definition new_order ::
  "order_env \<Rightarrow> datetime \<Rightarrow> string \<Rightarrow> json \<Rightarrow> json \<Rightarrow> acme_state \<Rightarrow> (json list \<times> string option) option" where
  "new_order env now account_id identifiers profile st =
     (if account_id = [] \<or> get_account_by_kid account_id (env_accounts env) = None then None
      else (case identifiers of
              JList ids \<Rightarrow>
                if ids = [] then None
                else (case validate_identifiers (env_ip_address env) ids of
                        None \<Rightarrow> None
                      | Some ids' \<Rightarrow>
                          if wildcard_refused (env_domains env) ids' \<noteq> [] then None
                          else if eab_refused account_id ids' (env_credentials env) \<noteq> [] then None
                          else (case chosen_profile env profile of
                                  None \<Rightarrow> None | Some p \<Rightarrow> Some (ids', p)))
            | _ \<Rightarrow> None))"

definition new_authz :: "order_env \<Rightarrow> string \<Rightarrow> json \<Rightarrow> json option" where
  "new_authz env account_id identifier =
     (if account_id = [] \<or> get_account_by_kid account_id (env_accounts env) = None then None
      else (case validate_acme_identifier (env_ip_address env) identifier of
              Inl _ \<Rightarrow> None
            | Inr i \<Rightarrow> if eab_refused account_id [i] (env_credentials env) \<noteq> [] then None else Some i))"

definition order_info :: "datetime \<Rightarrow> string \<Rightarrow> nat \<Rightarrow> acme_state \<Rightarrow> nat \<times> acme_state" where
  "order_info now account_id oid st =
     (case get_order oid st of
        None \<Rightarrow> (404, st)
      | Some o' \<Rightarrow> if o_account_id o' \<noteq> account_id then (403, st)
                    else (200, expire_order_if_needed now o' st))"

definition authorization_info :: "datetime \<Rightarrow> string \<Rightarrow> nat \<Rightarrow> bool \<Rightarrow> acme_state \<Rightarrow> nat \<times> acme_state" where
  "authorization_info now account_id zid deactivate st =
     (case get_authz zid st of
        None \<Rightarrow> (404, st)
      | Some z \<Rightarrow>
          if z_account_id z \<noteq> account_id then (403, st)
          else let st' = expire_authorization_if_needed now z st
               in if \<not> deactivate then (200, st')
                  else (case get_authz zid st' of
                          None \<Rightarrow> (500, st')
                        | Some z' \<Rightarrow>
                            if z_status z' \<notin> {A_Pending, A_Valid, A_Deactivated} then (400, st')
                            else (200, deactivate_authorization z' st')))"

datatype respond_result = Respond_Error nat | Respond_Settled | Respond_Validating

definition respond_to_challenge :: "order_env \<Rightarrow> string \<Rightarrow> nat \<Rightarrow> acme_state \<Rightarrow> respond_result" where
  "respond_to_challenge env account_id cid st =
     (case get_challenge cid st of
        None \<Rightarrow> Respond_Error 404
      | Some c \<Rightarrow>
          if get_account_by_kid account_id (env_accounts env) = None then Respond_Error 404
          else (case get_authz (c_authorization_id c) st of
                  None \<Rightarrow> Respond_Error 500
                | Some z \<Rightarrow>
                    if z_account_id z \<noteq> account_id then Respond_Error 403
                    else if c_status c \<in> {C_Valid, C_Invalid} then Respond_Settled
                    else if z_status z \<noteq> A_Pending then Respond_Error 403
                    else Respond_Validating))"

definition finalize_start :: "order_env \<Rightarrow> string \<Rightarrow> nat \<Rightarrow> acme_state \<Rightarrow> nat \<times> acme_state" where
  "finalize_start env account_id oid st =
     (case get_order oid st of
        None \<Rightarrow> (404, st)
      | Some o' \<Rightarrow>
          if o_account_id o' \<noteq> account_id then (403, st)
          else if o_status o' \<noteq> O_Ready then (403, st)
          else if (case o_profile o' of Some p \<Rightarrow> p \<noteq> [] \<and> p \<notin> set (env_profiles env) | None \<Rightarrow> False)
          then (400, st)
          else (case begin_order_processing oid st of
                  (False, st') \<Rightarrow> (403, st')
                | (True, st') \<Rightarrow> (200, st'\<lparr>st_finalizing := oid # st_finalizing st'\<rparr>)))"

section \<open>Steps\<close>

text \<open>The tables and settings may change between any two steps. The flag admits a failure of the
  database while an order is created.\<close>

inductive acme_step :: "bool \<Rightarrow> acme_state \<Rightarrow> acme_state \<Rightarrow> bool" for faults where
  new_order_step: "new_order env now account ids profile st = Some (ids', p)
    \<Longrightarrow> acme_step faults st (create_order env now account ids' p st)"
| interrupted_step: "faults \<Longrightarrow> new_order env now account ids profile st = Some (ids', p) \<Longrightarrow> k < length ids'
    \<Longrightarrow> acme_step faults st (create_order_interrupted env now account ids' p k st)"
| new_authz_step: "new_authz env account i = Some i'
    \<Longrightarrow> acme_step faults st (create_pre_authorization env now account i' st)"
| respond_step: "respond_to_challenge env account cid st = Respond_Validating
    \<Longrightarrow> acme_step faults st (st\<lparr>st_validating := cid # st_validating st\<rparr>)"
| succeed_step: "cid \<in> set (st_validating st)
    \<Longrightarrow> acme_step faults st (validation_succeeds now cid (st\<lparr>st_validating := remove1 cid (st_validating st)\<rparr>))"
| fail_step: "cid \<in> set (st_validating st)
    \<Longrightarrow> acme_step faults st (invalidate_challenge cid problem (st\<lparr>st_validating := remove1 cid (st_validating st)\<rparr>))"
| order_info_step: "acme_step faults st (snd (order_info now account oid st))"
| authorization_info_step: "acme_step faults st (snd (authorization_info now account zid deactivate st))"
| finalize_step: "acme_step faults st (snd (finalize_start env account oid st))"
| finish_step: "oid \<in> set (st_finalizing st)
    \<Longrightarrow> acme_step faults st (finish_finalize oid outcome (st\<lparr>st_finalizing := remove1 oid (st_finalizing st)\<rparr>))"

definition empty_state :: acme_state where
  "empty_state = \<lparr>st_orders = [], st_authorizations = [], st_challenges = [], st_next = 0,
     st_validating = [], st_finalizing = []\<rparr>"

abbreviation acme_reaches :: "bool \<Rightarrow> acme_state \<Rightarrow> acme_state \<Rightarrow> bool" where
  "acme_reaches faults \<equiv> (acme_step faults)\<^sup>*\<^sup>*"

end
