(* ===== verification/Acme_Safety.thy ===== *)
theory Acme_Safety
  imports Acme_Orders
begin

text \<open>
  Safety of the ACME order machine of \<open>Acme_Orders\<close>. The invariants are stated on the fields that
  identify a row; an operation that adds no row and keeps those fields is quiet and keeps them.
  The theorems at the end say which proofs of control stand behind an order that is ready or
  issued, and what becomes of the machine when requests overlap or the database fails.
\<close>

section \<open>What never changes\<close>

text \<open>The fields that identify a row. An operation is quiet when it adds no row and changes none of
  them; the invariants on rows are stated on these fields alone.\<close>

definition okey :: "acme_order \<Rightarrow> nat \<times> string \<times> json list" where
  "okey o' = (o_id o', o_account_id o', o_identifiers o')"

definition zkey :: "acme_authorization \<Rightarrow> nat \<times> nat option \<times> string \<times> json \<times> bool" where
  "zkey z = (z_id z, z_order_id z, z_account_id z, z_identifier z, z_wildcard z)"

definition ckey :: "acme_challenge \<Rightarrow> nat \<times> nat \<times> challenge_type" where
  "ckey c = (c_id c, c_authorization_id c, c_type c)"

definition quiet :: "acme_state \<Rightarrow> acme_state \<Rightarrow> bool" where
  "quiet st st' \<longleftrightarrow> map okey (st_orders st') = map okey (st_orders st)
     \<and> map zkey (st_authorizations st') = map zkey (st_authorizations st)
     \<and> set (map ckey (st_challenges st')) \<subseteq> set (map ckey (st_challenges st))
     \<and> (distinct (map c_id (st_challenges st)) \<longrightarrow> distinct (map c_id (st_challenges st')))
     \<and> st_next st' = st_next st"

lemma quiet_refl [simp]: "quiet st st"
  by (simp add: quiet_def)

lemma quiet_trans [trans]: "quiet st st' \<Longrightarrow> quiet st' st'' \<Longrightarrow> quiet st st''"
  unfolding quiet_def by (metis (no_types, lifting) order_trans)

lemma map_key_update_rows: "(\<And>r. key (f r) = key r) \<Longrightarrow> map key (update_rows p f rows) = map key rows"
  by (simp add: update_rows_def)

lemma quiet_update_order:
  "(\<And>o'. okey (f o') = okey o') \<Longrightarrow> quiet st (update_order oid f st)"
  by (simp add: quiet_def update_order_def map_key_update_rows)

lemma quiet_update_authz:
  "(\<And>z. zkey (f z) = zkey z) \<Longrightarrow> quiet st (update_authz zid f st)"
  by (simp add: quiet_def update_authz_def map_key_update_rows)

lemma quiet_update_challenges:
  assumes "\<And>c. ckey (f c) = ckey c"
  shows "quiet st (st\<lparr>st_challenges := update_rows p f (st_challenges st)\<rparr>)"
proof -
  have "map c_id (update_rows p f rows) = map c_id rows" for rows
    using assms by (intro map_key_update_rows) (metis ckey_def prod.inject)
  moreover have "map ckey (update_rows p f rows) = map ckey rows" for rows
    using assms by (rule map_key_update_rows)
  ultimately show ?thesis unfolding quiet_def by simp
qed

lemma quiet_filter_challenges: "quiet st (st\<lparr>st_challenges := filter p (st_challenges st)\<rparr>)"
  by (auto simp: quiet_def distinct_map_filter)

lemmas key_defs = okey_def zkey_def ckey_def

lemma quiet_fold: "(\<And>x s. quiet s (f x s)) \<Longrightarrow> quiet s (fold f xs s)"
  by (induction xs arbitrary: s) (auto intro: quiet_trans)

section \<open>The invariant on rows\<close>

definition is_ip_authz :: "acme_authorization \<Rightarrow> bool" where
  "is_ip_authz z \<longleftrightarrow> json_field ''type'' (z_identifier z) = JStr ''ip''"

definition allowed_type :: "acme_authorization \<Rightarrow> challenge_type \<Rightarrow> bool" where
  "allowed_type z t \<longleftrightarrow> (z_wildcard z \<longrightarrow> t \<in> {DNS_01, DNS_PERSIST_01})
     \<and> (is_ip_authz z \<longrightarrow> t \<in> {HTTP_01, TLS_ALPN_01})"

text \<open>Ids are distinct and drawn, every challenge belongs to an authorization of a type it may have,
  and every authorization of an order belongs to the account of that order.\<close>

definition rows_ok :: "acme_state \<Rightarrow> bool" where
  "rows_ok st \<longleftrightarrow>
     distinct (map o_id (st_orders st)) \<and> distinct (map z_id (st_authorizations st))
     \<and> distinct (map c_id (st_challenges st))
     \<and> (\<forall>o' \<in> set (st_orders st). o_id o' < st_next st)
     \<and> (\<forall>z \<in> set (st_authorizations st). z_id z < st_next st)
     \<and> (\<forall>c \<in> set (st_challenges st). c_id c < st_next st)
     \<and> (\<forall>c \<in> set (st_challenges st). \<exists>z \<in> set (st_authorizations st).
          z_id z = c_authorization_id c \<and> allowed_type z (c_type c))
     \<and> (\<forall>z \<in> set (st_authorizations st). \<forall>oid. z_order_id z = Some oid \<longrightarrow>
          (\<exists>o' \<in> set (st_orders st). o_id o' = oid \<and> o_account_id o' = z_account_id z))"

text \<open>A valid authorization has a validated challenge.\<close>

definition proved :: "acme_state \<Rightarrow> bool" where
  "proved st \<longleftrightarrow> (\<forall>z \<in> set (st_authorizations st). z_status z = A_Valid \<longrightarrow>
     (\<exists>c \<in> set (st_challenges st). c_authorization_id c = z_id z \<and> c_status c = C_Valid))"

text \<open>An order has one authorization per identifier, in order.\<close>

definition authz_name :: "acme_authorization \<Rightarrow> json \<times> bool" where
  "authz_name z = (z_identifier z, z_wildcard z)"

definition covered :: "acme_state \<Rightarrow> bool" where
  "covered st \<longleftrightarrow> (\<forall>o' \<in> set (st_orders st).
     map authz_name (order_authorizations (o_id o') st)
       = map normalize_authorization_identifier (o_identifiers o'))"

lemma map_key_in: "map key xs = map key ys \<Longrightarrow> x \<in> set xs \<Longrightarrow> \<exists>y \<in> set ys. key y = key x"
  by (metis image_iff list.set_map)

lemma map_key_fst: "map key xs = map key ys \<Longrightarrow> (\<And>x. g (key x) = h x) \<Longrightarrow> map h xs = map h ys"
  by (metis (mono_tags, lifting) comp_apply map_eq_conv map_map)

lemma quiet_ids:
  assumes "quiet st st'"
  shows "map o_id (st_orders st') = map o_id (st_orders st)"
    "map z_id (st_authorizations st') = map z_id (st_authorizations st)"
proof -
  have o: "map okey (st_orders st') = map okey (st_orders st)"
    and z: "map zkey (st_authorizations st') = map zkey (st_authorizations st)"
    using assms by (simp_all add: quiet_def)
  show "map o_id (st_orders st') = map o_id (st_orders st)"
    by (rule map_key_fst[OF o, where g = fst]) (simp add: okey_def)
  show "map z_id (st_authorizations st') = map z_id (st_authorizations st)"
    by (rule map_key_fst[OF z, where g = fst]) (simp add: zkey_def)
qed

lemma quiet_authz:
  assumes "quiet st st'"
  shows "z' \<in> set (st_authorizations st') \<Longrightarrow> \<exists>z \<in> set (st_authorizations st). zkey z = zkey z'"
    and "z \<in> set (st_authorizations st) \<Longrightarrow> \<exists>z' \<in> set (st_authorizations st'). zkey z' = zkey z"
  using assms map_key_in unfolding quiet_def by metis+

lemma quiet_order:
  assumes "quiet st st'"
  shows "o' \<in> set (st_orders st') \<Longrightarrow> \<exists>u \<in> set (st_orders st). okey u = okey o'"
    and "u \<in> set (st_orders st) \<Longrightarrow> \<exists>o' \<in> set (st_orders st'). okey o' = okey u"
  using assms map_key_in unfolding quiet_def by metis+

lemma quiet_challenge:
  assumes "quiet st st'" "c' \<in> set (st_challenges st')"
  shows "\<exists>c \<in> set (st_challenges st). ckey c = ckey c'"
proof -
  have "ckey c' \<in> set (map ckey (st_challenges st))" using assms unfolding quiet_def by auto
  then show ?thesis by auto
qed

lemma allowed_type_key: "zkey z = zkey y \<Longrightarrow> allowed_type z = allowed_type y"
  by (auto simp: allowed_type_def is_ip_authz_def zkey_def)

lemma rows_ok_quiet:
  assumes "rows_ok st" "quiet st st'"
  shows "rows_ok st'"
proof -
  note ok = assms(1)[unfolded rows_ok_def]
  have next_eq: "st_next st' = st_next st" using assms(2) by (simp add: quiet_def)
  have d: "distinct (map c_id (st_challenges st'))" using assms(2) ok by (simp add: quiet_def)
  have o_lt: "o_id o' < st_next st'" if "o' \<in> set (st_orders st')" for o'
    using quiet_order(1)[OF assms(2) that] ok next_eq by (auto simp: okey_def)
  have z_lt: "z_id z' < st_next st'" if "z' \<in> set (st_authorizations st')" for z'
    using quiet_authz(1)[OF assms(2) that] ok next_eq by (auto simp: zkey_def)
  have c_ok: "c_id c' < st_next st' \<and> (\<exists>z' \<in> set (st_authorizations st').
          z_id z' = c_authorization_id c' \<and> allowed_type z' (c_type c'))"
    if c': "c' \<in> set (st_challenges st')" for c'
  proof -
    obtain c where c: "c \<in> set (st_challenges st)" "ckey c = ckey c'"
      using quiet_challenge[OF assms(2) c'] by blast
    then obtain z where z: "z \<in> set (st_authorizations st)" "z_id z = c_authorization_id c" "allowed_type z (c_type c)"
      using ok by blast
    obtain z' where "z' \<in> set (st_authorizations st')" "zkey z' = zkey z"
      using quiet_authz(2)[OF assms(2) z(1)] by blast
    moreover have "z_id z' = z_id z" using \<open>zkey z' = zkey z\<close> by (simp add: zkey_def)
    moreover have "allowed_type z' = allowed_type z" using \<open>zkey z' = zkey z\<close> by (rule allowed_type_key)
    moreover have "c_id c' = c_id c" "c_authorization_id c' = c_authorization_id c" "c_type c' = c_type c"
      using c(2) by (auto simp: ckey_def)
    ultimately show ?thesis using c(1) z(2,3) ok next_eq by auto
  qed
  have z_ord: "\<exists>o' \<in> set (st_orders st'). o_id o' = oid \<and> o_account_id o' = z_account_id z'"
    if z': "z' \<in> set (st_authorizations st')" "z_order_id z' = Some oid" for z' oid
  proof -
    obtain z where z: "z \<in> set (st_authorizations st)" "zkey z = zkey z'"
      using quiet_authz(1)[OF assms(2) z'(1)] by blast
    then have "z_order_id z = Some oid" "z_account_id z = z_account_id z'"
      using z'(2) by (auto simp: zkey_def)
    then obtain u where "u \<in> set (st_orders st)" "o_id u = oid" "o_account_id u = z_account_id z'"
      using ok z(1) by metis
    then show ?thesis using quiet_order(2)[OF assms(2)] by (fastforce simp: okey_def)
  qed
  show ?thesis
    unfolding rows_ok_def quiet_ids[OF assms(2)] using ok d o_lt z_lt c_ok z_ord by blast
qed

lemma order_authorizations_quiet:
  assumes "quiet st st'"
  shows "map zkey (order_authorizations oid st') = map zkey (order_authorizations oid st)"
proof -
  have "map zkey (filter (\<lambda>z. z_order_id z = Some oid) zs)
      = filter (\<lambda>k. fst (snd k) = Some oid) (map zkey zs)" for zs
    by (simp add: filter_map comp_def zkey_def)
  then show ?thesis using assms by (simp add: order_authorizations_def quiet_def)
qed

lemma covered_quiet:
  assumes "covered st" "quiet st st'"
  shows "covered st'"
  unfolding covered_def
proof
  fix o' assume "o' \<in> set (st_orders st')"
  then obtain u where u: "u \<in> set (st_orders st)" "o_id u = o_id o'" "o_identifiers u = o_identifiers o'"
    using quiet_order(1)[OF assms(2)] by (fastforce simp: okey_def)
  have "map authz_name (order_authorizations (o_id o') st') = map authz_name (order_authorizations (o_id o') st)"
    using order_authorizations_quiet[OF assms(2)]
    by (rule map_key_fst[where g = "\<lambda>(a, b, c, d, e). (d, e)"]) (simp add: zkey_def authz_name_def)
  then show "map authz_name (order_authorizations (o_id o') st')
      = map normalize_authorization_identifier (o_identifiers o')"
    using assms(1) u unfolding covered_def by metis
qed

section \<open>Operations on existing rows\<close>

text \<open>An order has advanced when it is ready, processing or valid, or holds a certificate. A calm
  operation is quiet, keeps the proofs and advances no order.\<close>

definition advanced_order :: "acme_order \<Rightarrow> bool" where
  "advanced_order o' \<longleftrightarrow> o_status o' \<in> {O_Ready, O_Processing, O_Valid} \<or> o_certificate_id o' \<noteq> None"

definition advanced :: "nat \<Rightarrow> acme_state \<Rightarrow> bool" where
  "advanced oid st \<longleftrightarrow> (\<exists>o' \<in> set (st_orders st). o_id o' = oid \<and> advanced_order o')"

definition calm :: "acme_state \<Rightarrow> acme_state \<Rightarrow> bool" where
  "calm st st' \<longleftrightarrow> quiet st st' \<and> (proved st \<longrightarrow> proved st')
     \<and> (\<forall>oid. advanced oid st' \<longrightarrow> advanced oid st)
     \<and> st_finalizing st' = st_finalizing st"

lemma calm_refl [simp]: "calm st st"
  by (simp add: calm_def)

lemma calm_trans [trans]: "calm st st' \<Longrightarrow> calm st' st'' \<Longrightarrow> calm st st''"
  unfolding calm_def by (metis quiet_trans)

lemma calm_fold: "(\<And>x s. calm s (f x s)) \<Longrightarrow> calm s (fold f xs s)"
  by (induction xs arbitrary: s) (auto intro: calm_trans)

lemma calm_update_order:
  assumes "\<And>o'. okey (f o') = okey o'"
    and "\<And>o'. o' \<in> set (st_orders st) \<Longrightarrow> o_id o' = oid \<Longrightarrow> advanced_order (f o') \<Longrightarrow> advanced_order o'"
  shows "calm st (update_order oid f st)"
proof -
  have "advanced i st" if adv: "advanced i (update_order oid f st)" for i
  proof -
    from adv obtain u where u: "u \<in> set (st_orders st)"
      "o_id (if o_id u = oid then f u else u) = i" "advanced_order (if o_id u = oid then f u else u)"
      by (auto simp: advanced_def update_order_def set_update_rows)
    have "o_id (f u) = o_id u" using assms(1)[of u] by (simp add: okey_def)
    then have "o_id u = i" using u(2) by (auto split: if_splits)
    moreover have "advanced_order u" using u assms(2)[of u] by (auto split: if_splits)
    ultimately show ?thesis using u(1) by (auto simp: advanced_def)
  qed
  moreover have "proved st \<longrightarrow> proved (update_order oid f st)" by (simp add: proved_def update_order_def)
  ultimately show ?thesis
    using quiet_update_order[OF assms(1)] by (simp add: calm_def) (simp add: update_order_def)
qed

lemma calm_update_authz:
  assumes "\<And>z. zkey (f z) = zkey z" "\<And>z. z_status (f z) \<noteq> A_Valid"
  shows "calm st (update_authz zid f st)"
proof -
  have "proved (update_authz zid f st)" if "proved st"
    using that assms(2) unfolding proved_def by (fastforce simp: update_authz_def set_update_rows split: if_splits)
  then show ?thesis
    using quiet_update_authz[of f, OF assms(1)] by (simp add: calm_def) (simp add: update_authz_def advanced_def)
qed

lemma okey_updates [simp]:
  "okey (o'\<lparr>o_status := s\<rparr>) = okey o'" "okey (o'\<lparr>o_error := e\<rparr>) = okey o'"
  "okey (o'\<lparr>o_status := s, o_error := e\<rparr>) = okey o'"
  "okey (o'\<lparr>o_status := s, o_certificate_id := c\<rparr>) = okey o'"
  by (simp_all add: okey_def)

lemma zkey_updates [simp]: "zkey (z\<lparr>z_status := s\<rparr>) = zkey z"
  by (simp add: zkey_def)

lemma ckey_updates [simp]:
  "ckey (c\<lparr>c_status := s, c_error := e\<rparr>) = ckey c" "ckey (c\<lparr>c_status := s, c_validated := v\<rparr>) = ckey c"
  by (simp_all add: ckey_def)

lemma calm_set_error: "calm st (set_order_authorization_error oid p st)"
  unfolding set_order_authorization_error_def Let_def
  by (rule calm_update_order) (auto simp: advanced_order_def)

lemma calm_invalid_order:
  "calm st (update_order oid (\<lambda>o'. o'\<lparr>o_status := O_Invalid\<rparr>) st)"
  "calm st (update_order oid (\<lambda>o'. o'\<lparr>o_status := O_Invalid, o_error := e\<rparr>) st)"
  by (rule calm_update_order; auto simp: advanced_order_def)+

lemma calm_fail_order: "calm st (fail_order oid p st)"
  unfolding fail_order_def Let_def
  by (auto split: option.split intro: calm_trans calm_set_error calm_invalid_order)

lemma calm_settle_pending:
  assumes "\<And>c. ckey (f c) = ckey c"
  shows "calm st (st\<lparr>st_challenges := update_rows
      (\<lambda>c. c_authorization_id c = zid \<and> c_status c \<in> {C_Pending, C_Processing}) f (st_challenges st)\<rparr>)"
proof -
  let ?p = "\<lambda>c. c_authorization_id c = zid \<and> c_status c \<in> {C_Pending, C_Processing}"
  have "c \<in> set (update_rows ?p f cs)" if "c \<in> set cs" "c_status c = C_Valid" for c cs
    using that by (force simp: set_update_rows)
  then have "proved st \<longrightarrow> proved (st\<lparr>st_challenges := update_rows ?p f (st_challenges st)\<rparr>)"
    unfolding proved_def by (metis (no_types, lifting) acme_state.select_convs(2,3) acme_state.surjective acme_state.update_convs(3))
  then show ?thesis
    using quiet_update_challenges[where f = f, OF assms] by (simp add: calm_def advanced_def)
qed

lemma calm_expire_authorization: "calm st (expire_authorization z b st)"
proof -
  let ?st1 = "update_authz (z_id z) (\<lambda>z. z\<lparr>z_status := A_Invalid\<rparr>) st"
  let ?f = "\<lambda>c. c\<lparr>c_status := C_Invalid, c_error := Some (''malformed'', EXPIRED_AUTHORIZATION_DETAIL)\<rparr>"
  let ?st2 = "?st1\<lparr>st_challenges := update_rows
      (\<lambda>c. c_authorization_id c = z_id z \<and> c_status c \<in> {C_Pending, C_Processing}) ?f (st_challenges ?st1)\<rparr>"
  have "calm st ?st1" by (rule calm_update_authz) simp_all
  also have "calm ?st1 ?st2" by (rule calm_settle_pending) simp
  finally have "calm st ?st2" .
  then show ?thesis
    unfolding expire_authorization_def Let_def
    by (auto split: option.split bool.split intro: calm_trans calm_fail_order)
qed

lemma calm_expire_authorization_if_needed: "calm st (expire_authorization_if_needed now z st)"
  by (simp add: expire_authorization_if_needed_def calm_expire_authorization)

lemma calm_expire_order: "calm st (expire_order_if_needed now o' st)"
proof -
  have "calm s (fold (\<lambda>z st. if z_status z = A_Pending then expire_authorization z False st else st) zs s)" for zs s
    by (rule calm_fold) (simp add: calm_expire_authorization)
  then have "calm st (set_order_authorization_error oid p
      (fold (\<lambda>z st. if z_status z = A_Pending then expire_authorization z False st else st) zs
        (update_order oid (\<lambda>o'. o'\<lparr>o_status := O_Invalid\<rparr>) st)))" for oid p zs
    by (rule calm_trans[OF calm_trans[OF calm_invalid_order(1)] calm_set_error])
  then show ?thesis unfolding expire_order_if_needed_def Let_def by simp
qed

lemma calm_deactivate_row: "calm st (deactivate_row z st)"
proof -
  have "calm st (update_authz (z_id z) (\<lambda>z. z\<lparr>z_status := A_Deactivated\<rparr>) st)"
    by (rule calm_update_authz) simp_all
  then show ?thesis
    unfolding deactivate_row_def Let_def
    by (auto split: option.split intro: calm_trans calm_invalid_order)
qed

lemma calm_deactivate: "calm st (deactivate_authorization z st)"
  unfolding deactivate_authorization_def by (simp only: calm_fold[OF calm_deactivate_row] calm_refl split: if_split) simp

lemma calm_order_info: "calm st (snd (order_info now account oid st))"
  by (simp add: order_info_def calm_expire_order split: option.split)

lemma calm_authorization_info: "calm st (snd (authorization_info now account zid d st))"
  unfolding authorization_info_def Let_def
  by (auto split: option.split intro: calm_trans calm_expire_authorization_if_needed calm_deactivate)

text \<open>A sound operation may also advance an order, when all its authorizations are then valid.\<close>

definition engaged :: "nat \<Rightarrow> acme_state \<Rightarrow> bool" where
  "engaged oid st \<longleftrightarrow> advanced oid st \<or> oid \<in> set (st_finalizing st)"

definition sound :: "acme_state \<Rightarrow> acme_state \<Rightarrow> bool" where
  "sound st st' \<longleftrightarrow> quiet st st' \<and> (proved st \<longrightarrow> proved st')
     \<and> (\<forall>oid. engaged oid st' \<longrightarrow> engaged oid st \<or> advanced oid st' \<and> all_authz_valid oid st')"

lemma calm_sound: "calm st st' \<Longrightarrow> sound st st'"
  by (auto simp: calm_def sound_def engaged_def)

lemma sound_flights: "set f \<subseteq> set (st_finalizing st) \<Longrightarrow> sound st (st\<lparr>st_validating := v, st_finalizing := f\<rparr>)"
  by (auto simp: sound_def quiet_def proved_def engaged_def advanced_def)

lemma sound_after_calm:
  assumes "calm st st'" "sound st' st''"
  shows "sound st st''"
  using assms unfolding calm_def sound_def engaged_def by (metis quiet_trans)

lemma sound_finalize_start: "sound st (snd (finalize_start env account oid st))"
proof (cases "fst (finalize_start env account oid st) = 200")
  case False
  then have "snd (finalize_start env account oid st) = st"
    by (auto simp: finalize_start_def begin_order_processing_def split: option.splits if_splits)
  then show ?thesis by (simp add: calm_sound)
next
  case True
  let ?st1 = "update_order oid (\<lambda>o'. o'\<lparr>o_status := O_Processing\<rparr>) st"
  from True have r: "0 < count_rows (\<lambda>o'. o_id o' = oid \<and> o_status o' = O_Ready) (st_orders st)"
    and res: "snd (finalize_start env account oid st) = ?st1\<lparr>st_finalizing := oid # st_finalizing st\<rparr>"
    by (auto simp: finalize_start_def begin_order_processing_def update_order_def split: option.splits if_splits)
  from r have adv: "advanced oid st" by (auto simp: count_rows_pos advanced_def advanced_order_def)
  have "quiet st ?st1" by (rule quiet_update_order) simp
  then have q: "quiet st (?st1\<lparr>st_finalizing := oid # st_finalizing st\<rparr>)" by (simp add: quiet_def)
  have "engaged i st" if e: "engaged i (?st1\<lparr>st_finalizing := oid # st_finalizing st\<rparr>)" for i
  proof (cases "i = oid")
    case True
    then show ?thesis using adv by (simp add: engaged_def)
  next
    case False
    then show ?thesis
      using e by (auto simp: engaged_def advanced_def update_order_def set_update_rows split: if_splits)
  qed
  then show ?thesis
    unfolding res sound_def using q by (simp add: proved_def update_order_def)
qed

lemma get_order_in: "get_order oid st = Some o' \<Longrightarrow> o' \<in> set (st_orders st) \<and> o_id o' = oid"
  unfolding get_order_def by (rule first_row_SomeD)

lemma get_authz_in: "get_authz zid st = Some z \<Longrightarrow> z \<in> set (st_authorizations st) \<and> z_id z = zid"
  unfolding get_authz_def by (rule first_row_SomeD)

lemma get_challenge_in: "get_challenge cid st = Some c \<Longrightarrow> c \<in> set (st_challenges st) \<and> c_id c = cid"
  unfolding get_challenge_def by (rule first_row_SomeD)

lemma row_unique: "distinct (map key xs) \<Longrightarrow> x \<in> set xs \<Longrightarrow> y \<in> set xs \<Longrightarrow> key x = key y \<Longrightarrow> x = y"
  by (meson distinct_map inj_onD)

lemma sound_update_engaged:
  assumes "\<And>o'. okey (f o') = okey o'" "engaged oid st"
  shows "sound st (update_order oid f st)"
proof -
  have "engaged i st" if e: "engaged i (update_order oid f st)" for i
  proof (cases "i = oid")
    case False
    have "o_id (f u) = o_id u" for u using assms(1)[of u] by (simp add: okey_def)
    then show ?thesis
      using e False by (auto simp: engaged_def advanced_def update_order_def set_update_rows split: if_splits)
  qed (simp add: assms(2))
  moreover have "proved st \<longrightarrow> proved (update_order oid f st)" by (simp add: proved_def update_order_def)
  ultimately show ?thesis using quiet_update_order[OF assms(1)] by (simp add: sound_def)
qed

lemma sound_restore:
  assumes "engaged oid st"
  shows "sound st (restore_processing_order oid st)"
  unfolding restore_processing_order_def
  by (auto split: option.split intro: calm_sound[OF calm_refl] sound_update_engaged assms)

lemma engaged_drop_flight: "engaged i (st\<lparr>st_finalizing := remove1 oid f\<rparr>) \<Longrightarrow> set f \<subseteq> set (st_finalizing st) \<Longrightarrow> engaged i st"
  using set_remove1_subset[of oid f] by (auto simp: engaged_def advanced_def)

text \<open>Operations on the rows of one order.\<close>

definition only_order :: "nat \<Rightarrow> acme_state \<Rightarrow> acme_state \<Rightarrow> bool" where
  "only_order oid st st' \<longleftrightarrow> quiet st st' \<and> (proved st \<longrightarrow> proved st')
     \<and> set (st_finalizing st') \<subseteq> set (st_finalizing st)
     \<and> (\<forall>i. i \<noteq> oid \<longrightarrow> advanced i st' \<longrightarrow> advanced i st)"

lemma only_order_refl [simp]: "only_order oid st st"
  by (simp add: only_order_def)

lemma only_order_trans: "only_order oid st st' \<Longrightarrow> only_order oid st' st'' \<Longrightarrow> only_order oid st st''"
  unfolding only_order_def by (meson quiet_trans subset_trans)

lemma only_order_update:
  assumes "\<And>o'. okey (f o') = okey o'"
  shows "only_order oid st (update_order oid f st)"
proof -
  have "o_id (f u) = o_id u" for u using assms[of u] by (simp add: okey_def)
  then have "advanced i st" if "i \<noteq> oid" "advanced i (update_order oid f st)" for i
    using that by (auto simp: advanced_def update_order_def set_update_rows split: if_splits)
  then show ?thesis
    using quiet_update_order[OF assms] by (simp add: only_order_def proved_def) (simp add: update_order_def)
qed

lemma only_order_sound: "only_order oid st st' \<Longrightarrow> engaged oid st \<Longrightarrow> sound st st'"
  unfolding only_order_def sound_def engaged_def by (metis subsetD)

lemma only_order_restore: "only_order oid st (restore_processing_order oid st)"
  by (simp add: restore_processing_order_def only_order_update split: option.split)

lemma only_order_finish: "only_order oid st (finish_finalize oid outcome st)"
proof (cases outcome)
  case (Issued c)
  then show ?thesis by (simp add: finish_finalize_def only_order_update)
next
  case (Bad_Request d)
  then show ?thesis
    using only_order_trans[OF only_order_update only_order_restore] by (simp add: finish_finalize_def)
next
  case (Caa_Refused d)
  then show ?thesis
    by (simp add: finish_finalize_def invalidate_processing_order_def only_order_update split: option.split)
next
  case Not_Issued
  then show ?thesis by (simp add: finish_finalize_def only_order_restore)
qed

lemma only_order_flight: "only_order oid st (st\<lparr>st_finalizing := remove1 i (st_finalizing st)\<rparr>)"
  using set_remove1_subset[of i "st_finalizing st"]
  by (auto simp: only_order_def quiet_def proved_def advanced_def)

lemma sound_finish:
  assumes "oid \<in> set (st_finalizing st)"
  shows "sound st (finish_finalize oid outcome (st\<lparr>st_finalizing := remove1 oid (st_finalizing st)\<rparr>))"
  by (rule only_order_sound[OF only_order_trans[OF only_order_flight only_order_finish]])
    (simp add: engaged_def assms)

section \<open>Outcomes of validations\<close>

lemma proved_mark_valid:
  assumes "proved st"
  shows "proved (st\<lparr>st_challenges := update_rows p (\<lambda>c. c\<lparr>c_status := C_Valid, c_validated := v\<rparr>) (st_challenges st)\<rparr>)"
  unfolding proved_def
proof (intro ballI impI)
  let ?f = "\<lambda>c. if p c then c\<lparr>c_status := C_Valid, c_validated := v\<rparr> else c"
  fix z assume "z \<in> set (st_authorizations (st\<lparr>st_challenges := update_rows p (\<lambda>c. c\<lparr>c_status := C_Valid, c_validated := v\<rparr>) (st_challenges st)\<rparr>))" "z_status z = A_Valid"
  then obtain c where "c \<in> set (st_challenges st)" "c_authorization_id c = z_id z" "c_status c = C_Valid"
    using assms by (auto simp: proved_def)
  then have "?f c \<in> ?f ` set (st_challenges st)" "c_authorization_id (?f c) = z_id z" "c_status (?f c) = C_Valid" by auto
  then show "\<exists>c\<in>set (st_challenges (st\<lparr>st_challenges := update_rows p (\<lambda>c. c\<lparr>c_status := C_Valid, c_validated := v\<rparr>) (st_challenges st)\<rparr>)).
      c_authorization_id c = z_id z \<and> c_status c = C_Valid"
    by (auto simp: set_update_rows)
qed

lemma calm_mark_valid:
  "calm st (st\<lparr>st_challenges := update_rows p (\<lambda>c. c\<lparr>c_status := C_Valid, c_validated := v\<rparr>) (st_challenges st)\<rparr>)"
  using quiet_update_challenges[where f = "\<lambda>c. c\<lparr>c_status := C_Valid, c_validated := v\<rparr>"] proved_mark_valid
  by (simp add: calm_def advanced_def)

text \<open>An authorization turns valid, with its pending challenges removed.\<close>

definition authz_validated :: "nat \<Rightarrow> acme_state \<Rightarrow> acme_state" where
  "authz_validated zid st =
     (let st1 = update_authz zid (\<lambda>z. z\<lparr>z_status := A_Valid\<rparr>) st
      in st1\<lparr>st_challenges :=
           filter (\<lambda>c. \<not> (c_authorization_id c = zid \<and> c_status c \<in> {C_Pending, C_Processing}))
             (st_challenges st1)\<rparr>)"

lemma calm_authz_validated:
  assumes "list_ex (\<lambda>c. c_status c = C_Valid) (authz_challenges zid st)"
  shows "calm st (authz_validated zid st)"
proof -
  let ?st1 = "update_authz zid (\<lambda>z. z\<lparr>z_status := A_Valid\<rparr>) st"
  have "quiet st ?st1" by (rule quiet_update_authz) simp
  also have "quiet ?st1 (authz_validated zid st)"
    unfolding authz_validated_def Let_def by (rule quiet_filter_challenges)
  finally have q: "quiet st (authz_validated zid st)" .
  have "proved (authz_validated zid st)" if "proved st"
    unfolding proved_def
  proof (intro ballI impI)
    fix z assume z: "z \<in> set (st_authorizations (authz_validated zid st))" "z_status z = A_Valid"
    then obtain y where y: "y \<in> set (st_authorizations st)" "z_id y = z_id z" "z_id y = zid \<or> z_status y = A_Valid"
      by (auto simp: authz_validated_def Let_def update_authz_def set_update_rows split: if_splits)
    have "\<exists>c \<in> set (st_challenges st). c_authorization_id c = z_id z \<and> c_status c = C_Valid"
    proof (cases "z_id z = zid")
      case True
      then show ?thesis using assms by (auto simp: list_ex_iff authz_challenges_def)
    next
      case False
      then show ?thesis using that y by (metis proved_def)
    qed
    then show "\<exists>c \<in> set (st_challenges (authz_validated zid st)). c_authorization_id c = z_id z \<and> c_status c = C_Valid"
      by (fastforce simp: authz_validated_def Let_def update_authz_def)
  qed
  then show ?thesis
    using q by (simp add: calm_def) (simp add: authz_validated_def Let_def update_authz_def advanced_def)
qed

lemma sound_set_ready:
  assumes "all_authz_valid oid st"
  shows "sound st (update_order oid (\<lambda>o'. o'\<lparr>o_status := O_Ready\<rparr>) st)"
proof -
  let ?st' = "update_order oid (\<lambda>o'. o'\<lparr>o_status := O_Ready\<rparr>) st"
  have o: "only_order oid st ?st'" by (rule only_order_update) simp
  have v: "all_authz_valid oid ?st'"
    using assms by (simp add: all_authz_valid_def order_authorizations_def update_order_def)
  have "engaged i st \<or> advanced i ?st' \<and> all_authz_valid i ?st'" if "engaged i ?st'" for i
    using that o v by (cases "i = oid") (auto simp: only_order_def engaged_def)
  then show ?thesis using o by (simp add: sound_def only_order_def)
qed

lemma sound_update_authorization_status: "sound st (update_authorization_status zid st)"
proof (cases "get_authz zid st")
  case None
  then show ?thesis by (simp add: update_authorization_status_def calm_sound)
next
  case (Some z)
  show ?thesis
  proof (cases "z_status z = A_Deactivated \<or> \<not> list_ex (\<lambda>c. c_status c = C_Valid) (authz_challenges zid st)")
    case True
    then show ?thesis using Some by (auto simp: update_authorization_status_def calm_sound)
  next
    case False
    then have calm: "calm st (authz_validated zid st)" by (simp add: calm_authz_validated)
    have "update_authorization_status zid st =
        (case z_order_id z of None \<Rightarrow> authz_validated zid st
         | Some oid \<Rightarrow> if all_authz_valid oid (authz_validated zid st)
             then update_order oid (\<lambda>o'. o'\<lparr>o_status := O_Ready\<rparr>) (authz_validated zid st)
             else authz_validated zid st)"
      using Some False
      by (cases "z_order_id z") (simp_all add: update_authorization_status_def authz_validated_def Let_def)
    then show ?thesis
      using calm by (auto split: option.split intro: calm_sound sound_after_calm[OF calm] sound_set_ready)
  qed
qed

lemma sound_validation_succeeds: "sound st (validation_succeeds now cid st)"
  unfolding validation_succeeds_def
  by (auto split: option.split intro: calm_sound[OF calm_refl]
      sound_after_calm[OF calm_mark_valid sound_update_authorization_status])

lemma calm_invalidate_challenge:
  assumes "rows_ok st"
  shows "calm st (invalidate_challenge cid p st)"
proof (cases "get_challenge cid st")
  case None
  then show ?thesis by (simp add: invalidate_challenge_def)
next
  case (Some c)
  let ?f = "\<lambda>c. c\<lparr>c_status := C_Invalid, c_error := Some p\<rparr>"
  let ?st1 = "st\<lparr>st_challenges := update_rows (\<lambda>c. c_id c = cid) ?f (st_challenges st)\<rparr>"
  note c = get_challenge_in[OF Some]
  have q1: "quiet st ?st1" by (rule quiet_update_challenges) simp
  have gz: "get_authz i ?st1 = get_authz i st" for i by (simp add: get_authz_def)
  obtain y where y: "y \<in> set (st_authorizations st)" "z_id y = c_authorization_id c"
    using assms c unfolding rows_ok_def by blast
  then have "get_authz (c_authorization_id c) st \<noteq> None" by (auto simp: get_authz_def first_row_None_iff)
  then obtain z where z: "get_authz (c_authorization_id c) st = Some z" by blast
  have zin: "z \<in> set (st_authorizations st)" "z_id z = c_authorization_id c" using get_authz_in[OF z] by auto
  have others: "\<exists>d \<in> set (st_challenges ?st1). c_authorization_id d = z_id x \<and> c_status d = C_Valid"
    if pr: "proved st" and x: "x \<in> set (st_authorizations st)" "z_status x = A_Valid" "z_id x \<noteq> z_id z" for x
  proof -
    from pr x obtain d where d: "d \<in> set (st_challenges st)" "c_authorization_id d = z_id x" "c_status d = C_Valid"
      unfolding proved_def by blast
    have "c_id d \<noteq> cid"
      using row_unique[of c_id "st_challenges st" d c] assms c d zin(2) x(3) by (auto simp: rows_ok_def)
    then show ?thesis using d by (auto simp: set_update_rows intro!: bexI[of _ d] rev_image_eqI[of d])
  qed
  have uniq: "x = z" if "x \<in> set (st_authorizations st)" "z_id x = z_id z" for x
    using row_unique[of z_id "st_authorizations st" x z] assms that zin(1) by (simp add: rows_ok_def)
  show ?thesis
  proof (cases "z_status z = A_Deactivated")
    case True
    have "proved ?st1" if "proved st"
      unfolding proved_def
    proof (intro ballI impI)
      fix x assume x: "x \<in> set (st_authorizations ?st1)" "z_status x = A_Valid"
      then have "z_id x \<noteq> z_id z" using uniq[of x] True by auto
      then show "\<exists>d \<in> set (st_challenges ?st1). c_authorization_id d = z_id x \<and> c_status d = C_Valid"
        using others[OF that, of x] x by simp
    qed
    then have "calm st ?st1" using q1 by (simp add: calm_def advanced_def)
    then show ?thesis using Some z True by (simp add: invalidate_challenge_def gz)
  next
    case False
    let ?st2 = "update_authz (z_id z) (\<lambda>z. z\<lparr>z_status := A_Invalid\<rparr>) ?st1"
    have "quiet ?st1 ?st2" by (rule quiet_update_authz) simp
    with q1 have q2: "quiet st ?st2" by (rule quiet_trans)
    have "proved ?st2" if "proved st"
      unfolding proved_def
    proof (intro ballI impI)
      fix x assume x: "x \<in> set (st_authorizations ?st2)" "z_status x = A_Valid"
      then have "x \<in> set (st_authorizations st)" "z_id x \<noteq> z_id z"
        by (auto simp: update_authz_def set_update_rows split: if_splits)
      then show "\<exists>d \<in> set (st_challenges ?st2). c_authorization_id d = z_id x \<and> c_status d = C_Valid"
        using others[OF that, of x] x(2) by (simp add: update_authz_def)
    qed
    then have calm: "calm st ?st2" using q2 by (simp add: calm_def) (simp add: update_authz_def advanced_def)
    have eq: "invalidate_challenge cid p st = (case z_order_id z of None \<Rightarrow> ?st2 | Some oid \<Rightarrow> fail_order oid p ?st2)"
      using Some z False by (simp add: invalidate_challenge_def gz Let_def)
    show ?thesis
      unfolding eq using calm calm_trans[OF calm calm_fail_order] by (simp split: option.split)
  qed
qed

section \<open>New rows\<close>

text \<open>Adding an authorization and its challenges.\<close>

definition extend :: "acme_authorization \<Rightarrow> acme_challenge list \<Rightarrow> acme_state \<Rightarrow> acme_state" where
  "extend z cs st = st\<lparr>st_authorizations := st_authorizations st @ [z],
     st_challenges := st_challenges st @ cs, st_next := Suc (st_next st) + length cs\<rparr>"

definition good_rows :: "nat \<Rightarrow> acme_authorization \<Rightarrow> acme_challenge list \<Rightarrow> bool" where
  "good_rows n z cs \<longleftrightarrow> z_id z = n \<and> map c_id cs = [Suc n ..< Suc n + length cs]
     \<and> (\<forall>c \<in> set cs. c_authorization_id c = n \<and> allowed_type z (c_type c))
     \<and> (z_status z = A_Valid \<longrightarrow> (\<exists>c \<in> set cs. c_status c = C_Valid))"

lemma rows_ok_extend:
  assumes "rows_ok st" "good_rows (st_next st) z cs"
    and "\<And>oid. z_order_id z = Some oid \<Longrightarrow> \<exists>o' \<in> set (st_orders st). o_id o' = oid \<and> o_account_id o' = z_account_id z"
  shows "rows_ok (extend z cs st)"
proof -
  note ok = assms(1)[unfolded rows_ok_def] and good = assms(2)[unfolded good_rows_def]
  have ids: "c_id ` set cs = {Suc (st_next st) ..< Suc (st_next st) + length cs}"
    using good by (metis list.set_map set_upt)
  have zid: "z_id z = st_next st" using good by blast
  have d1: "distinct (map z_id (st_authorizations st @ [z]))" using ok zid by auto
  have "distinct (map c_id cs)" using good by (metis distinct_upt)
  moreover have "c_id ` set (st_challenges st) \<inter> c_id ` set cs = {}" using ok ids by auto
  ultimately have d2: "distinct (map c_id (st_challenges st @ cs))" using ok by simp
  have lt: "\<forall>c \<in> set (st_challenges st @ cs). c_id c < Suc (st_next st) + length cs" using ok ids by auto
  have zlt: "\<forall>y \<in> set (st_authorizations st @ [z]). z_id y < Suc (st_next st) + length cs" using ok zid by auto
  have olt: "\<forall>o' \<in> set (st_orders st). o_id o' < Suc (st_next st) + length cs" using ok by auto
  have own: "\<forall>c \<in> set (st_challenges st @ cs). \<exists>y \<in> set (st_authorizations st @ [z]).
          z_id y = c_authorization_id c \<and> allowed_type y (c_type c)"
  proof
    fix c assume "c \<in> set (st_challenges st @ cs)"
    then consider "c \<in> set (st_challenges st)" | "c \<in> set cs" by auto
    then show "\<exists>y \<in> set (st_authorizations st @ [z]). z_id y = c_authorization_id c \<and> allowed_type y (c_type c)"
    proof cases
      case 1
      then show ?thesis using ok by auto
    next
      case 2
      then show ?thesis using good zid by (intro bexI[of _ z]) auto
    qed
  qed
  have ord: "\<forall>y \<in> set (st_authorizations st @ [z]). \<forall>oid. z_order_id y = Some oid \<longrightarrow>
      (\<exists>o' \<in> set (st_orders st). o_id o' = oid \<and> o_account_id o' = z_account_id y)"
    using ok assms(3) by auto
  show ?thesis
    unfolding rows_ok_def extend_def using ok d1 d2 lt zlt olt own ord by simp
qed

lemma proved_extend:
  assumes "proved st" "rows_ok st" "good_rows (st_next st) z cs"
  shows "proved (extend z cs st)"
  using assms unfolding proved_def good_rows_def extend_def by fastforce

lemma challenge_rows_ids: "map c_id (challenge_rows n zid s v ts) = [n ..< n + length ts]"
  by (induction ts arbitrary: n) (auto simp: upt_conv_Cons simp del: upt_Suc)

lemma challenge_rows_length [simp]: "length (challenge_rows n zid s v ts) = length ts"
  by (induction ts arbitrary: n) auto

lemma challenge_rows_fields:
  "c \<in> set (challenge_rows n zid s v ts) \<Longrightarrow> c_authorization_id c = zid \<and> c_type c \<in> set ts \<and> c_status c = s"
  by (induction ts arbitrary: n) auto

lemma challenge_rows_type: "t \<in> set ts \<Longrightarrow> \<exists>c \<in> set (challenge_rows n zid s v ts). c_type c = t \<and> c_status c = s"
  by (induction ts arbitrary: n) auto

lemma copy_rows_ids: "map c_id (copy_rows n zid cs) = [n ..< n + length cs]"
  by (induction cs arbitrary: n) (auto simp: upt_conv_Cons simp del: upt_Suc)

lemma copy_rows_length [simp]: "length (copy_rows n zid cs) = length cs"
  by (induction cs arbitrary: n) auto

lemma copy_rows_fields:
  "c \<in> set (copy_rows n zid cs) \<Longrightarrow> c_authorization_id c = zid \<and> c_status c = C_Valid \<and> c_type c \<in> c_type ` set cs"
  by (induction cs arbitrary: n) auto

lemma offered_allowed:
  "t \<in> set (offered_types p s z) \<Longrightarrow> allowed_type z t"
  by (auto simp: offered_types_def allowed_type_def is_ip_authz_def Let_def split: if_splits)

lemma good_offered:
  assumes "z_id z = n" "z_status z = A_Valid \<Longrightarrow> s = C_Valid \<and> \<not> is_ip_authz z"
  shows "good_rows n z (challenge_rows (Suc n) n s v (offered_types p s z))"
proof -
  have "\<exists>c \<in> set (challenge_rows (Suc n) n s v (offered_types p s z)). c_status c = C_Valid" if "z_status z = A_Valid"
  proof -
    have "DNS_01 \<in> set (offered_types p s z)"
      using assms(2)[OF that] by (simp add: offered_types_def is_ip_authz_def Let_def)
    from challenge_rows_type[OF this] show ?thesis using assms(2)[OF that] by blast
  qed
  then show ?thesis
    unfolding good_rows_def
    using assms(1) challenge_rows_ids challenge_rows_fields offered_allowed by (metis challenge_rows_length)
qed

lemma latest_expiry_in: "latest_expiry b zs = Some z \<Longrightarrow> b = Some z \<or> z \<in> set zs"
  by (induction b zs rule: latest_expiry.induct) (auto split: if_splits)

lemma find_valid_auth_reusable:
  "find_valid_auth now account ident wild st = Some z
   \<Longrightarrow> z \<in> set (st_authorizations st) \<and> reusable now account ident wild z"
  unfolding find_valid_auth_def by (auto dest: latest_expiry_in)

lemma good_copies:
  assumes st: "rows_ok st" "proved st" and y: "y \<in> set (st_authorizations st)" "z_status y = A_Valid"
    and z: "z_id z = st_next st" "z_identifier z = z_identifier y" "z_wildcard z = z_wildcard y"
  shows "good_rows (st_next st) z (copy_rows (Suc (st_next st)) (st_next st)
           (filter (\<lambda>c. c_status c = C_Valid) (authz_challenges (z_id y) st)))"
proof -
  let ?cs = "filter (\<lambda>c. c_status c = C_Valid) (authz_challenges (z_id y) st)"
  have eq: "allowed_type z = allowed_type y" using z by (auto simp: allowed_type_def is_ip_authz_def)
  have al: "allowed_type y (c_type c)" if "c \<in> set ?cs" for c
  proof -
    have c: "c \<in> set (st_challenges st)" "c_authorization_id c = z_id y" using that by (auto simp: authz_challenges_def)
    then obtain x where x: "x \<in> set (st_authorizations st)" "z_id x = z_id y" "allowed_type x (c_type c)"
      using st(1) unfolding rows_ok_def by metis
    then have "x = y" using row_unique[of z_id "st_authorizations st" x y] st(1) y(1) by (simp add: rows_ok_def)
    then show ?thesis using x(3) by simp
  qed
  have "?cs \<noteq> []"
    using st(2) y by (auto simp: proved_def authz_challenges_def filter_empty_conv)
  then have "copy_rows n i ?cs \<noteq> []" for n i by (metis copy_rows_length length_0_conv)
  then have v: "\<exists>c \<in> set (copy_rows n i ?cs). c_status c = C_Valid" for n i
    using copy_rows_fields by (metis list.set_sel(1))
  have "c_authorization_id c = st_next st \<and> allowed_type z (c_type c)"
    if "c \<in> set (copy_rows (Suc (st_next st)) (st_next st) ?cs)" for c
    using copy_rows_fields[OF that] al eq by auto
  then show ?thesis
    unfolding good_rows_def using z(1) v by (simp add: copy_rows_ids del: upt_Suc)
qed

lemma auto_approved_not_ip:
  assumes "auto_approved env i" "(ident, wild) = normalize_authorization_identifier i"
  shows "json_field ''type'' ident \<noteq> JStr ''ip''"
proof -
  have t: "json_field ''type'' i = JStr ''dns''" using assms(1) by (simp add: auto_approved_def)
  then obtain kvs where i: "i = JDict kvs" by (cases i) (auto simp: json_field_def)
  have "map_of (set_field ''value'' v kvs) ''type'' = map_of kvs ''type''" for v
    by (induction kvs) (auto simp: set_field_def)
  then have "map_of (put_field ''value'' v kvs) ''type'' = map_of kvs ''type''" for v
    by (simp add: put_field_def map_add_def split: option.split)
  then show ?thesis using assms(2) t by (auto simp: i normalize_authorization_identifier_def Let_def json_field_def)
qed

lemma create_authorization_extend:
  assumes "rows_ok st" "proved st"
  shows "\<exists>z cs. fst (create_authorization env now oid i account st) = extend z cs st
    \<and> good_rows (st_next st) z cs \<and> z_order_id z = Some oid \<and> z_account_id z = account
    \<and> authz_name z = normalize_authorization_identifier i"
proof -
  obtain ident wild where n: "normalize_authorization_identifier i = (ident, wild)" by fastforce
  let ?z = "\<lambda>s e. \<lparr>z_id = st_next st, z_order_id = Some oid, z_account_id = account, z_identifier = ident,
               z_status = s, z_expires = e, z_wildcard = wild\<rparr>"
  let ?src = "if account = [] then None else find_valid_auth now account ident wild st"
  let ?cs = "\<lambda>s v e p. challenge_rows (Suc (st_next st)) (st_next st) p v
                 (offered_types (env_dns_persist env) p (?z s e))"
  consider (reuse) y where "?src = Some y" | (auto) "?src = None" "auto_approved env i"
    | (new) "?src = None" "\<not> auto_approved env i" by blast
  then show ?thesis
  proof cases
    case reuse
    then have y: "y \<in> set (st_authorizations st)" "reusable now account ident wild y"
      using find_valid_auth_reusable[of now account ident wild st y] by (auto split: if_splits)
    let ?c = "copy_rows (Suc (st_next st)) (st_next st)
           (filter (\<lambda>c. c_status c = C_Valid) (authz_challenges (z_id y) st))"
    have "good_rows (st_next st) (?z A_Valid (z_expires y)) ?c"
      by (rule good_copies[OF assms y(1)]) (use y(2) in \<open>simp_all add: reusable_def\<close>)
    moreover have "fst (create_authorization env now oid i account st) = extend (?z A_Valid (z_expires y)) ?c st"
      using reuse by (simp add: create_authorization_def n add_authz_def copy_validated_challenges_def
          add_challenges_def extend_def authz_challenges_def Let_def)
    ultimately show ?thesis using n by (intro exI[of _ "?z A_Valid (z_expires y)"] exI[of _ ?c]) (simp add: authz_name_def)
  next
    case auto
    have "\<not> is_ip_authz (?z A_Valid (now + days 7))"
      using auto_approved_not_ip[OF auto(2) n[symmetric]] by (simp add: is_ip_authz_def)
    then have "good_rows (st_next st) (?z A_Valid (now + days 7)) (?cs A_Valid (Some now) (now + days 7) C_Valid)"
      by (intro good_offered) simp_all
    moreover have "fst (create_authorization env now oid i account st)
        = extend (?z A_Valid (now + days 7)) (?cs A_Valid (Some now) (now + days 7) C_Valid) st"
      using auto by (simp add: create_authorization_def n add_authz_def create_challenges_def add_challenges_def
          extend_def Let_def)
    ultimately show ?thesis
      using n by (intro exI[of _ "?z A_Valid (now + days 7)"] exI[of _ "?cs A_Valid (Some now) (now + days 7) C_Valid"])
        (simp add: authz_name_def)
  next
    case new
    have "good_rows (st_next st) (?z A_Pending (now + days 7)) (?cs A_Pending None (now + days 7) C_Pending)"
      by (intro good_offered) simp_all
    moreover have "fst (create_authorization env now oid i account st)
        = extend (?z A_Pending (now + days 7)) (?cs A_Pending None (now + days 7) C_Pending) st"
      using new by (simp add: create_authorization_def n add_authz_def create_challenges_def add_challenges_def
          extend_def Let_def)
    ultimately show ?thesis
      using n by (intro exI[of _ "?z A_Pending (now + days 7)"] exI[of _ "?cs A_Pending None (now + days 7) C_Pending"])
        (simp add: authz_name_def)
  qed
qed

lemma create_pre_authorization_extend:
  assumes "rows_ok st" "proved st"
  shows "create_pre_authorization env now account i st = st
    \<or> (\<exists>z cs. create_pre_authorization env now account i st = extend z cs st
         \<and> good_rows (st_next st) z cs \<and> z_order_id z = None)"
proof -
  obtain ident wild where n: "normalize_authorization_identifier i = (ident, wild)" by fastforce
  let ?z = "\<lambda>s e. \<lparr>z_id = st_next st, z_order_id = None, z_account_id = account, z_identifier = ident,
               z_status = s, z_expires = e, z_wildcard = wild\<rparr>"
  let ?cs = "\<lambda>s v e p. challenge_rows (Suc (st_next st)) (st_next st) p v
                 (offered_types (env_dns_persist env) p (?z s e))"
  let ?src = "first_row (reusable now account ident wild) (st_authorizations st)"
  consider "?src \<noteq> None" | (auto) "?src = None" "auto_approved env i"
    | (new) "?src = None" "\<not> auto_approved env i" by blast
  then show ?thesis
  proof cases
    case 1
    then show ?thesis by (auto simp: create_pre_authorization_def n)
  next
    case auto
    have "\<not> is_ip_authz (?z A_Valid (now + days 7))"
      using auto_approved_not_ip[OF auto(2) n[symmetric]] by (simp add: is_ip_authz_def)
    then have "good_rows (st_next st) (?z A_Valid (now + days 7)) (?cs A_Valid (Some now) (now + days 7) C_Valid)"
      by (intro good_offered) simp_all
    moreover have "create_pre_authorization env now account i st
        = extend (?z A_Valid (now + days 7)) (?cs A_Valid (Some now) (now + days 7) C_Valid) st"
      using auto by (simp add: create_pre_authorization_def n add_authz_def create_challenges_def add_challenges_def
          extend_def Let_def)
    ultimately show ?thesis by (metis acme_authorization.select_convs(2))
  next
    case new
    have "good_rows (st_next st) (?z A_Pending (now + days 7)) (?cs A_Pending None (now + days 7) C_Pending)"
      by (intro good_offered) simp_all
    moreover have "create_pre_authorization env now account i st
        = extend (?z A_Pending (now + days 7)) (?cs A_Pending None (now + days 7) C_Pending) st"
      using new by (simp add: create_pre_authorization_def n add_authz_def create_challenges_def add_challenges_def
          extend_def Let_def)
    ultimately show ?thesis by (metis acme_authorization.select_convs(2))
  qed
qed

text \<open>The loop of \<open>create_order\<close>: what it adds, and that both the session and the committed state stay
  within the invariant.\<close>

definition rows_inv :: "acme_state \<Rightarrow> bool" where
  "rows_inv st \<longleftrightarrow> rows_ok st \<and> proved st"

lemma rows_inv_create_authorization:
  assumes "rows_inv st" "\<exists>o' \<in> set (st_orders st). o_id o' = oid \<and> o_account_id o' = account"
  shows "rows_inv (fst (create_authorization env now oid i account st))"
  using create_authorization_extend[of st env now oid i account] assms rows_ok_extend proved_extend
  unfolding rows_inv_def by (metis option.inject)

definition adds_authorizations :: "nat \<Rightarrow> json list \<Rightarrow> acme_state \<Rightarrow> acme_state \<Rightarrow> bool" where
  "adds_authorizations oid is st st' \<longleftrightarrow>
     (\<exists>zs. st_authorizations st' = st_authorizations st @ zs
        \<and> map authz_name zs = map normalize_authorization_identifier is
        \<and> (\<forall>z \<in> set zs. z_order_id z = Some oid))
     \<and> st_orders st' = st_orders st \<and> st_finalizing st' = st_finalizing st"

lemma adds_authorizations_Cons:
  assumes "st' = extend z cs st" "z_order_id z = Some oid" "authz_name z = normalize_authorization_identifier i"
    and "adds_authorizations oid is st' st''"
  shows "adds_authorizations oid (i # is) st st''"
proof -
  from assms(4) obtain zs where "st_authorizations st'' = st_authorizations st' @ zs"
    "map authz_name zs = map normalize_authorization_identifier is" "\<forall>z \<in> set zs. z_order_id z = Some oid"
    by (auto simp: adds_authorizations_def)
  then have "\<exists>zs. st_authorizations st'' = st_authorizations st @ zs
      \<and> map authz_name zs = map normalize_authorization_identifier (i # is) \<and> (\<forall>z \<in> set zs. z_order_id z = Some oid)"
    using assms(1-3) by (intro exI[of _ "z # zs"]) (simp add: extend_def)
  then show ?thesis using assms(1,4) by (simp add: adds_authorizations_def extend_def)
qed

lemma create_authorizations_props:
  assumes "rows_inv st" "\<exists>o' \<in> set (st_orders st). o_id o' = oid \<and> o_account_id o' = account"
  shows "adds_authorizations oid is st (fst (create_authorizations env now oid account is st com))
    \<and> rows_inv (fst (create_authorizations env now oid account is st com))"
  using assms
proof (induction "is" arbitrary: st com)
  case (Cons i rest)
  obtain st' b where s: "create_authorization env now oid i account st = (st', b)" by fastforce
  obtain z cs where e: "st' = extend z cs st" "z_order_id z = Some oid" "authz_name z = normalize_authorization_identifier i"
    using create_authorization_extend[of st env now oid i account] Cons.prems(1) s by (auto simp: rows_inv_def)
  have inv': "rows_inv st'" using rows_inv_create_authorization[OF Cons.prems(1,2)] s by (metis fst_conv)
  have "\<exists>o' \<in> set (st_orders st'). o_id o' = oid \<and> o_account_id o' = account"
    using Cons.prems(2) e(1) by (simp add: extend_def)
  note IH = Cons.IH[OF inv' this, of "if b then st' else com"]
  show ?case using IH adds_authorizations_Cons[OF e] by (simp add: s)
qed (simp add: adds_authorizations_def)

lemma create_authorizations_committed:
  assumes "rows_inv st" "\<exists>o' \<in> set (st_orders st). o_id o' = oid \<and> o_account_id o' = account" "rows_inv com"
  shows "rows_inv (snd (create_authorizations env now oid account is st com))"
  using assms
proof (induction "is" arbitrary: st com)
  case (Cons i rest)
  obtain st' b where s: "create_authorization env now oid i account st = (st', b)" by fastforce
  have inv': "rows_inv st'" using rows_inv_create_authorization[OF Cons.prems(1,2)] s by (metis fst_conv)
  obtain z cs where "st' = extend z cs st"
    using create_authorization_extend[of st env now oid i account] Cons.prems(1) s by (auto simp: rows_inv_def)
  then have "\<exists>o' \<in> set (st_orders st'). o_id o' = oid \<and> o_account_id o' = account"
    using Cons.prems(2) by (simp add: extend_def)
  then show ?case using Cons.IH[OF inv'] Cons.prems(3) inv' by (simp add: s)
qed simp

lemma add_order_inv:
  assumes "rows_inv st" "add_order now account ids p st = (oid, st1)"
  shows "rows_inv st1 \<and> (\<exists>o' \<in> set (st_orders st1). o_id o' = oid \<and> o_account_id o' = account)"
  using assms unfolding rows_inv_def rows_ok_def proved_def add_order_def by fastforce

section \<open>Every step keeps the invariant\<close>

lemma sound_inv: "sound st st' \<Longrightarrow> rows_inv st \<Longrightarrow> rows_inv st'"
  unfolding rows_inv_def sound_def by (metis rows_ok_quiet)

lemma sound_covered: "sound st st' \<Longrightarrow> covered st \<Longrightarrow> covered st'"
  unfolding sound_def by (metis covered_quiet)

lemma sound_validating: "sound st (st\<lparr>st_validating := v\<rparr>)"
  by (auto simp: sound_def quiet_def proved_def engaged_def advanced_def)

lemma sound_after_validating:
  assumes "sound (st\<lparr>st_validating := v\<rparr>) st'"
  shows "sound st st'"
proof -
  have "calm st (st\<lparr>st_validating := v\<rparr>)" by (auto simp: calm_def quiet_def proved_def advanced_def)
  then show ?thesis using assms by (rule sound_after_calm)
qed

text \<open>A step creates rows, or is sound.\<close>

lemma acme_step_cases:
  assumes "acme_step faults st st'" "rows_inv st"
  obtains (created) env now account ids p where "st' = create_order env now account ids p st"
  | (interrupted) env now account ids p k where faults "st' = create_order_interrupted env now account ids p k st"
  | (pre) env now account i where "st' = create_pre_authorization env now account i st"
  | (sound) "sound st st'"
  using assms(1)
proof (cases rule: acme_step.cases)
  case new_order_step
  then show ?thesis by (intro created)
next
  case interrupted_step
  then show ?thesis by (intro interrupted)
next
  case new_authz_step
  then show ?thesis by (intro pre)
next
  case respond_step
  show ?thesis by (rule sound) (simp only: respond_step(1) sound_validating)
next
  case succeed_step
  show ?thesis
    by (rule sound) (simp only: succeed_step(1) sound_after_validating[OF sound_validation_succeeds])
next
  case (fail_step cid p)
  have ok: "rows_ok (st\<lparr>st_validating := remove1 cid (st_validating st)\<rparr>)"
    using assms(2) by (simp add: rows_inv_def rows_ok_def)
  show ?thesis
    by (rule sound) (simp only: fail_step(1) sound_after_validating[OF calm_sound[OF calm_invalidate_challenge[OF ok]]])
next
  case order_info_step
  show ?thesis by (rule sound) (simp only: order_info_step calm_sound[OF calm_order_info])
next
  case authorization_info_step
  show ?thesis by (rule sound) (simp only: authorization_info_step calm_sound[OF calm_authorization_info])
next
  case finalize_step
  show ?thesis by (rule sound) (simp only: finalize_step sound_finalize_start)
next
  case finish_step
  show ?thesis by (rule sound) (simp only: finish_step(1) sound_finish[OF finish_step(2)])
qed

lemma rows_inv_create_order:
  assumes "rows_inv st"
  shows "rows_inv (create_order env now account ids p st)"
proof -
  obtain oid st1 where a: "add_order now account ids p st = (oid, st1)" by fastforce
  obtain st2 c where r: "create_authorizations env now oid account ids st1 st = (st2, c)" by fastforce
  have inv2: "rows_inv st2"
    using create_authorizations_props[of st1 oid account ids env now st] add_order_inv[OF assms a] r by simp
  have q: "quiet st2 (update_order oid (\<lambda>o'. o'\<lparr>o_status := O_Ready\<rparr>) st2)" by (rule quiet_update_order) simp
  have "rows_inv (update_order oid (\<lambda>o'. o'\<lparr>o_status := O_Ready\<rparr>) st2)"
    using inv2 rows_ok_quiet[OF _ q] by (simp add: rows_inv_def proved_def update_order_def)
  then show ?thesis using inv2 by (simp add: create_order_def a r)
qed

lemma rows_inv_step:
  assumes "acme_step faults st st'" "rows_inv st"
  shows "rows_inv st'"
  using assms
proof (cases rule: acme_step_cases)
  case created
  then show ?thesis using rows_inv_create_order[OF assms(2)] by simp
next
  case (interrupted env now account ids p k)
  obtain oid st1 where a: "add_order now account ids p st = (oid, st1)" by fastforce
  then show ?thesis
    using create_authorizations_committed add_order_inv[OF assms(2) a] assms(2)
    by (simp add: interrupted(2) create_order_interrupted_def)
next
  case (pre env now account i)
  then show ?thesis
    using create_pre_authorization_extend[of st env now account i] assms(2) rows_ok_extend proved_extend
    unfolding rows_inv_def by (metis option.distinct(1))
next
  case sound
  then show ?thesis using assms(2) by (rule sound_inv)
qed

lemma rows_inv_reach:
  assumes "acme_reaches faults empty_state st"
  shows "rows_inv st"
  using assms
proof (induction rule: rtranclp_induct)
  case base
  then show ?case by (simp add: rows_inv_def rows_ok_def proved_def empty_state_def)
qed (rule rows_inv_step)

lemma order_ids_fresh:
  assumes "rows_inv st" "z \<in> set (st_authorizations st)"
  shows "z_order_id z \<noteq> Some (st_next st)"
  using assms unfolding rows_inv_def rows_ok_def by (metis less_irrefl)

text \<open>What \<open>create_order\<close> does to the orders and to their authorizations.\<close>

lemma create_order_spec:
  assumes "rows_inv st" "st' = create_order env now account ids p st"
  shows "map authz_name (order_authorizations (st_next st) st') = map normalize_authorization_identifier ids"
    and "i \<noteq> st_next st \<Longrightarrow> order_authorizations i st' = order_authorizations i st"
    and "\<exists>o'. st_orders st' = st_orders st @ [o'] \<and> o_id o' = st_next st \<and> o_identifiers o' = ids
           \<and> (advanced_order o' \<longrightarrow> all_authz_valid (st_next st) st')"
    and "st_finalizing st' = st_finalizing st"
proof -
  obtain oid st1 where a: "add_order now account ids p st = (oid, st1)" by fastforce
  obtain st2 c where r: "create_authorizations env now oid account ids st1 st = (st2, c)" by fastforce
  have oid: "oid = st_next st" and old: "st_authorizations st1 = st_authorizations st"
    "st_finalizing st1 = st_finalizing st"
    using a by (auto simp: add_order_def)
  have "adds_authorizations oid ids st1 st2"
    using create_authorizations_props[of st1 oid account ids env now st] add_order_inv[OF assms(1) a] r by simp
  then obtain zs where zs: "st_authorizations st2 = st_authorizations st @ zs"
      "map authz_name zs = map normalize_authorization_identifier ids" "\<forall>z \<in> set zs. z_order_id z = Some oid"
    and o2: "st_orders st2 = st_orders st1" "st_finalizing st2 = st_finalizing st"
    using old by (auto simp: adds_authorizations_def)
  have st': "st_authorizations st' = st_authorizations st2" "st_finalizing st' = st_finalizing st2"
    unfolding assms(2) by (simp_all add: create_order_def a r update_order_def)
  have new: "order_authorizations oid st' = zs"
    using zs order_ids_fresh[OF assms(1)] oid by (simp add: order_authorizations_def st' filter_id_conv filter_empty_conv)
  show "map authz_name (order_authorizations (st_next st) st') = map normalize_authorization_identifier ids"
    using new zs(2) oid by simp
  show "order_authorizations i st' = order_authorizations i st" if "i \<noteq> st_next st"
    using zs oid that by (auto simp: order_authorizations_def st' filter_empty_conv)
  have not_old: "o_id u \<noteq> oid" if "u \<in> set (st_orders st)" for u
    using assms(1) that oid by (auto simp: rows_inv_def rows_ok_def)
  have ready: "all_authz_valid oid st' = all_authz_valid oid st2"
    by (simp add: all_authz_valid_def order_authorizations_def st')
  obtain u where u: "st_orders st1 = st_orders st @ [u]" "o_id u = oid" "o_identifiers u = ids" "\<not> advanced_order u"
    using a by (auto simp: add_order_def advanced_order_def)
  have "st_orders st' = st_orders st @ [if all_authz_valid oid st2 then u\<lparr>o_status := O_Ready\<rparr> else u]"
    unfolding assms(2) using u o2 not_old
    by (auto simp: create_order_def a r update_order_def update_rows_def map_idI)
  then show "\<exists>o'. st_orders st' = st_orders st @ [o'] \<and> o_id o' = st_next st \<and> o_identifiers o' = ids
           \<and> (advanced_order o' \<longrightarrow> all_authz_valid (st_next st) st')"
    using u ready oid by (intro exI[of _ "if all_authz_valid oid st2 then u\<lparr>o_status := O_Ready\<rparr> else u"]) auto
  show "st_finalizing st' = st_finalizing st" using st' o2 by simp
qed

lemma pre_authorization_orders:
  assumes "rows_inv st"
  shows "st_orders (create_pre_authorization env now account i st) = st_orders st"
    "order_authorizations oid (create_pre_authorization env now account i st) = order_authorizations oid st"
    "st_finalizing (create_pre_authorization env now account i st) = st_finalizing st"
  using create_pre_authorization_extend[of st env now account i] assms
  by (auto simp: rows_inv_def extend_def order_authorizations_def)

lemma covered_step:
  assumes "acme_step False st st'" "rows_inv st" "covered st"
  shows "covered st'"
  using assms(1,2)
proof (cases rule: acme_step_cases)
  case (created env now account ids p)
  note spec = create_order_spec[OF assms(2) created]
  obtain u where u: "st_orders st' = st_orders st @ [u]" "o_id u = st_next st" "o_identifiers u = ids"
    using spec(3) by blast
  have "map authz_name (order_authorizations (o_id o') st') = map normalize_authorization_identifier (o_identifiers o')"
    if "o' \<in> set (st_orders st)" for o'
    using assms(2,3) that spec(2)[of "o_id o'"] by (auto simp: covered_def rows_inv_def rows_ok_def)
  then show ?thesis using u spec(1) by (simp add: covered_def)
next
  case (pre env now account i)
  then show ?thesis using assms(3) pre_authorization_orders[OF assms(2)] by (simp add: covered_def)
next
  case sound
  then show ?thesis using assms(3) by (rule sound_covered)
qed simp

lemma covered_reach:
  assumes "acme_reaches False empty_state st"
  shows "covered st"
  using assms
proof (induction rule: rtranclp_induct)
  case base
  then show ?case by (simp add: covered_def empty_state_def)
next
  case (step st st')
  then show ?case using covered_step rows_inv_reach by blast
qed

lemma engaged_step:
  assumes "acme_step False st st'" "rows_inv st" "engaged oid st'"
  shows "engaged oid st \<or> advanced oid st' \<and> all_authz_valid oid st'"
  using assms(1,2)
proof (cases rule: acme_step_cases)
  case (created env now account ids p)
  note spec = create_order_spec[OF assms(2) created]
  show ?thesis
    using spec(3,4) assms(3) by (cases "oid = st_next st") (auto simp: engaged_def advanced_def)
next
  case (pre env now account i)
  then show ?thesis using assms(3) pre_authorization_orders[OF assms(2)] by (simp add: engaged_def advanced_def)
next
  case sound
  then show ?thesis using assms(3) by (simp add: sound_def)
qed simp

section \<open>What stands behind an issued certificate\<close>

text \<open>The proof of control an authorization records: it is valid, and one of its challenges, of a type
  its identifier admits, is validated.\<close>

definition proved_control :: "acme_state \<Rightarrow> acme_authorization \<Rightarrow> bool" where
  "proved_control st z \<longleftrightarrow> z \<in> set (st_authorizations st) \<and> z_status z = A_Valid
     \<and> (\<exists>c \<in> set (st_challenges st). c_authorization_id c = z_id z \<and> c_status c = C_Valid
          \<and> allowed_type z (c_type c))"

lemma valid_authz_proved:
  assumes "rows_inv st" "z \<in> set (st_authorizations st)" "z_status z = A_Valid"
  shows "proved_control st z"
proof -
  obtain c where c: "c \<in> set (st_challenges st)" "c_authorization_id c = z_id z" "c_status c = C_Valid"
    using assms unfolding rows_inv_def proved_def by blast
  then obtain y where y: "y \<in> set (st_authorizations st)" "z_id y = z_id z" "allowed_type y (c_type c)"
    using assms(1) unfolding rows_inv_def rows_ok_def by metis
  then have "y = z"
    using row_unique[of z_id "st_authorizations st" y z] assms by (simp add: rows_inv_def rows_ok_def)
  then show ?thesis using assms c y by (auto simp: proved_control_def)
qed

lemma engaged_was_valid:
  assumes "acme_reaches False empty_state st" "engaged oid st"
  shows "\<exists>st0. acme_reaches False empty_state st0 \<and> acme_reaches False st0 st
    \<and> advanced oid st0 \<and> all_authz_valid oid st0"
  using assms
proof (induction rule: rtranclp_induct)
  case base
  then show ?case by (simp add: engaged_def advanced_def empty_state_def)
next
  case (step st st')
  have "engaged oid st \<or> advanced oid st' \<and> all_authz_valid oid st'"
    by (rule engaged_step[OF step.hyps(2) rows_inv_reach[OF step.hyps(1)] step.prems])
  then show ?case
  proof
    assume "engaged oid st"
    from step.IH[OF this] show ?thesis using step.hyps(2) by (meson rtranclp.rtrancl_into_rtrancl)
  next
    assume "advanced oid st' \<and> all_authz_valid oid st'"
    then show ?thesis using step.hyps by (meson rtranclp.rtrancl_into_rtrancl rtranclp.rtrancl_refl)
  qed
qed

lemma unique_order:
  "rows_inv st \<Longrightarrow> u \<in> set (st_orders st) \<Longrightarrow> v \<in> set (st_orders st) \<Longrightarrow> o_id u = o_id v \<Longrightarrow> u = v"
  using row_unique[of o_id "st_orders st" u v] by (simp add: rows_inv_def rows_ok_def)

text \<open>Orders are never removed, and their account and identifiers never change.\<close>

lemma step_keeps_orders:
  assumes "acme_step False st st'" "rows_inv st"
  shows "\<exists>os. map okey (st_orders st') = map okey (st_orders st) @ os"
  using assms
proof (cases rule: acme_step_cases)
  case (created env now account ids p)
  then show ?thesis using create_order_spec(3)[OF assms(2) created] by auto
next
  case (pre env now account i)
  then show ?thesis using pre_authorization_orders(1)[OF assms(2)] by simp
next
  case sound
  then show ?thesis by (auto simp: sound_def quiet_def)
qed simp

lemma reach_keeps_orders:
  assumes "acme_reaches False st0 st" "acme_reaches False empty_state st0"
  shows "set (map okey (st_orders st0)) \<subseteq> set (map okey (st_orders st))"
  using assms
proof (induction rule: rtranclp_induct)
  case (step st st')
  then have "rows_inv st" using rows_inv_reach by (meson rtranclp_trans)
  then obtain os where "map okey (st_orders st') = map okey (st_orders st) @ os"
    using step_keeps_orders step.hyps(2) by blast
  then have "set (map okey (st_orders st)) \<subseteq> set (map okey (st_orders st'))" by simp
  with step.IH[OF step.prems] show ?case by (rule subset_trans)
qed simp

lemma order_was_authorised:
  assumes "acme_reaches False empty_state st" "o' \<in> set (st_orders st)" "advanced_order o'"
    and "i \<in> set (o_identifiers o')"
  shows "\<exists>st0 z. acme_reaches False empty_state st0 \<and> acme_reaches False st0 st \<and> proved_control st0 z
    \<and> z_order_id z = Some (o_id o') \<and> z_account_id z = o_account_id o'
    \<and> (z_identifier z, z_wildcard z) = normalize_authorization_identifier i"
proof -
  have "engaged (o_id o') st" using assms(2,3) by (auto simp: engaged_def advanced_def)
  then obtain st0 where st0: "acme_reaches False empty_state st0" "acme_reaches False st0 st"
      "advanced (o_id o') st0" "all_authz_valid (o_id o') st0"
    using engaged_was_valid[OF assms(1)] by blast
  from st0(3) obtain u where u: "u \<in> set (st_orders st0)" "o_id u = o_id o'" by (auto simp: advanced_def)
  have "okey u \<in> set (map okey (st_orders st))" using reach_keeps_orders[OF st0(2,1)] u(1) by auto
  then obtain w where w: "w \<in> set (st_orders st)" "okey w = okey u" by auto
  then have "o_id w = o_id o'" using u(2) by (simp add: okey_def)
  then have "w = o'" by (rule unique_order[OF rows_inv_reach[OF assms(1)] w(1) assms(2)])
  then have "okey u = okey o'" using w(2) by simp
  then have same: "o_identifiers u = o_identifiers o'" "o_account_id u = o_account_id o'" by (auto simp: okey_def)
  have "map authz_name (order_authorizations (o_id o') st0) = map normalize_authorization_identifier (o_identifiers o')"
    using covered_reach[OF st0(1)] u same unfolding covered_def by metis
  moreover have "normalize_authorization_identifier i \<in> set (map normalize_authorization_identifier (o_identifiers o'))"
    using assms(4) by simp
  ultimately have "normalize_authorization_identifier i \<in> set (map authz_name (order_authorizations (o_id o') st0))"
    by (simp only:)
  then have "normalize_authorization_identifier i \<in> authz_name ` set (order_authorizations (o_id o') st0)"
    by (simp only: set_map)
  then obtain z where z: "z \<in> set (order_authorizations (o_id o') st0)" "authz_name z = normalize_authorization_identifier i"
    by (elim imageE) (rule that, assumption, rule sym)
  from z(1) st0(4) have zin: "z \<in> set (st_authorizations st0)" "z_order_id z = Some (o_id o')" "z_status z = A_Valid"
    by (auto simp: order_authorizations_def all_authz_valid_def list_all_iff)
  note inv0 = rows_inv_reach[OF st0(1)]
  have "z_account_id z = o_account_id o'"
  proof -
    obtain v where v: "v \<in> set (st_orders st0)" "o_id v = o_id o'" "o_account_id v = z_account_id z"
      using inv0 zin(1,2) unfolding rows_inv_def rows_ok_def by blast
    have "v = u" by (rule unique_order[OF inv0 v(1) u(1)]) (simp add: v u)
    then show ?thesis using v same by simp
  qed
  then show ?thesis
    using st0(1,2) zin(2) z(2)[unfolded authz_name_def] valid_authz_proved[OF inv0 zin(1,3)]
    by (intro exI[of _ st0] exI[of _ z] conjI)
qed


text \<open>
  In every reachable state, database failures included, the challenges of a wildcard
  authorization are all answered in the DNS and those of an address never, and the authorizations
  of an order belong to the order's account.
\<close>

theorem challenge_methods_respected:
  assumes "acme_reaches faults empty_state st"
    and "z \<in> set (st_authorizations st)" "c \<in> set (st_challenges st)" "c_authorization_id c = z_id z"
  shows "(z_wildcard z \<longrightarrow> c_type c \<in> {DNS_01, DNS_PERSIST_01})
    \<and> (json_field ''type'' (z_identifier z) = JStr ''ip'' \<longrightarrow> c_type c \<in> {HTTP_01, TLS_ALPN_01})"
proof -
  have ok: "rows_ok st" using rows_inv_reach[OF assms(1)] by (simp add: rows_inv_def)
  then obtain y where y: "y \<in> set (st_authorizations st)" "z_id y = z_id z" "allowed_type y (c_type c)"
    using assms(3,4) unfolding rows_ok_def by metis
  then have "y = z" using row_unique[of z_id "st_authorizations st" y z] ok assms(2) by (simp add: rows_ok_def)
  then show ?thesis using y(3) by (simp add: allowed_type_def is_ip_authz_def)
qed

section \<open>Overlapping requests and failures\<close>

definition dns_identifier :: "string \<Rightarrow> json" where
  "dns_identifier v = JDict [(''type'', JStr ''dns''), (''value'', JStr v)]"

definition lan_env :: order_env where
  "lan_env = \<lparr>env_local_domains = [], env_domains = [], env_credentials = [],
     env_accounts = [\<lparr>aa_account_id = ''acct'', aa_jwk_thumbprint = ''key'', aa_contact = [],
                      aa_status = Account_Valid, aa_terms_of_service_agreed = True\<rparr>],
     env_dns_persist = False, env_profiles = [], env_default_profile = None, env_ip_address = (\<lambda>_. None)\<rparr>"

text \<open>Two requests answer the same challenge; the second one ends after the certificate was issued.\<close>

definition race1 :: acme_state where "race1 = create_order lan_env 0 ''acct'' [dns_identifier ''a.lan''] None empty_state"
definition race2 :: acme_state where "race2 = race1\<lparr>st_validating := [3]\<rparr>"
definition race3 :: acme_state where "race3 = race2\<lparr>st_validating := [3, 3]\<rparr>"
definition race4 :: acme_state where "race4 = validation_succeeds 1 3 (race3\<lparr>st_validating := [3]\<rparr>)"
definition race5 :: acme_state where "race5 = snd (finalize_start lan_env ''acct'' 0 race4)"
definition race6 :: acme_state where "race6 = finish_finalize 0 (Issued 7) (race5\<lparr>st_finalizing := []\<rparr>)"
definition race7 :: acme_state where "race7 = validation_succeeds 9 3 (race6\<lparr>st_validating := []\<rparr>)"
definition race8 :: acme_state where "race8 = snd (finalize_start lan_env ''acct'' 0 race7)"
definition race9 :: acme_state where "race9 = finish_finalize 0 (Issued 8) (race8\<lparr>st_finalizing := []\<rparr>)"

lemma race_evaluated:
  "new_order lan_env 0 ''acct'' (JList [dns_identifier ''a.lan'']) JNull empty_state
     = Some ([dns_identifier ''a.lan''], None)"
  "respond_to_challenge lan_env ''acct'' 3 race1 = Respond_Validating"
  "respond_to_challenge lan_env ''acct'' 3 race2 = Respond_Validating"
  "st_validating race1 = []" "st_validating race3 = [3, 3]" "st_validating race6 = [3]"
  "st_finalizing race5 = [0]" "st_finalizing race8 = [0]"
  by code_simp+

lemma race_to_finalize: "acme_reaches False empty_state race5"
proof -
  have 1: "acme_step False empty_state race1"
    unfolding race1_def by (rule new_order_step[OF race_evaluated(1)])
  have 2: "acme_step False race1 race2"
    using respond_step[OF race_evaluated(2)] by (simp add: race2_def race_evaluated)
  have 3: "acme_step False race2 race3"
    using respond_step[OF race_evaluated(3)] by (simp add: race3_def race2_def)
  have 4: "acme_step False race3 race4"
    using succeed_step[of 3 race3 False 1] by (simp add: race4_def race_evaluated)
  have 5: "acme_step False race4 race5"
    unfolding race5_def by (rule finalize_step)
  show ?thesis
    using 1 2 3 4 5 by (meson rtranclp.rtrancl_into_rtrancl rtranclp.rtrancl_refl)
qed

lemma race_to_issue: "acme_reaches False empty_state race6"
proof -
  have "acme_step False race5 race6"
    using finish_step[of 0 race5 False "Issued 7"] by (simp add: race6_def race_evaluated)
  with race_to_finalize show ?thesis by (rule rtranclp.rtrancl_into_rtrancl)
qed

lemma race_orders:
  "map (\<lambda>o'. (o_id o', o_account_id o', o_status o', o_certificate_id o', o_identifiers o')) (st_orders race6)
     = [(0, ''acct'', O_Valid, Some 7, [dns_identifier ''a.lan''])]"
  "map (\<lambda>o'. (o_id o', o_status o', o_certificate_id o')) (st_orders race7) = [(0, O_Ready, Some 7)]"
  "map (\<lambda>o'. (o_id o', o_status o', o_certificate_id o')) (st_orders race9) = [(0, O_Valid, Some 8)]"
  by code_simp+


theorem challenge_methods_respected_witness:
  "\<exists>z c. z \<in> set (st_authorizations race1) \<and> c \<in> set (st_challenges race1) \<and> c_authorization_id c = z_id z
     \<and> c_type c = HTTP_01 \<and> \<not> z_wildcard z"
proof -
  have reach: "acme_reaches False empty_state race1"
    unfolding race1_def by (rule r_into_rtranclp, rule new_order_step[OF race_evaluated(1)])
  have "\<exists>z \<in> set (st_authorizations race1). \<exists>c \<in> set (st_challenges race1).
      c_authorization_id c = z_id z \<and> c_type c = HTTP_01" by code_simp
  then obtain z c where zc: "z \<in> set (st_authorizations race1)" "c \<in> set (st_challenges race1)"
    "c_authorization_id c = z_id z" "c_type c = HTTP_01" by blast
  from challenge_methods_respected[OF reach zc(1-3)] have "\<not> z_wildcard z" using zc(4) by auto
  then show ?thesis using zc by blast
qed

text \<open>
  An order that was completed can be opened again: when two requests answer the same challenge
  and the slower check ends after the certificate was issued, the order returns to ready and a
  second certificate can be issued for it.
\<close>

theorem completed_order_reopens:
  "\<exists>st st1 st2 o' o1 o2. acme_reaches False empty_state st \<and> acme_step False st st1 \<and> acme_reaches False st1 st2
     \<and> o' \<in> set (st_orders st) \<and> o1 \<in> set (st_orders st1) \<and> o2 \<in> set (st_orders st2)
     \<and> o_id o1 = o_id o' \<and> o_id o2 = o_id o'
     \<and> o_status o' = O_Valid \<and> o_certificate_id o' = Some 7
     \<and> o_status o1 = O_Ready
     \<and> o_status o2 = O_Valid \<and> o_certificate_id o2 = Some 8"
proof -
  obtain o' where o': "o' \<in> set (st_orders race6)" "o_id o' = 0" "o_status o' = O_Valid" "o_certificate_id o' = Some 7"
    using race_orders(1) by auto
  obtain o1 where o1: "o1 \<in> set (st_orders race7)" "o_id o1 = 0" "o_status o1 = O_Ready"
    using race_orders(2) by auto
  obtain o2 where o2: "o2 \<in> set (st_orders race9)" "o_id o2 = 0" "o_status o2 = O_Valid" "o_certificate_id o2 = Some 8"
    using race_orders(3) by auto
  have 1: "acme_step False race6 race7"
    using succeed_step[of 3 race6 False 9] by (simp add: race7_def race_evaluated)
  have 2: "acme_step False race7 race8"
    unfolding race8_def by (rule finalize_step)
  have 3: "acme_step False race8 race9"
    using finish_step[of 0 race8 False "Issued 8"] by (simp add: race9_def race_evaluated)
  have "acme_reaches False race7 race9" using 2 3 by (meson rtranclp.rtrancl_into_rtrancl rtranclp.rtrancl_refl)
  then show ?thesis using race_to_issue 1 o' o1 o2 by metis
qed

text \<open>The database fails while the second of two authorizations is created.\<close>

definition fault1 :: acme_state where
  "fault1 = create_order_interrupted lan_env 0 ''acct'' [dns_identifier ''a.lan'', dns_identifier ''b.lan''] None 1 empty_state"
definition fault2 :: acme_state where "fault2 = fault1\<lparr>st_validating := [3]\<rparr>"
definition fault3 :: acme_state where "fault3 = validation_succeeds 1 3 (fault2\<lparr>st_validating := []\<rparr>)"
definition fault4 :: acme_state where "fault4 = snd (finalize_start lan_env ''acct'' 0 fault3)"
definition fault5 :: acme_state where "fault5 = finish_finalize 0 (Issued 7) (fault4\<lparr>st_finalizing := []\<rparr>)"

lemma fault_evaluated:
  "new_order lan_env 0 ''acct'' (JList [dns_identifier ''a.lan'', dns_identifier ''b.lan'']) JNull empty_state
     = Some ([dns_identifier ''a.lan'', dns_identifier ''b.lan''], None)"
  "respond_to_challenge lan_env ''acct'' 3 fault1 = Respond_Validating"
  "st_validating fault1 = []" "st_finalizing fault4 = [0]"
  "map (\<lambda>o'. (o_status o', o_certificate_id o', o_identifiers o')) (st_orders fault5)
     = [(O_Valid, Some 7, [dns_identifier ''a.lan'', dns_identifier ''b.lan''])]"
  "normalize_authorization_identifier (dns_identifier ''b.lan'') \<notin> authz_name ` set (st_authorizations fault5)"
  by code_simp+

text \<open>
  When the database fails while an order is being created, the order stays with fewer
  authorizations than identifiers; its account can complete it, and a certificate is issued for an
  identifier for which no authorization exists at all.
\<close>

theorem interrupted_order_skips_authorization:
  "\<exists>st o' i. acme_reaches True empty_state st \<and> o' \<in> set (st_orders st) \<and> o_status o' = O_Valid
     \<and> o_certificate_id o' = Some 7 \<and> i \<in> set (o_identifiers o')
     \<and> normalize_authorization_identifier i \<notin> authz_name ` set (st_authorizations st)"
proof -
  have 1: "acme_step True empty_state fault1"
    unfolding fault1_def by (rule interrupted_step[OF TrueI fault_evaluated(1)]) simp
  have 2: "acme_step True fault1 fault2"
    using respond_step[OF fault_evaluated(2)] by (simp add: fault2_def fault_evaluated)
  have 3: "acme_step True fault2 fault3"
    using succeed_step[of 3 fault2 True 1] by (simp add: fault3_def fault2_def)
  have 4: "acme_step True fault3 fault4"
    unfolding fault4_def by (rule finalize_step)
  have 5: "acme_step True fault4 fault5"
    using finish_step[of 0 fault4 True "Issued 7"] by (simp add: fault5_def fault_evaluated)
  have reach: "acme_reaches True empty_state fault5"
    using 1 2 3 4 5 by (meson rtranclp.rtrancl_into_rtrancl rtranclp.rtrancl_refl)
  obtain o' where "o' \<in> set (st_orders fault5)" "o_status o' = O_Valid" "o_certificate_id o' = Some 7"
    "o_identifiers o' = [dns_identifier ''a.lan'', dns_identifier ''b.lan'']"
    using fault_evaluated(5) by auto
  then show ?thesis
    using reach fault_evaluated(6) by (intro exI[of _ fault5] exI[of _ o'] exI[of _ "dns_identifier ''b.lan''"]) simp
qed

end
