(* ===== verification/Serials.thy ===== *)
theory Serials
  imports Prelude
begin

text \<open>
  Serial numbers and revocation reasons: the spellings of a serial in the database
  (\<^verbatim>\<open>utils/serial_format.py\<close>), the integer a stored record carries
  (\<^verbatim>\<open>services/cert/serial_resolution.py\<close>), the cache keys an OCSP response may sit under
  (\<open>_cache_key_forms\<close> of \<^verbatim>\<open>services/ocsp_service.py\<close>) and the reason vocabulary
  (\<^verbatim>\<open>utils/revocation_reasons.py\<close>).

  A serial argument is Python's \<open>str | int | None\<close>, one constructor each. A \<open>crt\<close> column is
  absent or empty, holds bytes the X.509 parser refuses, or holds a certificate; the parser is
  library code, and the fields of \<open>x509\<close> are what the program reads of a parsed certificate.
\<close>

section \<open>Formatting\<close>

text \<open>\<open>format(n, 'x')\<close> and \<open>format(n, 'X')\<close>; the flag chooses the capital digits.\<close>

definition hex_char :: "bool \<Rightarrow> nat \<Rightarrow> char" where
  "hex_char up d = char_of (if d < 10 then 48 + d else if up then 55 + d else 87 + d)"

fun hex_digits :: "bool \<Rightarrow> nat \<Rightarrow> string" where
  "hex_digits up n = (if n < 16 then [hex_char up n]
                      else hex_digits up (n div 16) @ [hex_char up (n mod 16)])"

declare hex_digits.simps [simp del]

definition format_hex :: "bool \<Rightarrow> int \<Rightarrow> string" where
  "format_hex up i = (if i < 0 then CHR ''-'' # hex_digits up (nat (- i)) else hex_digits up (nat i))"

datatype py_serial = No_Serial | Str_Serial string | Int_Serial int

definition serial_body :: "string \<Rightarrow> string" where
  "serial_body s =
     (let t = py_strip (py_remove CHR '':'' s)
      in if starts_with (py_lower t) ''0x'' then drop 2 t else t)"

fun serial_to_int :: "py_serial \<Rightarrow> int option" where
  "serial_to_int No_Serial = None"
| "serial_to_int (Int_Serial n) = Some n"
| "serial_to_int (Str_Serial s) =
     (if s = [] then None
      else (case py_int 10 (serial_body s) of
              Some n \<Rightarrow> Some n
            | None \<Rightarrow> py_int 16 (serial_body s)))"

definition serial_variants :: "int \<Rightarrow> string set" where
  "serial_variants n = {show_int n, format_hex False n, format_hex True n}"

fun serial_to_hex :: "py_serial \<Rightarrow> string" where
  "serial_to_hex No_Serial = []"
| "serial_to_hex (Int_Serial n) = format_hex False n"
| "serial_to_hex (Str_Serial s) =
     (if s = [] then []
      else (case serial_to_int (Str_Serial s) of
              None \<Rightarrow> py_lower s
            | Some n \<Rightarrow> format_hex False n))"

fun pairs_of :: "string \<Rightarrow> string list" where
  "pairs_of [] = []"
| "pairs_of [c] = [[c]]"
| "pairs_of (c # d # cs) = [c, d] # pairs_of cs"

definition colon_pairs :: "string \<Rightarrow> string" where
  "colon_pairs h = py_join '':'' (pairs_of (if length h mod 2 = 0 then h else CHR ''0'' # h))"

fun format_serial_colon :: "py_serial \<Rightarrow> string" where
  "format_serial_colon No_Serial = []"
| "format_serial_colon (Int_Serial n) = colon_pairs (format_hex True n)"
| "format_serial_colon (Str_Serial s) =
     (if s = [] then []
      else colon_pairs (case serial_to_int (Str_Serial s) of
                          Some n \<Rightarrow> format_hex True n
                        | None \<Rightarrow> py_upper (py_remove CHR '':'' s)))"

section \<open>The serial of a record\<close>

record x509 =
  x_serial :: int
  x_subject :: string
  x_issuer :: string
  x_spki :: "string option"
  x_aki :: "string option"
  x_ski :: "string option"
  x_not_before :: datetime
  x_not_after :: datetime
  x_der :: string

datatype stored_crt = No_Crt | Unreadable_Crt | Crt x509

fun load_crt :: "stored_crt \<Rightarrow> x509 option" where
  "load_crt (Crt x) = Some x"
| "load_crt _ = None"

definition column_arg :: "string option \<Rightarrow> py_serial" where
  "column_arg col = (case col of None \<Rightarrow> No_Serial | Some s \<Rightarrow> Str_Serial s)"

definition resolve_record_serial :: "stored_crt \<Rightarrow> string option \<Rightarrow> int option" where
  "resolve_record_serial crt col =
     (case load_crt crt of Some x \<Rightarrow> Some (x_serial x) | None \<Rightarrow> serial_to_int (column_arg col))"

definition same_serial ::
    "stored_crt \<Rightarrow> string option \<Rightarrow> stored_crt \<Rightarrow> string option \<Rightarrow> bool" where
  "same_serial lcrt lcol rcrt rcol \<longleftrightarrow>
     (lcol \<noteq> None \<and> lcol = rcol) \<or>
     (resolve_record_serial lcrt lcol \<noteq> None \<and>
      resolve_record_serial lcrt lcol = resolve_record_serial rcrt rcol)"

text \<open>Whether the stored certificate carries a serial: true, false, or cannot say.\<close>

definition record_holds_serial :: "stored_crt \<Rightarrow> int \<Rightarrow> bool option" where
  "record_holds_serial crt n = map_option (\<lambda>x. x_serial x = n) (load_crt crt)"

definition is_hex_digit :: "char \<Rightarrow> bool" where
  "is_hex_digit c \<longleftrightarrow> is_digit c \<or> c \<in> set ''abcdef''"

definition cache_key_forms :: "py_serial \<Rightarrow> string \<Rightarrow> string set" where
  "cache_key_forms serial serial_hex =
     (case serial of
        Str_Serial s \<Rightarrow>
          (let t = py_lower (py_strip (py_remove CHR '':'' s));
               raw = (if starts_with t ''0x'' then drop 2 t else t);
               bare = dropWhile (\<lambda>c. c = CHR ''0'') raw
           in if raw \<noteq> [] \<and> list_all is_hex_digit raw
              then {serial_hex, if bare = [] then ''0'' else bare} else {serial_hex})
      | _ \<Rightarrow> {serial_hex})"

section \<open>Revocation reasons\<close>

datatype reason_flag =
    Unspecified | Key_Compromise | Ca_Compromise | Affiliation_Changed | Superseded
  | Cessation_Of_Operation | Certificate_Hold | Remove_From_Crl | Privilege_Withdrawn
  | Aa_Compromise

definition REVOCATION_REASONS :: "string list" where
  "REVOCATION_REASONS =
     [''unspecified'', ''keyCompromise'', ''cACompromise'', ''affiliationChanged'', ''superseded'',
      ''cessationOfOperation'', ''certificateHold'', ''privilegeWithdrawn'', ''aACompromise'']"

definition CANONICAL :: "(string \<times> string) list" where
  "CANONICAL = map (\<lambda>name. (py_lower name, name)) REVOCATION_REASONS @
     [(''key_compromise'', ''keyCompromise''), (''ca_compromise'', ''cACompromise''),
      (''affiliation_changed'', ''affiliationChanged''),
      (''cessation_of_operation'', ''cessationOfOperation''),
      (''certificate_hold'', ''certificateHold''),
      (''privilege_withdrawn'', ''privilegeWithdrawn''), (''aa_compromise'', ''aACompromise'')]"

definition REASON_FLAGS :: "(string \<times> reason_flag) list" where
  "REASON_FLAGS =
     [(''unspecified'', Unspecified), (''keyCompromise'', Key_Compromise),
      (''key_compromise'', Key_Compromise), (''cACompromise'', Ca_Compromise),
      (''caCompromise'', Ca_Compromise), (''CACompromise'', Ca_Compromise),
      (''ca_compromise'', Ca_Compromise), (''affiliationChanged'', Affiliation_Changed),
      (''affiliation_changed'', Affiliation_Changed), (''superseded'', Superseded),
      (''cessationOfOperation'', Cessation_Of_Operation),
      (''cessation_of_operation'', Cessation_Of_Operation),
      (''certificateHold'', Certificate_Hold), (''certificate_hold'', Certificate_Hold),
      (''removeFromCRL'', Remove_From_Crl), (''privilegeWithdrawn'', Privilege_Withdrawn),
      (''privilege_withdrawn'', Privilege_Withdrawn), (''aACompromise'', Aa_Compromise),
      (''aa_compromise'', Aa_Compromise)]"

fun normalize_revocation_reason :: "json option \<Rightarrow> string option" where
  "normalize_revocation_reason None = Some ''unspecified''"
| "normalize_revocation_reason (Some JNull) = Some ''unspecified''"
| "normalize_revocation_reason (Some (JStr v)) =
     (let key = py_lower (py_strip v)
      in if key = [] then Some ''unspecified'' else map_of CANONICAL key)"
| "normalize_revocation_reason (Some _) = None"

definition reason_code :: "reason_flag \<Rightarrow> nat" where
  "reason_code f =
     (case f of Unspecified \<Rightarrow> 0 | Key_Compromise \<Rightarrow> 1 | Ca_Compromise \<Rightarrow> 2
      | Affiliation_Changed \<Rightarrow> 3 | Superseded \<Rightarrow> 4 | Cessation_Of_Operation \<Rightarrow> 5
      | Certificate_Hold \<Rightarrow> 6 | Remove_From_Crl \<Rightarrow> 8 | Privilege_Withdrawn \<Rightarrow> 9
      | Aa_Compromise \<Rightarrow> 10)"

text \<open>The reason a CRL entry carries (none is the omitted extension) and the reason an OCSP
  answer gives.\<close>

definition apply_revoke_reason :: "string option \<Rightarrow> bool \<Rightarrow> reason_flag option" where
  "apply_revoke_reason reason is_delta =
     (case reason of
        None \<Rightarrow> None
      | Some r \<Rightarrow>
          if r = [] then None
          else if r = ''unspecified'' then None
          else if r = ''removeFromCRL'' \<and> \<not> is_delta then None
          else (case map_of REASON_FLAGS r of
                  None \<Rightarrow> None
                | Some f \<Rightarrow> if f = Unspecified then None else Some f))"

definition OCSP_REASON_MAP :: "(string \<times> reason_flag) list" where
  "OCSP_REASON_MAP = filter (\<lambda>(name, _). name \<noteq> ''removeFromCRL'') REASON_FLAGS"

definition ocsp_reason :: "string option \<Rightarrow> reason_flag" where
  "ocsp_reason reason =
     (case reason of
        None \<Rightarrow> Unspecified
      | Some r \<Rightarrow> (case map_of OCSP_REASON_MAP r of None \<Rightarrow> Unspecified | Some f \<Rightarrow> f))"

lemmas reason_tables [ucm_tables] =
  REVOCATION_REASONS_def CANONICAL_def REASON_FLAGS_def OCSP_REASON_MAP_def

lemmas serial_defs [ucm_eval] =
  hex_char_def format_hex_def serial_body_def serial_variants_def colon_pairs_def column_arg_def
  resolve_record_serial_def same_serial_def record_holds_serial_def is_hex_digit_def
  cache_key_forms_def reason_code_def apply_revoke_reason_def ocsp_reason_def

section \<open>Reading a spelling back\<close>

lemma less_16_cases:
  "d < (16 :: nat) \<Longrightarrow> d = 0 \<or> d = 1 \<or> d = 2 \<or> d = 3 \<or> d = 4 \<or> d = 5 \<or> d = 6 \<or> d = 7 \<or> d = 8 \<or>
     d = 9 \<or> d = 10 \<or> d = 11 \<or> d = 12 \<or> d = 13 \<or> d = 14 \<or> d = 15"
  by arith

lemma hex_char_table:
  "hex_char up 0 = CHR ''0''" "hex_char up 1 = CHR ''1''" "hex_char up (Suc 0) = CHR ''1''"
  "hex_char up 2 = CHR ''2''" "hex_char up 3 = CHR ''3''" "hex_char up 4 = CHR ''4''"
  "hex_char up 5 = CHR ''5''" "hex_char up 6 = CHR ''6''" "hex_char up 7 = CHR ''7''"
  "hex_char up 8 = CHR ''8''" "hex_char up 9 = CHR ''9''"
  "hex_char False 10 = CHR ''a''" "hex_char False 11 = CHR ''b''" "hex_char False 12 = CHR ''c''"
  "hex_char False 13 = CHR ''d''" "hex_char False 14 = CHR ''e''" "hex_char False 15 = CHR ''f''"
  "hex_char True 10 = CHR ''A''" "hex_char True 11 = CHR ''B''" "hex_char True 12 = CHR ''C''"
  "hex_char True 13 = CHR ''D''" "hex_char True 14 = CHR ''E''" "hex_char True 15 = CHR ''F''"
  by (simp_all add: hex_char_def char_of_def bit_0)

lemma hex_char_facts:
  assumes "d < 16"
  shows digit_value_hex_char: "digit_value (hex_char up d) = Some d"
    and hex_char_plain: "hex_char up d \<notin> set '':_+-xX''"
    and hex_char_not_space: "\<not> is_space (hex_char up d)"
    and hex_char_digit: "is_digit (hex_char up d) \<longleftrightarrow> d < 10"
    and lower_hex_char: "lower_char (hex_char up d) = hex_char False d"
    and hex_char_is_hex: "is_hex_digit (hex_char False d)"
    and hex_char_zero: "hex_char up d = CHR ''0'' \<longleftrightarrow> d = 0"
  by (insert less_16_cases[OF assms], cases up; elim disjE; simp add: hex_char_table digit_value_def
        is_digit_def is_lower_def is_upper_def is_space_def lower_char_def ascii_code_def
        is_hex_digit_def char_of_def bit_0)+

text \<open>The value of a string of digits in a base, and the scanner on such a string.\<close>

definition base_value :: "nat \<Rightarrow> nat \<Rightarrow> string \<Rightarrow> nat" where
  "base_value b acc s = foldl (\<lambda>a c. a * b + the (digit_value c)) acc s"

lemma scan_digits_value:
  assumes "\<forall>c \<in> set s. c \<noteq> CHR ''_'' \<and> (\<exists>d < b. digit_value c = Some d)" "prev \<or> s \<noteq> []"
  shows "scan_digits b prev acc s = Some (base_value b acc s)"
  using assms by (induction s arbitrary: prev acc) (auto simp: base_value_def)

lemma scan_digits_too_big:
  assumes "c \<in> set s" "c \<noteq> CHR ''_''" "digit_value c = Some d" "b \<le> d"
  shows "scan_digits b prev acc s = None"
  using assms(1)
proof (induction s arbitrary: prev acc)
  case (Cons a s)
  then show ?case using assms(2-4) by (cases "a = c") (auto split: option.splits)
qed simp

lemma base_value_digits:
  "\<forall>c \<in> set s. is_digit c \<Longrightarrow> base_value 10 acc s = digits_value acc s"
  by (induction s arbitrary: acc) (auto simp: base_value_def digit_value_def)

lemma hex_digits_chars: "c \<in> set (hex_digits up n) \<Longrightarrow> \<exists>d < 16. c = hex_char up d"
proof (induction up n rule: hex_digits.induct)
  case (1 up n)
  have d: "n mod 16 < 16" by simp
  have "c \<in> set (if n < 16 then [hex_char up n] else hex_digits up (n div 16) @ [hex_char up (n mod 16)])"
    using "1.prems" by (subst (asm) hex_digits.simps)
  then consider "n < 16" "c = hex_char up n" | "\<not> n < 16" "c \<in> set (hex_digits up (n div 16))"
    | "c = hex_char up (n mod 16)"
    by (cases "n < 16") auto
  then show ?case using "1.IH" d by cases blast+
qed

lemma hex_digits_not_Nil [simp]: "hex_digits up n \<noteq> []"
  by (subst hex_digits.simps) simp

lemma base_value_hex_digits: "base_value 16 0 (hex_digits up n) = n"
proof (induction up n rule: hex_digits.induct)
  case (1 up n)
  have "n mod 16 < 16" by simp
  then show ?case
    using 1 by (subst hex_digits.simps) (auto simp: base_value_def digit_value_hex_char)
qed

lemma hex_digits_lower: "py_lower (hex_digits up n) = hex_digits False n"
proof (induction up n rule: hex_digits.induct)
  case (1 up n)
  have "n mod 16 < 16" by simp
  then show ?case
    using 1 by (subst hex_digits.simps, subst (2) hex_digits.simps)
      (auto simp: py_lower_def lower_hex_char)
qed

lemma hd_hex_digits: "hd (hex_digits up n) = CHR ''0'' \<Longrightarrow> n = 0"
proof (induction up n rule: hex_digits.induct)
  case (1 up n)
  then show ?case
    by (subst (asm) (2) hex_digits.simps) (auto simp: hex_char_zero split: if_splits)
qed

lemma hex_digits_plain:
  assumes "c \<in> set (hex_digits up n)"
  shows "c \<notin> set '':_+-xX''" "\<not> is_space c"
  using hex_digits_chars[OF assms] hex_char_plain hex_char_not_space by metis+

lemma py_remove_absent: "c \<notin> set s \<Longrightarrow> py_remove c s = s"
  unfolding py_remove_def by (induction s) auto

lemma no_0x_prefix:
  assumes "CHR ''x'' \<notin> set s" "CHR ''X'' \<notin> set s"
  shows "\<not> starts_with (py_lower s) ''0x''"
proof
  assume "starts_with (py_lower s) ''0x''"
  then have "CHR ''x'' \<in> set (py_lower s)" by (auto simp: starts_with_iff)
  then obtain c where c: "c \<in> set s" "lower_char c = CHR ''x''" by (auto simp: py_lower_def)
  have "c = CHR ''x'' \<or> c = CHR ''X''"
  proof (cases "is_upper c")
    case True
    then have b: "ascii_code c + 32 < 256" by (simp add: is_upper_def)
    have "char_of (ascii_code c + 32) = CHR ''x''" using True c(2) by (simp add: lower_char_def)
    then have "ascii_code c + 32 = ascii_code (CHR ''x'')" using ascii_code_char_of[OF b] by simp
    then have "(of_char c :: nat) = of_char (CHR ''X'')" by (simp add: ascii_code_def)
    then have "char_of (of_char c :: nat) = (char_of (of_char (CHR ''X'') :: nat) :: char)" by (rule arg_cong)
    then show ?thesis by (simp only: char_of_char simp_thms)
  qed (use c(2) in \<open>simp add: lower_char_def\<close>)
  then show False using c(1) assms by auto
qed

lemma serial_body_plain:
  assumes "\<forall>c \<in> set s. c \<notin> set '':_+-xX'' \<and> \<not> is_space c"
  shows "serial_body s = s" "py_strip (py_remove CHR '':'' s) = s" "\<not> starts_with (py_lower s) ''0x''"
proof -
  have "CHR '':'' \<notin> set s" "CHR ''x'' \<notin> set s" "CHR ''X'' \<notin> set s" using assms by auto
  then show "py_strip (py_remove CHR '':'' s) = s" "\<not> starts_with (py_lower s) ''0x''"
    using assms no_0x_prefix by (simp_all add: py_remove_absent py_strip_no_space)
  then show "serial_body s = s" by (simp add: serial_body_def)
qed

lemmas serial_body_hex [simp] =
  serial_body_plain[of "hex_digits up n" for up n, OF ballI, OF conjI[OF hex_digits_plain]]

lemma py_int_unsigned:
  assumes "\<forall>c \<in> set s. c \<notin> set '':_+-xX'' \<and> \<not> is_space c" "s \<noteq> []"
  shows "py_int b s = map_option int (scan_digits b False 0 s)"
proof -
  obtain c cs where s: "s = c # cs" using assms(2) by (cases s) auto
  then have "c \<noteq> CHR ''-''" "c \<noteq> CHR ''+''" using assms(1) by auto
  moreover have "py_strip s = s" using assms(1) by (simp add: py_strip_no_space)
  ultimately show ?thesis
    using s serial_body_plain(3)[OF assms(1)] by (simp add: py_int_def scan_number_def)
qed

lemma py_int_16_hex: "py_int 16 (hex_digits up n) = Some (int n)"
proof -
  have "scan_digits 16 False 0 (hex_digits up n) = Some n"
    using scan_digits_value[of "hex_digits up n" 16 False 0] hex_digits_chars[of _ up n]
      hex_digits_plain(1)[of _ up n] digit_value_hex_char[of _ up] base_value_hex_digits[of up n]
    by fastforce
  then show ?thesis using py_int_unsigned[of "hex_digits up n" 16] hex_digits_plain[of _ up n] by simp
qed

lemma py_int_10_hex:
  "py_int 10 (hex_digits up n) =
     (if list_all is_digit (hex_digits up n) then Some (int (digits_value 0 (hex_digits up n))) else None)"
proof (cases "list_all is_digit (hex_digits up n)")
  case True
  then show ?thesis using py_int_plain[of "hex_digits up n"] by (simp add: plain_digits_def list_all_iff)
next
  case False
  then obtain c where c: "c \<in> set (hex_digits up n)" "\<not> is_digit c" by (auto simp: list_all_iff)
  obtain d where d: "d < 16" "c = hex_char up d" using hex_digits_chars[OF c(1)] by auto
  then have "10 \<le> d" using c(2) hex_char_digit[OF d(1)] by simp
  then have "scan_digits 10 False 0 (hex_digits up n) = None"
    using scan_digits_too_big[OF c(1), of d 10] hex_digits_plain(1)[OF c(1)]
      digit_value_hex_char[OF d(1), of up] d(2)
    by simp
  then show ?thesis
    using False py_int_unsigned[of "hex_digits up n" 10] hex_digits_plain[of _ up n] by simp
qed

text \<open>A hexadecimal spelling without a letter, read as decimal, is a smaller number.\<close>

lemma digits_value_less_base_16:
  assumes "\<forall>c \<in> set s. is_digit c" "length s > 1" "hd s \<noteq> CHR ''0''"
  shows "digits_value 0 s < base_value 16 0 s"
proof -
  have le: "digits_value a t \<le> base_value 16 b t" if "\<forall>c \<in> set t. is_digit c" "a \<le> b" for t a b
    using that
  proof (induction t arbitrary: a b)
    case (Cons c t)
    then show ?case
      using Cons.IH[of "a * 10 + (ascii_code c - 48)" "b * 16 + the (digit_value c)"]
      by (simp add: base_value_def digit_value_def)
  qed (simp add: base_value_def)
  have lt: "digits_value a t < base_value 16 b t" if "\<forall>c \<in> set t. is_digit c" "a < b" for t a b
    using that
  proof (induction t arbitrary: a b)
    case (Cons c t)
    then show ?case
      using Cons.IH[of "a * 10 + (ascii_code c - 48)" "b * 16 + the (digit_value c)"]
      by (simp add: base_value_def digit_value_def)
  qed (simp add: base_value_def)
  obtain c d t where s: "s = c # d # t" using assms(2) by (cases s; cases "tl s") auto
  have dg: "is_digit c" "is_digit d" using assms(1) s by auto
  have "ascii_code c \<noteq> 48"
  proof
    assume "ascii_code c = 48"
    then have "(of_char c :: nat) = of_char (CHR ''0'')" by (simp add: ascii_code_def)
    then have "char_of (of_char c :: nat) = (char_of (of_char (CHR ''0'') :: nat) :: char)" by (rule arg_cong)
    then show False using assms(3) s by (simp only: char_of_char list.sel simp_thms)
  qed
  then have pos: "0 < ascii_code c - 48" using dg(1) by (simp add: is_digit_def)
  then show ?thesis
    using lt[of t "(ascii_code c - 48) * 10 + (ascii_code d - 48)"
        "(ascii_code c - 48) * 16 + (ascii_code d - 48)"] assms(1) s dg
    by (simp add: base_value_def digit_value_def)
qed

lemma show_int_plain: "0 \<le> n \<Longrightarrow> plain_digits (show_int n)"
  by (simp add: show_int_def show_digits_plain)

lemma serial_body_digits: "plain_digits s \<Longrightarrow> serial_body s = s"
  by (rule serial_body_plain(1)) (auto simp: plain_digits_def is_digit_def is_space_def ascii_code_def)

lemma serial_to_int_decimal: "0 \<le> n \<Longrightarrow> serial_to_int (Str_Serial (show_int n)) = Some n"
proof -
  assume "0 \<le> n"
  then show ?thesis
    using show_int_plain[of n] by (simp add: serial_body_digits py_int_show_nonneg) (auto simp: plain_digits_def)
qed

lemma serial_to_int_hex:
  "serial_to_int (Str_Serial (hex_digits up n)) =
     Some (int (if list_all is_digit (hex_digits up n) then digits_value 0 (hex_digits up n) else n))"
  by (simp add: py_int_10_hex py_int_16_hex)

lemma hex_digits_small: "n < 10 \<Longrightarrow> hex_digits up n = show_digits n"
  by (subst hex_digits.simps, subst show_digits.simps) (simp add: hex_char_def)

lemma hex_digits_reading_smaller:
  assumes "list_all is_digit (hex_digits up n)" "10 \<le> n"
  shows "digits_value 0 (hex_digits up n) < n"
proof -
  have "\<not> n < 16"
  proof
    assume "n < 16"
    then have "is_digit (hex_char up n)" using assms(1) by (simp add: hex_digits.simps[of up n])
    then show False using hex_char_digit[OF \<open>n < 16\<close>] assms(2) by simp
  qed
  then have "length (hex_digits up n) > 1"
    by (subst hex_digits.simps) (simp add: Suc_lessI)
  moreover have "hd (hex_digits up n) \<noteq> CHR ''0''" using hd_hex_digits assms(2) by fastforce
  ultimately show ?thesis
    using digits_value_less_base_16[of "hex_digits up n"] assms(1)
    by (simp add: base_value_hex_digits list_all_iff)
qed

lemma serial_variant_cases:
  assumes "0 \<le> n" "v \<in> serial_variants n"
  obtains "v = show_int n" | up where "v = hex_digits up (nat n)"
  using assms by (auto simp: serial_variants_def format_hex_def)

lemma serial_spelling_reading:
  assumes "0 \<le> n" "v \<in> serial_variants n" "v \<noteq> show_int n"
  shows "if list_all is_digit v then \<exists>m. serial_to_int (Str_Serial v) = Some m \<and> m < n
         else serial_to_int (Str_Serial v) = Some n"
  using assms(1,2)
proof (cases rule: serial_variant_cases)
  case (2 up)
  have big: "10 \<le> nat n"
  proof (rule ccontr)
    assume "\<not> 10 \<le> nat n"
    then show False using hex_digits_small[of "nat n" up] 2 assms(1,3) by (simp add: show_int_def)
  qed
  show ?thesis
  proof (cases "list_all is_digit v")
    case True
    then have "digits_value 0 v < nat n" using hex_digits_reading_smaller[of up "nat n"] big 2 by simp
    then show ?thesis using True serial_to_int_hex[of up "nat n"] 2 by simp
  next
    case False
    then show ?thesis using serial_to_int_hex[of up "nat n"] 2 assms(1) by simp
  qed
qed (use assms(3) in simp)

lemma hex_digits_bare: "dropWhile (\<lambda>c. c = CHR ''0'') (hex_digits up n) = (if n = 0 then [] else hex_digits up n)"
proof (cases "n = 0")
  case True
  then show ?thesis by (subst hex_digits.simps) (simp add: hex_char_table)
next
  case False
  then have "hd (hex_digits up n) \<noteq> CHR ''0''" using hd_hex_digits by blast
  then show ?thesis using False by (cases "hex_digits up n") auto
qed

lemma cache_forms_reach:
  assumes "0 \<le> n" "v \<in> serial_variants n"
  shows "format_hex False n \<in> cache_key_forms (Str_Serial v) (serial_to_hex (Str_Serial v))"
  using assms
proof (cases rule: serial_variant_cases)
  case 1
  have "v \<noteq> []" using 1 show_int_plain[OF assms(1)] by (auto simp: plain_digits_def)
  then have "serial_to_hex (Str_Serial v) = format_hex False n"
    using 1 serial_to_int_decimal[OF assms(1)] by (simp del: serial_to_int.simps)
  then show ?thesis by (simp add: cache_key_forms_def Let_def)
next
  case (2 up)
  have low: "py_lower v = hex_digits False (nat n)" using 2 by (simp add: hex_digits_lower)
  have nx: "\<not> starts_with (hex_digits False (nat n)) ''0x''"
    using serial_body_hex(3)[of False "nat n"] by (simp add: hex_digits_lower)
  have hex: "list_all is_hex_digit (hex_digits False (nat n))"
    using hex_digits_chars hex_char_is_hex by (fastforce simp: list_all_iff)
  have zero: "hex_digits False 0 = ''0''" by (subst hex_digits.simps) (simp add: hex_char_table)
  show ?thesis
    using 2 low nx hex assms(1) zero
    by (cases "n = 0") (auto simp: cache_key_forms_def Let_def format_hex_def hex_digits_bare hex_digits_lower)
qed

text \<open>C38: The column spellings of a serial and their reading back (\<open>serial_variants\<close>,
  \<open>serial_to_int\<close>). Of the three spellings the writers use, the decimal one and every hexadecimal
  one with a letter in it read back as the serial; a hexadecimal spelling made of digits alone reads
  as a different, strictly smaller serial, which is why a record that still holds its certificate is
  resolved against it.\<close>

theorem serial_spellings_read_back:
  assumes "0 \<le> n" "v \<in> serial_variants n"
  shows "(serial_to_int (Str_Serial v) = Some n \<longleftrightarrow> v = show_int n \<or> \<not> list_all is_digit v)
       \<and> (serial_to_int (Str_Serial v) \<noteq> Some n \<longrightarrow>
            (\<exists>m. serial_to_int (Str_Serial v) = Some m \<and> m < n))
       \<and> resolve_record_serial (Crt (x\<lparr>x_serial := n\<rparr>)) (Some v) = Some n"
proof (intro conjI impI)
  consider "v = show_int n" | "v \<noteq> show_int n" by blast
  then show "serial_to_int (Str_Serial v) = Some n \<longleftrightarrow> v = show_int n \<or> \<not> list_all is_digit v"
    by cases (use serial_to_int_decimal[OF assms(1)] serial_spelling_reading[OF assms] in
      \<open>auto split: if_splits\<close>)
  assume other: "serial_to_int (Str_Serial v) \<noteq> Some n"
  then have "v \<noteq> show_int n" using serial_to_int_decimal[OF assms(1)] by metis
  then show "\<exists>m. serial_to_int (Str_Serial v) = Some m \<and> m < n"
    using other serial_spelling_reading[OF assms] by metis
qed (simp add: resolve_record_serial_def)

theorem serial_spellings_read_back_witness:
  "serial_to_int (Str_Serial ''12345'') = Some 12345 \<and> format_hex True 74565 = ''12345'' \<and>
   (\<exists>m. serial_to_int (Str_Serial ''12345'') = Some m \<and> m < 74565) \<and>
   resolve_record_serial (Crt (x509.make 74565 [] [] None None None 0 0 [])) (Some ''12345'') = Some 74565"
proof -
  have hex: "format_hex up 74565 = ''12345''" for up
    by (simp add: format_hex_def hex_digits.simps hex_char_table)
  have read: "serial_to_int (Str_Serial ''12345'') = Some 12345" by (simp add: ucm_eval)
  have "(''12345'' :: string) \<in> serial_variants 74565" by (simp add: serial_variants_def hex)
  then show ?thesis
    using serial_spellings_read_back[of 74565 "''12345''" "x509.make 0 [] [] None None None 0 0 []"] hex read
    by (simp add: x509.make_def)
qed

text \<open>Invalidating the OCSP cache with any spelling the serial column may hold reaches the key
  the response was cached under, the hexadecimal form of the certificate's own serial
  (\<open>_cache_key_forms\<close>).\<close>

theorem cache_forms_cover_every_spelling:
  assumes "0 \<le> n" "v \<in> serial_variants n"
  shows "format_hex False n \<in> cache_key_forms (Str_Serial v) (serial_to_hex (Str_Serial v))"
  using assms by (rule cache_forms_reach)

theorem cache_forms_cover_every_spelling_witness:
  "format_hex False 74565 \<in> cache_key_forms (Str_Serial ''12345'') (serial_to_hex (Str_Serial ''12345''))"
proof -
  have "format_hex True 74565 = ''12345''" by (simp add: format_hex_def hex_digits.simps hex_char_table)
  then have "(''12345'' :: string) \<in> serial_variants 74565" by (simp add: serial_variants_def)
  then show ?thesis by (intro cache_forms_cover_every_spelling) simp_all
qed

section \<open>Reasons\<close>

lemma canonical_range: "map_of CANONICAL key = Some r \<Longrightarrow> r \<in> set REVOCATION_REASONS"
  by (drule map_of_SomeD) (auto simp: CANONICAL_def REVOCATION_REASONS_def)

text \<open>C39: What the revocation routes store (\<open>normalize_revocation_reason\<close>). An accepted reason
  is one of the nine RFC 5280 names, never \<open>removeFromCRL\<close>; it is left alone when normalized
  again; both publishers know it, the CRL builder giving the flag of the table unless it is
  \<open>unspecified\<close>, whose extension is omitted, and the OCSP responder giving the same flag.\<close>

theorem normalized_reason_is_published:
  assumes "normalize_revocation_reason v = Some r"
  shows "r \<in> set REVOCATION_REASONS \<and> r \<noteq> ''removeFromCRL''
       \<and> normalize_revocation_reason (Some (JStr r)) = Some r
       \<and> (\<exists>f. map_of REASON_FLAGS r = Some f \<and> ocsp_reason (Some r) = f \<and>
              apply_revoke_reason (Some r) d = (if f = Unspecified then None else Some f))"
proof -
  have r: "r \<in> set REVOCATION_REASONS"
    using assms canonical_range
    by (cases v rule: normalize_revocation_reason.cases)
      (auto simp: Let_def REVOCATION_REASONS_def split: if_splits)
  have each: "r = ''unspecified'' \<or> r = ''keyCompromise'' \<or> r = ''cACompromise'' \<or>
      r = ''affiliationChanged'' \<or> r = ''superseded'' \<or> r = ''cessationOfOperation'' \<or>
      r = ''certificateHold'' \<or> r = ''privilegeWithdrawn'' \<or> r = ''aACompromise''"
    using r by (simp add: REVOCATION_REASONS_def)
  have "r \<noteq> ''removeFromCRL''" using each by auto
  moreover have "normalize_revocation_reason (Some (JStr r)) = Some r"
    using each by (elim disjE) (simp_all add: ucm_eval ucm_tables)
  moreover have "\<exists>f. map_of REASON_FLAGS r = Some f \<and> ocsp_reason (Some r) = f \<and>
         apply_revoke_reason (Some r) d = (if f = Unspecified then None else Some f)"
    using each by (elim disjE) (simp_all add: ocsp_reason_def apply_revoke_reason_def ucm_tables)
  ultimately show ?thesis using r by blast
qed

theorem normalized_reason_is_published_witness:
  "normalize_revocation_reason (Some (JStr '' KeyCompromise'')) = Some ''keyCompromise'' \<and>
   apply_revoke_reason (Some ''keyCompromise'') True = Some Key_Compromise \<and>
   ocsp_reason (Some ''keyCompromise'') = Key_Compromise"
proof -
  have n: "normalize_revocation_reason (Some (JStr '' KeyCompromise'')) = Some ''keyCompromise''"
    by (simp add: ucm_eval ucm_tables)
  then show ?thesis using normalized_reason_is_published[OF n, of True] by (simp add: REASON_FLAGS_def)
qed

end
