(* ===== verification/Pki_Tables.thy ===== *)
theory Pki_Tables
  imports Serials
begin

text \<open>
  The tables the revocation machinery reads: certificates, certificate authorities, persistent
  revocation records, cross-certificates, CRLs, cached OCSP responses and settings
  (\<^verbatim>\<open>models/\<close>), with the questions asked of a certificate authority: which records share its key
  (\<^verbatim>\<open>utils/cert_issuer.py\<close>), which CA signed it and whether its chain is revoked
  (\<^verbatim>\<open>models/ca.py\<close>), and the gate on its signing key (\<^verbatim>\<open>services/hsm/ca_key_loader.py\<close>).

  A table is the list of its rows in the order a query without \<open>ORDER BY\<close> returns them. A column
  no rule reads is left out. Signature verification is library code: the parameter
  \<open>verifies cert issuer\<close> is \<open>certificate_signed_by\<close>, \<open>None\<close> when the issuer's key type
  cannot be checked (the \<open>UnsupportedIssuerKey\<close> it raises). The request-scoped memo of
  \<open>issuing_ca\<close> and \<open>persisted_revocation\<close> returns what the functions return and is left out.
  A new row gets the id after the largest one stored; the database never hands out the id of a
  deleted revocation record again, but no rule compares the id of a row with that of a deleted one.
\<close>

section \<open>Rows\<close>

record ca_row =
  ca_id :: int
  ca_refid :: string
  ca_descr :: string
  ca_crt :: stored_crt
  ca_prv :: bool
  ca_hsm :: bool
  ca_offline :: bool
  ca_caref :: "string option"
  ca_subject :: "string option"
  ca_issuer :: "string option"
  ca_ski :: "string option"
  ca_serial_number :: "string option"
  ca_valid_to :: "datetime option"
  ca_revoked :: bool
  ca_revoked_at :: "datetime option"
  ca_revoke_reason :: "string option"
  ca_invalidity_at :: "datetime option"
  ca_cdp_enabled :: bool
  ca_delta_crl_enabled :: bool
  ca_ocsp_enabled :: bool
  ca_crl_validity_days :: "int option"
  ca_crl_publish_interval_hours :: "int option"
  ca_delta_crl_interval :: "int option"

record cert_row =
  c_id :: int
  c_caref :: "string option"
  c_crt :: stored_crt
  c_prv :: bool
  c_serial_number :: "string option"
  c_valid_to :: "datetime option"
  c_revoked :: bool
  c_revoked_at :: "datetime option"
  c_revoke_reason :: "string option"
  c_invalidity_at :: "datetime option"
  c_archived :: bool
  c_related_id :: "int option"
  c_hybrid_role :: "string option"

record serial_row =
  rs_id :: int
  rs_caref :: string
  rs_serial_number :: string
  rs_revoked_at :: datetime
  rs_revoke_reason :: "string option"
  rs_invalidity_at :: "datetime option"
  rs_valid_to :: datetime
  rs_certificate_id :: "int option"

record cross_row =
  xc_id :: int
  xc_ca_id :: int
  xc_crt :: stored_crt
  xc_issuer :: "string option"
  xc_issuer_caref :: "string option"
  xc_serial_number :: string
  xc_valid_from :: "datetime option"
  xc_valid_to :: datetime
  xc_served :: bool
  xc_revoked :: bool
  xc_revoked_at :: "datetime option"
  xc_revoke_reason :: "string option"

text \<open>An entry of a CRL, and the row of a CRL with the entries its DER encodes.\<close>

record crl_entry =
  e_serial :: int
  e_date :: datetime
  e_reason :: "reason_flag option"
  e_invalidity :: "datetime option"

record crl_row =
  cl_id :: int
  cl_ca_id :: int
  cl_number :: int
  cl_this_update :: datetime
  cl_next_update :: datetime
  cl_entries :: "crl_entry list"
  cl_is_delta :: bool
  cl_base_number :: "int option"
  cl_is_external :: bool

datatype ocsp_status = Good | Revoked datetime "reason_flag option" | Unknown

record ocsp_row =
  oc_ca_id :: int
  oc_key :: string
  oc_status :: ocsp_status
  oc_next_update :: datetime

record pki =
  p_cas :: "ca_row list"
  p_certs :: "cert_row list"
  p_serials :: "serial_row list"
  p_cross :: "cross_row list"
  p_crls :: "crl_row list"
  p_cache :: "ocsp_row list"
  p_config :: "(string \<times> string) list"

definition next_id :: "int list \<Rightarrow> int" where
  "next_id ids = 1 + foldr max ids 0"

lemma next_id_fresh: "i \<in> set ids \<Longrightarrow> i < next_id ids"
  by (induction ids) (auto simp: next_id_def)

definition get_ca :: "pki \<Rightarrow> int \<Rightarrow> ca_row option" where
  "get_ca st i = first_row (\<lambda>c. ca_id c = i) (p_cas st)"

definition ca_by_refid :: "pki \<Rightarrow> string \<Rightarrow> ca_row option" where
  "ca_by_refid st r = first_row (\<lambda>c. ca_refid c = r) (p_cas st)"

definition get_cert :: "pki \<Rightarrow> int \<Rightarrow> cert_row option" where
  "get_cert st i = first_row (\<lambda>c. c_id c = i) (p_certs st)"

definition has_private_key :: "ca_row \<Rightarrow> bool" where
  "has_private_key ca \<longleftrightarrow> ca_prv ca \<or> ca_hsm ca"

definition is_pending :: "ca_row \<Rightarrow> bool" where
  "is_pending ca \<longleftrightarrow> ca_crt ca = No_Crt"

definition is_root :: "ca_row \<Rightarrow> bool" where
  "is_root ca \<longleftrightarrow>
     (case (ca_subject ca, ca_issuer ca) of
        (Some s, Some i) \<Rightarrow> s \<noteq> [] \<and> i \<noteq> [] \<and> s = i | _ \<Rightarrow> False)"

section \<open>Issuer resolution\<close>

definition spki_of :: "stored_crt \<Rightarrow> string option" where
  "spki_of crt = (case load_crt crt of None \<Rightarrow> None | Some x \<Rightarrow> x_spki x)"

definition same_key_refids :: "pki \<Rightarrow> ca_row \<Rightarrow> string list" where
  "same_key_refids st ca =
     ca_refid ca #
       (case spki_of (ca_crt ca) of
          None \<Rightarrow> []
        | Some wanted \<Rightarrow>
            map ca_refid (filter (\<lambda>other. ca_subject other = ca_subject ca \<and> ca_id other \<noteq> ca_id ca
                                    \<and> spki_of (ca_crt other) = Some wanted) (p_cas st)))"

definition is_self_signed :: "(x509 \<Rightarrow> x509 \<Rightarrow> bool option) \<Rightarrow> x509 \<Rightarrow> bool" where
  "is_self_signed verifies x =
     (if x_subject x \<noteq> x_issuer x then False
      else (case verifies x x of
              Some b \<Rightarrow> b
            | None \<Rightarrow> x_aki x = None \<or> x_ski x = None \<or> x_aki x = x_ski x))"

definition cas_by_ski :: "pki \<Rightarrow> string \<Rightarrow> ca_row list" where
  "cas_by_ski st ski =
     sort_key (\<lambda>c. if ca_subject c \<noteq> None \<and> ca_subject c = ca_issuer c then 0 else (1 :: int))
       (sort_key ca_id (filter (\<lambda>c. ca_ski c = Some ski) (p_cas st)))"

definition is_self_signed_record :: "(x509 \<Rightarrow> x509 \<Rightarrow> bool option) \<Rightarrow> ca_row \<Rightarrow> bool" where
  "is_self_signed_record verifies ca =
     (if ca_subject ca \<noteq> ca_issuer ca then False
      else (case load_crt (ca_crt ca) of None \<Rightarrow> True | Some x \<Rightarrow> is_self_signed verifies x))"

definition self_signed_first :: "(x509 \<Rightarrow> x509 \<Rightarrow> bool option) \<Rightarrow> ca_row list \<Rightarrow> ca_row list" where
  "self_signed_first verifies cas =
     sort_key (\<lambda>ca. if is_self_signed_record verifies ca then 0 else (1 :: int)) cas"

text \<open>Candidates are kept once per id, never the CA itself, never one without a certificate.\<close>

definition add_candidates :: "int \<Rightarrow> ca_row list \<Rightarrow> ca_row list \<Rightarrow> ca_row list" where
  "add_candidates self rows found =
     foldl (\<lambda>acc row. if ca_id row \<noteq> self \<and> ca_id row \<notin> set (map ca_id acc) \<and> ca_crt row \<noteq> No_Crt
                      then acc @ [row] else acc) found rows"

definition issuer_candidates :: "pki \<Rightarrow> ca_row \<Rightarrow> x509 \<Rightarrow> ca_row list" where
  "issuer_candidates st ca x =
     (let by_ref = (case ca_caref ca of
                      None \<Rightarrow> []
                    | Some r \<Rightarrow> if r = [] then []
                               else (case ca_by_refid st r of None \<Rightarrow> [] | Some p \<Rightarrow> [p]));
          by_ski = (case x_aki x of None \<Rightarrow> [] | Some k \<Rightarrow> cas_by_ski st k);
          by_name = (case ca_issuer ca of
                       None \<Rightarrow> []
                     | Some i \<Rightarrow> if i = [] then [] else filter (\<lambda>c. ca_subject c = Some i) (p_cas st))
      in add_candidates (ca_id ca) by_name
           (add_candidates (ca_id ca) by_ski (add_candidates (ca_id ca) by_ref [])))"

definition signed_by_candidate ::
    "(x509 \<Rightarrow> x509 \<Rightarrow> bool option) \<Rightarrow> ca_row \<Rightarrow> x509 \<Rightarrow> ca_row \<Rightarrow> bool" where
  "signed_by_candidate verifies ca x candidate =
     (case load_crt (ca_crt candidate) of
        None \<Rightarrow> False
      | Some ix \<Rightarrow> (case verifies x ix of
                      Some b \<Rightarrow> b
                    | None \<Rightarrow> ca_subject candidate = ca_issuer ca))"

definition issuing_ca :: "(x509 \<Rightarrow> x509 \<Rightarrow> bool option) \<Rightarrow> pki \<Rightarrow> ca_row \<Rightarrow> ca_row option" where
  "issuing_ca verifies st ca =
     (case load_crt (ca_crt ca) of
        None \<Rightarrow> None
      | Some x \<Rightarrow>
          if is_self_signed verifies x then None
          else first_row (signed_by_candidate verifies ca x) (issuer_candidates st ca x))"

section \<open>Revocation of a certificate authority\<close>

definition persisted_revocation ::
    "(x509 \<Rightarrow> x509 \<Rightarrow> bool option) \<Rightarrow> pki \<Rightarrow> ca_row \<Rightarrow> serial_row option" where
  "persisted_revocation verifies st ca =
     (if ca_crt ca = No_Crt then None
      else (case issuing_ca verifies st ca of
              None \<Rightarrow> None
            | Some parent \<Rightarrow>
                (let column = serial_to_int (column_arg (ca_serial_number ca));
                     serial = (case column of
                                 Some n \<Rightarrow> Some n
                               | None \<Rightarrow> map_option x_serial (load_crt (ca_crt ca)))
                 in case serial of
                      None \<Rightarrow> None
                    | Some n \<Rightarrow> first_row (\<lambda>r. rs_caref r = ca_refid parent
                                             \<and> rs_serial_number r \<in> serial_variants n) (p_serials st))))"

definition ca_is_revoked :: "(x509 \<Rightarrow> x509 \<Rightarrow> bool option) \<Rightarrow> pki \<Rightarrow> ca_row \<Rightarrow> bool" where
  "ca_is_revoked verifies st ca \<longleftrightarrow> ca_revoked ca \<or> persisted_revocation verifies st ca \<noteq> None"

definition MAX_CHAIN_DEPTH :: nat where "MAX_CHAIN_DEPTH = 64"

datatype chain_answer = Chain_Revoked | Chain_Broken

function chain_walk ::
    "(x509 \<Rightarrow> x509 \<Rightarrow> bool option) \<Rightarrow> pki \<Rightarrow> int list \<Rightarrow> nat \<Rightarrow> ca_row option \<Rightarrow> chain_answer option" where
  "chain_walk verifies st seen depth None = None"
| "chain_walk verifies st seen depth (Some ca) =
     (if ca_is_revoked verifies st ca then Some Chain_Revoked
      else if ca_id ca \<in> set seen then Some Chain_Broken
      else if MAX_CHAIN_DEPTH < depth + 1 then Some Chain_Broken
      else chain_walk verifies st (ca_id ca # seen) (depth + 1) (issuing_ca verifies st ca))"
  by pat_completeness auto
termination
  by (relation "measure (\<lambda>(_, _, _, depth, _). MAX_CHAIN_DEPTH - depth)") auto

definition chain_revocation ::
    "(x509 \<Rightarrow> x509 \<Rightarrow> bool option) \<Rightarrow> pki \<Rightarrow> ca_row \<Rightarrow> chain_answer option" where
  "chain_revocation verifies st ca = chain_walk verifies st [] 0 (Some ca)"

text \<open>The gate every issuing path passes: \<open>loads\<close> is what loading the key material itself
  answers (decryption, HSM session, refusal of EdDSA).\<close>

definition get_ca_signing_key ::
    "(x509 \<Rightarrow> x509 \<Rightarrow> bool option) \<Rightarrow> (ca_row \<Rightarrow> bool) \<Rightarrow> pki \<Rightarrow> bool \<Rightarrow> ca_row option \<Rightarrow> py_error + ca_row" where
  "get_ca_signing_key verifies loads st allow_revoked ca =
     (case ca of
        None \<Rightarrow> Inl ValueError
      | Some c \<Rightarrow>
          if \<not> allow_revoked \<and> chain_revocation verifies st c \<noteq> None then Inl ValueError
          else if \<not> has_private_key c then Inl ValueError
          else if loads c then Inr c else Inl ValueError)"

section \<open>The chain walk\<close>

text \<open>A complete issuer path: each CA is signed by the next, the last has no issuer held here.\<close>

fun issuer_path :: "(x509 \<Rightarrow> x509 \<Rightarrow> bool option) \<Rightarrow> pki \<Rightarrow> ca_row list \<Rightarrow> bool" where
  "issuer_path verifies st [] = False"
| "issuer_path verifies st [c] = (issuing_ca verifies st c = None)"
| "issuer_path verifies st (c # d # cs) =
     (issuing_ca verifies st c = Some d \<and> issuer_path verifies st (d # cs))"

definition clean_path ::
    "(x509 \<Rightarrow> x509 \<Rightarrow> bool option) \<Rightarrow> pki \<Rightarrow> int list \<Rightarrow> nat \<Rightarrow> ca_row \<Rightarrow> ca_row list \<Rightarrow> bool" where
  "clean_path verifies st seen depth ca path \<longleftrightarrow>
     path \<noteq> [] \<and> hd path = ca \<and> issuer_path verifies st path \<and>
     depth + length path \<le> MAX_CHAIN_DEPTH \<and> distinct (map ca_id path) \<and>
     set (map ca_id path) \<inter> set seen = {} \<and> (\<forall>c \<in> set path. \<not> ca_is_revoked verifies st c)"

lemma clean_path_Cons:
  "clean_path verifies st seen depth ca (c # rest) \<longleftrightarrow>
     c = ca \<and> \<not> ca_is_revoked verifies st ca \<and> ca_id ca \<notin> set seen \<and> depth + 1 \<le> MAX_CHAIN_DEPTH \<and>
     (case issuing_ca verifies st ca of
        None \<Rightarrow> rest = []
      | Some d \<Rightarrow> clean_path verifies st (ca_id ca # seen) (depth + 1) d rest)"
  by (cases rest) (auto simp: clean_path_def split: option.splits)

lemma chain_walk_None_iff:
  "chain_walk verifies st seen depth (Some ca) = None \<longleftrightarrow>
     (\<exists>path. clean_path verifies st seen depth ca path)"
proof (induction "MAX_CHAIN_DEPTH - depth" arbitrary: seen depth ca rule: less_induct)
  case less
  have ex: "(\<exists>path. clean_path verifies st seen depth ca path) \<longleftrightarrow>
      (\<exists>rest. clean_path verifies st seen depth ca (ca # rest))"
    by (metis clean_path_def list.collapse)
  show ?case
  proof (cases "ca_is_revoked verifies st ca \<or> ca_id ca \<in> set seen \<or> MAX_CHAIN_DEPTH < depth + 1")
    case True
    then show ?thesis unfolding ex clean_path_Cons by auto
  next
    case False
    then have "MAX_CHAIN_DEPTH - (depth + 1) < MAX_CHAIN_DEPTH - depth" by auto
    note IH = less.hyps[OF this, of "ca_id ca # seen"]
    show ?thesis
      unfolding ex clean_path_Cons using False IH by (cases "issuing_ca verifies st ca") auto
  qed
qed

text \<open>C8: Which certificate authority may sign (\<open>get_ca_signing_key\<close>, \<open>chain_revocation\<close>). The
  key is handed out exactly when it loads and the chain of signers above the CA ends within 64
  levels, visits no CA twice and holds no revoked one, whether the revocation is the flag of the row
  or the record its parent keeps.\<close>

theorem signing_key_needs_clean_chain:
  "get_ca_signing_key verifies loads st False (Some ca) = Inr k \<longleftrightarrow>
     k = ca \<and> has_private_key ca \<and> loads ca \<and>
     (\<exists>path. path \<noteq> [] \<and> hd path = ca \<and> issuer_path verifies st path \<and> length path \<le> 64 \<and>
        distinct (map ca_id path) \<and> list_all (\<lambda>c. \<not> ca_is_revoked verifies st c) path)"
proof -
  have "chain_revocation verifies st ca = None \<longleftrightarrow>
     (\<exists>path. path \<noteq> [] \<and> hd path = ca \<and> issuer_path verifies st path \<and> length path \<le> 64 \<and>
        distinct (map ca_id path) \<and> list_all (\<lambda>c. \<not> ca_is_revoked verifies st c) path)"
    unfolding chain_revocation_def chain_walk_None_iff clean_path_def
    by (simp add: MAX_CHAIN_DEPTH_def list_all_iff)
  then show ?thesis by (auto simp: get_ca_signing_key_def)
qed

end
