(* ===== verification/Crl.thy ===== *)
theory Crl
  imports Pki_Tables
begin

text \<open>
  Certificate revocation lists: which records a list carries (\<^verbatim>\<open>services/crl/query.py\<close>), how the
  full and the delta list are built and numbered (\<^verbatim>\<open>services/crl/generation.py\<close>), and the lists
  signed elsewhere and uploaded (\<^verbatim>\<open>services/crl/external.py\<close>).

  The three kinds of row a list mixes are the constructors of \<open>revocable\<close>; the attribute the code
  reads by name on any of them is a function here. \<open>loads ca\<close> is whether the key material of a CA
  loads (decryption, HSM session) and \<open>signs ca\<close> whether the library signs the list. Each reading of the clock is an argument.
  The parser of an uploaded list is library code: \<open>uploaded\<close> is what it returns.
\<close>

section \<open>Records of a list\<close>

datatype revocable = Cert_Rec cert_row | Ca_Rec ca_row | Serial_Rec serial_row

fun r_crt :: "revocable \<Rightarrow> stored_crt" where
  "r_crt (Cert_Rec c) = c_crt c"
| "r_crt (Ca_Rec c) = ca_crt c"
| "r_crt (Serial_Rec _) = No_Crt"

fun r_column :: "revocable \<Rightarrow> string option" where
  "r_column (Cert_Rec c) = c_serial_number c"
| "r_column (Ca_Rec c) = ca_serial_number c"
| "r_column (Serial_Rec r) = Some (rs_serial_number r)"

fun r_id :: "revocable \<Rightarrow> int" where
  "r_id (Cert_Rec c) = c_id c"
| "r_id (Ca_Rec c) = ca_id c"
| "r_id (Serial_Rec r) = rs_id r"

fun r_is_ca :: "revocable \<Rightarrow> int" where
  "r_is_ca (Ca_Rec _) = 1"
| "r_is_ca _ = 0"

fun r_revoked_at :: "revocable \<Rightarrow> datetime option" where
  "r_revoked_at (Cert_Rec c) = c_revoked_at c"
| "r_revoked_at (Ca_Rec c) = ca_revoked_at c"
| "r_revoked_at (Serial_Rec r) = Some (rs_revoked_at r)"

fun r_reason :: "revocable \<Rightarrow> string option" where
  "r_reason (Cert_Rec c) = c_revoke_reason c"
| "r_reason (Ca_Rec c) = ca_revoke_reason c"
| "r_reason (Serial_Rec r) = rs_revoke_reason r"

fun r_invalidity :: "revocable \<Rightarrow> datetime option" where
  "r_invalidity (Cert_Rec c) = c_invalidity_at c"
| "r_invalidity (Ca_Rec c) = ca_invalidity_at c"
| "r_invalidity (Serial_Rec r) = rs_invalidity_at r"

definition r_serial :: "revocable \<Rightarrow> int option" where
  "r_serial r = resolve_record_serial (r_crt r) (r_column r)"

section \<open>Queries\<close>

definition not_expired :: "datetime option \<Rightarrow> datetime \<Rightarrow> bool" where
  "not_expired valid_to now \<longleftrightarrow> (case valid_to of None \<Rightarrow> True | Some t \<Rightarrow> now < t)"

definition after :: "datetime option \<Rightarrow> datetime \<Rightarrow> bool" where
  "after t base \<longleftrightarrow> (case t of None \<Rightarrow> False | Some u \<Rightarrow> base < u)"

definition in_refids :: "string option \<Rightarrow> string list \<Rightarrow> bool" where
  "in_refids caref refids \<longleftrightarrow> (case caref of None \<Rightarrow> False | Some r \<Rightarrow> r \<in> set refids)"

definition revoked_child_cas :: "pki \<Rightarrow> ca_row \<Rightarrow> datetime \<Rightarrow> ca_row list" where
  "revoked_child_cas st ca now =
     filter (\<lambda>c. ca_caref c = Some (ca_refid ca) \<and> ca_revoked c \<and> not_expired (ca_valid_to c) now)
       (p_cas st)"

definition TRUE_WORDS :: "string list" where
  "TRUE_WORDS = [''true'', ''1'', ''yes'', ''on'']"

definition setting_enabled :: "pki \<Rightarrow> string \<Rightarrow> bool" where
  "setting_enabled st key =
     (case map_of (p_config st) key of
        None \<Rightarrow> False | Some v \<Rightarrow> py_lower (py_strip v) \<in> set TRUE_WORDS)"

fun dedupe_live_records :: "int set \<Rightarrow> string set \<Rightarrow> revocable list \<Rightarrow> revocable list" where
  "dedupe_live_records ints columns [] = []"
| "dedupe_live_records ints columns (r # rs) =
     (let columns' = (case r_column r of None \<Rightarrow> columns | Some c \<Rightarrow> insert c columns)
      in case r_serial r of
           Some n \<Rightarrow> if n \<in> ints then dedupe_live_records ints columns rs
                     else r # dedupe_live_records (insert n ints) columns' rs
         | None \<Rightarrow> if (\<exists>c. r_column r = Some c \<and> c \<in> columns) then dedupe_live_records ints columns rs
                   else r # dedupe_live_records ints columns' rs)"

text \<open>The columns and the serials a list of records has used up.\<close>

definition used_columns :: "revocable list \<Rightarrow> string set" where
  "used_columns rs = set (List.map_filter r_column rs)"

definition used_serials :: "revocable list \<Rightarrow> int set" where
  "used_serials rs = set (List.map_filter r_serial rs)"

definition is_listed :: "string set \<Rightarrow> int set \<Rightarrow> serial_row \<Rightarrow> bool" where
  "is_listed columns ints r \<longleftrightarrow>
     rs_serial_number r \<in> columns \<or>
     (case r_serial (Serial_Rec r) of None \<Rightarrow> False | Some n \<Rightarrow> n \<in> ints)"

text \<open>A revocation the linked certificate no longer carries: the row outlived the lifted hold.\<close>

definition lifted :: "cert_row list \<Rightarrow> serial_row \<Rightarrow> bool" where
  "lifted certs r \<longleftrightarrow>
     (case rs_certificate_id r of
        None \<Rightarrow> False
      | Some i \<Rightarrow>
          (case first_row (\<lambda>c. c_id c = i) certs of
             None \<Rightarrow> False
           | Some holder \<Rightarrow>
               \<not> c_revoked holder \<and>
               same_serial No_Crt (Some (rs_serial_number r)) (c_crt holder) (c_serial_number holder)))"

fun filter_orphans :: "cert_row list \<Rightarrow> string set \<Rightarrow> int set \<Rightarrow> serial_row list \<Rightarrow> serial_row list" where
  "filter_orphans certs columns ints [] = []"
| "filter_orphans certs columns ints (r # rs) =
     (if is_listed columns ints r then filter_orphans certs columns ints rs
      else if lifted certs r then filter_orphans certs columns ints rs
      else r # filter_orphans certs (insert (rs_serial_number r) columns)
                 (case r_serial (Serial_Rec r) of None \<Rightarrow> ints | Some n \<Rightarrow> insert n ints) rs)"

definition filter_orphan_serials :: "pki \<Rightarrow> serial_row list \<Rightarrow> revocable list \<Rightarrow> serial_row list" where
  "filter_orphan_serials st rows live =
     filter_orphans (p_certs st) (used_columns live) (used_serials live) rows"

text \<open>\<open>ORDER BY revoked_at, id\<close>: a stable sort on the id, then on the date.\<close>

definition by_date :: "serial_row list \<Rightarrow> serial_row list" where
  "by_date rows = sort_key rs_revoked_at (sort_key rs_id rows)"

definition revoked_certs_of :: "pki \<Rightarrow> ca_row \<Rightarrow> datetime \<Rightarrow> cert_row list" where
  "revoked_certs_of st ca now =
     filter (\<lambda>c. in_refids (c_caref c) (same_key_refids st ca) \<and> c_revoked c
               \<and> not_expired (c_valid_to c) now) (p_certs st)"

definition persisted_of :: "pki \<Rightarrow> ca_row \<Rightarrow> datetime \<Rightarrow> serial_row list" where
  "persisted_of st ca now =
     filter (\<lambda>r. rs_caref r \<in> set (same_key_refids st ca) \<and> now < rs_valid_to r) (p_serials st)"

definition live_records :: "pki \<Rightarrow> ca_row \<Rightarrow> datetime \<Rightarrow> revocable list" where
  "live_records st ca now =
     dedupe_live_records {} {}
       (map Cert_Rec (sort_key c_id (revoked_certs_of st ca now)) @
        map Ca_Rec (sort_key ca_id (revoked_child_cas st ca now)))"

definition get_revoked_certificates :: "pki \<Rightarrow> ca_row \<Rightarrow> datetime \<Rightarrow> revocable list" where
  "get_revoked_certificates st ca now =
     (let live = live_records st ca now
      in live @ map Serial_Rec (filter_orphan_serials st (by_date (persisted_of st ca now)) live))"

definition purge_stale_revoked_serials :: "int \<Rightarrow> datetime \<Rightarrow> pki \<Rightarrow> pki" where
  "purge_stale_revoked_serials i now st =
     (case get_ca st i of
        None \<Rightarrow> st
      | Some ca \<Rightarrow> st\<lparr>p_serials := filter (\<lambda>r. \<not> (rs_caref r = ca_refid ca \<and> rs_valid_to r < now))
                                     (p_serials st)\<rparr>)"

text \<open>\<open>ORDER BY crl_number DESC\<close>, first row; among equal numbers the earlier row.\<close>

fun latest_by_number :: "crl_row list \<Rightarrow> crl_row option" where
  "latest_by_number [] = None"
| "latest_by_number (r # rs) =
     (case latest_by_number rs of
        None \<Rightarrow> Some r
      | Some l \<Rightarrow> if cl_number l \<le> cl_number r then Some r else Some l)"

definition crls_of :: "pki \<Rightarrow> int \<Rightarrow> crl_row list" where
  "crls_of st i = filter (\<lambda>r. cl_ca_id r = i) (p_crls st)"

definition get_latest_crl :: "pki \<Rightarrow> int \<Rightarrow> crl_row option" where
  "get_latest_crl st i = latest_by_number (filter (\<lambda>r. \<not> cl_is_delta r) (crls_of st i))"

definition get_latest_delta_crl :: "pki \<Rightarrow> int \<Rightarrow> crl_row option" where
  "get_latest_delta_crl st i = latest_by_number (filter cl_is_delta (crls_of st i))"

definition get_latest_crl_by_refid :: "pki \<Rightarrow> string \<Rightarrow> crl_row option" where
  "get_latest_crl_by_refid st r =
     (case ca_by_refid st r of None \<Rightarrow> None | Some ca \<Rightarrow> get_latest_crl st (ca_id ca))"

section \<open>Deleting a certificate\<close>

text \<open>The link of a related pair (\<^verbatim>\<open>services/cert/related_pair.py\<close>); \<open>refs b a\<close> is whether
  certificate \<open>b\<close> names \<open>a\<close> in its extension.\<close>

definition mutual_partner :: "pki \<Rightarrow> cert_row option \<Rightarrow> cert_row option" where
  "mutual_partner st row =
     (case row of
        None \<Rightarrow> None
      | Some r \<Rightarrow>
          (case c_related_id r of
             None \<Rightarrow> None
           | Some j \<Rightarrow>
               if j = 0 then None
               else (case get_cert st j of
                       None \<Rightarrow> None
                     | Some p \<Rightarrow> if c_related_id p \<noteq> Some (c_id r) then None else Some p)))"

definition live_rows_linked_to :: "pki \<Rightarrow> datetime \<Rightarrow> int \<Rightarrow> int list \<Rightarrow> cert_row list" where
  "live_rows_linked_to st now i excluded =
     rev (sort_key c_id (filter (\<lambda>c. c_related_id c = Some i \<and> c_id c \<notin> set (i # excluded)
            \<and> \<not> c_revoked c \<and> \<not> c_archived c \<and> after (c_valid_to c) now \<and> c_crt c \<noteq> No_Crt) (p_certs st)))"

definition names_cert :: "(x509 \<Rightarrow> x509 \<Rightarrow> bool) \<Rightarrow> cert_row \<Rightarrow> cert_row \<Rightarrow> bool" where
  "names_cert refs b a =
     (case (load_crt (c_crt b), load_crt (c_crt a)) of
        (Some xb, Some xa) \<Rightarrow> refs xb xa | _ \<Rightarrow> False)"

definition relink_or_leave :: "(x509 \<Rightarrow> x509 \<Rightarrow> bool) \<Rightarrow> pki \<Rightarrow> datetime \<Rightarrow> int \<Rightarrow> cert_row \<Rightarrow> cert_row" where
  "relink_or_leave refs st now gone row =
     (case first_row (\<lambda>b. names_cert refs b row) (live_rows_linked_to st now (c_id row) [gone]) of
        Some b \<Rightarrow> row\<lparr>c_related_id := Some (c_id b)\<rparr>
      | None \<Rightarrow> row\<lparr>c_related_id := None, c_hybrid_role := None\<rparr>)"

definition unlink_row :: "(x509 \<Rightarrow> x509 \<Rightarrow> bool) \<Rightarrow> datetime \<Rightarrow> int \<Rightarrow> pki \<Rightarrow> int \<Rightarrow> pki" where
  "unlink_row refs now gone st i =
     st\<lparr>p_certs := update_rows (\<lambda>c. c_id c = i) (relink_or_leave refs st now gone) (p_certs st)\<rparr>"

definition unlink_rows_naming :: "(x509 \<Rightarrow> x509 \<Rightarrow> bool) \<Rightarrow> datetime \<Rightarrow> int \<Rightarrow> pki \<Rightarrow> pki" where
  "unlink_rows_naming refs now i st =
     foldl (unlink_row refs now i) st
       (map c_id (filter (\<lambda>c. c_related_id c = Some i \<and> c_id c \<noteq> i) (p_certs st)))"

text \<open>The settings that name a certificate as a CA's delegated responder.\<close>

definition responder_prefix :: string where
  "responder_prefix = ''ocsp_responder_cert_''"

definition responder_cas_for_certificate :: "pki \<Rightarrow> int \<Rightarrow> int list" where
  "responder_cas_for_certificate st i =
     List.map_filter (\<lambda>(key, v). py_int 10 (last (py_split CHR ''_'' key)))
       (filter (\<lambda>(key, v). starts_with key responder_prefix \<and> v = show_int i) (p_config st))"

definition invalidate_ca_cache :: "int \<Rightarrow> pki \<Rightarrow> pki" where
  "invalidate_ca_cache i st = st\<lparr>p_cache := filter (\<lambda>o'. oc_ca_id o' \<noteq> i) (p_cache st)\<rparr>"

definition unlink_revocations :: "int \<Rightarrow> pki \<Rightarrow> pki" where
  "unlink_revocations i st =
     st\<lparr>p_serials := update_rows (\<lambda>r. rs_certificate_id r = Some i) (rs_certificate_id_update (\<lambda>_. None))
                       (p_serials st)\<rparr>"

definition delete_certificate ::
    "(x509 \<Rightarrow> x509 \<Rightarrow> bool) \<Rightarrow> datetime \<Rightarrow> int \<Rightarrow> pki \<Rightarrow> bool \<times> pki" where
  "delete_certificate refs now i st =
     (case get_cert st i of
        None \<Rightarrow> (False, st)
      | Some c \<Rightarrow>
          (let st1 = unlink_rows_naming refs now i (unlink_revocations i st);
               responders = responder_cas_for_certificate st1 i;
               st2 = st1\<lparr>p_config := filter (\<lambda>(key, _). key \<notin> (\<lambda>j. responder_prefix @ show_int j) ` set responders)
                                       (p_config st1),
                         p_certs := filter (\<lambda>r. c_id r \<noteq> i) (p_certs st1)\<rparr>
           in (True, foldl (\<lambda>s j. invalidate_ca_cache j s) st2 responders)))"

definition purge_expired_revoked_certificates ::
    "(x509 \<Rightarrow> x509 \<Rightarrow> bool) \<Rightarrow> int \<Rightarrow> datetime \<Rightarrow> pki \<Rightarrow> pki" where
  "purge_expired_revoked_certificates refs i now st =
     (case get_ca st i of
        None \<Rightarrow> st
      | Some ca \<Rightarrow>
          foldl (\<lambda>s j. snd (delete_certificate refs now j s)) st
            (map c_id (sort_key c_id (filter (\<lambda>c. c_caref c = Some (ca_refid ca) \<and> c_revoked c \<and>
               (case c_valid_to c of None \<Rightarrow> False | Some t \<Rightarrow> t < now)) (p_certs st)))))"

section \<open>Generation\<close>

datatype crl_error =
    Ca_Not_Found | No_Private_Key | Ca_Is_Offline | Awaiting_Certificate | Unreadable_Ca
  | Key_Unavailable | Signing_Failed | Cdp_Disabled | Delta_Disabled | Bad_Validity | No_Base_Crl

definition parse_revoked_serial :: "revocable \<Rightarrow> int option" where
  "parse_revoked_serial r =
     (case r_serial r of
        None \<Rightarrow> None
      | Some n \<Rightarrow> if n \<le> 0 then None else if 2 ^ 159 \<le> n then None else Some n)"

definition crl_entry_of :: "bool \<Rightarrow> datetime \<Rightarrow> revocable \<Rightarrow> crl_entry option" where
  "crl_entry_of is_delta now r =
     (case parse_revoked_serial r of
        None \<Rightarrow> None
      | Some n \<Rightarrow> Some \<lparr>e_serial = n,
                       e_date = (case r_revoked_at r of None \<Rightarrow> now | Some t \<Rightarrow> t),
                       e_reason = apply_revoke_reason (r_reason r) is_delta,
                       e_invalidity = r_invalidity r\<rparr>)"

definition crl_entries :: "bool \<Rightarrow> datetime \<Rightarrow> revocable list \<Rightarrow> crl_entry list" where
  "crl_entries is_delta now rs = List.map_filter (crl_entry_of is_delta now) rs"

definition next_crl_number :: "pki \<Rightarrow> int \<Rightarrow> int" where
  "next_crl_number st i =
     (case latest_by_number (crls_of st i) of None \<Rightarrow> 1 | Some l \<Rightarrow> cl_number l + 1)"

definition run_housekeeping :: "(x509 \<Rightarrow> x509 \<Rightarrow> bool) \<Rightarrow> int \<Rightarrow> datetime \<Rightarrow> pki \<Rightarrow> pki" where
  "run_housekeeping refs i now st =
     (let st1 = (if setting_enabled st ''crl_auto_purge_stale_serials''
                 then purge_stale_revoked_serials i now st else st)
      in if setting_enabled st1 ''crl_auto_delete_expired_revoked''
         then purge_expired_revoked_certificates refs i now st1 else st1)"

definition DEFAULT_VALIDITY_DAYS :: int where "DEFAULT_VALIDITY_DAYS = 7"

definition crl_validity :: "int option \<Rightarrow> ca_row \<Rightarrow> int" where
  "crl_validity asked ca =
     (case asked of
        Some d \<Rightarrow> d
      | None \<Rightarrow> (case ca_crl_validity_days ca of
                    None \<Rightarrow> DEFAULT_VALIDITY_DAYS
                  | Some d \<Rightarrow> if d = 0 then DEFAULT_VALIDITY_DAYS else d))"

definition store_crl :: "crl_row \<Rightarrow> pki \<Rightarrow> pki" where
  "store_crl row st = st\<lparr>p_crls := p_crls st @ [row\<lparr>cl_id := next_id (map cl_id (p_crls st))\<rparr>]\<rparr>"

text \<open>\<open>t_purge\<close>, \<open>t_list\<close> and \<open>now\<close> are the three successive readings of the clock: by the
  purges, by the enumeration and for the dates of the list. Housekeeping has committed when the
  signature fails.\<close>

definition generate_crl ::
    "(ca_row \<Rightarrow> bool) \<Rightarrow> (ca_row \<Rightarrow> bool) \<Rightarrow> (x509 \<Rightarrow> x509 \<Rightarrow> bool) \<Rightarrow> datetime \<Rightarrow> datetime \<Rightarrow> datetime \<Rightarrow>
     int \<Rightarrow> int option \<Rightarrow> pki \<Rightarrow> (crl_error + crl_row) \<times> pki" where
  "generate_crl loads signs refs t_purge t_list now i validity_days st =
     (case get_ca st i of
        None \<Rightarrow> (Inl Ca_Not_Found, st)
      | Some ca \<Rightarrow>
          if \<not> has_private_key ca then (Inl No_Private_Key, st)
          else if ca_offline ca then (Inl Ca_Is_Offline, st)
          else if ca_crt ca = No_Crt then (Inl Awaiting_Certificate, st)
          else if load_crt (ca_crt ca) = None then (Inl Unreadable_Ca, st)
          else if \<not> loads ca then (Inl Key_Unavailable, st)
          else
            (let st1 = run_housekeeping refs i t_purge st;
                 entries = crl_entries False now (get_revoked_certificates st1 ca t_list);
                 row = \<lparr>cl_id = 0, cl_ca_id = i, cl_number = next_crl_number st1 i,
                        cl_this_update = now,
                        cl_next_update = now + days (crl_validity validity_days ca),
                        cl_entries = entries, cl_is_delta = False, cl_base_number = None,
                        cl_is_external = False\<rparr>
             in if signs ca then (Inr row, store_crl row st1) else (Inl Signing_Failed, st1)))"

definition delta_records :: "pki \<Rightarrow> ca_row \<Rightarrow> crl_row \<Rightarrow> datetime \<Rightarrow> revocable list" where
  "delta_records st ca base now =
     (let since = cl_this_update base;
          certs = filter (\<lambda>c. after (c_revoked_at c) since) (revoked_certs_of st ca now);
          cas = filter (\<lambda>c. after (ca_revoked_at c) since) (revoked_child_cas st ca now);
          live = dedupe_live_records {} {}
                   (sort_key r_is_ca (sort_key r_id (map Cert_Rec certs @ map Ca_Rec cas)));
          persisted = by_date (filter (\<lambda>r. since < rs_revoked_at r) (persisted_of st ca now))
      in live @ map Serial_Rec (filter_orphan_serials st persisted live))"

definition generate_delta_crl ::
    "(ca_row \<Rightarrow> bool) \<Rightarrow> (ca_row \<Rightarrow> bool) \<Rightarrow> datetime \<Rightarrow> int \<Rightarrow> int \<Rightarrow> pki \<Rightarrow> (crl_error + crl_row) \<times> pki" where
  "generate_delta_crl loads signs now i validity_hours st =
     (case get_ca st i of
        None \<Rightarrow> (Inl Ca_Not_Found, st)
      | Some ca \<Rightarrow>
          if \<not> has_private_key ca then (Inl No_Private_Key, st)
          else if ca_offline ca then (Inl Ca_Is_Offline, st)
          else if \<not> ca_cdp_enabled ca then (Inl Cdp_Disabled, st)
          else if \<not> ca_delta_crl_enabled ca then (Inl Delta_Disabled, st)
          else if validity_hours < 1 \<or> 720 < validity_hours then (Inl Bad_Validity, st)
          else
            (case get_latest_crl st i of
               None \<Rightarrow> (Inl No_Base_Crl, st)
             | Some base \<Rightarrow>
                 if ca_crt ca = No_Crt then (Inl Awaiting_Certificate, st)
                 else if load_crt (ca_crt ca) = None then (Inl Unreadable_Ca, st)
                 else if \<not> loads ca then (Inl Key_Unavailable, st)
                 else if \<not> signs ca then (Inl Signing_Failed, st)
                 else
                   (let row = \<lparr>cl_id = 0, cl_ca_id = i, cl_number = next_crl_number st i,
                               cl_this_update = now, cl_next_update = now + hours validity_hours,
                               cl_entries = crl_entries True now (delta_records st ca base now),
                               cl_is_delta = True, cl_base_number = Some (cl_number base),
                               cl_is_external = False\<rparr>
                    in (Inr row, store_crl row st))))"

definition auto_generate_on_revocation ::
    "(ca_row \<Rightarrow> bool) \<Rightarrow> (ca_row \<Rightarrow> bool) \<Rightarrow> (x509 \<Rightarrow> x509 \<Rightarrow> bool) \<Rightarrow> datetime \<Rightarrow> datetime \<Rightarrow> datetime \<Rightarrow>
     int \<Rightarrow> pki \<Rightarrow> (crl_error + crl_row) option \<times> pki" where
  "auto_generate_on_revocation loads signs refs t_purge t_list now i st =
     (case get_ca st i of
        None \<Rightarrow> (None, st)
      | Some ca \<Rightarrow>
          if \<not> ca_cdp_enabled ca then (None, st)
          else (let (r, st') = generate_crl loads signs refs t_purge t_list now i None st in (Some r, st')))"

section \<open>Lists signed elsewhere\<close>

record uploaded =
  u_issuer :: string
  u_verifies :: bool
  u_is_delta :: bool
  u_this_update :: datetime
  u_next_update :: "datetime option"
  u_number :: "int option"
  u_entries :: "crl_entry list"

datatype upload_error =
    Up_Not_Found | Up_Awaiting | Up_Signs_Itself | Up_Unparseable | Up_Ca_Unreadable | Up_Wrong_Issuer
  | Up_Bad_Signature | Up_Delta | Up_No_Next_Update | Up_Older | Up_Lower_Number | Up_Already_Served

definition upload_conflict :: "crl_row option \<Rightarrow> uploaded \<Rightarrow> upload_error option" where
  "upload_conflict latest u =
     (case latest of
        None \<Rightarrow> None
      | Some l \<Rightarrow>
          if u_this_update u < cl_this_update l then Some Up_Older
          else (case u_number u of
                  None \<Rightarrow> None
                | Some n \<Rightarrow>
                    if n < cl_number l then Some Up_Lower_Number
                    else if n = cl_number l \<and> u_this_update u = cl_this_update l
                    then Some Up_Already_Served else None))"

definition install_external_crl ::
    "int \<Rightarrow> uploaded option \<Rightarrow> pki \<Rightarrow> (upload_error + crl_row) \<times> pki" where
  "install_external_crl i upload st =
     (case get_ca st i of
        None \<Rightarrow> (Inl Up_Not_Found, st)
      | Some ca \<Rightarrow>
          if ca_crt ca = No_Crt then (Inl Up_Awaiting, st)
          else if has_private_key ca \<and> \<not> ca_offline ca then (Inl Up_Signs_Itself, st)
          else
            (case upload of
               None \<Rightarrow> (Inl Up_Unparseable, st)
             | Some u \<Rightarrow>
                 (case load_crt (ca_crt ca) of
                    None \<Rightarrow> (Inl Up_Ca_Unreadable, st)
                  | Some x \<Rightarrow>
                      if u_issuer u \<noteq> x_subject x then (Inl Up_Wrong_Issuer, st)
                      else if \<not> u_verifies u then (Inl Up_Bad_Signature, st)
                      else if u_is_delta u then (Inl Up_Delta, st)
                      else
                        (case u_next_update u of
                           None \<Rightarrow> (Inl Up_No_Next_Update, st)
                         | Some next_update \<Rightarrow>
                             (case upload_conflict (get_latest_crl st i) u of
                                Some e \<Rightarrow> (Inl e, st)
                              | None \<Rightarrow>
                                  (let number =
                                         (case u_number u of
                                            Some n \<Rightarrow> n
                                          | None \<Rightarrow> (case get_latest_crl st i of
                                                       None \<Rightarrow> 1 | Some l \<Rightarrow> cl_number l + 1));
                                       row = \<lparr>cl_id = 0, cl_ca_id = i, cl_number = number,
                                              cl_this_update = u_this_update u,
                                              cl_next_update = next_update,
                                              cl_entries = u_entries u, cl_is_delta = False,
                                              cl_base_number = None, cl_is_external = True\<rparr>
                                   in (Inr row, invalidate_ca_cache i (store_crl row st))))))))"

text \<open>The dictionary built from the entries keeps the last one of a serial.\<close>

definition get_external_revocation :: "pki \<Rightarrow> int \<Rightarrow> int \<Rightarrow> (datetime \<times> reason_flag option) option" where
  "get_external_revocation st i serial =
     (case get_latest_crl st i of
        None \<Rightarrow> None
      | Some row \<Rightarrow>
          if \<not> cl_is_external row then None
          else map_of (rev (map (\<lambda>e. (e_serial e, (e_date e, e_reason e))) (cl_entries row))) serial)"

lemmas crl_defs [ucm_eval] =
  r_serial_def not_expired_def after_def in_refids_def revoked_child_cas_def setting_enabled_def
  used_columns_def used_serials_def is_listed_def lifted_def filter_orphan_serials_def by_date_def
  revoked_certs_of_def persisted_of_def live_records_def get_revoked_certificates_def
  purge_stale_revoked_serials_def crls_of_def get_latest_crl_def get_latest_delta_crl_def
  parse_revoked_serial_def crl_entry_of_def crl_entries_def next_crl_number_def run_housekeeping_def
  crl_validity_def store_crl_def generate_crl_def delta_records_def generate_delta_crl_def
  upload_conflict_def install_external_crl_def get_external_revocation_def same_key_refids_def
  spki_of_def get_ca_def ca_by_refid_def get_cert_def has_private_key_def next_id_def
  List.map_filter_def DEFAULT_VALIDITY_DAYS_def TRUE_WORDS_def

end
