(* ===== verification/Crl_Content.thy ===== *)
theory Crl_Content
  imports Crl
begin

text \<open>
  What a certificate revocation list contains. The abstract specification is \<open>revoked_serial\<close>, the
  set of serials the tables call revoked; the lemmas show that deduplication and the filter on
  orphan records keep each of them exactly once, that housekeeping does not change the set, that
  numbers grow, and that a base list and the delta published on it cover what a full list would.
\<close>

section \<open>Deduplication\<close>

lemma in_used_serials: "n \<in> used_serials rs \<longleftrightarrow> (\<exists>r \<in> set rs. r_serial r = Some n)"
  by (force simp: used_serials_def List.map_filter_def)

lemma in_used_columns: "c \<in> used_columns rs \<longleftrightarrow> (\<exists>r \<in> set rs. r_column r = Some c)"
  by (force simp: used_columns_def List.map_filter_def)

lemma dedupe_subset: "set (dedupe_live_records ints columns rs) \<subseteq> set rs"
proof (induction rs arbitrary: ints columns)
  case (Cons a rs)
  then show ?case by (cases "r_serial a") (simp_all add: Let_def subset_insertI2)
qed simp

lemma dedupe_complete:
  "r \<in> set rs \<Longrightarrow> r_serial r = Some n \<Longrightarrow>
     n \<in> ints \<or> n \<in> used_serials (dedupe_live_records ints columns rs)"
proof (induction ints columns rs rule: dedupe_live_records.induct)
  case (2 ints columns a rs)
  then show ?case
    by (cases "r_serial a") (auto simp: Let_def in_used_serials)
qed simp

lemma map_filter_Cons: "List.map_filter f (x # xs) = (case f x of None \<Rightarrow> [] | Some y \<Rightarrow> [y]) @ List.map_filter f xs"
  by (auto simp: List.map_filter_def split: option.splits)

lemma map_filter_append: "List.map_filter f (xs @ ys) = List.map_filter f xs @ List.map_filter f ys"
  by (simp add: List.map_filter_def)

lemma set_map_filter: "set (List.map_filter f xs) = {y. \<exists>x \<in> set xs. f x = Some y}"
  by (force simp: List.map_filter_def)

lemma dedupe_distinct:
  "distinct (List.map_filter r_serial (dedupe_live_records ints columns rs)) \<and>
   used_serials (dedupe_live_records ints columns rs) \<inter> ints = {}"
proof (induction ints columns rs rule: dedupe_live_records.induct)
  case (1 ints columns)
  then show ?case by (simp add: used_serials_def List.map_filter_def)
next
  case (2 ints columns a rs)
  show ?case
  proof (cases "r_serial a")
    case None
    then show ?thesis using "2.IH" by (auto simp: Let_def map_filter_Cons used_serials_def)
  next
    case (Some n)
    then show ?thesis using "2.IH" by (auto simp: Let_def map_filter_Cons used_serials_def)
  qed
qed

lemma filter_orphans_subset:
  "r \<in> set (filter_orphans certs columns ints rs) \<Longrightarrow> r \<in> set rs \<and> \<not> lifted certs r"
  by (induction certs columns ints rs rule: filter_orphans.induct) (auto split: if_splits)

lemma filter_orphans_distinct:
  "distinct (List.map_filter r_serial (map Serial_Rec (filter_orphans certs columns ints rs))) \<and>
   used_serials (map Serial_Rec (filter_orphans certs columns ints rs)) \<inter> ints = {}"
proof (induction certs columns ints rs rule: filter_orphans.induct)
  case (2 certs columns ints r rs)
  then show ?case
    by (cases "r_serial (Serial_Rec r)") (auto simp: map_filter_Cons used_serials_def is_listed_def)
qed (simp add: used_serials_def List.map_filter_def)

text \<open>A dropped row is lifted, or its column or its serial is already on the list.\<close>

lemma filter_orphans_complete:
  "r \<in> set rs \<Longrightarrow> lifted certs r \<or>
     rs_serial_number r \<in> columns \<union> rs_serial_number ` set (filter_orphans certs columns ints rs) \<or>
     (\<exists>n. r_serial (Serial_Rec r) = Some n \<and>
        n \<in> ints \<union> used_serials (map Serial_Rec (filter_orphans certs columns ints rs)))"
proof (induction certs columns ints rs rule: filter_orphans.induct)
  case (2 certs columns ints a rs)
  consider "is_listed columns ints a" | "\<not> is_listed columns ints a" "lifted certs a"
    | "\<not> is_listed columns ints a" "\<not> lifted certs a"
    by blast
  then show ?case
  proof cases
    case 1
    then show ?thesis using 2 by (auto simp: is_listed_def split: option.splits)
  next
    case 2
    then show ?thesis using "2.IH"(2) "2.prems" by auto
  next
    case 3
    then show ?thesis
      using "2.IH"(3) "2.prems" by (cases "r_serial (Serial_Rec a)") (auto simp: in_used_serials)
  qed
qed simp

section \<open>The serials the tables call revoked\<close>

definition cert_revokes :: "pki \<Rightarrow> ca_row \<Rightarrow> datetime \<Rightarrow> int \<Rightarrow> cert_row \<Rightarrow> bool" where
  "cert_revokes st ca now n c \<longleftrightarrow>
     in_refids (c_caref c) (same_key_refids st ca) \<and> c_revoked c \<and> not_expired (c_valid_to c) now
     \<and> r_serial (Cert_Rec c) = Some n"

definition child_revokes :: "ca_row \<Rightarrow> datetime \<Rightarrow> int \<Rightarrow> ca_row \<Rightarrow> bool" where
  "child_revokes ca now n c \<longleftrightarrow>
     ca_caref c = Some (ca_refid ca) \<and> ca_revoked c \<and> not_expired (ca_valid_to c) now
     \<and> r_serial (Ca_Rec c) = Some n"

definition row_revokes :: "pki \<Rightarrow> ca_row \<Rightarrow> datetime \<Rightarrow> int \<Rightarrow> serial_row \<Rightarrow> bool" where
  "row_revokes st ca now n r \<longleftrightarrow>
     rs_caref r \<in> set (same_key_refids st ca) \<and> now < rs_valid_to r \<and> \<not> lifted (p_certs st) r
     \<and> r_serial (Serial_Rec r) = Some n"

definition revoked_serial :: "pki \<Rightarrow> ca_row \<Rightarrow> datetime \<Rightarrow> int \<Rightarrow> bool" where
  "revoked_serial st ca now n \<longleftrightarrow>
     list_ex (cert_revokes st ca now n) (p_certs st) \<or> list_ex (child_revokes ca now n) (p_cas st) \<or>
     list_ex (row_revokes st ca now n) (p_serials st)"

definition publishable :: "int \<Rightarrow> bool" where
  "publishable n \<longleftrightarrow> 0 < n \<and> n < 2 ^ 159"

text \<open>Every record a list of this CA may draw on, and that none of them has the column of another
  with a different serial.\<close>

definition crl_candidates :: "pki \<Rightarrow> ca_row \<Rightarrow> datetime \<Rightarrow> revocable list" where
  "crl_candidates st ca now =
     map Cert_Rec (revoked_certs_of st ca now) @ map Ca_Rec (revoked_child_cas st ca now) @
     map Serial_Rec (persisted_of st ca now)"

definition columns_agree :: "revocable list \<Rightarrow> bool" where
  "columns_agree rs \<longleftrightarrow>
     list_all (\<lambda>r. list_all (\<lambda>q. r_column r = r_column q \<longrightarrow> r_column r \<noteq> None \<longrightarrow> r_serial r = r_serial q) rs) rs"

lemma columns_agreeD:
  "columns_agree rs \<Longrightarrow> r \<in> set rs \<Longrightarrow> q \<in> set rs \<Longrightarrow> r_column r = Some c \<Longrightarrow> r_column q = Some c \<Longrightarrow>
     r_serial r = r_serial q"
  unfolding columns_agree_def list_all_iff by (metis option.distinct(1))

lemma columns_agree_set: "set rs = set qs \<Longrightarrow> columns_agree rs \<longleftrightarrow> columns_agree qs"
  by (simp only: columns_agree_def list_all_iff)

lemma set_by_date [simp]: "set (by_date rows) = set rows"
  by (simp add: by_date_def)

text \<open>The construction both lists share: deduplicated live records, then the orphan rows.\<close>

definition listing :: "pki \<Rightarrow> revocable list \<Rightarrow> serial_row list \<Rightarrow> revocable list" where
  "listing st live rows =
     (let kept = dedupe_live_records {} {} live in kept @ map Serial_Rec (filter_orphan_serials st rows kept))"

lemma listing_distinct: "distinct (List.map_filter r_serial (listing st live rows))"
proof -
  let ?live = "dedupe_live_records {} {} live"
  let ?rows = "map Serial_Rec (filter_orphan_serials st rows ?live)"
  have "distinct (List.map_filter r_serial ?live)" using dedupe_distinct by simp
  moreover have "distinct (List.map_filter r_serial ?rows)" "used_serials ?rows \<inter> used_serials ?live = {}"
    using filter_orphans_distinct by (simp_all add: filter_orphan_serials_def)
  ultimately show ?thesis
    by (simp add: listing_def Let_def map_filter_append used_serials_def Int_commute)
qed

lemma dedupe_serials: "used_serials (dedupe_live_records {} {} live) = used_serials live"
proof (intro set_eqI iffI)
  show "n \<in> used_serials live" if "n \<in> used_serials (dedupe_live_records {} {} live)" for n
    using that dedupe_subset[of "{}" "{}" live] unfolding in_used_serials by blast
  show "n \<in> used_serials (dedupe_live_records {} {} live)" if "n \<in> used_serials live" for n
    using that dedupe_complete[of _ live n "{}" "{}"] unfolding in_used_serials[of n live] by blast
qed

lemma listing_serials:
  "used_serials (listing st live rows) =
     used_serials live \<union> used_serials (map Serial_Rec (filter_orphan_serials st rows (dedupe_live_records {} {} live)))"
  by (simp add: listing_def Let_def used_serials_def map_filter_append dedupe_serials[unfolded used_serials_def])

lemma listing_sound:
  assumes "n \<in> used_serials (listing st live rows)"
  shows "n \<in> used_serials live \<or> (\<exists>r \<in> set rows. \<not> lifted (p_certs st) r \<and> r_serial (Serial_Rec r) = Some n)"
  using assms filter_orphans_subset unfolding listing_serials
  by (fastforce simp: in_used_serials filter_orphan_serials_def)

lemma listing_complete:
  assumes agree: "columns_agree (live @ map Serial_Rec rows)"
    and n: "n \<in> used_serials live \<or> (\<exists>r \<in> set rows. \<not> lifted (p_certs st) r \<and> r_serial (Serial_Rec r) = Some n)"
  shows "n \<in> used_serials (listing st live rows)"
proof -
  let ?live = "dedupe_live_records {} {} live"
  let ?kept = "filter_orphan_serials st rows ?live"
  consider "n \<in> used_serials live"
    | r where "r \<in> set rows" "\<not> lifted (p_certs st) r" "r_serial (Serial_Rec r) = Some n"
    using n by blast
  then show ?thesis
  proof cases
    case 1
    then show ?thesis by (simp add: listing_serials)
  next
    case (2 r)
    have same: "r_serial q = Some n"
      if "q \<in> set (live @ map Serial_Rec rows)" "r_column q = Some (rs_serial_number r)" for q
      using columns_agreeD[OF agree that(1) _ that(2), of "Serial_Rec r"] 2 by simp
    from filter_orphans_complete[OF 2(1), of "p_certs st" "used_columns ?live" "used_serials ?live"] 2(2,3)
    consider "rs_serial_number r \<in> used_columns ?live" | "rs_serial_number r \<in> rs_serial_number ` set ?kept"
      | "n \<in> used_serials ?live \<union> used_serials (map Serial_Rec ?kept)"
      by (auto simp: filter_orphan_serials_def)
    then show ?thesis
    proof cases
      case 1
      then obtain q where "q \<in> set ?live" "r_column q = Some (rs_serial_number r)"
        by (auto simp: in_used_columns)
      then have "q \<in> set live" "r_serial q = Some n" using same[of q] dedupe_subset[of "{}" "{}" live] by auto
      then show ?thesis by (auto simp: listing_serials in_used_serials)
    next
      case 2
      then obtain q where q: "q \<in> set ?kept" "rs_serial_number q = rs_serial_number r" by auto
      then have "q \<in> set rows" using filter_orphans_subset by (fastforce simp: filter_orphan_serials_def)
      then have "r_serial (Serial_Rec q) = Some n" using same[of "Serial_Rec q"] q(2) by simp
      then show ?thesis using q(1) by (auto simp: listing_serials in_used_serials)
    qed (simp add: listing_serials dedupe_serials)
  qed
qed

lemma get_revoked_is_listing:
  "get_revoked_certificates st ca now =
     listing st (map Cert_Rec (sort_key c_id (revoked_certs_of st ca now)) @
                 map Ca_Rec (sort_key ca_id (revoked_child_cas st ca now))) (by_date (persisted_of st ca now))"
  by (simp add: get_revoked_certificates_def listing_def live_records_def)

lemma revoked_serial_iff:
  "revoked_serial st ca now n \<longleftrightarrow>
     n \<in> used_serials (map Cert_Rec (sort_key c_id (revoked_certs_of st ca now)) @
                       map Ca_Rec (sort_key ca_id (revoked_child_cas st ca now))) \<or>
     (\<exists>r \<in> set (by_date (persisted_of st ca now)). \<not> lifted (p_certs st) r \<and> r_serial (Serial_Rec r) = Some n)"
  by (auto simp: revoked_serial_def list_ex_iff in_used_serials cert_revokes_def child_revokes_def
      row_revokes_def revoked_certs_of_def revoked_child_cas_def persisted_of_def)

lemma get_revoked_exact:
  assumes "columns_agree (crl_candidates st ca now)"
  shows "used_serials (get_revoked_certificates st ca now) = {n. revoked_serial st ca now n}"
proof -
  have "columns_agree ((map Cert_Rec (sort_key c_id (revoked_certs_of st ca now)) @
      map Ca_Rec (sort_key ca_id (revoked_child_cas st ca now))) @ map Serial_Rec (by_date (persisted_of st ca now)))"
    using assms by (rule columns_agree_set[THEN iffD1, rotated]) (auto simp: crl_candidates_def)
  then show ?thesis
    using listing_sound listing_complete unfolding get_revoked_is_listing revoked_serial_iff by blast
qed

lemma crl_entries_serials:
  "map e_serial (crl_entries d now rs) = filter publishable (List.map_filter r_serial rs)"
  by (induction rs)
    (auto simp: crl_entries_def map_filter_Cons crl_entry_of_def parse_revoked_serial_def publishable_def
        List.map_filter_def split: option.splits)

section \<open>Housekeeping changes no list\<close>

text \<open>A certificate row without the columns of its related pair, which no list reads.\<close>

definition core :: "cert_row \<Rightarrow> cert_row" where
  "core c = c\<lparr>c_related_id := None, c_hybrid_role := None\<rparr>"

lemma core_simps [simp]:
  "c_id (core c) = c_id c" "c_caref (core c) = c_caref c" "c_crt (core c) = c_crt c"
  "c_serial_number (core c) = c_serial_number c" "c_valid_to (core c) = c_valid_to c"
  "c_revoked (core c) = c_revoked c" "c_revoked_at (core c) = c_revoked_at c"
  "r_serial (Cert_Rec (core c)) = r_serial (Cert_Rec c)"
  by (simp_all add: core_def r_serial_def)

lemma core_relink [simp]: "core (relink_or_leave refs st now gone c) = core c"
  by (simp add: relink_or_leave_def core_def split: option.splits)

lemma unlink_row_simps [simp]:
  "map core (p_certs (unlink_row refs now gone st i)) = map core (p_certs st)"
  "p_cas (unlink_row refs now gone st i) = p_cas st" "p_serials (unlink_row refs now gone st i) = p_serials st"
  "p_crls (unlink_row refs now gone st i) = p_crls st" "p_config (unlink_row refs now gone st i) = p_config st"
  "p_cross (unlink_row refs now gone st i) = p_cross st" "p_cache (unlink_row refs now gone st i) = p_cache st"
  by (simp_all add: unlink_row_def update_rows_def comp_def cong: if_cong)

lemma unlink_rows_simps [simp]:
  "map core (p_certs (unlink_rows_naming refs now i st)) = map core (p_certs st)"
  "p_cas (unlink_rows_naming refs now i st) = p_cas st"
  "p_serials (unlink_rows_naming refs now i st) = p_serials st"
  "p_crls (unlink_rows_naming refs now i st) = p_crls st"
  "p_cross (unlink_rows_naming refs now i st) = p_cross st"
proof -
  have "map core (p_certs (foldl (unlink_row refs now i) s js)) = map core (p_certs s) \<and>
      p_cas (foldl (unlink_row refs now i) s js) = p_cas s \<and>
      p_serials (foldl (unlink_row refs now i) s js) = p_serials s \<and>
      p_crls (foldl (unlink_row refs now i) s js) = p_crls s \<and>
      p_cross (foldl (unlink_row refs now i) s js) = p_cross s" for s js
    by (induction js arbitrary: s) simp_all
  then show "map core (p_certs (unlink_rows_naming refs now i st)) = map core (p_certs st)"
    "p_cas (unlink_rows_naming refs now i st) = p_cas st"
    "p_serials (unlink_rows_naming refs now i st) = p_serials st"
    "p_crls (unlink_rows_naming refs now i st) = p_crls st"
    "p_cross (unlink_rows_naming refs now i st) = p_cross st"
    by (simp_all add: unlink_rows_naming_def)
qed

lemma invalidate_cas_simps [simp]:
  "p_certs (foldl (\<lambda>s j. invalidate_ca_cache j s) st js) = p_certs st"
  "p_cas (foldl (\<lambda>s j. invalidate_ca_cache j s) st js) = p_cas st"
  "p_serials (foldl (\<lambda>s j. invalidate_ca_cache j s) st js) = p_serials st"
  "p_crls (foldl (\<lambda>s j. invalidate_ca_cache j s) st js) = p_crls st"
  "p_cross (foldl (\<lambda>s j. invalidate_ca_cache j s) st js) = p_cross st"
  by (induction js arbitrary: st) (simp_all add: invalidate_ca_cache_def)

lemma filter_by_id_core:
  "map core xs = map core ys \<Longrightarrow>
     map core (filter (\<lambda>r. c_id r \<noteq> i) xs) = filter (\<lambda>r. c_id r \<noteq> i) (map core ys)"
  by (metis (mono_tags, lifting) core_simps(1) filter_cong filter_map comp_def)

lemma get_cert_None_iff: "get_cert st i = None \<longleftrightarrow> i \<notin> c_id ` set (p_certs st)"
  by (auto simp: get_cert_def first_row_None_iff)

lemma delete_certificate_simps:
  "map core (p_certs (snd (delete_certificate refs now i st))) = filter (\<lambda>c. c_id c \<noteq> i) (map core (p_certs st))"
  "p_cas (snd (delete_certificate refs now i st)) = p_cas st"
  "p_crls (snd (delete_certificate refs now i st)) = p_crls st"
  "p_cross (snd (delete_certificate refs now i st)) = p_cross st"
  "p_serials (snd (delete_certificate refs now i st)) =
     (if get_cert st i = None then p_serials st else p_serials (unlink_revocations i st))"
proof -
  have none: "filter (\<lambda>c. c_id c \<noteq> i) (map core (p_certs st)) = map core (p_certs st)" if "get_cert st i = None"
    using that by (auto simp: get_cert_None_iff intro!: filter_True)
  have same: "map core (p_certs (unlink_rows_naming refs now i (unlink_revocations i st))) = map core (p_certs st)"
    by (simp add: unlink_revocations_def)
  show "map core (p_certs (snd (delete_certificate refs now i st))) = filter (\<lambda>c. c_id c \<noteq> i) (map core (p_certs st))"
    using none filter_by_id_core[OF same, of i] by (cases "get_cert st i") (simp_all add: delete_certificate_def Let_def)
  show "p_cas (snd (delete_certificate refs now i st)) = p_cas st"
    "p_crls (snd (delete_certificate refs now i st)) = p_crls st"
    "p_cross (snd (delete_certificate refs now i st)) = p_cross st"
    "p_serials (snd (delete_certificate refs now i st)) =
     (if get_cert st i = None then p_serials st else p_serials (unlink_revocations i st))"
    by (cases "get_cert st i"; simp add: delete_certificate_def Let_def unlink_revocations_def)+
qed

lemma list_ex_core: "(\<And>c. P (core c) = P c) \<Longrightarrow> list_ex P (map core certs) = list_ex P certs"
  by (auto simp: list_ex_iff)

lemma first_row_core:
  "first_row (\<lambda>c. c_id c = i) (map core certs) = map_option core (first_row (\<lambda>c. c_id c = i) certs)"
  by (induction certs) (auto simp: first_row_def)

lemma lifted_core: "lifted (map core certs) r = lifted certs r"
  by (cases "rs_certificate_id r")
    (simp_all add: lifted_def first_row_core option.case_eq_if option.map_sel)

lemma cert_revokes_core [simp]: "cert_revokes st ca now n (core c) = cert_revokes st ca now n c"
  by (simp add: cert_revokes_def)

lemma same_key_refids_cong: "p_cas st' = p_cas st \<Longrightarrow> same_key_refids st' ca = same_key_refids st ca"
  by (cases "spki_of (ca_crt ca)") (simp_all add: same_key_refids_def)

lemma revokes_cong:
  assumes "p_cas st' = p_cas st"
  shows "cert_revokes st' ca now n = cert_revokes st ca now n"
  by (rule ext) (simp add: cert_revokes_def same_key_refids_cong[OF assms])

lemma first_row_other_id:
  "j \<noteq> i \<Longrightarrow> first_row (\<lambda>c. c_id c = j) (filter (\<lambda>c. c_id c \<noteq> i) certs) = first_row (\<lambda>c. c_id c = j) certs"
  by (induction certs) (auto simp: first_row_def)

text \<open>A certificate whose removal changes no list: it is gone already, or revoked and expired.\<close>

definition spent :: "pki \<Rightarrow> datetime \<Rightarrow> int \<Rightarrow> bool" where
  "spent st now i \<longleftrightarrow>
     (\<forall>c \<in> set (p_certs st). c_id c = i \<longrightarrow> c_revoked c \<and> \<not> not_expired (c_valid_to c) now)"

definition unlinked :: "int \<Rightarrow> serial_row \<Rightarrow> serial_row" where
  "unlinked i r = (if rs_certificate_id r = Some i then r\<lparr>rs_certificate_id := None\<rparr> else r)"

lemma unlinked_simps [simp]:
  "rs_caref (unlinked i r) = rs_caref r" "rs_serial_number (unlinked i r) = rs_serial_number r"
  "rs_valid_to (unlinked i r) = rs_valid_to r" "rs_revoked_at (unlinked i r) = rs_revoked_at r"
  "rs_id (unlinked i r) = rs_id r" "rs_revoke_reason (unlinked i r) = rs_revoke_reason r"
  "r_serial (Serial_Rec (unlinked i r)) = r_serial (Serial_Rec r)"
  by (simp_all add: unlinked_def r_serial_def)

lemma p_serials_unlink: "p_serials (unlink_revocations i st) = map (unlinked i) (p_serials st)"
  by (simp add: unlink_revocations_def update_rows_def unlinked_def)

lemma lifted_after_delete:
  assumes "spent st now i"
  shows "lifted (filter (\<lambda>c. c_id c \<noteq> i) (map core (p_certs st))) (unlinked i r) = lifted (p_certs st) r"
proof (cases "rs_certificate_id r = Some i")
  case True
  have "\<not> lifted (p_certs st) r"
  proof
    assume "lifted (p_certs st) r"
    then obtain c where "first_row (\<lambda>c. c_id c = i) (p_certs st) = Some c" "\<not> c_revoked c"
      using True by (auto simp: lifted_def split: option.splits)
    then show False using assms first_row_SomeD[of "\<lambda>c. c_id c = i" "p_certs st" c] by (auto simp: spent_def)
  qed
  then show ?thesis using True by (simp add: lifted_def unlinked_def)
next
  case False
  then have u: "unlinked i r = r" by (simp add: unlinked_def)
  have "lifted (filter (\<lambda>c. c_id c \<noteq> i) (map core (p_certs st))) r = lifted (map core (p_certs st)) r"
    using False by (cases "rs_certificate_id r") (simp_all add: lifted_def first_row_other_id)
  then show ?thesis by (simp add: u lifted_core)
qed

lemma list_ex_filter_irrelevant:
  "(\<And>x. x \<in> set xs \<Longrightarrow> P x \<Longrightarrow> Q x) \<Longrightarrow> list_ex P (filter Q xs) = list_ex P xs"
  by (auto simp: list_ex_iff)

lemma revoked_serial_delete:
  assumes "spent st now i"
  shows "revoked_serial (snd (delete_certificate refs t i st)) ca now n = revoked_serial st ca now n"
proof -
  let ?st = "snd (delete_certificate refs t i st)"
  let ?left = "filter (\<lambda>c. c_id c \<noteq> i) (map core (p_certs st))"
  have certs: "map core (p_certs ?st) = ?left" by (rule delete_certificate_simps(1))
  have cas: "p_cas ?st = p_cas st" by (rule delete_certificate_simps(2))
  have "list_ex (cert_revokes ?st ca now n) (p_certs ?st) = list_ex (cert_revokes st ca now n) ?left"
    using list_ex_core[of "cert_revokes st ca now n" "p_certs ?st"] by (simp add: revokes_cong[OF cas] certs)
  also have "\<dots> = list_ex (cert_revokes st ca now n) (map core (p_certs st))"
    using assms by (intro list_ex_filter_irrelevant) (auto simp: cert_revokes_def spent_def)
  finally have c: "list_ex (cert_revokes ?st ca now n) (p_certs ?st) = list_ex (cert_revokes st ca now n) (p_certs st)"
    using list_ex_core[of "cert_revokes st ca now n" "p_certs st"] by simp
  have row: "row_revokes ?st ca now n (unlinked i r) = row_revokes st ca now n r" for r
    using lifted_after_delete[OF assms, of r] lifted_core[of "p_certs ?st" "unlinked i r"]
    by (simp add: row_revokes_def certs same_key_refids_cong[OF cas])
  have row': "row_revokes ?st ca now n r = row_revokes st ca now n r" if "get_cert st i = None" for r
  proof -
    have "map core (p_certs ?st) = map core (p_certs st)"
      using that certs by (auto simp: get_cert_None_iff intro!: filter_True)
    then have "lifted (p_certs ?st) r = lifted (p_certs st) r" using lifted_core by metis
    then show ?thesis by (simp add: row_revokes_def same_key_refids_cong[OF cas])
  qed
  have r: "list_ex (row_revokes ?st ca now n) (p_serials ?st) = list_ex (row_revokes st ca now n) (p_serials st)"
    by (cases "get_cert st i") (auto simp: delete_certificate_simps(5) p_serials_unlink row row' list_ex_iff)
  show ?thesis by (simp add: revoked_serial_def c r cas)
qed

lemma core_eqD:
  assumes "core c = core d"
  shows "c_id c = c_id d" "c_caref c = c_caref d" "c_crt c = c_crt d" "c_serial_number c = c_serial_number d"
    "c_valid_to c = c_valid_to d" "c_revoked c = c_revoked d" "c_revoked_at c = c_revoked_at d"
    "r_serial (Cert_Rec c) = r_serial (Cert_Rec d)"
  by (metis assms core_simps)+

lemma delete_certificate_certs:
  assumes "c \<in> set (p_certs (snd (delete_certificate refs t i st)))"
  obtains d where "d \<in> set (p_certs st)" "core d = core c" "c_id c \<noteq> i"
proof -
  have "core c \<in> set (map core (p_certs (snd (delete_certificate refs t i st))))" using assms by simp
  then have "core c \<in> set (filter (\<lambda>c. c_id c \<noteq> i) (map core (p_certs st)))"
    by (simp only: delete_certificate_simps(1))
  then show ?thesis using that by auto
qed

lemma delete_certificate_serials:
  assumes "r \<in> set (p_serials (snd (delete_certificate refs t i st)))"
  obtains q where "q \<in> set (p_serials st)" "r = q \<or> r = unlinked i q"
  using assms by (cases "get_cert st i") (auto simp: delete_certificate_simps(5) p_serials_unlink)

text \<open>\<open>shrinks\<close>: a state whose records are among those of another, up to links.\<close>

definition shrinks :: "ca_row \<Rightarrow> datetime \<Rightarrow> pki \<Rightarrow> pki \<Rightarrow> bool" where
  "shrinks ca now st st' \<longleftrightarrow>
     p_cas st' = p_cas st \<and> p_crls st' = p_crls st \<and>
     (\<forall>n. revoked_serial st' ca now n = revoked_serial st ca now n) \<and>
     (\<forall>c \<in> set (p_certs st'). \<exists>d \<in> set (p_certs st). core d = core c) \<and>
     (\<forall>r \<in> set (p_serials st'). \<exists>q \<in> set (p_serials st). rs_caref q = rs_caref r \<and>
        rs_valid_to q = rs_valid_to r \<and> rs_serial_number q = rs_serial_number r)"

lemma shrinks_refl [simp]: "shrinks ca now st st"
  by (auto simp: shrinks_def)

lemma shrinks_trans:
  assumes "shrinks ca now s t" "shrinks ca now t u"
  shows "shrinks ca now s u"
proof -
  have "\<exists>d \<in> set (p_certs s). core d = core c" if "c \<in> set (p_certs u)" for c
    using assms that unfolding shrinks_def by metis
  moreover have "\<exists>q \<in> set (p_serials s). rs_caref q = rs_caref r \<and> rs_valid_to q = rs_valid_to r \<and>
      rs_serial_number q = rs_serial_number r" if "r \<in> set (p_serials u)" for r
    using assms that unfolding shrinks_def by metis
  ultimately show ?thesis using assms by (auto simp: shrinks_def)
qed

lemma shrinks_spent: "shrinks ca now s t \<Longrightarrow> spent s now i \<Longrightarrow> spent t now i"
  unfolding shrinks_def spent_def by (metis core_eqD(1,5,6))

lemma shrinks_delete:
  assumes "spent st now i"
  shows "shrinks ca now st (snd (delete_certificate refs t i st))"
  unfolding shrinks_def
proof (intro conjI allI ballI)
  show "\<exists>d \<in> set (p_certs st). core d = core c" if "c \<in> set (p_certs (snd (delete_certificate refs t i st)))" for c
    using that by (rule delete_certificate_certs) blast
  show "\<exists>q \<in> set (p_serials st). rs_caref q = rs_caref r \<and> rs_valid_to q = rs_valid_to r \<and>
      rs_serial_number q = rs_serial_number r"
    if "r \<in> set (p_serials (snd (delete_certificate refs t i st)))" for r
    using that by (rule delete_certificate_serials) auto
qed (simp_all add: delete_certificate_simps(2,3) revoked_serial_delete[OF assms])

lemma shrinks_deletes:
  "\<forall>i \<in> set js. spent st now i \<Longrightarrow> shrinks ca now st (foldl (\<lambda>s j. snd (delete_certificate refs t j s)) st js)"
proof (induction js arbitrary: st)
  case (Cons j js)
  have one: "shrinks ca now st (snd (delete_certificate refs t j st))" using Cons.prems by (simp add: shrinks_delete)
  then have "\<forall>i \<in> set js. spent (snd (delete_certificate refs t j st)) now i"
    using Cons.prems shrinks_spent by (metis list.set_intros(2))
  then show ?case using shrinks_trans[OF one Cons.IH] by simp
qed simp

lemma shrinks_purge_stale:
  assumes "t \<le> now"
  shows "shrinks ca now st (purge_stale_revoked_serials i t st)"
proof (cases "get_ca st i")
  case (Some issuer)
  have "list_ex (row_revokes st ca now n) (filter (\<lambda>r. \<not> (rs_caref r = ca_refid issuer \<and> rs_valid_to r < t)) (p_serials st))
      = list_ex (row_revokes st ca now n) (p_serials st)" for n
    using assms by (intro list_ex_filter_irrelevant) (auto simp: row_revokes_def)
  then show ?thesis
    using Some
    by (auto simp: shrinks_def purge_stale_revoked_serials_def revoked_serial_def cert_revokes_def
        row_revokes_def same_key_refids_cong[of "st\<lparr>p_serials := x\<rparr>" st for x] list_ex_iff)
qed (simp add: purge_stale_revoked_serials_def)

lemma shrinks_purge_expired:
  assumes "t \<le> now" "distinct (map c_id (p_certs st))"
  shows "shrinks ca now st (purge_expired_revoked_certificates refs i t st)"
proof (cases "get_ca st i")
  case (Some issuer)
  let ?old = "\<lambda>c. c_caref c = Some (ca_refid issuer) \<and> c_revoked c \<and>
    (case c_valid_to c of None \<Rightarrow> False | Some u \<Rightarrow> u < t)"
  have inj: "inj_on c_id (set (p_certs st))" using assms(2) by (simp add: distinct_map)
  have "spent st now (c_id c)" if c: "c \<in> set (p_certs st)" "?old c" for c
  proof -
    have "\<not> not_expired (c_valid_to c) now"
      using c(2) assms(1) by (simp add: not_expired_def split: option.splits)
    then show ?thesis using c inj_onD[OF inj] unfolding spent_def by metis
  qed
  then have "\<forall>j \<in> set (map c_id (sort_key c_id (filter ?old (p_certs st)))). spent st now j" by simp
  from shrinks_deletes[OF this] show ?thesis by (simp add: Some purge_expired_revoked_certificates_def)
qed (simp add: purge_expired_revoked_certificates_def)

lemma purge_stale_certs [simp]: "p_certs (purge_stale_revoked_serials i t st) = p_certs st"
  by (cases "get_ca st i") (simp_all add: purge_stale_revoked_serials_def)

lemma shrinks_housekeeping:
  assumes "t \<le> now" "distinct (map c_id (p_certs st))"
  shows "shrinks ca now st (run_housekeeping refs i t st)"
proof -
  define st1 where "st1 = (if setting_enabled st ''crl_auto_purge_stale_serials''
    then purge_stale_revoked_serials i t st else st)"
  have one: "shrinks ca now st st1" using shrinks_purge_stale[OF assms(1)] by (simp add: st1_def)
  have "distinct (map c_id (p_certs st1))" using assms(2) by (simp add: st1_def)
  then show ?thesis
    using shrinks_trans[OF one shrinks_purge_expired[OF assms(1)]] one
    by (simp add: run_housekeeping_def st1_def[symmetric])
qed

lemma columns_agree_sub:
  assumes "columns_agree qs"
    and "\<And>r. r \<in> set rs \<Longrightarrow> \<exists>q \<in> set qs. r_column q = r_column r \<and> r_serial q = r_serial r"
  shows "columns_agree rs"
  unfolding columns_agree_def list_all_iff
proof (intro ballI impI)
  fix r q assume "r \<in> set rs" "q \<in> set rs" "r_column r = r_column q" "r_column r \<noteq> None"
  then obtain r' q' c where "r' \<in> set qs" "q' \<in> set qs" "r_column r' = Some c" "r_column q' = Some c"
      "r_serial r' = r_serial r" "r_serial q' = r_serial q"
    using assms(2)[of r] assms(2)[of q] by fastforce
  then show "r_serial r = r_serial q" using columns_agreeD[OF assms(1), of r' q' c] by simp
qed

lemma crl_candidates_shrinks:
  assumes "shrinks ca now st st'" "r \<in> set (crl_candidates st' ca now)"
  shows "\<exists>q \<in> set (crl_candidates st ca now). r_column q = r_column r \<and> r_serial q = r_serial r"
proof -
  have cas: "p_cas st' = p_cas st" using assms(1) by (simp add: shrinks_def)
  from assms(2) consider c where "r = Cert_Rec c" "c \<in> set (revoked_certs_of st' ca now)"
    | c where "r = Ca_Rec c" "c \<in> set (revoked_child_cas st' ca now)"
    | x where "r = Serial_Rec x" "x \<in> set (persisted_of st' ca now)"
    by (auto simp: crl_candidates_def)
  then show ?thesis
  proof cases
    case 1
    then obtain d where d: "d \<in> set (p_certs st)" "core d = core c"
      using assms(1) by (auto simp: shrinks_def revoked_certs_of_def)
    have "d \<in> set (revoked_certs_of st ca now)"
      using 1(2) d(1) core_eqD[OF d(2)] by (simp add: revoked_certs_of_def same_key_refids_cong[OF cas])
    then show ?thesis using 1(1) core_eqD[OF d(2)] by (intro bexI[of _ "Cert_Rec d"]) (auto simp: crl_candidates_def)
  next
    case 2
    then show ?thesis by (intro bexI[of _ r]) (auto simp: crl_candidates_def revoked_child_cas_def cas)
  next
    case 3
    then obtain q where q: "q \<in> set (p_serials st)" "rs_caref q = rs_caref x" "rs_valid_to q = rs_valid_to x"
        "rs_serial_number q = rs_serial_number x"
      using assms(1) by (auto simp: shrinks_def persisted_of_def)
    then have "q \<in> set (persisted_of st ca now)"
      using 3(2) by (simp add: persisted_of_def same_key_refids_cong[OF cas])
    then show ?thesis
      using 3(1) q(4) by (intro bexI[of _ "Serial_Rec q"]) (auto simp: crl_candidates_def r_serial_def)
  qed
qed

lemma columns_agree_shrinks:
  "shrinks ca now st st' \<Longrightarrow> columns_agree (crl_candidates st ca now) \<Longrightarrow> columns_agree (crl_candidates st' ca now)"
  using columns_agree_sub crl_candidates_shrinks by metis

section \<open>The full list\<close>

lemma generate_crl_InrD:
  assumes "generate_crl loads signs refs t_purge t_list now i d st = (Inr row, st')" "get_ca st i = Some ca"
  shows "row = \<lparr>cl_id = 0, cl_ca_id = i, cl_number = next_crl_number (run_housekeeping refs i t_purge st) i,
      cl_this_update = now, cl_next_update = now + days (crl_validity d ca),
      cl_entries = crl_entries False now (get_revoked_certificates (run_housekeeping refs i t_purge st) ca t_list),
      cl_is_delta = False, cl_base_number = None, cl_is_external = False\<rparr>"
    and "st' = store_crl row (run_housekeeping refs i t_purge st)"
    and "has_private_key ca" "\<not> ca_offline ca"
  using assms by (auto simp: generate_crl_def Let_def split: if_splits)

lemma used_serials_filter:
  "set (filter publishable (List.map_filter r_serial rs)) = {n. publishable n \<and> n \<in> used_serials rs}"
  by (auto simp: used_serials_def)

text \<open>C2: A full CRL is the set of revoked serials (\<open>generate_crl\<close>, \<open>get_revoked_certificates\<close>). If
  no two of the CA's records that are spelled alike name different serials, a list built for a CA carries, each exactly once, the serials between 1 and 159 bits that a revoked
  unexpired certificate of the CA or of another record of its key holds, that a revoked unexpired
  child CA holds, or that an unexpired persistent record keeps without its certificate having been
  released; the optional purges run just before change nothing of it. The condition fails for columns
  of digits alone, one of which is a decimal and the other a hexadecimal number: there a record is dropped.\<close>

theorem full_crl_is_the_revoked_set:
  assumes "generate_crl loads signs refs t_purge t_list now i d st = (Inr row, st')" "get_ca st i = Some ca"
    and "t_purge \<le> t_list" "distinct (map c_id (p_certs st))" "columns_agree (crl_candidates st ca t_list)"
  shows "distinct (map e_serial (cl_entries row)) \<and>
    set (map e_serial (cl_entries row)) = {n. publishable n \<and> revoked_serial st ca t_list n}"
proof -
  let ?st = "run_housekeeping refs i t_purge st"
  have sh: "shrinks ca t_list st ?st" by (rule shrinks_housekeeping[OF assms(3,4)])
  have entries: "map e_serial (cl_entries row) =
      filter publishable (List.map_filter r_serial (get_revoked_certificates ?st ca t_list))"
    by (simp add: generate_crl_InrD(1)[OF assms(1,2)] crl_entries_serials)
  have "revoked_serial ?st ca t_list n = revoked_serial st ca t_list n" for n
    using sh by (simp add: shrinks_def)
  then show ?thesis
    unfolding entries used_serials_filter get_revoked_exact[OF columns_agree_shrinks[OF sh assms(5)]]
    using listing_distinct by (simp add: get_revoked_is_listing)
qed

section \<open>Numbers\<close>

lemma latest_by_number_None [simp]: "latest_by_number rs = None \<longleftrightarrow> rs = []"
  by (cases rs) (auto split: option.splits)

lemma latest_by_number_max: "latest_by_number rs = Some l \<Longrightarrow> r \<in> set rs \<Longrightarrow> cl_number r \<le> cl_number l"
proof (induction rs arbitrary: l)
  case (Cons a rs)
  show ?case
  proof (cases "latest_by_number rs")
    case None
    then show ?thesis using Cons.prems by simp
  next
    case (Some m)
    then have "r = a \<or> cl_number r \<le> cl_number m" using Cons.IH[OF Some] Cons.prems(2) by auto
    then show ?thesis using Some Cons.prems(1) by (auto split: if_splits)
  qed
qed simp

lemma latest_by_number_in: "latest_by_number rs = Some l \<Longrightarrow> l \<in> set rs"
  by (induction rs arbitrary: l) (auto split: option.splits if_splits)

lemma next_crl_number_fresh: "r \<in> set (crls_of st i) \<Longrightarrow> cl_number r < next_crl_number st i"
  using latest_by_number_max[of "crls_of st i" _ r]
  by (cases "latest_by_number (crls_of st i)") (auto simp: next_crl_number_def)

text \<open>What the three ways of adding a list do to the table of lists.\<close>

datatype crl_op =
    Full_Crl datetime datetime datetime int "int option"
  | Delta_Crl datetime int int
  | Upload_Crl int "uploaded option"
  | Other_Work pki

text \<open>Other work in between changes any table but that of the lists: CAs are taken offline and brought
  back, certificates are issued and revoked.\<close>

fun crl_exec ::
    "(ca_row \<Rightarrow> bool) \<Rightarrow> (ca_row \<Rightarrow> bool) \<Rightarrow> (x509 \<Rightarrow> x509 \<Rightarrow> bool) \<Rightarrow> pki \<Rightarrow> crl_op \<Rightarrow> pki" where
  "crl_exec loads signs refs st (Full_Crl tp tq now i d) = snd (generate_crl loads signs refs tp tq now i d st)"
| "crl_exec loads signs refs st (Delta_Crl now i h) = snd (generate_delta_crl loads signs now i h st)"
| "crl_exec loads signs refs st (Upload_Crl i u) = snd (install_external_crl i u st)"
| "crl_exec loads signs refs st (Other_Work st') = st'\<lparr>p_crls := p_crls st\<rparr>"

text \<open>A list this program signed has a number above every earlier list of its CA.\<close>

definition numbered :: "crl_row list \<Rightarrow> bool" where
  "numbered rows \<longleftrightarrow>
     (\<forall>k < length rows. \<forall>j < k. \<not> cl_is_external (rows ! k) \<longrightarrow> cl_ca_id (rows ! j) = cl_ca_id (rows ! k) \<longrightarrow>
        cl_number (rows ! j) < cl_number (rows ! k))"

lemma numbered_snoc:
  assumes "numbered rows"
    and "\<not> cl_is_external r \<Longrightarrow> \<forall>q \<in> set rows. cl_ca_id q = cl_ca_id r \<longrightarrow> cl_number q < cl_number r"
  shows "numbered (rows @ [r])"
  using assms by (auto simp: numbered_def nth_append less_Suc_eq)

lemma numbered_store:
  assumes "numbered (p_crls st)" "cl_is_external row \<or> cl_number row = next_crl_number st (cl_ca_id row)"
  shows "numbered (p_crls (store_crl row st))"
  unfolding store_crl_def
  using assms next_crl_number_fresh[of _ st "cl_ca_id row"]
  by (auto intro!: numbered_snoc simp: crls_of_def)

lemma housekeeping_crls [simp]: "p_crls (run_housekeeping refs i t st) = p_crls st"
proof -
  have "p_crls (foldl (\<lambda>s j. snd (delete_certificate refs t j s)) s js) = p_crls s" for s js
    by (induction js arbitrary: s) (simp_all add: delete_certificate_simps)
  then have e: "p_crls (purge_expired_revoked_certificates refs i t s) = p_crls s" for s
    by (cases "get_ca s i") (simp_all add: purge_expired_revoked_certificates_def)
  have "p_crls (purge_stale_revoked_serials i t s) = p_crls s" for s
    by (cases "get_ca s i") (simp_all add: purge_stale_revoked_serials_def)
  then show ?thesis by (simp add: run_housekeeping_def Let_def e)
qed

lemma invalidate_crls [simp]: "p_crls (invalidate_ca_cache i st) = p_crls st"
  by (simp add: invalidate_ca_cache_def)

lemma numbered_exec: "numbered (p_crls st) \<Longrightarrow> numbered (p_crls (crl_exec loads signs refs st op))"
proof (cases op)
  case (Full_Crl tp tq now i d)
  assume n: "numbered (p_crls st)"
  then show ?thesis
    using Full_Crl numbered_store[of "run_housekeeping refs i tp st"]
    by (cases "get_ca st i") (auto simp: generate_crl_def Let_def)
next
  case (Delta_Crl now i h)
  assume n: "numbered (p_crls st)"
  then show ?thesis
    using Delta_Crl numbered_store[of st]
    by (cases "get_ca st i"; cases "get_latest_crl st i") (auto simp: generate_delta_crl_def Let_def)
next
  case (Upload_Crl i u)
  assume n: "numbered (p_crls st)"
  show ?thesis
    using n Upload_Crl numbered_store[of st]
    by (auto simp: install_external_crl_def Let_def split: option.splits)
qed simp

text \<open>C3: CRL numbers (RFC 5280). Start from an empty table of lists. Whatever full lists, delta lists,
  uploads and other work on the rest of the database are interleaved, for any CAs, each list this
  program signed, full or delta, has a number strictly above every list of the same CA stored before
  it, uploaded or signed here. Nothing is said of the number of an uploaded list itself, which the
  code compares with the latest full list only.\<close>

theorem crl_numbers_increase:
  "numbered (p_crls (foldl (crl_exec loads signs refs) (st\<lparr>p_crls := []\<rparr>) ops))"
proof -
  have "numbered (p_crls s) \<Longrightarrow> numbered (p_crls (foldl (crl_exec loads signs refs) s ops))" for s
    by (induction ops arbitrary: s) (simp_all add: numbered_exec)
  then show ?thesis by (simp add: numbered_def)
qed

text \<open>A small installation: one CA, a certificate it revoked and the record of a deleted one.\<close>

definition demo_x509 :: "int \<Rightarrow> x509" where
  "demo_x509 n = \<lparr>x_serial = n, x_subject = ''CN=CA'', x_issuer = ''CN=CA'', x_spki = Some ''key'', x_aki = None,
     x_ski = None, x_not_before = 0, x_not_after = 1000, x_der = show_int n\<rparr>"

definition demo_ca :: ca_row where
  "demo_ca = \<lparr>ca_id = 1, ca_refid = ''ca'', ca_descr = ''CA'', ca_crt = Crt (demo_x509 1), ca_prv = True,
     ca_hsm = False, ca_offline = False, ca_caref = None, ca_subject = Some ''CN=CA'',
     ca_issuer = Some ''CN=CA'', ca_ski = None, ca_serial_number = Some ''1'', ca_valid_to = Some 1000,
     ca_revoked = False, ca_revoked_at = None, ca_revoke_reason = None, ca_invalidity_at = None,
     ca_cdp_enabled = True, ca_delta_crl_enabled = True, ca_ocsp_enabled = True, ca_crl_validity_days = None,
     ca_crl_publish_interval_hours = None, ca_delta_crl_interval = None\<rparr>"

definition demo_cert :: "int \<Rightarrow> int \<Rightarrow> string \<Rightarrow> bool \<Rightarrow> cert_row" where
  "demo_cert i n col gone = \<lparr>c_id = i, c_caref = Some ''ca'', c_crt = Crt (demo_x509 n), c_prv = False,
     c_serial_number = Some col, c_valid_to = Some 900, c_revoked = gone,
     c_revoked_at = (if gone then Some 10 else None),
     c_revoke_reason = (if gone then Some ''keyCompromise'' else None), c_invalidity_at = None,
     c_archived = False, c_related_id = None, c_hybrid_role = None\<rparr>"

definition demo_row :: "int \<Rightarrow> string \<Rightarrow> serial_row" where
  "demo_row i col = \<lparr>rs_id = i, rs_caref = ''ca'', rs_serial_number = col, rs_revoked_at = 5,
     rs_revoke_reason = Some ''superseded'', rs_invalidity_at = None, rs_valid_to = 800,
     rs_certificate_id = None\<rparr>"

definition demo_pki :: "cert_row list \<Rightarrow> serial_row list \<Rightarrow> pki" where
  "demo_pki certs rows = \<lparr>p_cas = [demo_ca], p_certs = certs, p_serials = rows, p_cross = [], p_crls = [],
     p_cache = [], p_config = []\<rparr>"

lemmas demo_defs = demo_x509_def demo_ca_def demo_cert_def demo_row_def demo_pki_def

text \<open>A CA signs a list, is taken offline while a list of its own is uploaded, and comes back.\<close>

definition demo_upload :: uploaded where
  "demo_upload = \<lparr>u_issuer = ''CN=CA'', u_verifies = True, u_is_delta = False, u_this_update = 30,
     u_next_update = Some 60, u_number = Some 5, u_entries = []\<rparr>"

definition demo_ops :: "crl_op list" where
  "demo_ops = [Full_Crl 20 20 21 1 None, Other_Work ((demo_pki [] [])\<lparr>p_cas := [demo_ca\<lparr>ca_offline := True\<rparr>]\<rparr>),
     Upload_Crl 1 (Some demo_upload), Full_Crl 31 31 31 1 None, Other_Work (demo_pki [] []),
     Delta_Crl 40 1 24, Full_Crl 50 50 51 1 None]"

theorem crl_numbers_increase_witness:
  "map (\<lambda>r. (cl_number r, cl_is_external r, cl_is_delta r))
     (p_crls (foldl (crl_exec (\<lambda>_. True) (\<lambda>_. True) (\<lambda>_ _. False)) ((demo_pki [] [])\<lparr>p_crls := []\<rparr>) demo_ops)) =
       [(1, False, False), (5, True, False), (6, False, True), (7, False, False)] \<and>
   numbered (p_crls (foldl (crl_exec (\<lambda>_. True) (\<lambda>_. True) (\<lambda>_ _. False)) ((demo_pki [] [])\<lparr>p_crls := []\<rparr>) demo_ops))"
proof (rule conjI)
  show "numbered (p_crls (foldl (crl_exec (\<lambda>_. True) (\<lambda>_. True) (\<lambda>_ _. False)) ((demo_pki [] [])\<lparr>p_crls := []\<rparr>) demo_ops))"
    by (rule crl_numbers_increase)
qed (simp add: demo_ops_def demo_upload_def demo_defs invalidate_ca_cache_def ucm_eval)

theorem full_crl_is_the_revoked_set_witness:
  "\<exists>row st'. generate_crl (\<lambda>_. True) (\<lambda>_. True) (\<lambda>_ _. False) 20 20 21 1 None
       (demo_pki [demo_cert 7 255 ''ff'' True] [demo_row 3 ''4660'']) = (Inr row, st') \<and>
     set (map e_serial (cl_entries row)) =
       {n. publishable n \<and> revoked_serial (demo_pki [demo_cert 7 255 ''ff'' True] [demo_row 3 ''4660'']) demo_ca 20 n}"
proof -
  let ?st = "demo_pki [demo_cert 7 255 ''ff'' True] [demo_row 3 ''4660'']"
  have "\<exists>row st'. generate_crl (\<lambda>_. True) (\<lambda>_. True) (\<lambda>_ _. False) 20 20 21 1 None ?st = (Inr row, st')"
    by (simp add: generate_crl_def get_ca_def first_row_def has_private_key_def demo_defs Let_def)
  then obtain row st' where g: "generate_crl (\<lambda>_. True) (\<lambda>_. True) (\<lambda>_ _. False) 20 20 21 1 None ?st = (Inr row, st')"
    by blast
  have ca: "get_ca ?st 1 = Some demo_ca" by (simp add: get_ca_def first_row_def demo_defs)
  have agree: "columns_agree (crl_candidates ?st demo_ca 20)"
    by (simp add: columns_agree_def crl_candidates_def revoked_certs_of_def revoked_child_cas_def persisted_of_def
        not_expired_def in_refids_def same_key_refids_def spki_of_def demo_defs)
  have "distinct (map c_id (p_certs ?st))" by (simp add: demo_defs)
  from full_crl_is_the_revoked_set[OF g ca _ this agree] g show ?thesis by auto
qed

end
