(* ===== verification/Ocsp.thy ===== *)
theory Ocsp
  imports Crl
begin

text \<open>
  The OCSP responder (\<^verbatim>\<open>services/ocsp_service.py\<close>, \<^verbatim>\<open>api/ocsp_routes.py\<close>): the status of a
  serial, the signing identity, the response cache and the handling of a request.

  Library code enters as parameters: \<open>verifies\<close> (signature verification), the record \<open>pki_lib\<close>
  for what the responder asks of a parsed certificate or a stored key, and \<open>digest\<close> for the hashes
  of a CertID. An answer is the list of serials with their status; its encoding and signature are
  the library's. A distinguished name is its RFC 4514 text.
\<close>

section \<open>The status of a serial\<close>

definition certificates_with_serial :: "pki \<Rightarrow> ca_row \<Rightarrow> int \<Rightarrow> cert_row list" where
  "certificates_with_serial st ca n =
     sort_key (\<lambda>c. if c_revoked c then 0 else (1 :: int)) (sort_key c_id
       (filter (\<lambda>c. in_refids (c_caref c) (same_key_refids st ca)
                  \<and> (\<exists>v \<in> serial_variants n. c_serial_number c = Some v)) (p_certs st)))"

definition persisted_status :: "pki \<Rightarrow> ca_row \<Rightarrow> int \<Rightarrow> ocsp_status option" where
  "persisted_status st ca n =
     map_option (\<lambda>r. Revoked (rs_revoked_at r) (Some (ocsp_reason (rs_revoke_reason r))))
       (first_row (\<lambda>_. True) (by_date (filter (\<lambda>r. rs_caref r \<in> set (same_key_refids st ca)
            \<and> rs_serial_number r \<in> serial_variants n) (p_serials st))))"

definition child_by_column :: "pki \<Rightarrow> ca_row \<Rightarrow> int \<Rightarrow> ca_row option" where
  "child_by_column st issuer n =
     first_row (\<lambda>c. record_holds_serial (ca_crt c) n \<noteq> Some False)
       (filter (\<lambda>c. in_refids (ca_caref c) (same_key_refids st issuer)
                  \<and> (\<exists>v \<in> serial_variants n. ca_serial_number c = Some v)) (p_cas st))"

definition child_by_certificate ::
    "(x509 \<Rightarrow> x509 \<Rightarrow> bool option) \<Rightarrow> pki \<Rightarrow> ca_row \<Rightarrow> int \<Rightarrow> ca_row option" where
  "child_by_certificate verifies st issuer n =
     (case load_crt (ca_crt issuer) of
        None \<Rightarrow> None
      | Some ix \<Rightarrow>
          first_row (\<lambda>c. ca_id c \<noteq> ca_id issuer \<and>
              (case load_crt (ca_crt c) of
                 None \<Rightarrow> False
               | Some x \<Rightarrow> x_serial x = n \<and> x_issuer x = x_subject ix \<and>
                   (ca_caref c = Some (ca_refid issuer) \<or> verifies x ix = Some True))) (p_cas st))"

definition child_ca_for_serial ::
    "(x509 \<Rightarrow> x509 \<Rightarrow> bool option) \<Rightarrow> pki \<Rightarrow> ca_row \<Rightarrow> int \<Rightarrow> ca_row option" where
  "child_ca_for_serial verifies st issuer n =
     (case child_by_column st issuer n of
        Some c \<Rightarrow> Some c
      | None \<Rightarrow> child_by_certificate verifies st issuer n)"

text \<open>Cross-certificates (\<^verbatim>\<open>services/ca/cross_certs.py\<close>): the issuer a row names, or the held CA
  whose key signed it, whose refid is then stored on the row.\<close>

definition prefer_self_signed :: "(x509 \<Rightarrow> x509 \<Rightarrow> bool option) \<Rightarrow> pki \<Rightarrow> ca_row \<Rightarrow> ca_row" where
  "prefer_self_signed verifies st ca =
     (let refids = same_key_refids st ca
      in if length refids = 1 then ca
         else (case self_signed_first verifies (sort_key ca_id
                      (filter (\<lambda>c. ca_refid c \<in> set refids) (p_cas st))) of
                 [] \<Rightarrow> ca | c # _ \<Rightarrow> c))"

definition cross_issuer_candidates :: "pki \<Rightarrow> x509 \<Rightarrow> int \<Rightarrow> ca_row list" where
  "cross_issuer_candidates st x self =
     add_candidates self (case x_aki x of None \<Rightarrow> [] | Some k \<Rightarrow> cas_by_ski st k)
       (add_candidates self (filter (\<lambda>c. ca_subject c = Some (x_issuer x)) (p_cas st)) [])"

definition resolve_cross_issuer ::
    "(x509 \<Rightarrow> x509 \<Rightarrow> bool option) \<Rightarrow> pki \<Rightarrow> x509 \<Rightarrow> int \<Rightarrow> ca_row option" where
  "resolve_cross_issuer verifies st x self =
     first_row (\<lambda>c. case load_crt (ca_crt c) of None \<Rightarrow> False | Some ix \<Rightarrow> verifies x ix = Some True)
       (self_signed_first verifies (sort_key ca_id (cross_issuer_candidates st x self)))"

definition issuer_of :: "(x509 \<Rightarrow> x509 \<Rightarrow> bool option) \<Rightarrow> pki \<Rightarrow> cross_row \<Rightarrow> ca_row option \<times> cross_row" where
  "issuer_of verifies st row =
     (case (case xc_issuer_caref row of
              None \<Rightarrow> None | Some r \<Rightarrow> if r = [] then None else ca_by_refid st r) of
        Some linked \<Rightarrow> (Some (prefer_self_signed verifies st linked), row)
      | None \<Rightarrow>
          (case (load_crt (xc_crt row), get_ca st (xc_ca_id row)) of
             (Some x, Some own) \<Rightarrow>
               (case resolve_cross_issuer verifies st x (ca_id own) of
                  None \<Rightarrow> (None, row)
                | Some issuer \<Rightarrow> (Some issuer, row\<lparr>xc_issuer_caref := Some (ca_refid issuer)\<rparr>))
           | _ \<Rightarrow> (None, row)))"

fun rows_of_issuer_go ::
    "(x509 \<Rightarrow> x509 \<Rightarrow> bool option) \<Rightarrow> pki \<Rightarrow> ca_row \<Rightarrow> int \<Rightarrow> cross_row list \<Rightarrow> cross_row list \<times> cross_row list" where
  "rows_of_issuer_go verifies st issuer n [] = ([], [])"
| "rows_of_issuer_go verifies st issuer n (row # rows) =
     (let (found, rest) = rows_of_issuer_go verifies st issuer n rows;
          refids = same_key_refids st issuer
      in if xc_serial_number row \<notin> serial_variants n then (found, row # rest)
         else if in_refids (xc_issuer_caref row) refids then (row # found, row # rest)
         else if xc_issuer row = ca_subject issuer then
           (let (linked, row') = issuer_of verifies st row
            in if in_refids (map_option ca_refid linked) refids then (row' # found, row' # rest)
               else (found, row' # rest))
         else (found, row # rest))"

definition rows_of_issuer ::
    "(x509 \<Rightarrow> x509 \<Rightarrow> bool option) \<Rightarrow> pki \<Rightarrow> ca_row \<Rightarrow> int \<Rightarrow> cross_row list \<times> pki" where
  "rows_of_issuer verifies st issuer n =
     (let (found, rows) = rows_of_issuer_go verifies st issuer n (p_cross st)
      in (found, st\<lparr>p_cross := rows\<rparr>))"

definition cross_certificate_for_serial ::
    "(x509 \<Rightarrow> x509 \<Rightarrow> bool option) \<Rightarrow> pki \<Rightarrow> ca_row \<Rightarrow> int \<Rightarrow> cross_row option \<times> pki" where
  "cross_certificate_for_serial verifies st issuer n =
     (let (rows, st') = rows_of_issuer verifies st issuer n
      in (first_row (\<lambda>r. record_holds_serial (xc_crt r) n \<noteq> Some False) rows, st'))"

definition revoked_answer :: "datetime \<Rightarrow> datetime option \<Rightarrow> string option \<Rightarrow> ocsp_status" where
  "revoked_answer now revoked_at reason =
     Revoked (case revoked_at of None \<Rightarrow> now | Some t \<Rightarrow> t) (Some (ocsp_reason reason))"

text \<open>The last part of the decision: the uploaded list, then what was found. \<open>held\<close> is whether a
  record of the serial is held.\<close>

definition external_or :: "pki \<Rightarrow> ca_row \<Rightarrow> int \<Rightarrow> bool \<Rightarrow> ocsp_status" where
  "external_or st ca n held =
     (case get_external_revocation st (ca_id ca) n of
        Some (at, reason) \<Rightarrow> Revoked at reason
      | None \<Rightarrow> if held then Good else Unknown)"

definition persisted_or :: "pki \<Rightarrow> ca_row \<Rightarrow> int \<Rightarrow> bool \<Rightarrow> ocsp_status" where
  "persisted_or st ca n held =
     (case persisted_status st ca n of Some s \<Rightarrow> s | None \<Rightarrow> external_or st ca n held)"

definition held_certificate :: "pki \<Rightarrow> ca_row \<Rightarrow> int \<Rightarrow> cert_row option" where
  "held_certificate st ca n =
     first_row (\<lambda>c. record_holds_serial (c_crt c) n \<noteq> Some False) (certificates_with_serial st ca n)"

definition status_for_serial ::
    "(x509 \<Rightarrow> x509 \<Rightarrow> bool option) \<Rightarrow> datetime \<Rightarrow> pki \<Rightarrow> ca_row \<Rightarrow> int \<Rightarrow> ocsp_status \<times> pki" where
  "status_for_serial verifies now st ca n =
     (case held_certificate st ca n of
        Some c \<Rightarrow>
          if c_revoked c then (revoked_answer now (c_revoked_at c) (c_revoke_reason c), st)
          else (external_or st ca n True, st)
      | None \<Rightarrow>
          (case child_ca_for_serial verifies st ca n of
             Some child \<Rightarrow>
               if ca_revoked child then (revoked_answer now (ca_revoked_at child) (ca_revoke_reason child), st)
               else (persisted_or st ca n True, st)
           | None \<Rightarrow>
               (case cross_certificate_for_serial verifies st ca n of
                  (Some x, st') \<Rightarrow>
                    if xc_revoked x then (revoked_answer now (xc_revoked_at x) (xc_revoke_reason x), st')
                    else (persisted_or st' ca n True, st')
                | (None, st') \<Rightarrow> (persisted_or st' ca n False, st'))))"

section \<open>The signing identity\<close>

text \<open>What the responder asks of a certificate and of a stored key: the key usages (\<open>None\<close> an absent
  extension), the no-check extension, the private key of a row, whether a key is a certificate's,
  and whether FIPS mode refuses a key.\<close>

record 'k pki_lib =
  l_eku_ocsp :: "x509 \<Rightarrow> bool option"
  l_ku_signs :: "x509 \<Rightarrow> bool option"
  l_nocheck :: "x509 \<Rightarrow> bool"
  l_key :: "cert_row \<Rightarrow> 'k option"
  l_matches :: "'k \<Rightarrow> x509 \<Rightarrow> bool"
  l_fips_refuses :: "'k \<Rightarrow> bool"
  l_ca_key :: "ca_row \<Rightarrow> 'k option"

datatype responder_refusal =
    R_Not_Found | R_No_Certificate | R_No_Key | R_Revoked | R_Unparseable | R_Ca_Unparseable
  | R_Wrong_Issuer | R_Not_Valid | R_Bad_Signature | R_No_Eku | R_Not_Ocsp | R_Not_Signing
  | R_No_Nocheck | R_Key_Unreadable | R_Key_Mismatch | R_Fips

definition check_delegated_responder ::
    "(x509 \<Rightarrow> x509 \<Rightarrow> bool option) \<Rightarrow> 'k pki_lib \<Rightarrow> datetime \<Rightarrow> ca_row \<Rightarrow> cert_row option \<Rightarrow>
     responder_refusal option" where
  "check_delegated_responder verifies lib now ca rec =
     (case rec of
        None \<Rightarrow> Some R_Not_Found
      | Some r \<Rightarrow>
          if c_crt r = No_Crt then Some R_No_Certificate
          else if \<not> c_prv r then Some R_No_Key
          else if c_revoked r then Some R_Revoked
          else
            (case load_crt (c_crt r) of
               None \<Rightarrow> Some R_Unparseable
             | Some x \<Rightarrow>
                 (case load_crt (ca_crt ca) of
                    None \<Rightarrow> Some R_Ca_Unparseable
                  | Some ix \<Rightarrow>
                      if x_issuer x \<noteq> x_subject ix then Some R_Wrong_Issuer
                      else if \<not> (x_not_before x \<le> now \<and> now \<le> x_not_after x) then Some R_Not_Valid
                      else if verifies x ix \<noteq> Some True then Some R_Bad_Signature
                      else
                        (case l_eku_ocsp lib x of
                           None \<Rightarrow> Some R_No_Eku
                         | Some ocsp \<Rightarrow>
                             if \<not> ocsp then Some R_Not_Ocsp
                             else if l_ku_signs lib x = Some False then Some R_Not_Signing
                             else if \<not> l_nocheck lib x then Some R_No_Nocheck
                             else
                               (case l_key lib r of
                                  None \<Rightarrow> Some R_Key_Unreadable
                                | Some k \<Rightarrow>
                                    if \<not> l_matches lib k x then Some R_Key_Mismatch
                                    else if l_fips_refuses lib k then Some R_Fips
                                    else None)))))"

definition responder_key_of :: "int \<Rightarrow> string" where
  "responder_key_of i = responder_prefix @ show_int i"

text \<open>The configured responder when it passes; \<open>None\<close> when none is configured or it is refused.\<close>

definition get_delegated_responder ::
    "(x509 \<Rightarrow> x509 \<Rightarrow> bool option) \<Rightarrow> 'k pki_lib \<Rightarrow> datetime \<Rightarrow> pki \<Rightarrow> ca_row \<Rightarrow> cert_row option" where
  "get_delegated_responder verifies lib now st ca =
     (case map_of (p_config st) (responder_key_of (ca_id ca)) of
        None \<Rightarrow> None
      | Some v \<Rightarrow>
          if v = [] then None
          else (case py_int 10 v of
                  None \<Rightarrow> None
                | Some i \<Rightarrow>
                    if check_delegated_responder verifies lib now ca (get_cert st i) = None
                    then get_cert st i else None))"

datatype 'k ocsp_signer = By_Responder cert_row | By_Ca 'k
datatype ocsp_error = Signing_Unavailable | Signing_Fault

definition resolve_signing ::
    "(x509 \<Rightarrow> x509 \<Rightarrow> bool option) \<Rightarrow> 'k pki_lib \<Rightarrow> datetime \<Rightarrow> pki \<Rightarrow> ca_row \<Rightarrow> ocsp_error + 'k ocsp_signer" where
  "resolve_signing verifies lib now st ca =
     (case get_delegated_responder verifies lib now st ca of
        Some r \<Rightarrow> Inr (By_Responder r)
      | None \<Rightarrow>
          if ca_offline ca then Inl Signing_Unavailable
          else if \<not> has_private_key ca then Inl Signing_Unavailable
          else (case l_ca_key lib ca of None \<Rightarrow> Inl Signing_Fault | Some k \<Rightarrow> Inr (By_Ca k)))"

definition response_validity_hours :: "pki \<Rightarrow> int" where
  "response_validity_hours st =
     (let raw = (case map_of (p_config st) ''ocsp_response_validity_hours'' of
                   None \<Rightarrow> ''24'' | Some v \<Rightarrow> v)
      in case py_int 10 raw of
           None \<Rightarrow> 24
         | Some h \<Rightarrow> if h \<le> 0 then 24 else if 168 < h then 168 else h)"

definition bound_next_update :: "datetime \<Rightarrow> 'k ocsp_signer \<Rightarrow> datetime" where
  "bound_next_update next_update signer =
     (case signer of
        By_Ca _ \<Rightarrow> next_update
      | By_Responder r \<Rightarrow>
          (case load_crt (c_crt r) of None \<Rightarrow> next_update | Some x \<Rightarrow> min next_update (x_not_after x)))"

section \<open>The cache\<close>

definition cache_key :: "int \<Rightarrow> string \<Rightarrow> string" where
  "cache_key n algo = format_hex False n @ '':'' @ algo"

definition cache_response :: "int \<Rightarrow> string \<Rightarrow> ocsp_status \<Rightarrow> datetime \<Rightarrow> pki \<Rightarrow> pki" where
  "cache_response i key status next_update st =
     (let fresh = \<lparr>oc_ca_id = i, oc_key = key, oc_status = status, oc_next_update = next_update\<rparr>
      in case first_row (\<lambda>o'. oc_ca_id o' = i \<and> oc_key o' = key) (p_cache st) of
           Some _ \<Rightarrow> st\<lparr>p_cache := update_rows (\<lambda>o'. oc_ca_id o' = i \<and> oc_key o' = key) (\<lambda>_. fresh) (p_cache st)\<rparr>
         | None \<Rightarrow> st\<lparr>p_cache := p_cache st @ [fresh]\<rparr>)"

definition get_cached_response :: "datetime \<Rightarrow> pki \<Rightarrow> int \<Rightarrow> int \<Rightarrow> string \<Rightarrow> ocsp_status option" where
  "get_cached_response now st i n algo =
     (case first_row (\<lambda>o'. oc_ca_id o' = i \<and> oc_key o' = cache_key n algo) (p_cache st) of
        None \<Rightarrow> None
      | Some o' \<Rightarrow> if oc_next_update o' < now then None else Some (oc_status o'))"

definition key_matches :: "string set \<Rightarrow> string \<Rightarrow> bool" where
  "key_matches forms key \<longleftrightarrow> (\<exists>form \<in> forms. key = form \<or> starts_with key (form @ '':''))"

definition invalidate_cached_responses :: "py_serial \<Rightarrow> int option \<Rightarrow> pki \<Rightarrow> pki" where
  "invalidate_cached_responses serial ca st =
     (let serial_hex = serial_to_hex serial
      in if serial_hex = [] then st
         else (let forms = cache_key_forms serial serial_hex
               in st\<lparr>p_cache := filter (\<lambda>o'. \<not> ((ca = None \<or> ca = Some (oc_ca_id o')) \<and>
                                             key_matches forms (oc_key o'))) (p_cache st)\<rparr>))"

definition cleanup_expired_responses :: "datetime \<Rightarrow> pki \<Rightarrow> pki" where
  "cleanup_expired_responses now st = st\<lparr>p_cache := filter (\<lambda>o'. \<not> oc_next_update o' < now) (p_cache st)\<rparr>"

section \<open>Answering a request\<close>

record ocsp_item =
  q_serial :: int
  q_name_hash :: string
  q_key_hash :: string
  q_algo :: string

record ocsp_request =
  q_items :: "ocsp_item list"
  q_nonce :: "string option"
  q_unsupported_critical :: bool

datatype ocsp_answer =
    Malformed | Unauthorized | Internal_Error | Answers "(int \<times> ocsp_status) list"

definition find_ca_by_issuer_hash ::
    "(x509 \<Rightarrow> x509 \<Rightarrow> bool option) \<Rightarrow> (string \<Rightarrow> string \<Rightarrow> string) \<Rightarrow> (x509 \<Rightarrow> string) \<Rightarrow> pki \<Rightarrow> ocsp_item \<Rightarrow>
     ca_row option" where
  "find_ca_by_issuer_hash verifies digest key_bits st item =
     first_row (\<lambda>ca. case load_crt (ca_crt ca) of
                       None \<Rightarrow> False
                     | Some x \<Rightarrow> digest (q_algo item) (x_subject x) = q_name_hash item
                               \<and> digest (q_algo item) (key_bits x) = q_key_hash item)
       (self_signed_first verifies (sort_key ca_id (filter (\<lambda>ca. ca_crt ca \<noteq> No_Crt) (p_cas st))))"

definition generate_response ::
    "(x509 \<Rightarrow> x509 \<Rightarrow> bool option) \<Rightarrow> 'k pki_lib \<Rightarrow> datetime \<Rightarrow> ca_row \<Rightarrow> int \<Rightarrow> string \<Rightarrow> string option \<Rightarrow> pki \<Rightarrow>
     ocsp_answer \<times> pki" where
  "generate_response verifies lib now ca n algo nonce st =
     (case resolve_signing verifies lib now st ca of
        Inl Signing_Unavailable \<Rightarrow> (Unauthorized, st)
      | Inl Signing_Fault \<Rightarrow> (Internal_Error, st)
      | Inr signer \<Rightarrow>
          (let (status, st') = status_for_serial verifies now st ca n;
               next_update = bound_next_update (now + hours (response_validity_hours st)) signer
           in (Answers [(n, status)],
               if nonce = None then cache_response (ca_id ca) (cache_key n algo) status next_update st' else st')))"

fun statuses_of ::
    "(x509 \<Rightarrow> x509 \<Rightarrow> bool option) \<Rightarrow> datetime \<Rightarrow> ca_row \<Rightarrow> ocsp_item list \<Rightarrow> pki \<Rightarrow> (int \<times> ocsp_status) list \<times> pki" where
  "statuses_of verifies now ca [] st = ([], st)"
| "statuses_of verifies now ca (item # items) st =
     (let (status, st1) = status_for_serial verifies now st ca (q_serial item);
          (rest, st2) = statuses_of verifies now ca items st1
      in ((q_serial item, status) # rest, st2))"

definition generate_multi_response ::
    "(x509 \<Rightarrow> x509 \<Rightarrow> bool option) \<Rightarrow> 'k pki_lib \<Rightarrow> datetime \<Rightarrow> ca_row \<Rightarrow> ocsp_item list \<Rightarrow> pki \<Rightarrow> ocsp_answer \<times> pki" where
  "generate_multi_response verifies lib now ca items st =
     (case resolve_signing verifies lib now st ca of
        Inl Signing_Unavailable \<Rightarrow> (Unauthorized, st)
      | Inl Signing_Fault \<Rightarrow> (Internal_Error, st)
      | Inr signer \<Rightarrow> (let (rs, st') = statuses_of verifies now ca items st in (Answers rs, st')))"

definition process_ocsp_request ::
    "(x509 \<Rightarrow> x509 \<Rightarrow> bool option) \<Rightarrow> 'k pki_lib \<Rightarrow> (string \<Rightarrow> string \<Rightarrow> string) \<Rightarrow> (x509 \<Rightarrow> string) \<Rightarrow>
     datetime \<Rightarrow> ocsp_request option \<Rightarrow> pki \<Rightarrow> ocsp_answer \<times> pki" where
  "process_ocsp_request verifies lib digest key_bits now parsed st =
     (case parsed of
        None \<Rightarrow> (Malformed, st)
      | Some req \<Rightarrow>
          if q_unsupported_critical req then (Malformed, st)
          else
            (let cas = map (find_ca_by_issuer_hash verifies digest key_bits st) (q_items req)
             in if (\<exists>m \<in> set cas. case m of None \<Rightarrow> True | Some ca \<Rightarrow> \<not> ca_ocsp_enabled ca) then (Unauthorized, st)
                else
                  (case (q_items req, cas) of
                     (item # others, Some ca # _) \<Rightarrow>
                       if (\<exists>m \<in> set cas. map_option ca_id m \<noteq> Some (ca_id ca)) then (Unauthorized, st)
                       else if others \<noteq> [] then generate_multi_response verifies lib now ca (q_items req) st
                       else
                         (case (if q_nonce req = None
                                then get_cached_response now st (ca_id ca) (q_serial item) (q_algo item)
                                else None) of
                            Some status \<Rightarrow> (Answers [(q_serial item, status)], st)
                          | None \<Rightarrow> generate_response verifies lib now ca (q_serial item) (q_algo item)
                                      (q_nonce req) st)
                   | _ \<Rightarrow> (Malformed, st))))"

lemmas ocsp_defs [ucm_eval] =
  certificates_with_serial_def persisted_status_def child_by_column_def child_by_certificate_def
  child_ca_for_serial_def rows_of_issuer_def cross_certificate_for_serial_def revoked_answer_def
  external_or_def persisted_or_def held_certificate_def status_for_serial_def
  check_delegated_responder_def responder_key_of_def get_delegated_responder_def resolve_signing_def
  response_validity_hours_def bound_next_update_def cache_key_def cache_response_def
  get_cached_response_def key_matches_def invalidate_cached_responses_def
  find_ca_by_issuer_hash_def generate_response_def generate_multi_response_def
  process_ocsp_request_def self_signed_first_def is_self_signed_record_def is_self_signed_def
  responder_prefix_def

end
