(* ===== verification/Revocation.thy ===== *)
theory Revocation
  imports Crl_Content Ocsp
begin

text \<open>
  The operations that revoke and release: \<open>revoke_certificate\<close> and \<open>delete_certificate\<close> of
  \<^verbatim>\<open>services/cert/mixins/lifecycle.py\<close>, the unhold route of
  \<^verbatim>\<open>api/v2/certificates/cert_lifecycle.py\<close>, the database writes of an in-place renewal
  (\<^verbatim>\<open>services/cert/renewal.py\<close>), the revocation of a CA
  (\<^verbatim>\<open>services/ca/ca_operations.py\<close>) and of a cross-certificate (\<^verbatim>\<open>services/ca/cross_certs.py\<close>).

  Each reading of the clock is an argument, gathered in \<open>clock\<close>; \<open>commits\<close> says whether the
  database accepts the commit of the operation. The approval requests these operations close are the
  state of \<open>Approvals\<close>; audit entries, events and files on disk are not part of this state.
\<close>

record clock =
  t_op :: datetime
  t_purge :: datetime
  t_list :: datetime
  t_crl :: datetime

section \<open>Revoking a certificate\<close>

definition HOLD_REASONS :: "string list" where
  "HOLD_REASONS = [''certificateHold'', ''certificate_hold'']"

datatype revoke_error = Cert_Not_Found | Already_Revoked | Not_Staged | Not_Committed

definition issuing_record :: "pki \<Rightarrow> string option \<Rightarrow> ca_row option" where
  "issuing_record st caref =
     (case caref of None \<Rightarrow> None | Some r \<Rightarrow> if r = [] then None else ca_by_refid st r)"

text \<open>The record of a revocation: the first row of this CA and this column is overwritten, or a row
  is added.\<close>

fun update_first :: "('r \<Rightarrow> bool) \<Rightarrow> ('r \<Rightarrow> 'r) \<Rightarrow> 'r list \<Rightarrow> 'r list" where
  "update_first p f [] = []"
| "update_first p f (r # rs) = (if p r then f r # rs else r # update_first p f rs)"

definition upsert_revocation ::
    "string \<Rightarrow> string \<Rightarrow> (serial_row \<Rightarrow> serial_row) \<Rightarrow> serial_row list \<Rightarrow> serial_row list" where
  "upsert_revocation caref column put_fields rows =
     (let named = (\<lambda>r. rs_caref r = caref \<and> rs_serial_number r = column)
      in if list_ex named rows then update_first named put_fields rows
         else rows @ [put_fields \<lparr>rs_id = next_id (map rs_id rows), rs_caref = caref, rs_serial_number = column,
                             rs_revoked_at = 0, rs_revoke_reason = None, rs_invalidity_at = None,
                             rs_valid_to = 0, rs_certificate_id = None\<rparr>])"

definition stage_revocation ::
    "datetime \<Rightarrow> string \<Rightarrow> datetime option \<Rightarrow> cert_row \<Rightarrow> pki \<Rightarrow> pki option" where
  "stage_revocation now reason invalidity c st =
     (let invalid = (case invalidity of None \<Rightarrow> c_invalidity_at c | Some t \<Rightarrow> Some t);
          st1 = st\<lparr>p_certs := update_rows (\<lambda>r. c_id r = c_id c)
                   (\<lambda>r. r\<lparr>c_revoked := True, c_revoked_at := Some now, c_revoke_reason := Some reason,
                          c_invalidity_at := invalid\<rparr>) (p_certs st)\<rparr>
      in case (c_caref c, issuing_record st (c_caref c)) of
           (Some caref, Some ca) \<Rightarrow>
             (case c_serial_number c of
                None \<Rightarrow> None
              | Some column \<Rightarrow>
                  Some (st1\<lparr>p_serials := upsert_revocation caref column
                     (\<lambda>r. r\<lparr>rs_revoked_at := now, rs_revoke_reason := Some reason,
                            rs_invalidity_at := invalid,
                            rs_valid_to := (case c_valid_to c of None \<Rightarrow> now + days 365 | Some t \<Rightarrow> t),
                            rs_certificate_id := Some (c_id c)\<rparr>) (p_serials st1)\<rparr>))
         | _ \<Rightarrow> Some st1)"

text \<open>After the commit: the CRL of the CA, then the cached answers for the serial and for every CA
  the certificate is the delegated responder of.\<close>

definition publish_revocation ::
    "(ca_row \<Rightarrow> bool) \<Rightarrow> (ca_row \<Rightarrow> bool) \<Rightarrow> (x509 \<Rightarrow> x509 \<Rightarrow> bool) \<Rightarrow> clock \<Rightarrow> ca_row option \<Rightarrow> cert_row \<Rightarrow> pki \<Rightarrow> pki" where
  "publish_revocation loads signs refs clk ca c st =
     (let st1 = (case ca of
                   None \<Rightarrow> st
                 | Some issuer \<Rightarrow>
                     if ca_cdp_enabled issuer
                     then snd (generate_crl loads signs refs (t_purge clk) (t_list clk) (t_crl clk)
                                 (ca_id issuer) None st)
                     else st);
          st2 = invalidate_cached_responses (column_arg (c_serial_number c)) (map_option ca_id ca) st1
      in foldl (\<lambda>s j. invalidate_ca_cache j s) st2 (responder_cas_for_certificate st2 (c_id c)))"

text \<open>Moving the link of a pair back to an older certificate. A row that cannot be read raises, and
  the caller rolls the move back.\<close>

fun newest_naming :: "(x509 \<Rightarrow> x509 \<Rightarrow> bool) \<Rightarrow> cert_row \<Rightarrow> cert_row list \<Rightarrow> cert_row option" where
  "newest_naming refs a [] = None"
| "newest_naming refs a (b # bs) =
     (if load_crt (c_crt b) = None then None
      else if names_cert refs b a then Some b else newest_naming refs a bs)"

definition hand_over_link :: "(x509 \<Rightarrow> x509 \<Rightarrow> bool) \<Rightarrow> datetime \<Rightarrow> cert_row option \<Rightarrow> pki \<Rightarrow> pki" where
  "hand_over_link refs now row st =
     (case (row, mutual_partner st row) of
        (Some r, Some a) \<Rightarrow>
          if c_revoked a \<or> \<not> names_cert refs r a then st
          else (case newest_naming refs a (live_rows_linked_to st now (c_id a) [c_id r]) of
                  None \<Rightarrow> st
                | Some b \<Rightarrow> st\<lparr>p_certs := update_rows (\<lambda>x. c_id x = c_id a)
                                (c_related_id_update (\<lambda>_. Some (c_id b))) (p_certs st)\<rparr>)
      | _ \<Rightarrow> st)"

text \<open>Revoking one certificate; \<open>revoke_certificate\<close> takes the other member of a related pair with
  it, whose failure is only logged.\<close>

definition revoke_one ::
    "(ca_row \<Rightarrow> bool) \<Rightarrow> (ca_row \<Rightarrow> bool) \<Rightarrow> (x509 \<Rightarrow> x509 \<Rightarrow> bool) \<Rightarrow> clock \<Rightarrow> bool \<Rightarrow> int \<Rightarrow> string \<Rightarrow>
     datetime option \<Rightarrow> pki \<Rightarrow> (revoke_error + unit) \<times> pki" where
  "revoke_one loads signs refs clk commits i reason invalidity st =
     (case get_cert st i of
        None \<Rightarrow> (Inl Cert_Not_Found, st)
      | Some c \<Rightarrow>
          if c_revoked c then (Inl Already_Revoked, st)
          else (case stage_revocation (t_op clk) reason invalidity c st of
                  None \<Rightarrow> (Inl Not_Staged, st)
                | Some st1 \<Rightarrow>
                    if \<not> commits then (Inl Not_Committed, st)
                    else (Inr (), publish_revocation loads signs refs clk (issuing_record st (c_caref c)) c st1)))"

definition revoke_certificate ::
    "(ca_row \<Rightarrow> bool) \<Rightarrow> (ca_row \<Rightarrow> bool) \<Rightarrow> (x509 \<Rightarrow> x509 \<Rightarrow> bool) \<Rightarrow> clock \<Rightarrow> clock \<Rightarrow> bool \<Rightarrow> bool \<Rightarrow> int \<Rightarrow>
     string \<Rightarrow> datetime option \<Rightarrow> bool \<Rightarrow> pki \<Rightarrow> (revoke_error + unit) \<times> pki" where
  "revoke_certificate loads signs refs clk clk' commits commits' i reason invalidity revoke_related st =
     (case revoke_one loads signs refs clk commits i reason invalidity st of
        (Inl e, st1) \<Rightarrow> (Inl e, st1)
      | (Inr u, st1) \<Rightarrow>
          if revoke_related then
            (case mutual_partner st1 (get_cert st1 i) of
               None \<Rightarrow> (Inr u, st1)
             | Some partner \<Rightarrow>
                 if c_revoked partner then (Inr u, st1)
                 else (case revoke_one loads signs refs clk' commits' (c_id partner) reason invalidity st1 of
                         (Inl _, st2) \<Rightarrow> (Inr u, st2)
                       | (Inr _, st2) \<Rightarrow>
                           (Inr u, hand_over_link refs (t_op clk') (get_cert st2 (c_id partner)) st2)))
          else (Inr u, hand_over_link refs (t_op clk) (get_cert st1 i) st1))"

section \<open>Lifting a hold\<close>

datatype unhold_answer = U_404 | U_Not_Revoked | U_Not_Hold | U_500 | U_200

definition set_cert :: "int \<Rightarrow> (cert_row \<Rightarrow> cert_row) \<Rightarrow> pki \<Rightarrow> pki" where
  "set_cert i f st = st\<lparr>p_certs := update_rows (\<lambda>r. c_id r = i) f (p_certs st)\<rparr>"

definition stage_removal ::
    "(ca_row \<Rightarrow> bool) \<Rightarrow> (ca_row \<Rightarrow> bool) \<Rightarrow> clock \<Rightarrow> ca_row option \<Rightarrow> int \<Rightarrow> pki \<Rightarrow> pki" where
  "stage_removal loads signs clk ca i st =
     (case ca of
        None \<Rightarrow> st
      | Some issuer \<Rightarrow>
          if ca_delta_crl_enabled issuer \<and> ca_cdp_enabled issuer
          then snd (generate_delta_crl loads signs (t_crl clk) (ca_id issuer) 24
                 (set_cert i (\<lambda>r. r\<lparr>c_revoke_reason := Some ''removeFromCRL'',
                                    c_revoked_at := Some (t_op clk)\<rparr>) st))
          else st)"

definition drop_revocation :: "string option \<Rightarrow> string option \<Rightarrow> pki \<Rightarrow> pki" where
  "drop_revocation caref column st =
     (case (caref, column) of
        (Some r, Some s) \<Rightarrow>
          if r = [] \<or> s = [] then st
          else st\<lparr>p_serials := filter (\<lambda>x. \<not> (rs_caref x = r \<and> rs_serial_number x = s)) (p_serials st)\<rparr>
      | _ \<Rightarrow> st)"

text \<open>\<open>stages\<close> is the commit of the \<open>removeFromCRL\<close> staging, \<open>commits\<close> the one that lifts the
  hold; when that one fails the hold is written back as it was.\<close>

definition unhold_certificate ::
    "(ca_row \<Rightarrow> bool) \<Rightarrow> (ca_row \<Rightarrow> bool) \<Rightarrow> (x509 \<Rightarrow> x509 \<Rightarrow> bool) \<Rightarrow> clock \<Rightarrow> bool \<Rightarrow> bool \<Rightarrow> int \<Rightarrow> pki \<Rightarrow>
     unhold_answer \<times> pki" where
  "unhold_certificate loads signs refs clk stages commits i st =
     (case get_cert st i of
        None \<Rightarrow> (U_404, st)
      | Some c \<Rightarrow>
          if \<not> c_revoked c then (U_Not_Revoked, st)
          else if c_revoke_reason c \<notin> Some ` set HOLD_REASONS then (U_Not_Hold, st)
          else
            (let ca = issuing_record st (c_caref c);
                 delta = (case ca of None \<Rightarrow> False | Some x \<Rightarrow> ca_delta_crl_enabled x \<and> ca_cdp_enabled x)
             in if delta \<and> \<not> stages then (U_500, st)
                else
                  (let st1 = stage_removal loads signs clk ca i st
                   in if \<not> commits then
                        (U_500, set_cert i (\<lambda>r. r\<lparr>c_revoked := c_revoked c, c_revoked_at := c_revoked_at c,
                            c_revoke_reason := c_revoke_reason c, c_invalidity_at := c_invalidity_at c\<rparr>) st1)
                      else
                        (let st2 = drop_revocation (c_caref c) (c_serial_number c)
                               (set_cert i (\<lambda>r. r\<lparr>c_revoked := False, c_revoked_at := None,
                                   c_revoke_reason := None, c_invalidity_at := None\<rparr>) st1);
                             st3 = (case ca of
                                      None \<Rightarrow> st2
                                    | Some x \<Rightarrow> snd (generate_crl loads signs refs (t_purge clk) (t_list clk)
                                                     (t_crl clk) (ca_id x) None st2));
                             st4 = invalidate_cached_responses (column_arg (c_serial_number c))
                                     (map_option ca_id ca) st3
                         in (U_200, foldl (\<lambda>s j. invalidate_ca_cache j s) st4
                                      (responder_cas_for_certificate st4 i))))))"

section \<open>Renewal, certificate authorities, cross-certificates\<close>

text \<open>The writes of a renewal in place, for a certificate the CA has just signed: the row takes the
  new certificate if it still carries the serial that was read, and the replaced serial is recorded
  as superseded.\<close>

definition renewed_row :: "ca_row \<Rightarrow> x509 \<Rightarrow> cert_row \<Rightarrow> cert_row" where
  "renewed_row ca x r =
     r\<lparr>c_crt := Crt x, c_serial_number := Some (format_hex False (x_serial x)), c_caref := Some (ca_refid ca),
       c_valid_to := Some (x_not_after x), c_revoked := False, c_revoked_at := None,
       c_revoke_reason := None, c_invalidity_at := None, c_archived := False\<rparr>"

definition record_superseded ::
    "datetime \<Rightarrow> int \<Rightarrow> ca_row \<Rightarrow> string option \<Rightarrow> datetime option \<Rightarrow> pki \<Rightarrow> pki" where
  "record_superseded now i ca old_serial old_valid_to st =
     (case old_serial of
        None \<Rightarrow> st
      | Some s \<Rightarrow>
          if s = [] then st
          else st\<lparr>p_serials := upsert_revocation (ca_refid ca) s
                   (\<lambda>r. r\<lparr>rs_revoked_at := now, rs_revoke_reason := Some ''superseded'',
                          rs_valid_to := (case old_valid_to of None \<Rightarrow> now + days 365 | Some t \<Rightarrow> t),
                          rs_certificate_id := Some i\<rparr>) (p_serials st)\<rparr>)"

definition stage_renewal ::
    "datetime \<Rightarrow> string option \<Rightarrow> ca_row \<Rightarrow> x509 \<Rightarrow> int \<Rightarrow> pki \<Rightarrow> pki option" where
  "stage_renewal now expected ca x i st =
     (case get_cert st i of
        None \<Rightarrow> None
      | Some c \<Rightarrow>
          if c_serial_number c \<noteq> expected then None
          else Some (record_superseded now i ca (c_serial_number c) (c_valid_to c)
                      (set_cert i (renewed_row ca x) st)))"

datatype ca_revoke_error =
    Car_Not_Found | Car_Already_Revoked | Car_Hold | Car_Awaiting | Car_Root | Car_Not_Signer
  | Car_Issuer_Not_Held | Car_Unreadable | Car_Not_Committed

definition revocation_issuer ::
    "(x509 \<Rightarrow> x509 \<Rightarrow> bool option) \<Rightarrow> pki \<Rightarrow> ca_row \<Rightarrow> string \<Rightarrow> ca_revoke_error + ca_row" where
  "revocation_issuer verifies st ca reason =
     (if reason \<in> set HOLD_REASONS then Inl Car_Hold
      else if is_pending ca then Inl Car_Awaiting
      else (case issuing_ca verifies st ca of
              Some parent \<Rightarrow> Inr parent
            | None \<Rightarrow>
                if is_root ca then Inl Car_Root
                else (case issuing_record st (ca_caref ca) of
                        Some _ \<Rightarrow> Inl Car_Not_Signer | None \<Rightarrow> Inl Car_Issuer_Not_Held)))"

definition apply_persisted_revocation ::
    "(x509 \<Rightarrow> x509 \<Rightarrow> bool option) \<Rightarrow> pki \<Rightarrow> ca_row \<Rightarrow> ca_row" where
  "apply_persisted_revocation verifies st ca =
     (case persisted_revocation verifies st ca of
        None \<Rightarrow> ca
      | Some r \<Rightarrow> ca\<lparr>ca_revoked := True, ca_revoked_at := Some (rs_revoked_at r),
                      ca_revoke_reason := rs_revoke_reason r, ca_invalidity_at := rs_invalidity_at r\<rparr>)"

definition set_ca :: "int \<Rightarrow> (ca_row \<Rightarrow> ca_row) \<Rightarrow> pki \<Rightarrow> pki" where
  "set_ca i f st = st\<lparr>p_cas := update_rows (\<lambda>r. ca_id r = i) f (p_cas st)\<rparr>"

definition revoke_ca ::
    "(x509 \<Rightarrow> x509 \<Rightarrow> bool option) \<Rightarrow> (ca_row \<Rightarrow> bool) \<Rightarrow> (ca_row \<Rightarrow> bool) \<Rightarrow> (x509 \<Rightarrow> x509 \<Rightarrow> bool) \<Rightarrow> clock \<Rightarrow>
     bool \<Rightarrow> int \<Rightarrow> string \<Rightarrow> datetime option \<Rightarrow> pki \<Rightarrow> (ca_revoke_error + unit) \<times> pki" where
  "revoke_ca verifies loads signs refs clk commits i reason invalidity st =
     (case get_ca st i of
        None \<Rightarrow> (Inl Car_Not_Found, st)
      | Some ca \<Rightarrow>
          if ca_is_revoked verifies st ca then
            (Inl Car_Already_Revoked,
             if \<not> ca_revoked ca \<and> commits then set_ca i (apply_persisted_revocation verifies st) st else st)
          else
            (case revocation_issuer verifies st ca reason of
               Inl e \<Rightarrow> (Inl e, st)
             | Inr parent \<Rightarrow>
                 (case load_crt (ca_crt ca) of
                    None \<Rightarrow> (Inl Car_Unreadable, st)
                  | Some x \<Rightarrow>
                      (let serial = show_int (x_serial x);
                           now = t_op clk;
                           st1 = set_ca i (\<lambda>r. r\<lparr>ca_serial_number := Some serial, ca_revoked := True,
                                    ca_revoked_at := Some now, ca_revoke_reason := Some reason,
                                    ca_invalidity_at := invalidity, ca_valid_to := Some (x_not_after x)\<rparr>) st;
                           st2 = st1\<lparr>p_serials := upsert_revocation (ca_refid parent) serial
                                    (\<lambda>r. r\<lparr>rs_revoked_at := now, rs_revoke_reason := Some reason,
                                           rs_invalidity_at := invalidity, rs_valid_to := x_not_after x\<rparr>)
                                    (p_serials st1)\<rparr>
                       in if \<not> commits then (Inl Car_Not_Committed, st)
                          else
                            (let st3 = (if ca_cdp_enabled parent
                                        then snd (generate_crl loads signs refs (t_purge clk) (t_list clk)
                                                   (t_crl clk) (ca_id parent) None st2) else st2)
                             in (Inr (), invalidate_cached_responses (Str_Serial serial)
                                           (Some (ca_id parent)) st3))))))"

datatype cross_error = Xr_Issuer_Not_Held | Xr_Already_Revoked | Xr_Hold | Xr_Bad_Serial

definition published_record :: "pki \<Rightarrow> cross_row \<Rightarrow> ca_row \<Rightarrow> serial_row option" where
  "published_record st row issuer =
     (case py_int 10 (xc_serial_number row) of
        None \<Rightarrow> None
      | Some n \<Rightarrow> first_row (\<lambda>r. rs_caref r \<in> set (same_key_refids st issuer)
                              \<and> rs_serial_number r \<in> serial_variants n) (p_serials st))"

definition set_cross :: "int \<Rightarrow> (cross_row \<Rightarrow> cross_row) \<Rightarrow> pki \<Rightarrow> pki" where
  "set_cross i f st = st\<lparr>p_cross := update_rows (\<lambda>r. xc_id r = i) f (p_cross st)\<rparr>"

definition revoke_cross ::
    "(x509 \<Rightarrow> x509 \<Rightarrow> bool option) \<Rightarrow> (ca_row \<Rightarrow> bool) \<Rightarrow> (ca_row \<Rightarrow> bool) \<Rightarrow> (x509 \<Rightarrow> x509 \<Rightarrow> bool) \<Rightarrow> clock \<Rightarrow>
     cross_row \<Rightarrow> string \<Rightarrow> datetime option \<Rightarrow> pki \<Rightarrow> (cross_error + unit) \<times> pki" where
  "revoke_cross verifies loads signs refs clk row reason invalidity st =
     (case issuer_of verifies st row of
        (None, _) \<Rightarrow> (Inl Xr_Issuer_Not_Held, st)
      | (Some issuer, row') \<Rightarrow>
          (let st0 = set_cross (xc_id row) (\<lambda>_. row') st
           in if xc_revoked row then (Inl Xr_Already_Revoked, st0)
              else if reason \<in> set HOLD_REASONS then (Inl Xr_Hold, st0)
              else if py_int 10 (xc_serial_number row) = None then (Inl Xr_Bad_Serial, st0)
              else
                (case published_record st row issuer of
                   Some r \<Rightarrow>
                     (Inr (), set_cross (xc_id row) (\<lambda>x. x\<lparr>xc_revoked := True,
                        xc_revoked_at := Some (rs_revoked_at r), xc_revoke_reason := rs_revoke_reason r,
                        xc_served := False\<rparr>) st0)
                 | None \<Rightarrow>
                     (let now = t_op clk;
                          st1 = set_cross (xc_id row) (\<lambda>x. x\<lparr>xc_revoked := True, xc_revoked_at := Some now,
                                  xc_revoke_reason := Some reason, xc_served := False\<rparr>) st0;
                          st2 = st1\<lparr>p_serials := p_serials st1 @
                                  [\<lparr>rs_id = next_id (map rs_id (p_serials st1)), rs_caref = ca_refid issuer,
                                    rs_serial_number = xc_serial_number row, rs_revoked_at = now,
                                    rs_revoke_reason = Some reason, rs_invalidity_at = invalidity,
                                    rs_valid_to = xc_valid_to row, rs_certificate_id = None\<rparr>]\<rparr>;
                          st3 = (if ca_cdp_enabled issuer
                                 then snd (generate_crl loads signs refs (t_purge clk) (t_list clk)
                                            (t_crl clk) (ca_id issuer) None st2) else st2)
                      in (Inr (), invalidate_cached_responses (Str_Serial (xc_serial_number row))
                                    (Some (ca_id issuer)) st3)))))"

lemmas revocation_defs [ucm_eval] =
  HOLD_REASONS_def issuing_record_def upsert_revocation_def stage_revocation_def publish_revocation_def
  hand_over_link_def revoke_one_def revoke_certificate_def set_cert_def stage_removal_def
  drop_revocation_def unhold_certificate_def renewed_row_def record_superseded_def stage_renewal_def
  mutual_partner_def responder_cas_for_certificate_def invalidate_ca_cache_def

end
