(* ===== verification/Revocation_Safety.thy ===== *)
theory Revocation_Safety
  imports Revocation
begin

text \<open>
  That a revocation sticks. The step relation \<open>pki_step\<close> interleaves the operations of
  \<open>Revocation\<close>, the generation and the upload of lists and the answering of OCSP requests;
  \<open>recorded\<close> is the invariant that keeps a revocation on the CRL and in the responder's answers
  after its certificate is deleted, until the certificate would have expired.
\<close>

section \<open>Operations that only remove\<close>

text \<open>\<open>weakens T\<close>: certificates may go, links may be cleared, and a revocation record may go only
  when it expired before \<open>T\<close>.\<close>

definition weakens :: "datetime \<Rightarrow> pki \<Rightarrow> pki \<Rightarrow> bool" where
  "weakens T st st' \<longleftrightarrow>
     p_cas st' = p_cas st \<and>
     (\<forall>c \<in> set (p_certs st'). \<exists>d \<in> set (p_certs st). core d = core c \<and> c_revoke_reason d = c_revoke_reason c) \<and>
     (\<forall>r \<in> set (p_serials st). T \<le> rs_valid_to r \<longrightarrow>
        (\<exists>q \<in> set (p_serials st'). rs_caref q = rs_caref r \<and> rs_serial_number q = rs_serial_number r \<and>
           rs_valid_to q = rs_valid_to r \<and> rs_revoked_at q = rs_revoked_at r \<and>
           (rs_certificate_id q = None \<or> rs_certificate_id q = rs_certificate_id r)))"

lemma weakens_refl [simp]: "weakens T st st"
  by (auto simp: weakens_def)

lemma weakens_trans:
  assumes "weakens T s t" "weakens T t u"
  shows "weakens T s u"
  unfolding weakens_def
proof (intro conjI ballI impI)
  show "p_cas u = p_cas s" using assms by (simp add: weakens_def)
  show "\<exists>d \<in> set (p_certs s). core d = core c \<and> c_revoke_reason d = c_revoke_reason c"
    if "c \<in> set (p_certs u)" for c
    using assms that unfolding weakens_def by metis
  fix r assume "r \<in> set (p_serials s)" "T \<le> rs_valid_to r"
  then obtain q where q: "q \<in> set (p_serials t)" "rs_caref q = rs_caref r" "rs_serial_number q = rs_serial_number r"
      "rs_valid_to q = rs_valid_to r" "rs_revoked_at q = rs_revoked_at r"
      "rs_certificate_id q = None \<or> rs_certificate_id q = rs_certificate_id r"
    using assms(1) unfolding weakens_def by blast
  moreover have "T \<le> rs_valid_to q" using q(4) \<open>T \<le> rs_valid_to r\<close> by simp
  ultimately obtain p where "p \<in> set (p_serials u)" "rs_caref p = rs_caref q" "rs_serial_number p = rs_serial_number q"
      "rs_valid_to p = rs_valid_to q" "rs_revoked_at p = rs_revoked_at q"
      "rs_certificate_id p = None \<or> rs_certificate_id p = rs_certificate_id q"
    using assms(2) unfolding weakens_def by blast
  then show "\<exists>q \<in> set (p_serials u). rs_caref q = rs_caref r \<and> rs_serial_number q = rs_serial_number r \<and>
      rs_valid_to q = rs_valid_to r \<and> rs_revoked_at q = rs_revoked_at r \<and>
      (rs_certificate_id q = None \<or> rs_certificate_id q = rs_certificate_id r)"
    using q by (intro bexI[of _ p]) auto
qed

text \<open>Changes of the other tables are invisible to it.\<close>

lemma weakens_same:
  "p_cas st' = p_cas st \<Longrightarrow> p_certs st' = p_certs st \<Longrightarrow> p_serials st' = p_serials st \<Longrightarrow> weakens T st st'"
  by (auto simp: weakens_def)

lemma core_reason_relink [simp]: "c_revoke_reason (relink_or_leave refs st now gone c) = c_revoke_reason c"
  by (simp add: relink_or_leave_def split: option.splits)

lemma weakens_unlink_row: "weakens T st (unlink_row refs now gone st i)"
  by (auto simp: weakens_def unlink_row_def set_update_rows)

lemma weakens_foldl: "(\<And>s x. weakens T s (f s x)) \<Longrightarrow> weakens T st (foldl f st xs)"
  by (induction xs arbitrary: st) (auto intro: weakens_trans)

lemma weakens_invalidate: "weakens T st (invalidate_ca_cache i st)"
  by (rule weakens_same) (simp_all add: invalidate_ca_cache_def)

lemma weakens_delete: "weakens T st (snd (delete_certificate refs now i st))"
proof (cases "get_cert st i")
  case (Some c)
  let ?st0 = "unlink_revocations i st" let ?st1 = "unlink_rows_naming refs now i ?st0"
  let ?responders = "responder_cas_for_certificate ?st1 i"
  let ?st2 = "?st1\<lparr>p_config := filter (\<lambda>(key, _). key \<notin> (\<lambda>j. responder_prefix @ show_int j) ` set ?responders)
      (p_config ?st1), p_certs := filter (\<lambda>r. c_id r \<noteq> i) (p_certs ?st1)\<rparr>"
  have "weakens T st ?st0"
    unfolding weakens_def p_serials_unlink
  proof (intro conjI ballI impI)
    fix r assume "r \<in> set (p_serials st)"
    then show "\<exists>q \<in> set (map (unlinked i) (p_serials st)). rs_caref q = rs_caref r \<and>
        rs_serial_number q = rs_serial_number r \<and> rs_valid_to q = rs_valid_to r \<and>
        rs_revoked_at q = rs_revoked_at r \<and> (rs_certificate_id q = None \<or> rs_certificate_id q = rs_certificate_id r)"
      by (intro bexI[of _ "unlinked i r"]) (auto simp: unlinked_def)
  qed (auto simp: unlink_revocations_def)
  moreover have "weakens T ?st0 ?st1"
    unfolding unlink_rows_naming_def by (rule weakens_foldl) (rule weakens_unlink_row)
  moreover have "weakens T ?st1 ?st2" by (auto simp: weakens_def)
  moreover have "weakens T ?st2 (foldl (\<lambda>s j. invalidate_ca_cache j s) ?st2 ?responders)"
    by (rule weakens_foldl) (rule weakens_invalidate)
  ultimately have "weakens T st (foldl (\<lambda>s j. invalidate_ca_cache j s) ?st2 ?responders)"
    using weakens_trans by blast
  then show ?thesis using Some by (simp add: delete_certificate_def Let_def)
qed (simp add: delete_certificate_def)

lemma weakens_housekeeping:
  assumes "t \<le> T"
  shows "weakens T st (run_housekeeping refs i t st)"
proof -
  have stale: "weakens T s (purge_stale_revoked_serials i t s)" for s
  proof (cases "get_ca s i")
    case (Some ca)
    then show ?thesis using assms unfolding weakens_def purge_stale_revoked_serials_def by auto
  qed (simp add: purge_stale_revoked_serials_def)
  have old: "weakens T s (purge_expired_revoked_certificates refs i t s)" for s
    by (cases "get_ca s i")
      (auto simp: purge_expired_revoked_certificates_def intro!: weakens_foldl weakens_delete)
  show ?thesis
    using stale old weakens_trans[OF stale old] by (simp add: run_housekeeping_def Let_def)
qed

lemma weakens_store: "weakens T st (store_crl row st)"
  by (rule weakens_same) (simp_all add: store_crl_def)

lemma weakens_generate:
  assumes "t_purge' \<le> T"
  shows "weakens T st (snd (generate_crl loads signs refs t_purge' t_list' now i d st))"
  using weakens_trans[OF weakens_housekeeping[OF assms] weakens_store] weakens_housekeeping[OF assms]
  by (cases "get_ca st i") (auto simp: generate_crl_def Let_def)

lemma weakens_delta: "weakens T st (snd (generate_delta_crl loads signs now i h st))"
  by (cases "get_ca st i"; cases "get_latest_crl st i") (auto simp: generate_delta_crl_def Let_def intro: weakens_store)

lemma weakens_upload: "weakens T st (snd (install_external_crl i u st))"
  by (auto simp: install_external_crl_def Let_def intro: weakens_trans[OF weakens_store weakens_invalidate]
      split: option.splits)

lemma weakens_invalidate_cached: "weakens T st (invalidate_cached_responses serial ca st)"
  by (rule weakens_same) (simp_all add: invalidate_cached_responses_def Let_def)

lemma weakens_status: "weakens T st (snd (status_for_serial verifies now st ca n))"
proof -
  have "weakens T st (snd (cross_certificate_for_serial verifies st ca n))"
    by (rule weakens_same) (simp_all add: cross_certificate_for_serial_def rows_of_issuer_def split: prod.splits)
  then show ?thesis
    by (auto simp: status_for_serial_def split: option.splits prod.splits)
qed

lemma weakens_cache: "weakens T st (cache_response i key s t st)"
  by (rule weakens_same) (auto simp: cache_response_def Let_def split: option.splits)

lemma weakens_statuses: "weakens T st (snd (statuses_of verifies now ca items st))"
proof (induction items arbitrary: st)
  case (Cons item items)
  obtain s st1 where s: "status_for_serial verifies now st ca (q_serial item) = (s, st1)" by fastforce
  have one: "weakens T st st1" using weakens_status[of T st verifies now ca "q_serial item"] by (simp add: s)
  obtain rest st2 where r: "statuses_of verifies now ca items st1 = (rest, st2)" by fastforce
  have "weakens T st1 st2" using Cons.IH[of st1] by (simp add: r)
  then show ?case using weakens_trans[OF one] by (simp add: s r)
qed simp

lemma weakens_multi: "weakens T st (snd (generate_multi_response verifies lib now ca items st))"
  using weakens_statuses[of T st verifies now ca items]
  by (auto simp: generate_multi_response_def split: sum.splits ocsp_error.splits prod.splits)

lemma weakens_response: "weakens T st (snd (generate_response verifies lib now ca n algo nonce st))"
proof -
  have "weakens T st (snd (status_for_serial verifies now st ca n))" by (rule weakens_status)
  then show ?thesis
    using weakens_trans[OF _ weakens_cache]
    by (auto simp: generate_response_def Let_def split: sum.splits ocsp_error.splits prod.splits)
qed

lemma weakens_ocsp: "weakens T st (snd (process_ocsp_request verifies lib digest key_bits now req st))"
proof (cases req)
  case (Some r)
  show ?thesis
  proof (cases "q_items r")
    case (Cons item others)
    then show ?thesis
      using Some weakens_response weakens_multi
      by (cases "find_ca_by_issuer_hash verifies digest key_bits st item")
        (auto simp: process_ocsp_request_def Let_def simp del: bex_simps split: option.splits)
  qed (simp add: Some process_ocsp_request_def)
qed (simp add: process_ocsp_request_def)

section \<open>The record of a revocation\<close>

text \<open>The revocation of certificate \<open>i\<close>, issued by the CA \<open>a\<close> under the column \<open>v\<close> and valid
  until \<open>V\<close>: the record is there and not of another certificate, the certificate, while it is
  stored, is revoked for good, and no other record of that CA has that column.\<close>

definition recorded :: "int \<Rightarrow> string \<Rightarrow> string \<Rightarrow> datetime \<Rightarrow> pki \<Rightarrow> bool" where
  "recorded i a v V st \<longleftrightarrow>
     (\<exists>r \<in> set (p_serials st). rs_caref r = a \<and> rs_serial_number r = v \<and> V \<le> rs_valid_to r \<and>
        (rs_certificate_id r = None \<or> rs_certificate_id r = Some i)) \<and>
     (\<forall>c \<in> set (p_certs st). if c_id c = i then c_revoked c \<and> c_revoke_reason c \<notin> Some ` set HOLD_REASONS
        else \<not> (c_caref c = Some a \<and> c_serial_number c = Some v)) \<and>
     (\<forall>ca \<in> set (p_cas st). case load_crt (ca_crt ca) of None \<Rightarrow> True | Some x \<Rightarrow> show_int (x_serial x) \<noteq> v)"

lemma recorded_weakens:
  assumes "recorded i a v V st" "weakens T st st'" "T \<le> V"
  shows "recorded i a v V st'"
  unfolding recorded_def
proof (intro conjI ballI)
  obtain r where r: "r \<in> set (p_serials st)" "rs_caref r = a" "rs_serial_number r = v" "V \<le> rs_valid_to r"
      "rs_certificate_id r = None \<or> rs_certificate_id r = Some i"
    using assms(1) unfolding recorded_def by blast
  then have "T \<le> rs_valid_to r" using assms(3) by simp
  then obtain q where "q \<in> set (p_serials st')" "rs_caref q = rs_caref r" "rs_serial_number q = rs_serial_number r"
      "rs_valid_to q = rs_valid_to r" "rs_certificate_id q = None \<or> rs_certificate_id q = rs_certificate_id r"
    using assms(2) r(1) unfolding weakens_def by blast
  then show "\<exists>r \<in> set (p_serials st'). rs_caref r = a \<and> rs_serial_number r = v \<and> V \<le> rs_valid_to r \<and>
      (rs_certificate_id r = None \<or> rs_certificate_id r = Some i)"
    using r by (intro bexI[of _ q]) auto
next
  fix c assume "c \<in> set (p_certs st')"
  then obtain d where d: "d \<in> set (p_certs st)" "core d = core c" "c_revoke_reason d = c_revoke_reason c"
    using assms(2) unfolding weakens_def by blast
  then show "if c_id c = i then c_revoked c \<and> c_revoke_reason c \<notin> Some ` set HOLD_REASONS
      else \<not> (c_caref c = Some a \<and> c_serial_number c = Some v)"
    using assms(1) core_eqD[OF d(2)] unfolding recorded_def by metis
next
  fix ca assume "ca \<in> set (p_cas st')"
  then show "case load_crt (ca_crt ca) of None \<Rightarrow> True | Some x \<Rightarrow> show_int (x_serial x) \<noteq> v"
    using assms(1,2) unfolding recorded_def weakens_def by metis
qed

lemma update_first_keeps: "r \<in> set rows \<Longrightarrow> \<not> p r \<Longrightarrow> r \<in> set (update_first p f rows)"
  by (induction rows) auto

lemma upsert_keeps:
  "r \<in> set rows \<Longrightarrow> \<not> (rs_caref r = a \<and> rs_serial_number r = v) \<Longrightarrow> r \<in> set (upsert_revocation a v f rows)"
  by (simp add: upsert_revocation_def Let_def update_first_keeps)

text \<open>A change of other certificates and of other columns leaves it alone.\<close>

lemma recorded_change:
  assumes "recorded i a v V st" "p_cas st' = p_cas st"
    and "\<And>c. c \<in> set (p_certs st') \<Longrightarrow> \<exists>d \<in> set (p_certs st). c_id d = c_id c \<and> c_caref d = c_caref c \<and>
           c_serial_number d = c_serial_number c \<and>
           (c_id c = i \<longrightarrow> c_revoked d = c_revoked c \<and> c_revoke_reason d = c_revoke_reason c)"
    and "\<And>r. r \<in> set (p_serials st) \<Longrightarrow> rs_caref r = a \<Longrightarrow> rs_serial_number r = v \<Longrightarrow> r \<in> set (p_serials st')"
  shows "recorded i a v V st'"
  unfolding recorded_def
proof (intro conjI ballI)
  show "\<exists>r \<in> set (p_serials st'). rs_caref r = a \<and> rs_serial_number r = v \<and> V \<le> rs_valid_to r \<and>
      (rs_certificate_id r = None \<or> rs_certificate_id r = Some i)"
    using assms(1,4) unfolding recorded_def by blast
  show "if c_id c = i then c_revoked c \<and> c_revoke_reason c \<notin> Some ` set HOLD_REASONS
      else \<not> (c_caref c = Some a \<and> c_serial_number c = Some v)" if "c \<in> set (p_certs st')" for c
    using assms(1) assms(3)[OF that] unfolding recorded_def by metis
  show "case load_crt (ca_crt ca) of None \<Rightarrow> True | Some x \<Rightarrow> show_int (x_serial x) \<noteq> v"
    if "ca \<in> set (p_cas st')" for ca
    using that assms(1,2) unfolding recorded_def by metis
qed

lemma recorded_set_cert:
  assumes "recorded i a v V st" "j \<noteq> i"
    and "\<And>r. c_id (f r) = c_id r" "\<And>r. c_caref (f r) = c_caref r" "\<And>r. c_serial_number (f r) = c_serial_number r"
  shows "recorded i a v V (set_cert j f st)"
proof (rule recorded_change[OF assms(1)])
  fix c assume "c \<in> set (p_certs (set_cert j f st))"
  then obtain d where "d \<in> set (p_certs st)" "c = (if c_id d = j then f d else d)"
    by (auto simp: set_cert_def set_update_rows)
  then show "\<exists>d \<in> set (p_certs st). c_id d = c_id c \<and> c_caref d = c_caref c \<and>
           c_serial_number d = c_serial_number c \<and>
           (c_id c = i \<longrightarrow> c_revoked d = c_revoked c \<and> c_revoke_reason d = c_revoke_reason c)"
    using assms(2-5) by (intro bexI[of _ d]) auto
qed (simp_all add: set_cert_def)

lemma recorded_other_column:
  assumes "recorded i a v V st" "get_cert st j = Some c" "j \<noteq> i"
  shows "\<not> (c_caref c = Some a \<and> c_serial_number c = Some v)"
  using assms first_row_SomeD[of "\<lambda>c. c_id c = j" "p_certs st" c] unfolding recorded_def get_cert_def by auto

lemma recorded_own:
  assumes "recorded i a v V st" "get_cert st i = Some c"
  shows "c_revoked c" "c_revoke_reason c \<notin> Some ` set HOLD_REASONS"
  using assms first_row_SomeD[of "\<lambda>c. c_id c = i" "p_certs st" c] unfolding recorded_def get_cert_def by auto

lemma get_cert_id: "get_cert st i = Some c \<Longrightarrow> c_id c = i"
  using first_row_SomeD[of "\<lambda>c. c_id c = i" "p_certs st" c] by (simp add: get_cert_def)

lemma recorded_stage:
  assumes "recorded i a v V st" "get_cert st j = Some c" "j \<noteq> i" "stage_revocation now reason invd c st = Some st'"
  shows "recorded i a v V st'"
proof -
  let ?f = "\<lambda>r. r\<lparr>c_revoked := True, c_revoked_at := Some now, c_revoke_reason := Some reason,
      c_invalidity_at := (case invd of None \<Rightarrow> c_invalidity_at c | Some t \<Rightarrow> Some t)\<rparr>"
  have one: "recorded i a v V (set_cert j ?f st)" using assms(1,3) by (rule recorded_set_cert) simp_all
  have same: "p_cas st' = p_cas (set_cert j ?f st)" "p_certs st' = p_certs (set_cert j ?f st)"
    using assms(4) get_cert_id[OF assms(2)]
    by (auto simp: stage_revocation_def set_cert_def Let_def split: option.splits)
  have keep: "r \<in> set (p_serials st')"
    if "r \<in> set (p_serials (set_cert j ?f st))" "rs_caref r = a" "rs_serial_number r = v" for r
    using assms(4) that recorded_other_column[OF assms(1-3)] upsert_keeps[of r "p_serials st"]
    by (auto simp: stage_revocation_def set_cert_def Let_def split: option.splits)
  show ?thesis by (rule recorded_change[OF one same(1) _ keep]) (auto simp: same(2))
qed

section \<open>Steps\<close>

text \<open>The library a run uses, and the steps: every purge of a run happens no later than \<open>T\<close>.\<close>

record 'k pki_env =
  v_verifies :: "x509 \<Rightarrow> x509 \<Rightarrow> bool option"
  v_lib :: "'k pki_lib"
  v_loads :: "ca_row \<Rightarrow> bool"
  v_signs :: "ca_row \<Rightarrow> bool"
  v_refs :: "x509 \<Rightarrow> x509 \<Rightarrow> bool"
  v_digest :: "string \<Rightarrow> string \<Rightarrow> string"
  v_key_bits :: "x509 \<Rightarrow> string"

inductive pki_step :: "'k pki_env \<Rightarrow> datetime \<Rightarrow> pki \<Rightarrow> pki \<Rightarrow> bool" for E T where
  step_revoke:
    "t_purge clk \<le> T \<Longrightarrow> t_purge clk' \<le> T \<Longrightarrow>
     pki_step E T st (snd (revoke_certificate (v_loads E) (v_signs E) (v_refs E) clk clk' commits commits'
                            i reason invalid related st))"
| step_delete: "pki_step E T st (snd (delete_certificate (v_refs E) now i st))"
| step_unhold:
    "t_purge clk \<le> T \<Longrightarrow>
     pki_step E T st (snd (unhold_certificate (v_loads E) (v_signs E) (v_refs E) clk stages commits i st))"
| step_full:
    "t_purge (clk :: clock) \<le> T \<Longrightarrow>
     pki_step E T st (snd (generate_crl (v_loads E) (v_signs E) (v_refs E) (t_purge clk) (t_list clk) (t_crl clk)
                            i d st))"
| step_delta: "pki_step E T st (snd (generate_delta_crl (v_loads E) (v_signs E) now i h st))"
| step_upload: "pki_step E T st (snd (install_external_crl i u st))"
| step_ocsp:
    "pki_step E T st (snd (process_ocsp_request (v_verifies E) (v_lib E) (v_digest E) (v_key_bits E) now req st))"
| step_cleanup: "pki_step E T st (cleanup_expired_responses now st)"
| step_revoke_ca:
    "t_purge clk \<le> T \<Longrightarrow>
     pki_step E T st (snd (revoke_ca (v_verifies E) (v_loads E) (v_signs E) (v_refs E) clk commits i reason
                            invalid st))"
| step_revoke_cross:
    "t_purge clk \<le> T \<Longrightarrow>
     pki_step E T st (snd (revoke_cross (v_verifies E) (v_loads E) (v_signs E) (v_refs E) clk row reason invalid st))"

abbreviation pki_reaches :: "'k pki_env \<Rightarrow> datetime \<Rightarrow> pki \<Rightarrow> pki \<Rightarrow> bool" where
  "pki_reaches E T \<equiv> (pki_step E T)\<^sup>*\<^sup>*"

lemma weakens_publish:
  assumes "t_purge clk \<le> T"
  shows "weakens T st (publish_revocation loads signs refs clk ca c st)"
proof -
  let ?st1 = "case ca of None \<Rightarrow> st | Some issuer \<Rightarrow> if ca_cdp_enabled issuer
      then snd (generate_crl loads signs refs (t_purge clk) (t_list clk) (t_crl clk) (ca_id issuer) None st) else st"
  let ?st2 = "invalidate_cached_responses (column_arg (c_serial_number c)) (map_option ca_id ca) ?st1"
  have "weakens T st ?st1" using weakens_generate[OF assms] by (cases ca) simp_all
  then have "weakens T st ?st2" using weakens_trans weakens_invalidate_cached by blast
  moreover have "weakens T ?st2 (foldl (\<lambda>s j. invalidate_ca_cache j s) ?st2 js)" for js
    by (rule weakens_foldl) (rule weakens_invalidate)
  ultimately show ?thesis unfolding publish_revocation_def Let_def using weakens_trans by blast
qed

lemma recorded_revoke_one:
  assumes "recorded i a v V st" "t_purge clk \<le> T" "T \<le> V"
  shows "recorded i a v V (snd (revoke_one loads signs refs clk commits j reason invd st))"
proof (cases "get_cert st j")
  case (Some c)
  show ?thesis
  proof (cases "j = i")
    case True
    then show ?thesis using Some recorded_own[OF assms(1)] assms(1) by (simp add: revoke_one_def)
  next
    case False
    then show ?thesis
      using Some assms(1) recorded_stage[OF assms(1) Some False]
        recorded_weakens[OF _ weakens_publish[OF assms(2)] assms(3)]
      by (cases "stage_revocation (t_op clk) reason invd c st") (auto simp: revoke_one_def)
  qed
qed (use assms(1) in \<open>simp add: revoke_one_def\<close>)

lemma recorded_hand_over:
  assumes "recorded i a v V st"
  shows "recorded i a v V (hand_over_link refs now row st)"
proof -
  have "recorded i a v V (st\<lparr>p_certs := update_rows (\<lambda>x. c_id x = j) (c_related_id_update g) (p_certs st)\<rparr>)" for j g
    using assms by (rule recorded_change) (auto simp: set_update_rows)
  then show ?thesis using assms by (auto simp: hand_over_link_def split: option.splits)
qed

lemma recorded_revoke:
  assumes "recorded i a v V st" "t_purge clk \<le> T" "t_purge clk' \<le> T" "T \<le> V"
  shows "recorded i a v V (snd (revoke_certificate loads signs refs clk clk' commits commits' j reason invd related st))"
proof -
  obtain res st1 where r: "revoke_one loads signs refs clk commits j reason invd st = (res, st1)" by fastforce
  have one: "recorded i a v V st1"
    using recorded_revoke_one[OF assms(1,2,4), of loads signs refs commits j reason invd] by (simp add: r)
  have two: "recorded i a v V (snd (revoke_one loads signs refs clk' commits' k reason invd st1))" for k
    by (rule recorded_revoke_one[OF one assms(3,4)])
  show ?thesis
  proof (cases res)
    case (Inr u)
    show ?thesis
    proof (cases related)
      case True
      show ?thesis
      proof (cases "mutual_partner st1 (get_cert st1 j)")
        case (Some p)
        obtain res2 st2 where "revoke_one loads signs refs clk' commits' (c_id p) reason invd st1 = (res2, st2)" by fastforce
        then show ?thesis
          using two[of "c_id p"] recorded_hand_over one True Some Inr
          by (cases res2) (auto simp: revoke_certificate_def r)
      qed (use one True Inr in \<open>simp add: revoke_certificate_def r\<close>)
    qed (use one recorded_hand_over[OF one] Inr in \<open>simp add: revoke_certificate_def r\<close>)
  qed (use one in \<open>simp add: revoke_certificate_def r\<close>)
qed

lemma recorded_drop:
  assumes "recorded i a v V st" "\<not> (caref = Some a \<and> col = Some v)"
  shows "recorded i a v V (drop_revocation caref col st)"
proof -
  have "recorded i a v V (st\<lparr>p_serials := filter (\<lambda>x. \<not> (rs_caref x = r \<and> rs_serial_number x = s)) (p_serials st)\<rparr>)"
    if "\<not> (r = a \<and> s = v)" for r s
    using assms(1) by (rule recorded_change) (use that in auto)
  then show ?thesis using assms by (auto simp: drop_revocation_def split: option.splits)
qed

lemma recorded_removal:
  assumes "recorded i a v V st" "j \<noteq> i"
  shows "recorded i a v V (stage_removal loads signs clk ca j st)"
proof (cases ca)
  case (Some x)
  have one: "recorded i a v V (set_cert j (\<lambda>r. r\<lparr>c_revoke_reason := Some ''removeFromCRL'', c_revoked_at := Some (t_op clk)\<rparr>) st)"
    using assms by (rule recorded_set_cert) simp_all
  show ?thesis using Some assms(1) recorded_weakens[OF one weakens_delta, of V] by (auto simp: stage_removal_def)
qed (use assms(1) in \<open>simp add: stage_removal_def\<close>)

lemma recorded_unhold:
  assumes "recorded i a v V st" "t_purge clk \<le> T" "T \<le> V"
  shows "recorded i a v V (snd (unhold_certificate loads signs refs clk stages commits j st))"
proof (cases "get_cert st j")
  case (Some c)
  show ?thesis
  proof (cases "j = i \<or> \<not> c_revoked c \<or> c_revoke_reason c \<notin> Some ` set HOLD_REASONS")
    case True
    then show ?thesis using Some assms(1) recorded_own[OF assms(1)] by (auto simp: unhold_certificate_def)
  next
    case False
    let ?ca = "issuing_record st (c_caref c)"
    let ?st1 = "stage_removal loads signs clk ?ca j st"
    let ?st2 = "drop_revocation (c_caref c) (c_serial_number c) (set_cert j (\<lambda>r. r\<lparr>c_revoked := False,
        c_revoked_at := None, c_revoke_reason := None, c_invalidity_at := None\<rparr>) ?st1)"
    let ?st3 = "case ?ca of None \<Rightarrow> ?st2 | Some x \<Rightarrow> snd (generate_crl loads signs refs (t_purge clk) (t_list clk)
        (t_crl clk) (ca_id x) None ?st2)"
    let ?st4 = "invalidate_cached_responses (column_arg (c_serial_number c)) (map_option ca_id ?ca) ?st3"
    have one: "recorded i a v V ?st1" using False recorded_removal[OF assms(1)] by blast
    have restored: "recorded i a v V (set_cert j (\<lambda>r. r\<lparr>c_revoked := c_revoked c, c_revoked_at := c_revoked_at c,
        c_revoke_reason := c_revoke_reason c, c_invalidity_at := c_invalidity_at c\<rparr>) ?st1)"
      by (rule recorded_set_cert[OF one]) (use False in auto)
    have "recorded i a v V (set_cert j (\<lambda>r. r\<lparr>c_revoked := False, c_revoked_at := None,
        c_revoke_reason := None, c_invalidity_at := None\<rparr>) ?st1)"
      by (rule recorded_set_cert[OF one]) (use False in auto)
    then have two: "recorded i a v V ?st2"
      using recorded_other_column[OF assms(1) Some] False by (intro recorded_drop) auto
    have "weakens T ?st2 ?st3" using weakens_generate[OF assms(2)] by (cases ?ca) simp_all
    then have "weakens T ?st2 ?st4" using weakens_trans weakens_invalidate_cached by blast
    moreover have "weakens T ?st4 (foldl (\<lambda>s k. invalidate_ca_cache k s) ?st4 ks)" for ks
      by (rule weakens_foldl) (rule weakens_invalidate)
    ultimately have "weakens T ?st2 (foldl (\<lambda>s k. invalidate_ca_cache k s) ?st4 ks)" for ks
      using weakens_trans by blast
    then have four: "recorded i a v V (foldl (\<lambda>s k. invalidate_ca_cache k s) ?st4 ks)" for ks
      using recorded_weakens[OF two _ assms(3)] by blast
    show ?thesis
      using False Some assms(1) restored four
      by (simp add: unhold_certificate_def Let_def del: foldl_Cons foldl_Nil)
  qed
qed (use assms(1) in \<open>simp add: unhold_certificate_def\<close>)

lemma recorded_set_ca:
  assumes "recorded i a v V st" "\<And>r. ca_crt (f r) = ca_crt r"
  shows "recorded i a v V (set_ca j f st)"
  using assms unfolding recorded_def set_ca_def by (auto simp: set_update_rows)

lemma recorded_revoke_ca:
  assumes "recorded i a v V st" "t_purge clk \<le> T" "T \<le> V"
  shows "recorded i a v V (snd (revoke_ca verifies loads signs refs clk commits j reason invd st))"
proof (cases "get_ca st j")
  case (Some ca)
  have crt: "ca_crt (apply_persisted_revocation verifies st r) = ca_crt r" for r
    by (simp add: apply_persisted_revocation_def split: option.splits)
  show ?thesis
  proof (cases "ca_is_revoked verifies st ca")
    case True
    then show ?thesis using Some assms(1) recorded_set_ca[OF assms(1) crt] by (simp add: revoke_ca_def)
  next
    case False
    show ?thesis
    proof (cases "revocation_issuer verifies st ca reason")
      case (Inr parent)
      show ?thesis
      proof (cases "load_crt (ca_crt ca)")
        case (Some x)
        note loaded = Some
        have mem: "ca \<in> set (p_cas st)" using \<open>get_ca st j = Some ca\<close> first_row_SomeD unfolding get_ca_def by fastforce
        have other: "show_int (x_serial x) \<noteq> v"
          using assms(1) mem loaded unfolding recorded_def by (auto split: option.splits)
        let ?st1 = "set_ca j (\<lambda>r. r\<lparr>ca_serial_number := Some (show_int (x_serial x)), ca_revoked := True,
            ca_revoked_at := Some (t_op clk), ca_revoke_reason := Some reason,
            ca_invalidity_at := invd, ca_valid_to := Some (x_not_after x)\<rparr>) st"
        let ?st2 = "?st1\<lparr>p_serials := upsert_revocation (ca_refid parent) (show_int (x_serial x))
            (\<lambda>r. r\<lparr>rs_revoked_at := t_op clk, rs_revoke_reason := Some reason,
                   rs_invalidity_at := invd, rs_valid_to := x_not_after x\<rparr>) (p_serials ?st1)\<rparr>"
        have one: "recorded i a v V ?st1" by (rule recorded_set_ca[OF assms(1)]) simp
        have two: "recorded i a v V ?st2"
          by (rule recorded_change[OF one]) (use other upsert_keeps in auto)
        let ?st3 = "if ca_cdp_enabled parent then snd (generate_crl loads signs refs (t_purge clk) (t_list clk)
            (t_crl clk) (ca_id parent) None ?st2) else ?st2"
        have "weakens T ?st2 ?st3" using weakens_generate[OF assms(2)] by simp
        then have "weakens T ?st2 (invalidate_cached_responses (Str_Serial (show_int (x_serial x))) (Some (ca_id parent)) ?st3)"
          using weakens_trans weakens_invalidate_cached by blast
        from recorded_weakens[OF two this assms(3)] show ?thesis
          using \<open>get_ca st j = Some ca\<close> False Inr loaded assms(1)
          by (simp add: revoke_ca_def Let_def)
      qed (use \<open>get_ca st j = Some ca\<close> False Inr assms(1) in \<open>simp add: revoke_ca_def\<close>)
    qed (use Some False assms(1) in \<open>simp add: revoke_ca_def\<close>)
  qed
qed (use assms(1) in \<open>simp add: revoke_ca_def\<close>)

lemma weakens_set_cross: "weakens T st (set_cross j f st)"
  by (rule weakens_same) (simp_all add: set_cross_def)

lemma recorded_revoke_cross:
  assumes "recorded i a v V st" "t_purge clk \<le> T" "T \<le> V"
  shows "recorded i a v V (snd (revoke_cross verifies loads signs refs clk row reason invd st))"
proof -
  have cross: "recorded i a v V (set_cross j f s)" if "recorded i a v V s" for j f s
    using recorded_weakens[OF that weakens_set_cross order_refl] .
  have add: "recorded i a v V (s\<lparr>p_serials := p_serials s @ [r]\<rparr>)" if "recorded i a v V s" for r s
    by (rule recorded_change[OF that]) auto
  have gen: "recorded i a v V (invalidate_cached_responses q k (if b then snd (generate_crl loads signs refs
      (t_purge clk) (t_list clk) (t_crl clk) m None s) else s))" if "recorded i a v V s" for q k b m s
    using recorded_weakens[OF that weakens_trans[OF weakens_generate[OF assms(2)] weakens_invalidate_cached] assms(3)]
      recorded_weakens[OF that weakens_invalidate_cached assms(3)] by simp
  obtain issuer row' where io: "issuer_of verifies st row = (issuer, row')" by fastforce
  show ?thesis
  proof (cases issuer)
    case (Some ca)
    then show ?thesis
      using assms(1) cross add gen
      by (cases "published_record st row ca") (auto simp: revoke_cross_def io Let_def)
  qed (use assms(1) io in \<open>simp add: revoke_cross_def\<close>)
qed

lemma weakens_cleanup: "weakens T st (cleanup_expired_responses now st)"
  by (rule weakens_same) (simp_all add: cleanup_expired_responses_def)

lemma recorded_step:
  assumes "pki_step E T st st'" "recorded i a v V st" "T \<le> V"
  shows "recorded i a v V st'"
  using assms(1)
proof cases
  case step_revoke
  then show ?thesis using recorded_revoke[OF assms(2)] assms(3) by blast
next
  case step_unhold
  then show ?thesis using recorded_unhold[OF assms(2)] assms(3) by blast
next
  case step_revoke_ca
  then show ?thesis using recorded_revoke_ca[OF assms(2)] assms(3) by blast
next
  case step_revoke_cross
  then show ?thesis using recorded_revoke_cross[OF assms(2)] assms(3) by blast
next
  case (step_full clk)
  then show ?thesis using recorded_weakens[OF assms(2) weakens_generate assms(3)] by blast
qed (simp_all add: recorded_weakens[OF assms(2) weakens_delete assms(3)]
      recorded_weakens[OF assms(2) weakens_delta assms(3)] recorded_weakens[OF assms(2) weakens_upload assms(3)]
      recorded_weakens[OF assms(2) weakens_ocsp assms(3)] recorded_weakens[OF assms(2) weakens_cleanup assms(3)])

lemma recorded_reaches: "pki_reaches E T st st' \<Longrightarrow> T \<le> V \<Longrightarrow> recorded i a v V st \<Longrightarrow> recorded i a v V st'"
  by (induction rule: rtranclp_induct) (auto intro: recorded_step)

text \<open>A recorded revocation is on the list and in the answers.\<close>

lemma recorded_row:
  assumes "recorded i a v V st" "a \<in> set (same_key_refids st ca)" "now < V" "serial_to_int (Str_Serial v) = Some n"
  shows "revoked_serial st ca now n"
proof -
  obtain r where r: "r \<in> set (p_serials st)" "rs_caref r = a" "rs_serial_number r = v" "V \<le> rs_valid_to r"
      "rs_certificate_id r = None \<or> rs_certificate_id r = Some i"
    using assms(1) unfolding recorded_def by blast
  have "\<not> lifted (p_certs st) r"
  proof
    assume "lifted (p_certs st) r"
    then obtain c where "first_row (\<lambda>c. c_id c = i) (p_certs st) = Some c" "\<not> c_revoked c"
      using r(5) by (auto simp: lifted_def split: option.splits)
    then show False using recorded_own(1)[OF assms(1)] by (simp add: get_cert_def)
  qed
  moreover have "r_serial (Serial_Rec r) = Some n"
    using assms(4) r(3) by (simp add: r_serial_def resolve_record_serial_def column_arg_def)
  ultimately have "row_revokes st ca now n r" using r assms(2,3) by (simp add: row_revokes_def)
  then show ?thesis using r(1) by (auto simp: revoked_serial_def list_ex_iff)
qed

section \<open>A revocation outlives its certificate\<close>

text \<open>No other certificate of the CA and no certificate authority has the column of certificate
  \<open>i\<close>.\<close>

definition sole_column :: "int \<Rightarrow> string \<Rightarrow> string \<Rightarrow> pki \<Rightarrow> bool" where
  "sole_column i a v st \<longleftrightarrow>
     list_all (\<lambda>c. c_id c = i \<or> \<not> (c_caref c = Some a \<and> c_serial_number c = Some v)) (p_certs st) \<and>
     list_all (\<lambda>ca. case load_crt (ca_crt ca) of None \<Rightarrow> True | Some x \<Rightarrow> show_int (x_serial x) \<noteq> v) (p_cas st)"

definition listed_until :: "datetime \<Rightarrow> cert_row \<Rightarrow> datetime" where
  "listed_until now c = (case c_valid_to c of None \<Rightarrow> now + days 365 | Some t \<Rightarrow> t)"

lemma update_first_some: "list_ex p rows \<Longrightarrow> \<exists>r \<in> set rows. p r \<and> f r \<in> set (update_first p f rows)"
  by (induction rows) auto

lemma upsert_row:
  assumes "\<And>r. rs_caref (f r) = rs_caref r" "\<And>r. rs_serial_number (f r) = rs_serial_number r"
  shows "\<exists>r. f r \<in> set (upsert_revocation a v f rows) \<and> rs_caref (f r) = a \<and> rs_serial_number (f r) = v"
proof (cases "list_ex (\<lambda>r. rs_caref r = a \<and> rs_serial_number r = v) rows")
  case True
  from update_first_some[OF this, of f] show ?thesis
    using True assms by (auto simp: upsert_revocation_def Let_def)
next
  case False
  then show ?thesis using assms by (auto simp: upsert_revocation_def Let_def)
qed

lemma recorded_after_stage:
  assumes "get_cert st i = Some c" "c_caref c = Some a" "issuing_record st (Some a) = Some ca"
    and "c_serial_number c = Some v" "reason \<notin> set HOLD_REASONS" "sole_column i a v st"
    and "stage_revocation now reason invd c st = Some st'"
  shows "recorded i a v (listed_until now c) st'"
proof -
  let ?put_fields = "\<lambda>r. r\<lparr>rs_revoked_at := now, rs_revoke_reason := Some reason,
      rs_invalidity_at := (case invd of None \<Rightarrow> c_invalidity_at c | Some t \<Rightarrow> Some t),
      rs_valid_to := listed_until now c, rs_certificate_id := Some i\<rparr>"
  have st': "p_serials st' = upsert_revocation a v ?put_fields (p_serials st)" "p_cas st' = p_cas st"
    and certs: "p_certs st' = update_rows (\<lambda>r. c_id r = i) (\<lambda>r. r\<lparr>c_revoked := True, c_revoked_at := Some now,
      c_revoke_reason := Some reason, c_invalidity_at := (case invd of None \<Rightarrow> c_invalidity_at c | Some t \<Rightarrow> Some t)\<rparr>)
      (p_certs st)"
    using assms(2-4,7) get_cert_id[OF assms(1)]
    by (auto simp: stage_revocation_def listed_until_def Let_def)
  obtain r where "?put_fields r \<in> set (p_serials st')" "rs_caref (?put_fields r) = a" "rs_serial_number (?put_fields r) = v"
    using upsert_row[of ?put_fields a v "p_serials st"] unfolding st' by auto
  then have "\<exists>r \<in> set (p_serials st'). rs_caref r = a \<and> rs_serial_number r = v \<and> listed_until now c \<le> rs_valid_to r \<and>
      (rs_certificate_id r = None \<or> rs_certificate_id r = Some i)"
    by (intro bexI[of _ "?put_fields r"]) auto
  moreover have "if c_id d = i then c_revoked d \<and> c_revoke_reason d \<notin> Some ` set HOLD_REASONS
      else \<not> (c_caref d = Some a \<and> c_serial_number d = Some v)" if "d \<in> set (p_certs st')" for d
    using that assms(5,6) unfolding certs by (auto simp: set_update_rows sole_column_def list_all_iff split: if_splits)
  ultimately show ?thesis using assms(6) unfolding recorded_def sole_column_def st'(2) by (auto simp: list_all_iff)
qed

lemma recorded_after_revoke:
  assumes "get_cert st i = Some c" "c_caref c = Some a" "issuing_record st (Some a) = Some ca"
    and "c_serial_number c = Some v" "reason \<notin> set HOLD_REASONS" "sole_column i a v st"
    and "revoke_certificate loads signs refs clk clk' commits commits' i reason invd related st = (Inr u, st')"
    and "t_purge clk \<le> T" "t_purge clk' \<le> T" "T \<le> listed_until (t_op clk) c"
  shows "recorded i a v (listed_until (t_op clk) c) st'"
proof -
  let ?R = "recorded i a v (listed_until (t_op clk) c)"
  obtain res st1 where one: "revoke_one loads signs refs clk commits i reason invd st = (res, st1)" by fastforce
  then obtain w where res: "res = Inr w" using assms(7) by (cases res) (auto simp: revoke_certificate_def)
  obtain st0 where st0: "stage_revocation (t_op clk) reason invd c st = Some st0"
      "st1 = publish_revocation loads signs refs clk (issuing_record st (c_caref c)) c st0"
    using one res assms(1) by (auto simp: revoke_one_def split: if_splits option.splits)
  have "?R st0" by (rule recorded_after_stage[OF assms(1-6) st0(1)])
  then have r1: "?R st1" unfolding st0(2) by (rule recorded_weakens[OF _ weakens_publish[OF assms(8)] assms(10)])
  show ?thesis
  proof (cases related)
    case True
    show ?thesis
    proof (cases "mutual_partner st1 (get_cert st1 i)")
      case (Some p)
      obtain res2 st2 where two: "revoke_one loads signs refs clk' commits' (c_id p) reason invd st1 = (res2, st2)"
        by fastforce
      have "?R st2"
        using recorded_revoke_one[OF r1 assms(9,10), of loads signs refs commits' "c_id p" reason invd] by (simp add: two)
      then show ?thesis
        using r1 recorded_hand_over assms(7) True Some
        by (cases res2) (auto simp: revoke_certificate_def one res two split: if_splits)
    qed (use r1 assms(7) True in \<open>simp add: revoke_certificate_def one res\<close>)
  qed (use recorded_hand_over[OF r1] assms(7) in \<open>auto simp: revoke_certificate_def one res\<close>)
qed

lemma persisted_answer:
  assumes "r \<in> set (p_serials st)" "rs_caref r \<in> set (same_key_refids st ca)" "rs_serial_number r \<in> serial_variants m"
  shows "\<exists>t f. persisted_status st ca m = Some (Revoked t f)"
proof -
  let ?rows = "by_date (filter (\<lambda>r. rs_caref r \<in> set (same_key_refids st ca) \<and> rs_serial_number r \<in> serial_variants m)
      (p_serials st))"
  have "r \<in> set ?rows" using assms by simp
  then obtain q where "first_row (\<lambda>_. True) ?rows = Some q"
    using first_row_None_iff[of "\<lambda>_. True" ?rows] by (cases "first_row (\<lambda>_. True) ?rows") auto
  then show ?thesis by (simp add: persisted_status_def)
qed

lemma persisted_status_cong:
  "p_cas st' = p_cas st \<Longrightarrow> p_serials st' = p_serials st \<Longrightarrow> persisted_status st' ca m = persisted_status st ca m"
  by (simp only: persisted_status_def same_key_refids_cong[of st' st])

text \<open>A persistent record answers unless a certificate of the issuer that is not revoked is held
  under the serial.\<close>

lemma persisted_decides:
  assumes "r \<in> set (p_serials st)" "rs_caref r \<in> set (same_key_refids st ca)" "rs_serial_number r \<in> serial_variants m"
    and "\<And>d. held_certificate st ca m = Some d \<Longrightarrow> c_revoked d"
  shows "\<exists>t f. fst (status_for_serial verifies now st ca m) = Revoked t f"
proof -
  obtain t f where p: "persisted_status st ca m = Some (Revoked t f)" using persisted_answer[OF assms(1-3)] by blast
  obtain x st' where x: "cross_certificate_for_serial verifies st ca m = (x, st')" by fastforce
  have "p_cas st' = p_cas st" "p_serials st' = p_serials st"
    using x by (auto simp: cross_certificate_for_serial_def rows_of_issuer_def split: prod.splits)
  then have p': "persisted_status st' ca m = Some (Revoked t f)" using p persisted_status_cong by metis
  show ?thesis
  proof (cases "held_certificate st ca m")
    case (Some d)
    then show ?thesis using assms(4) by (simp add: status_for_serial_def revoked_answer_def)
  next
    case None
    then show ?thesis
      using p p' x by (cases "child_ca_for_serial verifies st ca m"; cases x)
        (auto simp: status_for_serial_def revoked_answer_def persisted_or_def)
  qed
qed


definition demo_lib :: "unit pki_lib" where
  "demo_lib = \<lparr>l_eku_ocsp = (\<lambda>_. None), l_ku_signs = (\<lambda>_. None), l_nocheck = (\<lambda>_. False), l_key = (\<lambda>_. None),
     l_matches = (\<lambda>_ _. False), l_fips_refuses = (\<lambda>_. False), l_ca_key = (\<lambda>_. Some ())\<rparr>"

definition demo_env :: "unit pki_env" where
  "demo_env = \<lparr>v_verifies = (\<lambda>x y. Some (x_spki y = Some ''key'')), v_lib = demo_lib, v_loads = (\<lambda>_. True), v_signs = (\<lambda>_. True),
     v_refs = (\<lambda>_ _. False), v_digest = (\<lambda>alg s. alg @ s), v_key_bits = (\<lambda>_. ''key'')\<rparr>"

definition demo_clock :: clock where
  "demo_clock = \<lparr>t_op = 20, t_purge = 21, t_list = 22, t_crl = 23\<rparr>"


section \<open>A revocation is answered at once\<close>

lemma first_row_least:
  "sorted (map f xs) \<Longrightarrow> first_row P xs = Some y \<Longrightarrow> z \<in> set xs \<Longrightarrow> P z \<Longrightarrow> f y \<le> (f z :: int)"
  by (induction xs) (auto simp: first_row_def split: if_splits)

lemma held_certificate_revoked:
  assumes "d \<in> set (p_certs st)" "in_refids (c_caref d) (same_key_refids st ca)" "c_revoked d"
    and "c_serial_number d = Some v" "v \<in> serial_variants n" "record_holds_serial (c_crt d) n \<noteq> Some False"
  shows "\<exists>e. held_certificate st ca n = Some e \<and> c_revoked e"
proof -
  let ?key = "\<lambda>c. if c_revoked c then 0 else (1 :: int)"
  have mem: "d \<in> set (certificates_with_serial st ca n)"
    using assms by (auto simp: certificates_with_serial_def)
  then obtain e where e: "held_certificate st ca n = Some e"
    using assms(6) first_row_None_iff[of "\<lambda>c. record_holds_serial (c_crt c) n \<noteq> Some False"]
    unfolding held_certificate_def by (metis option.exhaust)
  have "sorted (map ?key (certificates_with_serial st ca n))"
    unfolding certificates_with_serial_def by (rule sorted_sort_key)
  from first_row_least[OF this e[unfolded held_certificate_def] mem assms(6)] assms(3)
  show ?thesis using e by (auto split: if_splits)
qed

end
