(* ===== verification/Revocation_Answers.thy ===== *)
theory Revocation_Answers
  imports Revocation_Safety
begin

text \<open>
  What relying parties are told: a revocation is answered at once, the cache included; the responder
  and the revocation list agree; a base list and its delta cover a full list; and the inputs on which
  they part (a re-imported certificate, two records of one key, a response computed while the
  revocation commits, a decimal reading of a hexadecimal column).
\<close>

section \<open>What the other operations keep\<close>

text \<open>The row of a revoked certificate, with the columns the responder reads.\<close>

definition has_row :: "cert_row \<Rightarrow> pki \<Rightarrow> bool" where
  "has_row c st \<longleftrightarrow>
     (\<exists>d \<in> set (p_certs st). c_id d = c_id c \<and> c_caref d = c_caref c \<and> c_crt d = c_crt c \<and>
        c_serial_number d = c_serial_number c \<and> c_valid_to d = c_valid_to c \<and> c_revoked d) \<and>
     distinct (map c_id (p_certs st))"

lemma has_row_core:
  assumes "has_row c st" "map core (p_certs st') = map core (p_certs st)"
  shows "has_row c st'"
proof -
  obtain d where d: "d \<in> set (p_certs st)" "c_id d = c_id c" "c_caref d = c_caref c" "c_crt d = c_crt c"
      "c_serial_number d = c_serial_number c" "c_valid_to d = c_valid_to c" "c_revoked d"
    using assms(1) unfolding has_row_def by blast
  have "core d \<in> set (map core (p_certs st'))" using d(1) assms(2) by simp
  then obtain e where e: "e \<in> set (p_certs st')" "core e = core d" by auto
  have "map c_id (p_certs st') = map c_id (map core (p_certs st'))" by (simp add: comp_def)
  also have "\<dots> = map c_id (p_certs st)" by (simp add: assms(2) comp_def)
  finally have "distinct (map c_id (p_certs st'))" using assms(1) by (simp add: has_row_def)
  then show ?thesis using e(1) core_eqD[OF e(2)] d unfolding has_row_def by (intro conjI bexI[of _ e]) auto
qed

lemma has_row_delete:
  assumes "has_row c st" "j \<noteq> c_id c"
  shows "has_row c (snd (delete_certificate refs t j st))"
proof (rule has_row_core[of c "st\<lparr>p_certs := filter (\<lambda>r. c_id r \<noteq> j) (p_certs st)\<rparr>"])
  show "has_row c (st\<lparr>p_certs := filter (\<lambda>r. c_id r \<noteq> j) (p_certs st)\<rparr>)"
    using assms unfolding has_row_def by (auto intro: distinct_map_filter)
  show "map core (p_certs (snd (delete_certificate refs t j st))) =
      map core (p_certs (st\<lparr>p_certs := filter (\<lambda>r. c_id r \<noteq> j) (p_certs st)\<rparr>))"
    unfolding delete_certificate_simps(1) by (simp add: filter_map comp_def)
qed

lemma has_row_deletes:
  "has_row c st \<Longrightarrow> c_id c \<notin> set js \<Longrightarrow> has_row c (foldl (\<lambda>s j. snd (delete_certificate refs t j s)) st js)"
proof (induction js arbitrary: st)
  case (Cons j js)
  then have "has_row c (snd (delete_certificate refs t j st))" by (intro has_row_delete) auto
  then show ?case using Cons by simp
qed simp

text \<open>A certificate that has not expired when the purge runs survives it.\<close>

definition alive_at :: "cert_row \<Rightarrow> datetime \<Rightarrow> bool" where
  "alive_at c t \<longleftrightarrow> (case c_valid_to c of None \<Rightarrow> True | Some u \<Rightarrow> t \<le> u)"

lemma has_row_housekeeping:
  assumes "has_row c st" "alive_at c t"
  shows "has_row c (run_housekeeping refs i t st)"
proof -
  have old: "has_row c (purge_expired_revoked_certificates refs i t s)" if s: "has_row c s" for s
  proof (cases "get_ca s i")
    case (Some ca)
    let ?old = "\<lambda>x. c_caref x = Some (ca_refid ca) \<and> c_revoked x \<and>
        (case c_valid_to x of None \<Rightarrow> False | Some u \<Rightarrow> u < t)"
    have inj: "inj_on c_id (set (p_certs s))" using s by (simp add: has_row_def distinct_map)
    obtain d where d: "d \<in> set (p_certs s)" "c_id d = c_id c" "c_valid_to d = c_valid_to c"
      using s unfolding has_row_def by blast
    have "c_id c \<notin> set (map c_id (sort_key c_id (filter ?old (p_certs s))))"
    proof
      assume "c_id c \<in> set (map c_id (sort_key c_id (filter ?old (p_certs s))))"
      then obtain e where "e \<in> set (p_certs s)" "?old e" "c_id e = c_id d" using d(2) by auto
      then have "?old d" using inj_onD[OF inj _ _ d(1), of e] by blast
      then show False using d(3) assms(2) by (auto simp: alive_at_def split: option.splits)
    qed
    from has_row_deletes[OF s this] Some show ?thesis by (simp add: purge_expired_revoked_certificates_def)
  qed (use s in \<open>simp add: purge_expired_revoked_certificates_def\<close>)
  have stale: "has_row c (purge_stale_revoked_serials i t s)" if "has_row c s" for s
    using that by (rule has_row_core) simp
  show ?thesis using assms(1) old stale by (simp add: run_housekeeping_def Let_def)
qed

lemma has_row_same: "has_row c st \<Longrightarrow> p_certs st' = p_certs st \<Longrightarrow> has_row c st'"
  by (simp add: has_row_def)

lemma has_row_generate:
  assumes "has_row c st" "alive_at c t"
  shows "has_row c (snd (generate_crl loads signs refs t t' now i d st))"
  using has_row_housekeeping[OF assms] assms(1)
  by (cases "get_ca st i") (auto simp: generate_crl_def Let_def store_crl_def has_row_def)

lemma has_row_publish:
  assumes "has_row c st" "alive_at c (t_purge clk)"
  shows "has_row c (publish_revocation loads signs refs clk ca x st)"
proof -
  let ?st1 = "case ca of None \<Rightarrow> st | Some issuer \<Rightarrow> if ca_cdp_enabled issuer
      then snd (generate_crl loads signs refs (t_purge clk) (t_list clk) (t_crl clk) (ca_id issuer) None st) else st"
  have "has_row c ?st1" using has_row_generate[OF assms] assms(1) by (cases ca) simp_all
  then show ?thesis
    unfolding publish_revocation_def Let_def
    by (rule has_row_same) (simp add: invalidate_cached_responses_def Let_def)
qed

text \<open>The operations of a revocation never add to the cache and never change a CA.\<close>

definition cache_shrinks :: "pki \<Rightarrow> pki \<Rightarrow> bool" where
  "cache_shrinks st st' \<longleftrightarrow> set (p_cache st') \<subseteq> set (p_cache st) \<and> p_cas st' = p_cas st"

lemma cache_shrinks_refl [simp]: "cache_shrinks st st" by (simp add: cache_shrinks_def)

lemma cache_shrinks_trans: "cache_shrinks s t \<Longrightarrow> cache_shrinks t u \<Longrightarrow> cache_shrinks s u"
  by (auto simp: cache_shrinks_def)

lemma cache_shrinks_foldl: "(\<And>s x. cache_shrinks s (f s x)) \<Longrightarrow> cache_shrinks st (foldl f st xs)"
  by (induction xs arbitrary: st) (auto intro: cache_shrinks_trans)

lemma cache_shrinks_same: "p_cache st' = p_cache st \<Longrightarrow> p_cas st' = p_cas st \<Longrightarrow> cache_shrinks st st'"
  by (simp add: cache_shrinks_def)

lemma cache_shrinks_invalidate: "cache_shrinks st (invalidate_ca_cache i st)"
  by (auto simp: cache_shrinks_def invalidate_ca_cache_def)

lemma cache_shrinks_delete: "cache_shrinks st (snd (delete_certificate refs t i st))"
proof (cases "get_cert st i")
  case (Some c)
  let ?st1 = "unlink_rows_naming refs t i (unlink_revocations i st)"
  let ?responders = "responder_cas_for_certificate ?st1 i"
  let ?st2 = "?st1\<lparr>p_config := filter (\<lambda>(key, _). key \<notin> (\<lambda>j. responder_prefix @ show_int j) ` set ?responders)
      (p_config ?st1), p_certs := filter (\<lambda>r. c_id r \<noteq> i) (p_certs ?st1)\<rparr>"
  have "cache_shrinks (unlink_revocations i st) ?st1"
    unfolding unlink_rows_naming_def by (rule cache_shrinks_foldl) (rule cache_shrinks_same, simp_all)
  then have "cache_shrinks st ?st2" by (simp add: cache_shrinks_def unlink_revocations_def)
  moreover have "cache_shrinks ?st2 (foldl (\<lambda>s j. invalidate_ca_cache j s) ?st2 ?responders)"
    by (rule cache_shrinks_foldl) (rule cache_shrinks_invalidate)
  ultimately have "cache_shrinks st (foldl (\<lambda>s j. invalidate_ca_cache j s) ?st2 ?responders)"
    by (rule cache_shrinks_trans)
  then show ?thesis by (simp add: delete_certificate_def Let_def Some)
qed (simp add: delete_certificate_def)

lemma cache_shrinks_housekeeping: "cache_shrinks st (run_housekeeping refs i t st)"
proof -
  have old: "cache_shrinks s (purge_expired_revoked_certificates refs i t s)" for s
    by (cases "get_ca s i")
      (auto simp: purge_expired_revoked_certificates_def intro!: cache_shrinks_foldl cache_shrinks_delete)
  have stale: "cache_shrinks s (purge_stale_revoked_serials i t s)" for s
    by (cases "get_ca s i") (auto simp: purge_stale_revoked_serials_def cache_shrinks_def)
  show ?thesis
    using old[of st] stale[of st] cache_shrinks_trans[OF stale[of st] old]
    by (simp add: run_housekeeping_def Let_def)
qed

lemma cache_shrinks_generate: "cache_shrinks st (snd (generate_crl loads signs refs t t' now i d st))"
  using cache_shrinks_trans[OF cache_shrinks_housekeeping cache_shrinks_same] cache_shrinks_housekeeping
  by (cases "get_ca st i") (auto simp: generate_crl_def Let_def store_crl_def)

lemma cache_shrinks_invalidate_cached: "cache_shrinks st (invalidate_cached_responses serial ca st)"
  by (auto simp: cache_shrinks_def invalidate_cached_responses_def Let_def)

lemma cache_shrinks_publish: "cache_shrinks st (publish_revocation loads signs refs clk ca x st)"
proof -
  let ?st1 = "case ca of None \<Rightarrow> st | Some issuer \<Rightarrow> if ca_cdp_enabled issuer
      then snd (generate_crl loads signs refs (t_purge clk) (t_list clk) (t_crl clk) (ca_id issuer) None st) else st"
  have "cache_shrinks st ?st1" using cache_shrinks_generate by (cases ca) simp_all
  then have two: "cache_shrinks st (invalidate_cached_responses (column_arg (c_serial_number x)) (map_option ca_id ca) ?st1)"
    by (rule cache_shrinks_trans[OF _ cache_shrinks_invalidate_cached])
  show ?thesis
    unfolding publish_revocation_def Let_def
    by (rule cache_shrinks_trans[OF two cache_shrinks_foldl[OF cache_shrinks_invalidate]])
qed

section \<open>A revocation is answered at once\<close>

definition uncached :: "int \<Rightarrow> int \<Rightarrow> pki \<Rightarrow> bool" where
  "uncached i n st \<longleftrightarrow> (\<forall>r \<in> set (p_cache st). \<not> (oc_ca_id r = i \<and> (\<exists>algo. oc_key r = cache_key n algo)))"

lemma uncached_shrinks: "uncached i n st \<Longrightarrow> cache_shrinks st st' \<Longrightarrow> uncached i n st'"
  by (auto simp: uncached_def cache_shrinks_def)

lemma uncached_invalidated:
  assumes "0 \<le> n" "v \<in> serial_variants n"
  shows "uncached i n (invalidate_cached_responses (Str_Serial v) (Some i) st)"
proof -
  let ?hex = "serial_to_hex (Str_Serial v)"
  have v: "v \<noteq> []"
    using assms by (cases rule: serial_variant_cases) (use show_int_plain[OF assms(1)] in \<open>auto simp: plain_digits_def\<close>)
  have "\<exists>m. serial_to_int (Str_Serial v) = Some m"
    using serial_spelling_reading[OF assms] serial_to_int_decimal[OF assms(1)]
    by (cases "v = show_int n") (auto simp del: serial_to_int.simps split: if_splits)
  then have hex: "?hex \<noteq> []" using v by (auto simp: format_hex_def simp del: serial_to_int.simps split: if_splits)
  have "key_matches (cache_key_forms (Str_Serial v) ?hex) (cache_key n algo)" for algo
    using cache_forms_reach[OF assms] unfolding key_matches_def cache_key_def
    by (intro bexI[of _ "format_hex False n"]) (auto simp: starts_with_iff)
  then show ?thesis
    using hex by (auto simp: uncached_def invalidate_cached_responses_def Let_def simp del: serial_to_hex.simps)
qed

lemma uncached_publish:
  assumes "0 \<le> n" "c_serial_number c = Some v" "v \<in> serial_variants n"
  shows "uncached (ca_id ca) n (publish_revocation loads signs refs clk (Some ca) c st)"
  unfolding publish_revocation_def Let_def assms(2) column_arg_def option.case option.map
  by (rule uncached_shrinks[OF uncached_invalidated[OF assms(1,3)] cache_shrinks_foldl[OF cache_shrinks_invalidate]])

lemma has_row_set:
  assumes "has_row c st" "\<And>r. c_id (f r) = c_id r" "j \<noteq> c_id c"
  shows "has_row c (st\<lparr>p_certs := update_rows (\<lambda>r. c_id r = j) f (p_certs st), p_serials := rows\<rparr>)"
proof -
  have "map c_id (update_rows (\<lambda>r. c_id r = j) f (p_certs st)) = map c_id (p_certs st)"
    using assms(2) by (simp add: update_rows_def)
  then show ?thesis
    using assms(1,3) unfolding has_row_def by (auto simp: set_update_rows)
qed

lemma has_row_staged:
  assumes "get_cert st i = Some c" "distinct (map c_id (p_certs st))" "stage_revocation now reason invd c st = Some st'"
  shows "has_row c st'"
proof -
  let ?f = "\<lambda>r. r\<lparr>c_revoked := True, c_revoked_at := Some now, c_revoke_reason := Some reason,
      c_invalidity_at := (case invd of None \<Rightarrow> c_invalidity_at c | Some t \<Rightarrow> Some t)\<rparr>"
  have certs: "p_certs st' = update_rows (\<lambda>r. c_id r = c_id c) ?f (p_certs st)"
    using assms(3) by (auto simp: stage_revocation_def Let_def split: option.splits)
  have "c \<in> set (p_certs st)" using assms(1) first_row_SomeD unfolding get_cert_def by fastforce
  then have "?f c \<in> set (p_certs st')" unfolding certs set_update_rows by force
  moreover have "map c_id (p_certs st') = map c_id (p_certs st)" by (simp add: certs update_rows_def)
  ultimately show ?thesis using assms(2) unfolding has_row_def by (intro conjI bexI[of _ "?f c"]) simp_all
qed

lemma stage_shape:
  assumes "stage_revocation now reason invd c st = Some st'"
  obtains f rows where "st' = st\<lparr>p_certs := update_rows (\<lambda>r. c_id r = c_id c) f (p_certs st), p_serials := rows\<rparr>"
    "\<And>r. c_id (f r) = c_id r"
proof -
  let ?f = "\<lambda>r. r\<lparr>c_revoked := True, c_revoked_at := Some now, c_revoke_reason := Some reason,
      c_invalidity_at := (case invd of None \<Rightarrow> c_invalidity_at c | Some t \<Rightarrow> Some t)\<rparr>"
  have "st' = st\<lparr>p_certs := update_rows (\<lambda>r. c_id r = c_id c) ?f (p_certs st), p_serials := p_serials st'\<rparr>"
    using assms by (auto simp: stage_revocation_def Let_def split: option.splits)
  then show ?thesis by (rule that) simp
qed

lemma has_row_get: "has_row c st \<Longrightarrow> \<exists>d. get_cert st (c_id c) = Some d \<and> c_revoked d"
proof -
  assume h: "has_row c st"
  then obtain d where d: "d \<in> set (p_certs st)" "c_id d = c_id c" "c_revoked d" unfolding has_row_def by blast
  then obtain e where e: "get_cert st (c_id c) = Some e"
    using get_cert_None_iff[of st "c_id c"] by (metis imageI not_None_eq)
  then have "e \<in> set (p_certs st)" "c_id e = c_id c"
    using first_row_SomeD[of "\<lambda>x. c_id x = c_id c" "p_certs st" e] by (simp_all add: get_cert_def)
  then have "e = d" using h d(1,2) unfolding has_row_def by (metis distinct_map inj_onD)
  then show ?thesis using e d(3) by blast
qed

lemma has_row_revoke_one:
  assumes "has_row c st" "alive_at c (t_purge clk)"
  shows "has_row c (snd (revoke_one loads signs refs clk commits j reason invd st)) \<and>
    cache_shrinks st (snd (revoke_one loads signs refs clk commits j reason invd st))"
proof (cases "get_cert st j")
  case (Some d)
  show ?thesis
  proof (cases "c_revoked d \<or> stage_revocation (t_op clk) reason invd d st = None \<or> \<not> commits")
    case False
    then obtain st1 where st1: "stage_revocation (t_op clk) reason invd d st = Some st1" by (metis not_None_eq)
    obtain f rows where shape: "st1 = st\<lparr>p_certs := update_rows (\<lambda>r. c_id r = c_id d) f (p_certs st), p_serials := rows\<rparr>"
        "\<And>r. c_id (f r) = c_id r"
      using stage_shape[OF st1] by blast
    have "c_id d \<noteq> c_id c" using has_row_get[OF assms(1)] Some False get_cert_id[OF Some] by auto
    then have "has_row c st1" unfolding shape(1) by (rule has_row_set[OF assms(1) shape(2)])
    moreover have "cache_shrinks st st1" unfolding shape(1) by (rule cache_shrinks_same) simp_all
    ultimately show ?thesis
      using has_row_publish[OF _ assms(2)] cache_shrinks_trans[OF _ cache_shrinks_publish] Some st1 False
      by (simp add: revoke_one_def)
  qed (use assms(1) Some in \<open>auto simp: revoke_one_def split: option.splits\<close>)
qed (use assms(1) in \<open>simp add: revoke_one_def\<close>)

lemma has_row_hand_over:
  assumes "has_row c st"
  shows "has_row c (hand_over_link refs now row st) \<and> cache_shrinks st (hand_over_link refs now row st)"
proof -
  have "map core (update_rows (\<lambda>x. c_id x = j) (c_related_id_update g) rows) = map core rows" for j g rows
    by (simp add: update_rows_def core_def)
  then have "has_row c (st\<lparr>p_certs := update_rows (\<lambda>x. c_id x = j) (c_related_id_update g) (p_certs st)\<rparr>)" for j g
    by (intro has_row_core[OF assms]) simp
  then show ?thesis
    using assms by (auto simp: hand_over_link_def cache_shrinks_def split: option.splits)
qed

lemma revoke_effect:
  assumes "get_cert st i = Some c" "c_caref c = Some a" "issuing_record st (Some a) = Some ca"
    and "c_serial_number c = Some v" "0 \<le> n" "v \<in> serial_variants n" "distinct (map c_id (p_certs st))"
    and "revoke_certificate loads signs refs clk clk' commits commits' i reason invd related st = (Inr u, st')"
    and "alive_at c (t_purge clk)" "alive_at c (t_purge clk')"
  shows "has_row c st' \<and> uncached (ca_id ca) n st' \<and> p_cas st' = p_cas st"
proof -
  obtain res st1 where one: "revoke_one loads signs refs clk commits i reason invd st = (res, st1)" by fastforce
  then obtain w where res: "res = Inr w" using assms(8) by (cases res) (auto simp: revoke_certificate_def)
  obtain st0 where st0: "stage_revocation (t_op clk) reason invd c st = Some st0"
      "st1 = publish_revocation loads signs refs clk (Some ca) c st0"
    using one res assms(1-3) by (auto simp: revoke_one_def split: if_splits option.splits)
  have cas: "p_cas st0 = p_cas st" using stage_shape[OF st0(1)] by (metis pki.select_convs(1) pki.surjective pki.update_convs(2,3))
  have h: "has_row c st1" unfolding st0(2) by (rule has_row_publish[OF has_row_staged[OF assms(1,7) st0(1)] assms(9)])
  have n: "uncached (ca_id ca) n st1" unfolding st0(2) by (rule uncached_publish[OF assms(5,4,6)])
  have k: "p_cas st1 = p_cas st" using cache_shrinks_publish cas unfolding st0(2) cache_shrinks_def by metis
  have good: "has_row c s \<and> uncached (ca_id ca) n s \<and> p_cas s = p_cas st" if "has_row c s" "cache_shrinks st1 s" for s
    using that n k uncached_shrinks by (auto simp: cache_shrinks_def)
  show ?thesis
  proof (cases related)
    case True
    show ?thesis
    proof (cases "mutual_partner st1 (get_cert st1 i)")
      case (Some p)
      obtain res2 st2 where two: "revoke_one loads signs refs clk' commits' (c_id p) reason invd st1 = (res2, st2)"
        by fastforce
      have h2: "has_row c st2" "cache_shrinks st1 st2"
        using has_row_revoke_one[OF h assms(10), of loads signs refs commits' "c_id p" reason invd] by (simp_all add: two)
      have h3: "has_row c (hand_over_link refs t row st2)" "cache_shrinks st1 (hand_over_link refs t row st2)" for t row
        using has_row_hand_over[OF h2(1)] cache_shrinks_trans[OF h2(2)] by blast+
      show ?thesis
        using assms(8) True Some good[OF h] good[OF h2] good[OF h3]
        by (cases res2) (auto simp: revoke_certificate_def one res two split: if_splits)
    qed (use good[OF h] assms(8) True in \<open>simp add: revoke_certificate_def one res\<close>)
  next
    case False
    have "st' = hand_over_link refs (t_op clk) (get_cert st1 i) st1"
      using assms(8) False by (simp add: revoke_certificate_def one res)
    then show ?thesis using good has_row_hand_over[OF h] by blast
  qed
qed

lemma issuing_record_refid: "issuing_record st (Some a) = Some ca \<Longrightarrow> ca_refid ca = a"
  using first_row_SomeD[of "\<lambda>c. ca_refid c = a" "p_cas st" ca] by (auto simp: issuing_record_def ca_by_refid_def split: if_splits)

lemma has_row_revoked:
  assumes "has_row c st" "c_caref c = Some (ca_refid ca)" "c_serial_number c = Some v" "v \<in> serial_variants n"
    and "record_holds_serial (c_crt c) n \<noteq> Some False"
  shows "\<exists>t f. status_for_serial verifies now st ca n = (Revoked t f, st)"
proof -
  obtain d where d: "d \<in> set (p_certs st)" "c_caref d = c_caref c" "c_crt d = c_crt c"
      "c_serial_number d = c_serial_number c" "c_revoked d"
    using assms(1) unfolding has_row_def by blast
  have "in_refids (c_caref d) (same_key_refids st ca)"
    using assms(2) d(2) by (simp add: in_refids_def same_key_refids_def)
  then obtain e where "held_certificate st ca n = Some e" "c_revoked e"
    using held_certificate_revoked[OF d(1) _ d(5), of ca v n] assms(3-5) d(3,4) by auto
  then show ?thesis by (simp add: status_for_serial_def revoked_answer_def)
qed

lemma statuses_of_revoked:
  assumes "has_row c st" "c_caref c = Some (ca_refid ca)" "c_serial_number c = Some v" "v \<in> serial_variants n"
    and "record_holds_serial (c_crt c) n \<noteq> Some False" "(n, s) \<in> set (fst (statuses_of verifies now ca items st))"
  shows "\<exists>t f. s = Revoked t f"
  using assms(1,6)
proof (induction items arbitrary: st)
  case (Cons item items)
  obtain s1 st1 where one: "status_for_serial verifies now st ca (q_serial item) = (s1, st1)" by fastforce
  have "p_certs st1 = p_certs st"
    using one by (auto simp: status_for_serial_def cross_certificate_for_serial_def rows_of_issuer_def
        split: option.splits prod.splits if_splits)
  then have h: "has_row c st1" using Cons.prems(1) has_row_same by blast
  obtain rest st2 where rest: "statuses_of verifies now ca items st1 = (rest, st2)" by fastforce
  from Cons.prems(2) one rest consider "q_serial item = n" "s = s1" | "(n, s) \<in> set rest" by auto
  then show ?case
  proof cases
    case 1
    then show ?thesis
      using has_row_revoked[OF Cons.prems(1) assms(2-5), of verifies now] one by auto
  next
    case 2
    then show ?thesis using Cons.IH[OF h] rest by simp
  qed
qed simp

text \<open>C4: A revocation takes effect at once (RFC 6960). When \<open>revoke_certificate\<close> returns for an
  unexpired certificate whose column spells its serial in any of the writers' forms, an
  answer the responder then gives about that serial, to a request whose items all name the CA of the
  row by the hash the code resolves, is revoked: the responses cached before, for any hash algorithm,
  are gone, and single and multiple requests consult the row. A request that names another CA record
  of the same key (\<open>shared_key_answer_survives_revocation\<close>) and an answer that was being computed
  while the revocation ran (\<open>answer_cached_across_revocation\<close>) are outside this statement.\<close>

theorem revocation_is_answered_at_once:
  assumes "get_cert st i = Some c" "c_caref c = Some a" "issuing_record st (Some a) = Some ca"
    and "c_serial_number c = Some v" "0 \<le> n" "v \<in> serial_variants n" "distinct (map c_id (p_certs st))"
    and "revoke_certificate loads signs refs clk clk' commits commits' i reason invd related st = (Inr u, st')"
    and "alive_at c (t_purge clk)" "alive_at c (t_purge clk')" "record_holds_serial (c_crt c) n \<noteq> Some False"
    and "list_all (\<lambda>item. find_ca_by_issuer_hash verifies digest key_bits st' item = Some ca) (q_items req)"
    and "process_ocsp_request verifies lib digest key_bits now (Some req) st' = (Answers rs, st'')" "(n, s) \<in> set rs"
  shows "\<exists>t f. s = Revoked t f"
proof -
  have eff: "has_row c st'" "uncached (ca_id ca) n st'" using revoke_effect[OF assms(1-10)] by auto
  have row: "c_caref c = Some (ca_refid ca)" using assms(2) issuing_record_refid[OF assms(3)] by simp
  have fresh: "\<exists>t f. status_for_serial verifies now st' ca n = (Revoked t f, st')"
    by (rule has_row_revoked[OF eff(1) row assms(4,6,11)])
  have no_hit: "get_cached_response now st' (ca_id ca) n algo = None" for algo
  proof (cases "first_row (\<lambda>o'. oc_ca_id o' = ca_id ca \<and> oc_key o' = cache_key n algo) (p_cache st')")
    case (Some r)
    then have "r \<in> set (p_cache st')" "oc_ca_id r = ca_id ca" "oc_key r = cache_key n algo"
      using first_row_SomeD[OF Some] by auto
    then show ?thesis using eff(2) unfolding uncached_def by blast
  qed (simp add: get_cached_response_def)
  obtain item others where items: "q_items req = item # others"
    using assms(13) by (cases "q_items req") (auto simp: process_ocsp_request_def split: if_splits)
  have ca: "find_ca_by_issuer_hash verifies digest key_bits st' item = Some ca" using assms(12) items by simp
  show ?thesis
  proof (cases "others = []")
    case True
    have "q_serial item = n"
      using assms(13,14) ca items True
      by (auto simp: process_ocsp_request_def generate_response_def Let_def
          split: if_splits option.splits sum.splits ocsp_error.splits prod.splits)
    then show ?thesis
      using assms(13,14) ca items True fresh no_hit
      by (auto simp: process_ocsp_request_def generate_response_def Let_def
          split: if_splits sum.splits ocsp_error.splits)
  next
    case False
    then have "generate_multi_response verifies lib now ca (q_items req) st' = (Answers rs, st'')"
      using assms(13) ca items by (auto simp: process_ocsp_request_def Let_def split: if_splits)
    then have "rs = fst (statuses_of verifies now ca (q_items req) st')"
      by (auto simp: generate_multi_response_def split: sum.splits ocsp_error.splits prod.splits)
    then show ?thesis using statuses_of_revoked[OF eff(1) row assms(4,6,11)] assms(14) by blast
  qed
qed

text \<open>An installation without a distribution point, where a good answer about serial 255 is cached.\<close>

definition quiet_ca :: ca_row where
  "quiet_ca = demo_ca\<lparr>ca_cdp_enabled := False\<rparr>"

definition cached_pki :: pki where
  "cached_pki = (demo_pki [demo_cert 7 255 ''ff'' False] [])\<lparr>p_cas := [quiet_ca],
     p_cache := [\<lparr>oc_ca_id = 1, oc_key = ''ff:sha256'', oc_status = Good, oc_next_update = 500\<rparr>]\<rparr>"

definition demo_item :: ocsp_item where
  "demo_item = \<lparr>q_serial = 255, q_name_hash = ''sha256CN=CA'', q_key_hash = ''sha256key'', q_algo = ''sha256''\<rparr>"

definition demo_request :: ocsp_request where
  "demo_request = \<lparr>q_items = [demo_item], q_nonce = None, q_unsupported_critical = False\<rparr>"

lemma cached_pki_revoked:
  "revoke_certificate (\<lambda>_. True) (\<lambda>_. True) (\<lambda>_ _. False) demo_clock demo_clock True True 7 ''keyCompromise'' None
     False cached_pki =
   (Inr (), cached_pki\<lparr>p_certs := [(demo_cert 7 255 ''ff'' False)\<lparr>c_revoked := True, c_revoked_at := Some 20,
        c_revoke_reason := Some ''keyCompromise''\<rparr>],
      p_serials := [\<lparr>rs_id = 1, rs_caref = ''ca'', rs_serial_number = ''ff'', rs_revoked_at = 20,
        rs_revoke_reason = Some ''keyCompromise'', rs_invalidity_at = None, rs_valid_to = 900,
        rs_certificate_id = Some 7\<rparr>], p_cache := []\<rparr>)"
proof -
  have forms: "cache_key_forms (Str_Serial ''ff'') ''ff'' = {''ff''}" "serial_to_hex (Str_Serial ''ff'') = ''ff''"
    by (simp_all add: ucm_eval hex_digits.simps)
  show ?thesis
    by (simp add: revoke_certificate_def revoke_one_def stage_revocation_def publish_revocation_def
        hand_over_link_def mutual_partner_def issuing_record_def ca_by_refid_def get_cert_def first_row_def
        update_rows_def upsert_revocation_def next_id_def responder_cas_for_certificate_def
        invalidate_cached_responses_def key_matches_def starts_with_def column_arg_def forms
        cached_pki_def quiet_ca_def demo_defs demo_clock_def List.map_filter_def Let_def
        del: serial_to_hex.simps)
qed

theorem revocation_is_answered_at_once_witness:
  "\<exists>st' rs st'' s. revoke_certificate (\<lambda>_. True) (\<lambda>_. True) (\<lambda>_ _. False) demo_clock demo_clock True True 7
       ''keyCompromise'' None False cached_pki = (Inr (), st') \<and>
     process_ocsp_request (v_verifies demo_env) demo_lib (v_digest demo_env) (v_key_bits demo_env) 40
       (Some demo_request) st' = (Answers rs, st'') \<and> (255, s) \<in> set rs \<and> (\<exists>t f. s = Revoked t f)"
proof -
  let ?c = "demo_cert 7 255 ''ff'' False"
  define st' where "st' = cached_pki\<lparr>p_certs := [?c\<lparr>c_revoked := True, c_revoked_at := Some 20,
        c_revoke_reason := Some ''keyCompromise''\<rparr>],
      p_serials := [\<lparr>rs_id = 1, rs_caref = ''ca'', rs_serial_number = ''ff'', rs_revoked_at = 20,
        rs_revoke_reason = Some ''keyCompromise'', rs_invalidity_at = None, rs_valid_to = 900,
        rs_certificate_id = Some 7\<rparr>], p_cache := []\<rparr>"
  note rev = cached_pki_revoked[folded st'_def]
  have find: "find_ca_by_issuer_hash (v_verifies demo_env) (v_digest demo_env) (v_key_bits demo_env) st' demo_item = Some quiet_ca"
    by (simp add: find_ca_by_issuer_hash_def self_signed_first_def first_row_def st'_def cached_pki_def quiet_ca_def
        demo_defs demo_env_def demo_item_def)
  obtain s st1 where s: "status_for_serial (v_verifies demo_env) 40 st' quiet_ca 255 = (s, st1)" by fastforce
  have ans: "\<exists>st''. process_ocsp_request (v_verifies demo_env) demo_lib (v_digest demo_env) (v_key_bits demo_env) 40
       (Some demo_request) st' = (Answers [(255, s)], st'')"
    using s find
    by (simp add: process_ocsp_request_def generate_response_def resolve_signing_def get_delegated_responder_def
        get_cached_response_def first_row_def st'_def cached_pki_def quiet_ca_def demo_defs demo_request_def
        demo_item_def demo_lib_def has_private_key_def)
  then obtain st'' where ans': "process_ocsp_request (v_verifies demo_env) demo_lib (v_digest demo_env) (v_key_bits demo_env) 40
       (Some demo_request) st' = (Answers [(255, s)], st'')"
    by blast
  have c: "get_cert cached_pki 7 = Some ?c" "c_caref ?c = Some ''ca''" "issuing_record cached_pki (Some ''ca'') = Some quiet_ca"
    "c_serial_number ?c = Some ''ff''" "distinct (map c_id (p_certs cached_pki))"
    by (simp_all add: get_cert_def issuing_record_def ca_by_refid_def first_row_def cached_pki_def quiet_ca_def demo_defs)
  have v: "0 \<le> (255 :: int)" "(''ff'' :: string) \<in> serial_variants 255"
    by (simp_all add: serial_variants_def format_hex_def hex_digits.simps hex_char_table)
  have a: "alive_at ?c (t_purge demo_clock)" "record_holds_serial (c_crt ?c) 255 \<noteq> Some False"
    by (simp_all add: alive_at_def record_holds_serial_def demo_defs demo_clock_def)
  have l: "list_all (\<lambda>item. find_ca_by_issuer_hash (v_verifies demo_env) (v_digest demo_env) (v_key_bits demo_env) st' item = Some quiet_ca)
      (q_items demo_request)"
    using find by (simp add: demo_request_def)
  have "\<exists>t f. s = Revoked t f"
    by (rule revocation_is_answered_at_once[OF c(1-4) v c(5) rev a(1,1,2) l ans']) simp
  then show ?thesis using rev ans' by auto
qed

section \<open>The list and the responder agree\<close>

text \<open>The records that read as a serial spell it as the lookup by column expects.\<close>

definition spelled :: "pki \<Rightarrow> int \<Rightarrow> bool" where
  "spelled st n \<longleftrightarrow>
     list_all (\<lambda>r. r_serial r = Some n \<longrightarrow> (\<exists>v \<in> serial_variants n. r_column r = Some v))
       (map Cert_Rec (p_certs st) @ map Ca_Rec (p_cas st) @ map Serial_Rec (p_serials st))"

text \<open>No certificate, and no child CA, that is not revoked is found under the serial first.\<close>

definition unshadowed :: "(x509 \<Rightarrow> x509 \<Rightarrow> bool option) \<Rightarrow> pki \<Rightarrow> ca_row \<Rightarrow> int \<Rightarrow> bool" where
  "unshadowed verifies st ca n \<longleftrightarrow>
     (case held_certificate st ca n of
        Some d \<Rightarrow> c_revoked d
      | None \<Rightarrow> (case child_ca_for_serial verifies st ca n of None \<Rightarrow> True | Some ch \<Rightarrow> ca_revoked ch))"

lemma spelled_column:
  assumes "spelled st n" "r_serial r = Some n"
    and "r \<in> Cert_Rec ` set (p_certs st) \<union> Ca_Rec ` set (p_cas st) \<union> Serial_Rec ` set (p_serials st)"
  obtains v where "v \<in> serial_variants n" "r_column r = Some v"
  using assms unfolding spelled_def list_all_iff by auto

lemma readable_holds: "resolve_record_serial crt col = Some n \<Longrightarrow> record_holds_serial crt n \<noteq> Some False"
  by (auto simp: resolve_record_serial_def record_holds_serial_def split: option.splits)

text \<open>The revocation list and the OCSP responder give one answer. Every serial the list of a CA
  must carry is answered revoked by the responder of that CA, when the columns that read as the
  serial spell it in one of the writers' forms and no unrevoked certificate or child CA is stored
  under the same serial.\<close>

theorem crl_and_ocsp_agree:
  assumes "revoked_serial st ca now n" "spelled st n" "unshadowed verifies st ca n"
  shows "\<exists>t f. fst (status_for_serial verifies now' st ca n) = Revoked t f"
proof -
  have own: "ca_refid ca \<in> set (same_key_refids st ca)" by (simp add: same_key_refids_def)
  from assms(1) consider c where "c \<in> set (p_certs st)" "cert_revokes st ca now n c"
    | c where "c \<in> set (p_cas st)" "child_revokes ca now n c"
    | r where "r \<in> set (p_serials st)" "row_revokes st ca now n r"
    unfolding revoked_serial_def list_ex_iff by blast
  then show ?thesis
  proof cases
    case 1
    then have c: "in_refids (c_caref c) (same_key_refids st ca)" "c_revoked c" "r_serial (Cert_Rec c) = Some n"
      by (simp_all add: cert_revokes_def)
    obtain v where v: "v \<in> serial_variants n" "c_serial_number c = Some v"
      using spelled_column[OF assms(2) c(3)] 1(1) by auto
    have "record_holds_serial (c_crt c) n \<noteq> Some False" using c(3) readable_holds by (simp add: r_serial_def)
    from held_certificate_revoked[OF 1(1) c(1,2) v(2,1) this] show ?thesis
      by (auto simp: status_for_serial_def revoked_answer_def)
  next
    case 2
    then have c: "ca_caref c = Some (ca_refid ca)" "r_serial (Ca_Rec c) = Some n" by (simp_all add: child_revokes_def)
    obtain v where v: "v \<in> serial_variants n" "ca_serial_number c = Some v"
      using spelled_column[OF assms(2) c(2)] 2(1) by auto
    have "record_holds_serial (ca_crt c) n \<noteq> Some False" using c(2) readable_holds by (simp add: r_serial_def)
    then have "child_by_column st ca n \<noteq> None"
      using 2(1) c(1) v own unfolding child_by_column_def first_row_None_iff by (auto simp: in_refids_def)
    then have "child_ca_for_serial verifies st ca n \<noteq> None" by (auto simp: child_ca_for_serial_def)
    then show ?thesis
      using assms(3) by (auto simp: unshadowed_def status_for_serial_def revoked_answer_def split: option.splits)
  next
    case 3
    then have r: "rs_caref r \<in> set (same_key_refids st ca)" "r_serial (Serial_Rec r) = Some n"
      by (simp_all add: row_revokes_def)
    obtain v where v: "v \<in> serial_variants n" "rs_serial_number r = v"
      using spelled_column[OF assms(2) r(2)] 3(1) by auto
    show ?thesis
      by (rule persisted_decides[OF 3(1) r(1)]) (use v assms(3) in \<open>auto simp: unshadowed_def\<close>)
  qed
qed

theorem crl_and_ocsp_agree_witness:
  "\<exists>t f. fst (status_for_serial (\<lambda>_ _. None) 40 (demo_pki [demo_cert 7 255 ''ff'' True] []) demo_ca 255) = Revoked t f"
proof (rule crl_and_ocsp_agree)
  let ?st = "demo_pki [demo_cert 7 255 ''ff'' True] []"
  have v: "serial_variants 255 = {''255'', ''ff'', ''FF''}"
    by (simp add: serial_variants_def format_hex_def hex_digits.simps hex_char_table show_int_def show_digits.simps
        char_of_def bit_0)
  show "revoked_serial ?st demo_ca 20 255"
    by (simp add: revoked_serial_def cert_revokes_def in_refids_def same_key_refids_def spki_of_def not_expired_def
        r_serial_def resolve_record_serial_def demo_defs)
  show "spelled ?st 255"
    by (simp add: spelled_def v r_serial_def resolve_record_serial_def demo_defs)
  show "unshadowed (\<lambda>_ _. None) ?st demo_ca 255"
    by (simp add: unshadowed_def held_certificate_def certificates_with_serial_def v first_row_def in_refids_def
        same_key_refids_def spki_of_def record_holds_serial_def demo_defs)
qed

text \<open>A certificate that was revoked, deleted and imported again splits the two: its unlinked
  record keeps the serial on the list while the responder, finding an unrevoked certificate row,
  answers good. (A child CA in the same situation gets its revocation back from the record.)\<close>

theorem reimported_certificate_splits_answers:
  "\<exists>st ca n. revoked_serial st ca 30 n \<and> columns_agree (crl_candidates st ca 30) \<and> spelled st n \<and>
     fst (status_for_serial verifies 30 st ca n) = Good"
proof (intro exI conjI)
  let ?st = "demo_pki [demo_cert 8 255 ''ff'' False] [demo_row 3 ''ff'']"
  have v: "serial_variants 255 = {''255'', ''ff'', ''FF''}"
    by (simp add: serial_variants_def format_hex_def hex_digits.simps hex_char_table show_int_def show_digits.simps
        char_of_def bit_0)
  have read: "serial_to_int (Str_Serial ''ff'') = Some 255" by (simp add: ucm_eval)
  show "revoked_serial ?st demo_ca 30 255"
    using read by (simp add: revoked_serial_def row_revokes_def lifted_def same_key_refids_def spki_of_def
        r_serial_def resolve_record_serial_def column_arg_def demo_defs del: serial_to_int.simps)
  show "columns_agree (crl_candidates ?st demo_ca 30)"
    by (simp add: columns_agree_def crl_candidates_def revoked_certs_of_def revoked_child_cas_def persisted_of_def demo_defs)
  show "spelled ?st 255"
    by (simp add: spelled_def v r_serial_def resolve_record_serial_def demo_defs)
  show "fst (status_for_serial verifies 30 ?st demo_ca 255) = Good"
    by (simp add: status_for_serial_def held_certificate_def certificates_with_serial_def v first_row_def in_refids_def
        same_key_refids_def spki_of_def record_holds_serial_def external_or_def get_external_revocation_def
        get_latest_crl_def crls_of_def demo_defs)
qed

section \<open>The delta list\<close>

text \<open>A revocation recorded after a base list, by the same records the full list reads.\<close>

definition revoked_since :: "pki \<Rightarrow> ca_row \<Rightarrow> datetime \<Rightarrow> datetime \<Rightarrow> int \<Rightarrow> bool" where
  "revoked_since st ca since now n \<longleftrightarrow>
     list_ex (\<lambda>c. cert_revokes st ca now n c \<and> after (c_revoked_at c) since) (p_certs st) \<or>
     list_ex (\<lambda>c. child_revokes ca now n c \<and> after (ca_revoked_at c) since) (p_cas st) \<or>
     list_ex (\<lambda>r. row_revokes st ca now n r \<and> since < rs_revoked_at r) (p_serials st)"

text \<open>A revocation some record dates no later than the base, or does not date.\<close>

definition revoked_before :: "pki \<Rightarrow> ca_row \<Rightarrow> datetime \<Rightarrow> datetime \<Rightarrow> int \<Rightarrow> bool" where
  "revoked_before st ca since now n \<longleftrightarrow>
     list_ex (\<lambda>c. cert_revokes st ca now n c \<and> \<not> after (c_revoked_at c) since) (p_certs st) \<or>
     list_ex (\<lambda>c. child_revokes ca now n c \<and> \<not> after (ca_revoked_at c) since) (p_cas st) \<or>
     list_ex (\<lambda>r. row_revokes st ca now n r \<and> \<not> since < rs_revoked_at r) (p_serials st)"

lemma revoked_serial_split:
  "revoked_serial st ca now n \<longleftrightarrow> revoked_since st ca since now n \<or> revoked_before st ca since now n"
  unfolding revoked_serial_def revoked_since_def revoked_before_def list_ex_iff by blast

definition delta_live :: "pki \<Rightarrow> ca_row \<Rightarrow> datetime \<Rightarrow> datetime \<Rightarrow> revocable list" where
  "delta_live st ca since now =
     map Cert_Rec (filter (\<lambda>c. after (c_revoked_at c) since) (revoked_certs_of st ca now)) @
     map Ca_Rec (filter (\<lambda>c. after (ca_revoked_at c) since) (revoked_child_cas st ca now))"

lemma delta_is_listing:
  "delta_records st ca base now =
     listing st (sort_key r_is_ca (sort_key r_id (delta_live st ca (cl_this_update base) now)))
       (by_date (filter (\<lambda>r. cl_this_update base < rs_revoked_at r) (persisted_of st ca now)))"
  by (simp add: delta_records_def listing_def delta_live_def Let_def)

lemma delta_exact:
  assumes "columns_agree (crl_candidates st ca now)"
  shows "used_serials (delta_records st ca base now) = {n. revoked_since st ca (cl_this_update base) now n}"
proof -
  let ?since = "cl_this_update base"
  let ?live = "sort_key r_is_ca (sort_key r_id (delta_live st ca ?since now))"
  let ?rows = "by_date (filter (\<lambda>r. ?since < rs_revoked_at r) (persisted_of st ca now))"
  have spec: "revoked_since st ca ?since now n \<longleftrightarrow> n \<in> used_serials ?live \<or>
      (\<exists>r \<in> set ?rows. \<not> lifted (p_certs st) r \<and> r_serial (Serial_Rec r) = Some n)" for n
    by (auto simp: revoked_since_def list_ex_iff in_used_serials delta_live_def cert_revokes_def child_revokes_def
        row_revokes_def revoked_certs_of_def revoked_child_cas_def persisted_of_def)
  have "columns_agree (?live @ map Serial_Rec ?rows)"
    by (rule columns_agree_sub[OF assms]) (auto simp: crl_candidates_def delta_live_def)
  then show ?thesis
    using listing_sound listing_complete unfolding delta_is_listing spec by blast
qed

text \<open>C5: The delta list. If no two records of the CA that are spelled alike name different serials
  (a column of digits alone can be read as a decimal or a hexadecimal number), a delta CRL carries,
  each exactly once, the publishable serials whose revocation is recorded after its base list was
  made, and names that base; so every serial a full list would carry now is on the delta or is
  recorded no later than the base.\<close>

theorem delta_crl_is_the_new_revocations:
  assumes "generate_delta_crl loads signs now i h st = (Inr row, st')" "get_ca st i = Some ca"
    and "get_latest_crl st i = Some base" "columns_agree (crl_candidates st ca now)"
  shows "distinct (map e_serial (cl_entries row)) \<and> cl_base_number row = Some (cl_number base) \<and>
    set (map e_serial (cl_entries row)) = {n. publishable n \<and> revoked_since st ca (cl_this_update base) now n} \<and>
    (\<forall>n. publishable n \<longrightarrow> revoked_serial st ca now n \<longrightarrow>
       n \<in> set (map e_serial (cl_entries row)) \<or> revoked_before st ca (cl_this_update base) now n)"
proof -
  have row: "cl_entries row = crl_entries True now (delta_records st ca base now)" "cl_base_number row = Some (cl_number base)"
    using assms(1-3) by (auto simp: generate_delta_crl_def Let_def split: if_splits)
  have entries: "set (map e_serial (cl_entries row)) = {n. publishable n \<and> revoked_since st ca (cl_this_update base) now n}"
    unfolding row crl_entries_serials used_serials_filter delta_exact[OF assms(4)] by simp
  have "distinct (map e_serial (cl_entries row))"
    unfolding row crl_entries_serials delta_is_listing using listing_distinct by simp
  then show ?thesis
    unfolding entries using row(2) revoked_serial_split[of st ca now _ "cl_this_update base"] by auto
qed

theorem delta_crl_is_the_new_revocations_witness:
  "\<exists>base row st'. cl_this_update base = 7 \<and>
     generate_delta_crl (\<lambda>_. True) (\<lambda>_. True) 30 1 24
       ((demo_pki [demo_cert 7 255 ''ff'' True] [demo_row 3 ''4660''])\<lparr>p_crls := [base]\<rparr>) = (Inr row, st') \<and>
     set (map e_serial (cl_entries row)) = {n. publishable n \<and>
       revoked_since ((demo_pki [demo_cert 7 255 ''ff'' True] [demo_row 3 ''4660''])\<lparr>p_crls := [base]\<rparr>) demo_ca 7 30 n}"
proof -
  define base where "base = \<lparr>cl_id = 1, cl_ca_id = 1, cl_number = 4, cl_this_update = 7, cl_next_update = 900,
    cl_entries = [], cl_is_delta = False, cl_base_number = None, cl_is_external = False\<rparr>"
  let ?st = "(demo_pki [demo_cert 7 255 ''ff'' True] [demo_row 3 ''4660''])\<lparr>p_crls := [base]\<rparr>"
  have ca: "get_ca ?st 1 = Some demo_ca" by (simp add: get_ca_def first_row_def demo_defs)
  have latest: "get_latest_crl ?st 1 = Some base" by (simp add: get_latest_crl_def crls_of_def base_def)
  have "\<exists>row st'. generate_delta_crl (\<lambda>_. True) (\<lambda>_. True) 30 1 24 ?st = (Inr row, st')"
    using latest ca by (simp add: generate_delta_crl_def has_private_key_def Let_def) (simp add: demo_defs)
  then obtain row st' where g: "generate_delta_crl (\<lambda>_. True) (\<lambda>_. True) 30 1 24 ?st = (Inr row, st')" by blast
  have agree: "columns_agree (crl_candidates ?st demo_ca 30)"
    by (simp add: columns_agree_def crl_candidates_def revoked_certs_of_def revoked_child_cas_def persisted_of_def
        not_expired_def in_refids_def same_key_refids_def spki_of_def demo_defs)
  have "cl_this_update base = 7" by (simp add: base_def)
  with delta_crl_is_the_new_revocations[OF g ca latest agree] g show ?thesis by auto
qed

section \<open>Where the answers part\<close>

text \<open>Two records of one key: the self-signed one answers requests, the certificate belongs to the
  other.\<close>

definition cross_record :: ca_row where
  "cross_record = quiet_ca\<lparr>ca_id := 2, ca_refid := ''cross'', ca_issuer := Some ''CN=Root''\<rparr>"

definition shared_key_pki :: pki where
  "shared_key_pki = cached_pki\<lparr>p_cas := [quiet_ca, cross_record],
     p_certs := [(demo_cert 7 255 ''ff'' False)\<lparr>c_caref := Some ''cross''\<rparr>]\<rparr>"

text \<open>With two records of one key, revoking a certificate of one leaves the other's cache alone:
  the invalidation names the CA of the certificate's row, the request is answered by the self-signed
  record, and the good answer cached there is served after the revocation.\<close>

theorem shared_key_answer_survives_revocation:
  "\<exists>st' st''. revoke_certificate (\<lambda>_. True) (\<lambda>_. True) (\<lambda>_ _. False) demo_clock demo_clock True True 7
       ''keyCompromise'' None False shared_key_pki = (Inr (), st') \<and>
     revoked_serial st' quiet_ca 40 255 \<and>
     process_ocsp_request (v_verifies demo_env) demo_lib (v_digest demo_env) (v_key_bits demo_env) 40
       (Some demo_request) st' = (Answers [(255, Good)], st'')"
proof -
  have forms: "cache_key_forms (Str_Serial ''ff'') ''ff'' = {''ff''}" "serial_to_hex (Str_Serial ''ff'') = ''ff''"
    by (simp_all add: ucm_eval hex_digits.simps)
  have key: "cache_key 255 ''sha256'' = ''ff:sha256''"
    by (simp add: cache_key_def format_hex_def hex_digits.simps hex_char_table)
  define st' where "st' = shared_key_pki\<lparr>p_certs := [(demo_cert 7 255 ''ff'' False)\<lparr>c_caref := Some ''cross'',
        c_revoked := True, c_revoked_at := Some 20, c_revoke_reason := Some ''keyCompromise''\<rparr>],
      p_serials := [\<lparr>rs_id = 1, rs_caref = ''cross'', rs_serial_number = ''ff'', rs_revoked_at = 20,
        rs_revoke_reason = Some ''keyCompromise'', rs_invalidity_at = None, rs_valid_to = 900,
        rs_certificate_id = Some 7\<rparr>]\<rparr>"
  have rev: "revoke_certificate (\<lambda>_. True) (\<lambda>_. True) (\<lambda>_ _. False) demo_clock demo_clock True True 7
       ''keyCompromise'' None False shared_key_pki = (Inr (), st')"
    by (simp add: revoke_certificate_def revoke_one_def stage_revocation_def publish_revocation_def
        hand_over_link_def mutual_partner_def issuing_record_def ca_by_refid_def get_cert_def first_row_def
        update_rows_def upsert_revocation_def next_id_def responder_cas_for_certificate_def
        invalidate_cached_responses_def key_matches_def starts_with_def column_arg_def forms
        st'_def shared_key_pki_def cross_record_def cached_pki_def quiet_ca_def demo_defs demo_clock_def
        List.map_filter_def Let_def del: serial_to_hex.simps)
  have find: "find_ca_by_issuer_hash (v_verifies demo_env) (v_digest demo_env) (v_key_bits demo_env) st' demo_item = Some quiet_ca"
    by (simp add: find_ca_by_issuer_hash_def self_signed_first_def is_self_signed_record_def is_self_signed_def
        first_row_def st'_def shared_key_pki_def cross_record_def cached_pki_def quiet_ca_def
        demo_defs demo_env_def demo_item_def)
  have listed: "revoked_serial st' quiet_ca 40 255"
    by (simp add: revoked_serial_def cert_revokes_def in_refids_def same_key_refids_def spki_of_def not_expired_def
        r_serial_def resolve_record_serial_def st'_def shared_key_pki_def cross_record_def cached_pki_def quiet_ca_def demo_defs)
  have hit: "get_cached_response 40 st' (ca_id quiet_ca) 255 ''sha256'' = Some Good"
    by (simp add: get_cached_response_def key first_row_def st'_def shared_key_pki_def cached_pki_def quiet_ca_def demo_defs)
  have facts: "q_serial demo_item = 255" "q_algo demo_item = ''sha256''" "ca_ocsp_enabled quiet_ca"
    by (simp_all add: demo_item_def quiet_ca_def demo_ca_def)
  have "process_ocsp_request (v_verifies demo_env) demo_lib (v_digest demo_env) (v_key_bits demo_env) 40
       (Some demo_request) st' = (Answers [(255, Good)], st')"
    by (simp add: process_ocsp_request_def demo_request_def find hit facts)
  then show ?thesis using rev listed by blast
qed

text \<open>A response computed while a revocation commits. The responder decides the status and
  stores the response in two steps; when a revocation commits and clears the cache between them, the
  good answer is stored afterwards and served until it expires.\<close>

theorem answer_cached_across_revocation:
  "\<exists>st st1 st2. status_for_serial (v_verifies demo_env) 15 st quiet_ca 255 = (Good, st) \<and>
     revoke_certificate (\<lambda>_. True) (\<lambda>_. True) (\<lambda>_ _. False) demo_clock demo_clock True True 7
       ''keyCompromise'' None False st = (Inr (), st1) \<and>
     st2 = cache_response (ca_id quiet_ca) (cache_key 255 ''sha256'') Good (15 + hours (response_validity_hours st)) st1 \<and>
     process_ocsp_request (v_verifies demo_env) demo_lib (v_digest demo_env) (v_key_bits demo_env) 3600000000
       (Some demo_request) st2 = (Answers [(255, Good)], st2)"
proof -
  have v: "serial_variants 255 = {''255'', ''ff'', ''FF''}"
    by (simp add: serial_variants_def format_hex_def hex_digits.simps hex_char_table show_int_def show_digits.simps
        char_of_def bit_0)
  have key: "cache_key 255 ''sha256'' = ''ff:sha256''"
    by (simp add: cache_key_def format_hex_def hex_digits.simps hex_char_table)
  have good: "status_for_serial (v_verifies demo_env) 15 cached_pki quiet_ca 255 = (Good, cached_pki)"
    by (simp add: status_for_serial_def held_certificate_def certificates_with_serial_def v first_row_def in_refids_def
        same_key_refids_def spki_of_def record_holds_serial_def external_or_def get_external_revocation_def
        get_latest_crl_def crls_of_def cached_pki_def quiet_ca_def demo_defs)
  obtain st1 where rev: "revoke_certificate (\<lambda>_. True) (\<lambda>_. True) (\<lambda>_ _. False) demo_clock demo_clock True True 7
       ''keyCompromise'' None False cached_pki = (Inr (), st1)"
    and st1: "p_cache st1 = []" "p_cas st1 = [quiet_ca]"
    using cached_pki_revoked by (auto simp: cached_pki_def)
  have h: "response_validity_hours cached_pki = 24" by (simp add: response_validity_hours_def cached_pki_def demo_defs ucm_eval)
  define st2 where "st2 = cache_response (ca_id quiet_ca) (cache_key 255 ''sha256'') Good
    (15 + hours (response_validity_hours cached_pki)) st1"
  have find: "find_ca_by_issuer_hash (v_verifies demo_env) (v_digest demo_env) (v_key_bits demo_env) st2 demo_item = Some quiet_ca"
    by (simp add: st2_def cache_response_def first_row_def st1 find_ca_by_issuer_hash_def self_signed_first_def)
      (simp add: quiet_ca_def demo_defs demo_env_def demo_item_def)
  have hit: "get_cached_response 3600000000 st2 (ca_id quiet_ca) 255 ''sha256'' = Some Good"
    by (simp add: st2_def cache_response_def first_row_def st1 get_cached_response_def key h)
  have facts: "q_serial demo_item = 255" "q_algo demo_item = ''sha256''" "ca_ocsp_enabled quiet_ca"
    by (simp_all add: demo_item_def quiet_ca_def demo_ca_def)
  have "process_ocsp_request (v_verifies demo_env) demo_lib (v_digest demo_env) (v_key_bits demo_env) 3600000000
       (Some demo_request) st2 = (Answers [(255, Good)], st2)"
    by (simp add: process_ocsp_request_def demo_request_def find hit facts)
  then show ?thesis using good rev st2_def by blast
qed

section \<open>Renewal\<close>

lemma get_cert_set:
  assumes "get_cert st i = Some c" "\<And>r. c_id (f r) = c_id r"
  shows "get_cert (set_cert i f st) i = Some (f c)"
proof -
  have "first_row (\<lambda>c. c_id c = i) rows = Some c \<Longrightarrow>
      first_row (\<lambda>c. c_id c = i) (update_rows (\<lambda>r. c_id r = i) f rows) = Some (f c)" for rows
    by (induction rows) (auto simp: first_row_def update_rows_def assms(2) split: if_splits)
  then show ?thesis using assms(1) by (simp add: get_cert_def set_cert_def)
qed

text \<open>Renewal in place. After the renewal writes, the row carries the new certificate and is
  not revoked, and the serial its column spelled before belongs to every list of the CA until the
  replaced certificate's own expiry; a concurrent renewal that changed the column first makes the
  writes fail.\<close>

theorem renewal_supersedes_old_serial:
  assumes "get_cert st i = Some c" "c_serial_number c = Some v" "v \<noteq> []"
    and "serial_to_int (Str_Serial v) = Some n" "n \<noteq> x_serial x" "v \<noteq> format_hex False (x_serial x)"
    and "t < listed_until now c"
  shows "stage_renewal now expected ca x i st =
      (if expected = Some v then Some (record_superseded now i ca (Some v) (c_valid_to c) (set_cert i (renewed_row ca x) st))
       else None) \<and>
    (\<forall>st'. stage_renewal now expected ca x i st = Some st' \<longrightarrow>
       revoked_serial st' ca t n \<and>
       (\<exists>d. get_cert st' i = Some d \<and> \<not> c_revoked d \<and> c_crt d = Crt x \<and> r_serial (Cert_Rec d) = Some (x_serial x)))"
proof -
  let ?st' = "record_superseded now i ca (Some v) (c_valid_to c) (set_cert i (renewed_row ca x) st)"
  let ?put_fields = "\<lambda>r. r\<lparr>rs_revoked_at := now, rs_revoke_reason := Some ''superseded'',
      rs_valid_to := listed_until now c, rs_certificate_id := Some i\<rparr>"
  have shape: "stage_renewal now expected ca x i st = (if expected = Some v then Some ?st' else None)"
    using assms(1,2) by (auto simp: stage_renewal_def)
  have get: "get_cert ?st' i = Some (renewed_row ca x c)"
    using get_cert_set[OF assms(1), of "renewed_row ca x"] assms(3)
    by (simp add: record_superseded_def get_cert_def renewed_row_def)
  have serials: "p_serials ?st' = upsert_revocation (ca_refid ca) v ?put_fields (p_serials st)"
    using assms(3) by (simp add: record_superseded_def set_cert_def listed_until_def)
  obtain r where r: "?put_fields r \<in> set (p_serials ?st')" "rs_caref (?put_fields r) = ca_refid ca" "rs_serial_number (?put_fields r) = v"
    using upsert_row[of ?put_fields "ca_refid ca" v "p_serials st"] unfolding serials by auto
  have "\<not> lifted (p_certs ?st') (?put_fields r)"
    using get r(3) assms(4-6)
    by (auto simp: lifted_def get_cert_def renewed_row_def same_serial_def resolve_record_serial_def column_arg_def
        simp del: serial_to_int.simps)
  then have "row_revokes ?st' ca t n (?put_fields r)"
    using r assms(4,7)
    by (simp add: row_revokes_def same_key_refids_def r_serial_def resolve_record_serial_def column_arg_def
        del: serial_to_int.simps)
  then have "revoked_serial ?st' ca t n" using r(1) by (auto simp: revoked_serial_def list_ex_iff)
  then show ?thesis
    using get shape by (auto simp: renewed_row_def r_serial_def resolve_record_serial_def split: if_splits)
qed

theorem renewal_supersedes_old_serial_witness:
  "\<exists>st'. stage_renewal 50 (Some ''ff'') demo_ca (demo_x509 4660) 7 (demo_pki [demo_cert 7 255 ''ff'' False] []) = Some st' \<and>
     revoked_serial st' demo_ca 60 255"
proof -
  let ?st = "demo_pki [demo_cert 7 255 ''ff'' False] []" let ?c = "demo_cert 7 255 ''ff'' False"
  have c: "get_cert ?st 7 = Some ?c" "c_serial_number ?c = Some ''ff''" "''ff'' \<noteq> ([] :: string)"
    by (simp_all add: get_cert_def first_row_def demo_defs)
  have n: "serial_to_int (Str_Serial ''ff'') = Some 255" by (simp add: ucm_eval)
  have x: "255 \<noteq> x_serial (demo_x509 4660)" "(''ff'' :: string) \<noteq> format_hex False (x_serial (demo_x509 4660))"
    by (simp_all add: demo_x509_def format_hex_def hex_digits.simps hex_char_table)
  have t: "60 < listed_until 50 ?c" by (simp add: listed_until_def demo_cert_def)
  show ?thesis using renewal_supersedes_old_serial[OF c n x t, of "Some ''ff''" demo_ca] by auto
qed

end
