(* ===== verification/Cert_Status.thy ===== *)
theory Cert_Status
  imports Prelude
begin

text \<open>
  The status of a certificate row: the buckets of \<^verbatim>\<open>utils/cert_status.py\<close> as the counters
  (\<^verbatim>\<open>api/v2/certificates/stats.py\<close>) and the list (\<^verbatim>\<open>api/v2/certificates/cert_list.py\<close>) use them,
  the status a row prints (\<open>Certificate.to_dict\<close>) and the days it has left
  (\<^verbatim>\<open>utils/days_remaining.py\<close>).

  A nullable column is an option; a condition that compares a NULL selects nothing, so \<open>revoked ==
  False\<close> is \<open>= Some False\<close>. Days are computed on exact numbers; the program divides floats, which
  agree with them for differences below about 270 years.
\<close>

record status_row =
  sr_crt :: "string option"
  sr_csr :: "string option"
  sr_revoked :: "bool option"
  sr_valid_to :: "datetime option"
  sr_archived :: "bool option"
  sr_caref :: "string option"

definition EXPIRY_WINDOW_DAYS :: int where "EXPIRY_WINDOW_DAYS = 30"

definition CERTIFICATE_STATUS_FILTERS :: "string list" where
  "CERTIFICATE_STATUS_FILTERS = [''valid'', ''expiring'', ''expired'', ''revoked'', ''orphan'', ''archived'']"

definition status_step :: "string list \<Rightarrow> string list \<times> string list \<Rightarrow> string \<Rightarrow> string list \<times> string list" where
  "status_step vocabulary acc value =
     (let key = py_lower (py_strip value)
      in case map_of (rev (map (\<lambda>name. (py_lower name, name)) vocabulary)) key of
           Some name \<Rightarrow> (append_new (fst acc) name, snd acc)
         | None \<Rightarrow> (fst acc, snd acc @ [value]))"

definition normalize_status_filters :: "string list \<Rightarrow> string list \<Rightarrow> string list \<times> string list" where
  "normalize_status_filters values vocabulary = foldl (status_step vocabulary) ([], []) values"

definition filled :: "string option \<Rightarrow> bool" where
  "filled column \<longleftrightarrow> column \<noteq> None \<and> column \<noteq> Some []"

definition holds_certificate :: "status_row \<Rightarrow> bool" where
  "holds_certificate r \<longleftrightarrow> filled (sr_crt r)"

definition awaits_certificate :: "status_row \<Rightarrow> bool" where
  "awaits_certificate r \<longleftrightarrow> sr_crt r = None \<or> sr_crt r = Some []"

definition holds_request :: "status_row \<Rightarrow> bool" where
  "holds_request r \<longleftrightarrow> filled (sr_csr r)"

definition pending_requests :: "status_row list \<Rightarrow> status_row list" where
  "pending_requests = filter (\<lambda>r. holds_request r \<and> awaits_certificate r)"

definition signed_requests :: "status_row list \<Rightarrow> status_row list" where
  "signed_requests = filter (\<lambda>r. holds_request r \<and> holds_certificate r)"

definition issued_certificates :: "bool \<Rightarrow> status_row list \<Rightarrow> status_row list" where
  "issued_certificates include_archived rows =
     filter (\<lambda>r. include_archived \<or> sr_archived r = Some False) (filter holds_certificate rows)"

definition revoked_condition :: "status_row \<Rightarrow> bool" where
  "revoked_condition r \<longleftrightarrow> sr_revoked r = Some True"

definition expired_condition :: "datetime \<Rightarrow> status_row \<Rightarrow> bool" where
  "expired_condition now r \<longleftrightarrow>
     sr_revoked r = Some False \<and> (case sr_valid_to r of None \<Rightarrow> False | Some t \<Rightarrow> t \<le> now)"

definition expiring_condition :: "datetime \<Rightarrow> int \<Rightarrow> status_row \<Rightarrow> bool" where
  "expiring_condition now window r \<longleftrightarrow>
     sr_revoked r = Some False \<and>
     (case sr_valid_to r of None \<Rightarrow> False | Some t \<Rightarrow> now < t \<and> t \<le> now + days window)"

definition valid_condition :: "datetime \<Rightarrow> int \<Rightarrow> bool \<Rightarrow> status_row \<Rightarrow> bool" where
  "valid_condition now window exclude_expiring r \<longleftrightarrow>
     sr_revoked r = Some False \<and>
     (case sr_valid_to r of
        None \<Rightarrow> True | Some t \<Rightarrow> (if exclude_expiring then now + days window else now) < t)"

definition orphan_condition :: "string list \<Rightarrow> status_row \<Rightarrow> bool" where
  "orphan_condition known_refs r \<longleftrightarrow> (case sr_caref r of None \<Rightarrow> False | Some c \<Rightarrow> c \<notin> set known_refs)"

record cert_stats =
  s_total :: nat
  s_valid :: nat
  s_expiring :: nat
  s_expired :: nat
  s_revoked :: nat
  s_orphan :: nat

definition get_certificate_stats :: "datetime \<Rightarrow> string list \<Rightarrow> status_row list \<Rightarrow> cert_stats" where
  "get_certificate_stats now known_refs rows =
     (let base = issued_certificates True rows
      in \<lparr>s_total = length base,
          s_valid = count_rows (valid_condition now EXPIRY_WINDOW_DAYS True) base,
          s_expiring = count_rows (expiring_condition now EXPIRY_WINDOW_DAYS) base,
          s_expired = count_rows (expired_condition now) base,
          s_revoked = count_rows revoked_condition base,
          s_orphan = count_rows (orphan_condition known_refs) base\<rparr>)"

definition status_condition :: "datetime \<Rightarrow> string list \<Rightarrow> string \<Rightarrow> status_row \<Rightarrow> bool" where
  "status_condition now known_refs name r =
     (if name = ''revoked'' then revoked_condition r
      else if name = ''valid'' then valid_condition now EXPIRY_WINDOW_DAYS True r
      else if name = ''expired'' then expired_condition now r
      else if name = ''orphan'' then orphan_condition known_refs r
      else if name = ''expiring'' then expiring_condition now EXPIRY_WINDOW_DAYS r
      else if name = ''archived'' then sr_archived r = Some True else False)"

text \<open>The status filter of the list: refused when a value is no status, off without one.\<close>

definition list_by_status ::
    "datetime \<Rightarrow> string list \<Rightarrow> string list \<Rightarrow> status_row list \<Rightarrow> string list + status_row list" where
  "list_by_status now known_refs asked rows =
     (let (names, unknown) = normalize_status_filters asked CERTIFICATE_STATUS_FILTERS
      in if unknown \<noteq> [] then Inl unknown
         else if names = [] then Inr (issued_certificates True rows)
         else Inr (filter (\<lambda>r. list_ex (\<lambda>name. status_condition now known_refs name r) names)
                    (issued_certificates True rows)))"

definition row_status :: "datetime \<Rightarrow> status_row \<Rightarrow> string" where
  "row_status now r =
     (if sr_revoked r = Some True then ''revoked''
      else (case sr_valid_to r of
              None \<Rightarrow> ''valid''
            | Some t \<Rightarrow> if t < now then ''expired'' else if t < now + days 30 then ''expiring'' else ''valid''))"

definition day :: int where "day = 86400000000"

definition days_remaining :: "datetime option \<Rightarrow> datetime \<Rightarrow> int option" where
  "days_remaining valid_to now =
     (case valid_to of
        None \<Rightarrow> None
      | Some t \<Rightarrow> Some (if now < t then - ((now - t) div day) else (t - now) div day))"

definition has_expired :: "datetime option \<Rightarrow> datetime \<Rightarrow> bool" where
  "has_expired valid_to now \<longleftrightarrow>
     (case days_remaining valid_to now of None \<Rightarrow> False | Some left \<Rightarrow> left \<le> 0)"

section \<open>Partition\<close>

lemmas bucket_defs =
  revoked_condition_def expired_condition_def expiring_condition_def valid_condition_def

text \<open>A row whose flag is set one way or the other is in one bucket.\<close>

lemma buckets_partition:
  assumes "sr_revoked r \<noteq> None" "0 \<le> window"
  shows "of_bool (valid_condition now window True r) + of_bool (expiring_condition now window r) +
    of_bool (expired_condition now r) + of_bool (revoked_condition r) = (1 :: nat)"
proof (cases "sr_valid_to r")
  case None
  then show ?thesis using assms(1) by (cases "sr_revoked r") (auto simp: bucket_defs)
next
  case (Some t)
  have "now \<le> now + days window" using assms(2) by simp
  then show ?thesis using assms(1) Some by (cases "sr_revoked r") (auto simp: bucket_defs)
qed

lemma count_rows_Cons: "count_rows p (r # rs) = of_bool (p r) + count_rows p rs"
  by (simp add: count_rows_def)

lemma counters_add_up:
  "list_all (\<lambda>r. sr_revoked r \<noteq> None) rows \<Longrightarrow>
   count_rows (valid_condition now 30 True) rows + count_rows (expiring_condition now 30) rows +
   count_rows (expired_condition now) rows + count_rows revoked_condition rows = length rows"
proof (induction rows)
  case (Cons r rows)
  have "of_bool (valid_condition now 30 True r) + of_bool (expiring_condition now 30 r) +
      of_bool (expired_condition now r) + of_bool (revoked_condition r) = (1 :: nat)"
    using Cons.prems by (intro buckets_partition) simp_all
  then show ?case using Cons by (simp add: count_rows_Cons)
qed (simp add: count_rows_def)

text \<open>The cards of the certificates page. Over rows whose revoked flag is set, the valid, expiring,
  expired and revoked counters add up to the total, and each equals the length of the list the card
  links to, whatever the spelling (case, surrounding space) of the status in the link.\<close>

theorem status_cards_add_up:
  assumes "list_all (\<lambda>r. sr_revoked r \<noteq> None) rows"
  shows "(let s = get_certificate_stats now refs rows
     in s_valid s + s_expiring s + s_expired s + s_revoked s = s_total s \<and>
        map_sum id length (list_by_status now refs ['' Valid''] rows) = Inr (s_valid s) \<and>
        map_sum id length (list_by_status now refs [''expiring''] rows) = Inr (s_expiring s) \<and>
        map_sum id length (list_by_status now refs [''Expired''] rows) = Inr (s_expired s) \<and>
        map_sum id length (list_by_status now refs [''REVOKED''] rows) = Inr (s_revoked s))"
proof -
  let ?base = "issued_certificates True rows"
  have "list_all (\<lambda>r. sr_revoked r \<noteq> None) ?base"
    using assms by (auto simp: issued_certificates_def list_all_iff)
  from counters_add_up[OF this, of now]
  have "s_valid (get_certificate_stats now refs rows) + s_expiring (get_certificate_stats now refs rows) +
      s_expired (get_certificate_stats now refs rows) + s_revoked (get_certificate_stats now refs rows) =
      s_total (get_certificate_stats now refs rows)"
    by (simp add: get_certificate_stats_def Let_def EXPIRY_WINDOW_DAYS_def)
  moreover have names: "normalize_status_filters ['' Valid''] CERTIFICATE_STATUS_FILTERS = ([''valid''], [])"
    "normalize_status_filters [''expiring''] CERTIFICATE_STATUS_FILTERS = ([''expiring''], [])"
    "normalize_status_filters [''Expired''] CERTIFICATE_STATUS_FILTERS = ([''expired''], [])"
    "normalize_status_filters [''REVOKED''] CERTIFICATE_STATUS_FILTERS = ([''revoked''], [])"
    by (simp_all add: normalize_status_filters_def status_step_def CERTIFICATE_STATUS_FILTERS_def ucm_eval)
  ultimately show ?thesis
    by (simp add: list_by_status_def status_condition_def get_certificate_stats_def Let_def count_rows_def)
qed

definition sample_row :: status_row where
  "sample_row = \<lparr>sr_crt = Some ''x'', sr_csr = None, sr_revoked = Some False, sr_valid_to = Some 5,
     sr_archived = None, sr_caref = None\<rparr>"

theorem status_cards_add_up_witness:
  "s_valid (get_certificate_stats 5 [] [sample_row]) + s_expiring (get_certificate_stats 5 [] [sample_row]) +
   s_expired (get_certificate_stats 5 [] [sample_row]) + s_revoked (get_certificate_stats 5 [] [sample_row]) = 1"
proof -
  have "list_all (\<lambda>r. sr_revoked r \<noteq> None) [sample_row]"
    by (simp add: sample_row_def del: not_None_eq)
  moreover have "s_total (get_certificate_stats 5 [] [sample_row]) = 1"
    by (simp add: get_certificate_stats_def Let_def issued_certificates_def holds_certificate_def filled_def sample_row_def)
  ultimately show ?thesis using status_cards_add_up[of "[sample_row]" 5 "[]"] by (simp only: Let_def)
qed

text \<open>The status a row prints and the bucket that selects it agree, except on the two instants
  where the comparisons differ: a certificate expiring exactly now prints \<open>expiring\<close> while the list
  calls it expired, and one expiring in exactly thirty days prints \<open>valid\<close> while the list calls it
  expiring.\<close>

theorem row_status_is_the_bucket:
  assumes "sr_revoked r \<noteq> None"
  shows "status_condition now refs (row_status now r) r \<longleftrightarrow>
    sr_revoked r = Some True \<or> sr_valid_to r \<notin> {Some now, Some (now + days 30)}"
proof (cases "sr_revoked r = Some True")
  case False
  then have "sr_revoked r = Some False" using assms by (cases "sr_revoked r") auto
  then show ?thesis
    by (cases "sr_valid_to r")
      (auto simp: row_status_def status_condition_def bucket_defs EXPIRY_WINDOW_DAYS_def)
qed (simp add: row_status_def status_condition_def bucket_defs)

theorem row_status_is_the_bucket_witness:
  "row_status 5 sample_row = ''expiring'' \<and> \<not> status_condition 5 [] ''expiring'' sample_row"
proof -
  have "row_status 5 sample_row = ''expiring''" by (simp add: row_status_def sample_row_def)
  then show ?thesis
    using row_status_is_the_bucket[of sample_row 5 "[]"] by (simp add: sample_row_def)
qed

text \<open>The days left are zero at the instant of expiry only, and their sign says which side of it
  the instant is.\<close>

lemma days_remaining_sign:
  shows "days_remaining valid_to now = Some 0 \<longleftrightarrow> valid_to = Some now"
    and "has_expired valid_to now \<longleftrightarrow> (case valid_to of None \<Rightarrow> False | Some t \<Rightarrow> t \<le> now)"
proof -
  have neg: "(now - t) div day < 0" if "now < t" for t
    using that by (intro div_neg_pos_less0) (simp_all add: day_def)
  have neg': "(t - now) div day < 0" if "t < now" for t
    using that by (intro div_neg_pos_less0) (simp_all add: day_def)
  show "days_remaining valid_to now = Some 0 \<longleftrightarrow> valid_to = Some now"
  proof (cases valid_to)
    case (Some t)
    consider "now < t" | "t < now" | "t = now" by linarith
    then show ?thesis
      by cases (use Some neg[of t] neg'[of t] in \<open>simp_all add: days_remaining_def\<close>)
  qed (simp add: days_remaining_def)
  show "has_expired valid_to now \<longleftrightarrow> (case valid_to of None \<Rightarrow> False | Some t \<Rightarrow> t \<le> now)"
  proof (cases valid_to)
    case (Some t)
    consider "now < t" | "t < now" | "t = now" by linarith
    then show ?thesis
      by cases (use Some neg[of t] neg'[of t] in \<open>simp_all add: has_expired_def days_remaining_def\<close>)
  qed (simp add: has_expired_def days_remaining_def)
qed

end
