(* ===== verification/Ocsp_Cache.thy ===== *)
theory Ocsp_Cache
  imports Ocsp
begin

text \<open>
  The response cache as a map. Clients of the cache rely on four laws, stated once as a locale: what
  a lookup finds after a response is stored, after the responses for a serial or for a CA are
  dropped, and after expired rows are swept. The table of \<^verbatim>\<open>services/ocsp_service.py\<close> is the
  instance: \<open>cache_view\<close> is what \<open>get_cached_response\<close> can see of it.
\<close>

section \<open>The interface\<close>

text \<open>A store of answers with a time of expiry, seen at one moment \<open>now\<close>; \<open>drop\<close> removes the keys
  its argument names.\<close>

locale answer_store =
  fixes invar :: "'s \<Rightarrow> bool"
    and view :: "'t::linorder \<Rightarrow> 's \<Rightarrow> 'k \<Rightarrow> 'v option"
    and put :: "'k \<Rightarrow> 'v \<Rightarrow> 't \<Rightarrow> 's \<Rightarrow> 's"
    and drop_keys :: "'d \<Rightarrow> 's \<Rightarrow> 's"
    and names :: "'d \<Rightarrow> 'k \<Rightarrow> bool"
    and sweep :: "'t \<Rightarrow> 's \<Rightarrow> 's"
  assumes view_put: "invar s \<Longrightarrow> view now (put k v t s) = (view now s)(k := if t < now then None else Some v)"
    and view_drop: "invar s \<Longrightarrow> view now (drop_keys d s) = (\<lambda>k. if names d k then None else view now s k)"
    and view_sweep: "invar s \<Longrightarrow> u \<le> now \<Longrightarrow> view now (sweep u s) = view now s"
    and invar_put: "invar s \<Longrightarrow> invar (put k v t s)"
    and invar_drop: "invar s \<Longrightarrow> invar (drop_keys d s)"
    and invar_sweep: "invar s \<Longrightarrow> invar (sweep u s)"

datatype ('k, 'v, 't, 'd) store_op = Put 'k 'v 't | Drop 'd | Sweep 't

text \<open>The same operations on the map itself.\<close>

fun spec_op :: "('d \<Rightarrow> 'k \<Rightarrow> bool) \<Rightarrow> 't::linorder \<Rightarrow> ('k, 'v, 't, 'd) store_op \<Rightarrow> ('k \<Rightarrow> 'v option) \<Rightarrow> ('k \<Rightarrow> 'v option)" where
  "spec_op names now (Put k v t) m = m(k := if t < now then None else Some v)"
| "spec_op names now (Drop d) m = (\<lambda>k. if names d k then None else m k)"
| "spec_op names now (Sweep u) m = m"

definition swept_before :: "'t::linorder \<Rightarrow> ('k, 'v, 't, 'd) store_op \<Rightarrow> bool" where
  "swept_before now p = (case p of Sweep u \<Rightarrow> u \<le> now | _ \<Rightarrow> True)"

context answer_store
begin

definition run_op :: "('k, 'v, 't, 'd) store_op \<Rightarrow> 's \<Rightarrow> 's" where
  "run_op p s = (case p of Put k v t \<Rightarrow> put k v t s | Drop d \<Rightarrow> drop_keys d s | Sweep u \<Rightarrow> sweep u s)"

lemma run_op_step:
  assumes "invar s" "swept_before now p"
  shows "view now (run_op p s) = spec_op names now p (view now s)" "invar (run_op p s)"
  using assms
  by (cases p; simp add: run_op_def swept_before_def view_put view_drop view_sweep invar_put invar_drop invar_sweep)+

lemma run_refines:
  assumes "invar s" "list_all (swept_before now) ps"
  shows "view now (fold run_op ps s) = fold (spec_op names now) ps (view now s)" "invar (fold run_op ps s)"
  using assms by (induction ps arbitrary: s) (auto simp: run_op_step)

text \<open>A dropped key stays empty until an answer is stored under it.\<close>

lemma dropped_until_put:
  assumes "invar s" "list_all (swept_before now) ps" "names d k"
    and "list_all (\<lambda>p. case p of Put k' v t \<Rightarrow> k' \<noteq> k | _ \<Rightarrow> True) ps"
  shows "view now (fold run_op ps (drop_keys d s)) k = None"
proof -
  have gone: "fold (spec_op names now) ps m k = None" if "m k = None" for m
    using that assms(4)
    by (induction ps arbitrary: m) (auto split: store_op.splits)
  have "view now (drop_keys d s) k = None" using assms(1,3) by (simp add: view_drop)
  then show ?thesis
    using run_refines(1)[OF invar_drop[OF assms(1)] assms(2)] gone by simp
qed

end

section \<open>The table\<close>

text \<open>A key of the table is the id of a CA and the text \<open>serial:algorithm\<close>. A drop names a serial
  column, with or without a CA, or a CA.\<close>

datatype cache_drop = By_Serial py_serial "int option" | By_Issuer int

definition cache_view :: "datetime \<Rightarrow> pki \<Rightarrow> int \<times> string \<Rightarrow> ocsp_status option" where
  "cache_view now st = (\<lambda>(i, key).
     case first_row (\<lambda>o'. oc_ca_id o' = i \<and> oc_key o' = key) (p_cache st) of
       None \<Rightarrow> None
     | Some o' \<Rightarrow> if oc_next_update o' < now then None else Some (oc_status o'))"

definition cache_put :: "int \<times> string \<Rightarrow> ocsp_status \<Rightarrow> datetime \<Rightarrow> pki \<Rightarrow> pki" where
  "cache_put k s t st = cache_response (fst k) (snd k) s t st"

fun cache_drop_rows :: "cache_drop \<Rightarrow> pki \<Rightarrow> pki" where
  "cache_drop_rows (By_Serial serial ca) st = invalidate_cached_responses serial ca st"
| "cache_drop_rows (By_Issuer i) st = invalidate_ca_cache i st"

fun drop_names :: "cache_drop \<Rightarrow> int \<times> string \<Rightarrow> bool" where
  "drop_names (By_Serial serial ca) (i, key) \<longleftrightarrow>
     serial_to_hex serial \<noteq> [] \<and> (ca = None \<or> ca = Some i) \<and>
     key_matches (cache_key_forms serial (serial_to_hex serial)) key"
| "drop_names (By_Issuer j) (i, key) \<longleftrightarrow> i = j"

definition one_row_per_key :: "pki \<Rightarrow> bool" where
  "one_row_per_key st \<longleftrightarrow> distinct (map (\<lambda>o'. (oc_ca_id o', oc_key o')) (p_cache st))"

lemma first_row_filter:
  assumes "\<And>r. r \<in> set rows \<Longrightarrow> p r \<Longrightarrow> q r"
  shows "first_row p (filter q rows) = first_row p rows"
  using assms by (induction rows) (auto simp: first_row_def)

lemma first_row_filter_none:
  assumes "\<And>r. p r \<Longrightarrow> \<not> q r"
  shows "first_row p (filter q rows) = None"
  using assms by (auto simp: first_row_None_iff)

lemma cache_view_filter:
  assumes "\<And>o'. keep o' = kept (oc_ca_id o', oc_key o')"
  shows "cache_view now (st\<lparr>p_cache := filter keep (p_cache st)\<rparr>) = (\<lambda>k. if kept k then cache_view now st k else None)"
proof
  fix k :: "int \<times> string"
  obtain i key where k: "k = (i, key)" by (cases k)
  show "cache_view now (st\<lparr>p_cache := filter keep (p_cache st)\<rparr>) k = (if kept k then cache_view now st k else None)"
    using first_row_filter[of "p_cache st" "\<lambda>o'. oc_ca_id o' = i \<and> oc_key o' = key" keep]
      first_row_filter_none[of "\<lambda>o'. oc_ca_id o' = i \<and> oc_key o' = key" keep "p_cache st"]
    by (auto simp: k cache_view_def assms)
qed

lemma cache_view_drop: "cache_view now (cache_drop_rows d st) = (\<lambda>k. if drop_names d k then None else cache_view now st k)"
proof (cases d)
  case (By_Serial serial ca)
  let ?forms = "cache_key_forms serial (serial_to_hex serial)"
  show ?thesis
  proof (cases "serial_to_hex serial = []")
    case True
    then show ?thesis
      by (auto simp: By_Serial invalidate_cached_responses_def simp del: serial_to_hex.simps)
  next
    case False
    have "cache_drop_rows d st = st\<lparr>p_cache := filter (\<lambda>o'. \<not> ((ca = None \<or> ca = Some (oc_ca_id o')) \<and>
        key_matches ?forms (oc_key o'))) (p_cache st)\<rparr>"
      using False by (simp add: By_Serial invalidate_cached_responses_def Let_def del: serial_to_hex.simps)
    then show ?thesis
      using cache_view_filter[of "\<lambda>o'. \<not> ((ca = None \<or> ca = Some (oc_ca_id o')) \<and> key_matches ?forms (oc_key o'))"
          "\<lambda>k. \<not> drop_names d k" now st] False
      by (fastforce simp: By_Serial simp del: serial_to_hex.simps)
  qed
next
  case (By_Issuer j)
  show ?thesis
    using cache_view_filter[of "\<lambda>o'. oc_ca_id o' \<noteq> j" "\<lambda>k. \<not> drop_names d k" now st]
    by (fastforce simp: By_Issuer invalidate_ca_cache_def)
qed

lemma cache_view_put: "cache_view now (cache_put k v t st) = (cache_view now st)(k := if t < now then None else Some v)"
proof
  fix x :: "int \<times> string"
  obtain i key where k: "k = (i, key)" by (cases k)
  obtain j other where x: "x = (j, other)" by (cases x)
  let ?fresh = "\<lparr>oc_ca_id = i, oc_key = key, oc_status = v, oc_next_update = t\<rparr>"
  let ?p = "\<lambda>o'. oc_ca_id o' = i \<and> oc_key o' = key"
  have own: "first_row ?p (update_rows ?p (\<lambda>_. ?fresh) rows) = map_option (\<lambda>_. ?fresh) (first_row ?p rows)" for rows
    by (induction rows) (auto simp: first_row_def update_rows_def)
  have foreign: "first_row (\<lambda>o'. oc_ca_id o' = j \<and> oc_key o' = other) (update_rows ?p (\<lambda>_. ?fresh) rows)
      = first_row (\<lambda>o'. oc_ca_id o' = j \<and> oc_key o' = other) rows" if "x \<noteq> k" for rows
    using that by (induction rows) (auto simp: first_row_def update_rows_def k x)
  show "cache_view now (cache_put k v t st) x = ((cache_view now st)(k := if t < now then None else Some v)) x"
  proof (cases "first_row ?p (p_cache st)")
    case None
    then have "cache_put k v t st = st\<lparr>p_cache := p_cache st @ [?fresh]\<rparr>"
      by (simp add: cache_put_def cache_response_def k Let_def)
    moreover have "first_row q [?fresh] = (if q ?fresh then Some ?fresh else None)" for q
      by (simp add: first_row_def)
    ultimately show ?thesis
      using None
      by (cases "x = k"; cases "first_row (\<lambda>o'. oc_ca_id o' = j \<and> oc_key o' = other) (p_cache st)")
        (auto simp: cache_view_def k x first_row_append)
  next
    case (Some r)
    then have "cache_put k v t st = st\<lparr>p_cache := update_rows ?p (\<lambda>_. ?fresh) (p_cache st)\<rparr>"
      by (simp add: cache_put_def cache_response_def k Let_def)
    then show ?thesis
      using Some own[of "p_cache st"] foreign[of "p_cache st"]
      by (cases "x = k") (auto simp: cache_view_def k x)
  qed
qed

lemma cache_view_sweep:
  assumes "one_row_per_key st" "u \<le> now"
  shows "cache_view now (cleanup_expired_responses u st) = cache_view now st"
proof
  fix k :: "int \<times> string"
  obtain i key where k: "k = (i, key)" by (cases k)
  let ?p = "\<lambda>o'. oc_ca_id o' = i \<and> oc_key o' = key"
  let ?rows = "p_cache st"
  have swept: "first_row ?p (filter (\<lambda>o'. \<not> oc_next_update o' < u) ?rows) =
      (case first_row ?p ?rows of None \<Rightarrow> None | Some r \<Rightarrow> if oc_next_update r < u then None else Some r)"
    using assms(1) unfolding one_row_per_key_def
  proof (induction "?rows" arbitrary: st)
    case (Cons a rows)
    have IH: "first_row ?p (filter (\<lambda>o'. \<not> oc_next_update o' < u) rows) =
        (case first_row ?p rows of None \<Rightarrow> None | Some r \<Rightarrow> if oc_next_update r < u then None else Some r)"
      using Cons.hyps(1)[of "st\<lparr>p_cache := rows\<rparr>"] Cons.hyps(2) Cons.prems by (cases "p_cache st") auto
    have none: "first_row ?p (filter (\<lambda>o'. \<not> oc_next_update o' < u) rows) = None" if "?p a"
    proof -
      have "(oc_ca_id a, oc_key a) \<notin> (\<lambda>o'. (oc_ca_id o', oc_key o')) ` set rows"
        using Cons.hyps(2)[symmetric] Cons.prems by simp
      then show ?thesis using that by (auto simp: first_row_None_iff image_iff)
    qed
    show ?case
      using IH none Cons.hyps(2)[symmetric] by (auto simp: first_row_def)
  qed (simp add: first_row_def)
  then show "cache_view now (cleanup_expired_responses u st) k = cache_view now st k"
    using assms(2) by (auto simp: k cache_view_def cleanup_expired_responses_def split: option.splits)
qed

lemma one_row_filter: "one_row_per_key st \<Longrightarrow> one_row_per_key (st\<lparr>p_cache := filter q (p_cache st)\<rparr>)"
  by (simp add: one_row_per_key_def distinct_map_filter)

lemma one_row_put:
  assumes "one_row_per_key st"
  shows "one_row_per_key (cache_put k v t st)"
proof -
  obtain i key where k: "k = (i, key)" by (cases k)
  let ?p = "\<lambda>o'. oc_ca_id o' = i \<and> oc_key o' = key"
  let ?fresh = "\<lparr>oc_ca_id = i, oc_key = key, oc_status = v, oc_next_update = t\<rparr>"
  have keys: "map (\<lambda>o'. (oc_ca_id o', oc_key o')) (update_rows ?p (\<lambda>_. ?fresh) rows)
      = map (\<lambda>o'. (oc_ca_id o', oc_key o')) rows" for rows
    by (induction rows) (auto simp: update_rows_def)
  show ?thesis
  proof (cases "first_row ?p (p_cache st)")
    case None
    then have "cache_put k v t st = st\<lparr>p_cache := p_cache st @ [?fresh]\<rparr>"
      by (simp add: cache_put_def cache_response_def k Let_def)
    then show ?thesis
      using assms None by (auto simp: one_row_per_key_def first_row_None_iff)
  next
    case (Some r)
    then have "cache_put k v t st = st\<lparr>p_cache := update_rows ?p (\<lambda>_. ?fresh) (p_cache st)\<rparr>"
      by (simp add: cache_put_def cache_response_def k Let_def)
    then show ?thesis using assms keys by (simp add: one_row_per_key_def)
  qed
qed

lemma one_row_drop: "one_row_per_key st \<Longrightarrow> one_row_per_key (cache_drop_rows d st)"
  by (cases d) (auto simp: invalidate_cached_responses_def invalidate_ca_cache_def Let_def one_row_filter
      simp del: serial_to_hex.simps)

interpretation responses: answer_store one_row_per_key cache_view cache_put cache_drop_rows drop_names cleanup_expired_responses
proof unfold_locales
  show "one_row_per_key st \<Longrightarrow> one_row_per_key (cleanup_expired_responses u st)" for st u
    by (simp add: cleanup_expired_responses_def one_row_filter)
qed (rule cache_view_put cache_view_drop cache_view_sweep one_row_put one_row_drop; assumption)+

section \<open>What the responder can serve from it\<close>

type_synonym cache_op = "(int \<times> string, ocsp_status, datetime, cache_drop) store_op"

fun cache_exec :: "cache_op \<Rightarrow> pki \<Rightarrow> pki" where
  "cache_exec (Put k s t) st = cache_response (fst k) (snd k) s t st"
| "cache_exec (Drop d) st = cache_drop_rows d st"
| "cache_exec (Sweep u) st = cleanup_expired_responses u st"

lemma cache_exec_run: "cache_exec = responses.run_op"
proof (intro ext)
  show "cache_exec p st = responses.run_op p st" for p st
    by (cases p) (simp_all add: responses.run_op_def cache_put_def)
qed

text \<open>C35: The cache is a map. Take any table with one row per CA and key, and any sequence of storing
  responses, dropping those of a serial in any spelling or those of a CA, and sweeping expired rows
  (sweeps no later than the lookup). What \<open>get_cached_response\<close> then finds for a CA, a serial and
  a hash algorithm is what the same sequence leaves in a plain map under that key: the last response
  stored there, if it was not dropped since and has not expired.\<close>

theorem cache_refines_map:
  assumes "one_row_per_key st" "list_all (swept_before now) ops"
  shows "get_cached_response now (fold cache_exec ops st) i n algo =
     fold (spec_op drop_names now) ops (cache_view now st) (i, cache_key n algo)"
proof -
  have "get_cached_response now st' i n algo = cache_view now st' (i, cache_key n algo)" for st'
    by (simp add: get_cached_response_def cache_view_def)
  then show ?thesis
    using responses.run_refines(1)[OF assms] by (simp add: cache_exec_run)
qed

definition empty_pki :: pki where
  "empty_pki = \<lparr>p_cas = [], p_certs = [], p_serials = [], p_cross = [], p_crls = [], p_cache = [], p_config = []\<rparr>"

theorem cache_refines_map_witness:
  "get_cached_response 5 (fold cache_exec [Put (1, cache_key 7 ''sha1'') Good 9, Drop (By_Issuer 2), Sweep 4]
     empty_pki) 1 7 ''sha1'' = Some Good"
proof -
  have "one_row_per_key empty_pki" by (simp add: one_row_per_key_def empty_pki_def)
  then show ?thesis
    using cache_refines_map[of empty_pki 5
        "[Put (1, cache_key 7 ''sha1'') Good 9, Drop (By_Issuer 2), Sweep 4]" 1 7 "''sha1''"]
    by (simp add: swept_before_def)
qed

end
