(* ===== verification/Crl_Schedule.thy ===== *)
theory Crl_Schedule
  imports Crl_Content
begin

text \<open>
  The scheduled publication of lists (\<^verbatim>\<open>services/crl_scheduler_task.py\<close>), the two properties of a
  list it reads (\<^verbatim>\<open>models/crl.py\<close>) and the routes that set the schedule (\<^verbatim>\<open>api/v2/crl.py\<close>).

  The clock is a function from the number of the reading to the time. Rows are added at the end of
  the table when they are created, so the row created last is the last one of the table. An age in hours
  is compared exactly, where the code divides floating point numbers.
\<close>

section \<open>Lists (models/crl.py)\<close>

definition is_stale :: "datetime \<Rightarrow> crl_row \<Rightarrow> bool" where
  "is_stale now r \<longleftrightarrow> cl_next_update r < now"

definition days_until_expiry :: "datetime \<Rightarrow> crl_row \<Rightarrow> int" where
  "days_until_expiry now r = max 0 ((cl_next_update r - now) div days 1)"

section \<open>The decision\<close>

definition REGENERATION_THRESHOLD_HOURS :: int where "REGENERATION_THRESHOLD_HOURS = 24"

definition latest_created :: "pki \<Rightarrow> int \<Rightarrow> crl_row option" where
  "latest_created st i =
     (case filter (\<lambda>r. cl_ca_id r = i \<and> \<not> cl_is_delta r) (p_crls st) of [] \<Rightarrow> None | rs \<Rightarrow> Some (last rs))"

datatype schedule_reason =
    Sched_Not_Found | Sched_No_Key | Sched_Awaiting | Sched_No_List | Sched_Stale | Sched_Interval | Sched_Near_Expiry

definition interval_reached :: "datetime \<Rightarrow> int option \<Rightarrow> crl_row \<Rightarrow> bool" where
  "interval_reached now interval r =
     (case interval of None \<Rightarrow> False | Some h \<Rightarrow> h \<noteq> 0 \<and> hours h \<le> now - cl_this_update r)"

text \<open>\<open>t1\<close>, \<open>t2\<close>, \<open>t3\<close> are the readings of the clock for staleness, age and expiry.\<close>

definition should_regenerate_crl ::
    "datetime \<Rightarrow> datetime \<Rightarrow> datetime \<Rightarrow> int \<Rightarrow> pki \<Rightarrow> bool \<times> schedule_reason option" where
  "should_regenerate_crl t1 t2 t3 i st =
     (case get_ca st i of
        None \<Rightarrow> (False, Some Sched_Not_Found)
      | Some ca \<Rightarrow>
          if \<not> has_private_key ca then (False, Some Sched_No_Key)
          else if ca_crt ca = No_Crt then (False, Some Sched_Awaiting)
          else (case latest_created st i of
                  None \<Rightarrow> (True, Some Sched_No_List)
                | Some r \<Rightarrow>
                    if is_stale t1 r then (True, Some Sched_Stale)
                    else if interval_reached t2 (ca_crl_publish_interval_hours ca) r then (True, Some Sched_Interval)
                    else if days_until_expiry t3 r * 24 \<le> REGENERATION_THRESHOLD_HOURS
                    then (True, Some Sched_Near_Expiry)
                    else (False, None)))"

section \<open>A run\<close>

record sched_lib =
  sl_loads :: "ca_row \<Rightarrow> bool"
  sl_signs :: "ca_row \<Rightarrow> bool"
  sl_refs :: "x509 \<Rightarrow> x509 \<Rightarrow> bool"
  sl_clock :: "nat \<Rightarrow> datetime"

text \<open>An error of \<open>generate_crl\<close> is caught; the housekeeping it has committed stays.\<close>

definition regenerate_crl :: "sched_lib \<Rightarrow> nat \<Rightarrow> int \<Rightarrow> pki \<Rightarrow> bool \<times> pki" where
  "regenerate_crl lib k i st =
     (case get_ca st i of
        None \<Rightarrow> (False, st)
      | Some _ \<Rightarrow>
          (case generate_crl (sl_loads lib) (sl_signs lib) (sl_refs lib) (sl_clock lib k) (sl_clock lib (k + 1))
                  (sl_clock lib (k + 2)) i None st of
             (Inl _, st') \<Rightarrow> (False, st')
           | (Inr _, st') \<Rightarrow> (True, st')))"

definition schedulable :: "ca_row \<Rightarrow> bool" where
  "schedulable ca \<longleftrightarrow> ca_cdp_enabled ca \<and> has_private_key ca \<and> ca_crt ca \<noteq> No_Crt \<and> \<not> ca_offline ca"

fun schedule_full :: "sched_lib \<Rightarrow> nat \<Rightarrow> int list \<Rightarrow> pki \<Rightarrow> pki" where
  "schedule_full lib k [] st = st"
| "schedule_full lib k (i # is) st =
     schedule_full lib (k + 6) is
       (if fst (should_regenerate_crl (sl_clock lib k) (sl_clock lib (k + 1)) (sl_clock lib (k + 2)) i st)
        then snd (regenerate_crl lib (k + 3) i st) else st)"

definition need_delta :: "datetime \<Rightarrow> datetime \<Rightarrow> int \<Rightarrow> int \<Rightarrow> pki \<Rightarrow> bool" where
  "need_delta t1 t2 interval_hours i st =
     (case get_latest_delta_crl st i of
        None \<Rightarrow> get_latest_crl st i \<noteq> None
      | Some r \<Rightarrow> is_stale t1 r \<or> hours interval_hours \<le> t2 - cl_this_update r)"

definition delta_interval :: "ca_row \<Rightarrow> int" where
  "delta_interval ca = (case ca_delta_crl_interval ca of None \<Rightarrow> 4 | Some h \<Rightarrow> if h = 0 then 4 else h)"

fun schedule_delta :: "sched_lib \<Rightarrow> nat \<Rightarrow> ca_row list \<Rightarrow> pki \<Rightarrow> pki" where
  "schedule_delta lib k [] st = st"
| "schedule_delta lib k (ca # cas) st =
     schedule_delta lib (k + 3) cas
       (if need_delta (sl_clock lib k) (sl_clock lib (k + 1)) (delta_interval ca) (ca_id ca) st
        then snd (generate_delta_crl (sl_loads lib) (sl_signs lib) (sl_clock lib (k + 2)) (ca_id ca)
                    (delta_interval ca * 2) st)
        else st)"

definition execute :: "sched_lib \<Rightarrow> pki \<Rightarrow> pki" where
  "execute lib st =
     (let cas = filter schedulable (p_cas st)
      in if cas = [] then st
         else let st1 = schedule_full lib 0 (map ca_id cas) st
              in schedule_delta lib (6 * length cas)
                   (filter (\<lambda>ca. schedulable ca \<and> ca_delta_crl_enabled ca) (p_cas st1)) st1)"

section \<open>Setting the schedule (api/v2/crl.py)\<close>

text \<open>\<open>int(value)\<close> of a decoded value; a number that is not an integer is given by the parameter.\<close>

fun json_to_int :: "int \<Rightarrow> json \<Rightarrow> int option" where
  "json_to_int fl (JInt n) = Some n"
| "json_to_int fl (JBool b) = Some (if b then 1 else 0)"
| "json_to_int fl JFloat = Some fl"
| "json_to_int fl (JStr s) = py_int 10 s"
| "json_to_int fl _ = None"

text \<open>The body of a request is a list of members; an absent one leaves the column.\<close>

definition set_validity :: "int \<Rightarrow> (string \<times> json) list \<Rightarrow> ca_row \<Rightarrow> ca_row option" where
  "set_validity fl data ca =
     (case map_of data ''validity_days'' of
        None \<Rightarrow> Some ca
      | Some v \<Rightarrow>
          (case json_to_int fl v of
             None \<Rightarrow> None
           | Some n \<Rightarrow> if n < 1 \<or> 1825 < n then None else Some (ca\<lparr>ca_crl_validity_days := Some n\<rparr>)))"

definition set_interval :: "int \<Rightarrow> (string \<times> json) list \<Rightarrow> ca_row \<Rightarrow> ca_row option" where
  "set_interval fl data ca =
     (case map_of data ''publish_interval_hours'' of
        None \<Rightarrow> Some ca
      | Some v \<Rightarrow>
          if v \<in> {JNull, JStr [], JInt 0, JBool False} then Some (ca\<lparr>ca_crl_publish_interval_hours := None\<rparr>)
          else (case json_to_int fl v of
                  None \<Rightarrow> None
                | Some n \<Rightarrow> if n < 1 \<or> 8760 < n then None else Some (ca\<lparr>ca_crl_publish_interval_hours := Some n\<rparr>)))"

definition interval_exceeds :: "ca_row \<Rightarrow> bool" where
  "interval_exceeds ca =
     (case ca_crl_publish_interval_hours ca of
        None \<Rightarrow> False | Some h \<Rightarrow> h \<noteq> 0 \<and> crl_validity None ca * 24 < h)"

text \<open>Nothing is saved when a value is refused; whether the digest of the request is accepted is a
  parameter.\<close>

definition configure_crl :: "int \<Rightarrow> bool \<Rightarrow> (string \<times> json) list \<Rightarrow> ca_row \<Rightarrow> ca_row option" where
  "configure_crl fl digest_ok data ca =
     (case set_validity fl data ca of
        None \<Rightarrow> None
      | Some ca1 \<Rightarrow>
          (case set_interval fl data ca1 of
             None \<Rightarrow> None
           | Some ca2 \<Rightarrow> if \<not> digest_ok \<or> interval_exceeds ca2 then None else Some ca2))"

definition configure_delta_crl :: "int \<Rightarrow> (string \<times> json) list \<Rightarrow> ca_row \<Rightarrow> ca_row option" where
  "configure_delta_crl fl data ca =
     (let ca1 = (case map_of data ''enabled'' of None \<Rightarrow> ca | Some v \<Rightarrow> ca\<lparr>ca_delta_crl_enabled := json_truthy v\<rparr>)
      in case map_of data ''interval'' of
           None \<Rightarrow> Some ca1
         | Some v \<Rightarrow>
             (case json_to_int fl v of
                None \<Rightarrow> None
              | Some n \<Rightarrow> if n < 1 \<or> 168 < n then None else Some (ca1\<lparr>ca_delta_crl_interval := Some n\<rparr>)))"

section \<open>When a list is renewed\<close>

text \<open>Days are rounded down, so the test against twenty-four hours holds from two days before expiry.\<close>

lemma near_expiry_is_two_days: "days_until_expiry now r * 24 \<le> REGENERATION_THRESHOLD_HOURS \<longleftrightarrow> cl_next_update r - now < days 2"
proof -
  have "x div 86400000000 \<le> 1 \<longleftrightarrow> x < 172800000000" for x :: int
    using div_mult_mod_eq[of x 86400000000] pos_mod_bound[of 86400000000 x] pos_mod_sign[of 86400000000 x] by linarith
  then show ?thesis
    by (simp add: days_until_expiry_def REGENERATION_THRESHOLD_HOURS_def)
qed

text \<open>A list valid for one day is due as soon as it is signed.\<close>

lemma one_day_list_always_due:
  assumes "get_ca st i = Some ca" "has_private_key ca" "ca_crt ca \<noteq> No_Crt" "latest_created st i = Some r"
    and "cl_next_update r = cl_this_update r + days 1" "cl_this_update r \<le> t3"
  shows "fst (should_regenerate_crl t1 t2 t3 i st)"
proof -
  have "cl_next_update r - t3 < days 2" using assms(5,6) by simp
  then show ?thesis
    using assms near_expiry_is_two_days[of t3 r] by (simp add: should_regenerate_crl_def)
qed

section \<open>After a run every CA has a fresh list\<close>

definition fresh :: "datetime \<Rightarrow> pki \<Rightarrow> int \<Rightarrow> bool" where
  "fresh t st i \<longleftrightarrow> (\<exists>r. latest_created st i = Some r \<and> t + days 1 \<le> cl_next_update r)"

lemma latest_created_append:
  assumes "p_crls st' = p_crls st @ [row]"
  shows "latest_created st' i = (if cl_ca_id row = i \<and> \<not> cl_is_delta row then Some row else latest_created st i)"
  by (cases "filter (\<lambda>r. cl_ca_id r = i \<and> \<not> cl_is_delta r) (p_crls st)") (auto simp: latest_created_def assms)

lemma housekeeping_cas [simp]: "p_cas (run_housekeeping refs i t st) = p_cas st"
proof -
  have "p_cas (foldl (\<lambda>s j. snd (delete_certificate refs t j s)) s js) = p_cas s" for s js
    by (induction js arbitrary: s) (simp_all add: delete_certificate_simps)
  then have e: "p_cas (purge_expired_revoked_certificates refs i t s) = p_cas s" for s
    by (cases "get_ca s i") (simp_all add: purge_expired_revoked_certificates_def)
  have "p_cas (purge_stale_revoked_serials i t s) = p_cas s" for s
    by (cases "get_ca s i") (simp_all add: purge_stale_revoked_serials_def)
  then show ?thesis by (simp add: run_housekeeping_def Let_def e)
qed

text \<open>A full list adds one row, dated now, or none; it adds one when nothing stands against the signature.\<close>

lemma generate_crl_adds:
  assumes "generate_crl loads signs refs tp tq now i None st = (res, st')"
  shows "p_cas st' = p_cas st"
    and "p_crls st' = p_crls st \<or>
      (\<exists>row ca. p_crls st' = p_crls st @ [row] \<and> cl_ca_id row = i \<and> \<not> cl_is_delta row \<and>
         get_ca st i = Some ca \<and> cl_next_update row = now + days (crl_validity None ca))"
  using assms
  by (cases "get_ca st i"; auto simp: generate_crl_def store_crl_def Let_def split: if_splits)+

definition can_publish :: "sched_lib \<Rightarrow> ca_row \<Rightarrow> bool" where
  "can_publish lib ca \<longleftrightarrow> schedulable ca \<and> load_crt (ca_crt ca) \<noteq> None \<and> sl_loads lib ca \<and> sl_signs lib ca"

lemma generate_crl_succeeds:
  assumes "get_ca st i = Some ca" "can_publish lib ca"
    and "generate_crl (sl_loads lib) (sl_signs lib) refs tp tq now i None st = (res, st')"
  shows "\<exists>row. p_crls st' = p_crls st @ [row] \<and> cl_ca_id row = i \<and> \<not> cl_is_delta row \<and>
      cl_next_update row = now + days (crl_validity None ca)"
  using assms by (auto simp: generate_crl_def store_crl_def Let_def can_publish_def schedulable_def split: if_splits)

lemma snd_regenerate:
  assumes "generate_crl (sl_loads lib) (sl_signs lib) (sl_refs lib) (sl_clock lib k) (sl_clock lib (k + 1))
      (sl_clock lib (k + 2)) i None st = (res, st')"
  shows "snd (regenerate_crl lib k i st) = (if get_ca st i = None then st else st')"
  using assms by (cases "get_ca st i"; cases res) (simp_all add: regenerate_crl_def)

lemma regenerate_adds:
  shows "p_cas (snd (regenerate_crl lib k i st)) = p_cas st"
    and "p_crls (snd (regenerate_crl lib k i st)) = p_crls st \<or>
      (\<exists>row ca. p_crls (snd (regenerate_crl lib k i st)) = p_crls st @ [row] \<and> cl_ca_id row = i \<and> \<not> cl_is_delta row \<and>
         get_ca st i = Some ca \<and> cl_next_update row = sl_clock lib (k + 2) + days (crl_validity None ca))"
proof -
  obtain res st' where g: "generate_crl (sl_loads lib) (sl_signs lib) (sl_refs lib) (sl_clock lib k) (sl_clock lib (k + 1))
      (sl_clock lib (k + 2)) i None st = (res, st')" by (rule prod.exhaust)
  note eq = snd_regenerate[OF g]
  show "p_cas (snd (regenerate_crl lib k i st)) = p_cas st"
    using generate_crl_adds(1)[OF g] by (simp add: eq)
  show "p_crls (snd (regenerate_crl lib k i st)) = p_crls st \<or>
      (\<exists>row ca. p_crls (snd (regenerate_crl lib k i st)) = p_crls st @ [row] \<and> cl_ca_id row = i \<and> \<not> cl_is_delta row \<and>
         get_ca st i = Some ca \<and> cl_next_update row = sl_clock lib (k + 2) + days (crl_validity None ca))"
    using generate_crl_adds(2)[OF g] by (simp add: eq)
qed

text \<open>\<open>t\<close> is the start of the run. The readings of the clock are not before it, and the validity of
  every CA's lists is a day or more.\<close>

definition run_ok :: "sched_lib \<Rightarrow> datetime \<Rightarrow> pki \<Rightarrow> bool" where
  "run_ok lib t st \<longleftrightarrow> (\<forall>k. t \<le> sl_clock lib k) \<and> (\<forall>ca \<in> set (p_cas st). 1 \<le> crl_validity None ca)"

lemma get_ca_mem: "get_ca st i = Some ca \<Longrightarrow> ca \<in> set (p_cas st)"
  by (auto simp: get_ca_def dest: first_row_SomeD)

lemma regenerate_keeps_fresh:
  assumes "run_ok lib t st" "fresh t st j"
  shows "fresh t (snd (regenerate_crl lib k i st)) j"
  using regenerate_adds(2)[of lib k i st]
proof
  assume "p_crls (snd (regenerate_crl lib k i st)) = p_crls st"
  then show ?thesis using assms(2) by (simp add: fresh_def latest_created_def)
next
  assume "\<exists>row ca. p_crls (snd (regenerate_crl lib k i st)) = p_crls st @ [row] \<and> cl_ca_id row = i \<and> \<not> cl_is_delta row \<and>
         get_ca st i = Some ca \<and> cl_next_update row = sl_clock lib (k + 2) + days (crl_validity None ca)"
  then obtain row ca where r: "p_crls (snd (regenerate_crl lib k i st)) = p_crls st @ [row]" "get_ca st i = Some ca"
      "cl_next_update row = sl_clock lib (k + 2) + days (crl_validity None ca)" by blast
  have "t \<le> sl_clock lib (k + 2)" "1 \<le> crl_validity None ca"
    using assms(1) get_ca_mem[OF r(2)] by (auto simp: run_ok_def)
  then have "t + days 1 \<le> cl_next_update row" using r(3) by simp
  then show ?thesis using assms(2) by (auto simp: fresh_def latest_created_append[OF r(1)])
qed

lemma regenerate_makes_fresh:
  assumes "run_ok lib t st" "get_ca st i = Some ca" "can_publish lib ca"
  shows "fresh t (snd (regenerate_crl lib k i st)) i"
proof -
  obtain res st' where g: "generate_crl (sl_loads lib) (sl_signs lib) (sl_refs lib) (sl_clock lib k) (sl_clock lib (k + 1))
      (sl_clock lib (k + 2)) i None st = (res, st')" by (rule prod.exhaust)
  obtain row where row: "p_crls st' = p_crls st @ [row]" "cl_ca_id row = i" "\<not> cl_is_delta row"
      "cl_next_update row = sl_clock lib (k + 2) + days (crl_validity None ca)"
    using generate_crl_succeeds[OF assms(2,3) g] by blast
  have "t \<le> sl_clock lib (k + 2)" "1 \<le> crl_validity None ca"
    using assms(1) get_ca_mem[OF assms(2)] by (auto simp: run_ok_def)
  moreover have "snd (regenerate_crl lib k i st) = st'"
    using assms(2) snd_regenerate[OF g] by simp
  ultimately show ?thesis
    using row by (auto simp: fresh_def latest_created_append[OF row(1)])
qed

text \<open>A list the scheduler leaves alone has two days to go.\<close>

lemma not_due_is_fresh:
  assumes "run_ok lib t st" "get_ca st i = Some ca" "has_private_key ca" "ca_crt ca \<noteq> No_Crt"
    and "\<not> fst (should_regenerate_crl (sl_clock lib a) (sl_clock lib b) (sl_clock lib c) i st)"
  shows "fresh t st i"
proof (cases "latest_created st i")
  case None
  then show ?thesis using assms(2-5) by (simp add: should_regenerate_crl_def)
next
  case (Some r)
  then have "\<not> cl_next_update r - sl_clock lib c < days 2"
    using assms(2-5) near_expiry_is_two_days[of "sl_clock lib c" r]
    by (simp add: should_regenerate_crl_def split: if_splits)
  moreover have "t \<le> sl_clock lib c" using assms(1) by (simp add: run_ok_def)
  ultimately show ?thesis using Some by (auto simp: fresh_def)
qed

lemma schedule_full_cas [simp]: "p_cas (schedule_full lib k is st) = p_cas st"
  by (induction "is" arbitrary: k st) (simp_all add: regenerate_adds)

lemma schedule_full_fresh:
  assumes "run_ok lib t st"
    and "fresh t st j \<or> j \<in> set is \<and> (\<exists>ca. get_ca st j = Some ca \<and> can_publish lib ca)"
  shows "fresh t (schedule_full lib k is st) j"
  using assms
proof (induction "is" arbitrary: k st)
  case (Cons i "is")
  let ?due = "fst (should_regenerate_crl (sl_clock lib k) (sl_clock lib (k + 1)) (sl_clock lib (k + 2)) i st)"
  let ?st = "if ?due then snd (regenerate_crl lib (k + 3) i st) else st"
  have cas: "p_cas ?st = p_cas st" by (simp add: regenerate_adds)
  then have ok: "run_ok lib t ?st" and get: "get_ca ?st j = get_ca st j"
    using Cons.prems(1) by (simp_all add: run_ok_def get_ca_def)
  have "fresh t ?st j \<or> j \<in> set is \<and> (\<exists>ca. get_ca ?st j = Some ca \<and> can_publish lib ca)"
    using Cons.prems(2)
  proof
    assume "fresh t st j"
    then show ?thesis using regenerate_keeps_fresh[OF Cons.prems(1)] by simp
  next
    assume *: "j \<in> set (i # is) \<and> (\<exists>ca. get_ca st j = Some ca \<and> can_publish lib ca)"
    then obtain ca where ca: "get_ca st j = Some ca" "can_publish lib ca" by blast
    show ?thesis
    proof (cases "j = i")
      case True
      then show ?thesis
        using regenerate_makes_fresh[OF Cons.prems(1)] not_due_is_fresh[OF Cons.prems(1)] ca
        by (auto simp: can_publish_def schedulable_def)
    next
      case False
      then show ?thesis using * get by simp
    qed
  qed
  then show ?case using Cons.IH[OF ok] by simp
qed simp

lemma delta_keeps_latest: "latest_created (snd (generate_delta_crl loads signs now i h st)) j = latest_created st j"
proof -
  have "p_crls (snd (generate_delta_crl loads signs now i h st)) = p_crls st \<or>
      (\<exists>row. p_crls (snd (generate_delta_crl loads signs now i h st)) = p_crls st @ [row] \<and> cl_is_delta row)"
    by (cases "get_ca st i"; cases "get_latest_crl st i") (auto simp: generate_delta_crl_def store_crl_def Let_def)
  then show ?thesis
    by (auto simp: latest_created_append) (simp add: latest_created_def)
qed

lemma schedule_delta_keeps_latest: "latest_created (schedule_delta lib k cas st) j = latest_created st j"
  by (induction cas arbitrary: k st) (simp_all add: delta_keeps_latest)

text \<open>C31: After a run of the scheduler every CA that can publish has a list with a day to go. The run may
  start from any tables, with lists missing, stale or about to expire; for each CA that publishes, has its
  key, its certificate and is online, and whose key loads and signs, the full list created last then
  expires a day or more after the start of the run, provided the clock does not go back behind the
  start and lists are valid for a day or more. Failures for other CAs do not matter.\<close>

theorem scheduled_lists_stay_fresh:
  assumes "run_ok lib t st" "get_ca st i = Some ca" "can_publish lib ca"
  shows "\<exists>r. latest_created (execute lib st) i = Some r \<and> t + days 1 \<le> cl_next_update r"
proof -
  let ?cas = "filter schedulable (p_cas st)"
  have ca: "ca \<in> set ?cas" "ca_id ca = i"
    using assms(2,3) get_ca_mem[OF assms(2)]
    by (auto simp: can_publish_def get_ca_def dest: first_row_SomeD)
  then have "?cas \<noteq> []" "i \<in> set (map ca_id ?cas)" by (metis empty_iff list.set(1)) (use ca in auto)
  then have "fresh t (schedule_full lib 0 (map ca_id ?cas) st) i"
    using schedule_full_fresh[OF assms(1), of i "map ca_id ?cas" 0] assms(2,3) by blast
  then have "fresh t (execute lib st) i"
    using \<open>?cas \<noteq> []\<close> by (simp add: execute_def Let_def fresh_def schedule_delta_keeps_latest)
  then show ?thesis by (simp only: fresh_def)
qed

theorem scheduled_lists_stay_fresh_witness:
  "\<exists>r. latest_created (execute \<lparr>sl_loads = (\<lambda>_. True), sl_signs = (\<lambda>_. True), sl_refs = (\<lambda>_ _. False),
       sl_clock = (\<lambda>k. 20 + int k)\<rparr> (demo_pki [] [])) 1 = Some r \<and> 20 + days 1 \<le> cl_next_update r"
proof (rule scheduled_lists_stay_fresh)
  show "get_ca (demo_pki [] []) 1 = Some demo_ca"
    by (simp add: get_ca_def demo_pki_def first_row_def demo_ca_def)
  show "run_ok \<lparr>sl_loads = (\<lambda>_. True), sl_signs = (\<lambda>_. True), sl_refs = (\<lambda>_ _. False),
       sl_clock = (\<lambda>k. 20 + int k)\<rparr> 20 (demo_pki [] [])"
    by (simp add: run_ok_def demo_pki_def demo_ca_def crl_validity_def DEFAULT_VALIDITY_DAYS_def)
qed (simp add: can_publish_def schedulable_def demo_ca_def has_private_key_def)

text \<open>The routes keep the validity of lists at a day or more and the interval within it, so that the
  delta lists the scheduler asks for are within the bound of \<open>generate_delta_crl\<close>.\<close>

lemma configured_schedule_ok:
  assumes "configure_crl fl digest_ok data ca = Some ca'" "1 \<le> crl_validity None ca"
  shows "1 \<le> crl_validity None ca' \<and> \<not> interval_exceeds ca'"
  using assms
  by (auto simp: configure_crl_def set_validity_def set_interval_def crl_validity_def
      split: option.splits if_splits)

lemma configured_delta_in_bounds:
  assumes "configure_delta_crl fl data ca = Some ca'" "map_of data ''interval'' \<noteq> None"
  shows "1 \<le> delta_interval ca' * 2 \<and> delta_interval ca' * 2 \<le> 720"
  using assms by (auto simp: configure_delta_crl_def delta_interval_def Let_def split: option.splits if_splits)

end
