(* ===== verification/Ip_Address.thy ===== *)
theory Ip_Address
  imports Prelude
begin

text \<open>
  Addresses and networks of Python's \<open>ipaddress\<close> as far as the back end uses them: equality,
  membership of an address in a network, \<open>subnet_of\<close> and \<open>ipv4_mapped\<close>. Reading them from text
  is not defined here: the components that do so take the reader as a parameter.

  An address has its version, its number (never negative) and, for IPv6, the scope behind a percent sign, which
  takes part in equality and not in membership. A network has its version, its first address and
  its prefix length.
\<close>

datatype ip_version = V4 | V6

fun ip_width :: "ip_version \<Rightarrow> nat" where
  "ip_width V4 = 32"
| "ip_width V6 = 128"

datatype ip_address = Ip (ip_ver: ip_version) (ip_num: int) (ip_scope: "string option")

datatype ip_network = Net (net_ver: ip_version) (net_base: int) (net_prefix: nat)

definition net_size :: "ip_network \<Rightarrow> int" where
  "net_size n = 2 ^ (ip_width (net_ver n) - net_prefix n)"

definition net_last :: "ip_network \<Rightarrow> int" where
  "net_last n = net_base n + net_size n - 1"

text \<open>\<open>addr in net\<close>: same version, and the address under the mask is the network's first.\<close>

definition ip_in :: "ip_address \<Rightarrow> ip_network \<Rightarrow> bool" where
  "ip_in a n \<longleftrightarrow> ip_ver a = net_ver n \<and> ip_num a div net_size n * net_size n = net_base n"

text \<open>\<open>net.subnet_of(other)\<close>; \<open>None\<close> is the \<open>TypeError\<close> for different versions.\<close>

definition subnet_of :: "ip_network \<Rightarrow> ip_network \<Rightarrow> bool option" where
  "subnet_of a b =
     (if net_ver a \<noteq> net_ver b then None
      else Some (net_base b \<le> net_base a \<and> net_last a \<le> net_last b))"

text \<open>\<open>getattr(ip, 'ipv4_mapped', None)\<close>: the IPv4 address in \<open>::ffff:0:0/96\<close>.\<close>

definition ipv4_mapped :: "ip_address \<Rightarrow> ip_address option" where
  "ipv4_mapped a =
     (if ip_ver a = V6 \<and> ip_num a div 2 ^ 32 = 65535 then Some (Ip V4 (ip_num a mod 2 ^ 32) None) else None)"

text \<open>A network as the library builds it: a prefix within the width, the host bits clear.\<close>

definition wf_net :: "ip_network \<Rightarrow> bool" where
  "wf_net n \<longleftrightarrow> net_prefix n \<le> ip_width (net_ver n) \<and> net_base n mod net_size n = 0"

lemmas ip_defs [ucm_eval] = net_size_def net_last_def ip_in_def subnet_of_def ipv4_mapped_def wf_net_def

lemma net_size_pos [simp]: "0 < net_size n"
  by (simp add: net_size_def)

text \<open>Membership is lying between the first and the last address.\<close>

lemma ip_in_range:
  assumes "wf_net n"
  shows "ip_in a n \<longleftrightarrow> ip_ver a = net_ver n \<and> net_base n \<le> ip_num a \<and> ip_num a \<le> net_last n"
proof -
  let ?s = "net_size n" and ?b = "net_base n" and ?x = "ip_num a"
  obtain k where k: "?b = k * ?s"
    using assms dvd_div_mult_self[of "net_size n" "net_base n"] by (metis mod_eq_0_iff_dvd wf_net_def)
  have "?x div ?s * ?s = ?b \<longleftrightarrow> ?b \<le> ?x \<and> ?x < ?b + ?s"
  proof
    assume "?x div ?s * ?s = ?b"
    then show "?b \<le> ?x \<and> ?x < ?b + ?s"
      using net_size_pos[of n] div_mult_mod_eq[of ?x ?s] pos_mod_bound[of ?s ?x] pos_mod_sign[of ?s ?x] by linarith
  next
    assume *: "?b \<le> ?x \<and> ?x < ?b + ?s"
    then have "?x div ?s = k"
      unfolding k by (intro int_div_pos_eq[of _ _ _ "?x - k * ?s"]) (auto simp: algebra_simps)
    then show "?x div ?s * ?s = ?b" by (simp add: k)
  qed
  moreover have "?x \<le> net_last n \<longleftrightarrow> ?x < ?b + ?s"
    unfolding net_last_def using net_size_pos[of n] by arith
  ultimately show ?thesis by (simp add: ip_in_def)
qed

text \<open>A subnet's addresses are addresses of the network around it.\<close>

lemma ip_in_subnet:
  assumes "wf_net n" "wf_net m" "subnet_of n m = Some True" "ip_in a n"
  shows "ip_in a m"
  using assms(3,4) by (auto simp: ip_in_range[OF assms(1)] ip_in_range[OF assms(2)] subnet_of_def split: if_splits)

lemma ip_in_single:
  assumes "wf_net n" "net_prefix n = ip_width (net_ver n)"
  shows "ip_in a n \<longleftrightarrow> ip_ver a = net_ver n \<and> ip_num a = net_base n"
  using assms by (auto simp: ip_in_def net_size_def)

text \<open>A mapped address maps back to no further one.\<close>

lemma ipv4_mapped_V4: "ipv4_mapped a = Some b \<Longrightarrow> ip_ver b = V4 \<and> ipv4_mapped b = None"
  by (auto simp: ipv4_mapped_def split: if_splits)

end
