(* ===== verification/Name_Constraints.thy ===== *)
theory Name_Constraints
  imports Pki_Tables Ip_Address Acme_Names "HOL-Library.Word"
begin

text \<open>
  Name constraints of the issuing chain (\<^verbatim>\<open>services/trust_store/constraints_mixin.py\<close> and
  \<^verbatim>\<open>validation_helpers.py\<close>): which names of a subject and a subjectAltName are checked, against
  which CA certificates, and when a name satisfies the subtrees of one.

  The certificate library is a parameter, the record \<open>name_lib\<close>: the printed form of an address
  and of a distinguished name, the DER of a name, the text of bytes (UTF-8 with replacement), the
  host of a URI, which texts \<open>RFC822Name\<close> accepts, and the reader of a stored certificate. A
  hostname-shaped common name is ASCII, so \<open>DNSName\<close> takes it.
\<close>

section \<open>Names and certificates\<close>

unbundle bit_operations_syntax

text \<open>An attribute with its type, its value and the tag of its string; two attributes are equal when
  type and value are.\<close>

record name_attribute =
  na_oid :: string
  na_value :: string
  na_tag :: nat

type_synonym x_name = "name_attribute list list"
type_synonym bytes = "8 word list"

datatype ip_value = Ip_Host ip_address | Ip_Range ip_network

datatype general_name =
    DNSName string
  | RFC822Name string
  | IPAddress ip_value
  | UniformResourceIdentifier string
  | DirectoryName x_name
  | OtherName string bytes
  | OtherKind string string

datatype nc_extension = No_Constraints | Unreadable_Constraints | Constraints "general_name list" "general_name list"

record nc_cert =
  nc_subject :: x_name
  nc_issuer :: x_name
  nc_san :: "general_name list option"
  nc_constraints :: nc_extension

record name_lib =
  nl_ip_text :: "ip_value \<Rightarrow> string"
  nl_rfc4514 :: "x_name \<Rightarrow> string"
  nl_der :: "x_name \<Rightarrow> bytes"
  nl_utf8 :: "bytes \<Rightarrow> string"
  nl_hostname :: "string \<Rightarrow> unit + string option"
  nl_rfc822_ok :: "string \<Rightarrow> bool"
  nl_decode :: "stored_crt \<Rightarrow> nc_cert option"

definition COMMON_NAME :: string where "COMMON_NAME = ''2.5.4.3''"
definition EMAIL_ADDRESS :: string where "EMAIL_ADDRESS = ''1.2.840.113549.1.9.1''"
definition UPN_OID :: string where "UPN_OID = ''1.3.6.1.4.1.311.20.2.3''"

lemmas oid_tables [ucm_tables] = COMMON_NAME_def EMAIL_ADDRESS_def UPN_OID_def

definition attributes_for_oid :: "string \<Rightarrow> x_name \<Rightarrow> string list" where
  "attributes_for_oid oid nm = map na_value (filter (\<lambda>a. na_oid a = oid) (concat nm))"

fun type_name :: "general_name \<Rightarrow> string" where
  "type_name (DNSName _) = ''DNSName''"
| "type_name (RFC822Name _) = ''RFC822Name''"
| "type_name (IPAddress _) = ''IPAddress''"
| "type_name (UniformResourceIdentifier _) = ''UniformResourceIdentifier''"
| "type_name (DirectoryName _) = ''DirectoryName''"
| "type_name (OtherName _ _) = ''OtherName''"
| "type_name (OtherKind k _) = k"

section \<open>Matching (validation\_helpers.py)\<close>

text \<open>Two bytes of header, the length in the second or, when its high bit is set, in as many bytes
  as its low seven bits say; slices end at the end of the data.\<close>

fun from_bytes_big :: "nat \<Rightarrow> bytes \<Rightarrow> nat" where
  "from_bytes_big acc [] = acc"
| "from_bytes_big acc (b # bs) = from_bytes_big (acc * 256 + unat b) bs"

definition der_utf8 :: "name_lib \<Rightarrow> bytes \<Rightarrow> string" where
  "der_utf8 lib data =
     (if 2 \<le> length data \<and> (data ! 0 = 0x0C \<or> data ! 0 = 0x16)
      then let len = data ! 1
           in if len AND 0x80 \<noteq> 0
              then let n = unat (len AND 0x7F);
                       long = from_bytes_big 0 (take n (drop 2 data))
                   in nl_utf8 lib (take long (drop (2 + n) data))
              else nl_utf8 lib (take (unat len) (drop 2 data))
      else nl_utf8 lib data)"

fun name_value :: "name_lib \<Rightarrow> general_name \<Rightarrow> string" where
  "name_value lib (DNSName v) = v"
| "name_value lib (RFC822Name v) = v"
| "name_value lib (IPAddress v) = nl_ip_text lib v"
| "name_value lib (UniformResourceIdentifier v) = v"
| "name_value lib (DirectoryName nm) = nl_rfc4514 lib nm"
| "name_value lib (OtherName _ data) = der_utf8 lib data"
| "name_value lib (OtherKind _ v) = v"

definition dns_matches :: "string \<Rightarrow> string \<Rightarrow> bool" where
  "dns_matches name_val constraint_val =
     (let n = py_lower name_val; c = py_lower constraint_val
      in if n = c then True
         else if starts_with c ''.'' then ends_with n c \<or> n = drop 1 c
         else ends_with n (''.'' @ c))"

text \<open>\<open>s.rpartition('@')[2]\<close>: what follows the last \<open>@\<close>.\<close>

definition after_last :: "char \<Rightarrow> string \<Rightarrow> string" where
  "after_last c s = rev (takeWhile (\<lambda>x. x \<noteq> c) (rev s))"

text \<open>The rule for an address with a domain: a mailbox, a domain with a leading dot, or a host.\<close>

definition address_matches :: "string \<Rightarrow> string \<Rightarrow> bool" where
  "address_matches name_val constraint_val =
     (let n = py_lower name_val; c = py_lower constraint_val;
          domain = (if CHR ''@'' \<in> set n then after_last (CHR ''@'') n else n)
      in if CHR ''@'' \<in> set c then n = c
         else if starts_with c ''.'' then ends_with domain c
         else domain = c)"

definition host_matches :: "string \<Rightarrow> string \<Rightarrow> bool" where
  "host_matches host constraint_val =
     (let h = py_lower host; c = py_lower constraint_val
      in if h = [] then False
         else if starts_with c ''.'' then ends_with h c
         else h = c)"

definition attr_key :: "name_attribute \<Rightarrow> string \<times> string" where
  "attr_key a = (na_oid a, na_value a)"

definition rdn_eq :: "name_attribute list \<Rightarrow> name_attribute list \<Rightarrow> bool" where
  "rdn_eq a b \<longleftrightarrow> set (map attr_key a) = set (map attr_key b)"

fun ip_matches :: "ip_value \<Rightarrow> ip_value \<Rightarrow> bool" where
  "ip_matches (Ip_Range a) (Ip_Range n) = (subnet_of a n = Some True)"
| "ip_matches (Ip_Host a) (Ip_Range n) = ip_in a n"
| "ip_matches v (Ip_Host b) = (v = Ip_Host b)"

text \<open>\<open>Inl ()\<close> is the \<open>ValueError\<close> of \<open>urlsplit\<close>.\<close>

fun name_matches_subtree :: "name_lib \<Rightarrow> general_name \<Rightarrow> general_name \<Rightarrow> unit + bool" where
  "name_matches_subtree lib (DNSName v) (DNSName c) = Inr (dns_matches v c)"
| "name_matches_subtree lib (UniformResourceIdentifier v) (UniformResourceIdentifier c) =
     (case nl_hostname lib v of
        Inl _ \<Rightarrow> Inl ()
      | Inr None \<Rightarrow> Inr False
      | Inr (Some host) \<Rightarrow> Inr (host_matches host c))"
| "name_matches_subtree lib (DirectoryName v) (DirectoryName c) =
     Inr (list_all2 rdn_eq (take (length c) v) c)"
| "name_matches_subtree lib (OtherName t v) (OtherName t' c) =
     Inr (if t \<noteq> t' then False
          else if t = UPN_OID then address_matches (der_utf8 lib v) (der_utf8 lib c)
          else v = c)"
| "name_matches_subtree lib (RFC822Name v) (RFC822Name c) = Inr (address_matches v c)"
| "name_matches_subtree lib (IPAddress v) (IPAddress c) = Inr (ip_matches v c)"
| "name_matches_subtree lib _ _ = Inr False"

section \<open>One certificate (\_validate\_against\_cert)\<close>

text \<open>\<open>any\<close> over a test that may raise.\<close>

fun any_raises :: "('a \<Rightarrow> 'e + bool) \<Rightarrow> 'a list \<Rightarrow> 'e + bool" where
  "any_raises f [] = Inr False"
| "any_raises f (x # xs) =
     (case f x of Inl e \<Rightarrow> Inl e | Inr True \<Rightarrow> Inr True | Inr False \<Rightarrow> any_raises f xs)"

text \<open>The \<open>ValueError\<close> raised: the names in the two parts of its message, or that of \<open>urlsplit\<close>.\<close>

datatype nc_error = Bad_Uri | Violations "string list" "string list"

definition same_type :: "general_name \<Rightarrow> general_name \<Rightarrow> bool" where
  "same_type name subtree \<longleftrightarrow> type_name subtree = type_name name
     \<and> (case (name, subtree) of (OtherName t _, OtherName t' _) \<Rightarrow> t' = t | _ \<Rightarrow> True)"

fun constraint_loop ::
    "name_lib \<Rightarrow> general_name list \<Rightarrow> general_name list \<Rightarrow> string list \<Rightarrow> string list \<Rightarrow> general_name list \<Rightarrow>
     nc_error + (string list \<times> string list)" where
  "constraint_loop lib permitted excluded ex out [] = Inr (ex, out)"
| "constraint_loop lib permitted excluded ex out (name # names) =
     (case any_raises (name_matches_subtree lib name) excluded of
        Inl _ \<Rightarrow> Inl Bad_Uri
      | Inr True \<Rightarrow> constraint_loop lib permitted excluded (append_new ex (name_value lib name)) out names
      | Inr False \<Rightarrow>
          (let same = filter (same_type name) permitted
           in if same = [] then constraint_loop lib permitted excluded ex out names
              else (case any_raises (name_matches_subtree lib name) same of
                      Inl _ \<Rightarrow> Inl Bad_Uri
                    | Inr True \<Rightarrow> constraint_loop lib permitted excluded ex out names
                    | Inr False \<Rightarrow> constraint_loop lib permitted excluded ex
                                     (append_new out (name_value lib name)) names)))"

definition validate_against_cert :: "name_lib \<Rightarrow> nc_cert \<Rightarrow> general_name list \<Rightarrow> nc_error + unit" where
  "validate_against_cert lib ca_cert names =
     (case nc_constraints ca_cert of
        No_Constraints \<Rightarrow> Inr ()
      | Unreadable_Constraints \<Rightarrow> Inr ()
      | Constraints permitted excluded \<Rightarrow>
          if permitted = [] \<and> excluded = [] then Inr ()
          else (case constraint_loop lib permitted excluded [] [] names of
                  Inl e \<Rightarrow> Inl e
                | Inr (ex, out) \<Rightarrow> if ex = [] \<and> out = [] then Inr () else Inl (Violations ex out)))"

section \<open>The chain (\_chain\_certs\_above)\<close>

text \<open>The loop runs at most sixteen times, over the CA certificates of the table that decode, the
  first of a subject.\<close>

definition CHAIN_LEVELS :: nat where "CHAIN_LEVELS = 16"

definition chain_candidates :: "name_lib \<Rightarrow> ca_row list \<Rightarrow> nc_cert list" where
  "chain_candidates lib cas =
     List.map_filter (\<lambda>ca. nl_decode lib (ca_crt ca)) (filter (\<lambda>ca. ca_crt ca \<noteq> No_Crt) cas)"

fun issuer_loop :: "name_lib \<Rightarrow> nc_cert list \<Rightarrow> nat \<Rightarrow> bytes list \<Rightarrow> nc_cert \<Rightarrow> nc_cert list" where
  "issuer_loop lib certs 0 seen current = []"
| "issuer_loop lib certs (Suc n) seen current =
     (let issuer = nl_der lib (nc_issuer current)
      in if issuer = nl_der lib (nc_subject current) then []
         else if issuer \<in> set seen then []
         else (case first_row (\<lambda>c. nl_der lib (nc_subject c) = issuer) certs of
                 None \<Rightarrow> []
               | Some parent \<Rightarrow> parent # issuer_loop lib certs n (seen @ [issuer]) parent))"

definition chain_certs_above :: "name_lib \<Rightarrow> ca_row list \<Rightarrow> nc_cert \<Rightarrow> nc_cert list" where
  "chain_certs_above lib cas ca_cert = issuer_loop lib (chain_candidates lib cas) CHAIN_LEVELS [] ca_cert"

section \<open>The names of a request (validate\_name\_constraints)\<close>

text \<open>\<open>_DNS_LIKE_CN\<close>: an optional wildcard label, then two labels or more; a final newline is
  accepted by the dollar sign.\<close>

definition cn_label :: "string \<Rightarrow> bool" where
  "cn_label s \<longleftrightarrow> s \<noteq> [] \<and> list_all (\<lambda>c. is_alpha c \<or> is_digit c \<or> c = CHR ''-'') s
     \<and> hd s \<noteq> CHR ''-'' \<and> last s \<noteq> CHR ''-''"

definition DNS_LIKE_CN :: "string \<Rightarrow> bool" where
  "DNS_LIKE_CN s =
     (let body = (if s \<noteq> [] \<and> last s = NEWLINE then butlast s else s);
          body = (if starts_with body ''*.'' then drop 2 body else body);
          labels = py_split (CHR ''.'') body
      in 2 \<le> length labels \<and> list_all cn_label labels)"

text \<open>The loop over the common names, and the one over the e-mail attributes: an \<open>RFC822Name\<close>
  that is not accepted raises, and the handler around the loop ends it.\<close>

fun cn_names :: "name_lib \<Rightarrow> string list \<Rightarrow> general_name list" where
  "cn_names lib [] = []"
| "cn_names lib (v # vs) =
     (if CHR ''@'' \<in> set v
      then (if nl_rfc822_ok lib v then RFC822Name v # cn_names lib vs else [])
      else if DNS_LIKE_CN v then DNSName v # cn_names lib vs
      else cn_names lib vs)"

fun email_names :: "name_lib \<Rightarrow> string list \<Rightarrow> general_name list" where
  "email_names lib [] = []"
| "email_names lib (v # vs) =
     (if v = [] then email_names lib vs
      else if nl_rfc822_ok lib v then RFC822Name v # email_names lib vs else [])"

definition names_to_check :: "name_lib \<Rightarrow> x_name \<Rightarrow> general_name list \<Rightarrow> general_name list" where
  "names_to_check lib subject san_names =
     cn_names lib (attributes_for_oid COMMON_NAME subject)
     @ (if concat subject = [] then [] else [DirectoryName subject])
     @ email_names lib (attributes_for_oid EMAIL_ADDRESS subject)
     @ san_names"

definition cert_name_values :: "name_lib \<Rightarrow> nc_cert \<Rightarrow> (string \<times> string) list" where
  "cert_name_values lib cert =
     map (\<lambda>v. (''cn'', py_lower v)) (attributes_for_oid COMMON_NAME (nc_subject cert))
     @ map (\<lambda>v. (''RFC822Name'', py_lower v)) (attributes_for_oid EMAIL_ADDRESS (nc_subject cert))
     @ (if concat (nc_subject cert) = [] then []
        else [(''DirectoryName'', py_lower (name_value lib (DirectoryName (nc_subject cert))))])
     @ (case nc_san cert of
          None \<Rightarrow> []
        | Some names \<Rightarrow> map (\<lambda>n. (type_name n, py_lower (name_value lib n))) names)"

definition carried_over :: "name_lib \<Rightarrow> nc_cert \<Rightarrow> general_name \<Rightarrow> bool" where
  "carried_over lib cert name =
     (let value = py_lower (name_value lib name); existing = cert_name_values lib cert
      in (type_name name, value) \<in> set existing \<or> (''cn'', value) \<in> set existing)"

fun validate_all :: "name_lib \<Rightarrow> nc_cert list \<Rightarrow> general_name list \<Rightarrow> nc_error + unit" where
  "validate_all lib [] names = Inr ()"
| "validate_all lib (c # cs) names =
     (case validate_against_cert lib c names of Inl e \<Rightarrow> Inl e | Inr _ \<Rightarrow> validate_all lib cs names)"

text \<open>On a renewal the check of the carried-over names only logs.\<close>

definition validate_name_constraints ::
    "name_lib \<Rightarrow> ca_row list \<Rightarrow> nc_cert \<Rightarrow> x_name \<Rightarrow> general_name list \<Rightarrow> nc_cert option \<Rightarrow> nc_error + unit" where
  "validate_name_constraints lib cas ca_cert subject san_names renewal_of =
     (let names = names_to_check lib subject san_names;
          enforced = (case renewal_of of
                        None \<Rightarrow> names
                      | Some cert \<Rightarrow> filter (\<lambda>n. \<not> carried_over lib cert n) names)
      in if enforced = [] then Inr ()
         else validate_all lib (ca_cert # chain_certs_above lib cas ca_cert) enforced)"

section \<open>Constraints of a new CA (\_build\_general\_subtrees)\<close>

text \<open>\<open>ip_network\<close> takes a text or a number; \<open>DNSName\<close> and \<open>RFC822Name\<close> take an ASCII text.\<close>

definition is_ascii :: "string \<Rightarrow> bool" where
  "is_ascii s \<longleftrightarrow> list_all (\<lambda>c. ascii_code c < 128) s"

definition build_subtree ::
    "name_lib \<Rightarrow> (json \<Rightarrow> ip_network option) \<Rightarrow> string \<Rightarrow> json \<Rightarrow> py_error + general_name option" where
  "build_subtree lib to_network ctype value =
     (if ctype = ''dns''
      then (case value of
              JStr s \<Rightarrow> if is_ascii s then Inr (Some (DNSName s)) else Inl ValueError
            | _ \<Rightarrow> Inl TypeError)
      else if ctype = ''ip''
      then (case to_network value of
              None \<Rightarrow> Inl ValueError | Some n \<Rightarrow> Inr (Some (IPAddress (Ip_Range n))))
      else if ctype = ''email''
      then (case value of
              JStr s \<Rightarrow> if nl_rfc822_ok lib s then Inr (Some (RFC822Name s)) else Inl ValueError
            | _ \<Rightarrow> Inl TypeError)
      else Inr None)"

fun subtree_loop ::
    "name_lib \<Rightarrow> (json \<Rightarrow> ip_network option) \<Rightarrow> json list \<Rightarrow> py_error + general_name list" where
  "subtree_loop lib to_network [] = Inr []"
| "subtree_loop lib to_network (c # cs) =
     sum_bind (json_get c ''type'' (JStr [])) (\<lambda>t.
       case t of
         JStr ctype \<Rightarrow>
           sum_bind (json_get c ''value'' (JStr [])) (\<lambda>value.
             if \<not> json_truthy value then subtree_loop lib to_network cs
             else sum_bind (build_subtree lib to_network (py_lower ctype) value) (\<lambda>built.
                    sum_bind (subtree_loop lib to_network cs) (\<lambda>rest.
                      Inr (case built of None \<Rightarrow> rest | Some n \<Rightarrow> n # rest))))
       | _ \<Rightarrow> Inl AttributeError)"

definition build_general_subtrees ::
    "name_lib \<Rightarrow> (json \<Rightarrow> ip_network option) \<Rightarrow> json list \<Rightarrow> py_error + general_name list option" where
  "build_general_subtrees lib to_network constraints =
     sum_bind (subtree_loop lib to_network constraints) (\<lambda>subtrees.
       Inr (if subtrees = [] then None else Some subtrees))"

section \<open>What a subtree set demands of a name\<close>

text \<open>RFC 5280, section 4.2.1.10: no excluded subtree covers the name, and where there are permitted
  subtrees of its type, one of them does. Extensions that cannot be read demand nothing.\<close>

definition satisfies :: "name_lib \<Rightarrow> nc_cert \<Rightarrow> general_name \<Rightarrow> bool" where
  "satisfies lib c n =
     (case nc_constraints c of
        Constraints permitted excluded \<Rightarrow>
          (\<forall>s \<in> set excluded. name_matches_subtree lib n s = Inr False) \<and>
          ((\<exists>s \<in> set permitted. same_type n s) \<longrightarrow> (\<exists>s \<in> set permitted. name_matches_subtree lib n s = Inr True))
      | _ \<Rightarrow> True)"

lemma any_raises_False: "any_raises f xs = Inr False \<longleftrightarrow> (\<forall>x \<in> set xs. f x = Inr False)"
  by (induction xs) (auto split: sum.splits bool.splits)

lemma any_raises_TrueD: "any_raises f xs = Inr True \<Longrightarrow> \<exists>x \<in> set xs. f x = Inr True"
  by (induction xs) (auto split: sum.splits bool.splits)

lemma any_raises_True:
  assumes "\<forall>x \<in> set xs. \<forall>e. f x \<noteq> Inl e"
  shows "any_raises f xs = Inr True \<longleftrightarrow> (\<exists>x \<in> set xs. f x = Inr True)"
  using assms by (induction xs) (auto split: sum.splits bool.splits)

lemma match_never_raises: "name_matches_subtree lib n s = Inr True \<Longrightarrow> name_matches_subtree lib n s' \<noteq> Inl e"
  by (cases n; cases s; cases s') (auto split: sum.splits option.splits)

lemma match_same_type: "name_matches_subtree lib n s = Inr True \<Longrightarrow> same_type n s"
  by (cases n; cases s) (auto simp: same_type_def split: if_splits)

lemma any_match:
  assumes "name_matches_subtree lib n s = Inr True" "s \<in> set xs"
  shows "any_raises (name_matches_subtree lib n) xs = Inr True"
  using assms match_never_raises[OF assms(1)] by (subst any_raises_True) auto

definition allowed_by :: "name_lib \<Rightarrow> general_name list \<Rightarrow> general_name list \<Rightarrow> general_name \<Rightarrow> bool" where
  "allowed_by lib permitted excluded n \<longleftrightarrow>
     any_raises (name_matches_subtree lib n) excluded = Inr False \<and>
     (filter (same_type n) permitted = [] \<or>
      any_raises (name_matches_subtree lib n) (filter (same_type n) permitted) = Inr True)"

lemma allowed_by_spec:
  "allowed_by lib permitted excluded n \<longleftrightarrow>
     (\<forall>s \<in> set excluded. name_matches_subtree lib n s = Inr False) \<and>
     ((\<exists>s \<in> set permitted. same_type n s) \<longrightarrow> (\<exists>s \<in> set permitted. name_matches_subtree lib n s = Inr True))"
proof -
  have "any_raises (name_matches_subtree lib n) (filter (same_type n) permitted) = Inr True \<longleftrightarrow>
      (\<exists>s \<in> set permitted. name_matches_subtree lib n s = Inr True)"
    using any_raises_TrueD[of "name_matches_subtree lib n" "filter (same_type n) permitted"]
      any_match[of lib n _ "filter (same_type n) permitted"] match_same_type[of lib n] by auto
  then show ?thesis
    by (auto simp: allowed_by_def any_raises_False filter_empty_conv)
qed

lemma constraint_loop_extends:
  "constraint_loop lib permitted excluded ex out names = Inr (ex', out') \<Longrightarrow> set ex \<subseteq> set ex' \<and> set out \<subseteq> set out'"
proof (induction names arbitrary: ex out)
  case (Cons n names)
  let ?v = "name_value lib n"
  have "\<exists>e o'. constraint_loop lib permitted excluded e o' names = Inr (ex', out') \<and> set ex \<subseteq> set e \<and> set out \<subseteq> set o'"
  proof (cases "any_raises (name_matches_subtree lib n) excluded")
    case (Inr b)
    show ?thesis
    proof (cases b)
      case True
      with Inr Cons.prems show ?thesis by (intro exI[of _ "append_new ex ?v"] exI[of _ out]) auto
    next
      case False
      show ?thesis
      proof (cases "any_raises (name_matches_subtree lib n) (filter (same_type n) permitted)")
        case (Inr m)
        with \<open>any_raises _ excluded = Inr b\<close> False Cons.prems show ?thesis
          by (intro exI[of _ ex] exI[of _ "if m \<or> filter (same_type n) permitted = [] then out else append_new out ?v"])
            (auto simp: Let_def split: if_splits bool.splits)
      qed (use Inr False Cons.prems in \<open>auto simp: Let_def split: if_splits\<close>)
    qed
  qed (use Cons.prems in simp)
  then show ?case using Cons.IH by blast
qed simp

lemma constraint_loop_clean:
  "constraint_loop lib permitted excluded [] [] names = Inr ([], []) \<longleftrightarrow>
     (\<forall>n \<in> set names. allowed_by lib permitted excluded n)"
proof (induction names)
  case (Cons n names)
  have dirty: "constraint_loop lib permitted excluded (append_new [] v) [] names \<noteq> Inr ([], [])"
    "constraint_loop lib permitted excluded [] (append_new [] v) names \<noteq> Inr ([], [])" for v
    using constraint_loop_extends[of lib permitted excluded "append_new [] v" "[]" names "[]" "[]"]
      constraint_loop_extends[of lib permitted excluded "[]" "append_new [] v" names "[]" "[]"]
    by auto
  show ?case
    using Cons.IH dirty[of "name_value lib n"]
    by (auto simp: allowed_by_def Let_def split: sum.splits bool.splits if_splits)
qed simp

lemma validate_against_cert_iff:
  "validate_against_cert lib c names = Inr () \<longleftrightarrow> (\<forall>n \<in> set names. satisfies lib c n)"
proof (cases "nc_constraints c")
  case (Constraints permitted excluded)
  have "validate_against_cert lib c names = Inr () \<longleftrightarrow>
      constraint_loop lib permitted excluded [] [] names = Inr ([], [])" if "\<not> (permitted = [] \<and> excluded = [])"
    using that Constraints
    by (auto simp: validate_against_cert_def split: sum.splits prod.splits if_splits)
  then show ?thesis
    by (cases "permitted = [] \<and> excluded = []")
      (auto simp: validate_against_cert_def satisfies_def Constraints constraint_loop_clean allowed_by_spec)
qed (auto simp: validate_against_cert_def satisfies_def)

lemma validate_all_iff: "validate_all lib cs names = Inr () \<longleftrightarrow> (\<forall>c \<in> set cs. \<forall>n \<in> set names. satisfies lib c n)"
proof (induction cs)
  case (Cons c cs)
  then show ?case
    using validate_against_cert_iff[of lib c names] by (auto split: sum.splits)
qed simp

section \<open>Which certificates are above a CA\<close>

text \<open>The issuer of a certificate that is not self-issued is the first CA of the table with its
  issuer's name; \<open>ancestor k\<close> follows it \<open>k\<close> times.\<close>

definition parent_cert :: "name_lib \<Rightarrow> nc_cert list \<Rightarrow> nc_cert \<Rightarrow> nc_cert option" where
  "parent_cert lib certs c =
     (if nl_der lib (nc_issuer c) = nl_der lib (nc_subject c) then None
      else first_row (\<lambda>p. nl_der lib (nc_subject p) = nl_der lib (nc_issuer c)) certs)"

fun ancestor :: "name_lib \<Rightarrow> nc_cert list \<Rightarrow> nat \<Rightarrow> nc_cert \<Rightarrow> nc_cert option" where
  "ancestor lib certs 0 c = Some c"
| "ancestor lib certs (Suc k) c = (case parent_cert lib certs c of None \<Rightarrow> None | Some p \<Rightarrow> ancestor lib certs k p)"

lemma issuer_loop_ancestors:
  assumes "p \<in> set (issuer_loop lib certs n seen c)"
  shows "\<exists>k. 0 < k \<and> k \<le> n \<and> ancestor lib certs k c = Some p"
  using assms
proof (induction n arbitrary: seen c)
  case (Suc n)
  then obtain q where q: "parent_cert lib certs c = Some q" and
    "p = q \<or> p \<in> set (issuer_loop lib certs n (seen @ [nl_der lib (nc_issuer c)]) q)"
    by (cases "first_row (\<lambda>p. nl_der lib (nc_subject p) = nl_der lib (nc_issuer c)) certs")
      (auto simp: Let_def parent_cert_def split: if_splits)
  then consider "p = q" | k where "0 < k" "k \<le> n" "ancestor lib certs k q = Some p"
    using Suc.IH by blast
  then show ?case
  proof cases
    case 1
    with q show ?thesis by (intro exI[of _ "Suc 0"]) simp
  next
    case 2
    with q show ?thesis by (intro exI[of _ "Suc k"]) simp
  qed
qed simp

lemma ancestor_closed:
  assumes "\<And>v q. v \<in> V \<Longrightarrow> parent_cert lib certs v = Some q \<Longrightarrow> q \<in> V"
    and "\<And>q. parent_cert lib certs c = Some q \<Longrightarrow> q \<in> V" "0 < k" "ancestor lib certs k c = Some p"
  shows "p \<in> V"
  using assms(2-)
proof (induction k arbitrary: c)
  case (Suc k)
  then obtain q where q: "parent_cert lib certs c = Some q" "ancestor lib certs k q = Some p"
    by (auto split: option.splits)
  then have "q \<in> V" using Suc.prems(1) by blast
  then show ?case
    using Suc.IH[of q] q(2) assms(1)[of q] by (cases k) auto
qed simp

text \<open>\<open>V\<close> are the certificates collected so far: the cycle guard stops only where their issuers are
  among them.\<close>

lemma ancestors_issuer_loop:
  assumes "\<And>b q. b \<in> set seen \<Longrightarrow> first_row (\<lambda>p. nl_der lib (nc_subject p) = b) certs = Some q \<Longrightarrow> q \<in> V"
    and "\<And>v q. v \<in> V \<Longrightarrow> v \<noteq> c \<Longrightarrow> parent_cert lib certs v = Some q \<Longrightarrow> q \<in> V"
    and "0 < k" "k \<le> n" "ancestor lib certs k c = Some p"
  shows "p \<in> V \<union> set (issuer_loop lib certs n seen c)"
  using assms
proof (induction n arbitrary: seen c k V)
  case (Suc n)
  let ?issuer = "nl_der lib (nc_issuer c)"
  obtain j where k: "k = Suc j" using Suc.prems(3) by (cases k) auto
  then obtain q where q: "parent_cert lib certs c = Some q" "ancestor lib certs j q = Some p"
    using Suc.prems(5) by (auto split: option.splits)
  have issuer: "?issuer \<noteq> nl_der lib (nc_subject c)"
    "first_row (\<lambda>p. nl_der lib (nc_subject p) = ?issuer) certs = Some q"
    using q(1) by (auto simp: parent_cert_def split: if_splits)
  show ?case
  proof (cases "?issuer \<in> set seen")
    case True
    then have "q \<in> V" using Suc.prems(1) issuer(2) by blast
    then have "p \<in> V"
      using ancestor_closed[of V lib certs c k p] Suc.prems(2,3,5) q(1) by (metis option.inject)
    then show ?thesis by simp
  next
    case False
    then have step: "issuer_loop lib certs (Suc n) seen c = q # issuer_loop lib certs n (seen @ [?issuer]) q"
      using issuer by (simp add: Let_def)
    show ?thesis
    proof (cases "j = 0")
      case True
      then show ?thesis using q(2) step by simp
    next
      case False
      have "p \<in> insert q V \<union> set (issuer_loop lib certs n (seen @ [?issuer]) q)"
      proof (rule Suc.IH)
        show "r \<in> insert q V" if "b \<in> set (seen @ [?issuer])"
          "first_row (\<lambda>p. nl_der lib (nc_subject p) = b) certs = Some r" for b r
          using that Suc.prems(1) issuer(2) by auto
        show "r \<in> insert q V" if "v \<in> insert q V" "v \<noteq> q" "parent_cert lib certs v = Some r" for v r
          using that Suc.prems(2) q(1) by (cases "v = c") auto
      qed (use False k Suc.prems(4) q(2) in auto)
      then show ?thesis by (simp only: step) auto
    qed
  qed
qed simp

lemma chain_certs_above_ancestors:
  "set (chain_certs_above lib cas c) =
     {p. \<exists>k. 0 < k \<and> k \<le> CHAIN_LEVELS \<and> ancestor lib (chain_candidates lib cas) k c = Some p}"
  unfolding chain_certs_above_def
proof (intro set_eqI iffI)
  let ?certs = "chain_candidates lib cas"
  show "p \<in> {p. \<exists>k. 0 < k \<and> k \<le> CHAIN_LEVELS \<and> ancestor lib ?certs k c = Some p}"
    if "p \<in> set (issuer_loop lib ?certs CHAIN_LEVELS [] c)" for p
    using issuer_loop_ancestors[OF that] by blast
  show "p \<in> set (issuer_loop lib ?certs CHAIN_LEVELS [] c)"
    if "p \<in> {p. \<exists>k. 0 < k \<and> k \<le> CHAIN_LEVELS \<and> ancestor lib ?certs k c = Some p}" for p
    using that ancestors_issuer_loop[of "[]" lib ?certs "{}" c _ CHAIN_LEVELS p] by auto
qed

section \<open>The check\<close>

definition enforced_names :: "name_lib \<Rightarrow> x_name \<Rightarrow> general_name list \<Rightarrow> nc_cert option \<Rightarrow> general_name list" where
  "enforced_names lib subject san_names renewal_of =
     filter (\<lambda>n. case renewal_of of None \<Rightarrow> True | Some cert \<Rightarrow> \<not> carried_over lib cert n)
       (names_to_check lib subject san_names)"

text \<open>C9: The whole chain constrains a request. The check passes exactly when every name it collects
  from the subject and the subjectAltName, on a renewal every one the old certificate does not
  carry, satisfies the subtrees of the issuing CA and of every CA reached from it by following
  issuer names up to sixteen times, whatever the table holds and whether or not the links of the
  table form a cycle.\<close>

theorem chain_constrains_names:
  "validate_name_constraints lib cas ca_cert subject san_names renewal_of = Inr () \<longleftrightarrow>
     (\<forall>k c. k \<le> CHAIN_LEVELS \<and> ancestor lib (chain_candidates lib cas) k ca_cert = Some c \<longrightarrow>
        list_all (satisfies lib c) (enforced_names lib subject san_names renewal_of))"
proof -
  let ?E = "enforced_names lib subject san_names renewal_of" and ?certs = "chain_candidates lib cas"
  have "validate_name_constraints lib cas ca_cert subject san_names renewal_of = Inr () \<longleftrightarrow>
      (\<forall>c \<in> set (ca_cert # chain_certs_above lib cas ca_cert). \<forall>n \<in> set ?E. satisfies lib c n)"
  proof -
    have "validate_name_constraints lib cas ca_cert subject san_names renewal_of =
        (if ?E = [] then Inr () else validate_all lib (ca_cert # chain_certs_above lib cas ca_cert) ?E)"
      by (cases renewal_of) (simp_all add: validate_name_constraints_def enforced_names_def Let_def)
    then show ?thesis
      by (cases "?E = []") (simp, simp only: validate_all_iff if_False)
  qed
  also have "set (ca_cert # chain_certs_above lib cas ca_cert) =
      {c. \<exists>k \<le> CHAIN_LEVELS. ancestor lib ?certs k ca_cert = Some c}"
    using chain_certs_above_ancestors[of lib cas ca_cert]
    by (auto intro: exI[of _ "0 :: nat"]) (metis ancestor.simps(1) gr0I option.inject)
  finally show ?thesis by (auto simp: list_all_iff)
qed

section \<open>A concrete chain\<close>

definition plain_cn :: "string \<Rightarrow> x_name" where
  "plain_cn v = [[\<lparr>na_oid = COMMON_NAME, na_value = v, na_tag = 12\<rparr>]]"

definition sample_ca :: ca_row where
  "sample_ca = \<lparr>ca_id = 1, ca_refid = ''ca'', ca_descr = ''ca'', ca_crt = Unreadable_Crt, ca_prv = True, ca_hsm = False,
     ca_offline = False, ca_caref = None, ca_subject = None, ca_issuer = None, ca_ski = None,
     ca_serial_number = None, ca_valid_to = None, ca_revoked = False, ca_revoked_at = None,
     ca_revoke_reason = None, ca_invalidity_at = None,
     ca_cdp_enabled = True, ca_delta_crl_enabled = True, ca_ocsp_enabled = True, ca_crl_validity_days = None,
     ca_crl_publish_interval_hours = None, ca_delta_crl_interval = None\<rparr>"

definition constrained_root :: nc_cert where
  "constrained_root = \<lparr>nc_subject = plain_cn ''root'', nc_issuer = plain_cn ''root'', nc_san = None,
     nc_constraints = Constraints [DNSName ''lan''] []\<rparr>"

definition plain_issuer :: nc_cert where
  "plain_issuer = \<lparr>nc_subject = plain_cn ''issuing'', nc_issuer = plain_cn ''root'', nc_san = None,
     nc_constraints = No_Constraints\<rparr>"

definition chain_lib :: name_lib where
  "chain_lib = \<lparr>nl_ip_text = (\<lambda>_. []), nl_rfc4514 = (\<lambda>_. []),
     nl_der = (\<lambda>nm. replicate (length (concat (map na_value (concat nm)))) 0), nl_utf8 = (\<lambda>_. []),
     nl_hostname = (\<lambda>_. Inr None), nl_rfc822_ok = (\<lambda>_. True), nl_decode = (\<lambda>_. Some constrained_root)\<rparr>"

text \<open>A name outside the subtree of the root is refused although the issuing CA has no constraints.\<close>

lemma chain_constrains_names_witness:
  "validate_name_constraints chain_lib [sample_ca] plain_issuer [] [DNSName ''a.org''] None \<noteq> Inr ()"
proof -
  have anc: "ancestor chain_lib (chain_candidates chain_lib [sample_ca]) 1 plain_issuer = Some constrained_root"
    and out: "\<not> list_all (satisfies chain_lib constrained_root) (enforced_names chain_lib [] [DNSName ''a.org''] None)"
    and "1 \<le> CHAIN_LEVELS"
    by code_simp+
  then show ?thesis
    using chain_constrains_names[of chain_lib "[sample_ca]" plain_issuer "[]" "[DNSName ''a.org'']" None] by blast
qed

text \<open>A leading dot does not narrow a DNS subtree.\<close>

lemma dns_leading_dot:
  assumes "\<not> starts_with (py_lower c) ''.''"
  shows "dns_matches n (''.'' @ c) \<longleftrightarrow> dns_matches n c"
proof -
  have "py_lower (''.'' @ c) = ''.'' @ py_lower c" by (simp add: ucm_eval)
  then show ?thesis
    using assms by (auto simp: dns_matches_def Let_def ends_with_iff starts_with_def)
qed

text \<open>A common name that looks like a mailbox and is not one ends the collection of common names:
  those after it are not checked.\<close>

lemma bad_mailbox_hides_common_names:
  assumes "CHR ''@'' \<in> set v" "\<not> nl_rfc822_ok lib v"
  shows "cn_names lib (us @ v # vs) = cn_names lib us"
  using assms by (induction us) auto

end
