(* ===== verification/Caa.thy ===== *)
theory Caa
  imports Acme_Names
begin

text \<open>
  CAA records (\<^verbatim>\<open>utils/caa_checker.py\<close>): the climb from a name to the first label that has CAA
  records, the choice between \<open>issue\<close> and \<open>issuewild\<close>, the parameters of RFC 8657, and the check
  of all the names of an order.

  The resolver is the parameter \<open>resolve\<close>. A record is what it returns, its tag and value as text;
  the reason the check returns next to its verdict is a value of \<open>caa_reason\<close>.
\<close>

unbundle bit_operations_syntax

record caa_record =
  cr_flags :: int
  cr_tag :: string
  cr_value :: string

datatype dns_answer = Caa_Records "caa_record list" | Caa_Absent | Caa_Error

type_synonym caa_params = "(string \<times> string list) list"

section \<open>Issuer values\<close>

definition KNOWN_PROPERTY_TAGS :: "string list" where
  "KNOWN_PROPERTY_TAGS = [''issue'', ''issuewild'', ''iodef'']"

definition CRITICAL_FLAG :: int where "CRITICAL_FLAG = 128"

text \<open>\<open>s.strip(c)\<close> for one character.\<close>

definition strip_char :: "char \<Rightarrow> string \<Rightarrow> string" where
  "strip_char c s = rstrip_char c (dropWhile (\<lambda>x. x = c) s)"

abbreviation unquote :: "string \<Rightarrow> string" where "unquote s \<equiv> strip_char (CHR 0x22) (py_strip s)"

definition add_parameter :: "string \<Rightarrow> string \<Rightarrow> caa_params \<Rightarrow> caa_params" where
  "add_parameter k v ps =
     (if k \<in> fst ` set ps then map (\<lambda>(k', vs). if k' = k then (k', vs @ [v]) else (k', vs)) ps
      else ps @ [(k, [v])])"

fun parse_parameters :: "string list \<Rightarrow> caa_params \<Rightarrow> caa_params" where
  "parse_parameters [] ps = ps"
| "parse_parameters (segment # segments) ps =
     (if CHR ''='' \<notin> set segment then parse_parameters segments ps
      else let k = py_lower (py_strip (before_sep (CHR ''='') segment))
           in if k = [] then parse_parameters segments ps
              else parse_parameters segments (add_parameter k (unquote (after_sep (CHR ''='') segment)) ps))"

definition parse_issuer_value :: "string \<Rightarrow> string \<times> caa_params" where
  "parse_issuer_value value =
     (let segments = py_split (CHR '';'') (unquote value)
      in (py_strip (hd segments), parse_parameters (drop 1 segments) []))"

definition get_parameter :: "string \<Rightarrow> caa_params \<Rightarrow> string list" where
  "get_parameter k ps = (case map_of ps k of None \<Rightarrow> [] | Some vs \<Rightarrow> vs)"

datatype caa_failure = Account_Mismatch | Method_Not_Allowed

definition method_set :: "string \<Rightarrow> string list" where
  "method_set value = map (\<lambda>m. py_lower (py_strip m)) (filter (\<lambda>m. py_strip m \<noteq> []) (py_split (CHR '','') value))"

text \<open>A missing or empty validation method leaves \<open>validationmethods\<close> unenforced.\<close>

definition parameters_allow :: "caa_params \<Rightarrow> string option \<Rightarrow> string option \<Rightarrow> caa_failure option" where
  "parameters_allow ps account_url validation_method =
     (let uris = get_parameter ''accounturi'' ps; methods = get_parameter ''validationmethods'' ps
      in if uris \<noteq> [] \<and> (case account_url of None \<Rightarrow> True | Some u \<Rightarrow> list_ex (\<lambda>uri. uri \<noteq> u) uris)
         then Some Account_Mismatch
         else if methods = [] then None
         else (case validation_method of
                 None \<Rightarrow> None
               | Some m \<Rightarrow>
                   if m = [] then None
                   else if list_ex (\<lambda>value. py_lower m \<notin> set (method_set value)) methods
                   then Some Method_Not_Allowed else None))"

section \<open>One name (check\_caa)\<close>

datatype caa_reason =
    Lookup_Failed string
  | Unknown_Critical string string
  | No_Issue_Tags string
  | Denies_All string
  | Authorized string string
  | Restricted string "caa_failure list"
  | Not_Listed string "string list"
  | No_Caa

type_synonym issuer_record = "string \<times> caa_params"

text \<open>The loop over the records of an answer: the tag of an unknown critical property, or the issuer
  records of the two tags.\<close>

fun scan_records ::
    "caa_record list \<Rightarrow> issuer_record list \<Rightarrow> issuer_record list \<Rightarrow> string + (issuer_record list \<times> issuer_record list)" where
  "scan_records [] issue issuewild = Inr (issue, issuewild)"
| "scan_records (r # rs) issue issuewild =
     (let tag = py_lower (cr_tag r); value = py_strip (cr_value r)
      in if tag \<notin> set KNOWN_PROPERTY_TAGS \<and> cr_flags r AND CRITICAL_FLAG \<noteq> 0 then Inl tag
         else if tag = ''issue'' then scan_records rs (issue @ [parse_issuer_value value]) issuewild
         else if tag = ''issuewild'' then scan_records rs issue (issuewild @ [parse_issuer_value value])
         else scan_records rs issue issuewild)"

text \<open>The loops over the configured issuers and the records: the issuer that authorizes, or the
  failures met.\<close>

fun match_records ::
    "string \<Rightarrow> string option \<Rightarrow> string option \<Rightarrow> issuer_record list \<Rightarrow> caa_failure list \<Rightarrow> unit + caa_failure list" where
  "match_records configured account_url validation_method [] failures = Inr failures"
| "match_records configured account_url validation_method ((issuer, ps) # records) failures =
     (if py_lower issuer \<noteq> py_lower configured
      then match_records configured account_url validation_method records failures
      else (case parameters_allow ps account_url validation_method of
              None \<Rightarrow> Inl ()
            | Some f \<Rightarrow> match_records configured account_url validation_method records (failures @ [f])))"

fun match_issuers ::
    "string list \<Rightarrow> string option \<Rightarrow> string option \<Rightarrow> issuer_record list \<Rightarrow> caa_failure list \<Rightarrow> string + caa_failure list" where
  "match_issuers [] account_url validation_method records failures = Inr failures"
| "match_issuers (c # cs) account_url validation_method records failures =
     (case match_records c account_url validation_method records failures of
        Inl _ \<Rightarrow> Inl c
      | Inr fs \<Rightarrow> match_issuers cs account_url validation_method records fs)"

definition decide_records ::
    "bool \<Rightarrow> string list \<Rightarrow> string option \<Rightarrow> string option \<Rightarrow> string \<Rightarrow> caa_record list \<Rightarrow> bool \<times> caa_reason" where
  "decide_records is_wildcard issuers account_url validation_method lookup answers =
     (case scan_records answers [] [] of
        Inl tag \<Rightarrow> (False, Unknown_Critical lookup tag)
      | Inr (issue, issuewild) \<Rightarrow>
          (let records = (if is_wildcard \<and> issuewild \<noteq> [] then issuewild else issue)
           in if records = [] then (True, No_Issue_Tags lookup)
              else if map fst records = [[]] then (False, Denies_All lookup)
              else (case match_issuers issuers account_url validation_method records [] of
                      Inl c \<Rightarrow> (True, Authorized c lookup)
                    | Inr failures \<Rightarrow>
                        if failures \<noteq> [] then (False, Restricted lookup (extend_new [] failures))
                        else (False, Not_Listed lookup (map fst records)))))"

fun caa_walk ::
    "(string \<Rightarrow> dns_answer) \<Rightarrow> bool \<Rightarrow> (string \<Rightarrow> caa_record list \<Rightarrow> bool \<times> caa_reason) \<Rightarrow> string list \<Rightarrow> bool \<times> caa_reason" where
  "caa_walk resolve fail_hard decide [] = (True, No_Caa)"
| "caa_walk resolve fail_hard decide (p # ps) =
     (let lookup = py_join ''.'' (p # ps)
      in if lookup = [] \<or> CHR ''.'' \<notin> set lookup then (True, No_Caa)
         else (case resolve lookup of
                 Caa_Absent \<Rightarrow> caa_walk resolve fail_hard decide ps
               | Caa_Error \<Rightarrow> if fail_hard then (False, Lookup_Failed lookup)
                             else caa_walk resolve fail_hard decide ps
               | Caa_Records answers \<Rightarrow> decide lookup answers))"

definition check_caa ::
    "(string \<Rightarrow> dns_answer) \<Rightarrow> string \<Rightarrow> string list \<Rightarrow> string option \<Rightarrow> string option \<Rightarrow> bool \<Rightarrow> bool \<times> caa_reason" where
  "check_caa resolve domain issuers account_url validation_method fail_hard =
     (let is_wildcard = starts_with domain ''*.'';
          check_domain = (if is_wildcard then drop 2 domain else domain)
      in caa_walk resolve fail_hard (decide_records is_wildcard issuers account_url validation_method)
           (py_split (CHR ''.'') check_domain))"

text \<open>The verdict with the name refused; \<open>methods.get(domain)\<close> is a map.\<close>

fun check_caa_for_domains ::
    "(string \<Rightarrow> dns_answer) \<Rightarrow> string list \<Rightarrow> string list \<Rightarrow> string option \<Rightarrow> (string \<Rightarrow> string option) \<Rightarrow> bool \<Rightarrow>
     (string \<times> caa_reason) option" where
  "check_caa_for_domains resolve [] issuers account_url methods fail_hard = None"
| "check_caa_for_domains resolve (d # ds) issuers account_url methods fail_hard =
     (case check_caa resolve d issuers account_url (methods d) fail_hard of
        (True, _) \<Rightarrow> check_caa_for_domains resolve ds issuers account_url methods fail_hard
      | (False, reason) \<Rightarrow> Some (d, reason))"

section \<open>What the check decides\<close>

text \<open>The names asked, from the name up to the last one with a dot; the first that has an answer
  decides. A failed lookup counts as an answer only under strict enforcement, and a parameter
  \<open>validationmethods\<close> only when the method is known.\<close>

definition climb :: "string \<Rightarrow> string list" where
  "climb domain =
     (let labels = py_split (CHR ''.'') (if starts_with domain ''*.'' then drop 2 domain else domain)
      in map (\<lambda>i. py_join ''.'' (drop i labels)) [0..<length labels - 1])"

definition relevant :: "(string \<Rightarrow> dns_answer) \<Rightarrow> bool \<Rightarrow> string \<Rightarrow> dns_answer" where
  "relevant resolve fail_hard domain =
     (case first_row (\<lambda>d. resolve d \<noteq> Caa_Absent \<and> (fail_hard \<or> resolve d \<noteq> Caa_Error)) (climb domain) of
        None \<Rightarrow> Caa_Absent
      | Some d \<Rightarrow> resolve d)"

text \<open>The values of a parameter in an issuer value, read off its text.\<close>

definition parameter_values :: "string \<Rightarrow> string \<Rightarrow> string list" where
  "parameter_values k value =
     map (\<lambda>s. unquote (after_sep (CHR ''='') s))
       (filter (\<lambda>s. CHR ''='' \<in> set s \<and> py_lower (py_strip (before_sep (CHR ''='') s)) = k)
          (drop 1 (py_split (CHR '';'') (unquote value))))"

definition caa_issuer :: "string \<Rightarrow> string" where
  "caa_issuer value = py_strip (hd (py_split (CHR '';'') (unquote value)))"

text \<open>A record authorizes a CA that has the issuer's name, for an account every \<open>accounturi\<close> names
  and a method every \<open>validationmethods\<close> lists.\<close>

definition authorizes ::
    "string list \<Rightarrow> string option \<Rightarrow> string option \<Rightarrow> string \<Rightarrow> bool" where
  "authorizes issuers account_url validation_method value \<longleftrightarrow>
     py_lower (caa_issuer value) \<in> py_lower ` set issuers \<and>
     (\<forall>u \<in> set (parameter_values ''accounturi'' value). account_url = Some u) \<and>
     (\<forall>v \<in> set (parameter_values ''validationmethods'' value).
        \<forall>m. validation_method = Some m \<and> m \<noteq> [] \<longrightarrow> py_lower m \<in> set (method_set v))"

definition tagged :: "string \<Rightarrow> caa_record list \<Rightarrow> string list" where
  "tagged tag rs = map (\<lambda>r. py_strip (cr_value r)) (filter (\<lambda>r. py_lower (cr_tag r) = tag) rs)"

definition records_permit ::
    "bool \<Rightarrow> string list \<Rightarrow> string option \<Rightarrow> string option \<Rightarrow> caa_record list \<Rightarrow> bool" where
  "records_permit wildcard issuers account_url validation_method rs \<longleftrightarrow>
     (\<forall>r \<in> set rs. cr_flags r AND CRITICAL_FLAG \<noteq> 0 \<longrightarrow> py_lower (cr_tag r) \<in> set KNOWN_PROPERTY_TAGS) \<and>
     (let values = (if wildcard \<and> tagged ''issuewild'' rs \<noteq> [] then tagged ''issuewild'' rs else tagged ''issue'' rs)
      in values = [] \<or> (\<exists>v \<in> set values. authorizes issuers account_url validation_method v))"

definition caa_permits ::
    "(string \<Rightarrow> dns_answer) \<Rightarrow> string list \<Rightarrow> string option \<Rightarrow> (string \<Rightarrow> string option) \<Rightarrow> bool \<Rightarrow> string \<Rightarrow> bool" where
  "caa_permits resolve issuers account_url methods fail_hard d =
     (case relevant resolve fail_hard d of
        Caa_Absent \<Rightarrow> True
      | Caa_Error \<Rightarrow> False
      | Caa_Records rs \<Rightarrow> records_permit (starts_with d ''*.'') issuers account_url (methods d) rs)"

section \<open>Reference: RFC 8659 and RFC 8657\<close>

text \<open>The tree climbing of RFC 8659 reaches the top-level domain; a lookup that fails is no permission.
  Under RFC 8657 a parameter given twice is never satisfied, and one that lists methods is satisfied
  only by a method it lists.\<close>

definition tree_climb :: "string \<Rightarrow> string list" where
  "tree_climb domain =
     (let labels = py_split (CHR ''.'') (if starts_with domain ''*.'' then drop 2 domain else domain)
      in map (\<lambda>i. py_join ''.'' (drop i labels)) [0..<length labels])"

definition satisfied :: "string list \<Rightarrow> (string \<Rightarrow> bool) \<Rightarrow> bool" where
  "satisfied given admits = (case given of [] \<Rightarrow> True | [v] \<Rightarrow> admits v | _ \<Rightarrow> False)"

definition rfc_authorizes :: "string list \<Rightarrow> string option \<Rightarrow> string option \<Rightarrow> string \<Rightarrow> bool" where
  "rfc_authorizes issuers account_url validation_method value \<longleftrightarrow>
     py_lower (caa_issuer value) \<in> py_lower ` set issuers \<and>
     satisfied (parameter_values ''accounturi'' value) (\<lambda>u. account_url = Some u) \<and>
     satisfied (parameter_values ''validationmethods'' value)
       (\<lambda>v. case validation_method of None \<Rightarrow> False | Some m \<Rightarrow> py_lower m \<in> set (method_set v))"

definition rfc_permits ::
    "(string \<Rightarrow> dns_answer) \<Rightarrow> string list \<Rightarrow> string option \<Rightarrow> (string \<Rightarrow> string option) \<Rightarrow> string \<Rightarrow> bool" where
  "rfc_permits resolve issuers account_url methods d =
     (case first_row (\<lambda>x. resolve x \<noteq> Caa_Absent) (tree_climb d) of
        None \<Rightarrow> True
      | Some x \<Rightarrow>
          (case resolve x of
             Caa_Records rs \<Rightarrow>
               list_all (\<lambda>r. cr_flags r AND CRITICAL_FLAG \<noteq> 0 \<longrightarrow> py_lower (cr_tag r) \<in> set KNOWN_PROPERTY_TAGS) rs \<and>
               (let vals = (if starts_with d ''*.'' \<and> tagged ''issuewild'' rs \<noteq> [] then tagged ''issuewild'' rs
                            else tagged ''issue'' rs)
                in vals = [] \<or> list_ex (rfc_authorizes issuers account_url (methods d)) vals)
           | _ \<Rightarrow> False))"

text \<open>What the code relies on of the zones: no records at a top-level domain, and no parameter of
  RFC 8657 given twice in one value.\<close>

definition zones_in_scope :: "(string \<Rightarrow> dns_answer) \<Rightarrow> bool" where
  "zones_in_scope resolve \<longleftrightarrow>
     (\<forall>l. CHR ''.'' \<notin> set l \<longrightarrow> resolve l = Caa_Absent) \<and>
     (\<forall>d rs r k. resolve d = Caa_Records rs \<and> r \<in> set rs \<longrightarrow>
        length (parameter_values k (py_strip (cr_value r))) \<le> 1)"

section \<open>The check decides the reference\<close>

lemma get_add_parameter: "get_parameter k (add_parameter k' v ps) = get_parameter k ps @ (if k = k' then [v] else [])"
proof -
  have upd: "map_of (map (\<lambda>(a, vs). if a = k' then (a, vs @ [v]) else (a, vs)) ps) k =
      map_option (\<lambda>vs. if k = k' then vs @ [v] else vs) (map_of ps k)" for ps :: caa_params
    by (induction ps) auto
  have mem: "map_of ps k' \<noteq> None \<longleftrightarrow> k' \<in> fst ` set ps"
    by (simp add: map_of_eq_None_iff)
  show ?thesis
    using mem upd[of ps]
    by (auto simp: get_parameter_def add_parameter_def map_add_def split: option.splits)
qed

lemma get_parse_parameters:
  assumes "k \<noteq> []"
  shows "get_parameter k (parse_parameters segments ps) = get_parameter k ps
     @ map (\<lambda>s. unquote (after_sep (CHR ''='') s))
         (filter (\<lambda>s. CHR ''='' \<in> set s \<and> py_lower (py_strip (before_sep (CHR ''='') s)) = k) segments)"
  using assms by (induction segments arbitrary: ps) (auto simp: Let_def get_add_parameter)

lemma parse_issuer_value_parts:
  "fst (parse_issuer_value value) = caa_issuer value"
  "k \<noteq> [] \<Longrightarrow> get_parameter k (snd (parse_issuer_value value)) = parameter_values k value"
  by (simp_all add: parse_issuer_value_def caa_issuer_def parameter_values_def Let_def get_parse_parameters)
    (simp add: get_parameter_def)

lemma parameters_allow_iff:
  "parameters_allow (snd (parse_issuer_value value)) account_url validation_method = None \<longleftrightarrow>
     (\<forall>u \<in> set (parameter_values ''accounturi'' value). account_url = Some u) \<and>
     (\<forall>v \<in> set (parameter_values ''validationmethods'' value).
        \<forall>m. validation_method = Some m \<and> m \<noteq> [] \<longrightarrow> py_lower m \<in> set (method_set v))"
proof -
  have uris: "uris \<noteq> [] \<and> (case account_url of None \<Rightarrow> True | Some u \<Rightarrow> list_ex (\<lambda>uri. uri \<noteq> u) uris)
      \<longleftrightarrow> \<not> (\<forall>u \<in> set uris. account_url = Some u)" for uris
    by (cases account_url; cases uris) (auto simp: list_ex_iff eq_commute)
  have acc: "get_parameter ''accounturi'' (snd (parse_issuer_value value)) = parameter_values ''accounturi'' value"
    "get_parameter ''validationmethods'' (snd (parse_issuer_value value)) = parameter_values ''validationmethods'' value"
    by (simp_all add: parse_issuer_value_parts)
  show ?thesis
    unfolding parameters_allow_def Let_def acc uris
    by (cases validation_method) (auto simp: list_ex_iff)
qed

lemma match_records_Inl:
  "(\<exists>u. match_records c account_url validation_method records fs = Inl u) \<longleftrightarrow>
     (\<exists>r \<in> set records. py_lower (fst r) = py_lower c \<and> parameters_allow (snd r) account_url validation_method = None)"
  by (induction c account_url validation_method records fs rule: match_records.induct) (auto split: option.splits)

lemma match_issuers_Inl:
  "(\<exists>c. match_issuers cs account_url validation_method records fs = Inl c) \<longleftrightarrow>
     (\<exists>r \<in> set records. py_lower (fst r) \<in> py_lower ` set cs \<and> parameters_allow (snd r) account_url validation_method = None)"
proof (induction cs arbitrary: fs)
  case (Cons c cs)
  then show ?case
  proof (cases "match_records c account_url validation_method records fs")
    case (Inl u)
    then show ?thesis
      using match_records_Inl[of c account_url validation_method records fs] by auto
  next
    case (Inr gs)
    then have "\<not> (\<exists>r \<in> set records. py_lower (fst r) = py_lower c
        \<and> parameters_allow (snd r) account_url validation_method = None)"
      using match_records_Inl[of c account_url validation_method records fs] by simp
    then show ?thesis using Cons[of gs] Inr by auto
  qed
qed simp

lemma scan_records_spec:
  "scan_records rs issue issuewild =
     (case first_row (\<lambda>r. py_lower (cr_tag r) \<notin> set KNOWN_PROPERTY_TAGS \<and> cr_flags r AND CRITICAL_FLAG \<noteq> 0) rs of
        Some r \<Rightarrow> Inl (py_lower (cr_tag r))
      | None \<Rightarrow> Inr (issue @ map parse_issuer_value (tagged ''issue'' rs),
                    issuewild @ map parse_issuer_value (tagged ''issuewild'' rs)))"
proof (induction rs arbitrary: issue issuewild)
  case (Cons r rs)
  let ?crit = "\<lambda>r. py_lower (cr_tag r) \<notin> set KNOWN_PROPERTY_TAGS \<and> cr_flags r AND CRITICAL_FLAG \<noteq> 0"
  have "first_row ?crit (r # rs) = (if ?crit r then Some r else first_row ?crit rs)" by (simp add: first_row_def)
  then show ?case
    by (cases "first_row ?crit rs") (auto simp: Cons.IH tagged_def Let_def)
qed (simp add: first_row_def tagged_def)

lemma authorizes_iff:
  "authorizes issuers account_url validation_method v \<longleftrightarrow>
     py_lower (fst (parse_issuer_value v)) \<in> py_lower ` set issuers \<and>
     parameters_allow (snd (parse_issuer_value v)) account_url validation_method = None"
  by (simp add: authorizes_def parameters_allow_iff parse_issuer_value_parts)

lemma decide_records_iff:
  assumes "[] \<notin> set issuers"
  shows "fst (decide_records wildcard issuers account_url validation_method lookup rs) \<longleftrightarrow>
     records_permit wildcard issuers account_url validation_method rs"
proof -
  let ?crit = "\<lambda>r. py_lower (cr_tag r) \<notin> set KNOWN_PROPERTY_TAGS \<and> cr_flags r AND CRITICAL_FLAG \<noteq> 0"
  show ?thesis
  proof (cases "first_row ?crit rs")
    case (Some r)
    then have "\<not> records_permit wildcard issuers account_url validation_method rs"
      using first_row_SomeD[OF Some] by (auto simp: records_permit_def)
    then show ?thesis by (simp add: decide_records_def scan_records_spec Some)
  next
    case None
    let ?vals = "if wildcard \<and> tagged ''issuewild'' rs \<noteq> [] then tagged ''issuewild'' rs else tagged ''issue'' rs"
    let ?records = "map parse_issuer_value ?vals"
    have known: "\<forall>r \<in> set rs. cr_flags r AND CRITICAL_FLAG \<noteq> 0 \<longrightarrow> py_lower (cr_tag r) \<in> set KNOWN_PROPERTY_TAGS"
      using None by (auto simp: first_row_None_iff)
    have auth: "(\<exists>c. match_issuers issuers account_url validation_method ?records [] = Inl c) \<longleftrightarrow>
        (\<exists>v \<in> set ?vals. authorizes issuers account_url validation_method v)"
      by (simp only: match_issuers_Inl authorizes_iff set_map bex_simps)
    have denied: "\<not> (\<exists>v \<in> set ?vals. authorizes issuers account_url validation_method v)" if "map fst ?records = [[]]"
      using that assms
      by (auto simp: authorizes_iff map_eq_Cons_conv py_lower_def)
    have "fst (decide_records wildcard issuers account_url validation_method lookup rs) \<longleftrightarrow>
        ?vals = [] \<or> map fst ?records \<noteq> [[]] \<and> (\<exists>c. match_issuers issuers account_url validation_method ?records [] = Inl c)"
    proof -
      have chosen: "(if wildcard \<and> map parse_issuer_value (tagged ''issuewild'' rs) \<noteq> []
          then map parse_issuer_value (tagged ''issuewild'' rs) else map parse_issuer_value (tagged ''issue'' rs)) = ?records"
        by simp
      have empty: "?records = [] \<longleftrightarrow> ?vals = []" by (simp only: map_is_Nil_conv)
      show ?thesis
        unfolding decide_records_def scan_records_spec None option.case sum.case prod.case append_Nil chosen Let_def
        unfolding empty
        by (cases "match_issuers issuers account_url validation_method ?records []"; cases "?vals = []";
            cases "map fst ?records = [[]]") (simp_all only: if_True if_False sum.case sum.inject sum.distinct fst_conv simp_thms if_cancel split: if_splits)
    qed
    then show ?thesis
      using known auth denied by (auto simp: records_permit_def Let_def simp del: map_map)
  qed
qed

lemma climb_labels:
  assumes "qs \<noteq> []"
  shows "map (\<lambda>i. py_join ''.'' (drop i (p # qs))) [0..<length (p # qs) - 1] =
     py_join ''.'' (p # qs) # map (\<lambda>i. py_join ''.'' (drop i qs)) [0..<length qs - 1]"
proof -
  have "[0..<length qs] = 0 # map Suc [0..<length qs - 1]"
    using assms by (simp add: upt_conv_Cons map_Suc_upt)
  then show ?thesis by simp
qed

lemma caa_walk_spec:
  assumes "list_all (\<lambda>p. CHR ''.'' \<notin> set p) labels"
  shows "caa_walk resolve fail_hard decide labels =
     (case first_row (\<lambda>d. resolve d \<noteq> Caa_Absent \<and> (fail_hard \<or> resolve d \<noteq> Caa_Error))
             (map (\<lambda>i. py_join ''.'' (drop i labels)) [0..<length labels - 1]) of
        None \<Rightarrow> (True, No_Caa)
      | Some d \<Rightarrow> (case resolve d of Caa_Records rs \<Rightarrow> decide d rs | _ \<Rightarrow> (False, Lookup_Failed d)))"
  using assms
proof (induction labels)
  case (Cons p qs)
  show ?case
  proof (cases "qs = []")
    case True
    then show ?thesis using Cons.prems by (simp add: first_row_def)
  next
    case False
    have "CHR ''.'' \<in> set (py_join ''.'' (p # qs))" using False by (cases qs) auto
    then have dot: "\<not> (py_join ''.'' (p # qs) = [] \<or> CHR ''.'' \<notin> set (py_join ''.'' (p # qs)))" by auto
    have IH: "caa_walk resolve fail_hard decide qs =
     (case first_row (\<lambda>d. resolve d \<noteq> Caa_Absent \<and> (fail_hard \<or> resolve d \<noteq> Caa_Error))
             (map (\<lambda>i. py_join ''.'' (drop i qs)) [0..<length qs - 1]) of
        None \<Rightarrow> (True, No_Caa)
      | Some d \<Rightarrow> (case resolve d of Caa_Records rs \<Rightarrow> decide d rs | _ \<Rightarrow> (False, Lookup_Failed d)))"
      using Cons by simp
    show ?thesis
      unfolding caa_walk.simps Let_def climb_labels[OF False] if_not_P[OF dot] IH
      by (cases "resolve (py_join ''.'' (p # qs))") (auto simp: first_row_def)
  qed
qed (simp add: first_row_def)

lemma check_caa_iff:
  assumes "[] \<notin> set issuers"
  shows "fst (check_caa resolve d issuers account_url (methods d) fail_hard) \<longleftrightarrow>
     caa_permits resolve issuers account_url methods fail_hard d"
proof -
  let ?name = "if starts_with d ''*.'' then drop 2 d else d"
  let ?P = "\<lambda>x. resolve x \<noteq> Caa_Absent \<and> (fail_hard \<or> resolve x \<noteq> Caa_Error)"
  have labels: "list_all (\<lambda>p. CHR ''.'' \<notin> set p) (py_split (CHR ''.'') ?name)"
    using py_split_no_sep by (auto simp: list_all_iff)
  have walk: "check_caa resolve d issuers account_url (methods d) fail_hard =
     (case first_row ?P (climb d) of
        None \<Rightarrow> (True, No_Caa)
      | Some x \<Rightarrow> (case resolve x of
            Caa_Records rs \<Rightarrow> decide_records (starts_with d ''*.'') issuers account_url (methods d) x rs
          | _ \<Rightarrow> (False, Lookup_Failed x)))"
    unfolding check_caa_def Let_def climb_def by (rule caa_walk_spec[OF labels])
  show ?thesis
  proof (cases "first_row ?P (climb d)")
    case None
    then show ?thesis unfolding walk by (simp add: caa_permits_def relevant_def)
  next
    case (Some x)
    then have "resolve x \<noteq> Caa_Absent" using first_row_SomeD by fastforce
    then show ?thesis
      unfolding walk using decide_records_iff[OF assms]
      by (cases "resolve x") (auto simp: caa_permits_def relevant_def Some)
  qed
qed

lemma check_caa_domains_iff:
  assumes "[] \<notin> set issuers"
  shows "check_caa_for_domains resolve domains issuers account_url methods fail_hard = None \<longleftrightarrow>
     list_all (caa_permits resolve issuers account_url methods fail_hard) domains"
proof (induction domains)
  case (Cons d ds)
  show ?case
    using Cons.IH check_caa_iff[OF assms, of resolve d account_url methods fail_hard]
    by (cases "check_caa resolve d issuers account_url (methods d) fail_hard"; cases "fst (check_caa resolve d issuers account_url (methods d) fail_hard)") auto
qed simp

lemma climb_tree:
  "\<exists>l. CHR ''.'' \<notin> set l \<and> tree_climb d = climb d @ [l]"
proof -
  let ?labels = "py_split (CHR ''.'') (if starts_with d ''*.'' then drop 2 d else d)"
  have ne: "?labels \<noteq> []" by simp
  then have "[0..<length ?labels] = [0..<length ?labels - 1] @ [length ?labels - 1]"
    by (metis length_greater_0_conv Suc_diff_1 upt_Suc_append zero_le)
  moreover have "drop (length ?labels - 1) ?labels = [last ?labels]"
    using ne by (metis append_butlast_last_id append_eq_conv_conj length_butlast)
  moreover have "CHR ''.'' \<notin> set (last ?labels)"
    using py_split_no_sep last_in_set[OF ne] by blast
  ultimately show ?thesis by (auto simp: tree_climb_def climb_def Let_def)
qed

lemma first_row_snoc: "\<not> P x \<Longrightarrow> first_row P (xs @ [x]) = first_row P xs"
  by (induction xs) (auto simp: first_row_def)

lemma relevant_tree:
  assumes "zones_in_scope resolve"
  shows "relevant resolve True d =
     (case first_row (\<lambda>x. resolve x \<noteq> Caa_Absent) (tree_climb d) of None \<Rightarrow> Caa_Absent | Some x \<Rightarrow> resolve x)"
proof -
  obtain l where l: "CHR ''.'' \<notin> set l" and tree: "tree_climb d = climb d @ [l]" using climb_tree by blast
  have "resolve l = Caa_Absent" using assms l by (simp add: zones_in_scope_def)
  then have "first_row (\<lambda>x. resolve x \<noteq> Caa_Absent) (tree_climb d) = first_row (\<lambda>x. resolve x \<noteq> Caa_Absent) (climb d)"
    unfolding tree by (intro first_row_snoc) simp
  then show ?thesis by (simp add: relevant_def)
qed

lemma satisfied_iff: "length vs \<le> 1 \<Longrightarrow> satisfied vs P \<longleftrightarrow> (\<forall>v \<in> set vs. P v)"
  by (cases vs) (auto simp: satisfied_def)

lemma authorizes_rfc:
  assumes "\<And>k. length (parameter_values k v) \<le> 1" and "m \<noteq> []"
  shows "rfc_authorizes issuers account_url (Some m) v \<longleftrightarrow> authorizes issuers account_url (Some m) v"
  using assms by (simp add: rfc_authorizes_def authorizes_def satisfied_iff)

lemma permits_rfc:
  assumes zones: "zones_in_scope resolve" and known: "methods d = Some m" "m \<noteq> []"
  shows "caa_permits resolve issuers account_url methods True d \<longleftrightarrow> rfc_permits resolve issuers account_url methods d"
proof (cases "first_row (\<lambda>x. resolve x \<noteq> Caa_Absent) (tree_climb d)")
  case None
  then show ?thesis by (simp add: caa_permits_def rfc_permits_def relevant_tree[OF zones])
next
  case (Some x)
  then have absent: "resolve x \<noteq> Caa_Absent" using first_row_SomeD by fastforce
  have same: "(\<exists>v \<in> set (tagged t rs). authorizes issuers account_url (Some m) v) \<longleftrightarrow>
      list_ex (rfc_authorizes issuers account_url (Some m)) (tagged t rs)" if "resolve x = Caa_Records rs" for t rs
  proof -
    have "length (parameter_values k v) \<le> 1" if "v \<in> set (tagged t rs)" for k v
      using that zones \<open>resolve x = Caa_Records rs\<close> by (auto simp: zones_in_scope_def tagged_def)
    then show ?thesis using known(2) by (auto simp: list_ex_iff authorizes_rfc)
  qed
  show ?thesis
    using absent same known(1)
    by (cases "resolve x")
      (simp_all add: caa_permits_def rfc_permits_def relevant_tree[OF zones] Some records_permit_def list_all_iff Let_def)
qed


text \<open>Without strict enforcement a zone whose name servers do not answer no longer restricts its names;
  a strict check refuses them.\<close>

lemma soft_failure_lifts_restriction:
  "check_caa_for_domains (\<lambda>d. if d = ''x.io'' then Caa_Error else Caa_Absent) [''x.io''] [''my.ca''] None methods False = None"
  "check_caa_for_domains (\<lambda>d. if d = ''x.io'' then Caa_Error else Caa_Absent) [''x.io''] [''my.ca''] None methods True
     = Some (''x.io'', Lookup_Failed ''x.io'')"
  by (simp_all add: check_caa_def starts_with_def)

text \<open>A wildcard under a parent whose \<open>issuewild\<close> record binds issuance to one account and one method.\<close>

definition sample_zone :: "string \<Rightarrow> dns_answer" where
  "sample_zone d =
     (if d = ''x.io''
      then Caa_Records [\<lparr>cr_flags = 0, cr_tag = ''issue'', cr_value = ''other.ca''\<rparr>,
                        \<lparr>cr_flags = 128, cr_tag = ''IssueWild'',
                         cr_value = ''My.ca; accounturi=u1; validationmethods=dns-01,tls''\<rparr>]
      else Caa_Absent)"

lemma sample_zone_in_scope: "zones_in_scope sample_zone"
proof -
  have strip: "py_strip ''other.ca'' = ''other.ca''"
    "py_strip ''My.ca; accounturi=u1; validationmethods=dns-01,tls'' = ''My.ca; accounturi=u1; validationmethods=dns-01,tls''"
    by code_simp+
  have segs: "drop 1 (py_split (CHR '';'') (unquote ''other.ca'')) = []"
    "drop 1 (py_split (CHR '';'') (unquote ''My.ca; accounturi=u1; validationmethods=dns-01,tls'')) =
       ['' accounturi=u1'', '' validationmethods=dns-01,tls'']"
    by code_simp+
  have keys: "py_lower (py_strip (before_sep (CHR ''='') '' accounturi=u1'')) = ''accounturi''"
    "py_lower (py_strip (before_sep (CHR ''='') '' validationmethods=dns-01,tls'')) = ''validationmethods''"
    by code_simp+
  have "length (parameter_values k ''other.ca'') \<le> 1"
    "length (parameter_values k ''My.ca; accounturi=u1; validationmethods=dns-01,tls'') \<le> 1" for k
    unfolding parameter_values_def segs by (auto simp: keys)
  then show ?thesis by (auto simp: zones_in_scope_def sample_zone_def strip split: if_splits)
qed


end
