(* ===== verification/Acme_Finalize.thy ===== *)
theory Acme_Finalize
  imports Acme_Safety Name_Constraints Caa
begin

text \<open>
  Finalizing an ACME order (\<^verbatim>\<open>services/acme/mixins/issuance.py\<close>): the checks of the certificate
  request against the order, the CAA check, the choice of the CA, and how the outcome is told to the
  route (\<^verbatim>\<open>api/acme/acme_api.py\<close>), which reads the kind of a failure off its text. The outcome is
  one of the \<open>finalize_outcome\<close>s whose effect on the order \<open>finish_finalize\<close> models.

  Parameters, in the record \<open>finalize_env\<close>: the certificate library, Python's \<open>repr\<close> of a text,
  the DNS resolver, the public host of the server, the template a profile binds, and the signature
  (\<open>CertificateService.sign_csr\<close>) with the exceptions it raises. The request is given decoded; the
  values of an order's identifiers are texts, as \<open>validate_acme_identifier\<close> left them.
\<close>

section \<open>The request\<close>

datatype csr_san = San_Absent | San_Unreadable string | San_Names "general_name list"

record csr =
  csr_subject :: x_name
  csr_extension :: csr_san

datatype sign_exn = Policy_Violation_Exn string | Window_Exn string | Offline_Exn string | Value_Exn string | Other_Exn string

datatype sign_result = Signed int | Sign_Raised sign_exn

record finalize_env =
  fe_lib :: name_lib
  fe_repr :: "string \<Rightarrow> string"
  fe_resolve :: "string \<Rightarrow> dns_answer"
  fe_public_host :: "string option"
  fe_base_url :: string
  fe_verifies :: "x509 \<Rightarrow> x509 \<Rightarrow> bool option"
  fe_pki :: pki
  fe_locals :: "acme_local_domain list"
  fe_domains :: "acme_domain list"
  fe_template :: "string option \<Rightarrow> (string \<times> string list option) option"
  fe_sign :: "ca_row \<Rightarrow> csr \<Rightarrow> sign_result"

definition san_names_of :: "csr \<Rightarrow> general_name list" where
  "san_names_of r = (case csr_extension r of San_Names ns \<Rightarrow> ns | _ \<Rightarrow> [])"

fun dns_values :: "general_name list \<Rightarrow> string list" where
  "dns_values [] = []"
| "dns_values (DNSName v # ns) = v # dns_values ns"
| "dns_values (_ # ns) = dns_values ns"

definition extract_domains_from_csr :: "csr \<Rightarrow> string list" where
  "extract_domains_from_csr r =
     extend_new (take 1 (attributes_for_oid COMMON_NAME (csr_subject r))) (dns_values (san_names_of r))"

fun ip_texts :: "name_lib \<Rightarrow> general_name list \<Rightarrow> string list" where
  "ip_texts lib [] = []"
| "ip_texts lib (IPAddress v # ns) = nl_ip_text lib v # ip_texts lib ns"
| "ip_texts lib (_ # ns) = ip_texts lib ns"

definition extract_ip_from_csr_san :: "name_lib \<Rightarrow> csr \<Rightarrow> string list" where
  "extract_ip_from_csr_san lib r = ip_texts lib (san_names_of r)"

definition identifier_values :: "string \<Rightarrow> json list \<Rightarrow> string list" where
  "identifier_values t ids =
     List.map_filter (\<lambda>i. if json_field ''type'' i = JStr t
                          then (case json_field ''value'' i of JStr v \<Rightarrow> Some v | _ \<Rightarrow> None) else None) ids"

text \<open>\<open>d.lower().rstrip('.')\<close>.\<close>

definition norm_domain :: "string \<Rightarrow> string" where
  "norm_domain d = rstrip_char (CHR ''.'') (py_lower d)"

section \<open>Texts\<close>

definition show_list :: "(string \<Rightarrow> string) \<Rightarrow> string list \<Rightarrow> string" where
  "show_list repr xs = ''['' @ py_join '', '' (map repr xs) @ '']''"

fun caa_failure_text :: "caa_failure \<Rightarrow> string" where
  "caa_failure_text Account_Mismatch = ''accounturi does not match the requesting ACME account''"
| "caa_failure_text Method_Not_Allowed = ''validationmethods does not allow the validation method used''"

fun caa_reason_text :: "(string \<Rightarrow> string) \<Rightarrow> string list \<Rightarrow> caa_reason \<Rightarrow> string" where
  "caa_reason_text repr issuers (Lookup_Failed d) = ''CAA DNS lookup failed (DNS error) for '' @ d"
| "caa_reason_text repr issuers (Unknown_Critical d tag) = ''CAA at '' @ d @ '' has unknown critical property '' @ tag"
| "caa_reason_text repr issuers (No_Issue_Tags d) = ''CAA record at '' @ d @ '' has no issue tags''"
| "caa_reason_text repr issuers (Denies_All d) =
     ''CAA record at '' @ d @ '' denies all issuance (issue '' @ [CHR 0x22] @ '';'' @ [CHR 0x22] @ '')''"
| "caa_reason_text repr issuers (Authorized c d) = ''CAA authorized: '' @ c @ '' matches at '' @ d"
| "caa_reason_text repr issuers (Restricted d fs) =
     ''CAA at '' @ d @ '' denies issuance: '' @ py_join '', '' (map caa_failure_text fs)"
| "caa_reason_text repr issuers (Not_Listed d values) =
     ''CAA at '' @ d @ '' allows '' @ show_list repr values @ '', not '' @ show_list repr issuers"
| "caa_reason_text repr issuers No_Caa = ''No CAA record found (issuance allowed by default)''"

section \<open>Checks of names\<close>

text \<open>\<open>_validate_csr_san_types\<close>, the first refusal.\<close>

fun san_type_check :: "finalize_env \<Rightarrow> string list \<Rightarrow> string list \<Rightarrow> general_name list \<Rightarrow> string option" where
  "san_type_check env domains ips [] = None"
| "san_type_check env domains ips (DNSName v # ns) =
     (if norm_domain v \<notin> set domains
      then Some (''CSR SAN dNSName '' @ fe_repr env v @ '' is not an authorized order identifier'')
      else san_type_check env domains ips ns)"
| "san_type_check env domains ips (IPAddress v # ns) =
     (if nl_ip_text (fe_lib env) v \<notin> set ips
      then Some (''CSR SAN iPAddress '' @ nl_ip_text (fe_lib env) v @ '' is not an authorized order identifier'')
      else san_type_check env domains ips ns)"
| "san_type_check env domains ips (n # ns) =
     Some (''CSR SAN contains unauthorized general name type '' @ type_name n
           @ (case n of OtherName t _ \<Rightarrow> '' (type-id '' @ t @ '')'' | _ \<Rightarrow> [])
           @ ''; ACME may only certify the DNS and IP identifiers validated by the order'')"

definition validate_csr_san_types :: "finalize_env \<Rightarrow> csr \<Rightarrow> string list \<Rightarrow> string list \<Rightarrow> string option" where
  "validate_csr_san_types env r domains ips =
     (case csr_extension r of
        San_Absent \<Rightarrow> None
      | San_Unreadable exc \<Rightarrow> Some (''Unable to parse CSR SubjectAlternativeName: '' @ exc)
      | San_Names ns \<Rightarrow> san_type_check env domains ips ns)"

definition validate_csr_subject :: "finalize_env \<Rightarrow> csr \<Rightarrow> string list \<Rightarrow> string list \<Rightarrow> string option" where
  "validate_csr_subject env r domains ips =
     (case attributes_for_oid EMAIL_ADDRESS (csr_subject r) of
        e # _ \<Rightarrow> Some (''CSR subject contains an emailAddress attribute ('' @ fe_repr env e
                        @ ''); ACME may only certify the DNS and IP identifiers validated by the order'')
      | [] \<Rightarrow>
          (case first_row (\<lambda>cn. norm_domain cn \<notin> set domains \<and> norm_domain cn \<notin> set ips \<and> cn \<notin> set ips)
                  (attributes_for_oid COMMON_NAME (csr_subject r)) of
             None \<Rightarrow> None
           | Some cn \<Rightarrow> Some (''CSR subject commonName '' @ fe_repr env cn @ '' is not an authorized order identifier'')))"

definition SAN_TYPE_LABELS :: "(string \<times> string) list" where
  "SAN_TYPE_LABELS = [(''dns'', ''DNS''), (''ip'', ''IP''), (''email'', ''email''), (''uri'', ''URI''), (''upn'', ''UPN'')]"

definition san_type_refusal :: "string list option \<Rightarrow> string list \<Rightarrow> string \<Rightarrow> string option" where
  "san_type_refusal allowed types template_name =
     (case allowed of
        None \<Rightarrow> None
      | Some ok \<Rightarrow>
          (let refused = sorted_set (filter (\<lambda>t. t \<notin> set ok) types)
           in if refused = [] then None
              else Some ((if template_name = [] then ''The certificate template'' else ''Template '' @ [CHR 0x27] @ template_name @ [CHR 0x27])
                         @ '' does not allow ''
                         @ py_join '', '' (map (\<lambda>t. case map_of SAN_TYPE_LABELS t of Some l \<Rightarrow> l | None \<Rightarrow> t) refused)
                         @ '' names in the Subject Alternative Name'')))"

section \<open>The CAA check of an order\<close>

fun challenge_type_text :: "challenge_type \<Rightarrow> string" where
  "challenge_type_text DNS_01 = ''dns-01''"
| "challenge_type_text DNS_PERSIST_01 = ''dns-persist-01''"
| "challenge_type_text HTTP_01 = ''http-01''"
| "challenge_type_text TLS_ALPN_01 = ''tls-alpn-01''"

text \<open>The method of an authorization is the type of its valid challenges when they have one; a later
  authorization of the same name overwrites an earlier one.\<close>

definition authz_method :: "acme_state \<Rightarrow> acme_authorization \<Rightarrow> string option" where
  "authz_method st z =
     (case remdups (map (\<lambda>c. challenge_type_text (c_type c)) (filter (\<lambda>c. c_status c = C_Valid) (authz_challenges (z_id z) st))) of
        [m] \<Rightarrow> Some m | _ \<Rightarrow> None)"

definition authz_domain :: "acme_authorization \<Rightarrow> string option" where
  "authz_domain z =
     (if json_field ''type'' (z_identifier z) \<noteq> JStr ''dns'' then None
      else (case json_field ''value'' (z_identifier z) of
              JStr d \<Rightarrow> Some (if z_wildcard z \<and> \<not> starts_with d ''*.'' then ''*.'' @ d else d)
            | _ \<Rightarrow> Some (if z_wildcard z then ''*.'' else [])))"

definition caa_request_context :: "finalize_env \<Rightarrow> acme_state \<Rightarrow> acme_order \<Rightarrow> string \<times> (string \<Rightarrow> string option)" where
  "caa_request_context env st o' =
     (fe_base_url env @ ''/acme/acct/'' @ o_account_id o',
      \<lambda>d. (case map_of (rev (List.map_filter (\<lambda>z. map_option (\<lambda>n. (n, authz_method st z)) (authz_domain z))
                               (order_authorizations (o_id o') st))) d of
             None \<Rightarrow> None | Some m \<Rightarrow> m))"

definition caa_identifiers :: "finalize_env \<Rightarrow> string list" where
  "caa_identifiers env =
     (let configured = (case map_of (p_config (fe_pki env)) ''acme_caa_identifiers'' of
                          None \<Rightarrow> []
                        | Some v \<Rightarrow> filter (\<lambda>x. x \<noteq> []) (map py_strip (py_split (CHR '','') v)))
      in if configured \<noteq> [] then configured
         else (case fe_public_host env of None \<Rightarrow> [] | Some h \<Rightarrow> [h]))"

definition caa_enforce :: "finalize_env \<Rightarrow> bool" where
  "caa_enforce env =
     (case map_of (p_config (fe_pki env)) ''acme_caa_enforce'' of None \<Rightarrow> False | Some v \<Rightarrow> py_lower v = ''true'')"

definition caa_refusal :: "finalize_env \<Rightarrow> acme_state \<Rightarrow> acme_order \<Rightarrow> string list \<Rightarrow> string option" where
  "caa_refusal env st o' domains =
     (let (account_url, methods) = caa_request_context env st o'; issuers = caa_identifiers env
      in case check_caa_for_domains (fe_resolve env) domains issuers (Some account_url) methods (caa_enforce env) of
           None \<Rightarrow> None
         | Some (d, reason) \<Rightarrow>
             Some (''CAA check failed: CAA check failed for '' @ d @ '': '' @ caa_reason_text (fe_repr env) issuers reason))"

section \<open>The checks of finalize\_order, in order\<close>

definition first_some :: "string option list \<Rightarrow> string option" where
  "first_some xs = (case filter (\<lambda>x. x \<noteq> None) xs of [] \<Rightarrow> None | x # _ \<Rightarrow> x)"

definition mismatch_text :: "finalize_env \<Rightarrow> string \<Rightarrow> string list \<Rightarrow> string list \<Rightarrow> string" where
  "mismatch_text env what a b =
     ''CSR '' @ what @ '' '' @ show_list (fe_repr env) (sorted_set a) @ '' don'' @ [CHR 0x27] @ ''t match order '' @ what
     @ '' '' @ show_list (fe_repr env) (sorted_set b)"

definition finalize_refusal :: "finalize_env \<Rightarrow> acme_state \<Rightarrow> acme_order \<Rightarrow> csr \<Rightarrow> string option" where
  "finalize_refusal env st o' r =
     (let order_domains = identifier_values ''dns'' (o_identifiers o');
          order_ips = identifier_values ''ip'' (o_identifiers o');
          csr_norm = map norm_domain (extract_domains_from_csr r);
          order_norm = map norm_domain order_domains;
          csr_ips = extract_ip_from_csr_san (fe_lib env) r
      in first_some
           [if set csr_norm \<noteq> set order_norm then Some (mismatch_text env ''domains'' csr_norm order_norm) else None,
            if set csr_ips \<noteq> set order_ips then Some (mismatch_text env ''IPs'' csr_ips order_ips) else None,
            validate_csr_san_types env r order_norm order_ips,
            validate_csr_subject env r order_norm order_ips,
            (case fe_template env (o_profile o') of
               None \<Rightarrow> None
             | Some (name, allowed) \<Rightarrow>
                 san_type_refusal allowed
                   ((if order_norm \<noteq> [] then [''dns''] else []) @ (if order_ips \<noteq> [] then [''ip''] else [])) name),
            (if order_domains = [] then None else caa_refusal env st o' order_domains)])"

section \<open>The CA\<close>

definition keyed_refid :: "pki \<Rightarrow> int option \<Rightarrow> string option" where
  "keyed_refid st i =
     (case i of
        None \<Rightarrow> None
      | Some n \<Rightarrow> if n = 0 then None
                 else (case get_ca st n of
                         None \<Rightarrow> None | Some ca \<Rightarrow> if has_private_key ca then Some (ca_refid ca) else None))"

definition find_provider_ca :: "acme_domain list \<Rightarrow> string \<Rightarrow> int option" where
  "find_provider_ca rows domain =
     (case find_entry ad_domain rows domain of None \<Rightarrow> None | Some d \<Rightarrow> ad_issuing_ca_id d)"

definition default_ca :: "pki \<Rightarrow> string option" where
  "default_ca st =
     (case map_of (p_config st) ''acme.issuing_ca_id'' of
        None \<Rightarrow> None
      | Some v \<Rightarrow>
          if v = [] then None
          else (case (case ca_by_refid st v of
                        Some ca \<Rightarrow> Some ca
                      | None \<Rightarrow> (case py_int 10 v of None \<Rightarrow> None | Some n \<Rightarrow> get_ca st n)) of
                  None \<Rightarrow> None
                | Some ca \<Rightarrow> if has_private_key ca then Some (ca_refid ca) else None))"

definition resolve_ca_for_domains :: "finalize_env \<Rightarrow> string list \<Rightarrow> string option" where
  "resolve_ca_for_domains env domains =
     first_some (map (\<lambda>d. keyed_refid (fe_pki env) (find_local_domain_ca (fe_locals env) d)) domains
                    @ map (\<lambda>d. keyed_refid (fe_pki env) (find_provider_ca (fe_domains env) d)) domains
                    @ [default_ca (fe_pki env)])"

definition fallback_ca :: "finalize_env \<Rightarrow> ca_row option" where
  "fallback_ca env =
     first_row (\<lambda>ca. chain_revocation (fe_verifies env) (fe_pki env) ca = None)
       (sort_key ca_id (filter (\<lambda>ca. has_private_key ca \<and> ca_crt ca \<noteq> No_Crt \<and> \<not> ca_offline ca) (p_cas (fe_pki env))))"

definition signing_ca :: "finalize_env \<Rightarrow> string option \<Rightarrow> ca_row option" where
  "signing_ca env refid =
     (case refid of
        None \<Rightarrow> fallback_ca env
      | Some r \<Rightarrow> if r = [] then fallback_ca env else ca_by_refid (fe_pki env) r)"

text \<open>A failure with the exception recorded for it and its text.\<close>

fun exn_text :: "sign_exn \<Rightarrow> string" where
  "exn_text (Policy_Violation_Exn t) = t"
| "exn_text (Window_Exn t) = t"
| "exn_text (Offline_Exn t) = t"
| "exn_text (Value_Exn t) = t"
| "exn_text (Other_Exn t) = t"

definition sign_certificate_with_ca :: "finalize_env \<Rightarrow> string option \<Rightarrow> csr \<Rightarrow> (sign_exn \<times> string) + int" where
  "sign_certificate_with_ca env refid r =
     (case signing_ca env refid of
        None \<Rightarrow> Inl (Other_Exn ''No CA available for signing'', ''No CA available for signing'')
      | Some ca \<Rightarrow>
          if \<not> has_private_key ca
          then Inl (Other_Exn ''CA has no private key'', ''CA '' @ ca_refid ca @ '' has no private key'')
          else if ca_crt ca = No_Crt
          then Inl (Other_Exn ''CA is awaiting its certificate'',
                    ''CA '' @ ca_refid ca @ '' is awaiting its certificate'')
          else (case fe_sign env ca r of
                  Signed cert_id \<Rightarrow> Inr cert_id
                | Sign_Raised e \<Rightarrow> Inl (e, ''Certificate signing failed: '' @ exn_text e)))"

definition SERVER_WORDS :: "string list" where
  "SERVER_WORDS = [''signing key'', ''HSM'', ''No CA available'', ''awaiting its certificate'', ''has no private key'',
     ''KEY_ENCRYPTION_KEY'']"

fun is_request_failure :: "sign_exn \<Rightarrow> bool" where
  "is_request_failure (Policy_Violation_Exn _) = True"
| "is_request_failure (Window_Exn _) = False"
| "is_request_failure (Offline_Exn _) = False"
| "is_request_failure (Value_Exn t) = (\<not> list_ex (\<lambda>w. substring w t) SERVER_WORDS)"
| "is_request_failure (Other_Exn t) = False"

section \<open>The outcome the route acts on\<close>

definition word_char :: "char \<Rightarrow> bool" where
  "word_char c \<longleftrightarrow> is_alpha c \<or> is_digit c \<or> c = CHR ''_''"

text \<open>\<open>re.search(r'\bcaa\b', text, re.IGNORECASE)\<close>; the flag says whether the character before is
  one of a word.\<close>

fun caa_word :: "bool \<Rightarrow> string \<Rightarrow> bool" where
  "caa_word before [] = False"
| "caa_word before (c # cs) =
     (\<not> before \<and> starts_with (py_lower (c # cs)) ''caa'' \<and> (case drop 3 (c # cs) of [] \<Rightarrow> True | d # _ \<Rightarrow> \<not> word_char d)
      \<or> caa_word (word_char c) cs)"

definition is_caa_failure :: "string \<Rightarrow> bool" where
  "is_caa_failure text = (if substring ''dns error'' (py_lower text) then False else caa_word False text)"

definition finalize_order :: "finalize_env \<Rightarrow> acme_state \<Rightarrow> acme_order \<Rightarrow> csr \<Rightarrow> string option \<Rightarrow> finalize_outcome" where
  "finalize_order env st o' r refid =
     (case finalize_refusal env st o' r of
        Some text \<Rightarrow> if is_caa_failure text then Caa_Refused text else Not_Issued
      | None \<Rightarrow>
          (let chosen = (case refid of
                           Some c \<Rightarrow> if c = [] then resolve_ca_for_domains env (identifier_values ''dns'' (o_identifiers o')) else Some c
                         | None \<Rightarrow> resolve_ca_for_domains env (identifier_values ''dns'' (o_identifiers o')))
           in case sign_certificate_with_ca env chosen r of
                Inr cert_id \<Rightarrow> Issued cert_id
              | Inl (e, text) \<Rightarrow>
                  if is_request_failure e then Bad_Request text
                  else if is_caa_failure text then Caa_Refused text else Not_Issued))"

section \<open>Requests that fit their order\<close>

text \<open>An identifier of the order stands for a name of the request.\<close>

definition identifies :: "finalize_env \<Rightarrow> json \<Rightarrow> general_name \<Rightarrow> bool" where
  "identifies env i n \<longleftrightarrow>
     (\<exists>v d. n = DNSName v \<and> json_field ''type'' i = JStr ''dns'' \<and> json_field ''value'' i = JStr d \<and> norm_domain v = norm_domain d) \<or>
     (\<exists>v. n = IPAddress v \<and> json_field ''type'' i = JStr ''ip'' \<and> json_field ''value'' i = JStr (nl_ip_text (fe_lib env) v))"

definition request_fits :: "finalize_env \<Rightarrow> acme_state \<Rightarrow> acme_order \<Rightarrow> csr \<Rightarrow> bool" where
  "request_fits env st o' r \<longleftrightarrow>
     (let domains = identifier_values ''dns'' (o_identifiers o'); ips = identifier_values ''ip'' (o_identifiers o');
          cns = attributes_for_oid COMMON_NAME (csr_subject r)
      in norm_domain ` (set (take 1 cns) \<union> set (dns_values (san_names_of r))) = norm_domain ` set domains
       \<and> set (ip_texts (fe_lib env) (san_names_of r)) = set ips
       \<and> (\<forall>exc. csr_extension r \<noteq> San_Unreadable exc)
       \<and> (\<forall>n \<in> set (san_names_of r). \<exists>i \<in> set (o_identifiers o'). identifies env i n)
       \<and> attributes_for_oid EMAIL_ADDRESS (csr_subject r) = []
       \<and> (\<forall>cn \<in> set cns. norm_domain cn \<in> norm_domain ` set domains \<or> norm_domain cn \<in> set ips \<or> cn \<in> set ips)
       \<and> (\<forall>name types. fe_template env (o_profile o') = Some (name, Some types) \<longrightarrow>
            (domains \<noteq> [] \<longrightarrow> ''dns'' \<in> set types) \<and> (ips \<noteq> [] \<longrightarrow> ''ip'' \<in> set types))
       \<and> list_all (caa_permits (fe_resolve env) (caa_identifiers env) (Some (fst (caa_request_context env st o')))
            (snd (caa_request_context env st o')) (caa_enforce env)) domains)"

lemma first_some_Cons: "first_some (x # xs) = (case x of None \<Rightarrow> first_some xs | Some v \<Rightarrow> Some v)"
  by (cases x) (simp_all add: first_some_def)

lemma first_some_None: "first_some xs = None \<longleftrightarrow> (\<forall>x \<in> set xs. x = None)"
proof (induction xs)
  case (Cons x xs)
  then show ?case by (cases x) (simp_all add: first_some_Cons)
qed (simp add: first_some_def)

lemma identifier_values_iff:
  "v \<in> set (identifier_values t ids) \<longleftrightarrow>
     (\<exists>i \<in> set ids. json_field ''type'' i = JStr t \<and> json_field ''value'' i = JStr v)"
  by (induction ids) (auto simp: identifier_values_def List.map_filter_def split: json.splits)

lemma san_type_check_None:
  "san_type_check env domains ips ns = None \<longleftrightarrow>
     (\<forall>n \<in> set ns. (\<exists>v. n = DNSName v \<and> norm_domain v \<in> set domains) \<or> (\<exists>v. n = IPAddress v \<and> nl_ip_text (fe_lib env) v \<in> set ips))"
  by (induction env domains ips ns rule: san_type_check.induct) auto

lemma san_types_fit:
  "validate_csr_san_types env r (map norm_domain (identifier_values ''dns'' ids)) (identifier_values ''ip'' ids) = None \<longleftrightarrow>
     (\<forall>exc. csr_extension r \<noteq> San_Unreadable exc) \<and> (\<forall>n \<in> set (san_names_of r). \<exists>i \<in> set ids. identifies env i n)"
proof -
  have "(\<exists>i \<in> set ids. identifies env i n) \<longleftrightarrow>
      (\<exists>v. n = DNSName v \<and> norm_domain v \<in> set (map norm_domain (identifier_values ''dns'' ids))) \<or>
      (\<exists>v. n = IPAddress v \<and> nl_ip_text (fe_lib env) v \<in> set (identifier_values ''ip'' ids))" for n
    unfolding set_map image_iff by (cases n; simp add: identifies_def identifier_values_iff Bex_def; blast)
  then show ?thesis
    by (cases "csr_extension r") (simp_all add: validate_csr_san_types_def san_names_of_def san_type_check_None)
qed

lemma subject_fits:
  "validate_csr_subject env r (map norm_domain domains) ips = None \<longleftrightarrow>
     attributes_for_oid EMAIL_ADDRESS (csr_subject r) = [] \<and>
     (\<forall>cn \<in> set (attributes_for_oid COMMON_NAME (csr_subject r)).
        norm_domain cn \<in> norm_domain ` set domains \<or> norm_domain cn \<in> set ips \<or> cn \<in> set ips)"
proof -
  let ?bad = "\<lambda>cn. norm_domain cn \<notin> set (map norm_domain domains) \<and> norm_domain cn \<notin> set ips \<and> cn \<notin> set ips"
  show ?thesis
    using first_row_None_iff[of ?bad "attributes_for_oid COMMON_NAME (csr_subject r)"]
    by (cases "attributes_for_oid EMAIL_ADDRESS (csr_subject r)";
        cases "first_row ?bad (attributes_for_oid COMMON_NAME (csr_subject r))")
      (auto simp: validate_csr_subject_def)
qed

lemma san_type_refusal_None: "san_type_refusal allowed types name = None \<longleftrightarrow> (\<forall>ok. allowed = Some ok \<longrightarrow> set types \<subseteq> set ok)"
proof (cases allowed)
  case (Some ok)
  have "sorted_set (filter (\<lambda>t. t \<notin> set ok) types) = [] \<longleftrightarrow> set types \<subseteq> set ok"
    using set_sorted_set[of "filter (\<lambda>t. t \<notin> set ok) types"] by (auto simp flip: set_empty)
  then show ?thesis by (simp add: san_type_refusal_def Some Let_def)
qed (simp add: san_type_refusal_def)

lemma caa_refusal_None:
  assumes "[] \<notin> set (caa_identifiers env)"
  shows "caa_refusal env st o' domains = None \<longleftrightarrow>
     list_all (caa_permits (fe_resolve env) (caa_identifiers env) (Some (fst (caa_request_context env st o')))
        (snd (caa_request_context env st o')) (caa_enforce env)) domains"
  unfolding check_caa_domains_iff[OF assms, symmetric]
  by (cases "check_caa_for_domains (fe_resolve env) domains (caa_identifiers env) (Some (fst (caa_request_context env st o')))
        (snd (caa_request_context env st o')) (caa_enforce env)")
    (auto simp: caa_refusal_def split_beta Let_def)

lemma finalize_refusal_None:
  assumes "[] \<notin> set (caa_identifiers env)"
  shows "finalize_refusal env st o' r = None \<longleftrightarrow> request_fits env st o' r"
proof -
  let ?domains = "identifier_values ''dns'' (o_identifiers o')" and ?ips = "identifier_values ''ip'' (o_identifiers o')"
  have domains: "set (map norm_domain (extract_domains_from_csr r)) =
      norm_domain ` (set (take 1 (attributes_for_oid COMMON_NAME (csr_subject r))) \<union> set (dns_values (san_names_of r)))"
    by (simp add: extract_domains_from_csr_def)
  have template: "(case fe_template env (o_profile o') of None \<Rightarrow> None
      | Some (name, allowed) \<Rightarrow> san_type_refusal allowed
          ((if map norm_domain ?domains \<noteq> [] then [''dns''] else []) @ (if ?ips \<noteq> [] then [''ip''] else [])) name) = None \<longleftrightarrow>
      (\<forall>name types. fe_template env (o_profile o') = Some (name, Some types) \<longrightarrow>
        (?domains \<noteq> [] \<longrightarrow> ''dns'' \<in> set types) \<and> (?ips \<noteq> [] \<longrightarrow> ''ip'' \<in> set types))"
    by (cases "fe_template env (o_profile o')") (auto simp: san_type_refusal_None)
  have caa: "(if ?domains = [] then None else caa_refusal env st o' ?domains) = None \<longleftrightarrow>
      list_all (caa_permits (fe_resolve env) (caa_identifiers env) (Some (fst (caa_request_context env st o')))
        (snd (caa_request_context env st o')) (caa_enforce env)) ?domains"
    using caa_refusal_None[OF assms, of st o' ?domains] by simp
  show ?thesis
    unfolding finalize_refusal_def request_fits_def Let_def first_some_None list.set ball_simps insert_iff
      template caa san_types_fit subject_fits domains
    by (auto simp: extract_ip_from_csr_san_def)
qed

lemma issued_fits:
  assumes "finalize_order env st o' r refid = Issued c"
  shows "finalize_refusal env st o' r = None"
  using assms by (auto simp: finalize_order_def split: option.splits if_splits)

text \<open>A refusal leaves no certificate: only a request that passed every check reaches the signature.\<close>

lemma issued_names_identified:
  assumes "finalize_order env st o' r refid = Issued c" "n \<in> set (san_names_of r)"
  shows "\<exists>i \<in> set (o_identifiers o'). identifies env i n"
proof -
  have "validate_csr_san_types env r (map norm_domain (identifier_values ''dns'' (o_identifiers o')))
      (identifier_values ''ip'' (o_identifiers o')) = None"
    using issued_fits[OF assms(1)] by (simp add: finalize_refusal_def Let_def first_some_None)
  then show ?thesis using assms(2) by (simp add: san_types_fit)
qed

text \<open>The gate of finalization. With no empty CAA identity configured, a finalization reaches the
  signature exactly when the request fits the order: its DNS names (first common name and
  subjectAltName) and its addresses are those of the order, every name of the subjectAltName
  is an identifier of the order and of no other type, there is no e-mail attribute, every
  common name is an identifier of the order, the profile's template allows the types, and CAA permits every
  DNS identifier; otherwise no certificate is issued.\<close>

theorem finalization_gate:
  assumes "[] \<notin> set (caa_identifiers env)"
  shows "(finalize_refusal env st o' r = None \<longleftrightarrow> request_fits env st o' r) \<and>
    (\<not> request_fits env st o' r \<longrightarrow> (\<forall>c. finalize_order env st o' r refid \<noteq> Issued c))"
  by (simp add: finalize_refusal_None[OF assms, symmetric]) (auto dest: issued_fits)

text \<open>C6: Every name in an issued ACME certificate was proved. While an order of a reachable state
  is being finalized, a certificate is issued only if each name of the request's subjectAltName is an
  identifier of the order for which, at some earlier moment, an authorization of the order's account was
  valid with a challenge marked valid, of a type that identifier admits. The states are those reached
  by complete requests in any order: \<open>create_order\<close> neither fails nor meets another request between
  its commits (see \<open>interrupted_order_skips_authorization\<close>). A challenge is marked valid by a check
  that succeeded, or without one for a domain configured to be approved automatically.\<close>

theorem certified_names_were_proved:
  assumes "acme_reaches False empty_state st" "o' \<in> set (st_orders st)" "o_status o' = O_Processing"
    and "finalize_order env st o' r refid = Issued c" "n \<in> set (san_names_of r)"
  shows "\<exists>i st0 z. i \<in> set (o_identifiers o') \<and> identifies env i n
    \<and> acme_reaches False empty_state st0 \<and> acme_reaches False st0 st \<and> proved_control st0 z
    \<and> z_order_id z = Some (o_id o') \<and> z_account_id z = o_account_id o'
    \<and> (z_identifier z, z_wildcard z) = normalize_authorization_identifier i"
proof -
  obtain i where i: "i \<in> set (o_identifiers o')" "identifies env i n"
    using issued_names_identified[OF assms(4,5)] by blast
  have "advanced_order o'" using assms(3) by (simp add: advanced_order_def)
  from order_was_authorised[OF assms(1,2) this i(1)] i show ?thesis by blast
qed

section \<open>Concrete requests\<close>

definition sample_lib :: name_lib where
  "sample_lib = \<lparr>nl_ip_text = (\<lambda>_. ''10.0.0.1''), nl_rfc4514 = (\<lambda>_. []), nl_der = (\<lambda>_. []), nl_utf8 = (\<lambda>_. []),
     nl_hostname = (\<lambda>_. Inr None), nl_rfc822_ok = (\<lambda>_. True), nl_decode = (\<lambda>_. None)\<rparr>"

definition sample_env :: finalize_env where
  "sample_env = \<lparr>fe_lib = sample_lib, fe_repr = (\<lambda>s. [CHR 0x27] @ s @ [CHR 0x27]), fe_resolve = (\<lambda>_. Caa_Absent),
     fe_public_host = Some ''ucm.lan'', fe_base_url = [], fe_verifies = (\<lambda>_ _. None),
     fe_pki = \<lparr>p_cas = [sample_ca], p_certs = [], p_serials = [], p_cross = [], p_crls = [], p_cache = [], p_config = []\<rparr>,
     fe_locals = [], fe_domains = [], fe_template = (\<lambda>_. None), fe_sign = (\<lambda>_ _. Signed 7)\<rparr>"

definition dns_request :: "string \<Rightarrow> csr" where
  "dns_request v = \<lparr>csr_subject = plain_cn v, csr_extension = San_Names [DNSName v]\<rparr>"

lemma sample_outcomes:
  "map (\<lambda>o'. finalize_order sample_env race5 o' (dns_request ''A.lan'') None) (st_orders race5) = [Issued 7]"
  "map (\<lambda>o'. (o_id o', o_status o', o_account_id o', o_identifiers o')) (st_orders race5)
     = [(0, O_Processing, ''acct'', [dns_identifier ''a.lan''])]"
  "map (\<lambda>o'. finalize_order sample_env race5 o' (dns_request ''b.lan'') None) (st_orders race5) = [Not_Issued]"
  "caa_identifiers sample_env = [''ucm.lan'']"
  by code_simp+

lemma sample_refused: "list_all (\<lambda>o'. finalize_refusal sample_env race5 o' (dns_request ''b.lan'') \<noteq> None) (st_orders race5)"
  by code_simp

theorem finalization_gate_witness:
  "\<exists>o'. st_orders race5 = [o'] \<and> request_fits sample_env race5 o' (dns_request ''A.lan'')
     \<and> \<not> request_fits sample_env race5 o' (dns_request ''b.lan'')"
proof -
  obtain o' where o': "st_orders race5 = [o']" using sample_outcomes(2) by auto
  have "finalize_refusal sample_env race5 o' (dns_request ''A.lan'') = None"
    using sample_outcomes(1) o' by (intro issued_fits) simp
  moreover have "finalize_refusal sample_env race5 o' (dns_request ''b.lan'') \<noteq> None"
    using sample_refused o' by simp
  moreover have "(finalize_refusal sample_env race5 o' r = None) = request_fits sample_env race5 o' r" for r
    by (rule finalization_gate[THEN conjunct1]) (simp add: sample_outcomes(4))
  ultimately show ?thesis using o' by simp
qed

theorem certified_names_were_proved_witness:
  "\<exists>i st0 z. identifies sample_env i (DNSName ''A.lan'') \<and> acme_reaches False empty_state st0
    \<and> acme_reaches False st0 race5 \<and> proved_control st0 z \<and> z_account_id z = ''acct''"
proof -
  obtain o' where o': "st_orders race5 = [o']" "o_status o' = O_Processing" "o_account_id o' = ''acct''"
    using sample_outcomes(2) by auto
  have "finalize_order sample_env race5 o' (dns_request ''A.lan'') None = Issued 7"
    using sample_outcomes(1) o'(1) by simp
  moreover have "DNSName ''A.lan'' \<in> set (san_names_of (dns_request ''A.lan''))"
    by (simp add: san_names_of_def dns_request_def)
  moreover have "o' \<in> set (st_orders race5)" by (simp add: o'(1))
  ultimately show ?thesis
    using certified_names_were_proved[OF race_to_finalize _ o'(2)] o'(3) by metis
qed

text \<open>A request for an address whose common name is that address is refused: the common name is counted
  among the DNS names before \<open>_validate_csr_subject\<close>, which would accept it, is reached.\<close>

lemma address_common_name_refused:
  assumes "attributes_for_oid COMMON_NAME (csr_subject r) = cn # cns"
    and "norm_domain cn \<notin> norm_domain ` set (identifier_values ''dns'' (o_identifiers o'))"
  shows "finalize_refusal env st o' r \<noteq> None"
proof -
  have "norm_domain cn \<in> set (map norm_domain (extract_domains_from_csr r))"
    using assms(1) by (simp add: extract_domains_from_csr_def)
  then show ?thesis
    using assms(2) by (auto simp: finalize_refusal_def Let_def first_some_None)
qed

text \<open>The route takes a failure for a CAA refusal when its text has the word CAA, and the text quotes the
  names of the request: a request that does not match an order for \<open>caa.lan\<close> ends the order, where
  any other mismatch leaves it ready.\<close>

definition caa_named_order :: "string \<Rightarrow> acme_state" where
  "caa_named_order v = (create_order lan_env 0 ''acct'' [dns_identifier v] None empty_state)\<lparr>st_finalizing := []\<rparr>"

lemma caa_in_a_name_ends_the_order:
  "map (\<lambda>o'. finalize_order sample_env (caa_named_order ''x.lan'') o' (dns_request ''b.lan'') None)
     (st_orders (caa_named_order ''x.lan'')) = [Not_Issued]"
  "list_all (\<lambda>o'. case finalize_order sample_env (caa_named_order ''caa.lan'') o' (dns_request ''b.lan'') None of
       Caa_Refused _ \<Rightarrow> True | _ \<Rightarrow> False) (st_orders (caa_named_order ''caa.lan''))"
  "length (st_orders (caa_named_order ''caa.lan'')) = 1"
  by code_simp+

end
