(* ===== verification/Ca_Deletion.thy ===== *)
theory Ca_Deletion
  imports Acme_Finalize
begin

text \<open>
  What forbids deleting a resource and what goes with it (\<^verbatim>\<open>services/deletion_blockers.py\<close>), the
  deletion of a CA (\<^verbatim>\<open>services/ca/ca_crud.py\<close>) and the unit and bulk routes
  (\<^verbatim>\<open>api/v2/cas/crud.py\<close>, \<^verbatim>\<open>api/v2/cas/bulk.py\<close>).

  The tables are those of the certificates with, of the other tables that name a CA or a template, the
  columns that do. A blocker is a value of \<open>deletion_blocker\<close> with the counts and names its two
  wordings print. Deletion is modelled for a commit that succeeds; files, audit and webhook are
  left out. Rows the ORM deletes with a CA (cross-certificates, template pins) go with it.
\<close>

section \<open>Tables\<close>

record scep_profile =
  sp_name :: string
  sp_ca_refid :: string
  sp_template_id :: "int option"
  sp_intune_app_id :: "int option"

record policy_ref =
  pr_ca_id :: "int option"
  pr_template_id :: "int option"

record installation =
  in_pki :: pki
  in_cert_templates :: "int option list"
  in_scep_profiles :: "scep_profile list"
  in_scep_requests :: "string list"
  in_acme_domains :: "acme_domain list"
  in_local_domains :: "acme_local_domain list"
  in_policies :: "policy_ref list"
  in_crl_bindings :: "int list"
  in_template_pins :: "(int \<times> int) list"
  in_acme_profiles :: "(string \<times> int option) list"

section \<open>Blockers\<close>

datatype deletion_blocker =
    Child_CAs nat | Issued_Certs nat | Scep_Profiles nat | Acme_Domains nat | Issuance_Policies nat
  | Default_Scep_CA | Crl_Deployed nat
  | Valid_Certificate
  | System_Template | Template_Certs nat | Template_Policies nat | Template_Scep nat | Template_Acme "string list"
  | Intune_Profiles "string list"

fun blocker_status :: "deletion_blocker \<Rightarrow> nat" where
  "blocker_status System_Template = 403"
| "blocker_status _ = 409"

text \<open>The generators give the blockers that hold, in order.\<close>

definition when_pos :: "(nat \<Rightarrow> deletion_blocker) \<Rightarrow> nat \<Rightarrow> deletion_blocker list" where
  "when_pos b n = (if 0 < n then [b n] else [])"

definition ca_deletion_blockers :: "installation \<Rightarrow> ca_row \<Rightarrow> deletion_blocker list" where
  "ca_deletion_blockers db ca =
     when_pos Child_CAs (count_rows (\<lambda>c. ca_caref c = Some (ca_refid ca)) (p_cas (in_pki db)))
     @ when_pos Issued_Certs (count_rows (\<lambda>c. c_caref c = Some (ca_refid ca)) (p_certs (in_pki db)))
     @ when_pos Scep_Profiles (count_rows (\<lambda>p. sp_ca_refid p = ca_refid ca) (in_scep_profiles db))
     @ when_pos Acme_Domains (count_rows (\<lambda>d. ad_issuing_ca_id d = Some (ca_id ca)) (in_acme_domains db)
          + count_rows (\<lambda>d. ld_issuing_ca_id d = ca_id ca) (in_local_domains db))
     @ when_pos Issuance_Policies (count_rows (\<lambda>p. pr_ca_id p = Some (ca_id ca)) (in_policies db))
     @ (case map_of (p_config (in_pki db)) ''scep_ca_id'' of
          None \<Rightarrow> []
        | Some v \<Rightarrow> if v = show_int (ca_id ca) \<or> v = ca_refid ca then [Default_Scep_CA] else [])
     @ when_pos Crl_Deployed (count_rows (\<lambda>i. i = ca_id ca) (in_crl_bindings db))"

definition certificate_deletion_blockers :: "datetime \<Rightarrow> cert_row \<Rightarrow> deletion_blocker list" where
  "certificate_deletion_blockers now c =
     (if c_crt c \<noteq> No_Crt \<and> \<not> c_revoked c \<and> (case c_valid_to c of None \<Rightarrow> True | Some t \<Rightarrow> now \<le> t)
      then [Valid_Certificate] else [])"

definition template_deletion_blockers :: "installation \<Rightarrow> int \<Rightarrow> bool \<Rightarrow> deletion_blocker list" where
  "template_deletion_blockers db i is_system =
     (if is_system then [System_Template]
      else when_pos Template_Certs (count_rows (\<lambda>t. t = Some i) (in_cert_templates db))
        @ when_pos Template_Policies (count_rows (\<lambda>p. pr_template_id p = Some i) (in_policies db))
        @ when_pos Template_Scep (count_rows (\<lambda>p. sp_template_id p = Some i) (in_scep_profiles db))
        @ (let bound = sort (map fst (filter (\<lambda>(_, t). t = Some i) (in_acme_profiles db)))
           in if bound = [] then [] else [Template_Acme bound]))"

definition intune_app_deletion_blockers :: "installation \<Rightarrow> int \<Rightarrow> deletion_blocker list" where
  "intune_app_deletion_blockers db app =
     (let names = sort (map sp_name (filter (\<lambda>p. sp_intune_app_id p = Some app) (in_scep_profiles db)))
      in if names = [] then [] else [Intune_Profiles names])"

definition first_blocker :: "deletion_blocker list \<Rightarrow> deletion_blocker option" where
  "first_blocker bs = (case bs of [] \<Rightarrow> None | b # _ \<Rightarrow> Some b)"

section \<open>Bulk requests\<close>

definition MAX_BULK_IDS :: nat where "MAX_BULK_IDS = 100"

datatype bulk_request = Bulk_Ids "json list" | Ids_Required | Ids_Not_A_List | Too_Many_Ids | Bulk_Raises py_error

definition parse_bulk_ids :: "json \<Rightarrow> bulk_request" where
  "parse_bulk_ids data =
     (if \<not> json_truthy data then Ids_Required
      else (case json_get data ''ids'' JNull of
              Inl e \<Rightarrow> Bulk_Raises e
            | Inr ids \<Rightarrow>
                if \<not> json_truthy ids then Ids_Required
                else (case ids of
                        JList xs \<Rightarrow> if MAX_BULK_IDS < length xs then Too_Many_Ids else Bulk_Ids xs
                      | _ \<Rightarrow> Ids_Not_A_List)))"

section \<open>Deleting a CA\<close>

definition purge_ca_dependents :: "ca_row \<Rightarrow> installation \<Rightarrow> installation" where
  "purge_ca_dependents ca db =
     db\<lparr>in_pki := (in_pki db)\<lparr>p_cross := filter (\<lambda>x. xc_ca_id x \<noteq> ca_id ca) (p_cross (in_pki db)),
                             p_crls := filter (\<lambda>r. cl_ca_id r \<noteq> ca_id ca) (p_crls (in_pki db)),
                             p_cache := filter (\<lambda>r. oc_ca_id r \<noteq> ca_id ca) (p_cache (in_pki db)),
                             p_serials := filter (\<lambda>r. rs_caref r \<noteq> ca_refid ca) (p_serials (in_pki db))\<rparr>,
        in_scep_requests := filter (\<lambda>r. r \<noteq> ca_refid ca) (in_scep_requests db)\<rparr>"

datatype delete_answer = Deleted | Delete_Not_Found | Delete_Blocked deletion_blocker

definition remove_ca_row :: "int \<Rightarrow> installation \<Rightarrow> installation" where
  "remove_ca_row i db =
     db\<lparr>in_pki := (in_pki db)\<lparr>p_cas := filter (\<lambda>c. ca_id c \<noteq> i) (p_cas (in_pki db))\<rparr>,
        in_template_pins := filter (\<lambda>(c, _). c \<noteq> i) (in_template_pins db)\<rparr>"

definition delete_ca :: "int \<Rightarrow> installation \<Rightarrow> delete_answer \<times> installation" where
  "delete_ca i db =
     (case get_ca (in_pki db) i of
        None \<Rightarrow> (Delete_Not_Found, db)
      | Some ca \<Rightarrow>
          (case first_blocker (ca_deletion_blockers db ca) of
             Some b \<Rightarrow> (Delete_Blocked b, db)
           | None \<Rightarrow> (Deleted, remove_ca_row i (purge_ca_dependents ca db))))"

text \<open>The bulk route, for ids that are integers; the per-item answers are collected in the order of the
  request.\<close>

fun bulk_delete_cas :: "int list \<Rightarrow> installation \<Rightarrow> (int \<times> delete_answer) list \<times> installation" where
  "bulk_delete_cas [] db = ([], db)"
| "bulk_delete_cas (i # is) db =
     (case delete_ca i db of
        (answer, db') \<Rightarrow> (case bulk_delete_cas is db' of (rest, db'') \<Rightarrow> ((i, answer) # rest, db'')))"

section \<open>References\<close>

text \<open>Every row of a table with a foreign key to the CAs names one that is there; ids and refids are
  those of one CA.\<close>

definition references_hold :: "installation \<Rightarrow> bool" where
  "references_hold db \<longleftrightarrow>
     (let st = in_pki db; ids = ca_id ` set (p_cas st); refids = ca_refid ` set (p_cas st)
      in distinct (map ca_id (p_cas st)) \<and> distinct (map ca_refid (p_cas st))
       \<and> (\<forall>c \<in> set (p_certs st). set_option (c_caref c) \<subseteq> refids)
       \<and> rs_caref ` set (p_serials st) \<subseteq> refids
       \<and> xc_ca_id ` set (p_cross st) \<subseteq> ids \<and> cl_ca_id ` set (p_crls st) \<subseteq> ids \<and> oc_ca_id ` set (p_cache st) \<subseteq> ids
       \<and> sp_ca_refid ` set (in_scep_profiles db) \<subseteq> refids \<and> set (in_scep_requests db) \<subseteq> refids
       \<and> (\<forall>d \<in> set (in_acme_domains db). set_option (ad_issuing_ca_id d) \<subseteq> ids)
       \<and> ld_issuing_ca_id ` set (in_local_domains db) \<subseteq> ids
       \<and> (\<forall>p \<in> set (in_policies db). set_option (pr_ca_id p) \<subseteq> ids)
       \<and> set (in_crl_bindings db) \<subseteq> ids \<and> fst ` set (in_template_pins db) \<subseteq> ids)"

lemma when_pos_Nil: "when_pos b n = [] \<longleftrightarrow> n = 0"
  by (simp add: when_pos_def)

lemma count_rows_0: "count_rows p rows = 0 \<longleftrightarrow> (\<forall>r \<in> set rows. \<not> p r)"
  using count_rows_pos[of p rows] by auto

lemma first_blocker_None: "first_blocker bs = None \<longleftrightarrow> bs = []"
  by (simp add: first_blocker_def split: list.splits)

lemma unblocked_ca:
  assumes "ca_deletion_blockers db ca = []"
  shows "\<forall>c \<in> set (p_cas (in_pki db)). ca_caref c \<noteq> Some (ca_refid ca)"
    and "\<forall>c \<in> set (p_certs (in_pki db)). c_caref c \<noteq> Some (ca_refid ca)"
    and "\<forall>p \<in> set (in_scep_profiles db). sp_ca_refid p \<noteq> ca_refid ca"
    and "\<forall>d \<in> set (in_acme_domains db). ad_issuing_ca_id d \<noteq> Some (ca_id ca)"
    and "\<forall>d \<in> set (in_local_domains db). ld_issuing_ca_id d \<noteq> ca_id ca"
    and "\<forall>p \<in> set (in_policies db). pr_ca_id p \<noteq> Some (ca_id ca)"
    and "ca_id ca \<notin> set (in_crl_bindings db)"
  using assms by (auto simp: ca_deletion_blockers_def when_pos_Nil count_rows_0)

lemma delete_ca_cases:
  obtains (kept) "snd (delete_ca i db) = db"
  | (deleted) ca where "get_ca (in_pki db) i = Some ca" "ca_deletion_blockers db ca = []"
      "snd (delete_ca i db) = remove_ca_row i (purge_ca_dependents ca db)"
proof (cases "get_ca (in_pki db) i")
  case None
  then show ?thesis by (intro kept) (simp add: delete_ca_def)
next
  case (Some ca)
  show ?thesis
  proof (cases "first_blocker (ca_deletion_blockers db ca)")
    case None
    then have "ca_deletion_blockers db ca = []" by (simp only: first_blocker_None)
    with Some None show ?thesis by (intro deleted) (simp_all add: delete_ca_def)
  next
    case (Some b)
    with \<open>get_ca (in_pki db) i = Some ca\<close> show ?thesis by (intro kept) (simp add: delete_ca_def)
  qed
qed

lemma only_holder:
  assumes "distinct (map f xs)" "x \<in> set xs" "y \<in> set xs" "f x = f y"
  shows "x = y"
  using assms by (simp add: distinct_map inj_on_def)

lemma delete_keeps_references:
  assumes "references_hold db"
  shows "references_hold (snd (delete_ca i db))"
proof (cases rule: delete_ca_cases[of i db])
  case kept
  then show ?thesis using assms by simp
next
  case (deleted ca)
  let ?cas = "p_cas (in_pki db)" and ?left = "filter (\<lambda>c. ca_id c \<noteq> i) (p_cas (in_pki db))"
  have dist: "distinct (map ca_id ?cas)" "distinct (map ca_refid ?cas)"
    using assms by (auto simp: references_hold_def Let_def)
  have ca: "ca \<in> set ?cas" "ca_id ca = i"
    using deleted(1) by (auto simp: get_ca_def dest: first_row_SomeD)
  have ids: "ca_id ` set ?left = ca_id ` set ?cas - {ca_id ca}" using ca(2) by auto
  have refids: "ca_refid ` set ?left = ca_refid ` set ?cas - {ca_refid ca}"
  proof -
    have "ca_id c = i \<longleftrightarrow> ca_refid c = ca_refid ca" if "c \<in> set ?cas" for c
      using only_holder[OF dist(1) that ca(1)] only_holder[OF dist(2) that ca(1)] ca(2) by metis
    then show ?thesis by auto
  qed
  note free = unblocked_ca[OF deleted(2)]
  show ?thesis
    unfolding deleted(3)
    using assms free dist ca(2)
    by (simp add: references_hold_def Let_def remove_ca_row_def purge_ca_dependents_def ids refids distinct_map_filter
        del: set_filter) auto
qed

lemma bulk_delete_run: "snd (bulk_delete_cas is db) = fold (\<lambda>i d. snd (delete_ca i d)) is db"
  by (induction "is" arbitrary: db) (auto split: prod.splits, metis snd_conv)

text \<open>C32: Deleting CAs leaves no dangling reference. Whatever list of ids the bulk route is given, in
  whatever order, an installation whose foreign keys hold (certificates, revocation records,
  cross-certificates, lists, cached responses, SCEP profiles and requests, ACME domains, policies, deployment
  bindings, template pins) is left with foreign keys that hold and unique ids and refids.\<close>

theorem bulk_deletion_keeps_references:
  assumes "references_hold db"
  shows "references_hold (snd (bulk_delete_cas is db))"
proof -
  have "references_hold (fold (\<lambda>i d. snd (delete_ca i d)) is db)"
    using assms by (induction "is" arbitrary: db) (simp_all add: delete_keeps_references)
  then show ?thesis by (simp only: bulk_delete_run)
qed

definition numbered_ca :: "int \<Rightarrow> string \<Rightarrow> ca_row" where
  "numbered_ca i r = sample_ca\<lparr>ca_id := i, ca_refid := r\<rparr>"

definition two_ca_site :: installation where
  "two_ca_site = \<lparr>in_pki = \<lparr>p_cas = [numbered_ca 1 ''root'', (numbered_ca 2 ''sub'')\<lparr>ca_caref := Some ''root''\<rparr>], p_certs = [],
     p_serials = [\<lparr>rs_id = 1, rs_caref = ''sub'', rs_serial_number = ''77'', rs_revoked_at = 5, rs_revoke_reason = None,
        rs_invalidity_at = None, rs_valid_to = 800, rs_certificate_id = None\<rparr>],
     p_cross = [], p_crls = [], p_cache = [], p_config = [(''acme.issuing_ca_id'', ''2'')]\<rparr>,
     in_cert_templates = [], in_scep_profiles = [], in_scep_requests = [''sub''], in_acme_domains = [], in_local_domains = [],
     in_policies = [], in_crl_bindings = [], in_template_pins = [(2, 4)], in_acme_profiles = []\<rparr>"

lemma two_ca_site_deletions:
  "fst (bulk_delete_cas [1, 2, 1] two_ca_site) = [(1, Delete_Blocked (Child_CAs 1)), (2, Deleted), (1, Deleted)]"
  "length (p_serials (in_pki (snd (bulk_delete_cas [1, 2, 1] two_ca_site)))) = 0"
  "references_hold two_ca_site"
  by code_simp+

theorem bulk_deletion_keeps_references_witness:
  "references_hold (snd (bulk_delete_cas [1, 2, 1] two_ca_site))
   \<and> fst (bulk_delete_cas [1, 2, 1] two_ca_site) = [(1, Delete_Blocked (Child_CAs 1)), (2, Deleted), (1, Deleted)]"
  using bulk_deletion_keeps_references[OF two_ca_site_deletions(3), of "[1, 2, 1]"] two_ca_site_deletions(1) by blast

text \<open>The unit route, the service and the bulk route ask the same question.\<close>

lemma bulk_of_one: "bulk_delete_cas [i] db = ([(i, fst (delete_ca i db))], snd (delete_ca i db))"
  by (simp split: prod.split)

text \<open>The ACME default CA may be kept by its number and is no blocker: once that CA is deleted, the next CA
  created takes its number and becomes the CA that ACME orders are signed with.\<close>

definition create_ca :: "string \<Rightarrow> pki \<Rightarrow> pki" where
  "create_ca r st = st\<lparr>p_cas := p_cas st @ [numbered_ca (next_id (map ca_id (p_cas st))) r]\<rparr>"

theorem acme_default_passes_to_next_ca:
  "default_ca (in_pki two_ca_site) = Some ''sub''
   \<and> fst (delete_ca 2 two_ca_site) = Deleted
   \<and> default_ca (in_pki (snd (delete_ca 2 two_ca_site))) = None
   \<and> default_ca (create_ca ''new'' (in_pki (snd (delete_ca 2 two_ca_site)))) = Some ''new''"
  by code_simp

text \<open>A certificate that may be deleted is one relying parties no longer accept or were told about.\<close>

lemma deletable_certificate:
  "certificate_deletion_blockers now c = [] \<longleftrightarrow>
     c_crt c = No_Crt \<or> c_revoked c \<or> (\<exists>t. c_valid_to c = Some t \<and> t < now)"
  by (auto simp: certificate_deletion_blockers_def split: option.splits)

end
