(* ===== verification/Network_Trust.thy ===== *)
theory Network_Trust
  imports Endpoints Ip_Address
begin

text \<open>
  Who may speak for a client's address, and from which addresses the administration interface is
  reached: \<^verbatim>\<open>utils/trusted_proxy.py\<close>, \<^verbatim>\<open>utils/admin_allowlist.py\<close>, the peer normalizer of
  \<^verbatim>\<open>listen_address.py\<close>, the hook \<open>enforce_admin_allowlist\<close> of \<^verbatim>\<open>app.py\<close> and the saving of the
  list in \<^verbatim>\<open>api/v2/settings/general.py\<close>.

  Reading and printing addresses is the parameter \<open>ip_lib\<close>; werkzeug's \<open>ProxyFix\<close> is a parameter,
  a function on the request environment. The request environment has the peer, the headers under
  their WSGI keys and the peer \<open>ProxyFix\<close> records; the process environment has the three
  variables read. The caches over the parsing of a setting return what the parsing returns and are left
  out; the cache of the stored list is a state.
\<close>

record ip_lib =
  il_address :: "string \<Rightarrow> ip_address option"
  il_network :: "string \<Rightarrow> ip_network option"
  il_address_text :: "ip_address \<Rightarrow> string"
  il_network_text :: "ip_network \<Rightarrow> string"

record process_env =
  pe_trusted_proxies :: string
  pe_allowed_networks :: "string option"
  pe_allowlist_disable :: string

record wsgi =
  w_remote_addr :: "string option"
  w_headers :: "(string \<times> string) list"
  w_orig :: "string option option"
  w_path :: string

text \<open>\<open>value or ''\<close>.\<close>

definition or_empty :: "string option \<Rightarrow> string" where
  "or_empty v = (case v of None \<Rightarrow> [] | Some s \<Rightarrow> s)"

section \<open>Trusted proxies (trusted\_proxy.py)\<close>

record trusted_set =
  ts_exact :: "ip_address list"
  ts_networks :: "ip_network list"
  ts_all :: bool

definition DEFAULT_TRUSTED :: "ip_address list" where
  "DEFAULT_TRUSTED = [Ip V4 2130706433 None, Ip V6 1 None]"

fun compile_entries :: "ip_lib \<Rightarrow> string list \<Rightarrow> trusted_set \<Rightarrow> trusted_set" where
  "compile_entries lib [] acc = acc"
| "compile_entries lib (raw # raws) acc =
     (let entry = py_strip raw
      in if entry = [] then compile_entries lib raws acc
         else if CHR ''/'' \<in> set entry
         then (case il_network lib entry of
                 None \<Rightarrow> compile_entries lib raws acc
               | Some n \<Rightarrow> compile_entries lib raws (acc\<lparr>ts_networks := ts_networks acc @ [n]\<rparr>))
         else (case il_address lib entry of
                 None \<Rightarrow> compile_entries lib raws acc
               | Some ip \<Rightarrow>
                   compile_entries lib raws
                     (acc\<lparr>ts_exact := ts_exact acc @ ip # (case ipv4_mapped ip of None \<Rightarrow> [] | Some m \<Rightarrow> [m])\<rparr>)))"

definition compile_trusted_proxies :: "ip_lib \<Rightarrow> string \<Rightarrow> trusted_set" where
  "compile_trusted_proxies lib proxies_str =
     (let s = py_strip proxies_str
      in if s = [] then \<lparr>ts_exact = DEFAULT_TRUSTED, ts_networks = [], ts_all = False\<rparr>
         else if s = ''*'' then \<lparr>ts_exact = [], ts_networks = [], ts_all = True\<rparr>
         else compile_entries lib (py_split (CHR '','') s) \<lparr>ts_exact = [], ts_networks = [], ts_all = False\<rparr>)"

definition ip_candidates :: "ip_address \<Rightarrow> ip_address list" where
  "ip_candidates ip = ip # (case ipv4_mapped ip of None \<Rightarrow> [] | Some m \<Rightarrow> [m])"

definition is_trusted_peer :: "ip_lib \<Rightarrow> process_env \<Rightarrow> string \<Rightarrow> bool" where
  "is_trusted_peer lib env peer =
     (let ts = compile_trusted_proxies lib (pe_trusted_proxies env)
      in if ts_all ts then True
         else if peer = [] then False
         else (case il_address lib peer of
                 None \<Rightarrow> False
               | Some ip \<Rightarrow>
                   list_ex (\<lambda>cand. cand \<in> set (ts_exact ts) \<or> list_ex (ip_in cand) (ts_networks ts)) (ip_candidates ip)))"

definition FORWARDED_ENVIRON_KEYS :: "string list" where
  "FORWARDED_ENVIRON_KEYS =
     [''HTTP_X_FORWARDED_FOR'', ''HTTP_X_FORWARDED_PROTO'', ''HTTP_X_FORWARDED_HOST'', ''HTTP_X_FORWARDED_PORT'',
      ''HTTP_X_FORWARDED_PREFIX'', ''HTTP_X_REAL_IP'']"

text \<open>The gate before \<open>ProxyFix\<close>, and the peers it has warned about.\<close>

definition forwarded_headers_gate :: "ip_lib \<Rightarrow> process_env \<Rightarrow> wsgi \<Rightarrow> wsgi" where
  "forwarded_headers_gate lib env e =
     (if is_trusted_peer lib env (or_empty (w_remote_addr e)) then e
      else e\<lparr>w_headers := filter (\<lambda>(k, _). k \<notin> set FORWARDED_ENVIRON_KEYS) (w_headers e)\<rparr>)"

definition MAX_WARNED_PEERS :: nat where "MAX_WARNED_PEERS = 1024"

definition warn_once :: "string \<Rightarrow> string list \<Rightarrow> bool \<times> string list" where
  "warn_once peer warned =
     (if peer \<in> set warned then (False, warned)
      else (True, if length warned < MAX_WARNED_PEERS then warned @ [peer] else warned))"

definition immediate_peer_addr :: "wsgi \<Rightarrow> string" where
  "immediate_peer_addr e = (case w_orig e of Some orig \<Rightarrow> or_empty orig | None \<Rightarrow> or_empty (w_remote_addr e))"

definition is_request_from_trusted_proxy :: "ip_lib \<Rightarrow> process_env \<Rightarrow> wsgi \<Rightarrow> bool" where
  "is_request_from_trusted_proxy lib env e = is_trusted_peer lib env (immediate_peer_addr e)"

definition reject_untrusted_proxy_headers :: "ip_lib \<Rightarrow> process_env \<Rightarrow> wsgi \<Rightarrow> bool" where
  "reject_untrusted_proxy_headers lib env e = (\<not> is_request_from_trusted_proxy lib env e)"

definition header :: "string \<Rightarrow> wsgi \<Rightarrow> string" where
  "header k e = or_empty (map_of (w_headers e) k)"

definition real_client_ip :: "ip_lib \<Rightarrow> process_env \<Rightarrow> wsgi \<Rightarrow> string" where
  "real_client_ip lib env e =
     (let remote = (if or_empty (w_remote_addr e) = [] then ''unknown'' else or_empty (w_remote_addr e));
          first = py_strip (before_sep (CHR '','') (header ''HTTP_X_FORWARDED_FOR'' e));
          real_ip = header ''HTTP_X_REAL_IP'' e
      in case w_orig e of
           Some orig \<Rightarrow>
             if orig \<noteq> w_remote_addr e then remote
             else if is_request_from_trusted_proxy lib env e then (if first \<noteq> [] then first else if real_ip \<noteq> [] then py_strip real_ip else remote)
             else remote
         | None \<Rightarrow>
             if is_request_from_trusted_proxy lib env e then (if first \<noteq> [] then first else if real_ip \<noteq> [] then py_strip real_ip else remote)
             else remote)"

text \<open>\<open>listen_address.normalize_peer_address\<close>.\<close>

definition normalize_peer_address :: "ip_lib \<Rightarrow> string \<Rightarrow> string" where
  "normalize_peer_address lib addr =
     (if addr = [] \<or> CHR '':'' \<notin> set addr then addr
      else (case il_address lib addr of
              None \<Rightarrow> addr
            | Some ip \<Rightarrow> (case ipv4_mapped ip of None \<Rightarrow> addr | Some m \<Rightarrow> il_address_text lib m)))"

definition peer_address_normalizer :: "ip_lib \<Rightarrow> wsgi \<Rightarrow> wsgi" where
  "peer_address_normalizer lib e =
     (case w_remote_addr e of
        None \<Rightarrow> e
      | Some addr \<Rightarrow> if addr = [] then e else e\<lparr>w_remote_addr := Some (normalize_peer_address lib addr)\<rparr>)"

text \<open>The number of hops \<open>create_app\<close> reads from the environment, and the environment the application
  sees.\<close>

definition trusted_hops :: "string option \<Rightarrow> string \<Rightarrow> int" where
  "trusted_hops hops behind_proxy =
     (case hops of
        Some s \<Rightarrow> (case py_int 10 s of None \<Rightarrow> 0 | Some n \<Rightarrow> max 0 n)
      | None \<Rightarrow> if py_lower behind_proxy \<in> set [''1'', ''true'', ''yes'', ''on''] then 1 else 0)"

definition served :: "ip_lib \<Rightarrow> process_env \<Rightarrow> (int \<Rightarrow> wsgi \<Rightarrow> wsgi) \<Rightarrow> int \<Rightarrow> wsgi \<Rightarrow> wsgi" where
  "served lib env proxy_fix hops e = (if hops > 0 then proxy_fix hops (forwarded_headers_gate lib env e) else e)"

section \<open>The list of networks (admin\_allowlist.py)\<close>

definition MAX_ENTRIES :: nat where "MAX_ENTRIES = 100"
definition MAX_ENTRY_LENGTH :: nat where "MAX_ENTRY_LENGTH = 64"
definition ALLOWLIST_TRUE_WORDS :: "string list" where
  "ALLOWLIST_TRUE_WORDS = [''1'', ''true'', ''yes'', ''on'']"

definition EXEMPT_EXACT :: "string list" where
  "EXEMPT_EXACT =
     [''/api/v2/health'', ''/api/health'', ''/health'', ''/api/v2/health/live'', ''/api/v2/health/ready'',
      ''/api/health/live'', ''/api/health/ready'', ''/health/live'', ''/health/ready'', ''/metrics'',
      ''/api/v2/metrics'', ''/cgi-bin/pkiclient.exe'']"

definition FORWARD_AUTH_PATHS :: "string list" where
  "FORWARD_AUTH_PATHS = [''/api/v2/auth/verify'']"

definition is_exempt_path :: "string \<Rightarrow> bool" where
  "is_exempt_path path \<longleftrightarrow> path \<in> set EXEMPT_EXACT \<or> is_public_protocol_path path"

definition disabled_by_env :: "process_env \<Rightarrow> bool" where
  "disabled_by_env env \<longleftrightarrow> py_lower (py_strip (pe_allowlist_disable env)) \<in> set ALLOWLIST_TRUE_WORDS"

definition env_value :: "process_env \<Rightarrow> string option" where
  "env_value env =
     (case pe_allowed_networks env of
        None \<Rightarrow> None | Some raw \<Rightarrow> if py_strip raw = [] then None else Some (py_strip raw))"

definition env_locked :: "process_env \<Rightarrow> bool" where
  "env_locked env \<longleftrightarrow> env_value env \<noteq> None"

text \<open>\<open>re.split(r'[\s,;]+', value)\<close>: a run of separators is one cut.\<close>

definition is_sep :: "char \<Rightarrow> bool" where
  "is_sep c \<longleftrightarrow> is_space c \<or> c = CHR '','' \<or> c = CHR '';''"

function re_split :: "string \<Rightarrow> string list" where
  "re_split s =
     takeWhile (\<lambda>c. \<not> is_sep c) s #
       (case dropWhile (\<lambda>c. \<not> is_sep c) s of [] \<Rightarrow> [] | c # cs \<Rightarrow> re_split (dropWhile is_sep cs))"
  by auto
termination
proof (relation "measure length")
  fix s :: string and c cs
  assume "dropWhile (\<lambda>c. \<not> is_sep c) s = c # cs"
  then have "length (c # cs) \<le> length s" by (metis length_dropWhile_le)
  then show "(dropWhile is_sep cs, s) \<in> measure length"
    using length_dropWhile_le[of is_sep cs] by simp
qed simp

declare re_split.simps [simp del]

definition clean_items :: "string list \<Rightarrow> string list" where
  "clean_items items = map py_strip (filter (\<lambda>i. py_strip i \<noteq> []) items)"

datatype allowlist_error = Entry_Not_Text | Not_A_List | Invalid_Entry string | Too_Many_Entries

fun split_list_items :: "json list \<Rightarrow> allowlist_error + string list" where
  "split_list_items [] = Inr []"
| "split_list_items (JStr s # js) = sum_bind (split_list_items js) (\<lambda>rest. Inr (re_split s @ rest))"
| "split_list_items (_ # js) = Inl Entry_Not_Text"

definition split_entries :: "json \<Rightarrow> allowlist_error + string list" where
  "split_entries value =
     (case value of
        JNull \<Rightarrow> Inr []
      | JStr s \<Rightarrow> Inr (clean_items (re_split s))
      | JList js \<Rightarrow> sum_bind (split_list_items js) (\<lambda>items. Inr (clean_items items))
      | _ \<Rightarrow> Inl Not_A_List)"

abbreviation split_text :: "string \<Rightarrow> string list" where
  "split_text s \<equiv> clean_items (re_split s)"

definition canonical :: "ip_lib \<Rightarrow> string \<Rightarrow> allowlist_error + string" where
  "canonical lib entry =
     (if MAX_ENTRY_LENGTH < length entry \<or> CHR ''%'' \<in> set entry then Inl (Invalid_Entry (take MAX_ENTRY_LENGTH entry))
      else if CHR ''/'' \<in> set entry
      then (case il_network lib entry of None \<Rightarrow> Inl (Invalid_Entry entry) | Some n \<Rightarrow> Inr (il_network_text lib n))
      else (case il_address lib entry of None \<Rightarrow> Inl (Invalid_Entry entry) | Some a \<Rightarrow> Inr (il_address_text lib a)))"

fun canonical_entries :: "ip_lib \<Rightarrow> string list \<Rightarrow> string list \<Rightarrow> allowlist_error + string list" where
  "canonical_entries lib [] seen = Inr seen"
| "canonical_entries lib (e # es) seen =
     sum_bind (canonical lib e) (\<lambda>c. canonical_entries lib es (append_new seen c))"

definition parse_entries :: "ip_lib \<Rightarrow> json \<Rightarrow> allowlist_error + string list" where
  "parse_entries lib value =
     sum_bind (split_entries value) (\<lambda>items.
       sum_bind (canonical_entries lib items []) (\<lambda>seen.
         if MAX_ENTRIES < length seen then Inl Too_Many_Entries else Inr seen))"

text \<open>A network of mapped addresses also stands for the IPv4 network.\<close>

definition net_with_mapped :: "ip_network \<Rightarrow> ip_network list" where
  "net_with_mapped n =
     n # (if ipv4_mapped (Ip (net_ver n) (net_base n) None) \<noteq> None \<and> 96 \<le> net_prefix n
          then [Net V4 (net_base n mod 2 ^ 32) (net_prefix n - 96)] else [])"

definition compile_list :: "ip_lib \<Rightarrow> string \<Rightarrow> ip_network list" where
  "compile_list lib raw =
     concat (map (\<lambda>entry. case il_network lib entry of None \<Rightarrow> [] | Some n \<Rightarrow> net_with_mapped n) (split_text raw))"

definition address_in :: "ip_lib \<Rightarrow> string \<Rightarrow> ip_network list \<Rightarrow> bool" where
  "address_in lib addr networks =
     (if addr = [] then False
      else (case il_address lib (py_strip addr) of
              None \<Rightarrow> False
            | Some ip \<Rightarrow> list_ex (\<lambda>cand. list_ex (ip_in cand) networks) (ip_candidates ip)))"

definition address_allowed_by :: "ip_lib \<Rightarrow> string \<Rightarrow> string list \<Rightarrow> bool" where
  "address_allowed_by lib addr entries = address_in lib addr (compile_list lib (py_join '','' entries))"

section \<open>The stored list and its cache\<close>

text \<open>The setting's row, absent, with a value or unreadable (the query raises).\<close>

datatype stored_row = Row_Absent | Row_Value "string option" | Row_Unreadable

record list_cache =
  ac_raw :: "string option"
  ac_at :: datetime

definition CACHE_TTL :: int where "CACHE_TTL = seconds 5"

definition invalidate_cache :: "list_cache \<Rightarrow> list_cache" where
  "invalidate_cache c = c\<lparr>ac_raw := None, ac_at := 0\<rparr>"

definition read_row :: "stored_row \<Rightarrow> string option \<Rightarrow> string" where
  "read_row row previous =
     (case row of
        Row_Absent \<Rightarrow> []
      | Row_Value v \<Rightarrow> py_strip (or_empty v)
      | Row_Unreadable \<Rightarrow> or_empty previous)"

definition stored_value :: "datetime \<Rightarrow> stored_row \<Rightarrow> list_cache \<Rightarrow> string \<times> list_cache" where
  "stored_value now row c =
     (if ac_raw c \<noteq> None \<and> now - ac_at c < CACHE_TTL then (or_empty (ac_raw c), c)
      else let raw = read_row row (ac_raw c) in (raw, \<lparr>ac_raw = Some raw, ac_at = now\<rparr>))"

definition effective_raw :: "process_env \<Rightarrow> datetime \<Rightarrow> stored_row \<Rightarrow> list_cache \<Rightarrow> string \<times> list_cache" where
  "effective_raw env now row c = (case env_value env of Some raw \<Rightarrow> (raw, c) | None \<Rightarrow> stored_value now row c)"

definition address_is_allowed :: "ip_lib \<Rightarrow> process_env \<Rightarrow> datetime \<Rightarrow> stored_row \<Rightarrow> list_cache \<Rightarrow> string \<Rightarrow> bool \<times> list_cache" where
  "address_is_allowed lib env now row c addr =
     (if disabled_by_env env then (True, c)
      else case effective_raw env now row c of
             (raw, c') \<Rightarrow> (if raw = [] then True else address_in lib addr (compile_list lib raw), c'))"

definition restored_value_locks_out :: "ip_lib \<Rightarrow> process_env \<Rightarrow> string option \<Rightarrow> string \<Rightarrow> bool" where
  "restored_value_locks_out lib env remote_addr raw =
     (if py_strip raw = [] \<or> env_locked env then False
      else \<not> (case remote_addr of None \<Rightarrow> False | Some a \<Rightarrow> address_in lib a (compile_list lib (py_strip raw))))"

section \<open>Refusals\<close>

definition REFUSAL_LOG_INTERVAL :: int where "REFUSAL_LOG_INTERVAL = seconds 300"
definition MAX_TRACKED_REFUSALS :: nat where "MAX_TRACKED_REFUSALS = 1024"

definition log_refusal :: "datetime \<Rightarrow> string \<Rightarrow> (string \<times> datetime) list \<Rightarrow> bool \<times> (string \<times> datetime) list" where
  "log_refusal now addr refusals =
     (case map_of refusals addr of
        Some last_time \<Rightarrow>
          if now - last_time < REFUSAL_LOG_INTERVAL then (False, refusals)
          else (True, map (\<lambda>(a, t). if a = addr then (a, now) else (a, t)) refusals)
      | None \<Rightarrow> (True, (if MAX_TRACKED_REFUSALS \<le> length refusals then [] else refusals) @ [(addr, now)]))"

datatype gate_answer = Let_Pass | Not_Authenticated | Refused_Api | Refused_Text

definition enforce_admin_allowlist ::
    "ip_lib \<Rightarrow> process_env \<Rightarrow> datetime \<Rightarrow> stored_row \<Rightarrow> list_cache \<Rightarrow> wsgi \<Rightarrow> gate_answer \<times> list_cache" where
  "enforce_admin_allowlist lib env now row c e =
     (if is_exempt_path (w_path e) then (Let_Pass, c)
      else case address_is_allowed lib env now row c (or_empty (w_remote_addr e)) of
             (True, c') \<Rightarrow> (Let_Pass, c')
           | (False, c') \<Rightarrow>
               (if w_path e \<in> set FORWARD_AUTH_PATHS \<and> is_request_from_trusted_proxy lib env e then Not_Authenticated
                else if starts_with (w_path e) ''/api/'' then Refused_Api else Refused_Text, c'))"

definition socket_gate ::
    "ip_lib \<Rightarrow> process_env \<Rightarrow> (int \<Rightarrow> wsgi \<Rightarrow> wsgi) \<Rightarrow> int \<Rightarrow> datetime \<Rightarrow> stored_row \<Rightarrow> list_cache \<Rightarrow> wsgi \<Rightarrow> bool \<times> list_cache" where
  "socket_gate lib env proxy_fix hops now row c e =
     (if starts_with (w_path e) ''/socket.io/'' \<and> \<not> disabled_by_env env
      then address_is_allowed lib env now row c (or_empty (w_remote_addr (served lib env proxy_fix hops e)))
      else (True, c))"

section \<open>Saving the list (settings/general.py)\<close>

datatype save_result = Save_Invalid allowlist_error | Save_Locks_Out | Save_Unchanged | Save_List string

definition save_allowed_networks :: "ip_lib \<Rightarrow> process_env \<Rightarrow> string \<Rightarrow> string \<Rightarrow> json \<Rightarrow> save_result" where
  "save_allowed_networks lib env stored client value =
     (if env_locked env then Save_Unchanged
      else (case parse_entries lib value of
              Inl e \<Rightarrow> Save_Invalid e
            | Inr entries \<Rightarrow>
                if entries = split_text stored then Save_Unchanged
                else if entries \<noteq> [] \<and> \<not> disabled_by_env env \<and> \<not> address_allowed_by lib client entries
                then Save_Locks_Out
                else Save_List (py_join '','' entries)))"

section \<open>Forwarded headers\<close>

lemma gate_drops_headers:
  assumes "\<not> is_trusted_peer lib env (or_empty (w_remote_addr e))" "k \<in> set FORWARDED_ENVIRON_KEYS"
  shows "map_of (w_headers (forwarded_headers_gate lib env e)) k = None"
  using assms by (auto simp: forwarded_headers_gate_def map_of_eq_None_iff)

lemma gate_keeps_peer [simp]: "w_remote_addr (forwarded_headers_gate lib env e) = w_remote_addr e"
  by (simp add: forwarded_headers_gate_def)

lemma untrusted_client_ip:
  assumes "\<not> is_request_from_trusted_proxy lib env e"
  shows "real_client_ip lib env e = (if or_empty (w_remote_addr e) = [] then ''unknown'' else or_empty (w_remote_addr e))"
  using assms by (simp add: real_client_ip_def Let_def split: option.split)

text \<open>C33: Only a trusted proxy speaks for a client's address. When the peer of a connection is not in
  the trusted set, whatever headers the request carries and however many hops \<open>ProxyFix\<close> is set to
  read, the application sees the peer's own address as the remote address and as the client's address, and ignores
  headers that only a proxy may set. Of \<open>ProxyFix\<close> it is used that it records the peer and changes
  it only when there is an \<open>X-Forwarded-For\<close> header.\<close>

theorem forwarded_headers_need_trust:
  assumes "\<not> is_trusted_peer lib env (or_empty (w_remote_addr e))" "w_orig e = None"
    and "\<And>h x. w_orig (proxy_fix h x) = Some (w_remote_addr x)"
    and "\<And>h x. map_of (w_headers x) ''HTTP_X_FORWARDED_FOR'' = None \<Longrightarrow> w_remote_addr (proxy_fix h x) = w_remote_addr x"
  shows "w_remote_addr (served lib env proxy_fix hops e) = w_remote_addr e
    \<and> real_client_ip lib env (served lib env proxy_fix hops e) =
        (if or_empty (w_remote_addr e) = [] then ''unknown'' else or_empty (w_remote_addr e))
    \<and> reject_untrusted_proxy_headers lib env (served lib env proxy_fix hops e)"
proof -
  let ?e = "served lib env proxy_fix hops e"
  have same: "w_remote_addr ?e = w_remote_addr e"
    using assms(4)[OF gate_drops_headers[OF assms(1)]] by (simp add: served_def FORWARDED_ENVIRON_KEYS_def)
  have "immediate_peer_addr ?e = or_empty (w_remote_addr e)"
    using assms(2,3) by (simp add: served_def immediate_peer_addr_def)
  then have "\<not> is_request_from_trusted_proxy lib env ?e"
    using assms(1) by (simp add: is_request_from_trusted_proxy_def)
  then show ?thesis
    using same untrusted_client_ip[of lib env ?e] by (simp add: reject_untrusted_proxy_headers_def)
qed

text \<open>A reader of two addresses, and \<open>ProxyFix\<close> for one hop: the address is the last entry of the header.\<close>

definition two_addresses :: ip_lib where
  "two_addresses = \<lparr>il_address = map_of [(''127.0.0.1'', Ip V4 2130706433 None), (''10.0.0.9'', Ip V4 167772169 None)],
     il_network = map_of [(''10.0.0.0/8'', Net V4 167772160 8), (''10.0.0.9'', Net V4 167772169 32)],
     il_address_text = (\<lambda>a. if a = Ip V4 2130706433 None then ''127.0.0.1'' else ''10.0.0.9''),
     il_network_text = (\<lambda>n. if n = Net V4 167772160 8 then ''10.0.0.0/8'' else ''10.0.0.9/32'')\<rparr>"

definition one_hop :: "int \<Rightarrow> wsgi \<Rightarrow> wsgi" where
  "one_hop h x =
     (case map_of (w_headers x) ''HTTP_X_FORWARDED_FOR'' of
        None \<Rightarrow> x\<lparr>w_orig := Some (w_remote_addr x)\<rparr>
      | Some v \<Rightarrow> x\<lparr>w_orig := Some (w_remote_addr x), w_remote_addr := Some (py_strip (last (py_split (CHR '','') v)))\<rparr>)"

definition plain_env :: process_env where
  "plain_env = \<lparr>pe_trusted_proxies = [], pe_allowed_networks = None, pe_allowlist_disable = []\<rparr>"

definition spoofed :: wsgi where
  "spoofed = \<lparr>w_remote_addr = Some ''10.0.0.9'',
     w_headers = [(''HTTP_X_FORWARDED_FOR'', ''127.0.0.1''), (''HTTP_X_REAL_IP'', ''127.0.0.1'')],
     w_orig = None, w_path = ''/api/v2/cas''\<rparr>"

theorem forwarded_headers_need_trust_witness:
  "real_client_ip two_addresses plain_env (served two_addresses plain_env one_hop 1 spoofed) = ''10.0.0.9''
   \<and> real_client_ip two_addresses plain_env
       (served two_addresses plain_env one_hop 1 (spoofed\<lparr>w_remote_addr := Some ''127.0.0.1''\<rparr>)) = ''127.0.0.1''"
proof -
  have "\<not> is_trusted_peer two_addresses plain_env (or_empty (w_remote_addr spoofed))" "w_orig spoofed = None"
    "or_empty (w_remote_addr spoofed) = ''10.0.0.9''"
    by code_simp+
  moreover have "w_orig (one_hop h x) = Some (w_remote_addr x)" for h x
    by (simp add: one_hop_def split: option.split)
  moreover have "w_remote_addr (one_hop h x) = w_remote_addr x" if "map_of (w_headers x) ''HTTP_X_FORWARDED_FOR'' = None" for h x
    using that by (simp add: one_hop_def)
  ultimately have "real_client_ip two_addresses plain_env (served two_addresses plain_env one_hop 1 spoofed) = ''10.0.0.9''"
    using forwarded_headers_need_trust[of two_addresses plain_env spoofed one_hop 1] by simp
  moreover have "real_client_ip two_addresses plain_env
       (served two_addresses plain_env one_hop 1 (spoofed\<lparr>w_remote_addr := Some ''127.0.0.1''\<rparr>)) = ''127.0.0.1''"
    by code_simp
  ultimately show ?thesis ..
qed

text \<open>A blank \<open>X-Real-IP\<close> from a trusted proxy gives an empty client address.\<close>

lemma blank_real_ip_is_empty:
  "real_client_ip two_addresses plain_env
     \<lparr>w_remote_addr = Some ''127.0.0.1'', w_headers = [(''HTTP_X_REAL_IP'', '' '')], w_orig = None, w_path = []\<rparr> = []"
  by code_simp

section \<open>The list read back\<close>

text \<open>The entries of a text are its runs of characters between separators.\<close>

definition list_tokens :: "string \<Rightarrow> string list" where
  "list_tokens s = filter (\<lambda>w. w \<noteq> []) (re_split s)"

lemma re_split_no_sep: "w \<in> set (re_split s) \<Longrightarrow> c \<in> set w \<Longrightarrow> \<not> is_sep c"
proof (induction s rule: re_split.induct)
  case (1 s)
  consider "w = takeWhile (\<lambda>c. \<not> is_sep c) s"
    | d ds where "dropWhile (\<lambda>c. \<not> is_sep c) s = d # ds" "w \<in> set (re_split (dropWhile is_sep ds))"
    using 1(2) by (subst (asm) re_split.simps) (cases "dropWhile (\<lambda>c. \<not> is_sep c) s"; auto)
  then show ?case
  proof cases
    case 1
    with \<open>c \<in> set w\<close> show ?thesis by (auto dest: set_takeWhileD)
  next
    case 2
    then show ?thesis using 1(1) \<open>c \<in> set w\<close> by blast
  qed
qed

lemma split_text_tokens: "split_text s = list_tokens s"
proof -
  have same: "py_strip w = w" if "w \<in> set (re_split s)" for w
    using re_split_no_sep[OF that] by (intro py_strip_no_space) (auto simp: is_sep_def)
  then have "filter (\<lambda>i. py_strip i \<noteq> []) (re_split s) = list_tokens s"
    unfolding list_tokens_def by (intro filter_cong) auto
  then have "split_text s = map py_strip (list_tokens s)" by (simp add: clean_items_def)
  also have "\<dots> = list_tokens s"
    using same by (intro map_idI) (auto simp: list_tokens_def)
  finally show ?thesis .
qed

lemma tokens_sep: "is_sep c \<Longrightarrow> list_tokens (c # s) = list_tokens (dropWhile is_sep s)"
  unfolding list_tokens_def by (subst re_split.simps) simp

lemma tokens_dropWhile: "list_tokens (dropWhile is_sep s) = list_tokens s"
  by (cases s) (simp_all add: tokens_sep)

lemma tokens_Cons: "is_sep c \<Longrightarrow> list_tokens (c # s) = list_tokens s"
  by (simp add: tokens_sep tokens_dropWhile)

lemma tokens_snoc:
  assumes "is_sep c"
  shows "list_tokens (s @ [c]) = list_tokens s"
proof (induction s rule: re_split.induct)
  case (1 s)
  show ?case
  proof (cases "dropWhile (\<lambda>c. \<not> is_sep c) s")
    case Nil
    then have all: "\<forall>x \<in> set s. \<not> is_sep x" by (simp add: dropWhile_eq_Nil_conv)
    then have shape: "dropWhile (\<lambda>c. \<not> is_sep c) (s @ [c]) = [c]" "takeWhile (\<lambda>c. \<not> is_sep c) (s @ [c]) = s"
      "takeWhile (\<lambda>c. \<not> is_sep c) s = s"
      using assms by (simp_all add: dropWhile_append2 takeWhile_append2 takeWhile_eq_all_conv)
    have empty: "re_split [] = [[]]" by (subst re_split.simps) simp
    have "re_split (s @ [c]) = [s, []]"
      by (subst re_split.simps) (simp only: shape list.case dropWhile.simps empty)
    moreover have "re_split s = [s]"
      by (subst re_split.simps) (simp only: shape Nil list.case)
    ultimately show ?thesis by (simp add: list_tokens_def)
  next
    case (Cons d ds)
    then have ex: "\<exists>x \<in> set s. is_sep x" by (metis dropWhile_eq_Nil_conv list.distinct(1))
    then have shape: "dropWhile (\<lambda>c. \<not> is_sep c) (s @ [c]) = d # (ds @ [c])"
      "takeWhile (\<lambda>c. \<not> is_sep c) (s @ [c]) = takeWhile (\<lambda>c. \<not> is_sep c) s"
      using Cons by (auto simp: dropWhile_append1 takeWhile_append1)
    have inner: "list_tokens (dropWhile is_sep (ds @ [c])) = list_tokens (dropWhile is_sep ds)"
    proof (cases "\<forall>x \<in> set ds. is_sep x")
      case True
      then have "dropWhile is_sep ds = []" "dropWhile is_sep (ds @ [c]) = []"
        using assms by (simp_all only: dropWhile_eq_Nil_conv set_append list.set Un_iff) auto
      then show ?thesis by (simp only:)
    next
      case False
      then have "dropWhile is_sep (ds @ [c]) = dropWhile is_sep ds @ [c]" by (auto simp: dropWhile_append1)
      then show ?thesis using 1[OF Cons] by simp
    qed
    have "re_split (s @ [c]) = takeWhile (\<lambda>c. \<not> is_sep c) s # re_split (dropWhile is_sep (ds @ [c]))"
      by (subst re_split.simps) (simp only: shape list.case)
    moreover have "re_split s = takeWhile (\<lambda>c. \<not> is_sep c) s # re_split (dropWhile is_sep ds)"
      by (subst re_split.simps) (simp only: Cons list.case)
    ultimately show ?thesis using inner by (simp add: list_tokens_def)
  qed
qed

lemma tokens_py_strip: "list_tokens (py_strip s) = list_tokens s"
proof -
  have front: "list_tokens (dropWhile is_space s) = list_tokens s" for s
    by (induction s) (simp_all add: tokens_Cons is_sep_def)
  have rear: "list_tokens (rev (dropWhile is_space s)) = list_tokens (rev s)" for s
    by (induction s) (simp_all add: tokens_snoc is_sep_def)
  show ?thesis
    using rear[of "rev (dropWhile is_space s)"] front[of s] by (simp add: py_strip_def)
qed

lemma compile_list_py_strip: "compile_list lib (py_strip s) = compile_list lib s"
  by (simp add: compile_list_def split_text_tokens tokens_py_strip)

section \<open>Nobody locks himself out\<close>

lemma stored_value_reads:
  assumes "ac_raw c = None \<or> CACHE_TTL \<le> now - ac_at c"
  shows "stored_value now (Row_Value (Some s)) c = (py_strip s, \<lparr>ac_raw = Some (py_strip s), ac_at = now\<rparr>)"
  using assms by (auto simp: stored_value_def read_row_def or_empty_def Let_def)

text \<open>An administrator who saves a list of allowed networks is not locked out by it. Once the list
  is stored, a request from the address that saved it passes the gate, in the process that saved it at once (its cache is
  emptied) and in any other as soon as its cache is five seconds old, whatever the path asked for.\<close>

theorem saver_not_locked_out:
  assumes "save_allowed_networks lib env stored (or_empty (w_remote_addr e)) entries = Save_List s"
    and "ac_raw c = None \<or> CACHE_TTL \<le> now - ac_at c"
  shows "fst (enforce_admin_allowlist lib env now (Row_Value (Some s)) c e) = Let_Pass"
proof -
  obtain es where es: "\<not> env_locked env" "s = py_join '','' es"
    "es = [] \<or> disabled_by_env env \<or> address_allowed_by lib (or_empty (w_remote_addr e)) es"
    using assms(1) by (auto simp: save_allowed_networks_def split: if_splits sum.splits)
  then have "env_value env = None" by (simp add: env_locked_def)
  then have raw: "effective_raw env now (Row_Value (Some s)) c = (py_strip s, \<lparr>ac_raw = Some (py_strip s), ac_at = now\<rparr>)"
    using stored_value_reads[OF assms(2), of s] by (simp add: effective_raw_def)
  have "py_strip s = [] \<or> disabled_by_env env \<or> address_in lib (or_empty (w_remote_addr e)) (compile_list lib s)"
    using es(2,3) by (auto simp: py_strip_def address_allowed_by_def)
  then have "fst (address_is_allowed lib env now (Row_Value (Some s)) c (or_empty (w_remote_addr e)))"
    by (auto simp: address_is_allowed_def raw compile_list_py_strip)
  then show ?thesis
    by (auto simp: enforce_admin_allowlist_def split: prod.splits bool.splits)
qed

theorem saver_not_locked_out_witness:
  "save_allowed_networks two_addresses plain_env [] ''10.0.0.9'' (JList [JStr '' 10.0.0.0/8,'']) = Save_List ''10.0.0.0/8''
   \<and> fst (enforce_admin_allowlist two_addresses plain_env 0 (Row_Value (Some ''10.0.0.0/8'')) \<lparr>ac_raw = None, ac_at = 0\<rparr> spoofed) = Let_Pass
   \<and> fst (enforce_admin_allowlist two_addresses plain_env 0 (Row_Value (Some ''10.0.0.0/8'')) \<lparr>ac_raw = None, ac_at = 0\<rparr>
        (spoofed\<lparr>w_remote_addr := Some ''127.0.0.1''\<rparr>)) = Refused_Api
   \<and> save_allowed_networks two_addresses plain_env [] ''127.0.0.1'' (JList [JStr ''10.0.0.0/8'']) = Save_Locks_Out"
proof (intro conjI)
  show saved: "save_allowed_networks two_addresses plain_env [] ''10.0.0.9'' (JList [JStr '' 10.0.0.0/8,'']) = Save_List ''10.0.0.0/8''"
    by code_simp
  show "fst (enforce_admin_allowlist two_addresses plain_env 0 (Row_Value (Some ''10.0.0.0/8'')) \<lparr>ac_raw = None, ac_at = 0\<rparr> spoofed) = Let_Pass"
    using saved by (intro saver_not_locked_out[where stored = "[]" and entries = "JList [JStr '' 10.0.0.0/8,'']"])
      (simp_all add: spoofed_def or_empty_def)
qed code_simp+

text \<open>The gate of the socket endpoint decides on the address the application would see.\<close>

lemma socket_gate_agrees:
  assumes "starts_with (w_path e) ''/socket.io/''"
  shows "fst (socket_gate lib env proxy_fix hops now row c e) =
    fst (address_is_allowed lib env now row c (or_empty (w_remote_addr (served lib env proxy_fix hops e))))"
  using assms by (simp add: socket_gate_def address_is_allowed_def)

text \<open>The two tables of refused and warned peers stay bounded.\<close>

lemma refusals_bounded:
  "length refusals \<le> MAX_TRACKED_REFUSALS \<Longrightarrow> length (snd (log_refusal now addr refusals)) \<le> MAX_TRACKED_REFUSALS"
  by (auto simp: log_refusal_def MAX_TRACKED_REFUSALS_def split: option.splits)

lemma warned_bounded: "length warned \<le> MAX_WARNED_PEERS \<Longrightarrow> length (snd (warn_once peer warned)) \<le> MAX_WARNED_PEERS"
  by (auto simp: warn_once_def)

end
