(* ===== verification/Dns_Messages.thy ===== *)
theory Dns_Messages
  imports Prelude "HOL-Library.Word"
begin

text \<open>
  The vocabulary of the DNS UPDATE listener (\<^verbatim>\<open>services/acme/dns_update/\<close>): octets and the
  twelve octets of a header, what the parser hands over of a message, what the listener fills in of
  a response, and the constants of \<^verbatim>\<open>constants.py\<close>.

  dnspython is a parameter, the record \<open>dns_lib\<close>: comparison, printing and reading of names, the
  reader of messages, the cursor over a message, the signature functions and the printer of
  responses. A function that raises gives \<open>None\<close>. A name is the list of its labels, the empty label
  of the root last.
\<close>

unbundle bit_operations_syntax

type_synonym octets = "8 word list"
type_synonym dns_name = "string list"

section \<open>Sixteen-bit fields\<close>

text \<open>\<open>struct\<close> with \<open>!H\<close>.\<close>

definition unpack16 :: "octets \<Rightarrow> nat \<Rightarrow> 16 word" where
  "unpack16 bs i = push_bit 8 (ucast (bs ! i)) OR ucast (bs ! (i + 1))"

definition pack16 :: "16 word \<Rightarrow> octets" where
  "pack16 w = [ucast (drop_bit 8 w), ucast w]"

lemma length_pack16 [simp]: "length (pack16 w) = 2"
  by (simp add: pack16_def)

lemma unpack_pack16: "unpack16 (pack16 w @ bs) 0 = w"
  by (rule bit_word_eqI) (auto simp: unpack16_def pack16_def bit_simps)

lemma unpack16_append: "length xs \<le> i \<Longrightarrow> unpack16 (xs @ ys) i = unpack16 ys (i - length xs)"
  by (simp add: unpack16_def nth_append Suc_diff_le)

lemma unpack16_pack16: "unpack16 (pack16 v @ pack16 w @ bs) 2 = w"
  using unpack16_append[of "pack16 v" 2 "pack16 w @ bs"] unpack_pack16[of w bs] by simp

section \<open>Messages\<close>

record tsig_rdata =
  td_algorithm :: dns_name
  td_time_signed :: int
  td_fudge :: int
  td_mac :: octets
  td_original_id :: "16 word"
  td_error :: int
  td_other :: octets

text \<open>An RRset; \<open>rr_deleting\<close> is the class of a deletion, \<open>rr_txts\<close> the character strings of each TXT
  record of it.\<close>

record dns_rrset =
  rr_name :: dns_name
  rr_class :: int
  rr_type :: int
  rr_deleting :: "int option"
  rr_txts :: "octets list list"

text \<open>The three sections are question, answer and authority of a QUERY, and zone, prerequisite and
  update of an UPDATE. \<open>m_edns\<close> is negative without an OPT record.\<close>

record dns_msg =
  m_id :: "16 word"
  m_question :: "dns_rrset list"
  m_prerequisite :: "dns_rrset list"
  m_update :: "dns_rrset list"
  m_tsig :: "(dns_name \<times> tsig_rdata) option"
  m_edns :: int
  m_payload :: int

record soa_rrset =
  soa_owner :: dns_name
  soa_ttl :: int
  soa_mname :: dns_name
  soa_rname :: dns_name
  soa_timers :: "int list"

record dns_resp =
  rs_id :: "16 word"
  rs_rcode :: int
  rs_aa :: bool
  rs_tc :: bool
  rs_question :: "dns_rrset list"
  rs_answer :: "soa_rrset list"
  rs_authority :: "soa_rrset list"
  rs_additional :: "dns_rrset list"

section \<open>Keys and the library\<close>

record tsig_key =
  tk_id :: int
  tk_name :: dns_name
  tk_algorithm :: dns_name
  tk_secret :: octets

datatype validation = Mac_Valid | Bad_Signature | Bad_Key | Validate_Raises

record dns_lib =
  dl_eq :: "dns_name \<Rightarrow> dns_name \<Rightarrow> bool"
  dl_subdomain :: "dns_name \<Rightarrow> dns_name \<Rightarrow> bool"
  dl_parent :: "dns_name \<Rightarrow> dns_name"
  dl_canonical :: "dns_name \<Rightarrow> dns_name"
  dl_absolute :: "dns_name \<Rightarrow> bool"
  dl_to_text :: "dns_name \<Rightarrow> string"
  dl_from_text :: "string \<Rightarrow> dns_name option"
  dl_name_wire :: "dns_name \<Rightarrow> octets option"
  dl_sha256 :: dns_name
  dl_sha384 :: dns_name
  dl_sha512 :: dns_name
  dl_mac_size :: "dns_name \<Rightarrow> nat"
  dl_from_wire :: "octets \<Rightarrow> dns_msg option"
  dl_same_sections :: "dns_msg \<Rightarrow> dns_msg \<Rightarrow> bool"
  dl_same_tsig :: "dns_msg \<Rightarrow> dns_msg \<Rightarrow> bool"
  dl_read_name :: "octets \<Rightarrow> nat \<Rightarrow> (dns_name \<times> nat) option"
  dl_get_bytes :: "octets \<Rightarrow> nat \<Rightarrow> nat \<Rightarrow> (octets \<times> nat) option"
  dl_validate :: "octets \<Rightarrow> tsig_key \<Rightarrow> dns_name \<Rightarrow> tsig_rdata \<Rightarrow> int \<Rightarrow> octets \<Rightarrow> nat \<Rightarrow> validation"
  dl_sign :: "octets \<Rightarrow> tsig_key \<Rightarrow> tsig_rdata \<Rightarrow> int \<Rightarrow> octets \<Rightarrow> tsig_rdata option"
  dl_tsig_wire :: "dns_name \<Rightarrow> tsig_rdata \<Rightarrow> (nat \<times> octets) option"
  dl_make_response :: "dns_msg \<Rightarrow> dns_resp option"
  dl_to_wire :: "dns_resp \<Rightarrow> int \<Rightarrow> octets option"

definition lower_text :: "dns_lib \<Rightarrow> dns_name \<Rightarrow> string" where
  "lower_text lib n = py_lower (dl_to_text lib n)"

section \<open>Constants\<close>

definition ALLOWED_TSIG_ALGORITHMS :: "dns_lib \<Rightarrow> dns_name list" where
  "ALLOWED_TSIG_ALGORITHMS lib = [dl_sha256 lib, dl_sha384 lib, dl_sha512 lib]"

definition SECRET_LENGTHS :: "dns_lib \<Rightarrow> (dns_name \<times> nat) list" where
  "SECRET_LENGTHS lib = [(dl_sha256 lib, 32), (dl_sha384 lib, 48), (dl_sha512 lib, 64)]"

definition MAX_FUDGE :: int where "MAX_FUDGE = 300"
definition RESPONSE_FUDGE :: int where "RESPONSE_FUDGE = 300"
definition MAX_MESSAGE_SIZE :: int where "MAX_MESSAGE_SIZE = 4096"
definition MAX_QDCOUNT :: "16 word" where "MAX_QDCOUNT = 16"
definition MAX_ANCOUNT :: "16 word" where "MAX_ANCOUNT = 16"
definition MAX_NSCOUNT :: "16 word" where "MAX_NSCOUNT = 16"
definition MAX_ARCOUNT :: "16 word" where "MAX_ARCOUNT = 4"
definition REPLAY_CACHE_SIZE :: int where "REPLAY_CACHE_SIZE = 4096"
definition REPLAY_TTL_S :: int where "REPLAY_TTL_S = 2 * MAX_FUDGE"
definition SOA_TIMERS :: "int list" where "SOA_TIMERS = [1, 3600, 600, 86400, 0]"
definition CHALLENGE_LABEL :: string where "CHALLENGE_LABEL = ''_acme-challenge''"

definition allowed_algorithm :: "dns_lib \<Rightarrow> dns_name \<Rightarrow> bool" where
  "allowed_algorithm lib a \<longleftrightarrow> list_ex (dl_eq lib a) (ALLOWED_TSIG_ALGORITHMS lib)"

lemmas dns_constants [ucm_tables] =
  ALLOWED_TSIG_ALGORITHMS_def SECRET_LENGTHS_def MAX_FUDGE_def RESPONSE_FUDGE_def MAX_MESSAGE_SIZE_def
  MAX_QDCOUNT_def MAX_ANCOUNT_def MAX_NSCOUNT_def MAX_ARCOUNT_def REPLAY_CACHE_SIZE_def REPLAY_TTL_S_def
  SOA_TIMERS_def CHALLENGE_LABEL_def allowed_algorithm_def

end
