(* ===== verification/Reload_Cache.thy ===== *)
theory Reload_Cache
  imports Main
begin

text \<open>
  The interface of a cache over the database that is reloaded on use. \<open>refresh t l s\<close> is one use at
  time \<open>t\<close> that would load \<open>l\<close> (\<open>None\<close> when the database fails); \<open>invalidate\<close> asks for a reload. The
  three caches of the DNS UPDATE listener keep these laws; the one of the keys also fails closed.
\<close>

datatype ('t, 'v) cache_event = Refresh 't "'v option" | Invalidate

fun loads_of :: "('t, 'v) cache_event list \<Rightarrow> 'v set" where
  "loads_of [] = {}"
| "loads_of (Refresh t (Some v) # es) = insert v (loads_of es)"
| "loads_of (_ # es) = loads_of es"

lemma loads_of_append [simp]: "loads_of (xs @ ys) = loads_of xs \<union> loads_of ys"
  by (induction xs rule: loads_of.induct) auto

locale reload_cache =
  fixes shown :: "'s \<Rightarrow> 'v"
    and blank :: 'v
    and refresh :: "'t \<Rightarrow> 'v option \<Rightarrow> 's \<Rightarrow> 's"
    and invalidate :: "'s \<Rightarrow> 's"
  assumes shown_refresh: "shown (refresh t l s) = shown s \<or> shown (refresh t l s) = blank \<or> l = Some (shown (refresh t l s))"
    and shown_invalidate: "shown (invalidate s) = shown s"

context reload_cache
begin

definition apply_event :: "('t, 'v) cache_event \<Rightarrow> 's \<Rightarrow> 's" where
  "apply_event e s = (case e of Refresh t l \<Rightarrow> refresh t l s | Invalidate \<Rightarrow> invalidate s)"

text \<open>What is shown was shown before, is blank, or was loaded.\<close>

lemma shown_run: "shown (fold apply_event es s) = shown s \<or> shown (fold apply_event es s) \<in> insert blank (loads_of es)"
proof (induction es arbitrary: s)
  case (Cons e es)
  show ?case
  proof (cases e)
    case (Refresh t l)
    then show ?thesis
      using Cons.IH[of "refresh t l s"] shown_refresh[of t l s] by (cases l) (auto simp: apply_event_def)
  next
    case Invalidate
    then show ?thesis using Cons.IH[of "invalidate s"] by (simp add: apply_event_def shown_invalidate)
  qed
qed simp

end

text \<open>A cache that fails closed: after \<open>invalidate\<close>, the next use shows a load or nothing.\<close>

locale fail_closed_cache = reload_cache shown blank refresh invalidate
  for shown :: "'s \<Rightarrow> 'v"
    and blank :: 'v
    and refresh :: "'t \<Rightarrow> 'v option \<Rightarrow> 's \<Rightarrow> 's"
    and invalidate :: "'s \<Rightarrow> 's" +
  fixes stale :: "'s \<Rightarrow> bool"
  assumes stale_invalidate: "stale (invalidate s)"
    and stale_refresh: "stale s \<Longrightarrow> shown (refresh t l s) = blank \<or> l = Some (shown (refresh t l s))"

context fail_closed_cache
begin

text \<open>After an invalidation, anything, and a use, what is shown was loaded after the invalidation, or is
  blank.\<close>

lemma stale_or_loaded:
  "stale s \<or> shown s \<in> X \<Longrightarrow> stale (fold apply_event es s) \<or> shown (fold apply_event es s) \<in> X \<union> insert blank (loads_of es)"
proof (induction es arbitrary: s X)
  case (Cons e es)
  show ?case
  proof (cases e)
    case (Refresh t l)
    have "shown (refresh t l s) \<in> X \<union> insert blank (loads_of [Refresh t l])"
      using Cons.prems stale_refresh[of s t l] shown_refresh[of t l s] by (cases l) auto
    from Cons.IH[OF disjI2[OF this]] show ?thesis using Refresh by (cases l) (auto simp: apply_event_def)
  next
    case Invalidate
    then show ?thesis using Cons.IH[of "invalidate s" X] stale_invalidate by (simp add: apply_event_def)
  qed
qed auto

lemma shown_after_invalidate:
  "shown (fold apply_event (es @ [Refresh t l]) (invalidate s)) \<in> insert blank (loads_of (es @ [Refresh t l]))"
proof -
  let ?s = "fold apply_event es (invalidate s)"
  have "stale ?s \<or> shown ?s \<in> {} \<union> insert blank (loads_of es)"
    using stale_or_loaded[of "invalidate s" "{}" es] stale_invalidate by simp
  then show ?thesis
    using stale_refresh[of ?s t l] shown_refresh[of t l ?s] by (cases l) (auto simp: apply_event_def)
qed

end

end
