(* ===== verification/Ordered_Dict.thy ===== *)
theory Ordered_Dict
  imports Prelude "HOL-Library.AList"
begin

text \<open>
  Python's \<open>collections.OrderedDict\<close> as an association list, oldest entry first, and the bounded
  tables the back end builds from it: an entry that is stored or used moves to the end, and the
  oldest entries leave while the table is too long. The lemmas say how long an entry stays.
\<close>

type_synonym ('k, 'v) odict = "('k \<times> 'v) list"

text \<open>\<open>d.move_to_end(k)\<close> for a key of the table.\<close>

definition move_to_end :: "'k \<Rightarrow> ('k, 'v) odict \<Rightarrow> ('k, 'v) odict" where
  "move_to_end k d = (case map_of d k of None \<Rightarrow> d | Some v \<Rightarrow> AList.delete k d @ [(k, v)])"

text \<open>\<open>while len(d) > n: d.popitem(last=False)\<close>.\<close>

definition pop_oldest :: "int \<Rightarrow> ('k, 'v) odict \<Rightarrow> ('k, 'v) odict" where
  "pop_oldest n d = drop (nat (int (length d) - n)) d"

definition od_keys :: "('k, 'v) odict \<Rightarrow> 'k list" where
  "od_keys d = map fst d"

definition od_ok :: "int \<Rightarrow> ('k, 'v) odict \<Rightarrow> bool" where
  "od_ok n d \<longleftrightarrow> distinct (od_keys d) \<and> int (length d) \<le> n"

lemmas odict_defs [ucm_eval] = move_to_end_def pop_oldest_def od_keys_def AList.delete_eq

lemma length_pop_oldest: "0 \<le> n \<Longrightarrow> int (length (pop_oldest n d)) = min n (int (length d))"
  by (auto simp: pop_oldest_def)

lemma pop_oldest_short: "int (length d) \<le> n \<Longrightarrow> pop_oldest n d = d"
  by (simp add: pop_oldest_def)

lemma map_of_delete: "map_of (AList.delete k d) = (map_of d)(k := None)"
  using delete_conv'[of k d] by simp

lemma map_of_delete_eq [simp]: "map_of (AList.delete k d) k' = (if k' = k then None else map_of d k')"
  by (simp add: map_of_delete)

lemma map_of_update_eq [simp]: "map_of (AList.update k v d) k' = (if k' = k then Some v else map_of d k')"
  by (simp add: update_conv')

lemma map_of_move_to_end [simp]: "map_of (move_to_end k d) = map_of d"
  by (rule ext) (auto simp: move_to_end_def map_add_def split: option.splits)

lemma od_keys_delete: "od_keys (AList.delete k d) = filter (\<lambda>x. x \<noteq> k) (od_keys d)"
  by (induction d) (auto simp: od_keys_def)

lemma distinct_update_keys: "distinct (od_keys d) \<Longrightarrow> distinct (od_keys (AList.update k v d))"
  using distinct_update[of d k v] by (simp add: od_keys_def)

lemma distinct_delete_keys: "distinct (od_keys d) \<Longrightarrow> distinct (od_keys (AList.delete k d))"
  by (simp add: od_keys_delete)

lemma distinct_move_to_end: "distinct (od_keys d) \<Longrightarrow> distinct (od_keys (move_to_end k d))"
  using od_keys_delete[of k d] by (auto simp: move_to_end_def od_keys_def split: option.splits)

lemma distinct_pop_oldest: "distinct (od_keys d) \<Longrightarrow> distinct (od_keys (pop_oldest n d))"
  by (simp add: pop_oldest_def od_keys_def drop_map[symmetric] distinct_drop)

lemmas od_distinct = distinct_update_keys distinct_delete_keys distinct_move_to_end distinct_pop_oldest

lemma map_of_drop_SomeD:
  assumes "distinct (od_keys d)" "map_of (drop n d) k = Some v"
  shows "map_of d k = Some v"
proof -
  have "(k, v) \<in> set d" using assms(2) by (metis in_set_dropD map_of_SomeD)
  then show ?thesis using assms(1) by (simp add: od_keys_def map_of_eq_Some_iff)
qed

lemma map_of_pop_oldest_SomeD:
  "distinct (od_keys d) \<Longrightarrow> map_of (pop_oldest n d) k = Some v \<Longrightarrow> map_of d k = Some v"
  by (simp add: pop_oldest_def map_of_drop_SomeD)

lemma set_pop_oldest: "set (pop_oldest n d) \<subseteq> set d"
  by (simp add: pop_oldest_def set_drop_subset)

section \<open>How long an entry stays\<close>

text \<open>The keys behind that of \<open>k\<close>, which were used after it, are all in \<open>S\<close>.\<close>

definition young :: "'k \<Rightarrow> 'v \<Rightarrow> 'k set \<Rightarrow> ('k, 'v) odict \<Rightarrow> bool" where
  "young k v S d \<longleftrightarrow> distinct (od_keys d) \<and> (\<exists>xs ys. d = xs @ (k, v) # ys \<and> fst ` set ys \<subseteq> S)"

lemma young_map_of: "young k v S d \<Longrightarrow> map_of d k = Some v"
  by (auto simp: young_def od_keys_def map_of_eq_Some_iff)

lemma young_mono: "young k v S d \<Longrightarrow> S \<subseteq> T \<Longrightarrow> young k v T d"
  unfolding young_def by (fast intro: order_trans)

lemma young_delete:
  assumes "young k v S d" "k' \<noteq> k"
  shows "young k v S (AList.delete k' d)"
proof -
  obtain xs ys where d: "d = xs @ (k, v) # ys" "fst ` set ys \<subseteq> S"
    using assms(1) by (auto simp: young_def)
  have "AList.delete k' d = AList.delete k' xs @ (k, v) # AList.delete k' ys"
    using assms(2) by (simp add: d(1) AList.delete_eq)
  moreover have "fst ` set (AList.delete k' ys) \<subseteq> S" using d(2) by (auto simp: AList.delete_eq)
  moreover have "distinct (od_keys (AList.delete k' d))"
    using assms(1) by (simp add: young_def distinct_delete_keys)
  ultimately show ?thesis unfolding young_def by blast
qed

lemma young_append:
  assumes "young k v S d" "k' \<notin> set (od_keys d)"
  shows "young k v (insert k' S) (d @ [(k', v')])"
proof -
  obtain xs ys where d: "d = xs @ (k, v) # ys" "fst ` set ys \<subseteq> S" using assms(1) by (auto simp: young_def)
  then have "d @ [(k', v')] = xs @ (k, v) # (ys @ [(k', v')])" "fst ` set (ys @ [(k', v')]) \<subseteq> insert k' S" by auto
  moreover have "distinct (od_keys (d @ [(k', v')]))" using assms by (auto simp: young_def od_keys_def)
  ultimately show ?thesis unfolding young_def by blast
qed

text \<open>Using or storing another key adds that key to the younger ones.\<close>

lemma young_move_to_end:
  assumes "young k v S d" "k' \<noteq> k"
  shows "young k v (insert k' S) (move_to_end k' d)"
proof (cases "map_of d k'")
  case None
  then show ?thesis using young_mono[OF assms(1)] by (auto simp: move_to_end_def)
next
  case (Some v')
  have "k' \<notin> set (od_keys (AList.delete k' d))" by (simp add: od_keys_delete)
  from young_append[OF young_delete[OF assms] this] show ?thesis using Some by (simp add: move_to_end_def)
qed

lemma delete_update: "AList.delete k (AList.update k v d) = AList.delete k d"
  by (induction d) auto

lemma move_to_end_update: "move_to_end k (AList.update k v d) = AList.delete k d @ [(k, v)]"
  by (simp add: move_to_end_def delete_update)

lemma young_update:
  assumes "young k v S d" "k' \<noteq> k"
  shows "young k v (insert k' S) (move_to_end k' (AList.update k' v' d))"
  using young_append[OF young_delete[OF assms], of k' v'] by (simp add: move_to_end_update od_keys_delete)

text \<open>Using or storing the key itself makes it the youngest.\<close>

lemma young_put:
  "distinct (od_keys d) \<Longrightarrow> young k v {} (move_to_end k (AList.update k v d))"
  using distinct_move_to_end[OF distinct_update_keys, of d k k v]
  by (auto simp: young_def move_to_end_update)

lemma young_used:
  assumes "young k v S d"
  shows "young k v {} (move_to_end k d)"
  using young_map_of[OF assms] assms distinct_move_to_end[of d k] by (auto simp: young_def move_to_end_def)

text \<open>The trimming of the table drops no entry with fewer than \<open>n\<close> younger ones.\<close>

lemma young_pop_oldest:
  assumes "young k v S d" "finite S" "int (card S) < n"
  shows "young k v S (pop_oldest n d)"
proof -
  obtain xs ys where d: "d = xs @ (k, v) # ys" "fst ` set ys \<subseteq> S" and dist: "distinct (od_keys d)"
    using assms(1) by (auto simp: young_def)
  have "length ys = card (fst ` set ys)"
    using dist distinct_card[of "map fst ys"] by (simp add: od_keys_def d(1))
  also have "\<dots> \<le> card S" using assms(2) d(2) by (rule card_mono)
  finally have "nat (int (length d) - n) \<le> length xs" using d(1) assms(3) by simp
  then have "pop_oldest n d = drop (nat (int (length d) - n)) xs @ (k, v) # ys"
    unfolding pop_oldest_def by (subst d(1)) (simp add: d(1))
  then show ?thesis using d(2) distinct_pop_oldest[OF dist] unfolding young_def by blast
qed

end
