(* ===== verification/Dns_Keys.thy ===== *)
theory Dns_Keys
  imports Dns_Messages Reload_Cache Ordered_Dict Acme_Accounts
begin

text \<open>
  The TSIG keys of the DNS UPDATE listener: rows (\<^verbatim>\<open>models/acme_dns_update.py\<close>), the cache the
  listener reads them from (\<^verbatim>\<open>services/acme/dns_update/keys.py\<close>), the routes that create, revoke and
  delete them (\<^verbatim>\<open>api/v2/acme_client/dns_update_keys.py\<close>) and what the removal of an external account
  binding does to them (\<^verbatim>\<open>api/v2/acme/eab.py\<close>).

  The encryption of secrets at rest and base64 are parameters (\<open>secret_lib\<close>), and so are random
  values. A query of the load that fails is the argument \<open>None\<close> of the cache; a commit that fails is
  the argument \<open>ok\<close> of a route. The clock of the cache is in microseconds.
\<close>

section \<open>Rows\<close>

datatype key_status = Key_Active | Key_Revoked

record dns_key_row =
  dk_id :: int
  dk_account :: int
  dk_eab :: "int option"
  dk_eab_bound :: bool
  dk_name :: string
  dk_algorithm :: string
  dk_secret :: string
  dk_status :: key_status
  dk_last_used :: "datetime option"
  dk_revoked_at :: "datetime option"
  dk_notes :: "string option"

record client_account =
  cl_acct_id :: int
  cl_proxy_enabled :: bool
  cl_proxy_slug :: "string option"

record secret_lib =
  sx_is_encrypted :: "string \<Rightarrow> bool"
  sx_decrypt :: "string \<Rightarrow> string option"
  sx_encrypt :: "string \<Rightarrow> string"
  sx_b64decode :: "string \<Rightarrow> octets option"
  sx_b64encode :: "octets \<Rightarrow> string"

definition KEY_ALGORITHMS :: "string list" where
  "KEY_ALGORITHMS = [''hmac-sha256'', ''hmac-sha384'', ''hmac-sha512'']"

definition key_secret :: "secret_lib \<Rightarrow> dns_key_row \<Rightarrow> string option" where
  "key_secret sx k =
     (if dk_secret k = [] then None
      else if \<not> sx_is_encrypted sx (dk_secret k) then None
      else (case sx_decrypt sx (dk_secret k) of
              None \<Rightarrow> None | Some t \<Rightarrow> if t = [] then None else Some t))"

text \<open>\<open>_KEY_LABEL\<close>: the dollar sign also matches before a final newline.\<close>

definition key_char :: "char \<Rightarrow> bool" where
  "key_char c \<longleftrightarrow> is_lower c \<or> is_digit c \<or> c = CHR ''_''"

definition key_label :: "string \<Rightarrow> bool" where
  "key_label s =
     (let body = (if s \<noteq> [] \<and> last s = NEWLINE then butlast s else s)
      in body \<noteq> [] \<and> key_char (hd body) \<and> key_char (last body) \<and> list_all (\<lambda>c. key_char c \<or> c = CHR ''-'') body)"

text \<open>\<open>None\<close> is \<open>ValueError\<close>.\<close>

definition normalize_key_name :: "dns_lib \<Rightarrow> json \<Rightarrow> string option" where
  "normalize_key_name lib name =
     (case name of
        JStr s \<Rightarrow>
          if py_strip s = [] then None
          else (let text = py_lower (py_strip s);
                    text = (if ends_with text ''.'' then text else text @ ''.'')
                in if text = ''.'' then None
                   else if starts_with text ''.'' \<or> substring ''..'' text then None
                   else (case dl_from_text lib text of
                           None \<Rightarrow> None
                         | Some parsed \<Rightarrow>
                             (case dl_name_wire lib parsed of
                                None \<Rightarrow> None
                              | Some wire \<Rightarrow>
                                  if 255 < length wire then None
                                  else if list_ex (\<lambda>l. 63 < length l) parsed then None
                                  else if length parsed < 2 then None
                                  else if \<not> list_all key_label (butlast parsed) then None
                                  else Some (lower_text lib parsed))))
      | _ \<Rightarrow> None)"

section \<open>The cache (KeyStore)\<close>

record key_scope =
  sc_account :: int
  sc_eab_bound :: bool
  sc_eab_account :: "string option"

definition scope_allows :: "key_scope \<Rightarrow> int option \<Rightarrow> string option \<Rightarrow> bool" where
  "scope_allows sc row_client_account row_account =
     (case row_client_account of
        None \<Rightarrow> False
      | Some a \<Rightarrow>
          if a \<noteq> sc_account sc then False
          else if sc_eab_bound sc
          then (if sc_eab_account sc \<in> {None, Some []} \<or> row_account \<in> {None, Some []} then False
                else row_account = sc_eab_account sc)
          else True)"

record key_db =
  kd_accounts :: "client_account list"
  kd_creds :: "eab_credential list"
  kd_keys :: "dns_key_row list"

type_synonym key_tables = "(string \<times> tsig_key) list \<times> (int \<times> key_scope) list"

definition enabled_accounts :: "key_db \<Rightarrow> int list" where
  "enabled_accounts db = map cl_acct_id (filter cl_proxy_enabled (kd_accounts db))"

definition usable_secret :: "secret_lib \<Rightarrow> dns_key_row \<Rightarrow> octets option" where
  "usable_secret sx k =
     (case key_secret sx k of
        None \<Rightarrow> None
      | Some text \<Rightarrow> (case sx_b64decode sx text of None \<Rightarrow> None | Some s \<Rightarrow> if s = [] then None else Some s))"

definition bound_account :: "key_db \<Rightarrow> dns_key_row \<Rightarrow> string option" where
  "bound_account db k =
     (case dk_eab k of
        None \<Rightarrow> None
      | Some i \<Rightarrow>
          (case first_row (\<lambda>c. ec_id c = i) (kd_creds db) of
             None \<Rightarrow> None
           | Some c \<Rightarrow> if ec_status c = Eab_Used \<and> ec_used_by_account_id c \<noteq> Some [] then ec_used_by_account_id c
                      else None))"

definition scope_of_row :: "key_db \<Rightarrow> dns_key_row \<Rightarrow> key_scope" where
  "scope_of_row db k =
     (let bound = (dk_eab_bound k \<or> dk_eab k \<noteq> None)
      in \<lparr>sc_account = dk_account k, sc_eab_bound = bound, sc_eab_account = (if bound then bound_account db k else None)\<rparr>)"

definition material_of :: "dns_lib \<Rightarrow> secret_lib \<Rightarrow> dns_key_row \<Rightarrow> tsig_key option" where
  "material_of lib sx k =
     (case (dl_from_text lib (dk_algorithm k), dl_from_text lib (dk_name k)) of
        (Some algorithm, Some name) \<Rightarrow>
          if \<not> allowed_algorithm lib algorithm then None
          else map_option (\<lambda>s. \<lparr>tk_id = dk_id k, tk_name = name, tk_algorithm = algorithm, tk_secret = s\<rparr>)
                 (usable_secret sx k)
      | _ \<Rightarrow> None)"

fun load_each :: "dns_lib \<Rightarrow> secret_lib \<Rightarrow> key_db \<Rightarrow> dns_key_row list \<Rightarrow> key_tables \<Rightarrow> key_tables" where
  "load_each lib sx db [] acc = acc"
| "load_each lib sx db (k # ks) (materials, scopes) =
     (if dk_account k \<notin> set (enabled_accounts db) then load_each lib sx db ks (materials, scopes)
      else (case material_of lib sx k of
              None \<Rightarrow> load_each lib sx db ks (materials, scopes)
            | Some m \<Rightarrow>
                load_each lib sx db ks (AList.update (lower_text lib (tk_name m)) m materials,
                                        AList.update (dk_id k) (scope_of_row db k) scopes)))"

definition load_keys :: "dns_lib \<Rightarrow> secret_lib \<Rightarrow> key_db \<Rightarrow> key_tables" where
  "load_keys lib sx db = load_each lib sx db (filter (\<lambda>k. dk_status k = Key_Active) (kd_keys db)) ([], [])"

record key_store =
  ks_tables :: key_tables
  ks_loaded_at :: "int option"
  ks_dirty :: bool
  ks_retry_at :: "int option"
  ks_touched :: "(int \<times> int) list"

definition new_key_store :: key_store where
  "new_key_store = \<lparr>ks_tables = ([], []), ks_loaded_at = None, ks_dirty = False, ks_retry_at = None, ks_touched = []\<rparr>"

definition KEY_MAX_AGE :: int where "KEY_MAX_AGE = seconds 30"
definition TOUCH_INTERVAL :: int where "TOUCH_INTERVAL = seconds 60"
definition KEY_RETRY :: int where "KEY_RETRY = seconds 2"

lemmas key_constants [ucm_tables] = KEY_MAX_AGE_def TOUCH_INTERVAL_def KEY_RETRY_def KEY_ALGORITHMS_def

definition invalidate_keys :: "key_store \<Rightarrow> key_store" where
  "invalidate_keys s = s\<lparr>ks_dirty := True, ks_loaded_at := None, ks_retry_at := None\<rparr>"

definition ensure_keys :: "int \<Rightarrow> key_tables option \<Rightarrow> key_store \<Rightarrow> key_store" where
  "ensure_keys now loaded s =
     (if \<not> ks_dirty s \<and> (case ks_loaded_at s of None \<Rightarrow> False | Some t \<Rightarrow> now - t < KEY_MAX_AGE) then s
      else if (case ks_retry_at s of None \<Rightarrow> False | Some t \<Rightarrow> now < t)
      then (if ks_dirty s then s\<lparr>ks_tables := ([], [])\<rparr> else s)
      else (case loaded of
              None \<Rightarrow> (if ks_dirty s then s\<lparr>ks_retry_at := Some (now + KEY_RETRY), ks_tables := ([], [])\<rparr>
                       else s\<lparr>ks_retry_at := Some (now + KEY_RETRY)\<rparr>)
            | Some tables \<Rightarrow> s\<lparr>ks_tables := tables, ks_dirty := False, ks_retry_at := None, ks_loaded_at := Some now\<rparr>))"

definition lookup_key :: "dns_lib \<Rightarrow> dns_name \<Rightarrow> key_store \<Rightarrow> tsig_key option" where
  "lookup_key lib name s = map_of (fst (ks_tables s)) (lower_text lib name)"

definition key_scope_of :: "int \<Rightarrow> key_store \<Rightarrow> key_scope option" where
  "key_scope_of i s = map_of (snd (ks_tables s)) i"

text \<open>\<open>touch\<close>: the time is noted before the row is written; \<open>ok\<close> is the outcome of the commit.\<close>

definition touch_key_row :: "int \<Rightarrow> datetime \<Rightarrow> bool \<Rightarrow> int \<Rightarrow> key_db \<times> key_store \<Rightarrow> key_db \<times> key_store" where
  "touch_key_row tick now ok i = (\<lambda>(db, s).
     if (case map_of (ks_touched s) i of None \<Rightarrow> False | Some t \<Rightarrow> tick - t < TOUCH_INTERVAL) then (db, s)
     else (if ok then db\<lparr>kd_keys := update_rows (\<lambda>k. dk_id k = i) (\<lambda>k. k\<lparr>dk_last_used := Some now\<rparr>) (kd_keys db)\<rparr> else db,
           s\<lparr>ks_touched := AList.update i tick (ks_touched s)\<rparr>))"

section \<open>The routes\<close>

type_synonym key_site = "key_db \<times> key_store"

definition generate_secret :: "dns_lib \<Rightarrow> (nat \<Rightarrow> octets) \<Rightarrow> dns_name \<Rightarrow> octets option" where
  "generate_secret lib random algorithm =
     map_option (\<lambda>(_, n). random n) (first_row (\<lambda>(a, _). dl_eq lib algorithm a) (SECRET_LENGTHS lib))"

definition MAX_NOTES_LENGTH :: nat where "MAX_NOTES_LENGTH = 1000"

definition fresh_key_id :: "key_db \<Rightarrow> int" where
  "fresh_key_id db = foldr max (map dk_id (kd_keys db)) 0 + 1"

text \<open>The algorithm and the notes of a request; \<open>None\<close> is an answer 400.\<close>

definition requested_algorithm :: "(string \<times> json) list \<Rightarrow> string option" where
  "requested_algorithm data =
     (case map_of data ''algorithm'' of
        None \<Rightarrow> Some ''hmac-sha256''
      | Some JNull \<Rightarrow> Some ''hmac-sha256''
      | Some (JStr s) \<Rightarrow> if py_lower (py_strip s) \<in> set KEY_ALGORITHMS then Some (py_lower (py_strip s)) else None
      | Some _ \<Rightarrow> None)"

definition requested_notes :: "(string \<times> json) list \<Rightarrow> string option option" where
  "requested_notes data =
     (case map_of data ''notes'' of
        None \<Rightarrow> Some None
      | Some JNull \<Rightarrow> Some None
      | Some (JStr s) \<Rightarrow> if MAX_NOTES_LENGTH < length s then None
                         else Some (if py_strip s = [] then None else Some (py_strip s))
      | Some _ \<Rightarrow> None)"

definition requested_credential :: "key_db \<Rightarrow> (string \<times> json) list \<Rightarrow> int option option" where
  "requested_credential db data =
     (case map_of data ''eab_credential_id'' of
        None \<Rightarrow> Some None
      | Some JNull \<Rightarrow> Some None
      | Some (JInt i) \<Rightarrow> (case first_row (\<lambda>c. ec_id c = i) (kd_creds db) of
                           None \<Rightarrow> None
                         | Some c \<Rightarrow> if ec_status c = Eab_Revoked then None else Some (Some i))
      | Some _ \<Rightarrow> None)"

definition requested_name :: "dns_lib \<Rightarrow> string \<Rightarrow> client_account \<Rightarrow> (string \<times> json) list \<Rightarrow> string option" where
  "requested_name lib token acct data =
     (let generated = (case cl_proxy_slug acct of
                         Some slug \<Rightarrow> if slug = [] then ''proxy'' @ show_int (cl_acct_id acct) else slug
                       | None \<Rightarrow> ''proxy'' @ show_int (cl_acct_id acct)) @ ''-'' @ token @ ''.''
      in case map_of data ''name'' of
           None \<Rightarrow> normalize_key_name lib (JStr generated)
         | Some JNull \<Rightarrow> normalize_key_name lib (JStr generated)
         | Some (JStr s) \<Rightarrow> normalize_key_name lib (JStr (if py_strip s = [] then generated else s))
         | Some j \<Rightarrow> normalize_key_name lib j)"

definition create_dns_update_key ::
    "dns_lib \<Rightarrow> secret_lib \<Rightarrow> (nat \<Rightarrow> octets) \<Rightarrow> string \<Rightarrow> bool \<Rightarrow> int \<Rightarrow> json \<Rightarrow> key_site \<Rightarrow> nat \<times> key_site" where
  "create_dns_update_key lib sx random token ok account_id body = (\<lambda>(db, st).
     (case first_row (\<lambda>a. cl_acct_id a = account_id) (kd_accounts db) of
        None \<Rightarrow> (404, (db, st))
      | Some acct \<Rightarrow>
          if \<not> cl_proxy_enabled acct then (409, (db, st))
          else (case (if json_truthy body then body else JDict []) of
             JDict data \<Rightarrow>
               (case requested_algorithm data of None \<Rightarrow> (400, (db, st)) | Some algorithm \<Rightarrow>
               (case requested_notes data of None \<Rightarrow> (400, (db, st)) | Some notes \<Rightarrow>
               (case requested_credential db data of None \<Rightarrow> (400, (db, st)) | Some cred \<Rightarrow>
               (case requested_name lib token acct data of None \<Rightarrow> (400, (db, st)) | Some name \<Rightarrow>
                 if (\<exists>k \<in> set (kd_keys db). dk_name k = name) then (409, (db, st))
                 else (case Option.bind (dl_from_text lib algorithm) (generate_secret lib random) of
                         None \<Rightarrow> (500, (db, st))
                       | Some raw \<Rightarrow>
                           if sx_b64encode sx raw = [] \<or> \<not> ok then (500, (db, st))
                           else (201, (db\<lparr>kd_keys := kd_keys db @
                                   [\<lparr>dk_id = fresh_key_id db, dk_account = account_id, dk_eab = cred, dk_eab_bound = (cred \<noteq> None),
                                     dk_name = name, dk_algorithm = algorithm, dk_secret = sx_encrypt sx (sx_b64encode sx raw),
                                     dk_status = Key_Active, dk_last_used = None, dk_revoked_at = None, dk_notes = notes\<rparr>]\<rparr>,
                                 invalidate_keys st)))))))
           | _ \<Rightarrow> (400, (db, st)))))"

definition delete_dns_update_key :: "datetime \<Rightarrow> bool \<Rightarrow> int \<Rightarrow> int \<Rightarrow> key_site \<Rightarrow> nat \<times> key_site" where
  "delete_dns_update_key now ok account_id key_id = (\<lambda>(db, st).
     (case first_row (\<lambda>k. dk_id k = key_id) (kd_keys db) of
        None \<Rightarrow> (404, (db, st))
      | Some k \<Rightarrow>
          if dk_account k \<noteq> account_id then (404, (db, st))
          else if \<not> ok then (500, (db, st))
          else if dk_status k = Key_Revoked
          then (204, (db\<lparr>kd_keys := filter (\<lambda>k. dk_id k \<noteq> key_id) (kd_keys db)\<rparr>, invalidate_keys st))
          else (200, (db\<lparr>kd_keys := update_rows (\<lambda>k. dk_id k = key_id)
                                    (\<lambda>k. k\<lparr>dk_status := Key_Revoked, dk_revoked_at := Some now\<rparr>) (kd_keys db)\<rparr>,
                       invalidate_keys st))))"

text \<open>\<open>revoke_eab_credential\<close> with the keys linked to the credential.\<close>

definition delete_linked_keys :: "int \<Rightarrow> dns_key_row list \<Rightarrow> dns_key_row list" where
  "delete_linked_keys cred_id ks = filter (\<lambda>k. dk_eab k \<noteq> Some cred_id) ks"

definition revoke_linked_keys :: "datetime \<Rightarrow> int \<Rightarrow> dns_key_row list \<Rightarrow> dns_key_row list" where
  "revoke_linked_keys now cred_id ks =
     update_rows (\<lambda>k. dk_eab k = Some cred_id \<and> dk_status k = Key_Active)
       (\<lambda>k. k\<lparr>dk_status := Key_Revoked, dk_revoked_at := Some now\<rparr>) ks"

definition remove_eab_credential :: "datetime \<Rightarrow> bool \<Rightarrow> int \<Rightarrow> key_site \<Rightarrow> nat \<times> key_site" where
  "remove_eab_credential now ok cred_id = (\<lambda>(db, st).
     (case revoke_eab_credential cred_id (kd_creds db) of
        (code, creds) \<Rightarrow>
          if code = 404 then (404, (db, st))
          else if \<not> ok then (500, (db, st))
          else (code, (db\<lparr>kd_creds := creds,
                         kd_keys := (if code = 204 then delete_linked_keys cred_id (kd_keys db)
                                     else revoke_linked_keys now cred_id (kd_keys db))\<rparr>, invalidate_keys st))))"

section \<open>What the cache shows\<close>

interpretation key_cache: fail_closed_cache ks_tables "([], []) :: key_tables" ensure_keys invalidate_keys ks_dirty
  by unfold_locales (auto simp: ensure_keys_def invalidate_keys_def split: option.splits if_splits)

text \<open>Every loaded key is that of an active row of an account whose proxy is on, and every scope that of
  such a row.\<close>

definition loadable :: "dns_lib \<Rightarrow> secret_lib \<Rightarrow> key_db \<Rightarrow> dns_key_row \<Rightarrow> bool" where
  "loadable lib sx db k \<longleftrightarrow> k \<in> set (kd_keys db) \<and> dk_status k = Key_Active \<and> dk_account k \<in> set (enabled_accounts db)
     \<and> material_of lib sx k \<noteq> None"

lemma load_each_sound:
  assumes "load_each lib sx db ks (ms, ss) = (ms', ss')"
  shows "map_of ms' n = Some m \<Longrightarrow> map_of ms n = Some m \<or>
      (\<exists>k \<in> set ks. dk_account k \<in> set (enabled_accounts db) \<and> material_of lib sx k = Some m \<and> n = lower_text lib (tk_name m))"
    and "map_of ss' i = Some sc \<Longrightarrow> map_of ss i = Some sc \<or>
      (\<exists>k \<in> set ks. dk_account k \<in> set (enabled_accounts db) \<and> material_of lib sx k \<noteq> None \<and> dk_id k = i \<and> sc = scope_of_row db k)"
  using assms
  by (induction ks arbitrary: ms ss)
    (auto split: if_splits option.splits, (metis option.sel map_of_update_eq option.simps(3))+)

lemma load_keys_lookup:
  assumes "map_of (fst (load_keys lib sx db)) n = Some m"
  shows "\<exists>k. loadable lib sx db k \<and> material_of lib sx k = Some m \<and> n = lower_text lib (tk_name m)"
proof -
  obtain ms ss where l: "load_keys lib sx db = (ms, ss)" by fastforce
  from load_each_sound(1)[OF l[unfolded load_keys_def]] assms l show ?thesis
    by (fastforce simp: loadable_def)
qed

lemma load_keys_scope:
  assumes "map_of (snd (load_keys lib sx db)) i = Some sc"
  shows "\<exists>k. loadable lib sx db k \<and> dk_id k = i \<and> sc = scope_of_row db k"
proof -
  obtain ms ss where l: "load_keys lib sx db = (ms, ss)" by fastforce
  from load_each_sound(2)[OF l[unfolded load_keys_def]] assms l show ?thesis
    by (fastforce simp: loadable_def)
qed

lemma material_of_id: "material_of lib sx k = Some m \<Longrightarrow> tk_id m = dk_id k \<and> tk_secret m \<noteq> [] \<and> allowed_algorithm lib (tk_algorithm m)"
  by (auto simp: material_of_def usable_secret_def split: option.splits if_splits)

text \<open>Uses of the cache over time: each with the database it would load, \<open>None\<close> when the query fails.\<close>

datatype key_event = Use int "key_db option" | Drop_Keys

fun key_cache_event :: "dns_lib \<Rightarrow> secret_lib \<Rightarrow> key_event \<Rightarrow> (int, key_tables) cache_event" where
  "key_cache_event lib sx (Use t d) = Refresh t (map_option (load_keys lib sx) d)"
| "key_cache_event lib sx Drop_Keys = Invalidate"

fun key_step :: "dns_lib \<Rightarrow> secret_lib \<Rightarrow> key_event \<Rightarrow> key_store \<Rightarrow> key_store" where
  "key_step lib sx (Use t d) s = ensure_keys t (map_option (load_keys lib sx) d) s"
| "key_step lib sx Drop_Keys s = invalidate_keys s"

lemma key_step_event: "key_step lib sx = (\<lambda>e. key_cache.apply_event (key_cache_event lib sx e))"
proof (intro ext)
  show "key_step lib sx e s = key_cache.apply_event (key_cache_event lib sx e) s" for e s
    by (cases e) (simp_all add: key_cache.apply_event_def)
qed

fun key_loads :: "key_event list \<Rightarrow> key_db list" where
  "key_loads [] = []"
| "key_loads (Use t (Some d) # es) = d # key_loads es"
| "key_loads (_ # es) = key_loads es"

lemma loads_of_keys: "loads_of (map (key_cache_event lib sx) es) = load_keys lib sx ` set (key_loads es)"
  by (induction es rule: key_loads.induct) auto

definition key_inactive :: "int \<Rightarrow> key_db \<Rightarrow> bool" where
  "key_inactive i db \<longleftrightarrow> list_all (\<lambda>k. dk_id k = i \<longrightarrow> dk_status k = Key_Revoked) (kd_keys db)"

lemma key_inactive_load:
  assumes "key_inactive i db"
  shows "map_of (fst (load_keys lib sx db)) n = Some m \<Longrightarrow> tk_id m \<noteq> i" "map_of (snd (load_keys lib sx db)) i = None"
proof -
  show "tk_id m \<noteq> i" if "map_of (fst (load_keys lib sx db)) n = Some m"
    using load_keys_lookup[OF that] material_of_id assms
    by (auto simp: loadable_def key_inactive_def list_all_iff)
  show "map_of (snd (load_keys lib sx db)) i = None"
    using load_keys_scope[of lib sx db i] assms
    by (cases "map_of (snd (load_keys lib sx db)) i") (auto simp: loadable_def key_inactive_def list_all_iff)
qed

lemma delete_makes_inactive:
  assumes "delete_dns_update_key now ok account_id i (db, st) = (code, (db', st'))" "code \<in> {200, 204}"
  shows "key_inactive i db'" "st' = invalidate_keys st"
proof -
  obtain k where k: "first_row (\<lambda>k. dk_id k = i) (kd_keys db) = Some k"
    using assms by (cases "first_row (\<lambda>k. dk_id k = i) (kd_keys db)") (auto simp: delete_dns_update_key_def)
  then have a: "dk_account k = account_id" and ok using assms by (auto simp: delete_dns_update_key_def split: if_splits)
  have kept: "list_all (\<lambda>k. dk_id k = i \<longrightarrow> dk_status k = Key_Revoked) (filter (\<lambda>k. dk_id k \<noteq> i) ks)"
    and changed: "list_all (\<lambda>k. dk_id k = i \<longrightarrow> dk_status k = Key_Revoked) (update_rows (\<lambda>k. dk_id k = i)
        (\<lambda>k. k\<lparr>dk_status := Key_Revoked, dk_revoked_at := Some now\<rparr>) ks)" for ks
    by (simp add: list_all_iff) (induction ks, auto simp: update_rows_def)
  have "st' = invalidate_keys st \<and> (kd_keys db' = filter (\<lambda>k. dk_id k \<noteq> i) (kd_keys db) \<or>
      kd_keys db' = update_rows (\<lambda>k. dk_id k = i) (\<lambda>k. k\<lparr>dk_status := Key_Revoked, dk_revoked_at := Some now\<rparr>) (kd_keys db))"
    using assms(1) k a \<open>ok\<close> by (cases "dk_status k = Key_Revoked") (simp_all add: delete_dns_update_key_def, auto)
  then show "key_inactive i db'" "st' = invalidate_keys st"
    using kept[of "kd_keys db"] changed[of "kd_keys db"] by (auto simp only: key_inactive_def)
qed

text \<open>C40: A revoked key is out at once. After a key is revoked or deleted, whatever the uses of the cache,
  the reloads that fail and the later invalidations, as long as no database that is loaded holds an
  active key of that id, no name leads to the key any more and it has no scope.\<close>

theorem revoked_key_is_unknown:
  assumes "delete_dns_update_key now ok account_id i (db, st) = (code, (db', st'))" "code \<in> {200, 204}"
    and "list_all (key_inactive i) (key_loads (es @ [Use t d]))"
  shows "key_inactive i db' \<and>
    (let s = fold (key_step lib sx) (es @ [Use t d]) st'
     in key_scope_of i s = None \<and> (\<forall>n m. lookup_key lib n s = Some m \<longrightarrow> tk_id m \<noteq> i))"
proof -
  let ?s = "fold (key_step lib sx) (es @ [Use t d]) st'" and ?es = "map (key_cache_event lib sx) es"
  have "ks_tables ?s = ks_tables (fold key_cache.apply_event (?es @ [Refresh t (map_option (load_keys lib sx) d)]) (invalidate_keys st))"
    using delete_makes_inactive(2)[OF assms(1,2)] by (simp add: fold_map key_step_event comp_def)
  also have "\<dots> \<in> insert ([], []) (load_keys lib sx ` set (key_loads (es @ [Use t d])))"
    using key_cache.shown_after_invalidate[of ?es t "map_option (load_keys lib sx) d" st]
      loads_of_keys[of lib sx "es @ [Use t d]"] by (simp only: map_append list.map key_cache_event.simps)
  finally consider "ks_tables ?s = ([], [])"
    | d' where "d' \<in> set (key_loads (es @ [Use t d]))" "ks_tables ?s = load_keys lib sx d'"
    by blast
  then have "key_scope_of i ?s = None \<and> (\<forall>n m. lookup_key lib n ?s = Some m \<longrightarrow> tk_id m \<noteq> i)"
  proof cases
    case 1
    then show ?thesis by (simp add: key_scope_of_def lookup_key_def)
  next
    case 2
    then have "key_inactive i d'" using assms(3) by (simp add: list_all_iff)
    then show ?thesis
      using key_inactive_load[of i d' lib sx] 2(2) by (auto simp: key_scope_of_def lookup_key_def)
  qed
  then show ?thesis using delete_makes_inactive(1)[OF assms(1,2)] by (simp add: Let_def)
qed

section \<open>A concrete site\<close>

text \<open>A library for the examples: names are compared as they stand and printed with dots.\<close>

definition plain_dns :: dns_lib where
  "plain_dns = \<lparr>dl_eq = (=), dl_subdomain = (\<lambda>n z. length z \<le> length n \<and> drop (length n - length z) n = z),
     dl_parent = (drop 1), dl_canonical = (map py_lower), dl_absolute = (\<lambda>n. n \<noteq> [] \<and> last n = []),
     dl_to_text = (\<lambda>n. concat (map (\<lambda>l. l @ ''.'') (butlast n))),
     dl_from_text = (\<lambda>s. Some (let ls = py_split (CHR ''.'') s in if last ls = [] then ls else ls @ [[]])),
     dl_name_wire = (\<lambda>n. Some (replicate (length (concat n) + length n) 0)),
     dl_sha256 = [''hmac-sha256'', []], dl_sha384 = [''hmac-sha384'', []], dl_sha512 = [''hmac-sha512'', []],
     dl_mac_size = (\<lambda>_. 32), dl_from_wire = (\<lambda>_. None), dl_same_sections = (\<lambda>_ _. True), dl_same_tsig = (\<lambda>_ _. True),
     dl_read_name = (\<lambda>_ _. None), dl_get_bytes = (\<lambda>_ _ _. None), dl_validate = (\<lambda>_ _ _ _ _ _ _. Bad_Signature),
     dl_sign = (\<lambda>_ _ _ _ _. None), dl_tsig_wire = (\<lambda>_ _. None), dl_make_response = (\<lambda>_. None), dl_to_wire = (\<lambda>_ _. None)\<rparr>"

definition plain_secrets :: secret_lib where
  "plain_secrets = \<lparr>sx_is_encrypted = (\<lambda>_. True), sx_decrypt = Some, sx_encrypt = (\<lambda>s. s),
     sx_b64decode = (\<lambda>s. Some (replicate (length s) 0)), sx_b64encode = (\<lambda>bs. replicate (length bs) (CHR ''A''))\<rparr>"

definition proxy_site :: key_db where
  "proxy_site = \<lparr>kd_accounts = [\<lparr>cl_acct_id = 1, cl_proxy_enabled = True, cl_proxy_slug = None\<rparr>], kd_creds = [], kd_keys = []\<rparr>"

definition keyed_site :: key_site where
  "keyed_site = snd (create_dns_update_key plain_dns plain_secrets (\<lambda>n. replicate n 0) ''ab'' True 1
     (JDict [(''name'', JStr ''K.lan'')]) (proxy_site, new_key_store))"

lemma keyed_site_serves:
  "lookup_key plain_dns [''k'', ''lan'', []] (ensure_keys 0 (Some (load_keys plain_dns plain_secrets (fst keyed_site))) (snd keyed_site))
     = Some \<lparr>tk_id = 1, tk_name = [''k'', ''lan'', []], tk_algorithm = [''hmac-sha256'', []], tk_secret = replicate 32 0\<rparr>"
  by code_simp

lemma revoked_key_is_unknown_witness:
  "let (code, (db', st')) = delete_dns_update_key 9 True 1 1 keyed_site
   in code = 200 \<and> key_scope_of 1 (fold (key_step plain_dns plain_secrets) ([Use 1 None, Drop_Keys] @ [Use 2 (Some db')]) st') = None"
proof -
  obtain db st where s: "keyed_site = (db, st)" by fastforce
  obtain code db' st' where d: "delete_dns_update_key 9 True 1 1 (db, st) = (code, (db', st'))" by (metis surj_pair)
  have code: "code = 200" using d s by (simp add: s[symmetric]) (code_simp, simp)
  then have "key_inactive 1 db'" using delete_makes_inactive(1)[OF d] by simp
  with code revoked_key_is_unknown[OF d, of "[Use 1 None, Drop_Keys]" 2 "Some db'" plain_dns plain_secrets]
  show ?thesis by (simp add: s d Let_def)
qed

text \<open>A label that ends in a newline passes the check of key names.\<close>

lemma key_label_accepts_newline: "key_label (''a'' @ [NEWLINE])"
  by (simp add: key_label_def key_char_def is_lower_def ascii_code_def)

end
