(* ===== verification/Dns_Records.thy ===== *)
theory Dns_Records
  imports Dns_Messages Reload_Cache Acme_Names "HOL-Library.AList"
begin

text \<open>
  The TXT values that clients of the ACME proxy may publish
  (\<^verbatim>\<open>services/acme/dns_update/records.py\<close>): the table \<^verbatim>\<open>acme_proxy_dns_challenges\<close>, its
  writers, and the snapshot of the rows the listener decides on.

  Parameters: \<open>digest\<close> is base64url of SHA-256 without padding, the expiry of an authorization is the
  moment its text was read as (\<open>None\<close> for none), and \<open>store_outcome\<close> says which database operations
  fail. Orders are stored rows, so they have an id. The clock of the snapshot is in microseconds; a
  reload reads it before and after the query.
\<close>

section \<open>Rows\<close>

datatype challenge_row_status = Row_Pending | Row_Closed

record dns_challenge_row =
  dc_id :: int
  dc_order :: int
  dc_client_account :: "int option"
  dc_account :: "string option"
  dc_thumbprint :: string
  dc_identifier :: string
  dc_record_name :: string
  dc_txt :: string
  dc_zone :: string
  dc_url :: "string option"
  dc_status :: challenge_row_status
  dc_created :: datetime
  dc_expires :: datetime
  dc_confirmed :: "datetime option"

record client_order =
  co_id :: int
  co_status :: string
  co_client_account :: "int option"
  co_account :: "string option"
  co_thumbprint :: "string option"

definition ACTIVE_MAX_AGE :: int where "ACTIVE_MAX_AGE = hours 24"
definition SOA_GRACE :: int where "SOA_GRACE = hours 24"
definition PURGE_AFTER :: int where "PURGE_AFTER = days 7"
definition CACHE_MAX_AGE :: int where "CACHE_MAX_AGE = seconds 5"
definition ROWS_RETRY :: int where "ROWS_RETRY = seconds 2"
definition FAILED_STATES :: "string list" where
  "FAILED_STATES = [''invalid'', ''expired'', ''deactivated'', ''revoked'']"

lemmas record_constants [ucm_tables] =
  ACTIVE_MAX_AGE_def SOA_GRACE_def PURGE_AFTER_def CACHE_MAX_AGE_def ROWS_RETRY_def FAILED_STATES_def

definition is_failed_state :: "string \<Rightarrow> bool" where
  "is_failed_state status \<longleftrightarrow> status \<in> set FAILED_STATES"

definition record_name_for :: "string \<Rightarrow> string" where
  "record_name_for identifier =
     (let name = rstrip_char (CHR ''.'') (py_lower (py_strip identifier));
          name = (if starts_with name ''*.'' then drop 2 name else name)
      in CHALLENGE_LABEL @ ''.'' @ name @ ''.'')"

definition expected_value :: "(string \<Rightarrow> string) \<Rightarrow> string \<Rightarrow> string \<Rightarrow> string" where
  "expected_value digest token thumbprint = digest (token @ ''.'' @ thumbprint)"

definition zone_for :: "acme_domain list \<Rightarrow> string \<Rightarrow> string option" where
  "zone_for domains identifier =
     (case find_entry ad_domain domains identifier of
        None \<Rightarrow> None
      | Some d \<Rightarrow>
          if ad_domain d = [] then None
          else (let matched = rstrip_char (CHR ''.'') (py_lower (py_strip (ad_domain d)));
                    matched = (if starts_with matched ''*.'' then drop 2 matched else matched)
                in if matched = [] then None else Some (matched @ ''.'')))"

section \<open>The snapshot\<close>

record active_record =
  ar_row :: int
  ar_order :: int
  ar_record_name :: string
  ar_txt :: string
  ar_zone :: string
  ar_client_account :: "int option"
  ar_account :: "string option"

record active_snapshot =
  as_by_name :: "(string \<times> active_record list) list"
  as_zones :: "string list"
  as_soa_rows :: "active_record list"

definition empty_snapshot :: active_snapshot where
  "empty_snapshot = \<lparr>as_by_name = [], as_zones = [], as_soa_rows = []\<rparr>"

definition active_of :: "dns_challenge_row \<Rightarrow> active_record" where
  "active_of r = \<lparr>ar_row = dc_id r, ar_order = dc_order r, ar_record_name = dc_record_name r, ar_txt = dc_txt r,
     ar_zone = dc_zone r, ar_client_account = dc_client_account r, ar_account = dc_account r\<rparr>"

definition order_status_of :: "client_order list \<Rightarrow> int \<Rightarrow> string option" where
  "order_status_of orders i = map_option co_status (first_row (\<lambda>o'. co_id o' = i) orders)"

definition is_active_row :: "datetime \<Rightarrow> client_order list \<Rightarrow> dns_challenge_row \<Rightarrow> bool" where
  "is_active_row now orders r \<longleftrightarrow> dc_status r = Row_Pending \<and> now < dc_expires r
     \<and> order_status_of orders (dc_order r) = Some ''pending''"

text \<open>\<open>by_name.setdefault(name, []).append(record)\<close>.\<close>

definition add_by_name :: "active_record \<Rightarrow> (string \<times> active_record list) list \<Rightarrow> (string \<times> active_record list) list" where
  "add_by_name a m = AList.update (ar_record_name a) ((case map_of m (ar_record_name a) of None \<Rightarrow> [] | Some v \<Rightarrow> v) @ [a]) m"

definition add_row :: "datetime \<Rightarrow> client_order list \<Rightarrow> dns_challenge_row \<Rightarrow> active_snapshot \<Rightarrow> active_snapshot" where
  "add_row now orders r s =
     (let a = active_of r;
          s = s\<lparr>as_soa_rows := as_soa_rows s @ [a], as_zones := append_new (as_zones s) (ar_zone a)\<rparr>
      in if is_active_row now orders r then s\<lparr>as_by_name := add_by_name a (as_by_name s)\<rparr> else s)"

definition load_rows :: "datetime \<Rightarrow> client_order list \<Rightarrow> dns_challenge_row list \<Rightarrow> active_snapshot" where
  "load_rows now orders rows =
     fold (add_row now orders)
       (filter (\<lambda>r. order_status_of orders (dc_order r) \<noteq> None \<and> now - SOA_GRACE < dc_expires r) rows) empty_snapshot"

record row_cache =
  rc_snapshot :: active_snapshot
  rc_loaded_at :: "int option"
  rc_generation :: int
  rc_loaded_generation :: int
  rc_retry_at :: "int option"

definition new_row_cache :: row_cache where
  "new_row_cache = \<lparr>rc_snapshot = empty_snapshot, rc_loaded_at = None, rc_generation = 0, rc_loaded_generation = -1, rc_retry_at = None\<rparr>"

definition invalidate_rows :: "row_cache \<Rightarrow> row_cache" where
  "invalidate_rows c = c\<lparr>rc_generation := rc_generation c + 1, rc_retry_at := None\<rparr>"

definition rows_fresh :: "int \<Rightarrow> row_cache \<Rightarrow> bool" where
  "rows_fresh t c \<longleftrightarrow> (case rc_loaded_at c of None \<Rightarrow> False
                     | Some l \<Rightarrow> rc_loaded_generation c = rc_generation c \<and> t - l < CACHE_MAX_AGE)"

definition rows_backing_off :: "int \<Rightarrow> row_cache \<Rightarrow> bool" where
  "rows_backing_off t c \<longleftrightarrow> (case rc_retry_at c of None \<Rightarrow> False | Some r \<Rightarrow> t < r)"

text \<open>\<open>snapshot()\<close>: the times before and after the query.\<close>

definition refresh_rows :: "int \<times> int \<Rightarrow> active_snapshot option \<Rightarrow> row_cache \<Rightarrow> row_cache" where
  "refresh_rows tt loaded c =
     (if rows_fresh (fst tt) c then c
      else if rows_backing_off (fst tt) c then c
      else (case loaded of
              None \<Rightarrow> c\<lparr>rc_retry_at := Some (snd tt + ROWS_RETRY)\<rparr>
            | Some s \<Rightarrow> c\<lparr>rc_retry_at := None, rc_snapshot := s, rc_loaded_at := Some (snd tt),
                          rc_loaded_generation := rc_generation c\<rparr>))"

interpretation rows_cache: reload_cache rc_snapshot empty_snapshot refresh_rows invalidate_rows
  by unfold_locales (auto simp: refresh_rows_def invalidate_rows_def split: option.splits)

section \<open>Writers\<close>

type_synonym row_site = "dns_challenge_row list \<times> row_cache"

record store_outcome =
  so_read :: bool
  so_row :: "int \<Rightarrow> bool"
  so_purge :: bool
  so_commit :: bool

fun unique_orders :: "int list \<Rightarrow> client_order list \<Rightarrow> client_order list" where
  "unique_orders seen [] = []"
| "unique_orders seen (o' # os) =
     (if co_id o' \<in> set seen then unique_orders seen os else o' # unique_orders (co_id o' # seen) os)"

fun wanted_values :: "(string \<Rightarrow> string) \<Rightarrow> string \<Rightarrow> client_order list \<Rightarrow> (client_order \<times> string \<times> string) list" where
  "wanted_values digest token [] = []"
| "wanted_values digest token (o' # os) =
     (case co_thumbprint o' of
        None \<Rightarrow> wanted_values digest token os
      | Some t \<Rightarrow> if t = [] then wanted_values digest token os
                  else (o', t, expected_value digest token t) # wanted_values digest token os)"

definition fresh_row_id :: "dns_challenge_row list \<Rightarrow> int" where
  "fresh_row_id rows = foldr max (map dc_id rows) 0 + 1"

definition stored_value_of :: "dns_challenge_row list \<Rightarrow> string \<Rightarrow> client_order \<times> string \<times> string \<Rightarrow> bool" where
  "stored_value_of rows record_name w \<longleftrightarrow>
     (case w of (o', _, v) \<Rightarrow> \<exists>r \<in> set rows. dc_order r = co_id o' \<and> dc_record_name r = record_name \<and> dc_txt r = v)"

text \<open>One savepoint per row; \<open>so_row\<close> is its outcome (a concurrent request may have stored the row).\<close>

fun insert_expected ::
    "store_outcome \<Rightarrow> (int \<Rightarrow> client_order \<times> string \<times> string \<Rightarrow> dns_challenge_row) \<Rightarrow> dns_challenge_row list \<Rightarrow> string \<Rightarrow>
     (client_order \<times> string \<times> string) list \<Rightarrow> nat \<times> dns_challenge_row list \<Rightarrow> nat \<times> dns_challenge_row list" where
  "insert_expected out mk existing record_name [] acc = acc"
| "insert_expected out mk existing record_name (w # ws) (n, rows) =
     (if stored_value_of existing record_name w then insert_expected out mk existing record_name ws (n, rows)
      else if so_row out (co_id (fst w))
      then insert_expected out mk existing record_name ws (n + 1, rows @ [mk (fresh_row_id rows) w])
      else insert_expected out mk existing record_name ws (n, rows))"

definition expected_row ::
    "string \<Rightarrow> string \<Rightarrow> string option \<Rightarrow> datetime \<Rightarrow> datetime \<Rightarrow> int \<Rightarrow> client_order \<times> string \<times> string \<Rightarrow> dns_challenge_row" where
  "expected_row record_name zone_name url now expires i w =
     (case w of (o', thumbprint, value) \<Rightarrow>
       \<lparr>dc_id = i, dc_order = co_id o', dc_client_account = co_client_account o', dc_account = co_account o',
        dc_thumbprint = thumbprint, dc_identifier = butlast (drop (length CHALLENGE_LABEL + 1) record_name),
        dc_record_name = record_name, dc_txt = value, dc_zone = zone_name, dc_url = url, dc_status = Row_Pending,
        dc_created = now, dc_expires = expires, dc_confirmed = None\<rparr>)"

definition persist_expected_values ::
    "(string \<Rightarrow> string) \<Rightarrow> store_outcome \<Rightarrow> acme_domain list \<Rightarrow> client_order list \<Rightarrow> string \<Rightarrow> string \<Rightarrow> string option \<Rightarrow>
     datetime option \<Rightarrow> datetime \<Rightarrow> row_site \<Rightarrow> nat \<times> row_site" where
  "persist_expected_values digest out domains orders identifier token url authz_expires now = (\<lambda>(rows, cache).
     (let record_name = record_name_for identifier;
          expires = (case authz_expires of None \<Rightarrow> now + ACTIVE_MAX_AGE | Some e \<Rightarrow> min e (now + ACTIVE_MAX_AGE));
          wanted = wanted_values digest token (unique_orders [] orders)
      in if wanted = [] \<or> \<not> so_read out \<or> list_all (stored_value_of rows record_name) wanted then (0, (rows, cache))
         else (case zone_for domains identifier of
                 None \<Rightarrow> (0, (rows, cache))
               | Some zone_name \<Rightarrow>
                   (case insert_expected out (expected_row record_name zone_name url now expires) rows record_name wanted (0, rows) of
                      (inserted, rows') \<Rightarrow>
                        let rows'' = (if so_purge out then filter (\<lambda>r. \<not> dc_expires r < now - PURGE_AFTER) rows' else rows')
                        in if \<not> so_commit out then (0, (rows, cache))
                           else (inserted, (rows'', if inserted = 0 then cache else invalidate_rows cache))))))"

definition close_where :: "bool \<Rightarrow> (dns_challenge_row \<Rightarrow> bool) \<Rightarrow> row_site \<Rightarrow> row_site" where
  "close_where ok p = (\<lambda>(rows, cache).
     if \<not> ok then (rows, cache)
     else (update_rows (\<lambda>r. dc_status r = Row_Pending \<and> p r) (\<lambda>r. r\<lparr>dc_status := Row_Closed\<rparr>) rows, invalidate_rows cache))"

definition close_for_order :: "bool \<Rightarrow> int option \<Rightarrow> row_site \<Rightarrow> row_site" where
  "close_for_order ok i site = (case i of None \<Rightarrow> site | Some n \<Rightarrow> close_where ok (\<lambda>r. dc_order r = n) site)"

definition close_for_challenge_urls :: "bool \<Rightarrow> string list \<Rightarrow> row_site \<Rightarrow> row_site" where
  "close_for_challenge_urls ok urls site =
     (let urls = filter (\<lambda>u. u \<noteq> []) urls
      in if urls = [] then site
         else close_where ok (\<lambda>r. case dc_url r of None \<Rightarrow> False | Some u \<Rightarrow> u \<in> set urls) site)"

definition mark_confirmed :: "bool \<Rightarrow> datetime \<Rightarrow> int list \<Rightarrow> dns_challenge_row list \<Rightarrow> dns_challenge_row list" where
  "mark_confirmed ok now ids rows =
     (if ids = [] \<or> \<not> ok then rows
      else update_rows (\<lambda>r. dc_id r \<in> set ids) (\<lambda>r. r\<lparr>dc_confirmed := Some now\<rparr>) rows)"

section \<open>What a snapshot shows\<close>

definition rows_at :: "active_snapshot \<Rightarrow> string \<Rightarrow> active_record list" where
  "rows_at s name = (case map_of (as_by_name s) name of None \<Rightarrow> [] | Some rs \<Rightarrow> rs)"

lemma rows_at_add_row:
  "rows_at (add_row now orders r s) name =
     rows_at s name @ (if is_active_row now orders r \<and> dc_record_name r = name then [active_of r] else [])"
  by (auto simp: rows_at_def add_row_def add_by_name_def Let_def active_of_def update_conv' split: option.splits)

lemma rows_at_fold:
  "rows_at (fold (add_row now orders) rs s) name =
     rows_at s name @ map active_of (filter (\<lambda>r. is_active_row now orders r \<and> dc_record_name r = name) rs)"
  by (induction rs arbitrary: s) (auto simp: rows_at_add_row)

text \<open>The rows shown for additions are the active rows of the table, in its order.\<close>

lemma rows_at_load:
  "rows_at (load_rows now orders rows) name =
     map active_of (filter (\<lambda>r. is_active_row now orders r \<and> dc_record_name r = name) rows)"
proof -
  have "filter (\<lambda>r. is_active_row now orders r \<and> dc_record_name r = name)
      (filter (\<lambda>r. order_status_of orders (dc_order r) \<noteq> None \<and> now - SOA_GRACE < dc_expires r) rows) =
    filter (\<lambda>r. is_active_row now orders r \<and> dc_record_name r = name) rows"
    by (auto simp: is_active_row_def SOA_GRACE_def intro!: filter_cong)
  then show ?thesis by (simp add: load_rows_def rows_at_fold) (simp add: rows_at_def empty_snapshot_def)
qed

lemma rows_at_empty [simp]: "rows_at empty_snapshot name = []"
  by (simp add: rows_at_def empty_snapshot_def)

end
