(* ===== verification/Dns_Zones.thy ===== *)
theory Dns_Zones
  imports Dns_Messages Reload_Cache Acme_Names
begin

text \<open>
  The zones for which the DNS UPDATE listener is authoritative
  (\<^verbatim>\<open>services/acme/dns_update/zones.py\<close>): the domains registered for the proxy, cached for ten seconds,
  their ancestors down to the level below a top-level domain, and everything below them.

  Names are compared by the library (\<open>dl_eq\<close>), so a set of names is a list. The loop that climbs a name
  by \<open>parent()\<close> gets as many rounds as the name has labels, which is enough when a parent has fewer
  labels (\<open>climb_enough\<close>).
\<close>

definition name_in :: "dns_lib \<Rightarrow> dns_name \<Rightarrow> dns_name list \<Rightarrow> bool" where
  "name_in lib n ns \<longleftrightarrow> list_ex (dl_eq lib n) ns"

text \<open>\<open>while len(parent.labels) > 3: parent = parent.parent()\<close>: the parents reached.\<close>

fun climb_name :: "dns_lib \<Rightarrow> nat \<Rightarrow> dns_name \<Rightarrow> dns_name list" where
  "climb_name lib 0 n = []"
| "climb_name lib (Suc k) n =
     (if 3 < length n then dl_parent lib n # climb_name lib k (dl_parent lib n) else [])"

definition proper_ancestors :: "dns_lib \<Rightarrow> dns_name \<Rightarrow> dns_name list" where
  "proper_ancestors lib n = climb_name lib (length n) n"

definition parents_shrink :: "dns_lib \<Rightarrow> bool" where
  "parents_shrink lib \<longleftrightarrow> (\<forall>n. n \<noteq> [] \<longrightarrow> length (dl_parent lib n) < length n)"

lemma climb_enough:
  assumes "parents_shrink lib" "length n \<le> k"
  shows "climb_name lib k n = proper_ancestors lib n"
proof -
  have same: "climb_name lib j n = climb_name lib k n" if "length n \<le> j" "length n \<le> k" for j k n
    using that
  proof (induction j arbitrary: k n)
    case (Suc j)
    show ?case
    proof (cases "3 < length n")
      case True
      then obtain k' where k: "k = Suc k'" using Suc.prems(2) by (cases k) auto
      have "length (dl_parent lib n) < length n" using assms(1) True by (cases n) (auto simp: parents_shrink_def)
      then show ?thesis using Suc.IH[of "dl_parent lib n" k'] Suc.prems True k by simp
    next
      case False
      then show ?thesis by (cases k) simp_all
    qed
  next
    case (0 k)
    then show ?case by (cases k) simp_all
  qed
  show ?thesis unfolding proper_ancestors_def by (rule same[OF assms(2) order_refl])
qed

record zone_index =
  zi_zones :: "dns_name list"
  zi_ancestors :: "dns_name list"
  zi_loaded_at :: "int option"
  zi_retry_at :: "int option"

definition new_zone_index :: zone_index where
  "new_zone_index = \<lparr>zi_zones = [], zi_ancestors = [], zi_loaded_at = None, zi_retry_at = None\<rparr>"

definition ZONE_MAX_AGE :: int where "ZONE_MAX_AGE = seconds 10"
definition ZONE_RETRY :: int where "ZONE_RETRY = seconds 2"

lemmas zone_constants [ucm_tables] = ZONE_MAX_AGE_def ZONE_RETRY_def

definition zone_of_entry :: "dns_lib \<Rightarrow> string \<Rightarrow> dns_name option" where
  "zone_of_entry lib stored =
     (let bare = normalize_name stored
      in if bare = [] then None
         else (case dl_from_text lib (bare @ ''.'') of
                 None \<Rightarrow> None | Some z \<Rightarrow> if length z < 3 then None else Some z))"

definition load_zones :: "dns_lib \<Rightarrow> acme_domain list \<Rightarrow> dns_name list" where
  "load_zones lib domains = List.map_filter (zone_of_entry lib) (map ad_domain domains)"

definition invalidate_zones :: "zone_index \<Rightarrow> zone_index" where
  "invalidate_zones s = s\<lparr>zi_loaded_at := None, zi_retry_at := None\<rparr>"

definition ensure_zones :: "dns_lib \<Rightarrow> int \<Rightarrow> dns_name list option \<Rightarrow> zone_index \<Rightarrow> zone_index" where
  "ensure_zones lib now loaded s =
     (if (case zi_loaded_at s of None \<Rightarrow> False | Some t \<Rightarrow> now - t < ZONE_MAX_AGE) then s
      else if (case zi_retry_at s of None \<Rightarrow> False | Some t \<Rightarrow> now < t) then s
      else (case loaded of
              None \<Rightarrow> s\<lparr>zi_retry_at := Some (now + ZONE_RETRY)\<rparr>
            | Some zones \<Rightarrow> s\<lparr>zi_retry_at := None, zi_ancestors := concat (map (proper_ancestors lib) zones),
                              zi_zones := zones, zi_loaded_at := Some now\<rparr>))"

definition is_authoritative :: "dns_lib \<Rightarrow> dns_name \<Rightarrow> zone_index \<Rightarrow> bool" where
  "is_authoritative lib zname s \<longleftrightarrow>
     dl_absolute lib zname \<and> \<not> length zname < 3 \<and>
     (let z = dl_canonical lib zname
      in name_in lib z (zi_zones s) \<or> name_in lib z (zi_ancestors s)
         \<or> list_ex (\<lambda>p. name_in lib p (zi_zones s)) (proper_ancestors lib z))"

interpretation zones_cache: reload_cache zi_zones "[]" "ensure_zones lib" invalidate_zones for lib
  by unfold_locales (auto simp: ensure_zones_def invalidate_zones_def split: option.splits)

text \<open>A zone a client may name is a registered one, lies above one, or lies below one.\<close>

definition zone_ok :: "zone_index \<Rightarrow> dns_lib \<Rightarrow> bool" where
  "zone_ok s lib \<longleftrightarrow> zi_ancestors s = concat (map (proper_ancestors lib) (zi_zones s))"

lemma zone_ok_steps: "zone_ok s lib \<Longrightarrow> zone_ok (ensure_zones lib t l s) lib" "zone_ok s lib \<Longrightarrow> zone_ok (invalidate_zones s) lib"
  "zone_ok new_zone_index lib"
  by (auto simp: zone_ok_def ensure_zones_def invalidate_zones_def new_zone_index_def split: option.splits)

lemma is_authoritative_near_zone:
  assumes "zone_ok s lib" "is_authoritative lib zname s"
  shows "\<exists>z \<in> set (zi_zones s). let c = dl_canonical lib zname in
     dl_eq lib c z \<or> name_in lib c (proper_ancestors lib z) \<or> (\<exists>p \<in> set (proper_ancestors lib c). dl_eq lib p z)"
  using assms unfolding is_authoritative_def zone_ok_def name_in_def Let_def list_ex_iff by (elim conjE disjE) (auto simp: Bex_def)

end
