(* ===== verification/Dns_Tsig.thy ===== *)
theory Dns_Tsig
  imports Dns_Messages Ordered_Dict
begin

text \<open>
  Server-side TSIG (\<^verbatim>\<open>services/acme/dns_update/tsig.py\<close>): the check of a request in the order of RFC
  8945 section 5.2, the table of the latest time signed per key, and the signed and unsigned answers.

  A renderer gives \<open>None\<close> when it raises; the signed answer is \<open>Some None\<close> when even its truncated form
  is too long.
\<close>

section \<open>Response codes\<close>

definition NOERROR :: int where "NOERROR = 0"
definition FORMERR :: int where "FORMERR = 1"
definition SERVFAIL :: int where "SERVFAIL = 2"
definition NOTIMP :: int where "NOTIMP = 4"
definition REFUSED :: int where "REFUSED = 5"
definition NOTAUTH :: int where "NOTAUTH = 9"
definition NOTZONE :: int where "NOTZONE = 10"
definition BADVERS :: int where "BADVERS = 16"
definition BADSIG :: int where "BADSIG = 16"
definition BADKEY :: int where "BADKEY = 17"
definition BADTIME :: int where "BADTIME = 18"
definition BADTRUNC :: int where "BADTRUNC = 22"

definition TYPE_SOA :: int where "TYPE_SOA = 6"
definition TYPE_TXT :: int where "TYPE_TXT = 16"
definition TYPE_TSIG :: "16 word" where "TYPE_TSIG = 250"
definition TYPE_ANY :: int where "TYPE_ANY = 255"
definition CLASS_IN :: int where "CLASS_IN = 1"
definition CLASS_NONE :: int where "CLASS_NONE = 254"
definition CLASS_ANY :: int where "CLASS_ANY = 255"

lemmas dns_codes [ucm_tables] =
  NOERROR_def FORMERR_def SERVFAIL_def NOTIMP_def REFUSED_def NOTAUTH_def NOTZONE_def BADVERS_def BADSIG_def
  BADKEY_def BADTIME_def BADTRUNC_def TYPE_SOA_def TYPE_TXT_def TYPE_TSIG_def TYPE_ANY_def CLASS_IN_def
  CLASS_NONE_def CLASS_ANY_def

section \<open>Latest time signed per key\<close>

type_synonym watermark = "(int, int) odict"

definition WATERMARK_KEYS :: int where "WATERMARK_KEYS = 4096"

definition is_older :: "int \<Rightarrow> int \<Rightarrow> watermark \<Rightarrow> bool" where
  "is_older key_id time_signed w \<longleftrightarrow> (case map_of w key_id of None \<Rightarrow> False | Some s \<Rightarrow> time_signed < s)"

definition record_time :: "int \<Rightarrow> int \<Rightarrow> watermark \<Rightarrow> watermark" where
  "record_time key_id time_signed w =
     (let t = (case map_of w key_id of None \<Rightarrow> time_signed | Some s \<Rightarrow> if time_signed < s then s else time_signed)
      in pop_oldest WATERMARK_KEYS (move_to_end key_id (AList.update key_id t w)))"

section \<open>The last record of a message\<close>

definition unpack32 :: "octets \<Rightarrow> nat \<Rightarrow> 32 word" where
  "unpack32 bs i = push_bit 16 (ucast (unpack16 bs i)) OR ucast (unpack16 bs (i + 2))"

fun skip_questions :: "dns_lib \<Rightarrow> octets \<Rightarrow> nat \<Rightarrow> nat \<Rightarrow> nat option" where
  "skip_questions lib wire 0 p = Some p"
| "skip_questions lib wire (Suc n) p =
     (case dl_read_name lib wire p of
        None \<Rightarrow> None
      | Some (_, p) \<Rightarrow> (case dl_get_bytes lib wire p 4 of
                         None \<Rightarrow> None | Some (_, p) \<Rightarrow> skip_questions lib wire n p))"

text \<open>One record: name, type, class, TTL, length of the data, and the position behind it.\<close>

definition read_rr :: "dns_lib \<Rightarrow> octets \<Rightarrow> nat \<Rightarrow> (dns_name \<times> 16 word \<times> 16 word \<times> 32 word \<times> nat \<times> nat) option" where
  "read_rr lib wire p =
     (case dl_read_name lib wire p of
        None \<Rightarrow> None
      | Some (name, p) \<Rightarrow>
          (case dl_get_bytes lib wire p 10 of
             None \<Rightarrow> None
           | Some (bs, p) \<Rightarrow>
               (let rdlen = unat (unpack16 bs 8)
                in case dl_get_bytes lib wire p rdlen of
                     None \<Rightarrow> None
                   | Some (_, p) \<Rightarrow> Some (name, unpack16 bs 0, unpack16 bs 2, unpack32 bs 4, rdlen, p))))"

fun last_rr_loop ::
    "dns_lib \<Rightarrow> octets \<Rightarrow> nat \<Rightarrow> nat \<Rightarrow> (nat \<times> 16 word \<times> 32 word) option \<Rightarrow> (nat \<times> 16 word \<times> 32 word) option" where
  "last_rr_loop lib wire 0 p l = l"
| "last_rr_loop lib wire (Suc n) p l =
     (case read_rr lib wire p of
        None \<Rightarrow> None
      | Some (_, ty, _, ttl, _, p') \<Rightarrow> last_rr_loop lib wire n p' (Some (p, ty, ttl)))"

definition last_rr_header :: "dns_lib \<Rightarrow> octets \<Rightarrow> (nat \<times> 16 word \<times> 32 word) option" where
  "last_rr_header lib wire =
     (case dl_get_bytes lib wire 0 12 of
        None \<Rightarrow> None
      | Some (h, p) \<Rightarrow>
          (case skip_questions lib wire (unat (unpack16 h 4)) p of
             None \<Rightarrow> None
           | Some p \<Rightarrow> last_rr_loop lib wire (unat (unpack16 h 6) + unat (unpack16 h 8) + unat (unpack16 h 10)) p None))"

section \<open>Verification\<close>

datatype tsig_outcome = Unsigned | Tsig_Ok | Tsig_Formerr | Tsig_Badkey | Tsig_Badsig | Tsig_Badtime | Tsig_Badtrunc

record tsig_result =
  tr_outcome :: tsig_outcome
  tr_key :: "tsig_key option"
  tr_keyname :: "dns_name option"
  tr_rdata :: "tsig_rdata option"
  tr_request_mac :: octets
  tr_replayed :: bool

definition MIN_MAC :: nat where "MIN_MAC = 10"

definition key_usable :: "dns_lib \<Rightarrow> tsig_rdata \<Rightarrow> tsig_key \<Rightarrow> bool" where
  "key_usable lib rd key \<longleftrightarrow> dl_eq lib (td_algorithm rd) (tk_algorithm key) \<and> allowed_algorithm lib (tk_algorithm key)
     \<and> tk_secret key \<noteq> []"

text \<open>The MAC, full or truncated: \<open>Tsig_Ok\<close> when it is that of the key.\<close>

definition check_mac :: "dns_lib \<Rightarrow> octets \<Rightarrow> tsig_key \<Rightarrow> dns_name \<Rightarrow> tsig_rdata \<Rightarrow> nat \<Rightarrow> tsig_outcome" where
  "check_mac lib wire key owner rd start =
     (if length (td_mac rd) = dl_mac_size lib (tk_algorithm key)
      then (case dl_validate lib wire key owner rd (td_time_signed rd) [] start of
              Mac_Valid \<Rightarrow> Tsig_Ok
            | Bad_Signature \<Rightarrow> Tsig_Badsig
            | Bad_Key \<Rightarrow> Tsig_Badkey
            | Validate_Raises \<Rightarrow> Tsig_Formerr)
      else if length wire < 12 \<or> unpack16 wire 10 = 0 then Tsig_Formerr
      else (case dl_sign lib (take 10 wire @ pack16 (unpack16 wire 10 - 1) @ drop 12 (take start wire)) key rd (td_time_signed rd) [] of
              None \<Rightarrow> Tsig_Formerr
            | Some sd \<Rightarrow> if take (length (td_mac rd)) (td_mac sd) \<noteq> td_mac rd then Tsig_Badsig else Tsig_Ok))"

definition verify_request ::
    "dns_lib \<Rightarrow> octets \<Rightarrow> dns_msg \<Rightarrow> (dns_name \<Rightarrow> tsig_key option) \<Rightarrow> int \<Rightarrow> bool \<Rightarrow> watermark \<Rightarrow> tsig_result \<times> watermark" where
  "verify_request lib wire msg lookup now is_replay w =
     (case m_tsig msg of
        None \<Rightarrow> (\<lparr>tr_outcome = Unsigned, tr_key = None, tr_keyname = None, tr_rdata = None, tr_request_mac = [], tr_replayed = False\<rparr>, w)
      | Some (owner, rd) \<Rightarrow>
          (let result = \<lparr>tr_outcome = Tsig_Formerr, tr_key = None, tr_keyname = Some owner, tr_rdata = Some rd,
                         tr_request_mac = td_mac rd, tr_replayed = False\<rparr>
           in if td_error rd \<noteq> 0 then (result, w)
              else (case last_rr_header lib wire of
                 None \<Rightarrow> (result, w)
               | Some (start, last_type, ttl) \<Rightarrow>
                   if ttl \<noteq> 0 then (result, w)
                   else (case lookup owner of
                      None \<Rightarrow> (result\<lparr>tr_outcome := Tsig_Badkey\<rparr>, w)
                    | Some key \<Rightarrow>
                        if \<not> key_usable lib rd key then (result\<lparr>tr_outcome := Tsig_Badkey\<rparr>, w)
                        else (let full = dl_mac_size lib (tk_algorithm key); m = length (td_mac rd)
                              in if full < m \<or> m < max MIN_MAC (full div 2) then (result, w)
                                 else if last_type \<noteq> TYPE_TSIG then (result, w)
                                 else if check_mac lib wire key owner rd start \<noteq> Tsig_Ok
                                 then (result\<lparr>tr_outcome := check_mac lib wire key owner rd start\<rparr>, w)
                                 else (let result = result\<lparr>tr_key := Some key\<rparr>
                                       in if is_replay then (result\<lparr>tr_replayed := True, tr_outcome := Tsig_Ok\<rparr>, w)
                                          else if min (td_fudge rd) MAX_FUDGE < \<bar>now - td_time_signed rd\<bar>
                                          then (result\<lparr>tr_outcome := Tsig_Badtime\<rparr>, w)
                                          else if is_older (tk_id key) (td_time_signed rd) w
                                          then (result\<lparr>tr_outcome := Tsig_Badtime\<rparr>, w)
                                          else if m < full then (result\<lparr>tr_outcome := Tsig_Badtrunc\<rparr>, w)
                                          else (result\<lparr>tr_outcome := Tsig_Ok\<rparr>, record_time (tk_id key) (td_time_signed rd) w)))))))"

section \<open>Answers\<close>

definition tsig_template :: "dns_name \<Rightarrow> int \<Rightarrow> int \<Rightarrow> 16 word \<Rightarrow> int \<Rightarrow> octets \<Rightarrow> tsig_rdata" where
  "tsig_template algorithm time_signed fudge original_id error other =
     \<lparr>td_algorithm = algorithm, td_time_signed = time_signed, td_fudge = fudge, td_mac = [],
      td_original_id = original_id, td_error = error, td_other = other\<rparr>"

definition append_tsig :: "dns_lib \<Rightarrow> octets \<Rightarrow> dns_name \<Rightarrow> tsig_rdata \<Rightarrow> octets option" where
  "append_tsig lib body owner rd =
     (case dl_tsig_wire lib owner rd of
        None \<Rightarrow> None
      | Some (count, rr) \<Rightarrow>
          if length body < 12 then None
          else (let arcount = uint (unpack16 body 10) + int count
                in if 65535 < arcount then None
                   else Some (take 10 body @ pack16 (word_of_int arcount) @ drop 12 body @ rr)))"

definition sign_and_append :: "dns_lib \<Rightarrow> octets \<Rightarrow> tsig_key \<Rightarrow> tsig_rdata \<Rightarrow> int \<Rightarrow> octets \<Rightarrow> octets option" where
  "sign_and_append lib body key template time request_mac =
     (case dl_sign lib body key template time request_mac of
        None \<Rightarrow> None | Some sd \<Rightarrow> append_tsig lib body (tk_name key) sd)"

definition require_key :: "tsig_result \<Rightarrow> (tsig_key \<times> tsig_rdata) option" where
  "require_key r = (case (tr_key r, tr_rdata r) of (Some k, Some rd) \<Rightarrow> Some (k, rd) | _ \<Rightarrow> None)"

definition truncated_form :: "dns_resp \<Rightarrow> dns_resp" where
  "truncated_form r = r\<lparr>rs_answer := [], rs_authority := [], rs_additional := [], rs_tc := True, rs_rcode := NOERROR\<rparr>"

definition WIRE_LIMIT :: int where "WIRE_LIMIT = 65535"
definition TSIG_RESERVE :: int where "TSIG_RESERVE = 400"

definition fits :: "int option \<Rightarrow> octets \<Rightarrow> bool" where
  "fits limit out \<longleftrightarrow> (case limit of None \<Rightarrow> True | Some n \<Rightarrow> int (length out) \<le> n)"

definition render_signed :: "dns_lib \<Rightarrow> dns_resp \<Rightarrow> tsig_result \<Rightarrow> int \<Rightarrow> int option \<Rightarrow> octets option option" where
  "render_signed lib resp result now limit =
     (case require_key result of
        None \<Rightarrow> None
      | Some (key, _) \<Rightarrow>
          (let template = tsig_template (tk_algorithm key) now RESPONSE_FUDGE (rs_id resp) 0 [];
               short = (case dl_to_wire lib (truncated_form resp) WIRE_LIMIT of
                          None \<Rightarrow> None
                        | Some body \<Rightarrow>
                            (case sign_and_append lib body key template now (tr_request_mac result) of
                               None \<Rightarrow> None | Some out \<Rightarrow> Some (if fits limit out then Some out else None)))
           in case dl_to_wire lib resp (WIRE_LIMIT - TSIG_RESERVE) of
                None \<Rightarrow> short
              | Some body \<Rightarrow>
                  (case sign_and_append lib body key template now (tr_request_mac result) of
                     None \<Rightarrow> None | Some out \<Rightarrow> if fits limit out then Some (Some out) else short)))"

definition render_unsigned_tsig_error :: "dns_lib \<Rightarrow> dns_resp \<Rightarrow> tsig_result \<Rightarrow> int \<Rightarrow> octets option" where
  "render_unsigned_tsig_error lib resp result error =
     (if error \<noteq> BADKEY \<and> error \<noteq> BADSIG then None
      else (case (tr_rdata result, tr_keyname result) of
              (Some rd, Some owner) \<Rightarrow>
                (case dl_to_wire lib (resp\<lparr>rs_rcode := NOTAUTH\<rparr>) 0 of
                   None \<Rightarrow> None
                 | Some body \<Rightarrow> append_tsig lib body owner
                                 (tsig_template (td_algorithm rd) (td_time_signed rd) (td_fudge rd) (rs_id resp) error []))
            | _ \<Rightarrow> None))"

text \<open>\<open>struct.pack("!HI", ...)\<close>: six octets of the server time.\<close>

definition pack48 :: "int \<Rightarrow> octets" where
  "pack48 n = map (\<lambda>k. word_of_int (n div 2 ^ k)) [40, 32, 24, 16, 8, 0]"

definition render_badtime :: "dns_lib \<Rightarrow> dns_resp \<Rightarrow> tsig_result \<Rightarrow> int \<Rightarrow> octets option" where
  "render_badtime lib resp result now =
     (case require_key result of
        None \<Rightarrow> None
      | Some (key, rd) \<Rightarrow>
          (case dl_to_wire lib (resp\<lparr>rs_rcode := NOTAUTH\<rparr>) 0 of
             None \<Rightarrow> None
           | Some body \<Rightarrow> sign_and_append lib body key
                            (tsig_template (tk_algorithm key) (td_time_signed rd) (td_fudge rd) (rs_id resp) BADTIME (pack48 now))
                            (td_time_signed rd) (tr_request_mac result)))"

definition render_badtrunc :: "dns_lib \<Rightarrow> dns_resp \<Rightarrow> tsig_result \<Rightarrow> int \<Rightarrow> octets option" where
  "render_badtrunc lib resp result now =
     (case require_key result of
        None \<Rightarrow> None
      | Some (key, _) \<Rightarrow>
          (case dl_to_wire lib (resp\<lparr>rs_rcode := NOTAUTH\<rparr>) 0 of
             None \<Rightarrow> None
           | Some body \<Rightarrow> sign_and_append lib body key
                            (tsig_template (tk_algorithm key) now RESPONSE_FUDGE (rs_id resp) BADTRUNC [])
                            now (tr_request_mac result)))"

section \<open>When a request is authentic\<close>

text \<open>The conditions of RFC 8945 on the record itself, the key and the MAC, and those on its age.\<close>

definition mac_proven :: "dns_lib \<Rightarrow> octets \<Rightarrow> (dns_name \<Rightarrow> tsig_key option) \<Rightarrow> dns_name \<Rightarrow> tsig_rdata \<Rightarrow> tsig_key \<Rightarrow> bool" where
  "mac_proven lib wire lookup owner rd key \<longleftrightarrow>
     td_error rd = 0 \<and> lookup owner = Some key \<and> key_usable lib rd key
     \<and> max MIN_MAC (dl_mac_size lib (tk_algorithm key) div 2) \<le> length (td_mac rd)
     \<and> length (td_mac rd) \<le> dl_mac_size lib (tk_algorithm key)
     \<and> (\<exists>start. last_rr_header lib wire = Some (start, TYPE_TSIG, 0) \<and> check_mac lib wire key owner rd start = Tsig_Ok)"

definition timely :: "dns_lib \<Rightarrow> int \<Rightarrow> watermark \<Rightarrow> tsig_rdata \<Rightarrow> tsig_key \<Rightarrow> bool" where
  "timely lib now w rd key \<longleftrightarrow>
     \<bar>now - td_time_signed rd\<bar> \<le> min (td_fudge rd) MAX_FUDGE \<and> \<not> is_older (tk_id key) (td_time_signed rd) w
     \<and> length (td_mac rd) = dl_mac_size lib (tk_algorithm key)"

lemma verify_request_ok:
  "tr_outcome (fst (verify_request lib wire msg lookup now is_replay w)) = Tsig_Ok \<longleftrightarrow>
     (\<exists>owner rd key. m_tsig msg = Some (owner, rd) \<and> mac_proven lib wire lookup owner rd key
        \<and> (is_replay \<or> timely lib now w rd key))"
proof (cases "m_tsig msg")
  case (Some od)
  obtain owner rd where od: "od = (owner, rd)" by fastforce
  show ?thesis
  proof (cases "last_rr_header lib wire")
    case None
    then show ?thesis using Some od by (auto simp: verify_request_def Let_def mac_proven_def)
  next
    case header: (Some h)
    obtain start ty ttl where h: "h = (start, ty, ttl)" by (cases h)
    show ?thesis
    proof (cases "lookup owner")
      case None
      then show ?thesis using Some od header h by (auto simp: verify_request_def Let_def mac_proven_def)
    next
      case key: (Some key)
      then show ?thesis
        using Some od header h
        by (cases "td_error rd = 0"; cases "ttl = 0"; cases "key_usable lib rd key"; cases "ty = TYPE_TSIG";
            cases "check_mac lib wire key owner rd start = Tsig_Ok"; cases is_replay)
          (auto simp: verify_request_def Let_def mac_proven_def timely_def not_less not_le min_def)
    qed
  qed
qed (simp add: verify_request_def)

lemma verify_request_key:
  assumes "tr_outcome (fst (verify_request lib wire msg lookup now is_replay w)) = Tsig_Ok"
  shows "\<exists>owner rd key. m_tsig msg = Some (owner, rd) \<and> mac_proven lib wire lookup owner rd key
     \<and> (is_replay \<or> timely lib now w rd key)
     \<and> fst (verify_request lib wire msg lookup now is_replay w) =
         \<lparr>tr_outcome = Tsig_Ok, tr_key = Some key, tr_keyname = Some owner, tr_rdata = Some rd,
          tr_request_mac = td_mac rd, tr_replayed = is_replay\<rparr>"
proof -
  obtain owner rd key where *: "m_tsig msg = Some (owner, rd)" "mac_proven lib wire lookup owner rd key"
      "is_replay \<or> timely lib now w rd key"
    using assms[unfolded verify_request_ok] by blast
  then obtain start where "last_rr_header lib wire = Some (start, TYPE_TSIG, 0)" "check_mac lib wire key owner rd start = Tsig_Ok"
    by (auto simp: mac_proven_def)
  then have "fst (verify_request lib wire msg lookup now is_replay w) =
         \<lparr>tr_outcome = Tsig_Ok, tr_key = Some key, tr_keyname = Some owner, tr_rdata = Some rd,
          tr_request_mac = td_mac rd, tr_replayed = is_replay\<rparr>"
    using *(1,2,3) by (cases is_replay) (auto simp: verify_request_def Let_def mac_proven_def timely_def)
  with * show ?thesis by blast
qed

end
