(* ===== verification/Dns_Update.thy ===== *)
theory Dns_Update
  imports Dns_Keys Dns_Records Dns_Zones Dns_Tsig
begin

text \<open>
  The protocol handler of the DNS UPDATE listener (\<^verbatim>\<open>services/acme/dns_update/handler.py\<close>): one
  request in, one answer or none out, and what is written after the answer is decided.

  The environment of a request gives the readings of the clocks and which database operations
  succeed: \<open>he_clock k\<close> is the \<open>k\<close>-th reading of \<open>time.time\<close> in microseconds (0 at the start, then
  those of the replay cache in their order). Log lines are left out; an audit call is kept with its
  action and reason. An unexpected exception is \<open>None\<close>.
\<close>

section \<open>The replay cache\<close>

datatype transport = Udp | Tcp

type_synonym replay_key = "string \<times> octets"

record replay_cache =
  rp_items :: "(replay_key, int \<times> (transport \<times> octets) list) odict"
  rp_in_flight :: "replay_key list"

definition new_replay_cache :: replay_cache where
  "new_replay_cache = \<lparr>rp_items = [], rp_in_flight = []\<rparr>"

definition REPLAY_TTL :: int where "REPLAY_TTL = seconds REPLAY_TTL_S"

definition live_entry :: "int \<Rightarrow> replay_key \<Rightarrow> replay_cache \<Rightarrow> (int \<times> (transport \<times> octets) list) option" where
  "live_entry t k c =
     (case map_of (rp_items c) k of None \<Rightarrow> None | Some it \<Rightarrow> if REPLAY_TTL \<le> t - fst it then None else Some it)"

definition drop_dead :: "int \<Rightarrow> replay_key \<Rightarrow> replay_cache \<Rightarrow> replay_cache" where
  "drop_dead t k c = (if live_entry t k c = None then c\<lparr>rp_items := AList.delete k (rp_items c)\<rparr> else c)"

definition replay_get :: "int \<Rightarrow> replay_key \<Rightarrow> transport \<Rightarrow> replay_cache \<Rightarrow> octets option \<times> replay_cache" where
  "replay_get t k tr c =
     (case live_entry t k c of
        None \<Rightarrow> (None, drop_dead t k c)
      | Some it \<Rightarrow> (case map_of (snd it) tr of
                      None \<Rightarrow> (None, c)
                    | Some v \<Rightarrow> (Some v, c\<lparr>rp_items := move_to_end k (rp_items c)\<rparr>)))"

definition replay_seen :: "int \<Rightarrow> replay_key \<Rightarrow> replay_cache \<Rightarrow> bool \<times> replay_cache" where
  "replay_seen t k c = (live_entry t k c \<noteq> None, drop_dead t k c)"

text \<open>\<open>put\<close> reads the clock for the entry found and again for a new one.\<close>

definition replay_put :: "int \<Rightarrow> int \<Rightarrow> replay_key \<Rightarrow> octets \<Rightarrow> transport \<Rightarrow> replay_cache \<Rightarrow> replay_cache" where
  "replay_put t t' k v tr c =
     (let it = (case live_entry t k c of None \<Rightarrow> (t', []) | Some it \<Rightarrow> it);
          items = AList.update k (fst it, AList.update tr v (snd it)) (rp_items (drop_dead t k c))
      in c\<lparr>rp_items := pop_oldest REPLAY_CACHE_SIZE (move_to_end k items)\<rparr>)"

definition replay_begin :: "replay_key \<Rightarrow> replay_cache \<Rightarrow> bool \<times> replay_cache" where
  "replay_begin k c =
     (if k \<in> set (rp_in_flight c) then (False, c) else (True, c\<lparr>rp_in_flight := k # rp_in_flight c\<rparr>))"

definition replay_end :: "replay_key \<Rightarrow> replay_cache \<Rightarrow> replay_cache" where
  "replay_end k c = c\<lparr>rp_in_flight := filter (\<lambda>x. x \<noteq> k) (rp_in_flight c)\<rparr>"

section \<open>State, environment and answers\<close>

record audit_call =
  ac_action :: string
  ac_reason :: string
  ac_peer :: string
  ac_key :: "string option"
  ac_limited :: bool

record handler_state =
  hs_keys :: key_site
  hs_rows :: row_site
  hs_orders :: "client_order list"
  hs_domains :: "acme_domain list"
  hs_zones :: zone_index
  hs_watermark :: watermark
  hs_replay :: replay_cache
  hs_audit :: "audit_call list"

record handler_env =
  he_lib :: dns_lib
  he_secrets :: secret_lib
  he_clock :: "nat \<Rightarrow> int"
  he_lookup :: "int \<times> bool"
  he_scope :: "int \<times> bool"
  he_zone :: "int \<times> bool"
  he_snapshot :: "(int \<times> int) \<times> datetime \<times> bool"
  he_mark_ok :: bool
  he_touch :: "int \<times> bool"

datatype dns_event =
    No_Event
  | Accepted string "string list" nat nat "int list"
  | Refused string string "string list"

definition use_keys :: "handler_env \<Rightarrow> int \<times> bool \<Rightarrow> handler_state \<Rightarrow> handler_state" where
  "use_keys env use st =
     (case hs_keys st of (db, ks) \<Rightarrow>
        st\<lparr>hs_keys := (db, ensure_keys (fst use) (if snd use then Some (load_keys (he_lib env) (he_secrets env) db) else None) ks)\<rparr>)"

definition use_rows :: "handler_env \<Rightarrow> handler_state \<Rightarrow> handler_state" where
  "use_rows env st =
     (case hs_rows st of (rows, c) \<Rightarrow>
        (case he_snapshot env of (tt, now, ok) \<Rightarrow>
           st\<lparr>hs_rows := (rows, refresh_rows tt (if ok then Some (load_rows now (hs_orders st) rows) else None) c)\<rparr>))"

definition use_zones :: "handler_env \<Rightarrow> handler_state \<Rightarrow> handler_state" where
  "use_zones env st =
     st\<lparr>hs_zones := ensure_zones (he_lib env) (fst (he_zone env))
                      (if snd (he_zone env) then Some (load_zones (he_lib env) (hs_domains st)) else None) (hs_zones st)\<rparr>"

definition snapshot_of :: "handler_state \<Rightarrow> active_snapshot" where
  "snapshot_of st = rc_snapshot (snd (hs_rows st))"

section \<open>Wire helpers\<close>

definition opcode_of :: "16 word \<Rightarrow> 16 word" where
  "opcode_of flags = drop_bit 11 flags AND 0xF"

definition OP_QUERY :: "16 word" where "OP_QUERY = 0"
definition OP_UPDATE :: "16 word" where "OP_UPDATE = 5"

definition header_only :: "octets \<Rightarrow> int \<Rightarrow> octets" where
  "header_only wire rcode =
     (let flags = unpack16 wire 2;
          out = 0x8000 OR push_bit 11 (opcode_of flags) OR (flags AND 0x0100) OR (word_of_int rcode AND 0xF)
      in pack16 (unpack16 wire 0) @ pack16 out @ replicate 8 0)"

text \<open>The records of the update section with TTL and length.\<close>

fun skip_rrs :: "dns_lib \<Rightarrow> octets \<Rightarrow> nat \<Rightarrow> nat \<Rightarrow> nat option" where
  "skip_rrs lib wire 0 p = Some p"
| "skip_rrs lib wire (Suc n) p = (case read_rr lib wire p of None \<Rightarrow> None | Some (_, _, _, _, _, p') \<Rightarrow> skip_rrs lib wire n p')"

type_synonym update_rr = "dns_name \<times> 16 word \<times> 16 word \<times> 32 word \<times> nat"

fun take_rrs :: "dns_lib \<Rightarrow> octets \<Rightarrow> nat \<Rightarrow> nat \<Rightarrow> update_rr list option" where
  "take_rrs lib wire 0 p = Some []"
| "take_rrs lib wire (Suc n) p =
     (case read_rr lib wire p of
        None \<Rightarrow> None
      | Some (name, ty, cl, ttl, rdlen, p') \<Rightarrow> map_option (Cons (name, ty, cl, ttl, rdlen)) (take_rrs lib wire n p'))"

definition update_rrs :: "dns_lib \<Rightarrow> octets \<Rightarrow> update_rr list option" where
  "update_rrs lib wire =
     (case dl_get_bytes lib wire 0 12 of
        None \<Rightarrow> None
      | Some (h, p) \<Rightarrow>
          (case skip_questions lib wire (unat (unpack16 h 4)) p of
             None \<Rightarrow> None
           | Some p \<Rightarrow> (case skip_rrs lib wire (unat (unpack16 h 6)) p of
                         None \<Rightarrow> None | Some p \<Rightarrow> take_rrs lib wire (unat (unpack16 h 8)) p)))"

definition same_in_signed_form :: "dns_lib \<Rightarrow> octets \<Rightarrow> dns_msg \<Rightarrow> bool" where
  "same_in_signed_form lib wire msg \<longleftrightarrow>
     (case m_tsig msg of
        None \<Rightarrow> True
      | Some (_, rd) \<Rightarrow>
          td_original_id rd = m_id msg \<or>
          (case dl_from_wire lib (pack16 (td_original_id rd) @ drop 2 wire) of
             None \<Rightarrow> False
           | Some again \<Rightarrow> dl_same_sections lib again msg \<and> dl_same_tsig lib again msg
                           \<and> m_edns again = m_edns msg \<and> m_payload again = m_payload msg))"

definition replay_key_of :: "dns_lib \<Rightarrow> dns_msg \<Rightarrow> replay_key option" where
  "replay_key_of lib msg = map_option (\<lambda>(owner, rd). (lower_text lib owner, td_mac rd)) (m_tsig msg)"

definition with_request_id :: "octets \<Rightarrow> octets \<Rightarrow> octets" where
  "with_request_id cached wire = take 2 wire @ drop 2 cached"

text \<open>\<open>b"".join(rdata.strings).decode("ascii")\<close>.\<close>

definition txt_value :: "octets list \<Rightarrow> string option" where
  "txt_value strings =
     (let bs = concat strings in if list_all (\<lambda>b. b < 128) bs then Some (map (\<lambda>b. char_of (unat b)) bs) else None)"

definition soa_of :: "dns_name \<Rightarrow> soa_rrset" where
  "soa_of zone = \<lparr>soa_owner = zone, soa_ttl = 0, soa_mname = zone, soa_rname = ''hostmaster'' # zone, soa_timers = SOA_TIMERS\<rparr>"

definition truncated_resp :: "dns_resp \<Rightarrow> dns_resp" where
  "truncated_resp r = r\<lparr>rs_answer := [], rs_authority := [], rs_additional := [], rs_tc := True\<rparr>"

definition skeleton_of :: "dns_lib \<Rightarrow> bool \<Rightarrow> dns_msg \<Rightarrow> dns_resp option" where
  "skeleton_of lib is_update msg =
     map_option (\<lambda>r. if is_update then r\<lparr>rs_question := []\<rparr> else r) (dl_make_response lib msg)"

definition MIN_UDP :: int where "MIN_UDP = 512"

definition payload_limit :: "dns_msg \<Rightarrow> int" where
  "payload_limit msg = max MIN_UDP (if 0 \<le> m_edns msg then m_payload msg else MIN_UDP)"

definition unsigned_limit :: "octets \<Rightarrow> dns_msg \<Rightarrow> transport \<Rightarrow> int option" where
  "unsigned_limit wire msg tr = (if tr = Tcp then None else Some (min (int (length wire)) (payload_limit msg)))"

definition render_unsigned :: "dns_lib \<Rightarrow> dns_resp \<Rightarrow> int option \<Rightarrow> octets option option" where
  "render_unsigned lib resp limit =
     (case dl_to_wire lib resp WIRE_LIMIT of
        None \<Rightarrow> None
      | Some out \<Rightarrow>
          if fits limit out then Some (Some out)
          else (case dl_to_wire lib (truncated_resp resp) WIRE_LIMIT of
                  None \<Rightarrow> None | Some out \<Rightarrow> Some (if fits limit out then Some out else None)))"

section \<open>QUERY\<close>

text \<open>The rows of the zones at or above the name, and whether there is such a zone.\<close>

fun probe_zones :: "dns_lib \<Rightarrow> active_snapshot \<Rightarrow> nat \<Rightarrow> dns_name \<Rightarrow> bool \<times> active_record list" where
  "probe_zones lib snap 0 probe = (False, [])"
| "probe_zones lib snap (Suc n) probe =
     (if 1 < length probe
      then (let text = lower_text lib probe; (found, rows) = probe_zones lib snap n (dl_parent lib probe)
            in if text \<in> set (as_zones snap) then (True, filter (\<lambda>r. ar_zone r = text) (as_soa_rows snap) @ rows)
               else (found, rows))
      else (False, []))"

text \<open>The two loops over the rows; a zone name of a row that does not parse raises (\<open>Inl\<close>).\<close>

fun query_apex :: "dns_lib \<Rightarrow> dns_name \<Rightarrow> active_record list \<Rightarrow> unit + dns_name option" where
  "query_apex lib qname [] = Inr None"
| "query_apex lib qname (r # rs) =
     (case dl_from_text lib (ar_zone r) of
        None \<Rightarrow> Inl () | Some zone \<Rightarrow> if dl_eq lib qname zone then Inr (Some zone) else query_apex lib qname rs)"

fun query_between :: "dns_lib \<Rightarrow> dns_name \<Rightarrow> active_record list \<Rightarrow> unit + dns_name option" where
  "query_between lib qname [] = Inr None"
| "query_between lib qname (r # rs) =
     (case dl_from_text lib (ar_zone r) of
        None \<Rightarrow> Inl ()
      | Some zone \<Rightarrow>
          if \<not> dl_eq lib qname zone \<and> dl_subdomain lib qname zone
          then (case dl_from_text lib (ar_record_name r) of
                  None \<Rightarrow> Inl ()
                | Some name \<Rightarrow> if dl_subdomain lib name qname then Inr (Some zone) else query_between lib qname rs)
          else query_between lib qname rs)"

definition answer_rows :: "dns_lib \<Rightarrow> dns_name \<Rightarrow> active_record list \<Rightarrow> dns_resp \<Rightarrow> dns_resp option" where
  "answer_rows lib qname rows resp =
     (case query_apex lib qname rows of
        Inl _ \<Rightarrow> None
      | Inr (Some zone) \<Rightarrow> Some (resp\<lparr>rs_aa := True, rs_answer := rs_answer resp @ [soa_of zone]\<rparr>)
      | Inr None \<Rightarrow>
          (case query_between lib qname rows of
             Inl _ \<Rightarrow> None
           | Inr (Some zone) \<Rightarrow> Some (resp\<lparr>rs_aa := True, rs_authority := rs_authority resp @ [soa_of zone]\<rparr>)
           | Inr None \<Rightarrow> Some (resp\<lparr>rs_rcode := REFUSED\<rparr>)))"

definition query_answer :: "handler_env \<Rightarrow> dns_msg \<Rightarrow> dns_resp \<Rightarrow> tsig_result \<Rightarrow> handler_state \<Rightarrow> dns_resp option \<times> handler_state" where
  "query_answer env msg resp result st =
     (case m_question msg of
        [q] \<Rightarrow>
          if rr_class q \<noteq> CLASS_IN \<or> rr_type q \<noteq> TYPE_SOA then (Some (resp\<lparr>rs_rcode := REFUSED\<rparr>), st)
          else (let st = use_rows env st;
                    (found, rows) = probe_zones (he_lib env) (snapshot_of st) (length (rr_name q)) (rr_name q)
                in if \<not> found then (Some (resp\<lparr>rs_rcode := REFUSED\<rparr>), st)
                   else (case (tr_outcome result, tr_key result) of
                           (Tsig_Ok, Some key) \<Rightarrow>
                             (let st = use_keys env (he_scope env) st;
                                  rows = (case key_scope_of (tk_id key) (snd (hs_keys st)) of
                                            None \<Rightarrow> []
                                          | Some sc \<Rightarrow> filter (\<lambda>r. scope_allows sc (ar_client_account r) (ar_account r)) rows)
                              in (answer_rows (he_lib env) (rr_name q) rows resp, st))
                         | _ \<Rightarrow> (answer_rows (he_lib env) (rr_name q) rows resp, st)))
      | _ \<Rightarrow> (Some (resp\<lparr>rs_question := [], rs_rcode := FORMERR\<rparr>), st))"

section \<open>UPDATE\<close>

definition change_allowed :: "dns_rrset \<Rightarrow> bool" where
  "change_allowed r \<longleftrightarrow>
     (rr_type r = TYPE_TXT \<or> (rr_type r = TYPE_ANY \<and> rr_deleting r = Some CLASS_ANY))
     \<and> 2 \<le> length (rr_name r) \<and> py_lower (hd (rr_name r)) = CHALLENGE_LABEL"

fun match_values :: "active_record list \<Rightarrow> octets list list \<Rightarrow> int list option" where
  "match_values cands [] = Some []"
| "match_values cands (rd # rds) =
     (let value = txt_value rd;
          matched = map ar_row (filter (\<lambda>r. value \<noteq> None \<and> value = Some (ar_txt r)) cands)
      in if matched = [] then None else map_option (append matched) (match_values cands rds))"

fun authorize :: "dns_lib \<Rightarrow> key_scope option \<Rightarrow> active_snapshot \<Rightarrow> dns_rrset list \<Rightarrow> string + int list" where
  "authorize lib scope snap [] = Inr []"
| "authorize lib scope snap (r # rs) =
     (if \<not> change_allowed r then Inl ''type_not_allowed''
      else if rr_deleting r \<noteq> None then authorize lib scope snap rs
      else (let cands = filter (\<lambda>a. case scope of None \<Rightarrow> False
                                          | Some sc \<Rightarrow> scope_allows sc (ar_client_account a) (ar_account a))
                               (rows_at snap (lower_text lib (rr_name r)))
            in if cands = [] then Inl ''no_pending_order''
               else (case match_values cands (rr_txts r) of
                       None \<Rightarrow> Inl ''value_mismatch''
                     | Some ids \<Rightarrow> (case authorize lib scope snap rs of Inl e \<Rightarrow> Inl e | Inr more_ids \<Rightarrow> Inr (ids @ more_ids)))))"

text \<open>The loop reaches an addition, and then reads the scope and the snapshot.\<close>

fun reaches_add :: "dns_rrset list \<Rightarrow> bool" where
  "reaches_add [] = False"
| "reaches_add (r # rs) = (if \<not> change_allowed r then False else if rr_deleting r \<noteq> None then reaches_add rs else True)"

datatype prescan = Scan_Ok | Not_In_Zone | Bad_Format

fun prescan_rrs :: "dns_lib \<Rightarrow> dns_name \<Rightarrow> update_rr list \<Rightarrow> prescan" where
  "prescan_rrs lib zone [] = Scan_Ok"
| "prescan_rrs lib zone ((name, _, cl, ttl, rdlen) # rrs) =
     (if \<not> dl_subdomain lib name zone then Not_In_Zone
      else if uint cl = CLASS_IN then prescan_rrs lib zone rrs
      else if uint cl = CLASS_ANY \<or> uint cl = CLASS_NONE
      then (if ttl \<noteq> 0 \<or> (uint cl = CLASS_ANY \<and> rdlen \<noteq> 0) then Bad_Format else prescan_rrs lib zone rrs)
      else Bad_Format)"

definition MAX_AUDIT_NAMES :: nat where "MAX_AUDIT_NAMES = 8"

definition audit_names :: "dns_lib \<Rightarrow> dns_rrset list \<Rightarrow> string list" where
  "audit_names lib rs =
     foldl (\<lambda>names r. let text = dl_to_text lib (rr_name r)
                      in if text \<notin> set names \<and> length names < MAX_AUDIT_NAMES then names @ [text] else names) [] rs"

definition refuse :: "dns_resp \<Rightarrow> int \<Rightarrow> string \<Rightarrow> string \<Rightarrow> string list \<Rightarrow> (dns_resp \<times> dns_event) option" where
  "refuse resp rcode reason zone names = Some (resp\<lparr>rs_rcode := rcode\<rparr>, Refused reason zone names)"

definition update_answer ::
    "handler_env \<Rightarrow> octets \<Rightarrow> dns_msg \<Rightarrow> dns_resp \<Rightarrow> tsig_result \<Rightarrow> handler_state \<Rightarrow> (dns_resp \<times> dns_event) option \<times> handler_state" where
  "update_answer env wire msg resp result st =
     (let lib = he_lib env
      in case (tr_outcome result, tr_key result) of
           (Tsig_Ok, Some key) \<Rightarrow>
             (case m_question msg of
                [z] \<Rightarrow>
                  if rr_type z \<noteq> TYPE_SOA then (refuse resp FORMERR ''format'' [] [], st)
                  else (let zone_text = dl_to_text lib (rr_name z)
                        in if rr_class z \<noteq> CLASS_IN then (refuse resp NOTAUTH ''not_authoritative'' zone_text [], st)
                           else (let st = (if dl_absolute lib (rr_name z) \<and> \<not> length (rr_name z) < 3 then use_zones env st else st)
                                 in if \<not> is_authoritative lib (rr_name z) (hs_zones st)
                                    then (refuse resp NOTAUTH ''not_authoritative'' zone_text [], st)
                                    else if m_prerequisite msg \<noteq> [] then (refuse resp REFUSED ''prerequisite'' zone_text [], st)
                                    else (let names = audit_names lib (m_update msg);
                                              st = (if reaches_add (m_update msg) then use_rows env (use_keys env (he_scope env) st) else st)
                                          in case authorize lib (key_scope_of (tk_id key) (snd (hs_keys st))) (snapshot_of st) (m_update msg) of
                                               Inl reason \<Rightarrow> (refuse resp REFUSED reason zone_text names, st)
                                             | Inr ids \<Rightarrow>
                                                 (case update_rrs lib wire of
                                                    None \<Rightarrow> (None, st)
                                                  | Some rrs \<Rightarrow>
                                                      (case prescan_rrs lib (rr_name z) rrs of
                                                         Not_In_Zone \<Rightarrow> (refuse resp NOTZONE ''not_in_zone'' zone_text names, st)
                                                       | Bad_Format \<Rightarrow> (refuse resp FORMERR ''format'' zone_text names, st)
                                                       | Scan_Ok \<Rightarrow>
                                                           (let adds = length (filter (\<lambda>(_, _, cl, _, _). uint cl = CLASS_IN) rrs)
                                                            in (Some (resp, Accepted zone_text names adds (length rrs - adds) (sort (remdups ids))), st)))))))
              | _ \<Rightarrow> (refuse resp FORMERR ''format'' [] [], st))
         | _ \<Rightarrow> (Some (resp\<lparr>rs_rcode := REFUSED\<rparr>, No_Event), st))"

section \<open>After the answer\<close>

definition audit :: "audit_call \<Rightarrow> handler_state \<Rightarrow> handler_state" where
  "audit c st = st\<lparr>hs_audit := hs_audit st @ [c]\<rparr>"

definition after_answer :: "handler_env \<Rightarrow> string \<Rightarrow> tsig_result \<Rightarrow> dns_event \<Rightarrow> handler_state \<Rightarrow> handler_state" where
  "after_answer env peer result event st =
     (case (event, tr_key result) of
        (Accepted _ _ _ _ ids, Some key) \<Rightarrow>
          (let now = he_clock env 0;
               st = (case hs_rows st of (rows, c) \<Rightarrow> st\<lparr>hs_rows := (mark_confirmed (he_mark_ok env) now ids rows, c)\<rparr>);
               st = st\<lparr>hs_keys := touch_key_row (fst (he_touch env)) now (snd (he_touch env)) (tk_id key) (hs_keys st)\<rparr>
           in audit \<lparr>ac_action = ''acme.dns_update.accepted'', ac_reason = [], ac_peer = peer,
                     ac_key = Some (dl_to_text (he_lib env) (tk_name key)), ac_limited = False\<rparr> st)
      | (Refused reason _ _, Some key) \<Rightarrow>
          audit \<lparr>ac_action = ''acme.dns_update.refused'', ac_reason = reason, ac_peer = peer,
                 ac_key = Some (dl_to_text (he_lib env) (tk_name key)), ac_limited = True\<rparr> st
      | _ \<Rightarrow> st)"

section \<open>A request\<close>

definition servfail_signed :: "handler_env \<Rightarrow> octets \<Rightarrow> dns_msg \<Rightarrow> bool \<Rightarrow> tsig_result \<Rightarrow> int option \<Rightarrow> octets option" where
  "servfail_signed env wire msg is_update result limit =
     (case skeleton_of (he_lib env) is_update msg of
        None \<Rightarrow> Some (header_only wire SERVFAIL)
      | Some r \<Rightarrow>
          (case render_signed (he_lib env)
                  (r\<lparr>rs_question := [], rs_answer := [], rs_authority := [], rs_additional := [], rs_rcode := SERVFAIL\<rparr>)
                  result (he_clock env 0 div seconds 1) limit of
             Some (Some out) \<Rightarrow> Some out
           | _ \<Rightarrow> Some (header_only wire SERVFAIL)))"

text \<open>Steps 7 and 8: the version of EDNS, then the query or the update.\<close>

definition answer_request ::
    "handler_env \<Rightarrow> octets \<Rightarrow> dns_msg \<Rightarrow> bool \<Rightarrow> dns_resp \<Rightarrow> tsig_result \<Rightarrow> handler_state \<Rightarrow> (dns_resp \<times> dns_event) option \<times> handler_state" where
  "answer_request env wire msg is_update skeleton result st =
     (if 0 < m_edns msg then (Some (skeleton\<lparr>rs_rcode := BADVERS\<rparr>, No_Event), st)
      else if is_update then update_answer env wire msg skeleton result st
      else (case query_answer env msg skeleton result st of (r, st) \<Rightarrow> (map_option (\<lambda>r. (r, No_Event)) r, st)))"

definition render_answer :: "handler_env \<Rightarrow> octets \<Rightarrow> dns_msg \<Rightarrow> tsig_result \<Rightarrow> transport \<Rightarrow> dns_resp \<Rightarrow> octets option option" where
  "render_answer env wire msg result tr resp =
     (if tr_outcome result = Tsig_Ok
      then render_signed (he_lib env) resp result (he_clock env 0 div seconds 1) (if tr = Tcp then None else Some (payload_limit msg))
      else render_unsigned (he_lib env) resp (unsigned_limit wire msg tr))"

definition store_answer :: "handler_env \<Rightarrow> transport \<Rightarrow> replay_key option \<Rightarrow> octets option \<Rightarrow> handler_state \<Rightarrow> handler_state" where
  "store_answer env tr rkey out st =
     (case (rkey, out) of
        (Some k, Some bs) \<Rightarrow> st\<lparr>hs_replay := replay_put (he_clock env 5) (he_clock env 6) k bs tr (hs_replay st)\<rparr>
      | _ \<Rightarrow> st)"

definition process_failed :: "handler_env \<Rightarrow> octets \<Rightarrow> dns_msg \<Rightarrow> bool \<Rightarrow> tsig_result \<Rightarrow> transport \<Rightarrow> octets option" where
  "process_failed env wire msg is_update result tr =
     (if tr_outcome result = Tsig_Ok
      then servfail_signed env wire msg is_update result (if tr = Tcp then None else Some (payload_limit msg))
      else Some (header_only wire SERVFAIL))"

text \<open>\<open>_process\<close>; an exception of an unsigned request reaches \<open>handle\<close>, which answers SERVFAIL.\<close>

definition process ::
    "handler_env \<Rightarrow> octets \<Rightarrow> dns_msg \<Rightarrow> bool \<Rightarrow> dns_resp \<Rightarrow> tsig_result \<Rightarrow> string \<Rightarrow> transport \<Rightarrow> replay_key option \<Rightarrow> bool \<Rightarrow>
     handler_state \<Rightarrow> octets option \<times> handler_state" where
  "process env wire msg is_update skeleton result peer tr rkey suppress st =
     (case answer_request env wire msg is_update skeleton result st of
        (None, st) \<Rightarrow> (process_failed env wire msg is_update result tr, st)
      | (Some (resp, event), st) \<Rightarrow>
          (case render_answer env wire msg result tr resp of
             None \<Rightarrow> (process_failed env wire msg is_update result tr, st)
           | Some out \<Rightarrow>
               (let st = store_answer env tr rkey out st
                in (out, if suppress then st else after_answer env peer result event st))))"

definition error_render :: "handler_env \<Rightarrow> tsig_result \<Rightarrow> dns_resp \<Rightarrow> octets option" where
  "error_render env result r =
     (case tr_outcome result of
        Tsig_Badkey \<Rightarrow> render_unsigned_tsig_error (he_lib env) r result BADKEY
      | Tsig_Badsig \<Rightarrow> render_unsigned_tsig_error (he_lib env) r result BADSIG
      | Tsig_Badtime \<Rightarrow> render_badtime (he_lib env) r result (he_clock env 0 div seconds 1)
      | _ \<Rightarrow> render_badtrunc (he_lib env) r result (he_clock env 0 div seconds 1))"

definition outcome_text :: "tsig_outcome \<Rightarrow> string" where
  "outcome_text x = (case x of
     Unsigned \<Rightarrow> ''unsigned'' | Tsig_Ok \<Rightarrow> ''ok'' | Tsig_Formerr \<Rightarrow> ''formerr'' | Tsig_Badkey \<Rightarrow> ''badkey''
   | Tsig_Badsig \<Rightarrow> ''badsig'' | Tsig_Badtime \<Rightarrow> ''badtime'' | Tsig_Badtrunc \<Rightarrow> ''badtrunc'')"

definition tsig_error ::
    "handler_env \<Rightarrow> octets \<Rightarrow> dns_msg \<Rightarrow> dns_resp \<Rightarrow> tsig_result \<Rightarrow> string \<Rightarrow> transport \<Rightarrow> handler_state \<Rightarrow> octets option \<times> handler_state" where
  "tsig_error env wire msg skeleton result peer tr st =
     (let limit = (if tr = Tcp then None
                   else if tr_outcome result \<in> {Tsig_Badtime, Tsig_Badtrunc} then Some (payload_limit msg)
                   else unsigned_limit wire msg tr);
          rejected = audit \<lparr>ac_action = ''acme.dns_update.rejected'', ac_reason = outcome_text (tr_outcome result), ac_peer = peer,
                            ac_key = map_option (dl_to_text (he_lib env)) (tr_keyname result), ac_limited = True\<rparr>
      in case error_render env result skeleton of
           None \<Rightarrow> (Some (header_only wire SERVFAIL), st)
         | Some out \<Rightarrow>
             if fits limit out then (Some out, rejected st)
             else (case error_render env result (truncated_resp skeleton) of
                     None \<Rightarrow> (Some (header_only wire SERVFAIL), st)
                   | Some out \<Rightarrow> (if fits limit out then Some out else None, rejected st)))"

text \<open>The key is looked up once the record passed the first checks.\<close>

definition lookup_reached :: "dns_lib \<Rightarrow> octets \<Rightarrow> dns_msg \<Rightarrow> bool" where
  "lookup_reached lib wire msg \<longleftrightarrow>
     (case m_tsig msg of
        None \<Rightarrow> False
      | Some (_, rd) \<Rightarrow> td_error rd = 0 \<and> (case last_rr_header lib wire of None \<Rightarrow> False | Some (_, _, ttl) \<Rightarrow> ttl = 0))"

text \<open>Steps 5 and 6 after the parse: the result, the state with the caches used, and for a signed
  request the decision of the replay cache.\<close>

definition verify_step :: "handler_env \<Rightarrow> octets \<Rightarrow> dns_msg \<Rightarrow> handler_state \<Rightarrow> tsig_result \<times> handler_state" where
  "verify_step env wire msg st =
     (let lib = he_lib env; now = he_clock env 0 div seconds 1;
          st = (if lookup_reached lib wire msg then use_keys env (he_lookup env) st else st);
          replay = (case replay_key_of lib msg of None \<Rightarrow> False | Some k \<Rightarrow> live_entry (he_clock env 1) k (hs_replay st) \<noteq> None);
          (result, w) = verify_request lib wire msg (\<lambda>n. lookup_key lib n (snd (hs_keys st))) now replay (hs_watermark st);
          st = st\<lparr>hs_watermark := w\<rparr>
      in (result, case (tr_key result, replay_key_of lib msg) of
                    (Some _, Some k) \<Rightarrow> st\<lparr>hs_replay := drop_dead (he_clock env 1) k (hs_replay st)\<rparr>
                  | _ \<Rightarrow> st))"

definition handle_signed ::
    "handler_env \<Rightarrow> octets \<Rightarrow> dns_msg \<Rightarrow> bool \<Rightarrow> dns_resp \<Rightarrow> tsig_result \<Rightarrow> string \<Rightarrow> transport \<Rightarrow> replay_key \<Rightarrow>
     handler_state \<Rightarrow> octets option \<times> handler_state" where
  "handle_signed env wire msg is_update skeleton result peer tr k st =
     (case replay_get (he_clock env 2) k tr (hs_replay st) of
        (Some cached, c) \<Rightarrow> (Some (with_request_id cached wire), st\<lparr>hs_replay := c\<rparr>)
      | (None, c) \<Rightarrow>
          (case replay_begin k c of
             (False, c) \<Rightarrow> (None, st\<lparr>hs_replay := c\<rparr>)
           | (True, c) \<Rightarrow>
               (case (case replay_get (he_clock env 3) k tr c of
                        (Some cached, c) \<Rightarrow> (Some (with_request_id cached wire), st\<lparr>hs_replay := c\<rparr>)
                      | (None, c) \<Rightarrow>
                          (let (again, c') = (if tr_replayed result then (True, c) else replay_seen (he_clock env 4) k c)
                           in process env wire msg is_update skeleton result peer tr (Some k) again (st\<lparr>hs_replay := c'\<rparr>))) of
                  (out, st) \<Rightarrow> (out, st\<lparr>hs_replay := replay_end k (hs_replay st)\<rparr>))))"

definition too_many :: "octets \<Rightarrow> bool" where
  "too_many wire \<longleftrightarrow> MAX_QDCOUNT < unpack16 wire 4 \<or> MAX_ANCOUNT < unpack16 wire 6
     \<or> MAX_NSCOUNT < unpack16 wire 8 \<or> MAX_ARCOUNT < unpack16 wire 10"

definition handle :: "handler_env \<Rightarrow> octets \<Rightarrow> string \<Rightarrow> transport \<Rightarrow> handler_state \<Rightarrow> octets option \<times> handler_state" where
  "handle env wire peer tr st =
     (if length wire < 12 then (None, st)
      else (let flags = unpack16 wire 2; opcode = opcode_of flags; lib = he_lib env
            in if flags AND 0x8000 \<noteq> 0 then (None, st)
               else if MAX_MESSAGE_SIZE < int (length wire) then (None, st)
               else if opcode = OP_QUERY \<and> unpack16 wire 6 \<noteq> 0 then (None, st)
               else if too_many wire then (None, st)
               else if opcode \<noteq> OP_QUERY \<and> opcode \<noteq> OP_UPDATE then (Some (header_only wire NOTIMP), st)
               else (case dl_from_wire lib wire of
                  None \<Rightarrow> (Some (header_only wire FORMERR), st)
                | Some msg \<Rightarrow>
                    if \<not> same_in_signed_form lib wire msg then (Some (header_only wire FORMERR), st)
                    else (case verify_step env wire msg st of (result, st) \<Rightarrow>
                      if tr_outcome result = Tsig_Formerr then (Some (header_only wire FORMERR), st)
                      else (case skeleton_of lib (opcode = OP_UPDATE) msg of
                              None \<Rightarrow> (Some (header_only wire SERVFAIL), st)
                            | Some skeleton \<Rightarrow>
                                if tr_outcome result \<in> {Tsig_Badkey, Tsig_Badsig, Tsig_Badtime, Tsig_Badtrunc}
                                then tsig_error env wire msg skeleton result peer tr st
                                else (case (tr_outcome result, replay_key_of lib msg) of
                                        (Tsig_Ok, Some k) \<Rightarrow> handle_signed env wire msg (opcode = OP_UPDATE) skeleton result peer tr k st
                                      | _ \<Rightarrow> process env wire msg (opcode = OP_UPDATE) skeleton result peer tr None False st))))))"

end
