(* ===== verification/Dns_Update_Safety.thy ===== *)
theory Dns_Update_Safety
  imports Dns_Update
begin

text \<open>
  What the DNS UPDATE listener guarantees: only expected values are accepted, an answer to a request
  that proved no key is not longer than the request, and a copy of an answered request changes
  nothing.
\<close>

section \<open>The ways through a request\<close>

lemma handle_elim:
  assumes "handle env wire peer tr st = (out, st')"
  obtains (silent) "out = None" "st' = st"
  | (header) rc where "out = Some (header_only wire rc)" "st' = st" "12 \<le> length wire"
  | (formerr) msg result rc where "dl_from_wire (he_lib env) wire = Some msg" "verify_step env wire msg st = (result, st')"
      "out = Some (header_only wire rc)" "12 \<le> length wire"
  | (rejected) msg result st1 sk where "dl_from_wire (he_lib env) wire = Some msg" "verify_step env wire msg st = (result, st1)"
      "12 \<le> length wire" "tr_outcome result \<in> {Tsig_Badkey, Tsig_Badsig, Tsig_Badtime, Tsig_Badtrunc}"
      "tsig_error env wire msg sk result peer tr st1 = (out, st')"
  | (signed_request) msg result st1 sk k where "dl_from_wire (he_lib env) wire = Some msg" "verify_step env wire msg st = (result, st1)"
      "12 \<le> length wire" "tr_outcome result = Tsig_Ok" "replay_key_of (he_lib env) msg = Some k"
      "handle_signed env wire msg (opcode_of (unpack16 wire 2) = OP_UPDATE) sk result peer tr k st1 = (out, st')"
  | (unsigned_request) msg result st1 sk where "dl_from_wire (he_lib env) wire = Some msg" "verify_step env wire msg st = (result, st1)"
      "12 \<le> length wire" "tr_outcome result \<notin> {Tsig_Badkey, Tsig_Badsig, Tsig_Badtime, Tsig_Badtrunc}"
      "tr_outcome result = Tsig_Ok \<longrightarrow> replay_key_of (he_lib env) msg = None"
      "process env wire msg (opcode_of (unpack16 wire 2) = OP_UPDATE) sk result peer tr None False st1 = (out, st')"
proof -
  let ?lib = "he_lib env"
  consider "out = None" "st' = st" | rc where "out = Some (header_only wire rc)" "st' = st" "12 \<le> length wire"
    | msg where "dl_from_wire ?lib wire = Some msg" "12 \<le> length wire" "same_in_signed_form ?lib wire msg"
        "handle env wire peer tr st =
          (case verify_step env wire msg st of (result, st) \<Rightarrow>
             if tr_outcome result = Tsig_Formerr then (Some (header_only wire FORMERR), st)
             else (case skeleton_of ?lib (opcode_of (unpack16 wire 2) = OP_UPDATE) msg of
                     None \<Rightarrow> (Some (header_only wire SERVFAIL), st)
                   | Some skeleton \<Rightarrow>
                       if tr_outcome result \<in> {Tsig_Badkey, Tsig_Badsig, Tsig_Badtime, Tsig_Badtrunc}
                       then tsig_error env wire msg skeleton result peer tr st
                       else (case (tr_outcome result, replay_key_of ?lib msg) of
                               (Tsig_Ok, Some k) \<Rightarrow> handle_signed env wire msg (opcode_of (unpack16 wire 2) = OP_UPDATE) skeleton result peer tr k st
                             | _ \<Rightarrow> process env wire msg (opcode_of (unpack16 wire 2) = OP_UPDATE) skeleton result peer tr None False st)))"
    using assms unfolding handle_def Let_def
    by (cases "dl_from_wire ?lib wire") (auto split: if_splits simp: not_less)
  then show thesis
  proof cases
    case 3
    obtain result st1 where v: "verify_step env wire msg st = (result, st1)" by fastforce
    note eq = 3(4)[unfolded assms v prod.case]
    show thesis
    proof (cases "tr_outcome result = Tsig_Formerr")
      case True
      then show thesis using eq v 3(1,2) by (auto intro: formerr)
    next
      case False
      show thesis
      proof (cases "skeleton_of ?lib (opcode_of (unpack16 wire 2) = OP_UPDATE) msg")
        case None
        then show thesis using eq v 3(1,2) False by (auto intro: formerr)
      next
        case (Some sk)
        show thesis
        proof (cases "tr_outcome result \<in> {Tsig_Badkey, Tsig_Badsig, Tsig_Badtime, Tsig_Badtrunc}")
          case True
          then show thesis using eq v 3(1,2) False Some by (intro rejected[of msg result st1 sk]) auto
        next
          case other: False
          show thesis
          proof (cases "tr_outcome result = Tsig_Ok \<and> replay_key_of ?lib msg \<noteq> None")
            case True
            then show thesis using eq v 3(1,2) Some by (auto intro: signed_request)
          next
            case none: False
            have "process env wire msg (opcode_of (unpack16 wire 2) = OP_UPDATE) sk result peer tr None False st1 = (out, st')"
              using eq none other False Some
              by (cases "tr_outcome result"; cases "replay_key_of ?lib msg") auto
            moreover have "tr_outcome result = Tsig_Ok \<longrightarrow> replay_key_of ?lib msg = None" using none by blast
            ultimately show thesis by (intro unsigned_request[OF 3(1) v 3(2) other])
          qed
        qed
      qed
    qed
  qed (auto intro: silent header)
qed

lemma length_header_only [simp]: "length (header_only wire rc) = 12"
  by (simp add: header_only_def Let_def)

lemma verify_step_result:
  "fst (verify_step env wire msg st) =
     (let lib = he_lib env; st = (if lookup_reached lib wire msg then use_keys env (he_lookup env) st else st)
      in fst (verify_request lib wire msg (\<lambda>n. lookup_key lib n (snd (hs_keys st))) (he_clock env 0 div seconds 1)
                (case replay_key_of lib msg of None \<Rightarrow> False | Some k \<Rightarrow> live_entry (he_clock env 1) k (hs_replay st) \<noteq> None)
                (hs_watermark st)))"
  by (simp add: verify_step_def Let_def split_beta)

text \<open>A result with no key is unsigned, malformed, or has an unknown key or a bad MAC.\<close>

lemma verify_request_unproven:
  assumes "tr_key (fst (verify_request lib wire msg lookup now r w)) = None"
  shows "tr_outcome (fst (verify_request lib wire msg lookup now r w)) \<in> {Unsigned, Tsig_Formerr, Tsig_Badkey, Tsig_Badsig}"
proof (cases "m_tsig msg")
  case (Some od)
  obtain owner rd where od: "od = (owner, rd)" by fastforce
  have mac: "check_mac lib wire key owner rd s \<in> {Tsig_Ok, Tsig_Formerr, Tsig_Badkey, Tsig_Badsig}" for key s
    by (auto simp: check_mac_def split: validation.splits option.splits)
  show ?thesis
    using assms Some od mac
    by (cases "last_rr_header lib wire"; cases "lookup owner")
      (auto simp: verify_request_def Let_def split: if_splits prod.splits)
qed (simp add: verify_request_def)

lemma verify_step_unproven:
  assumes "verify_step env wire msg st = (result, st1)" "tr_key result = None"
  shows "tr_outcome result \<in> {Unsigned, Tsig_Formerr, Tsig_Badkey, Tsig_Badsig}"
  using verify_request_unproven verify_step_result[of env wire msg st] assms by (metis fst_conv)

lemma hs_replay_use [simp]:
  "hs_replay (use_keys env u st) = hs_replay st" "hs_replay (use_rows env st) = hs_replay st" "hs_replay (use_zones env st) = hs_replay st"
  "hs_replay (audit a st) = hs_replay st"
  by (auto simp: use_keys_def use_rows_def use_zones_def audit_def split: prod.splits)

text \<open>The key store a request is verified with, and whether the replay cache knows the request.\<close>

definition lookup_store :: "handler_env \<Rightarrow> octets \<Rightarrow> dns_msg \<Rightarrow> handler_state \<Rightarrow> key_store" where
  "lookup_store env wire msg st =
     snd (hs_keys (if lookup_reached (he_lib env) wire msg then use_keys env (he_lookup env) st else st))"

definition known_copy :: "handler_env \<Rightarrow> dns_msg \<Rightarrow> handler_state \<Rightarrow> bool" where
  "known_copy env msg st =
     (case replay_key_of (he_lib env) msg of None \<Rightarrow> False | Some k \<Rightarrow> live_entry (he_clock env 1) k (hs_replay st) \<noteq> None)"

lemma hs_watermark_use [simp]: "hs_watermark (use_keys env u st) = hs_watermark st"
  by (simp add: use_keys_def split: prod.splits)

lemma verify_step_request:
  "fst (verify_step env wire msg st) =
     fst (verify_request (he_lib env) wire msg (\<lambda>n. lookup_key (he_lib env) n (lookup_store env wire msg st))
       (he_clock env 0 div seconds 1) (known_copy env msg st) (hs_watermark st))"
  unfolding verify_step_result Let_def lookup_store_def known_copy_def
  by (cases "lookup_reached (he_lib env) wire msg"; cases "replay_key_of (he_lib env) msg") simp_all

lemma verify_step_ok:
  assumes "verify_step env wire msg st = (result, st1)" "tr_outcome result = Tsig_Ok"
  shows "\<exists>owner rd key. m_tsig msg = Some (owner, rd) \<and> tr_key result = Some key
     \<and> mac_proven (he_lib env) wire (\<lambda>n. lookup_key (he_lib env) n (lookup_store env wire msg st)) owner rd key
     \<and> (known_copy env msg st \<or> timely (he_lib env) (he_clock env 0 div seconds 1) (hs_watermark st) rd key)
     \<and> tr_replayed result = known_copy env msg st"
proof -
  let ?r = "fst (verify_request (he_lib env) wire msg (\<lambda>n. lookup_key (he_lib env) n (lookup_store env wire msg st))
       (he_clock env 0 div seconds 1) (known_copy env msg st) (hs_watermark st))"
  have r: "?r = result" using verify_step_request[of env wire msg st] assms(1) by simp
  with assms(2) have "tr_outcome ?r = Tsig_Ok" by simp
  from verify_request_key[OF this] obtain owner rd key where
    "m_tsig msg = Some (owner, rd)"
    "mac_proven (he_lib env) wire (\<lambda>n. lookup_key (he_lib env) n (lookup_store env wire msg st)) owner rd key"
    "known_copy env msg st \<or> timely (he_lib env) (he_clock env 0 div seconds 1) (hs_watermark st) rd key"
    "?r = \<lparr>tr_outcome = Tsig_Ok, tr_key = Some key, tr_keyname = Some owner, tr_rdata = Some rd,
          tr_request_mac = td_mac rd, tr_replayed = known_copy env msg st\<rparr>"
    by blast
  then show ?thesis unfolding r by (intro exI[of _ owner] exI[of _ rd] exI[of _ key]) simp
qed

section \<open>No amplification\<close>

lemma fits_unsigned_limit: "fits (unsigned_limit wire msg Udp) out \<Longrightarrow> length out \<le> length wire"
  by (simp add: fits_def unsigned_limit_def)

lemma render_unsigned_short:
  "render_unsigned lib resp (unsigned_limit wire msg Udp) = Some (Some out) \<Longrightarrow> length out \<le> length wire"
  by (auto simp: render_unsigned_def fits_unsigned_limit split: option.splits if_splits)

text \<open>C11: The listener does not amplify. Over UDP, the answer to a request whose MAC no key of the store
  proves is never longer than the request, whatever the library renders.\<close>

theorem unproven_answer_not_longer:
  assumes "handle env wire peer Udp st = (Some out, st')"
    and "\<And>msg. dl_from_wire (he_lib env) wire = Some msg \<Longrightarrow> tr_key (fst (verify_step env wire msg st)) = None"
  shows "length out \<le> length wire"
  using assms(1)
proof (cases rule: handle_elim)
  case (rejected msg result st1 sk)
  have "tr_outcome result \<in> {Unsigned, Tsig_Formerr, Tsig_Badkey, Tsig_Badsig}"
    using verify_step_unproven[OF rejected(2)] assms(2)[OF rejected(1)] rejected(2) by simp
  then have "tr_outcome result \<notin> {Tsig_Badtime, Tsig_Badtrunc}" by auto
  then show ?thesis
    using rejected(3,5)
    by (auto simp: tsig_error_def Let_def fits_unsigned_limit split: option.splits if_splits)
next
  case (signed_request msg result st1 sk k)
  have "tr_outcome result \<in> {Unsigned, Tsig_Formerr, Tsig_Badkey, Tsig_Badsig}"
    using verify_step_unproven[OF signed_request(2)] assms(2)[OF signed_request(1)] signed_request(2) by simp
  then show ?thesis using signed_request(4) by simp
next
  case (unsigned_request msg result st1 sk)
  have "tr_outcome result \<in> {Unsigned, Tsig_Formerr, Tsig_Badkey, Tsig_Badsig}"
    using verify_step_unproven[OF unsigned_request(2)] assms(2)[OF unsigned_request(1)] unsigned_request(2) by simp
  then have "tr_outcome result \<noteq> Tsig_Ok" by auto
  then show ?thesis
    using unsigned_request(3,6)
    by (auto simp: process_def process_failed_def render_answer_def Let_def
        split: option.splits prod.splits if_splits intro: render_unsigned_short)
qed auto

section \<open>What an update may change\<close>

text \<open>Answers and verification leave the tables and the audit alone; the caches are reloaded from the tables.\<close>

definition same_tables :: "handler_state \<Rightarrow> handler_state \<Rightarrow> bool" where
  "same_tables st st' \<longleftrightarrow> fst (hs_keys st') = fst (hs_keys st) \<and> fst (hs_rows st') = fst (hs_rows st)
     \<and> hs_orders st' = hs_orders st \<and> hs_domains st' = hs_domains st"

lemma same_tables_refl [simp]: "same_tables st st"
  by (simp add: same_tables_def)

lemma same_tables_trans: "same_tables a b \<Longrightarrow> same_tables b c \<Longrightarrow> same_tables a c"
  by (simp add: same_tables_def)

lemma same_tables_use [simp]:
  "same_tables st (use_keys env u st)" "same_tables st (use_rows env st)" "same_tables st (use_zones env st)"
  "same_tables st (st\<lparr>hs_replay := c\<rparr>)" "same_tables st (st\<lparr>hs_watermark := w\<rparr>)" "same_tables st (audit a st)"
  by (auto simp: same_tables_def use_keys_def use_rows_def use_zones_def audit_def split: prod.splits)

lemma hs_audit_use [simp]:
  "hs_audit (use_keys env u st) = hs_audit st" "hs_audit (use_rows env st) = hs_audit st" "hs_audit (use_zones env st) = hs_audit st"
  by (auto simp: use_keys_def use_rows_def use_zones_def split: prod.splits)

lemma query_answer_state:
  assumes "query_answer env msg resp result st = (r, st')"
  shows "same_tables st st'" "hs_audit st' = hs_audit st" "hs_replay st' = hs_replay st"
proof -
  have "st' \<in> {st, use_rows env st, use_keys env (he_scope env) (use_rows env st)}"
    using assms by (auto simp: query_answer_def Let_def split: list.splits if_splits prod.splits option.splits tsig_outcome.splits)
  moreover have "same_tables st (use_keys env (he_scope env) (use_rows env st))"
    by (rule same_tables_trans[OF same_tables_use(2) same_tables_use(1)])
  ultimately show "same_tables st st'" "hs_audit st' = hs_audit st" "hs_replay st' = hs_replay st" by auto
qed

text \<open>An update goes through the zone index, then perhaps through keys and rows.\<close>

definition before_update :: "handler_env \<Rightarrow> dns_rrset list \<Rightarrow> handler_state \<Rightarrow> handler_state" where
  "before_update env rs st = (if reaches_add rs then use_rows env (use_keys env (he_scope env) st) else st)"

lemma before_update_state:
  "same_tables st (before_update env rs st)" "hs_audit (before_update env rs st) = hs_audit st"
  "hs_replay (before_update env rs st) = hs_replay st"
  using same_tables_trans[OF same_tables_use(1) same_tables_use(2)] by (auto simp: before_update_def)

lemma update_answer_state:
  assumes "update_answer env wire msg resp result st = (r, st')"
  shows "\<exists>s \<in> {st, use_zones env st}. st' \<in> {s, before_update env (m_update msg) s}"
  using assms
  by (auto simp: update_answer_def Let_def before_update_def[symmetric] split: list.splits if_splits prod.splits option.splits
      tsig_outcome.splits sum.splits prescan.splits)

lemma update_answer_keeps:
  assumes "update_answer env wire msg resp result st = (r, st')"
  shows "same_tables st st'" "hs_audit st' = hs_audit st" "hs_replay st' = hs_replay st"
  using update_answer_state[OF assms] by (auto simp: before_update_state intro: same_tables_trans[OF same_tables_use(3) before_update_state(1)])

text \<open>An accepted update was authorised with the scope of the key and the snapshot it ends with.\<close>

lemma update_answer_accepted:
  assumes "update_answer env wire msg resp result st = (Some (r, Accepted z ns a d ids), st')"
  shows "\<exists>key js. tr_outcome result = Tsig_Ok \<and> tr_key result = Some key
     \<and> authorize (he_lib env) (key_scope_of (tk_id key) (snd (hs_keys st'))) (snapshot_of st') (m_update msg) = Inr js
     \<and> set ids = set js"
  using assms
  by (auto simp: update_answer_def refuse_def Let_def split: list.splits if_splits prod.splits option.splits
      tsig_outcome.splits sum.splits prescan.splits)

definition accepted_calls :: "handler_state \<Rightarrow> audit_call list" where
  "accepted_calls st = filter (\<lambda>c. ac_action c = ''acme.dns_update.accepted'') (hs_audit st)"

lemma accepted_after:
  "accepted_calls (after_answer env peer result event st) \<noteq> accepted_calls st \<Longrightarrow> \<exists>z ns a d ids. event = Accepted z ns a d ids"
  by (cases event; cases "tr_key result") (auto simp: after_answer_def accepted_calls_def audit_def Let_def split: prod.splits)

lemma process_elim:
  assumes "process env wire msg u sk result peer tr rk suppress st = (out, st')"
  obtains (failed) answer where "answer_request env wire msg u sk result st = (answer, st')" "out = process_failed env wire msg u result tr"
  | (answered) resp event st2 where "answer_request env wire msg u sk result st = (Some (resp, event), st2)"
      "render_answer env wire msg result tr resp = Some out"
      "st' = (if suppress then store_answer env tr rk out st2 else after_answer env peer result event (store_answer env tr rk out st2))"
proof -
  obtain answer st2 where a: "answer_request env wire msg u sk result st = (answer, st2)" by fastforce
  show thesis
  proof (cases answer)
    case None
    then show thesis using assms a by (intro failed) (auto simp: process_def)
  next
    case (Some re)
    obtain resp event where re: "re = (resp, event)" by fastforce
    show thesis
    proof (cases "render_answer env wire msg result tr resp")
      case None
      then show thesis using assms a Some re by (intro failed) (auto simp: process_def)
    next
      case out: (Some o')
      then show thesis using assms a Some re by (intro answered[of resp event st2]) (auto simp: process_def Let_def)
    qed
  qed
qed

lemma answer_request_keeps:
  assumes "answer_request env wire msg u sk result st = (answer, st')"
  shows "same_tables st st'" "hs_audit st' = hs_audit st" "hs_replay st' = hs_replay st"
proof -
  consider "st' = st" | "u" "update_answer env wire msg sk result st = (answer, st')"
    | r where "query_answer env msg sk result st = (r, st')"
    using assms by (auto simp: answer_request_def split: if_splits prod.splits)
  then show "same_tables st st'" "hs_audit st' = hs_audit st" "hs_replay st' = hs_replay st"
    by (cases; simp add: query_answer_state update_answer_keeps)+
qed

lemma store_answer_keeps [simp]: "same_tables st (store_answer env tr rk out st)" "hs_audit (store_answer env tr rk out st) = hs_audit st"
  by (auto simp: store_answer_def split: option.splits)

lemma process_accepted:
  assumes "process env wire msg u sk result peer tr rk suppress st = (out, st')" "accepted_calls st' \<noteq> accepted_calls st"
  shows "\<not> suppress \<and> (\<exists>r z ns a d ids st2. update_answer env wire msg sk result st = (Some (r, Accepted z ns a d ids), st2))"
  using assms(1)
proof (cases rule: process_elim)
  case (failed answer)
  then show ?thesis using assms(2) answer_request_keeps(2)[OF failed(1)] by (simp add: accepted_calls_def)
next
  case (answered resp event st2)
  let ?s = "store_answer env tr rk out st2"
  have s: "accepted_calls ?s = accepted_calls st"
    using answer_request_keeps(2)[OF answered(1)] by (simp add: accepted_calls_def)
  then have "\<not> suppress" "accepted_calls (after_answer env peer result event ?s) \<noteq> accepted_calls ?s"
    using assms(2) answered(3) by (cases suppress; simp)+
  with accepted_after obtain z ns a d ids where "event = Accepted z ns a d ids" by blast
  with answered(1) \<open>\<not> suppress\<close> show ?thesis by (auto simp: answer_request_def split: if_splits prod.splits)
qed

lemma handle_signed_elim:
  assumes "handle_signed env wire msg u sk result peer tr k st = (out, st')"
  obtains (cached) v c1 where "replay_get (he_clock env 2) k tr (hs_replay st) = (Some v, c1)" "st' = st\<lparr>hs_replay := c1\<rparr>"
  | (in_flight) c1 where "replay_get (he_clock env 2) k tr (hs_replay st) = (None, c1)" "st' = st\<lparr>hs_replay := c1\<rparr>"
  | (cached_later) c1 c2 v c3 where "replay_get (he_clock env 2) k tr (hs_replay st) = (None, c1)" "replay_begin k c1 = (True, c2)"
      "replay_get (he_clock env 3) k tr c2 = (Some v, c3)" "st' = st\<lparr>hs_replay := replay_end k c3\<rparr>"
  | (processed) c1 c2 c3 again c4 st2 where "replay_get (he_clock env 2) k tr (hs_replay st) = (None, c1)" "replay_begin k c1 = (True, c2)"
      "replay_get (he_clock env 3) k tr c2 = (None, c3)"
      "(if tr_replayed result then (True, c3) else replay_seen (he_clock env 4) k c3) = (again, c4)"
      "process env wire msg u sk result peer tr (Some k) again (st\<lparr>hs_replay := c4\<rparr>) = (out, st2)"
      "st' = st2\<lparr>hs_replay := replay_end k (hs_replay st2)\<rparr>"
proof -
  obtain v1 c1 where g1: "replay_get (he_clock env 2) k tr (hs_replay st) = (v1, c1)" by fastforce
  obtain b c2 where b: "replay_begin k c1 = (b, c2)" by fastforce
  obtain v2 c3 where g2: "replay_get (he_clock env 3) k tr c2 = (v2, c3)" by fastforce
  obtain again c4 where s: "(if tr_replayed result then (True, c3) else replay_seen (he_clock env 4) k c3) = (again, c4)" by fastforce
  obtain o' st2 where p: "process env wire msg u sk result peer tr (Some k) again (st\<lparr>hs_replay := c4\<rparr>) = (o', st2)" by fastforce
  note eq = assms[unfolded handle_signed_def g1 b g2 s p Let_def prod.case]
  show thesis
  proof (cases v1)
    case (Some v)
    then show thesis using g1 eq by (auto intro: cached)
  next
    case None
    show thesis
    proof (cases b)
      case False
      then have "c2 = c1" using b by (auto simp: replay_begin_def split: if_splits)
      with False None g1 show thesis using eq b by (intro in_flight[of c1]) auto
    next
      case True
      show thesis
      proof (cases v2)
        case (Some v)
        then show thesis using None True g1 b g2 eq by (intro cached_later[of c1 c2 v c3]) auto
      next
        case none: None
        have "out = o'" "st' = st2\<lparr>hs_replay := replay_end k (hs_replay st2)\<rparr>"
          using eq None True none b g2 s p by (auto split: prod.splits)
        with processed[of c1 c2 c3 again c4 st2] None True none g1 b g2 s p show thesis by simp
      qed
    qed
  qed
qed

lemma verify_step_keeps:
  assumes "verify_step env wire msg st = (result, st')"
  shows "same_tables st st'" "hs_audit st' = hs_audit st"
proof -
  have "\<exists>s w c. st' \<in> {s\<lparr>hs_watermark := w\<rparr>, s\<lparr>hs_watermark := w, hs_replay := c\<rparr>} \<and> s \<in> {st, use_keys env (he_lookup env) st}"
    using assms by (auto simp: verify_step_def Let_def split: prod.splits option.splits if_splits)
  then show "same_tables st st'" "hs_audit st' = hs_audit st"
    by (auto simp: same_tables_def use_keys_def split: prod.splits)
qed

lemma accepted_calls_audit:
  "ac_action c \<noteq> ''acme.dns_update.accepted'' \<Longrightarrow> accepted_calls (audit c st) = accepted_calls st"
  by (simp add: accepted_calls_def audit_def)

text \<open>A request that is accepted passed the verification, was not a known copy, and its update was accepted.\<close>

lemma handle_accepted:
  assumes "handle env wire peer tr st = (out, st')" "accepted_calls st' \<noteq> accepted_calls st"
  shows "\<exists>msg result st1 sk c r z ns a d ids st2. dl_from_wire (he_lib env) wire = Some msg
     \<and> verify_step env wire msg st = (result, st1) \<and> \<not> tr_replayed result
     \<and> update_answer env wire msg sk result (st1\<lparr>hs_replay := c\<rparr>) = (Some (r, Accepted z ns a d ids), st2)"
  using assms(1)
proof (cases rule: handle_elim)
  case (rejected msg result st1 sk)
  have "accepted_calls st1 = accepted_calls st" using verify_step_keeps(2)[OF rejected(2)] by (simp add: accepted_calls_def)
  then have "accepted_calls st' = accepted_calls st"
    using rejected(5) by (auto simp: tsig_error_def Let_def accepted_calls_audit split: option.splits if_splits)
  then show ?thesis using assms(2) by simp
next
  case (formerr msg result rc)
  then show ?thesis using assms(2) verify_step_keeps(2)[OF formerr(2)] by (simp add: accepted_calls_def)
next
  case (unsigned_request msg result st1 sk)
  have st1: "accepted_calls st1 = accepted_calls st" using verify_step_keeps(2)[OF unsigned_request(2)] by (simp add: accepted_calls_def)
  from process_accepted[OF unsigned_request(6)] assms(2) st1
  obtain r z ns a d ids st2 where u: "update_answer env wire msg sk result st1 = (Some (r, Accepted z ns a d ids), st2)" by metis
  have "tr_outcome result = Tsig_Ok" using update_answer_accepted[OF u] by blast
  then show ?thesis using unsigned_request(5) verify_step_ok[OF unsigned_request(2)] by (auto simp: replay_key_of_def)
next
  case (signed_request msg result st1 sk k)
  have st1: "accepted_calls (st1\<lparr>hs_replay := c\<rparr>) = accepted_calls st" for c
    using verify_step_keeps(2)[OF signed_request(2)] by (simp add: accepted_calls_def)
  show ?thesis
    using signed_request(6)
  proof (cases rule: handle_signed_elim)
    case (processed c1 c2 c3 again c4 st2)
    have "accepted_calls st2 \<noteq> accepted_calls (st1\<lparr>hs_replay := c4\<rparr>)"
      using assms(2) st1 processed(6) by (simp add: accepted_calls_def)
    moreover have "tr_replayed result \<longrightarrow> again" using processed(4) by (auto split: if_splits)
    ultimately show ?thesis using process_accepted[OF processed(5)] signed_request(1,2) by blast
  qed (use st1 assms(2) in auto)
qed (use assms(2) in auto)


section \<open>Only expected values are accepted\<close>

text \<open>The databases the caches were loaded from: \<open>Ks\<close> for the keys, \<open>Rs\<close> (with the time of the load) for the
  rows.\<close>

definition cached_from ::
    "handler_env \<Rightarrow> key_db set \<Rightarrow> (datetime \<times> client_order list \<times> dns_challenge_row list) set \<Rightarrow> handler_state \<Rightarrow> bool" where
  "cached_from env Ks Rs st \<longleftrightarrow>
     ks_tables (snd (hs_keys st)) \<in> insert ([], []) (load_keys (he_lib env) (he_secrets env) ` Ks)
     \<and> snapshot_of st \<in> insert empty_snapshot ((\<lambda>(now, orders, rows). load_rows now orders rows) ` Rs)"

definition loads_now :: "handler_env \<Rightarrow> key_db set \<Rightarrow> (datetime \<times> client_order list \<times> dns_challenge_row list) set \<Rightarrow> handler_state \<Rightarrow> bool" where
  "loads_now env Ks Rs st \<longleftrightarrow> fst (hs_keys st) \<in> Ks \<and> (fst (snd (he_snapshot env)), hs_orders st, fst (hs_rows st)) \<in> Rs"

lemma loads_now_same: "same_tables st st' \<Longrightarrow> loads_now env Ks Rs st' = loads_now env Ks Rs st"
  by (simp add: same_tables_def loads_now_def)

lemma cached_use_keys: "cached_from env Ks Rs st \<Longrightarrow> loads_now env Ks Rs st \<Longrightarrow> cached_from env Ks Rs (use_keys env u st)"
  using key_cache.shown_refresh[of "fst u" "if snd u then Some (load_keys (he_lib env) (he_secrets env) (fst (hs_keys st))) else None" "snd (hs_keys st)"]
  by (auto simp: cached_from_def loads_now_def use_keys_def snapshot_of_def split: prod.splits if_splits)

lemma cached_use_rows: "cached_from env Ks Rs st \<Longrightarrow> loads_now env Ks Rs st \<Longrightarrow> cached_from env Ks Rs (use_rows env st)"
  using rows_cache.shown_refresh[of "fst (he_snapshot env)"
      "if snd (snd (he_snapshot env)) then Some (load_rows (fst (snd (he_snapshot env))) (hs_orders st) (fst (hs_rows st))) else None" "snd (hs_rows st)"]
  by (cases "he_snapshot env"; cases "hs_rows st")
    (auto simp: cached_from_def loads_now_def use_rows_def snapshot_of_def split: prod.splits if_splits intro: rev_image_eqI)

lemma cached_use_zones: "cached_from env Ks Rs (use_zones env st) = cached_from env Ks Rs st"
  by (simp add: cached_from_def use_zones_def snapshot_of_def)

lemma cached_update_replay [simp]:
  "cached_from env Ks Rs (st\<lparr>hs_replay := c\<rparr>) = cached_from env Ks Rs st"
  "cached_from env Ks Rs (st\<lparr>hs_watermark := w\<rparr>) = cached_from env Ks Rs st"
  by (simp_all add: cached_from_def snapshot_of_def)

lemma cached_update_answer:
  assumes "update_answer env wire msg resp result st = (r, st')" "cached_from env Ks Rs st" "loads_now env Ks Rs st"
  shows "cached_from env Ks Rs st'"
proof -
  have before: "cached_from env Ks Rs (before_update env rs s)" if "cached_from env Ks Rs s" "loads_now env Ks Rs s" for s rs
    using cached_use_rows[OF cached_use_keys[OF that], of "he_scope env"] that
    by (simp add: before_update_def loads_now_same[OF same_tables_use(1)])
  have "cached_from env Ks Rs (use_zones env st)" "loads_now env Ks Rs (use_zones env st)"
    using assms(2,3) by (simp_all add: cached_use_zones loads_now_same[OF same_tables_use(3)])
  with before assms(2,3) update_answer_state[OF assms(1)] show ?thesis by auto
qed

lemma cached_verify_step:
  assumes "verify_step env wire msg st = (result, st')" "cached_from env Ks Rs st" "loads_now env Ks Rs st"
  shows "cached_from env Ks Rs st'"
proof -
  have "\<exists>s w c. st' \<in> {s\<lparr>hs_watermark := w\<rparr>, s\<lparr>hs_watermark := w, hs_replay := c\<rparr>} \<and> s \<in> {st, use_keys env (he_lookup env) st}"
    using assms(1) by (auto simp: verify_step_def Let_def split: prod.splits option.splits if_splits)
  then show ?thesis using assms(2) cached_use_keys[OF assms(2,3), of "he_lookup env"] by auto
qed

lemma match_values_sound:
  "match_values cands rds = Some ids \<Longrightarrow> rd \<in> set rds \<Longrightarrow> \<exists>a \<in> set cands. txt_value rd = Some (ar_txt a)"
proof (induction rds arbitrary: ids)
  case (Cons x rds)
  let ?m = "map ar_row (filter (\<lambda>r. txt_value x \<noteq> None \<and> txt_value x = Some (ar_txt r)) cands)"
  have "?m \<noteq> []" "\<exists>js. match_values cands rds = Some js"
    using Cons.prems(1) by (auto simp: Let_def split: if_splits)
  then show ?case
    using Cons.IH Cons.prems(2) by (cases "rd = x") (fastforce simp: filter_empty_conv, auto)
qed simp

lemma authorize_sound:
  assumes "authorize lib scope snap rs = Inr ids" "r \<in> set rs"
  shows "change_allowed r" "rr_deleting r = None \<Longrightarrow> rd \<in> set (rr_txts r) \<Longrightarrow>
    \<exists>sc. scope = Some sc \<and> (\<exists>a \<in> set (rows_at snap (lower_text lib (rr_name r))).
       scope_allows sc (ar_client_account a) (ar_account a) \<and> txt_value rd = Some (ar_txt a))"
proof -
  have "change_allowed r \<and> (rr_deleting r = None \<longrightarrow> rd \<in> set (rr_txts r) \<longrightarrow>
    (\<exists>sc. scope = Some sc \<and> (\<exists>a \<in> set (rows_at snap (lower_text lib (rr_name r))).
       scope_allows sc (ar_client_account a) (ar_account a) \<and> txt_value rd = Some (ar_txt a))))"
    using assms
  proof (induction rs arbitrary: ids)
    case (Cons x rs)
    show ?case
    proof (cases "r = x \<and> rr_deleting x = None")
      case True
      let ?c = "filter (\<lambda>a. case scope of None \<Rightarrow> False | Some sc \<Rightarrow> scope_allows sc (ar_client_account a) (ar_account a))
          (rows_at snap (lower_text lib (rr_name x)))"
      have "change_allowed x" "?c \<noteq> []" "\<exists>js. match_values ?c (rr_txts x) = Some js"
        using Cons.prems(1) True by (auto simp: Let_def split: if_splits option.splits)
      moreover from this(2) have "scope \<noteq> None" by (cases scope) auto
      ultimately show ?thesis using True match_values_sound[of ?c "rr_txts x" _ rd] by fastforce
    next
      case False
      show ?thesis
      proof (cases "r = x")
        case True
        then show ?thesis using False Cons.prems(1) by (auto split: if_splits)
      next
        case neq: False
        moreover have "\<exists>js. authorize lib scope snap rs = Inr js"
          using Cons.prems(1) by (auto simp: Let_def split: if_splits option.splits sum.splits)
        ultimately show ?thesis using Cons by auto
      qed
    qed
  qed simp
  then show "change_allowed r" "rr_deleting r = None \<Longrightarrow> rd \<in> set (rr_txts r) \<Longrightarrow>
    \<exists>sc. scope = Some sc \<and> (\<exists>a \<in> set (rows_at snap (lower_text lib (rr_name r))).
       scope_allows sc (ar_client_account a) (ar_account a) \<and> txt_value rd = Some (ar_txt a))" by auto
qed

text \<open>A row that a loaded key with that id may change.\<close>

definition row_of_key :: "key_db \<Rightarrow> dns_key_row \<Rightarrow> dns_challenge_row \<Rightarrow> bool" where
  "row_of_key db k row \<longleftrightarrow> dc_client_account row = Some (dk_account k)
     \<and> (dk_eab_bound k \<or> dk_eab k \<noteq> None \<longrightarrow> dc_account row \<noteq> None \<and> dc_account row = bound_account db k)"

lemma scope_allows_row:
  "scope_allows (scope_of_row db k) (dc_client_account row) (dc_account row) \<Longrightarrow> row_of_key db k row"
  by (auto simp: scope_allows_def scope_of_row_def row_of_key_def Let_def split: option.splits if_splits)

lemma authorized_value:
  assumes "cached_from env Ks Rs st"
    and "authorize (he_lib env) (key_scope_of i (snd (hs_keys st))) (snapshot_of st) rs = Inr ids"
    and "r \<in> set rs" "rr_deleting r = None" "rd \<in> set (rr_txts r)"
  shows "\<exists>db k now orders rows row. db \<in> Ks \<and> loadable (he_lib env) (he_secrets env) db k \<and> dk_id k = i
    \<and> (now, orders, rows) \<in> Rs \<and> row \<in> set rows \<and> is_active_row now orders row \<and> row_of_key db k row
    \<and> dc_record_name row = lower_text (he_lib env) (rr_name r) \<and> txt_value rd = Some (dc_txt row)"
proof -
  let ?n = "lower_text (he_lib env) (rr_name r)"
  obtain sc a where sc: "key_scope_of i (snd (hs_keys st)) = Some sc" and a: "a \<in> set (rows_at (snapshot_of st) ?n)"
      "scope_allows sc (ar_client_account a) (ar_account a)" "txt_value rd = Some (ar_txt a)"
    using authorize_sound(2)[OF assms(2-5)] by blast
  from sc assms(1) obtain db where db: "db \<in> Ks" "map_of (snd (load_keys (he_lib env) (he_secrets env) db)) i = Some sc"
    by (auto simp: cached_from_def key_scope_of_def)
  from load_keys_scope[OF db(2)] obtain k where k: "loadable (he_lib env) (he_secrets env) db k" "dk_id k = i" "sc = scope_of_row db k"
    by blast
  from a(1) assms(1) obtain now orders rows where rs: "(now, orders, rows) \<in> Rs" "snapshot_of st = load_rows now orders rows"
    by (auto simp: cached_from_def)
  from a(1)[unfolded rs(2) rows_at_load] obtain row where
    row: "row \<in> set rows" "is_active_row now orders row" "dc_record_name row = ?n" "a = active_of row" by auto
  have "row_of_key db k row" using a(2) k(3) row(4) scope_allows_row by (simp add: active_of_def)
  moreover have "txt_value rd = Some (dc_txt row)" using a(3) row(4) by (simp add: active_of_def)
  ultimately show ?thesis using db(1) k(1,2) rs(1) row(1-3) by blast
qed

text \<open>C10: Only expected values are accepted. When a request is recorded as accepted, its TSIG was proved with a
  key of the store and was timely, it changes only names under \<open>_acme-challenge\<close>, and each TXT value it
  adds is the value of a pending, unexpired row of a pending order that belongs to the account of that
  key (and, for a key bound to a credential, to the client that used the credential), in the tables as
  they are or as one of the two caches last loaded them.\<close>

theorem accepted_update_is_expected:
  assumes "handle env wire peer tr st = (out, st')" "accepted_calls st' \<noteq> accepted_calls st"
    and "cached_from env Ks Rs st" "loads_now env Ks Rs st"
  shows "\<exists>msg owner rd key. dl_from_wire (he_lib env) wire = Some msg \<and> m_tsig msg = Some (owner, rd)
    \<and> mac_proven (he_lib env) wire (\<lambda>n. lookup_key (he_lib env) n (lookup_store env wire msg st)) owner rd key
    \<and> timely (he_lib env) (he_clock env 0 div seconds 1) (hs_watermark st) rd key
    \<and> (\<forall>r \<in> set (m_update msg). change_allowed r \<and> (rr_deleting r = None \<longrightarrow> (\<forall>v \<in> set (rr_txts r).
        \<exists>db k now orders rows row. db \<in> Ks \<and> loadable (he_lib env) (he_secrets env) db k \<and> dk_id k = tk_id key
          \<and> (now, orders, rows) \<in> Rs \<and> row \<in> set rows \<and> is_active_row now orders row \<and> row_of_key db k row
          \<and> dc_record_name row = lower_text (he_lib env) (rr_name r) \<and> txt_value v = Some (dc_txt row))))"
proof -
  obtain msg result st1 sk c r z ns a d ids st2 where
    msg: "dl_from_wire (he_lib env) wire = Some msg" and v: "verify_step env wire msg st = (result, st1)" "\<not> tr_replayed result"
    and u: "update_answer env wire msg sk result (st1\<lparr>hs_replay := c\<rparr>) = (Some (r, Accepted z ns a d ids), st2)"
    using handle_accepted[OF assms(1,2)] by blast
  from update_answer_accepted[OF u] obtain key js where key: "tr_outcome result = Tsig_Ok" "tr_key result = Some key"
    and auth: "authorize (he_lib env) (key_scope_of (tk_id key) (snd (hs_keys st2))) (snapshot_of st2) (m_update msg) = Inr js"
    by blast
  from verify_step_ok[OF v(1) key(1)] v(2) key(2) obtain owner rd where
    ok: "m_tsig msg = Some (owner, rd)"
      "mac_proven (he_lib env) wire (\<lambda>n. lookup_key (he_lib env) n (lookup_store env wire msg st)) owner rd key"
      "timely (he_lib env) (he_clock env 0 div seconds 1) (hs_watermark st) rd key"
    by auto
  have "cached_from env Ks Rs (st1\<lparr>hs_replay := c\<rparr>)" using cached_verify_step[OF v(1) assms(3,4)] by simp
  moreover have "loads_now env Ks Rs (st1\<lparr>hs_replay := c\<rparr>)"
    using assms(4) loads_now_same[OF verify_step_keeps(1)[OF v(1)], of env Ks Rs]
      loads_now_same[OF same_tables_use(4)] by simp
  ultimately have cached: "cached_from env Ks Rs st2" by (rule cached_update_answer[OF u])
  show ?thesis
    using msg ok authorize_sound(1)[OF auth] authorized_value[OF cached auth]
    by (intro exI[of _ msg] exI[of _ owner] exI[of _ rd] exI[of _ key]) blast
qed

section \<open>A concrete exchange\<close>

text \<open>A library that reads no octets for a name and any data, always finds the MAC valid, and parses every
  message as one signed update that adds one TXT record.\<close>

definition challenge_name :: dns_name where "challenge_name = [''_acme-challenge'', ''a'', ''lan'', []]"

definition update_msg :: dns_msg where
  "update_msg = \<lparr>m_id = 0,
     m_question = [\<lparr>rr_name = [''a'', ''lan'', []], rr_class = 1, rr_type = 6, rr_deleting = None, rr_txts = []\<rparr>],
     m_prerequisite = [],
     m_update = [\<lparr>rr_name = challenge_name, rr_class = 1, rr_type = 16, rr_deleting = None, rr_txts = [[[65]]]\<rparr>],
     m_tsig = Some ([''k'', ''lan'', []], \<lparr>td_algorithm = [''hmac-sha256'', []], td_time_signed = 300, td_fudge = 300,
                     td_mac = replicate 32 0, td_original_id = 0, td_error = 0, td_other = []\<rparr>),
     m_edns = -1, m_payload = 0\<rparr>"

definition update_dns :: dns_lib where
  "update_dns = plain_dns\<lparr>dl_from_wire := (\<lambda>_. Some update_msg), dl_read_name := (\<lambda>_ p. Some (challenge_name, p)),
     dl_get_bytes := (\<lambda>w p n. if p + n \<le> length w then Some (take n (drop p w), p + n) else None),
     dl_validate := (\<lambda>_ _ _ _ _ _ _. Mac_Valid), dl_sign := (\<lambda>_ _ rd _ _. Some rd), dl_tsig_wire := (\<lambda>_ _. Some (1, [1, 2, 3])),
     dl_make_response := (\<lambda>m. Some \<lparr>rs_id = m_id m, rs_rcode = 0, rs_aa = False, rs_tc = False, rs_question = [], rs_answer = [],
                               rs_authority = [], rs_additional = []\<rparr>),
     dl_to_wire := (\<lambda>_ _. Some (replicate 12 0))\<rparr>"

definition update_wire :: octets where
  "update_wire = [0, 0, 0x28, 0, 0, 1, 0, 0, 0, 1, 0, 1] @ [0, 6, 0, 1] @ [0, 16, 0, 1, 0, 0, 0, 0, 0, 0]
     @ [0, 250, 0, 255, 0, 0, 0, 0, 0, 0]"

definition update_env :: "int \<Rightarrow> handler_env" where
  "update_env t = \<lparr>he_lib = update_dns, he_secrets = plain_secrets, he_clock = (\<lambda>_. t), he_lookup = (t, True), he_scope = (t, True),
     he_zone = (t, True), he_snapshot = ((t, t), t, True), he_mark_ok = True, he_touch = (t, True)\<rparr>"

definition waiting_site :: handler_state where
  "waiting_site = \<lparr>hs_keys = keyed_site,
     hs_rows = ([\<lparr>dc_id = 7, dc_order = 1, dc_client_account = Some 1, dc_account = None, dc_thumbprint = ''t'', dc_identifier = ''a.lan'',
                  dc_record_name = ''_acme-challenge.a.lan.'', dc_txt = ''A'', dc_zone = ''a.lan.'', dc_url = None,
                  dc_status = Row_Pending, dc_created = 0, dc_expires = hours 1, dc_confirmed = None\<rparr>], new_row_cache),
     hs_orders = [\<lparr>co_id = 1, co_status = ''pending'', co_client_account = Some 1, co_account = None, co_thumbprint = Some ''t''\<rparr>],
     hs_domains = [\<lparr>ad_domain = ''a.lan'', ad_issuing_ca_id = None, ad_is_wildcard_allowed = None, ad_auto_approve = None\<rparr>],
     hs_zones = new_zone_index, hs_watermark = [], hs_replay = new_replay_cache, hs_audit = []\<rparr>"

lemma waiting_site_accepts:
  "map ac_action (hs_audit (snd (handle (update_env 0) update_wire ''peer'' Udp waiting_site))) = [''acme.dns_update.accepted'']"
  by code_simp

text \<open>The same request without its signature.\<close>

definition unsigned_env :: handler_env where
  "unsigned_env = (update_env 0)\<lparr>he_lib := update_dns\<lparr>dl_from_wire := (\<lambda>_. Some (update_msg\<lparr>m_tsig := None\<rparr>))\<rparr>\<rparr>"

lemma unproven_answer_not_longer_witness:
  "length (the (fst (handle unsigned_env update_wire ''peer'' Udp waiting_site))) \<le> length update_wire"
proof -
  have "fst (handle unsigned_env update_wire ''peer'' Udp waiting_site) = Some (replicate 12 0)" by code_simp
  then obtain st' where "handle unsigned_env update_wire ''peer'' Udp waiting_site = (Some (replicate 12 0), st')"
    by (metis prod.collapse)
  moreover have "dl_from_wire (he_lib unsigned_env) update_wire = Some (update_msg\<lparr>m_tsig := None\<rparr>)" by code_simp
  moreover have "tr_key (fst (verify_step unsigned_env update_wire (update_msg\<lparr>m_tsig := None\<rparr>) waiting_site)) = None" by code_simp
  ultimately show ?thesis
    using unproven_answer_not_longer[of unsigned_env update_wire "''peer''" waiting_site "replicate 12 0" st'] by simp
qed

lemma waiting_site_cached:
  "cached_from (update_env 0) {fst keyed_site} {(0, hs_orders waiting_site, fst (hs_rows waiting_site))} waiting_site"
  "loads_now (update_env 0) {fst keyed_site} {(0, hs_orders waiting_site, fst (hs_rows waiting_site))} waiting_site"
proof -
  have "ks_tables (snd keyed_site) = ([], [])" by code_simp
  then show "cached_from (update_env 0) {fst keyed_site} {(0, hs_orders waiting_site, fst (hs_rows waiting_site))} waiting_site"
    by (simp add: cached_from_def waiting_site_def snapshot_of_def new_row_cache_def)
  show "loads_now (update_env 0) {fst keyed_site} {(0, hs_orders waiting_site, fst (hs_rows waiting_site))} waiting_site"
    by (simp add: loads_now_def waiting_site_def update_env_def)
qed

lemma accepted_update_is_expected_witness:
  "\<exists>owner rd key. m_tsig update_msg = Some (owner, rd) \<and> timely update_dns 0 [] rd key"
proof -
  obtain out st' where h: "handle (update_env 0) update_wire ''peer'' Udp waiting_site = (out, st')" by fastforce
  have "hs_audit waiting_site = []" by (simp add: waiting_site_def)
  then have "accepted_calls st' \<noteq> accepted_calls waiting_site"
    using waiting_site_accepts h by (auto simp: accepted_calls_def filter_empty_conv)
  from accepted_update_is_expected[OF h this waiting_site_cached] show ?thesis
    by (auto simp: update_env_def update_dns_def waiting_site_def)
qed

end
