(* ===== verification/Dns_Replay.thy ===== *)
theory Dns_Replay
  imports Dns_Update_Safety
begin

text \<open>
  Copies of a request to the DNS UPDATE listener. The replay cache keeps an answered request for ten
  minutes unless more than four thousand other requests come between, and a request is refused as too
  old five minutes after its time; together they keep a copy from being accepted a second time.
\<close>

section \<open>An entry of the cache\<close>

text \<open>The cache holds the request \<open>k\<close>, answered at \<open>t0\<close>; the requests used after it are among \<open>S\<close>.\<close>

definition held :: "replay_key \<Rightarrow> int \<Rightarrow> replay_key set \<Rightarrow> replay_cache \<Rightarrow> bool" where
  "held k t0 S c \<longleftrightarrow> (\<exists>vs. young k (t0, vs) S (rp_items c))"

lemma held_live: "held k t0 S c \<Longrightarrow> t - t0 < REPLAY_TTL \<Longrightarrow> live_entry t k c \<noteq> None"
  by (auto simp: held_def live_entry_def dest!: young_map_of)

lemma held_mono: "held k t0 S c \<Longrightarrow> S \<subseteq> T \<Longrightarrow> held k t0 T c"
  by (auto simp: held_def intro: young_mono)

lemma held_items: "rp_items c' = rp_items c \<Longrightarrow> held k t0 S c' = held k t0 S c"
  by (simp add: held_def)

lemma held_drop_dead:
  assumes "held k t0 S c" "t - t0 < REPLAY_TTL"
  shows "held k t0 S (drop_dead t k' c)"
  using held_live[OF assms] assms(1) young_delete[of k _ S "rp_items c" k']
  by (cases "k' = k") (auto simp: drop_dead_def held_def)

lemma held_get:
  assumes "held k t0 S c" "t - t0 < REPLAY_TTL" "replay_get t k' tr c = (v, c')"
  shows "held k t0 (insert k' S) c'"
proof -
  have "c' \<in> {c, drop_dead t k' c, c\<lparr>rp_items := move_to_end k' (rp_items c)\<rparr>}"
    using assms(3) by (auto simp: replay_get_def split: option.splits)
  moreover have "held k t0 (insert k' S) (c\<lparr>rp_items := move_to_end k' (rp_items c)\<rparr>)"
    using assms(1) by (cases "k' = k") (auto simp: held_def intro: young_move_to_end young_mono[OF young_used])
  moreover have "held k t0 (insert k' S) (drop_dead t k' c)" "held k t0 (insert k' S) c"
    by (rule held_mono[OF held_drop_dead[OF assms(1,2)]], blast, rule held_mono[OF assms(1)], blast)
  ultimately show ?thesis by (elim insertE emptyE) simp_all
qed

lemma held_put:
  assumes "held k t0 S c" "t - t0 < REPLAY_TTL" "finite S" "int (card (insert k' S)) < REPLAY_CACHE_SIZE"
  shows "held k t0 (insert k' S) (replay_put t t' k' v tr c)"
proof (cases "k' = k")
  case True
  obtain vs where vs: "young k (t0, vs) S (rp_items c)" using assms(1) by (auto simp: held_def)
  have live: "live_entry t k c = Some (t0, vs)" using young_map_of[OF vs] assms(2) by (simp add: live_entry_def)
  have "distinct (od_keys (rp_items c))" using vs by (simp add: young_def)
  then have "young k (t0, AList.update tr v vs) {} (pop_oldest REPLAY_CACHE_SIZE
      (move_to_end k (AList.update k (t0, AList.update tr v vs) (rp_items c))))"
    by (intro young_pop_oldest young_put) (simp_all add: REPLAY_CACHE_SIZE_def)
  moreover have "rp_items (replay_put t t' k' v tr c) =
      pop_oldest REPLAY_CACHE_SIZE (move_to_end k (AList.update k (t0, AList.update tr v vs) (rp_items c)))"
    using live True by (simp add: replay_put_def drop_dead_def Let_def)
  ultimately have "held k t0 {} (replay_put t t' k' v tr c)" by (metis held_def)
  then show ?thesis by (rule held_mono) simp
next
  case False
  obtain vs where vs: "young k (t0, vs) S (rp_items (drop_dead t k' c))"
    using held_drop_dead[OF assms(1,2), of k'] unfolding held_def by blast
  from young_pop_oldest[OF young_update[OF vs False]] assms(3,4) show ?thesis
    by (auto simp: held_def replay_put_def Let_def)
qed

lemma rp_items_begin: "replay_begin k c = (b, c') \<Longrightarrow> rp_items c' = rp_items c"
  by (auto simp: replay_begin_def split: if_splits)

lemma rp_items_end [simp]: "rp_items (replay_end k c) = rp_items c"
  by (simp add: replay_end_def)

section \<open>A request of another client\<close>

definition request_key :: "handler_env \<Rightarrow> octets \<Rightarrow> replay_key option" where
  "request_key env wire = Option.bind (dl_from_wire (he_lib env) wire) (replay_key_of (he_lib env))"

lemma hs_replay_after [simp]: "hs_replay (after_answer env peer result event st) = hs_replay st"
  by (cases event; cases "tr_key result") (auto simp: after_answer_def audit_def Let_def split: prod.splits)

lemma held_verify_step:
  assumes "verify_step env wire msg st = (result, st')" "held k t0 S (hs_replay st)" "he_clock env 1 - t0 < REPLAY_TTL"
  shows "held k t0 S (hs_replay st')"
proof -
  have "hs_replay st' = hs_replay st \<or> (\<exists>k'. hs_replay st' = drop_dead (he_clock env 1) k' (hs_replay st))"
    using arg_cong[OF assms(1), of snd] unfolding verify_step_def Let_def
    by (cases "lookup_reached (he_lib env) wire msg") (auto simp only: split_beta snd_conv hs_replay_use split: option.splits prod.splits, auto)
  then show ?thesis using assms(2) held_drop_dead[OF assms(2,3)] by metis
qed

lemma hs_replay_tsig_error:
  "tsig_error env wire msg sk result peer tr st = (out, st') \<Longrightarrow> hs_replay st' = hs_replay st"
  by (auto simp: tsig_error_def Let_def split: option.splits if_splits)

lemma hs_replay_process:
  assumes "process env wire msg u sk result peer tr rk suppress st = (out, st')"
  shows "hs_replay st' = hs_replay st \<or> (\<exists>k bs. rk = Some k \<and> out = Some bs
     \<and> hs_replay st' = replay_put (he_clock env 5) (he_clock env 6) k bs tr (hs_replay st))"
  using assms
proof (cases rule: process_elim)
  case (failed answer)
  then show ?thesis using answer_request_keeps(3) by blast
next
  case (answered resp event st2)
  then show ?thesis
    using answer_request_keeps(3)[OF answered(1)] by (cases rk; cases out) (auto simp: store_answer_def)
qed

lemma held_handle_signed:
  assumes "handle_signed env wire msg u sk result peer tr k' st = (out, st')" "held k t0 S (hs_replay st)"
    and late: "\<And>i. he_clock env i - t0 < REPLAY_TTL" and "finite S" "int (card (insert k' S)) < REPLAY_CACHE_SIZE"
  shows "held k t0 (insert k' S) (hs_replay st')"
  using assms(1)
proof (cases rule: handle_signed_elim)
  case (cached v c1)
  then show ?thesis using held_get[OF assms(2) late] by simp
next
  case (in_flight c1)
  then show ?thesis using held_get[OF assms(2) late] by simp
next
  case (cached_later c1 c2 v c3)
  have "held k t0 (insert k' S) c2"
    using held_get[OF assms(2) late cached_later(1)] held_items[OF rp_items_begin[OF cached_later(2)]] by simp
  from held_get[OF this late cached_later(3)] show ?thesis
    using cached_later(4) held_items[OF rp_items_end] by simp
next
  case (processed c1 c2 c3 again c4 st2)
  have "held k t0 (insert k' S) c2"
    using held_get[OF assms(2) late processed(1)] held_items[OF rp_items_begin[OF processed(2)]] by simp
  from held_get[OF this late processed(3)] have c3: "held k t0 (insert k' S) c3" by simp
  have "c4 \<in> {c3, drop_dead (he_clock env 4) k' c3}" using processed(4) by (auto simp: replay_seen_def split: if_splits)
  then have c4: "held k t0 (insert k' S) c4" using c3 held_drop_dead[OF c3 late, of 4 k'] by (elim insertE emptyE) simp_all
  have "held k t0 (insert k' S) (hs_replay st2)"
    using hs_replay_process[OF processed(5)] c4 held_put[OF c4 late, of k'] assms(4,5) by auto
  then show ?thesis using processed(6) held_items[OF rp_items_end] by simp
qed

lemma held_handle:
  assumes "handle env wire peer tr st = (out, st')" "held k t0 S (hs_replay st)"
    and late: "\<And>i. he_clock env i - t0 < REPLAY_TTL"
    and "finite S" "int (card (S \<union> set_option (request_key env wire))) < REPLAY_CACHE_SIZE"
  shows "held k t0 (S \<union> set_option (request_key env wire)) (hs_replay st')"
  using assms(1)
proof (cases rule: handle_elim)
  case (formerr msg result rc)
  then show ?thesis using held_mono[OF held_verify_step[OF formerr(2) assms(2) late]] by simp
next
  case (rejected msg result st1 sk)
  then show ?thesis
    using held_mono[OF held_verify_step[OF rejected(2) assms(2) late]] hs_replay_tsig_error[OF rejected(5)] by simp
next
  case (signed_request msg result st1 sk k')
  then have "S \<union> set_option (request_key env wire) = insert k' S" by (simp add: request_key_def)
  with held_handle_signed[OF signed_request(6) held_verify_step[OF signed_request(2) assms(2) late] late assms(4)] assms(5)
  show ?thesis by simp
next
  case (unsigned_request msg result st1 sk)
  then show ?thesis
    using held_mono[OF held_verify_step[OF unsigned_request(2) assms(2) late]] hs_replay_process[OF unsigned_request(6)] by auto
qed (use assms(2) held_mono in auto)

section \<open>Many requests\<close>

type_synonym listener_request = "handler_env \<times> octets \<times> string \<times> transport"

fun handle_all :: "listener_request list \<Rightarrow> handler_state \<Rightarrow> handler_state" where
  "handle_all [] st = st"
| "handle_all ((env, wire, peer, tr) # rs) st = handle_all rs (snd (handle env wire peer tr st))"

fun request_keys :: "listener_request list \<Rightarrow> replay_key set" where
  "request_keys [] = {}"
| "request_keys ((env, wire, peer, tr) # rs) = set_option (request_key env wire) \<union> request_keys rs"

lemma finite_request_keys [simp]: "finite (request_keys rs)"
  by (induction rs rule: request_keys.induct) auto

definition clocks_before :: "int \<Rightarrow> listener_request list \<Rightarrow> bool" where
  "clocks_before t rs \<longleftrightarrow> (\<forall>(env, _) \<in> set rs. \<forall>i. he_clock env i < t)"

lemma held_handle_all:
  assumes "held k t0 S (hs_replay st)" "clocks_before (t0 + REPLAY_TTL) rs" "finite S"
    and "int (card (S \<union> request_keys rs)) < REPLAY_CACHE_SIZE"
  shows "held k t0 (S \<union> request_keys rs) (hs_replay (handle_all rs st))"
  using assms
proof (induction rs arbitrary: S st rule: request_keys.induct)
  case (2 env wire peer tr rs)
  obtain out st' where h: "handle env wire peer tr st = (out, st')" by fastforce
  let ?S = "S \<union> set_option (request_key env wire)"
  have "card ?S \<le> card (S \<union> request_keys ((env, wire, peer, tr) # rs))"
    using "2.prems"(3) by (intro card_mono) auto
  then have "int (card ?S) < REPLAY_CACHE_SIZE" using "2.prems"(4) by simp
  moreover have "he_clock env i - t0 < REPLAY_TTL" for i
    using "2.prems"(2) spec[of "\<lambda>i. he_clock env i < t0 + REPLAY_TTL" i] by (simp add: clocks_before_def algebra_simps)
  ultimately have "held k t0 ?S (hs_replay st')" using held_handle[OF h "2.prems"(1) _ "2.prems"(3)] by blast
  from "2.IH"[OF this] "2.prems" show ?case
    by (simp add: h clocks_before_def Un_assoc)
qed simp

section \<open>The first copy\<close>

definition replay_distinct :: "handler_state \<Rightarrow> bool" where
  "replay_distinct st \<longleftrightarrow> distinct (od_keys (rp_items (hs_replay st)))"

lemma distinct_drop_dead: "distinct (od_keys (rp_items c)) \<Longrightarrow> distinct (od_keys (rp_items (drop_dead t k c)))"
  by (simp add: drop_dead_def distinct_delete_keys)

lemma distinct_get: "distinct (od_keys (rp_items c)) \<Longrightarrow> replay_get t k tr c = (v, c') \<Longrightarrow> distinct (od_keys (rp_items c'))"
  by (auto simp: replay_get_def distinct_drop_dead distinct_move_to_end split: option.splits)

lemma put_new:
  assumes "distinct (od_keys (rp_items c))" "live_entry t k c = None"
  shows "held k t' {} (replay_put t t' k v tr c)"
proof -
  have "held k t' {} (replay_put t t' k v tr c) = (\<exists>vs. young k (t', vs) {} (pop_oldest REPLAY_CACHE_SIZE
      (move_to_end k (AList.update k (t', [(tr, v)]) (rp_items (drop_dead t k c))))))"
    by (simp add: held_def replay_put_def assms(2) Let_def)
  moreover have "young k (t', [(tr, v)]) {} (move_to_end k (AList.update k (t', [(tr, v)]) (rp_items (drop_dead t k c))))"
    by (rule young_put[OF distinct_drop_dead[OF assms(1)]])
  then have "young k (t', [(tr, v)]) {} (pop_oldest REPLAY_CACHE_SIZE
      (move_to_end k (AList.update k (t', [(tr, v)]) (rp_items (drop_dead t k c)))))"
    by (rule young_pop_oldest) (simp_all add: REPLAY_CACHE_SIZE_def)
  ultimately show ?thesis by blast
qed

lemma accepted_is_held:
  assumes "handle env wire peer tr st = (Some out, st')" "accepted_calls st' \<noteq> accepted_calls st" "replay_distinct st"
  shows "\<exists>k. request_key env wire = Some k \<and> held k (he_clock env 6) {} (hs_replay st')"
  using assms(1)
proof (cases rule: handle_elim)
  case (signed_request msg result st1 sk k)
  have st1: "accepted_calls (st1\<lparr>hs_replay := c\<rparr>) = accepted_calls st" for c
    using verify_step_keeps(2)[OF signed_request(2)] by (simp add: accepted_calls_def)
  have d1: "distinct (od_keys (rp_items (hs_replay st1)))"
    using signed_request(2) assms(3)
    by (auto simp: verify_step_def Let_def replay_distinct_def distinct_drop_dead split: prod.splits option.splits if_splits)
  show ?thesis
    using signed_request(6)
  proof (cases rule: handle_signed_elim)
    case (processed c1 c2 c3 again c4 st2)
    have "accepted_calls st2 \<noteq> accepted_calls (st1\<lparr>hs_replay := c4\<rparr>)"
      using assms(2) st1 processed(6) by (simp add: accepted_calls_def)
    then have new: "\<not> again" using process_accepted[OF processed(5)] by blast
    have "distinct (od_keys (rp_items c2))"
      using distinct_get[OF d1 processed(1)] rp_items_begin[OF processed(2)] by simp
    from distinct_get[OF this processed(3)] have d3: "distinct (od_keys (rp_items c3))" .
    have c4: "c4 = drop_dead (he_clock env 4) k c3" "live_entry (he_clock env 4) k c3 = None"
      using processed(4) new by (cases "live_entry (he_clock env 4) k c3"; simp add: replay_seen_def split: if_splits)+
    then have "map_of (rp_items c4) k = None" by (simp add: drop_dead_def)
    then have dead: "live_entry t k c4 = None" for t by (simp add: live_entry_def)
    have "hs_replay st2 = replay_put (he_clock env 5) (he_clock env 6) k out tr c4"
      using processed(5)
    proof (cases rule: process_elim)
      case (failed answer)
      have "accepted_calls st2 = accepted_calls (st1\<lparr>hs_replay := c4\<rparr>)"
        using answer_request_keeps(2)[OF failed(1)] by (simp add: accepted_calls_def)
      then show ?thesis using \<open>accepted_calls st2 \<noteq> accepted_calls (st1\<lparr>hs_replay := c4\<rparr>)\<close> by simp
    next
      case (answered resp event sta)
      then show ?thesis using answer_request_keeps(3)[OF answered(1)] by (simp add: store_answer_def)
    qed
    then have "held k (he_clock env 6) {} (hs_replay st')"
      using put_new[OF _ dead] distinct_drop_dead[OF d3] c4(1) processed(6) held_items[OF rp_items_end] by simp
    then show ?thesis using signed_request(1,5) by (simp add: request_key_def)
  qed (use st1 assms(2) in auto)
next
  case (unsigned_request msg result st1 sk)
  have "accepted_calls st1 = accepted_calls st" using verify_step_keeps(2)[OF unsigned_request(2)] by (simp add: accepted_calls_def)
  with process_accepted[OF unsigned_request(6)] assms(2) obtain r z ns a d ids st2 where
    "update_answer env wire msg sk result st1 = (Some (r, Accepted z ns a d ids), st2)" by auto
  then have "tr_outcome result = Tsig_Ok" using update_answer_accepted by blast
  then show ?thesis using unsigned_request(5) verify_step_ok[OF unsigned_request(2)] by (auto simp: replay_key_of_def)
next
  case (rejected msg result st1 sk)
  have "accepted_calls st' = accepted_calls st"
    using rejected(5) verify_step_keeps(2)[OF rejected(2)]
    by (auto simp: tsig_error_def Let_def accepted_calls_def audit_def split: option.splits if_splits)
  then show ?thesis using assms(2) by simp
next
  case (formerr msg result rc)
  then show ?thesis using assms(2) verify_step_keeps(2)[OF formerr(2)] by (simp add: accepted_calls_def)
qed (use assms(2) in auto)

section \<open>The second copy\<close>

text \<open>A request that is not accepted writes to no table.\<close>

lemma after_answer_accepts:
  "accepted_calls (after_answer env peer result event st) = accepted_calls st \<Longrightarrow> same_tables st (after_answer env peer result event st)"
  by (cases event; cases "tr_key result") (auto simp: after_answer_def accepted_calls_def audit_def same_tables_def Let_def split: prod.splits)

lemma process_same_tables:
  assumes "process env wire msg u sk result peer tr rk suppress st = (out, st')" "accepted_calls st' = accepted_calls st"
  shows "same_tables st st'"
  using assms(1)
proof (cases rule: process_elim)
  case (answered resp event st2)
  let ?s = "store_answer env tr rk out st2"
  have s: "same_tables st ?s"
    using answer_request_keeps(1)[OF answered(1)] by (rule same_tables_trans) simp
  have "accepted_calls ?s = accepted_calls st"
    using answer_request_keeps(2)[OF answered(1)] by (simp add: accepted_calls_def)
  then show ?thesis
    using answered(3) assms(2) s same_tables_trans[OF s after_answer_accepts] by (cases suppress) auto
qed (use answer_request_keeps(1) in blast)

lemma handle_same_tables:
  assumes "handle env wire peer tr st = (out, st')" "accepted_calls st' = accepted_calls st"
  shows "same_tables st st'"
  using assms(1)
proof (cases rule: handle_elim)
  case (formerr msg result rc)
  then show ?thesis using verify_step_keeps(1) by blast
next
  case (rejected msg result st1 sk)
  have "same_tables st1 st'"
    using rejected(5) by (auto simp: tsig_error_def Let_def split: option.splits if_splits)
  with verify_step_keeps(1)[OF rejected(2)] show ?thesis by (rule same_tables_trans)
next
  case (unsigned_request msg result st1 sk)
  have "accepted_calls st' = accepted_calls st1"
    using assms(2) verify_step_keeps(2)[OF unsigned_request(2)] by (simp add: accepted_calls_def)
  from same_tables_trans[OF verify_step_keeps(1)[OF unsigned_request(2)] process_same_tables[OF unsigned_request(6) this]] show ?thesis .
next
  case (signed_request msg result st1 sk k)
  have st1: "accepted_calls st' = accepted_calls (st1\<lparr>hs_replay := c\<rparr>)" for c
    using assms(2) verify_step_keeps(2)[OF signed_request(2)] by (simp add: accepted_calls_def)
  have "same_tables st1 st'"
    using signed_request(6)
  proof (cases rule: handle_signed_elim)
    case (processed c1 c2 c3 again c4 st2)
    have "accepted_calls st2 = accepted_calls (st1\<lparr>hs_replay := c4\<rparr>)"
      using st1[of c4] processed(6) by (simp add: accepted_calls_def)
    from process_same_tables[OF processed(5) this] show ?thesis
      using processed(6) by (simp add: same_tables_def)
  qed simp_all
  with verify_step_keeps(1)[OF signed_request(2)] show ?thesis by (rule same_tables_trans)
qed simp_all

text \<open>C12: A copy changes nothing. After a request was accepted and answered, whatever requests come between,
  a copy of it (the same TSIG record, whatever its header, peer and transport) is not accepted again and
  writes to no table, as long as the clock readings are within ten minutes of the answer and fewer than
  four thousand and ninety-six signed requests came between; and also whenever more than ten minutes
  lie between the starts of the two.\<close>

theorem copy_changes_nothing:
  assumes "handle env0 wire0 peer0 tr0 st0 = (Some out0, st1)" "accepted_calls st1 \<noteq> accepted_calls st0" "replay_distinct st0"
    and "dl_from_wire (he_lib env0) wire0 = Some msg0" "dl_from_wire (he_lib env) wire = Some msg"
    and "m_tsig msg = m_tsig msg0" "he_lib env = he_lib env0"
    and "int (card (request_keys between)) < REPLAY_CACHE_SIZE \<and> clocks_before (he_clock env0 6 + REPLAY_TTL) (between @ [(env, wire, peer, tr)])
      \<or> 2 * MAX_FUDGE < he_clock env 0 div seconds 1 - he_clock env0 0 div seconds 1"
    and "handle env wire peer tr (handle_all between st1) = (out, st')"
  shows "accepted_calls st' = accepted_calls (handle_all between st1) \<and> same_tables (handle_all between st1) st'"
proof -
  let ?st = "handle_all between st1"
  have "accepted_calls st' = accepted_calls ?st"
  proof (rule ccontr)
    assume "accepted_calls st' \<noteq> accepted_calls ?st"
    from handle_accepted[OF assms(9) this] assms(5) obtain result s1 sk c r z ns a d ids s2 where
      v: "verify_step env wire msg ?st = (result, s1)" "\<not> tr_replayed result"
      and u: "update_answer env wire msg sk result (s1\<lparr>hs_replay := c\<rparr>) = (Some (r, Accepted z ns a d ids), s2)"
      by auto
    have "tr_outcome result = Tsig_Ok" using update_answer_accepted[OF u] by blast
    from verify_step_ok[OF v(1) this] v(2) obtain owner rd key where
      ok: "m_tsig msg = Some (owner, rd)" "\<not> known_copy env msg ?st"
        "timely (he_lib env) (he_clock env 0 div seconds 1) (hs_watermark ?st) rd key"
      by auto
    from handle_accepted[OF assms(1,2)] assms(4) obtain result0 s1' sk' c' r' z' ns' a' d' ids' s2' where
      v0: "verify_step env0 wire0 msg0 st0 = (result0, s1')" "\<not> tr_replayed result0"
      and u0: "update_answer env0 wire0 msg0 sk' result0 (s1'\<lparr>hs_replay := c'\<rparr>) = (Some (r', Accepted z' ns' a' d' ids'), s2')"
      by auto
    have "tr_outcome result0 = Tsig_Ok" using update_answer_accepted[OF u0] by blast
    from verify_step_ok[OF v0(1) this] v0(2) ok(1) assms(6) obtain key0 where
      ok0: "timely (he_lib env0) (he_clock env0 0 div seconds 1) (hs_watermark st0) rd key0" by auto
    have near: "he_clock env 0 div seconds 1 - he_clock env0 0 div seconds 1 \<le> 2 * MAX_FUDGE"
      using ok(3) ok0 unfolding timely_def by linarith
    obtain k where k: "request_key env0 wire0 = Some k" "held k (he_clock env0 6) {} (hs_replay st1)"
      using accepted_is_held[OF assms(1-3)] by blast
    have same: "replay_key_of (he_lib env) msg = Some k"
      using k(1) assms(4,6,7) by (simp add: request_key_def replay_key_of_def)
    from near assms(8) have few: "int (card (request_keys between)) < REPLAY_CACHE_SIZE"
      and clocks: "clocks_before (he_clock env0 6 + REPLAY_TTL) (between @ [(env, wire, peer, tr)])" by auto
    have "held k (he_clock env0 6) (request_keys between) (hs_replay ?st)"
      using held_handle_all[OF k(2), of between] few clocks by (simp add: clocks_before_def)
    then have "live_entry (he_clock env 1) k (hs_replay ?st) \<noteq> None"
      by (rule held_live) (use clocks in \<open>simp add: clocks_before_def algebra_simps\<close>)
    with ok(2) same show False by (simp add: known_copy_def)
  qed
  with handle_same_tables[OF assms(9)] show ?thesis by blast
qed

text \<open>The two limits meet without overlap: a request signed five minutes ahead is still timely ten minutes
  after its first copy, when the entry has just left the cache.\<close>

lemma replay_window_gap:
  assumes "td_time_signed rd = n + MAX_FUDGE" "td_fudge rd = MAX_FUDGE" "length (td_mac rd) = dl_mac_size lib (tk_algorithm key)"
    and "map_of w (tk_id key) = Some (td_time_signed rd)"
  shows "timely lib n w rd key" "timely lib (n + 2 * MAX_FUDGE) w rd key"
    and "map_of (rp_items c) k = Some (seconds n, v) \<Longrightarrow> live_entry (seconds (n + 2 * MAX_FUDGE)) k c = None"
  using assms
  by (simp_all add: timely_def is_older_def MAX_FUDGE_def live_entry_def REPLAY_TTL_def REPLAY_TTL_S_def)

section \<open>A concrete copy\<close>

definition answered_site :: handler_state where
  "answered_site = snd (handle (update_env 0) update_wire ''peer'' Udp waiting_site)"

text \<open>One second later over TCP, and ten minutes later.\<close>

lemma copy_changes_nothing_witness:
  "accepted_calls (snd (handle (update_env (seconds 1)) update_wire ''other'' Tcp answered_site)) = accepted_calls answered_site"
proof -
  have "fst (handle (update_env 0) update_wire ''peer'' Udp waiting_site) \<noteq> None" by code_simp
  then obtain out0 where h0: "handle (update_env 0) update_wire ''peer'' Udp waiting_site = (Some out0, answered_site)"
    by (metis answered_site_def not_None_eq prod.collapse)
  have acc: "accepted_calls answered_site \<noteq> accepted_calls waiting_site"
    using waiting_site_accepts by (auto simp: accepted_calls_def answered_site_def waiting_site_def filter_empty_conv)
  obtain out st' where h: "handle (update_env (seconds 1)) update_wire ''other'' Tcp (handle_all [] answered_site) = (out, st')" by fastforce
  have lib: "dl_from_wire (he_lib (update_env t)) update_wire = Some update_msg" for t by (simp add: update_env_def update_dns_def)
  have "accepted_calls st' = accepted_calls (handle_all [] answered_site) \<and> same_tables (handle_all [] answered_site) st'"
    by (rule copy_changes_nothing[OF h0 acc _ lib lib _ _ _ h])
      (auto simp: replay_distinct_def waiting_site_def new_replay_cache_def od_keys_def update_env_def clocks_before_def
        REPLAY_CACHE_SIZE_def REPLAY_TTL_def REPLAY_TTL_S_def MAX_FUDGE_def)
  then show ?thesis using h by simp
qed

lemma copy_accepted_at_ttl:
  "length (accepted_calls (snd (handle (update_env (seconds 600)) update_wire ''other'' Udp answered_site))) = 2"
  by code_simp

end
