(* ===== verification/Dns_Server.thy ===== *)
theory Dns_Server
  imports Ordered_Dict Ip_Address Complex_Main
begin

text \<open>
  What stands around the protocol handler of the DNS UPDATE listener: the token buckets and connection
  slots of \<^verbatim>\<open>services/acme/dns_update/server.py\<close>, the bounded audit sink of \<^verbatim>\<open>audit.py\<close> and the
  choice of the port of \<^verbatim>\<open>status.py\<close>.

  Clocks are in microseconds and numbers of tokens are exact rationals. Reading an address and printing
  its /64 network are parameters (\<open>limit_lib\<close>). What the sink hands to the audit log is kept as a list; the
  outcome of the write is a parameter.
\<close>

section \<open>Rate limits\<close>

record server_limits =
  sv_tcp_per_ip :: int
  sv_global_rate :: rat
  sv_global_burst :: rat
  sv_ip_rate :: rat
  sv_ip_burst :: rat
  sv_ip_table :: int

definition listener_limits :: server_limits where
  "listener_limits = \<lparr>sv_tcp_per_ip = 8, sv_global_rate = 200, sv_global_burst = 400, sv_ip_rate = 50, sv_ip_burst = 100,
     sv_ip_table = 4096\<rparr>"

record limit_lib =
  ll_version :: "string \<Rightarrow> ip_version option"
  ll_net64 :: "string \<Rightarrow> string option"

definition limit_key :: "limit_lib \<Rightarrow> string \<Rightarrow> string" where
  "limit_key lib ip =
     (case ll_version lib ip of
        None \<Rightarrow> ip
      | Some V4 \<Rightarrow> ip
      | Some V6 \<Rightarrow> (case ll_net64 lib ip of None \<Rightarrow> ip | Some net \<Rightarrow> net @ ''/64''))"

record token_bucket =
  tb_tokens :: rat
  tb_stamp :: int

definition take_token :: "rat \<Rightarrow> rat \<Rightarrow> int \<Rightarrow> token_bucket \<Rightarrow> bool \<times> token_bucket" where
  "take_token rate burst now b =
     (let elapsed = max 0 (now - tb_stamp b);
          tokens = min burst (tb_tokens b + of_int elapsed / 1000000 * rate)
      in if 1 \<le> tokens then (True, \<lparr>tb_tokens = tokens - 1, tb_stamp = now\<rparr>)
         else (False, \<lparr>tb_tokens = tokens, tb_stamp = now\<rparr>))"

record source_limiter =
  sl_global :: token_bucket
  sl_per_ip :: "(string, token_bucket) odict"

definition new_source_limiter :: "server_limits \<Rightarrow> int \<Rightarrow> source_limiter" where
  "new_source_limiter limits now = \<lparr>sl_global = \<lparr>tb_tokens = sv_global_burst limits, tb_stamp = now\<rparr>, sl_per_ip = []\<rparr>"

text \<open>A bucket that is dropped by the trimming of the table right after its creation is still the one the
  request takes from.\<close>

definition allow_source :: "limit_lib \<Rightarrow> server_limits \<Rightarrow> int \<Rightarrow> string \<Rightarrow> source_limiter \<Rightarrow> bool \<times> source_limiter" where
  "allow_source lib limits now ip s =
     (let key = limit_key lib ip;
          (b, table) = (case map_of (sl_per_ip s) key of
                          None \<Rightarrow> (let b = \<lparr>tb_tokens = sv_ip_burst limits, tb_stamp = now\<rparr>
                                   in (b, pop_oldest (sv_ip_table limits) (AList.update key b (sl_per_ip s))))
                        | Some b \<Rightarrow> (b, move_to_end key (sl_per_ip s)));
          (ok, b') = take_token (sv_ip_rate limits) (sv_ip_burst limits) now b;
          table' = (if map_of table key = None then table else AList.update key b' table)
      in if \<not> ok then (False, s\<lparr>sl_per_ip := table'\<rparr>)
         else (case take_token (sv_global_rate limits) (sv_global_burst limits) now (sl_global s) of
                 (ok, g) \<Rightarrow> (ok, s\<lparr>sl_per_ip := table', sl_global := g\<rparr>)))"

section \<open>Connection slots\<close>

definition acquire_slot :: "limit_lib \<Rightarrow> server_limits \<Rightarrow> string \<Rightarrow> (string \<times> int) list \<Rightarrow> bool \<times> (string \<times> int) list" where
  "acquire_slot lib limits ip counts =
     (let key = limit_key lib ip; n = (case map_of counts key of None \<Rightarrow> 0 | Some n \<Rightarrow> n)
      in if sv_tcp_per_ip limits \<le> n then (False, counts) else (True, AList.update key (n + 1) counts))"

definition release_slot :: "limit_lib \<Rightarrow> string \<Rightarrow> (string \<times> int) list \<Rightarrow> (string \<times> int) list" where
  "release_slot lib ip counts =
     (let key = limit_key lib ip; n = (case map_of counts key of None \<Rightarrow> 0 | Some n \<Rightarrow> n) - 1
      in if 0 < n then AList.update key n counts else AList.delete key counts)"

section \<open>The audit sink\<close>

definition AUDIT_WINDOW :: int where "AUDIT_WINDOW = seconds 60"
definition MAX_TEXT :: nat where "MAX_TEXT = 255"

definition sanitize_text :: "nat \<Rightarrow> string \<Rightarrow> string" where
  "sanitize_text limit s = map (\<lambda>c. if 32 \<le> ascii_code c \<and> ascii_code c < 127 then c else CHR ''?'') (take limit s)"

record audit_window =
  aw_start :: int
  aw_written :: int
  aw_dropped :: int

record audit_limits =
  al_per_ip :: int
  al_per_reason :: int
  al_max_ips :: int
  al_per_key :: int
  al_max_keys :: int

definition default_audit_limits :: audit_limits where
  "default_audit_limits = \<lparr>al_per_ip = 1, al_per_reason = 20, al_max_ips = 4096, al_per_key = 120, al_max_keys = 4096\<rparr>"

record sink_row =
  sr_action :: string
  sr_reason :: string
  sr_dropped :: int

record audit_sink =
  sk_ip_hits :: "(string \<times> string, int list) odict"
  sk_windows :: "(string \<times> audit_window) list"
  sk_key_windows :: "(string, audit_window) odict"
  sk_rows :: "sink_row list"

definition new_audit_sink :: audit_sink where
  "new_audit_sink = \<lparr>sk_ip_hits = [], sk_windows = [], sk_key_windows = [], sk_rows = []\<rparr>"

definition SUPPRESSED_ACTION :: string where "SUPPRESSED_ACTION = ''acme.dns_update.suppressed''"

definition sink_write :: "string \<Rightarrow> string \<Rightarrow> int \<Rightarrow> audit_sink \<Rightarrow> audit_sink" where
  "sink_write action reason dropped s = s\<lparr>sk_rows := sk_rows s @ [\<lparr>sr_action = action, sr_reason = reason, sr_dropped = dropped\<rparr>]\<rparr>"

text \<open>The window of a reason or a key, opened again when it is a minute old, and what the old one dropped.\<close>

definition open_window :: "int \<Rightarrow> audit_window option \<Rightarrow> audit_window \<times> int" where
  "open_window now w =
     (case w of
        None \<Rightarrow> (\<lparr>aw_start = now, aw_written = 0, aw_dropped = 0\<rparr>, 0)
      | Some w \<Rightarrow> if AUDIT_WINDOW \<le> now - aw_start w then (\<lparr>aw_start = now, aw_written = 0, aw_dropped = 0\<rparr>, aw_dropped w) else (w, 0))"

definition count_event :: "bool \<Rightarrow> audit_window \<Rightarrow> audit_window" where
  "count_event allowed w = (if allowed then w\<lparr>aw_written := aw_written w + 1\<rparr> else w\<lparr>aw_dropped := aw_dropped w + 1\<rparr>)"

definition audit_limited :: "audit_limits \<Rightarrow> int \<Rightarrow> string \<Rightarrow> string \<Rightarrow> string \<Rightarrow> audit_sink \<Rightarrow> bool \<times> audit_sink" where
  "audit_limited al now action reason peer s =
     (let reason = sanitize_text MAX_TEXT reason; ip = sanitize_text 45 peer;
          (w, dropped) = open_window now (map_of (sk_windows s) reason);
          hits = map_option (filter (\<lambda>t. now - t < AUDIT_WINDOW)) (map_of (sk_ip_hits s) (ip, reason));
          table = (case hits of None \<Rightarrow> sk_ip_hits s | Some h \<Rightarrow> move_to_end (ip, reason) (AList.update (ip, reason) h (sk_ip_hits s)));
          allowed = (\<not> (case hits of None \<Rightarrow> False | Some h \<Rightarrow> al_per_ip al \<le> int (length h)) \<and> aw_written w < al_per_reason al);
          w' = count_event allowed w;
          table' = (if \<not> allowed then table
                    else (case hits of
                            None \<Rightarrow> pop_oldest (al_max_ips al) (AList.update (ip, reason) [now] table)
                          | Some h \<Rightarrow> AList.update (ip, reason) (h @ [now]) table));
          s = s\<lparr>sk_windows := AList.update reason w' (sk_windows s), sk_ip_hits := table'\<rparr>;
          s = (if dropped \<noteq> 0 then sink_write SUPPRESSED_ACTION reason dropped s else s)
      in if allowed then (True, sink_write action reason 0 s) else (False, s))"

definition audit_authenticated :: "audit_limits \<Rightarrow> int \<Rightarrow> string \<Rightarrow> string option \<Rightarrow> audit_sink \<Rightarrow> bool \<times> audit_sink" where
  "audit_authenticated al now action keyname s =
     (let key = (case keyname of None \<Rightarrow> [] | Some k \<Rightarrow> sanitize_text MAX_TEXT k);
          old = map_of (sk_key_windows s) key;
          (w, dropped) = open_window now old;
          fresh = (old \<noteq> Some w);
          table = (if fresh then pop_oldest (al_max_keys al) (AList.update key w (sk_key_windows s)) else sk_key_windows s);
          allowed = (aw_written w < al_per_key al);
          w' = count_event allowed w;
          s = s\<lparr>sk_key_windows := AList.update key w' (move_to_end key table)\<rparr>;
          s = (if dropped \<noteq> 0 then sink_write SUPPRESSED_ACTION ''accepted'' dropped s else s)
      in if allowed then (True, sink_write action ''accepted'' 0 s) else (False, s))"

section \<open>The port\<close>

definition port_env :: "string option \<Rightarrow> string option" where
  "port_env v = (case v of None \<Rightarrow> None | Some s \<Rightarrow> if py_strip s = [] then None else Some (py_strip s))"

definition stored_port :: "string option \<Rightarrow> int" where
  "stored_port v =
     (case v of
        None \<Rightarrow> 0
      | Some s \<Rightarrow> if s = [] then 0 else (case py_int 10 s of None \<Rightarrow> 0 | Some p \<Rightarrow> if 0 \<le> p \<and> p \<le> 65535 then p else 0))"

definition dns_update_port :: "string option \<Rightarrow> string option \<Rightarrow> int option \<Rightarrow> int" where
  "dns_update_port env setting stored =
     (case port_env env of
        Some s \<Rightarrow> (case py_int 10 s of None \<Rightarrow> 0 | Some p \<Rightarrow> if 0 \<le> p \<and> p \<le> 65535 then p else 0)
      | None \<Rightarrow> (case stored of Some p \<Rightarrow> p | None \<Rightarrow> stored_port setting))"

section \<open>How much passes\<close>

text \<open>A token taken is paid for: tokens left plus tokens taken do not exceed what was there and what was
  earned since.\<close>

lemma take_token_paid:
  assumes "take_token rate burst now b = (ok, b')" "0 \<le> rate" "tb_stamp b \<le> now"
  shows "tb_tokens b' + (if ok then 1 else 0) \<le> tb_tokens b + of_int (now - tb_stamp b) / 1000000 * rate" "tb_stamp b' = now"
  using assms by (auto simp: take_token_def Let_def min_def max_def split: if_splits)

lemma take_token_nonneg:
  assumes "take_token rate burst now b = (ok, b')" "0 \<le> rate" "0 \<le> burst" "0 \<le> tb_tokens b"
  shows "0 \<le> tb_tokens b'"
proof -
  have "0 \<le> of_int (max 0 (now - tb_stamp b)) / 1000000 * rate" using assms(2) by simp
  then have "0 \<le> min burst (tb_tokens b + of_int (max 0 (now - tb_stamp b)) / 1000000 * rate)"
    using assms(3,4) by (intro min.boundedI add_nonneg_nonneg)
  then show ?thesis using assms(1) by (auto simp: take_token_def Let_def split: if_splits)
qed

lemma allow_source_global:
  assumes "allow_source lib limits now ip s = (ok, s')"
  shows "\<not> ok \<and> sl_global s' = sl_global s \<or>
    take_token (sv_global_rate limits) (sv_global_burst limits) now (sl_global s) = (ok, sl_global s')"
  using assms by (auto simp: allow_source_def Let_def split: prod.splits option.splits if_splits)

text \<open>A run of requests, each with its time and source, and how many pass.\<close>

fun run_sources :: "limit_lib \<Rightarrow> server_limits \<Rightarrow> (int \<times> string) list \<Rightarrow> source_limiter \<Rightarrow> nat \<times> source_limiter" where
  "run_sources lib limits [] s = (0, s)"
| "run_sources lib limits ((now, ip) # rs) s =
     (let (ok, s) = allow_source lib limits now ip s; (n, s) = run_sources lib limits rs s
      in (if ok then n + 1 else n, s))"

lemma run_sources_paid:
  assumes "run_sources lib limits rs s = (n, s')" "0 \<le> sv_global_rate limits" "0 \<le> sv_global_burst limits"
    and "0 \<le> tb_tokens (sl_global s)" "sorted (tb_stamp (sl_global s) # map fst rs @ [t])"
  shows "of_nat n \<le> tb_tokens (sl_global s) + of_int (t - tb_stamp (sl_global s)) / 1000000 * sv_global_rate limits"
  using assms
proof (induction rs arbitrary: n s s')
  case Nil
  then show ?case by simp
next
  case (Cons r rs)
  let ?rate = "sv_global_rate limits" and ?g = "sl_global s"
  obtain now ip where r: "r = (now, ip)" by fastforce
  obtain ok s1 where a: "allow_source lib limits now ip s = (ok, s1)" by fastforce
  obtain m s2 where m: "run_sources lib limits rs s1 = (m, s2)" by fastforce
  have n: "n = (if ok then m + 1 else m)" using Cons.prems(1) by (auto simp: r a m split: if_splits)
  have times: "tb_stamp ?g \<le> now" "now \<le> t" "sorted (now # map fst rs @ [t])" using Cons.prems(5) by (auto simp: r)
  consider "\<not> ok" "sl_global s1 = ?g" | "take_token ?rate (sv_global_burst limits) now ?g = (ok, sl_global s1)"
    using allow_source_global[OF a] by blast
  then show ?case
  proof cases
    case 1
    then show ?thesis
      using Cons.IH[OF m Cons.prems(2,3)] Cons.prems(4,5) n by (simp add: r)
  next
    case 2
    note paid = take_token_paid[OF 2 Cons.prems(2) times(1)] and pos = take_token_nonneg[OF 2 Cons.prems(2-4)]
    have "of_nat m \<le> tb_tokens (sl_global s1) + of_int (t - now) / 1000000 * ?rate"
      using Cons.IH[OF m Cons.prems(2,3) pos] times(3) paid(2) by simp
    moreover have "of_int (now - tb_stamp ?g) / 1000000 * ?rate + of_int (t - now) / 1000000 * ?rate =
        of_int (t - tb_stamp ?g) / 1000000 * ?rate"
      by (simp add: field_simps)
    ultimately show ?thesis using paid(1) n by (auto split: if_splits)
  qed
qed

text \<open>The listener handles a bounded number of messages. Whatever sources send, from its start until a time
  no more messages pass its limits than the global burst of 400 and 200 for each second since.\<close>

theorem messages_bounded:
  assumes "sorted (t0 # map fst rs @ [t])"
  shows "rat_of_nat (fst (run_sources lib listener_limits rs (new_source_limiter listener_limits t0))) \<le>
    400 + 200 * (of_int (t - t0) / 1000000)"
  using run_sources_paid[of lib listener_limits rs "new_source_limiter listener_limits t0" _ _ t] assms
  by (cases "run_sources lib listener_limits rs (new_source_limiter listener_limits t0)")
    (simp add: new_source_limiter_def listener_limits_def mult.commute)

lemma messages_bounded_witness:
  "rat_of_nat (fst (run_sources \<lparr>ll_version = (\<lambda>_. None), ll_net64 = (\<lambda>_. None)\<rparr> listener_limits [(5, ''a''), (9, ''b'')]
     (new_source_limiter listener_limits 0))) \<le> 400 + 200 * (of_int (10 - 0) / 1000000)"
  by (rule messages_bounded) simp

text \<open>A source never holds more connections than its limit.\<close>

definition slots_ok :: "server_limits \<Rightarrow> (string \<times> int) list \<Rightarrow> bool" where
  "slots_ok limits counts \<longleftrightarrow> (\<forall>key n. map_of counts key = Some n \<longrightarrow> 0 < n \<and> n \<le> sv_tcp_per_ip limits)"

lemma slots_ok_steps:
  "slots_ok limits counts \<Longrightarrow> slots_ok limits (snd (acquire_slot lib limits ip counts))"
  "slots_ok limits counts \<Longrightarrow> slots_ok limits (release_slot lib ip counts)"
  by (fastforce simp: slots_ok_def acquire_slot_def release_slot_def Let_def split: option.splits if_splits)+

text \<open>A window never counts more rows than its limit.\<close>

definition windows_ok :: "audit_limits \<Rightarrow> audit_sink \<Rightarrow> bool" where
  "windows_ok al s \<longleftrightarrow> (\<forall>r w. map_of (sk_windows s) r = Some w \<longrightarrow> aw_written w \<le> al_per_reason al)"

lemma windows_ok_limited:
  assumes "windows_ok al s" "0 \<le> al_per_reason al"
  shows "windows_ok al (snd (audit_limited al now action reason peer s))"
proof -
  let ?r = "sanitize_text MAX_TEXT reason"
  obtain w dropped where w: "open_window now (map_of (sk_windows s) ?r) = (w, dropped)" by fastforce
  have "aw_written w \<le> al_per_reason al"
    using w assms by (auto simp: open_window_def windows_ok_def split: option.splits if_splits)
  then have "aw_written (count_event b w) \<le> al_per_reason al" if "b \<longrightarrow> aw_written w < al_per_reason al" for b
    using that by (auto simp: count_event_def)
  then show ?thesis
    using assms(1) by (auto simp: audit_limited_def w Let_def windows_ok_def sink_write_def split: if_splits)
qed

end
