(* ===== verification/Accounts.thy ===== *)
theory Accounts
  imports Auth Password_Policy Approvals
begin

text \<open>
  User accounts: the row of \<^verbatim>\<open>models/user.py\<close>, the administration routes of \<^verbatim>\<open>api/v2/users/\<close>, the
  change of one's own password (\<^verbatim>\<open>api/v2/account/password.py\<close>) and the revocation of API keys
  (\<^verbatim>\<open>services/api_key_revocation.py\<close>), each as it runs and together behind the decorator.

  A route runs behind \<open>require_auth\<close> and gets its result, the authenticated caller. It answers
  \<open>Route_Done\<close> or \<open>Route_Error\<close> with the HTTP status; texts, audit entries and notifications are left
  out. \<open>commit\<close> tells whether the database accepts the transaction, and a transaction it refuses leaves
  the tables as they were. The hashing of passwords is library code, \<open>password_lib\<close>: \<open>pl_check\<close> is
  \<open>check_password_hash\<close> (\<open>False\<close> where it raises) and \<open>pl_hash salt\<close> the hash under a random salt.
  Fields of a request body are texts, with a custom role id that is a number or a text; a body that is
  no object raises before anything is changed.
\<close>

section \<open>Rows\<close>

text \<open>
  A column of recovery codes is the list that \<open>json.loads\<close> gives, or a text that is not a JSON list
  (the older comma-separated format).
\<close>

datatype code_column = Codes_Json "string list" | Codes_Text string

record account = user +
  acc_username :: string
  acc_email :: string
  acc_password_hash :: string
  acc_totp_secret :: "string option"
  acc_backup_codes :: "code_column option"
  acc_custom_role_source :: "string option"
  acc_sso_provider_id :: "int option"
  acc_sso_external_id :: "string option"
  acc_reset_token :: "string option"
  acc_reset_expires :: "datetime option"
  acc_last_login :: "datetime option"
  acc_login_count :: int
  acc_failed_logins :: int
  acc_locked_until :: "datetime option"

record provider_row = sso_provider +
  pr_id :: int
  pr_type :: string

record security_key = webauthn_credential +
  sk_credential_id :: string
  sk_public_key :: string
  sk_sign_count :: int
  sk_last_used_at :: "datetime option"

record webauthn_challenge =
  wc_user_id :: int
  wc_challenge :: string
  wc_type :: string
  wc_expires_at :: datetime
  wc_used :: bool

text \<open>
  The tables. Rows of \<^verbatim>\<open>user_sessions\<close>, \<^verbatim>\<open>sso_sessions\<close> and of client certificates are their user's id,
  those of HSM providers the id of their creator.
\<close>

record site =
  si_accounts :: "account list"
  si_keys :: "api_key list"
  si_security_keys :: "security_key list"
  si_challenges :: "webauthn_challenge list"
  si_providers :: "provider_row list"
  si_rbac :: rbac_db
  si_config :: "string \<Rightarrow> string option"
  si_approvals :: approval_db
  si_user_sessions :: "int list"
  si_sso_sessions :: "int list"
  si_client_certs :: "int list"
  si_hsm_creators :: "int option list"

text \<open>What the authentication of \<open>Auth\<close> reads of these tables.\<close>

definition db_of :: "site \<Rightarrow> auth_db" where
  "db_of st = \<lparr>a_rbac = Some (si_rbac st), a_users = map user.truncate (si_accounts st), a_keys = si_keys st,
     a_webauthn = map webauthn_credential.truncate (si_security_keys st), a_config = si_config st\<rparr>"

definition get_account :: "site \<Rightarrow> int \<Rightarrow> account option" where
  "get_account st i = first_row (\<lambda>a. u_id a = i) (si_accounts st)"

definition put_account :: "account \<Rightarrow> site \<Rightarrow> site" where
  "put_account a st = st\<lparr>si_accounts := update_rows (\<lambda>x. u_id x = u_id a) (\<lambda>_. a) (si_accounts st)\<rparr>"

definition new_account_id :: "site \<Rightarrow> int" where
  "new_account_id st = 1 + foldr max (map u_id (si_accounts st)) 0"

section \<open>Passwords\<close>

record password_lib =
  pl_check :: "string \<Rightarrow> string \<Rightarrow> bool"
  pl_hash :: "string \<Rightarrow> string \<Rightarrow> string"

definition PASSWORD_METHOD :: string where "PASSWORD_METHOD = ''pbkdf2:sha256:600000''"

definition verify_password :: "password_lib \<Rightarrow> string \<Rightarrow> string \<Rightarrow> bool" where
  "verify_password lib stored secret \<longleftrightarrow> stored \<noteq> [] \<and> pl_check lib stored secret"

definition needs_rehash :: "string \<Rightarrow> bool" where
  "needs_rehash stored \<longleftrightarrow> \<not> starts_with stored (PASSWORD_METHOD @ ''$'')"

definition set_password :: "password_lib \<Rightarrow> string \<Rightarrow> string \<Rightarrow> account \<Rightarrow> account" where
  "set_password lib salt password a = a\<lparr>acc_password_hash := pl_hash lib salt password\<rparr>"

text \<open>A successful check replaces a hash of an older method.\<close>

definition check_password :: "password_lib \<Rightarrow> string \<Rightarrow> string \<Rightarrow> account \<Rightarrow> bool \<times> account" where
  "check_password lib salt password a =
     (if \<not> verify_password lib (acc_password_hash a) password then (False, a)
      else (True, if needs_rehash (acc_password_hash a) then set_password lib salt password a else a))"

definition policy_of :: "site \<Rightarrow> password_policy" where
  "policy_of st = load_policy_from_config (Some (si_config st))"

definition validate_password_strength :: "site \<Rightarrow> string \<Rightarrow> string option \<Rightarrow> bool" where
  "validate_password_strength st password username = fst (validate_password password (policy_of st) username)"

section \<open>Administration of users\<close>

datatype route_answer = Route_Done | Route_Error int

record route_env =
  re_lib :: password_lib
  re_salt :: string
  re_now :: datetime
  re_commit :: bool

definition finish :: "route_env \<Rightarrow> site \<Rightarrow> site \<Rightarrow> route_answer \<times> site" where
  "finish env st st' = (if re_commit env then (Route_Done, st') else (Route_Error 500, st))"

definition is_admin :: "auth_result \<Rightarrow> bool" where
  "is_admin res \<longleftrightarrow> u_role (r_user res) = ''admin''"

definition active_admin :: "account \<Rightarrow> bool" where
  "active_admin a \<longleftrightarrow> u_role a = ''admin'' \<and> u_active a"

definition is_last_active_admin :: "site \<Rightarrow> account \<Rightarrow> bool" where
  "is_last_active_admin st a \<longleftrightarrow>
     active_admin a \<and> count_rows (\<lambda>x. u_id x \<noteq> u_id a \<and> active_admin x) (si_accounts st) = 0"

datatype role_field = Role_Number int | Role_Text string

fun role_given :: "role_field \<Rightarrow> bool" where
  "role_given (Role_Number n) = (n \<noteq> 0)"
| "role_given (Role_Text s) = (s \<noteq> [])"

fun role_number :: "role_field \<Rightarrow> int option" where
  "role_number (Role_Number n) = Some n"
| "role_number (Role_Text s) = py_int 10 s"

definition role_exists :: "site \<Rightarrow> int \<Rightarrow> bool" where
  "role_exists st i \<longleftrightarrow> first_row (\<lambda>r. cr_id r = i) (db_roles (si_rbac st)) \<noteq> None"

record user_form =
  uf_username :: string
  uf_email :: string
  uf_password :: string
  uf_role :: "string option"
  uf_custom_role :: "role_field option"
  uf_active :: bool

text \<open>A new row with the defaults of its columns.\<close>

definition blank_account :: "int \<Rightarrow> string \<Rightarrow> string \<Rightarrow> string \<Rightarrow> int option \<Rightarrow> bool \<Rightarrow> account" where
  "blank_account i username email role custom active =
     \<lparr>u_id = i, u_role = role, u_custom_role_id = custom, u_active = active, u_totp_confirmed = False,
      u_totp_exempt = False, u_webauthn_2fa = False, u_force_password_change = False, u_auth_source = ''local'',
      u_sso_provider = None, acc_username = username, acc_email = email, acc_password_hash = [],
      acc_totp_secret = None, acc_backup_codes = None, acc_custom_role_source = None, acc_sso_provider_id = None,
      acc_sso_external_id = None, acc_reset_token = None, acc_reset_expires = None, acc_last_login = None,
      acc_login_count = 0, acc_failed_logins = 0, acc_locked_until = None\<rparr>"

definition create_user :: "route_env \<Rightarrow> auth_result \<Rightarrow> user_form \<Rightarrow> site \<Rightarrow> route_answer \<times> site" where
  "create_user env res form st =
     (if \<not> is_admin res then (Route_Error 403, st)
      else if uf_username form = [] \<or> uf_email form = [] \<or> uf_password form = [] then (Route_Error 400, st)
      else if \<not> validate_password_strength st (uf_password form) (Some (uf_username form)) then (Route_Error 400, st)
      else if \<exists>a \<in> set (si_accounts st). acc_username a = uf_username form then (Route_Error 409, st)
      else if \<exists>a \<in> set (si_accounts st). acc_email a = uf_email form \<and> u_auth_source a = ''local'' then (Route_Error 409, st)
      else let role = (case uf_role form of None \<Rightarrow> ''viewer'' | Some r \<Rightarrow> r)
           in if role \<notin> set BUILTIN_ROLES then (Route_Error 400, st)
              else let custom = (case uf_custom_role form of
                                   None \<Rightarrow> None
                                 | Some f \<Rightarrow> if role_given f then role_number f else None)
                   in if (case custom of None \<Rightarrow> False | Some i \<Rightarrow> \<not> role_exists st i) then (Route_Error 404, st)
                      else finish env st
                             (st\<lparr>si_accounts := si_accounts st @
                                [set_password (re_lib env) (re_salt env) (uf_password form)
                                   (blank_account (new_account_id st) (uf_username form) (uf_email form) role custom
                                      (uf_active form))]\<rparr>))"

record user_change =
  uc_email :: "string option"
  uc_role :: "string option"
  uc_custom_role :: "role_field option"
  uc_active :: "bool option"
  uc_totp_exempt :: "bool option"
  uc_password :: "string option"
  uc_current_password :: string

text \<open>
  The fields of an update are applied one after the other to the loaded row, each with its own
  checks; \<open>Inl\<close> is the status of the refusal, which leaves the row as it is stored. A falsy custom role
  clears it.
\<close>

definition change_email :: "site \<Rightarrow> user_change \<Rightarrow> account \<Rightarrow> int + account" where
  "change_email st c a =
     (case uc_email c of
        None \<Rightarrow> Inr a
      | Some e \<Rightarrow>
          if (if u_auth_source a = [] then ''local'' else u_auth_source a) = ''local''
             \<and> (\<exists>x \<in> set (si_accounts st). acc_email x = e \<and> u_id x \<noteq> u_id a \<and> u_auth_source x = ''local'')
          then Inl 409 else Inr (a\<lparr>acc_email := e\<rparr>))"

definition change_role :: "auth_result \<Rightarrow> site \<Rightarrow> user_change \<Rightarrow> account \<Rightarrow> int + account" where
  "change_role res st c a =
     (case uc_role c of
        None \<Rightarrow> Inr a
      | Some r \<Rightarrow>
          if \<not> is_admin res then Inl 403
          else if r \<notin> set BUILTIN_ROLES then Inl 400
          else if u_id (r_user res) = u_id a \<and> u_role a = ''admin'' \<and> r \<noteq> ''admin'' then Inl 403
          else if u_role a = ''admin'' \<and> r \<noteq> ''admin'' \<and> is_last_active_admin st a then Inl 409
          else Inr (a\<lparr>u_role := r\<rparr>))"

definition change_custom_role :: "auth_result \<Rightarrow> site \<Rightarrow> user_change \<Rightarrow> account \<Rightarrow> int + account" where
  "change_custom_role res st c a =
     (case uc_custom_role c of
        None \<Rightarrow> Inr a
      | Some f \<Rightarrow>
          if \<not> is_admin res then Inl 403
          else if \<not> role_given f then Inr (a\<lparr>u_custom_role_id := None, acc_custom_role_source := None\<rparr>)
          else (case role_number f of
                  None \<Rightarrow> Inl 400
                | Some i \<Rightarrow> if \<not> role_exists st i then Inl 404
                            else Inr (a\<lparr>u_custom_role_id := Some i, acc_custom_role_source := None\<rparr>)))"

definition change_active :: "auth_result \<Rightarrow> site \<Rightarrow> user_change \<Rightarrow> account \<Rightarrow> int + account" where
  "change_active res st c a =
     (case uc_active c of
        None \<Rightarrow> Inr a
      | Some b \<Rightarrow>
          if \<not> is_admin res then Inl 403
          else if u_id (r_user res) = u_id a \<and> \<not> b then Inl 403
          else if \<not> b \<and> is_last_active_admin st a then Inl 409
          else Inr (a\<lparr>u_active := b\<rparr>))"

definition change_exemption :: "auth_result \<Rightarrow> user_change \<Rightarrow> account \<Rightarrow> int + account" where
  "change_exemption res c a =
     (case uc_totp_exempt c of
        None \<Rightarrow> Inr a
      | Some b \<Rightarrow> if \<not> is_admin res then Inl 403 else Inr (a\<lparr>u_totp_exempt := b\<rparr>))"

text \<open>One's own password is changed only by who knows it.\<close>

definition change_own_or_other ::
    "route_env \<Rightarrow> auth_result \<Rightarrow> string \<Rightarrow> string \<Rightarrow> account \<Rightarrow> int + account" where
  "change_own_or_other env res current password a =
     (if u_id (r_user res) = u_id a
      then (case check_password (re_lib env) (re_salt env) current a of
              (ok, a') \<Rightarrow> if current = [] \<or> \<not> ok then Inl 400
                          else Inr (set_password (re_lib env) (re_salt env) password a'))
      else Inr (set_password (re_lib env) (re_salt env) password a))"

definition change_password_field ::
    "route_env \<Rightarrow> auth_result \<Rightarrow> site \<Rightarrow> user_change \<Rightarrow> account \<Rightarrow> int + account" where
  "change_password_field env res st c a =
     (case uc_password c of
        None \<Rightarrow> Inr a
      | Some p \<Rightarrow>
          if p = [] then Inr a
          else if \<not> validate_password_strength st p None then Inl 400
          else change_own_or_other env res (uc_current_password c) p a)"

definition apply_changes :: "route_env \<Rightarrow> auth_result \<Rightarrow> site \<Rightarrow> user_change \<Rightarrow> account \<Rightarrow> int + account" where
  "apply_changes env res st c a =
     sum_bind (change_email st c a) (\<lambda>a. sum_bind (change_role res st c a) (\<lambda>a.
     sum_bind (change_custom_role res st c a) (\<lambda>a. sum_bind (change_active res st c a) (\<lambda>a.
     sum_bind (change_exemption res c a) (\<lambda>a. change_password_field env res st c a)))))"

definition update_user :: "route_env \<Rightarrow> auth_result \<Rightarrow> int \<Rightarrow> user_change \<Rightarrow> site \<Rightarrow> route_answer \<times> site" where
  "update_user env res i c st =
     (if refuse_api_key_on_own_account res i then (Route_Error 403, st)
      else if \<not> is_admin res \<and> u_id (r_user res) \<noteq> i then (Route_Error 403, st)
      else (case get_account st i of
              None \<Rightarrow> (Route_Error 404, st)
            | Some a \<Rightarrow>
                (case apply_changes env res st c a of
                   Inl status \<Rightarrow> (Route_Error status, st)
                 | Inr a' \<Rightarrow> finish env st (put_account a' st))))"

text \<open>The check of a toggle gives the new value, which is then stored.\<close>

definition toggle_check :: "auth_result \<Rightarrow> int \<Rightarrow> site \<Rightarrow> int + bool" where
  "toggle_check res i st =
     (if \<not> is_admin res \<or> u_id (r_user res) = i then Inl 403
      else (case get_account st i of
              None \<Rightarrow> Inl 404
            | Some a \<Rightarrow> if u_active a \<and> is_last_active_admin st a then Inl 409 else Inr (\<not> u_active a)))"

definition store_active :: "int \<Rightarrow> bool \<Rightarrow> site \<Rightarrow> site" where
  "store_active i b st = st\<lparr>si_accounts := update_rows (\<lambda>a. u_id a = i) (\<lambda>a. a\<lparr>u_active := b\<rparr>) (si_accounts st)\<rparr>"

definition toggle_user_status :: "route_env \<Rightarrow> auth_result \<Rightarrow> int \<Rightarrow> site \<Rightarrow> route_answer \<times> site" where
  "toggle_user_status env res i st =
     (case toggle_check res i st of
        Inl status \<Rightarrow> (Route_Error status, st)
      | Inr b \<Rightarrow> finish env st (store_active i b st))"

section \<open>Deletion\<close>

definition pending_approvals :: "route_env \<Rightarrow> int \<Rightarrow> site \<Rightarrow> nat \<times> site" where
  "pending_approvals env i st =
     (case expire_stale_requests (re_commit env) (re_now env) [] (si_approvals st) of
        (_, db) \<Rightarrow> (count_rows (\<lambda>r. ar_requester_id r = Some i \<and> ar_status r = Pending) (ap_requests db),
                    st\<lparr>si_approvals := db\<rparr>))"

definition purge_user_dependencies :: "int \<Rightarrow> site \<Rightarrow> site" where
  "purge_user_dependencies i st =
     st\<lparr>si_user_sessions := filter (\<lambda>u. u \<noteq> i) (si_user_sessions st),
        si_security_keys := filter (\<lambda>w. w_user_id w \<noteq> i) (si_security_keys st),
        si_challenges := filter (\<lambda>w. wc_user_id w \<noteq> i) (si_challenges st),
        si_client_certs := filter (\<lambda>u. u \<noteq> i) (si_client_certs st),
        si_sso_sessions := filter (\<lambda>u. u \<noteq> i) (si_sso_sessions st),
        si_keys := filter (\<lambda>k. k_user_id k \<noteq> i) (si_keys st),
        si_rbac := (si_rbac st)\<lparr>db_members := filter (\<lambda>m. snd m \<noteq> i) (db_members (si_rbac st))\<rparr>,
        si_approvals := (si_approvals st)\<lparr>ap_requests :=
          filter (\<lambda>r. \<not> (ar_requester_id r = Some i \<and> ar_status r \<noteq> Pending)) (ap_requests (si_approvals st))\<rparr>,
        si_hsm_creators := map (\<lambda>c. if c = Some i then None else c) (si_hsm_creators st)\<rparr>"

definition remove_account :: "int \<Rightarrow> site \<Rightarrow> site" where
  "remove_account i st =
     (purge_user_dependencies i st)\<lparr>si_accounts := filter (\<lambda>a. u_id a \<noteq> i) (si_accounts st)\<rparr>"

text \<open>Expired requests are closed by a transaction of their own, before the row is removed.\<close>

definition delete_one :: "route_env \<Rightarrow> auth_result \<Rightarrow> int \<Rightarrow> site \<Rightarrow> route_answer \<times> site" where
  "delete_one env res i st =
     (if u_id (r_user res) = i then (Route_Error 403, st)
      else (case get_account st i of
              None \<Rightarrow> (Route_Error 404, st)
            | Some a \<Rightarrow>
                if is_last_active_admin st a then (Route_Error 409, st)
                else (case pending_approvals env i st of
                        (n, st') \<Rightarrow> if 0 < n then (Route_Error 409, st') else finish env st' (remove_account i st'))))"

definition delete_user :: "route_env \<Rightarrow> auth_result \<Rightarrow> int \<Rightarrow> site \<Rightarrow> route_answer \<times> site" where
  "delete_user env res i st = (if \<not> is_admin res then (Route_Error 403, st) else delete_one env res i st)"

fun delete_each :: "route_env \<Rightarrow> auth_result \<Rightarrow> int list \<Rightarrow> site \<Rightarrow> int list \<times> site" where
  "delete_each env res [] st = ([], st)"
| "delete_each env res (i # is) st =
     (case delete_one env res i st of
        (answer, st1) \<Rightarrow> (case delete_each env res is st1 of
           (gone, st2) \<Rightarrow> (if answer = Route_Done then i # gone else gone, st2)))"

definition bulk_delete_users :: "route_env \<Rightarrow> auth_result \<Rightarrow> int list \<Rightarrow> site \<Rightarrow> route_answer \<times> site" where
  "bulk_delete_users env res is st =
     (if \<not> is_admin res then (Route_Error 403, st)
      else if is = [] \<or> 100 < length is then (Route_Error 400, st)
      else (Route_Done, snd (delete_each env res is st)))"

section \<open>Passwords, second factors and sign-on of other users\<close>

text \<open>
  Only an administrator reaches another account; \<open>change_own_or_other\<close> asks for the current password of
  one's own.
\<close>

definition reset_user_password ::
    "route_env \<Rightarrow> auth_result \<Rightarrow> int \<Rightarrow> string \<Rightarrow> string \<Rightarrow> site \<Rightarrow> route_answer \<times> site" where
  "reset_user_password env res i current password st =
     (if refuse_api_key_on_own_account res i then (Route_Error 403, st)
      else if \<not> is_admin res \<and> u_id (r_user res) \<noteq> i then (Route_Error 403, st)
      else (case get_account st i of
              None \<Rightarrow> (Route_Error 404, st)
            | Some a \<Rightarrow>
                if password = [] then (Route_Error 400, st)
                else (case change_own_or_other env res current password a of
                        Inl status \<Rightarrow> (Route_Error status, st)
                      | Inr a' \<Rightarrow>
                          if \<not> validate_password_strength st password None then (Route_Error 400, st)
                          else finish env st (put_account a' st))))"

text \<open>The routes that only an administrator may call, and never with a key on the own account.\<close>

definition admin_change ::
    "route_env \<Rightarrow> auth_result \<Rightarrow> int \<Rightarrow> (account \<Rightarrow> int + account) \<Rightarrow> site \<Rightarrow> route_answer \<times> site" where
  "admin_change env res i f st =
     (if refuse_api_key_on_own_account res i \<or> \<not> is_admin res then (Route_Error 403, st)
      else (case get_account st i of
              None \<Rightarrow> (Route_Error 404, st)
            | Some a \<Rightarrow> (case f a of
                           Inl status \<Rightarrow> (Route_Error status, st)
                         | Inr a' \<Rightarrow> finish env st (put_account a' st))))"

definition clear_second_factors :: "account \<Rightarrow> account" where
  "clear_second_factors a =
     a\<lparr>u_totp_confirmed := False, acc_totp_secret := None, acc_backup_codes := None, u_webauthn_2fa := False\<rparr>"

definition reset_user_2fa :: "route_env \<Rightarrow> auth_result \<Rightarrow> int \<Rightarrow> site \<Rightarrow> route_answer \<times> site" where
  "reset_user_2fa env res i st = admin_change env res i (\<lambda>a. Inr (clear_second_factors a)) st"

definition SSO_NO_PASSWORD :: string where "SSO_NO_PASSWORD = ''!SSO_NO_PASSWORD!''"

definition local_source :: "account \<Rightarrow> bool" where
  "local_source a \<longleftrightarrow> (if u_auth_source a = [] then ''local'' else u_auth_source a) = ''local''"

definition has_provider :: "account \<Rightarrow> bool" where
  "has_provider a \<longleftrightarrow> (case acc_sso_provider_id a of None \<Rightarrow> False | Some i \<Rightarrow> i \<noteq> 0)"

definition link_user_sso :: "route_env \<Rightarrow> auth_result \<Rightarrow> int \<Rightarrow> int \<Rightarrow> site \<Rightarrow> route_answer \<times> site" where
  "link_user_sso env res i provider st =
     admin_change env res i
       (\<lambda>a. if \<not> local_source a \<or> has_provider a then Inl 400
            else if provider = 0 then Inl 400
            else (case first_row (\<lambda>p. pr_id p = provider) (si_providers st) of
                    None \<Rightarrow> Inl 404
                  | Some p \<Rightarrow> Inr (a\<lparr>u_auth_source := pr_type p, acc_sso_provider_id := Some (pr_id p),
                                     u_sso_provider := Some (sso_provider.truncate p)\<rparr>))) st"

definition unlink_user_sso :: "route_env \<Rightarrow> auth_result \<Rightarrow> int \<Rightarrow> site \<Rightarrow> route_answer \<times> site" where
  "unlink_user_sso env res i st =
     admin_change env res i
       (\<lambda>a. if local_source a \<and> \<not> has_provider a then Inl 400
            else Inr (a\<lparr>u_auth_source := ''local'', acc_sso_provider_id := None, u_sso_provider := None,
                        acc_sso_external_id := None,
                        u_force_password_change := acc_password_hash a = SSO_NO_PASSWORD \<or> u_force_password_change a\<rparr>)) st"

definition unlock_user :: "route_env \<Rightarrow> auth_result \<Rightarrow> int \<Rightarrow> site \<Rightarrow> route_answer \<times> site" where
  "unlock_user env res i st =
     (if \<not> is_admin res then (Route_Error 403, st)
      else (case get_account st i of
              None \<Rightarrow> (Route_Error 404, st)
            | Some a \<Rightarrow>
                if acc_locked_until a = None \<and> acc_failed_logins a = 0 then (Route_Done, st)
                else finish env st (put_account (a\<lparr>acc_failed_logins := 0, acc_locked_until := None\<rparr>) st)))"

section \<open>Import\<close>

definition MAX_CSV_ROWS :: nat where "MAX_CSV_ROWS = 10000"

record csv_row =
  cv_username :: string
  cv_email :: string
  cv_role :: "string option"
  cv_password :: string

definition csv_role :: "csv_row \<Rightarrow> string" where
  "csv_role r =
     (let role = py_strip (case cv_role r of None \<Rightarrow> ''viewer'' | Some [] \<Rightarrow> ''viewer'' | Some x \<Rightarrow> x)
      in if role = [] then ''viewer'' else role)"

definition csv_refused :: "site \<Rightarrow> csv_row \<Rightarrow> bool" where
  "csv_refused st r \<longleftrightarrow>
     cv_username r = [] \<or> cv_email r = [] \<or> cv_password r = []
     \<or> \<not> validate_password_strength st (cv_password r) None
     \<or> (\<exists>a \<in> set (si_accounts st). acc_username a = cv_username r)
     \<or> (\<exists>a \<in> set (si_accounts st). acc_email a = cv_email r)
     \<or> csv_role r \<notin> set BUILTIN_ROLES"

fun import_each :: "route_env \<Rightarrow> nat \<Rightarrow> csv_row list \<Rightarrow> site \<Rightarrow> site" where
  "import_each env n [] st = st"
| "import_each env n (r # rs) st =
     (if MAX_CSV_ROWS < n + 1 then st
      else import_each env (n + 1) rs
             (if csv_refused st r then st
              else st\<lparr>si_accounts := si_accounts st @
                        [set_password (re_lib env) (re_salt env) (cv_password r)
                           (blank_account (new_account_id st) (cv_username r) (cv_email r) (csv_role r) None True)]\<rparr>))"

definition import_users :: "route_env \<Rightarrow> auth_result \<Rightarrow> csv_row list \<Rightarrow> site \<Rightarrow> route_answer \<times> site" where
  "import_users env res rows st =
     (if \<not> is_admin res then (Route_Error 403, st) else finish env st (import_each env 0 rows st))"

section \<open>One's own password and API keys\<close>

text \<open>
  The rows of \<^verbatim>\<open>user_sessions\<close> are deleted in a second transaction, whose failure the answer does not
  show.
\<close>

definition change_password ::
    "route_env \<Rightarrow> bool \<Rightarrow> auth_result \<Rightarrow> string \<Rightarrow> string \<Rightarrow> site \<Rightarrow> route_answer \<times> site" where
  "change_password env commit2 res current password st =
     (case get_account st (u_id (r_user res)) of
        None \<Rightarrow> (Route_Error 404, st)
      | Some a \<Rightarrow>
          let skip = u_force_password_change a
          in if \<not> skip \<and> current = [] then (Route_Error 400, st)
             else if password = [] \<or> \<not> validate_password_strength st password None then (Route_Error 400, st)
             else (case (if skip then (True, a) else check_password (re_lib env) (re_salt env) current a) of
                     (ok, a1) \<Rightarrow>
                       if \<not> ok then (Route_Error 401, st)
                       else if \<not> re_commit env then (Route_Error 500, st)
                       else let st1 = put_account ((set_password (re_lib env) (re_salt env) password a1)
                                                     \<lparr>u_force_password_change := False\<rparr>) st
                            in (Route_Done, if commit2 then st1\<lparr>si_user_sessions := filter (\<lambda>u. u \<noteq> u_id a) (si_user_sessions st1)\<rparr>
                                            else st1)))"

definition key_expired :: "datetime \<Rightarrow> api_key \<Rightarrow> bool" where
  "key_expired now k \<longleftrightarrow> (case k_expires_at k of None \<Rightarrow> False | Some t \<Rightarrow> t < now)"

definition revoke_or_delete :: "route_env \<Rightarrow> api_key \<Rightarrow> site \<Rightarrow> route_answer \<times> site" where
  "revoke_or_delete env k st =
     finish env st
       (if k_is_active k \<and> \<not> key_expired (re_now env) k
        then st\<lparr>si_keys := update_rows (\<lambda>x. k_id x = k_id k) (\<lambda>x. x\<lparr>k_is_active := False\<rparr>) (si_keys st)\<rparr>
        else st\<lparr>si_keys := filter (\<lambda>x. k_id x \<noteq> k_id k) (si_keys st)\<rparr>)"

definition delete_user_api_key :: "route_env \<Rightarrow> auth_result \<Rightarrow> int \<Rightarrow> int \<Rightarrow> site \<Rightarrow> route_answer \<times> site" where
  "delete_user_api_key env res i key st =
     (if refuse_api_key_on_own_account res i then (Route_Error 403, st)
      else (case get_account st i of
              None \<Rightarrow> (Route_Error 404, st)
            | Some a \<Rightarrow>
                (case first_row (\<lambda>k. k_id k = key \<and> k_user_id k = u_id a) (si_keys st) of
                   None \<Rightarrow> (Route_Error 404, st)
                 | Some k \<Rightarrow> revoke_or_delete env k st)))"

section \<open>Requests\<close>

datatype account_op =
    Create_User user_form | Update_User int user_change | Toggle_User int | Delete_User int
  | Bulk_Delete_Users "int list" | Reset_User_Password int string string | Reset_User_2fa int
  | Link_User_Sso int int | Unlink_User_Sso int | Unlock_User int | Import_Users "csv_row list"
  | Change_Password bool string string | Delete_User_Api_Key int int

fun account_route :: "route_env \<Rightarrow> auth_result \<Rightarrow> account_op \<Rightarrow> site \<Rightarrow> route_answer \<times> site" where
  "account_route env res (Create_User f) st = create_user env res f st"
| "account_route env res (Update_User i c) st = update_user env res i c st"
| "account_route env res (Toggle_User i) st = toggle_user_status env res i st"
| "account_route env res (Delete_User i) st = delete_user env res i st"
| "account_route env res (Bulk_Delete_Users is) st = bulk_delete_users env res is st"
| "account_route env res (Reset_User_Password i c p) st = reset_user_password env res i c p st"
| "account_route env res (Reset_User_2fa i) st = reset_user_2fa env res i st"
| "account_route env res (Link_User_Sso i p) st = link_user_sso env res i p st"
| "account_route env res (Unlink_User_Sso i) st = unlink_user_sso env res i st"
| "account_route env res (Unlock_User i) st = unlock_user env res i st"
| "account_route env res (Import_Users rows) st = import_users env res rows st"
| "account_route env res (Change_Password c2 c p) st = change_password env c2 res c p st"
| "account_route env res (Delete_User_Api_Key i k) st = delete_user_api_key env res i k st"

fun op_permissions :: "account_op \<Rightarrow> string list" where
  "op_permissions (Change_Password _ _ _) = []"
| "op_permissions (Delete_User _) = [''delete:users'']"
| "op_permissions (Bulk_Delete_Users _) = [''delete:users'']"
| "op_permissions _ = [''write:users'']"

fun op_session_only :: "account_op \<Rightarrow> bool" where
  "op_session_only (Change_Password _ _ _) = True"
| "op_session_only _ = False"

text \<open>
  A request through the decorator: what it carries, and the operation its path and body stand for.
  \<open>None\<close> when the decorator refuses it.
\<close>

record account_request =
  rq_sha :: "string \<Rightarrow> string"
  rq_touch :: bool
  rq_request :: request
  rq_session :: flask_session
  rq_env :: route_env
  rq_op :: account_op

definition serve :: "account_request \<Rightarrow> site \<Rightarrow> route_answer option \<times> site" where
  "serve rq st =
     (case require_auth (op_permissions (rq_op rq)) (op_session_only (rq_op rq)) (rq_sha rq) (rq_touch rq)
             (re_now (rq_env rq)) (rq_request rq) \<lparr>e_db = db_of st, e_session = rq_session rq\<rparr> of
        (answer, env') \<Rightarrow>
          let st1 = st\<lparr>si_keys := a_keys (e_db env')\<rparr>
          in (case answer of
                Call_Route res \<Rightarrow> (case account_route (rq_env rq) res (rq_op rq) st1 of (a, st2) \<Rightarrow> (Some a, st2))
              | _ \<Rightarrow> (None, st1)))"

definition serve_all :: "account_request list \<Rightarrow> site \<Rightarrow> site" where
  "serve_all rqs st = fold (\<lambda>rq st. snd (serve rq st)) rqs st"

end
