(* ===== verification/Second_Factors.thy ===== *)
theory Second_Factors
  imports Accounts
begin

text \<open>
  Second factors: recovery codes (\<^verbatim>\<open>utils/backup_codes.py\<close>), one-time passwords
  (\<^verbatim>\<open>api/v2/account/twofa.py\<close>) and security keys (\<^verbatim>\<open>services/webauthn_service.py\<close>, \<^verbatim>\<open>api/v2/webauthn.py\<close>
  and the administrator's routes of \<^verbatim>\<open>api/v2/users/management.py\<close>).

  One-time passwords (pyotp) and the WebAuthn verifier are library code: \<open>factor_lib\<close>. An assertion or
  attestation is what the routes read of it: the decoded credential id and challenge (\<open>None\<close> where
  decoding raises) and the rest. A random secret, code or challenge is an argument. Options for the
  browser, transports and names of keys are left out.
\<close>

section \<open>Recovery codes\<close>

definition HASH_PREFIXES :: "string list" where
  "HASH_PREFIXES = [''scrypt:'', ''pbkdf2:'', ''argon2:'']"

definition hash_codes :: "password_lib \<Rightarrow> (nat \<Rightarrow> string) \<Rightarrow> string list \<Rightarrow> code_column" where
  "hash_codes lib salts codes = Codes_Json (map (\<lambda>(i, c). pl_hash lib (salts i) c) (enumerate 0 codes))"

fun load_entries :: "code_column option \<Rightarrow> string list \<times> bool" where
  "load_entries None = ([], False)"
| "load_entries (Some (Codes_Json [])) = ([], False)"
| "load_entries (Some (Codes_Json (x # xs))) = (x # xs, list_ex (starts_with x) HASH_PREFIXES)"
| "load_entries (Some (Codes_Text t)) = (filter (\<lambda>c. c \<noteq> []) (py_split CHR '','' (py_strip t)), False)"

definition count_remaining :: "code_column option \<Rightarrow> nat" where
  "count_remaining blob = length (fst (load_entries blob))"

definition entry_matches :: "password_lib \<Rightarrow> bool \<Rightarrow> string \<Rightarrow> string \<Rightarrow> bool" where
  "entry_matches lib hashed code entry \<longleftrightarrow> (if hashed then verify_password lib entry code else entry = code)"

definition verify_code_only :: "password_lib \<Rightarrow> code_column option \<Rightarrow> string \<Rightarrow> bool" where
  "verify_code_only lib blob code =
     (case load_entries blob of
        (entries, hashed) \<Rightarrow> let code = py_strip code in code \<noteq> [] \<and> list_ex (entry_matches lib hashed code) entries)"

text \<open>The index of the first entry that matches.\<close>

fun matched_index :: "(string \<Rightarrow> bool) \<Rightarrow> string list \<Rightarrow> nat option" where
  "matched_index m [] = None"
| "matched_index m (e # es) = (if m e then Some 0 else map_option Suc (matched_index m es))"

definition matched_entry :: "password_lib \<Rightarrow> code_column option \<Rightarrow> string \<Rightarrow> (string \<times> string list) option" where
  "matched_entry lib blob code =
     (case load_entries blob of
        (entries, hashed) \<Rightarrow>
          if py_strip code = [] then None
          else map_option (\<lambda>i. (entries ! i, take i entries @ drop (Suc i) entries))
                 (matched_index (entry_matches lib hashed (py_strip code)) entries))"

text \<open>
  \<open>seen\<close> is the row as this request read it, perhaps before another request changed the column: the
  update reaches the row only when the column still holds what was read.
\<close>

definition consume_code :: "password_lib \<Rightarrow> account \<Rightarrow> string \<Rightarrow> site \<Rightarrow> bool \<times> site" where
  "consume_code lib seen code st =
     (case matched_entry lib (acc_backup_codes seen) code of
        None \<Rightarrow> (False, st)
      | Some (_, remaining) \<Rightarrow>
          let here = (\<lambda>a. u_id a = u_id seen \<and> acc_backup_codes a = acc_backup_codes seen)
          in if count_rows here (si_accounts st) \<noteq> 1 then (False, st)
             else (True, st\<lparr>si_accounts := update_rows here (\<lambda>a. a\<lparr>acc_backup_codes := Some (Codes_Json remaining)\<rparr>)
                                             (si_accounts st)\<rparr>))"

section \<open>One-time passwords\<close>

record assertion =
  as_credential :: "string option"
  as_challenge :: "string option"
  as_body :: string

record factor_lib =
  fl_passwords :: password_lib
  fl_totp :: "string \<Rightarrow> string \<Rightarrow> nat \<Rightarrow> datetime \<Rightarrow> bool"
  fl_register :: "assertion \<Rightarrow> string \<Rightarrow> string \<Rightarrow> string \<Rightarrow> (string \<times> string \<times> int) option"
  fl_authenticate :: "assertion \<Rightarrow> string \<Rightarrow> string \<Rightarrow> string \<Rightarrow> string \<Rightarrow> int option"

text \<open>\<open>pyotp.TOTP(secret).verify(code)\<close>, with the window of accepted steps.\<close>

definition totp_ok :: "factor_lib \<Rightarrow> route_env \<Rightarrow> string option \<Rightarrow> string \<Rightarrow> nat \<Rightarrow> bool" where
  "totp_ok lib env secret code window = (case secret of None \<Rightarrow> False | Some s \<Rightarrow> fl_totp lib s code window (re_now env))"

definition own_account :: "auth_result \<Rightarrow> site \<Rightarrow> account option" where
  "own_account res st = get_account st (u_id (r_user res))"

definition has_secret :: "account \<Rightarrow> bool" where
  "has_secret a \<longleftrightarrow> (case acc_totp_secret a of None \<Rightarrow> False | Some s \<Rightarrow> s \<noteq> [])"

definition enable_2fa :: "route_env \<Rightarrow> string \<Rightarrow> auth_result \<Rightarrow> site \<Rightarrow> route_answer \<times> site" where
  "enable_2fa env secret res st =
     (case own_account res st of
        None \<Rightarrow> (Route_Error 404, st)
      | Some a \<Rightarrow> if u_totp_confirmed a then (Route_Error 409, st)
                  else finish env st (put_account (a\<lparr>acc_totp_secret := Some secret\<rparr>) st))"

text \<open>
  \<open>codes\<close> are the eight new recovery codes, \<open>salts\<close> the salts of their hashes. A confirmed factor lifts
  the enrolment gate of the session.
\<close>

definition lift_gate :: "'a flask_session_scheme \<Rightarrow> 'a flask_session_scheme" where
  "lift_gate ses = ses\<lparr>s_must_enroll_2fa := False\<rparr>"

definition confirm_2fa ::
    "factor_lib \<Rightarrow> route_env \<Rightarrow> (nat \<Rightarrow> string) \<Rightarrow> string list \<Rightarrow> string \<Rightarrow> auth_result \<Rightarrow>
     site \<times> 'a flask_session_scheme \<Rightarrow> route_answer \<times> site \<times> 'a flask_session_scheme" where
  "confirm_2fa lib env salts codes code res = (\<lambda>(st, ses).
     (if code = [] then (Route_Error 400, st, ses)
      else (case own_account res st of
              None \<Rightarrow> (Route_Error 400, st, ses)
            | Some a \<Rightarrow>
                if \<not> has_secret a \<or> \<not> totp_ok lib env (acc_totp_secret a) code 0 then (Route_Error 400, st, ses)
                else (case finish env st (put_account (a\<lparr>u_totp_confirmed := True,
                             acc_backup_codes := Some (hash_codes (fl_passwords lib) salts codes)\<rparr>) st) of
                        (answer, st') \<Rightarrow> (answer, st', if answer = Route_Done then lift_gate ses else ses)))))"

text \<open>The guard on the factor is read under the lock of the row.\<close>

definition disable_2fa ::
    "factor_lib \<Rightarrow> route_env \<Rightarrow> string \<Rightarrow> string \<Rightarrow> auth_result \<Rightarrow> site \<Rightarrow> route_answer \<times> site" where
  "disable_2fa lib env code backup_code res st =
     (if code = [] \<and> backup_code = [] then (Route_Error 400, st)
      else (case own_account res st of
              None \<Rightarrow> (Route_Error 404, st)
            | Some a \<Rightarrow>
                let u = user.truncate a; db = db_of st
                in if would_leave_no_second_factor db u True None then (Route_Error 403, st)
                   else if (if code \<noteq> [] then \<not> has_secret a \<or> \<not> totp_ok lib env (acc_totp_secret a) code 0
                            else \<not> verify_code_only (fl_passwords lib) (acc_backup_codes a) backup_code)
                   then (Route_Error 400, st)
                   else finish env st (put_account
                          (a\<lparr>u_webauthn_2fa := u_webauthn_2fa a \<or> (enforcement_active_for db u None \<and> has_security_key db u None),
                             u_totp_confirmed := False, acc_totp_secret := None, acc_backup_codes := None\<rparr>) st)))"

definition set_webauthn_second_factor ::
    "factor_lib \<Rightarrow> route_env \<Rightarrow> bool \<Rightarrow> string option \<Rightarrow> auth_result \<Rightarrow> site \<Rightarrow> route_answer \<times> site" where
  "set_webauthn_second_factor lib env enabled password res st =
     (case own_account res st of
        None \<Rightarrow> (Route_Error 404, st)
      | Some a \<Rightarrow>
          if enabled \<and> \<not> has_security_key (db_of st) (user.truncate a) None then (Route_Error 400, st)
          else (case (if \<not> enabled \<and> local_source a
                      then (case password of None \<Rightarrow> (False, a) | Some p \<Rightarrow> check_password (fl_passwords lib) (re_salt env) p a)
                      else (True, a)) of
                  (ok, a') \<Rightarrow> if \<not> ok then (Route_Error 403, st)
                              else finish env st (put_account (a'\<lparr>u_webauthn_2fa := enabled\<rparr>) st)))"

definition regenerate_recovery_codes ::
    "factor_lib \<Rightarrow> route_env \<Rightarrow> (nat \<Rightarrow> string) \<Rightarrow> string list \<Rightarrow> string \<Rightarrow> auth_result \<Rightarrow> site \<Rightarrow> route_answer \<times> site" where
  "regenerate_recovery_codes lib env salts codes code res st =
     (if code = [] then (Route_Error 400, st)
      else (case own_account res st of
              None \<Rightarrow> (Route_Error 400, st)
            | Some a \<Rightarrow>
                if \<not> u_totp_confirmed a \<or> \<not> totp_ok lib env (acc_totp_secret a) code 0 then (Route_Error 400, st)
                else finish env st (put_account (a\<lparr>acc_backup_codes := Some (hash_codes (fl_passwords lib) salts codes)\<rparr>) st)))"

section \<open>Security keys\<close>

definition CHALLENGE_TIMEOUT :: int where "CHALLENGE_TIMEOUT = minutes 5"

definition get_rp_id :: "string \<Rightarrow> string" where
  "get_rp_id hostname = (if CHR '':'' \<in> set hostname then before_sep CHR '':'' hostname else hostname)"

definition is_valid_challenge :: "datetime \<Rightarrow> webauthn_challenge \<Rightarrow> bool" where
  "is_valid_challenge now c \<longleftrightarrow> \<not> wc_used c \<and> now < wc_expires_at c"

definition clean_challenges :: "datetime \<Rightarrow> int \<Rightarrow> string \<Rightarrow> webauthn_challenge list \<Rightarrow> webauthn_challenge list" where
  "clean_challenges now i kind cs =
     filter (\<lambda>c. \<not> (wc_user_id c = i \<and> wc_type c = kind \<and> (wc_used c \<or> wc_expires_at c < now))) cs"

definition store_challenge :: "route_env \<Rightarrow> string \<Rightarrow> int \<Rightarrow> string \<Rightarrow> site \<Rightarrow> bool \<times> site" where
  "store_challenge env challenge i kind st =
     (if re_commit env
      then (True, st\<lparr>si_challenges := clean_challenges (re_now env) i kind (si_challenges st) @
              [\<lparr>wc_user_id = i, wc_challenge = challenge, wc_type = kind,
                wc_expires_at = re_now env + CHALLENGE_TIMEOUT, wc_used = False\<rparr>]\<rparr>)
      else (False, st))"

definition registration_options :: "route_env \<Rightarrow> string \<Rightarrow> auth_result \<Rightarrow> site \<Rightarrow> bool \<times> site" where
  "registration_options env challenge res st = store_challenge env challenge (u_id (r_user res)) ''registration'' st"

definition authentication_options_for :: "route_env \<Rightarrow> string \<Rightarrow> int \<Rightarrow> string \<Rightarrow> site \<Rightarrow> string option \<times> site" where
  "authentication_options_for env challenge i kind st =
     (if first_row (\<lambda>w. w_user_id w = i \<and> w_enabled w) (si_security_keys st) = None then (None, st)
      else (case store_challenge env challenge i kind st of
              (ok, st') \<Rightarrow> (if ok then Some challenge else None, st')))"

definition find_challenge :: "int \<Rightarrow> string \<Rightarrow> string \<Rightarrow> site \<Rightarrow> webauthn_challenge option" where
  "find_challenge i kind challenge st =
     first_row (\<lambda>c. wc_challenge c = challenge \<and> wc_user_id c = i \<and> wc_type c = kind \<and> \<not> wc_used c) (si_challenges st)"

definition drop_challenge :: "webauthn_challenge \<Rightarrow> site \<Rightarrow> site" where
  "drop_challenge c st = st\<lparr>si_challenges := filter (\<lambda>x. wc_challenge x \<noteq> wc_challenge c) (si_challenges st)\<rparr>"

definition new_key_id :: "site \<Rightarrow> int" where
  "new_key_id st = 1 + foldr max (map w_id (si_security_keys st)) 0"

text \<open>The credential id is a unique column: an id that is stored makes the insertion fail.\<close>

definition verify_registration ::
    "factor_lib \<Rightarrow> route_env \<Rightarrow> int \<Rightarrow> assertion \<Rightarrow> string \<Rightarrow> site \<Rightarrow> bool \<times> site" where
  "verify_registration lib env i att hostname st =
     (case as_challenge att of
        None \<Rightarrow> (False, st)
      | Some challenge \<Rightarrow>
          (case find_challenge i ''registration'' challenge st of
             None \<Rightarrow> (False, st)
           | Some c \<Rightarrow>
               if \<not> is_valid_challenge (re_now env) c then (False, st)
               else (case fl_register lib att (wc_challenge c) (get_rp_id hostname) (''https://'' @ hostname) of
                       None \<Rightarrow> (False, st)
                     | Some (cred, key, count) \<Rightarrow>
                         if \<not> re_commit env \<or> (\<exists>w \<in> set (si_security_keys st). sk_credential_id w = cred) then (False, st)
                         else (True, (drop_challenge c st)\<lparr>si_security_keys := si_security_keys st @
                                 [\<lparr>w_id = new_key_id st, w_user_id = i, w_enabled = True, sk_credential_id = cred,
                                   sk_public_key = key, sk_sign_count = count, sk_last_used_at = None\<rparr>]\<rparr>))))"

text \<open>A counter of zero says nothing; any other must be above the stored one.\<close>

definition counter_ok :: "int \<Rightarrow> int \<Rightarrow> bool" where
  "counter_ok stored count \<longleftrightarrow> \<not> (0 < count \<and> count \<le> stored)"

definition verify_authentication ::
    "factor_lib \<Rightarrow> route_env \<Rightarrow> int \<Rightarrow> assertion \<Rightarrow> string \<Rightarrow> string \<Rightarrow> string option \<Rightarrow> site \<Rightarrow> bool \<times> site" where
  "verify_authentication lib env i a hostname kind expected st =
     (case as_credential a of
        None \<Rightarrow> (False, st)
      | Some cred \<Rightarrow>
          (case first_row (\<lambda>w. sk_credential_id w = cred \<and> w_user_id w = i \<and> w_enabled w) (si_security_keys st) of
             None \<Rightarrow> (False, st)
           | Some key \<Rightarrow>
               (case as_challenge a of
                  None \<Rightarrow> (False, st)
                | Some challenge \<Rightarrow>
                    if expected \<noteq> None \<and> expected \<noteq> Some challenge then (False, st)
                    else (case find_challenge i kind challenge st of
                            None \<Rightarrow> (False, st)
                          | Some c \<Rightarrow>
                              if \<not> is_valid_challenge (re_now env) c then (False, st)
                              else (case fl_authenticate lib a (wc_challenge c) (get_rp_id hostname)
                                           (''https://'' @ hostname) (sk_public_key key) of
                                      None \<Rightarrow> (False, st)
                                    | Some count \<Rightarrow>
                                        if \<not> counter_ok (sk_sign_count key) count \<or> \<not> re_commit env then (False, st)
                                        else (True, (drop_challenge c st)\<lparr>si_security_keys :=
                                                update_rows (\<lambda>w. w_id w = w_id key)
                                                  (\<lambda>w. w\<lparr>sk_sign_count := count, sk_last_used_at := Some (re_now env)\<rparr>)
                                                  (si_security_keys st)\<rparr>))))))"

text \<open>Without an enabled key left, the key stops being the owner's second factor.\<close>

definition drop_key_second_factor_if_last :: "security_key \<Rightarrow> site \<Rightarrow> site" where
  "drop_key_second_factor_if_last w st =
     (case get_account st (w_user_id w) of
        None \<Rightarrow> st
      | Some a \<Rightarrow> if has_security_key (db_of st) (user.truncate a) (Some (w_id w)) then st
                  else put_account (a\<lparr>u_webauthn_2fa := False\<rparr>) st)"

definition remove_credential :: "route_env \<Rightarrow> security_key \<Rightarrow> site \<Rightarrow> bool \<times> site" where
  "remove_credential env w st =
     (if \<not> re_commit env then (False, st)
      else (True, (drop_key_second_factor_if_last w st)
                    \<lparr>si_security_keys := filter (\<lambda>x. w_id x \<noteq> w_id w) (si_security_keys st)\<rparr>))"

definition set_credential_enabled :: "route_env \<Rightarrow> security_key \<Rightarrow> bool \<Rightarrow> site \<Rightarrow> bool \<times> site" where
  "set_credential_enabled env w enabled st =
     (if \<not> re_commit env then (False, st)
      else (True, (if enabled then st else drop_key_second_factor_if_last w st)
                    \<lparr>si_security_keys := update_rows (\<lambda>x. w_id x = w_id w) (\<lambda>x. x\<lparr>w_enabled := enabled\<rparr>) (si_security_keys st)\<rparr>))"

definition get_security_key :: "int \<Rightarrow> site \<Rightarrow> security_key option" where
  "get_security_key k st = first_row (\<lambda>w. w_id w = k) (si_security_keys st)"

definition strips_last_factor :: "auth_result \<Rightarrow> int \<Rightarrow> site \<Rightarrow> bool" where
  "strips_last_factor res k st =
     (case get_security_key k st of
        None \<Rightarrow> False
      | Some w \<Rightarrow> if w_user_id w \<noteq> u_id (r_user res) \<or> \<not> w_enabled w then False
                  else snd (lock_for_factor_change (db_of st) (w_user_id w) False (Some (w_id w))))"

definition delete_credential :: "route_env \<Rightarrow> int \<Rightarrow> auth_result \<Rightarrow> site \<Rightarrow> route_answer \<times> site" where
  "delete_credential env k res st =
     (if strips_last_factor res k st then (Route_Error 403, st)
      else (case get_security_key k st of
              None \<Rightarrow> (Route_Error 404, st)
            | Some w \<Rightarrow> if w_user_id w \<noteq> u_id (r_user res) then (Route_Error 404, st)
                        else (case remove_credential env w st of (ok, st') \<Rightarrow> (if ok then Route_Done else Route_Error 404, st'))))"

definition toggle_credential :: "route_env \<Rightarrow> int \<Rightarrow> bool \<Rightarrow> auth_result \<Rightarrow> site \<Rightarrow> route_answer \<times> site" where
  "toggle_credential env k enabled res st =
     (if \<not> enabled \<and> strips_last_factor res k st then (Route_Error 403, st)
      else (case get_security_key k st of
              None \<Rightarrow> (Route_Error 404, st)
            | Some w \<Rightarrow> if w_user_id w \<noteq> u_id (r_user res) then (Route_Error 404, st)
                        else (case set_credential_enabled env w enabled st of (ok, st') \<Rightarrow> (if ok then Route_Done else Route_Error 404, st'))))"

text \<open>
  A registered key lifts the enrolment gate and becomes the second factor; \<open>commit2\<close> is the outcome of
  that second transaction.
\<close>

definition register_key ::
    "factor_lib \<Rightarrow> route_env \<Rightarrow> bool \<Rightarrow> assertion \<Rightarrow> string \<Rightarrow> auth_result \<Rightarrow> site \<times> 'a flask_session_scheme \<Rightarrow>
     route_answer \<times> site \<times> 'a flask_session_scheme" where
  "register_key lib env commit2 att hostname res = (\<lambda>(st, ses).
     (case verify_registration lib env (u_id (r_user res)) att hostname st of
        (False, st') \<Rightarrow> (Route_Error 400, st', ses)
      | (True, st') \<Rightarrow>
          if \<not> s_must_enroll_2fa ses then (Route_Done, st', ses)
          else if \<not> commit2 then (Route_Error 500, st', lift_gate ses)
          else (Route_Done, (case own_account res st' of None \<Rightarrow> st' | Some a \<Rightarrow> put_account (a\<lparr>u_webauthn_2fa := True\<rparr>) st'),
                lift_gate ses)))"

text \<open>The administrator's routes: the last factor goes only when the request confirms it.\<close>

definition users_key :: "int \<Rightarrow> int \<Rightarrow> site \<Rightarrow> security_key option" where
  "users_key i k st =
     (case get_account st i of
        None \<Rightarrow> None
      | Some a \<Rightarrow> (case get_security_key k st of None \<Rightarrow> None | Some w \<Rightarrow> if w_user_id w = u_id a then Some w else None))"

definition refuse_last_factor :: "bool \<Rightarrow> int \<Rightarrow> security_key \<Rightarrow> site \<Rightarrow> bool" where
  "refuse_last_factor confirmed i w st \<longleftrightarrow>
     snd (lock_for_factor_change (db_of st) i False (Some (w_id w))) \<and> w_enabled w \<and> \<not> confirmed"

definition delete_user_security_key ::
    "route_env \<Rightarrow> bool \<Rightarrow> int \<Rightarrow> int \<Rightarrow> auth_result \<Rightarrow> site \<Rightarrow> route_answer \<times> site" where
  "delete_user_security_key env confirmed i k res st =
     (if refuse_api_key_on_own_account res i then (Route_Error 403, st)
      else (case users_key i k st of
              None \<Rightarrow> (Route_Error 404, st)
            | Some w \<Rightarrow> if refuse_last_factor confirmed i w st then (Route_Error 409, st)
                        else (case remove_credential env w st of (ok, st') \<Rightarrow> (if ok then Route_Done else Route_Error 500, st'))))"

definition toggle_user_security_key ::
    "route_env \<Rightarrow> bool \<Rightarrow> int \<Rightarrow> int \<Rightarrow> bool \<Rightarrow> auth_result \<Rightarrow> site \<Rightarrow> route_answer \<times> site" where
  "toggle_user_security_key env confirmed i k enabled res st =
     (if refuse_api_key_on_own_account res i then (Route_Error 403, st)
      else (case users_key i k st of
              None \<Rightarrow> (Route_Error 404, st)
            | Some w \<Rightarrow> if \<not> enabled \<and> refuse_last_factor confirmed i w st then (Route_Error 409, st)
                        else (case set_credential_enabled env w enabled st of (ok, st') \<Rightarrow> (if ok then Route_Done else Route_Error 500, st'))))"

end
