(* ===== verification/Sign_In.thy ===== *)
theory Sign_In
  imports Second_Factors
begin

text \<open>
  Signing in with a password, a second factor or a security key (\<^verbatim>\<open>api/v2/auth_methods.py\<close>), the
  lockout after failed attempts, the attempts of LDAP logins (\<^verbatim>\<open>api/v2/sso/helpers.py\<close>) and the reset of
  a forgotten password (\<^verbatim>\<open>api/v2/auth.py\<close>).

  The server's state is the database and the two tables of failed attempts it keeps in memory; a
  request also has its session. A request reads the clock once and its transactions share one outcome.
  SHA-256 is \<open>sha\<close>, random tokens are arguments. The limits of the routes (flask-limiter), the sign-in
  with a client certificate and with external identity providers, the answer's body and audit entries
  are left out.
\<close>

section \<open>State\<close>

record login_session = flask_session +
  ls_method :: "string option"
  ls_pending :: "int option"
  ls_pending_method :: "string option"
  ls_challenge :: "string option"

definition empty_login :: login_session where
  "empty_login = \<lparr>s_user_id = None, s_login_time = No_Stamp, s_last_activity = No_Stamp, s_must_enroll_2fa = False,
     ls_method = None, ls_pending = None, ls_pending_method = None, ls_challenge = None\<rparr>"

definition full_session :: "datetime \<Rightarrow> int \<Rightarrow> string \<Rightarrow> login_session" where
  "full_session now i auth_method =
     empty_login\<lparr>s_user_id := Some i, s_login_time := Stamp now, s_last_activity := Stamp now, ls_method := Some auth_method\<rparr>"

definition pending_session :: "int \<Rightarrow> login_session" where
  "pending_session i = empty_login\<lparr>ls_pending := Some i, ls_pending_method := Some ''password''\<rparr>"

record attempts =
  at_count :: int
  at_locked :: "datetime option"

type_synonym tracker = "string \<Rightarrow> attempts option"

record server =
  sv_site :: site
  sv_2fa :: tracker
  sv_passkey :: tracker

datatype login_answer = Signed_In | Second_Factor_Asked "string list" | Enrolment_Asked | Login_Error int

section \<open>Lockout\<close>

definition config_number :: "(string \<Rightarrow> string option) \<Rightarrow> string \<Rightarrow> int \<Rightarrow> int option" where
  "config_number cfg key dflt =
     (case cfg key of None \<Rightarrow> Some dflt | Some v \<Rightarrow> if v = [] then Some dflt else py_int 10 v)"

text \<open>One value that is no number puts both back to their defaults.\<close>

definition get_lockout_settings :: "(string \<Rightarrow> string option) \<Rightarrow> int \<times> int" where
  "get_lockout_settings cfg =
     (case (config_number cfg ''max_login_attempts'' 5, config_number cfg ''lockout_duration'' 900) of
        (Some m, Some s) \<Rightarrow> (m, s) | _ \<Rightarrow> (5, 900))"

definition locked_now :: "datetime \<Rightarrow> datetime option \<Rightarrow> bool" where
  "locked_now now until \<longleftrightarrow> (case until of None \<Rightarrow> False | Some t \<Rightarrow> now < t)"

definition check_2fa_lockout :: "datetime \<Rightarrow> string \<Rightarrow> tracker \<Rightarrow> bool \<times> tracker" where
  "check_2fa_lockout now key tr =
     (case tr key of
        None \<Rightarrow> (False, tr)
      | Some e \<Rightarrow> if locked_now now (at_locked e) then (True, tr)
                  else if at_locked e \<noteq> None then (False, tr(key := None)) else (False, tr))"

definition record_2fa_failure :: "int \<times> int \<Rightarrow> datetime \<Rightarrow> string \<Rightarrow> tracker \<Rightarrow> tracker" where
  "record_2fa_failure settings now key tr =
     (let e = (case tr key of None \<Rightarrow> \<lparr>at_count = 0, at_locked = None\<rparr> | Some e \<Rightarrow> e);
          e = e\<lparr>at_count := at_count e + 1\<rparr>
      in tr(key \<mapsto> if fst settings \<le> at_count e then e\<lparr>at_locked := Some (now + seconds (snd settings))\<rparr> else e))"

definition clear_2fa_failures :: "string \<Rightarrow> tracker \<Rightarrow> tracker" where
  "clear_2fa_failures key tr = tr(key := None)"

definition count_failure :: "int \<times> int \<Rightarrow> datetime \<Rightarrow> account \<Rightarrow> account" where
  "count_failure settings now a =
     (let a = a\<lparr>acc_failed_logins := acc_failed_logins a + 1\<rparr>
      in if fst settings \<le> acc_failed_logins a then a\<lparr>acc_locked_until := Some (now + seconds (snd settings))\<rparr> else a)"

definition clear_lockout :: "account \<Rightarrow> account" where
  "clear_lockout a = a\<lparr>acc_locked_until := None, acc_failed_logins := 0\<rparr>"

definition find_username :: "string \<Rightarrow> site \<Rightarrow> account option" where
  "find_username name st = first_row (\<lambda>a. acc_username a = name) (si_accounts st)"

section \<open>Password\<close>

definition login_stats :: "datetime \<Rightarrow> account \<Rightarrow> account" where
  "login_stats now a = a\<lparr>acc_last_login := Some now, acc_login_count := acc_login_count a + 1, acc_failed_logins := 0\<rparr>"

text \<open>What follows a verified password: a second factor, an enrolment, or the session.\<close>

definition after_password :: "datetime \<Rightarrow> site \<Rightarrow> account \<Rightarrow> login_answer \<times> login_session" where
  "after_password now st a =
     (let u = user.truncate a; methods = second_factor_methods (db_of st) u
      in if methods \<noteq> [] then (Second_Factor_Asked methods, pending_session (u_id a))
         else if must_enroll_2fa (db_of st) u ''password'' None
         then (Enrolment_Asked, (full_session now (u_id a) ''password'')\<lparr>s_must_enroll_2fa := True\<rparr>)
         else (Signed_In, full_session now (u_id a) ''password''))"

definition with_site :: "server \<Rightarrow> site \<Rightarrow> server" where
  "with_site sv st = sv\<lparr>sv_site := st\<rparr>"

definition login_password ::
    "route_env \<Rightarrow> string \<Rightarrow> string \<Rightarrow> server \<times> login_session \<Rightarrow> login_answer \<times> server \<times> login_session" where
  "login_password env username password = (\<lambda>(sv, ses).
     (let name = take 255 (py_strip username); pw = take 4096 password; now = re_now env; st = sv_site sv
      in if username = [] \<or> password = [] \<or> name = [] then (Login_Error 400, sv, ses)
         else (case find_username name st of
                 None \<Rightarrow> (Login_Error 401, sv, ses)
               | Some a0 \<Rightarrow>
                   if \<not> u_active a0 then (Login_Error 401, sv, ses)
                   else if locked_now now (acc_locked_until a0) then (Login_Error 429, sv, ses)
                   else if acc_locked_until a0 \<noteq> None \<and> \<not> re_commit env then (Login_Error 500, sv, ses)
                   else let a = (if acc_locked_until a0 = None then a0 else clear_lockout a0)
                        in (case check_password (re_lib env) (re_salt env) pw a of
                              (False, _) \<Rightarrow>
                                if \<not> re_commit env then (Login_Error 500, sv, ses)
                                else (Login_Error 401, with_site sv (put_account (count_failure (get_lockout_settings (si_config st)) now a) st), ses)
                            | (True, a1) \<Rightarrow>
                                if \<not> re_commit env then (Login_Error 500, sv, ses)
                                else let a2 = login_stats now a1; st2 = put_account a2 st
                                in (case after_password now st2 a2 of (answer, ses') \<Rightarrow> (answer, with_site sv st2, ses'))))))"

section \<open>Second factor\<close>

text \<open>\<open>Inl\<close> is the answer to a request without a login that waits for its second factor.\<close>

definition pending_2fa_user ::
    "datetime \<Rightarrow> server \<times> login_session \<Rightarrow> (login_answer \<times> server \<times> login_session) + (account \<times> string \<times> server)" where
  "pending_2fa_user now = (\<lambda>(sv, ses).
     (case ls_pending ses of
        None \<Rightarrow> Inl (Login_Error 401, sv, ses)
      | Some i \<Rightarrow>
          if i = 0 then Inl (Login_Error 401, sv, ses)
          else (case check_2fa_lockout now (show_int i) (sv_2fa sv) of
                  (True, tr) \<Rightarrow> Inl (Login_Error 429, sv\<lparr>sv_2fa := tr\<rparr>, ses)
                | (False, tr) \<Rightarrow>
                    let sv = sv\<lparr>sv_2fa := tr\<rparr>
                    in (case get_account (sv_site sv) i of
                          None \<Rightarrow> Inl (Login_Error 401, sv, empty_login)
                        | Some a \<Rightarrow> if u_active a then Inr (a, show_int i, sv) else Inl (Login_Error 401, sv, empty_login)))))"

definition fail_2fa :: "datetime \<Rightarrow> string \<Rightarrow> server \<Rightarrow> server" where
  "fail_2fa now key sv = sv\<lparr>sv_2fa := record_2fa_failure (get_lockout_settings (si_config (sv_site sv))) now key (sv_2fa sv)\<rparr>"

definition complete_2fa_login ::
    "datetime \<Rightarrow> account \<Rightarrow> string \<Rightarrow> server \<times> login_session \<Rightarrow> login_answer \<times> server \<times> login_session" where
  "complete_2fa_login now a key = (\<lambda>(sv, ses).
     (Signed_In, sv\<lparr>sv_2fa := clear_2fa_failures key (sv_2fa sv)\<rparr>,
      full_session now (u_id a) (case ls_pending_method ses of None \<Rightarrow> ''password'' | Some m \<Rightarrow> m)))"

text \<open>A code is a one-time password or, failing that, a recovery code, which is used up.\<close>

definition login_code :: "string \<Rightarrow> string" where
  "login_code code = take 32 (py_upper (py_strip code))"

definition login_2fa ::
    "factor_lib \<Rightarrow> route_env \<Rightarrow> string \<Rightarrow> server \<times> login_session \<Rightarrow> login_answer \<times> server \<times> login_session" where
  "login_2fa lib env code_sent = (\<lambda>(sv, ses).
     (case pending_2fa_user (re_now env) (sv, ses) of
        Inl refused \<Rightarrow> refused
      | Inr (a, key, sv) \<Rightarrow>
          let code = login_code code_sent
          in if code_sent = [] \<or> length code < 6 then (Login_Error 400, sv, ses)
             else if u_totp_confirmed a \<and> has_secret a \<and> totp_ok lib env (acc_totp_secret a) code 1
             then complete_2fa_login (re_now env) a key (sv, ses)
             else (case consume_code (fl_passwords lib) a code (sv_site sv) of
                     (False, _) \<Rightarrow> (Login_Error 401, fail_2fa (re_now env) key sv, ses)
                   | (True, st') \<Rightarrow>
                       if re_commit env then complete_2fa_login (re_now env) a key (with_site sv st', ses)
                       else (Login_Error 401, sv, ses))))"

definition login_2fa_webauthn_options ::
    "route_env \<Rightarrow> string \<Rightarrow> server \<times> login_session \<Rightarrow> login_answer \<times> server \<times> login_session" where
  "login_2fa_webauthn_options env challenge = (\<lambda>(sv, ses).
     (case pending_2fa_user (re_now env) (sv, ses) of
        Inl refused \<Rightarrow> refused
      | Inr (a, key, sv) \<Rightarrow>
          (case authentication_options_for env challenge (u_id a) ''2fa'' (sv_site sv) of
             (None, st') \<Rightarrow> (Login_Error 400, with_site sv st', ses)
           | (Some c, st') \<Rightarrow> (Second_Factor_Asked [''webauthn''], with_site sv st', ses\<lparr>ls_challenge := Some c\<rparr>))))"

text \<open>One attempt per challenge: the session's challenge is taken whatever the outcome.\<close>

definition login_2fa_webauthn_verify ::
    "factor_lib \<Rightarrow> route_env \<Rightarrow> assertion \<Rightarrow> string \<Rightarrow> server \<times> login_session \<Rightarrow> login_answer \<times> server \<times> login_session" where
  "login_2fa_webauthn_verify lib env a hostname = (\<lambda>(sv, ses).
     (case pending_2fa_user (re_now env) (sv, ses) of
        Inl refused \<Rightarrow> refused
      | Inr (acc, key, sv) \<Rightarrow>
          let ses' = ses\<lparr>ls_challenge := None\<rparr>
          in (case (case ls_challenge ses of
                      None \<Rightarrow> (False, sv_site sv)
                    | Some c \<Rightarrow> if c = [] then (False, sv_site sv)
                                else verify_authentication lib env (u_id acc) a hostname ''2fa'' (Some c) (sv_site sv)) of
                (False, st') \<Rightarrow> (Login_Error 401, fail_2fa (re_now env) key (with_site sv st'), ses')
              | (True, st') \<Rightarrow> complete_2fa_login (re_now env) acc key (with_site sv st', ses'))))"

section \<open>Security key instead of a password\<close>

text \<open>The options for an unknown name are made up and stored nowhere.\<close>

definition webauthn_start :: "route_env \<Rightarrow> string \<Rightarrow> string \<Rightarrow> server \<Rightarrow> server" where
  "webauthn_start env username challenge sv =
     (let name = take 255 (py_strip username)
      in if username = [] \<or> name = [] then sv
         else (case find_username name (sv_site sv) of
                 None \<Rightarrow> sv
               | Some a \<Rightarrow> if \<not> u_active a then sv
                           else with_site sv (snd (authentication_options_for env challenge (u_id a) ''authentication'' (sv_site sv)))))"

definition webauthn_verify ::
    "factor_lib \<Rightarrow> route_env \<Rightarrow> string \<Rightarrow> assertion \<Rightarrow> string \<Rightarrow> server \<times> login_session \<Rightarrow> login_answer \<times> server \<times> login_session" where
  "webauthn_verify lib env username a hostname = (\<lambda>(sv, ses).
     (let name = take 255 (py_strip username); now = re_now env;
          failed = (\<lambda>sv. sv\<lparr>sv_passkey := record_2fa_failure (get_lockout_settings (si_config (sv_site sv))) now name (sv_passkey sv)\<rparr>)
      in if username = [] \<or> name = [] then (Login_Error 400, sv, ses)
         else (case check_2fa_lockout now name (sv_passkey sv) of
                 (True, tr) \<Rightarrow> (Login_Error 429, sv\<lparr>sv_passkey := tr\<rparr>, ses)
               | (False, tr) \<Rightarrow>
                   let sv = sv\<lparr>sv_passkey := tr\<rparr>
                   in (case find_username name (sv_site sv) of
                         None \<Rightarrow> (Login_Error 401, failed sv, ses)
                       | Some acc \<Rightarrow>
                           if \<not> u_active acc then (Login_Error 401, failed sv, ses)
                           else (case verify_authentication lib env (u_id acc) a hostname ''authentication'' None (sv_site sv) of
                                   (False, st') \<Rightarrow> (Login_Error 401, failed (with_site sv st'), ses)
                                 | (True, st') \<Rightarrow>
                                     (Signed_In,
                                      (with_site sv (put_account (login_stats now acc) st'))
                                        \<lparr>sv_passkey := clear_2fa_failures name (sv_passkey sv)\<rparr>,
                                      full_session now (u_id acc) ''webauthn''))))))"

section \<open>LDAP attempts\<close>

definition change_named :: "route_env \<Rightarrow> string \<Rightarrow> (account \<Rightarrow> account) \<Rightarrow> site \<Rightarrow> site" where
  "change_named env name f st =
     (case find_username name st of
        None \<Rightarrow> st | Some a \<Rightarrow> if re_commit env then put_account (f a) st else st)"

definition check_ldap_lockout :: "route_env \<Rightarrow> string \<Rightarrow> site \<Rightarrow> bool \<times> site" where
  "check_ldap_lockout env name st =
     (case find_username name st of
        None \<Rightarrow> (False, st)
      | Some a \<Rightarrow> if locked_now (re_now env) (acc_locked_until a) then (True, st)
                  else if acc_locked_until a = None then (False, st) else (False, change_named env name clear_lockout st))"

definition record_ldap_failed_attempt :: "route_env \<Rightarrow> string \<Rightarrow> site \<Rightarrow> site" where
  "record_ldap_failed_attempt env name st =
     change_named env name (count_failure (get_lockout_settings (si_config st)) (re_now env)) st"

definition clear_ldap_failed_attempts :: "route_env \<Rightarrow> string \<Rightarrow> site \<Rightarrow> site" where
  "clear_ldap_failed_attempts env name st =
     (case find_username name st of
        None \<Rightarrow> st
      | Some a \<Rightarrow> if acc_failed_logins a = 0 \<and> acc_locked_until a = None then st else change_named env name clear_lockout st)"

section \<open>Forgotten passwords\<close>

text \<open>\<open>mail\<close> tells whether mail is configured; the hash of the token is stored, the token is mailed.\<close>

definition forgot_password :: "(string \<Rightarrow> string) \<Rightarrow> route_env \<Rightarrow> bool \<Rightarrow> string \<Rightarrow> string \<Rightarrow> site \<Rightarrow> route_answer \<times> site" where
  "forgot_password sha env mail token email_sent st =
     (let email = py_lower (py_strip email_sent)
      in if \<not> mail then (Route_Error 503, st)
         else if email = [] then (Route_Error 400, st)
         else (case first_row (\<lambda>a. py_lower (acc_email a) = email) (si_accounts st) of
                 None \<Rightarrow> (Route_Done, st)
               | Some a \<Rightarrow> if \<not> u_active a then (Route_Done, st)
                           else finish env st (put_account (a\<lparr>acc_reset_token := Some (sha token),
                                                 acc_reset_expires := Some (re_now env + hours 1)\<rparr>) st)))"

definition reset_password :: "(string \<Rightarrow> string) \<Rightarrow> route_env \<Rightarrow> string \<Rightarrow> string \<Rightarrow> site \<Rightarrow> route_answer \<times> site" where
  "reset_password sha env token_sent password st =
     (let token = py_strip token_sent
      in if token = [] \<or> password = [] \<or> \<not> validate_password_strength st password None then (Route_Error 400, st)
         else (case first_row (\<lambda>a. acc_reset_token a = Some (sha token)) (si_accounts st) of
                 None \<Rightarrow> (Route_Error 400, st)
               | Some a \<Rightarrow>
                   if \<not> u_active a then (Route_Error 400, st)
                   else (case acc_reset_expires a of
                           None \<Rightarrow> (Route_Error 500, st)
                         | Some t \<Rightarrow>
                             if t < re_now env
                             then (if re_commit env
                                   then (Route_Error 400, put_account (a\<lparr>acc_reset_token := None, acc_reset_expires := None\<rparr>) st)
                                   else (Route_Error 500, st))
                             else finish env st (put_account
                                    ((set_password (re_lib env) (re_salt env) password a)
                                       \<lparr>acc_reset_token := None, acc_reset_expires := None, u_force_password_change := False,
                                        acc_failed_logins := 0, acc_locked_until := None\<rparr>) st))))"

end
