(* ===== verification/Account_Safety.thy ===== *)
theory Account_Safety
  imports Accounts
begin

text \<open>
  What the administration of accounts guarantees: no sequence of requests leaves the installation
  without an active administrator, only administrators change the rows of others, and a change of the
  password ends no session.
\<close>

section \<open>Lemmas\<close>

definition unique_ids :: "site \<Rightarrow> bool" where
  "unique_ids st \<longleftrightarrow> distinct (map u_id (si_accounts st))"

definition has_admin :: "site \<Rightarrow> bool" where
  "has_admin st \<longleftrightarrow> (\<exists>a \<in> set (si_accounts st). active_admin a)"

lemma get_account_SomeD: "get_account st i = Some a \<Longrightarrow> a \<in> set (si_accounts st) \<and> u_id a = i"
  by (auto simp: get_account_def dest: first_row_SomeD)

lemma unique_idsD: "unique_ids st \<Longrightarrow> a \<in> set (si_accounts st) \<Longrightarrow> b \<in> set (si_accounts st) \<Longrightarrow> u_id a = u_id b \<Longrightarrow> a = b"
  by (auto simp: unique_ids_def distinct_map inj_on_def)

lemma map_update_rows: "(\<And>r. p r \<Longrightarrow> g (f r) = g r) \<Longrightarrow> map g (update_rows p f rows) = map g rows"
  by (auto simp: update_rows_def)

lemma ids_update_rows:
  "map u_id (update_rows (\<lambda>x. u_id x = u_id a) (\<lambda>_. a) rows) = map u_id rows"
  by (auto simp: update_rows_def)

lemma put_account_ids [simp]: "map u_id (si_accounts (put_account a st)) = map u_id (si_accounts st)"
  by (simp add: put_account_def ids_update_rows)

lemma foldr_max_ge: "(x :: int) \<in> set xs \<Longrightarrow> x \<le> foldr max xs 0"
  by (induction xs) auto

lemma new_account_id_fresh: "new_account_id st \<notin> u_id ` set (si_accounts st)"
  using foldr_max_ge [of _ "map u_id (si_accounts st)"] by (fastforce simp: new_account_id_def)

lemma blank_account_simps [simp]:
  "u_id (blank_account i un em r c b) = i"
  "u_id (set_password lib salt p a) = u_id a"
  "active_admin (set_password lib salt p a) = active_admin a"
  by (simp_all add: blank_account_def set_password_def active_admin_def)

lemma check_password_standing:
  "check_password lib salt p a = (ok, a') \<Longrightarrow> u_id a' = u_id a \<and> active_admin a' = active_admin a"
  by (auto simp: check_password_def split: if_splits)

text \<open>
  Both invariants of a route that keeps the caller an administrator: the ids stay distinct, and the row
  of an active administrator with a given id stays one.
\<close>

definition keeps_admin :: "int \<Rightarrow> site \<Rightarrow> site \<Rightarrow> bool" where
  "keeps_admin j st st' \<longleftrightarrow>
     (unique_ids st \<longrightarrow> unique_ids st') \<and>
     (unique_ids st \<longrightarrow> (\<exists>a \<in> set (si_accounts st). u_id a = j \<and> active_admin a)
        \<longrightarrow> (\<exists>a \<in> set (si_accounts st'). u_id a = j \<and> active_admin a))"

lemma keeps_admin_same [simp]: "si_accounts st' = si_accounts st \<Longrightarrow> keeps_admin j st st'"
  by (auto simp: keeps_admin_def unique_ids_def)

lemma keeps_admin_trans: "keeps_admin j a b \<Longrightarrow> keeps_admin j b c \<Longrightarrow> keeps_admin j a c"
  by (simp add: keeps_admin_def)

lemma keeps_admin_put:
  assumes "get_account st i = Some a" and "u_id a' = u_id a"
    and "u_id a = j \<Longrightarrow> active_admin a \<Longrightarrow> active_admin a'"
  shows "keeps_admin j st (put_account a' st)"
  unfolding keeps_admin_def
proof (intro conjI impI)
  assume "unique_ids st"
  then show "unique_ids (put_account a' st)" by (simp add: unique_ids_def)
next
  assume u: "unique_ids st" and "\<exists>x \<in> set (si_accounts st). u_id x = j \<and> active_admin x"
  then obtain x where x: "x \<in> set (si_accounts st)" "u_id x = j" "active_admin x" by blast
  have a: "a \<in> set (si_accounts st)" using assms(1) get_account_SomeD by blast
  show "\<exists>x \<in> set (si_accounts (put_account a' st)). u_id x = j \<and> active_admin x"
  proof (cases "u_id x = u_id a")
    case True
    then have "x = a" using unique_idsD [OF u x(1) a] by simp
    then show ?thesis using x assms(2,3) by (force simp: put_account_def set_update_rows)
  next
    case False
    then show ?thesis using x assms(2) by (force simp: put_account_def set_update_rows)
  qed
qed

lemma keeps_admin_append:
  "u_id a = new_account_id st \<Longrightarrow> keeps_admin j st (st\<lparr>si_accounts := si_accounts st @ [a]\<rparr>)"
  using new_account_id_fresh [of st] by (auto simp: keeps_admin_def unique_ids_def)

lemma keeps_admin_finish: "keeps_admin j st st' \<Longrightarrow> keeps_admin j st (snd (finish env st st'))"
  by (simp add: finish_def)

lemma sum_bind_Inr_iff: "sum_bind m f = Inr y \<longleftrightarrow> (\<exists>x. m = Inr x \<and> f x = Inr y)"
  by (cases m) simp_all

lemmas change_defs = change_email_def change_role_def change_custom_role_def change_active_def
  change_exemption_def change_password_field_def change_own_or_other_def

lemma change_steps_standing:
  "change_email st c a = Inr a' \<Longrightarrow> u_id a' = u_id a \<and> active_admin a' = active_admin a"
  "change_custom_role res st c a = Inr a' \<Longrightarrow> u_id a' = u_id a \<and> active_admin a' = active_admin a"
  "change_exemption res c a = Inr a' \<Longrightarrow> u_id a' = u_id a \<and> active_admin a' = active_admin a"
  "change_own_or_other env res cur p a = Inr a' \<Longrightarrow> u_id a' = u_id a \<and> active_admin a' = active_admin a"
  "change_password_field env res st c a = Inr a' \<Longrightarrow> u_id a' = u_id a \<and> active_admin a' = active_admin a"
  by (auto simp: change_defs active_admin_def set_password_def check_password_def split: option.splits if_splits prod.splits)

lemma change_role_own:
  "change_role res st c a = Inr a' \<Longrightarrow> u_id a' = u_id a \<and> (u_id (r_user res) = u_id a \<longrightarrow> active_admin a \<longrightarrow> active_admin a')"
  "change_active res st c a = Inr a' \<Longrightarrow> u_id a' = u_id a \<and> (u_id (r_user res) = u_id a \<longrightarrow> active_admin a \<longrightarrow> active_admin a')"
  by (auto simp: change_defs active_admin_def split: option.splits if_splits)

lemma apply_changes_own:
  assumes "apply_changes env res st c a = Inr a'"
  shows "u_id a' = u_id a \<and> (u_id a = u_id (r_user res) \<longrightarrow> active_admin a \<longrightarrow> active_admin a')"
proof -
  obtain a1 a2 a3 a4 a5 where "change_email st c a = Inr a1" "change_role res st c a1 = Inr a2"
    "change_custom_role res st c a2 = Inr a3" "change_active res st c a3 = Inr a4" "change_exemption res c a4 = Inr a5"
    "change_password_field env res st c a5 = Inr a'"
    using assms by (auto simp: apply_changes_def sum_bind_Inr_iff)
  then show ?thesis
    using change_steps_standing change_role_own by metis
qed

lemma update_user_keeps: "keeps_admin (u_id (r_user res)) st (snd (update_user env res i c st))"
  by (auto simp: update_user_def intro!: keeps_admin_finish keeps_admin_put dest: apply_changes_own
      split: option.splits sum.splits)

lemma reset_user_password_keeps: "keeps_admin j st (snd (reset_user_password env res i c p st))"
  by (auto simp: reset_user_password_def intro!: keeps_admin_finish keeps_admin_put
      dest: change_steps_standing(4) split: option.splits sum.splits)

lemma admin_change_keeps:
  assumes "\<And>a a'. f a = Inr a' \<Longrightarrow> u_id a' = u_id a \<and> active_admin a' = active_admin a"
  shows "keeps_admin j st (snd (admin_change env res i f st))"
  using assms by (auto simp: admin_change_def intro!: keeps_admin_finish keeps_admin_put split: option.splits sum.splits)

lemma factor_and_sso_routes_keep:
  "keeps_admin j st (snd (reset_user_2fa env res i st))"
  "keeps_admin j st (snd (link_user_sso env res i p st))"
  "keeps_admin j st (snd (unlink_user_sso env res i st))"
  unfolding reset_user_2fa_def link_user_sso_def unlink_user_sso_def
  by (rule admin_change_keeps,
      auto simp: clear_second_factors_def active_admin_def split: if_splits option.splits)+

lemma unlock_user_keeps: "keeps_admin j st (snd (unlock_user env res i st))"
  by (auto simp: unlock_user_def active_admin_def intro!: keeps_admin_finish keeps_admin_put split: option.splits)

lemma create_user_keeps: "keeps_admin j st (snd (create_user env res f st))"
  by (auto simp: create_user_def Let_def intro!: keeps_admin_finish keeps_admin_append)

lemma import_each_keeps: "keeps_admin j st (import_each env n rs st)"
proof (induction env n rs st rule: import_each.induct)
  case (2 env n r rs st)
  let ?a = "set_password (re_lib env) (re_salt env) (cv_password r)
    (blank_account (new_account_id st) (cv_username r) (cv_email r) (csv_role r) None True)"
  have "keeps_admin j st (st\<lparr>si_accounts := si_accounts st @ [?a]\<rparr>)"
    by (rule keeps_admin_append) simp
  then show ?case using 2 by (auto intro: keeps_admin_trans)
qed simp

lemma toggle_user_status_keeps: "keeps_admin (u_id (r_user res)) st (snd (toggle_user_status env res i st))"
  by (auto simp: toggle_user_status_def toggle_check_def store_active_def keeps_admin_def unique_ids_def
      finish_def set_update_rows map_update_rows image_iff split: if_splits option.splits sum.splits)

lemma delete_one_keeps: "keeps_admin (u_id (r_user res)) st (snd (delete_one env res i st))"
  by (auto simp: delete_one_def pending_approvals_def remove_account_def purge_user_dependencies_def keeps_admin_def
      unique_ids_def finish_def distinct_map_filter split: option.splits prod.splits)

lemma delete_each_keeps: "keeps_admin (u_id (r_user res)) st (snd (delete_each env res is st))"
proof (induction env res "is" st rule: delete_each.induct)
  case (2 env res i "is" st)
  then show ?case using delete_one_keeps [of res st env i]
    by (auto split: prod.splits intro: keeps_admin_trans)
qed simp

lemma check_then_set: "check_password lib salt cur a = (ok, a1) \<Longrightarrow> set_password lib salt' p a1 = set_password lib salt' p a"
  by (auto simp: check_password_def set_password_def split: if_splits)

lemma change_passwordE:
  assumes "change_password env c2 res cur p st = (answer, st')"
  obtains (refused) "answer \<noteq> Route_Done" "st' = st"
  | (changed) a q where "answer = Route_Done" "get_account st (u_id (r_user res)) = Some a"
      "st' = (put_account (a\<lparr>acc_password_hash := pl_hash (re_lib env) (re_salt env) p, u_force_password_change := False\<rparr>) st)
               \<lparr>si_user_sessions := q\<rparr>"
proof (cases "get_account st (u_id (r_user res))")
  case (Some a)
  obtain ok a1 where c: "(if u_force_password_change a then (True, a) else check_password (re_lib env) (re_salt env) cur a) = (ok, a1)"
    by fastforce
  let ?x = "a\<lparr>acc_password_hash := pl_hash (re_lib env) (re_salt env) p, u_force_password_change := False\<rparr>"
  have new: "(set_password (re_lib env) (re_salt env) p a1)\<lparr>u_force_password_change := False\<rparr> = ?x"
    using c check_then_set by (fastforce simp: set_password_def split: if_splits)
  have same: "put_account ?x st = (put_account ?x st)\<lparr>si_user_sessions := si_user_sessions (put_account ?x st)\<rparr>" by simp
  show thesis
  proof (cases "answer = Route_Done")
    case True
    then have "st' = put_account ?x st \<or> st' = (put_account ?x st)
        \<lparr>si_user_sessions := filter (\<lambda>u. u \<noteq> u_id a) (si_user_sessions (put_account ?x st))\<rparr>"
      using assms unfolding change_password_def Let_def Some option.case c prod.case new by (auto split: if_splits)
    then show thesis using changed [OF True Some] same by blast
  next
    case False
    then have "st' = st"
      using assms unfolding change_password_def Let_def Some option.case c prod.case new by (auto split: if_splits)
    then show thesis using refused False by blast
  qed
qed (use assms refused in \<open>auto simp: change_password_def\<close>)

lemma change_password_keeps: "keeps_admin j st (snd (change_password env c2 res cur p st))"
proof -
  obtain answer st' where r: "change_password env c2 res cur p st = (answer, st')" by fastforce
  then show ?thesis
  proof (cases rule: change_passwordE)
    case (changed a q)
    let ?x = "a\<lparr>acc_password_hash := pl_hash (re_lib env) (re_salt env) p, u_force_password_change := False\<rparr>"
    have "keeps_admin j st (put_account ?x st)"
      by (rule keeps_admin_put [OF changed(2)]) (auto simp: active_admin_def)
    then show ?thesis using r changed(3) by (auto intro: keeps_admin_trans)
  qed (simp add: r)
qed

lemma account_route_keeps: "keeps_admin (u_id (r_user res)) st (snd (account_route env res op st))"
  by (cases op) (auto simp: update_user_keeps reset_user_password_keeps factor_and_sso_routes_keep unlock_user_keeps
      create_user_keeps toggle_user_status_keeps delete_one_keeps delete_each_keeps change_password_keeps
      import_each_keeps import_users_def delete_user_def bulk_delete_users_def delete_user_api_key_def
      revoke_or_delete_def finish_def split: option.splits)

text \<open>The caller of a route is a stored, active user, and every permission it passed for is its own.\<close>

lemma authenticated_user:
  assumes "authenticate_request sha commit now req env = (Some res, env')"
  shows "r_user res \<in> set (a_users (e_db env)) \<and> u_active (r_user res)
    \<and> (has_permission q (r_permissions res)
         \<longrightarrow> has_permission q (get_effective_permissions (a_rbac (e_db env)) (r_user res)))"
proof (cases "presented_api_key req")
  case (Some key)
  then obtain db where v: "verify_api_key sha commit now key (e_db env) = (Some res, db)"
    using assms by (auto simp: authenticate_request_def split: prod.splits)
  then show ?thesis using api_key_owner_bound [OF v]
    by (auto elim!: verify_api_key_SomeE simp: get_user_def dest: first_row_SomeD)
next
  case None
  then obtain ses where "verify_session now (e_db env) (e_session env) = (Some res, ses)"
    using assms by (auto simp: authenticate_request_def split: prod.splits if_splits)
  then show ?thesis by (auto elim!: verify_session_SomeE simp: get_user_def effective_def dest: first_row_SomeD)
qed

lemma reserved_needs_admin:
  assumes "has_permission p (get_effective_permissions db u)" and "p \<in> {''write:users'', ''delete:users''}"
  shows "u_role u = ''admin''"
proof (rule ccontr)
  assume role: "u_role u \<noteq> ''admin''"
  have free: "\<not> is_reserved_permission (JStr q)" if "q \<in> set (get_effective_permissions db u)" for q
    using that role role_unreserved custom_source.grants_unreserved group_source.grants_unreserved
    by (auto simp: effective_set)
  have star: "is_reserved_permission (JStr q)" if "CHR ''*'' \<in> set q" for q
    using that by (simp add: is_reserved_permission_def)
  have listed: "is_reserved_permission (JStr p)"
    using assms(2) by (auto simp: is_reserved_permission_def RESERVED_PERMISSIONS_def)
  from assms(1) show False
  proof (cases rule: has_permissionE)
    case 1
    then show False using free star [of "''*''"] by simp
  next
    case 2
    then show False using free listed by blast
  next
    case 3
    then show False using free star [of "before_sep CHR '':'' p @ '':*''"] by simp
  qed
qed

lemma require_auth_CallD:
  assumes "require_auth perms only sha commit now req env = (Call_Route res, env')"
  shows "authenticate_request sha commit now req env = (Some res, env')"
    and "\<forall>p \<in> set perms. has_permission p (r_permissions res)"
  using assms by (auto simp: require_auth_def Let_def has_permission_star list_all_iff
      split: prod.splits option.splits if_splits)

lemma authenticate_users:
  "authenticate_request sha commit now req env = (res, env') \<Longrightarrow> a_users (e_db env') = a_users (e_db env)"
  by (auto simp: authenticate_request_def verify_api_key_def touch_key_def Let_def
      split: option.splits if_splits prod.splits)

lemma truncate_simps: "u_id (user.truncate a) = u_id a" "u_role (user.truncate a) = u_role a"
    "u_active (user.truncate a) = u_active a"
  by (simp_all add: user.defs)

text \<open>How a served request reaches its route.\<close>

lemma serve_cases:
  obtains (refused) "fst (serve rq st) = None" "si_accounts (snd (serve rq st)) = si_accounts st"
  | (routed) res ks where "serve rq st = (case account_route (rq_env rq) res (rq_op rq) (st\<lparr>si_keys := ks\<rparr>) of (a, st') \<Rightarrow> (Some a, st'))"
      "\<exists>a \<in> set (si_accounts st). user.truncate a = r_user res \<and> u_active a"
      "op_permissions (rq_op rq) \<noteq> [] \<Longrightarrow> is_admin res"
      "fst (authenticate_request (rq_sha rq) (rq_touch rq) (re_now (rq_env rq)) (rq_request rq)
              \<lparr>e_db = db_of st, e_session = rq_session rq\<rparr>) = Some res"
      "op_session_only (rq_op rq) \<Longrightarrow> r_method res = By_Session"
proof -
  obtain answer env' where r: "require_auth (op_permissions (rq_op rq)) (op_session_only (rq_op rq)) (rq_sha rq)
      (rq_touch rq) (re_now (rq_env rq)) (rq_request rq) \<lparr>e_db = db_of st, e_session = rq_session rq\<rparr> = (answer, env')"
    by fastforce
  show thesis
  proof (cases "\<exists>res. answer = Call_Route res")
    case True
    then obtain res where a: "answer = Call_Route res" by blast
    note auth = require_auth_CallD [OF r [unfolded a]]
    have user: "r_user res \<in> set (a_users (db_of st))" "u_active (r_user res)"
      using authenticated_user [OF auth(1)] by auto
    obtain p where p: "op_permissions (rq_op rq) \<noteq> [] \<Longrightarrow>
        p \<in> set (op_permissions (rq_op rq)) \<and> p \<in> {''write:users'', ''delete:users''}"
      by (cases "rq_op rq") auto
    have "is_admin res" if "op_permissions (rq_op rq) \<noteq> []"
      using p [OF that] auth(2) authenticated_user [OF auth(1), of p] reserved_needs_admin
      by (auto simp: is_admin_def)
    moreover have "\<exists>x \<in> set (si_accounts st). user.truncate x = r_user res \<and> u_active x"
      using user by (auto simp: db_of_def truncate_simps)
    moreover have "serve rq st = (case account_route (rq_env rq) res (rq_op rq) (st\<lparr>si_keys := a_keys (e_db env')\<rparr>) of
        (a, st') \<Rightarrow> (Some a, st'))"
      using r a by (simp add: serve_def)
    moreover have "op_session_only (rq_op rq) \<Longrightarrow> r_method res = By_Session"
      using r a by (auto simp: require_auth_def Let_def split: prod.splits option.splits if_splits)
    ultimately show thesis using routed auth(1) by auto
  next
    case False
    then show thesis using refused r by (cases answer) (auto simp: serve_def)
  qed
qed

lemma same_accounts_keeps: "keeps_admin j (st\<lparr>si_keys := ks\<rparr>) st' \<Longrightarrow> keeps_admin j st st'"
  by (simp add: keeps_admin_def unique_ids_def)

lemma serve_keeps:
  assumes "has_admin st" and "unique_ids st"
  shows "has_admin (snd (serve rq st)) \<and> unique_ids (snd (serve rq st))"
proof (cases rule: serve_cases [of rq st])
  case refused
  then show ?thesis using assms by (simp add: has_admin_def unique_ids_def)
next
  case (routed res ks)
  have keeps: "keeps_admin (u_id (r_user res)) st (snd (serve rq st))"
    using account_route_keeps [of res "st\<lparr>si_keys := ks\<rparr>" "rq_env rq" "rq_op rq"] routed(1)
    by (auto intro: same_accounts_keeps split: prod.splits)
  show ?thesis
  proof (cases "is_admin res")
    case True
    then have "\<exists>a \<in> set (si_accounts st). u_id a = u_id (r_user res) \<and> active_admin a"
      using routed(2) by (auto simp: is_admin_def active_admin_def truncate_simps simp flip: user.defs)
        (metis truncate_simps(1,2))
    then show ?thesis using keeps assms(2) by (auto simp: keeps_admin_def has_admin_def)
  next
    case False
    then obtain c2 c p where op: "rq_op rq = Change_Password c2 c p"
      using routed(3) by (cases "rq_op rq") auto
    have "keeps_admin j st (snd (serve rq st))" for j
      using change_password_keeps [of j "st\<lparr>si_keys := ks\<rparr>" "rq_env rq" c2 res c p] routed(1) op
      by (auto intro: same_accounts_keeps split: prod.splits)
    then show ?thesis using assms by (auto simp: keeps_admin_def has_admin_def)
  qed
qed

lemma first_row_update_other:
  "(\<And>r. p r \<Longrightarrow> \<not> q r \<and> \<not> q (f r)) \<Longrightarrow> first_row q (update_rows p f rows) = first_row q rows"
  by (induction rows) (auto simp: first_row_def update_rows_def)

lemma first_row_update_same:
  "(\<And>r. p r \<longleftrightarrow> q r) \<Longrightarrow> (\<And>r. q r \<Longrightarrow> q (f r)) \<Longrightarrow> first_row q (update_rows p f rows) = map_option f (first_row q rows)"
  by (induction rows) (auto simp: first_row_def update_rows_def)

lemma get_put_account:
  "get_account (put_account a st) i = (if i = u_id a then map_option (\<lambda>_. a) (get_account st i) else get_account st i)"
  unfolding get_account_def put_account_def
  by (auto simp: first_row_update_same intro!: first_row_update_other)

lemma first_row_map: "first_row p (map f rows) = map_option f (first_row (\<lambda>r. p (f r)) rows)"
  by (induction rows) (auto simp: first_row_def)

lemma get_user_db_of: "get_user (db_of st) i = map_option user.truncate (get_account st i)"
  by (simp add: get_user_def db_of_def get_account_def first_row_map truncate_simps)

section \<open>Properties\<close>

text \<open>
  C17: as long as requests run one after the other, there is always an active administrator: no sequence
  of requests to the routes that create, import, change, deactivate, delete, link or unlock accounts or
  change a password, by whatever callers the decorator lets through, leaves the installation without one.
\<close>

theorem administrator_remains:
  assumes "has_admin st" and "unique_ids st"
  shows "has_admin (serve_all rqs st)"
proof -
  have "has_admin (serve_all rqs st) \<and> unique_ids (serve_all rqs st)"
    using assms
  proof (induction rqs arbitrary: st)
    case (Cons rq rqs)
    then show ?case using serve_keeps [of st rq] by (simp add: serve_all_def)
  qed (simp add: serve_all_def)
  then show ?thesis by simp
qed

definition sample_admin :: "int \<Rightarrow> account" where
  "sample_admin i = (blank_account i (''admin'' @ show_int i) ''a@example.com'' ''admin'' None True)
     \<lparr>acc_password_hash := ''pbkdf2:sha256:600000$s:secret''\<rparr>"

definition sample_site :: site where
  "sample_site = \<lparr>si_accounts = [sample_admin 1, sample_admin 2], si_keys = [], si_security_keys = [],
     si_challenges = [], si_providers = [], si_rbac = \<lparr>db_roles = [], db_groups = [], db_members = []\<rparr>,
     si_config = Map.empty, si_approvals = \<lparr>ap_requests = [], ap_policies = [], ap_members = None, ap_usernames = [],
       ap_uncommitted = [], ap_cancelled = []\<rparr>,
     si_user_sessions = [], si_sso_sessions = [], si_client_certs = [], si_hsm_creators = []\<rparr>"

definition sample_hashing :: password_lib where
  "sample_hashing = \<lparr>pl_check = (\<lambda>stored secret. stored = ''pbkdf2:sha256:600000$s:'' @ secret),
     pl_hash = (\<lambda>salt secret. ''pbkdf2:sha256:600000$'' @ salt @ '':'' @ secret)\<rparr>"

definition sample_route_env :: route_env where
  "sample_route_env = \<lparr>re_lib = sample_hashing, re_salt = ''s'', re_now = hours 1, re_commit = True\<rparr>"

text \<open>The administrator \<open>i\<close> switches the account \<open>j\<close> on or off.\<close>

definition sample_toggle :: "int \<Rightarrow> int \<Rightarrow> account_request" where
  "sample_toggle i j = \<lparr>rq_sha = id, rq_touch = True,
     rq_request = \<lparr>req_x_api_key = None, req_authorization = None, req_path = ''/api/v2/users'', req_method = ''PATCH''\<rparr>,
     rq_session = \<lparr>s_user_id = Some i, s_login_time = Stamp 0, s_last_activity = Stamp 0, s_must_enroll_2fa = False\<rparr>,
     rq_env = sample_route_env, rq_op = Toggle_User j\<rparr>"

lemma sample_accounts: "si_accounts sample_site = [sample_admin 1, sample_admin 2]"
  by (simp add: sample_site_def)

lemma sample_admin_simps [simp]: "u_id (sample_admin i) = i" "active_admin (sample_admin i)" "u_active (sample_admin i)"
    "u_role (sample_admin i) = ''admin''" "\<not> u_force_password_change (sample_admin i)"
  by (simp_all add: sample_admin_def blank_account_def active_admin_def)

lemma administrator_remains_witness:
  "has_admin sample_site \<and> unique_ids sample_site \<and> has_admin (serve_all [sample_toggle 1 2, sample_toggle 2 1] sample_site)"
proof -
  have "has_admin sample_site" "unique_ids sample_site"
    by (simp_all add: has_admin_def unique_ids_def sample_accounts)
  then show ?thesis using administrator_remains by blast
qed

text \<open>
  The guard does not hold between requests that overlap: each of two administrators may pass the check
  while the other is still active, and both writes are then stored.
\<close>

theorem administrators_disable_each_other:
  "\<exists>r1 r2. toggle_check r1 2 sample_site = Inr False \<and> toggle_check r2 1 sample_site = Inr False
     \<and> r_user r1 = user.truncate (sample_admin 1) \<and> r_user r2 = user.truncate (sample_admin 2)
     \<and> \<not> has_admin (store_active 1 False (store_active 2 False sample_site))"
proof -
  let ?r = "\<lambda>i. \<lparr>r_user_id = i, r_user = user.truncate (sample_admin i), r_method = By_Session, r_permissions = [''*'']\<rparr>"
  have "toggle_check (?r 1) 2 sample_site = Inr False \<and> toggle_check (?r 2) 1 sample_site = Inr False"
    by (simp add: toggle_check_def is_admin_def truncate_simps get_account_def first_row_def sample_accounts
        is_last_active_admin_def count_rows_def)
  moreover have "\<not> has_admin (store_active 1 False (store_active 2 False sample_site))"
    by (simp add: has_admin_def store_active_def update_rows_def sample_accounts active_admin_def)
  ultimately show ?thesis by (intro exI [of _ "?r 1"] exI [of _ "?r 2"]) simp
qed

text \<open>
  C18: the routes of account administration and of the own password (\<open>serve\<close>: creation, import,
  update, activation, deletion, unlocking, links to single sign-on, resets of passwords and second
  factors, keys of other users, the own password) let administrators only change a
  row of the account table, with one exception: a user with a session may replace the hash of the own
  password, which also lifts the forced change. Whatever else differs after such a request, the caller
  is stored, active and has the role \<open>admin\<close> at that moment. Sign-in counters, the own profile, the
  enrolment of second factors, reset tokens and the update by single sign-on write rows by other routes.
\<close>

theorem accounts_changed_by_admins:
  assumes "get_account (snd (serve rq st)) j \<noteq> get_account st j"
  shows "\<exists>res. fst (authenticate_request (rq_sha rq) (rq_touch rq) (re_now (rq_env rq)) (rq_request rq)
             \<lparr>e_db = db_of st, e_session = rq_session rq\<rparr>) = Some res
    \<and> (\<exists>a \<in> set (si_accounts st). user.truncate a = r_user res \<and> u_active a)
    \<and> (u_role (r_user res) = ''admin''
       \<or> (u_id (r_user res) = j \<and> r_method res = By_Session
          \<and> (\<exists>a h. get_account st j = Some a
                \<and> get_account (snd (serve rq st)) j = Some (a\<lparr>acc_password_hash := h, u_force_password_change := False\<rparr>))))"
proof (cases rule: serve_cases [of rq st])
  case refused
  then show ?thesis using assms by (simp add: get_account_def)
next
  case (routed res ks)
  show ?thesis
  proof (cases "is_admin res")
    case True
    then show ?thesis using routed(2,4) by (auto simp: is_admin_def)
  next
    case False
    then obtain c2 c p where op: "rq_op rq = Change_Password c2 c p"
      using routed(3) by (cases "rq_op rq") auto
    let ?st = "st\<lparr>si_keys := ks\<rparr>"
    have same: "get_account ?st = get_account st" by (simp add: get_account_def fun_eq_iff)
    obtain answer st' where r: "change_password (rq_env rq) c2 res c p ?st = (answer, st')" by fastforce
    then have s: "snd (serve rq st) = st'" using routed(1) op by simp
    from r show ?thesis
    proof (cases rule: change_passwordE)
      case refused
      then show ?thesis using assms s by (simp add: same)
    next
      case (changed a q)
      let ?x = "a\<lparr>acc_password_hash := pl_hash (re_lib (rq_env rq)) (re_salt (rq_env rq)) p, u_force_password_change := False\<rparr>"
      have id: "u_id a = u_id (r_user res)" using changed(2) get_account_SomeD by blast
      have "get_account st' k = get_account (put_account ?x ?st) k" for k
        using changed(3) by (simp add: get_account_def)
      then have g: "get_account st' k = (if k = u_id (r_user res) then Some ?x else get_account st k)" for k
        using changed(2) id by (simp add: get_put_account same)
      then have j: "j = u_id (r_user res)" using assms s by (auto split: if_splits)
      have "get_account st j = Some a" using changed(2) j by (simp add: same)
      then show ?thesis using routed(2,4,5) op s g [of j] j by auto
    qed
  qed
qed

lemma sample_limits: "get_session_max_lifetime (db_of sample_site) = 86400" "get_session_timeout (db_of sample_site) = 28800"
  by (simp_all add: get_session_max_lifetime_def get_session_timeout_def config_seconds_def db_of_def sample_site_def)

lemma sample_toggle_served:
  "get_account (snd (serve (sample_toggle 1 2) sample_site)) 2 = Some ((sample_admin 2)\<lparr>u_active := False\<rparr>)"
proof -
  let ?u = "user.truncate (sample_admin 1)"
  let ?env = "\<lparr>e_db = db_of sample_site, e_session = rq_session (sample_toggle 1 2)\<rparr>"
  have user: "get_user (db_of sample_site) 1 = Some ?u"
    by (simp add: get_user_db_of get_account_def first_row_def sample_accounts)
  have key: "presented_api_key (rq_request (sample_toggle 1 2)) = None"
    by (simp add: presented_api_key_def sample_toggle_def ucm_eval)
  have star: "''*'' \<in> set (effective (db_of sample_site) ?u)"
    by (simp add: effective_def effective_star truncate_simps)
  have force: "\<not> u_force_password_change ?u" by (simp add: user.defs)
  have auth: "authenticate_request id True (hours 1) (rq_request (sample_toggle 1 2)) ?env =
      (Some \<lparr>r_user_id = 1, r_user = ?u, r_method = By_Session, r_permissions = effective (db_of sample_site) ?u\<rparr>,
       ?env\<lparr>e_session := (rq_session (sample_toggle 1 2))\<lparr>s_last_activity := Stamp (hours 1)\<rparr>\<rparr>)"
    using user key sample_limits
    by (simp add: authenticate_request_def verify_session_def sample_toggle_def stamp_exceeds_def truncate_simps)
  have "require_auth [''write:users''] False id True (hours 1) (rq_request (sample_toggle 1 2)) ?env =
      (Call_Route \<lparr>r_user_id = 1, r_user = ?u, r_method = By_Session, r_permissions = effective (db_of sample_site) ?u\<rparr>,
       ?env\<lparr>e_session := (rq_session (sample_toggle 1 2))\<lparr>s_last_activity := Stamp (hours 1)\<rparr>\<rparr>)"
    using star force unfolding require_auth_def auth prod.case option.case Let_def
    by (simp add: password_change_pending_def sample_toggle_def)
  then have "snd (serve (sample_toggle 1 2) sample_site) = store_active 2 False (sample_site\<lparr>si_keys := si_keys sample_site\<rparr>)"
    by (simp add: serve_def sample_toggle_def sample_route_env_def toggle_user_status_def toggle_check_def is_admin_def
        truncate_simps get_account_def first_row_def sample_accounts is_last_active_admin_def count_rows_def finish_def db_of_def)
  then show ?thesis by (simp add: get_account_def store_active_def update_rows_def first_row_def sample_accounts)
qed

lemma accounts_changed_by_admins_witness:
  "get_account (snd (serve (sample_toggle 1 2) sample_site)) 2 \<noteq> get_account sample_site 2
   \<and> (\<exists>res. fst (authenticate_request (rq_sha (sample_toggle 1 2)) (rq_touch (sample_toggle 1 2))
          (re_now (rq_env (sample_toggle 1 2))) (rq_request (sample_toggle 1 2))
          \<lparr>e_db = db_of sample_site, e_session = rq_session (sample_toggle 1 2)\<rparr>) = Some res)"
proof -
  have diff: "get_account (snd (serve (sample_toggle 1 2) sample_site)) 2 \<noteq> get_account sample_site 2"
    by (simp add: sample_toggle_served) (simp add: get_account_def first_row_def sample_accounts,
        metis sample_admin_simps(3) user.select_convs(4) user.update_convs(4) user.surjective)
  then show ?thesis using accounts_changed_by_admins [OF diff] by blast
qed

text \<open>
  changing the password ends no session: whatever session was good for the account before, another
  browser's or an intruder's, is as good afterwards. The route deletes rows of \<^verbatim>\<open>user_sessions\<close>, a table the
  authentication of requests does not read.
\<close>

theorem password_change_ends_no_session:
  assumes "change_password env commit2 res current password st = (Route_Done, st')"
  shows "fst (verify_session now (db_of st') ses) = None \<longleftrightarrow> fst (verify_session now (db_of st) ses) = None"
  using assms
proof (cases rule: change_passwordE)
  case (changed a q)
  let ?x = "a\<lparr>acc_password_hash := pl_hash (re_lib env) (re_salt env) password, u_force_password_change := False\<rparr>"
  have id: "get_account st (u_id a) = Some a" using changed(2) get_account_SomeD by metis
  have "get_account st' k = (if k = u_id a then Some ?x else get_account st k)" for k
  proof -
    have "get_account st' k = get_account (put_account ?x st) k" using changed(3) by (simp add: get_account_def)
    then show ?thesis using id by (simp add: get_put_account)
  qed
  then have users: "get_user (db_of st') k = (if k = u_id a then Some (user.truncate ?x) else get_user (db_of st) k)" for k
    by (simp add: get_user_db_of)
  have old: "get_user (db_of st) (u_id a) = Some (user.truncate a)" using id by (simp add: get_user_db_of)
  have cfg: "a_config (db_of st') = a_config (db_of st)" using changed(3) by (simp add: db_of_def put_account_def)
  then have limits: "get_session_max_lifetime (db_of st') = get_session_max_lifetime (db_of st)"
    "get_session_timeout (db_of st') = get_session_timeout (db_of st)"
    by (simp_all add: get_session_max_lifetime_def get_session_timeout_def config_seconds_def)
  show ?thesis
  proof (cases "s_user_id ses = Some (u_id a)")
    case True
    then show ?thesis using users old limits by (simp add: verify_session_def truncate_simps)
  next
    case False
    then show ?thesis using users limits by (auto simp: verify_session_def split: option.splits)
  qed
qed simp

definition sample_self :: auth_result where
  "sample_self = \<lparr>r_user_id = 1, r_user = user.truncate (sample_admin 1), r_method = By_Session, r_permissions = [''*'']\<rparr>"

lemma password_change_ends_no_session_witness:
  "\<exists>st'. change_password sample_route_env True sample_self ''secret'' ''Tr0ub4dor&3x'' sample_site = (Route_Done, st')
     \<and> fst (verify_session (hours 1) (db_of st') (rq_session (sample_toggle 1 2))) \<noteq> None"
proof -
  have ok: "validate_password_strength sample_site ''Tr0ub4dor&3x'' None"
    by code_simp
  have first: "get_account sample_site 1 = Some (sample_admin 1)"
    by (simp add: get_account_def first_row_def sample_accounts)
  have "fst (change_password sample_route_env True sample_self ''secret'' ''Tr0ub4dor&3x'' sample_site) = Route_Done"
    using ok first
    by (simp add: change_password_def sample_self_def truncate_simps Let_def check_password_def verify_password_def
        sample_route_env_def sample_hashing_def) (simp add: sample_admin_def)
  then obtain st' where run: "change_password sample_route_env True sample_self ''secret'' ''Tr0ub4dor&3x'' sample_site = (Route_Done, st')"
    by (metis prod.collapse)
  have "fst (verify_session (hours 1) (db_of sample_site) (rq_session (sample_toggle 1 2))) \<noteq> None"
    by (simp add: verify_session_def sample_toggle_def get_user_db_of first truncate_simps stamp_exceeds_def sample_limits)
  then show ?thesis
    using run password_change_ends_no_session [OF run, of "hours 1" "rq_session (sample_toggle 1 2)"] by auto
qed

end
