(* ===== verification/Factor_Safety.thy ===== *)
theory Factor_Safety
  imports Second_Factors Account_Safety Acme_Accounts
begin

text \<open>
  What second factors guarantee: a stored recovery code lets in at most one login even when requests
  overlap, an accepted assertion of a security key proves that key, user and challenge, and no
  self-service operation takes the last factor of an account that must have one.
\<close>

section \<open>Use of recovery codes\<close>

text \<open>
  Uses of recovery codes, each on the row as its request read it, interleaved with the operations that
  store a new column.
\<close>

datatype recovery_op = Use_Code account string | Store_Codes int "code_column option"

fun recovery_step :: "password_lib \<Rightarrow> recovery_op \<Rightarrow> site \<Rightarrow> site" where
  "recovery_step lib (Use_Code seen code) st = snd (consume_code lib seen code st)"
| "recovery_step lib (Store_Codes i column) st =
     st\<lparr>si_accounts := update_rows (\<lambda>a. u_id a = i) (\<lambda>a. a\<lparr>acc_backup_codes := column\<rparr>) (si_accounts st)\<rparr>"

fun recovery_won :: "password_lib \<Rightarrow> int \<times> string \<Rightarrow> recovery_op \<Rightarrow> site \<Rightarrow> bool" where
  "recovery_won lib (i, e) (Use_Code seen code) st =
     (u_id seen = i \<and> fst (consume_code lib seen code st)
      \<and> map_option fst (matched_entry lib (acc_backup_codes seen) code) = Some e)"
| "recovery_won lib _ _ st = False"

fun entries_granted :: "int \<times> string \<Rightarrow> recovery_op \<Rightarrow> nat" where
  "entries_granted (i, e) (Store_Codes j column) = (if i = j then count_list (fst (load_entries column)) e else 0)"
| "entries_granted _ _ = 0"

fun entries_stored :: "int \<times> string \<Rightarrow> site \<Rightarrow> nat" where
  "entries_stored (i, e) st =
     (case get_account st i of None \<Rightarrow> 0 | Some a \<Rightarrow> count_list (fst (load_entries (acc_backup_codes a))) e)"

lemma load_entries_json [simp]: "fst (load_entries (Some (Codes_Json xs))) = xs"
  by (cases xs) simp_all

lemma matched_index_SomeD: "matched_index m es = Some i \<Longrightarrow> i < length es \<and> m (es ! i)"
  by (induction es arbitrary: i) (auto split: if_splits)

lemma count_list_remove: "i < length es \<Longrightarrow> count_list (take i es @ drop (Suc i) es) e + (if es ! i = e then 1 else 0) = count_list es e"
proof (induction es arbitrary: i)
  case (Cons x es)
  then show ?case by (cases i) auto
qed simp

lemma matched_entry_count:
  assumes "matched_entry lib blob code = Some (x, remaining)"
  shows "count_list remaining e + (if x = e then 1 else 0) = count_list (fst (load_entries blob)) e"
proof -
  obtain entries hashed where l: "load_entries blob = (entries, hashed)" by fastforce
  then obtain i where "matched_index (entry_matches lib hashed (py_strip code)) entries = Some i"
    "x = entries ! i" "remaining = take i entries @ drop (Suc i) entries"
    using assms by (auto simp: matched_entry_def split: if_splits)
  then show ?thesis using l count_list_remove [of i entries e] matched_index_SomeD by fastforce
qed

lemma one_row_account:
  assumes "unique_ids st" and "count_rows (\<lambda>a. u_id a = i \<and> q a) (si_accounts st) = 1"
  shows "\<exists>a. get_account st i = Some a \<and> q a"
proof -
  have "\<exists>a \<in> set (si_accounts st). u_id a = i \<and> q a"
    using assms(2) count_rows_pos [of "\<lambda>a. u_id a = i \<and> q a" "si_accounts st"] by auto
  then obtain a where a: "a \<in> set (si_accounts st)" "u_id a = i" "q a" by blast
  then obtain b where b: "get_account st i = Some b"
    by (cases "get_account st i") (auto simp: get_account_def first_row_None_iff)
  then have "b = a" using a get_account_SomeD [OF b] unique_idsD [OF assms(1)] by auto
  then show ?thesis using a b by blast
qed

lemma recovery_ids [simp]: "map u_id (si_accounts (recovery_step lib op st)) = map u_id (si_accounts st)"
  by (cases op) (auto simp: consume_code_def Let_def map_update_rows split: option.splits prod.splits)

lemma recovery_budget:
  assumes "unique_ids st"
  shows "entries_stored k (recovery_step lib op st) + (if recovery_won lib k op st then 1 else 0)
    \<le> entries_stored k st + entries_granted k op"
proof (cases k)
  case (Pair i e)
  show ?thesis
  proof (cases op)
    case (Store_Codes j column)
    have "get_account (recovery_step lib op st) i =
        map_option (\<lambda>a. if i = j then a\<lparr>acc_backup_codes := column\<rparr> else a) (get_account st i)"
      unfolding Store_Codes get_account_def
      by (cases "i = j") (auto simp: first_row_update_same option.map_ident intro!: first_row_update_other)
    then show ?thesis using Pair Store_Codes by (auto split: option.splits)
  next
    case (Use_Code seen code)
    show ?thesis
    proof (cases "fst (consume_code lib seen code st)")
      case False
      then have "snd (consume_code lib seen code st) = st"
        by (auto simp: consume_code_def Let_def split: option.splits prod.splits if_splits)
      then show ?thesis using False Pair Use_Code by simp
    next
      case True
      let ?here = "\<lambda>a. u_id a = u_id seen \<and> acc_backup_codes a = acc_backup_codes seen"
      obtain x remaining where m: "matched_entry lib (acc_backup_codes seen) code = Some (x, remaining)"
        and one: "count_rows ?here (si_accounts st) = 1"
        and st': "snd (consume_code lib seen code st) = st\<lparr>si_accounts := update_rows ?here
            (\<lambda>a. a\<lparr>acc_backup_codes := Some (Codes_Json remaining)\<rparr>) (si_accounts st)\<rparr>"
        using True by (auto simp: consume_code_def Let_def split: option.splits prod.splits if_splits)
      obtain a where a: "get_account st (u_id seen) = Some a" "acc_backup_codes a = acc_backup_codes seen"
        using one_row_account [OF assms one] by blast
      have here: "?here b \<longleftrightarrow> u_id b = u_id seen" if "b \<in> set (si_accounts st)" for b
        using that a get_account_SomeD [OF a(1)] unique_idsD [OF assms, of b a] by auto
      have same: "update_rows ?here f (si_accounts st) = update_rows (\<lambda>a. u_id a = u_id seen) f (si_accounts st)" for f
        using here by (auto simp: update_rows_def)
      have "get_account (snd (consume_code lib seen code st)) i =
          map_option (\<lambda>a. if i = u_id seen then a\<lparr>acc_backup_codes := Some (Codes_Json remaining)\<rparr> else a) (get_account st i)"
        unfolding st' same get_account_def
        by (cases "i = u_id seen") (auto simp: first_row_update_same option.map_ident intro!: first_row_update_other)
      then show ?thesis
        using Pair Use_Code a m True matched_entry_count [OF m, of e] by (auto split: option.splits)
    qed
  qed
qed

interpretation recovery: single_use "recovery_step lib" "recovery_won lib" "\<lambda>_ st. unique_ids st"
    entries_granted entries_stored for lib
  by unfold_locales (rule recovery_budget)

lemma recovery_unique: "unique_ids (recovery_step lib op st) = unique_ids st"
  by (simp add: unique_ids_def)

lemma recovery_all_allowed: "unique_ids st \<Longrightarrow> all_allowed (recovery_step lib) (\<lambda>_ st. unique_ids st) st ops"
  by (induction ops arbitrary: st) (auto simp: recovery_unique)

section \<open>Factors of an account\<close>

text \<open>The operations a user performs on the own factors.\<close>

datatype factor_op =
    Enable_Totp string | Confirm_Totp "nat \<Rightarrow> string" "string list" string | Disable_Totp string string
  | Key_As_Factor bool "string option" | New_Codes "nat \<Rightarrow> string" "string list" string
  | Delete_Key int | Toggle_Key int bool | Register_Key bool assertion string

fun factor_route ::
    "factor_lib \<Rightarrow> route_env \<Rightarrow> auth_result \<Rightarrow> factor_op \<Rightarrow> site \<times> flask_session \<Rightarrow> route_answer \<times> site \<times> flask_session" where
  "factor_route lib env res (Enable_Totp secret) (st, ses) = (case enable_2fa env secret res st of (a, st') \<Rightarrow> (a, st', ses))"
| "factor_route lib env res (Confirm_Totp salts codes code) (st, ses) = confirm_2fa lib env salts codes code res (st, ses)"
| "factor_route lib env res (Disable_Totp code backup) (st, ses) = (case disable_2fa lib env code backup res st of (a, st') \<Rightarrow> (a, st', ses))"
| "factor_route lib env res (Key_As_Factor b p) (st, ses) =
     (case set_webauthn_second_factor lib env b p res st of (a, st') \<Rightarrow> (a, st', ses))"
| "factor_route lib env res (New_Codes salts codes code) (st, ses) =
     (case regenerate_recovery_codes lib env salts codes code res st of (a, st') \<Rightarrow> (a, st', ses))"
| "factor_route lib env res (Delete_Key k) (st, ses) = (case delete_credential env k res st of (a, st') \<Rightarrow> (a, st', ses))"
| "factor_route lib env res (Toggle_Key k b) (st, ses) = (case toggle_credential env k b res st of (a, st') \<Rightarrow> (a, st', ses))"
| "factor_route lib env res (Register_Key c2 att host) (st, ses) = register_key lib env c2 att host res (st, ses)"

definition factor_step :: "factor_lib \<Rightarrow> route_env \<times> auth_result \<times> factor_op \<times> flask_session \<Rightarrow> site \<Rightarrow> site" where
  "factor_step lib rq st = (case rq of (env, res, op, ses) \<Rightarrow> fst (snd (factor_route lib env res op (st, ses))))"

text \<open>An account for which a second factor is mandatory and which has one.\<close>

definition enrolled :: "site \<Rightarrow> account \<Rightarrow> bool" where
  "enrolled st a \<longleftrightarrow> u_totp_confirmed a \<or> has_security_key (db_of st) (user.truncate a) None"

definition guarded :: "site \<Rightarrow> int \<Rightarrow> bool" where
  "guarded st i \<longleftrightarrow>
     (\<exists>a. get_account st i = Some a \<and> enforcement_active_for (db_of st) (user.truncate a) None \<and> enrolled st a)"

definition key_left :: "site \<Rightarrow> int \<Rightarrow> int option \<Rightarrow> bool" where
  "key_left st i excluding \<longleftrightarrow> (\<exists>w \<in> set (si_security_keys st). w_user_id w = i \<and> w_enabled w \<and> excluding \<noteq> Some (w_id w))"

lemma key_truncate [simp]: "w_user_id (webauthn_credential.truncate x) = w_user_id x"
    "w_enabled (webauthn_credential.truncate x) = w_enabled x" "w_id (webauthn_credential.truncate x) = w_id x"
  by (simp_all add: webauthn_credential.defs)

lemma has_security_key_left: "has_security_key (db_of st) (user.truncate a) k = key_left st (u_id a) k"
  by (auto simp: has_security_key_def key_left_def db_of_def truncate_simps first_row_map first_row_None_iff
      split: option.splits)

lemma enforcement_frame_site:
  assumes "u_totp_exempt a' = u_totp_exempt a" "u_auth_source a' = u_auth_source a" "u_sso_provider a' = u_sso_provider a"
    "si_config st' = si_config st"
  shows "enforcement_active_for (db_of st') (user.truncate a') None = enforcement_active_for (db_of st) (user.truncate a) None"
  using assms by (simp add: enforcement_active_for_def global_enforce_2fa_def db_of_def user.defs)

text \<open>
  How an operation must treat the rows so that a guarded account stays guarded: columns that decide on
  enforcement stay, and where a factor goes another is left.
\<close>

lemma guarded_step:
  assumes "guarded st i" "get_account st i = Some a" "get_account st' i = Some a'"
    "u_totp_exempt a' = u_totp_exempt a" "u_auth_source a' = u_auth_source a" "u_sso_provider a' = u_sso_provider a"
    "si_config st' = si_config st" "u_id a' = u_id a"
    "enforcement_active_for (db_of st) (user.truncate a) None \<Longrightarrow> u_totp_confirmed a \<or> key_left st (u_id a) None
       \<Longrightarrow> u_totp_confirmed a' \<or> key_left st' (u_id a) None"
  shows "guarded st' i"
  using assms enforcement_frame_site [of a' a st' st] by (auto simp: guarded_def enrolled_def has_security_key_left)

lemma guarded_put:
  assumes "guarded st i" "get_account st j = Some a"
    "u_totp_exempt a' = u_totp_exempt a" "u_auth_source a' = u_auth_source a" "u_sso_provider a' = u_sso_provider a"
    "u_id a' = u_id a"
    "enforcement_active_for (db_of st) (user.truncate a) None \<Longrightarrow> u_totp_confirmed a \<or> key_left st (u_id a) None
       \<Longrightarrow> u_totp_confirmed a' \<or> key_left st (u_id a) None"
  shows "guarded (put_account a' st) i"
proof -
  have keys: "key_left (put_account a' st) k x = key_left st k x" for k x by (simp add: key_left_def put_account_def)
  have config: "si_config (put_account a' st) = si_config st" by (simp add: put_account_def)
  obtain b where b: "get_account st i = Some b" using assms(1) by (auto simp: guarded_def)
  have id: "u_id a = j" "u_id b = i" using assms(2) b get_account_SomeD by blast+
  show ?thesis
  proof (cases "i = j")
    case True
    then show ?thesis
      using assms b id by (intro guarded_step [OF assms(1) b, of _ a']) (auto simp: get_put_account config keys)
  next
    case False
    then show ?thesis
      using assms b id by (intro guarded_step [OF assms(1) b, of _ b]) (auto simp: get_put_account config keys)
  qed
qed

lemma guarded_finish: "guarded st i \<Longrightarrow> guarded st' i \<Longrightarrow> guarded (snd (finish env st st')) i"
  by (simp add: finish_def)

lemma guarded_set_keys:
  assumes "guarded st i"
    "\<And>a. get_account st i = Some a \<Longrightarrow> enforcement_active_for (db_of st) (user.truncate a) None \<Longrightarrow>
       u_totp_confirmed a \<or> key_left st i None \<Longrightarrow> u_totp_confirmed a \<or> key_left (st\<lparr>si_security_keys := ks\<rparr>) i None"
  shows "guarded (st\<lparr>si_security_keys := ks\<rparr>) i"
proof -
  obtain a where a: "get_account st i = Some a" using assms(1) by (auto simp: guarded_def)
  then have "u_id a = i" using get_account_SomeD by blast
  moreover have "get_account (st\<lparr>si_security_keys := ks\<rparr>) i = Some a" using a by (simp add: get_account_def)
  ultimately show ?thesis using a assms by (intro guarded_step [OF assms(1) a, of _ a]) auto
qed

lemma check_password_columns:
  "check_password lib salt p a = (ok, a') \<Longrightarrow> u_totp_exempt a' = u_totp_exempt a \<and> u_auth_source a' = u_auth_source a
     \<and> u_sso_provider a' = u_sso_provider a \<and> u_id a' = u_id a \<and> u_totp_confirmed a' = u_totp_confirmed a"
  by (auto simp: check_password_def set_password_def split: if_splits)

lemma totp_routes_guarded:
  assumes "guarded st i"
  shows "guarded (snd (enable_2fa env secret res st)) i"
    and "guarded (fst (snd (confirm_2fa lib env salts codes code res (st, ses)))) i"
    and "guarded (snd (regenerate_recovery_codes lib env salts codes code res st)) i"
    and "guarded (snd (set_webauthn_second_factor lib env b p res st)) i"
  using assms
  by (auto simp: enable_2fa_def confirm_2fa_def regenerate_recovery_codes_def set_webauthn_second_factor_def own_account_def
      finish_def intro: guarded_put dest!: check_password_columns split: option.splits prod.splits if_splits)

lemma truncate_factors: "u_totp_confirmed (user.truncate a) = u_totp_confirmed a" "u_webauthn_2fa (user.truncate a) = u_webauthn_2fa a"
  by (simp_all add: user.defs)

lemma would_leave_key_left:
  assumes "\<not> would_leave_no_second_factor (db_of st) (user.truncate a) dt dk" "enforcement_active_for (db_of st) (user.truncate a) None"
  shows "(u_totp_confirmed a \<and> \<not> dt) \<or> key_left st (u_id a) dk"
  using assms by (auto simp: would_leave_no_second_factor_def has_security_key_left Let_def truncate_factors split: if_splits)

lemma disable_guarded: "guarded st i \<Longrightarrow> guarded (snd (disable_2fa lib env code backup res st)) i"
  by (auto simp: disable_2fa_def own_account_def Let_def finish_def intro!: guarded_put
      dest: would_leave_key_left split: option.splits)

definition unique_keys :: "site \<Rightarrow> bool" where
  "unique_keys st \<longleftrightarrow> distinct (map w_id (si_security_keys st))"

lemma unique_keysD: "unique_keys st \<Longrightarrow> v \<in> set (si_security_keys st) \<Longrightarrow> w \<in> set (si_security_keys st) \<Longrightarrow> w_id v = w_id w \<Longrightarrow> v = w"
  by (auto simp: unique_keys_def distinct_map inj_on_def)

lemma get_security_key_SomeD: "get_security_key k st = Some w \<Longrightarrow> w \<in> set (si_security_keys st) \<and> w_id w = k"
  by (auto simp: get_security_key_def dest: first_row_SomeD)

text \<open>What is left when one key is removed or disabled that is not the last factor.\<close>

lemma key_left_without:
  assumes "unique_keys st" "w \<in> set (si_security_keys st)" "i \<noteq> w_user_id w \<or> \<not> w_enabled w" "key_left st i None"
  shows "key_left st i (Some (w_id w))"
  using assms unique_keysD unfolding key_left_def by (metis option.inject)

lemma drop_guarded:
  assumes "guarded st i" shows "guarded (drop_key_second_factor_if_last w st) i"
  using assms by (auto simp: drop_key_second_factor_if_last_def intro: guarded_put split: option.splits)

lemma drop_frame:
  "si_security_keys (drop_key_second_factor_if_last w st) = si_security_keys st"
  "si_config (drop_key_second_factor_if_last w st) = si_config st"
  "key_left (drop_key_second_factor_if_last w st) = key_left st"
  "enforcement_active_for (db_of (drop_key_second_factor_if_last w st)) = enforcement_active_for (db_of st)"
  by (auto simp: drop_key_second_factor_if_last_def put_account_def key_left_def fun_eq_iff enforcement_active_for_def
      global_enforce_2fa_def db_of_def split: option.splits)

lemma drop_account:
  assumes "get_account (drop_key_second_factor_if_last w st) i = Some a'"
  obtains a where "get_account st i = Some a" "u_totp_confirmed a' = u_totp_confirmed a" "u_totp_exempt a' = u_totp_exempt a"
    "u_auth_source a' = u_auth_source a" "u_sso_provider a' = u_sso_provider a" "u_id a' = u_id a"
  using assms get_account_SomeD
  by (auto simp: drop_key_second_factor_if_last_def get_put_account split: option.splits if_splits)

lemma remove_or_disable_guarded:
  assumes "guarded st i" "unique_keys st" "get_security_key k st = Some w" "w_user_id w = u_id (r_user res)"
    "\<not> strips_last_factor res k st"
    "\<And>x. x \<in> set (si_security_keys st) \<Longrightarrow> w_id x \<noteq> w_id w \<Longrightarrow> x \<in> set ks"
  shows "guarded ((drop_key_second_factor_if_last w st)\<lparr>si_security_keys := ks\<rparr>) i"
proof (rule guarded_set_keys [OF drop_guarded [OF assms(1)]])
  fix a' assume a': "get_account (drop_key_second_factor_if_last w st) i = Some a'"
    and enf: "enforcement_active_for (db_of (drop_key_second_factor_if_last w st)) (user.truncate a') None"
    and or: "u_totp_confirmed a' \<or> key_left (drop_key_second_factor_if_last w st) i None"
  from a' show "u_totp_confirmed a' \<or> key_left ((drop_key_second_factor_if_last w st)\<lparr>si_security_keys := ks\<rparr>) i None"
  proof (rule drop_account)
    fix a assume a: "get_account st i = Some a" "u_totp_confirmed a' = u_totp_confirmed a" "u_totp_exempt a' = u_totp_exempt a"
      "u_auth_source a' = u_auth_source a" "u_sso_provider a' = u_sso_provider a" "u_id a' = u_id a"
    have id: "u_id a = i" using a(1) get_account_SomeD by blast
    have enf': "enforcement_active_for (db_of st) (user.truncate a) None"
      using enf enforcement_frame_site [of a' a st st] a by (simp add: drop_frame)
    have w: "w \<in> set (si_security_keys st)" "w_id w = k" using assms(3) get_security_key_SomeD by blast+
    have "u_totp_confirmed a \<or> key_left st i (Some (w_id w))"
    proof (cases "w_user_id w = i \<and> w_enabled w")
      case True
      then have "\<not> would_leave_no_second_factor (db_of st) (user.truncate a) False (Some (w_id w))"
        using assms(3,4,5) a(1) by (auto simp: strips_last_factor_def lock_for_factor_change_def get_user_db_of)
      then show ?thesis using would_leave_key_left [OF _ enf'] id by blast
    next
      case False
      then show ?thesis using or a(2) key_left_without [OF assms(2) w(1), of i] by (auto simp: drop_frame)
    qed
    moreover have "key_left st i (Some (w_id w)) \<Longrightarrow> key_left ((drop_key_second_factor_if_last w st)\<lparr>si_security_keys := ks\<rparr>) i None"
      using assms(6) by (auto simp: key_left_def)
    ultimately show ?thesis using a(2) by blast
  qed
qed

lemma delete_credential_guarded:
  assumes "guarded st i" "unique_keys st"
  shows "guarded (snd (delete_credential env k res st)) i"
proof (cases "get_security_key k st")
  case (Some w)
  have "guarded ((drop_key_second_factor_if_last w st)\<lparr>si_security_keys := filter (\<lambda>x. w_id x \<noteq> w_id w) (si_security_keys st)\<rparr>) i"
    if "w_user_id w = u_id (r_user res)" "\<not> strips_last_factor res k st"
    using remove_or_disable_guarded [OF assms Some that] by auto
  then show ?thesis using Some assms by (auto simp: delete_credential_def remove_credential_def)
qed (simp add: delete_credential_def strips_last_factor_def assms)

lemma enable_key_left:
  assumes "key_left st i None"
  shows "key_left (st\<lparr>si_security_keys := update_rows p (\<lambda>x. x\<lparr>w_enabled := True\<rparr>) (si_security_keys st)\<rparr>) i None"
proof -
  obtain w where "w \<in> set (si_security_keys st)" "w_user_id w = i" "w_enabled w"
    using assms by (auto simp: key_left_def)
  then show ?thesis
    unfolding key_left_def by (intro bexI [of _ "if p w then w\<lparr>w_enabled := True\<rparr> else w"]) (auto simp: set_update_rows)
qed

lemma toggle_credential_guarded:
  assumes "guarded st i" "unique_keys st"
  shows "guarded (snd (toggle_credential env k b res st)) i"
proof (cases "get_security_key k st")
  case (Some w)
  let ?keys = "\<lambda>b. update_rows (\<lambda>x. w_id x = w_id w) (\<lambda>x. x\<lparr>w_enabled := b\<rparr>) (si_security_keys st)"
  have on: "guarded (st\<lparr>si_security_keys := ?keys True\<rparr>) i"
    using enable_key_left by (intro guarded_set_keys [OF assms(1)]) blast
  have off: "guarded ((drop_key_second_factor_if_last w st)\<lparr>si_security_keys := ?keys False\<rparr>) i"
    if "w_user_id w = u_id (r_user res)" "\<not> strips_last_factor res k st"
    using remove_or_disable_guarded [OF assms Some that] by (auto simp: set_update_rows)
  show ?thesis using Some assms on off by (cases b) (auto simp: toggle_credential_def set_credential_enabled_def)
qed (simp add: toggle_credential_def strips_last_factor_def assms)

lemma register_frame:
  assumes "verify_registration lib env j att host st = (ok, st')"
  obtains (none) "st' = st"
  | (one) w c where "st' = (drop_challenge c st)\<lparr>si_security_keys := si_security_keys st @ [w]\<rparr>" "w_id w = new_key_id st"
  using assms by (auto simp: verify_registration_def split: option.splits if_splits)

lemma register_unique:
  assumes "verify_registration lib env j att host st = (ok, st')" "unique_keys st"
  shows "unique_keys st'"
  using assms(1)
proof (cases rule: register_frame)
  case (one w c)
  have "new_key_id st \<notin> w_id ` set (si_security_keys st)"
    using foldr_max_ge [of _ "map w_id (si_security_keys st)"] by (fastforce simp: new_key_id_def)
  then show ?thesis using one assms(2) by (simp add: unique_keys_def)
qed (use assms in simp)

lemma register_guarded:
  assumes "guarded st i"
  shows "guarded (fst (snd (register_key lib env c2 att host res (st, ses)))) i"
proof -
  obtain ok st' where v: "verify_registration lib env (u_id (r_user res)) att host st = (ok, st')" by fastforce
  then have g: "guarded st' i"
  proof (cases rule: register_frame)
    case (one w c)
    have c: "guarded (drop_challenge c st) i"
      using assms by (auto simp: guarded_def enrolled_def get_account_def db_of_def drop_challenge_def)
    show ?thesis
      unfolding one(1) by (rule guarded_set_keys [OF c]) (auto simp: key_left_def drop_challenge_def)
  qed (use assms in simp)
  have "guarded (put_account (a\<lparr>u_webauthn_2fa := True\<rparr>) st') i" if "get_account st' j = Some a" for a j
    using that by (auto intro: guarded_put [OF g])
  then show ?thesis using g v by (auto simp: register_key_def own_account_def split: option.splits bool.splits)
qed

lemma factor_keys_unique: "unique_keys st \<Longrightarrow> unique_keys (factor_step lib rq st)"
proof -
  assume u: "unique_keys st"
  obtain env res op ses where rq: "rq = (env, res, op, ses)" by (cases rq) auto
  have drop: "unique_keys ((drop_key_second_factor_if_last w st)\<lparr>si_security_keys := filter p (si_security_keys st)\<rparr>)"
    "unique_keys (st1\<lparr>si_security_keys := update_rows q (\<lambda>x. x\<lparr>w_enabled := b\<rparr>) (si_security_keys st)\<rparr>)" for w p q b and st1 :: site
    using u by (auto simp: unique_keys_def distinct_map_filter map_update_rows)
  show ?thesis
  proof (cases op)
    case (Register_Key c2 att host)
    obtain ok st' where v: "verify_registration lib env (u_id (r_user res)) att host st = (ok, st')" by fastforce
    then have "unique_keys st'" using u register_unique by blast
    then show ?thesis using rq Register_Key v
      by (auto simp: factor_step_def register_key_def unique_keys_def put_account_def split: option.splits bool.splits)
  qed (use u rq drop in \<open>auto simp: factor_step_def enable_2fa_def confirm_2fa_def disable_2fa_def set_webauthn_second_factor_def
      regenerate_recovery_codes_def delete_credential_def toggle_credential_def remove_credential_def set_credential_enabled_def
      finish_def put_account_def unique_keys_def Let_def split: option.splits prod.splits\<close>)
qed

lemma factor_step_guarded:
  assumes "guarded st i" "unique_keys st"
  shows "guarded (factor_step lib rq st) i"
proof -
  obtain env res op ses where rq: "rq = (env, res, op, ses)" by (cases rq) auto
  show ?thesis
  proof (cases op)
    case (Enable_Totp secret)
    then show ?thesis using totp_routes_guarded(1) [OF assms(1), of env secret res] by (simp add: rq factor_step_def case_prod_unfold)
  next
    case (Confirm_Totp salts codes code)
    then show ?thesis using totp_routes_guarded(2) [OF assms(1), of lib env salts codes code res ses] by (simp add: rq factor_step_def)
  next
    case (Disable_Totp code backup)
    then show ?thesis using disable_guarded [OF assms(1), of lib env code backup res] by (simp add: rq factor_step_def case_prod_unfold)
  next
    case (Key_As_Factor b p)
    then show ?thesis using totp_routes_guarded(4) [OF assms(1), of lib env b p res] by (simp add: rq factor_step_def case_prod_unfold)
  next
    case (New_Codes salts codes code)
    then show ?thesis using totp_routes_guarded(3) [OF assms(1), of lib env salts codes code res] by (simp add: rq factor_step_def case_prod_unfold)
  next
    case (Delete_Key k)
    then show ?thesis using delete_credential_guarded [OF assms, of env k res] by (simp add: rq factor_step_def case_prod_unfold)
  next
    case (Toggle_Key k b)
    then show ?thesis using toggle_credential_guarded [OF assms, of env k b res] by (simp add: rq factor_step_def case_prod_unfold)
  next
    case (Register_Key c2 att host)
    then show ?thesis using register_guarded [OF assms(1), of lib env c2 att host res ses] by (simp add: rq factor_step_def)
  qed
qed

section \<open>Properties\<close>

text \<open>
  C15: a recovery code lets in at most one login. Among requests that use codes, each on the row as it
  read it, however stale, and operations that store new columns, an entry of an account is used up
  successfully at most as often as it was stored.
\<close>

theorem recovery_code_once:
  assumes "unique_ids st"
  shows "wins (recovery_step lib) (recovery_won lib) (i, e) st ops
    \<le> entries_stored (i, e) st + sum_list (map (entries_granted (i, e)) ops)"
  using recovery.wins_bounded [OF recovery_all_allowed [OF assms]] .

text \<open>Two requests read the same row, and both send the same code: one of them wins.\<close>

definition coded_admin :: account where
  "coded_admin = (sample_admin 1)\<lparr>acc_backup_codes := Some (hash_codes sample_hashing (\<lambda>_. ''s'') [''AAAA-BBBB'', ''CCCC-DDDD''])\<rparr>"

definition coded_site :: site where
  "coded_site = sample_site\<lparr>si_accounts := [coded_admin]\<rparr>"

lemma recovery_code_once_witness:
  "unique_ids coded_site
   \<and> wins (recovery_step sample_hashing) (recovery_won sample_hashing) (1, ''pbkdf2:sha256:600000$s:AAAA-BBBB'') coded_site
       [Use_Code coded_admin ''AAAA-BBBB'', Use_Code coded_admin ''AAAA-BBBB''] \<le> 1
   \<and> recovery_won sample_hashing (1, ''pbkdf2:sha256:600000$s:AAAA-BBBB'') (Use_Code coded_admin ''AAAA-BBBB'') coded_site"
proof -
  have ids: "unique_ids coded_site" by (simp add: unique_ids_def coded_site_def)
  have stored: "entries_stored (1, ''pbkdf2:sha256:600000$s:AAAA-BBBB'') coded_site = 1"
    by code_simp
  have "recovery_won sample_hashing (1, ''pbkdf2:sha256:600000$s:AAAA-BBBB'') (Use_Code coded_admin ''AAAA-BBBB'') coded_site"
    by code_simp
  then show ?thesis
    using ids stored recovery_code_once [OF ids, of sample_hashing 1 "''pbkdf2:sha256:600000$s:AAAA-BBBB''"
        "[Use_Code coded_admin ''AAAA-BBBB'', Use_Code coded_admin ''AAAA-BBBB'']"]
    by simp
qed

text \<open>
  C16: an account for which a second factor is mandatory and which has one, a confirmed one-time password
  or an enabled security key, keeps one whatever sequence of operations on their own factors users
  perform: enabling, confirming and disabling one-time passwords, new recovery codes, registering,
  switching and deleting keys.
\<close>

theorem required_factor_kept:
  assumes "guarded st i" and "unique_keys st"
  shows "guarded (fold (factor_step lib) rqs st) i"
  using assms
proof (induction rqs arbitrary: st)
  case (Cons rq rqs)
  then show ?case using factor_step_guarded factor_keys_unique by simp
qed simp

definition sample_key :: "int \<Rightarrow> security_key" where
  "sample_key k = \<lparr>w_id = k, w_user_id = 1, w_enabled = True, sk_credential_id = ''cred'' @ show_int k,
     sk_public_key = ''pk'', sk_sign_count = 4, sk_last_used_at = None\<rparr>"

definition keyed_admin_site :: site where
  "keyed_admin_site = sample_site\<lparr>si_config := [''enforce_2fa'' \<mapsto> ''true''], si_security_keys := [sample_key 3, sample_key 4],
     si_challenges := [\<lparr>wc_user_id = 1, wc_challenge = ''ch'', wc_type = ''2fa'', wc_expires_at = hours 2, wc_used = False\<rparr>]\<rparr>"

definition sample_factor_lib :: factor_lib where
  "sample_factor_lib = \<lparr>fl_passwords = sample_hashing, fl_totp = (\<lambda>secret code window now. code = ''123456''),
     fl_register = (\<lambda>att c rp origin. None),
     fl_authenticate = (\<lambda>a c rp origin key. if as_body a = ''signed'' then Some 5 else None)\<rparr>"

lemma required_factor_kept_witness:
  "guarded keyed_admin_site 1 \<and> unique_keys keyed_admin_site
   \<and> guarded (fold (factor_step sample_factor_lib)
        [(sample_route_env, sample_self, Delete_Key 3, sample_session), (sample_route_env, sample_self, Toggle_Key 4 False, sample_session)]
        keyed_admin_site) 1"
proof -
  have acc: "get_account keyed_admin_site 1 = Some (sample_admin 1)"
    by (simp add: get_account_def first_row_def keyed_admin_site_def sample_accounts)
  have "enforcement_active_for (db_of keyed_admin_site) (user.truncate (sample_admin 1)) None"
    by (simp add: enforcement_active_for_def global_enforce_2fa_def db_of_def keyed_admin_site_def user.defs
        sample_admin_def blank_account_def)
  moreover have "key_left keyed_admin_site 1 None"
    by (simp add: key_left_def keyed_admin_site_def sample_key_def)
  ultimately have g: "guarded keyed_admin_site 1"
    using acc by (simp add: guarded_def enrolled_def has_security_key_left)
  have u: "unique_keys keyed_admin_site" by (simp add: unique_keys_def keyed_admin_site_def sample_key_def)
  from g u show ?thesis using required_factor_kept [OF g u] by blast
qed

text \<open>
  What an accepted assertion proves: an enabled key of this very user signed a challenge that the server
  had stored for this user and this purpose, that was not expired and, for a second factor, the one of
  this session; the counter, where the key has one, went up. The challenge is gone, so the same assertion
  is not accepted again.
\<close>

theorem assertion_proves:
  assumes "verify_authentication lib env i a hostname kind expected st = (True, st')"
  shows "(\<exists>key \<in> set (si_security_keys st). \<exists>c \<in> set (si_challenges st). \<exists>count.
           w_user_id key = i \<and> w_enabled key \<and> as_credential a = Some (sk_credential_id key)
           \<and> wc_user_id c = i \<and> wc_type c = kind \<and> \<not> wc_used c \<and> re_now env < wc_expires_at c
           \<and> as_challenge a = Some (wc_challenge c) \<and> (expected = None \<or> expected = Some (wc_challenge c))
           \<and> fl_authenticate lib a (wc_challenge c) (get_rp_id hostname) (''https://'' @ hostname) (sk_public_key key) = Some count
           \<and> (count \<le> 0 \<or> sk_sign_count key < count))
    \<and> fst (verify_authentication lib env' j a hostname' kind' expected' st') = False"
proof -
  obtain cred key ch c count where k: "as_credential a = Some cred"
      "first_row (\<lambda>w. sk_credential_id w = cred \<and> w_user_id w = i \<and> w_enabled w) (si_security_keys st) = Some key"
    and ch: "as_challenge a = Some ch" "\<not> (expected \<noteq> None \<and> expected \<noteq> Some ch)"
      "find_challenge i kind ch st = Some c" "is_valid_challenge (re_now env) c"
    and ok: "fl_authenticate lib a (wc_challenge c) (get_rp_id hostname) (''https://'' @ hostname) (sk_public_key key) = Some count"
      "counter_ok (sk_sign_count key) count"
    and st': "si_challenges st' = filter (\<lambda>x. wc_challenge x \<noteq> wc_challenge c) (si_challenges st)"
    using assms by (auto simp: verify_authentication_def drop_challenge_def split: option.splits if_splits)
  have key: "key \<in> set (si_security_keys st)" "sk_credential_id key = cred" "w_user_id key = i" "w_enabled key"
    using first_row_SomeD [OF k(2)] by auto
  have c: "c \<in> set (si_challenges st)" "wc_challenge c = ch" "wc_user_id c = i" "wc_type c = kind" "\<not> wc_used c"
    using ch(3) by (auto simp: find_challenge_def dest!: first_row_SomeD)
  have gone: "find_challenge j kind' ch st' = None"
    using st' c(2) by (auto simp: find_challenge_def first_row_None_iff)
  have "fst (verify_authentication lib env' j a hostname' kind' expected' st') = False"
    using ch(1) gone by (simp add: verify_authentication_def split: option.splits)
  moreover have "re_now env < wc_expires_at c" "count \<le> 0 \<or> sk_sign_count key < count"
    using ch(4) ok(2) by (auto simp: is_valid_challenge_def counter_ok_def)
  ultimately show ?thesis
    using key c k(1) ch(1,2) ok(1) by (intro conjI bexI [of _ key] bexI [of _ c] exI [of _ count]) auto
qed

end
