(* ===== verification/Sign_In_Safety.thy ===== *)
theory Sign_In_Safety
  imports Sign_In Factor_Safety
begin

text \<open>
  What signing in guarantees: failed attempts are bounded in any period as long as the lockout, and a
  session exists only for who proved the factors the account asks for.
\<close>

section \<open>The lockout as an interface\<close>

text \<open>
  A counter of failed attempts with a lock. \<open>guess\<close> is an attempt that was compared with the secret and
  failed; \<open>breaks\<close> are the operations the bound does not cover (a success, an administrator's unlock, other
  settings). An attempt is not compared while the lock holds; it is counted, from zero when a lock has
  run out; the \<open>M\<close>-th locks for the time \<open>L\<close>; and no other operation touches the counter except to remove
  a lock that has run out.
\<close>

fun tries :: "('op \<Rightarrow> 's \<Rightarrow> 's) \<Rightarrow> ('op \<Rightarrow> 's \<Rightarrow> bool) \<Rightarrow> ('op \<Rightarrow> bool) \<Rightarrow> 's \<Rightarrow> 'op list \<Rightarrow> nat" where
  "tries step guess w s [] = 0"
| "tries step guess w s (op # ops) = (if guess op s \<and> w op then 1 else 0) + tries step guess w (step op s) ops"

text \<open>How many guesses a counter leaves open until \<open>start + L\<close>.\<close>

definition left_open :: "int \<Rightarrow> int \<Rightarrow> datetime \<Rightarrow> int \<Rightarrow> datetime option \<Rightarrow> int" where
  "left_open M L start n u = (case u of
     None \<Rightarrow> max 1 (M - n) | Some t \<Rightarrow> if start + L \<le> t then 0 else max 1 M)"

lemma left_open_nonneg [simp]: "0 \<le> left_open M L start n u"
  by (auto simp: left_open_def max_def split: option.splits)

locale attempt_lockout =
  fixes failures :: "'s \<Rightarrow> int"
    and until :: "'s \<Rightarrow> datetime option"
    and moment :: "'op \<Rightarrow> datetime"
    and step :: "'op \<Rightarrow> 's \<Rightarrow> 's"
    and guess :: "'op \<Rightarrow> 's \<Rightarrow> bool"
    and breaks :: "'op \<Rightarrow> 's \<Rightarrow> bool"
    and M :: int and L :: int
  assumes guess_open: "guess op s \<Longrightarrow> \<not> breaks op s \<Longrightarrow> \<not> locked_now (moment op) (until s)"
    and guess_failures: "guess op s \<Longrightarrow> \<not> breaks op s \<Longrightarrow>
      failures (step op s) = (if until s = None then failures s else 0) + 1"
    and guess_until: "guess op s \<Longrightarrow> \<not> breaks op s \<Longrightarrow>
      until (step op s) = (if M \<le> failures (step op s) then Some (moment op + L) else None)"
    and others: "\<not> guess op s \<Longrightarrow> \<not> breaks op s \<Longrightarrow>
      (failures (step op s) = failures s \<and> until (step op s) = until s)
      \<or> (until s \<noteq> None \<and> \<not> locked_now (moment op) (until s) \<and> until (step op s) = None \<and> failures (step op s) = 0)"
begin

lemma tries_after: "\<forall>op \<in> set ops. start + L \<le> moment op \<Longrightarrow> tries step guess (\<lambda>op. start \<le> moment op \<and> moment op < start + L) s ops = 0"
  by (induction ops arbitrary: s) auto

lemma tries_left_open:
  assumes "sorted (map moment ops)" "\<forall>op \<in> set ops. start \<le> moment op" "all_allowed step (\<lambda>op s. \<not> breaks op s) s ops"
  shows "int (tries step guess (\<lambda>op. start \<le> moment op \<and> moment op < start + L) s ops) \<le> left_open M L start (failures s) (until s)"
  using assms
proof (induction ops arbitrary: s)
  case Nil
  then show ?case by simp
next
  case (Cons op ops)
  let ?w = "\<lambda>op. start \<le> moment op \<and> moment op < start + L"
  have lo: "start \<le> moment op" and ok: "\<not> breaks op s" using Cons.prems by auto
  have rest: "int (tries step guess ?w (step op s) ops) \<le> left_open M L start (failures (step op s)) (until (step op s))"
    using Cons by auto
  show ?case
  proof (cases "moment op < start + L")
    case False
    then have "\<forall>o' \<in> set (op # ops). start + L \<le> moment o'" using Cons.prems(1) by force
    then have "tries step guess ?w s (op # ops) = 0" by (rule tries_after)
    then show ?thesis by simp
  next
    case win: True
    show ?thesis
    proof (cases "guess op s")
      case True
      have "left_open M L start (failures (step op s)) (until (step op s)) + 1 \<le> left_open M L start (failures s) (until s)"
        using guess_open [OF True ok] guess_failures [OF True ok] guess_until [OF True ok] lo win
        by (auto simp: left_open_def locked_now_def split: option.splits)
      then show ?thesis using rest True win lo by simp
    next
      case False
      have "left_open M L start (failures (step op s)) (until (step op s)) \<le> left_open M L start (failures s) (until s)"
        using others [OF False ok] win by (auto simp: left_open_def locked_now_def split: option.splits)
      then show ?thesis using rest False by simp
    qed
  qed
qed

lemma failures_nonneg: "0 \<le> failures s \<Longrightarrow> \<not> breaks op s \<Longrightarrow> 0 \<le> failures (step op s)"
  by (cases "guess op s") (use guess_failures [of op s] others [of op s] in \<open>auto split: if_splits\<close>)

lemma guesses_bounded:
  assumes "sorted (map moment ops)" "all_allowed step (\<lambda>op s. \<not> breaks op s) s ops" "0 \<le> failures s"
  shows "int (tries step guess (\<lambda>op. start \<le> moment op \<and> moment op < start + L) s ops) \<le> max 1 M"
  using assms
proof (induction ops arbitrary: s)
  case (Cons op ops)
  show ?case
  proof (cases "moment op < start")
    case True
    then show ?thesis using Cons failures_nonneg [of s op] by auto
  next
    case False
    then have "\<forall>o' \<in> set (op # ops). start \<le> moment o'" using Cons.prems(1) by force
    then have "int (tries step guess (\<lambda>op. start \<le> moment op \<and> moment op < start + L) s (op # ops)) \<le> left_open M L start (failures s) (until s)"
      using Cons.prems by (intro tries_left_open)
    moreover have "left_open M L start (failures s) (until s) \<le> max 1 M" using Cons.prems(3) by (auto simp: left_open_def split: option.splits)
    ultimately show ?thesis by simp
  qed
qed simp

end

section \<open>Requests\<close>

text \<open>
  The requests of a run, each with the session it carries, whatever that is: passwords, codes and keys of
  any client, LDAP attempts and their outcome, and an administrator's unlock.
\<close>

datatype sign_in_op =
    Try_Password route_env string string login_session
  | Try_Code factor_lib route_env string login_session
  | Try_Key factor_lib route_env assertion string login_session
  | Try_Passkey factor_lib route_env string assertion string login_session
  | Ldap_Failed route_env string
  | Unlock route_env auth_result int
  | Reset "string \<Rightarrow> string" route_env string string

fun op_env :: "sign_in_op \<Rightarrow> route_env" where
  "op_env (Try_Password env _ _ _) = env"
| "op_env (Try_Code _ env _ _) = env"
| "op_env (Try_Key _ env _ _ _) = env"
| "op_env (Try_Passkey _ env _ _ _ _) = env"
| "op_env (Ldap_Failed env _) = env"
| "op_env (Unlock env _ _) = env"
| "op_env (Reset _ env _ _) = env"

definition op_moment :: "sign_in_op \<Rightarrow> datetime" where
  "op_moment op = re_now (op_env op)"

text \<open>An LDAP attempt that fails: the lock is looked at first, as the route does.\<close>

definition ldap_failed :: "route_env \<Rightarrow> string \<Rightarrow> site \<Rightarrow> site" where
  "ldap_failed env name st =
     (case check_ldap_lockout env name st of
        (True, st') \<Rightarrow> st' | (False, st') \<Rightarrow> record_ldap_failed_attempt env name st')"

fun sign_in_step :: "sign_in_op \<Rightarrow> server \<Rightarrow> server" where
  "sign_in_step (Try_Password env name pw ses) sv = fst (snd (login_password env name pw (sv, ses)))"
| "sign_in_step (Try_Code lib env code ses) sv = fst (snd (login_2fa lib env code (sv, ses)))"
| "sign_in_step (Try_Key lib env a host ses) sv = fst (snd (login_2fa_webauthn_verify lib env a host (sv, ses)))"
| "sign_in_step (Try_Passkey lib env name a host ses) sv = fst (snd (webauthn_verify lib env name a host (sv, ses)))"
| "sign_in_step (Ldap_Failed env name) sv = with_site sv (ldap_failed env name (sv_site sv))"
| "sign_in_step (Unlock env res i) sv = with_site sv (snd (unlock_user env res i (sv_site sv)))"
| "sign_in_step (Reset sha env token pw) sv = with_site sv (snd (reset_password sha env token pw (sv_site sv)))"

section \<open>Passwords\<close>

definition failed_logins_of :: "int \<Rightarrow> server \<Rightarrow> int" where
  "failed_logins_of i sv = (case get_account (sv_site sv) i of None \<Rightarrow> 0 | Some a \<Rightarrow> acc_failed_logins a)"

definition locked_until_of :: "int \<Rightarrow> server \<Rightarrow> datetime option" where
  "locked_until_of i sv = (case get_account (sv_site sv) i of None \<Rightarrow> None | Some a \<Rightarrow> acc_locked_until a)"

text \<open>
  A password that the server compares with the hash of account \<open>i\<close>: the name is that account's, which is
  active and not locked. A lock that has run out must be cleared first, which may fail.
\<close>

definition compared :: "route_env \<Rightarrow> string \<Rightarrow> int \<Rightarrow> server \<Rightarrow> bool" where
  "compared env name i sv \<longleftrightarrow>
     (case find_username name (sv_site sv) of
        None \<Rightarrow> False
      | Some a \<Rightarrow> u_id a = i \<and> \<not> locked_now (re_now env) (acc_locked_until a) \<and> (acc_locked_until a = None \<or> re_commit env))"

definition right_password :: "route_env \<Rightarrow> string \<Rightarrow> string \<Rightarrow> server \<Rightarrow> bool" where
  "right_password env name pw sv \<longleftrightarrow>
     (case find_username name (sv_site sv) of
        None \<Rightarrow> False | Some a \<Rightarrow> verify_password (re_lib env) (acc_password_hash a) (take 4096 pw))"

definition active_name :: "string \<Rightarrow> server \<Rightarrow> bool" where
  "active_name name sv \<longleftrightarrow> (case find_username name (sv_site sv) of None \<Rightarrow> False | Some a \<Rightarrow> u_active a)"

fun password_compared :: "int \<Rightarrow> sign_in_op \<Rightarrow> server \<Rightarrow> bool" where
  "password_compared i (Try_Password env name pw ses) sv =
     (name \<noteq> [] \<and> pw \<noteq> [] \<and> take 255 (py_strip name) \<noteq> [] \<and> active_name (take 255 (py_strip name)) sv
      \<and> compared env (take 255 (py_strip name)) i sv)"
| "password_compared i (Ldap_Failed env name) sv = compared env name i sv"
| "password_compared i _ sv = False"

fun wrong_password :: "int \<Rightarrow> sign_in_op \<Rightarrow> server \<Rightarrow> bool" where
  "wrong_password i (Try_Password env name pw ses) sv =
     (password_compared i (Try_Password env name pw ses) sv \<and> \<not> right_password env (take 255 (py_strip name)) pw sv)"
| "wrong_password i op sv = password_compared i op sv"

text \<open>
  What resets the counter: the right password, a passkey of the account, an administrator's unlock, a reset
  password.
\<close>

fun resets_counter :: "int \<Rightarrow> sign_in_op \<Rightarrow> server \<Rightarrow> bool" where
  "resets_counter i (Try_Password env name pw ses) sv =
     (password_compared i (Try_Password env name pw ses) sv \<and> right_password env (take 255 (py_strip name)) pw sv)"
| "resets_counter i (Try_Passkey lib env name a host ses) sv =
     (case find_username (take 255 (py_strip name)) (sv_site sv) of
        None \<Rightarrow> False
      | Some acc \<Rightarrow> u_id acc = i \<and> fst (verify_authentication lib env i a host ''authentication'' None (sv_site sv)))"
| "resets_counter i (Unlock env res j) sv = (j = i)"
| "resets_counter i (Reset sha env token pw) sv =
     (case first_row (\<lambda>a. acc_reset_token a = Some (sha (py_strip token))) (si_accounts (sv_site sv)) of
        None \<Rightarrow> False | Some a \<Rightarrow> u_id a = i)"
| "resets_counter i _ sv = False"

definition password_breaks :: "int \<Rightarrow> int \<Rightarrow> int \<Rightarrow> sign_in_op \<Rightarrow> server \<Rightarrow> bool" where
  "password_breaks M S i op sv \<longleftrightarrow> resets_counter i op sv \<or> \<not> unique_ids (sv_site sv)
     \<or> get_lockout_settings (si_config (sv_site sv)) \<noteq> (M, S) \<or> \<not> re_commit (op_env op)"

lemma find_username_SomeD: "find_username name st = Some a \<Longrightarrow> a \<in> set (si_accounts st) \<and> acc_username a = name"
  by (auto simp: find_username_def dest: first_row_SomeD)

lemma get_named:
  assumes "unique_ids st" "find_username name st = Some a"
  shows "get_account st (u_id a) = Some a"
proof -
  have a: "a \<in> set (si_accounts st)" using assms(2) find_username_SomeD by blast
  then obtain b where b: "get_account st (u_id a) = Some b"
    by (cases "get_account st (u_id a)") (auto simp: get_account_def first_row_None_iff)
  then have "b = a" using get_account_SomeD [OF b] a unique_idsD [OF assms(1)] by auto
  then show ?thesis using b by simp
qed

lemma count_failure_simps [simp]:
  "u_id (count_failure m t a) = u_id a" "u_id (clear_lockout a) = u_id a" "u_id (login_stats t a) = u_id a"
  "acc_failed_logins (count_failure m t a) = acc_failed_logins a + 1"
  "acc_locked_until (count_failure m t a) =
     (if fst m \<le> acc_failed_logins a + 1 then Some (t + seconds (snd m)) else acc_locked_until a)"
  "acc_failed_logins (clear_lockout a) = 0" "acc_locked_until (clear_lockout a) = None"
  by (simp_all add: count_failure_def clear_lockout_def login_stats_def Let_def)

lemma check_password_id: "u_id (snd (check_password lib salt p a)) = u_id a"
  using check_password_standing [of lib salt p a] by (metis prod.collapse)

lemma verify_authentication_accounts: "si_accounts (snd (verify_authentication lib env i a host kind e st)) = si_accounts st"
  by (auto simp: verify_authentication_def drop_challenge_def split: option.splits)

lemma verify_authentication_config: "si_config (snd (verify_authentication lib env i a host kind e st)) = si_config st"
  by (auto simp: verify_authentication_def drop_challenge_def split: option.splits)

lemma consume_code_counters:
  "map_option (\<lambda>a. (acc_failed_logins a, acc_locked_until a)) (get_account (snd (consume_code lib seen code st)) i) =
   map_option (\<lambda>a. (acc_failed_logins a, acc_locked_until a)) (get_account st i)"
proof -
  have "map_option g (first_row (\<lambda>a. u_id a = i) (update_rows p f rows)) = map_option g (first_row (\<lambda>a. u_id a = i) rows)"
    if "\<And>a. u_id (f a) = u_id a \<and> g (f a) = g a" for g :: "account \<Rightarrow> int \<times> datetime option" and p f and rows :: "account list"
    using that by (induction rows) (auto simp: first_row_def update_rows_def)
  then show ?thesis by (auto simp: consume_code_def get_account_def Let_def split: option.splits prod.splits)
qed

text \<open>The row after an attempt with a password.\<close>

definition open_row :: "account \<Rightarrow> account" where
  "open_row a = (if acc_locked_until a = None then a else clear_lockout a)"

lemma open_row_simps [simp]: "u_id (open_row a) = u_id a" "acc_locked_until (open_row a) = None"
    "acc_failed_logins (open_row a) = (if acc_locked_until a = None then acc_failed_logins a else 0)"
    "acc_password_hash (open_row a) = acc_password_hash a"
  by (simp_all add: open_row_def clear_lockout_def)

lemma try_password_site:
  "sv_site (sign_in_step (Try_Password env name pw ses) sv) =
     (case find_username (take 255 (py_strip name)) (sv_site sv) of
        None \<Rightarrow> sv_site sv
      | Some a \<Rightarrow>
          if password_compared (u_id a) (Try_Password env name pw ses) sv \<and> re_commit env
          then if right_password env (take 255 (py_strip name)) pw sv
               then put_account (login_stats (re_now env) (snd (check_password (re_lib env) (re_salt env) (take 4096 pw) (open_row a)))) (sv_site sv)
               else put_account (count_failure (get_lockout_settings (si_config (sv_site sv))) (re_now env) (open_row a)) (sv_site sv)
          else sv_site sv)"
proof (cases "find_username (take 255 (py_strip name)) (sv_site sv)")
  case (Some a)
  then show ?thesis
    by (auto simp: login_password_def Let_def compared_def right_password_def active_name_def with_site_def check_password_def
        open_row_def [symmetric] split: prod.splits)
qed (simp add: login_password_def Let_def)

lemma try_password_effect:
  assumes "unique_ids (sv_site sv)" "find_username (take 255 (py_strip name)) (sv_site sv) = Some a"
  shows "get_account (sv_site (sign_in_step (Try_Password env name pw ses) sv)) i =
    (if i \<noteq> u_id a \<or> \<not> password_compared i (Try_Password env name pw ses) sv \<or> \<not> re_commit env then get_account (sv_site sv) i
     else Some (if right_password env (take 255 (py_strip name)) pw sv
                then login_stats (re_now env) (snd (check_password (re_lib env) (re_salt env) (take 4096 pw) (open_row a)))
                else count_failure (get_lockout_settings (si_config (sv_site sv))) (re_now env) (open_row a)))"
  unfolding try_password_site
  using get_named [OF assms] by (auto simp: assms(2) get_put_account check_password_id simp del: password_compared.simps)

lemma ldap_effect:
  assumes "unique_ids st" "find_username name st = Some a"
  shows "get_account (ldap_failed env name st) i =
    (if i \<noteq> u_id a \<or> locked_now (re_now env) (acc_locked_until a) \<or> \<not> re_commit env then get_account st i
     else Some (count_failure (get_lockout_settings (si_config st)) (re_now env) (open_row a)))"
proof -
  have g: "get_account st (u_id a) = Some a" using get_named [OF assms] .
  have find: "find_username name (put_account (clear_lockout a) st) = Some (clear_lockout a)"
  proof -
    have "first_row q (update_rows p f rows) = map_option (\<lambda>x. if p x then f x else x) (first_row q rows)"
      if "\<And>x. p x \<Longrightarrow> x \<in> set rows \<Longrightarrow> q (f x) = q x" for p q f and rows :: "account list"
      using that by (induction rows) (auto simp: first_row_def update_rows_def)
    moreover have "acc_username (clear_lockout a) = acc_username x" if "u_id x = u_id a" "x \<in> set (si_accounts st)" for x
      using that unique_idsD [OF assms(1), of x a] find_username_SomeD [OF assms(2)] by (simp add: clear_lockout_def)
    ultimately show ?thesis
      using assms(2) by (simp add: find_username_def put_account_def)
  qed
  have cfg: "si_config (put_account x st) = si_config st" for x by (simp add: put_account_def)
  show ?thesis
    using g assms(2) find
    by (auto simp: ldap_failed_def check_ldap_lockout_def record_ldap_failed_attempt_def change_named_def get_put_account
        open_row_def cfg)
qed

lemma pending_2fa_site:
  assumes "pending_2fa_user now (sv, ses) = r"
  shows "case r of Inl (_, sv', _) \<Rightarrow> sv_site sv' = sv_site sv | Inr (_, _, sv') \<Rightarrow> sv_site sv' = sv_site sv"
  using assms by (auto simp: pending_2fa_user_def Let_def split: option.splits prod.splits bool.splits if_splits)

lemma try_code_site:
  "sv_site (sign_in_step (Try_Code lib env code ses) sv) = sv_site sv
   \<or> (\<exists>a. sv_site (sign_in_step (Try_Code lib env code ses) sv) = snd (consume_code (fl_passwords lib) a (login_code code) (sv_site sv)))"
proof (cases "pending_2fa_user (re_now env) (sv, ses)")
  case (Inl r)
  then show ?thesis using pending_2fa_site [OF Inl] by (auto simp: login_2fa_def split: prod.splits)
next
  case (Inr r)
  obtain a key sv' where r: "r = (a, key, sv')" by (cases r)
  then have s: "sv_site sv' = sv_site sv" using pending_2fa_site [OF Inr] by simp
  obtain hit st' where c: "consume_code (fl_passwords lib) a (login_code code) (sv_site sv) = (hit, st')" by fastforce
  then have "st' = snd (consume_code (fl_passwords lib) a (login_code code) (sv_site sv))" by simp
  moreover have "sv_site (sign_in_step (Try_Code lib env code ses) sv) \<in> {sv_site sv, st'}"
    using Inr r s c
    by (cases hit) (simp_all add: login_2fa_def Let_def complete_2fa_login_def with_site_def fail_2fa_def)
  ultimately show ?thesis by auto
qed

lemma try_key_accounts:
  "si_accounts (sv_site (sign_in_step (Try_Key lib env a host ses) sv)) = si_accounts (sv_site sv)"
proof (cases "pending_2fa_user (re_now env) (sv, ses)")
  case (Inl r)
  then show ?thesis using pending_2fa_site [OF Inl] by (auto simp: login_2fa_webauthn_verify_def split: prod.splits)
next
  case (Inr r)
  obtain acc key sv' where r: "r = (acc, key, sv')" by (cases r)
  then have s: "sv_site sv' = sv_site sv" using pending_2fa_site [OF Inr] by simp
  let ?v = "\<lambda>c. verify_authentication lib env (u_id acc) a host ''2fa'' (Some c) (sv_site sv)"
  have v: "si_accounts (snd (?v c)) = si_accounts (sv_site sv)" for c by (rule verify_authentication_accounts)
  show ?thesis
  proof (cases "ls_challenge ses")
    case None
    then show ?thesis using Inr r s by (simp add: login_2fa_webauthn_verify_def Let_def with_site_def fail_2fa_def)
  next
    case (Some c)
    obtain ok st' where "?v c = (ok, st')" by fastforce
    then show ?thesis using Inr r s Some v [of c]
      by (cases ok) (auto simp: login_2fa_webauthn_verify_def Let_def with_site_def fail_2fa_def complete_2fa_login_def)
  qed
qed

lemma other_ops_counters:
  assumes "\<not> resets_counter i op sv" "\<And>env name pw ses. op \<noteq> Try_Password env name pw ses" "\<And>env name. op \<noteq> Ldap_Failed env name"
    "unique_ids (sv_site sv)"
  shows "map_option (\<lambda>a. (acc_failed_logins a, acc_locked_until a)) (get_account (sv_site (sign_in_step op sv)) i) =
    map_option (\<lambda>a. (acc_failed_logins a, acc_locked_until a)) (get_account (sv_site sv) i)"
proof (cases op)
  case (Try_Code lib env code ses)
  then show ?thesis using try_code_site [of lib env code ses sv] consume_code_counters [where lib = "fl_passwords lib" and i = i] by auto
next
  case (Try_Key lib env a host ses)
  then show ?thesis using try_key_accounts [of lib env a host ses sv] by (simp add: get_account_def)
next
  case (Try_Passkey lib env name a host ses)
  have acc: "get_account (snd (verify_authentication lib env j a host kind e st)) i = get_account st i" for j kind e st
    by (simp add: get_account_def verify_authentication_accounts)
  show ?thesis
  proof (cases "find_username (take 255 (py_strip name)) (sv_site sv)")
    case None
    then show ?thesis using Try_Passkey by (auto simp: webauthn_verify_def Let_def split: prod.splits bool.splits)
  next
    case (Some b)
    obtain ok st' where v: "verify_authentication lib env (u_id b) a host ''authentication'' None (sv_site sv) = (ok, st')"
      by fastforce
    then have "get_account st' i = get_account (sv_site sv) i" using acc by (metis snd_conv)
    moreover have "ok \<Longrightarrow> u_id b \<noteq> i" using assms(1) Try_Passkey Some v by auto
    ultimately show ?thesis
      using Try_Passkey Some v
      by (auto simp: webauthn_verify_def Let_def with_site_def get_put_account split: prod.splits bool.splits)
  qed
next
  case (Unlock env res j)
  then have "j \<noteq> i" using assms(1) by simp
  then show ?thesis using Unlock
    by (auto simp: unlock_user_def with_site_def finish_def get_put_account dest: get_account_SomeD split: option.splits)
next
  case (Reset sha env token pw)
  then show ?thesis using assms(1)
    by (auto simp: reset_password_def with_site_def finish_def get_put_account set_password_def Let_def split: option.splits)
qed (use assms in simp_all)

lemma password_op_counters:
  assumes "unique_ids (sv_site sv)" "\<not> resets_counter i (Try_Password env name pw ses) sv" "re_commit env"
  shows "get_account (sv_site (sign_in_step (Try_Password env name pw ses) sv)) i =
    (if wrong_password i (Try_Password env name pw ses) sv
     then map_option (\<lambda>a. count_failure (get_lockout_settings (si_config (sv_site sv))) (re_now env) (open_row a)) (get_account (sv_site sv) i)
     else get_account (sv_site sv) i)"
proof (cases "find_username (take 255 (py_strip name)) (sv_site sv)")
  case None
  then show ?thesis unfolding try_password_site by (simp add: compared_def)
next
  case (Some a)
  then show ?thesis
    using assms(2,3) get_named [OF assms(1) Some] unfolding try_password_effect [OF assms(1) Some]
    by (auto simp: compared_def simp del: sign_in_step.simps)
qed

lemma ldap_op_counters:
  assumes "unique_ids (sv_site sv)" "re_commit env"
  shows "get_account (sv_site (sign_in_step (Ldap_Failed env name) sv)) i =
    (if wrong_password i (Ldap_Failed env name) sv
     then map_option (\<lambda>a. count_failure (get_lockout_settings (si_config (sv_site sv))) (re_now env) (open_row a)) (get_account (sv_site sv) i)
     else get_account (sv_site sv) i)"
proof (cases "find_username name (sv_site sv)")
  case None
  then show ?thesis by (simp add: compared_def ldap_failed_def check_ldap_lockout_def record_ldap_failed_attempt_def change_named_def with_site_def)
next
  case (Some a)
  then show ?thesis
    using get_named [OF assms(1) Some] ldap_effect [OF assms(1) Some, of env i] assms(2) by (auto simp: compared_def with_site_def)
qed

lemma counters_unless_wrong:
  assumes "\<not> password_breaks M S i op sv" "\<not> wrong_password i op sv"
  shows "failed_logins_of i (sign_in_step op sv) = failed_logins_of i sv \<and> locked_until_of i (sign_in_step op sv) = locked_until_of i sv"
proof -
  have "\<not> resets_counter i op sv" "unique_ids (sv_site sv)" "re_commit (op_env op)" using assms(1) by (auto simp: password_breaks_def)
  then have "map_option (\<lambda>a. (acc_failed_logins a, acc_locked_until a)) (get_account (sv_site (sign_in_step op sv)) i) =
    map_option (\<lambda>a. (acc_failed_logins a, acc_locked_until a)) (get_account (sv_site sv) i)"
    using other_ops_counters [of i op sv] password_op_counters [of sv i] ldap_op_counters [of sv _ _ i] assms(2)
    by (cases op) (simp_all del: sign_in_step.simps wrong_password.simps resets_counter.simps)
  then show ?thesis
    by (auto simp: failed_logins_of_def locked_until_of_def split: option.splits)
qed

lemma wrong_password_open:
  assumes "wrong_password i op sv" "unique_ids (sv_site sv)"
  shows "\<exists>a. get_account (sv_site sv) i = Some a \<and> \<not> locked_now (op_moment op) (acc_locked_until a)"
  using assms get_named [OF assms(2)]
  by (cases op) (auto simp: compared_def op_moment_def split: option.splits)

lemma wrong_password_counts:
  assumes "wrong_password i op sv" "\<not> password_breaks M S i op sv" "get_account (sv_site sv) i = Some a"
  shows "get_account (sv_site (sign_in_step op sv)) i = Some (count_failure (M, S) (op_moment op) (open_row a))"
proof -
  have b: "\<not> resets_counter i op sv" "unique_ids (sv_site sv)" "re_commit (op_env op)" "get_lockout_settings (si_config (sv_site sv)) = (M, S)"
    using assms(2) by (auto simp: password_breaks_def)
  then show ?thesis
    using assms(1,3) password_op_counters [of sv i] ldap_op_counters [of sv _ _ i]
    by (cases op) (simp_all add: op_moment_def del: sign_in_step.simps wrong_password.simps(1) resets_counter.simps)
qed

interpretation password_lock: attempt_lockout "failed_logins_of i" "locked_until_of i" op_moment sign_in_step "wrong_password i"
    "password_breaks M S i" M "seconds S" for i M S
proof
  fix op sv
  assume g: "wrong_password i op sv" and ok: "\<not> password_breaks M S i op sv"
  obtain a where a: "get_account (sv_site sv) i = Some a" "\<not> locked_now (op_moment op) (acc_locked_until a)"
    using wrong_password_open [OF g] ok by (auto simp: password_breaks_def)
  note after = wrong_password_counts [OF g ok a(1)]
  show "\<not> locked_now (op_moment op) (locked_until_of i sv)" using a by (simp add: locked_until_of_def)
  show "failed_logins_of i (sign_in_step op sv) = (if locked_until_of i sv = None then failed_logins_of i sv else 0) + 1"
    using after a by (simp add: failed_logins_of_def locked_until_of_def)
  show "locked_until_of i (sign_in_step op sv) =
      (if M \<le> failed_logins_of i (sign_in_step op sv) then Some (op_moment op + seconds S) else None)"
    using after a by (simp add: failed_logins_of_def locked_until_of_def)
qed (use counters_unless_wrong in blast)

section \<open>Second factors\<close>

definition failed_factors_of :: "int \<Rightarrow> server \<Rightarrow> int" where
  "failed_factors_of i sv = (case sv_2fa sv (show_int i) of None \<Rightarrow> 0 | Some e \<Rightarrow> at_count e)"

definition factors_locked_of :: "int \<Rightarrow> server \<Rightarrow> datetime option" where
  "factors_locked_of i sv = (case sv_2fa sv (show_int i) of None \<Rightarrow> None | Some e \<Rightarrow> at_locked e)"

text \<open>The second factor a request presents for the login that waits in its session, if it is checked.\<close>

definition code_right :: "factor_lib \<Rightarrow> route_env \<Rightarrow> string \<Rightarrow> account \<Rightarrow> site \<Rightarrow> bool" where
  "code_right lib env code a st \<longleftrightarrow>
     (u_totp_confirmed a \<and> has_secret a \<and> totp_ok lib env (acc_totp_secret a) (login_code code) 1)
     \<or> fst (consume_code (fl_passwords lib) a (login_code code) st)"

definition key_right :: "factor_lib \<Rightarrow> route_env \<Rightarrow> assertion \<Rightarrow> string \<Rightarrow> login_session \<Rightarrow> account \<Rightarrow> site \<Rightarrow> bool" where
  "key_right lib env a host ses acc st \<longleftrightarrow>
     (case ls_challenge ses of
        None \<Rightarrow> False
      | Some c \<Rightarrow> c \<noteq> [] \<and> fst (verify_authentication lib env (u_id acc) a host ''2fa'' (Some c) st))"

definition waits_for :: "datetime \<Rightarrow> int \<Rightarrow> login_session \<Rightarrow> server \<Rightarrow> account option" where
  "waits_for now i ses sv =
     (if ls_pending ses = Some i \<and> i \<noteq> 0 \<and> \<not> locked_now now (factors_locked_of i sv)
      then (case get_account (sv_site sv) i of None \<Rightarrow> None | Some a \<Rightarrow> if u_active a then Some a else None)
      else None)"

fun wrong_factor :: "int \<Rightarrow> sign_in_op \<Rightarrow> server \<Rightarrow> bool" where
  "wrong_factor i (Try_Code lib env code ses) sv =
     (case waits_for (re_now env) i ses sv of
        None \<Rightarrow> False
      | Some a \<Rightarrow> code \<noteq> [] \<and> 6 \<le> length (login_code code) \<and> \<not> code_right lib env code a (sv_site sv))"
| "wrong_factor i (Try_Key lib env a host ses) sv =
     (case waits_for (re_now env) i ses sv of None \<Rightarrow> False | Some acc \<Rightarrow> \<not> key_right lib env a host ses acc (sv_site sv))"
| "wrong_factor i _ sv = False"

fun right_factor :: "int \<Rightarrow> sign_in_op \<Rightarrow> server \<Rightarrow> bool" where
  "right_factor i (Try_Code lib env code ses) sv =
     (case waits_for (re_now env) i ses sv of
        None \<Rightarrow> False
      | Some a \<Rightarrow> code \<noteq> [] \<and> 6 \<le> length (login_code code) \<and> code_right lib env code a (sv_site sv))"
| "right_factor i (Try_Key lib env a host ses) sv =
     (case waits_for (re_now env) i ses sv of None \<Rightarrow> False | Some acc \<Rightarrow> key_right lib env a host ses acc (sv_site sv))"
| "right_factor i _ sv = False"

definition factor_breaks :: "int \<Rightarrow> int \<Rightarrow> int \<Rightarrow> sign_in_op \<Rightarrow> server \<Rightarrow> bool" where
  "factor_breaks M S i op sv \<longleftrightarrow> right_factor i op sv \<or> get_lockout_settings (si_config (sv_site sv)) \<noteq> (M, S)"

text \<open>What the check for a waiting login does to the table.\<close>

lemma pending_2fa_cases:
  obtains (refused) ans tr ses' where "pending_2fa_user now (sv, ses) = Inl (ans, sv\<lparr>sv_2fa := tr\<rparr>, ses')"
      "ans \<noteq> Signed_In" "s_user_id ses' = s_user_id ses \<or> ses' = empty_login" "ses' = ses \<or> ses' = empty_login"
      "\<And>i. waits_for now i ses sv = None"
      "tr = sv_2fa sv \<or> (\<exists>i e. sv_2fa sv (show_int i) = Some e \<and> at_locked e \<noteq> None \<and> \<not> locked_now now (at_locked e)
         \<and> tr = (sv_2fa sv)(show_int i := None))"
  | (waiting) i a tr where "pending_2fa_user now (sv, ses) = Inr (a, show_int i, sv\<lparr>sv_2fa := tr\<rparr>)"
      "waits_for now i ses sv = Some a" "\<And>j. j \<noteq> i \<Longrightarrow> waits_for now j ses sv = None" "u_id a = i"
      "\<not> locked_now now (factors_locked_of i sv)"
      "tr = (if factors_locked_of i sv = None then sv_2fa sv else (sv_2fa sv)(show_int i := None))"
proof (cases "ls_pending ses")
  case None
  show ?thesis
    by (rule refused [of "Login_Error 401" "sv_2fa sv" ses]) (use None in \<open>simp_all add: pending_2fa_user_def waits_for_def\<close>)
next
  case (Some i)
  obtain locked tr where c: "check_2fa_lockout now (show_int i) (sv_2fa sv) = (locked, tr)" by fastforce
  have l: "locked = locked_now now (factors_locked_of i sv)"
    using c by (auto simp: check_2fa_lockout_def factors_locked_of_def locked_now_def split: option.splits if_splits)
  have tr: "tr = (if locked \<or> factors_locked_of i sv = None then sv_2fa sv else (sv_2fa sv)(show_int i := None))"
    using c by (auto simp: check_2fa_lockout_def factors_locked_of_def locked_now_def split: option.splits if_splits)
  have cleared: "tr = sv_2fa sv \<or> (\<exists>i e. sv_2fa sv (show_int i) = Some e \<and> at_locked e \<noteq> None \<and> \<not> locked_now now (at_locked e)
         \<and> tr = (sv_2fa sv)(show_int i := None))"
    using tr l by (auto simp: factors_locked_of_def split: option.splits if_splits)
  consider "i = 0" | "i \<noteq> 0" "locked" | "i \<noteq> 0" "\<not> locked" "\<nexists>a. get_account (sv_site sv) i = Some a \<and> u_active a"
    | a where "i \<noteq> 0" "\<not> locked" "get_account (sv_site sv) i = Some a" "u_active a" by blast
  then show ?thesis
  proof cases
    case 1
    show ?thesis
      by (rule refused [of "Login_Error 401" "sv_2fa sv" ses]) (use 1 Some in \<open>auto simp: pending_2fa_user_def waits_for_def\<close>)
  next
    case 2
    show ?thesis
      by (rule refused [of "Login_Error 429" tr ses])
        (use 2 Some c l cleared in \<open>auto simp: pending_2fa_user_def waits_for_def\<close>)
  next
    case 3
    show ?thesis
      by (rule refused [of "Login_Error 401" tr empty_login])
        (use 3 Some c l cleared in \<open>auto simp: pending_2fa_user_def waits_for_def Let_def split: option.splits\<close>)
  next
    case 4
    then have "u_id a = i" using get_account_SomeD by blast
    then show ?thesis
      by (intro waiting [of a i tr]) (use 4 Some c l tr in \<open>auto simp: pending_2fa_user_def waits_for_def\<close>)
  qed
qed

definition counted :: "int \<Rightarrow> sign_in_op \<Rightarrow> server \<Rightarrow> attempts option" where
  "counted i op sv =
     record_2fa_failure (get_lockout_settings (si_config (sv_site sv))) (op_moment op) (show_int i)
       (if factors_locked_of i sv = None then sv_2fa sv else (sv_2fa sv)(show_int i := None)) (show_int i)"

definition lapsed :: "int \<Rightarrow> sign_in_op \<Rightarrow> server \<Rightarrow> server \<Rightarrow> bool" where
  "lapsed i op sv sv' \<longleftrightarrow> sv_2fa sv' (show_int i) = sv_2fa sv (show_int i)
     \<or> (factors_locked_of i sv \<noteq> None \<and> \<not> locked_now (op_moment op) (factors_locked_of i sv) \<and> sv_2fa sv' (show_int i) = None)"

lemma lapsed_refused:
  assumes "tr = sv_2fa sv \<or> (\<exists>j e. sv_2fa sv (show_int j) = Some e \<and> at_locked e \<noteq> None \<and> \<not> locked_now (op_moment op) (at_locked e)
         \<and> tr = (sv_2fa sv)(show_int j := None))" "sv_2fa sv' = tr"
  shows "lapsed i op sv sv'"
  using assms by (auto simp: lapsed_def factors_locked_of_def split: if_splits)

lemma code_tracker:
  assumes "op = Try_Code lib env code ses" "\<not> right_factor i op sv"
  shows "if wrong_factor i op sv then sv_2fa (sign_in_step op sv) (show_int i) = counted i op sv
    else lapsed i op sv (sign_in_step op sv)"
proof (rule pending_2fa_cases [of "re_now env" sv ses])
  fix ans tr ses'
  assume "pending_2fa_user (re_now env) (sv, ses) = Inl (ans, sv\<lparr>sv_2fa := tr\<rparr>, ses')" "\<And>i. waits_for (re_now env) i ses sv = None"
    "tr = sv_2fa sv \<or> (\<exists>i e. sv_2fa sv (show_int i) = Some e \<and> at_locked e \<noteq> None \<and> \<not> locked_now (re_now env) (at_locked e)
       \<and> tr = (sv_2fa sv)(show_int i := None))"
  then show ?thesis using assms(1) lapsed_refused [of tr sv op _ i] by (simp add: login_2fa_def op_moment_def)
next
  fix j a tr
  assume p: "pending_2fa_user (re_now env) (sv, ses) = Inr (a, show_int j, sv\<lparr>sv_2fa := tr\<rparr>)"
    and w: "waits_for (re_now env) j ses sv = Some a" "\<And>k. k \<noteq> j \<Longrightarrow> waits_for (re_now env) k ses sv = None"
    and l: "\<not> locked_now (re_now env) (factors_locked_of j sv)"
    and tr: "tr = (if factors_locked_of j sv = None then sv_2fa sv else (sv_2fa sv)(show_int j := None))"
  obtain hit st' where c: "consume_code (fl_passwords lib) a (login_code code) (sv_site sv) = (hit, st')" by fastforce
  show ?thesis
  proof (cases "j = i")
    case True
    then show ?thesis
      using assms p w(1) l tr c
      by (cases hit) (auto simp: login_2fa_def Let_def code_right_def fail_2fa_def counted_def lapsed_def op_moment_def)
  next
    case False
    then show ?thesis
      using assms p w(2) [of i] tr c
      by (cases hit) (auto simp: login_2fa_def Let_def fail_2fa_def lapsed_def record_2fa_failure_def complete_2fa_login_def
          clear_2fa_failures_def with_site_def)
  qed
qed

lemma key_tracker:
  assumes "op = Try_Key lib env a host ses" "\<not> right_factor i op sv"
  shows "if wrong_factor i op sv then sv_2fa (sign_in_step op sv) (show_int i) = counted i op sv
    else lapsed i op sv (sign_in_step op sv)"
proof (rule pending_2fa_cases [of "re_now env" sv ses])
  fix ans tr ses'
  assume "pending_2fa_user (re_now env) (sv, ses) = Inl (ans, sv\<lparr>sv_2fa := tr\<rparr>, ses')" "\<And>i. waits_for (re_now env) i ses sv = None"
    "tr = sv_2fa sv \<or> (\<exists>i e. sv_2fa sv (show_int i) = Some e \<and> at_locked e \<noteq> None \<and> \<not> locked_now (re_now env) (at_locked e)
       \<and> tr = (sv_2fa sv)(show_int i := None))"
  then show ?thesis using assms(1) lapsed_refused [of tr sv op _ i] by (simp add: login_2fa_webauthn_verify_def op_moment_def)
next
  fix j acc tr
  assume p: "pending_2fa_user (re_now env) (sv, ses) = Inr (acc, show_int j, sv\<lparr>sv_2fa := tr\<rparr>)"
    and w: "waits_for (re_now env) j ses sv = Some acc" "\<And>k. k \<noteq> j \<Longrightarrow> waits_for (re_now env) k ses sv = None"
    and l: "\<not> locked_now (re_now env) (factors_locked_of j sv)"
    and tr: "tr = (if factors_locked_of j sv = None then sv_2fa sv else (sv_2fa sv)(show_int j := None))"
  define v where "v = (case ls_challenge ses of
        None \<Rightarrow> (False, sv_site sv)
      | Some c \<Rightarrow> if c = [] then (False, sv_site sv)
                  else verify_authentication lib env (u_id acc) a host ''2fa'' (Some c) (sv_site sv))"
  have right: "key_right lib env a host ses acc (sv_site sv) = fst v" by (simp add: key_right_def v_def split: option.split)
  have cfg: "si_config (snd v) = si_config (sv_site sv)"
    by (auto simp: v_def verify_authentication_config split: option.split)
  obtain ok st' where v: "v = (ok, st')" by fastforce
  have result: "sign_in_step op sv =
      (if ok then (with_site sv st')\<lparr>sv_2fa := clear_2fa_failures (show_int j) tr\<rparr>
       else fail_2fa (re_now env) (show_int j) (with_site (sv\<lparr>sv_2fa := tr\<rparr>) st'))"
    using p assms(1) v
    by (cases "ls_challenge ses"; cases ok)
      (auto simp: login_2fa_webauthn_verify_def Let_def v_def complete_2fa_login_def with_site_def split: if_splits)
  show ?thesis
  proof (cases "j = i")
    case True
    then show ?thesis using assms w(1) tr right v cfg unfolding result
      by (simp add: fail_2fa_def counted_def op_moment_def with_site_def)
  next
    case False
    then show ?thesis using assms(1) w(2) [of i] tr unfolding result
      by (simp add: lapsed_def fail_2fa_def record_2fa_failure_def clear_2fa_failures_def with_site_def Let_def)
  qed
qed

lemma factor_tracker:
  assumes "\<not> right_factor i op sv"
  shows "if wrong_factor i op sv then sv_2fa (sign_in_step op sv) (show_int i) = counted i op sv
    else lapsed i op sv (sign_in_step op sv)"
proof (cases op)
  case (Try_Code lib env code ses)
  then show ?thesis using code_tracker assms by blast
next
  case (Try_Key lib env a host ses)
  then show ?thesis using key_tracker assms by blast
next
  case (Try_Password env name pw ses)
  then show ?thesis by (auto simp: lapsed_def login_password_def with_site_def Let_def split: option.split prod.split bool.split)
next
  case (Try_Passkey lib env name a host ses)
  then show ?thesis by (auto simp: lapsed_def webauthn_verify_def with_site_def Let_def split: option.split prod.split bool.split)
qed (simp_all add: lapsed_def with_site_def)

lemma wrong_factor_open: "wrong_factor i op sv \<Longrightarrow> \<not> locked_now (op_moment op) (factors_locked_of i sv)"
  by (cases op) (auto simp: waits_for_def op_moment_def split: option.splits if_splits)

interpretation factor_lock: attempt_lockout "failed_factors_of i" "factors_locked_of i" op_moment sign_in_step "wrong_factor i"
    "factor_breaks M S i" M "seconds S" for i M S
proof
  fix op sv
  assume g: "wrong_factor i op sv" and ok: "\<not> factor_breaks M S i op sv"
  show "\<not> locked_now (op_moment op) (factors_locked_of i sv)" using wrong_factor_open [OF g] .
  have after: "sv_2fa (sign_in_step op sv) (show_int i) = counted i op sv"
    using factor_tracker [of i op sv] g ok by (simp add: factor_breaks_def)
  have s: "get_lockout_settings (si_config (sv_site sv)) = (M, S)" using ok by (simp add: factor_breaks_def)
  show n: "failed_factors_of i (sign_in_step op sv) = (if factors_locked_of i sv = None then failed_factors_of i sv else 0) + 1"
    using after s by (auto simp: failed_factors_of_def factors_locked_of_def counted_def record_2fa_failure_def Let_def split: option.splits)
  show "factors_locked_of i (sign_in_step op sv) =
      (if M \<le> failed_factors_of i (sign_in_step op sv) then Some (op_moment op + seconds S) else None)"
    using after s by (auto simp: failed_factors_of_def factors_locked_of_def counted_def record_2fa_failure_def Let_def split: option.splits)
next
  fix op sv
  assume "\<not> wrong_factor i op sv" and ok: "\<not> factor_breaks M S i op sv"
  then have "lapsed i op sv (sign_in_step op sv)" using factor_tracker [of i op sv] by (simp add: factor_breaks_def)
  then show "(failed_factors_of i (sign_in_step op sv) = failed_factors_of i sv \<and> factors_locked_of i (sign_in_step op sv) = factors_locked_of i sv)
      \<or> (factors_locked_of i sv \<noteq> None \<and> \<not> locked_now (op_moment op) (factors_locked_of i sv)
         \<and> factors_locked_of i (sign_in_step op sv) = None \<and> failed_factors_of i (sign_in_step op sv) = 0)"
    by (auto simp: lapsed_def failed_factors_of_def factors_locked_of_def)
qed

section \<open>Bound on attempts\<close>

lemma consume_code_keeps:
  "map u_id (si_accounts (snd (consume_code lib seen code st))) = map u_id (si_accounts st)"
  "si_config (snd (consume_code lib seen code st)) = si_config st"
  by (auto simp: consume_code_def Let_def map_update_rows split: option.splits)

lemma put_account_config [simp]: "si_config (put_account a st) = si_config st"
  by (simp add: put_account_def)

lemma change_named_keeps [simp]:
  "map u_id (si_accounts (change_named env name f st)) = map u_id (si_accounts st)"
  "si_config (change_named env name f st) = si_config st"
  by (auto simp: change_named_def split: option.splits)

lemma ldap_failed_keeps:
  "map u_id (si_accounts (ldap_failed env name st)) = map u_id (si_accounts st) \<and> si_config (ldap_failed env name st) = si_config st"
  by (auto simp: ldap_failed_def check_ldap_lockout_def record_ldap_failed_attempt_def split: option.split)

lemma try_key_config:
  "si_config (sv_site (sign_in_step (Try_Key lib env a host ses) sv)) = si_config (sv_site sv)"
proof (cases "pending_2fa_user (re_now env) (sv, ses)")
  case (Inl r)
  then show ?thesis using pending_2fa_site [OF Inl] by (auto simp: login_2fa_webauthn_verify_def split: prod.splits)
next
  case (Inr r)
  obtain acc key sv' where r: "r = (acc, key, sv')" by (cases r)
  then have s: "sv_site sv' = sv_site sv" using pending_2fa_site [OF Inr] by simp
  show ?thesis
  proof (cases "ls_challenge ses")
    case None
    then show ?thesis using Inr r s by (simp add: login_2fa_webauthn_verify_def Let_def with_site_def fail_2fa_def)
  next
    case (Some c)
    obtain ok st' where v: "verify_authentication lib env (u_id acc) a host ''2fa'' (Some c) (sv_site sv) = (ok, st')" by fastforce
    then have "si_config st' = si_config (sv_site sv)" using verify_authentication_config by (metis snd_conv)
    then show ?thesis using Inr r s Some v
      by (cases ok) (auto simp: login_2fa_webauthn_verify_def Let_def with_site_def fail_2fa_def complete_2fa_login_def)
  qed
qed

lemma passkey_keeps:
  "map u_id (si_accounts (sv_site (sign_in_step (Try_Passkey lib env name a host ses) sv))) = map u_id (si_accounts (sv_site sv))
   \<and> si_config (sv_site (sign_in_step (Try_Passkey lib env name a host ses) sv)) = si_config (sv_site sv)"
proof (cases "find_username (take 255 (py_strip name)) (sv_site sv)")
  case None
  then show ?thesis by (auto simp: webauthn_verify_def Let_def split: prod.splits bool.splits)
next
  case (Some b)
  obtain ok st' where v: "verify_authentication lib env (u_id b) a host ''authentication'' None (sv_site sv) = (ok, st')"
    by fastforce
  then have "si_accounts st' = si_accounts (sv_site sv)" "si_config st' = si_config (sv_site sv)"
    using verify_authentication_accounts verify_authentication_config by (metis snd_conv)+
  then show ?thesis using Some v
    by (auto simp: webauthn_verify_def Let_def with_site_def split: prod.splits bool.splits)
qed

lemma sign_in_step_keeps:
  "map u_id (si_accounts (sv_site (sign_in_step op sv))) = map u_id (si_accounts (sv_site sv))
   \<and> si_config (sv_site (sign_in_step op sv)) = si_config (sv_site sv)"
proof (cases op)
  case (Try_Password env name pw ses)
  then show ?thesis by (simp add: try_password_site del: sign_in_step.simps split: option.split)
next
  case (Try_Code lib env code ses)
  then show ?thesis using try_code_site [of lib env code ses sv] by (auto simp: consume_code_keeps simp del: sign_in_step.simps)
next
  case (Try_Key lib env a host ses)
  then show ?thesis using try_key_accounts [of lib env a host ses sv] try_key_config [of lib env a host ses sv] by simp
next
  case (Try_Passkey lib env name a host ses)
  then show ?thesis using passkey_keeps by simp
next
  case (Ldap_Failed env name)
  then show ?thesis by (simp add: ldap_failed_keeps with_site_def)
next
  case (Unlock env res j)
  then show ?thesis by (auto simp: unlock_user_def finish_def with_site_def split: option.splits)
next
  case (Reset sha env token pw)
  then show ?thesis by (auto simp: reset_password_def finish_def with_site_def Let_def split: option.splits)
qed

lemma all_allowed_breaks:
  assumes "unique_ids (sv_site sv)" "get_lockout_settings (si_config (sv_site sv)) = (M, S)" "list_all (\<lambda>op. re_commit (op_env op)) ops"
  shows "(all_allowed sign_in_step (\<lambda>op sv. \<not> resets_counter i op sv) sv ops \<longrightarrow> all_allowed sign_in_step (\<lambda>op sv. \<not> password_breaks M S i op sv) sv ops)
    \<and> (all_allowed sign_in_step (\<lambda>op sv. \<not> right_factor i op sv) sv ops \<longrightarrow> all_allowed sign_in_step (\<lambda>op sv. \<not> factor_breaks M S i op sv) sv ops)"
  using assms
proof (induction ops arbitrary: sv)
  case (Cons op ops)
  have "unique_ids (sv_site (sign_in_step op sv))" "get_lockout_settings (si_config (sv_site (sign_in_step op sv))) = (M, S)"
    using Cons.prems sign_in_step_keeps [of op sv] by (simp_all add: unique_ids_def)
  then show ?case using Cons.IH [of "sign_in_step op sv"] Cons.prems by (simp add: password_breaks_def factor_breaks_def)
qed simp

text \<open>
  C14: guessing at the doors is bounded. The doors are the routes that open a session: the password, LDAP, and the
  second factor of a login that waits for it. As long as the database accepts what they write, between two events that reset an account's counter - a right password, one of
  its passkeys, an administrator's unlock, a reset password - whatever requests of whatever clients arrive
  in whatever order, in any period as long as the configured lockout at most as many wrong passwords
  (counting LDAP attempts) are compared with the account's secret as the setting \<open>max_login_attempts\<close>
  allows, or one if it allows none; the same holds of wrong one-time codes, recovery codes and security
  keys between two right ones. Routes that ask a signed-in user for the password or a code again are not doors, and
  count nothing.
\<close>

theorem sign_in_guesses_bounded:
  assumes "unique_ids (sv_site sv)" "get_lockout_settings (si_config (sv_site sv)) = (M, S)" "sorted (map op_moment ops)"
    "0 \<le> failed_logins_of i sv" "0 \<le> failed_factors_of i sv" "list_all (\<lambda>op. re_commit (op_env op)) ops"
  shows "(all_allowed sign_in_step (\<lambda>op sv. \<not> resets_counter i op sv) sv ops \<longrightarrow>
      int (tries sign_in_step (wrong_password i) (\<lambda>op. start \<le> op_moment op \<and> op_moment op < start + seconds S) sv ops) \<le> max 1 M)
    \<and> (all_allowed sign_in_step (\<lambda>op sv. \<not> right_factor i op sv) sv ops \<longrightarrow>
      int (tries sign_in_step (wrong_factor i) (\<lambda>op. start \<le> op_moment op \<and> op_moment op < start + seconds S) sv ops) \<le> max 1 M)"
  using all_allowed_breaks [OF assms(1,2,6)] password_lock.guesses_bounded [OF assms(3) _ assms(4)]
    factor_lock.guesses_bounded [OF assms(3) _ assms(5)] by blast

text \<open>Ten wrong passwords in ten seconds: five are compared.\<close>

definition guessing :: "sign_in_op list" where
  "guessing = map (\<lambda>t. Try_Password (sample_route_env\<lparr>re_now := hours 1 + seconds t\<rparr>) ''admin1'' ''guess'' empty_login) [0..9]"

definition sample_server :: server where
  "sample_server = \<lparr>sv_site = sample_site, sv_2fa = Map.empty, sv_passkey = Map.empty\<rparr>"

theorem sign_in_guesses_bounded_witness:
  "int (tries sign_in_step (wrong_password 1) (\<lambda>op. hours 1 \<le> op_moment op \<and> op_moment op < hours 1 + seconds 900) sample_server guessing) \<le> 5
   \<and> tries sign_in_step (wrong_password 1) (\<lambda>op. hours 1 \<le> op_moment op \<and> op_moment op < hours 1 + seconds 900) sample_server guessing = 5"
proof -
  have "unique_ids (sv_site sample_server)" by code_simp
  moreover have "get_lockout_settings (si_config (sv_site sample_server)) = (5, 900)" by code_simp
  moreover have "sorted (map op_moment guessing)" by code_simp
  moreover have "0 \<le> failed_logins_of 1 sample_server" "0 \<le> failed_factors_of 1 sample_server" by code_simp+
  moreover have "list_all (\<lambda>op. re_commit (op_env op)) guessing" by code_simp
  moreover have "all_allowed sign_in_step (\<lambda>op sv. \<not> resets_counter 1 op sv) sample_server guessing" by code_simp
  moreover have "tries sign_in_step (wrong_password 1) (\<lambda>op. hours 1 \<le> op_moment op \<and> op_moment op < hours 1 + seconds 900) sample_server guessing = 5"
    by code_simp
  ultimately show ?thesis using sign_in_guesses_bounded [of sample_server 5 900 guessing 1 "hours 1"] by simp
qed

section \<open>What a session rests on\<close>

text \<open>What the requests of a run have proved.\<close>

datatype proven =
  Password_Proven int | No_Factor_Needed int | Factor_Proven int | Passkey_Proven int | Enrolled int | Vouched_Elsewhere int

definition asks_no_factor :: "account \<Rightarrow> site \<Rightarrow> bool" where
  "asks_no_factor a st \<longleftrightarrow>
     second_factor_methods (db_of st) (user.truncate a) = [] \<and> \<not> must_enroll_2fa (db_of st) (user.truncate a) ''password'' None"

definition password_proves :: "route_env \<Rightarrow> string \<Rightarrow> string \<Rightarrow> server \<Rightarrow> account option" where
  "password_proves env name pw sv =
     (case find_username name (sv_site sv) of
        None \<Rightarrow> None
      | Some a \<Rightarrow> if u_active a \<and> \<not> locked_now (re_now env) (acc_locked_until a)
                      \<and> verify_password (re_lib env) (acc_password_hash a) (take 4096 pw) then Some a else None)"

fun proven_by :: "sign_in_op \<Rightarrow> server \<Rightarrow> proven set" where
  "proven_by (Try_Password env name pw ses) sv =
     (case password_proves env (take 255 (py_strip name)) pw sv of
        None \<Rightarrow> {}
      | Some a \<Rightarrow> {Password_Proven (u_id a)}
          \<union> (if asks_no_factor a (sv_site (sign_in_step (Try_Password env name pw ses) sv)) then {No_Factor_Needed (u_id a)} else {}))"
| "proven_by (Try_Passkey lib env name a host ses) sv =
     (case find_username (take 255 (py_strip name)) (sv_site sv) of
        None \<Rightarrow> {}
      | Some acc \<Rightarrow> if u_active acc \<and> fst (verify_authentication lib env (u_id acc) a host ''authentication'' None (sv_site sv))
                     then {Passkey_Proven (u_id acc)} else {})"
| "proven_by op sv = {Factor_Proven i |i. right_factor i op sv}"

fun session_of :: "sign_in_op \<Rightarrow> login_session option" where
  "session_of (Try_Password env name pw ses) = Some ses"
| "session_of (Try_Code lib env code ses) = Some ses"
| "session_of (Try_Key lib env a host ses) = Some ses"
| "session_of (Try_Passkey lib env name a host ses) = Some ses"
| "session_of _ = None"

fun session_after :: "sign_in_op \<Rightarrow> server \<Rightarrow> login_session" where
  "session_after (Try_Password env name pw ses) sv = snd (snd (login_password env name pw (sv, ses)))"
| "session_after (Try_Code lib env code ses) sv = snd (snd (login_2fa lib env code (sv, ses)))"
| "session_after (Try_Key lib env a host ses) sv = snd (snd (login_2fa_webauthn_verify lib env a host (sv, ses)))"
| "session_after (Try_Passkey lib env name a host ses) sv = snd (snd (webauthn_verify lib env name a host (sv, ses)))"
| "session_after _ sv = empty_login"

text \<open>
  Runs of any number of clients: every request carries one of the sessions handed out so far, sessions are
  never forgotten, a request may renew the stamps of its session, and between two requests the database may
  change in any way. A session may enrol a second factor for its user, which lifts the gate of a session that must.
  The other doors, single sign-on, LDAP and client certificates, hand out the sessions of users they vouch for.
\<close>

inductive signing_in :: "server \<Rightarrow> login_session set \<Rightarrow> proven set \<Rightarrow> bool" where
  start: "signing_in sv {empty_login} {}"
| request: "signing_in sv S P \<Longrightarrow> session_of op = Some ses \<Longrightarrow> ses \<in> S \<Longrightarrow>
    signing_in (sign_in_step op sv) (insert (session_after op sv) S) (P \<union> proven_by op sv)"
| options: "signing_in sv S P \<Longrightarrow> ses \<in> S \<Longrightarrow> login_2fa_webauthn_options env challenge (sv, ses) = (answer, sv', ses') \<Longrightarrow>
    signing_in sv' (insert ses' S) P"
| touch: "signing_in sv S P \<Longrightarrow> ses \<in> S \<Longrightarrow> signing_in sv (insert (ses\<lparr>s_last_activity := stamp\<rparr>) S) P"
| confirm: "signing_in sv S P \<Longrightarrow> ses \<in> S \<Longrightarrow> s_user_id ses = Some (u_id (r_user res)) \<Longrightarrow>
    confirm_2fa lib env salts codes code res (sv_site sv, ses) = (answer, st', ses') \<Longrightarrow>
    signing_in (with_site sv st') (insert ses' S) (P \<union> (if answer = Route_Done then {Enrolled (u_id (r_user res))} else {}))"
| register: "signing_in sv S P \<Longrightarrow> ses \<in> S \<Longrightarrow> s_user_id ses = Some (u_id (r_user res)) \<Longrightarrow>
    register_key lib env commit2 att host res (sv_site sv, ses) = (answer, st', ses') \<Longrightarrow>
    signing_in (with_site sv st') (insert ses' S)
      (P \<union> (if fst (verify_registration lib env (u_id (r_user res)) att host (sv_site sv)) then {Enrolled (u_id (r_user res))} else {}))"
| other_door: "signing_in sv S P \<Longrightarrow> s_user_id ses = Some i \<Longrightarrow> ls_pending ses = None \<Longrightarrow>
    signing_in sv (insert ses S) (insert (Vouched_Elsewhere i) P)"
| elsewhere: "signing_in sv S P \<Longrightarrow> signing_in sv' S P"

definition backed :: "proven set \<Rightarrow> login_session \<Rightarrow> bool" where
  "backed P ses \<longleftrightarrow> (\<forall>i. ls_pending ses = Some i \<longrightarrow> Password_Proven i \<in> P)
     \<and> (\<forall>i. s_user_id ses = Some i \<longrightarrow> Passkey_Proven i \<in> P
          \<or> Vouched_Elsewhere i \<in> P
          \<or> (Password_Proven i \<in> P \<and> (Factor_Proven i \<in> P \<or> Enrolled i \<in> P \<or> No_Factor_Needed i \<in> P \<or> s_must_enroll_2fa ses)))"

lemma backed_empty [simp]: "backed P empty_login"
  by (simp add: backed_def empty_login_def)

lemma backed_mono: "backed P ses \<Longrightarrow> P \<subseteq> Q \<Longrightarrow> backed Q ses"
  by (fastforce simp: backed_def)

lemma truncate_account_simps [simp]:
  "user.truncate (login_stats t a) = user.truncate a" "user.truncate (clear_lockout a) = user.truncate a"
  "user.truncate (open_row a) = user.truncate a"
  by (simp_all add: login_stats_def clear_lockout_def open_row_def user.defs)

lemma truncate_check_password: "user.truncate (snd (check_password lib salt p a)) = user.truncate a"
  by (auto simp: check_password_def user.defs set_password_def)

lemma password_session:
  assumes "backed P ses"
  shows "backed (P \<union> proven_by (Try_Password env name pw ses) sv) (session_after (Try_Password env name pw ses) sv)"
proof (cases "\<exists>a. password_compared (u_id a) (Try_Password env name pw ses) sv \<and> re_commit env \<and> right_password env (take 255 (py_strip name)) pw sv
    \<and> find_username (take 255 (py_strip name)) (sv_site sv) = Some a")
  case False
  then have "session_after (Try_Password env name pw ses) sv = ses"
    by (auto simp: login_password_def Let_def compared_def right_password_def active_name_def check_password_def open_row_def [symmetric]
        split: option.splits prod.splits)
  then show ?thesis using backed_mono [OF assms] by auto
next
  case True
  then obtain a where a: "password_compared (u_id a) (Try_Password env name pw ses) sv" "re_commit env"
    "right_password env (take 255 (py_strip name)) pw sv" "find_username (take 255 (py_strip name)) (sv_site sv) = Some a" by blast
  let ?a2 = "login_stats (re_now env) (snd (check_password (re_lib env) (re_salt env) (take 4096 pw) (open_row a)))"
  have site: "sv_site (sign_in_step (Try_Password env name pw ses) sv) = put_account ?a2 (sv_site sv)"
    unfolding try_password_site using a by simp
  have proves: "password_proves env (take 255 (py_strip name)) pw sv = Some a"
    using a by (auto simp: password_proves_def compared_def active_name_def right_password_def)
  have id: "u_id ?a2 = u_id a" by (simp add: check_password_id)
  have ses: "session_after (Try_Password env name pw ses) sv = snd (after_password (re_now env) (put_account ?a2 (sv_site sv)) ?a2)"
    using a by (auto simp: login_password_def Let_def compared_def right_password_def active_name_def check_password_def
        open_row_def [symmetric] split: prod.splits)
  have "asks_no_factor a (put_account ?a2 (sv_site sv)) \<longleftrightarrow>
      second_factor_methods (db_of (put_account ?a2 (sv_site sv))) (user.truncate ?a2) = []
      \<and> \<not> must_enroll_2fa (db_of (put_account ?a2 (sv_site sv))) (user.truncate ?a2) ''password'' None"
    by (simp add: asks_no_factor_def truncate_check_password)
  then show ?thesis
    unfolding ses after_password_def Let_def using proves id
    by (auto simp: site backed_def pending_session_def full_session_def empty_login_def simp del: sign_in_step.simps)
qed

lemma waits_for_backed: "waits_for now i ses sv = Some a \<Longrightarrow> backed P ses \<Longrightarrow> Password_Proven i \<in> P"
  by (auto simp: waits_for_def backed_def split: if_splits)

lemma backed_full:
  "Password_Proven i \<in> P \<Longrightarrow> Factor_Proven i \<in> P \<Longrightarrow> backed P (full_session now i m)"
  by (simp add: backed_def full_session_def empty_login_def)

lemma backed_passkey: "Passkey_Proven i \<in> P \<Longrightarrow> backed P (full_session now i m)"
  by (simp add: backed_def full_session_def empty_login_def)

lemma code_session:
  assumes "backed P ses"
  shows "backed (P \<union> proven_by (Try_Code lib env code ses) sv) (session_after (Try_Code lib env code ses) sv)"
proof (rule pending_2fa_cases [of "re_now env" sv ses])
  fix ans tr ses'
  assume "pending_2fa_user (re_now env) (sv, ses) = Inl (ans, sv\<lparr>sv_2fa := tr\<rparr>, ses')" "ses' = ses \<or> ses' = empty_login"
  then show ?thesis using backed_mono [OF assms] by (auto simp: login_2fa_def)
next
  fix j a tr
  assume p: "pending_2fa_user (re_now env) (sv, ses) = Inr (a, show_int j, sv\<lparr>sv_2fa := tr\<rparr>)"
    and w: "waits_for (re_now env) j ses sv = Some a" and id: "u_id a = j"
  obtain hit st' where c: "consume_code (fl_passwords lib) a (login_code code) (sv_site sv) = (hit, st')" by fastforce
  have "session_after (Try_Code lib env code ses) sv = ses
      \<or> right_factor j (Try_Code lib env code ses) sv \<and> (\<exists>m. session_after (Try_Code lib env code ses) sv = full_session (re_now env) j m)"
    using p w id c by (cases hit) (auto simp: login_2fa_def Let_def code_right_def complete_2fa_login_def)
  then show ?thesis
    using backed_mono [OF assms] waits_for_backed [OF w assms] by (auto intro!: backed_full simp del: session_after.simps)
qed

lemma key_session:
  assumes "backed P ses"
  shows "backed (P \<union> proven_by (Try_Key lib env a host ses) sv) (session_after (Try_Key lib env a host ses) sv)"
proof (rule pending_2fa_cases [of "re_now env" sv ses])
  fix ans tr ses'
  assume "pending_2fa_user (re_now env) (sv, ses) = Inl (ans, sv\<lparr>sv_2fa := tr\<rparr>, ses')" "ses' = ses \<or> ses' = empty_login"
  then show ?thesis using backed_mono [OF assms] by (auto simp: login_2fa_webauthn_verify_def)
next
  fix j acc tr
  assume p: "pending_2fa_user (re_now env) (sv, ses) = Inr (acc, show_int j, sv\<lparr>sv_2fa := tr\<rparr>)"
    and w: "waits_for (re_now env) j ses sv = Some acc" and id: "u_id acc = j"
  have "session_after (Try_Key lib env a host ses) sv = ses\<lparr>ls_challenge := None\<rparr>
      \<or> right_factor j (Try_Key lib env a host ses) sv \<and> (\<exists>m. session_after (Try_Key lib env a host ses) sv = full_session (re_now env) j m)"
    using p w id
    by (auto simp: login_2fa_webauthn_verify_def Let_def key_right_def complete_2fa_login_def
        split: option.split prod.split bool.split)
  moreover have "backed P (ses\<lparr>ls_challenge := None\<rparr>)" using assms by (simp add: backed_def)
  ultimately show ?thesis
    using backed_mono [of P _ "P \<union> proven_by (Try_Key lib env a host ses) sv"] waits_for_backed [OF w assms]
    by (auto intro!: backed_full simp del: session_after.simps)
qed

lemma passkey_session:
  assumes "backed P ses"
  shows "backed (P \<union> proven_by (Try_Passkey lib env name a host ses) sv) (session_after (Try_Passkey lib env name a host ses) sv)"
proof -
  have "session_after (Try_Passkey lib env name a host ses) sv = ses
      \<or> (\<exists>j. Passkey_Proven j \<in> proven_by (Try_Passkey lib env name a host ses) sv
          \<and> session_after (Try_Passkey lib env name a host ses) sv = full_session (re_now env) j ''webauthn'')"
    by (auto simp: webauthn_verify_def Let_def split: option.split prod.split bool.split)
  then show ?thesis
    using backed_mono [OF assms] by (auto intro: backed_passkey simp del: session_after.simps proven_by.simps)
qed

lemma request_session:
  assumes "backed P ses" "session_of op = Some ses"
  shows "backed (P \<union> proven_by op sv) (session_after op sv)"
  using assms password_session code_session key_session passkey_session by (cases op) (auto simp del: session_after.simps proven_by.simps)

lemma options_session:
  assumes "backed P ses" "login_2fa_webauthn_options env challenge (sv, ses) = (answer, sv', ses')"
  shows "backed P ses'"
proof (rule pending_2fa_cases [of "re_now env" sv ses])
  fix ans tr ses2
  assume "pending_2fa_user (re_now env) (sv, ses) = Inl (ans, sv\<lparr>sv_2fa := tr\<rparr>, ses2)" "ses2 = ses \<or> ses2 = empty_login"
  then show ?thesis using assms by (auto simp: login_2fa_webauthn_options_def)
next
  fix j acc tr
  assume "pending_2fa_user (re_now env) (sv, ses) = Inr (acc, show_int j, sv\<lparr>sv_2fa := tr\<rparr>)"
  then show ?thesis
    using assms by (auto simp: login_2fa_webauthn_options_def backed_def split: prod.splits option.splits)
qed

lemma confirm_session:
  assumes "backed P ses" "s_user_id ses = Some (u_id (r_user res))"
    "confirm_2fa lib env salts codes code res (st, ses) = (answer, st', ses')"
  shows "backed (P \<union> (if answer = Route_Done then {Enrolled (u_id (r_user res))} else {})) ses'"
proof -
  have "ses' = ses \<or> (answer = Route_Done \<and> ses' = lift_gate ses)"
    using assms(3) by (auto simp: confirm_2fa_def split: if_splits option.splits prod.splits)
  then show ?thesis using assms(1,2) by (auto simp: backed_def lift_gate_def)
qed

lemma register_session:
  assumes "backed P ses" "s_user_id ses = Some (u_id (r_user res))"
    "register_key lib env commit2 att host res (st, ses) = (answer, st', ses')"
  shows "backed (P \<union> (if fst (verify_registration lib env (u_id (r_user res)) att host st) then {Enrolled (u_id (r_user res))} else {})) ses'"
proof -
  have "ses' = ses \<or> (fst (verify_registration lib env (u_id (r_user res)) att host st) \<and> ses' = lift_gate ses)"
    using assms(3) by (auto simp: register_key_def split: if_splits prod.splits bool.splits)
  then show ?thesis using assms(1,2) by (auto simp: backed_def lift_gate_def)
qed

lemma signing_in_backed: "signing_in sv S P \<Longrightarrow> ses \<in> S \<Longrightarrow> backed P ses"
proof (induction arbitrary: ses rule: signing_in.induct)
  case (request sv S P op ses')
  then have "backed (P \<union> proven_by op sv) (session_after op sv)" using request_session by blast
  then show ?case using request backed_mono [of P ses] by blast
next
  case (options sv S P ses1 env challenge answer sv' ses')
  then show ?case using options_session by blast
next
  case (touch sv S P ses1 stamp)
  then have "backed P ses1" by blast
  then have "backed P (ses1\<lparr>s_last_activity := stamp\<rparr>)" by (simp add: backed_def)
  then show ?case using touch by blast
next
  case (confirm sv S P ses1 res lib env salts codes code answer st' ses')
  then show ?case using confirm_session [of P ses1 res] backed_mono [of P ses] by blast
next
  case (register sv S P ses1 res lib env commit2 att host answer st' ses')
  then show ?case using register_session [of P ses1 res] backed_mono [of P ses] by blast
next
  case (other_door sv S P ses1 i)
  then have "backed (insert (Vouched_Elsewhere i) P) ses1" by (simp add: backed_def)
  then show ?case using other_door backed_mono [of P ses] by blast
qed auto


text \<open>An account with a one-time password: the password alone does not sign in, the code after it does.\<close>

definition two_factor_server :: server where
  "two_factor_server = sample_server\<lparr>sv_site := sample_site\<lparr>si_accounts :=
     [(sample_admin 1)\<lparr>u_totp_confirmed := True, acc_totp_secret := Some ''s''\<rparr>]\<rparr>\<rparr>"

definition first_login :: sign_in_op where
  "first_login = Try_Password sample_route_env ''admin1'' ''secret'' empty_login"

definition second_login :: sign_in_op where
  "second_login = Try_Code sample_factor_lib sample_route_env ''123456'' (session_after first_login two_factor_server)"


end
