(* ===== verification/Ssrf.thy ===== *)
theory Ssrf
  imports Ip_Address "HOL-Library.Word"
begin

text \<open>
  Outbound requests (\<^verbatim>\<open>utils/ssrf_protection.py\<close>): which addresses are refused, in every way of writing
  an IPv4 address as an IPv6 one, and requests that connect only to what was checked, redirects
  included.

  Python's \<open>ipaddress\<close> reads and prints addresses (\<open>wl_read\<close>, \<open>wl_text\<close>), and the tables of its registries,
  which change between releases, are \<open>wl_tables\<close>; what the code asks of an address is defined here.
  \<open>urllib.parse\<close> splits and joins URLs (\<open>None\<close> where it raises \<open>ValueError\<close>), \<open>wl_connects\<close> is the host that
  the HTTP client takes from a URL. The outside is \<open>world\<close>: the answer of the resolver to the n-th
  lookup, the answer to the n-th request, and which addresses accept a connection; nothing ties one
  lookup of a name to the next.
\<close>

unbundle bit_operations_syntax

section \<open>Classes of addresses\<close>

record ip_tables =
  tb_private4 :: "ip_network list"
  tb_private4_except :: "ip_network list"
  tb_private6 :: "ip_network list"
  tb_private6_except :: "ip_network list"
  tb_reserved6 :: "ip_network list"

text \<open>A class of an IPv4-mapped address is that of the IPv4 address.\<close>

definition by_version :: "(ip_address \<Rightarrow> bool) \<Rightarrow> (ip_address \<Rightarrow> bool) \<Rightarrow> ip_address \<Rightarrow> bool" where
  "by_version four six a =
     (case ipv4_mapped a of Some b \<Rightarrow> four b | None \<Rightarrow> if ip_ver a = V4 then four a else six a)"

definition in_nets :: "ip_network list \<Rightarrow> ip_address \<Rightarrow> bool" where
  "in_nets nets a \<longleftrightarrow> list_ex (ip_in a) nets"

definition is_loopback :: "ip_address \<Rightarrow> bool" where
  "is_loopback = by_version (\<lambda>a. ip_in a (Net V4 (127 * 2 ^ 24) 8)) (\<lambda>a. ip_num a = 1)"

definition is_unspecified :: "ip_address \<Rightarrow> bool" where
  "is_unspecified = by_version (\<lambda>a. ip_num a = 0) (\<lambda>a. ip_num a = 0)"

definition is_link_local :: "ip_address \<Rightarrow> bool" where
  "is_link_local = by_version (\<lambda>a. ip_in a (Net V4 0xA9FE0000 16)) (\<lambda>a. ip_in a (Net V6 (0xFE80 * 2 ^ 112) 10))"

definition is_reserved :: "ip_tables \<Rightarrow> ip_address \<Rightarrow> bool" where
  "is_reserved tb = by_version (\<lambda>a. ip_in a (Net V4 0xF0000000 4)) (in_nets (tb_reserved6 tb))"

definition is_private :: "ip_tables \<Rightarrow> ip_address \<Rightarrow> bool" where
  "is_private tb = by_version
     (\<lambda>a. in_nets (tb_private4 tb) a \<and> \<not> in_nets (tb_private4_except tb) a)
     (\<lambda>a. in_nets (tb_private6 tb) a \<and> \<not> in_nets (tb_private6_except tb) a)"

definition sixtofour :: "ip_address \<Rightarrow> ip_address option" where
  "sixtofour a =
     (if drop_bit 112 (ip_num a) = 0x2002 then Some (Ip V4 (drop_bit 80 (ip_num a) AND 0xFFFFFFFF) None) else None)"

definition teredo :: "ip_address \<Rightarrow> (ip_address \<times> ip_address) option" where
  "teredo a =
     (if drop_bit 96 (ip_num a) = 0x20010000
      then Some (Ip V4 (drop_bit 64 (ip_num a) AND 0xFFFFFFFF) None, Ip V4 (NOT (ip_num a) AND 0xFFFFFFFF) None)
      else None)"

section \<open>Addresses that are never a target\<close>

definition CLOUD_METADATA_IPS :: "ip_address list" where
  "CLOUD_METADATA_IPS =
     [Ip V4 0xA9FEA9FE None, Ip V4 0xA9FEAA02 None, Ip V4 0x646464C8 None, Ip V4 0xC00000C0 None,
      Ip V4 0xA9FE2A2A None, Ip V6 0xFD000EC2000000000000000000000254 None,
      Ip V6 0xFD000042000000000000000000000042 None]"

definition CLOUD_METADATA_HOSTS :: "string list" where
  "CLOUD_METADATA_HOSTS = [''metadata.google.internal'', ''metadata'', ''metadata.goog'']"

definition NAT64_WELL_KNOWN :: ip_network where "NAT64_WELL_KNOWN = Net V6 (0x64FF9B * 2 ^ 96) 96"
definition NAT64_LOCAL_USE :: ip_network where "NAT64_LOCAL_USE = Net V6 (0x64FF9B0001 * 2 ^ 80) 48"
definition LOCAL_USE_CANDIDATES :: "nat list" where "LOCAL_USE_CANDIDATES = [48, 56, 64, 96]"
definition IPV4_COMPATIBLE :: ip_network where "IPV4_COMPATIBLE = Net V6 0 96"
definition ISATAP_IDENTIFIERS :: "int list" where "ISATAP_IDENTIFIERS = [0x00005EFE, 0x02005EFE]"

fun RFC6052_LAYOUT :: "nat \<Rightarrow> ((nat \<times> nat) \<times> (nat \<times> nat) option) option" where
  "RFC6052_LAYOUT n =
     (if n = 32 then Some ((32, 63), None)
      else if n = 40 then Some ((40, 63), Some (72, 79))
      else if n = 48 then Some ((48, 63), Some (72, 87))
      else if n = 56 then Some ((56, 63), Some (72, 95))
      else if n = 64 then Some ((72, 103), None)
      else if n = 96 then Some ((96, 127), None)
      else None)"

text \<open>Bits are counted from the most significant.\<close>

definition bits :: "int \<Rightarrow> nat \<Rightarrow> nat \<Rightarrow> int" where
  "bits value first final = drop_bit (127 - final) value AND (push_bit (final - first + 1) 1 - 1)"

definition rfc6052_ipv4 :: "int \<Rightarrow> nat \<Rightarrow> ip_address option" where
  "rfc6052_ipv4 value prefix_length =
     (case RFC6052_LAYOUT prefix_length of
        None \<Rightarrow> None
      | Some ((h1, h2), None) \<Rightarrow> Some (Ip V4 (bits value h1 h2) None)
      | Some ((h1, h2), Some (l1, l2)) \<Rightarrow>
          Some (Ip V4 (push_bit (l2 - l1 + 1) (bits value h1 h2) OR bits value l1 l2) None))"

definition nat64_readings :: "ip_address \<Rightarrow> ip_address list \<times> ip_address list" where
  "nat64_readings a =
     (if ip_ver a \<noteq> V6 then ([], [])
      else if ip_in a NAT64_WELL_KNOWN
      then (case rfc6052_ipv4 (ip_num a) 96 of None \<Rightarrow> [] | Some b \<Rightarrow> [b], [])
      else if ip_in a NAT64_LOCAL_USE
      then ([], List.map_filter (rfc6052_ipv4 (ip_num a)) LOCAL_USE_CANDIDATES)
      else ([], []))"

definition ipv4_forms :: "ip_address \<Rightarrow> ip_address list" where
  "ipv4_forms a =
     (if ip_ver a \<noteq> V6 then []
      else fst (nat64_readings a)
           @ (case ipv4_mapped a of None \<Rightarrow> [] | Some b \<Rightarrow> [b])
           @ (case sixtofour a of None \<Rightarrow> [] | Some b \<Rightarrow> [b])
           @ (case teredo a of None \<Rightarrow> [] | Some (server, client) \<Rightarrow> [server, client])
           @ (if bits (ip_num a) 64 95 \<in> set ISATAP_IDENTIFIERS then [Ip V4 (ip_num a AND 0xFFFFFFFF) None] else [])
           @ (if ip_in a IPV4_COMPATIBLE then [Ip V4 (ip_num a AND 0xFFFFFFFF) None] else []))"

definition speculative_ipv4_forms :: "ip_address \<Rightarrow> ip_address list" where
  "speculative_ipv4_forms a = (if ip_ver a \<noteq> V6 then [] else snd (nat64_readings a))"

datatype ssrf_reason = Cloud_Metadata | Loopback_Unspecified

definition at_home :: "ip_address \<Rightarrow> bool" where
  "at_home a \<longleftrightarrow> is_loopback a \<or> is_unspecified a"

fun carried_reason :: "bool \<Rightarrow> ip_address list \<Rightarrow> ssrf_reason option" where
  "carried_reason allow [] = None"
| "carried_reason allow (c # cs) =
     (if c \<in> set CLOUD_METADATA_IPS then Some Cloud_Metadata
      else if at_home c \<and> \<not> allow then Some Loopback_Unspecified
      else carried_reason allow cs)"

definition speculative_reason :: "bool \<Rightarrow> ip_address list \<Rightarrow> ssrf_reason option" where
  "speculative_reason allow cs =
     (if cs = [] then None
      else if list_ex (\<lambda>c. c \<in> set CLOUD_METADATA_IPS) cs then Some Cloud_Metadata
      else if list_all is_unspecified cs \<and> \<not> allow then Some Loopback_Unspecified
      else None)"

definition forbidden_ip_reason :: "bool \<Rightarrow> ip_address \<Rightarrow> ssrf_reason option" where
  "forbidden_ip_reason allow a =
     (case carried_reason allow (ipv4_forms a) of
        Some r \<Rightarrow> Some r
      | None \<Rightarrow>
          (case speculative_reason allow (speculative_ipv4_forms a) of
             Some r \<Rightarrow> Some r
           | None \<Rightarrow>
               if a \<in> set CLOUD_METADATA_IPS then Some Cloud_Metadata
               else if at_home a \<and> \<not> allow then Some Loopback_Unspecified
               else None))"

section \<open>Checks of hosts and URLs\<close>

record url_parts =
  ur_scheme :: string
  ur_host :: "string option"
  ur_port :: "int option option"

record web_lib =
  wl_read :: "string \<Rightarrow> ip_address option"
  wl_text :: "ip_address \<Rightarrow> string"
  wl_tables :: ip_tables
  wl_parse :: "string \<Rightarrow> url_parts option"
  wl_join :: "string \<Rightarrow> string \<Rightarrow> string option"
  wl_connects :: "string \<Rightarrow> string"

record http_answer =
  ha_status :: int
  ha_location :: string
  ha_content :: string

record world =
  wd_lookup :: "nat \<Rightarrow> string \<Rightarrow> string list option"
  wd_answer :: "nat \<Rightarrow> http_answer option"
  wd_reaches :: "nat \<Rightarrow> string \<Rightarrow> bool"

text \<open>\<open>s.rstrip('.')\<close>\<close>

definition strip_dots :: "string \<Rightarrow> string" where
  "strip_dots s = rev (dropWhile (\<lambda>c. c = CHR ''.'') (rev s))"

text \<open>
  The loop over the addresses of a lookup: refused (\<open>None\<close>) when one of them is, else their texts,
  each once.
\<close>

fun vet_addresses :: "web_lib \<Rightarrow> (ip_address \<Rightarrow> bool) \<Rightarrow> string list \<Rightarrow> string list \<Rightarrow> string list option" where
  "vet_addresses lib bad chosen [] = Some chosen"
| "vet_addresses lib bad chosen (s # ss) =
     (case wl_read lib s of
        None \<Rightarrow> None
      | Some a \<Rightarrow> if bad a then None else vet_addresses lib bad (append_new chosen (wl_text lib a)) ss)"

definition vet_lookup :: "web_lib \<Rightarrow> (ip_address \<Rightarrow> bool) \<Rightarrow> string list option \<Rightarrow> string list option" where
  "vet_lookup lib bad found =
     (case found of
        None \<Rightarrow> None
      | Some ss \<Rightarrow> (case vet_addresses lib bad [] ss of None \<Rightarrow> None | Some cs \<Rightarrow> if cs = [] then None else Some cs))"

definition not_public :: "ip_tables \<Rightarrow> ip_address \<Rightarrow> bool" where
  "not_public tb a \<longleftrightarrow> is_private tb a \<or> is_loopback a \<or> is_reserved tb a \<or> is_link_local a"

definition validate_host_not_private :: "web_lib \<Rightarrow> (string \<Rightarrow> string list option) \<Rightarrow> string \<Rightarrow> string list option" where
  "validate_host_not_private lib dns host =
     (case wl_read lib (if strip_dots host = [] then host else strip_dots host) of
        Some a \<Rightarrow> if not_public (wl_tables lib) a then None else Some [wl_text lib a]
      | None \<Rightarrow> vet_lookup lib (not_public (wl_tables lib)) (dns host))"

definition url_host :: "web_lib \<Rightarrow> string \<Rightarrow> string option" where
  "url_host lib url =
     (case wl_parse lib url of
        None \<Rightarrow> None
      | Some p \<Rightarrow> (case ur_host p of None \<Rightarrow> None | Some h \<Rightarrow> if h = [] then None else Some h))"

definition validate_url_not_private :: "web_lib \<Rightarrow> (string \<Rightarrow> string list option) \<Rightarrow> string \<Rightarrow> bool" where
  "validate_url_not_private lib dns url =
     (case url_host lib url of None \<Rightarrow> False | Some h \<Rightarrow> validate_host_not_private lib dns h \<noteq> None)"

definition pin_key :: "string \<Rightarrow> string" where
  "pin_key host = strip_dots (py_lower host)"

definition validate_url_not_cloud_metadata :: "web_lib \<Rightarrow> bool \<Rightarrow> (string \<Rightarrow> string list option) \<Rightarrow> string \<Rightarrow> bool" where
  "validate_url_not_cloud_metadata lib allow dns url =
     (case url_host lib url of
        None \<Rightarrow> False
      | Some host \<Rightarrow>
          if pin_key host \<in> set CLOUD_METADATA_HOSTS then False
          else (case wl_read lib (pin_key host) of
                  Some a \<Rightarrow> forbidden_ip_reason allow a = None
                | None \<Rightarrow>
                    (case dns host of
                       None \<Rightarrow> False
                     | Some ss \<Rightarrow> vet_addresses lib (\<lambda>a. forbidden_ip_reason allow a \<noteq> None) [] ss \<noteq> None)))"

definition resolve_and_validate ::
    "web_lib \<Rightarrow> bool \<Rightarrow> (string \<Rightarrow> string list option) \<Rightarrow> string \<Rightarrow> (string \<times> string list) option" where
  "resolve_and_validate lib allow dns url =
     (case url_host lib url of
        None \<Rightarrow> None
      | Some host \<Rightarrow>
          (case wl_read lib host of
             Some a \<Rightarrow> if forbidden_ip_reason allow a \<noteq> None then None else Some (host, [wl_text lib a])
           | None \<Rightarrow> map_option (Pair host) (vet_lookup lib (\<lambda>a. forbidden_ip_reason allow a \<noteq> None) (dns host))))"

section \<open>Requests that connect to what was checked\<close>

text \<open>The arguments of \<open>requests\<close> that carry something of the caller. An absent one is \<open>None\<close>.\<close>

record request_args =
  ra_auth :: "string option"
  ra_cookies :: "string option"
  ra_params :: "string option"
  ra_data :: "string option"
  ra_json :: "string option"
  ra_files :: "string option"
  ra_headers :: "(string \<times> string) list"

text \<open>A request as it was sent, with the addresses its connection was attempted to.\<close>

record sent_request =
  sr_method :: string
  sr_url :: string
  sr_args :: request_args
  sr_tried :: "string list"

record outbound =
  ob_lookups :: nat
  ob_requests :: nat
  ob_pins :: "string \<Rightarrow> string list option"
  ob_sent :: "sent_request list"

text \<open>The addresses are tried in order until one accepts the connection.\<close>

fun try_in_order :: "(string \<Rightarrow> bool) \<Rightarrow> string list \<Rightarrow> string list" where
  "try_in_order reaches [] = []"
| "try_in_order reaches (a # as) = (if reaches a then [a] else a # try_in_order reaches as)"

text \<open>A pinned host is never given to the resolver again; another one is.\<close>

definition patched_create_connection :: "world \<Rightarrow> string \<Rightarrow> outbound \<Rightarrow> string list \<times> outbound" where
  "patched_create_connection wd host ob =
     (case ob_pins ob (pin_key host) of
        Some ips \<Rightarrow>
          if ips \<noteq> [] then (try_in_order (wd_reaches wd (ob_requests ob)) ips, ob)
          else (case wd_lookup wd (ob_lookups ob) host of None \<Rightarrow> [] | Some found \<Rightarrow> try_in_order (wd_reaches wd (ob_requests ob)) found,
                ob\<lparr>ob_lookups := ob_lookups ob + 1\<rparr>)
      | None \<Rightarrow>
          (case wd_lookup wd (ob_lookups ob) host of None \<Rightarrow> [] | Some found \<Rightarrow> try_in_order (wd_reaches wd (ob_requests ob)) found,
           ob\<lparr>ob_lookups := ob_lookups ob + 1\<rparr>))"

text \<open>One request of the library, with \<open>allow_redirects=False\<close>; no answer when no address accepts the connection.\<close>

definition send_request ::
    "web_lib \<Rightarrow> world \<Rightarrow> string \<Rightarrow> string \<Rightarrow> request_args \<Rightarrow> outbound \<Rightarrow> http_answer option \<times> outbound" where
  "send_request lib wd http_method url args ob =
     (case patched_create_connection wd (wl_connects lib url) ob of
        (tried, ob') \<Rightarrow>
          (if list_ex (wd_reaches wd (ob_requests ob')) tried then wd_answer wd (ob_requests ob') else None,
           ob'\<lparr>ob_requests := ob_requests ob' + 1,
               ob_sent := ob_sent ob' @ [\<lparr>sr_method = http_method, sr_url = url, sr_args = args, sr_tried = tried\<rparr>]\<rparr>))"

definition pinned_send ::
    "web_lib \<Rightarrow> world \<Rightarrow> string \<times> string list \<Rightarrow> string \<Rightarrow> string \<Rightarrow> request_args \<Rightarrow> outbound \<Rightarrow> http_answer option \<times> outbound" where
  "pinned_send lib wd pin http_method url args ob =
     (case send_request lib wd http_method url args (ob\<lparr>ob_pins := (ob_pins ob)(pin_key (fst pin) \<mapsto> snd pin)\<rparr>) of
        (answer, ob') \<Rightarrow> (answer, ob'\<lparr>ob_pins := (ob_pins ob')(pin_key (fst pin) := ob_pins ob (pin_key (fst pin)))\<rparr>))"

definition MAX_REDIRECTS :: nat where "MAX_REDIRECTS = 5"
definition REDIRECT_STATUSES :: "int list" where "REDIRECT_STATUSES = [301, 302, 303, 307, 308]"
definition BODY_HEADERS :: "string list" where "BODY_HEADERS = [''content-type'', ''content-length'', ''transfer-encoding'']"
definition PORTABLE_HEADERS :: "string list" where
  "PORTABLE_HEADERS = [''accept'', ''accept-encoding'', ''accept-language'', ''user-agent'', ''cache-control'', ''pragma'']"

definition origin :: "web_lib \<Rightarrow> string \<Rightarrow> (string \<times> string option \<times> int option) option" where
  "origin lib url =
     (case wl_parse lib url of
        None \<Rightarrow> None
      | Some p \<Rightarrow> (case ur_port p of None \<Rightarrow> None | Some port \<Rightarrow> Some (ur_scheme p, ur_host p, port)))"

text \<open>\<open>None\<close> is the \<open>ValueError\<close> of a URL or port that cannot be read.\<close>

definition same_origin :: "web_lib \<Rightarrow> string \<Rightarrow> string \<Rightarrow> bool option" where
  "same_origin lib one two =
     (case (origin lib one, origin lib two) of (Some a, Some b) \<Rightarrow> Some (a = b) | _ \<Rightarrow> None)"

definition drop_body :: "request_args \<Rightarrow> request_args" where
  "drop_body args = args\<lparr>ra_data := None, ra_json := None, ra_files := None\<rparr>"

definition strip_credentials :: "request_args \<Rightarrow> request_args" where
  "strip_credentials args =
     (drop_body args)\<lparr>ra_auth := None, ra_cookies := None, ra_params := None,
        ra_headers := filter (\<lambda>(name, v). py_lower name \<in> set PORTABLE_HEADERS) (ra_headers args)\<rparr>"

definition without_body :: "request_args \<Rightarrow> request_args" where
  "without_body args =
     (drop_body args)\<lparr>ra_headers := filter (\<lambda>(name, v). py_lower name \<notin> set BODY_HEADERS) (ra_headers args)\<rparr>"

datatype request_outcome = Answered http_answer | Host_Refused | Not_Sent | Bad_Redirect | Too_Many_Redirects

text \<open>
  The next request after a redirect. The number of lookups also advances for a literal address, which
  needs none.
\<close>

definition next_hop ::
    "web_lib \<Rightarrow> int \<Rightarrow> string \<Rightarrow> string \<Rightarrow> string \<times> request_args \<Rightarrow> (string \<times> string \<times> request_args) option" where
  "next_hop lib status url location = (\<lambda>(http_method, args).
     (case wl_join lib url location of
        None \<Rightarrow> None
      | Some url' \<Rightarrow>
          (case same_origin lib url url' of
             None \<Rightarrow> None
           | Some same \<Rightarrow>
               let args = (if same then args else strip_credentials args)
               in if \<not> same \<or> status = 303 \<or> (status \<in> {301, 302} \<and> http_method = ''POST'')
                  then Some (url', ''GET'', without_body args) else Some (url', http_method, args))))"

fun request_hops ::
    "nat \<Rightarrow> web_lib \<Rightarrow> world \<Rightarrow> bool \<Rightarrow> bool \<Rightarrow> string \<Rightarrow> string \<Rightarrow> request_args \<Rightarrow> outbound \<Rightarrow> request_outcome \<times> outbound" where
  "request_hops 0 lib wd allow follow url http_method args ob = (Too_Many_Redirects, ob)"
| "request_hops (Suc n) lib wd allow follow url http_method args ob =
     (let dns = wd_lookup wd (ob_lookups ob); ob = ob\<lparr>ob_lookups := ob_lookups ob + 1\<rparr>
      in (case resolve_and_validate lib allow dns url of
            None \<Rightarrow> (Host_Refused, ob)
          | Some pin \<Rightarrow>
              (case pinned_send lib wd pin http_method url args ob of
                 (None, ob') \<Rightarrow> (Not_Sent, ob')
               | (Some answer, ob') \<Rightarrow>
                   if \<not> follow \<or> ha_status answer \<notin> set REDIRECT_STATUSES \<or> ha_location answer = []
                   then (Answered answer, ob')
                   else (case next_hop lib (ha_status answer) url (ha_location answer) (http_method, args) of
                           None \<Rightarrow> (Bad_Redirect, ob')
                         | Some (url', method', args') \<Rightarrow> request_hops n lib wd allow follow url' method' args' ob'))))"

definition safe_request ::
    "web_lib \<Rightarrow> world \<Rightarrow> bool \<Rightarrow> bool \<Rightarrow> string \<Rightarrow> string \<Rightarrow> request_args \<Rightarrow> outbound \<Rightarrow> request_outcome \<times> outbound" where
  "safe_request lib wd allow follow http_method url args ob =
     request_hops (MAX_REDIRECTS + 1) lib wd allow follow url (py_upper http_method) args ob"

definition safe_request_post :: "web_lib \<Rightarrow> world \<Rightarrow> bool \<Rightarrow> bool \<Rightarrow> string \<Rightarrow> request_args \<Rightarrow> outbound \<Rightarrow> request_outcome \<times> outbound" where
  "safe_request_post lib wd allow follow url args ob = safe_request lib wd allow follow ''POST'' url args ob"

definition safe_request_get :: "web_lib \<Rightarrow> world \<Rightarrow> bool \<Rightarrow> bool \<Rightarrow> string \<Rightarrow> request_args \<Rightarrow> outbound \<Rightarrow> request_outcome \<times> outbound" where
  "safe_request_get lib wd allow follow url args ob = safe_request lib wd allow follow ''GET'' url args ob"

definition safe_request_head :: "web_lib \<Rightarrow> world \<Rightarrow> bool \<Rightarrow> bool \<Rightarrow> string \<Rightarrow> request_args \<Rightarrow> outbound \<Rightarrow> request_outcome \<times> outbound" where
  "safe_request_head lib wd allow follow url args ob = safe_request lib wd allow follow ''HEAD'' url args ob"

end
