(* ===== verification/Ssrf_Safety.thy ===== *)
theory Ssrf_Safety
  imports Ssrf
begin

text \<open>
  What the guard on outbound requests guarantees: an address is refused as a cloud metadata endpoint
  exactly when it is one in one of the spellings of the RFCs, read octet by octet; every connection of a
  request goes to an address that was checked, whatever the resolver answers the next time; and nothing
  of the caller crosses to another origin.
\<close>

section \<open>Octets\<close>

definition octets_num :: "8 word list \<Rightarrow> int" where
  "octets_num os = foldl (\<lambda>n b. n * 256 + uint b) 0 os"

lemma octets_num_Nil [simp]: "octets_num [] = 0"
  by (simp add: octets_num_def)

lemma octets_num_append: "octets_num (xs @ ys) = octets_num xs * 256 ^ length ys + octets_num ys"
proof (induction ys rule: rev_induct)
  case (snoc y ys)
  then show ?case by (simp add: octets_num_def algebra_simps)
qed simp

lemma octets_num_Cons: "octets_num (x # xs) = uint x * 256 ^ length xs + octets_num xs"
  using octets_num_append [of "[x]" xs] by (simp add: octets_num_def)

lemma uint_octet: "0 \<le> uint (b :: 8 word)" "uint b < 256"
  using uint_bounded [of b] by simp_all

lemma octets_num_bounds: "0 \<le> octets_num os \<and> octets_num os < 256 ^ length os"
proof (induction os)
  case (Cons b os)
  have "uint b + 1 \<le> 256" using uint_octet(2) [of b] by simp
  then have "(uint b + 1) * 256 ^ length os \<le> 256 * 256 ^ length os" by (intro mult_right_mono) simp_all
  then have "uint b * 256 ^ length os + 256 ^ length os \<le> 256 * 256 ^ length os" by (simp only: distrib_right mult_1)
  moreover have "0 \<le> uint b * 256 ^ length os" by simp
  ultimately show ?case using Cons unfolding octets_num_Cons length_Cons power_Suc by linarith
qed simp

lemma octets_num_eq_iff: "length xs = length ys \<Longrightarrow> octets_num xs = octets_num ys \<longleftrightarrow> xs = ys"
proof (induction xs arbitrary: ys)
  case (Cons x xs)
  then obtain y ys' where ys: "ys = y # ys'" "length xs = length ys'" by (cases ys) auto
  have "uint x = uint y \<and> octets_num xs = octets_num ys'" if "octets_num (x # xs) = octets_num ys"
  proof -
    have e: "uint x * 256 ^ length xs + octets_num xs = uint y * 256 ^ length xs + octets_num ys'"
      using that ys by (simp add: octets_num_Cons)
    have "(uint x * 256 ^ length xs + octets_num xs) div 256 ^ length xs = uint x"
      "(uint y * 256 ^ length xs + octets_num ys') div 256 ^ length xs = uint y"
      using octets_num_bounds [of xs] octets_num_bounds [of ys'] ys by simp_all
    then show ?thesis using e by auto
  qed
  then show ?case using Cons.IH [OF ys(2)] ys by (auto simp: word_uint_eq_iff octets_num_Cons)
qed simp

text \<open>The leading and the trailing octets of a number.\<close>

lemma octets_num_split:
  assumes "k \<le> length os"
  shows "octets_num os div 256 ^ (length os - k) = octets_num (take k os)"
    and "octets_num os mod 256 ^ (length os - k) = octets_num (drop k os)"
proof -
  have e: "octets_num os = octets_num (take k os) * 256 ^ (length os - k) + octets_num (drop k os)"
    using octets_num_append [of "take k os" "drop k os"] by simp
  have "0 \<le> octets_num (drop k os)" "octets_num (drop k os) < 256 ^ (length os - k)"
    using octets_num_bounds [of "drop k os"] by simp_all
  then show "octets_num os div 256 ^ (length os - k) = octets_num (take k os)"
    "octets_num os mod 256 ^ (length os - k) = octets_num (drop k os)"
    unfolding e by simp_all
qed

lemma octet_power: "(2 :: int) ^ (8 * k) = 256 ^ k"
  by (simp add: power_mult)

lemma octets_drop_bit:
  assumes "length os = 16" "k \<le> 16"
  shows "drop_bit (8 * (16 - k)) (octets_num os) = octets_num (take k os)"
  using octets_num_split(1) [of k os] assms by (simp add: drop_bit_eq_div octet_power)

lemma octets_take_bit:
  assumes "length os = 16" "k \<le> 16"
  shows "take_bit (8 * (16 - k)) (octets_num os) = octets_num (drop k os)"
  using octets_num_split(2) [of k os] assms by (simp add: take_bit_eq_mod octet_power)

lemma and_low32: "(x :: int) AND 0xFFFFFFFF = take_bit 32 x"
  using take_bit_eq_mask [of 32 x] by (simp add: mask_numeral)

lemma bits_octets:
  assumes "length os = 16" "a < b" "b \<le> 16"
  shows "bits (octets_num os) (8 * a) (8 * b - 1) = octets_num (take (b - a) (drop a os))"
proof -
  have i: "127 - (8 * b - 1) = 8 * (16 - b)" "8 * b - 1 - 8 * a + 1 = 8 * (b - a)" using assms(2,3) by simp_all
  have "bits (octets_num os) (8 * a) (8 * b - 1) = take_bit (8 * (b - a)) (octets_num (take b os))"
    unfolding bits_def i octets_drop_bit [OF assms(1,3)]
    using take_bit_eq_mask [of "8 * (b - a)" "octets_num (take b os)"] by (simp add: mask_eq_exp_minus_1 push_bit_eq_mult)
  also have "\<dots> = octets_num (drop a (take b os))"
    using octets_num_split(2) [of a "take b os"] assms by (simp add: take_bit_eq_mod octet_power)
  finally show ?thesis by (simp add: drop_take)
qed

section \<open>Spellings of an IPv4 address\<close>

text \<open>
  The sixteen octets of an IPv6 address that stands for an IPv4 address, as the RFCs lay them out: mapped
  and compatible (RFC 4291 2.5.5), 6to4 (RFC 3056 2), Teredo with its server and its inverted client
  (RFC 4380 4), ISATAP (RFC 5214 6.1), and the translation prefixes of NAT64 (RFC 6052 2.2), where octet 8
  is skipped. Under the prefix for local use (RFC 8215) the operator chooses the length, so several
  readings are possible.
\<close>

definition carries :: "8 word list \<Rightarrow> 8 word list \<Rightarrow> bool" where
  "carries os m \<longleftrightarrow>
     (take 12 os = replicate 10 0 @ [0xFF, 0xFF] \<and> drop 12 os = m)
     \<or> (take 12 os = replicate 12 0 \<and> drop 12 os = m)
     \<or> (take 2 os = [0x20, 0x02] \<and> take 4 (drop 2 os) = m)
     \<or> (take 4 os = [0x20, 0x01, 0, 0] \<and> (take 4 (drop 4 os) = m \<or> map (\<lambda>b. NOT b) (drop 12 os) = m))
     \<or> (take 4 (drop 8 os) \<in> {[0, 0, 0x5E, 0xFE], [2, 0, 0x5E, 0xFE]} \<and> drop 12 os = m)
     \<or> (take 12 os = [0, 0x64, 0xFF, 0x9B] @ replicate 8 0 \<and> drop 12 os = m)"

definition may_carry :: "8 word list \<Rightarrow> 8 word list \<Rightarrow> bool" where
  "may_carry os m \<longleftrightarrow>
     take 6 os = [0, 0x64, 0xFF, 0x9B, 0, 1]
     \<and> (take 2 (drop 6 os) @ take 2 (drop 9 os) = m \<or> take 1 (drop 7 os) @ take 3 (drop 9 os) = m
        \<or> take 4 (drop 9 os) = m \<or> drop 12 os = m)"

definition metadata4 :: "8 word list list" where
  "metadata4 = [[169, 254, 169, 254], [169, 254, 170, 2], [100, 100, 100, 200], [192, 0, 0, 192], [169, 254, 42, 42]]"

definition metadata6 :: "8 word list list" where
  "metadata6 = [[0xFD, 0, 0x0E, 0xC2] @ replicate 10 0 @ [0x02, 0x54], [0xFD, 0, 0, 0x42] @ replicate 11 0 @ [0x42]]"

abbreviation ip4 :: "8 word list \<Rightarrow> ip_address" where "ip4 m \<equiv> Ip V4 (octets_num m) None"
abbreviation ip6 :: "8 word list \<Rightarrow> string option \<Rightarrow> ip_address" where "ip6 os sc \<equiv> Ip V6 (octets_num os) sc"
abbreviation metadata :: "ip_address \<Rightarrow> bool" where "metadata a \<equiv> a \<in> set CLOUD_METADATA_IPS"

lemma eval_octets:
  "octets_num [169, 254, 169, 254] = 0xA9FEA9FE" "octets_num [169, 254, 170, 2] = 0xA9FEAA02"
  "octets_num [100, 100, 100, 200] = 0x646464C8" "octets_num [192, 0, 0, 192] = 0xC00000C0"
  "octets_num [169, 254, 42, 42] = 0xA9FE2A2A"
  "octets_num ([0xFD, 0, 0x0E, 0xC2] @ replicate 10 0 @ [0x02, 0x54]) = 0xFD000EC2000000000000000000000254"
  "octets_num ([0xFD, 0, 0, 0x42] @ replicate 11 0 @ [0x42]) = 0xFD000042000000000000000000000042"
  by code_simp+

lemma metadata_ip4: "length m = 4 \<Longrightarrow> metadata (ip4 m) \<longleftrightarrow> m \<in> set metadata4"
  by (simp add: CLOUD_METADATA_IPS_def metadata4_def eval_octets [symmetric] octets_num_eq_iff)

lemma metadata_ip6: "length os = 16 \<Longrightarrow> metadata (ip6 os sc) \<longleftrightarrow> sc = None \<and> os \<in> set metadata6"
  by (auto simp: CLOUD_METADATA_IPS_def metadata6_def eval_octets [symmetric] octets_num_eq_iff)

lemma octets_join:
  "push_bit (8 * length ys) (octets_num xs) OR octets_num ys = octets_num (xs @ ys)"
proof -
  have "take_bit (8 * length ys) (octets_num ys) = octets_num ys"
    using octets_num_bounds [of ys] by (simp add: take_bit_eq_mod octet_power)
  then show ?thesis
    using concat_bit_eq [of "8 * length ys" "octets_num ys" "octets_num xs"]
    by (simp add: concat_bit_def or.commute octets_num_append push_bit_eq_mult octet_power)
qed

lemma octets_in_net:
  assumes "length os = 16" "length pre = k" "k \<le> 16" "base = octets_num pre * 256 ^ (16 - k)"
  shows "ip_in (ip6 os sc) (Net V6 base (8 * k)) \<longleftrightarrow> take k os = pre"
proof -
  have s: "net_size (Net V6 base (8 * k)) = 256 ^ (16 - k)"
    using assms(3) octet_power [of "16 - k"] by (simp add: net_size_def right_diff_distrib')
  have "octets_num os div 256 ^ (16 - k) = octets_num (take k os)"
    using octets_num_split(1) [of k os] assms by simp
  then have "ip_in (ip6 os sc) (Net V6 base (8 * k)) \<longleftrightarrow> octets_num (take k os) * 256 ^ (16 - k) = base"
    by (simp add: ip_in_def s)
  then show ?thesis using assms octets_num_eq_iff [of "take k os" pre] by simp
qed

lemma rfc6052_octets:
  assumes "length os = 16"
  shows "rfc6052_ipv4 (octets_num os) 96 = Some (ip4 (drop 12 os))"
    and "rfc6052_ipv4 (octets_num os) 64 = Some (ip4 (take 4 (drop 9 os)))"
    and "rfc6052_ipv4 (octets_num os) 56 = Some (ip4 (take 1 (drop 7 os) @ take 3 (drop 9 os)))"
    and "rfc6052_ipv4 (octets_num os) 48 = Some (ip4 (take 2 (drop 6 os) @ take 2 (drop 9 os)))"
    and "rfc6052_ipv4 (octets_num os) 40 = Some (ip4 (take 3 (drop 5 os) @ take 1 (drop 9 os)))"
    and "rfc6052_ipv4 (octets_num os) 32 = Some (ip4 (take 4 (drop 4 os)))"
  using bits_octets [OF assms, of 12 16] bits_octets [OF assms, of 9 13] bits_octets [OF assms, of 7 8] bits_octets [OF assms, of 9 12]
    bits_octets [OF assms, of 6 8] bits_octets [OF assms, of 9 11] bits_octets [OF assms, of 5 8] bits_octets [OF assms, of 9 10]
    bits_octets [OF assms, of 4 8]
    octets_join [of "take 3 (drop 9 os)" "take 1 (drop 7 os)"] octets_join [of "take 2 (drop 9 os)" "take 2 (drop 6 os)"]
    octets_join [of "take 1 (drop 9 os)" "take 3 (drop 5 os)"] assms
  by (simp_all add: rfc6052_ipv4_def del: push_bit_Suc)

text \<open>The numbers of the prefixes.\<close>

lemma eval_prefixes:
  "octets_num (replicate 10 0 @ [0xFF, 0xFF]) = 65535" "octets_num (replicate 12 0) = 0" "octets_num [0x20, 0x02] = 0x2002"
  "octets_num [0x20, 0x01, 0, 0] = 0x20010000" "octets_num [0, 0, 0x5E, 0xFE] = 0x5EFE" "octets_num [2, 0, 0x5E, 0xFE] = 0x02005EFE"
  "octets_num ([0, 0x64, 0xFF, 0x9B] @ replicate 8 0) = 0x64FF9B * 2 ^ 64" "octets_num [0, 0x64, 0xFF, 0x9B, 0, 1] = 0x64FF9B0001"
  "octets_num (0 # 0x64 # 0xFF # 0x9B # replicate 8 0) = 0x64FF9B * 2 ^ 64"
  by code_simp+

lemma octets_in_nat64:
  assumes "length os = 16"
  shows "ip_in (ip6 os sc) NAT64_WELL_KNOWN \<longleftrightarrow> take 12 os = [0, 0x64, 0xFF, 0x9B] @ replicate 8 0"
    and "ip_in (ip6 os sc) NAT64_LOCAL_USE \<longleftrightarrow> take 6 os = [0, 0x64, 0xFF, 0x9B, 0, 1]"
    and "ip_in (ip6 os sc) IPV4_COMPATIBLE \<longleftrightarrow> take 12 os = replicate 12 0"
  using octets_in_net [OF assms, of "[0, 0x64, 0xFF, 0x9B] @ replicate 8 0" 12 "0x64FF9B * 2 ^ 96" sc]
    octets_in_net [OF assms, of "[0, 0x64, 0xFF, 0x9B, 0, 1]" 6 "0x64FF9B0001 * 2 ^ 80" sc]
    octets_in_net [OF assms, of "replicate 12 0" 12 0 sc]
  by (simp_all add: NAT64_WELL_KNOWN_def NAT64_LOCAL_USE_def IPV4_COMPATIBLE_def eval_prefixes)

lemma octets_low32: "length os = 16 \<Longrightarrow> octets_num os AND 0xFFFFFFFF = octets_num (drop 12 os)"
  using octets_take_bit [of os 12] by (simp add: and_low32)

lemma octets_complement:
  "length os = 16 \<Longrightarrow> NOT (octets_num os) AND 0xFFFFFFFF = octets_num (map (\<lambda>b. NOT b) (drop 12 os))"
proof -
  have c: "octets_num (map (\<lambda>b. NOT b) xs) = 256 ^ length xs - 1 - octets_num xs" for xs
  proof (induction xs)
    case (Cons x xs)
    have "take_bit 8 (uint x) = uint x" using uint_octet [of x] by (simp add: take_bit_eq_mod)
    then have "uint (NOT x) = 255 - uint x" by (simp add: unsigned_not_eq take_bit_not_eq_mask_diff mask_numeral)
    then show ?case using Cons by (simp add: octets_num_Cons left_diff_distrib)
  qed simp
  assume l: "length os = 16"
  have "NOT (octets_num os) AND 0xFFFFFFFF = 2 ^ 32 - 1 - take_bit 32 (octets_num os)"
    by (simp add: and_low32 take_bit_not_eq_mask_diff mask_numeral)
  also have "\<dots> = 2 ^ 32 - 1 - octets_num (drop 12 os)" using octets_take_bit [OF l, of 12] by simp
  finally show ?thesis using c [of "drop 12 os"] l by simp
qed

lemma octets_forms:
  assumes "length os = 16"
  shows "ipv4_mapped (ip6 os sc) = (if take 12 os = replicate 10 0 @ [0xFF, 0xFF] then Some (ip4 (drop 12 os)) else None)"
    and "sixtofour (ip6 os sc) = (if take 2 os = [0x20, 0x02] then Some (ip4 (take 4 (drop 2 os))) else None)"
    and "teredo (ip6 os sc) =
      (if take 4 os = [0x20, 0x01, 0, 0] then Some (ip4 (take 4 (drop 4 os)), ip4 (map (\<lambda>b. NOT b) (drop 12 os))) else None)"
    and "bits (octets_num os) 64 95 \<in> set ISATAP_IDENTIFIERS \<longleftrightarrow> take 4 (drop 8 os) \<in> {[0, 0, 0x5E, 0xFE], [2, 0, 0x5E, 0xFE]}"
proof -
  note eq = octets_num_eq_iff [of "take 12 os" "replicate 10 0 @ [0xFF, 0xFF]"] octets_num_eq_iff [of "take 2 os" "[0x20, 0x02]"]
    octets_num_eq_iff [of "take 4 os" "[0x20, 0x01, 0, 0]"] octets_num_eq_iff [of "take 4 (drop 8 os)" "[0, 0, 0x5E, 0xFE]"]
    octets_num_eq_iff [of "take 4 (drop 8 os)" "[2, 0, 0x5E, 0xFE]"]
  have d: "octets_num os div 2 ^ 32 = octets_num (take 12 os)" "octets_num os mod 2 ^ 32 = octets_num (drop 12 os)"
    using octets_num_split [of 12 os] assms by simp_all
  show "ipv4_mapped (ip6 os sc) = (if take 12 os = replicate 10 0 @ [0xFF, 0xFF] then Some (ip4 (drop 12 os)) else None)"
    using eq(1) assms d by (simp add: ipv4_mapped_def eval_prefixes)
  have b: "take_bit 32 (octets_num (take 6 os)) = octets_num (take 4 (drop 2 os))"
    "take_bit 32 (octets_num (take 8 os)) = octets_num (take 4 (drop 4 os))"
    using octets_num_split(2) [of 2 "take 6 os"] octets_num_split(2) [of 4 "take 8 os"] assms
    by (simp_all add: take_bit_eq_mod drop_take)
  show "sixtofour (ip6 os sc) = (if take 2 os = [0x20, 0x02] then Some (ip4 (take 4 (drop 2 os))) else None)"
    using eq(2) assms octets_drop_bit [OF assms, of 2] octets_drop_bit [OF assms, of 6] b(1)
    by (simp add: sixtofour_def eval_prefixes and_low32)
  show "teredo (ip6 os sc) =
      (if take 4 os = [0x20, 0x01, 0, 0] then Some (ip4 (take 4 (drop 4 os)), ip4 (map (\<lambda>b. NOT b) (drop 12 os))) else None)"
    using eq(3) assms octets_drop_bit [OF assms, of 4] octets_drop_bit [OF assms, of 8] b(2) octets_complement [OF assms]
    by (simp add: teredo_def eval_prefixes and_low32)
  show "bits (octets_num os) 64 95 \<in> set ISATAP_IDENTIFIERS \<longleftrightarrow> take 4 (drop 8 os) \<in> {[0, 0, 0x5E, 0xFE], [2, 0, 0x5E, 0xFE]}"
    using eq(4,5) assms bits_octets [OF assms, of 8 12] by (simp add: ISATAP_IDENTIFIERS_def eval_prefixes)
qed

lemma metadata_in_forms:
  assumes "length os = 16"
  shows "list_ex metadata (ipv4_forms (ip6 os sc)) \<longleftrightarrow> (\<exists>m \<in> set metadata4. carries os m)"
proof -
  have "list_ex metadata (ipv4_forms (ip6 os sc)) \<longleftrightarrow>
    (take 12 os = [0, 0x64, 0xFF, 0x9B] @ replicate 8 0 \<and> metadata (ip4 (drop 12 os)))
    \<or> (take 12 os = replicate 10 0 @ [0xFF, 0xFF] \<and> metadata (ip4 (drop 12 os)))
    \<or> (take 2 os = [0x20, 0x02] \<and> metadata (ip4 (take 4 (drop 2 os))))
    \<or> (take 4 os = [0x20, 0x01, 0, 0] \<and> (metadata (ip4 (take 4 (drop 4 os))) \<or> metadata (ip4 (map (\<lambda>b. NOT b) (drop 12 os)))))
    \<or> (take 4 (drop 8 os) \<in> {[0, 0, 0x5E, 0xFE], [2, 0, 0x5E, 0xFE]} \<and> metadata (ip4 (drop 12 os)))
    \<or> (take 12 os = replicate 12 0 \<and> metadata (ip4 (drop 12 os)))"
    unfolding ipv4_forms_def ip_address.sel octets_forms [OF assms] octets_low32 [OF assms] nat64_readings_def
      octets_in_nat64 [OF assms] rfc6052_octets [OF assms]
    by auto
  also have "\<dots> \<longleftrightarrow> (\<exists>m \<in> set metadata4. carries os m)"
    using assms by (simp only: metadata_ip4 length_take length_drop length_map) (auto simp: carries_def metadata_ip4)
  finally show ?thesis .
qed

lemma metadata_in_speculative:
  assumes "length os = 16"
  shows "list_ex metadata (speculative_ipv4_forms (ip6 os sc)) \<longleftrightarrow> (\<exists>m \<in> set metadata4. may_carry os m)"
proof -
  have n: "take 12 os \<noteq> [0, 0x64, 0xFF, 0x9B] @ replicate 8 0" if "take 6 os = [0, 0x64, 0xFF, 0x9B, 0, 1]"
  proof
    assume "take 12 os = [0, 0x64, 0xFF, 0x9B] @ replicate 8 0"
    then have "take 6 (take 12 os) = take 6 ([0, 0x64, 0xFF, 0x9B] @ replicate 8 0)" by (rule arg_cong)
    then show False using that by (simp add: min_def numeral_2_eq_2)
  qed
  have "list_ex metadata (speculative_ipv4_forms (ip6 os sc)) \<longleftrightarrow>
    take 6 os = [0, 0x64, 0xFF, 0x9B, 0, 1] \<and> list_ex metadata [ip4 (take 2 (drop 6 os) @ take 2 (drop 9 os)),
      ip4 (take 1 (drop 7 os) @ take 3 (drop 9 os)), ip4 (take 4 (drop 9 os)), ip4 (drop 12 os)]"
    unfolding speculative_ipv4_forms_def ip_address.sel nat64_readings_def octets_in_nat64 [OF assms]
    using n rfc6052_octets [OF assms] by (auto simp: LOCAL_USE_CANDIDATES_def map_filter_def)
  also have "\<dots> \<longleftrightarrow> (\<exists>m \<in> set metadata4. may_carry os m)"
    using assms by (auto simp: may_carry_def metadata_ip4)
  finally show ?thesis .
qed

section \<open>Refused addresses\<close>

lemma carried_reason_allow: "carried_reason True cs = (if list_ex metadata cs then Some Cloud_Metadata else None)"
  by (induction cs) auto

lemma carried_reason_None: "carried_reason allow cs = None \<Longrightarrow> \<not> list_ex metadata cs"
  by (induction cs) (auto split: if_splits)

lemma forbidden_allow:
  "forbidden_ip_reason True a \<noteq> None \<longleftrightarrow>
     list_ex metadata (ipv4_forms a) \<or> list_ex metadata (speculative_ipv4_forms a) \<or> metadata a"
  by (auto simp: forbidden_ip_reason_def carried_reason_allow speculative_reason_def split: option.splits)

lemma forbidden_monotone: "forbidden_ip_reason True a \<noteq> None \<Longrightarrow> forbidden_ip_reason allow a \<noteq> None"
  using carried_reason_None [of allow "ipv4_forms a"]
  unfolding forbidden_allow by (auto simp: forbidden_ip_reason_def speculative_reason_def split: option.splits if_splits)

lemma forms_ip4: "ipv4_forms (ip4 m) = []" "speculative_ipv4_forms (ip4 m) = []"
  by (simp_all add: ipv4_forms_def speculative_ipv4_forms_def)

text \<open>
  C22: the spellings of a cloud metadata endpoint that are refused. Even where loopback is allowed, an IPv6 address
  of sixteen octets without a scope is refused exactly when it carries, or under an
  operator's translation prefix may carry, one of the IPv4 endpoints in one of the seven layouts, or is one
  of the IPv6 endpoints; an IPv4 address exactly when it is an endpoint. An address that carries or may carry an IPv4
  endpoint is refused with any scope too. What is refused then is refused always.
\<close>

theorem metadata_refused_in_every_spelling:
  assumes "length os = 16" and "length m = 4"
  shows "(forbidden_ip_reason True (Ip V6 (octets_num os) None) \<noteq> None \<longleftrightarrow>
      (\<exists>e. e \<in> set metadata4 \<and> (carries os e \<or> may_carry os e)) \<or> os \<in> set metadata6)
    \<and> ((\<exists>e. e \<in> set metadata4 \<and> (carries os e \<or> may_carry os e)) \<longrightarrow> forbidden_ip_reason True (Ip V6 (octets_num os) sc) \<noteq> None)
    \<and> (forbidden_ip_reason True (Ip V4 (octets_num m) None) \<noteq> None \<longleftrightarrow> m \<in> set metadata4)
    \<and> (forbidden_ip_reason True a \<noteq> None \<longrightarrow> forbidden_ip_reason allow a \<noteq> None)"
  unfolding forbidden_allow metadata_in_forms [OF assms(1)] metadata_in_speculative [OF assms(1)] metadata_ip6 [OF assms(1)]
    forms_ip4 metadata_ip4 [OF assms(2)]
  using forbidden_monotone [of a allow, unfolded forbidden_allow] by auto

text \<open>The metadata service behind a local translation prefix of 48 bits, \<^verbatim>\<open>64:ff9b:1:a9fe:a9:fe00::\<close>.\<close>

theorem metadata_refused_in_every_spelling_witness:
  "forbidden_ip_reason True (Ip V6 (octets_num [0, 0x64, 0xFF, 0x9B, 0, 1, 169, 254, 0, 169, 254, 0, 0, 0, 0, 0]) None) \<noteq> None
   \<and> forbidden_ip_reason False (Ip V6 (octets_num [0, 0x64, 0xFF, 0x9B, 0, 1, 169, 254, 0, 169, 254, 0, 0, 0, 0, 0]) None) \<noteq> None
   \<and> forbidden_ip_reason True (Ip V4 (octets_num [10, 0, 0, 1]) None) = None"
proof -
  let ?os = "[0, 0x64, 0xFF, 0x9B, 0, 1, 169, 254, 0, 169, 254, 0, 0, 0, 0, 0] :: 8 word list"
  have "may_carry ?os [169, 254, 169, 254]" by (simp add: may_carry_def numeral_eq_Suc)
  moreover have "[169, 254, 169, 254] \<in> set metadata4" "[10, 0, 0, 1] \<notin> set metadata4" by (simp_all add: metadata4_def)
  ultimately show ?thesis
    using metadata_refused_in_every_spelling [of ?os "[10, 0, 0, 1]" None "Ip V6 (octets_num ?os) None" False] by auto
qed

text \<open>
  A scope behind a percent sign makes the same IPv6 endpoint another object, which the list does not
  hold: \<^verbatim>\<open>fd00:ec2::254%1\<close> passes.
\<close>

theorem scoped_metadata_passes:
  "forbidden_ip_reason False (Ip V6 0xFD000EC2000000000000000000000254 None) = Some Cloud_Metadata
   \<and> forbidden_ip_reason False (Ip V6 0xFD000EC2000000000000000000000254 (Some ''1'')) = None"
  by code_simp

section \<open>Connections\<close>

definition vetted :: "web_lib \<Rightarrow> bool \<Rightarrow> string \<Rightarrow> bool" where
  "vetted lib allow s \<longleftrightarrow> (\<exists>a. s = wl_text lib a \<and> forbidden_ip_reason allow a = None)"

lemma vet_addresses_SomeD:
  "vet_addresses lib bad chosen ss = Some cs \<Longrightarrow> c \<in> set cs \<Longrightarrow> c \<in> set chosen \<or> (\<exists>a. c = wl_text lib a \<and> \<not> bad a)"
  by (induction ss arbitrary: chosen) (fastforce simp: append_new_def split: option.splits if_splits)+

lemma vet_lookup_SomeD:
  assumes "vet_lookup lib bad found = Some cs"
  shows "cs \<noteq> []" and "c \<in> set cs \<Longrightarrow> \<exists>a. c = wl_text lib a \<and> \<not> bad a"
  using assms vet_addresses_SomeD [of lib bad "[]" _ cs c] by (auto simp: vet_lookup_def split: option.splits if_splits)

lemma resolve_SomeD:
  assumes "resolve_and_validate lib allow dns url = Some (host, cs)"
  shows "url_host lib url = Some host \<and> cs \<noteq> [] \<and> list_all (vetted lib allow) cs"
  using assms vet_lookup_SomeD [of lib "\<lambda>a. forbidden_ip_reason allow a \<noteq> None" _ cs]
  by (fastforce simp: resolve_and_validate_def vetted_def list_all_iff split: option.splits if_splits)

lemma set_try_in_order: "set (try_in_order reaches as) \<subseteq> set as"
  by (induction as) auto

text \<open>One hop: the request is recorded with pinned addresses only, and the pins are as before.\<close>

lemma pinned_send_effect:
  assumes "pinned_send lib wd (host, cs) http_method url args ob = (answer, ob')" "cs \<noteq> []"
  shows "ob_pins ob' = ob_pins ob
    \<and> (\<exists>tried. (pin_key (wl_connects lib url) = pin_key host \<longrightarrow> set tried \<subseteq> set cs)
         \<and> ob_sent ob' = ob_sent ob @ [\<lparr>sr_method = http_method, sr_url = url, sr_args = args, sr_tried = tried\<rparr>])"
  using assms set_try_in_order [of "wd_reaches wd (ob_requests ob)" cs]
  by (auto simp: pinned_send_def send_request_def patched_create_connection_def split: option.splits if_splits)

text \<open>
  A URL that every reader of URLs takes apart alike: \<open>http\<close> or \<open>https\<close>, a host of ASCII letters, digits, hyphens and dots,
  perhaps a port, then the end or a path. Its host is the result.
\<close>

definition plain_char :: "char \<Rightarrow> bool" where
  "plain_char c \<longleftrightarrow> is_lower c \<or> is_upper c \<or> is_digit c \<or> c = CHR ''-'' \<or> c = CHR ''.''"

definition ends_authority :: "string \<Rightarrow> bool" where
  "ends_authority s \<longleftrightarrow> s = [] \<or> hd s = CHR ''/''"

definition plain_host :: "string \<Rightarrow> string option" where
  "plain_host url =
     (let rest = (if starts_with url ''https://'' then Some (drop 8 url) else if starts_with url ''http://'' then Some (drop 7 url) else None)
      in (case rest of
            None \<Rightarrow> None
          | Some r \<Rightarrow>
              let host = takeWhile plain_char r; after = dropWhile plain_char r
              in if host \<noteq> [] \<and> (ends_authority after \<or> (hd after = CHR '':'' \<and> ends_authority (dropWhile is_digit (List.tl after))))
                 then Some host else None))"

text \<open>What is true of every request that a hop sends is true of all that are sent.\<close>

lemma request_hops_sent:
  assumes agree: "\<And>url p h. plain_host url = Some p \<Longrightarrow> url_host lib url = Some h \<Longrightarrow> pin_key (wl_connects lib url) = pin_key h"
  shows "request_hops n lib wd allow follow url http_method args ob = (r, ob') \<Longrightarrow>
    ob_pins ob' = ob_pins ob
    \<and> (\<exists>new. ob_sent ob' = ob_sent ob @ new \<and> length new \<le> n
        \<and> (\<forall>s \<in> set new. plain_host (sr_url s) \<noteq> None \<longrightarrow> list_all (vetted lib allow) (sr_tried s)))"
proof (induction n arbitrary: url http_method args ob)
  case (Suc n)
  let ?ob = "ob\<lparr>ob_lookups := ob_lookups ob + 1\<rparr>"
  show ?case
  proof (cases "resolve_and_validate lib allow (wd_lookup wd (ob_lookups ob)) url")
    case None
    then show ?thesis using Suc.prems by (auto simp: Let_def)
  next
    case (Some pin)
    obtain host cs where pin: "pin = (host, cs)" by (cases pin)
    have ok: "url_host lib url = Some host" "cs \<noteq> []" "list_all (vetted lib allow) cs"
      using resolve_SomeD Some pin by blast+
    obtain answer ob1 where send: "pinned_send lib wd (host, cs) http_method url args ?ob = (answer, ob1)" by fastforce
    obtain tried where tried: "plain_host url \<noteq> None \<longrightarrow> set tried \<subseteq> set cs" "ob_pins ob1 = ob_pins ob"
      "ob_sent ob1 = ob_sent ob @ [\<lparr>sr_method = http_method, sr_url = url, sr_args = args, sr_tried = tried\<rparr>]"
      using pinned_send_effect [OF send ok(2)] agree [OF _ ok(1)] by auto
    have v: "plain_host url \<noteq> None \<longrightarrow> list_all (vetted lib allow) tried" using ok(3) tried(1) by (auto simp: list_all_iff)
    consider "ob' = ob1" | url' m' args' where "request_hops n lib wd allow follow url' m' args' ob1 = (r, ob')"
      using Suc.prems Some pin send by (auto simp: Let_def split: option.splits if_splits)
    then show ?thesis
    proof cases
      case 1
      then show ?thesis using tried v by auto
    next
      case 2
      then obtain new where "ob_pins ob' = ob_pins ob1" "ob_sent ob' = ob_sent ob1 @ new" "length new \<le> n"
        "\<forall>s \<in> set new. plain_host (sr_url s) \<noteq> None \<longrightarrow> list_all (vetted lib allow) (sr_tried s)" using Suc.IH by blast
      then show ?thesis
        using tried v by (intro conjI exI [of _ "\<lparr>sr_method = http_method, sr_url = url, sr_args = args, sr_tried = tried\<rparr> # new"]) auto
    qed
  qed
qed auto

text \<open>
  C23: a request to a plain URL connects only to what was checked. Assumed of the HTTP client: given a plain URL, it
  connects, without a proxy, to the host that \<open>urlparse\<close> reads from it. Then whatever the resolver answers to each
  lookup and whatever the servers redirect to, every address that a hop to a plain URL tries to connect to is one
  that the check did not refuse. In any case at most six requests are sent, and the pins of the thread are restored.
\<close>

theorem connections_were_vetted:
  assumes "\<And>url p h. plain_host url = Some p \<Longrightarrow> url_host lib url = Some h \<Longrightarrow> pin_key (wl_connects lib url) = pin_key h"
    and "safe_request lib wd allow follow http_method url args ob = (r, ob')"
  shows "ob_pins ob' = ob_pins ob
    \<and> (\<exists>new. ob_sent ob' = ob_sent ob @ new \<and> length new \<le> 6
        \<and> (\<forall>s t. s \<in> set new \<and> plain_host (sr_url s) \<noteq> None \<and> t \<in> set (sr_tried s) \<longrightarrow>
             (\<exists>a. t = wl_text lib a \<and> forbidden_ip_reason allow a = None)))"
  using request_hops_sent [OF _ assms(2) [unfolded safe_request_def]] assms(1)
  by (fastforce simp: MAX_REDIRECTS_def list_all_iff vetted_def)

text \<open>
  A webhook whose server redirects to a name that the resolver maps to loopback: one request is sent, to the
  address that was checked, and the hop is refused.
\<close>

definition sample_web :: web_lib where
  "sample_web =
     (let parse = (\<lambda>url. if url = ''https://hook.example/a'' then Some \<lparr>ur_scheme = ''https'', ur_host = Some ''hook.example'', ur_port = Some None\<rparr>
                         else if url = ''https://other.example/b'' then Some \<lparr>ur_scheme = ''https'', ur_host = Some ''other.example'', ur_port = Some None\<rparr>
                         else None)
      in \<lparr>wl_read = (\<lambda>s. if s = ''93.184.216.34'' then Some (Ip V4 0x5DB8D822 None)
                          else if s = ''127.0.0.1'' then Some (Ip V4 0x7F000001 None) else None),
          wl_text = (\<lambda>a. if ip_num a = 0x5DB8D822 then ''93.184.216.34'' else ''127.0.0.1''),
          wl_tables = \<lparr>tb_private4 = [], tb_private4_except = [], tb_private6 = [], tb_private6_except = [], tb_reserved6 = []\<rparr>,
          wl_parse = parse, wl_join = (\<lambda>url location. Some location),
          wl_connects = (\<lambda>url. case parse url of None \<Rightarrow> [] | Some p \<Rightarrow> (case ur_host p of None \<Rightarrow> [] | Some h \<Rightarrow> h))\<rparr>)"

definition sample_world :: "bool \<Rightarrow> world" where
  "sample_world rebinds =
     \<lparr>wd_lookup = (\<lambda>n host. if n = 0 \<or> \<not> rebinds then Some [''93.184.216.34''] else Some [''127.0.0.1'']),
      wd_answer = (\<lambda>n. if n = 0 then Some \<lparr>ha_status = 307, ha_location = ''https://other.example/b'', ha_content = []\<rparr>
                       else Some \<lparr>ha_status = 200, ha_location = [], ha_content = []\<rparr>),
      wd_reaches = (\<lambda>n s. True)\<rparr>"

definition sample_args :: request_args where
  "sample_args = \<lparr>ra_auth = None, ra_cookies = None, ra_params = None, ra_data = Some ''event'', ra_json = None, ra_files = None,
     ra_headers = [(''Authorization'', ''Bearer t''), (''User-Agent'', ''UCM'')]\<rparr>"

definition idle :: outbound where
  "idle = \<lparr>ob_lookups = 0, ob_requests = 0, ob_pins = Map.empty, ob_sent = []\<rparr>"

abbreviation sample_post :: "bool \<Rightarrow> request_outcome \<times> outbound" where
  "sample_post rebinds \<equiv> safe_request sample_web (sample_world rebinds) False True ''POST'' ''https://hook.example/a'' sample_args idle"

lemma sample_web_agrees: "url_host sample_web url = Some h \<Longrightarrow> pin_key (wl_connects sample_web url) = pin_key h"
  by (auto simp: url_host_def sample_web_def Let_def split: option.splits if_splits)

theorem connections_were_vetted_witness:
  "fst (sample_post True) = Host_Refused \<and> map sr_tried (ob_sent (snd (sample_post True))) = [[''93.184.216.34'']]
   \<and> (\<exists>a. ''93.184.216.34'' = wl_text sample_web a \<and> forbidden_ip_reason False a = None)"
proof -
  have 1: "fst (sample_post True) = Host_Refused" by code_simp
  have 2: "map sr_tried (ob_sent (snd (sample_post True))) = [[''93.184.216.34'']]" by code_simp
  have "sample_post True = (fst (sample_post True), snd (sample_post True))" by simp
  from connections_were_vetted [OF _ this] sample_web_agrees
  obtain new where new: "ob_sent (snd (sample_post True)) = ob_sent idle @ new"
    "\<forall>s t. s \<in> set new \<and> plain_host (sr_url s) \<noteq> None \<and> t \<in> set (sr_tried s) \<longrightarrow>
       (\<exists>a. t = wl_text sample_web a \<and> forbidden_ip_reason False a = None)" by blast
  have "list_all (\<lambda>s. plain_host (sr_url s) \<noteq> None) (ob_sent (snd (sample_post True)))" by code_simp
  moreover have "map sr_tried new = [[''93.184.216.34'']]" using 2 new(1) by (simp add: idle_def)
  ultimately obtain s where "s \<in> set new" "plain_host (sr_url s) \<noteq> None" "''93.184.216.34'' \<in> set (sr_tried s)"
    using new(1) by (auto simp: idle_def)
  then show ?thesis using 1 2 new(2) by blast
qed

text \<open>
  A host outside ASCII is looked up and pinned under the name that \<open>urlparse\<close> reads, but the HTTP client connects to its
  IDNA form: the pin is missed, and the second lookup, which nobody checks, may answer the metadata service.
\<close>

definition umlaut_url :: string where
  "umlaut_url = ''https://b'' @ [CHR 0xFC] @ ''cher.example/a''"

definition umlaut_web :: web_lib where
  "umlaut_web = sample_web\<lparr>
     wl_read := (\<lambda>s. if s = ''93.184.216.34'' then Some (Ip V4 0x5DB8D822 None) else if s = ''169.254.169.254'' then Some (Ip V4 0xA9FEA9FE None) else None),
     wl_parse := (\<lambda>_. Some \<lparr>ur_scheme = ''https'', ur_host = Some (''b'' @ [CHR 0xFC] @ ''cher.example''), ur_port = Some None\<rparr>),
     wl_connects := (\<lambda>_. ''xn--bcher-kva.example'')\<rparr>"

definition umlaut_world :: world where
  "umlaut_world = (sample_world False)\<lparr>wd_lookup := (\<lambda>n host. if n = 0 then Some [''93.184.216.34''] else Some [''169.254.169.254''])\<rparr>"

theorem international_host_misses_its_pin:
  "map sr_tried (ob_sent (snd (safe_request umlaut_web umlaut_world False False ''GET'' umlaut_url sample_args idle))) = [[''169.254.169.254'']]
   \<and> map_option (forbidden_ip_reason True) (wl_read umlaut_web ''169.254.169.254'') = Some (Some Cloud_Metadata)
   \<and> plain_host umlaut_url = None"
  by code_simp

section \<open>Origins\<close>

definition bare :: "request_args \<Rightarrow> bool" where
  "bare args \<longleftrightarrow> ra_auth args = None \<and> ra_cookies args = None \<and> ra_params args = None
     \<and> ra_data args = None \<and> ra_json args = None \<and> ra_files args = None
     \<and> list_all (\<lambda>(name, v). py_lower name \<in> set PORTABLE_HEADERS) (ra_headers args)"

lemma bare_simps [simp]: "bare (strip_credentials args)" "bare args \<Longrightarrow> bare (without_body args)"
  by (auto simp: bare_def strip_credentials_def without_body_def drop_body_def list_all_iff)

lemma next_hop_SomeD:
  assumes "next_hop lib status url location (m, args) = Some (url', m', args')"
  shows "(origin lib url' = origin lib url \<or> (bare args' \<and> m' = ''GET''))
    \<and> (bare args \<and> m = ''GET'' \<longrightarrow> bare args' \<and> m' = ''GET'')"
  using assms by (auto simp: next_hop_def same_origin_def Let_def split: option.splits if_splits)

definition stripped :: "sent_request \<Rightarrow> bool" where
  "stripped s \<longleftrightarrow> bare (sr_args s) \<and> sr_method s = ''GET''"

lemma pinned_send_sent:
  "pinned_send lib wd pin m url args ob = (answer, ob') \<Longrightarrow>
     \<exists>tried. ob_sent ob' = ob_sent ob @ [\<lparr>sr_method = m, sr_url = url, sr_args = args, sr_tried = tried\<rparr>]"
  by (auto simp: pinned_send_def send_request_def patched_create_connection_def split: prod.splits option.splits if_splits)

text \<open>
  The requests of a run from \<open>url\<close>: once stripped all are, one to another origin than \<open>url\<close> is, and so is the
  later of any two to different origins.
\<close>

lemma request_hops_origins:
  "request_hops n lib wd allow follow url m args ob = (r, ob') \<Longrightarrow>
    \<exists>new. ob_sent ob' = ob_sent ob @ new
      \<and> (bare args \<and> m = ''GET'' \<longrightarrow> (\<forall>s \<in> set new. stripped s))
      \<and> (\<forall>s \<in> set new. origin lib (sr_url s) \<noteq> origin lib url \<longrightarrow> stripped s)
      \<and> (\<forall>i j. i < j \<and> j < length new \<and> origin lib (sr_url (new ! i)) \<noteq> origin lib (sr_url (new ! j)) \<longrightarrow> stripped (new ! j))"
proof (induction n arbitrary: url m args ob)
  case (Suc n)
  let ?ob = "ob\<lparr>ob_lookups := ob_lookups ob + 1\<rparr>"
  show ?case
  proof (cases "resolve_and_validate lib allow (wd_lookup wd (ob_lookups ob)) url")
    case None
    then show ?thesis using Suc.prems by (intro exI [of _ "[]"]) (auto simp: Let_def)
  next
    case (Some pin)
    obtain answer ob1 where send: "pinned_send lib wd pin m url args ?ob = (answer, ob1)" by fastforce
    then obtain tried where tried: "ob_sent ob1 = ob_sent ob @ [\<lparr>sr_method = m, sr_url = url, sr_args = args, sr_tried = tried\<rparr>]"
      using pinned_send_sent by fastforce
    let ?s = "\<lparr>sr_method = m, sr_url = url, sr_args = args, sr_tried = tried\<rparr>"
    consider "ob' = ob1" | status location url' m' args' where "next_hop lib status url location (m, args) = Some (url', m', args')"
        "request_hops n lib wd allow follow url' m' args' ob1 = (r, ob')"
      using Suc.prems Some send by (fastforce simp: Let_def split: option.splits if_splits)
    then show ?thesis
    proof cases
      case 1
      then show ?thesis using tried by (intro exI [of _ "[?s]"]) (auto simp: stripped_def)
    next
      case 2
      then obtain new where new: "ob_sent ob' = ob_sent ob1 @ new" "bare args' \<and> m' = ''GET'' \<Longrightarrow> \<forall>s \<in> set new. stripped s"
        "\<forall>s \<in> set new. origin lib (sr_url s) \<noteq> origin lib url' \<longrightarrow> stripped s"
        "\<forall>i j. i < j \<and> j < length new \<and> origin lib (sr_url (new ! i)) \<noteq> origin lib (sr_url (new ! j)) \<longrightarrow> stripped (new ! j)"
        using Suc.IH by blast
      note hop = next_hop_SomeD [OF 2(1)]
      have far: "\<forall>s \<in> set new. origin lib (sr_url s) \<noteq> origin lib url \<longrightarrow> stripped s" using new(2,3) hop by metis
      have "stripped ((?s # new) ! j)"
        if "i < j" "j < length (?s # new)" "origin lib (sr_url ((?s # new) ! i)) \<noteq> origin lib (sr_url ((?s # new) ! j))" for i j
        using that far new(4) by (cases i; cases j) auto
      then show ?thesis
        using tried new(1,2) far hop by (intro exI [of _ "?s # new"]) (auto simp: stripped_def)
    qed
  qed
qed auto

text \<open>
  C24: nothing of the caller crosses to another origin. Of the requests that one call sends, a request to
  another origin (scheme, host and port) than an earlier one is a \<open>GET\<close> without credentials, cookies,
  parameters or body, and with no headers but the six that carry neither identity nor payload.
\<close>

theorem nothing_crosses_origins:
  assumes "safe_request lib wd allow follow http_method url args ob = (r, ob')"
  shows "\<exists>new. ob_sent ob' = ob_sent ob @ new
    \<and> (\<forall>i j. i < j \<and> j < length new \<and> origin lib (sr_url (new ! i)) \<noteq> origin lib (sr_url (new ! j)) \<longrightarrow>
         bare (sr_args (new ! j)) \<and> sr_method (new ! j) = ''GET'')"
  using request_hops_origins [OF assms [unfolded safe_request_def]] unfolding stripped_def by blast

text \<open>The webhook follows a redirect to another host: the second request carries only the user agent.\<close>

theorem nothing_crosses_origins_witness:
  "map sr_url (ob_sent (snd (sample_post False))) = [''https://hook.example/a'', ''https://other.example/b'']
   \<and> origin sample_web ''https://hook.example/a'' \<noteq> origin sample_web ''https://other.example/b''
   \<and> bare (sr_args (ob_sent (snd (sample_post False)) ! 1)) \<and> \<not> bare (sr_args (ob_sent (snd (sample_post False)) ! 0))"
proof -
  have 1: "map sr_url (ob_sent (snd (sample_post False))) = [''https://hook.example/a'', ''https://other.example/b'']" by code_simp
  have 2: "origin sample_web ''https://hook.example/a'' \<noteq> origin sample_web ''https://other.example/b''" by code_simp
  have 3: "\<not> bare (sr_args (ob_sent (snd (sample_post False)) ! 0))" by code_simp
  have "sample_post False = (fst (sample_post False), snd (sample_post False))" by simp
  from nothing_crosses_origins [OF this]
  have "bare (sr_args (ob_sent (snd (sample_post False)) ! 1))"
  proof (elim exE conjE)
    fix new
    assume n: "ob_sent (snd (sample_post False)) = ob_sent idle @ new"
      and all: "\<forall>i j. i < j \<and> j < length new \<and> origin sample_web (sr_url (new ! i)) \<noteq> origin sample_web (sr_url (new ! j)) \<longrightarrow>
        bare (sr_args (new ! j)) \<and> sr_method (new ! j) = ''GET''"
    have n': "ob_sent (snd (sample_post False)) = new" using n by (simp add: idle_def)
    then have "map sr_url new = [''https://hook.example/a'', ''https://other.example/b'']" using 1 by simp
    then have "length new = 2" "sr_url (new ! 0) = ''https://hook.example/a''" "sr_url (new ! 1) = ''https://other.example/b''"
      by auto
    then show ?thesis using all [rule_format, of 0 1] 2 n' by simp
  qed
  then show ?thesis using 1 2 3 by blast
qed

end
