(* ===== verification/Sso.thy ===== *)
theory Sso
  imports Sign_In
begin

text \<open>
  Single sign-on: the mapping of attributes and groups (\<^verbatim>\<open>api/v2/sso/helpers.py\<close>), the account that a
  login of a directory belongs to (\<^verbatim>\<open>api/v2/sso/ldap_routes.py\<close>), the ids of SAML messages
  (\<^verbatim>\<open>api/v2/sso/saml_sp.py\<close>) and the sign-in routes for LDAP, OIDC and
  SAML (\<^verbatim>\<open>api/v2/sso/login_routes.py\<close>).

  What a directory answers is a parameter of the routes: the entry that an LDAP bind found, the tokens and the
  user info of an OIDC provider, the SAML response that the library accepted for a request id. So is
  the verification of an ID token (\<^verbatim>\<open>services/oidc_id_token.py\<close>), which is not modelled. \<open>sl_loads\<close> is \<open>json.loads\<close>, \<open>sl_str\<close> is \<open>str\<close> of a value that is no text, \<open>sl_drift\<close> the clock drift that the
  SAML library allows. SAML attributes have a list of
  values each, as the library gives them. A request reads the clock once and its transactions share one
  outcome; rows of single sign-on sessions, which are only listed, audit entries and redirects are left
  out.
\<close>

section \<open>Rows\<close>

record provider = provider_row +
  pv_enabled :: bool
  pv_attribute_mapping :: "string option"
  pv_role_mapping :: "string option"
  pv_default_role :: string
  pv_auto_create :: bool
  pv_auto_update :: bool
  pv_sync_role :: bool
  pv_allow_idp_initiated :: bool
  pv_saml_sso_url :: string
  pv_id_token_verify :: bool

record named_role = custom_role +
  nr_name :: string
  nr_system :: bool

datatype message_kind = Saml_Request | Saml_Assertion

record message_row =
  mi_kind :: message_kind
  mi_id :: string
  mi_provider :: int
  mi_expires :: datetime

record sso_lib =
  sl_loads :: "string \<Rightarrow> json option"
  sl_str :: "json \<Rightarrow> string"
  sl_drift :: int

record sso_site = server +
  ss_providers :: "provider list"
  ss_roles :: "named_role list"
  ss_messages :: "message_row list"

definition set_site :: "'a server_scheme \<Rightarrow> site \<Rightarrow> 'a server_scheme" where
  "set_site sv st = sv\<lparr>sv_site := st\<rparr>"

section \<open>Attributes\<close>

definition json_str :: "sso_lib \<Rightarrow> json \<Rightarrow> string" where
  "json_str lib v = (case v of JStr s \<Rightarrow> s | JInt n \<Rightarrow> show_int n | _ \<Rightarrow> sl_str lib v)"

text \<open>A JSON column, perhaps encoded twice; anything but an object or an array counts as empty.\<close>

definition parse_json_field :: "sso_lib \<Rightarrow> string option \<Rightarrow> json" where
  "parse_json_field lib column =
     (case column of
        None \<Rightarrow> JDict []
      | Some t \<Rightarrow>
          if t = [] then JDict []
          else (case sl_loads lib t of
                  Some (JDict kvs) \<Rightarrow> JDict kvs
                | Some (JList xs) \<Rightarrow> JList xs
                | Some (JStr s) \<Rightarrow> (case sl_loads lib s of Some (JDict kvs) \<Rightarrow> JDict kvs | Some (JList xs) \<Rightarrow> JList xs | _ \<Rightarrow> JDict [])
                | _ \<Rightarrow> JDict []))"

definition MAPPING_FIELDS :: "string list" where
  "MAPPING_FIELDS = [''username'', ''email'', ''fullname'', ''groups'']"

text \<open>The attributes that a row gives to a field: those of the form, and those of the older format.\<close>

definition mapping_row ::
    "string \<Rightarrow> string list \<Rightarrow> string \<times> json \<Rightarrow> string list \<times> string list \<Rightarrow> string list \<times> string list" where
  "mapping_row field available = (\<lambda>(key, v) (form, legacy).
     (case v of
        JStr val \<Rightarrow>
          let key = py_strip key; val = py_strip val;
              key_is_field = (key \<in> set MAPPING_FIELDS); val_is_field = (val \<in> set MAPPING_FIELDS);
              as_form = (if key_is_field \<and> val_is_field
                         then ''groups'' \<in> {key, val} \<or> (key \<in> set available \<and> val \<notin> set available)
                         else val_is_field)
          in if key = [] \<or> val = [] \<or> (\<not> key_is_field \<and> \<not> val_is_field) then (form, legacy)
             else if as_form \<and> val = field then (append_new form key, legacy)
             else if \<not> as_form \<and> key = field then (form, append_new legacy val)
             else (form, legacy)
      | _ \<Rightarrow> (form, legacy)))"

definition mapped_attributes :: "json \<Rightarrow> string \<Rightarrow> string list \<Rightarrow> string list" where
  "mapped_attributes mapping field available =
     (case mapping of
        JDict kvs \<Rightarrow> (case fold (mapping_row field available) kvs ([], []) of (form, legacy) \<Rightarrow> if form \<noteq> [] then form else legacy)
      | _ \<Rightarrow> [])"

definition mapped_attribute :: "json \<Rightarrow> string \<Rightarrow> string \<Rightarrow> string list \<Rightarrow> string" where
  "mapped_attribute mapping field dflt available =
     (case mapped_attributes mapping field available of [] \<Rightarrow> dflt | name # _ \<Rightarrow> name)"

record identity =
  id_username :: string
  id_email :: string
  id_fullname :: string

definition oidc_field :: "json \<Rightarrow> (string \<times> json) list \<Rightarrow> string \<Rightarrow> string \<Rightarrow> string" where
  "oidc_field mapping info field dflt =
     (case map_of info (mapped_attribute mapping field dflt (map fst info)) of Some (JStr s) \<Rightarrow> s | _ \<Rightarrow> [])"

text \<open>\<open>None\<close> where an e-mail address that is no text raises.\<close>

definition oidc_identity :: "json \<Rightarrow> (string \<times> json) list \<Rightarrow> identity option" where
  "oidc_identity mapping info =
     (let name = oidc_field mapping info ''username'' ''preferred_username'';
          found = \<lparr>id_username = name, id_email = oidc_field mapping info ''email'' ''email'',
                   id_fullname = oidc_field mapping info ''fullname'' ''name''\<rparr>
      in if name \<noteq> [] then Some found
         else (case map_of info ''email'' of
                 None \<Rightarrow> Some found
               | Some v \<Rightarrow> if \<not> json_truthy v then Some found
                           else (case v of JStr e \<Rightarrow> Some (found\<lparr>id_username := before_sep CHR ''@'' e\<rparr>) | _ \<Rightarrow> None)))"

type_synonym saml_attributes = "(string \<times> json list) list"

definition saml_field :: "json \<Rightarrow> saml_attributes \<Rightarrow> string \<Rightarrow> string \<Rightarrow> string" where
  "saml_field mapping attrs field dflt =
     (case map_of attrs (mapped_attribute mapping field dflt (map fst attrs)) of
        Some (JStr s # _) \<Rightarrow> py_strip s | _ \<Rightarrow> [])"

definition saml_identity :: "json \<Rightarrow> saml_attributes \<Rightarrow> string \<Rightarrow> identity" where
  "saml_identity mapping attrs name_id =
     (let name = saml_field mapping attrs ''username'' ''username''
      in \<lparr>id_username = (if name \<noteq> [] then name else py_strip name_id),
          id_email = saml_field mapping attrs ''email'' ''email'', id_fullname = saml_field mapping attrs ''fullname'' ''name''\<rparr>)"

definition SAML_GROUP_ATTRIBUTES :: "string list" where
  "SAML_GROUP_ATTRIBUTES = [''groups'', ''http://schemas.microsoft.com/ws/2008/06/identity/claims/groups'',
     ''http://schemas.microsoft.com/ws/2008/06/identity/claims/role'', ''http://schemas.xmlsoap.org/claims/Group'']"

definition group_values :: "sso_lib \<Rightarrow> json list \<Rightarrow> string list \<Rightarrow> string list" where
  "group_values lib values groups =
     fold (\<lambda>v groups. let g = (if v = JNull then [] else py_strip (json_str lib v)) in if g = [] then groups else append_new groups g)
       values groups"

definition extract_saml_groups :: "sso_lib \<Rightarrow> json \<Rightarrow> saml_attributes \<Rightarrow> string list" where
  "extract_saml_groups lib mapping attrs =
     (let configured = mapped_attributes mapping ''groups'' (map fst attrs)
      in fold (\<lambda>name groups. case map_of attrs name of None \<Rightarrow> groups | Some vs \<Rightarrow> group_values lib vs groups)
           (if configured \<noteq> [] then configured else SAML_GROUP_ATTRIBUTES) [])"

section \<open>Roles\<close>

fun ROLE_PRIVILEGE :: "string \<Rightarrow> nat" where
  "ROLE_PRIVILEGE r = (if r = ''admin'' then 3 else if r = ''operator'' then 2 else if r = ''auditor'' then 1 else 0)"

definition VALID_ROLES :: "string list" where
  "VALID_ROLES = [''admin'', ''operator'', ''auditor'', ''viewer'']"

definition find_custom_role :: "named_role list \<Rightarrow> json \<Rightarrow> named_role option" where
  "find_custom_role roles v =
     (case v of
        JStr name \<Rightarrow> if py_strip name = [] then None
                     else first_row (\<lambda>r. py_lower (nr_name r) = py_lower (py_strip name) \<and> \<not> nr_system r) roles
      | _ \<Rightarrow> None)"

definition json_or_none :: "json \<Rightarrow> json option" where
  "json_or_none v = (if json_truthy v then Some v else None)"

definition split_mapping_value :: "json \<Rightarrow> json option \<times> json option" where
  "split_mapping_value v =
     (case v of
        JDict kvs \<Rightarrow> (Option.bind (map_of kvs ''role'') json_or_none, Option.bind (map_of kvs ''custom_role'') json_or_none)
      | _ \<Rightarrow> (json_or_none v, None))"

text \<open>\<open>ext in external_roles\<close>; \<open>None\<close> where a value that is no container raises.\<close>

definition group_in :: "string \<Rightarrow> json \<Rightarrow> bool option" where
  "group_in ext v =
     (case v of
        JList xs \<Rightarrow> Some (JStr ext \<in> set xs)
      | JDict kvs \<Rightarrow> Some (ext \<in> fst ` set kvs)
      | JStr s \<Rightarrow> Some (ext = s)
      | _ \<Rightarrow> None)"

definition external_groups :: "(string \<times> json) list \<Rightarrow> json" where
  "external_groups data =
     (case map_of data ''roles'' of
        Some v \<Rightarrow> v
      | None \<Rightarrow> (case map_of data ''groups'' of Some v \<Rightarrow> v | None \<Rightarrow> JList []))"

definition base_role_of :: "json \<Rightarrow> string" where
  "base_role_of v = (case v of JStr r \<Rightarrow> if r \<in> set VALID_ROLES then r else ''viewer'' | _ \<Rightarrow> ''viewer'')"

text \<open>The base roles and the custom roles of the rows that match, in the order of the mapping.\<close>

fun matching_roles ::
    "named_role list \<Rightarrow> json \<Rightarrow> (string \<times> json) list \<Rightarrow> (string list \<times> named_role list) option" where
  "matching_roles roles groups [] = Some ([], [])"
| "matching_roles roles groups ((ext, v) # rows) =
     (case group_in ext groups of
        None \<Rightarrow> None
      | Some False \<Rightarrow> matching_roles roles groups rows
      | Some True \<Rightarrow>
          (case matching_roles roles groups rows of
             None \<Rightarrow> None
           | Some (bases, customs) \<Rightarrow>
               Some ((case fst (split_mapping_value v) of None \<Rightarrow> bases | Some b \<Rightarrow> base_role_of b # bases),
                     (case snd (split_mapping_value v) of
                        None \<Rightarrow> customs
                      | Some c \<Rightarrow> (case find_custom_role roles c of None \<Rightarrow> customs | Some r \<Rightarrow> r # customs)))))"

text \<open>\<open>max\<close> with a key: the first of the greatest.\<close>

fun most_privileged :: "string list \<Rightarrow> string option" where
  "most_privileged [] = None"
| "most_privileged (r # rs) =
     (case most_privileged rs of None \<Rightarrow> Some r | Some b \<Rightarrow> if ROLE_PRIVILEGE b \<le> ROLE_PRIVILEGE r then Some r else Some b)"

definition resolve_mapped_roles ::
    "sso_lib \<Rightarrow> named_role list \<Rightarrow> provider \<Rightarrow> (string \<times> json) list \<Rightarrow> (string option \<times> named_role option) option" where
  "resolve_mapped_roles lib roles p data =
     (case parse_json_field lib (pv_role_mapping p) of
        JDict rows \<Rightarrow>
          (case matching_roles roles (external_groups data) rows of
             None \<Rightarrow> None
           | Some (bases, customs) \<Rightarrow> Some (most_privileged bases, case customs of [] \<Rightarrow> None | r # _ \<Rightarrow> Some r))
      | _ \<Rightarrow> Some (None, None))"

definition resolve_role :: "provider \<Rightarrow> string option \<Rightarrow> string" where
  "resolve_role p mapped =
     (case mapped of
        Some r \<Rightarrow> r | None \<Rightarrow> if pv_default_role p \<in> set VALID_ROLES then pv_default_role p else ''viewer'')"

section \<open>The account of a login\<close>

definition extract_external_id :: "sso_lib \<Rightarrow> provider \<Rightarrow> (string \<times> json) list \<Rightarrow> string option" where
  "extract_external_id lib p data =
     (let get = (\<lambda>key. case map_of data key of None \<Rightarrow> JNull | Some v \<Rightarrow> v);
          kind = py_lower (pr_type p);
          v = (if kind = ''oauth2'' then get ''sub''
               else if kind = ''saml''
               then (if substring ''transient'' (py_lower (case map_of data ''name_id_format'' of None \<Rightarrow> [] | Some f \<Rightarrow> json_str lib f)) then JNull else get ''name_id'')
               else if json_truthy (get ''uid'') then get ''uid''
               else if json_truthy (get ''ldap_uid'') then get ''ldap_uid'' else get ''dn'');
          t = (if json_truthy v then py_strip (json_str lib v) else [])
      in if t = [] then None else Some t)"

definition linked_account :: "account \<Rightarrow> bool" where
  "linked_account a \<longleftrightarrow> \<not> local_source a"

definition match_by_id :: "provider \<Rightarrow> string option \<Rightarrow> site \<Rightarrow> account option" where
  "match_by_id p ext st =
     (case ext of
        None \<Rightarrow> None
      | Some e \<Rightarrow> first_row (\<lambda>a. acc_sso_provider_id a = Some (pr_id p) \<and> acc_sso_external_id a = Some e) (si_accounts st))"

definition match_by_email :: "provider \<Rightarrow> string \<Rightarrow> site \<Rightarrow> account option" where
  "match_by_email p email st =
     (if email = [] then None
      else let owners = filter (\<lambda>a. py_lower (acc_email a) = py_lower (py_strip email)) (si_accounts st)
           in (case first_row (\<lambda>a. acc_sso_provider_id a = Some (pr_id p) \<and> linked_account a) owners of
                 Some a \<Rightarrow> Some a | None \<Rightarrow> first_row linked_account owners))"

definition match_account :: "provider \<Rightarrow> string option \<Rightarrow> identity \<Rightarrow> site \<Rightarrow> account option" where
  "match_account p ext who st =
     (case match_by_id p ext st of
        Some a \<Rightarrow> Some a
      | None \<Rightarrow> (case find_username (id_username who) st of
                   Some a \<Rightarrow> Some a | None \<Rightarrow> match_by_email p (id_email who) st))"

definition bind_external_id :: "provider \<Rightarrow> string option \<Rightarrow> site \<Rightarrow> account \<Rightarrow> account" where
  "bind_external_id p ext st a =
     (case ext of
        None \<Rightarrow> a
      | Some e \<Rightarrow>
          if acc_sso_external_id a = Some e then a
          else if \<exists>x \<in> set (si_accounts st). acc_sso_provider_id x = Some (pr_id p) \<and> acc_sso_external_id x = Some e \<and> u_id x \<noteq> u_id a
          then a else a\<lparr>acc_sso_external_id := Some e\<rparr>)"

definition link_provider :: "provider \<Rightarrow> account \<Rightarrow> account" where
  "link_provider p a =
     a\<lparr>u_auth_source := pr_type p, acc_sso_provider_id := Some (pr_id p), u_sso_provider := Some (sso_provider.truncate p)\<rparr>"

definition sync_source :: "provider \<Rightarrow> account \<Rightarrow> account" where
  "sync_source p a =
     (if local_source a \<and> acc_password_hash a = SSO_NO_PASSWORD then link_provider p a
      else if acc_sso_provider_id a \<noteq> Some (pr_id p) \<and> u_auth_source a \<noteq> ''local'' then link_provider p a else a)"

definition sync_email :: "provider \<Rightarrow> identity \<Rightarrow> account \<Rightarrow> account" where
  "sync_email p who a = (if pv_auto_update p \<and> id_email who \<noteq> [] then a\<lparr>acc_email := id_email who\<rparr> else a)"

text \<open>A custom role set by hand is neither replaced nor removed.\<close>

definition sync_roles :: "string option \<times> named_role option \<Rightarrow> account \<Rightarrow> account" where
  "sync_roles mapped a =
     (let a = (case fst mapped of None \<Rightarrow> a | Some r \<Rightarrow> a\<lparr>u_role := r\<rparr>);
          by_hand = (u_custom_role_id a \<noteq> None \<and> acc_custom_role_source a \<noteq> Some ''sso'')
      in (case snd mapped of
            Some r \<Rightarrow>
              if \<not> by_hand then a\<lparr>u_custom_role_id := Some (cr_id r), acc_custom_role_source := Some ''sso''\<rparr>
              else if acc_custom_role_source a = Some ''sso'' then a\<lparr>u_custom_role_id := None, acc_custom_role_source := None\<rparr> else a
          | None \<Rightarrow>
              if acc_custom_role_source a = Some ''sso'' then a\<lparr>u_custom_role_id := None, acc_custom_role_source := None\<rparr> else a))"

text \<open>
  \<open>None\<close> is an exception. \<open>Some None\<close> is a login that no account belongs to, where none is created. The
  changes of an existing account are lost, and the login goes on, when they cannot be stored.
\<close>

definition sync_account :: "sso_lib \<Rightarrow> route_env \<Rightarrow> named_role list \<Rightarrow> provider \<Rightarrow> identity \<Rightarrow> string option \<Rightarrow> (string \<times> json) list \<Rightarrow> account \<Rightarrow> site \<Rightarrow> (account \<times> site) option" where
  "sync_account lib env roles p who ext data a st =
     (let a1 = sync_email p who (bind_external_id p ext st (sync_source p a));
          stored = (\<lambda>a. if re_commit env then Some (a, put_account a st) else None)
      in (case (if pv_sync_role p then resolve_mapped_roles lib roles p data else Some (None, None)) of
            None \<Rightarrow> None
          | Some mapped \<Rightarrow>
              let a2 = (if pv_sync_role p then sync_roles mapped a1 else a1)\<lparr>acc_last_login := Some (re_now env)\<rparr>
              in Some (case stored a2 of Some r \<Rightarrow> r | None \<Rightarrow> (a, st))))"

definition new_sso_account :: "route_env \<Rightarrow> provider \<Rightarrow> identity \<Rightarrow> string option \<Rightarrow> string option \<times> named_role option \<Rightarrow> site \<Rightarrow> account" where
  "new_sso_account env p who ext mapped st =
     (let a = link_provider p
                (blank_account (new_account_id st) (id_username who)
                   (if id_email who = [] then id_username who @ ''@sso.local'' else id_email who) (resolve_role p (fst mapped)) None True);
          a = a\<lparr>acc_password_hash := SSO_NO_PASSWORD, acc_sso_external_id := ext, acc_last_login := Some (re_now env)\<rparr>
      in (case snd mapped of
            None \<Rightarrow> a | Some r \<Rightarrow> a\<lparr>u_custom_role_id := Some (cr_id r), acc_custom_role_source := Some ''sso''\<rparr>))"

definition get_or_create_sso_user ::
    "sso_lib \<Rightarrow> route_env \<Rightarrow> named_role list \<Rightarrow> provider \<Rightarrow> identity \<Rightarrow> (string \<times> json) list \<Rightarrow> site \<Rightarrow> (account option \<times> site) option" where
  "get_or_create_sso_user lib env roles p who data st =
     (let ext = extract_external_id lib p data
      in (case match_account p ext who st of
            Some a \<Rightarrow>
              if \<not> u_active a then Some (Some a, st)
              else map_option (\<lambda>(a', st'). (Some a', st')) (sync_account lib env roles p who ext data a st)
          | None \<Rightarrow>
              if \<not> pv_auto_create p then Some (None, st)
              else (case resolve_mapped_roles lib roles p data of
                      None \<Rightarrow> None
                    | Some mapped \<Rightarrow>
                        let a = new_sso_account env p who ext mapped st
                        in if re_commit env then Some (Some a, st\<lparr>si_accounts := si_accounts st @ [a]\<rparr>) else None)))"

section \<open>SAML message ids\<close>

definition REQUEST_TTL :: int where "REQUEST_TTL = minutes 10"
definition MAX_MESSAGE_ID_LENGTH :: nat where "MAX_MESSAGE_ID_LENGTH = 256"

definition purge_expired :: "datetime \<Rightarrow> message_row list \<Rightarrow> message_row list" where
  "purge_expired now ms = filter (\<lambda>m. \<not> mi_expires m < now) ms"

definition add_message :: "message_row \<Rightarrow> message_row list \<Rightarrow> message_row list option" where
  "add_message m ms = (if \<exists>x \<in> set ms. mi_kind x = mi_kind m \<and> mi_id x = mi_id m then None else Some (ms @ [m]))"

definition remember_request :: "datetime \<Rightarrow> string \<Rightarrow> int \<Rightarrow> message_row list \<Rightarrow> message_row list option" where
  "remember_request now rid pid ms =
     add_message \<lparr>mi_kind = Saml_Request, mi_id = rid, mi_provider = pid, mi_expires = now + REQUEST_TTL\<rparr> (purge_expired now ms)"

definition pending_row :: "datetime \<Rightarrow> string \<Rightarrow> int \<Rightarrow> message_row \<Rightarrow> bool" where
  "pending_row now rid pid m \<longleftrightarrow> mi_kind m = Saml_Request \<and> mi_id m = rid \<and> mi_provider m = pid \<and> now \<le> mi_expires m"

definition request_pending :: "datetime \<Rightarrow> string \<Rightarrow> int \<Rightarrow> message_row list \<Rightarrow> bool" where
  "request_pending now rid pid ms \<longleftrightarrow>
     rid \<noteq> [] \<and> length rid \<le> MAX_MESSAGE_ID_LENGTH \<and> list_ex (pending_row now rid pid) ms"

definition take_request :: "datetime \<Rightarrow> string \<Rightarrow> int \<Rightarrow> message_row list \<Rightarrow> bool \<times> message_row list" where
  "take_request now rid pid ms =
     (if rid = [] \<or> MAX_MESSAGE_ID_LENGTH < length rid then (False, ms)
      else (count_rows (pending_row now rid pid) ms = 1, filter (\<lambda>m. \<not> pending_row now rid pid m) ms))"

definition consume_assertion :: "int \<Rightarrow> datetime \<Rightarrow> string \<Rightarrow> int \<Rightarrow> datetime \<Rightarrow> message_row list \<Rightarrow> bool \<times> message_row list" where
  "consume_assertion drift now aid pid not_on_or_after ms =
     (if aid = [] \<or> MAX_MESSAGE_ID_LENGTH < length aid then (False, ms)
      else (case add_message \<lparr>mi_kind = Saml_Assertion, mi_id = aid, mi_provider = pid, mi_expires = not_on_or_after + drift\<rparr>
                   (purge_expired now ms) of
              None \<Rightarrow> (False, ms) | Some ms' \<Rightarrow> (True, ms')))"

section \<open>Sign-in\<close>

datatype sso_answer = Sso_Signed_In | Sso_Refused

record sso_session = login_session +
  lx_state :: string
  lx_nonce :: "string option"
  lx_pkce_verifier :: "string option"

definition fresh_session :: sso_session where
  "fresh_session = login_session.extend empty_login \<lparr>lx_state = [], lx_nonce = None, lx_pkce_verifier = None\<rparr>"

definition sso_full_session :: "datetime \<Rightarrow> provider \<Rightarrow> string \<Rightarrow> site \<Rightarrow> account \<Rightarrow> sso_session" where
  "sso_full_session now p auth_method st a =
     (login_session.extend (full_session now (u_id a) auth_method) \<lparr>lx_state = [], lx_nonce = None, lx_pkce_verifier = None\<rparr>)
       \<lparr>s_must_enroll_2fa := must_enroll_2fa (db_of st) (user.truncate a) ''sso'' (Some (sso_provider.truncate p))\<rparr>"

text \<open>From an identity that the directory vouches for to the session.\<close>

definition finish_sso ::
    "sso_lib \<Rightarrow> route_env \<Rightarrow> provider \<Rightarrow> string \<Rightarrow> identity \<Rightarrow> (string \<times> json) list \<Rightarrow> sso_site \<times> sso_session \<Rightarrow>
     sso_answer \<times> sso_site \<times> sso_session" where
  "finish_sso lib env p auth_method who data = (\<lambda>(sv, ses).
     (case get_or_create_sso_user lib env (ss_roles sv) p who data (sv_site sv) of
        None \<Rightarrow> (Sso_Refused, sv, ses)
      | Some (None, st') \<Rightarrow> (Sso_Refused, set_site sv st', ses)
      | Some (Some a, st') \<Rightarrow>
          if \<not> u_active a \<or> \<not> re_commit env then (Sso_Refused, set_site sv st', ses)
          else (Sso_Signed_In, set_site sv st', sso_full_session (re_now env) p auth_method st' a)))"

definition enabled_provider :: "string \<Rightarrow> sso_site \<Rightarrow> provider option" where
  "enabled_provider kind sv = first_row (\<lambda>p. pr_type p = kind \<and> pv_enabled p) (ss_providers sv)"

record saml_response =
  sm_in_response_to :: "string option"
  sm_not_on_or_after :: "datetime option"
  sm_assertion_id :: string
  sm_name_id :: string
  sm_name_id_format :: string
  sm_attributes :: saml_attributes

definition saml_data :: "sso_lib \<Rightarrow> json \<Rightarrow> saml_response \<Rightarrow> (string \<times> json) list" where
  "saml_data lib mapping r =
     [(''name_id'', JStr (sm_name_id r)), (''name_id_format'', JStr (sm_name_id_format r)),
      (''groups'', JList (map JStr (extract_saml_groups lib mapping (sm_attributes r))))]"

text \<open>\<open>sm_not_on_or_after\<close> is \<open>None\<close> where the time is missing or zero.\<close>

text \<open>The request that the response answers is used up; an unsolicited one must be allowed.\<close>

definition use_request ::
    "datetime \<Rightarrow> provider \<Rightarrow> string option \<Rightarrow> saml_response \<Rightarrow> message_row list \<Rightarrow> bool \<times> message_row list" where
  "use_request now p rid r ms =
     (case sm_in_response_to r of
        None \<Rightarrow> (pv_allow_idp_initiated p, ms)
      | Some _ \<Rightarrow> (case rid of None \<Rightarrow> (False, ms) | Some i \<Rightarrow> take_request now i (pr_id p) ms))"

definition saml_callback ::
    "sso_lib \<Rightarrow> route_env \<Rightarrow> string \<Rightarrow> (string option \<Rightarrow> saml_response option) \<Rightarrow> sso_site \<times> sso_session \<Rightarrow>
     sso_answer \<times> sso_site \<times> sso_session" where
  "saml_callback lib env cookie saml = (\<lambda>(sv, ses).
     (case enabled_provider ''saml'' sv of
        None \<Rightarrow> (Sso_Refused, sv, ses)
      | Some p \<Rightarrow>
          let rid = (if cookie = [] then None else Some cookie); now = re_now env
          in if (case rid of None \<Rightarrow> False | Some i \<Rightarrow> \<not> request_pending now i (pr_id p) (ss_messages sv)) then (Sso_Refused, sv, ses)
             else (case saml rid of
                     None \<Rightarrow> (Sso_Refused, sv, ses)
                   | Some r \<Rightarrow>
                       if \<not> re_commit env then (Sso_Refused, sv, ses)
                       else (case use_request now p rid r (ss_messages sv) of
                               (False, ms) \<Rightarrow> (Sso_Refused, sv\<lparr>ss_messages := ms\<rparr>, ses)
                             | (True, ms) \<Rightarrow>
                                 (case sm_not_on_or_after r of
                                    None \<Rightarrow> (Sso_Refused, sv\<lparr>ss_messages := ms\<rparr>, ses)
                                  | Some t \<Rightarrow>
                                      (case consume_assertion (sl_drift lib) now (sm_assertion_id r) (pr_id p) t ms of
                                         (False, ms') \<Rightarrow> (Sso_Refused, sv\<lparr>ss_messages := ms'\<rparr>, ses)
                                       | (True, ms') \<Rightarrow>
                                           let mapping = parse_json_field lib (pv_attribute_mapping p);
                                               who = saml_identity mapping (sm_attributes r) (sm_name_id r)
                                           in if id_username who = [] then (Sso_Refused, sv\<lparr>ss_messages := ms'\<rparr>, ses)
                                              else finish_sso lib env p ''sso'' who (saml_data lib mapping r)
                                                     (sv\<lparr>ss_messages := ms'\<rparr>, ses)))))))"

text \<open>
  The OIDC callback. \<open>exchange code verifier\<close> is what the token endpoint answers, \<open>verify_id_token\<close> the claims of
  an ID token it accepts, \<open>userinfo\<close> what the user info endpoint answers for the access token; \<open>None\<close> when the URL is
  refused, the request fails or the token is rejected. The verifier and the nonce are taken from the session.
\<close>

record oidc_provider =
  op_exchange :: "string \<Rightarrow> string option \<Rightarrow> (string \<times> json) list option"
  op_verify_id_token :: "json \<Rightarrow> string option \<Rightarrow> bool \<Rightarrow> (string \<times> json) list option"
  op_userinfo :: "json \<Rightarrow> (string \<times> json) list option"

definition dict_get :: "(string \<times> json) list \<Rightarrow> string \<Rightarrow> json" where
  "dict_get kvs k = (case map_of kvs k of None \<Rightarrow> JNull | Some v \<Rightarrow> v)"

definition oidc_claims :: "oidc_provider \<Rightarrow> bool \<Rightarrow> string option \<Rightarrow> json \<Rightarrow> (string \<times> json) list option option" where
  "oidc_claims op verify nonce id_token =
     (if verify \<and> (\<not> json_truthy id_token \<or> nonce = None \<or> nonce = Some []) then None
      else if json_truthy id_token then map_option Some (op_verify_id_token op id_token nonce verify)
      else Some None)"

definition oidc_exchange :: "oidc_provider \<Rightarrow> bool \<Rightarrow> string \<Rightarrow> string option \<Rightarrow> string option \<Rightarrow> (string \<times> json) list option" where
  "oidc_exchange op verify code verifier nonce =
     (case op_exchange op code verifier of
        None \<Rightarrow> None
      | Some tokens \<Rightarrow>
          if \<not> json_truthy (dict_get tokens ''access_token'') then None
          else (case oidc_claims op verify nonce (dict_get tokens ''id_token'') of
                  None \<Rightarrow> None
                | Some claims \<Rightarrow>
                    (case op_userinfo op (dict_get tokens ''access_token'') of
                       None \<Rightarrow> None
                     | Some info \<Rightarrow>
                         (case claims of
                            Some cs \<Rightarrow> if verify \<and> dict_get info ''sub'' \<noteq> dict_get cs ''sub'' then None else Some info
                          | None \<Rightarrow> Some info))))"

definition oidc_callback ::
    "sso_lib \<Rightarrow> route_env \<Rightarrow> oidc_provider \<Rightarrow> string \<Rightarrow> string \<Rightarrow> sso_site \<times> sso_session \<Rightarrow> sso_answer \<times> sso_site \<times> sso_session" where
  "oidc_callback lib env op state code = (\<lambda>(sv, ses).
     (case enabled_provider ''oauth2'' sv of
        None \<Rightarrow> (Sso_Refused, sv, ses)
      | Some p \<Rightarrow>
          if state = [] \<or> state \<noteq> lx_state ses then (Sso_Refused, sv, ses)
          else if code = [] then (Sso_Refused, sv, ses)
          else let ses' = ses\<lparr>lx_pkce_verifier := None, lx_nonce := None\<rparr>
               in (case oidc_exchange op (pv_id_token_verify p) code (lx_pkce_verifier ses) (lx_nonce ses) of
                     None \<Rightarrow> (Sso_Refused, sv, ses')
                   | Some info \<Rightarrow>
                       (case oidc_identity (parse_json_field lib (pv_attribute_mapping p)) info of
                          None \<Rightarrow> (Sso_Refused, sv, ses')
                        | Some who \<Rightarrow> if id_username who = [] then (Sso_Refused, sv, ses')
                                      else finish_sso lib env p ''sso'' who info (sv, ses')))))"

definition initiate_sso_login ::
    "route_env \<Rightarrow> string \<Rightarrow> string \<Rightarrow> string \<Rightarrow> string \<Rightarrow> string \<Rightarrow> sso_site \<times> sso_session \<Rightarrow> sso_site \<times> sso_session" where
  "initiate_sso_login env kind state nonce verifier rid = (\<lambda>(sv, ses).
     (if kind \<notin> {''saml'', ''oauth2''} then (sv, ses)
      else (case enabled_provider kind sv of
              None \<Rightarrow> (sv, ses)
            | Some p \<Rightarrow>
                let ses = ses\<lparr>lx_state := state\<rparr>
                in if kind = ''oauth2'' then (sv, ses\<lparr>lx_pkce_verifier := Some verifier, lx_nonce := Some nonce\<rparr>)
                   else if pv_saml_sso_url p = [] \<or> \<not> re_commit env then (sv, ses)
                   else (case remember_request (re_now env) rid (pr_id p) (ss_messages sv) of
                           None \<Rightarrow> (sv, ses) | Some ms \<Rightarrow> (sv\<lparr>ss_messages := ms\<rparr>, ses)))))"

datatype ldap_outcome = Ldap_Entry "(string \<times> json) list" | Ldap_Disabled | Ldap_Group_Denied | Ldap_Wrong

definition ldap_text :: "(string \<times> json) list \<Rightarrow> string \<Rightarrow> string" where
  "ldap_text entry key = (case map_of entry key of Some (JStr s) \<Rightarrow> s | _ \<Rightarrow> [])"

definition ldap_login ::
    "sso_lib \<Rightarrow> route_env \<Rightarrow> string \<Rightarrow> string \<Rightarrow> int \<Rightarrow> (provider \<Rightarrow> string \<Rightarrow> string \<Rightarrow> ldap_outcome) \<Rightarrow>
     sso_site \<times> sso_session \<Rightarrow> sso_answer \<times> sso_site \<times> sso_session" where
  "ldap_login lib env username password pid bind = (\<lambda>(sv, ses).
     (let name = take 255 (py_strip username); pw = take 4096 password
      in if username = [] \<or> password = [] \<or> name = [] then (Sso_Refused, sv, ses)
         else (case check_ldap_lockout env name (sv_site sv) of
                 (True, st) \<Rightarrow> (Sso_Refused, set_site sv st, ses)
               | (False, st) \<Rightarrow>
                   let sv = set_site sv st
                   in (case (if pid \<noteq> 0 then first_row (\<lambda>p. pr_id p = pid) (ss_providers sv) else enabled_provider ''ldap'' sv) of
                         None \<Rightarrow> (Sso_Refused, sv, ses)
                       | Some p \<Rightarrow>
                           if \<not> pv_enabled p then (Sso_Refused, sv, ses)
                           else (case bind p name pw of
                                   Ldap_Disabled \<Rightarrow> (Sso_Refused, sv, ses)
                                 | Ldap_Group_Denied \<Rightarrow> (Sso_Refused, sv, ses)
                                 | Ldap_Wrong \<Rightarrow> (Sso_Refused, set_site sv (record_ldap_failed_attempt env name st), ses)
                                 | Ldap_Entry entry \<Rightarrow>
                                     (case finish_sso lib env p ''ldap''
                                             \<lparr>id_username = ldap_text entry ''username'', id_email = ldap_text entry ''email'',
                                              id_fullname = ldap_text entry ''fullname''\<rparr> entry (sv, ses) of
                                        (Sso_Signed_In, sv', ses') \<Rightarrow>
                                          (Sso_Signed_In, set_site sv' (clear_ldap_failed_attempts env name (sv_site sv')), ses')
                                      | (Sso_Refused, sv', ses') \<Rightarrow> (Sso_Refused, sv', ses')))))))"

end
