(* ===== verification/Sso_Safety.thy ===== *)
theory Sso_Safety
  imports Sso Factor_Safety
begin

text \<open>
  What single sign-on guarantees: an assertion signs in at most once; a role comes from the mapping of the
  groups or, for a new account, from the provider's default; and a login opens only an active account
  that its identity belongs to.
\<close>

section \<open>Assertions\<close>

text \<open>
  Requests of any browsers to the SAML routes, each with its session, and the moment of the latest one.
  \<open>Elsewhere\<close> is anything else: no other code changes the table of message ids.
\<close>

datatype saml_op =
    Saml_Start route_env string string string string string sso_session
  | Saml_Finish sso_lib route_env string "string option \<Rightarrow> saml_response option" sso_session
  | Elsewhere route_env sso_site

fun saml_moment :: "saml_op \<Rightarrow> datetime" where
  "saml_moment (Saml_Start env _ _ _ _ _ _) = re_now env"
| "saml_moment (Saml_Finish _ env _ _ _) = re_now env"
| "saml_moment (Elsewhere env _) = re_now env"

fun saml_step :: "saml_op \<Rightarrow> datetime \<times> sso_site \<Rightarrow> datetime \<times> sso_site" where
  "saml_step (Saml_Start env kind state nonce verifier rid ses) (clock, sv) = (re_now env, fst (initiate_sso_login env kind state nonce verifier rid (sv, ses)))"
| "saml_step (Saml_Finish lib env cookie saml ses) (clock, sv) = (re_now env, fst (snd (saml_callback lib env cookie saml (sv, ses))))"
| "saml_step (Elsewhere env sv') (clock, sv) = (re_now env, sv'\<lparr>ss_messages := ss_messages sv\<rparr>)"

text \<open>The assertion with this id and end of validity has signed someone in.\<close>

fun assertion_won :: "string \<times> datetime \<Rightarrow> saml_op \<Rightarrow> datetime \<times> sso_site \<Rightarrow> bool" where
  "assertion_won (aid, t) (Saml_Finish lib env cookie saml ses) (clock, sv) =
     (fst (saml_callback lib env cookie saml (sv, ses)) = Sso_Signed_In
      \<and> (case saml (if cookie = [] then None else Some cookie) of
            None \<Rightarrow> False | Some r \<Rightarrow> sm_assertion_id r = aid \<and> sm_not_on_or_after r = Some t))"
| "assertion_won _ _ _ = False"

text \<open>
  The clock does not run backwards, and the library accepts no response after the end of its validity and
  the drift it allows.
\<close>

fun saml_allowed :: "int \<Rightarrow> saml_op \<Rightarrow> datetime \<times> sso_site \<Rightarrow> bool" where
  "saml_allowed drift (Saml_Finish lib env cookie saml ses) (clock, sv) =
     (clock \<le> re_now env \<and> sl_drift lib = drift
      \<and> (case saml (if cookie = [] then None else Some cookie) of
            None \<Rightarrow> True
          | Some r \<Rightarrow> (case sm_not_on_or_after r of None \<Rightarrow> True | Some t \<Rightarrow> re_now env < t + drift)))"
| "saml_allowed drift op (clock, sv) = (clock \<le> saml_moment op)"

definition spent_row :: "int \<Rightarrow> string \<times> datetime \<Rightarrow> message_row \<Rightarrow> bool" where
  "spent_row drift k m \<longleftrightarrow> mi_kind m = Saml_Assertion \<and> mi_id m = fst k \<and> mi_expires m = snd k + drift"

fun assertion_left :: "int \<Rightarrow> string \<times> datetime \<Rightarrow> datetime \<times> sso_site \<Rightarrow> nat" where
  "assertion_left drift k (clock, sv) =
     (if list_ex (spent_row drift k) (ss_messages sv) \<or> snd k + drift < clock then 0 else 1)"

lemma purge_spent: "list_ex (spent_row drift k) ms \<Longrightarrow> now \<le> snd k + drift \<Longrightarrow> list_ex (spent_row drift k) (purge_expired now ms)"
  by (auto simp: list_ex_iff purge_expired_def spent_row_def)

lemma add_message_SomeD: "add_message m ms = Some ms' \<Longrightarrow> ms' = ms @ [m] \<and> \<not> list_ex (\<lambda>x. mi_kind x = mi_kind m \<and> mi_id x = mi_id m) ms"
  by (auto simp: add_message_def list_ex_iff split: if_splits)

lemma take_request_spent: "list_ex (spent_row drift k) (snd (take_request now rid pid ms)) = list_ex (spent_row drift k) ms"
  by (auto simp: take_request_def list_ex_iff spent_row_def pending_row_def)

lemma use_request_spent: "list_ex (spent_row drift k) (snd (use_request now p rid r ms)) = list_ex (spent_row drift k) ms"
  by (auto simp: use_request_def take_request_spent split: option.split)

lemma consume_keeps_spent:
  "list_ex (spent_row drift k) ms \<Longrightarrow> now \<le> snd k + drift \<Longrightarrow> list_ex (spent_row drift k) (snd (consume_assertion drift' now aid pid t ms))"
  by (auto simp: consume_assertion_def purge_spent split: option.split dest!: add_message_SomeD)

lemma consume_spends:
  assumes "consume_assertion drift now aid pid t ms = (True, ms')" "now \<le> t + drift"
  shows "list_ex (spent_row drift (aid, t)) ms' \<and> \<not> list_ex (spent_row drift (aid, t)) ms"
proof -
  obtain m where m: "m = \<lparr>mi_kind = Saml_Assertion, mi_id = aid, mi_provider = pid, mi_expires = t + drift\<rparr>"
    "add_message m (purge_expired now ms) = Some ms'"
    using assms(1) by (auto simp: consume_assertion_def split: if_splits option.splits)
  then have "ms' = purge_expired now ms @ [m]" "\<not> list_ex (\<lambda>x. mi_kind x = Saml_Assertion \<and> mi_id x = aid) (purge_expired now ms)"
    using add_message_SomeD [OF m(2)] by auto
  moreover from this(2) have "\<not> list_ex (spent_row drift (aid, t)) ms"
    using purge_spent [of drift "(aid, t)" ms now] assms(2) by (auto simp: list_ex_iff spent_row_def)
  ultimately show ?thesis using m(1) by (simp add: spent_row_def)
qed

lemma finish_sso_messages: "ss_messages (fst (snd (finish_sso lib env p m who data (sv, ses)))) = ss_messages sv"
  by (auto simp: finish_sso_def set_site_def split: option.split)

lemma initiate_keeps_spent:
  assumes "list_ex (spent_row drift k) (ss_messages sv)" "re_now env \<le> snd k + drift"
  shows "list_ex (spent_row drift k) (ss_messages (fst (initiate_sso_login env kind state nonce verifier rid (sv, ses))))"
  using assms
  by (auto simp: initiate_sso_login_def Let_def remember_request_def purge_spent split: option.split dest!: add_message_SomeD)

text \<open>What the SAML callback does to the table, and what it had to find there to sign someone in.\<close>

lemma callback_keeps_spent:
  assumes "list_ex (spent_row drift k) (ss_messages sv)" "re_now env \<le> snd k + drift"
  shows "list_ex (spent_row drift k) (ss_messages (fst (snd (saml_callback lib env cookie saml (sv, ses)))))"
proof -
  have keep: "list_ex (spent_row drift k) ms'"
    if "use_request (re_now env) p rid r (ss_messages sv) = (b, ms)" "consume_assertion d (re_now env) aid pid t ms = (c, ms')"
    for p rid r b ms d aid pid t c ms'
    using consume_keeps_spent [of drift k ms "re_now env" d aid pid t] use_request_spent [of drift k "re_now env" p rid r "ss_messages sv"]
      that assms by simp
  moreover have "list_ex (spent_row drift k) ms" if "use_request (re_now env) p rid r (ss_messages sv) = (b, ms)" for p rid r b ms
    using use_request_spent [of drift k "re_now env" p rid r "ss_messages sv"] that assms by simp
  ultimately show ?thesis
    using assms(1) by (auto simp: saml_callback_def Let_def finish_sso_messages split: option.split bool.split prod.split)
qed

lemma signed_in_spends:
  assumes "saml_callback lib env cookie saml (sv, ses) = (Sso_Signed_In, sv', ses')"
    and "saml (if cookie = [] then None else Some cookie) = Some r" "sm_not_on_or_after r = Some t" "re_now env \<le> t + sl_drift lib"
  shows "list_ex (spent_row (sl_drift lib) (sm_assertion_id r, t)) (ss_messages sv')"
    and "\<not> list_ex (spent_row (sl_drift lib) (sm_assertion_id r, t)) (ss_messages sv)"
proof -
  let ?rid = "if cookie = [] then None else Some cookie"
  obtain p ms ms' who data where u: "use_request (re_now env) p ?rid r (ss_messages sv) = (True, ms)"
    and c: "consume_assertion (sl_drift lib) (re_now env) (sm_assertion_id r) (pr_id p) t ms = (True, ms')"
    and f: "finish_sso lib env p ''sso'' who data (sv\<lparr>ss_messages := ms'\<rparr>, ses) = (Sso_Signed_In, sv', ses')"
    using assms(1-3) by (auto simp: saml_callback_def Let_def split: option.splits bool.splits prod.splits if_splits)
  have "ss_messages sv' = ms'"
    using finish_sso_messages [of lib env p "''sso''" who data "sv\<lparr>ss_messages := ms'\<rparr>" ses] f by simp
  with consume_spends [OF c assms(4)] use_request_spent [of "sl_drift lib" "(sm_assertion_id r, t)" "re_now env" p ?rid r "ss_messages sv"] u
  show "list_ex (spent_row (sl_drift lib) (sm_assertion_id r, t)) (ss_messages sv')"
    "\<not> list_ex (spent_row (sl_drift lib) (sm_assertion_id r, t)) (ss_messages sv)" by simp_all
qed

lemma saml_keeps_spent:
  assumes "list_ex (spent_row drift k) (ss_messages sv)" "saml_moment op \<le> snd k + drift"
  shows "list_ex (spent_row drift k) (ss_messages (snd (saml_step op (clock, sv))))"
  using assms by (cases op) (simp_all add: initiate_keeps_spent callback_keeps_spent)

lemma saml_clock: "fst (saml_step op (clock, sv)) = saml_moment op"
  by (cases op) simp_all

lemma won_spends:
  assumes "assertion_won k op (clock, sv)" "saml_allowed drift op (clock, sv)"
  shows "list_ex (spent_row drift k) (ss_messages (snd (saml_step op (clock, sv))))"
    and "\<not> list_ex (spent_row drift k) (ss_messages sv)" "saml_moment op < snd k + drift"
proof -
  obtain lib env cookie saml ses where op: "op = Saml_Finish lib env cookie saml ses"
    using assms(1) by (cases op; cases k) auto
  obtain aid t where k: "k = (aid, t)" by (cases k)
  obtain ans sv' ses' where res: "saml_callback lib env cookie saml (sv, ses) = (ans, sv', ses')" by (metis prod_cases3)
  have "ans = Sso_Signed_In" using assms(1) res by (simp add: op k)
  moreover obtain r where r: "saml (if cookie = [] then None else Some cookie) = Some r" "sm_assertion_id r = aid" "sm_not_on_or_after r = Some t"
    using assms(1) by (auto simp: op k split: option.splits)
  moreover have t: "re_now env < t + drift" "sl_drift lib = drift"
    using assms(2) r by (simp_all add: op split: if_splits)
  ultimately show "list_ex (spent_row drift k) (ss_messages (snd (saml_step op (clock, sv))))"
    "\<not> list_ex (spent_row drift k) (ss_messages sv)" "saml_moment op < snd k + drift"
    using signed_in_spends [of lib env cookie saml sv ses sv' ses' r t] res by (simp_all add: op k)
qed

lemma saml_budget:
  assumes "saml_allowed drift op s"
  shows "assertion_left drift k (saml_step op s) + (if assertion_won k op s then 1 else 0) \<le> assertion_left drift k s + 0"
proof -
  obtain clock sv where s: "s = (clock, sv)" by (cases s)
  obtain clock' sv' where s': "saml_step op (clock, sv) = (clock', sv')" by (cases "saml_step op (clock, sv)")
  have "clock' = saml_moment op" using saml_clock [of op clock sv] s' by simp
  moreover have "clock \<le> saml_moment op" using assms by (cases op) (auto simp: s split: if_splits)
  ultimately show ?thesis
    using won_spends [of k op clock sv drift] saml_keeps_spent [of drift k sv op clock] assms by (auto simp: s s')
qed

interpretation saml_assertions: single_use saml_step assertion_won "saml_allowed drift" "\<lambda>_ _. 0" "assertion_left drift" for drift
  by unfold_locales (rule saml_budget)

text \<open>
  C19: Among any requests at any times, a SAML assertion signs in at most once: the table of message ids remembers
  it for as long as the library would accept it.
\<close>

theorem saml_assertion_once:
  assumes "all_allowed saml_step (saml_allowed drift) s ops"
  shows "wins saml_step assertion_won k s ops \<le> 1"
  using saml_assertions.wins_bounded [OF assms, of k] by (cases s) (auto split: if_splits)

section \<open>Roles\<close>

declare ROLE_PRIVILEGE.simps [simp del]

text \<open>The roles, and the custom roles, of the rows of the mapping that the login's groups match.\<close>

definition matching_values :: "sso_lib \<Rightarrow> provider \<Rightarrow> (string \<times> json) list \<Rightarrow> json list" where
  "matching_values lib p data =
     (case parse_json_field lib (pv_role_mapping p) of
        JDict rows \<Rightarrow> map snd (filter (\<lambda>(ext, v). group_in ext (external_groups data) = Some True) rows)
      | _ \<Rightarrow> [])"

definition given_roles :: "sso_lib \<Rightarrow> provider \<Rightarrow> (string \<times> json) list \<Rightarrow> string list" where
  "given_roles lib p data = map base_role_of (List.map_filter (\<lambda>v. fst (split_mapping_value v)) (matching_values lib p data))"

definition given_customs :: "sso_lib \<Rightarrow> named_role list \<Rightarrow> provider \<Rightarrow> (string \<times> json) list \<Rightarrow> named_role list" where
  "given_customs lib roles p data =
     List.map_filter (\<lambda>v. Option.bind (snd (split_mapping_value v)) (find_custom_role roles)) (matching_values lib p data)"

lemma matching_roles_SomeD:
  "matching_roles roles groups rows = Some (bases, customs)
   \<Longrightarrow> bases = map base_role_of (List.map_filter (\<lambda>v. fst (split_mapping_value v)) (map snd (filter (\<lambda>(ext, v). group_in ext groups = Some True) rows)))
     \<and> customs = List.map_filter (\<lambda>v. Option.bind (snd (split_mapping_value v)) (find_custom_role roles))
         (map snd (filter (\<lambda>(ext, v). group_in ext groups = Some True) rows))"
  by (induction roles groups rows arbitrary: bases customs rule: matching_roles.induct)
    (auto simp: List.map_filter_simps split: option.splits bool.splits Option.bind_splits)

lemma most_privileged_None: "most_privileged rs = None \<longleftrightarrow> rs = []"
  by (cases rs) (auto split: option.split)

lemma most_privileged_SomeD: "most_privileged rs = Some r \<Longrightarrow> r \<in> set rs \<and> (\<forall>x \<in> set rs. ROLE_PRIVILEGE x \<le> ROLE_PRIVILEGE r)"
proof (induction rs arbitrary: r)
  case (Cons x rs)
  show ?case
  proof (cases "most_privileged rs")
    case None
    then show ?thesis using Cons.prems by (simp add: most_privileged_None)
  next
    case (Some b)
    then show ?thesis using Cons.prems Cons.IH [OF Some] by (fastforce split: if_splits)
  qed
qed simp

lemma resolve_mapped_SomeD:
  assumes "resolve_mapped_roles lib roles p data = Some (base, custom)"
  shows "base = most_privileged (given_roles lib p data)"
    and "custom = (case given_customs lib roles p data of [] \<Rightarrow> None | r # _ \<Rightarrow> Some r)"
  using assms
  by (auto simp: resolve_mapped_roles_def given_roles_def given_customs_def matching_values_def List.map_filter_simps
      split: json.splits option.splits dest!: matching_roles_SomeD)

definition role_earned :: "sso_lib \<Rightarrow> named_role list \<Rightarrow> provider \<Rightarrow> (string \<times> json) list \<Rightarrow> site \<Rightarrow> account \<Rightarrow> bool" where
  "role_earned lib roles p data st a \<longleftrightarrow>
     ((\<exists>b \<in> set (si_accounts st). u_id b = u_id a \<and> u_role b = u_role a)
      \<or> (u_role a \<in> set (given_roles lib p data) \<and> (\<forall>r \<in> set (given_roles lib p data). ROLE_PRIVILEGE r \<le> ROLE_PRIVILEGE (u_role a)))
      \<or> (given_roles lib p data = [] \<and> pv_auto_create p \<and> u_id a \<notin> u_id ` set (si_accounts st) \<and> u_role a = resolve_role p None))
     \<and> (u_custom_role_id a = None
        \<or> (\<exists>b \<in> set (si_accounts st). u_id b = u_id a \<and> u_custom_role_id b = u_custom_role_id a)
        \<or> u_custom_role_id a \<in> (\<lambda>r. Some (cr_id r)) ` set (given_customs lib roles p data))"

lemma match_account_in: "match_account p ext who st = Some a \<Longrightarrow> a \<in> set (si_accounts st)"
  by (auto simp: match_account_def match_by_id_def match_by_email_def find_username_def Let_def
      dest!: first_row_SomeD split: option.splits if_splits)

lemma sync_steps_keep [simp]:
  "u_id (sync_source p a) = u_id a" "u_role (sync_source p a) = u_role a" "u_custom_role_id (sync_source p a) = u_custom_role_id a"
  "u_active (sync_source p a) = u_active a"
  "u_id (bind_external_id p ext st a) = u_id a" "u_role (bind_external_id p ext st a) = u_role a"
  "u_custom_role_id (bind_external_id p ext st a) = u_custom_role_id a" "u_active (bind_external_id p ext st a) = u_active a"
  "u_id (sync_email p who a) = u_id a" "u_role (sync_email p who a) = u_role a"
  "u_custom_role_id (sync_email p who a) = u_custom_role_id a" "u_active (sync_email p who a) = u_active a"
  by (simp_all add: sync_source_def link_provider_def bind_external_id_def sync_email_def split: option.split)

lemma sync_roles_keeps [simp]: "u_id (sync_roles mapped a) = u_id a" "u_active (sync_roles mapped a) = u_active a"
  by (simp_all add: sync_roles_def Let_def split: option.split)

lemma sync_roles_role: "u_role (sync_roles (base, custom) a) = (case base of None \<Rightarrow> u_role a | Some r \<Rightarrow> r)"
  by (simp add: sync_roles_def Let_def split: option.split)

lemma sync_roles_custom:
  "u_custom_role_id (sync_roles (base, custom) a) \<in> {None, u_custom_role_id a} \<union> (\<lambda>r. Some (cr_id r)) ` set_option custom"
  by (simp add: sync_roles_def Let_def split: option.split)

lemma put_account_in: "x \<in> set (si_accounts (put_account a st)) \<Longrightarrow> x = a \<or> x \<in> set (si_accounts st)"
  by (auto simp: put_account_def update_rows_def split: if_splits)

lemma earned_before: "a \<in> set (si_accounts st) \<Longrightarrow> role_earned lib roles p data st a"
  by (auto simp: role_earned_def)

lemma role_earnedI:
  assumes "b \<in> set (si_accounts st)" "u_id b = u_id a"
    and "u_role a = u_role b \<or> most_privileged (given_roles lib p data) = Some (u_role a)"
    and "u_custom_role_id a \<in> {None, u_custom_role_id b} \<union> (\<lambda>r. Some (cr_id r)) ` set (given_customs lib roles p data)"
  shows "role_earned lib roles p data st a"
  unfolding role_earned_def
proof (rule conjI)
  show "(\<exists>b \<in> set (si_accounts st). u_id b = u_id a \<and> u_role b = u_role a)
      \<or> (u_role a \<in> set (given_roles lib p data) \<and> (\<forall>r \<in> set (given_roles lib p data). ROLE_PRIVILEGE r \<le> ROLE_PRIVILEGE (u_role a)))
      \<or> (given_roles lib p data = [] \<and> pv_auto_create p \<and> u_id a \<notin> u_id ` set (si_accounts st) \<and> u_role a = resolve_role p None)"
    using assms(3)
  proof
    assume "u_role a = u_role b"
    with assms(1,2) show ?thesis by (intro disjI1 bexI [of _ b]) simp_all
  next
    assume "most_privileged (given_roles lib p data) = Some (u_role a)"
    from most_privileged_SomeD [OF this] show ?thesis by simp
  qed
  show "u_custom_role_id a = None
        \<or> (\<exists>b \<in> set (si_accounts st). u_id b = u_id a \<and> u_custom_role_id b = u_custom_role_id a)
        \<or> u_custom_role_id a \<in> (\<lambda>r. Some (cr_id r)) ` set (given_customs lib roles p data)"
    using assms(1,2,4) by (metis Un_iff empty_iff insert_iff)
qed

lemma first_custom_given: "set_option (case cs of [] \<Rightarrow> None | r # _ \<Rightarrow> Some r) \<subseteq> set cs"
  by (cases cs) auto

lemma synced_role_earned:
  assumes "resolve_mapped_roles lib roles p data = Some mapped" "a \<in> set (si_accounts st)"
    and "u_id a1 = u_id a" "u_role a1 = u_role a" "u_custom_role_id a1 = u_custom_role_id a"
  shows "role_earned lib roles p data st (sync_roles mapped a1)"
proof -
  obtain base custom where m: "mapped = (base, custom)" by (cases mapped)
  note given = resolve_mapped_SomeD [OF assms(1) [unfolded m]]
  have "u_custom_role_id (sync_roles mapped a1) \<in> {None, u_custom_role_id a} \<union> (\<lambda>r. Some (cr_id r)) ` set (given_customs lib roles p data)"
    using sync_roles_custom [of base custom a1] first_custom_given [of "given_customs lib roles p data"] assms(5)
    by (auto simp: m given(2))
  moreover have "u_role (sync_roles mapped a1) = u_role a
     \<or> most_privileged (given_roles lib p data) = Some (u_role (sync_roles mapped a1))"
    using assms(4) given(1) by (simp add: m sync_roles_role split: option.split)
  ultimately show ?thesis
    by (intro role_earnedI [OF assms(2)]) (simp_all add: assms(3))
qed

lemma role_earned_last_login [simp]: "role_earned lib roles p data st (a\<lparr>acc_last_login := t\<rparr>) = role_earned lib roles p data st a"
  by (simp add: role_earned_def)

lemma sync_account_earned:
  assumes "sync_account lib env roles p who ext data a st = Some (a', st')" "a \<in> set (si_accounts st)" "x \<in> set (si_accounts st')"
  shows "role_earned lib roles p data st x"
proof -
  let ?a1 = "sync_email p who (bind_external_id p ext st (sync_source p a))"
  have same: "role_earned lib roles p data st ?a1"
    using assms(2) by (auto simp: role_earned_def)
  have "role_earned lib roles p data st (sync_roles mapped ?a1)" if "resolve_mapped_roles lib roles p data = Some mapped" for mapped
    using that assms(2) by (rule synced_role_earned) simp_all
  with same assms(1,3) show ?thesis
    by (auto simp: sync_account_def Let_def earned_before split: option.splits if_splits dest!: put_account_in)
qed

lemma new_account_earned:
  assumes "resolve_mapped_roles lib roles p data = Some mapped" "pv_auto_create p"
  shows "role_earned lib roles p data st (new_sso_account env p who ext mapped st)"
proof -
  obtain base custom where m: "mapped = (base, custom)" by (cases mapped)
  note given = resolve_mapped_SomeD [OF assms(1) [unfolded m]]
  let ?a = "new_sso_account env p who ext mapped st"
  have "u_id ?a = new_account_id st" "u_role ?a = resolve_role p base"
    "u_custom_role_id ?a \<in> {None} \<union> (\<lambda>r. Some (cr_id r)) ` set_option custom"
    by (simp_all add: m new_sso_account_def Let_def link_provider_def blank_account_def split: option.split)
  then show ?thesis
    using new_account_id_fresh [of st] assms(2) given most_privileged_SomeD [of "given_roles lib p data"]
      most_privileged_None [of "given_roles lib p data"] first_custom_given [of "given_customs lib roles p data"]
    by (cases base) (auto simp: role_earned_def resolve_role_def)
qed

lemma get_or_create_earned:
  assumes "get_or_create_sso_user lib env roles p who data st = Some (res, st')" "x \<in> set (si_accounts st')"
  shows "role_earned lib roles p data st x"
  using assms
  by (auto simp: get_or_create_sso_user_def Let_def earned_before new_account_earned
      split: option.splits if_splits dest!: match_account_in intro: sync_account_earned)

text \<open>
  C20: Whatever a login by single sign-on leaves in the table of accounts, each role is the one the account had,
  or the most privileged one among the rows of the mapping that the login's groups match, or, for an account that
  the login creates and no row matches, the default of the provider. A custom role is the one the account had or one of
  those of the matching rows.
\<close>

theorem sso_roles_are_earned:
  assumes "a \<in> set (si_accounts (sv_site (fst (snd (finish_sso lib env p auth_method who data (sv, ses))))))"
  shows "role_earned lib (ss_roles sv) p data (sv_site sv) a"
  using assms
  by (auto simp: finish_sso_def set_site_def earned_before split: option.splits if_splits dest: get_or_create_earned)

section \<open>OIDC logins\<close>

text \<open>
  With verification of ID tokens switched on, the callback goes on only with an ID token that was accepted for the nonce
  of this session and whose subject is that of the user info.
\<close>

lemma verified_exchange:
  assumes "oidc_exchange op True code verifier nonce = Some info"
  obtains n token claims where "nonce = Some n" "n \<noteq> []" "op_verify_id_token op token (Some n) True = Some claims"
    "dict_get info ''sub'' = dict_get claims ''sub''"
  using assms that
  by (cases nonce) (auto simp: oidc_exchange_def oidc_claims_def split: option.splits if_splits)

text \<open>So a callback without a nonce is refused, and each callback that passes the check of the state takes the nonce
  along: a login is not completed twice from one start.\<close>

lemma oidc_nonce_taken:
  assumes "enabled_provider ''oauth2'' sv = Some p" "state = lx_state ses" "state \<noteq> []" "code \<noteq> []"
  shows "lx_nonce (snd (snd (oidc_callback lib env op state code (sv, ses)))) = None"
  using assms
  by (auto simp: oidc_callback_def finish_sso_def sso_full_session_def login_session.defs Let_def split: option.splits)

lemma oidc_needs_nonce:
  assumes "\<And>p. enabled_provider ''oauth2'' sv = Some p \<Longrightarrow> pv_id_token_verify p" "lx_nonce ses = None"
  shows "fst (oidc_callback lib env op state code (sv, ses)) = Sso_Refused"
proof -
  have "oidc_exchange op True code (lx_pkce_verifier ses) None = None"
    by (simp add: oidc_exchange_def oidc_claims_def split: option.split)
  then show ?thesis using assms by (auto simp: oidc_callback_def Let_def split: option.split)
qed

section \<open>Whose session\<close>

definition bound_to :: "provider \<Rightarrow> string option \<Rightarrow> account \<Rightarrow> bool" where
  "bound_to p ext a \<longleftrightarrow> ext \<noteq> None \<and> acc_sso_provider_id a = Some (pr_id p) \<and> acc_sso_external_id a = ext"

text \<open>
  The account bound to the directory's id; without one, the account of that name; without one, an account
  linked to a directory that has the e-mail address.
\<close>

definition owns_login :: "provider \<Rightarrow> string option \<Rightarrow> identity \<Rightarrow> site \<Rightarrow> account \<Rightarrow> bool" where
  "owns_login p ext who st a \<longleftrightarrow>
     bound_to p ext a
     \<or> (\<not> list_ex (bound_to p ext) (si_accounts st)
        \<and> (acc_username a = id_username who
            \<or> (\<not> list_ex (\<lambda>b. acc_username b = id_username who) (si_accounts st)
               \<and> linked_account a \<and> id_email who \<noteq> [] \<and> py_lower (acc_email a) = py_lower (py_strip (id_email who)))))"

lemma match_by_id_SomeD: "match_by_id p ext st = Some a \<Longrightarrow> bound_to p ext a"
  by (auto simp: match_by_id_def bound_to_def split: option.splits dest!: first_row_SomeD)

lemma match_by_id_NoneD: "match_by_id p ext st = None \<Longrightarrow> \<not> list_ex (bound_to p ext) (si_accounts st)"
  by (auto simp: match_by_id_def bound_to_def list_ex_iff first_row_None_iff split: option.splits)

lemma match_by_email_SomeD:
  "match_by_email p email st = Some a \<Longrightarrow> email \<noteq> [] \<and> linked_account a \<and> py_lower (acc_email a) = py_lower (py_strip email)"
  by (auto simp: match_by_email_def Let_def split: if_splits option.splits dest!: first_row_SomeD)

lemma match_by_email_NoneD:
  assumes "match_by_email p email st = None" "email \<noteq> []" "a \<in> set (si_accounts st)" "linked_account a"
  shows "py_lower (acc_email a) \<noteq> py_lower (py_strip email)"
  using assms by (auto simp: match_by_email_def Let_def first_row_None_iff split: option.splits)

lemma match_account_owns: "match_account p ext who st = Some a \<Longrightarrow> owns_login p ext who st a"
  by (auto simp: match_account_def owns_login_def find_username_def list_ex_iff first_row_None_iff
      split: option.splits dest: match_by_id_SomeD match_by_id_NoneD match_by_email_SomeD dest!: first_row_SomeD)

lemma match_account_None_owns:
  assumes "match_account p ext who st = None" "a \<in> set (si_accounts st)"
  shows "\<not> owns_login p ext who st a"
proof -
  have none: "match_by_id p ext st = None" "find_username (id_username who) st = None" "match_by_email p (id_email who) st = None"
    using assms(1) by (auto simp: match_account_def split: option.splits)
  then show ?thesis
    using match_by_id_NoneD [OF none(1)] match_by_email_NoneD [OF none(3) _ assms(2)] assms(2)
    by (auto simp: owns_login_def find_username_def list_ex_iff first_row_None_iff)
qed

lemma put_account_stored: "a \<in> set (si_accounts st) \<Longrightarrow> u_id a' = u_id a \<Longrightarrow> a' \<in> set (si_accounts (put_account a' st))"
  by (force simp: put_account_def update_rows_def)

lemma sync_account_SomeD:
  assumes "sync_account lib env roles p who ext data a st = Some (a', st')" "a \<in> set (si_accounts st)"
  shows "u_id a' = u_id a \<and> u_active a' = u_active a \<and> a' \<in> set (si_accounts st')"
  using assms by (auto simp: sync_account_def Let_def split: option.splits if_splits intro!: put_account_stored)

lemma get_or_create_owner:
  assumes "get_or_create_sso_user lib env roles p who data st = Some (Some a, st')" "u_active a"
  shows "a \<in> set (si_accounts st')
    \<and> ((\<exists>b \<in> set (si_accounts st). u_id b = u_id a \<and> u_active b \<and> owns_login p (extract_external_id lib p data) who st b)
       \<or> (pv_auto_create p \<and> u_id a \<notin> u_id ` set (si_accounts st)
          \<and> \<not> list_ex (owns_login p (extract_external_id lib p data) who st) (si_accounts st)))"
proof (cases "match_account p (extract_external_id lib p data) who st")
  case None
  have "u_id (new_sso_account env p who ext mapped st) = new_account_id st" for ext mapped
    by (simp add: new_sso_account_def Let_def link_provider_def blank_account_def split: option.split)
  then have "a \<in> set (si_accounts st') \<and> pv_auto_create p \<and> u_id a = new_account_id st"
    using assms(1) None by (auto simp: get_or_create_sso_user_def Let_def split: if_splits option.splits)
  then show ?thesis
    using match_account_None_owns [OF None] new_account_id_fresh [of st] by (simp add: list_ex_iff)
next
  case (Some b)
  note b = match_account_in [OF Some] match_account_owns [OF Some]
  show ?thesis
  proof (cases "u_active b")
    case True
    then have "sync_account lib env roles p who (extract_external_id lib p data) data b st = Some (a, st')"
      using assms(1) Some by (auto simp: get_or_create_sso_user_def Let_def)
    from sync_account_SomeD [OF this b(1)] b True show ?thesis by auto
  qed (use assms Some in \<open>simp add: get_or_create_sso_user_def\<close>)
qed

text \<open>
  C21: A session that single sign-on opens is the session of an active account, and keeps to what is bound: when an
  account is bound to the directory's id, the session is that of such an account, whatever user name and e-mail address the
  login brings; a purely local account that is not bound to the id is opened under its own user name only, never by
  its e-mail address; and an account is created only where the provider allows it and no account is bound to the id.
\<close>

theorem sso_session_respects_bindings:
  assumes "finish_sso lib env p auth_method who data (sv, ses) = (Sso_Signed_In, sv', ses')"
    and "ext = extract_external_id lib p data" "before = si_accounts (sv_site sv)"
  shows "\<exists>a \<in> set (si_accounts (sv_site sv')). s_user_id ses' = Some (u_id a) \<and> u_active a
    \<and> ((\<exists>b \<in> set before. u_id b = u_id a \<and> u_active b
           \<and> (bound_to p ext b \<or> \<not> list_ex (bound_to p ext) before)
           \<and> (bound_to p ext b \<or> linked_account b \<or> acc_username b = id_username who))
       \<or> (pv_auto_create p \<and> u_id a \<notin> u_id ` set before \<and> \<not> list_ex (bound_to p ext) before))"
proof -
  obtain a st' where a: "get_or_create_sso_user lib env (ss_roles sv) p who data (sv_site sv) = Some (Some a, st')" "u_active a"
    "sv' = set_site sv st'" "ses' = sso_full_session (re_now env) p auth_method st' a"
    using assms(1) by (auto simp: finish_sso_def split: option.splits if_splits)
  have ses: "s_user_id ses' = Some (u_id a)" "sv_site sv' = st'"
    by (simp_all add: a(3,4) sso_full_session_def full_session_def login_session.defs set_site_def empty_login_def)
  have bound: "owns_login p ext who (sv_site sv) b \<Longrightarrow>
      (bound_to p ext b \<or> \<not> list_ex (bound_to p ext) before) \<and> (bound_to p ext b \<or> linked_account b \<or> acc_username b = id_username who)" for b
    unfolding owns_login_def assms(3) by blast
  have none: "\<not> list_ex (bound_to p ext) before" if "\<not> list_ex (owns_login p ext who (sv_site sv)) before"
    using that by (auto simp: list_ex_iff owns_login_def)
  note owner = get_or_create_owner [OF a(1,2), folded assms(2,3)]
  show ?thesis
  proof (intro bexI [of _ a] conjI)
    show "s_user_id ses' = Some (u_id a)" "u_active a" "a \<in> set (si_accounts (sv_site sv'))" using ses a(2) owner by simp_all
    show "(\<exists>b \<in> set before. u_id b = u_id a \<and> u_active b
           \<and> (bound_to p ext b \<or> \<not> list_ex (bound_to p ext) before)
           \<and> (bound_to p ext b \<or> linked_account b \<or> acc_username b = id_username who))
       \<or> (pv_auto_create p \<and> u_id a \<notin> u_id ` set before \<and> \<not> list_ex (bound_to p ext) before)"
      using conjunct2 [OF owner]
    proof
      assume "\<exists>b \<in> set before. u_id b = u_id a \<and> u_active b \<and> owns_login p ext who (sv_site sv) b"
      then obtain b where "b \<in> set before" "u_id b = u_id a" "u_active b" "owns_login p ext who (sv_site sv) b" by blast
      with bound [of b] show ?thesis by (intro disjI1 bexI [of _ b]) simp_all
    qed (use none in simp)
  qed
qed

section \<open>A login\<close>

text \<open>A directory whose administrators are administrators here; it may start logins and create accounts.\<close>

definition sample_provider :: provider where
  "sample_provider = \<lparr>sp_enforce_2fa = False, pr_id = 7, pr_type = ''saml'', pv_enabled = True, pv_attribute_mapping = None,
     pv_role_mapping = Some ''{}'', pv_default_role = ''operator'', pv_auto_create = True, pv_auto_update = True, pv_sync_role = True,
     pv_allow_idp_initiated = True, pv_saml_sso_url = ''https://idp'', pv_id_token_verify = True\<rparr>"

definition sample_sso_lib :: sso_lib where
  "sample_sso_lib = \<lparr>sl_loads = (\<lambda>_. Some (JDict [(''staff'', JStr ''auditor''), (''admins'', JStr ''admin'')])), sl_str = (\<lambda>_. []), sl_drift = seconds 300\<rparr>"

definition sample_response :: saml_response where
  "sample_response = \<lparr>sm_in_response_to = None, sm_not_on_or_after = Some (hours 2), sm_assertion_id = ''_a1'', sm_name_id = ''carol'',
     sm_name_id_format = ''persistent'', sm_attributes = [(''groups'', [JStr ''staff'', JStr ''admins''])]\<rparr>"

definition sample_sso_site :: sso_site where
  "sample_sso_site = \<lparr>sv_site = sample_site, sv_2fa = Map.empty, sv_passkey = Map.empty, ss_providers = [sample_provider], ss_roles = [], ss_messages = []\<rparr>"

definition sample_finish :: saml_op where
  "sample_finish = Saml_Finish sample_sso_lib sample_route_env [] (\<lambda>_. Some sample_response) fresh_session"

definition carol :: identity where
  "carol = \<lparr>id_username = ''carol'', id_email = [], id_fullname = []\<rparr>"

definition carol_data :: "(string \<times> json) list" where
  "carol_data = [(''name_id'', JStr ''carol''), (''groups'', JList [JStr ''staff'', JStr ''admins''])]"

theorem saml_assertion_once_witness:
  "assertion_won (''_a1'', hours 2) sample_finish (0, sample_sso_site)
   \<and> wins saml_step assertion_won (''_a1'', hours 2) (0, sample_sso_site) [sample_finish, sample_finish] \<le> 1"
proof -
  have "assertion_won (''_a1'', hours 2) sample_finish (0, sample_sso_site)" by code_simp
  moreover have "all_allowed saml_step (saml_allowed (seconds 300)) (0, sample_sso_site) [sample_finish, sample_finish]"
    by code_simp
  ultimately show ?thesis using saml_assertion_once by blast
qed

definition carol_account :: account where
  "carol_account = new_sso_account sample_route_env sample_provider carol (Some ''carol'') (Some ''admin'', None) sample_site"

theorem sso_roles_are_earned_witness:
  "u_role carol_account = ''admin'' \<and> role_earned sample_sso_lib [] sample_provider carol_data sample_site carol_account"
proof -
  have "si_accounts (sv_site (fst (snd (finish_sso sample_sso_lib sample_route_env sample_provider ''sso'' carol carol_data (sample_sso_site, fresh_session)))))
      = si_accounts sample_site @ [carol_account]" by code_simp
  moreover have "u_role carol_account = ''admin''" by code_simp
  ultimately show ?thesis
    using sso_roles_are_earned [of carol_account sample_sso_lib sample_route_env sample_provider "''sso''" carol carol_data sample_sso_site fresh_session]
    by (simp add: sample_sso_site_def)
qed

text \<open>The account of Carol is bound to her id: her login opens it although it brings another user name.\<close>

definition bound_site :: sso_site where
  "bound_site = set_site sample_sso_site (sample_site\<lparr>si_accounts := [sample_admin 1, carol_account]\<rparr>)"

definition renamed_carol :: identity where
  "renamed_carol = carol\<lparr>id_username := ''admin1''\<rparr>"

theorem sso_session_respects_bindings_witness:
  "list_ex (bound_to sample_provider (Some ''carol'')) (si_accounts (sv_site bound_site))
   \<and> (\<exists>sv' ses'. finish_sso sample_sso_lib sample_route_env sample_provider ''sso'' renamed_carol carol_data (bound_site, fresh_session)
         = (Sso_Signed_In, sv', ses') \<and> s_user_id ses' = Some 3
       \<and> (\<exists>b. b \<in> set (si_accounts (sv_site bound_site)) \<and> u_id b = 3 \<and> bound_to sample_provider (Some ''carol'') b))"
proof -
  let ?r = "finish_sso sample_sso_lib sample_route_env sample_provider ''sso'' renamed_carol carol_data (bound_site, fresh_session)"
  have bound: "list_ex (bound_to sample_provider (Some ''carol'')) (si_accounts (sv_site bound_site))" by code_simp
  have ext: "Some ''carol'' = extract_external_id sample_sso_lib sample_provider carol_data" by code_simp
  have "fst ?r = Sso_Signed_In" "s_user_id (snd (snd ?r)) = Some 3" by code_simp+
  then have r: "?r = (Sso_Signed_In, fst (snd ?r), snd (snd ?r))" "s_user_id (snd (snd ?r)) = Some 3" by (auto simp: prod_eq_iff)
  from sso_session_respects_bindings [OF r(1) ext refl] bound r(2)
  have "\<exists>b. b \<in> set (si_accounts (sv_site bound_site)) \<and> u_id b = 3 \<and> bound_to sample_provider (Some ''carol'') b" by fastforce
  with bound r show ?thesis by blast
qed

text \<open>
  An account that is bound to the id of one person is opened, and bound anew, by the login of another person
  whose user name at the directory is that of the account: the fallback to the user name is not
  limited to accounts without an id.
\<close>

theorem user_name_takes_over_bound_account:
  "acc_sso_external_id carol_account = Some ''carol'' \<and> acc_sso_provider_id carol_account = Some 7
   \<and> (case finish_sso sample_sso_lib sample_route_env sample_provider ''sso'' carol [(''name_id'', JStr ''mallory'')] (bound_site, fresh_session) of
        (answer, sv', ses') \<Rightarrow> answer = Sso_Signed_In \<and> s_user_id ses' = Some (u_id carol_account)
          \<and> map acc_sso_external_id (si_accounts (sv_site sv')) = [None, Some ''mallory''])"
  by code_simp

end
