(* ===== verification/Spec2Isabelle.thy ===== *)
theory Spec2Isabelle
  imports Auth Audit_Chain Rate_Limiter Csrf Password_Policy Approval_Progress Acme_Safety Revocation_Answers
    Cert_Status Ocsp_Cache Crl_Schedule Ca_Deletion Network_Trust Dns_Replay Dns_Server Sign_In_Safety
    Ssrf_Safety Sso_Safety
begin

text \<open>
  Ultimate CA Manager: a verification development of the Python back end (\<^verbatim>\<open>src/backend/\<close>; the
  paths below are relative to it).

  \<^bold>\<open>The program.\<close> A Flask application keeps certificate authorities, certificates and revocations in
  an SQL database, issues certificates for administrators and for enrolment protocols (an ACME server
  foremost), publishes revocation lists, answers OCSP requests, and keeps an audit log. A request
  passes, in this order, the gate on forwarded headers and the address allowlist
  (\<open>Network_Trust\<close>), the host check (\<open>Endpoints\<close>), the rate limiter (\<open>Rate_Limiter\<close>), the CSRF hook
  (\<open>Csrf\<close>) and the authentication decorator (\<open>Auth\<close>), which asks \<open>Permissions\<close> what the caller may
  do. The sessions it reads come from signing in (\<open>Sign_In\<close>) to an account (\<open>Accounts\<close>) with its second
  factors (\<open>Second_Factors\<close>), or from a directory that vouches for a user (\<open>Sso\<close>). Requests that the server itself
  sends to configured hosts pass a guard (\<open>Ssrf\<close>). Issuing consults the policies (\<open>Policies\<close>) and, when one of them asks for it, waits for votes
  (\<open>Approvals\<close>). ACME clients reach the same signing service through accounts, orders and challenges
  (\<open>Acme_*\<close>), after the checks of CAA records (\<open>Caa\<close>) and of the name constraints of the chain
  (\<open>Name_Constraints\<close>). Whatever has been issued can be revoked (\<open>Revocation\<close>), is published by the
  lists (\<open>Crl\<close>, \<open>Crl_Schedule\<close>) and told by the responder (\<open>Ocsp\<close>, with the response cache). A
  separate listener takes signed DNS UPDATE messages from clients of the ACME proxy (\<open>Dns_*\<close>). Changes
  of state are recorded in a hash chain (\<open>Audit_Chain\<close>).

  \<^bold>\<open>How code becomes definitions.\<close> A function keeps its name and its order of checks. A row or an object
  is a \<^theory_text>\<open>record\<close>, a closed set of strings (a status, a role, an outcome) a \<^theory_text>\<open>datatype\<close>; a table is the
  list of its rows in the order of insertion, a query a filter and an \<open>UPDATE\<close> a map over it. A
  function that changes the database or an object takes its state and returns the new one. An
  exception, an HTTP error or an early return is a constructor of a result type or \<open>None\<close>. Integers of
  Python are \<^typ>\<open>int\<close>; octets of DNS messages and of addresses are words of fixed width, with the
  wrap-around of the header arithmetic written out; times are \<^typ>\<open>int\<close> in microseconds. Everything
  that a proof evaluates is executable, and each property with hypotheses has a witness that evaluates
  the model on a concrete input.

  \<^bold>\<open>Theories and sources.\<close>

  \<^item> \<open>Prelude\<close>: strings, JSON values, rows and lists shared by all components, with the collections of
    facts they add to. \<open>Ordered_Dict\<close>: Python's \<open>OrderedDict\<close> with bounded size. \<open>Ip_Address\<close>: the
    addresses and networks of \<open>ipaddress\<close>. \<open>Reload_Cache\<close>: the interface of the caches over the
    database as two locales.
  \<^item> \<open>Permissions\<close>: \<^verbatim>\<open>auth/permissions.py\<close>, \<^verbatim>\<open>models/rbac.py\<close>, \<^verbatim>\<open>models/group.py\<close>.
    \<open>Auth\<close>: \<^verbatim>\<open>auth/unified.py\<close>, \<^verbatim>\<open>auth/twofa_enforcement.py\<close>, \<^verbatim>\<open>auth/password_change_gate.py\<close>,
    \<^verbatim>\<open>models/api_key.py\<close>. \<open>Csrf\<close>, \<open>Rate_Limiter\<close>, \<open>Password_Policy\<close>: the files of these names under
    \<^verbatim>\<open>security/\<close>. \<open>Endpoints\<close>: \<^verbatim>\<open>utils/public_endpoints.py\<close>. \<open>Network_Trust\<close>:
    \<^verbatim>\<open>utils/trusted_proxy.py\<close>, \<^verbatim>\<open>utils/admin_allowlist.py\<close>, \<^verbatim>\<open>listen_address.py\<close> and the hooks of
    \<^verbatim>\<open>app.py\<close>.
  \<^item> \<open>Accounts\<close>: \<^verbatim>\<open>models/user.py\<close>, \<^verbatim>\<open>utils/password_hash.py\<close>, \<^verbatim>\<open>api/v2/users/\<close>,
    \<^verbatim>\<open>api/v2/account/password.py\<close>, \<^verbatim>\<open>services/api_key_revocation.py\<close>. \<open>Second_Factors\<close>:
    \<^verbatim>\<open>utils/backup_codes.py\<close>, \<^verbatim>\<open>api/v2/account/twofa.py\<close>, \<^verbatim>\<open>services/webauthn_service.py\<close>,
    \<^verbatim>\<open>api/v2/webauthn.py\<close>. \<open>Sign_In\<close>: \<^verbatim>\<open>api/v2/auth_methods.py\<close>, the lockout of
    \<^verbatim>\<open>api/v2/sso/helpers.py\<close> and the forgotten passwords of \<^verbatim>\<open>api/v2/auth.py\<close>. \<open>Account_Safety\<close>,
    \<open>Factor_Safety\<close> and \<open>Sign_In_Safety\<close> hold their properties.
  \<^item> \<open>Sso\<close> and \<open>Sso_Safety\<close>: \<^verbatim>\<open>api/v2/sso/helpers.py\<close> (mappings of attributes and roles),
    \<^verbatim>\<open>ldap_routes.py\<close> (the account of a login), \<^verbatim>\<open>saml_sp.py\<close> (ids of SAML messages) and
    \<^verbatim>\<open>login_routes.py\<close>. \<open>Ssrf\<close> and \<open>Ssrf_Safety\<close>: \<^verbatim>\<open>utils/ssrf_protection.py\<close>.
  \<^item> \<open>Audit_Chain\<close>: \<^verbatim>\<open>services/audit/\<close> and \<^verbatim>\<open>models/audit_log.py\<close>.
  \<^item> \<open>Policies\<close>, \<open>Approvals\<close>, \<open>Approval_Progress\<close>: \<^verbatim>\<open>models/policy.py\<close>, \<^verbatim>\<open>services/policy_service.py\<close>,
    \<^verbatim>\<open>services/approval_gate.py\<close>, \<^verbatim>\<open>api/v2/policies.py\<close>.
  \<^item> \<open>Serials\<close>: \<^verbatim>\<open>utils/serial_format.py\<close>, \<^verbatim>\<open>utils/revocation_reasons.py\<close>. \<open>Pki_Tables\<close>: the models of
    certificates, authorities, revocation records and lists, with \<^verbatim>\<open>utils/cert_issuer.py\<close> and
    \<^verbatim>\<open>services/hsm/ca_key_loader.py\<close>. \<open>Crl\<close> and \<open>Crl_Content\<close>: \<^verbatim>\<open>services/crl/\<close>.
    \<open>Ocsp\<close> and \<open>Ocsp_Cache\<close>: \<^verbatim>\<open>services/ocsp_service.py\<close>, \<^verbatim>\<open>api/ocsp_routes.py\<close>. \<open>Revocation\<close>:
    \<^verbatim>\<open>services/cert/mixins/lifecycle.py\<close>, \<^verbatim>\<open>services/cert/renewal.py\<close>,
    \<^verbatim>\<open>services/ca/ca_operations.py\<close>, \<^verbatim>\<open>services/ca/cross_certs.py\<close>. \<open>Revocation_Safety\<close> and
    \<open>Revocation_Answers\<close> compose them. \<open>Crl_Schedule\<close>: \<^verbatim>\<open>services/crl_scheduler_task.py\<close>.
    \<open>Cert_Status\<close>: \<^verbatim>\<open>utils/cert_status.py\<close> and its readers. \<open>Ca_Deletion\<close>:
    \<^verbatim>\<open>services/deletion_blockers.py\<close>, \<^verbatim>\<open>services/ca/ca_crud.py\<close>, \<^verbatim>\<open>api/v2/cas/bulk.py\<close>.
  \<^item> \<open>Name_Constraints\<close>: \<^verbatim>\<open>services/trust_store/constraints_mixin.py\<close>, \<^verbatim>\<open>validation_helpers.py\<close>.
    \<open>Caa\<close>: \<^verbatim>\<open>utils/caa_checker.py\<close>.
  \<^item> \<open>Acme_Names\<close>: \<^verbatim>\<open>services/acme/domain_match.py\<close>, \<^verbatim>\<open>identifiers.py\<close>. \<open>Acme_Accounts\<close>: the nonce,
    account and binding mixins of \<^verbatim>\<open>services/acme/mixins/\<close>. \<open>Acme_Orders\<close>: the order and challenge
    mixins and the routes of \<^verbatim>\<open>api/acme/acme_api.py\<close>; \<open>Acme_Safety\<close> their interleavings;
    \<open>Acme_Finalize\<close>: \<^verbatim>\<open>services/acme/mixins/issuance.py\<close>.
  \<^item> \<open>Dns_Messages\<close>, \<open>Dns_Keys\<close>, \<open>Dns_Records\<close>, \<open>Dns_Zones\<close>, \<open>Dns_Tsig\<close>, \<open>Dns_Update\<close>, \<open>Dns_Server\<close>: the
    files of \<^verbatim>\<open>services/acme/dns_update/\<close> (constants, keys, records, zones, tsig, handler; server, audit
    and status), with \<^verbatim>\<open>models/acme_dns_update.py\<close> and the routes that manage the keys;
    \<open>Dns_Update_Safety\<close> and \<open>Dns_Replay\<close> their properties.

  \<^bold>\<open>State.\<close> A few records carry the state that several components share. \<open>pki\<close> (\<open>Pki_Tables\<close>) holds the
  tables of certificates, authorities, revocation records, lists and cached responses, and is changed
  by \<open>Crl\<close>, \<open>Ocsp\<close>, \<open>Revocation\<close> and \<open>Ca_Deletion\<close>. \<open>acme_state\<close> (\<open>Acme_Orders\<close>) holds orders,
  authorizations and challenges. \<open>handler_state\<close> (\<open>Dns_Update\<close>) holds the tables, caches, time table and
  replay cache of the listener. \<open>site\<close> (\<open>Accounts\<close>) holds accounts, keys, challenges and settings, and the
  \<open>server\<close> of \<open>Sign_In\<close> adds the failed attempts kept in memory; \<open>db_of\<close> is what \<open>Auth\<close> reads of it. The
  \<open>sso_site\<close> of \<open>Sso\<close> extends it by providers, roles and the ids of SAML messages. \<open>outbound\<close> (\<open>Ssrf\<close>) holds the
  pinned addresses of a thread and what has been sent. The
  step relations \<open>pki_step\<close>, \<open>acme_step\<close>, \<open>approval_step\<close> and \<open>signing_in\<close>, and runs of the step functions
  \<open>nonce_step\<close>, \<open>registry_step\<close>, \<open>key_step\<close>, \<open>recovery_step\<close>, \<open>saml_step\<close> and \<open>sign_in_step\<close>, interleave the operations in any
  order; the invariants are proved by induction on them.

  \<^bold>\<open>What is proved.\<close>

  \<^item> Revocation: a revocation outlives the certificate and every later operation of the revocation
    components; where no two records spelled alike name different serials, a full list is exactly
    the set of revoked serials and a delta list the new part; the numbers of the lists signed here
    increase; the responder tells a revocation at once under the CA its row names; scheduled lists stay fresh; deleting
    authorities leaves no dangling reference. A signing key is released only when the chain of its
    authority, walked to its end, is clean.
  \<^item> Issuing: an approval needs its quorum of distinct voters (duplicates for the same target are closed
    with it), a closed request stays closed, and a quorum does approve; the gate fails closed; the names
    of a certificate were proved by the order it finalizes, and an order advances only when authorised,
    for orders created without interruption and with the automatic approval of configured domains
    counted as a proof. The name constraints of every CA on the chain are enforced; which names are
    collected from a request and how a name matches a subtree are the code's own rules. Under strict
    enforcement and for known methods the CAA check is that of RFC 8659 and RFC 8657, which are stated
    apart from the code; in soft mode it passes over failed lookups.
  \<^item> Access: no way to permissions the role, groups or key do not give; nonces, CSRF tokens and external
    account bindings are good once, or for their user and time only; forwarded headers count only from
    trusted proxies; the rate limiter admits no more than its budget in any window. A session rests on a
    passkey, or on the password and the second factor the account has, or on one of the doors of single
    sign-on, LDAP and client certificates; at the doors wrong passwords and codes are bounded
    in any period as long as the lockout; a recovery code is good once; a required factor is not removed by
    its owner; an active administrator remains, and the routes of account administration let
    administrators only change other accounts.
  \<^item> Single sign-on: a SAML assertion signs in once; roles come from the mapping of the groups, or from the default
    for a new account; a session keeps to the account that is bound to the directory's id, and a purely local account
    is never opened by its e-mail address; an OIDC login needs the nonce of its session.
  \<^item> Outbound requests: every spelling of a metadata endpoint without a scope is refused, and nothing else is refused as one
    (RFC 6052, 6to4, Teredo and ISATAP stated on octets); a connection to a plain URL goes only to an address that was
    checked, whatever the resolver and the servers answer; nothing of the caller crosses to another origin
    (\<open>request_args\<close> has the arguments that callers pass; a client certificate is not among them).
  \<^item> Audit: for a ledger that one key wrote into an empty table, a table that verifies is a prefix of what
    was written, and a written ledger verifies.
  \<^item> DNS UPDATE: a request is accepted only with the proof of a key whose scope allows each value; a copy
    changes nothing; an answer to an unproven request is not longer than the request; a revoked key is
    never found again; the messages that pass are bounded by the listener's budget.
  \<^item> Flaws: where the code departs from its intent, a theorem gives the input
    (\<open>completed_order_reopens\<close>, \<open>reimported_certificate_splits_answers\<close>,
    \<open>password_change_ends_no_session\<close>, \<open>administrators_disable_each_other\<close>, \<open>scoped_metadata_passes\<close>,
    \<open>user_name_takes_over_bound_account\<close>, \<open>international_host_misses_its_pin\<close>,
    \<open>interrupted_order_skips_authorization\<close>, \<open>shared_key_answer_survives_revocation\<close>,
    \<open>answer_cached_across_revocation\<close> and the lemmas beside the
    definitions concerned).

  \<^bold>\<open>Interfaces.\<close> \<open>single_use\<close> (tokens that are granted once: nonces, bindings,
  recovery codes, SAML assertions), \<open>attempt_lockout\<close> (a counter of failed attempts that locks: passwords, second factors), \<open>grant_source\<close> and \<open>unprivileged_source\<close>
  (where permissions come from), \<open>pending_update\<close> (updates that touch pending approval requests only),
  \<open>answer_store\<close> (the cache of responses), \<open>reload_cache\<close> and \<open>fail_closed_cache\<close> (caches over the
  database) are locales. Each is interpreted on the model of the code that provides it, in that
  component's theory, and the properties use the interpreted facts.

  \<^bold>\<open>Parameters.\<close> Code that is not part of the repository is an argument: HMAC, SHA-256 and base64; the
  X.509 library (parsing, signature checks, key loading, the outcome of signing); the text forms of
  \<open>ipaddress\<close>; the DNS resolver; \<open>ProxyFix\<close>; dnspython (\<open>dns_lib\<close>); password hashes
  (\<open>password_lib\<close>); one-time passwords and WebAuthn (\<open>factor_lib\<close>); encryption at rest (\<open>secret_lib\<close>); URL parsing, name lookups, connections and answers of servers
  (\<open>web_lib\<close>, \<open>world\<close>); JSON and what a directory answers (\<open>sso_lib\<close> and arguments of the routes); random values; clocks; and which database writes fail. What a property needs of them is
  a named hypothesis (that HMACs of different messages differ, that one name has one printed form, that a
  clock does not run backwards), and its witness gives a concrete instance.

  \<^bold>\<open>Bounds and fuel.\<close> The recursions that follow data carry the bound the code has: 64 steps in the walk
  of an issuing chain (\<open>MAX_CHAIN_DEPTH\<close>) and of inherited roles, 16 certificates for name constraints,
  100 identifiers in a bulk request. The climb through the labels of a DNS name has the number of labels
  as fuel, and a lemma shows that more does not change the result. The replay cache keeps 4096 answers for
  600 seconds, the table of times 4096 keys. All other loops are structural recursions on the data they
  traverse.

  \<^bold>\<open>Not modelled.\<close> Encoding and signing of certificates, lists, time stamps and SSH certificates
  (cryptography library and PKCS#11); the message formats of SCEP, EST, WSTEP and XCEP; the conversations
  of the ACME client and proxy with other servers and the network probes of challenges, whose answers
  decide every step; connectors to Microsoft CA, Active Directory and hardware modules; the
  conversations with OIDC, SAML and LDAP servers, the verification of ID tokens and the sign-in with client certificates; backups, migrations, imports, reports,
  notifications and the remaining administration routes, which read and write rows without rules of
  their own beyond those modelled; log texts, HTTP headers and JSON layouts. Requests run one at a
  time in the model, except where the code itself interleaves (validation and finalization of orders,
  caching of responses, votes, copies of a DNS message, token races), which are separate steps.
\<close>

end
